(* ===== verification/Machine_Prelude.thy ===== *)
theory Machine_Prelude
  imports Main "HOL-Library.Word" "HOL-Library.Signed_Division"
begin

text \<open>
  The vocabulary that every theory of the development shares: the machine integers of the
  C++ code as words of fixed width, the exceptions of the simulator
  (\<^verbatim>\<open>src/src/machine/simulator_exception.h\<close>) as a datatype, computations that may throw as
  values of a sum type, and the generic lemmas on words, lists and sums that the component
  proofs use.
\<close>

unbundle bit_operations_syntax

section \<open>Machine integers\<close>

type_synonym u8 = "8 word"
type_synonym u16 = "16 word"
type_synonym u32 = "32 word"
type_synonym u64 = "64 word"
type_synonym u128 = "128 word"

text \<open>
  The class \<^verbatim>\<open>Address\<close> and the class \<^verbatim>\<open>RegisterValue\<close> both wrap one \<^verbatim>\<open>uint64_t\<close>.
\<close>

type_synonym address = u64
type_synonym register_value = u64

text \<open>C++ converts a \<^verbatim>\<open>bool\<close> to 0 or 1.\<close>

definition bool_to_word :: "bool \<Rightarrow> 'a::len word" where
  "bool_to_word b = (if b then 1 else 0)"

section \<open>Exceptions and results\<close>

text \<open>
  A page fault carries the number of its exception cause.  The last three constructors are no
  exceptions but the other ways in which a call may fail to return a value: a loop that never
  ends, the use of a null pointer, and an operation that C++ leaves undefined.
\<close>

datatype sim_exception =
    Input
  | UnsupportedInstruction
  | UnalignedJump
  | UnknownMemoryControl
  | OutOfMemoryAccess
  | PageFault nat
  | SyscallUnknown
  | Sanity
  | NonTermination
  | NullDereference
  | UndefinedBehaviour

type_synonym 'a result = "sim_exception + 'a"

fun res_bind :: "'a result \<Rightarrow> ('a \<Rightarrow> 'b result) \<Rightarrow> 'b result" where
  "res_bind (Inl e) f = Inl e"
| "res_bind (Inr x) f = f x"

definition is_ok :: "'a result \<Rightarrow> bool" where
  "is_ok r = (case r of Inl _ \<Rightarrow> False | Inr _ \<Rightarrow> True)"

lemma is_ok_simps [simp]:
  "is_ok (Inr x)" "\<not> is_ok (Inl e)"
  by (simp_all add: is_ok_def)

lemma is_ok_iff: "is_ok r \<longleftrightarrow> (\<exists>x. r = Inr x)"
  by (cases r) simp_all

lemma res_bind_Inr_iff:
  "res_bind r f = Inr y \<longleftrightarrow> (\<exists>x. r = Inr x \<and> f x = Inr y)"
  by (cases r) simp_all

lemma res_bind_assoc:
  "res_bind (res_bind r f) g = res_bind r (\<lambda>x. res_bind (f x) g)"
  by (cases r) simp_all

text \<open>
  Code that changes a state and may throw: the state is returned in both cases, since C++ keeps
  what was changed before the throw.
\<close>

type_synonym ('s, 'a) action = "'s \<Rightarrow> 's \<times> 'a result"

definition act_return :: "'a \<Rightarrow> ('s, 'a) action" where
  "act_return x = (\<lambda>s. (s, Inr x))"

definition act_throw :: "sim_exception \<Rightarrow> ('s, 'a) action" where
  "act_throw e = (\<lambda>s. (s, Inl e))"

definition act_bind :: "('s, 'a) action \<Rightarrow> ('a \<Rightarrow> ('s, 'b) action) \<Rightarrow> ('s, 'b) action" where
  "act_bind f g = (\<lambda>s. case f s of (s', Inl e) \<Rightarrow> (s', Inl e) | (s', Inr x) \<Rightarrow> g x s')"

lemma act_simps [simp]:
  "act_return x s = (s, Inr x)" "act_throw e s = (s, Inl e)"
  by (simp_all add: act_return_def act_throw_def)

lemma act_bind_ok [simp]: "f s = (s', Inr x) \<Longrightarrow> act_bind f g s = g x s'"
  by (simp add: act_bind_def)

lemma act_bind_err [simp]: "f s = (s', Inl e) \<Longrightarrow> act_bind f g s = (s', Inl e)"
  by (simp add: act_bind_def)

section \<open>Words\<close>

text \<open>Facts that read a word at its width; the components collect them by name.\<close>

named_theorems word_reads \<open>equations that turn word operations into arithmetic on integers\<close>

lemma uint_bool_to_word [simp]: "uint (bool_to_word b :: 'a::len word) = (if b then 1 else 0)"
  by (simp add: bool_to_word_def)

lemma bool_to_word_eq_0 [simp]: "(bool_to_word b :: 'a::len word) = 0 \<longleftrightarrow> \<not> b"
  by (simp add: bool_to_word_def)

lemma uint_word_of_int64: "0 \<le> x \<Longrightarrow> x < 2 ^ 64 \<Longrightarrow> uint (word_of_int x :: u64) = x"
  by (simp add: unsigned_of_int take_bit_int_eq_self)

lemma sint_word_of_int64: "- (2 ^ 63) \<le> x \<Longrightarrow> x < 2 ^ 63 \<Longrightarrow> sint (word_of_int x :: u64) = x"
  by (simp add: signed_of_int signed_take_bit_int_eq_self)

lemma unat_of_nat_small: "n < 2 ^ LENGTH('a) \<Longrightarrow> unat (of_nat n :: 'a::len word) = n"
  by (simp add: unsigned_of_nat take_bit_nat_eq_self)

lemma sint_eq_0_iff [simp]: "sint (w :: 'a::len word) = 0 \<longleftrightarrow> w = 0"
  using signed_word_eqI [of w 0] by auto

lemma uint_mult64: "uint (a * b :: u64) = (uint a * uint b) mod 2 ^ 64"
  by (simp add: uint_word_ariths)

lemma sint_mod64: "sint (a::u64) mod 2 ^ 64 = uint a"
  using uint_sint [of a] by (simp add: take_bit_eq_mod)

lemma uint_mult64_signed: "(sint a * sint b) mod 2 ^ 64 = uint (a * b :: u64)"
  by (metis uint_mult64 sint_mod64 mod_mult_eq)

lemma uint_mult64_mixed: "(sint a * uint b) mod 2 ^ 64 = uint (a * b :: u64)"
  by (metis uint_mult64 sint_mod64 mod_mult_left_eq)

lemma sint_range64: "- (2 ^ 63) \<le> sint (a::u64)" "sint a < 2 ^ 63" "\<bar>sint a\<bar> \<le> 2 ^ 63"
  using sint_range_size [of a] by (simp_all add: word_size abs_le_iff)

section \<open>Truncating division\<close>

lemma smod_bounds:
  fixes x y :: int assumes "y \<noteq> 0"
  shows "\<bar>x smod y\<bar> < \<bar>y\<bar>" and "x smod y = 0 \<or> sgn (x smod y) = sgn x"
proof -
  have "x smod y = sgn x * (\<bar>x\<bar> mod \<bar>y\<bar>)"
    by (simp add: signed_modulo_int_def)
  moreover have "0 \<le> \<bar>x\<bar> mod \<bar>y\<bar>" "\<bar>x\<bar> mod \<bar>y\<bar> < \<bar>y\<bar>" using assms by simp_all
  ultimately show "\<bar>x smod y\<bar> < \<bar>y\<bar>" "x smod y = 0 \<or> sgn (x smod y) = sgn x"
    by (auto simp: abs_mult sgn_mult sgn_if)
qed

lemma sint_of_smod:
  fixes a b :: "'a::len word" assumes "sint b \<noteq> 0"
  shows "sint (word_of_int (sint a smod sint b) :: 'a word) = sint a smod sint b"
proof -
  have "\<bar>sint a smod sint b\<bar> < \<bar>sint b\<bar>" using assms by (rule smod_bounds)
  moreover have "\<bar>sint b\<bar> \<le> 2 ^ (LENGTH('a) - 1)"
    using sint_range_size [of b] by (simp add: word_size abs_le_iff minus_le_iff)
  ultimately have "- (2 ^ (LENGTH('a) - 1)) \<le> sint a smod sint b" "sint a smod sint b < 2 ^ (LENGTH('a) - 1)"
    by linarith+
  then show ?thesis by (simp add: signed_of_int signed_take_bit_int_eq_self)
qed

lemma abs_div_le: "\<bar>x\<bar> div \<bar>y\<bar> \<le> \<bar>x\<bar>" for x y :: int
  by (metis abs_ge_zero abs_of_nonneg int_one_le_iff_zero_less div_by_1 zdiv_mono2 div_by_0 zero_less_one
      zero_less_abs_iff abs_zero)

lemma sint_of_sdiv:
  fixes a b :: "'a::len word"
  assumes "\<not> (sint a = - (2 ^ (LENGTH('a) - 1)) \<and> sint b = - 1)"
  shows "sint (word_of_int (sint a sdiv sint b) :: 'a word) = sint a sdiv sint b"
proof -
  let ?m = "2 ^ (LENGTH('a) - 1) :: int"
  have a: "- ?m \<le> sint a" "sint a < ?m" using sint_range_size [of a] by (simp_all add: word_size)
  have q: "sint a sdiv sint b = sgn (sint a) * sgn (sint b) * (\<bar>sint a\<bar> div \<bar>sint b\<bar>)"
    by (simp add: signed_divide_int_def sgn_mult)
  have le: "0 \<le> \<bar>sint a\<bar> div \<bar>sint b\<bar>" "\<bar>sint a\<bar> div \<bar>sint b\<bar> \<le> \<bar>sint a\<bar>"
    by (simp add: div_int_pos_iff) (rule abs_div_le)
  have "- ?m \<le> sint a sdiv sint b \<and> sint a sdiv sint b < ?m"
  proof (cases "sint a = - ?m \<and> 0 > sint b")
    case True
    then have "1 < \<bar>sint b\<bar>" using assms by linarith
    moreover have "0 < ?m" by simp
    ultimately have "?m div \<bar>sint b\<bar> < ?m" by (simp add: int_div_less_self)
    then show ?thesis using True le unfolding q by (simp add: sgn_if)
  next
    case False
    then show ?thesis using a le unfolding q by (auto simp: sgn_if abs_if split: if_splits)
  qed
  then show ?thesis by (simp add: signed_of_int signed_take_bit_int_eq_self)
qed

lemma signed_div_mod_word:
  fixes a b :: "'a::len word"
  shows "word_of_int (sint a sdiv sint b) * b + word_of_int (sint a smod sint b) = a"
proof -
  have "word_of_int (sint a sdiv sint b) * b + word_of_int (sint a smod sint b) =
     (word_of_int (sint a sdiv sint b) * word_of_int (sint b) + word_of_int (sint a smod sint b) :: 'a word)"
    by simp
  also have "\<dots> = word_of_int (sint a sdiv sint b * sint b + sint a smod sint b)"
    by (simp only: of_int_add of_int_mult)
  also have "\<dots> = a" by (simp add: sdiv_mult_smod_eq)
  finally show ?thesis .
qed

text \<open>Masks, read bit by bit.\<close>

lemma xor_and_0_iff: "(w XOR c) AND m = 0 \<longleftrightarrow> (\<forall>n. bit m n \<longrightarrow> bit w n = bit c n)" for w :: "'a::len word"
  by (auto simp: bit_eq_iff bit_simps dest: bit_imp_le_length)

lemma and_0_iff: "a AND b = 0 \<longleftrightarrow> (\<forall>n. bit a n \<longrightarrow> \<not> bit b n)" for a :: "'a::len word"
  by (auto simp: bit_eq_iff bit_simps dest: bit_imp_le_length)

lemma and_not_0_iff: "a AND NOT b = 0 \<longleftrightarrow> (\<forall>n. bit a n \<longrightarrow> bit b n)" for a :: "'a::len word"
  by (auto simp: bit_eq_iff bit_simps dest: bit_imp_le_length)

end
