(* ===== verification/BitField.thy ===== *)
theory BitField
  imports Machine_Prelude
begin

text \<open>
  Binary encoded fields (\<^verbatim>\<open>src/src/machine/bitfield.h\<close>) and the bit extraction helpers of
  \<^verbatim>\<open>src/src/common/math/bit_ops.h\<close>: a continuous field, a field split into parts, and the
  round trips between a value and its encoding.
\<close>

section \<open>Definitions\<close>

record BitField =
  bf_count :: nat
  bf_offset :: nat

text \<open>
  The mask is a 64-bit constant: \<^verbatim>\<open>decode\<close> and \<^verbatim>\<open>encode\<close> compute at 64 bits and truncate
  to the argument's type on return.
\<close>

definition bf_low_mask :: "BitField \<Rightarrow> u64" where
  "bf_low_mask f = push_bit (bf_count f) 1 - 1"

definition bf_decode :: "BitField \<Rightarrow> 'a::len word \<Rightarrow> 'a word" where
  "bf_decode f val = ucast (ucast (drop_bit (bf_offset f) val) AND bf_low_mask f)"

definition bf_encode :: "BitField \<Rightarrow> 'a::len word \<Rightarrow> 'a word" where
  "bf_encode f val = ucast (push_bit (bf_offset f) (ucast val AND bf_low_mask f))"

definition bf_mask :: "BitField \<Rightarrow> u64" where
  "bf_mask f = push_bit (bf_offset f) (bf_low_mask f)"

record SplitBitField =
  sbf_fields :: "BitField list"
  sbf_shift :: nat

fun sbf_decode_loop :: "BitField list \<Rightarrow> u32 \<Rightarrow> u32 \<Rightarrow> nat \<Rightarrow> u32" where
  "sbf_decode_loop [] ins ret offset = ret"
| "sbf_decode_loop (f # fs) ins ret offset =
     sbf_decode_loop fs ins (ret OR push_bit offset (bf_decode f ins)) (offset + bf_count f)"

definition sbf_decode :: "SplitBitField \<Rightarrow> u32 \<Rightarrow> u32" where
  "sbf_decode s ins = push_bit (sbf_shift s) (sbf_decode_loop (sbf_fields s) ins 0 0)"

fun sbf_encode_loop :: "BitField list \<Rightarrow> u32 \<Rightarrow> u32 \<Rightarrow> u32" where
  "sbf_encode_loop [] imm ret = ret"
| "sbf_encode_loop (f # fs) imm ret =
     sbf_encode_loop fs (drop_bit (bf_count f) imm) (ret OR bf_encode f imm)"

definition sbf_encode :: "SplitBitField \<Rightarrow> u32 \<Rightarrow> u32" where
  "sbf_encode s imm = sbf_encode_loop (sbf_fields s) (drop_bit (sbf_shift s) imm) 0"

text \<open>
  The helpers of \<^verbatim>\<open>bit_ops.h\<close>. The mask of \<^verbatim>\<open>get_bitmask\<close> is computed as an \<^verbatim>\<open>int\<close>, so it
  is right for at most 31 bits; a signed 32-bit value is converted to the argument's type.
\<close>

definition get_bit :: "'a::len word \<Rightarrow> nat \<Rightarrow> 'a word" where
  "get_bit val bit_index = drop_bit bit_index val AND 1"

definition get_bitmask :: "nat \<Rightarrow> nat \<Rightarrow> 'a::len word" where
  "get_bitmask s e = (let len = s - e + 1 in scast (push_bit e (push_bit len 1 - 1) :: u32))"

definition mask_bits :: "'a::len word \<Rightarrow> nat \<Rightarrow> nat \<Rightarrow> 'a word" where
  "mask_bits val s e = val AND get_bitmask s e"

definition get_bits :: "'a::len word \<Rightarrow> nat \<Rightarrow> nat \<Rightarrow> 'a word" where
  "get_bits val s e = mask_bits (drop_bit e val) (s - e) 0"

definition sign_extend :: "u64 \<Rightarrow> nat \<Rightarrow> u64" where
  "sign_extend val sz = (let shift = 64 - sz in signed_drop_bit shift (push_bit shift val))"

section \<open>Continuous fields\<close>

lemma bf_low_mask_eq: "bf_count f < 64 \<Longrightarrow> bf_low_mask f = mask (bf_count f)"
  by (simp add: bf_low_mask_def mask_eq_exp_minus_1 push_bit_eq_mult)

lemma bit_bf_decode:
  assumes "bf_count f < 64" "LENGTH('a) \<le> 64"
  shows "bit (bf_decode f (v :: 'a::len word)) n \<longleftrightarrow> n < bf_count f \<and> bit v (bf_offset f + n)"
  using assms by (auto simp: bf_decode_def bf_low_mask_eq bit_simps dest: bit_imp_le_length)

lemma bit_bf_encode:
  assumes "bf_count f < 64" "LENGTH('a) \<le> 64"
  shows "bit (bf_encode f (v :: 'a::len word)) n \<longleftrightarrow>
    n < LENGTH('a) \<and> bf_offset f \<le> n \<and> n < bf_offset f + bf_count f \<and> bit v (n - bf_offset f)"
  using assms by (auto simp: bf_encode_def bf_low_mask_eq bit_simps)

text \<open>A field that lies inside the word reads back what was encoded into it, cut to its width.\<close>

lemma bf_decode_encode:
  assumes "bf_offset f + bf_count f \<le> LENGTH('a)" "LENGTH('a) \<le> 64" "bf_count f < 64"
  shows "bf_decode f (bf_encode f (v :: 'a::len word)) = take_bit (bf_count f) v"
  using assms by (intro bit_word_eqI) (auto simp: bit_bf_decode bit_bf_encode bit_simps)

lemma bf_encode_decode:
  assumes "LENGTH('a) \<le> 64" "bf_count f < 64"
  shows "bf_encode f (bf_decode f (v :: 'a::len word)) = v AND ucast (bf_mask f)"
  using assms by (intro bit_word_eqI) (auto simp: bit_bf_decode bit_bf_encode bf_mask_def bf_low_mask_eq bit_simps)

section \<open>Split fields\<close>

text \<open>The instruction bits of a part, and when the parts do not overlap.\<close>

definition bf_bits :: "BitField \<Rightarrow> nat set" where
  "bf_bits f = {bf_offset f ..< bf_offset f + bf_count f}"

fun sbf_fields_ok :: "BitField list \<Rightarrow> bool" where
  "sbf_fields_ok [] = True"
| "sbf_fields_ok (f # fs) = (bf_offset f + bf_count f \<le> 32 \<and>
     list_all (\<lambda>g. bf_offset f + bf_count f \<le> bf_offset g \<or> bf_offset g + bf_count g \<le> bf_offset f) fs \<and>
     sbf_fields_ok fs)"

definition sbf_width :: "BitField list \<Rightarrow> nat" where
  "sbf_width fs = sum_list (map bf_count fs)"

definition sbf_ok :: "SplitBitField \<Rightarrow> bool" where
  "sbf_ok s = (sbf_fields_ok (sbf_fields s) \<and> sbf_width (sbf_fields s) + sbf_shift s \<le> 32)"

lemma sbf_width_simps [simp]: "sbf_width [] = 0" "sbf_width (f # fs) = bf_count f + sbf_width fs"
  by (simp_all add: sbf_width_def)

text \<open>The word \<open>ins\<close> holds the low bits of \<open>imm\<close> in the parts, in order.\<close>

fun sbf_holds :: "BitField list \<Rightarrow> u32 \<Rightarrow> u32 \<Rightarrow> bool" where
  "sbf_holds [] imm ins = True"
| "sbf_holds (f # fs) imm ins =
     (bf_decode f ins = take_bit (bf_count f) imm \<and> sbf_holds fs (drop_bit (bf_count f) imm) ins)"

lemma sbf_decode_loop_holds:
  "sbf_fields_ok fs \<Longrightarrow> sbf_holds fs imm ins \<Longrightarrow>
    sbf_decode_loop fs ins ret off = ret OR push_bit off (take_bit (sbf_width fs) imm)"
proof (induction fs imm ins arbitrary: ret off rule: sbf_holds.induct)
  case (2 f fs imm ins)
  have "push_bit off (take_bit (bf_count f + sbf_width fs) imm) =
      push_bit off (take_bit (bf_count f) imm) OR
      push_bit (off + bf_count f) (take_bit (sbf_width fs) (drop_bit (bf_count f) imm))"
  proof (rule bit_word_eqI)
    fix n
    have "off + bf_count f \<le> n \<Longrightarrow> bf_count f + (n - (off + bf_count f)) = n - off" by simp
    then show "bit (push_bit off (take_bit (bf_count f + sbf_width fs) imm)) n =
        bit (push_bit off (take_bit (bf_count f) imm) OR
          push_bit (off + bf_count f) (take_bit (sbf_width fs) (drop_bit (bf_count f) imm))) n"
      by (cases "off + bf_count f \<le> n") (auto simp: bit_simps)
  qed
  with 2 show ?case by (simp add: or.assoc)
qed simp

lemma sbf_encode_loop_outside:
  assumes "sbf_fields_ok fs" "n \<notin> (\<Union>f\<in>set fs. bf_bits f)"
  shows "bit (sbf_encode_loop fs imm ret) n = bit ret n"
  using assms
  by (induction fs arbitrary: imm ret) (auto simp: bit_simps bit_bf_encode bf_bits_def)

lemma sbf_encode_loop_mono:
  assumes "\<forall>f\<in>set fs. bf_count f < 64" "\<And>n. bit a n \<Longrightarrow> bit b n" "\<And>n. bit r n \<Longrightarrow> bit r' n"
    "bit (sbf_encode_loop fs a r) n"
  shows "bit (sbf_encode_loop fs b r') n"
  using assms
proof (induction fs arbitrary: a b r r')
  case (Cons f fs)
  show ?case unfolding sbf_encode_loop.simps
    by (rule Cons.IH [of "drop_bit (bf_count f) a" _ "r OR bf_encode f a"])
      (use Cons.prems in \<open>auto simp: bit_simps bit_bf_encode\<close>)
qed simp

lemma sbf_encode_loop_zero: "sbf_encode_loop fs 0 r = r"
  by (induction fs arbitrary: r) (simp_all add: bf_encode_def)

lemma sbf_fields_ok_count: "sbf_fields_ok fs \<Longrightarrow> f \<in> set fs \<Longrightarrow> bf_count f < 64"
  by (induction fs) auto

lemma sbf_decode_other_part:
  assumes "sbf_fields_ok (f # fs)"
  shows "bf_decode f (sbf_encode_loop fs imm ret) = bf_decode f ret"
proof (rule bit_word_eqI)
  fix n assume "n < LENGTH(32)"
  have ok: "sbf_fields_ok fs" "bf_offset f + bf_count f \<le> 32" using assms by simp_all
  show "bit (bf_decode f (sbf_encode_loop fs imm ret)) n = bit (bf_decode f ret) n"
  proof (cases "n < bf_count f")
    case True
    then have "bf_offset f + n \<notin> (\<Union>g\<in>set fs. bf_bits g)"
      using assms by (auto simp: bf_bits_def list_all_iff)
    from sbf_encode_loop_outside [OF ok(1) this] show ?thesis
      using ok by (simp add: bit_bf_decode)
  qed (use ok in \<open>simp add: bit_bf_decode\<close>)
qed

lemma sbf_encode_loop_holds:
  assumes "sbf_fields_ok fs" "\<forall>f\<in>set fs. bf_decode f ret = 0"
  shows "sbf_holds fs imm (sbf_encode_loop fs imm ret)"
  using assms
proof (induction fs arbitrary: imm ret)
  case (Cons f fs)
  have ok: "bf_offset f + bf_count f \<le> 32" using Cons.prems by simp
  have z: "\<And>g n. g \<in> set (f # fs) \<Longrightarrow> n < bf_count g \<Longrightarrow> \<not> bit ret (bf_offset g + n)"
  proof -
    fix g n assume g: "g \<in> set (f # fs)" and n: "n < bf_count g"
    have "bf_offset g + bf_count g \<le> 32" using Cons.prems(1) g
      by (induction fs) (auto simp: list_all_iff)
    moreover have "bf_decode g ret = 0" using Cons.prems(2) g by blast
    then have "\<not> bit (bf_decode g ret) n" by simp
    ultimately show "\<not> bit ret (bf_offset g + n)" using n by (simp add: bit_bf_decode)
  qed
  have "bf_decode f (ret OR bf_encode f imm) = take_bit (bf_count f) imm"
    using ok z [of f] by (intro bit_word_eqI) (auto simp: bit_bf_decode bit_bf_encode bit_simps)
  moreover have "\<forall>g\<in>set fs. bf_decode g (ret OR bf_encode f imm) = 0"
  proof
    fix g assume g: "g \<in> set fs"
    have "bf_offset g + bf_count g \<le> 32" using Cons.prems(1) g
      by (induction fs) (auto simp: list_all_iff)
    moreover have "bf_offset f + bf_count f \<le> bf_offset g \<or> bf_offset g + bf_count g \<le> bf_offset f"
      using Cons.prems(1) g by (auto simp: list_all_iff)
    ultimately show "bf_decode g (ret OR bf_encode f imm) = 0"
      using z [of g] g ok by (intro bit_word_eqI) (auto simp: bit_bf_decode bit_bf_encode bit_simps)
  qed
  ultimately show ?case
    using Cons.IH [of "ret OR bf_encode f imm" "drop_bit (bf_count f) imm"] Cons.prems(1)
      sbf_decode_other_part [OF Cons.prems(1)] by simp
qed simp

text \<open>
  The round trip of a split field: the value comes back without the bits below the shift and
  without those above the total width.
\<close>

lemma sbf_decode_encode:
  assumes "sbf_ok s"
  shows "sbf_decode s (sbf_encode s imm) =
    push_bit (sbf_shift s) (take_bit (sbf_width (sbf_fields s)) (drop_bit (sbf_shift s) imm))"
proof -
  have ok: "sbf_fields_ok (sbf_fields s)" using assms by (simp add: sbf_ok_def)
  have "sbf_holds (sbf_fields s) (drop_bit (sbf_shift s) imm) (sbf_encode s imm)"
    unfolding sbf_encode_def by (rule sbf_encode_loop_holds [OF ok]) (simp add: bf_decode_def)
  from sbf_decode_loop_holds [OF ok this] show ?thesis by (simp add: sbf_decode_def)
qed

lemma sbf_decode_encode_exact:
  assumes "sbf_ok s" "take_bit (sbf_shift s) imm = 0"
    "unat imm < 2 ^ (sbf_width (sbf_fields s) + sbf_shift s)"
  shows "sbf_decode s (sbf_encode s imm) = imm"
proof -
  have "take_bit (sbf_width (sbf_fields s) + sbf_shift s) imm = imm"
    using assms(3) by (metis unsigned_take_bit_eq take_bit_nat_eq_self unsigned_word_eqI)
  then have b: "bit imm n \<Longrightarrow> n < sbf_width (sbf_fields s) + sbf_shift s" for n by (metis bit_take_bit_iff)
  have "imm = push_bit (sbf_shift s) (take_bit (sbf_width (sbf_fields s)) (drop_bit (sbf_shift s) imm)) OR
      take_bit (sbf_shift s) imm"
    by (rule bit_word_eqI) (use b in \<open>fastforce simp: bit_simps\<close>)
  then show ?thesis using assms by (simp add: sbf_decode_encode)
qed

lemma sbf_decode_loop_cong:
  assumes "sbf_fields_ok fs" "\<And>f n. f \<in> set fs \<Longrightarrow> n \<in> bf_bits f \<Longrightarrow> bit w n = bit w' n"
  shows "sbf_decode_loop fs w ret off = sbf_decode_loop fs w' ret off"
  using assms
proof (induction fs arbitrary: ret off)
  case (Cons f fs)
  have "bf_decode f w = bf_decode f w'"
    using Cons.prems(1) Cons.prems(2) [of f] by (intro bit_word_eqI) (auto simp: bit_bf_decode bf_bits_def)
  moreover have "sbf_decode_loop fs w r k = sbf_decode_loop fs w' r k" for r k
    by (rule Cons.IH) (use Cons.prems in auto)
  ultimately show ?case by simp
qed simp

lemma sbf_encode_ones:
  assumes "sbf_fields_ok fs" "\<And>n. n < sbf_width fs \<Longrightarrow> bit imm n" "f \<in> set fs" "n \<in> bf_bits f"
  shows "bit (sbf_encode_loop fs imm ret) n"
  using assms
proof (induction fs arbitrary: imm ret)
  case (Cons g fs)
  show ?case
  proof (cases "f = g")
    case True
    have "bit (bf_encode g imm) n"
      using Cons.prems True by (auto simp: bit_bf_encode bf_bits_def)
    moreover have "bit (sbf_encode_loop fs a r) m" if "bit r m" for a r m
      using that sbf_encode_loop_mono [of fs 0 a r r m] sbf_encode_loop_zero [of fs r] Cons.prems(1)
      by (auto dest: sbf_fields_ok_count)
    ultimately show ?thesis by (simp add: bit_or_iff)
  next
    case False
    have "\<And>m. m < sbf_width fs \<Longrightarrow> bit (drop_bit (bf_count g) imm) m"
      using Cons.prems(2) by (simp add: bit_drop_bit_eq)
    with Cons.IH [of "drop_bit (bf_count g) imm"] False Cons.prems show ?thesis by simp
  qed
qed simp

lemma sbf_decode_cong:
  assumes "sbf_ok s" "(w XOR w') AND sbf_encode s (- 1) = 0"
  shows "sbf_decode s w = sbf_decode s w'"
proof -
  have ok: "sbf_fields_ok (sbf_fields s)" "sbf_width (sbf_fields s) + sbf_shift s \<le> 32"
    using assms(1) by (simp_all add: sbf_ok_def)
  have "bit w n = bit w' n" if "f \<in> set (sbf_fields s)" "n \<in> bf_bits f" for f n
  proof -
    have "bit (sbf_encode s (- 1)) n"
      unfolding sbf_encode_def by (rule sbf_encode_ones [OF ok(1) _ that]) (use ok(2) in \<open>simp add: bit_simps\<close>)
    with assms(2) show ?thesis unfolding xor_and_0_iff by blast
  qed
  from sbf_decode_loop_cong [OF ok(1) this] show ?thesis by (simp add: sbf_decode_def)
qed

section \<open>Bit extraction\<close>

lemma get_bitmask_eq: "s < 31 \<Longrightarrow> e = 0 \<Longrightarrow> (get_bitmask s e :: 'a::len word) = mask (Suc s)"
proof -
  assume s: "s < 31" and e: "e = 0"
  have "(push_bit (Suc s) 1 - 1 :: u32) = mask (Suc s)"
    by (simp only: push_bit_eq_mult mask_eq_exp_minus_1 mult_1)
  then have m: "(push_bit (s - 0 + 1) 1 - 1 :: u32) = mask (Suc s)" by (simp only: Suc_eq_plus1 diff_zero)
  show ?thesis unfolding get_bitmask_def Let_def e m
    using s by (intro bit_word_eqI) (auto simp: bit_simps)
qed

lemma get_bits_eq: "e \<le> s \<Longrightarrow> s - e < 31 \<Longrightarrow> get_bits val s e = take_bit (Suc (s - e)) (drop_bit e val)"
  by (simp add: get_bits_def mask_bits_def get_bitmask_eq take_bit_eq_mask)

lemma sign_extend_eq:
  assumes "0 < sz" "sz \<le> 64"
  shows "sign_extend val sz = signed_take_bit (sz - 1) val"
proof (rule bit_word_eqI)
  fix n assume n: "n < LENGTH(64)"
  have "n < sz \<Longrightarrow> sz - Suc 0 \<le> n \<Longrightarrow> n = sz - Suc 0" using assms by simp
  then show "bit (sign_extend val sz) n = bit (signed_take_bit (sz - 1) val) n"
    using assms n by (auto simp: sign_extend_def Let_def bit_simps min_def not_le)
qed

end
