(* ===== verification/Alu.thy ===== *)
theory Alu
  imports Machine_Prelude
begin

text \<open>
  The arithmetic units of the execute stage: \<^verbatim>\<open>src/src/machine/execute/alu.cpp\<close> with the
  operation codes of \<^verbatim>\<open>alu_op.h\<close> and \<^verbatim>\<open>mul_op.h\<close>, the width accessors of
  \<^verbatim>\<open>register_value.h\<close>, and the high-part multiplications of
  \<^verbatim>\<open>src/src/common/polyfills/mulh64.h\<close> in both variants the build selects between (128-bit
  products and the portable fallbacks).
\<close>

section \<open>Operations\<close>

datatype AluOp =
  ALU_ADD | ALU_SLL | ALU_SLT | ALU_SLTU | ALU_XOR | ALU_SR | ALU_OR | ALU_AND

datatype MulOp =
  MUL_MUL | MUL_MULH | MUL_MULHSU | MUL_MULHU | MUL_DIV | MUL_DIVU | MUL_REM | MUL_REMU

datatype AluComponent = COMP_ALU | COMP_MUL | COMP_PASS

text \<open>
  The union \<^verbatim>\<open>AluCombinedOp\<close> stores one byte that is read back as an \<^verbatim>\<open>AluOp\<close> or as a
  \<^verbatim>\<open>MulOp\<close>. A byte with no enumerator takes the \<^verbatim>\<open>default\<close> branch of the switch.
\<close>

type_synonym AluCombinedOp = u8

fun alu_op_code :: "AluOp \<Rightarrow> u8" where
  "alu_op_code ALU_ADD = 0"
| "alu_op_code ALU_SLL = 1"
| "alu_op_code ALU_SLT = 2"
| "alu_op_code ALU_SLTU = 3"
| "alu_op_code ALU_XOR = 4"
| "alu_op_code ALU_SR = 5"
| "alu_op_code ALU_OR = 6"
| "alu_op_code ALU_AND = 7"

fun mul_op_code :: "MulOp \<Rightarrow> u8" where
  "mul_op_code MUL_MUL = 0"
| "mul_op_code MUL_MULH = 1"
| "mul_op_code MUL_MULHSU = 2"
| "mul_op_code MUL_MULHU = 3"
| "mul_op_code MUL_DIV = 4"
| "mul_op_code MUL_DIVU = 5"
| "mul_op_code MUL_REM = 6"
| "mul_op_code MUL_REMU = 7"

definition alu_op_of :: "AluCombinedOp \<Rightarrow> AluOp option" where
  "alu_op_of op = (
     if op = 0 then Some ALU_ADD else if op = 1 then Some ALU_SLL
     else if op = 2 then Some ALU_SLT else if op = 3 then Some ALU_SLTU
     else if op = 4 then Some ALU_XOR else if op = 5 then Some ALU_SR
     else if op = 6 then Some ALU_OR else if op = 7 then Some ALU_AND else None)"

definition mul_op_of :: "AluCombinedOp \<Rightarrow> MulOp option" where
  "mul_op_of op = (
     if op = 0 then Some MUL_MUL else if op = 1 then Some MUL_MULH
     else if op = 2 then Some MUL_MULHSU else if op = 3 then Some MUL_MULHU
     else if op = 4 then Some MUL_DIV else if op = 5 then Some MUL_DIVU
     else if op = 6 then Some MUL_REM else if op = 7 then Some MUL_REMU else None)"

section \<open>Reading a register at a width\<close>

definition as_u8 :: "register_value \<Rightarrow> u8" where "as_u8 v = ucast v"

definition as_u16 :: "register_value \<Rightarrow> u16" where "as_u16 v = ucast v"

definition as_u32 :: "register_value \<Rightarrow> u32" where "as_u32 v = ucast v"

definition as_u64 :: "register_value \<Rightarrow> u64" where "as_u64 v = v"

text \<open>The sign-extending constructor from \<^verbatim>\<open>int32_t\<close>.\<close>

definition of_i32 :: "u32 \<Rightarrow> register_value" where "of_i32 v = scast v"

definition of_i16 :: "u16 \<Rightarrow> register_value" where "of_i16 v = scast v"

definition of_i8 :: "u8 \<Rightarrow> register_value" where "of_i8 v = scast v"

section \<open>High part of the 64-bit product\<close>

definition mulhu64 :: "u64 \<Rightarrow> u64 \<Rightarrow> u64" where
  "mulhu64 a b = (let prod = (ucast a :: u128) * ucast b in ucast (drop_bit 64 prod))"

definition mulh64 :: "u64 \<Rightarrow> u64 \<Rightarrow> u64" where
  "mulh64 a b = (let prod = (scast a :: u128) * scast b in ucast (drop_bit 64 prod))"

definition mulhsu64 :: "u64 \<Rightarrow> u64 \<Rightarrow> u64" where
  "mulhsu64 a b = (let prod = (scast a :: u128) * ucast b in ucast (drop_bit 64 prod))"

text \<open>
  The portable variants, for compilers with no 128-bit integers. A \<^verbatim>\<open>(uint32_t)\<close> cast assigned to
  a 64-bit variable is \<^term>\<open>lower32\<close>; \<^verbatim>\<open>(int32_t)\<close> is \<open>scast\<close> of the low half. Mixed signed and
  unsigned operands are computed as \<^verbatim>\<open>uint64_t\<close> and converted back, so every product and sum is
  taken modulo 2 to the 64.
\<close>

definition lower32 :: "u64 \<Rightarrow> u64" where
  "lower32 a = ucast (ucast a :: u32)"

definition upper32 :: "u64 \<Rightarrow> u64" where
  "upper32 a = ucast (ucast (drop_bit 32 a) :: u32)"

definition supper32 :: "u64 \<Rightarrow> u64" where
  "supper32 a = scast (ucast (signed_drop_bit 32 a) :: u32)"

definition mulhu64_fallback :: "u64 \<Rightarrow> u64 \<Rightarrow> u64" where
  "mulhu64_fallback a b =
    (let a_lower = lower32 a; a_upper = upper32 a; b_lower = lower32 b; b_upper = upper32 b;
         p11 = a_upper * b_upper; p01 = a_lower * b_upper;
         p10 = a_upper * b_lower; p00 = a_lower * b_lower;
         middle = p10 + drop_bit 32 p00 + lower32 p01
     in p11 + drop_bit 32 middle + drop_bit 32 p01)"

definition mulh64_fallback :: "u64 \<Rightarrow> u64 \<Rightarrow> u64" where
  "mulh64_fallback a b =
    (let a_lower = lower32 a; a_upper = supper32 a; b_lower = lower32 b; b_upper = supper32 b;
         p11 = a_upper * b_upper; p01 = a_lower * b_upper;
         p10 = a_upper * b_lower; p00 = a_lower * b_lower;
         middle = p10 + drop_bit 32 p00 + lower32 p01
     in p11 + signed_drop_bit 32 middle + signed_drop_bit 32 p01)"

definition mulhsu64_fallback :: "u64 \<Rightarrow> u64 \<Rightarrow> u64" where
  "mulhsu64_fallback a b =
    (let a_lower = lower32 a; a_upper = supper32 a; b_lower = lower32 b; b_upper = upper32 b;
         p11 = a_upper * b_upper; p01 = a_lower * b_upper;
         p10 = a_upper * b_lower; p00 = a_lower * b_lower;
         middle = p10 + drop_bit 32 p00 + lower32 p01
     in p11 + signed_drop_bit 32 middle + drop_bit 32 p01)"

section \<open>The units\<close>

definition SHIFT_MASK32 :: u64 where "SHIFT_MASK32 = 31"

definition SHIFT_MASK64 :: u64 where "SHIFT_MASK64 = 63"

fun alu64_operate :: "AluOp \<Rightarrow> bool \<Rightarrow> register_value \<Rightarrow> register_value \<Rightarrow> u64" where
  "alu64_operate ALU_ADD modified a b = a + (if modified then - b else b)"
| "alu64_operate ALU_SLL modified a b = push_bit (unat (b AND SHIFT_MASK64)) a"
| "alu64_operate ALU_SLT modified a b = bool_to_word (a <s b)"
| "alu64_operate ALU_SLTU modified a b = bool_to_word (a < b)"
| "alu64_operate ALU_XOR modified a b = a XOR b"
| "alu64_operate ALU_SR modified a b =
     (if modified then signed_drop_bit (unat (b AND SHIFT_MASK64)) a
      else drop_bit (unat (b AND SHIFT_MASK64)) a)"
| "alu64_operate ALU_OR modified a b = a OR b"
| "alu64_operate ALU_AND modified a b = (if modified then NOT a else a) AND b"

fun alu32_operate :: "AluOp \<Rightarrow> bool \<Rightarrow> register_value \<Rightarrow> register_value \<Rightarrow> u32" where
  "alu32_operate ALU_ADD modified a b = as_u32 a + (if modified then - as_u32 b else as_u32 b)"
| "alu32_operate ALU_SLL modified a b =
     push_bit (unat (ucast (as_u32 b) AND SHIFT_MASK32)) (as_u32 a)"
| "alu32_operate ALU_SLT modified a b = bool_to_word (as_u32 a <s as_u32 b)"
| "alu32_operate ALU_SLTU modified a b = bool_to_word (as_u32 a < as_u32 b)"
| "alu32_operate ALU_XOR modified a b = as_u32 a XOR as_u32 b"
| "alu32_operate ALU_SR modified a b =
     (if modified then signed_drop_bit (unat (ucast (as_u32 b) AND SHIFT_MASK32)) (as_u32 a)
      else drop_bit (unat (ucast (as_u32 b) AND SHIFT_MASK32)) (as_u32 a))"
| "alu32_operate ALU_OR modified a b = as_u32 a OR as_u32 b"
| "alu32_operate ALU_AND modified a b =
     (if modified then NOT (as_u32 a) else as_u32 a) AND as_u32 b"

text \<open>
  C++ division of signed integers truncates towards zero: \<open>sdiv\<close> and \<open>smod\<close> on \<open>int\<close>.
\<close>

fun mul64_operate :: "MulOp \<Rightarrow> register_value \<Rightarrow> register_value \<Rightarrow> u64" where
  "mul64_operate MUL_MUL a b = a * b"
| "mul64_operate MUL_MULH a b = mulh64 a b"
| "mul64_operate MUL_MULHSU a b = mulhsu64 a b"
| "mul64_operate MUL_MULHU a b = mulhu64 a b"
| "mul64_operate MUL_DIV a b =
     (if sint b = 0 then - 1
      else if sint a = - (2 ^ 63) \<and> sint b = - 1 then word_of_int (- (2 ^ 63))
      else word_of_int (sint a sdiv sint b))"
| "mul64_operate MUL_DIVU a b = (if b = 0 then - 1 else a div b)"
| "mul64_operate MUL_REM a b =
     (if sint b = 0 then a
      else if sint a = - (2 ^ 63) \<and> sint b = - 1 then 0
      else word_of_int (sint a smod sint b))"
| "mul64_operate MUL_REMU a b = (if b = 0 then a else a mod b)"

fun mul32_operate :: "MulOp \<Rightarrow> register_value \<Rightarrow> register_value \<Rightarrow> u32" where
  "mul32_operate MUL_MUL a b = as_u32 a * as_u32 b"
| "mul32_operate MUL_MULH a b =
     ucast (drop_bit 32 ((scast (as_u32 a) :: u64) * scast (as_u32 b)))"
| "mul32_operate MUL_MULHSU a b =
     ucast (drop_bit 32 ((scast (as_u32 a) :: u64) * ucast (as_u32 b)))"
| "mul32_operate MUL_MULHU a b =
     ucast (drop_bit 32 ((ucast (as_u32 a) :: u64) * ucast (as_u32 b)))"
| "mul32_operate MUL_DIV a b =
     (if sint (as_u32 b) = 0 then - 1
      else if sint (as_u32 a) = - (2 ^ 31) \<and> sint (as_u32 b) = - 1
        then word_of_int (- (2 ^ 31))
      else word_of_int (sint (as_u32 a) sdiv sint (as_u32 b)))"
| "mul32_operate MUL_DIVU a b = (if as_u32 b = 0 then - 1 else as_u32 a div as_u32 b)"
| "mul32_operate MUL_REM a b =
     (if sint (as_u32 b) = 0 then as_u32 a
      else if sint (as_u32 a) = - (2 ^ 31) \<and> sint (as_u32 b) = - 1 then 0
      else word_of_int (sint (as_u32 a) smod sint (as_u32 b)))"
| "mul32_operate MUL_REMU a b =
     (if as_u32 b = 0 then as_u32 a else as_u32 a mod as_u32 b)"

fun alu_combined_operate ::
  "AluCombinedOp \<Rightarrow> AluComponent \<Rightarrow> bool \<Rightarrow> bool \<Rightarrow> register_value \<Rightarrow> register_value \<Rightarrow> register_value"
where
  "alu_combined_operate op COMP_ALU w_operation modified a b =
     (case alu_op_of op of
        None \<Rightarrow> 0
      | Some alu_op \<Rightarrow> if w_operation then of_i32 (alu32_operate alu_op modified a b)
                       else alu64_operate alu_op modified a b)"
| "alu_combined_operate op COMP_MUL w_operation modified a b =
     (case mul_op_of op of
        None \<Rightarrow> 0
      | Some mul_op \<Rightarrow> if w_operation then of_i32 (mul32_operate mul_op a b)
                       else mul64_operate mul_op a b)"
| "alu_combined_operate op COMP_PASS w_operation modified a b = a"

section \<open>Products: the schoolbook decomposition\<close>

text \<open>
  The portable variants multiply 32-bit halves. \<^term>\<open>mulh_middle\<close> is the value that their
  variable \<^verbatim>\<open>middle\<close> is meant to hold, as an integer: whether it fits the variable's type decides
  whether the variant is correct.
\<close>

definition mulh_middle :: "int \<Rightarrow> int \<Rightarrow> int \<Rightarrow> int \<Rightarrow> int" where
  "mulh_middle ah al bh bl = ah * bl + al * bl div 2 ^ 32 + al * bh mod 2 ^ 32"

lemma word_of_int_hi: "(ucast (drop_bit 64 (word_of_int x :: u128)) :: u64) = word_of_int (drop_bit 64 x)"
  by (rule bit_word_eqI) (simp add: bit_simps)

lemma mulhu64_eq: "mulhu64 a b = word_of_int (drop_bit 64 (uint a * uint b))"
  by (simp only: mulhu64_def Let_def ucast_eq of_int_mult [symmetric] flip: word_of_int_hi)

lemma mulh64_eq: "mulh64 a b = word_of_int (drop_bit 64 (sint a * sint b))"
  by (simp only: mulh64_def Let_def scast_eq of_int_mult [symmetric] word_of_int_hi)

lemma mulhsu64_eq: "mulhsu64 a b = word_of_int (drop_bit 64 (sint a * uint b))"
  by (simp only: mulhsu64_def Let_def scast_eq ucast_eq[of b] of_int_mult [symmetric] word_of_int_hi)

lemma lower32_eq: "lower32 a = word_of_int (uint a mod 2 ^ 32)"
  unfolding take_bit_eq_mod [symmetric]
  by (rule bit_word_eqI) (auto simp: lower32_def bit_simps)

lemma upper32_eq: "upper32 a = word_of_int (uint a div 2 ^ 32)"
  unfolding drop_bit_eq_div [symmetric]
  by (rule bit_word_eqI) (auto simp: upper32_def bit_simps dest: bit_imp_le_length)

lemma supper32_eq: "supper32 a = word_of_int (sint a div 2 ^ 32)"
  unfolding drop_bit_eq_div [symmetric]
proof (rule bit_word_eqI)
  fix n :: nat
  have "min 63 (32 + n) = 32 + min 31 n" by simp
  then show "n < LENGTH(64) \<Longrightarrow> bit (supper32 a) n = bit (word_of_int (drop_bit 32 (sint a)) :: u64) n"
    by (auto simp: supper32_def bit_simps)
qed

lemma drop32_eq: "drop_bit 32 (a::u64) = word_of_int (uint a div 2 ^ 32)"
  unfolding drop_bit_eq_div [symmetric]
  by (rule bit_word_eqI) (auto simp: bit_simps)

lemma sdrop32_eq: "signed_drop_bit 32 (a::u64) = word_of_int (sint a div 2 ^ 32)"
  unfolding drop_bit_eq_div [symmetric]
  by (rule bit_word_eqI) (auto simp:  bit_simps)




lemma schoolbook_expand:
  fixes ah al bh bl p0 p1 q0 q1 :: int
  assumes p: "al * bl = 2 ^ 32 * p1 + p0" and q: "al * bh = 2 ^ 32 * q1 + q0"
  shows "(ah * 2 ^ 32 + al) * (bh * 2 ^ 32 + bl) =
    (2 ^ 32 * (ah * bl + p1 + q0) + p0) + 2 ^ 64 * (ah * bh + q1)"
proof -
  have "(ah * 2 ^ 32 + al) * (bh * 2 ^ 32 + bl) =
      2 ^ 64 * (ah * bh) + 2 ^ 32 * (ah * bl) + 2 ^ 32 * (al * bh) + al * bl"
    by (simp add: algebra_simps)
  also have "\<dots> = (2 ^ 32 * (ah * bl + p1 + q0) + p0) + 2 ^ 64 * (ah * bh + q1)"
    unfolding p q by (simp add: algebra_simps)
  finally show ?thesis .
qed

lemma schoolbook:
  fixes ah al bh bl :: int
  shows "((ah * 2 ^ 32 + al) * (bh * 2 ^ 32 + bl)) div 2 ^ 64 =
    ah * bh + (ah * bl + al * bl div 2 ^ 32 + al * bh mod 2 ^ 32) div 2 ^ 32 + al * bh div 2 ^ 32"
proof -
  define M where "M = ah * bl + al * bl div 2 ^ 32 + al * bh mod 2 ^ 32"
  have "(ah * 2 ^ 32 + al) * (bh * 2 ^ 32 + bl) =
      (2 ^ 32 * M + al * bl mod 2 ^ 32) + 2 ^ 64 * (ah * bh + al * bh div 2 ^ 32)"
    unfolding M_def by (rule schoolbook_expand) simp_all
  then have "((ah * 2 ^ 32 + al) * (bh * 2 ^ 32 + bl)) div 2 ^ 64 =
      (2 ^ 32 * M + al * bl mod 2 ^ 32) div 2 ^ 64 + (ah * bh + al * bh div 2 ^ 32)"
    by (simp only: div_mult_self2) simp
  moreover have "(2 ^ 32 * M + al * bl mod 2 ^ 32) div 2 ^ 64 = M div 2 ^ 32"
    using zdiv_zmult2_eq [of "2 ^ 32" "2 ^ 32 * M + al * bl mod 2 ^ 32" "2 ^ 32"] by simp
  ultimately show ?thesis by (simp add: M_def)
qed

lemma uint_halves: "0 \<le> uint (a::u64) div 2 ^ 32" "uint a div 2 ^ 32 < 2 ^ 32"
  "0 \<le> uint a mod 2 ^ 32" "uint a mod 2 ^ 32 < 2 ^ 32"
  "uint a = (uint a div 2 ^ 32) * 2 ^ 32 + uint a mod 2 ^ 32"
  using uint_lt2p [of a] by (simp_all add: pos_imp_zdiv_nonneg_iff)

lemma sint_halves: "- (2 ^ 31) \<le> sint (a::u64) div 2 ^ 32" "sint a div 2 ^ 32 < 2 ^ 31"
  "sint a = (sint a div 2 ^ 32) * 2 ^ 32 + uint a mod 2 ^ 32"
proof -
  have r: "- (2 ^ 63) \<le> sint a" "sint a < 2 ^ 63"
    using sint_range_size [of a] by (simp_all add: word_size)
  then show "- (2 ^ 31) \<le> sint a div 2 ^ 32" "sint a div 2 ^ 32 < 2 ^ 31"
    by simp_all
  have "sint a mod 2 ^ 32 = uint a mod 2 ^ 32"
    unfolding take_bit_eq_mod [symmetric]
    by (rule bit_eqI) (auto simp: bit_simps)
  then show "sint a = (sint a div 2 ^ 32) * 2 ^ 32 + uint a mod 2 ^ 32"
    by (metis div_mult_mod_eq)
qed

lemma sprod_bounds:
  fixes x y :: int
  assumes x: "- (2 ^ 31) \<le> x" "x < 2 ^ 31" and y: "0 \<le> y" "y < 2 ^ 32"
  shows "- (2 ^ 63) \<le> x * y" "x * y \<le> 2 ^ 63 - 2 ^ 32"
proof -
  have "(- (2 ^ 31)) * y \<le> x * y" "x * y \<le> (2 ^ 31 - 1) * y"
    using x y by (simp_all only: mult_right_mono) 
  then show "- (2 ^ 63) \<le> x * y" "x * y \<le> 2 ^ 63 - 2 ^ 32"
    using y by simp_all
qed

lemma uprod_bounds:
  fixes x y :: int
  assumes "0 \<le> x" "x < 2 ^ 32" "0 \<le> y" "y < 2 ^ 32"
  shows "0 \<le> x * y" "x * y \<le> 2 ^ 64 - 2 ^ 33 + 1"
  using assms mult_mono [of x "2 ^ 32 - 1" y "2 ^ 32 - 1"] by simp_all




lemma middle_word:
  assumes "0 \<le> al" "al < 2 ^ 32" "0 \<le> bl" "bl < 2 ^ 32"
  shows "(word_of_int ah * word_of_int bl + drop_bit 32 (word_of_int al * word_of_int bl)
      + lower32 (word_of_int al * word_of_int bh) :: u64) =
    word_of_int (mulh_middle ah al bh bl)"
proof -
  have "uint (word_of_int (al * bl) :: u64) = al * bl"
    using uprod_bounds [OF assms] by (intro uint_word_of_int64) simp_all
  moreover have "uint (word_of_int (al * bh) :: u64) mod 2 ^ 32 = al * bh mod 2 ^ 32"
    by (simp add: unsigned_of_int take_bit_eq_mod mod_mod_cancel del: of_int_mult)
  ultimately show ?thesis
    by (simp only: of_int_mult [symmetric] drop32_eq lower32_eq of_int_add [symmetric] mulh_middle_def)
qed

lemma middle_bounds:
  assumes "0 \<le> al" "al < 2 ^ 32" "0 \<le> bl" "bl < 2 ^ 32"
  shows "ah * bl \<le> mulh_middle ah al bh bl" "mulh_middle ah al bh bl \<le> ah * bl + 2 ^ 33 - 3"
proof -
  have "0 \<le> al * bl div 2 ^ 32" "al * bl div 2 ^ 32 \<le> 2 ^ 32 - 2"
    using uprod_bounds [OF assms] by (simp_all add: pos_imp_zdiv_nonneg_iff)
  moreover have "0 \<le> al * bh mod 2 ^ 32" "al * bh mod 2 ^ 32 \<le> 2 ^ 32 - 1"
    by (simp_all add: pos_mod_bound zle_diff1_eq [symmetric] del: zle_diff1_eq)
  ultimately show "ah * bl \<le> mulh_middle ah al bh bl" "mulh_middle ah al bh bl \<le> ah * bl + 2 ^ 33 - 3"
    by (simp_all add: mulh_middle_def)
qed

lemma mulhu64_fallback_correct: "mulhu64_fallback a b = mulhu64 a b"
proof -
  define ah al bh bl where "ah = uint a div 2 ^ 32" and "al = uint a mod 2 ^ 32"
    and "bh = uint b div 2 ^ 32" and "bl = uint b mod 2 ^ 32"
  note d = this
  note ra = uint_halves [of a, folded d] and rb = uint_halves [of b, folded d]
  have m: "uint (word_of_int (mulh_middle ah al bh bl) :: u64) = mulh_middle ah al bh bl"
    using middle_bounds [OF ra(3,4) rb(3,4), of ah bh] uprod_bounds [OF ra(1,2) rb(3,4)]
    by (intro uint_word_of_int64) simp_all
  have q: "uint (word_of_int (al * bh) :: u64) = al * bh"
    using uprod_bounds [OF ra(3,4) rb(1,2)] by (intro uint_word_of_int64) simp_all
  have "mulhu64_fallback a b = word_of_int (ah * bh) + word_of_int (mulh_middle ah al bh bl div 2 ^ 32)
      + word_of_int (al * bh div 2 ^ 32)"
    unfolding mulhu64_fallback_def Let_def lower32_eq [of a] lower32_eq [of b] upper32_eq [of a] upper32_eq [of b] d [symmetric]
    unfolding middle_word [OF ra(3,4) rb(3,4)]
    unfolding drop32_eq of_int_mult [symmetric] m q ..
  also have "\<dots> = word_of_int ((ah * 2 ^ 32 + al) * (bh * 2 ^ 32 + bl) div 2 ^ 64)"
    by (simp only: schoolbook mulh_middle_def of_int_add)
  finally show ?thesis
    by (simp only: mulhu64_eq drop_bit_eq_div ra(5)[symmetric] rb(5)[symmetric])
qed

lemma sint_wrapped_middle:
  assumes "- (2 ^ 63) \<le> M" "M < 2 ^ 64"
  shows "sint (word_of_int M :: u64) = (if M < 2 ^ 63 then M else M - 2 ^ 64)"
proof (cases "M < 2 ^ 63")
  case True
  with assms show ?thesis by (simp add: sint_word_of_int64)
next
  case False
  have "(word_of_int M :: u64) = word_of_int (M - 2 ^ 64)"
    by (simp add: word_of_int_eq_iff take_bit_eq_mod)
  moreover have "sint (word_of_int (M - 2 ^ 64) :: u64) = M - 2 ^ 64"
    by (rule sint_word_of_int64) (use False assms in simp_all)
  ultimately have "sint (word_of_int M :: u64) = M - 2 ^ 64" by (simp only:)
  with False show ?thesis by simp
qed

lemma signed_high_part:
  assumes al: "0 \<le> al" "al < 2 ^ 32" and bl: "0 \<le> bl" "bl < 2 ^ 32" and ah: "- (2 ^ 31) \<le> ah" "ah < 2 ^ 31"
  shows "(word_of_int (ah * bh) + signed_drop_bit 32 (word_of_int (mulh_middle ah al bh bl))
      + word_of_int (al * bh div 2 ^ 32) :: u64) =
    word_of_int ((ah * 2 ^ 32 + al) * (bh * 2 ^ 32 + bl) div 2 ^ 64)
      - (if mulh_middle ah al bh bl < 2 ^ 63 then 0 else 2 ^ 32)"
proof -
  define M where "M = mulh_middle ah al bh bl"
  have "- (2 ^ 63) \<le> M" "M < 2 ^ 64"
    using middle_bounds [OF al bl, of ah bh] sprod_bounds [OF ah bl] by (simp_all add: M_def)
  then have "sint (word_of_int M :: u64) = (if M < 2 ^ 63 then M else M - 2 ^ 64)"
    by (rule sint_wrapped_middle)
  then have "(signed_drop_bit 32 (word_of_int M) :: u64) =
      word_of_int (M div 2 ^ 32) - (if M < 2 ^ 63 then 0 else 2 ^ 32)"
    using div_add1_eq [of M "- (2 ^ 64)" "2 ^ 32"] by (simp add: sdrop32_eq)
  moreover have "(ah * 2 ^ 32 + al) * (bh * 2 ^ 32 + bl) div 2 ^ 64 = ah * bh + M div 2 ^ 32 + al * bh div 2 ^ 32"
    by (simp only: schoolbook M_def mulh_middle_def)
  ultimately show ?thesis
    unfolding M_def [symmetric] by (simp only: of_int_add) (simp add: algebra_simps)
qed

lemma mulh64_fallback_iff:
  "mulh64_fallback a b = mulh64 a b \<longleftrightarrow>
     mulh_middle (sint a div 2 ^ 32) (uint a mod 2 ^ 32) (sint b div 2 ^ 32) (uint b mod 2 ^ 32) < 2 ^ 63"
proof -
  define ah al bh bl where "ah = sint a div 2 ^ 32" and "al = uint a mod 2 ^ 32"
    and "bh = sint b div 2 ^ 32" and "bl = uint b mod 2 ^ 32"
  note d = this
  note ra = sint_halves [of a, folded d] uint_halves(3,4) [of a, folded d]
  note rb = sint_halves [of b, folded d] uint_halves(3,4) [of b, folded d]
  have q: "sint (word_of_int (al * bh) :: u64) = al * bh"
    using sprod_bounds [OF rb(1,2) ra(4,5)] by (intro sint_word_of_int64) (simp_all add: mult.commute)
  have "mulh64_fallback a b = word_of_int (ah * bh) + signed_drop_bit 32 (word_of_int (mulh_middle ah al bh bl))
      + word_of_int (al * bh div 2 ^ 32)"
    unfolding mulh64_fallback_def Let_def lower32_eq [of a] lower32_eq [of b] supper32_eq d [symmetric]
    unfolding middle_word [OF ra(4,5) rb(4,5)]
    unfolding sdrop32_eq of_int_mult [symmetric] q ..
  also have "\<dots> = mulh64 a b - (if mulh_middle ah al bh bl < 2 ^ 63 then 0 else 2 ^ 32)"
    unfolding mulh64_eq drop_bit_eq_div
    unfolding ra(3) rb(3)
    by (rule signed_high_part) (use ra rb in simp_all)
  finally show ?thesis by (simp add: d)
qed


lemma mulhsu64_fallback_iff:
  "mulhsu64_fallback a b = mulhsu64 a b \<longleftrightarrow>
     mulh_middle (sint a div 2 ^ 32) (uint a mod 2 ^ 32) (uint b div 2 ^ 32) (uint b mod 2 ^ 32) < 2 ^ 63"
proof -
  define ah al bh bl where "ah = sint a div 2 ^ 32" and "al = uint a mod 2 ^ 32"
    and "bh = uint b div 2 ^ 32" and "bl = uint b mod 2 ^ 32"
  note d = this
  note ra = sint_halves [of a, folded d] uint_halves(3,4) [of a, folded d]
  note rb = uint_halves [of b, folded d]
  have q: "uint (word_of_int (al * bh) :: u64) = al * bh"
    using uprod_bounds [OF ra(4,5) rb(1,2)] by (intro uint_word_of_int64) simp_all
  have "mulhsu64_fallback a b = word_of_int (ah * bh) + signed_drop_bit 32 (word_of_int (mulh_middle ah al bh bl))
      + word_of_int (al * bh div 2 ^ 32)"
    unfolding mulhsu64_fallback_def Let_def lower32_eq [of a] lower32_eq [of b] supper32_eq upper32_eq d [symmetric]
    unfolding middle_word [OF ra(4,5) rb(3,4)]
    unfolding drop32_eq of_int_mult [symmetric] q ..
  also have "\<dots> = mulhsu64 a b - (if mulh_middle ah al bh bl < 2 ^ 63 then 0 else 2 ^ 32)"
    unfolding mulhsu64_eq drop_bit_eq_div
    unfolding ra(3) rb(5)
    by (rule signed_high_part) (use ra rb in simp_all)
  finally show ?thesis by (simp add: d)
qed

section \<open>Exactness of the product and the quotient\<close>

lemma mul64_div: "mul64_operate MUL_DIV a b = (if b = 0 then - 1 else word_of_int (sint a sdiv sint b))"
  by (simp add: word_of_int_eq_iff)

lemma mul64_rem: "mul64_operate MUL_REM a b = (if b = 0 then a else word_of_int (sint a smod sint b))"
  by (simp add: signed_modulo_int_def)

lemma mul32_div: "mul32_operate MUL_DIV a b =
    (if as_u32 b = 0 then - 1 else word_of_int (sint (as_u32 a) sdiv sint (as_u32 b)))"
  by (simp add: word_of_int_eq_iff)

lemma mul32_rem: "mul32_operate MUL_REM a b =
    (if as_u32 b = 0 then as_u32 a else word_of_int (sint (as_u32 a) smod sint (as_u32 b)))"
  by (simp add: signed_modulo_int_def)

text \<open>
  The rules of the M extension for a quotient \<^term>\<open>q\<close> and a remainder \<^term>\<open>r\<close>, over the integers
  that the words stand for, at any width.
\<close>

definition signed_division_rules :: "'a::len word \<Rightarrow> 'a word \<Rightarrow> 'a word \<Rightarrow> 'a word \<Rightarrow> bool" where
  "signed_division_rules a b q r \<longleftrightarrow>
     (if sint b = 0 then sint q = - 1 \<and> r = a
      else if sint a = - (2 ^ (LENGTH('a) - 1)) \<and> sint b = - 1 then q = a \<and> r = 0
      else sint q * sint b + sint r = sint a \<and> \<bar>sint r\<bar> < \<bar>sint b\<bar> \<and>
           (sint r = 0 \<or> (sint r < 0 \<longleftrightarrow> sint a < 0)))"

definition unsigned_division_rules :: "'a::len word \<Rightarrow> 'a word \<Rightarrow> 'a word \<Rightarrow> 'a word \<Rightarrow> bool" where
  "unsigned_division_rules a b q r \<longleftrightarrow>
     (if uint b = 0 then uint q = 2 ^ LENGTH('a) - 1 \<and> r = a
      else uint q * uint b + uint r = uint a \<and> uint r < uint b)"

lemma signed_division_rulesI:
  fixes a b :: "'a::len word"
  assumes "b = 0 \<Longrightarrow> q = - 1 \<and> r = a"
    and "b \<noteq> 0 \<Longrightarrow> q = word_of_int (sint a sdiv sint b) \<and> r = word_of_int (sint a smod sint b)"
  shows "signed_division_rules a b q r"
proof (cases "b = 0")
  case True
  then show ?thesis using assms(1) by (simp add: signed_division_rules_def)
next
  case False
  then have b: "sint b \<noteq> 0" by simp
  show ?thesis
  proof (cases "sint a = - (2 ^ (LENGTH('a) - 1)) \<and> sint b = - 1")
    case True
    have "a = word_of_int (sint a)" by simp
    also have "\<dots> = - (2 ^ (LENGTH('a) - 1))" using True by (simp only: of_int_minus of_int_power of_int_numeral)
    finally have "a = - (2 ^ (LENGTH('a) - 1))" .
    moreover have "2 ^ (LENGTH('a) - 1) + 2 ^ (LENGTH('a) - 1) = (2 ^ Suc (LENGTH('a) - 1) :: 'a word)"
      by (simp only: power_Suc mult_2)
    moreover have "(2 ^ Suc (LENGTH('a) - 1) :: 'a word) = 0"
      by (simp only: Suc_diff_1 len_gt_0) (rule word_exp_length_eq_0)
    ultimately have "- a = a" by (metis eq_neg_iff_add_eq_0 minus_minus)
    then have "word_of_int (- sint a) = a" by simp
    moreover have "sint a smod sint b = 0" "sint a sdiv sint b = - sint a"
      using True by (simp_all add: signed_modulo_int_def signed_divide_int_def)
    ultimately show ?thesis using True b assms(2) [OF False] by (simp add: signed_division_rules_def)
  next
    case n: False
    have "sint q = sint a sdiv sint b" "sint r = sint a smod sint b"
      using assms(2) [OF False] sint_of_sdiv [OF n] sint_of_smod [OF b] by simp_all
    moreover have "sint a smod sint b = 0 \<or> (sint a smod sint b < 0 \<longleftrightarrow> sint a < 0)"
      using smod_bounds(2) [OF b, of "sint a"] by (metis sgn_less)
    ultimately show ?thesis using n b smod_bounds(1) [OF b] 
      by (auto simp: signed_division_rules_def sdiv_mult_smod_eq)
  qed
qed

lemma unsigned_division_rulesI:
  fixes a b :: "'a::len word"
  shows "unsigned_division_rules a b (if b = 0 then - 1 else a div b) (if b = 0 then a else a mod b)"
proof -
  have "uint b = 0 \<longleftrightarrow> b = 0" by (simp add: unsigned_eq_0_iff)
  moreover have "0 < uint b" if "b \<noteq> 0" using that unsigned_greater_eq [of b]
    by (metis order_le_less unsigned_eq_0_iff)
  ultimately show ?thesis
    by (simp add: unsigned_division_rules_def uint_div uint_mod unsigned_minus_1_eq_mask mask_eq_exp_minus_1)
qed

lemma division_rules64:
  "signed_division_rules a b (mul64_operate MUL_DIV a b) (mul64_operate MUL_REM a b)"
  "unsigned_division_rules a b (mul64_operate MUL_DIVU a b) (mul64_operate MUL_REMU a b)"
  using unsigned_division_rulesI [of a b]
  by (simp_all only: mul64_operate.simps(6,8) mul64_div mul64_rem simp_thms if_True if_False signed_division_rulesI)

lemma division_rules32:
  "signed_division_rules (as_u32 a) (as_u32 b) (mul32_operate MUL_DIV a b) (mul32_operate MUL_REM a b)"
  "unsigned_division_rules (as_u32 a) (as_u32 b) (mul32_operate MUL_DIVU a b) (mul32_operate MUL_REMU a b)"
  using unsigned_division_rulesI [of "as_u32 a" "as_u32 b"]
  by (simp_all only: mul32_operate.simps(6,8) mul32_div mul32_rem simp_thms if_True if_False signed_division_rulesI)

lemma division_identity64:
  "mul64_operate MUL_DIV a b * b + mul64_operate MUL_REM a b = a"
  "mul64_operate MUL_DIVU a b * b + mul64_operate MUL_REMU a b = a"
  by (simp_all add: mul64_div mul64_rem signed_div_mod_word word_mod_div_equality del: mul64_operate.simps(5,7))

lemma remainder_bounds64:
  assumes "b \<noteq> 0"
  shows "\<bar>sint (mul64_operate MUL_REM a b)\<bar> < \<bar>sint b\<bar>"
    and "sint (mul64_operate MUL_REM a b) = 0 \<or> sgn (sint (mul64_operate MUL_REM a b)) = sgn (sint a)"
    and "mul64_operate MUL_REMU a b < b"
proof -
  have b: "sint b \<noteq> 0" using assms by simp
  show "\<bar>sint (mul64_operate MUL_REM a b)\<bar> < \<bar>sint b\<bar>"
    "sint (mul64_operate MUL_REM a b) = 0 \<or> sgn (sint (mul64_operate MUL_REM a b)) = sgn (sint a)"
    using smod_bounds [OF b, of "sint a"] assms
    by (simp_all only: mul64_rem if_False sint_of_smod [OF b])
  show "mul64_operate MUL_REMU a b < b"
    using assms by (simp add: word_mod_less_divisor word_neq_0_conv)
qed

lemma div_bounds:
  fixes x :: int assumes "\<bar>x\<bar> \<le> 2 ^ 126" shows "- (2 ^ 63) \<le> x div 2 ^ 64" "x div 2 ^ 64 < 2 ^ 63"
  using assms by simp_all

lemma high_low_unsigned: "uint (mulhu64 a b) * 2 ^ 64 + uint (a * b) = uint a * uint b"
proof -
  have "uint a * uint b < 2 ^ 128" "0 \<le> uint a * uint b"
    using mult_strict_mono [of "uint a" "2 ^ 64" "uint b" "2 ^ 64"] uint_lt2p [of a] uint_lt2p [of b] by simp_all
  then have "uint (mulhu64 a b) = (uint a * uint b) div 2 ^ 64"
    unfolding mulhu64_eq drop_bit_eq_div
    by (intro uint_word_of_int64) (simp_all add: pos_imp_zdiv_nonneg_iff)
  then show ?thesis unfolding uint_mult64 by (simp only: div_mult_mod_eq)
qed

lemma high_low_signed: "sint (mulh64 a b) * 2 ^ 64 + uint (a * b) = sint a * sint b"
proof -
  have "\<bar>sint a * sint b\<bar> \<le> 2 ^ 126"
    using mult_mono [OF sint_range64(3) [of a] sint_range64(3) [of b]] by (simp add: abs_mult)
  then have "sint (mulh64 a b) = (sint a * sint b) div 2 ^ 64"
    unfolding mulh64_eq drop_bit_eq_div using div_bounds by (intro sint_word_of_int64) simp_all
  then show ?thesis unfolding uint_mult64_signed [symmetric] by (simp only: div_mult_mod_eq)
qed

lemma high_low_mixed: "sint (mulhsu64 a b) * 2 ^ 64 + uint (a * b) = sint a * uint b"
proof -
  have "sint a * uint b < 2 ^ 63 * 2 ^ 64" "- (2 ^ 63) * 2 ^ 64 \<le> sint a * uint b"
  proof -
    have "sint a * uint b \<le> (2 ^ 63 - 1) * uint b" "- (2 ^ 63) * uint b \<le> sint a * uint b"
      using sint_range64 [of a] by (simp_all only: mult_right_mono unsigned_greater_eq zle_diff1_eq)
    then show "sint a * uint b < 2 ^ 63 * 2 ^ 64" "- (2 ^ 63) * 2 ^ 64 \<le> sint a * uint b"
      using uint_lt2p [of b] by simp_all
  qed
  then have "sint (mulhsu64 a b) = (sint a * uint b) div 2 ^ 64"
    unfolding mulhsu64_eq drop_bit_eq_div by (intro sint_word_of_int64) simp_all
  then show ?thesis unfolding uint_mult64_mixed [symmetric] by (simp only: div_mult_mod_eq)
qed

lemma as_u32_of_i32 [simp]: "as_u32 (of_i32 x) = x"
  unfolding as_u32_def of_i32_def by (rule bit_word_eqI) (auto simp: bit_simps)


lemma of_i32_0 [simp]: "of_i32 0 = 0" "as_u32 0 = 0"
  by (simp_all add: of_i32_def as_u32_def)

lemma alu_combined_w_canonical:
  assumes "c \<noteq> COMP_PASS"
  shows "of_i32 (as_u32 (alu_combined_operate op c True m a b)) = alu_combined_operate op c True m a b"
  using assms by (cases c) (simp_all split: option.split)

lemma alu32_operate_low: "alu32_operate op m (of_i32 (as_u32 a)) (of_i32 (as_u32 b)) = alu32_operate op m a b"
  by (cases op) simp_all

lemma mul32_operate_low: "mul32_operate op (of_i32 (as_u32 a)) (of_i32 (as_u32 b)) = mul32_operate op a b"
  by (cases op) simp_all


lemma as_u32_of_int: "as_u32 (word_of_int x) = word_of_int x"
  unfolding as_u32_def by (rule bit_word_eqI) (simp add: bit_simps)

lemma as_u32_arith:
  "as_u32 (a + b) = as_u32 a + as_u32 b" "as_u32 (a * b) = as_u32 a * as_u32 b"
  "as_u32 (- a) = - as_u32 a"
proof -
  obtain x y where "a = word_of_int x" "b = word_of_int y"
    by (metis word_of_int_uint)
  then show "as_u32 (a + b) = as_u32 a + as_u32 b" "as_u32 (a * b) = as_u32 a * as_u32 b"
    "as_u32 (- a) = - as_u32 a"
    by (simp_all add: as_u32_of_int flip: of_int_add of_int_mult of_int_minus)
qed

lemma as_u32_bits:
  "as_u32 (a XOR b) = as_u32 a XOR as_u32 b" "as_u32 (a OR b) = as_u32 a OR as_u32 b"
  "as_u32 (a AND b) = as_u32 a AND as_u32 b" "as_u32 (NOT a) = NOT (as_u32 a)"
  unfolding as_u32_def by (auto intro!: bit_word_eqI simp: bit_simps)

lemma alu64_low32:
  "as_u32 (alu64_operate ALU_ADD m a b) = alu32_operate ALU_ADD m a b"
  "as_u32 (alu64_operate ALU_XOR m a b) = alu32_operate ALU_XOR m a b"
  "as_u32 (alu64_operate ALU_OR m a b) = alu32_operate ALU_OR m a b"
  "as_u32 (alu64_operate ALU_AND m a b) = alu32_operate ALU_AND m a b"
  "as_u32 (mul64_operate MUL_MUL a b) = mul32_operate MUL_MUL a b"
  by (simp_all add: as_u32_arith as_u32_bits)

section \<open>Properties\<close>

text \<open>
  A high-part multiplication followed by the low-part one delivers the exact 128-bit
  product of the operands, in each of the three signedness combinations.
\<close>

theorem mul_high_low_exact:
  "uint (mul64_operate MUL_MULHU a b) * 2 ^ 64 + uint (mul64_operate MUL_MUL a b) = uint a * uint b \<and>
   sint (mul64_operate MUL_MULH a b) * 2 ^ 64 + uint (mul64_operate MUL_MUL a b) = sint a * sint b \<and>
   sint (mul64_operate MUL_MULHSU a b) * 2 ^ 64 + uint (mul64_operate MUL_MUL a b) = sint a * uint b"
  by (simp only: mul64_operate.simps high_low_unsigned high_low_signed high_low_mixed simp_thms)

text \<open>
  The portable unsigned variant equals the 128-bit one on every input; the two variants
  with a signed operand equal theirs exactly when the middle sum fits a signed 64-bit variable.
\<close>

theorem mulh_fallback_agrees_iff:
  "mulhu64_fallback a b = mulhu64 a b \<and>
   (mulh64_fallback a b = mulh64 a b \<longleftrightarrow>
      mulh_middle (sint a div 2 ^ 32) (uint a mod 2 ^ 32) (sint b div 2 ^ 32) (uint b mod 2 ^ 32) < 2 ^ 63) \<and>
   (mulhsu64_fallback a b = mulhsu64 a b \<longleftrightarrow>
      mulh_middle (sint a div 2 ^ 32) (uint a mod 2 ^ 32) (uint b div 2 ^ 32) (uint b mod 2 ^ 32) < 2 ^ 63)"
  using mulhu64_fallback_correct mulh64_fallback_iff mulhsu64_fallback_iff by blast

text \<open>
  The middle sum does overflow: on the operands 0x7FFFFFFFFFFFFFFF and 0x1FFFFFFFF both
  signed portable variants return all ones where the product's high part is 0xFFFFFFFF.
\<close>

theorem mulh_fallback_overflow:
  "mulh64_fallback 0x7FFFFFFFFFFFFFFF 0x1FFFFFFFF = 0xFFFFFFFFFFFFFFFF \<and>
   mulhsu64_fallback 0x7FFFFFFFFFFFFFFF 0x1FFFFFFFF = 0xFFFFFFFFFFFFFFFF \<and>
   mulh64 0x7FFFFFFFFFFFFFFF 0x1FFFFFFFF = 0xFFFFFFFF \<and>
   mulhsu64 0x7FFFFFFFFFFFFFFF 0x1FFFFFFFF = 0xFFFFFFFF"
  by (simp add: mulh64_fallback_def mulhsu64_fallback_def Let_def lower32_def upper32_def supper32_def
      mulh64_eq mulhsu64_eq)

text \<open>
  Claim C36: both units divide as RISC-V prescribes, for all operands.  In the signed division by
  zero the quotient is - 1 and the remainder the dividend; on overflow (the least number divided by
  - 1) the quotient is the dividend and the remainder 0; otherwise quotient times divisor
  plus remainder is the dividend as integers, the remainder is smaller than the divisor in magnitude
  and has the sign of the dividend.  In the unsigned division by zero the quotient has all bits set
  and the remainder is the dividend; otherwise the integer equation holds with a remainder below
  the divisor.  The 32-bit unit does so on the low halves of its operands.
\<close>

theorem division_exact:
  "signed_division_rules a b (mul64_operate MUL_DIV a b) (mul64_operate MUL_REM a b) \<and>
   unsigned_division_rules a b (mul64_operate MUL_DIVU a b) (mul64_operate MUL_REMU a b) \<and>
   signed_division_rules (as_u32 a) (as_u32 b) (mul32_operate MUL_DIV a b) (mul32_operate MUL_REM a b) \<and>
   unsigned_division_rules (as_u32 a) (as_u32 b) (mul32_operate MUL_DIVU a b) (mul32_operate MUL_REMU a b) \<and>
   mul64_operate MUL_DIV a b * b + mul64_operate MUL_REM a b = a \<and>
   mul64_operate MUL_DIVU a b * b + mul64_operate MUL_REMU a b = a \<and>
   (b \<noteq> 0 \<longrightarrow>
      \<bar>sint (mul64_operate MUL_REM a b)\<bar> < \<bar>sint b\<bar> \<and>
      (sint (mul64_operate MUL_REM a b) = 0 \<or>
       sgn (sint (mul64_operate MUL_REM a b)) = sgn (sint a)) \<and>
      mul64_operate MUL_REMU a b < b)"
  by (intro conjI impI division_identity64 remainder_bounds64 division_rules64 division_rules32)

theorem division_exact_witness:
  "(7 :: u64) \<noteq> 0 \<and> \<bar>sint (mul64_operate MUL_REM (- 17) 7)\<bar> < 7 \<and>
   sint (mul64_operate MUL_REM (- 17) 7) = - 3 \<and> mul32_operate MUL_DIV 5 0 = - 1 \<and>
   mul32_operate MUL_DIV (- 17) 7 = - 2"
proof -
  have "\<bar>sint (mul64_operate MUL_REM (- 17) 7)\<bar> < \<bar>sint (7 :: u64)\<bar>"
    using division_exact [of "- 17" 7] by (auto simp del: mul64_operate.simps mul32_operate.simps)
  then show ?thesis by (simp add: signed_modulo_int_def signed_divide_int_def as_u32_def)
qed

text \<open>
  A word operation (every operation of an RV32 machine, the W instructions of RV64)
  reads only the low halves of its operands and returns a value that is the sign extension of
  its own low half; addition, subtraction, the bitwise operations and the product agree with
  the 64-bit unit on that half.
\<close>

theorem word_operation_canonical:
  "of_i32 (as_u32 (alu_combined_operate op COMP_ALU True m a b)) = alu_combined_operate op COMP_ALU True m a b \<and>
   of_i32 (as_u32 (alu_combined_operate op COMP_MUL True m a b)) = alu_combined_operate op COMP_MUL True m a b \<and>
   alu_combined_operate op COMP_ALU True m (of_i32 (as_u32 a)) (of_i32 (as_u32 b)) =
     alu_combined_operate op COMP_ALU True m a b \<and>
   alu_combined_operate op COMP_MUL True m (of_i32 (as_u32 a)) (of_i32 (as_u32 b)) =
     alu_combined_operate op COMP_MUL True m a b \<and>
   (\<forall>o' \<in> {ALU_ADD, ALU_XOR, ALU_OR, ALU_AND}. as_u32 (alu64_operate o' m a b) = alu32_operate o' m a b) \<and>
   as_u32 (mul64_operate MUL_MUL a b) = mul32_operate MUL_MUL a b"
  using alu_combined_w_canonical [of COMP_ALU] alu_combined_w_canonical [of COMP_MUL]
  by (simp add: alu32_operate_low mul32_operate_low alu64_low32 del: alu64_operate.simps mul64_operate.simps
      alu32_operate.simps mul32_operate.simps split: option.split)

theorem word_operation_canonical_witness:
  "ALU_ADD \<in> {ALU_ADD, ALU_XOR, ALU_OR, ALU_AND} \<and>
   as_u32 (alu64_operate ALU_ADD True 5 7) = alu32_operate ALU_ADD True 5 7 \<and>
   alu_combined_operate 0 COMP_ALU True True 5 7 = - 2"
  using word_operation_canonical [of 0 True 5 7]
  by (simp add: alu_op_of_def as_u32_def of_i32_def)

end
