(* ===== verification/Machine_Defs.thy ===== *)
theory Machine_Defs
  imports Machine_Prelude
begin

text \<open>
  The enumerations the whole machine shares (\<^verbatim>\<open>src/src/machine/machinedefs.h\<close>): the kinds of
  memory access an instruction asks for, the exception causes and the status of a memory
  location.  Comparisons of enumeration values in the code go through their numbers.
\<close>

section \<open>Memory access control\<close>

datatype AccessControl =
    AC_NONE | AC_I8 | AC_U8 | AC_I16 | AC_U16 | AC_I32 | AC_U32 | AC_I64 | AC_U64
  | AC_LR32 | AC_SC32 | AC_AMOSWAP32 | AC_AMOADD32 | AC_AMOXOR32 | AC_AMOAND32 | AC_AMOOR32
  | AC_AMOMIN32 | AC_AMOMAX32 | AC_AMOMINU32 | AC_AMOMAXU32
  | AC_LR64 | AC_SC64 | AC_AMOSWAP64 | AC_AMOADD64 | AC_AMOXOR64 | AC_AMOAND64 | AC_AMOOR64
  | AC_AMOMIN64 | AC_AMOMAX64 | AC_AMOMINU64 | AC_AMOMAXU64
  | AC_SFENCE_VMA | AC_CACHE_OP

fun ac_code :: "AccessControl \<Rightarrow> nat" where
  "ac_code AC_NONE = 0" | "ac_code AC_I8 = 1" | "ac_code AC_U8 = 2" | "ac_code AC_I16 = 3"
| "ac_code AC_U16 = 4" | "ac_code AC_I32 = 5" | "ac_code AC_U32 = 6" | "ac_code AC_I64 = 7"
| "ac_code AC_U64 = 8" | "ac_code AC_LR32 = 9" | "ac_code AC_SC32 = 10"
| "ac_code AC_AMOSWAP32 = 11" | "ac_code AC_AMOADD32 = 12" | "ac_code AC_AMOXOR32 = 13"
| "ac_code AC_AMOAND32 = 14" | "ac_code AC_AMOOR32 = 15" | "ac_code AC_AMOMIN32 = 16"
| "ac_code AC_AMOMAX32 = 17" | "ac_code AC_AMOMINU32 = 18" | "ac_code AC_AMOMAXU32 = 19"
| "ac_code AC_LR64 = 20" | "ac_code AC_SC64 = 21" | "ac_code AC_AMOSWAP64 = 22"
| "ac_code AC_AMOADD64 = 23" | "ac_code AC_AMOXOR64 = 24" | "ac_code AC_AMOAND64 = 25"
| "ac_code AC_AMOOR64 = 26" | "ac_code AC_AMOMIN64 = 27" | "ac_code AC_AMOMAX64 = 28"
| "ac_code AC_AMOMINU64 = 29" | "ac_code AC_AMOMAXU64 = 30" | "ac_code AC_SFENCE_VMA = 31"
| "ac_code AC_CACHE_OP = 32"

definition ac_between :: "AccessControl \<Rightarrow> AccessControl \<Rightarrow> AccessControl \<Rightarrow> bool" where
  "ac_between lo x hi = (ac_code lo \<le> ac_code x \<and> ac_code x \<le> ac_code hi)"

definition is_regular_access :: "AccessControl \<Rightarrow> bool" where
  "is_regular_access t = ac_between AC_I8 t AC_U64"

definition is_special_access :: "AccessControl \<Rightarrow> bool" where
  "is_special_access t = ac_between AC_LR32 t AC_CACHE_OP"

lemma access_partition: "t = AC_NONE \<or> (is_regular_access t \<noteq> is_special_access t)"
  by (cases t) (simp_all add: is_regular_access_def is_special_access_def ac_between_def)

section \<open>Exception causes\<close>

datatype ExceptionCause =
    EXCAUSE_NONE | EXCAUSE_INSN_FAULT | EXCAUSE_INSN_ILLEGAL | EXCAUSE_BREAK
  | EXCAUSE_LOAD_MISALIGNED | EXCAUSE_LOAD_FAULT | EXCAUSE_STORE_MISALIGNED | EXCAUSE_STORE_FAULT
  | EXCAUSE_ECALL_U | EXCAUSE_ECALL_S | EXCAUSE_RESERVED_10 | EXCAUSE_ECALL_M
  | EXCAUSE_INSN_PAGE_FAULT | EXCAUSE_LOAD_PAGE_FAULT | EXCAUSE_RESERVED_14
  | EXCAUSE_STORE_PAGE_FAULT | EXCAUSE_HWBREAK | EXCAUSE_ECALL_ANY | EXCAUSE_INT_M | EXCAUSE_INT_S

fun excause_code :: "ExceptionCause \<Rightarrow> nat" where
  "excause_code EXCAUSE_NONE = 0" | "excause_code EXCAUSE_INSN_FAULT = 1"
| "excause_code EXCAUSE_INSN_ILLEGAL = 2" | "excause_code EXCAUSE_BREAK = 3"
| "excause_code EXCAUSE_LOAD_MISALIGNED = 4" | "excause_code EXCAUSE_LOAD_FAULT = 5"
| "excause_code EXCAUSE_STORE_MISALIGNED = 6" | "excause_code EXCAUSE_STORE_FAULT = 7"
| "excause_code EXCAUSE_ECALL_U = 8" | "excause_code EXCAUSE_ECALL_S = 9"
| "excause_code EXCAUSE_RESERVED_10 = 10" | "excause_code EXCAUSE_ECALL_M = 11"
| "excause_code EXCAUSE_INSN_PAGE_FAULT = 12" | "excause_code EXCAUSE_LOAD_PAGE_FAULT = 13"
| "excause_code EXCAUSE_RESERVED_14 = 14" | "excause_code EXCAUSE_STORE_PAGE_FAULT = 15"
| "excause_code EXCAUSE_HWBREAK = 16" | "excause_code EXCAUSE_ECALL_ANY = 17"
| "excause_code EXCAUSE_INT_M = 18" | "excause_code EXCAUSE_INT_S = 19"

lemma excause_code_inj: "excause_code a = excause_code b \<longleftrightarrow> a = b"
  by (cases a; cases b) simp_all

section \<open>Privilege levels\<close>

text \<open>\<^verbatim>\<open>PrivilegeLevel\<close> of \<^verbatim>\<open>src/src/machine/csr/address.h\<close>; the levels are compared by their codes.\<close>

datatype PrivilegeLevel = UNPRIVILEGED | SUPERVISOR | HYPERVISOR | MACHINE

fun priv_code :: "PrivilegeLevel \<Rightarrow> nat" where
  "priv_code UNPRIVILEGED = 0"
| "priv_code SUPERVISOR = 1"
| "priv_code HYPERVISOR = 2"
| "priv_code MACHINE = 3"

definition priv_of_code :: "nat \<Rightarrow> PrivilegeLevel" where
  "priv_of_code n = (if n = 0 then UNPRIVILEGED else if n = 1 then SUPERVISOR
     else if n = 2 then HYPERVISOR else MACHINE)"

lemma priv_of_code [simp]: "priv_of_code (priv_code p) = p"
  by (cases p) (simp_all add: priv_of_code_def)

lemma priv_code_le: "priv_code p \<le> 3"
  by (cases p) simp_all

section \<open>Location status\<close>

type_synonym LocationStatus = u32

definition LOCSTAT_NONE :: LocationStatus where "LOCSTAT_NONE = 0"
definition LOCSTAT_CACHED :: LocationStatus where "LOCSTAT_CACHED = push_bit 0 1"
definition LOCSTAT_DIRTY :: LocationStatus where "LOCSTAT_DIRTY = push_bit 1 1"
definition LOCSTAT_READ_ONLY :: LocationStatus where "LOCSTAT_READ_ONLY = push_bit 2 1"
definition LOCSTAT_ILLEGAL :: LocationStatus where "LOCSTAT_ILLEGAL = push_bit 3 1"

definition STAGEADDR_NONE :: address where "STAGEADDR_NONE = 0xffffffff"

end
