(* ===== verification/Instruction_Map.thy ===== *)
theory Instruction_Map
  imports BitField Alu Machine_Defs
begin

text \<open>
  The instruction tables (\<^verbatim>\<open>src/src/machine/instruction.cpp\<close>, \<^verbatim>\<open>instruction.h\<close>): the flags, the
  argument descriptors, the decoding tree of instruction maps and the search in it.  The \<^verbatim>\<open>union\<close> of flags and
  subfield in \<^verbatim>\<open>InstructionMap\<close> is the two constructors of the datatype: a node with a subclass
  holds the subfield, one without holds the flags.
\<close>

section \<open>Flags\<close>

definition IMF_SUPPORTED :: u32 where "IMF_SUPPORTED = push_bit 0 1"
definition IMF_MEMWRITE :: u32 where "IMF_MEMWRITE = push_bit 1 1"
definition IMF_MEMREAD :: u32 where "IMF_MEMREAD = push_bit 2 1"
definition IMF_ALUSRC :: u32 where "IMF_ALUSRC = push_bit 3 1"
definition IMF_REGWRITE :: u32 where "IMF_REGWRITE = push_bit 4 1"
definition IMF_MEM :: u32 where "IMF_MEM = push_bit 5 1"
definition IMF_ALU_REQ_RS :: u32 where "IMF_ALU_REQ_RS = push_bit 6 1"
definition IMF_ALU_REQ_RT :: u32 where "IMF_ALU_REQ_RT = push_bit 7 1"
definition IMF_BRANCH :: u32 where "IMF_BRANCH = push_bit 8 1"
definition IMF_JUMP :: u32 where "IMF_JUMP = push_bit 9 1"
definition IMF_BJ_NOT :: u32 where "IMF_BJ_NOT = push_bit 10 1"
definition IMF_BRANCH_JALR :: u32 where "IMF_BRANCH_JALR = push_bit 11 1"
definition IMF_EXCEPTION :: u32 where "IMF_EXCEPTION = push_bit 12 1"
definition IMF_ALU_MOD :: u32 where "IMF_ALU_MOD = push_bit 13 1"
definition IMF_PC_TO_ALU :: u32 where "IMF_PC_TO_ALU = push_bit 14 1"
definition IMF_FORCE_W_OP :: u32 where "IMF_FORCE_W_OP = push_bit 15 1"
definition IMF_ECALL :: u32 where "IMF_ECALL = push_bit 16 1"
definition IMF_EBREAK :: u32 where "IMF_EBREAK = push_bit 17 1"
definition IMF_XRET :: u32 where "IMF_XRET = push_bit 18 1"
definition IMF_MUL :: u32 where "IMF_MUL = push_bit 19 1"
definition IMF_CSR :: u32 where "IMF_CSR = push_bit 20 1"
definition IMF_CSR_TO_ALU :: u32 where "IMF_CSR_TO_ALU = push_bit 21 1"
definition IMF_ALU_RS_ID :: u32 where "IMF_ALU_RS_ID = push_bit 22 1"
definition IMF_AMO :: u32 where "IMF_AMO = push_bit 23 1"
definition IMF_RV64 :: u32 where "IMF_RV64 = push_bit 24 1"
definition IMF_PRIV_S :: u32 where "IMF_PRIV_S = push_bit 25 1"
definition IMF_PRIV_H :: u32 where "IMF_PRIV_H = push_bit 26 1"
definition IMF_PRIV_M :: u32 where "IMF_PRIV_M = push_bit 27 1"

definition FLAGS_ALU_I :: u32 where
  "FLAGS_ALU_I = IMF_SUPPORTED OR IMF_ALUSRC OR IMF_REGWRITE OR IMF_ALU_REQ_RS"
definition FLAGS_ALU_I_LOAD :: u32 where
  "FLAGS_ALU_I_LOAD = IMF_SUPPORTED OR IMF_ALUSRC OR IMF_REGWRITE OR IMF_MEMREAD OR IMF_MEM OR IMF_ALU_REQ_RS"
definition FLAGS_ALU_I_STORE :: u32 where
  "FLAGS_ALU_I_STORE = IMF_SUPPORTED OR IMF_ALUSRC OR IMF_MEMWRITE OR IMF_MEM OR IMF_ALU_REQ_RS OR IMF_ALU_REQ_RT"
definition FLAGS_ALU_T_R_D :: u32 where
  "FLAGS_ALU_T_R_D = IMF_SUPPORTED OR IMF_REGWRITE"
definition FLAGS_ALU_T_R_STD :: u32 where
  "FLAGS_ALU_T_R_STD = FLAGS_ALU_T_R_D OR IMF_ALU_REQ_RS OR IMF_ALU_REQ_RT"
definition FLAGS_AMO_LOAD :: u32 where
  "FLAGS_AMO_LOAD = FLAGS_ALU_I_LOAD OR IMF_AMO"
definition FLAGS_AMO_STORE :: u32 where
  "FLAGS_AMO_STORE = FLAGS_ALU_I_STORE OR FLAGS_ALU_T_R_D OR IMF_AMO OR IMF_MEMREAD"
definition FLAGS_AMO_MODIFY :: u32 where
  "FLAGS_AMO_MODIFY = FLAGS_ALU_I_LOAD OR FLAGS_AMO_STORE OR IMF_AMO"

definition has_flag :: "u32 \<Rightarrow> u32 \<Rightarrow> bool" where
  "has_flag flags f = (flags AND f \<noteq> 0)"

section \<open>Argument descriptors\<close>

record ArgumentDesc =
  ad_name :: char
  ad_kind :: char
  ad_min :: int
  ad_max :: int
  ad_arg :: SplitBitField

definition ad :: "char \<Rightarrow> char \<Rightarrow> int \<Rightarrow> int \<Rightarrow> (nat \<times> nat) list \<Rightarrow> nat \<Rightarrow> ArgumentDesc" where
  "ad name kind lo hi parts shift = \<lparr>ad_name = name, ad_kind = kind, ad_min = lo, ad_max = hi,
     ad_arg = \<lparr>sbf_fields = map (\<lambda>(c, off). \<lparr>bf_count = c, bf_offset = off\<rparr>) parts, sbf_shift = shift\<rparr>\<rparr>"

text \<open>Check whether a value fits into the field; the bounds are \<^verbatim>\<open>int64_t\<close> values.\<close>

definition is_value_in_field_range :: "ArgumentDesc \<Rightarrow> register_value \<Rightarrow> bool" where
  "is_value_in_field_range a val =
     (if ad_min a < 0 then sint val \<le> ad_max a \<and> sint val \<ge> ad_min a
      else uint val \<le> uint (word_of_int (ad_max a) :: u64) \<and> uint val \<ge> uint (word_of_int (ad_min a) :: u64))"

definition is_imm :: "ArgumentDesc \<Rightarrow> bool" where
  "is_imm a = (ad_kind a \<noteq> CHR ''g'')"

definition arg_desc_list :: "ArgumentDesc list" where
  "arg_desc_list = [
     ad CHR ''d'' CHR ''g'' 0 0x1f [(5, 7)] 0,
     ad CHR ''s'' CHR ''g'' 0 0x1f [(5, 15)] 0,
     ad CHR ''t'' CHR ''g'' 0 0x1f [(5, 20)] 0,
     ad CHR ''j'' CHR ''n'' (- 0x800) 0x7ff [(12, 20)] 0,
     ad CHR ''>'' CHR ''n'' 0 0x1f [(5, 20)] 0,
     ad CHR ''a'' CHR ''a'' (- 0x80000) 0x7ffff [(10, 21), (1, 20), (8, 12), (1, 31)] 1,
     ad CHR ''u'' CHR ''n'' 0 0xfffff000 [(20, 12)] 0,
     ad CHR ''p'' CHR ''p'' (- 0x1000) 0x0fff [(4, 8), (6, 25), (1, 7), (1, 31)] 1,
     ad CHR ''o'' CHR ''o'' (- 0x800) 0x7ff [(12, 20)] 0,
     ad CHR ''q'' CHR ''o'' (- 0x800) 0x7ff [(5, 7), (7, 25)] 0,
     ad CHR ''Z'' CHR ''n'' 0 0x1f [(5, 15)] 0,
     ad CHR ''E'' CHR ''E'' 0 0xfff [(12, 20)] 0]"

text \<open>The table \<^verbatim>\<open>arg_desc_by_code\<close> is filled in the order of the list; a null pointer is None.\<close>

definition arg_desc_by_code :: "char \<Rightarrow> ArgumentDesc option" where
  "arg_desc_by_code c = fold (\<lambda>d t. t(ad_name d \<mapsto> d)) arg_desc_list Map.empty c"

section \<open>Instruction maps\<close>

datatype InstructionType =
  IT_R | IT_I | IT_S | IT_B | IT_U | IT_J | IT_ZICSR | IT_AMO | IT_UNKNOWN

datatype InstructionMap =
    IM (im_name: string) (im_type: InstructionType) (im_alu: AluCombinedOp) (im_mem_ctl: AccessControl)
       (im_args: "string list") (im_code: u32) (im_mask: u32) (im_flags: u32)
       (im_aliases: "InstructionMap list")
  | IM_SUB (im_name: string) (im_type: InstructionType) (im_alu: AluCombinedOp) (im_mem_ctl: AccessControl)
       (im_subclass: "InstructionMap list") (im_code: u32) (im_mask: u32) (im_subfield: BitField)

definition NOALU :: AluCombinedOp where "NOALU = alu_op_code ALU_ADD"

definition IM_UNKNOWN :: InstructionMap where
  "IM_UNKNOWN = IM ''unknown'' IT_UNKNOWN NOALU AC_NONE [] 0 0 0 []"

text \<open>An alias entry leaves the type, the ALU operation and the access control at their defaults.\<close>

definition IM_ALIAS :: "string \<Rightarrow> string list \<Rightarrow> u32 \<Rightarrow> u32 \<Rightarrow> u32 \<Rightarrow> InstructionMap" where
  "IM_ALIAS name args code msk flags = IM name IT_UNKNOWN (alu_op_code ALU_ADD) AC_NONE args code msk flags []"

definition AMO_ARGS_LOAD :: "string list" where "AMO_ARGS_LOAD = [''d'', ''(s)'']"
definition AMO_ARGS_STORE :: "string list" where "AMO_ARGS_STORE = [''d'', ''t'', ''(s)'']"
definition AMO_ARGS_MODIFY :: "string list" where "AMO_ARGS_MODIFY = [''d'', ''t'', ''(s)'']"

text \<open>The macro's \<^verbatim>\<open>MASK\<close> parameter is not used: all four entries have the mask 0xfe00707f.\<close>

definition AMO_MAP_4ITEMS ::
  "string \<Rightarrow> u32 \<Rightarrow> u32 \<Rightarrow> AccessControl \<Rightarrow> u32 \<Rightarrow> string list \<Rightarrow> InstructionMap list" where
  "AMO_MAP_4ITEMS name_base code_base msk mem_ctl flags args = [
     IM name_base IT_AMO NOALU mem_ctl args (code_base OR 0x00000000) 0xfe00707f flags [],
     IM (name_base @ ''.rl'') IT_AMO NOALU mem_ctl args (code_base OR 0x02000000) 0xfe00707f flags [],
     IM (name_base @ ''.aq'') IT_AMO NOALU mem_ctl args (code_base OR 0x04000000) 0xfe00707f flags [],
     IM (name_base @ ''.aqrl'') IT_AMO NOALU mem_ctl args (code_base OR 0x06000000) 0xfe00707f flags []]"

definition MUL_MAP_ITEM :: "string \<Rightarrow> MulOp \<Rightarrow> u32 \<Rightarrow> InstructionMap" where
  "MUL_MAP_ITEM name op code = IM name IT_R (mul_op_code op) AC_NONE [''d'', ''s'', ''t'']
     (0x02000033 OR code) 0xfe00707f (FLAGS_ALU_T_R_STD OR IMF_MUL) []"

definition MUL_32_MAP_ITEM :: "string \<Rightarrow> MulOp \<Rightarrow> u32 \<Rightarrow> InstructionMap" where
  "MUL_32_MAP_ITEM name op code = IM name IT_R (mul_op_code op) AC_NONE [''d'', ''s'', ''t'']
     (0x0200003b OR code) 0xfe00707f (FLAGS_ALU_T_R_STD OR IMF_MUL OR IMF_FORCE_W_OP OR IMF_RV64) []"

definition CSR_MAP_ITEM ::
  "string \<Rightarrow> string \<Rightarrow> u32 \<Rightarrow> AluOp \<Rightarrow> u32 \<Rightarrow> InstructionMap list \<Rightarrow> InstructionMap" where
  "CSR_MAP_ITEM name src code alu_op extra_flags aliases = IM name IT_ZICSR (alu_op_code alu_op) AC_NONE
     [''d'', ''E'', src] (0x00000073 OR code) 0x0000707f
     (IMF_SUPPORTED OR IMF_CSR OR IMF_REGWRITE OR IMF_ALU_REQ_RS OR extra_flags) aliases"

subsection \<open>Aliases and tables\<close>

definition inst_aliases_addi :: "InstructionMap list" where
  "inst_aliases_addi = [
     IM_ALIAS ''mv'' [''d'', ''s''] 0x13 (0x707f OR (push_bit 20 0xfff)) IMF_SUPPORTED]"

definition inst_aliases_andi :: "InstructionMap list" where
  "inst_aliases_andi = [
     IM_ALIAS ''zext.b'' [''d'', ''s''] (0x7013 OR (push_bit 20 0xff)) (0x707f OR (push_bit 20 0xfff)) IMF_SUPPORTED]"

definition inst_aliases_addiw :: "InstructionMap list" where
  "inst_aliases_addiw = [
     IM_ALIAS ''sext.w'' [''d'', ''s''] 0x1b (0x707f OR (push_bit 20 0xfff)) IMF_SUPPORTED]"

definition inst_aliases_xori :: "InstructionMap list" where
  "inst_aliases_xori = [
     IM_ALIAS ''not'' [''d'', ''s''] (0x4013 OR (push_bit 20 0xfff)) (0x707f OR (push_bit 20 0xfff)) IMF_SUPPORTED]"

definition inst_aliases_sub :: "InstructionMap list" where
  "inst_aliases_sub = [
     IM_ALIAS ''neg'' [''d'', ''t''] (0x40000033 OR (push_bit 15 0)) (0xfe00707f OR (push_bit 15 31)) IMF_SUPPORTED]"

definition inst_aliases_subw :: "InstructionMap list" where
  "inst_aliases_subw = [
     IM_ALIAS ''negw'' [''d'', ''t''] (0x4000003b OR (push_bit 15 0)) (0xfe00707f OR (push_bit 15 31)) IMF_SUPPORTED]"

definition inst_aliases_sltiu :: "InstructionMap list" where
  "inst_aliases_sltiu = [
     IM_ALIAS ''seqz'' [''d'', ''s''] (0x3013 OR (push_bit 20 1)) (0x0000707f OR (push_bit 20 0xfff)) IMF_SUPPORTED]"

definition inst_aliases_sltu :: "InstructionMap list" where
  "inst_aliases_sltu = [
     IM_ALIAS ''snez'' [''d'', ''t''] (0x3033 OR (push_bit 15 0)) (0xfe00707f OR (push_bit 15 31)) IMF_SUPPORTED]"

definition inst_aliases_slt :: "InstructionMap list" where
  "inst_aliases_slt = [
     IM_ALIAS ''sltz'' [''d'', ''s''] (0x2033 OR (push_bit 20 0)) (0xfe00707f OR (push_bit 20 31)) IMF_SUPPORTED,
     IM_ALIAS ''sgtz'' [''d'', ''t''] (0x2033 OR (push_bit 15 0)) (0xfe00707f OR (push_bit 15 31)) IMF_SUPPORTED]"

definition inst_aliases_beq :: "InstructionMap list" where
  "inst_aliases_beq = [
     IM_ALIAS ''beqz'' [''s'', ''p''] (0x0063 OR (push_bit 20 0)) (0x707f OR (push_bit 20 31)) IMF_SUPPORTED]"

definition inst_aliases_bne :: "InstructionMap list" where
  "inst_aliases_bne = [
     IM_ALIAS ''bnez'' [''s'', ''p''] (0x1063 OR (push_bit 20 0)) (0x707f OR (push_bit 20 31)) IMF_SUPPORTED]"

definition inst_aliases_blt :: "InstructionMap list" where
  "inst_aliases_blt = [
     IM_ALIAS ''bltz'' [''s'', ''p''] (0x4063 OR (push_bit 20 0)) (0x707f OR (push_bit 20 31)) IMF_SUPPORTED,
     IM_ALIAS ''bgtz'' [''t'', ''p''] (0x4063 OR (push_bit 15 0)) (0x707f OR (push_bit 15 31)) IMF_SUPPORTED,
     IM_ALIAS ''bgt'' [''t'', ''s'', ''p''] 0x4063 0x707f IMF_SUPPORTED]"

definition inst_aliases_bge :: "InstructionMap list" where
  "inst_aliases_bge = [
     IM_ALIAS ''bgez'' [''s'', ''p''] (0x5063 OR (push_bit 20 0)) (0x707f OR (push_bit 20 31)) IMF_SUPPORTED,
     IM_ALIAS ''ble'' [''t'', ''s'', ''p''] 0x5063 0x707f IMF_SUPPORTED,
     IM_ALIAS ''blez'' [''t'', ''p''] (0x5063 OR (push_bit 15 0)) (0x707f OR (push_bit 15 31)) IMF_SUPPORTED]"

definition inst_aliases_bltu :: "InstructionMap list" where
  "inst_aliases_bltu = [
     IM_ALIAS ''bgtu'' [''t'', ''s'', ''p''] 0x6063 0x707f IMF_SUPPORTED]"

definition inst_aliases_bgeu :: "InstructionMap list" where
  "inst_aliases_bgeu = [
     IM_ALIAS ''bleu'' [''t'', ''s'', ''p''] 0x7063 0x707f IMF_SUPPORTED]"

definition inst_aliases_jal :: "InstructionMap list" where
  "inst_aliases_jal = [
     IM_ALIAS ''j'' [''a''] (0x6f OR (push_bit 7 0)) (0x7f OR (push_bit 7 31)) IMF_SUPPORTED,
     IM_ALIAS ''jal'' [''a''] (0x6f OR (push_bit 7 1)) (0x7f OR (push_bit 7 31)) IMF_SUPPORTED]"

definition inst_aliases_jalr :: "InstructionMap list" where
  "inst_aliases_jalr = [
     IM_ALIAS ''ret'' [] (0x67 OR (push_bit 7 0) OR (push_bit 15 1)) 0xffffffff IMF_SUPPORTED,
     IM_ALIAS ''jr'' [''s''] (0x67 OR (push_bit 7 0)) (0x7f OR (push_bit 7 31) OR (push_bit 20 0xfff)) IMF_SUPPORTED,
     IM_ALIAS ''jr'' [''o(s)''] (0x67 OR (push_bit 7 0)) (0x7f OR (push_bit 7 31)) IMF_SUPPORTED,
     IM_ALIAS ''jalr'' [''s''] (0x67 OR (push_bit 7 1)) (0x7f OR (push_bit 7 31) OR (push_bit 20 0xfff)) IMF_SUPPORTED,
     IM_ALIAS ''jalr'' [''o(s)''] (0x67 OR (push_bit 7 1)) (0x7f OR (push_bit 7 31)) IMF_SUPPORTED,
     IM_ALIAS ''jalr'' [''d'', ''s'', ''o''] 0x67 0x7f IMF_SUPPORTED]"

definition inst_aliases_csrrw :: "InstructionMap list" where
  "inst_aliases_csrrw = [
     IM_ALIAS ''csrw'' [''E'', ''s''] (0x1073 OR (push_bit 7 0) OR (push_bit 15 0)) (0x707f OR (push_bit 7 31)) IMF_SUPPORTED]"

definition inst_aliases_csrrs :: "InstructionMap list" where
  "inst_aliases_csrrs = [
     IM_ALIAS ''csrr'' [''d'', ''E''] (0x2073 OR (push_bit 15 0)) (0x707f OR (push_bit 15 31)) IMF_SUPPORTED]"

definition AMO_32_map :: "InstructionMap list" where
  "AMO_32_map = 
     AMO_MAP_4ITEMS ''amoadd.w'' 0x0000202f 0xfe00707f AC_AMOADD32 FLAGS_AMO_MODIFY AMO_ARGS_MODIFY @
     AMO_MAP_4ITEMS ''amoswap.w'' 0x0800202f 0xfe00707f AC_AMOSWAP32 FLAGS_AMO_MODIFY AMO_ARGS_MODIFY @
     AMO_MAP_4ITEMS ''lr.w'' 0x1000202f 0xfff0707f AC_LR32 FLAGS_AMO_LOAD AMO_ARGS_LOAD @
     AMO_MAP_4ITEMS ''sc.w'' 0x1800202f 0xfe00707f AC_SC32 FLAGS_AMO_STORE AMO_ARGS_STORE @
     AMO_MAP_4ITEMS ''amoxor.w'' 0x2000202f 0xfe00707f AC_AMOXOR32 FLAGS_AMO_MODIFY AMO_ARGS_MODIFY @
     replicate 12 IM_UNKNOWN @
     AMO_MAP_4ITEMS ''amoor.w'' 0x4000202f 0xfe00707f AC_AMOOR32 FLAGS_AMO_MODIFY AMO_ARGS_MODIFY @
     replicate 12 IM_UNKNOWN @
     AMO_MAP_4ITEMS ''amoand.w'' 0x6000202f 0xfe00707f AC_AMOAND32 FLAGS_AMO_MODIFY AMO_ARGS_MODIFY @
     replicate 12 IM_UNKNOWN @
     AMO_MAP_4ITEMS ''amomin.w'' 0x8000202f 0xfe00707f AC_AMOMIN32 FLAGS_AMO_MODIFY AMO_ARGS_MODIFY @
     replicate 12 IM_UNKNOWN @
     AMO_MAP_4ITEMS ''amomax.w'' 0xa000202f 0xfe00707f AC_AMOMAX32 FLAGS_AMO_MODIFY AMO_ARGS_MODIFY @
     replicate 12 IM_UNKNOWN @
     AMO_MAP_4ITEMS ''amominu.w'' 0xc000202f 0xfe00707f AC_AMOMINU32 FLAGS_AMO_MODIFY AMO_ARGS_MODIFY @
     replicate 12 IM_UNKNOWN @
     AMO_MAP_4ITEMS ''amomaxu.w'' 0xe000202f 0xfe00707f AC_AMOMAXU32 FLAGS_AMO_MODIFY AMO_ARGS_MODIFY @
     replicate 12 IM_UNKNOWN"

definition AMO_64_map :: "InstructionMap list" where
  "AMO_64_map = 
     AMO_MAP_4ITEMS ''amoadd.d'' 0x0000302f 0xfe00707f AC_AMOADD64 FLAGS_AMO_MODIFY AMO_ARGS_MODIFY @
     AMO_MAP_4ITEMS ''amoswap.d'' 0x0800302f 0xfe00707f AC_AMOSWAP64 FLAGS_AMO_MODIFY AMO_ARGS_MODIFY @
     AMO_MAP_4ITEMS ''lr.d'' 0x1000302f 0xfff0707f AC_LR64 FLAGS_AMO_LOAD AMO_ARGS_LOAD @
     AMO_MAP_4ITEMS ''sc.d'' 0x1800302f 0xfe00707f AC_SC64 FLAGS_AMO_STORE AMO_ARGS_STORE @
     AMO_MAP_4ITEMS ''amoxor.d'' 0x2000302f 0xfe00707f AC_AMOXOR64 (FLAGS_AMO_MODIFY OR IMF_RV64) AMO_ARGS_MODIFY @
     replicate 12 IM_UNKNOWN @
     AMO_MAP_4ITEMS ''amoor.d'' 0x4000302f 0xfe00707f AC_AMOOR64 (FLAGS_AMO_MODIFY OR IMF_RV64) AMO_ARGS_MODIFY @
     replicate 12 IM_UNKNOWN @
     AMO_MAP_4ITEMS ''amoand.d'' 0x6000302f 0xfe00707f AC_AMOAND64 (FLAGS_AMO_MODIFY OR IMF_RV64) AMO_ARGS_MODIFY @
     replicate 12 IM_UNKNOWN @
     AMO_MAP_4ITEMS ''amomin.d'' 0x8000302f 0xfe00707f AC_AMOMIN64 (FLAGS_AMO_MODIFY OR IMF_RV64) AMO_ARGS_MODIFY @
     replicate 12 IM_UNKNOWN @
     AMO_MAP_4ITEMS ''amomax.d'' 0xa000302f 0xfe00707f AC_AMOMAX64 (FLAGS_AMO_MODIFY OR IMF_RV64) AMO_ARGS_MODIFY @
     replicate 12 IM_UNKNOWN @
     AMO_MAP_4ITEMS ''amominu.d'' 0xc000302f 0xfe00707f AC_AMOMINU64 (FLAGS_AMO_MODIFY OR IMF_RV64) AMO_ARGS_MODIFY @
     replicate 12 IM_UNKNOWN @
     AMO_MAP_4ITEMS ''amomaxu.d'' 0xe000302f 0xfe00707f AC_AMOMAXU64 (FLAGS_AMO_MODIFY OR IMF_RV64) AMO_ARGS_MODIFY @
     replicate 12 IM_UNKNOWN"

definition AMO_map :: "InstructionMap list" where
  "AMO_map = [
     IM_UNKNOWN,
     IM_UNKNOWN,
     IM_SUB ''amo-32'' IT_R NOALU AC_NONE AMO_32_map 0x0002027 0x0000707f \<lparr>bf_count = 7, bf_offset = 25\<rparr>,
     IM_SUB ''amo-64'' IT_R NOALU AC_NONE AMO_64_map 0x0003027 0x0000707f \<lparr>bf_count = 7, bf_offset = 25\<rparr>,
     IM_UNKNOWN,
     IM_UNKNOWN,
     IM_UNKNOWN,
     IM_UNKNOWN,
     IM_UNKNOWN]"

definition LOAD_map :: "InstructionMap list" where
  "LOAD_map = [
     IM ''lb'' IT_I (alu_op_code ALU_ADD) AC_I8 [''d'', ''o(s)''] 0x00000003 0x0000707f FLAGS_ALU_I_LOAD [],
     IM ''lh'' IT_I (alu_op_code ALU_ADD) AC_I16 [''d'', ''o(s)''] 0x00001003 0x0000707f FLAGS_ALU_I_LOAD [],
     IM ''lw'' IT_I (alu_op_code ALU_ADD) AC_I32 [''d'', ''o(s)''] 0x00002003 0x0000707f FLAGS_ALU_I_LOAD [],
     IM ''ld'' IT_I (alu_op_code ALU_ADD) AC_I64 [''d'', ''o(s)''] 0x00003003 0x0000707f (FLAGS_ALU_I_LOAD OR IMF_RV64) [],
     IM ''lbu'' IT_I (alu_op_code ALU_ADD) AC_U8 [''d'', ''o(s)''] 0x00004003 0x0000707f FLAGS_ALU_I_LOAD [],
     IM ''lhu'' IT_I (alu_op_code ALU_ADD) AC_U16 [''d'', ''o(s)''] 0x00005003 0x0000707f FLAGS_ALU_I_LOAD [],
     IM ''lwu'' IT_I (alu_op_code ALU_ADD) AC_U32 [''d'', ''o(s)''] 0x00006003 0x0000707f (FLAGS_ALU_I_LOAD OR IMF_RV64) [],
     IM_UNKNOWN]"

definition SRI_map :: "InstructionMap list" where
  "SRI_map = [
     IM ''srli'' IT_I (alu_op_code ALU_SR) AC_NONE [''d'', ''s'', ''>''] 0x00005013 0xfc00707f FLAGS_ALU_I [],
     IM ''srai'' IT_I (alu_op_code ALU_SR) AC_NONE [''d'', ''s'', ''>''] 0x40005013 0xfc00707f (FLAGS_ALU_I OR IMF_ALU_MOD) []]"

definition OP_IMM_map :: "InstructionMap list" where
  "OP_IMM_map = [
     IM ''addi'' IT_I (alu_op_code ALU_ADD) AC_NONE [''d'', ''s'', ''j''] 0x00000013 0x0000707f FLAGS_ALU_I inst_aliases_addi,
     IM ''slli'' IT_I (alu_op_code ALU_SLL) AC_NONE [''d'', ''s'', ''>''] 0x00001013 0xfc00707f FLAGS_ALU_I [],
     IM ''slti'' IT_I (alu_op_code ALU_SLT) AC_NONE [''d'', ''s'', ''j''] 0x00002013 0x0000707f FLAGS_ALU_I [],
     IM ''sltiu'' IT_I (alu_op_code ALU_SLTU) AC_NONE [''d'', ''s'', ''j''] 0x00003013 0x0000707f FLAGS_ALU_I inst_aliases_sltiu,
     IM ''xori'' IT_I (alu_op_code ALU_XOR) AC_NONE [''d'', ''s'', ''j''] 0x00004013 0x0000707f FLAGS_ALU_I inst_aliases_xori,
     IM_SUB ''sri'' IT_I NOALU AC_NONE SRI_map 0x00005013 0xbe00707f \<lparr>bf_count = 1, bf_offset = 30\<rparr>,
     IM ''ori'' IT_I (alu_op_code ALU_OR) AC_NONE [''d'', ''s'', ''j''] 0x00006013 0x0000707f FLAGS_ALU_I [],
     IM ''andi'' IT_I (alu_op_code ALU_AND) AC_NONE [''d'', ''s'', ''j''] 0x00007013 0x0000707f FLAGS_ALU_I inst_aliases_andi]"

definition STORE_map :: "InstructionMap list" where
  "STORE_map = [
     IM ''sb'' IT_S (alu_op_code ALU_ADD) AC_U8 [''t'', ''q(s)''] 0x00000023 0x0000707f FLAGS_ALU_I_STORE [],
     IM ''sh'' IT_S (alu_op_code ALU_ADD) AC_U16 [''t'', ''q(s)''] 0x00001023 0x0000707f FLAGS_ALU_I_STORE [],
     IM ''sw'' IT_S (alu_op_code ALU_ADD) AC_U32 [''t'', ''q(s)''] 0x00002023 0x0000707f FLAGS_ALU_I_STORE [],
     IM ''sd'' IT_S (alu_op_code ALU_ADD) AC_U64 [''t'', ''q(s)''] 0x00003023 0x0000707f (FLAGS_ALU_I_STORE OR IMF_RV64) [],
     IM_UNKNOWN,
     IM_UNKNOWN,
     IM_UNKNOWN,
     IM_UNKNOWN]"

definition ADD_map :: "InstructionMap list" where
  "ADD_map = [
     IM ''add'' IT_R (alu_op_code ALU_ADD) AC_NONE [''d'', ''s'', ''t''] 0x00000033 0xfe00707f FLAGS_ALU_T_R_STD [],
     IM ''sub'' IT_R (alu_op_code ALU_ADD) AC_NONE [''d'', ''s'', ''t''] 0x40000033 0xfe00707f (FLAGS_ALU_T_R_STD OR IMF_ALU_MOD) inst_aliases_sub]"

definition SR_map :: "InstructionMap list" where
  "SR_map = [
     IM ''srl'' IT_R (alu_op_code ALU_SR) AC_NONE [''d'', ''s'', ''t''] 0x00005033 0xfe00707f FLAGS_ALU_T_R_STD [],
     IM ''sra'' IT_R (alu_op_code ALU_SR) AC_NONE [''d'', ''s'', ''t''] 0x40005033 0xfe00707f (FLAGS_ALU_T_R_STD OR IMF_ALU_MOD) []]"

definition OP_ALU_map :: "InstructionMap list" where
  "OP_ALU_map = [
     IM_SUB ''add/sub'' IT_R NOALU AC_NONE ADD_map 0x00000033 0xbe00707f \<lparr>bf_count = 1, bf_offset = 30\<rparr>,
     IM ''sll'' IT_R (alu_op_code ALU_SLL) AC_NONE [''d'', ''s'', ''t''] 0x00001033 0xfe00707f FLAGS_ALU_T_R_STD [],
     IM ''slt'' IT_R (alu_op_code ALU_SLT) AC_NONE [''d'', ''s'', ''t''] 0x00002033 0xfe00707f FLAGS_ALU_T_R_STD inst_aliases_slt,
     IM ''sltu'' IT_R (alu_op_code ALU_SLTU) AC_NONE [''d'', ''s'', ''t''] 0x00003033 0xfe00707f FLAGS_ALU_T_R_STD inst_aliases_sltu,
     IM ''xor'' IT_R (alu_op_code ALU_XOR) AC_NONE [''d'', ''s'', ''t''] 0x00004033 0xfe00707f FLAGS_ALU_T_R_STD [],
     IM_SUB ''sr'' IT_R NOALU AC_NONE SR_map 0x00005033 0xbe00707f \<lparr>bf_count = 1, bf_offset = 30\<rparr>,
     IM ''or'' IT_R (alu_op_code ALU_OR) AC_NONE [''d'', ''s'', ''t''] 0x00006033 0xfe00707f FLAGS_ALU_T_R_STD [],
     IM ''and'' IT_R (alu_op_code ALU_AND) AC_NONE [''d'', ''s'', ''t''] 0x00007033 0xfe00707f FLAGS_ALU_T_R_STD []]"

definition OP_MUL_map :: "InstructionMap list" where
  "OP_MUL_map = [
     MUL_MAP_ITEM ''mul'' MUL_MUL 0x0000,
     MUL_MAP_ITEM ''mulh'' MUL_MULH 0x1000,
     MUL_MAP_ITEM ''mulhsu'' MUL_MULHSU 0x2000,
     MUL_MAP_ITEM ''mulhu'' MUL_MULHU 0x3000,
     MUL_MAP_ITEM ''div'' MUL_DIV 0x4000,
     MUL_MAP_ITEM ''divu'' MUL_DIVU 0x5000,
     MUL_MAP_ITEM ''rem'' MUL_REM 0x6000,
     MUL_MAP_ITEM ''remu'' MUL_REMU 0x7000]"

definition OP_map :: "InstructionMap list" where
  "OP_map = [
     IM_SUB ''alu'' IT_R NOALU AC_NONE OP_ALU_map 0x00000033 0x0000707f \<lparr>bf_count = 3, bf_offset = 12\<rparr>,
     IM_SUB ''mul'' IT_R NOALU AC_NONE OP_MUL_map 0x02000033 0xfc00707f \<lparr>bf_count = 3, bf_offset = 12\<rparr>]"

definition BRANCH_map :: "InstructionMap list" where
  "BRANCH_map = [
     IM ''beq'' IT_B (alu_op_code ALU_ADD) AC_NONE [''s'', ''t'', ''p''] 0x00000063 0x0000707f (IMF_SUPPORTED OR IMF_BRANCH OR IMF_ALU_REQ_RS OR IMF_ALU_REQ_RT OR IMF_ALU_MOD) inst_aliases_beq,
     IM ''bne'' IT_B (alu_op_code ALU_ADD) AC_NONE [''s'', ''t'', ''p''] 0x00001063 0x0000707f (IMF_SUPPORTED OR IMF_BRANCH OR IMF_ALU_REQ_RS OR IMF_ALU_REQ_RT OR IMF_ALU_MOD OR IMF_BJ_NOT) inst_aliases_bne,
     IM_UNKNOWN,
     IM_UNKNOWN,
     IM ''blt'' IT_B (alu_op_code ALU_SLT) AC_NONE [''s'', ''t'', ''p''] 0x00004063 0x0000707f (IMF_SUPPORTED OR IMF_BRANCH OR IMF_ALU_REQ_RS OR IMF_ALU_REQ_RT OR IMF_BJ_NOT) inst_aliases_blt,
     IM ''bge'' IT_B (alu_op_code ALU_SLT) AC_NONE [''s'', ''t'', ''p''] 0x00005063 0x0000707f (IMF_SUPPORTED OR IMF_BRANCH OR IMF_ALU_REQ_RS OR IMF_ALU_REQ_RT) inst_aliases_bge,
     IM ''bltu'' IT_B (alu_op_code ALU_SLTU) AC_NONE [''s'', ''t'', ''p''] 0x00006063 0x0000707f (IMF_SUPPORTED OR IMF_BRANCH OR IMF_ALU_REQ_RS OR IMF_ALU_REQ_RT OR IMF_BJ_NOT) inst_aliases_bltu,
     IM ''bgeu'' IT_B (alu_op_code ALU_SLTU) AC_NONE [''s'', ''t'', ''p''] 0x00007063 0x0000707f (IMF_SUPPORTED OR IMF_BRANCH OR IMF_ALU_REQ_RS OR IMF_ALU_REQ_RT) inst_aliases_bgeu]"

definition ENVIRONMENT_AND_BREAKPOINTS_map :: "InstructionMap list" where
  "ENVIRONMENT_AND_BREAKPOINTS_map = [
     IM ''ecall'' IT_I NOALU AC_NONE [] 0x00000073 0xffffffff (IMF_SUPPORTED OR IMF_EXCEPTION OR IMF_ECALL) [],
     IM ''ebreak'' IT_I NOALU AC_NONE [] 0x00100073 0xffffffff (IMF_SUPPORTED OR IMF_EXCEPTION OR IMF_EBREAK) []]"

definition SYSTEM_PRIV_slot8_map :: "InstructionMap list" where
  "SYSTEM_PRIV_slot8_map = [
     IM_UNKNOWN,
     IM_UNKNOWN,
     IM ''sret'' IT_I NOALU AC_NONE [] 0x10200073 0xffffffff (IMF_SUPPORTED OR IMF_XRET OR IMF_PRIV_S) [],
     IM_UNKNOWN,
     IM_UNKNOWN,
     IM ''wfi'' IT_I NOALU AC_NONE [] 0x10500073 0xffffffff IMF_SUPPORTED [],
     IM_UNKNOWN,
     IM_UNKNOWN]"

definition SYSTEM_PRIV_map :: "InstructionMap list" where
  "SYSTEM_PRIV_map = [
     IM_SUB ''environment_and_breakpoints'' IT_I NOALU AC_NONE ENVIRONMENT_AND_BREAKPOINTS_map 0x00000073 0xffffffff \<lparr>bf_count = 1, bf_offset = 20\<rparr>,
     IM_UNKNOWN,
     IM_UNKNOWN,
     IM_UNKNOWN,
     IM_UNKNOWN,
     IM_UNKNOWN,
     IM_UNKNOWN,
     IM_UNKNOWN,
     IM_SUB ''sret/wfi'' IT_I NOALU AC_NONE SYSTEM_PRIV_slot8_map 0x10000073 0xff8fffff \<lparr>bf_count = 3, bf_offset = 20\<rparr>,
     IM ''sfence.vma'' IT_I NOALU AC_SFENCE_VMA [''s'', ''t''] 0x12000073 0xfe007fff (IMF_SUPPORTED OR IMF_PRIV_S) [],
     IM_UNKNOWN,
     IM_UNKNOWN,
     IM_UNKNOWN,
     IM_UNKNOWN,
     IM_UNKNOWN,
     IM_UNKNOWN,
     IM_UNKNOWN,
     IM_UNKNOWN,
     IM_UNKNOWN,
     IM_UNKNOWN,
     IM_UNKNOWN,
     IM_UNKNOWN,
     IM_UNKNOWN,
     IM_UNKNOWN,
     IM ''mret'' IT_I NOALU AC_NONE [] 0x30200073 0xffffffff (IMF_SUPPORTED OR IMF_XRET OR IMF_PRIV_M) [],
     IM_UNKNOWN,
     IM_UNKNOWN,
     IM_UNKNOWN,
     IM_UNKNOWN,
     IM_UNKNOWN,
     IM_UNKNOWN,
     IM_UNKNOWN]"

definition SYSTEM_map :: "InstructionMap list" where
  "SYSTEM_map = [
     IM_SUB ''system_priviledged'' IT_I NOALU AC_NONE SYSTEM_PRIV_map 0x00000073 0xffffffff \<lparr>bf_count = 5, bf_offset = 25\<rparr>,
     CSR_MAP_ITEM ''csrrw'' ''s'' 0x1000 ALU_ADD 0 inst_aliases_csrrw,
     CSR_MAP_ITEM ''csrrs'' ''s'' 0x2000 ALU_OR IMF_CSR_TO_ALU inst_aliases_csrrs,
     CSR_MAP_ITEM ''csrrc'' ''s'' 0x3000 ALU_AND (IMF_CSR_TO_ALU OR IMF_ALU_MOD) [],
     IM_UNKNOWN,
     CSR_MAP_ITEM ''csrrwi'' ''Z'' 0x5000 ALU_ADD IMF_ALU_RS_ID [],
     CSR_MAP_ITEM ''csrrsi'' ''Z'' 0x6000 ALU_OR (IMF_ALU_RS_ID OR IMF_CSR_TO_ALU) [],
     CSR_MAP_ITEM ''csrrci'' ''Z'' 0x7000 ALU_AND (IMF_ALU_RS_ID OR IMF_CSR_TO_ALU OR IMF_ALU_MOD) []]"

definition MISC_MEM_map :: "InstructionMap list" where
  "MISC_MEM_map = [
     IM ''fence'' IT_I NOALU AC_CACHE_OP [] 0x0000000f 0x0000707f (IMF_SUPPORTED OR IMF_MEM) [],
     IM ''fence.i'' IT_I NOALU AC_CACHE_OP [] 0x000100f 0x0000707f (IMF_SUPPORTED OR IMF_MEM) [],
     IM_UNKNOWN,
     IM_UNKNOWN,
     IM_UNKNOWN,
     IM_UNKNOWN,
     IM_UNKNOWN,
     IM_UNKNOWN]"

definition SRI_32_map :: "InstructionMap list" where
  "SRI_32_map = [
     IM ''srliw'' IT_I (alu_op_code ALU_SR) AC_NONE [''d'', ''s'', ''>''] 0x0000501b 0xfe00707f (FLAGS_ALU_I OR IMF_FORCE_W_OP OR IMF_RV64) [],
     IM ''sraiw'' IT_I (alu_op_code ALU_SR) AC_NONE [''d'', ''s'', ''>''] 0x4000501b 0xfe00707f (FLAGS_ALU_I OR IMF_ALU_MOD OR IMF_FORCE_W_OP OR IMF_RV64) []]"

definition OP_IMM_32_map :: "InstructionMap list" where
  "OP_IMM_32_map = [
     IM ''addiw'' IT_I (alu_op_code ALU_ADD) AC_NONE [''d'', ''s'', ''j''] 0x0000001b 0x0000707f (FLAGS_ALU_I OR IMF_FORCE_W_OP OR IMF_RV64) inst_aliases_addiw,
     IM ''slliw'' IT_I (alu_op_code ALU_SLL) AC_NONE [''d'', ''s'', ''>''] 0x0000101b 0xfe00707f (FLAGS_ALU_I OR IMF_FORCE_W_OP OR IMF_RV64) [],
     IM_UNKNOWN,
     IM_UNKNOWN,
     IM_UNKNOWN,
     IM_SUB ''sriw'' IT_I NOALU AC_NONE SRI_32_map 0x0000501b 0xbe00707f \<lparr>bf_count = 1, bf_offset = 30\<rparr>,
     IM_UNKNOWN,
     IM_UNKNOWN]"

definition ADD_32_map :: "InstructionMap list" where
  "ADD_32_map = [
     IM ''addw'' IT_R (alu_op_code ALU_ADD) AC_NONE [''d'', ''s'', ''t''] 0x0000003b 0xfe00707f (FLAGS_ALU_T_R_STD OR IMF_FORCE_W_OP OR IMF_RV64) [],
     IM ''subw'' IT_R (alu_op_code ALU_ADD) AC_NONE [''d'', ''s'', ''t''] 0x4000003b 0xfe00707f (FLAGS_ALU_T_R_STD OR IMF_ALU_MOD OR IMF_FORCE_W_OP OR IMF_RV64) inst_aliases_subw]"

definition SR_32_map :: "InstructionMap list" where
  "SR_32_map = [
     IM ''srlw'' IT_R (alu_op_code ALU_SR) AC_NONE [''d'', ''s'', ''t''] 0x0000503b 0xfe00707f (FLAGS_ALU_T_R_STD OR IMF_FORCE_W_OP OR IMF_RV64) [],
     IM ''sraw'' IT_R (alu_op_code ALU_SR) AC_NONE [''d'', ''s'', ''t''] 0x4000503b 0xfe00707f (FLAGS_ALU_T_R_STD OR IMF_ALU_MOD OR IMF_FORCE_W_OP OR IMF_RV64) []]"

definition OP_ALU_32_map :: "InstructionMap list" where
  "OP_ALU_32_map = [
     IM_SUB ''addw/subw'' IT_R NOALU AC_NONE ADD_32_map 0x0000003b 0xbe00707f \<lparr>bf_count = 1, bf_offset = 30\<rparr>,
     IM ''sllw'' IT_R (alu_op_code ALU_SLL) AC_NONE [''d'', ''s'', ''t''] 0x0000103b 0xfe00707f (FLAGS_ALU_T_R_STD OR IMF_FORCE_W_OP OR IMF_RV64) [],
     IM_UNKNOWN,
     IM_UNKNOWN,
     IM_UNKNOWN,
     IM_SUB ''srw'' IT_R NOALU AC_NONE SR_32_map 0x0000503b 0xbe00707f \<lparr>bf_count = 1, bf_offset = 30\<rparr>,
     IM_UNKNOWN,
     IM_UNKNOWN]"

definition OP_MUL_32_map :: "InstructionMap list" where
  "OP_MUL_32_map = [
     MUL_32_MAP_ITEM ''mulw'' MUL_MUL 0x0000,
     IM_UNKNOWN,
     IM_UNKNOWN,
     IM_UNKNOWN,
     MUL_32_MAP_ITEM ''divw'' MUL_DIV 0x4000,
     MUL_32_MAP_ITEM ''divuw'' MUL_DIVU 0x5000,
     MUL_32_MAP_ITEM ''remw'' MUL_REM 0x6000,
     MUL_32_MAP_ITEM ''remuw'' MUL_REMU 0x7000]"

definition OP_32_map :: "InstructionMap list" where
  "OP_32_map = [
     IM_SUB ''aluw'' IT_R NOALU AC_NONE OP_ALU_32_map 0x00000033 0x0000707f \<lparr>bf_count = 3, bf_offset = 12\<rparr>,
     IM_SUB ''mulw'' IT_R NOALU AC_NONE OP_MUL_32_map 0x02000033 0xfc00707f \<lparr>bf_count = 3, bf_offset = 12\<rparr>]"

definition I_inst_map :: "InstructionMap list" where
  "I_inst_map = [
     IM_SUB ''load'' IT_I NOALU AC_NONE LOAD_map 0x03 0x7f \<lparr>bf_count = 3, bf_offset = 12\<rparr>,
     IM_UNKNOWN,
     IM_UNKNOWN,
     IM_SUB ''misc-mem'' IT_I NOALU AC_NONE MISC_MEM_map 0x0f 0x7f \<lparr>bf_count = 3, bf_offset = 12\<rparr>,
     IM_SUB ''op-imm'' IT_I NOALU AC_NONE OP_IMM_map 0x13 0x7f \<lparr>bf_count = 3, bf_offset = 12\<rparr>,
     IM ''auipc'' IT_U (alu_op_code ALU_ADD) AC_NONE [''d'', ''u''] 0x17 0x7f (IMF_SUPPORTED OR IMF_ALUSRC OR IMF_REGWRITE OR IMF_PC_TO_ALU) [],
     IM_SUB ''op-imm-32'' IT_I NOALU AC_NONE OP_IMM_32_map 0x1b 0x7f \<lparr>bf_count = 3, bf_offset = 12\<rparr>,
     IM_UNKNOWN,
     IM_SUB ''store'' IT_I NOALU AC_NONE STORE_map 0x23 0x7f \<lparr>bf_count = 3, bf_offset = 12\<rparr>,
     IM_UNKNOWN,
     IM_UNKNOWN,
     IM_SUB ''amo'' IT_R NOALU AC_NONE AMO_map 0x2f 0x7f \<lparr>bf_count = 3, bf_offset = 12\<rparr>,
     IM_SUB ''op'' IT_R NOALU AC_NONE OP_map 0x33 0x7f \<lparr>bf_count = 1, bf_offset = 25\<rparr>,
     IM ''lui'' IT_U (alu_op_code ALU_ADD) AC_NONE [''d'', ''u''] 0x37 0x7f (IMF_SUPPORTED OR IMF_ALUSRC OR IMF_REGWRITE) [],
     IM_SUB ''op-32'' IT_R NOALU AC_NONE OP_32_map 0x3b 0x7f \<lparr>bf_count = 1, bf_offset = 25\<rparr>,
     IM_UNKNOWN,
     IM_UNKNOWN,
     IM_UNKNOWN,
     IM_UNKNOWN,
     IM_UNKNOWN,
     IM_UNKNOWN,
     IM_UNKNOWN,
     IM_UNKNOWN,
     IM_UNKNOWN,
     IM_SUB ''branch'' IT_B NOALU AC_NONE BRANCH_map 0x63 0x7f \<lparr>bf_count = 3, bf_offset = 12\<rparr>,
     IM ''jalr'' IT_I (alu_op_code ALU_ADD) AC_NONE [''d'', ''o(s)''] 0x67 0x7f (IMF_SUPPORTED OR IMF_REGWRITE OR IMF_BRANCH_JALR OR IMF_ALUSRC OR IMF_ALU_REQ_RS) inst_aliases_jalr,
     IM_UNKNOWN,
     IM ''jal'' IT_J (alu_op_code ALU_ADD) AC_NONE [''d'', ''a''] 0x6f 0x7f (IMF_SUPPORTED OR IMF_REGWRITE OR IMF_JUMP OR IMF_PC_TO_ALU OR IMF_ALUSRC) inst_aliases_jal,
     IM_SUB ''system'' IT_I NOALU AC_NONE SYSTEM_map 0x73 0x7f \<lparr>bf_count = 3, bf_offset = 12\<rparr>,
     IM_UNKNOWN,
     IM_UNKNOWN,
     IM_UNKNOWN]"

definition C_inst_map :: "InstructionMap list" where
  "C_inst_map = [
     IM_UNKNOWN,
     IM_UNKNOWN,
     IM_UNKNOWN,
     IM_SUB ''i'' IT_UNKNOWN NOALU AC_NONE I_inst_map 0x3 0x3 \<lparr>bf_count = 5, bf_offset = 2\<rparr>]"

definition C_inst_unknown :: InstructionMap where "C_inst_unknown = IM_UNKNOWN"

section \<open>The search\<close>

definition instruction_map_opcode_field :: BitField where
  "instruction_map_opcode_field = \<lparr>bf_count = 2, bf_offset = 0\<rparr>"

text \<open>The loop of \<^verbatim>\<open>InstructionMapFind\<close>; an index past the end of a table is None.\<close>

function im_walk :: "InstructionMap \<Rightarrow> u32 \<Rightarrow> InstructionMap option" where
  "im_walk (IM nm ty al mc ar c m fl als) code = Some (IM nm ty al mc ar c m fl als)"
| "im_walk (IM_SUB nm ty al mc subs c m f) code =
     (let i = unat (bf_decode f code) in if i < length subs then im_walk (subs ! i) code else None)"
  by pat_completeness auto
termination
  by (relation "measure (\<lambda>(im, _). size im)") (auto dest!: nth_mem simp: less_Suc_eq_le intro: size_list_estimation')

definition InstructionMapFind :: "u32 \<Rightarrow> InstructionMap option" where
  "InstructionMapFind code =
     (let i = unat (bf_decode instruction_map_opcode_field code) in
      if i < length C_inst_map then
        (case im_walk (C_inst_map ! i) code of
           None \<Rightarrow> None
         | Some im \<Rightarrow> if (code XOR im_code im) AND im_mask im \<noteq> 0 then Some C_inst_unknown else Some im)
      else None)"

end
