(* ===== verification/Instruction.thy ===== *)
theory Instruction
  imports Instruction_Map
begin

text \<open>
  An instruction word (class \<^verbatim>\<open>Instruction\<close> of \<^verbatim>\<open>src/src/machine/instruction.cpp\<close>): its
  accessors, its immediate, the relocation of an argument and the immediates of
  pseudoinstructions; then the correctness of decoding: the search of the decoding tree never
  leaves a table, finds every supported entry on exactly the words that match its code and
  mask, and an assembled word decodes to the entry and the arguments it was made from.
\<close>

section \<open>Accessors\<close>

definition inst_map :: "u32 \<Rightarrow> InstructionMap" where
  "inst_map dt = the (InstructionMapFind dt)"

definition MASK :: "u32 \<Rightarrow> nat \<Rightarrow> nat \<Rightarrow> u32" where
  "MASK dt len off = drop_bit off dt AND (push_bit len 1 - 1)"

definition inst_opcode :: "u32 \<Rightarrow> u8" where "inst_opcode dt = ucast (MASK dt 7 0)"
definition inst_rs :: "u32 \<Rightarrow> u8" where "inst_rs dt = ucast (MASK dt 5 15)"
definition inst_rt :: "u32 \<Rightarrow> u8" where "inst_rt dt = ucast (MASK dt 5 20)"
definition inst_rd :: "u32 \<Rightarrow> u8" where "inst_rd dt = ucast (MASK dt 5 7)"
definition inst_shamt :: "u32 \<Rightarrow> u8" where "inst_shamt dt = inst_rt dt"

definition inst_funct :: "u32 \<Rightarrow> u16" where
  "inst_funct dt = ucast (push_bit 3 (MASK dt 7 25) OR MASK dt 3 12)"

definition inst_csr_address :: "u32 \<Rightarrow> u16" where
  "inst_csr_address dt = ucast (MASK dt 12 20)"

definition inst_address :: "u32 \<Rightarrow> address" where
  "inst_address dt = ucast (MASK dt 26 0)"

definition inst_imm_sign :: "u32 \<Rightarrow> bool" where
  "inst_imm_sign dt = (drop_bit 31 dt \<noteq> 0)"

definition inst_size :: "u32 \<Rightarrow> u8" where "inst_size dt = 4"

text \<open>Both branches of \<^verbatim>\<open>extend\<close> are one expression; the result is read as an \<^verbatim>\<open>int32_t\<close>.\<close>

definition inst_extend :: "u32 \<Rightarrow> nat \<Rightarrow> u32" where
  "inst_extend value used_bits = value OR NOT ((value AND push_bit (used_bits - 1) 1) - 1)"

definition inst_type :: "u32 \<Rightarrow> InstructionType" where
  "inst_type dt = im_type (inst_map dt)"

definition inst_flags :: "u32 \<Rightarrow> u32" where
  "inst_flags dt = im_flags (inst_map dt)"

definition inst_alu_op :: "u32 \<Rightarrow> AluCombinedOp" where
  "inst_alu_op dt = im_alu (inst_map dt)"

definition inst_mem_ctl :: "u32 \<Rightarrow> AccessControl" where
  "inst_mem_ctl dt = im_mem_ctl (inst_map dt)"

definition flags_alu_op_mem_ctl :: "u32 \<Rightarrow> u32 \<times> AluCombinedOp \<times> AccessControl" where
  "flags_alu_op_mem_ctl dt = (let im = inst_map dt in (im_flags im, im_alu im, im_mem_ctl im))"

definition immediate_of_type :: "InstructionType \<Rightarrow> u32 \<Rightarrow> u32" where
  "immediate_of_type ty dt = (case ty of
     IT_R \<Rightarrow> 0
   | IT_I \<Rightarrow> inst_extend (MASK dt 12 20) 12
   | IT_S \<Rightarrow> inst_extend (push_bit 5 (MASK dt 7 25) OR MASK dt 5 7) 12
   | IT_B \<Rightarrow> inst_extend (push_bit 1 (MASK dt 4 8) OR push_bit 5 (MASK dt 6 25) OR
       push_bit 11 (MASK dt 1 7) OR push_bit 12 (MASK dt 1 31)) 13
   | IT_U \<Rightarrow> inst_extend (push_bit 12 (MASK dt 20 12)) 32
   | IT_J \<Rightarrow> inst_extend (push_bit 1 (MASK dt 10 21) OR push_bit 11 (MASK dt 1 20) OR
       push_bit 12 (MASK dt 8 12) OR push_bit 20 (MASK dt 1 31)) 21
   | IT_ZICSR \<Rightarrow> 0
   | IT_AMO \<Rightarrow> 0
   | IT_UNKNOWN \<Rightarrow> 0)"

definition inst_immediate :: "u32 \<Rightarrow> u32" where
  "inst_immediate dt = immediate_of_type (inst_type dt) dt"

section \<open>Encoding of arguments\<close>

datatype Modifier = MOD_NONE | COMPOSED_IMM_UPPER | COMPOSED_IMM_LOWER

definition modify_pseudoinst_imm :: "Modifier \<Rightarrow> u64 \<Rightarrow> u64" where
  "modify_pseudoinst_imm m value = (case m of
     MOD_NONE \<Rightarrow> value
   | COMPOSED_IMM_UPPER \<Rightarrow> get_bits value 31 12 + get_bit value 11
   | COMPOSED_IMM_LOWER \<Rightarrow> get_bits value 11 0)"

text \<open>
  The loops of \<^verbatim>\<open>parse_field\<close> and \<^verbatim>\<open>base_from_tokens\<close> over the letters of an instruction's
  arguments, once each letter's value is known: a letter without a descriptor is a literal
  character, any other letter encodes its value into the word.
\<close>

definition encode_letter :: "char \<Rightarrow> u64 \<Rightarrow> u32" where
  "encode_letter c v = (case arg_desc_by_code c of None \<Rightarrow> 0 | Some d \<Rightarrow> sbf_encode (ad_arg d) (ucast v))"

fun encode_fields :: "char list \<Rightarrow> (char \<Rightarrow> u64) \<Rightarrow> u32 \<Rightarrow> u32" where
  "encode_fields [] v code = code"
| "encode_fields (c # cs) v code = encode_fields cs v (code OR encode_letter c (v c))"

definition assemble :: "InstructionMap \<Rightarrow> (char \<Rightarrow> u64) \<Rightarrow> u32" where
  "assemble im v = encode_fields (concat (im_args im)) v (im_code im)"

text \<open>
  \<^verbatim>\<open>Instruction::update\<close> puts the value of a relocation expression into the word; the additions
  are on \<^verbatim>\<open>int64_t\<close>.  The result is None where the method returns false.
\<close>

record RelocExpression =
  re_offset :: u64
  re_min :: int
  re_max :: int
  re_arg :: SplitBitField
  re_mod :: Modifier

definition inst_update :: "u32 \<Rightarrow> u64 \<Rightarrow> RelocExpression \<Rightarrow> u32 option" where
  "inst_update dt val r =
     (let dt = dt AND NOT (sbf_encode (re_arg r) (NOT 0));
          val = val + re_offset r in
      if re_mod r \<noteq> MOD_NONE then
        Some (dt OR sbf_encode (re_arg r) (ucast (modify_pseudoinst_imm (re_mod r) val)))
      else if val AND (push_bit (sbf_shift (re_arg r)) 1 - 1) \<noteq> 0 then None
      else if re_min r < 0 then
        (if (sint val < re_min r \<or> sint val > re_max r) \<and>
            (sint (val - 0x100000000) < re_min r \<or> sint (val - 0x100000000) > re_max r) then None
         else Some (dt OR sbf_encode (re_arg r) (ucast val)))
      else
        (if val < word_of_int (re_min r) \<or> val > word_of_int (re_max r) then None
         else Some (dt OR sbf_encode (re_arg r) (ucast val))))"

section \<open>The decoding tree\<close>

text \<open>The bits a table index is read from, and the entries an index can reach.\<close>

definition field_mask32 :: "BitField \<Rightarrow> u32" where
  "field_mask32 f = push_bit (bf_offset f) (push_bit (bf_count f) 1 - 1)"

fun im_leaves :: "InstructionMap \<Rightarrow> InstructionMap list" where
  "im_leaves (IM nm ty al mc ar c m fl als) = [IM nm ty al mc ar c m fl als]"
| "im_leaves (IM_SUB nm ty al mc subs c m f) = concat (take (2 ^ bf_count f) (map im_leaves subs))"

definition C_inst_root :: InstructionMap where
  "C_inst_root = IM_SUB [] IT_UNKNOWN NOALU AC_NONE C_inst_map 0 0 instruction_map_opcode_field"

definition im_supported :: "InstructionMap \<Rightarrow> bool" where
  "im_supported im = has_flag (im_flags im) IMF_SUPPORTED"

definition instruction_set :: "InstructionMap list" where
  "instruction_set = filter im_supported (im_leaves C_inst_root)"

text \<open>The bits a letter of the arguments occupies; a letter may not share them.\<close>

definition letter_mask :: "char \<Rightarrow> u32" where
  "letter_mask c = encode_letter c 0xffffffff"

fun letters_ok :: "char list \<Rightarrow> u32 \<Rightarrow> bool" where
  "letters_ok [] used = True"
| "letters_ok (c # cs) used = (letter_mask c AND used = 0 \<and> letters_ok cs (used OR letter_mask c))"

definition leaf_ok :: "InstructionMap \<Rightarrow> u32 \<Rightarrow> u32 \<Rightarrow> bool" where
  "leaf_ok im pc pm = (im_supported im \<longrightarrow>
     (im_code im XOR pc) AND pm = 0 \<and> pm AND NOT (im_mask im) = 0 \<and> im_code im AND NOT (im_mask im) = 0 \<and>
     letters_ok (concat (im_args im)) (im_mask im))"

text \<open>
  The consistency of the tree along every path (\<open>pc\<close>, \<open>pm\<close>: the bits the path fixes and which
  ones they are): every index field is new and its table is long enough; every supported entry
  has the bits of its path in its code, covered by its mask.
\<close>

fun im_check :: "InstructionMap \<Rightarrow> u32 \<Rightarrow> u32 \<Rightarrow> bool"
and im_check_table :: "BitField \<Rightarrow> InstructionMap list \<Rightarrow> nat \<Rightarrow> u32 \<Rightarrow> u32 \<Rightarrow> bool" where
  "im_check (IM nm ty al mc ar c m fl als) pc pm = leaf_ok (IM nm ty al mc ar c m fl als) pc pm"
| "im_check (IM_SUB nm ty al mc subs c m f) pc pm =
     (field_mask32 f AND pm = 0 \<and> pc AND field_mask32 f = 0 \<and> 2 ^ bf_count f \<le> length subs \<and>
      bf_offset f + bf_count f \<le> 32 \<and> im_check_table f subs 0 pc (pm OR field_mask32 f))"
| "im_check_table f [] i pc pm = True"
| "im_check_table f (im # ims) i pc pm =
     ((i < 2 ^ bf_count f \<longrightarrow> im_check im (pc OR push_bit (bf_offset f) (of_nat i)) pm) \<and>
      im_check_table f ims (i + 1) pc pm)"

lemma IM_UNKNOWN_check [simp]: "im_check IM_UNKNOWN pc pm"
  by (simp add: IM_UNKNOWN_def leaf_ok_def im_supported_def has_flag_def)

lemma replicate_UNKNOWN_check [simp]:
  "im_check_table f (replicate n IM_UNKNOWN @ ims) i pc pm = im_check_table f ims (i + n) pc pm"
  by (induction n arbitrary: i) simp_all

lemma replicate_UNKNOWN_check_end [simp]: "im_check_table f (replicate n IM_UNKNOWN) i pc pm"
  using replicate_UNKNOWN_check [of f n "[]"] by simp

lemmas table_defs = AMO_32_map_def AMO_64_map_def AMO_map_def LOAD_map_def SRI_map_def OP_IMM_map_def STORE_map_def
  ADD_map_def SR_map_def OP_ALU_map_def OP_MUL_map_def OP_map_def BRANCH_map_def
  ENVIRONMENT_AND_BREAKPOINTS_map_def SYSTEM_PRIV_slot8_map_def SYSTEM_PRIV_map_def
  SYSTEM_map_def MISC_MEM_map_def SRI_32_map_def OP_IMM_32_map_def ADD_32_map_def SR_32_map_def
  OP_ALU_32_map_def OP_MUL_32_map_def OP_32_map_def I_inst_map_def C_inst_map_def
  AMO_MAP_4ITEMS_def MUL_MAP_ITEM_def MUL_32_MAP_ITEM_def CSR_MAP_ITEM_def
  AMO_ARGS_LOAD_def AMO_ARGS_STORE_def AMO_ARGS_MODIFY_def

lemma letter_masks [simp]:
  "letter_mask CHR ''d'' = 0xf80" "letter_mask CHR ''s'' = 0xf8000" "letter_mask CHR ''t'' = 0x1f00000"
  "letter_mask CHR ''j'' = 0xfff00000" "letter_mask CHR ''>'' = 0x1f00000" "letter_mask CHR ''a'' = 0xfffff000"
  "letter_mask CHR ''u'' = 0xfffff000" "letter_mask CHR ''p'' = 0xfe000f80" "letter_mask CHR ''o'' = 0xfff00000"
  "letter_mask CHR ''q'' = 0xfe000f80" "letter_mask CHR ''Z'' = 0xf8000" "letter_mask CHR ''E'' = 0xfff00000"
  "letter_mask CHR ''('' = 0" "letter_mask CHR '')'' = 0"
  by (simp_all add: letter_mask_def encode_letter_def arg_desc_by_code_def arg_desc_list_def ad_def
      sbf_encode_def bf_encode_def bf_low_mask_def)

text \<open>The tree of the source is consistent.\<close>

lemma C_inst_check: "im_check C_inst_root 0 0"
  by (simp add: C_inst_root_def instruction_map_opcode_field_def table_defs leaf_ok_def field_mask32_def)

lemma im_check_table_iff:
  "im_check_table f subs i pc pm \<longleftrightarrow>
    (\<forall>j<length subs. i + j < 2 ^ bf_count f \<longrightarrow>
      im_check (subs ! j) (pc OR push_bit (bf_offset f) (of_nat (i + j))) pm)"
proof (induction subs arbitrary: i)
  case (Cons im subs)
  show ?case by (auto simp: Cons.IH less_Suc_eq_0_disj all_conj_distrib nth_Cons ac_simps split: nat.splits)
qed simp

lemma field_mask32_eq: "bf_count f \<le> 32 \<Longrightarrow> field_mask32 f = push_bit (bf_offset f) (mask (bf_count f))"
  by (simp add: field_mask32_def mask_eq_exp_minus_1 push_bit_eq_mult)

lemma decode_of_path:
  assumes f: "bf_offset f + bf_count f \<le> 32" and i: "i < 2 ^ bf_count f" and pc: "pc AND field_mask32 f = 0"
    and w: "(w XOR (pc OR push_bit (bf_offset f) (of_nat i))) AND (pm OR field_mask32 f) = 0"
    and pm: "field_mask32 f AND pm = 0"
  shows "unat (bf_decode f w) = i" "(w XOR pc) AND pm = 0"
proof -
  have c: "bf_count f \<le> 32" using f by simp
  note fm = field_mask32_eq [OF c]
  have i32: "i < 2 ^ 32" using i c by (meson less_le_trans one_le_numeral power_increasing)
  have hi: "\<not> bit i n" if "bf_count f \<le> n" for n
    using i that by (metis bit_take_bit_iff linorder_not_less take_bit_nat_eq_self)
  have "bf_decode f w = of_nat i"
  proof (rule bit_word_eqI)
    fix n assume n: "n < LENGTH(32)"
    show "bit (bf_decode f w) n = bit (of_nat i :: u32) n"
    proof (cases "n < bf_count f")
      case True
      then have "bit (field_mask32 f) (bf_offset f + n)" using f by (simp add: fm bit_simps)
      with w [unfolded xor_and_0_iff] pc [unfolded and_0_iff]
      have "bit w (bf_offset f + n) = bit (push_bit (bf_offset f) (of_nat i :: u32)) (bf_offset f + n)"
        unfolding bit_or_iff by blast
      then show ?thesis using True f by (simp add: bit_bf_decode bit_simps)
    qed (use hi [of n] c in \<open>simp add: bit_bf_decode bit_simps\<close>)
  qed
  then show "unat (bf_decode f w) = i" using i32 by (simp add: unat_of_nat_small)
  have out: "\<not> bit (push_bit (bf_offset f) (of_nat i :: u32)) n" if "bit pm n" for n
  proof (cases "bf_offset f \<le> n \<and> n < bf_offset f + bf_count f")
    case True
    with pm that show ?thesis using f unfolding and_0_iff fm by (auto simp: bit_simps)
  next
    case False
    then have "bf_offset f \<le> n \<Longrightarrow> \<not> bit i (n - bf_offset f)" by (intro hi) auto
    then show ?thesis by (auto simp: bit_simps)
  qed
  with w show "(w XOR pc) AND pm = 0" unfolding xor_and_0_iff by (simp add: bit_or_iff)
qed

lemma in_leaves_iff:
  "leaf \<in> set (im_leaves (IM_SUB nm ty al mc subs c m f)) \<longleftrightarrow>
    (\<exists>j < length subs. j < 2 ^ bf_count f \<and> leaf \<in> set (im_leaves (subs ! j)))"
proof -
  have "x \<in> set (take k (map im_leaves subs)) \<longleftrightarrow> (\<exists>j < length subs. j < k \<and> x = im_leaves (subs ! j))" for x k
    by (auto simp: in_set_conv_nth)
  then show ?thesis by auto
qed

text \<open>On a consistent tree a word that matches a supported entry is led to that entry.\<close>

lemma im_check_walk:
  assumes "im_check im pc pm" "leaf \<in> set (im_leaves im)" "im_supported leaf"
    "(w XOR im_code leaf) AND im_mask leaf = 0"
  shows "(w XOR pc) AND pm = 0 \<and> im_walk im w = Some leaf"
  using assms
proof (induction im arbitrary: pc pm)
  case (IM nm ty al mc ar c m fl als)
  then have "leaf = IM nm ty al mc ar c m fl als" by simp
  with IM.prems have "(im_code leaf XOR pc) AND pm = 0" "pm AND NOT (im_mask leaf) = 0"
    by (simp_all add: leaf_ok_def)
  then have "bit pm n \<Longrightarrow> bit (im_mask leaf) n \<and> bit (im_code leaf) n = bit pc n" for n
    unfolding xor_and_0_iff and_not_0_iff by blast
  with IM.prems(4) have "(w XOR pc) AND pm = 0" unfolding xor_and_0_iff by blast
  with IM.prems(2) show ?case by simp
next
  case (IM_SUB nm ty al mc subs c m f)
  from IM_SUB.prems(2) obtain j where j: "j < length subs" "j < 2 ^ bf_count f" "leaf \<in> set (im_leaves (subs ! j))"
    unfolding in_leaves_iff by blast
  have chk: "im_check (subs ! j) (pc OR push_bit (bf_offset f) (of_nat j)) (pm OR field_mask32 f)"
    using IM_SUB.prems(1) j by (simp add: im_check_table_iff)
  from IM_SUB.IH [OF nth_mem [OF j(1)] chk j(3) IM_SUB.prems(3,4)]
  have w: "(w XOR (pc OR push_bit (bf_offset f) (of_nat j))) AND (pm OR field_mask32 f) = 0"
    and walk: "im_walk (subs ! j) w = Some leaf" by simp_all
  have "unat (bf_decode f w) = j" "(w XOR pc) AND pm = 0"
    using decode_of_path [OF _ j(2) _ w] IM_SUB.prems(1) by simp_all
  with walk j(1) show ?case by simp
qed

lemma InstructionMapFind_root:
  "InstructionMapFind code = (case im_walk C_inst_root code of None \<Rightarrow> None
     | Some im \<Rightarrow> if (code XOR im_code im) AND im_mask im \<noteq> 0 then Some C_inst_unknown else Some im)"
  by (simp add: InstructionMapFind_def C_inst_root_def Let_def)

text \<open>A consistent tree is never left, whatever the word.\<close>

lemma im_check_total: "im_check im pc pm \<Longrightarrow> \<exists>leaf. im_walk im w = Some leaf \<and> leaf \<in> set (im_leaves im)"
proof (induction im arbitrary: pc pm)
  case (IM_SUB nm ty al mc subs c m f)
  define i where "i = unat (bf_decode f w)"
  have c: "bf_offset f + bf_count f \<le> 32" and len: "2 ^ bf_count f \<le> length subs" using IM_SUB.prems by simp_all
  have "bf_decode f w = take_bit (bf_count f) (drop_bit (bf_offset f) w)"
    using c by (intro bit_word_eqI) (auto simp: bit_bf_decode bit_simps)
  then have i: "i < 2 ^ bf_count f" by (simp add: i_def unsigned_take_bit_eq)
  with len have il: "i < length subs" by simp
  from il IM_SUB.prems i
  have "im_check (subs ! i) (pc OR push_bit (bf_offset f) (of_nat i)) (pm OR field_mask32 f)"
    by (simp add: im_check_table_iff)
  then obtain leaf where leaf: "im_walk (subs ! i) w = Some leaf" "leaf \<in> set (im_leaves (subs ! i))"
    using IM_SUB.IH [OF nth_mem [OF il]] by blast
  then have "leaf \<in> set (im_leaves (IM_SUB nm ty al mc subs c m f))"
    using i il unfolding in_leaves_iff by blast
  with leaf il show ?case by (auto simp: i_def [symmetric] Let_def)
qed simp

section \<open>Arguments\<close>

lemma letter_mask_covers: "encode_letter c v AND NOT (letter_mask c) = 0"
proof (cases "arg_desc_by_code c")
  case (Some d)
  define fs where "fs = sbf_fields (ad_arg d)"
  have "\<forall>f\<in>set fs. bf_count f < 64"
    using Some unfolding fs_def
    by (auto simp: arg_desc_by_code_def arg_desc_list_def ad_def split: if_splits)
  moreover have "(0xffffffff :: u32) = - 1" by simp
  then have "bit (0xffffffff :: u32) k \<longleftrightarrow> k < 32" for k by (simp only: bit_minus_1_iff) simp
  ultimately have "bit (sbf_encode_loop fs (drop_bit (sbf_shift (ad_arg d)) (ucast v)) 0) n \<Longrightarrow>
      bit (sbf_encode_loop fs (drop_bit (sbf_shift (ad_arg d)) 0xffffffff) 0) n" for n
    by (elim sbf_encode_loop_mono) (auto simp: bit_simps)
  then have "bit (encode_letter c v) n \<Longrightarrow> bit (letter_mask c) n" for n
    using Some by (simp add: encode_letter_def letter_mask_def sbf_encode_def fs_def)
  then show ?thesis unfolding and_not_0_iff by blast
qed (simp add: encode_letter_def)

lemma encode_fields_keeps:
  "letters_ok cs used \<Longrightarrow> (encode_fields cs v code XOR code) AND used = 0"
proof (induction cs arbitrary: used code)
  case (Cons c cs)
  have "(encode_fields cs v (code OR encode_letter c (v c)) XOR (code OR encode_letter c (v c)))
      AND (used OR letter_mask c) = 0"
    using Cons.IH [of "used OR letter_mask c"] Cons.prems by simp
  moreover have "\<not> bit (encode_letter c (v c)) n" if "bit used n" for n
    using Cons.prems letter_mask_covers [of c "v c"] that unfolding letters_ok.simps and_not_0_iff
    unfolding and_0_iff by blast
  ultimately show ?case
    unfolding encode_fields.simps xor_and_0_iff by (simp add: bit_or_iff)
qed simp

lemma encode_fields_letter:
  "letters_ok cs used \<Longrightarrow> code AND NOT used = 0 \<Longrightarrow> c \<in> set cs \<Longrightarrow>
    (encode_fields cs v code XOR encode_letter c (v c)) AND letter_mask c = 0"
proof (induction cs arbitrary: used code)
  case (Cons b cs)
  define code' where "code' = code OR encode_letter b (v b)"
  have ok: "letters_ok cs (used OR letter_mask b)" and dis: "letter_mask b AND used = 0"
    using Cons.prems by simp_all
  have cov: "bit (encode_letter b (v b)) n \<Longrightarrow> bit (letter_mask b) n" for n
    using letter_mask_covers [of b "v b"] unfolding and_not_0_iff by blast
  have used: "bit code n \<Longrightarrow> bit used n" for n
    using Cons.prems(2) unfolding and_not_0_iff by blast
  show ?case
  proof (cases "c = b")
    case True
    have "bit (encode_fields cs v code') n = bit (encode_letter b (v b)) n" if "bit (letter_mask b) n" for n
    proof -
      have "bit (encode_fields cs v code') n = bit code' n"
        using encode_fields_keeps [OF ok, of v code'] that unfolding xor_and_0_iff by (simp add: bit_or_iff)
      moreover have "\<not> bit code n" using dis that used unfolding and_0_iff by blast
      ultimately show ?thesis by (simp add: code'_def bit_or_iff)
    qed
    with True show ?thesis unfolding xor_and_0_iff by (simp add: code'_def)
  next
    case False
    have "code' AND NOT (used OR letter_mask b) = 0"
      unfolding and_not_0_iff code'_def using used cov by (auto simp: bit_simps)
    from Cons.IH [OF ok this] False Cons.prems(3) show ?thesis by (simp add: code'_def)
  qed
qed simp

lemma im_check_leaf:
  "im_check im pc pm \<Longrightarrow> leaf \<in> set (im_leaves im) \<Longrightarrow> \<exists>pc pm. leaf_ok leaf pc pm"
proof (induction im arbitrary: pc pm)
  case (IM_SUB nm ty al mc subs c m f)
  from IM_SUB.prems(2) obtain j where j: "j < length subs" "j < 2 ^ bf_count f" "leaf \<in> set (im_leaves (subs ! j))"
    unfolding in_leaves_iff by blast
  have "im_check (subs ! j) (pc OR push_bit (bf_offset f) (of_nat j)) (pm OR field_mask32 f)"
    using IM_SUB.prems(1) j by (simp add: im_check_table_iff)
  from IM_SUB.IH [OF nth_mem [OF j(1)] this j(3)] show ?case .
qed auto

text \<open>The arguments of the source are well formed split fields.\<close>

lemma arg_desc_ok: "arg_desc_by_code c = Some d \<Longrightarrow> sbf_ok (ad_arg d)"
  by (auto simp: arg_desc_by_code_def arg_desc_list_def ad_def sbf_ok_def split: if_splits)

lemma letter_mask_eq: "arg_desc_by_code c = Some d \<Longrightarrow> letter_mask c = sbf_encode (ad_arg d) (- 1)"
proof -
  have "ucast (0xffffffff :: u64) = (- 1 :: u32)" by simp
  then show "arg_desc_by_code c = Some d \<Longrightarrow> ?thesis"
    by (simp only: letter_mask_def encode_letter_def option.case)
qed

lemma instruction_set_ok:
  assumes "im \<in> set instruction_set"
  shows "im \<in> set (im_leaves C_inst_root)" "im_supported im" "im_code im AND NOT (im_mask im) = 0"
    "letters_ok (concat (im_args im)) (im_mask im)"
  using assms im_check_leaf [OF C_inst_check, of im]
  by (auto simp: instruction_set_def leaf_ok_def)

lemma find_matching:
  assumes "im \<in> set instruction_set" "(w XOR im_code im) AND im_mask im = 0"
  shows "InstructionMapFind w = Some im"
  using im_check_walk [OF C_inst_check _ _ assms(2)] instruction_set_ok [OF assms(1)] assms(2)
  by (simp add: InstructionMapFind_root)

lemma find_assemble: "im \<in> set instruction_set \<Longrightarrow> InstructionMapFind (assemble im v) = Some im"
  using encode_fields_keeps [OF instruction_set_ok(4)] unfolding assemble_def by (intro find_matching) auto

lemma decode_assemble:
  assumes "im \<in> set instruction_set" "c \<in> set (concat (im_args im))" "arg_desc_by_code c = Some d"
  shows "sbf_decode (ad_arg d) (assemble im v) = sbf_decode (ad_arg d) (sbf_encode (ad_arg d) (ucast (v c)))"
proof (rule sbf_decode_cong [OF arg_desc_ok [OF assms(3)]])
  have "encode_letter c (v c) = sbf_encode (ad_arg d) (ucast (v c))"
    using assms(3) by (simp add: encode_letter_def)
  with encode_fields_letter [OF instruction_set_ok(4,3) [OF assms(1)] assms(2), of v] letter_mask_eq [OF assms(3)]
  show "(assemble im v XOR sbf_encode (ad_arg d) (ucast (v c))) AND sbf_encode (ad_arg d) (- 1) = 0"
    unfolding assemble_def by simp
qed

section \<open>Immediates\<close>

lemma inst_extend_eq:
  assumes "0 < n" "n \<le> 32"
  shows "inst_extend v n = v OR NOT (if bit v (n - 1) then mask (n - 1) else - 1)"
proof -
  have "v AND push_bit (n - 1) 1 = (if bit v (n - 1) then push_bit (n - 1) 1 else 0)"
    by (rule bit_word_eqI) (auto simp: bit_simps)
  moreover have "push_bit (n - 1) 1 - 1 = (mask (n - 1) :: u32)"
    by (simp only: push_bit_eq_mult mask_eq_exp_minus_1 mult_1)
  ultimately show ?thesis unfolding inst_extend_def by (simp only: if_distrib [of "\<lambda>x. v OR NOT (x - 1)"]) simp
qed

lemma inst_extend_signed:
  assumes "0 < n" "n \<le> 32" "take_bit n v = v"
  shows "inst_extend v n = signed_take_bit (n - 1) v"
proof (rule bit_word_eqI)
  fix k assume k: "k < LENGTH(32)"
  have "bit v k \<Longrightarrow> k < n" using assms(3) by (metis bit_take_bit_iff)
  then have "bit v k \<Longrightarrow> \<not> k < n - 1 \<Longrightarrow> k = n - 1" using assms(1) by simp
  then show "bit (inst_extend v n) k = bit (signed_take_bit (n - 1) v) k"
    using assms k by (auto simp: inst_extend_eq bit_simps min_def)
qed

lemma MASK_eq: "len < 32 \<Longrightarrow> MASK dt len off = take_bit len (drop_bit off dt)"
  unfolding MASK_def take_bit_eq_mask by (simp only: push_bit_eq_mult mask_eq_exp_minus_1 mult_1)

lemma bf_decode_eq: "bf_count f < 64 \<Longrightarrow> bf_decode f (w :: u32) = take_bit (bf_count f) (drop_bit (bf_offset f) w)"
  by (rule bit_word_eqI) (auto simp: bit_bf_decode bit_simps)

lemma imm_value:
  fixes v :: u64
  assumes n: "wid + sh = n" "0 < n" "n \<le> 32" and rng: "- (2 ^ (n - 1)) \<le> sint v" "sint v < 2 ^ (n - 1)"
    and al: "take_bit sh v = 0"
  shows "sint (inst_extend (push_bit sh (take_bit wid (drop_bit sh (ucast v :: u32)))) n) = sint v"
proof -
  have low: "\<not> bit v k" if "k < sh" for k
    using al that by (metis bit_0_eq bit_take_bit_iff bot_apply bot_bool_def)
  have "push_bit sh (take_bit wid (drop_bit sh (ucast v :: u32))) = take_bit n (ucast v)"
  proof (rule bit_word_eqI)
    fix k assume "k < LENGTH(32)"
    then show "bit (push_bit sh (take_bit wid (drop_bit sh (ucast v :: u32)))) k = bit (take_bit n (ucast v :: u32)) k"
      by (cases "k < sh") (use low n(1) in \<open>auto simp: bit_simps not_less\<close>)
  qed
  then have "inst_extend (push_bit sh (take_bit wid (drop_bit sh (ucast v :: u32)))) n = signed_take_bit (n - 1) (ucast v)"
    using n by (auto simp: inst_extend_signed signed_take_bit_take_bit)
  also have "\<dots> = word_of_int (signed_take_bit (n - 1) (sint v))"
    using n by (intro bit_word_eqI) (auto simp: bit_simps bit_sint_iff min_def)
  also have "signed_take_bit (n - 1) (sint v) = sint v"
    using rng by (intro signed_take_bit_int_eq_self) simp_all
  finally have "sint (inst_extend (push_bit sh (take_bit wid (drop_bit sh (ucast v :: u32)))) n) =
      signed_take_bit 31 (sint v)" by (simp add: signed_of_int signed_scast_eq)
  also have "\<dots> = sint v"
  proof (rule signed_take_bit_int_eq_self)
    have "(2::int) ^ (n - 1) \<le> 2 ^ 31" using n by (intro power_increasing) auto
    then show "- (2 ^ 31) \<le> sint v" "sint v < 2 ^ 31" using rng by linarith+
  qed
  finally show ?thesis .
qed

text \<open>The letter whose value is the immediate of an instruction type, and the immediate's width.\<close>

definition imm_letter :: "InstructionType \<Rightarrow> char \<Rightarrow> nat option" where
  "imm_letter ty c =
     (if ty = IT_I \<and> c \<in> {CHR ''j'', CHR ''o''} then Some 12
      else if ty = IT_S \<and> c = CHR ''q'' then Some 12
      else if ty = IT_B \<and> c = CHR ''p'' then Some 13
      else if ty = IT_J \<and> c = CHR ''a'' then Some 21
      else None)"

lemma immediate_letter:
  assumes "imm_letter ty c = Some n" "arg_desc_by_code c = Some d"
  shows "immediate_of_type ty dt = inst_extend (sbf_decode (ad_arg d) dt) n \<and>
    sbf_width (sbf_fields (ad_arg d)) + sbf_shift (ad_arg d) = n \<and> 0 < n \<and> n \<le> 32 \<and>
    - (2 ^ (n - 1)) \<le> ad_min d \<and> ad_min d < 0 \<and> ad_max d < 2 ^ (n - 1)"
  using assms
  by (auto simp: imm_letter_def arg_desc_by_code_def arg_desc_list_def ad_def immediate_of_type_def sbf_decode_def
      bf_decode_eq MASK_eq push_bit_or or.assoc or.commute or.left_commute split: if_splits)

lemma inst_type_assemble: "im \<in> set instruction_set \<Longrightarrow> inst_type (assemble im v) = im_type im"
  by (simp add: inst_type_def inst_map_def find_assemble)

lemma immediate_assemble:
  assumes im: "im \<in> set instruction_set" and c: "c \<in> set (concat (im_args im))"
    and n: "imm_letter (im_type im) c = Some n" and d: "arg_desc_by_code c = Some d"
    and rng: "is_value_in_field_range d (v c)" and al: "take_bit (sbf_shift (ad_arg d)) (v c) = 0"
  shows "sint (inst_immediate (assemble im v)) = sint (v c)"
proof -
  note il = immediate_letter [OF n d]
  have "inst_immediate (assemble im v) = inst_extend (sbf_decode (ad_arg d) (sbf_encode (ad_arg d) (ucast (v c)))) n"
    using il [of "assemble im v"] im by (simp add: inst_immediate_def inst_type_assemble decode_assemble [OF im c d])
  also have "\<dots> = inst_extend (push_bit (sbf_shift (ad_arg d)) (take_bit (sbf_width (sbf_fields (ad_arg d)))
      (drop_bit (sbf_shift (ad_arg d)) (ucast (v c))))) n"
    by (simp add: sbf_decode_encode [OF arg_desc_ok [OF d]])
  finally have e: "inst_immediate (assemble im v) = \<dots>" .
  have "- (2 ^ (n - 1)) \<le> sint (v c)" "sint (v c) < 2 ^ (n - 1)"
    using il [of 0] rng unfolding is_value_in_field_range_def by (simp_all split: if_splits)
  with il [of 0] show ?thesis unfolding e by (intro imm_value [OF _ _ _ _ _ al]) simp_all
qed

lemma immediate_U: "immediate_of_type IT_U (encode_letter CHR ''u'' z) = push_bit 12 (ucast z)"
proof (rule bit_word_eqI)
  fix k assume "k < LENGTH(32)"
  then show "bit (immediate_of_type IT_U (encode_letter CHR ''u'' z)) k = bit (push_bit 12 (ucast z) :: u32) k"
    by (cases "k = 31") (auto simp: immediate_of_type_def encode_letter_def arg_desc_by_code_def arg_desc_list_def ad_def
        sbf_encode_def inst_extend_eq MASK_eq bit_bf_encode bit_simps)
qed

lemma immediate_I: "immediate_of_type IT_I (encode_letter CHR ''j'' z) = inst_extend (take_bit 12 (ucast z)) 12"
proof -
  have "MASK (encode_letter CHR ''j'' z) 12 20 = take_bit 12 (ucast z)"
    by (rule bit_word_eqI) (auto simp: encode_letter_def arg_desc_by_code_def arg_desc_list_def ad_def
        sbf_encode_def MASK_eq bit_bf_encode bit_simps)
  then show ?thesis by (simp add: immediate_of_type_def)
qed

lemma extend_12: "inst_extend (take_bit 12 x) 12 = take_bit 12 x + (if bit x 11 then 0xfffff000 else 0)"
proof -
  have m: "(0xfffff000 :: u32) = NOT (mask 12)" by (simp add: mask_eq_exp_minus_1)
  have "take_bit 12 x + NOT (mask 12) = take_bit 12 x OR NOT (mask 12)"
    by (rule disjunctive_add_eq_or) (auto simp: bit_eq_iff bit_simps)
  moreover have "bit x 11 \<Longrightarrow> take_bit 12 x OR NOT (mask 11) = take_bit 12 x OR NOT (mask 12)"
    by (rule bit_word_eqI) (auto simp: bit_simps numeral_eq_Suc less_Suc_eq)
  ultimately show ?thesis unfolding m by (simp add: inst_extend_eq bit_simps)
qed

section \<open>Properties\<close>

text \<open>
  Claim C10: decoding is total, sound and complete.  Every 32-bit word has an entry (no table
  is indexed out of its bounds); an entry other than the unknown one matches the word on its
  mask; and every supported entry of the tree is found for all the words that match its code
  and mask, so no two supported instructions share a word.
\<close>

theorem decode_total_sound_complete:
  "(\<exists>im. InstructionMapFind w = Some im \<and>
      (im = C_inst_unknown \<or> im \<in> set (im_leaves C_inst_root) \<and> (w XOR im_code im) AND im_mask im = 0)) \<and>
   (\<forall>im \<in> set instruction_set. (w XOR im_code im) AND im_mask im = 0 \<longrightarrow> InstructionMapFind w = Some im)"
proof -
  obtain leaf where "im_walk C_inst_root w = Some leaf" "leaf \<in> set (im_leaves C_inst_root)"
    using im_check_total [OF C_inst_check] by blast
  then have "\<exists>im. InstructionMapFind w = Some im \<and>
      (im = C_inst_unknown \<or> im \<in> set (im_leaves C_inst_root) \<and> (w XOR im_code im) AND im_mask im = 0)"
    by (auto simp: InstructionMapFind_root)
  then show ?thesis using find_matching by blast
qed

definition im_addi :: InstructionMap where "im_addi = OP_IMM_map ! 0"

lemma im_addi_supported: "im_addi \<in> set instruction_set"
  by (simp add: instruction_set_def im_addi_def C_inst_root_def C_inst_map_def I_inst_map_def OP_IMM_map_def
      instruction_map_opcode_field_def im_supported_def has_flag_def FLAGS_ALU_I_def IMF_SUPPORTED_def IMF_ALUSRC_def
      IMF_REGWRITE_def IMF_ALU_REQ_RS_def)

theorem decode_total_sound_complete_witness:
  "InstructionMapFind 0xfff10093 = Some im_addi"
  using decode_total_sound_complete [of "0xfff10093"] im_addi_supported
  by (auto simp: im_addi_def OP_IMM_map_def)

text \<open>
  Claim C11: assembling and decoding are inverse: the word built from a supported entry and
  values for its arguments decodes to that entry, and every argument field reads back its
  value (cut to the field's width, without the bits below its scale).
\<close>

theorem assemble_decode:
  assumes "im \<in> set instruction_set"
  shows "InstructionMapFind (assemble im v) = Some im \<and>
    (\<forall>c d. c \<in> set (concat (im_args im)) \<longrightarrow> arg_desc_by_code c = Some d \<longrightarrow>
      sbf_decode (ad_arg d) (assemble im v) =
        push_bit (sbf_shift (ad_arg d))
          (take_bit (sbf_width (sbf_fields (ad_arg d))) (drop_bit (sbf_shift (ad_arg d)) (ucast (v c)))))"
  using find_assemble [OF assms] decode_assemble [OF assms] sbf_decode_encode [OF arg_desc_ok] by metis

theorem assemble_decode_witness:
  "InstructionMapFind (assemble im_addi (\<lambda>_. 5)) = Some im_addi"
  using assemble_decode [OF im_addi_supported, of "\<lambda>_. 5"] by blast

text \<open>
  The immediate of an assembled instruction is the value that was written: for every
  instruction with an immediate argument of kind I, S, B or J, a value that passes the range
  check of its field and is a multiple of the field's scale is the signed value of
  \<^verbatim>\<open>Instruction::immediate\<close>.
\<close>

theorem immediate_round_trip:
  assumes "im \<in> set instruction_set" "c \<in> set (concat (im_args im))"
    and "imm_letter (im_type im) c = Some n" "arg_desc_by_code c = Some d"
    and "is_value_in_field_range d (v c)" "take_bit (sbf_shift (ad_arg d)) (v c) = 0"
  shows "sint (inst_immediate (assemble im v)) = sint (v c)"
  using immediate_assemble [OF assms(1-4), of v] assms(5,6) by simp

theorem immediate_round_trip_witness:
  "sint (inst_immediate (assemble im_addi (\<lambda>_. - 5))) = - 5"
proof -
  have "arg_desc_by_code CHR ''j'' = Some (ad CHR ''j'' CHR ''n'' (- 0x800) 0x7ff [(12, 20)] 0)"
    by (simp add: arg_desc_by_code_def arg_desc_list_def ad_def)
  from immediate_round_trip [OF im_addi_supported _ _ this, of 12 "\<lambda>_. - 5"] show ?thesis
    by (simp add: im_addi_def OP_IMM_map_def imm_letter_def is_value_in_field_range_def ad_def)
qed

text \<open>
  The two halves of a pseudoinstruction's immediate (\<^verbatim>\<open>li\<close>, \<^verbatim>\<open>la\<close>, \<^verbatim>\<open>call\<close>,
  \<^verbatim>\<open>tail\<close>) add up to the 32-bit value: the upper part encoded in a U-type instruction plus the
  sign-extended lower part encoded in an I-type instruction give the low 32 bits of the value.
\<close>

theorem pseudo_immediate_composition:
  "immediate_of_type IT_U (encode_letter CHR ''u'' (modify_pseudoinst_imm COMPOSED_IMM_UPPER v)) +
   immediate_of_type IT_I (encode_letter CHR ''j'' (modify_pseudoinst_imm COMPOSED_IMM_LOWER v)) = ucast v"
proof -
  define x :: u32 where "x = ucast v"
  have x11: "bit v 11 = bit x 11" by (simp add: x_def bit_simps)
  have "(get_bit v 11 :: u64) = (if bit v 11 then 1 else 0)"
    by (simp add: get_bit_def flip: bit_iff_odd_drop_bit) (simp add: and_one_eq bit_iff_odd_drop_bit odd_iff_mod_2_eq_one even_iff_mod_2_eq_zero)
  then have b11: "ucast (get_bit v 11) = (if bit x 11 then 1 else 0 :: u32)" by (simp add: x11)
  have lo: "take_bit 12 (ucast (get_bits v 11 0)) = take_bit 12 x"
    by (rule bit_word_eqI) (auto simp: get_bits_eq x_def bit_simps)
  have hi: "ucast (get_bits v 31 12) = drop_bit 12 x"
    by (rule bit_word_eqI) (auto simp: get_bits_eq x_def bit_simps)
  have "ucast (a + b) = (ucast a + ucast b :: u32)" for a b :: u64
    using as_u32_arith(1) [of a b] by (simp add: as_u32_def)
  then have "immediate_of_type IT_U (encode_letter CHR ''u'' (modify_pseudoinst_imm COMPOSED_IMM_UPPER v)) =
      push_bit 12 (drop_bit 12 x) + (if bit x 11 then 0x1000 else 0)"
    by (simp add: immediate_U modify_pseudoinst_imm_def b11 hi push_bit_add)
  moreover have "immediate_of_type IT_I (encode_letter CHR ''j'' (modify_pseudoinst_imm COMPOSED_IMM_LOWER v)) =
      take_bit 12 x + (if bit x 11 then 0xfffff000 else 0)"
    by (simp add: immediate_I modify_pseudoinst_imm_def lo extend_12)
  moreover have "push_bit 12 (drop_bit 12 x) + take_bit 12 x = x" by (rule bits_ident)
  moreover have "(p + (if b then 0x1000 else 0)) + (t + (if b then 0xfffff000 else 0)) = p + t" for p t :: u32 and b
  proof -
    have z: "(0x1000 :: u32) + 0xfffff000 = 0" by code_simp
    have "(p + c) + (t + d) = (p + t) + (c + d)" for c d :: u32 by (simp only: ac_simps)
    from this [of "0x1000" "0xfffff000"] have "(p + 0x1000) + (t + 0xfffff000) = p + t"
      unfolding z by (simp only: add_0_right)
    then show ?thesis by (cases b) (simp_all only: if_True if_False add_0_right)
  qed
  ultimately show ?thesis by (simp only: x_def [symmetric])
qed

text \<open>
  The range check of the U-type argument accepts values that do not fit into its
  20-bit field: 0x12345000 passes, and what the instruction holds is 0x45000 shifted by 12.
\<close>

theorem lui_argument_truncated:
  "\<exists>d. arg_desc_by_code CHR ''u'' = Some d \<and> is_value_in_field_range d 0x12345000 \<and>
     sbf_decode (ad_arg d) (sbf_encode (ad_arg d) 0x12345000) = 0x45000 \<and>
     immediate_of_type IT_U (encode_letter CHR ''u'' 0x12345000) = 0x45000000"
  by (simp add: arg_desc_by_code_def arg_desc_list_def ad_def is_value_in_field_range_def sbf_decode_def sbf_encode_def
      bf_decode_eq bf_encode_def bf_low_mask_def immediate_of_type_def encode_letter_def inst_extend_def MASK_def)

end
