(* ===== verification/Control_State.thy ===== *)
theory Control_State
  imports Machine_Defs BitField
begin

text \<open>
  The control and status registers (\<^verbatim>\<open>src/src/machine/csr/controlstate.h\<close>, \<^verbatim>\<open>controlstate.cpp\<close>,
  \<^verbatim>\<open>csr/address.h\<close>): the table of registers with their addresses, initial values, write masks
  and write handlers; access by address with its privilege checks; interrupts; entry to and
  return from a trap.  The signals to the user interface are left out.
\<close>

section \<open>Registers\<close>

datatype Xlen = XLEN_32 | XLEN_64

datatype csr_id =
    CSR_CYCLE | CSR_TIME | CSR_STIMECMP | CSR_MVENDORID | CSR_MARCHID | CSR_MIMPID
  | CSR_MHARTID | CSR_MSTATUS | CSR_MISA | CSR_MEDELEG | CSR_MIDELEG | CSR_MIE
  | CSR_MTVEC | CSR_MCOUNTERN | CSR_MSCRATCH | CSR_MEPC | CSR_MCAUSE | CSR_MTVAL
  | CSR_MIP | CSR_MTINST | CSR_MTVAL2 | CSR_MENVCFG | CSR_MENVCFGH | CSR_PMPCFG0
  | CSR_PMPADDR0 | CSR_MCYCLE | CSR_MINSTRET | CSR_SSTATUS | CSR_SIE | CSR_STVEC
  | CSR_SSCRATCH | CSR_SEPC | CSR_SCAUSE | CSR_STVAL | CSR_SIP | CSR_SATP

definition csr_ids :: "csr_id list" where
  "csr_ids = [CSR_CYCLE, CSR_TIME, CSR_STIMECMP, CSR_MVENDORID, CSR_MARCHID, CSR_MIMPID,
     CSR_MHARTID, CSR_MSTATUS, CSR_MISA, CSR_MEDELEG, CSR_MIDELEG, CSR_MIE,
     CSR_MTVEC, CSR_MCOUNTERN, CSR_MSCRATCH, CSR_MEPC, CSR_MCAUSE, CSR_MTVAL,
     CSR_MIP, CSR_MTINST, CSR_MTVAL2, CSR_MENVCFG, CSR_MENVCFGH, CSR_PMPCFG0,
     CSR_PMPADDR0, CSR_MCYCLE, CSR_MINSTRET, CSR_SSTATUS, CSR_SIE, CSR_STVEC,
     CSR_SSCRATCH, CSR_SEPC, CSR_SCAUSE, CSR_STVAL, CSR_SIP, CSR_SATP]"

text \<open>The write handler of a register, a member function pointer in the source.\<close>

datatype csr_write_handler = default_wlrl | mstatus_wlrl | satp_wlrl | mcycle_wlrl | sstatus_wlrl

record RegisterDesc =
  csr_name :: string
  csr_address :: u16
  csr_initial_value :: u64
  csr_write_mask :: u64
  csr_handler :: csr_write_handler

definition csr_desc :: "string \<Rightarrow> u16 \<Rightarrow> u64 \<Rightarrow> u64 \<Rightarrow> csr_write_handler \<Rightarrow> RegisterDesc" where
  "csr_desc name address initial write_mask handler =
     \<lparr>csr_name = name, csr_address = address, csr_initial_value = initial, csr_write_mask = write_mask, csr_handler = handler\<rparr>"

primrec REGISTERS :: "csr_id \<Rightarrow> RegisterDesc" where
  "REGISTERS CSR_CYCLE = csr_desc ''cycle'' 0xC00 0 0 default_wlrl"
| "REGISTERS CSR_TIME = csr_desc ''time'' 0xC01 0 0 default_wlrl"
| "REGISTERS CSR_STIMECMP = csr_desc ''stimecmp '' 0x14D 0 0xffffffff default_wlrl"
| "REGISTERS CSR_MVENDORID = csr_desc ''mvendorid'' 0xF11 0 0 default_wlrl"
| "REGISTERS CSR_MARCHID = csr_desc ''marchid'' 0xF12 0 0 default_wlrl"
| "REGISTERS CSR_MIMPID = csr_desc ''mimpid'' 0xF13 0 0 default_wlrl"
| "REGISTERS CSR_MHARTID = csr_desc ''mhardid'' 0xF14 0 0xffffffffffffffff default_wlrl"
| "REGISTERS CSR_MSTATUS = csr_desc ''mstatus'' 0x300 0 0x007FFFEA mstatus_wlrl"
| "REGISTERS CSR_MISA = csr_desc ''misa'' 0x301 0 0 default_wlrl"
| "REGISTERS CSR_MEDELEG = csr_desc ''medeleg'' 0x302 0 0xfffef7ff default_wlrl"
| "REGISTERS CSR_MIDELEG = csr_desc ''mideleg'' 0x303 0 0xffffffff default_wlrl"
| "REGISTERS CSR_MIE = csr_desc ''mie'' 0x304 0 0x00ff0AAA default_wlrl"
| "REGISTERS CSR_MTVEC = csr_desc ''mtvec'' 0x305 0 0xffffffffffffffff default_wlrl"
| "REGISTERS CSR_MCOUNTERN = csr_desc ''mcounteren'' 0x306 0 0xffffffff default_wlrl"
| "REGISTERS CSR_MSCRATCH = csr_desc ''mscratch'' 0x340 0 0xffffffffffffffff default_wlrl"
| "REGISTERS CSR_MEPC = csr_desc ''mepc'' 0x341 0 0xffffffffffffffff default_wlrl"
| "REGISTERS CSR_MCAUSE = csr_desc ''mcause'' 0x342 0 0xffffffffffffffff default_wlrl"
| "REGISTERS CSR_MTVAL = csr_desc ''mtval'' 0x343 0 0xffffffffffffffff default_wlrl"
| "REGISTERS CSR_MIP = csr_desc ''mip'' 0x344 0 0x00000222 default_wlrl"
| "REGISTERS CSR_MTINST = csr_desc ''mtinst'' 0x34A 0 0xffffffffffffffff default_wlrl"
| "REGISTERS CSR_MTVAL2 = csr_desc ''mtval2'' 0x34B 0 0xffffffffffffffff default_wlrl"
| "REGISTERS CSR_MENVCFG = csr_desc ''menvcfg'' 0x30A 0 0xffffffff default_wlrl"
| "REGISTERS CSR_MENVCFGH = csr_desc ''menvcfgh'' 0x31A 0 0xffffffff default_wlrl"
| "REGISTERS CSR_PMPCFG0 = csr_desc ''pmpcfg0'' 0x3A0 0 0xFFFFFFFF default_wlrl"
| "REGISTERS CSR_PMPADDR0 = csr_desc ''pmpaddr0'' 0x3B0 0 0xFFFFFFFC default_wlrl"
| "REGISTERS CSR_MCYCLE = csr_desc ''mcycle'' 0xB00 0 0xffffffffffffffff mcycle_wlrl"
| "REGISTERS CSR_MINSTRET = csr_desc ''minstret'' 0xB02 0 0xffffffffffffffff default_wlrl"
| "REGISTERS CSR_SSTATUS = csr_desc ''sstatus'' 0x100 0 0xffffffff sstatus_wlrl"
| "REGISTERS CSR_SIE = csr_desc ''sie'' 0x104 0 0x00010222 default_wlrl"
| "REGISTERS CSR_STVEC = csr_desc ''stvec'' 0x105 0 0xffffffffffffffff default_wlrl"
| "REGISTERS CSR_SSCRATCH = csr_desc ''sscratch'' 0x140 0 0xffffffffffffffff default_wlrl"
| "REGISTERS CSR_SEPC = csr_desc ''sepc'' 0x141 0 0xffffffffffffffff default_wlrl"
| "REGISTERS CSR_SCAUSE = csr_desc ''scause'' 0x142 0 0xffffffffffffffff default_wlrl"
| "REGISTERS CSR_STVAL = csr_desc ''stval'' 0x143 0 0xffffffffffffffff default_wlrl"
| "REGISTERS CSR_SIP = csr_desc ''sip'' 0x144 0 0x00010222 default_wlrl"
| "REGISTERS CSR_SATP = csr_desc ''satp'' 0x180 0 0xffffffff satp_wlrl"

text \<open>Fields of a register.\<close>

record RegisterFieldDesc =
  field_reg :: csr_id
  field_bits :: BitField

definition csr_field :: "csr_id \<Rightarrow> nat \<Rightarrow> nat \<Rightarrow> RegisterFieldDesc" where
  "csr_field r count offset = \<lparr>field_reg = r, field_bits = \<lparr>bf_count = count, bf_offset = offset\<rparr>\<rparr>"

definition mstatus_SIE where "mstatus_SIE = csr_field CSR_MSTATUS 1 1"
definition mstatus_MIE where "mstatus_MIE = csr_field CSR_MSTATUS 1 3"
definition mstatus_SPIE where "mstatus_SPIE = csr_field CSR_MSTATUS 1 5"
definition mstatus_MPIE where "mstatus_MPIE = csr_field CSR_MSTATUS 1 7"
definition mstatus_MPRV where "mstatus_MPRV = csr_field CSR_MSTATUS 1 17"
definition mstatus_SUM where "mstatus_SUM = csr_field CSR_MSTATUS 1 18"
definition mstatus_MXR where "mstatus_MXR = csr_field CSR_MSTATUS 1 19"
definition mstatus_SPP where "mstatus_SPP = csr_field CSR_MSTATUS 1 8"
definition mstatus_MPP where "mstatus_MPP = csr_field CSR_MSTATUS 2 11"
definition mstatus_UXL where "mstatus_UXL = csr_field CSR_MSTATUS 2 32"
definition mstatus_SXL where "mstatus_SXL = csr_field CSR_MSTATUS 2 34"
definition sstatus_SIE where "sstatus_SIE = csr_field CSR_SSTATUS 1 1"
definition sstatus_SPIE where "sstatus_SPIE = csr_field CSR_SSTATUS 1 5"
definition sstatus_SPP where "sstatus_SPP = csr_field CSR_SSTATUS 1 8"
definition satp_MODE32 where "satp_MODE32 = csr_field CSR_SATP 1 31"
definition satp_ASID32 where "satp_ASID32 = csr_field CSR_SATP 9 22"
definition satp_PPN32 where "satp_PPN32 = csr_field CSR_SATP 22 0"
definition satp_MODE64 where "satp_MODE64 = csr_field CSR_SATP 4 60"
definition satp_ASID64 where "satp_ASID64 = csr_field CSR_SATP 16 44"
definition satp_PPN64 where "satp_PPN64 = csr_field CSR_SATP 44 0"

lemmas csr_fields = mstatus_SIE_def mstatus_MIE_def mstatus_SPIE_def mstatus_MPIE_def mstatus_MPRV_def
  mstatus_SUM_def mstatus_MXR_def mstatus_SPP_def mstatus_MPP_def mstatus_UXL_def mstatus_SXL_def
  sstatus_SIE_def sstatus_SPIE_def sstatus_SPP_def satp_MODE32_def satp_ASID32_def satp_PPN32_def
  satp_MODE64_def satp_ASID64_def satp_PPN64_def

definition field_mask :: "RegisterFieldDesc \<Rightarrow> u64" where
  "field_mask f = bf_mask (field_bits f)"

definition field_update :: "RegisterFieldDesc \<Rightarrow> u64 \<Rightarrow> u64 \<Rightarrow> u64" where
  "field_update f orig val = bf_encode (field_bits f) val OR (orig AND NOT (field_mask f))"

section \<open>State and access\<close>

record ControlState =
  cs_xlen :: Xlen
  register_data :: "csr_id \<Rightarrow> u64"

definition csr_set :: "csr_id \<Rightarrow> u64 \<Rightarrow> ControlState \<Rightarrow> ControlState" where
  "csr_set i v cs = cs\<lparr>register_data := (register_data cs)(i := v)\<rparr>"

definition read_internal :: "ControlState \<Rightarrow> csr_id \<Rightarrow> u64" where
  "read_internal cs i = register_data cs i"

definition write_field_raw :: "RegisterFieldDesc \<Rightarrow> u64 \<Rightarrow> ControlState \<Rightarrow> ControlState" where
  "write_field_raw f val cs = csr_set (field_reg f) (field_update f (register_data cs (field_reg f)) val) cs"

definition csr_reset :: "ControlState \<Rightarrow> ControlState" where
  "csr_reset cs =
     (let cs = cs\<lparr>register_data := (\<lambda>i. csr_initial_value (REGISTERS i))\<rparr>;
          misa = read_internal cs CSR_MISA AND 0x3fffffff;
          misa = (case cs_xlen cs of XLEN_32 \<Rightarrow> misa OR push_bit 30 1 | XLEN_64 \<Rightarrow> misa OR push_bit 62 2);
          cs = csr_set CSR_MISA misa cs
      in if cs_xlen cs = XLEN_64 then write_field_raw mstatus_SXL 2 (write_field_raw mstatus_UXL 2 cs) else cs)"

definition csr_new :: "Xlen \<Rightarrow> u64 \<Rightarrow> ControlState" where
  "csr_new xlen isa_word =
     (let cs = csr_reset \<lparr>cs_xlen = xlen, register_data = (\<lambda>_. 0)\<rparr>
      in csr_set CSR_MISA (read_internal cs CSR_MISA OR isa_word) cs)"

text \<open>The map from addresses to registers is filled from the table, first entry first.\<close>

definition get_register_internal_id :: "u16 \<Rightarrow> csr_id result" where
  "get_register_internal_id a = (case find (\<lambda>i. csr_address (REGISTERS i) = a) csr_ids of
     None \<Rightarrow> Inl UnsupportedInstruction | Some i \<Rightarrow> Inr i)"

definition csr_is_writable :: "u16 \<Rightarrow> bool" where
  "csr_is_writable a = (get_bits a 11 10 \<noteq> 3)"

definition csr_get_privilege_level :: "u16 \<Rightarrow> PrivilegeLevel" where
  "csr_get_privilege_level a = priv_of_code (unat (get_bits a 9 8))"

definition csr_read :: "ControlState \<Rightarrow> u16 \<Rightarrow> PrivilegeLevel \<Rightarrow> u64 result" where
  "csr_read cs a current_priv = res_bind (get_register_internal_id a) (\<lambda>i.
     if priv_code current_priv < priv_code (csr_get_privilege_level a) then Inl UnsupportedInstruction
     else Inr (register_data cs i))"

section \<open>Write handlers\<close>

definition default_wlrl_write_handler :: "Xlen \<Rightarrow> RegisterDesc \<Rightarrow> u64 \<Rightarrow> u64 \<Rightarrow> u64" where
  "default_wlrl_write_handler xlen desc reg val =
     (let u = (val AND csr_write_mask desc) OR (reg AND NOT (csr_write_mask desc))
      in if xlen = XLEN_32 then u AND 0xffffffff else u)"

text \<open>The bits of \<^verbatim>\<open>mstatus\<close> that \<^verbatim>\<open>sstatus\<close> shows.\<close>

definition s_mask :: "Xlen \<Rightarrow> u64" where
  "s_mask xlen =
     (let m = field_mask mstatus_SIE OR field_mask mstatus_SPIE OR field_mask mstatus_SPP
            OR field_mask mstatus_SUM OR field_mask mstatus_MXR
      in if xlen = XLEN_64 then m OR field_mask mstatus_UXL OR field_mask mstatus_SXL else m)"

definition mstatus_wlrl_write_handler :: "RegisterDesc \<Rightarrow> u64 \<Rightarrow> ControlState \<Rightarrow> ControlState" where
  "mstatus_wlrl_write_handler desc val cs =
     (let reg = default_wlrl_write_handler (cs_xlen cs) desc (register_data cs CSR_MSTATUS) val;
          cs = csr_set CSR_MSTATUS reg cs;
          new_sstatus = reg AND s_mask (cs_xlen cs);
          new_sstatus = (if cs_xlen cs = XLEN_32 then new_sstatus AND 0xffffffff else new_sstatus)
      in csr_set CSR_SSTATUS new_sstatus cs)"

definition satp_wlrl_write_handler :: "Xlen \<Rightarrow> u64 \<Rightarrow> u64" where
  "satp_wlrl_write_handler xlen value = (case xlen of
     XLEN_32 \<Rightarrow> value AND 0xFFFFFFFF
   | XLEN_64 \<Rightarrow>
       (let mode = drop_bit 60 value AND 0xF
        in if mode \<noteq> 0 \<and> mode \<noteq> 8 \<and> mode \<noteq> 9 then value AND NOT (push_bit 60 0xF) else value))"

definition mcycle_wlrl_write_handler :: "u64 \<Rightarrow> ControlState \<Rightarrow> ControlState" where
  "mcycle_wlrl_write_handler val cs = csr_set CSR_CYCLE val (csr_set CSR_MCYCLE val cs)"

definition sstatus_wlrl_write_handler :: "RegisterDesc \<Rightarrow> u64 \<Rightarrow> ControlState \<Rightarrow> ControlState" where
  "sstatus_wlrl_write_handler desc val cs =
     (let m = s_mask (cs_xlen cs);
          write_val = val AND csr_write_mask desc;
          mstatus_val = (register_data cs CSR_MSTATUS AND NOT m) OR (write_val AND m);
          cs = csr_set CSR_MSTATUS mstatus_val cs;
          new_sstatus = mstatus_val AND m;
          new_sstatus = (if cs_xlen cs = XLEN_32 then new_sstatus AND 0xffffffff else new_sstatus)
      in csr_set CSR_SSTATUS new_sstatus cs)"

definition write_internal :: "csr_id \<Rightarrow> u64 \<Rightarrow> ControlState \<Rightarrow> ControlState" where
  "write_internal i val cs = (let desc = REGISTERS i in case csr_handler desc of
     default_wlrl \<Rightarrow> csr_set i (default_wlrl_write_handler (cs_xlen cs) desc (register_data cs i) val) cs
   | mstatus_wlrl \<Rightarrow> mstatus_wlrl_write_handler desc val cs
   | satp_wlrl \<Rightarrow> csr_set i (satp_wlrl_write_handler (cs_xlen cs) val) cs
   | mcycle_wlrl \<Rightarrow> mcycle_wlrl_write_handler val cs
   | sstatus_wlrl \<Rightarrow> sstatus_wlrl_write_handler desc val cs)"

definition csr_write :: "u16 \<Rightarrow> u64 \<Rightarrow> PrivilegeLevel \<Rightarrow> (ControlState, unit) action" where
  "csr_write a val current_priv = (\<lambda>cs.
     if \<not> csr_is_writable a then (cs, Inl UnsupportedInstruction)
     else if priv_code current_priv < priv_code (csr_get_privilege_level a) then (cs, Inl UnsupportedInstruction)
     else case get_register_internal_id a of Inl e \<Rightarrow> (cs, Inl e) | Inr i \<Rightarrow> (write_internal i val cs, Inr ()))"

definition increment_internal :: "csr_id \<Rightarrow> u64 \<Rightarrow> ControlState \<Rightarrow> ControlState" where
  "increment_internal i amount cs = write_internal i (register_data cs i + amount) cs"

definition read_field :: "ControlState \<Rightarrow> RegisterFieldDesc \<Rightarrow> u64" where
  "read_field cs f = bf_decode (field_bits f) (read_internal cs (field_reg f))"

definition write_field :: "RegisterFieldDesc \<Rightarrow> u64 \<Rightarrow> ControlState \<Rightarrow> ControlState" where
  "write_field f val cs = write_internal (field_reg f) (field_update f (read_internal cs (field_reg f)) val) cs"

section \<open>Interrupts and traps\<close>

text \<open>\<^verbatim>\<open>qCountLeadingZeroBits\<close> of a 64-bit value.\<close>

definition count_leading_zero_bits :: "u64 \<Rightarrow> nat" where
  "count_leading_zero_bits w = length (takeWhile (\<lambda>i. \<not> bit w (63 - i)) [0..<64])"

definition irq_to_signal :: "u64 \<Rightarrow> nat" where
  "irq_to_signal irqs = (if irqs \<noteq> 0 then 63 - count_leading_zero_bits (irqs AND (NOT irqs + 1)) else 0)"

definition update_exception_cause :: "ExceptionCause \<Rightarrow> PrivilegeLevel \<Rightarrow> ControlState \<Rightarrow> ControlState" where
  "update_exception_cause excause to_privlev cs =
     (let cause_reg_id = (if to_privlev = MACHINE then CSR_MCAUSE else CSR_SCAUSE);
          value = (if excause \<noteq> EXCAUSE_INT_M \<and> excause \<noteq> EXCAUSE_INT_S then of_nat (excause_code excause)
            else
              let mie = register_data cs (if to_privlev = SUPERVISOR then CSR_SIE else CSR_MIE);
                  mip = register_data cs (if to_privlev = SUPERVISOR then CSR_SIP else CSR_MIP);
                  irqs = mie AND mip AND 0xffffffff
              in of_nat (irq_to_signal irqs) OR push_bit (if cs_xlen cs = XLEN_32 then 31 else 63) 1)
      in csr_set cause_reg_id value cs)"

definition set_interrupt_signal :: "u32 \<Rightarrow> bool \<Rightarrow> ControlState \<Rightarrow> ControlState" where
  "set_interrupt_signal irq_num active cs =
     (if 32 \<le> irq_num then cs
      else
        let m = push_bit (unat irq_num) 1;
            mip = (if active then register_data cs CSR_MIP OR m else register_data cs CSR_MIP AND NOT m);
            cs = csr_set CSR_MIP mip cs
        in csr_set CSR_SIP (mip AND register_data cs CSR_MIDELEG) cs)"

definition core_interrupt_request :: "ControlState \<Rightarrow> PrivilegeLevel \<Rightarrow> ExceptionCause" where
  "core_interrupt_request cs current_priv =
     (let m_pending = register_data cs CSR_MIP AND register_data cs CSR_MIE;
          s_pending = register_data cs CSR_SIP AND register_data cs CSR_SIE;
          m_enabled = (priv_code current_priv < priv_code MACHINE \<or> (current_priv = MACHINE \<and> read_field cs mstatus_MIE \<noteq> 0));
          s_enabled = (priv_code current_priv < priv_code SUPERVISOR \<or> (current_priv = SUPERVISOR \<and> read_field cs mstatus_SIE \<noteq> 0))
      in if m_pending \<noteq> 0 \<and> m_enabled then EXCAUSE_INT_M
         else if s_pending \<noteq> 0 \<and> s_enabled then EXCAUSE_INT_S
         else EXCAUSE_NONE)"

definition exception_initiate :: "PrivilegeLevel \<Rightarrow> PrivilegeLevel \<Rightarrow> ControlState \<Rightarrow> ControlState" where
  "exception_initiate act_privlev to_privlev cs =
     (if to_privlev = MACHINE then
        let cs = write_field mstatus_MPIE (take_bit 32 (read_field cs mstatus_MIE)) cs;
            cs = write_field mstatus_MIE 0 cs
        in write_field mstatus_MPP (of_nat (priv_code act_privlev)) cs
      else
        let cs = write_field sstatus_SPIE (take_bit 32 (read_field cs sstatus_SIE)) cs;
            cs = write_field sstatus_SIE 0 cs
        in write_field sstatus_SPP (if act_privlev = SUPERVISOR then 1 else 0) cs)"

definition exception_return :: "PrivilegeLevel \<Rightarrow> PrivilegeLevel \<Rightarrow> ControlState \<Rightarrow> ControlState \<times> PrivilegeLevel" where
  "exception_return act_privlev xret_privlev cs =
     (let (cs, restored_privlev) =
        (if xret_privlev = MACHINE then
           let cs = write_field mstatus_MIE (read_field cs mstatus_MPIE) cs;
               cs = write_field mstatus_MPIE 1 cs;
               restored = priv_of_code (unat (read_field cs mstatus_MPP AND 3))
           in (write_field mstatus_MPP 0 cs, restored)
         else if xret_privlev = SUPERVISOR then
           let cs = write_field mstatus_SIE (read_field cs mstatus_SPIE) cs;
               cs = write_field mstatus_SPIE 1 cs;
               restored = (if read_field cs mstatus_SPP AND 1 = 1 then SUPERVISOR else UNPRIVILEGED)
           in (write_field mstatus_SPP 0 cs, restored)
         else (cs, UNPRIVILEGED))
      in (if act_privlev = MACHINE \<and> restored_privlev \<noteq> MACHINE then write_field mstatus_MPRV 0 cs else cs, restored_privlev))"

definition exception_pc_address :: "ControlState \<Rightarrow> PrivilegeLevel \<Rightarrow> address" where
  "exception_pc_address cs to_privlev =
     (if to_privlev = SUPERVISOR then register_data cs CSR_STVEC else register_data cs CSR_MTVEC)"

section \<open>The table\<close>

lemma csr_desc_simps [simp]:
  "csr_address (csr_desc n a i m h) = a" "csr_initial_value (csr_desc n a i m h) = i"
  "csr_write_mask (csr_desc n a i m h) = m" "csr_handler (csr_desc n a i m h) = h"
  by (simp_all add: csr_desc_def)

lemma csr_ids_all: "i \<in> set csr_ids"
  by (cases i) (simp_all add: csr_ids_def)

lemma csr_addresses_distinct: "distinct (map (\<lambda>i. csr_address (REGISTERS i)) csr_ids)"
  by (simp add: csr_ids_def)

lemma get_register_internal_id_iff:
  "get_register_internal_id a = Inr i \<longleftrightarrow> csr_address (REGISTERS i) = a"
proof -
  have inj: "csr_address (REGISTERS j) = csr_address (REGISTERS i) \<longleftrightarrow> j = i" for i j
    using csr_addresses_distinct csr_ids_all by (auto simp: distinct_map inj_on_def)
  show ?thesis
    using csr_ids_all inj
    by (auto simp: get_register_internal_id_def find_None_iff find_Some_iff split: option.splits)
qed

section \<open>Bits of the status registers\<close>

lemma mask32: "(0xffffffff :: u64) = mask 32"
  by (simp add: mask_eq_exp_minus_1)

lemma bit_s_mask: "bit (s_mask xlen) n \<longleftrightarrow> n \<in> {1, 5, 8, 18, 19} \<or> xlen = XLEN_64 \<and> n \<in> {32, 33, 34, 35}"
proof -
  have b: "bit (field_mask (csr_field r c off)) n \<longleftrightarrow> off \<le> n \<and> n < off + c" if "off + c < 64" for r c off
    using that by (auto simp: field_mask_def csr_field_def bf_mask_def bf_low_mask_eq bit_simps)
  have one: "bit (field_mask (csr_field r 1 off)) n \<longleftrightarrow> n = off" if "off < 63" for r off
    using b [of off 1 r] that by auto
  have two: "bit (field_mask (csr_field r 2 off)) n \<longleftrightarrow> n = off \<or> n = off + 1" if "off < 62" for r off
    using b [of off 2 r] that by auto
  have m: "bit (field_mask mstatus_SIE) n \<longleftrightarrow> n = 1" "bit (field_mask mstatus_SPIE) n \<longleftrightarrow> n = 5"
    "bit (field_mask mstatus_SPP) n \<longleftrightarrow> n = 8" "bit (field_mask mstatus_SUM) n \<longleftrightarrow> n = 18"
    "bit (field_mask mstatus_MXR) n \<longleftrightarrow> n = 19" "bit (field_mask mstatus_UXL) n \<longleftrightarrow> n = 32 \<or> n = 33"
    "bit (field_mask mstatus_SXL) n \<longleftrightarrow> n = 34 \<or> n = 35"
    unfolding csr_fields using one [of 1] one [of 5] one [of 8] one [of 18] one [of 19] two [of 32] two [of 34] by simp_all
  show ?thesis by (cases xlen) (simp_all add: s_mask_def Let_def bit_or_iff m disj_ac)
qed

definition in_field :: "RegisterFieldDesc \<Rightarrow> nat \<Rightarrow> bool" where
  "in_field f n \<longleftrightarrow> bf_offset (field_bits f) \<le> n \<and> n < bf_offset (field_bits f) + bf_count (field_bits f)"

definition field_ok :: "RegisterFieldDesc \<Rightarrow> bool" where
  "field_ok f \<longleftrightarrow> bf_offset (field_bits f) + bf_count (field_bits f) \<le> 32"

lemma bit_field_update:
  assumes "field_ok f"
  shows "bit (field_update f orig v) n \<longleftrightarrow> (if in_field f n then bit v (n - bf_offset (field_bits f)) else bit orig n)"
  using assms
  by (auto simp: field_update_def field_mask_def bf_mask_def bf_low_mask_eq bit_bf_encode in_field_def field_ok_def bit_simps
      dest: bit_imp_le_length)

lemma bit_read_field:
  assumes "field_ok f"
  shows "bit (read_field cs f) n \<longleftrightarrow> n < bf_count (field_bits f) \<and> bit (register_data cs (field_reg f)) (bf_offset (field_bits f) + n)"
  using assms by (simp add: read_field_def read_internal_def bit_bf_decode field_ok_def)

text \<open>The status registers agree on the bits that both have, below bit 32.\<close>

definition status_mirror :: "ControlState \<Rightarrow> bool" where
  "status_mirror cs \<longleftrightarrow> (\<forall>n < 32. bit (register_data cs CSR_SSTATUS) n \<longleftrightarrow>
     bit (register_data cs CSR_MSTATUS) n \<and> bit (s_mask (cs_xlen cs)) n)"

abbreviation mst :: "ControlState \<Rightarrow> nat \<Rightarrow> bool" where
  "mst cs n \<equiv> bit (register_data cs CSR_MSTATUS) n"

lemma bit_default_handler:
  "bit (default_wlrl_write_handler xlen desc reg v) n \<longleftrightarrow>
     (xlen = XLEN_64 \<or> n < 32) \<and> (if bit (csr_write_mask desc) n then bit v n else bit reg n)"
  by (cases xlen) (auto simp: default_wlrl_write_handler_def Let_def bit_and_iff bit_or_iff bit_not_iff mask32 bit_mask_iff
      dest: bit_imp_le_length)

lemma mstatus_write_internal:
  "mst (write_internal CSR_MSTATUS v cs) n \<longleftrightarrow>
     (cs_xlen cs = XLEN_64 \<or> n < 32) \<and> (if bit (0x007FFFEA :: u64) n then bit v n else mst cs n)"
  "status_mirror (write_internal CSR_MSTATUS v cs)"
  "cs_xlen (write_internal CSR_MSTATUS v cs) = cs_xlen cs"
  by (auto simp: write_internal_def Let_def mstatus_wlrl_write_handler_def csr_set_def bit_default_handler
      status_mirror_def bit_and_iff mask32 bit_mask_iff)

lemma sstatus_write_internal:
  "mst (write_internal CSR_SSTATUS v cs) n \<longleftrightarrow>
     (if bit (s_mask (cs_xlen cs)) n then n < 32 \<and> bit v n else mst cs n)"
  "status_mirror (write_internal CSR_SSTATUS v cs)"
  "cs_xlen (write_internal CSR_SSTATUS v cs) = cs_xlen cs"
  by (auto simp: write_internal_def Let_def sstatus_wlrl_write_handler_def csr_set_def
      status_mirror_def bit_and_iff bit_or_iff bit_not_iff mask32 bit_mask_iff dest: bit_imp_le_length)

text \<open>Every other write leaves the status registers alone.\<close>

lemma other_write_internal:
  assumes "i \<noteq> CSR_MSTATUS" "i \<noteq> CSR_SSTATUS"
  shows "register_data (write_internal i v cs) CSR_MSTATUS = register_data cs CSR_MSTATUS"
    "register_data (write_internal i v cs) CSR_SSTATUS = register_data cs CSR_SSTATUS"
    "cs_xlen (write_internal i v cs) = cs_xlen cs"
  using assms by (cases i; simp add: write_internal_def csr_set_def mcycle_wlrl_write_handler_def)+

lemma write_internal_mirror: "status_mirror cs \<Longrightarrow> status_mirror (write_internal i v cs)"
  using mstatus_write_internal(2) sstatus_write_internal(2) other_write_internal [of i v cs]
  by (cases "i = CSR_MSTATUS \<or> i = CSR_SSTATUS") (auto simp: status_mirror_def)

lemma csr_set_mirror: "status_mirror cs \<Longrightarrow> i \<noteq> CSR_MSTATUS \<Longrightarrow> i \<noteq> CSR_SSTATUS \<Longrightarrow> status_mirror (csr_set i v cs)"
  by (simp add: status_mirror_def csr_set_def)

text \<open>A field of either status register, as bits of \<^verbatim>\<open>mstatus\<close>.\<close>

lemma mstatus_write_field:
  assumes "field_reg f = CSR_MSTATUS" "field_ok f" "\<And>n. in_field f n \<Longrightarrow> bit (0x007FFFEA :: u64) n"
  shows "mst (write_field f v cs) n \<longleftrightarrow>
    (cs_xlen cs = XLEN_64 \<or> n < 32) \<and> (if in_field f n then bit v (n - bf_offset (field_bits f)) else mst cs n)"
  using assms by (auto simp: write_field_def mstatus_write_internal bit_field_update read_internal_def)

lemma sstatus_write_field:
  assumes "field_reg f = CSR_SSTATUS" "field_ok f" "\<And>n. in_field f n \<Longrightarrow> bit (s_mask (cs_xlen cs)) n" "status_mirror cs" "n < 32"
  shows "mst (write_field f v cs) n \<longleftrightarrow> (if in_field f n then bit v (n - bf_offset (field_bits f)) else mst cs n)"
  using assms by (auto simp: write_field_def sstatus_write_internal bit_field_update read_internal_def status_mirror_def)

lemma write_field_xlen [simp]: "cs_xlen (write_field f v cs) = cs_xlen cs"
  using mstatus_write_internal(3) sstatus_write_internal(3) other_write_internal(3)
  unfolding write_field_def by metis

lemma write_field_mirror: "status_mirror cs \<Longrightarrow> status_mirror (write_field f v cs)"
  by (simp add: write_field_def write_internal_mirror)


lemma csr_field_simps [simp]:
  "field_reg (csr_field r c k) = r" "bf_offset (field_bits (csr_field r c k)) = k" "bf_count (field_bits (csr_field r c k)) = c"
  by (simp_all add: csr_field_def)

lemma field_ok_csr_field [simp]: "field_ok (csr_field r c k) \<longleftrightarrow> k + c \<le> 32"
  by (simp add: field_ok_def)

lemma in_field_csr_field: "in_field (csr_field r c k) n \<longleftrightarrow> k \<le> n \<and> n < k + c"
  by (simp add: in_field_def)

text \<open>One-bit fields of \<^verbatim>\<open>mstatus\<close> and \<^verbatim>\<open>sstatus\<close>, and the previous privilege.\<close>

lemma mst_write_bit:
  assumes "k < 32" "bit (0x007FFFEA :: u64) k"
  shows "mst (write_field (csr_field CSR_MSTATUS (Suc 0) k) v cs) n \<longleftrightarrow>
    (cs_xlen cs = XLEN_64 \<or> n < 32) \<and> (if n = k then bit v 0 else mst cs n)"
proof -
  have f: "in_field (csr_field CSR_MSTATUS (Suc 0) k) m \<longleftrightarrow> m = k" for m by (auto simp: in_field_csr_field)
  show ?thesis
    by (subst mstatus_write_field) (use assms in \<open>simp_all only: f csr_field_simps field_ok_csr_field, simp_all\<close>)
qed

lemma mst_write_sbit:
  assumes "k \<in> {1, 5, 8}" "status_mirror cs" "n < 32"
  shows "mst (write_field (csr_field CSR_SSTATUS (Suc 0) k) v cs) n \<longleftrightarrow> (if n = k then bit v 0 else mst cs n)"
proof -
  have f: "in_field (csr_field CSR_SSTATUS (Suc 0) k) m \<longleftrightarrow> m = k" for m by (auto simp: in_field_csr_field)
  show ?thesis
    by (subst sstatus_write_field) (use assms in \<open>simp_all only: f csr_field_simps field_ok_csr_field bit_s_mask, auto\<close>)
qed

lemma mst_write_MPP:
  "mst (write_field mstatus_MPP v cs) n \<longleftrightarrow>
    (cs_xlen cs = XLEN_64 \<or> n < 32) \<and> (if n = 11 \<or> n = 12 then bit v (n - 11) else mst cs n)"
proof -
  have f: "in_field (csr_field CSR_MSTATUS 2 11) m \<longleftrightarrow> m = 11 \<or> m = 12" for m by (auto simp: in_field_csr_field)
  have "bit (0x007FFFEA :: u64) 11" "bit (0x007FFFEA :: u64) 12" by simp_all
  then show ?thesis unfolding csr_fields
    by (subst mstatus_write_field) (simp_all only: f csr_field_simps field_ok_csr_field, auto)
qed

lemma read_field_bit:
  assumes "k < 32"
  shows "read_field cs (csr_field r (Suc 0) k) = (if bit (register_data cs r) k then 1 else 0)"
proof (rule bit_word_eqI)
  fix n
  have "bit (read_field cs (csr_field r (Suc 0) k)) n \<longleftrightarrow> n = 0 \<and> bit (register_data cs r) k"
    using assms by (subst bit_read_field) auto
  then show "bit (read_field cs (csr_field r (Suc 0) k)) n = bit (if bit (register_data cs r) k then 1 else 0 :: u64) n"
    by (simp add: bit_1_iff)
qed

lemma read_field_MPP_eq:
  assumes "\<And>n. n = 0 \<or> n = 1 \<Longrightarrow> mst cs (11 + n) \<longleftrightarrow> bit v n"
  shows "read_field cs mstatus_MPP = take_bit 2 v"
proof (rule bit_word_eqI)
  fix n :: nat
  have "n < 2 \<longleftrightarrow> n = 0 \<or> n = 1" by auto
  then show "bit (read_field cs mstatus_MPP) n = bit (take_bit 2 v) n"
    using assms [of n] unfolding mstatus_MPP_def by (subst bit_read_field) (auto simp: bit_take_bit_iff)
qed

text \<open>Entry to a trap and return from it, as bits of \<^verbatim>\<open>mstatus\<close>.\<close>

lemma bit_if_1 [simp]: "bit (if b then 1 else 0 :: u64) 0 = b"
  by simp

lemma initiate_machine:
  assumes "n < 32"
  shows "mst (exception_initiate p MACHINE cs) n \<longleftrightarrow>
    (if n = 3 then False else if n = 7 then mst cs 3 else if n = 11 \<or> n = 12 then bit (of_nat (priv_code p) :: u64) (n - 11) else mst cs n)"
  using assms mst_write_MPP unfolding exception_initiate_def Let_def
  by (simp add: mstatus_MIE_def mstatus_MPIE_def mst_write_bit read_field_bit mst_write_MPP bit_take_bit_iff)


lemma return_machine:
  assumes "n < 32"
  shows "mst (fst (exception_return act MACHINE cs)) n \<longleftrightarrow>
    (if n = 3 then mst cs 7 else if n = 7 then True else if n = 11 \<or> n = 12 then False
     else if n = 17 \<and> act = MACHINE \<and> snd (exception_return act MACHINE cs) \<noteq> MACHINE then False else mst cs n)"
  using assms unfolding exception_return_def Let_def
  by (simp add: mstatus_MIE_def mstatus_MPIE_def mstatus_MPRV_def mst_write_bit read_field_bit mst_write_MPP)

lemma return_machine_privilege: "snd (exception_return act MACHINE cs) = priv_of_code (unat (read_field cs mstatus_MPP AND 3))"
proof -
  let ?c = "write_field mstatus_MPIE 1 (write_field mstatus_MIE (read_field cs mstatus_MPIE) cs)"
  have "mst ?c (11 + n) \<longleftrightarrow> bit (read_field cs mstatus_MPP) n" if "n = 0 \<or> n = 1" for n
    using that unfolding mstatus_MPP_def
    by (subst bit_read_field) (auto simp: mstatus_MIE_def mstatus_MPIE_def mst_write_bit)
  then have "read_field ?c mstatus_MPP = take_bit 2 (read_field cs mstatus_MPP)" by (rule read_field_MPP_eq)
  also have "\<dots> = read_field cs mstatus_MPP"
    by (rule bit_word_eqI) (auto simp: bit_take_bit_iff mstatus_MPP_def bit_read_field)
  finally show ?thesis by (simp add: exception_return_def Let_def)
qed

lemma initiate_supervisor:
  assumes "status_mirror cs" "n < 32"
  shows "mst (exception_initiate p SUPERVISOR cs) n \<longleftrightarrow>
    (if n = 1 then False else if n = 5 then mst cs 1 else if n = 8 then p = SUPERVISOR else mst cs n)"
proof -
  have sie: "bit (register_data cs CSR_SSTATUS) 1 \<longleftrightarrow> mst cs 1" using assms(1) by (simp add: status_mirror_def bit_s_mask)
  show ?thesis
    using assms sie unfolding exception_initiate_def Let_def
    by (simp add: sstatus_SIE_def sstatus_SPIE_def sstatus_SPP_def mst_write_sbit write_field_mirror read_field_bit bit_take_bit_iff)
qed

lemma return_supervisor:
  assumes "n < 32"
  shows "mst (fst (exception_return act SUPERVISOR cs)) n \<longleftrightarrow>
    (if n = 1 then mst cs 5 else if n = 5 then True else if n = 8 then False
     else if n = 17 \<and> act = MACHINE then False else mst cs n)"
    and "snd (exception_return act SUPERVISOR cs) = (if mst cs 8 then SUPERVISOR else UNPRIVILEGED)"
  using assms unfolding exception_return_def Let_def
  by (simp_all add: mstatus_SIE_def mstatus_SPIE_def mstatus_SPP_def mstatus_MPRV_def mst_write_bit read_field_bit)

section \<open>Reachable states\<close>

text \<open>The states a control state can be in, whatever the core and the devices do with it.\<close>

inductive csr_reachable :: "Xlen \<Rightarrow> ControlState \<Rightarrow> bool" for xlen where
  csr_start: "csr_reachable xlen (csr_new xlen isa_word)"
| csr_restart: "csr_reachable xlen cs \<Longrightarrow> csr_reachable xlen (csr_reset cs)"
| csr_written: "csr_reachable xlen cs \<Longrightarrow> csr_reachable xlen (write_internal i v cs)"
| csr_cause: "csr_reachable xlen cs \<Longrightarrow> csr_reachable xlen (update_exception_cause e p cs)"
| csr_irq: "csr_reachable xlen cs \<Longrightarrow> csr_reachable xlen (set_interrupt_signal n active cs)"
| csr_trap: "csr_reachable xlen cs \<Longrightarrow> csr_reachable xlen (exception_initiate p q cs)"
| csr_xret: "csr_reachable xlen cs \<Longrightarrow> csr_reachable xlen (fst (exception_return p q cs))"

lemma csr_reset_mirror: "status_mirror (csr_reset cs)" "cs_xlen (csr_reset cs) = cs_xlen cs"
proof -
  have b: "bit (field_update mstatus_UXL w v) n = bit w n" "bit (field_update mstatus_SXL w v) n = bit w n"
    if "n < 32" for v w n
    using that by (auto simp: field_update_def field_mask_def bf_mask_def bf_low_mask_eq bit_bf_encode csr_fields csr_field_def bit_simps
      dest: bit_imp_le_length)
  show "status_mirror (csr_reset cs)"
    by (auto simp: status_mirror_def csr_reset_def Let_def write_field_raw_def csr_set_def csr_fields b [unfolded csr_fields]
        split: Xlen.splits)
  show "cs_xlen (csr_reset cs) = cs_xlen cs"
    by (simp add: csr_reset_def Let_def write_field_raw_def csr_set_def)
qed

lemma csr_set_xlen [simp]: "cs_xlen (csr_set i v cs) = cs_xlen cs"
  by (simp add: csr_set_def)

lemma write_internal_xlen [simp]: "cs_xlen (write_internal i v cs) = cs_xlen cs"
  using mstatus_write_internal(3) sstatus_write_internal(3) other_write_internal(3) by metis

lemma csr_reachable_mirror: "csr_reachable xlen cs \<Longrightarrow> status_mirror cs \<and> cs_xlen cs = xlen"
proof (induction rule: csr_reachable.induct)
  case (csr_start isa_word)
  then show ?case using csr_reset_mirror by (simp add: csr_new_def Let_def csr_set_mirror)
next
  case (csr_cause cs e p)
  then show ?case by (simp add: update_exception_cause_def Let_def csr_set_mirror)
next
  case (csr_irq cs n active)
  then show ?case by (simp add: set_interrupt_signal_def Let_def csr_set_mirror)
next
  case (csr_trap cs p q)
  then show ?case by (simp add: exception_initiate_def Let_def write_field_mirror)
next
  case (csr_xret cs p q)
  then show ?case by (simp add: exception_return_def Let_def write_field_mirror)
qed (simp_all add: csr_reset_mirror write_internal_mirror)

text \<open>
  Above bit 31 \<^verbatim>\<open>sstatus\<close> either shows the word-length fields of \<^verbatim>\<open>mstatus\<close> or, from a reset to the
  first write of a status register, nothing.
\<close>

definition status_upper :: "ControlState \<Rightarrow> bool" where
  "status_upper cs \<longleftrightarrow> register_data cs CSR_SSTATUS = register_data cs CSR_MSTATUS AND s_mask (cs_xlen cs) \<or>
     drop_bit 32 (register_data cs CSR_SSTATUS) = 0"

lemma write_internal_upper: "status_upper cs \<Longrightarrow> status_upper (write_internal i v cs)"
proof -
  have "s_mask XLEN_32 AND 0xffffffff = s_mask XLEN_32"
    by (rule bit_word_eqI) (auto simp: bit_and_iff mask32 bit_mask_iff bit_s_mask)
  then have m: "w AND s_mask XLEN_32 AND 0xffffffff = w AND s_mask XLEN_32" for w by (metis and.assoc)
  assume "status_upper cs"
  moreover have "status_upper (write_internal CSR_MSTATUS v cs)" "status_upper (write_internal CSR_SSTATUS v cs)"
    by (auto simp: status_upper_def write_internal_def Let_def mstatus_wlrl_write_handler_def
        sstatus_wlrl_write_handler_def csr_set_def m)
  ultimately show ?thesis using other_write_internal [of i v cs]
    by (cases "i = CSR_MSTATUS"; cases "i = CSR_SSTATUS") (simp_all add: status_upper_def)
qed

lemma csr_set_upper: "status_upper cs \<Longrightarrow> i \<noteq> CSR_MSTATUS \<Longrightarrow> i \<noteq> CSR_SSTATUS \<Longrightarrow> status_upper (csr_set i v cs)"
  by (simp add: status_upper_def csr_set_def)

lemma write_field_upper: "status_upper cs \<Longrightarrow> status_upper (write_field f v cs)"
  by (simp add: write_field_def write_internal_upper)

lemma csr_reset_sstatus: "register_data (csr_reset cs) CSR_SSTATUS = 0"
  by (simp add: csr_reset_def Let_def write_field_raw_def csr_set_def csr_fields)

lemma csr_reachable_upper: "csr_reachable xlen cs \<Longrightarrow> status_upper cs"
proof (induction rule: csr_reachable.induct)
  case (csr_start isa_word)
  then show ?case by (simp add: csr_new_def Let_def csr_set_upper status_upper_def csr_reset_sstatus csr_set_def)
next
  case (csr_restart cs)
  then show ?case by (simp add: status_upper_def csr_reset_sstatus)
next
  case (csr_cause cs e p)
  then show ?case by (simp add: update_exception_cause_def Let_def csr_set_upper)
next
  case (csr_irq cs n active)
  then show ?case by (simp add: set_interrupt_signal_def Let_def csr_set_upper)
next
  case (csr_trap cs p q)
  then show ?case by (simp add: exception_initiate_def Let_def write_field_upper)
next
  case (csr_xret cs p q)
  then show ?case by (simp add: exception_return_def Let_def write_field_upper)
qed (simp add: write_internal_upper)

lemma csr_reset_word_length:
  assumes "cs_xlen cs = XLEN_64"
  shows "read_internal (csr_reset cs) CSR_MSTATUS = 0xa00000000" "read_internal (csr_reset cs) CSR_SSTATUS = 0"
  using assms csr_reset_sstatus by (simp_all add: csr_reset_def Let_def read_internal_def write_field_raw_def csr_set_def csr_fields
    csr_field_def field_update_def field_mask_def bf_mask_def bf_low_mask_eq bf_encode_def mask_eq_exp_minus_1)

section \<open>Interrupt priority\<close>

lemma length_takeWhile_upt:
  "m < n \<Longrightarrow> (\<And>i. i < m \<Longrightarrow> P i) \<Longrightarrow> \<not> P m \<Longrightarrow> length (takeWhile P [0..<n]) = m"
proof -
  assume a: "m < n" "\<And>i. i < m \<Longrightarrow> P i" "\<not> P m"
  have "[0..<n] = [0..<m] @ [m..<n]" using upt_add_eq_append [of 0 m "n - m"] a(1) by simp
  moreover have "[m..<n] = m # [Suc m..<n]" using a(1) by (rule upt_conv_Cons)
  moreover have "takeWhile P ([0..<m] @ ys) = [0..<m] @ takeWhile P ys" for ys
    by (rule takeWhile_append2) (use a(2) in auto)
  ultimately show ?thesis using a(3) by simp
qed

text \<open>\<^verbatim>\<open>w & (~w + 1)\<close> is the lowest bit of \<^verbatim>\<open>w\<close>.\<close>

lemma lowest_bit:
  fixes w :: "'a::len word"
  assumes "bit w k" "\<And>j. j < k \<Longrightarrow> \<not> bit w j"
  shows "bit (w AND (NOT w + 1)) n \<longleftrightarrow> n = k"
proof -
  have k: "k < LENGTH('a)" using assms(1) by (rule bit_imp_le_length)
  define h where "h = w AND NOT (mask (Suc k))"
  have w: "w = h OR push_bit k 1"
    using assms k by (intro bit_word_eqI) (auto simp: h_def bit_simps not_less_eq intro: linorder_cases)
  have "h AND push_bit k 1 = 0" "h AND mask k = 0"
    by (auto intro!: bit_word_eqI simp: h_def bit_simps)
  then have "h + push_bit k 1 = w" "h + mask k = h OR mask k" using w by (metis disjunctive_add_eq_or)+
  then have "w - 1 = h OR mask k" by (simp add: mask_eq_exp_minus_1 push_bit_eq_mult algebra_simps)
  moreover have "NOT w + 1 = NOT (w - 1)" by (simp add: minus_eq_not_plus_1 flip: minus_eq_not_minus_1)
  ultimately have "NOT w + 1 = NOT (h OR mask k)" by simp
  then show ?thesis
    using assms k by (auto simp: bit_simps h_def not_less_eq)
qed

lemma irq_to_signal_lowest:
  assumes "bit irqs k" "\<And>j. j < k \<Longrightarrow> \<not> bit irqs j"
  shows "irq_to_signal irqs = k"
proof -
  have k: "k < 64" using bit_imp_le_length [OF assms(1)] by simp
  have "irqs \<noteq> 0" using assms(1) by auto
  moreover have "count_leading_zero_bits (irqs AND (NOT irqs + 1)) = 63 - k"
    unfolding count_leading_zero_bits_def
    by (rule length_takeWhile_upt) (use k lowest_bit [OF assms] in \<open>auto simp del: bit_and_iff\<close>)
  ultimately show ?thesis using k by (simp add: irq_to_signal_def)
qed


section \<open>Access control\<close>

text \<open>
  The architecture's reading of a control register address: bits 9 and 8 are the lowest privilege
  level that may access the register (user 0, supervisor 1, hypervisor 2, machine 3), and both
  bits 11 and 10 set mean a read-only register.
\<close>

definition csr_permitted :: "PrivilegeLevel \<Rightarrow> u16 \<Rightarrow> bool" where
  "csr_permitted p a \<longleftrightarrow>
     unat a div 256 mod 4 \<le> (case p of UNPRIVILEGED \<Rightarrow> 0 | SUPERVISOR \<Rightarrow> 1 | HYPERVISOR \<Rightarrow> 2 | MACHINE \<Rightarrow> 3)"

definition csr_read_only :: "u16 \<Rightarrow> bool" where
  "csr_read_only a \<longleftrightarrow> unat a div 1024 mod 4 = 3"

lemma csr_address_fields:
  "csr_is_writable a \<longleftrightarrow> \<not> csr_read_only a"
  "priv_code p < priv_code (csr_get_privilege_level a) \<longleftrightarrow> \<not> csr_permitted p a"
proof -
  have "get_bits a 11 10 = take_bit 2 (drop_bit 10 a)" "get_bits a 9 8 = take_bit 2 (drop_bit 8 a)"
    by (simp_all add: get_bits_eq numeral_2_eq_2)
  then have u: "unat (get_bits a 11 10) = unat a div 1024 mod 4" "unat (get_bits a 9 8) = unat a div 256 mod 4"
    by (simp_all add: unsigned_take_bit_eq unsigned_drop_bit_eq del: take_bit_eq_mod)
      (use unsigned_less [of a, where ?'a = nat] in \<open>simp_all add: take_bit_eq_mod drop_bit_eq_div\<close>)
  have "csr_is_writable a \<longleftrightarrow> unat (get_bits a 11 10) \<noteq> unat (3 :: u16)"
    unfolding csr_is_writable_def by (simp only: word_unat_eq_iff)
  then show "csr_is_writable a \<longleftrightarrow> \<not> csr_read_only a" by (simp add: u csr_read_only_def)
  have "priv_code (priv_of_code n) = n" if "n < 4" for n using that by (auto simp: priv_of_code_def)
  then have "priv_code (csr_get_privilege_level a) = unat a div 256 mod 4"
    by (simp add: csr_get_privilege_level_def u)
  then show "priv_code p < priv_code (csr_get_privilege_level a) \<longleftrightarrow> \<not> csr_permitted p a"
    by (cases p) (simp_all add: csr_permitted_def not_le)
qed

section \<open>Properties\<close>

text \<open>
  Claim C39: control registers are protected.  A read returns the register whose address it
  names, and succeeds exactly when there is such a register and bits 9 and 8 of the address, as a
  number, are at most the current privilege level; a write moreover fails exactly when bits 11 and 10 are both
  set; a failing access changes nothing, and a successful write is the write of that register.
\<close>

theorem csr_access_control:
  "(csr_read cs a p = Inr v \<longleftrightarrow>
      (\<exists>i. csr_address (REGISTERS i) = a \<and> v = register_data cs i) \<and> csr_permitted p a) \<and>
   (csr_write a w p cs = (cs', Inr ()) \<longleftrightarrow> \<not> csr_read_only a \<and> csr_permitted p a \<and>
      (\<exists>i. csr_address (REGISTERS i) = a \<and> cs' = write_internal i w cs)) \<and>
   (csr_write a w p cs = (cs', Inl e) \<longleftrightarrow> cs' = cs \<and> e = UnsupportedInstruction \<and>
      \<not> (\<not> csr_read_only a \<and> csr_permitted p a \<and> (\<exists>i. csr_address (REGISTERS i) = a)))"
proof -
  have err: "get_register_internal_id a = Inl e \<Longrightarrow> e = UnsupportedInstruction" for e
    by (simp add: get_register_internal_id_def split: option.splits)
  have ex: "(\<exists>i. csr_address (REGISTERS i) = a \<and> P i) \<longleftrightarrow> (\<exists>i. get_register_internal_id a = Inr i \<and> P i)" for P
    using get_register_internal_id_iff [of a] by blast
  show ?thesis
    unfolding ex ex [of "\<lambda>_. True", simplified] using err
    by (cases "get_register_internal_id a") (auto simp: csr_read_def csr_write_def csr_address_fields)
qed
text \<open>
  Claim C40: \<^verbatim>\<open>sstatus\<close> stays a view of \<^verbatim>\<open>mstatus\<close>: in every state that the core and the devices
  can reach, below bit 32 it shows the bits SIE, SPIE, SPP, SUM and MXR of \<^verbatim>\<open>mstatus\<close> and nothing
  else.  Above bit 31 it shows either the fields UXL and SXL of \<^verbatim>\<open>mstatus\<close> (on RV64 only) and
  nothing else, or nothing at all: a reset sets the two fields in \<^verbatim>\<open>mstatus\<close> alone, see
  \<^verbatim>\<open>csr_reset_word_length\<close>.
\<close>

theorem sstatus_mirrors_mstatus:
  assumes "csr_reachable xlen cs"
  shows "cs_xlen cs = xlen \<and> (\<forall>n < 32. bit (register_data cs CSR_SSTATUS) n \<longleftrightarrow>
    bit (register_data cs CSR_MSTATUS) n \<and> n \<in> {1, 5, 8, 18, 19}) \<and>
    ((\<forall>n \<ge> 32. bit (register_data cs CSR_SSTATUS) n \<longleftrightarrow>
       bit (register_data cs CSR_MSTATUS) n \<and> xlen = XLEN_64 \<and> n \<in> {32, 33, 34, 35}) \<or>
     (\<forall>n \<ge> 32. \<not> bit (register_data cs CSR_SSTATUS) n))"
proof -
  have x: "cs_xlen cs = xlen" and m: "status_mirror cs" using csr_reachable_mirror [OF assms] by simp_all
  have "\<not> bit w n" if "drop_bit 32 w = 0" "32 \<le> n" for w :: u64 and n
    using that(2) arg_cong [OF that(1), of "\<lambda>x. bit x (n - 32)"] by (simp add: bit_drop_bit_eq)
  moreover have "\<forall>n \<ge> 32. bit w n \<longleftrightarrow> bit v n \<and> xlen = XLEN_64 \<and> n \<in> {32, 33, 34, 35}" if "w = v AND s_mask xlen" for v w
    using that by (auto simp: bit_and_iff bit_s_mask)
  moreover note csr_reachable_upper [OF assms, unfolded status_upper_def x]
  moreover have "\<forall>n < 32. bit (register_data cs CSR_SSTATUS) n \<longleftrightarrow>
      bit (register_data cs CSR_MSTATUS) n \<and> n \<in> {1, 5, 8, 18, 19}"
    using m by (auto simp: status_mirror_def bit_s_mask)
  ultimately show ?thesis using x by blast
qed

theorem sstatus_mirrors_mstatus_witness:
  "cs_xlen (write_internal CSR_SSTATUS 0x122 (csr_new XLEN_32 0)) = XLEN_32 \<and>
   (bit (register_data (write_internal CSR_SSTATUS 0x122 (csr_new XLEN_32 0)) CSR_SSTATUS) 5 \<longleftrightarrow>
     bit (register_data (write_internal CSR_SSTATUS 0x122 (csr_new XLEN_32 0)) CSR_MSTATUS) 5) \<and>
   \<not> bit (register_data (write_internal CSR_SSTATUS 0x122 (csr_new XLEN_32 0)) CSR_SSTATUS) 7 \<and>
   \<not> bit (register_data (write_internal CSR_SSTATUS 0x122 (csr_new XLEN_32 0)) CSR_SSTATUS) 33"
  using sstatus_mirrors_mstatus [OF csr_written [OF csr_start [of XLEN_32 0]], of CSR_SSTATUS "0x122"] by simp

text \<open>
  Entering a trap and returning from it are inverse.  A trap to machine mode disables
  the machine interrupts and the return restores the privilege level, the interrupt enable bit
  and every other status bit but the ones that hold the return information; the same for
  a trap to supervisor mode from user or supervisor mode.
\<close>

theorem trap_return_inverse:
  assumes "status_mirror cs" "n < 32"
  shows "(let cs1 = exception_initiate p MACHINE cs; (cs2, q) = exception_return MACHINE MACHINE cs1 in
      read_field cs1 mstatus_MIE = 0 \<and> q = p \<and> read_field cs2 mstatus_MIE = read_field cs mstatus_MIE \<and>
      (n \<notin> {7, 11, 12, 17} \<longrightarrow> bit (register_data cs2 CSR_MSTATUS) n = bit (register_data cs CSR_MSTATUS) n)) \<and>
    (p = UNPRIVILEGED \<or> p = SUPERVISOR \<longrightarrow>
     (let cs1 = exception_initiate p SUPERVISOR cs; (cs2, q) = exception_return SUPERVISOR SUPERVISOR cs1 in
      read_field cs1 mstatus_SIE = 0 \<and> q = p \<and> read_field cs2 mstatus_SIE = read_field cs mstatus_SIE \<and>
      (n \<notin> {5, 8} \<longrightarrow> bit (register_data cs2 CSR_MSTATUS) n = bit (register_data cs CSR_MSTATUS) n)))"
proof -
  let ?m = "exception_initiate p MACHINE cs" and ?s = "exception_initiate p SUPERVISOR cs"
  have "read_field ?m mstatus_MPP = take_bit 2 (of_nat (priv_code p))"
    by (rule read_field_MPP_eq) (auto simp: initiate_machine)
  also have "\<dots> AND 3 = of_nat (priv_code p)" by (cases p) (simp_all add: take_bit_eq_mod)
  finally have q: "snd (exception_return MACHINE MACHINE ?m) = p"
    unfolding return_machine_privilege by (cases p) (simp_all add: priv_of_code_def)
  have "snd (exception_return SUPERVISOR SUPERVISOR ?s) = p" if "p = UNPRIVILEGED \<or> p = SUPERVISOR"
    using that return_supervisor(2) [of 0 SUPERVISOR ?s] initiate_supervisor [OF assms(1), of 8 p] by auto
  then show ?thesis
    using q assms return_machine [of _ MACHINE ?m] return_supervisor(1) [of _ SUPERVISOR ?s]
    unfolding mstatus_MIE_def mstatus_SIE_def
    by (auto simp: Let_def split_def read_field_bit initiate_machine initiate_supervisor [OF assms(1)])
qed

theorem trap_return_inverse_witness:
  "snd (exception_return MACHINE MACHINE (exception_initiate SUPERVISOR MACHINE (csr_new XLEN_32 0))) = SUPERVISOR"
proof -
  have "status_mirror (csr_new XLEN_32 0)" using csr_reachable_mirror [OF csr_start] by blast
  from trap_return_inverse [OF this, of 0 SUPERVISOR] show ?thesis by (simp add: Let_def split_def)
qed

text \<open>
  An interrupt is reported as the lowest-numbered line that is both pending and
  enabled, with the interrupt bit of the register width set, in the cause register of the
  target privilege level.
\<close>

theorem interrupt_cause_is_lowest:
  assumes "bit (register_data cs CSR_MIE AND register_data cs CSR_MIP) k" "k < 32"
    "\<forall>j < k. \<not> bit (register_data cs CSR_MIE AND register_data cs CSR_MIP) j"
  shows "register_data (update_exception_cause EXCAUSE_INT_M MACHINE cs) CSR_MCAUSE =
    of_nat k OR push_bit (if cs_xlen cs = XLEN_32 then 31 else 63) 1"
proof -
  have "irq_to_signal (register_data cs CSR_MIE AND register_data cs CSR_MIP AND 0xffffffff) = k"
    using assms by (intro irq_to_signal_lowest) (auto simp: mask32 bit_simps)
  then show ?thesis by (simp add: update_exception_cause_def Let_def csr_set_def)
qed

theorem interrupt_cause_is_lowest_witness:
  "register_data (update_exception_cause EXCAUSE_INT_M MACHINE
     (set_interrupt_signal 11 True (set_interrupt_signal 7 True (write_internal CSR_MIE 0x880 (csr_new XLEN_32 0))))) CSR_MCAUSE =
   0x80000007"
proof -
  let ?cs = "set_interrupt_signal 11 True (set_interrupt_signal 7 True (write_internal CSR_MIE 0x880 (csr_new XLEN_32 0)))"
  have mie: "register_data ?cs CSR_MIE = 0x880" "register_data ?cs CSR_MIP = 0x880" "cs_xlen ?cs = XLEN_32"
    by (simp_all add: set_interrupt_signal_def Let_def csr_set_def write_internal_def default_wlrl_write_handler_def csr_new_def
        csr_reset_def read_internal_def)
  have low: "\<forall>j < 7. \<not> bit (0x880 :: u64) j" by (auto simp: numeral_eq_Suc less_Suc_eq)
  show ?thesis using interrupt_cause_is_lowest [of ?cs 7] low by (simp add: mie)
qed

text \<open>
  On a 64-bit machine every write of \<^verbatim>\<open>sstatus\<close>, also the one that enters a trap to
  supervisor mode, clears the width fields \<^verbatim>\<open>UXL\<close> and \<^verbatim>\<open>SXL\<close> of \<^verbatim>\<open>mstatus\<close>, which the reset
  sets to 64 bits.
\<close>

theorem sstatus_write_clears_xlen_fields:
  assumes "cs_xlen cs = XLEN_64" "n \<in> {32, 33, 34, 35}"
  shows "\<not> bit (register_data (write_internal CSR_SSTATUS v cs) CSR_MSTATUS) n \<and>
    \<not> bit (register_data (exception_initiate p SUPERVISOR cs) CSR_MSTATUS) n"
proof -
  have "bit (s_mask XLEN_64) n" "\<not> n < 32" using assms(2) by (auto simp: bit_s_mask)
  then show ?thesis
    using assms(1) sstatus_write_internal(1) [of _ _ n]
    by (simp add: exception_initiate_def Let_def write_field_def [of "csr_field CSR_SSTATUS (Suc 0) 8"] sstatus_SPP_def)
qed

theorem sstatus_write_clears_xlen_fields_witness:
  "bit (register_data (csr_new XLEN_64 0) CSR_MSTATUS) 33 \<and>
   \<not> bit (register_data (write_internal CSR_SSTATUS 0 (csr_new XLEN_64 0)) CSR_MSTATUS) 33"
proof -
  have "cs_xlen (csr_new XLEN_64 0) = XLEN_64" using csr_reachable_mirror [OF csr_start] by blast
  moreover have "bit (register_data (csr_new XLEN_64 0) CSR_MSTATUS) 33"
    by (simp add: csr_new_def Let_def csr_reset_def csr_set_def write_field_raw_def csr_fields csr_field_def field_update_def
        field_mask_def bf_mask_def bf_low_mask_def bf_encode_def)
  ultimately show ?thesis using sstatus_write_clears_xlen_fields [of "csr_new XLEN_64 0" 33 0] by simp
qed

end
