(* ===== verification/Bytes.thy ===== *)
theory Bytes
  imports Machine_Prelude
begin

text \<open>
  Objects as byte sequences. The memory interface of the simulator copies \<^verbatim>\<open>void *\<close> buffers, so the
  order of the bytes of an integer depends on the host; \<^verbatim>\<open>src/src/common/endian.h\<close> swaps them when
  the simulated machine and the host differ. The host's byte order is an argument of every
  definition that touches the representation of an integer.
\<close>

type_synonym byte = u8

datatype Endian = LITTLE | BIG

section \<open>Representation of integers\<close>

text \<open>The \<open>n\<close> bytes of a word, least significant first, and the word read back from them.\<close>

definition le_bytes :: "nat \<Rightarrow> 'a::len word \<Rightarrow> byte list" where
  "le_bytes n w = map (\<lambda>i. ucast (drop_bit (8 * i) w)) [0..<n]"

fun of_le_bytes :: "byte list \<Rightarrow> 'a::len word" where
  "of_le_bytes [] = 0"
| "of_le_bytes (b # bs) = ucast b OR push_bit 8 (of_le_bytes bs)"

text \<open>\<^verbatim>\<open>(byte *)&val\<close> and its inverse on a host of the given byte order.\<close>

definition object_bytes :: "Endian \<Rightarrow> nat \<Rightarrow> 'a::len word \<Rightarrow> byte list" where
  "object_bytes host n w = (if host = LITTLE then le_bytes n w else rev (le_bytes n w))"

definition of_object_bytes :: "Endian \<Rightarrow> byte list \<Rightarrow> 'a::len word" where
  "of_object_bytes host bs = (if host = LITTLE then of_le_bytes bs else of_le_bytes (rev bs))"

text \<open>\<^verbatim>\<open>sizeof\<close> of an unsigned integer type.\<close>

definition size_of :: "'a::len itself \<Rightarrow> nat" where
  "size_of _ = LENGTH('a) div 8"

text \<open>
  \<^verbatim>\<open>byteswap\<close>: the union is filled with the value and its bytes are copied in reverse. The host's
  byte order does not matter, because reversing is symmetric (\<open>byteswap_host\<close> below).
\<close>

definition byteswap :: "Endian \<Rightarrow> 'a::len word \<Rightarrow> 'a word" where
  "byteswap host val = of_object_bytes host (rev (object_bytes host (size_of TYPE('a)) val))"

definition byteswap_if :: "Endian \<Rightarrow> 'a::len word \<Rightarrow> bool \<Rightarrow> 'a word" where
  "byteswap_if host val condition = (if condition then byteswap host val else val)"

section \<open>Round trips\<close>

lemma length_le_bytes [simp]: "length (le_bytes n w) = n"
  by (simp add: le_bytes_def)

lemma length_object_bytes [simp]: "length (object_bytes host n w) = n"
  by (simp add: object_bytes_def)

lemma bit_of_le_bytes:
  "bit (of_le_bytes bs :: 'a::len word) k \<longleftrightarrow>
     k < LENGTH('a) \<and> k div 8 < length bs \<and> bit (bs ! (k div 8)) (k mod 8)"
proof (induction bs arbitrary: k)
  case Nil
  then show ?case by simp
next
  case (Cons b bs)
  show ?case
  proof (cases "k < 8")
    case True
    then show ?thesis by (auto simp: bit_simps)
  next
    case False
    then have "bit b k = False" using bit_imp_le_length [of b k] by auto
    moreover obtain j where "k = 8 + j" using False by (metis le_add_diff_inverse not_less)
    moreover have "(8 + j) div 8 = Suc (j div 8)" by simp
    ultimately show ?thesis
      using Cons.IH [of j] False by (auto simp: bit_simps)
  qed
qed

lemma nth_le_bytes: "i < n \<Longrightarrow> le_bytes n w ! i = ucast (drop_bit (8 * i) w)"
  by (simp add: le_bytes_def)

lemma of_le_bytes_le_bytes:
  assumes "LENGTH('a) \<le> 8 * n"
  shows "of_le_bytes (le_bytes n w) = (w :: 'a::len word)"
proof (rule bit_word_eqI)
  fix k assume "k < LENGTH('a)"
  moreover from this assms have "k div 8 < n" by simp
  ultimately show "bit (of_le_bytes (le_bytes n w) :: 'a word) k = bit w k"
    by (simp add: bit_of_le_bytes nth_le_bytes bit_simps)
qed

lemma le_bytes_of_le_bytes:
  assumes "length bs = n" and "8 * n \<le> LENGTH('a)"
  shows "le_bytes n (of_le_bytes bs :: 'a::len word) = bs"
proof (rule nth_equalityI)
  show "length (le_bytes n (of_le_bytes bs :: 'a word)) = length bs" using assms by simp
  fix i assume "i < length (le_bytes n (of_le_bytes bs :: 'a word))"
  then have i: "i < n" by simp
  show "le_bytes n (of_le_bytes bs :: 'a word) ! i = bs ! i"
  proof (rule bit_word_eqI)
    fix k assume k: "k < LENGTH(8)"
    with i assms have "8 * i + k < LENGTH('a)" by simp
    with i k assms show "bit (le_bytes n (of_le_bytes bs :: 'a word) ! i) k = bit (bs ! i) k"
      by (simp add: nth_le_bytes bit_simps bit_of_le_bytes)
  qed
qed

lemma of_object_bytes_object_bytes:
  "LENGTH('a) \<le> 8 * n \<Longrightarrow> of_object_bytes host (object_bytes host n w) = (w :: 'a::len word)"
  by (simp add: of_object_bytes_def object_bytes_def of_le_bytes_le_bytes)

lemma object_bytes_of_object_bytes:
  "length bs = n \<Longrightarrow> 8 * n \<le> LENGTH('a) \<Longrightarrow>
   object_bytes host n (of_object_bytes host bs :: 'a::len word) = bs"
  by (simp add: of_object_bytes_def object_bytes_def le_bytes_of_le_bytes)

lemma byteswap_host: "byteswap BIG w = byteswap LITTLE w"
  by (simp add: byteswap_def object_bytes_def of_object_bytes_def)

lemma object_bytes_byteswap:
  assumes "LENGTH('a) = 8 * size_of TYPE('a)"
  shows "object_bytes host (size_of TYPE('a)) (byteswap host (w :: 'a::len word)) =
    rev (object_bytes host (size_of TYPE('a)) w)"
  using assms by (simp add: byteswap_def object_bytes_of_object_bytes)

lemma byteswap_byteswap:
  assumes "LENGTH('a) = 8 * size_of TYPE('a)"
  shows "byteswap host (byteswap host w) = (w :: 'a::len word)"
proof -
  have "byteswap host (byteswap host w) = of_object_bytes host
      (rev (object_bytes host (size_of TYPE('a)) (byteswap host w)))"
    by (simp add: byteswap_def [of host "byteswap host w"])
  then show ?thesis
    using assms by (simp add: object_bytes_byteswap of_object_bytes_object_bytes)
qed

lemma size_of_simps [simp]:
  "size_of TYPE(8) = 1" "size_of TYPE(16) = 2" "size_of TYPE(32) = 4" "size_of TYPE(64) = 8"
  by (simp_all add: size_of_def)

end
