(* ===== verification/Memory_Utils.thy ===== *)
theory Memory_Utils
  imports Bytes
begin

text \<open>
  The vocabulary of the memory interfaces (\<^verbatim>\<open>src/src/machine/memory/memory_utils.h\<close>): access
  effects, the results of reads and writes, and the loop
  \<^verbatim>\<open>repeat_access_until_completed\<close> that splits an access into the pieces that a fragmented memory
  can serve. A read returns the bytes it put into the buffer; \<^verbatim>\<open>ReadResult::n_bytes\<close> is their number.
  A write takes the bytes of its source buffer.
\<close>

datatype AccessOp = OP_FETCH | OP_READ | OP_WRITE

datatype AccessEffects = AE_REGULAR | AE_INTERNAL | AE_EXTERNAL_ASYNC

record write_result =
  n_bytes :: nat
  changed :: bool

definition write_result_zero :: write_result where
  "write_result_zero = \<lparr>n_bytes = 0, changed = False\<rparr>"

definition write_result_add :: "write_result \<Rightarrow> write_result \<Rightarrow> write_result" where
  "write_result_add a b = \<lparr>n_bytes = n_bytes a + n_bytes b, changed = (changed a \<or> changed b)\<rparr>"

section \<open>Byte-addressed memory as a function\<close>

text \<open>
  The reference for every memory of the simulator: a function from addresses of some width to bytes,
  with the load and the store of a byte sequence. Addresses wrap around at their width.
\<close>

definition load_bytes :: "('a::len word \<Rightarrow> byte) \<Rightarrow> 'a word \<Rightarrow> nat \<Rightarrow> byte list" where
  "load_bytes v a n = map (\<lambda>i. v (a + of_nat i)) [0..<n]"

fun store_bytes :: "('a::len word \<Rightarrow> byte) \<Rightarrow> 'a word \<Rightarrow> byte list \<Rightarrow> ('a word \<Rightarrow> byte)" where
  "store_bytes v a [] = v"
| "store_bytes v a (b # bs) = store_bytes (v(a := b)) (a + 1) bs"

lemma length_load_bytes [simp]: "length (load_bytes v a n) = n"
  by (simp add: load_bytes_def)

lemma nth_load_bytes [simp]: "i < n \<Longrightarrow> load_bytes v a n ! i = v (a + of_nat i)"
  by (simp add: load_bytes_def)

lemma load_bytes_0 [simp]: "load_bytes v a 0 = []"
  by (simp add: load_bytes_def)

lemma load_bytes_eq_Nil [simp]: "load_bytes v a n = [] \<longleftrightarrow> n = 0"
  by (simp add: load_bytes_def)

lemma load_bytes_append:
  "load_bytes v a (m + n) = load_bytes v a m @ load_bytes v (a + of_nat m) n"
  by (rule nth_equalityI) (auto simp: nth_append add.assoc of_nat_diff)

lemma store_bytes_append:
  "store_bytes v a (xs @ ys) = store_bytes (store_bytes v a xs) (a + of_nat (length xs)) ys"
  by (induction xs arbitrary: v a) (simp_all add: add.assoc add.commute)

lemma store_bytes_apply:
  assumes "length bs \<le> 2 ^ LENGTH('a)"
  shows "store_bytes v (a :: 'a::len word) bs x =
    (if unat (x - a) < length bs then bs ! unat (x - a) else v x)"
  using assms
proof (induction bs arbitrary: v a)
  case Nil
  then show ?case by simp
next
  case (Cons b bs)
  show ?case
  proof (cases "x = a")
    case True
    have "unat (- 1 :: 'a word) = 2 ^ LENGTH('a) - 1"
      by (simp add: unsigned_minus_1_eq_mask mask_eq_exp_minus_1)
    moreover have "length bs \<le> 2 ^ LENGTH('a) - 1" using Cons.prems by simp
    ultimately show ?thesis using True Cons by simp
  next
    case False
    then have "x - a \<noteq> 0" by simp
    then have "unat (x - a) = Suc (unat (x - (a + 1)))"
      using unat_minus_one [of "x - a"] by (simp add: diff_diff_eq unat_gt_0 Suc_diff_le unat_eq_zero)
    then show ?thesis using False Cons by simp
  qed
qed

lemma load_store_after:
  assumes "length bs + n \<le> 2 ^ LENGTH('a)"
  shows "load_bytes (store_bytes v (a :: 'a::len word) bs) (a + of_nat (length bs)) n =
    load_bytes v (a + of_nat (length bs)) n"
proof (rule nth_equalityI)
  fix i assume "i < length (load_bytes (store_bytes v a bs) (a + of_nat (length bs)) n)"
  then have i: "i < n" by simp
  with assms have "unat (of_nat (length bs + i) :: 'a word) = length bs + i"
    by (intro unat_of_nat_small) simp
  with i assms show "load_bytes (store_bytes v a bs) (a + of_nat (length bs)) n ! i =
      load_bytes v (a + of_nat (length bs)) n ! i"
    by (simp add: store_bytes_apply add.assoc)
qed simp

lemma load_store_same:
  assumes "length bs \<le> 2 ^ LENGTH('a)"
  shows "load_bytes (store_bytes v (a :: 'a::len word) bs) a (length bs) = bs"
proof (rule nth_equalityI)
  fix i assume "i < length (load_bytes (store_bytes v a bs) a (length bs))"
  then have i: "i < length bs" by simp
  with assms have "unat (of_nat i :: 'a word) = i"
    by (intro unat_of_nat_small) simp
  with i assms show "load_bytes (store_bytes v a bs) a (length bs) ! i = bs ! i"
    by (simp add: store_bytes_apply)
qed simp

lemma ucast_add_of_nat:
  assumes "LENGTH('a) \<le> 64"
  shows "(ucast (x + of_nat n :: u64) :: 'a::len word) = ucast x + of_nat n"
proof -
  have c: "(ucast (word_of_int k :: u64) :: 'a word) = word_of_int k" for k
    using assms by (intro bit_word_eqI) (simp add: bit_simps)
  have "(ucast (x + of_nat n) :: 'a word) = ucast (word_of_int (uint x + int n) :: u64)"
    by simp
  also have "\<dots> = ucast (word_of_int (uint x) :: u64) + of_nat n"
    unfolding c by simp
  finally show ?thesis by simp
qed

section \<open>The access loop\<close>

text \<open>
  The callback serves a prefix of the access and reports its length; 0 stops the loop. A callback
  that reports more bytes than it was asked for would run out of the buffer (undefined in C++); the
  loop stops there, and the callbacks of the development are shown never to do so. The accumulated
  read is the prefix of the buffer that has been filled.
\<close>

function repeat_read ::
  "('s \<Rightarrow> u64 \<Rightarrow> nat \<Rightarrow> ('s \<times> byte list) result) \<Rightarrow> 's \<Rightarrow> u64 \<Rightarrow> nat \<Rightarrow> byte list \<Rightarrow> ('s \<times> byte list) result"
where
  "repeat_read f s src sz acc =
     (case f s src sz of
        Inl e \<Rightarrow> Inl e
      | Inr (s', bs) \<Rightarrow>
          if bs = [] \<or> sz < length bs then Inr (s', acc)
          else if sz - length bs = 0 then Inr (s', acc @ bs)
          else repeat_read f s' (src + of_nat (length bs)) (sz - length bs) (acc @ bs))"
  by pat_completeness auto
termination
  by (relation "measure (\<lambda>(f, s, src, sz, acc). sz)") auto

function repeat_write ::
  "('s \<Rightarrow> u64 \<Rightarrow> byte list \<Rightarrow> ('s \<times> write_result) result) \<Rightarrow> 's \<Rightarrow> u64 \<Rightarrow> byte list \<Rightarrow> write_result
     \<Rightarrow> ('s \<times> write_result) result"
where
  "repeat_write f s dst src tot =
     (case f s dst src of
        Inl e \<Rightarrow> Inl e
      | Inr (s', r) \<Rightarrow>
          if n_bytes r = 0 \<or> length src < n_bytes r then Inr (s', tot)
          else if length src - n_bytes r = 0 then Inr (s', write_result_add tot r)
          else repeat_write f s' (dst + of_nat (n_bytes r)) (drop (n_bytes r) src) (write_result_add tot r))"
  by pat_completeness auto
termination
  by (relation "measure (\<lambda>(f, s, dst, src, tot). length src)") auto

declare repeat_read.simps [simp del] repeat_write.simps [simp del]

text \<open>
  What the loop adds to its callback: if every call on a state that satisfies the invariant serves a
  nonempty prefix of an admissible access correctly, the loop serves the whole access correctly.
\<close>

lemma repeat_read_complete:
  fixes view :: "'s \<Rightarrow> 'a::len word \<Rightarrow> byte"
  assumes len: "LENGTH('a) \<le> 64"
    and step: "\<And>s src sz. I s \<Longrightarrow> 0 < sz \<Longrightarrow> ok src sz \<Longrightarrow>
      \<exists>s' k. f s src sz = Inr (s', load_bytes (view s) (ucast src) k) \<and> I s' \<and> view s' = view s \<and>
        0 < k \<and> k \<le> sz \<and> (k < sz \<longrightarrow> ok (src + of_nat k) (sz - k))"
    and "I s" "0 < sz" "ok src sz"
  shows "\<exists>s'. repeat_read f s src sz acc = Inr (s', acc @ load_bytes (view s) (ucast src) sz) \<and>
      I s' \<and> view s' = view s"
  using assms(3-5)
proof (induction sz arbitrary: s src acc rule: less_induct)
  case (less sz)
  from step [OF less.prems] obtain s' k where
    f: "f s src sz = Inr (s', load_bytes (view s) (ucast src) k)" and I: "I s'"
    and v: "view s' = view s" and k: "0 < k" "k \<le> sz"
    and ok: "k < sz \<Longrightarrow> ok (src + of_nat k) (sz - k)" by blast
  show ?case
  proof (cases "k = sz")
    case True
    with f I v k show ?thesis
      by (subst repeat_read.simps) auto
  next
    case False
    with k have lt: "sz - k < sz" "0 < sz - k" "k < sz" by auto
    from less.IH [OF lt(1) I lt(2) ok [OF lt(3)], of "acc @ load_bytes (view s) (ucast src) k"]
    obtain s'' where
      rec: "repeat_read f s' (src + of_nat k) (sz - k) (acc @ load_bytes (view s) (ucast src) k) =
        Inr (s'', (acc @ load_bytes (view s) (ucast src) k) @
          load_bytes (view s) (ucast src + of_nat k) (sz - k))"
      and I'': "I s''" "view s'' = view s"
      unfolding v ucast_add_of_nat [OF len] by blast
    have "load_bytes (view s) (ucast src) sz =
        load_bytes (view s) (ucast src) k @ load_bytes (view s) (ucast src + of_nat k) (sz - k)"
      using load_bytes_append [of "view s" "ucast src" k "sz - k"] k by simp
    with f rec lt k I'' show ?thesis
      by (subst repeat_read.simps) auto
  qed
qed

lemma repeat_write_complete:
  fixes view :: "'s \<Rightarrow> 'a::len word \<Rightarrow> byte"
  assumes len: "LENGTH('a) \<le> 64"
    and step: "\<And>s dst src. I s \<Longrightarrow> src \<noteq> [] \<Longrightarrow> ok dst (length src) \<Longrightarrow>
      \<exists>s' r. f s dst src = Inr (s', r) \<and> I s' \<and> 0 < n_bytes r \<and> n_bytes r \<le> length src \<and>
        view s' = store_bytes (view s) (ucast dst) (take (n_bytes r) src) \<and>
        (changed r \<longleftrightarrow> load_bytes (view s) (ucast dst) (n_bytes r) \<noteq> take (n_bytes r) src) \<and>
        (n_bytes r < length src \<longrightarrow> ok (dst + of_nat (n_bytes r)) (length src - n_bytes r))"
    and "I s" "src \<noteq> []" "ok dst (length src)" "length src \<le> 2 ^ LENGTH('a)"
  shows "\<exists>s' r. repeat_write f s dst src tot = Inr (s', r) \<and> I s' \<and>
      n_bytes r = n_bytes tot + length src \<and> view s' = store_bytes (view s) (ucast dst) src \<and>
      (changed r \<longleftrightarrow> changed tot \<or> load_bytes (view s) (ucast dst) (length src) \<noteq> src)"
  using assms(3-6)
proof (induction "length src" arbitrary: s src dst tot rule: less_induct)
  case less
  from step [OF less.prems(1-3)] obtain s' r where f: "f s dst src = Inr (s', r)" and I: "I s'"
    and n: "0 < n_bytes r" "n_bytes r \<le> length src"
    and c: "changed r \<longleftrightarrow> load_bytes (view s) (ucast dst) (n_bytes r) \<noteq> take (n_bytes r) src"
    and v: "view s' = store_bytes (view s) (ucast dst) (take (n_bytes r) src)"
    and ok: "n_bytes r < length src \<Longrightarrow> ok (dst + of_nat (n_bytes r)) (length src - n_bytes r)" by blast
  show ?case
  proof (cases "n_bytes r = length src")
    case True
    with f I v n c show ?thesis
      by (subst repeat_write.simps) (auto simp: write_result_add_def)
  next
    case False
    let ?src = "drop (n_bytes r) src"
    from False n have lt: "n_bytes r < length src" "length ?src < length src" "?src \<noteq> []" by auto
    from lt ok have "ok (dst + of_nat (n_bytes r)) (length ?src)" by simp
    moreover have "length ?src \<le> 2 ^ LENGTH('a)" using less.prems(4) by simp
    ultimately obtain s'' r' where
      rec: "repeat_write f s' (dst + of_nat (n_bytes r)) ?src (write_result_add tot r) = Inr (s'', r')"
      and I'': "I s''" "n_bytes r' = n_bytes (write_result_add tot r) + length ?src"
      and v'': "view s'' = store_bytes (view s') (ucast dst + of_nat (n_bytes r)) ?src"
      and c'': "changed r' \<longleftrightarrow> changed (write_result_add tot r) \<or>
        load_bytes (view s') (ucast dst + of_nat (n_bytes r)) (length ?src) \<noteq> ?src"
      using less.hyps [OF lt(2) I lt(3), of "dst + of_nat (n_bytes r)" "write_result_add tot r"]
      unfolding ucast_add_of_nat [OF len] by blast
    have "store_bytes (view s) (ucast dst) src =
        store_bytes (view s) (ucast dst) (take (n_bytes r) src @ ?src)" by simp
    also have "\<dots> = view s''"
      unfolding store_bytes_append v'' v using n by simp
    finally have "view s'' = store_bytes (view s) (ucast dst) src" by simp
    moreover have "changed r' \<longleftrightarrow> changed tot \<or> load_bytes (view s) (ucast dst) (length src) \<noteq> src"
    proof -
      have "load_bytes (view s') (ucast dst + of_nat (n_bytes r)) (length ?src) =
          load_bytes (view s) (ucast dst + of_nat (n_bytes r)) (length ?src)"
        using load_store_after [of "take (n_bytes r) src" "length ?src" "view s" "ucast dst"] n less.prems(4)
        by (simp add: v)
      moreover have "load_bytes (view s) (ucast dst) (length src) = src \<longleftrightarrow>
          load_bytes (view s) (ucast dst) (n_bytes r) = take (n_bytes r) src \<and>
          load_bytes (view s) (ucast dst + of_nat (n_bytes r)) (length ?src) = ?src"
      proof -
        have "load_bytes (view s) (ucast dst) (length src) = load_bytes (view s) (ucast dst) (n_bytes r) @
            load_bytes (view s) (ucast dst + of_nat (n_bytes r)) (length ?src)"
          using load_bytes_append [of "view s" "ucast dst" "n_bytes r" "length ?src"] n by simp
        moreover have "xs @ ys = src \<longleftrightarrow> xs = take (n_bytes r) src \<and> ys = ?src"
          if "length xs = n_bytes r" for xs ys
          using that by auto
        ultimately show ?thesis by simp
      qed
      ultimately show ?thesis using c c'' by (auto simp: write_result_add_def)
    qed
    ultimately show ?thesis using f rec lt n I''
      by (subst repeat_write.simps) (auto simp: write_result_add_def)
  qed
qed

end
