(* ===== verification/Frontend_Memory.thy ===== *)
theory Frontend_Memory
  imports Machine_Defs Memory_Utils Alu
begin

text \<open>
  The interface of every memory the core can be attached to
  (\<^verbatim>\<open>src/src/machine/memory/frontend_memory.cpp\<close>, \<^verbatim>\<open>frontend_memory.h\<close>): the virtual functions as
  a record of operations on a memory state, the typed accessors that convert between register
  values and byte sequences, and the access mode that travels with an address
  (\<^verbatim>\<open>address_with_mode.h\<close>).  The contract of a memory is a locale, in which the accessors are
  proved correct once for all memories.
\<close>

section \<open>Access modes\<close>

fun opkind_code :: "AccessOp \<Rightarrow> u8" where
  "opkind_code OP_FETCH = 0"
| "opkind_code OP_READ = 1"
| "opkind_code OP_WRITE = 2"

type_synonym AccessMode = u32

definition PRIV_MASK :: u32 where "PRIV_MASK = 0x3"
definition PRIV_SHIFT :: nat where "PRIV_SHIFT = 0"
definition ASID_MASK :: u32 where "ASID_MASK = 0xFFFF"
definition ASID_SHIFT :: nat where "ASID_SHIFT = 2"
definition UNCACHED_MASK :: u32 where "UNCACHED_MASK = 0x3"
definition UNCACHED_SHIFT :: nat where "UNCACHED_SHIFT = 18"
definition OPKIND_MASK :: u32 where "OPKIND_MASK = 0xFF"
definition OPKIND_SHIFT :: nat where "OPKIND_SHIFT = 20"

lemmas access_mode_fields = PRIV_MASK_def PRIV_SHIFT_def ASID_MASK_def ASID_SHIFT_def UNCACHED_MASK_def
  UNCACHED_SHIFT_def OPKIND_MASK_def OPKIND_SHIFT_def

definition am_pack :: "u16 \<Rightarrow> PrivilegeLevel \<Rightarrow> AccessOp \<Rightarrow> u8 \<Rightarrow> AccessMode" where
  "am_pack asid priv opkind uncached =
     push_bit PRIV_SHIFT (of_nat (priv_code priv) AND PRIV_MASK) OR
     push_bit ASID_SHIFT (ucast asid AND ASID_MASK) OR
     push_bit UNCACHED_SHIFT (ucast uncached AND UNCACHED_MASK) OR
     push_bit OPKIND_SHIFT (ucast (opkind_code opkind) AND OPKIND_MASK)"

definition am_asid :: "AccessMode \<Rightarrow> u16" where
  "am_asid token = ucast (drop_bit ASID_SHIFT token AND ASID_MASK)"

definition am_priv :: "AccessMode \<Rightarrow> PrivilegeLevel" where
  "am_priv token = priv_of_code (unat (drop_bit PRIV_SHIFT token AND PRIV_MASK))"

definition am_uncached :: "AccessMode \<Rightarrow> u8" where
  "am_uncached token = ucast (drop_bit UNCACHED_SHIFT token AND UNCACHED_MASK)"

text \<open>The kind of operation as the number it is; a number that is no enumerator stays one.\<close>

definition am_opkind :: "AccessMode \<Rightarrow> u8" where
  "am_opkind token = ucast (drop_bit OPKIND_SHIFT token AND OPKIND_MASK)"

record AddressWithMode =
  aw_addr :: address
  aw_mode :: AccessMode

text \<open>An address converted implicitly has the default mode.\<close>

definition plain_address :: "address \<Rightarrow> AddressWithMode" where
  "plain_address a = \<lparr>aw_addr = a, aw_mode = 0\<rparr>"

lemma aw_addr_plain [simp]: "aw_addr (plain_address a) = a"
  by (simp add: plain_address_def)

section \<open>The virtual functions\<close>

text \<open>
  A read returns the bytes it put into the caller's buffer and the number \<^verbatim>\<open>n_bytes\<close> it reports.
\<close>

record 'm frontend_ops =
  fm_write :: "AddressWithMode \<Rightarrow> byte list \<Rightarrow> AccessEffects \<Rightarrow> ('m, write_result) action"
  fm_read :: "AddressWithMode \<Rightarrow> nat \<Rightarrow> AccessEffects \<Rightarrow> ('m, byte list \<times> nat) action"
  fm_sync :: "('m, unit) action"
  fm_sfence_vma :: "u64 \<Rightarrow> u64 \<Rightarrow> ('m, unit) action"
  fm_location_status :: "'m \<Rightarrow> address \<Rightarrow> LocationStatus"
  fm_change_counter :: "'m \<Rightarrow> u32"
  fm_endian :: Endian

text \<open>The default implementations of the base class.\<close>

definition default_sync :: "('m, unit) action" where
  "default_sync = act_return ()"

definition default_sfence_vma :: "('m, unit) action \<Rightarrow> u64 \<Rightarrow> u64 \<Rightarrow> ('m, unit) action" where
  "default_sfence_vma sync vaddr asid = sync"

definition default_location_status :: "'m \<Rightarrow> address \<Rightarrow> LocationStatus" where
  "default_location_status m a = LOCSTAT_NONE"

section \<open>Typed accessors\<close>

text \<open>
  \<^verbatim>\<open>host\<close> is the byte order of the machine the simulator runs on (\<^verbatim>\<open>NATIVE_ENDIAN\<close>).  The
  value is written to and read from the memory in that order, swapped when the simulated
  machine has the other one.
\<close>

definition read_generic ::
  "'a::len itself \<Rightarrow> Endian \<Rightarrow> 'm frontend_ops \<Rightarrow> AddressWithMode \<Rightarrow> AccessEffects \<Rightarrow> ('m, 'a word) action" where
  "read_generic T host ops addr type =
     act_bind (fm_read ops addr (size_of TYPE('a)) type) (\<lambda>(bytes, n).
       act_return (byteswap_if host (of_object_bytes host bytes) (fm_endian ops \<noteq> host)))"

definition write_generic ::
  "Endian \<Rightarrow> 'm frontend_ops \<Rightarrow> AddressWithMode \<Rightarrow> 'a::len word \<Rightarrow> AccessEffects \<Rightarrow> ('m, bool) action" where
  "write_generic host ops addr value type =
     act_bind (fm_write ops addr
       (object_bytes host (size_of TYPE('a)) (byteswap_if host value (fm_endian ops \<noteq> host))) type)
       (\<lambda>r. act_return (changed r))"

definition write_u8 where "write_u8 host ops addr (value :: u8) type = write_generic host ops addr value type"
definition write_u16 where "write_u16 host ops addr (value :: u16) type = write_generic host ops addr value type"
definition write_u32 where "write_u32 host ops addr (value :: u32) type = write_generic host ops addr value type"
definition write_u64 where "write_u64 host ops addr (value :: u64) type = write_generic host ops addr value type"
definition read_u8 where "read_u8 host ops addr type = read_generic TYPE(8) host ops addr type"
definition read_u16 where "read_u16 host ops addr type = read_generic TYPE(16) host ops addr type"
definition read_u32 where "read_u32 host ops addr type = read_generic TYPE(32) host ops addr type"
definition read_u64 where "read_u64 host ops addr type = read_generic TYPE(64) host ops addr type"

lemmas accessor_defs = write_u8_def write_u16_def write_u32_def write_u64_def
  read_u8_def read_u16_def read_u32_def read_u64_def

definition ignore_result :: "('m, 'a) action \<Rightarrow> ('m, unit) action" where
  "ignore_result f = act_bind f (\<lambda>_. act_return ())"

definition write_ctl ::
  "Endian \<Rightarrow> 'm frontend_ops \<Rightarrow> AccessControl \<Rightarrow> AddressWithMode \<Rightarrow> register_value \<Rightarrow> ('m, unit) action" where
  "write_ctl host ops ctl offset value = (case ctl of
     AC_NONE \<Rightarrow> act_return ()
   | AC_I8 \<Rightarrow> ignore_result (write_u8 host ops offset (as_u8 value) AE_REGULAR)
   | AC_U8 \<Rightarrow> ignore_result (write_u8 host ops offset (as_u8 value) AE_REGULAR)
   | AC_I16 \<Rightarrow> ignore_result (write_u16 host ops offset (as_u16 value) AE_REGULAR)
   | AC_U16 \<Rightarrow> ignore_result (write_u16 host ops offset (as_u16 value) AE_REGULAR)
   | AC_I32 \<Rightarrow> ignore_result (write_u32 host ops offset (as_u32 value) AE_REGULAR)
   | AC_U32 \<Rightarrow> ignore_result (write_u32 host ops offset (as_u32 value) AE_REGULAR)
   | AC_I64 \<Rightarrow> ignore_result (write_u64 host ops offset (as_u64 value) AE_REGULAR)
   | AC_U64 \<Rightarrow> ignore_result (write_u64 host ops offset (as_u64 value) AE_REGULAR)
   | _ \<Rightarrow> act_throw UnknownMemoryControl)"

definition read_ctl ::
  "Endian \<Rightarrow> 'm frontend_ops \<Rightarrow> AccessControl \<Rightarrow> AddressWithMode \<Rightarrow> ('m, register_value) action" where
  "read_ctl host ops ctl addr = (case ctl of
     AC_NONE \<Rightarrow> act_return 0
   | AC_I8 \<Rightarrow> act_bind (read_u8 host ops addr AE_REGULAR) (\<lambda>v. act_return (of_i8 v))
   | AC_U8 \<Rightarrow> act_bind (read_u8 host ops addr AE_REGULAR) (\<lambda>v. act_return (ucast v))
   | AC_I16 \<Rightarrow> act_bind (read_u16 host ops addr AE_REGULAR) (\<lambda>v. act_return (of_i16 v))
   | AC_U16 \<Rightarrow> act_bind (read_u16 host ops addr AE_REGULAR) (\<lambda>v. act_return (ucast v))
   | AC_I32 \<Rightarrow> act_bind (read_u32 host ops addr AE_REGULAR) (\<lambda>v. act_return (of_i32 v))
   | AC_U32 \<Rightarrow> act_bind (read_u32 host ops addr AE_REGULAR) (\<lambda>v. act_return (ucast v))
   | AC_I64 \<Rightarrow> read_u64 host ops addr AE_REGULAR
   | AC_U64 \<Rightarrow> read_u64 host ops addr AE_REGULAR
   | _ \<Rightarrow> act_throw UnknownMemoryControl)"

section \<open>The contract\<close>

text \<open>
  Sequences of accesses, on a memory and on the array of bytes that specifies it; the result is
  what the reads return.
\<close>

datatype memory_access = Access_Read AddressWithMode nat | Access_Write AddressWithMode "byte list"

fun run_accesses :: "'m frontend_ops \<Rightarrow> memory_access list \<Rightarrow> ('m, byte list list) action" where
  "run_accesses ops [] = act_return []"
| "run_accesses ops (Access_Read a n # xs) =
     act_bind (fm_read ops a n AE_REGULAR) (\<lambda>(bytes, _).
     act_bind (run_accesses ops xs) (\<lambda>rs. act_return (bytes # rs)))"
| "run_accesses ops (Access_Write a bs # xs) =
     act_bind (fm_write ops a bs AE_REGULAR) (\<lambda>_. run_accesses ops xs)"

fun array_accesses :: "memory_access list \<Rightarrow> (address \<Rightarrow> byte) \<Rightarrow> (address \<Rightarrow> byte) \<times> byte list list" where
  "array_accesses [] v = (v, [])"
| "array_accesses (Access_Read a n # xs) v =
     (let (v', rs) = array_accesses xs v in (v', load_bytes v (aw_addr a) n # rs))"
| "array_accesses (Access_Write a bs # xs) v = array_accesses xs (store_bytes v (aw_addr a) bs)"

fun access_admitted :: "(address \<Rightarrow> nat \<Rightarrow> bool) \<Rightarrow> memory_access \<Rightarrow> bool" where
  "access_admitted admits (Access_Read a n) = (0 < n \<and> admits (aw_addr a) n)"
| "access_admitted admits (Access_Write a bs) = (bs \<noteq> [] \<and> admits (aw_addr a) (length bs))"

text \<open>
  A memory that satisfies the contract behaves as an array of bytes (\<open>view\<close>) on the accesses
  it admits (\<open>admits a n\<close>: the \<open>n\<close> bytes from \<open>a\<close>), whatever its internal state and the mode of
  the address; reads do not change the array.
\<close>

locale frontend_contract =
  fixes ops :: "'m frontend_ops"
    and inv :: "'m \<Rightarrow> bool"
    and view :: "'m \<Rightarrow> address \<Rightarrow> byte"
    and admits :: "address \<Rightarrow> nat \<Rightarrow> bool"
  assumes read_contract: "inv m \<Longrightarrow> 0 < n \<Longrightarrow> admits (aw_addr a) n \<Longrightarrow>
      \<exists>m' k. fm_read ops a n AE_REGULAR m = (m', Inr (load_bytes (view m) (aw_addr a) n, k)) \<and> inv m' \<and> view m' = view m"
    and write_contract: "inv m \<Longrightarrow> bs \<noteq> [] \<Longrightarrow> admits (aw_addr a) (length bs) \<Longrightarrow>
      \<exists>m' r. fm_write ops a bs AE_REGULAR m = (m', Inr r) \<and> inv m' \<and> view m' = store_bytes (view m) (aw_addr a) bs"
    and admits_bound: "admits x n \<Longrightarrow> n \<le> 2 ^ 64"

text \<open>The value of the bytes in memory: little or big endian, as the simulated machine has it.\<close>

definition bytes_value :: "Endian \<Rightarrow> byte list \<Rightarrow> 'a::len word" where
  "bytes_value e bs = (case e of LITTLE \<Rightarrow> of_le_bytes bs | BIG \<Rightarrow> of_le_bytes (rev bs))"

definition value_bytes :: "Endian \<Rightarrow> 'a::len word \<Rightarrow> byte list" where
  "value_bytes e w = (case e of LITTLE \<Rightarrow> le_bytes (size_of TYPE('a)) w | BIG \<Rightarrow> rev (le_bytes (size_of TYPE('a)) w))"

definition byte_sized :: "'a::len itself \<Rightarrow> bool" where
  "byte_sized T \<longleftrightarrow> LENGTH('a) = 8 * size_of TYPE('a) \<and> 0 < size_of TYPE('a)"

lemma byte_sized_simps [simp]: "byte_sized TYPE(8)" "byte_sized TYPE(16)" "byte_sized TYPE(32)" "byte_sized TYPE(64)"
  by (simp_all add: byte_sized_def)

lemma length_value_bytes [simp]: "length (value_bytes e (w :: 'a::len word)) = size_of TYPE('a)"
  by (simp add: value_bytes_def split: Endian.splits)

lemma bytes_value_value_bytes: "byte_sized TYPE('a::len) \<Longrightarrow> bytes_value e (value_bytes e w) = (w :: 'a word)"
  by (simp add: bytes_value_def value_bytes_def byte_sized_def of_le_bytes_le_bytes split: Endian.splits)

text \<open>The swap makes the host's byte order disappear.\<close>

lemma object_bytes_swapped:
  assumes "byte_sized TYPE('a::len)"
  shows "object_bytes host (size_of TYPE('a)) (byteswap_if host w (e \<noteq> host)) = value_bytes e (w :: 'a word)"
  using assms object_bytes_byteswap [of host w]
  by (cases host; cases e) (simp_all add: byteswap_if_def value_bytes_def object_bytes_def byte_sized_def)

lemma of_object_bytes_swapped:
  assumes "byte_sized TYPE('a::len)" "length bs = size_of TYPE('a)"
  shows "byteswap_if host (of_object_bytes host bs) (e \<noteq> host) = (bytes_value e bs :: 'a word)"
proof -
  let ?w = "of_object_bytes host bs :: 'a word"
  have b: "object_bytes host (size_of TYPE('a)) ?w = bs"
    using assms by (simp add: object_bytes_of_object_bytes byte_sized_def)
  have "value_bytes e (byteswap_if host ?w (e \<noteq> host)) = bs"
    using object_bytes_swapped [of host "byteswap_if host ?w (e \<noteq> host)" e] b assms(1)
      byteswap_byteswap [of host ?w]
    by (cases host; cases e) (simp_all add: byteswap_if_def byte_sized_def)
  then show ?thesis using bytes_value_value_bytes [OF assms(1), of e "byteswap_if host ?w (e \<noteq> host)"] by simp
qed

context frontend_contract
begin

lemma read_generic_contract:
  assumes "inv m" "byte_sized TYPE('a::len)" "admits (aw_addr a) (size_of TYPE('a))"
  shows "\<exists>m'. read_generic TYPE('a) host ops a AE_REGULAR m =
      (m', Inr (bytes_value (fm_endian ops) (load_bytes (view m) (aw_addr a) (size_of TYPE('a))) :: 'a word)) \<and>
    inv m' \<and> view m' = view m"
proof -
  have "0 < size_of TYPE('a)" using assms(2) by (simp add: byte_sized_def)
  from read_contract [OF assms(1) this assms(3)] obtain m' k where
    "fm_read ops a (size_of TYPE('a)) AE_REGULAR m = (m', Inr (load_bytes (view m) (aw_addr a) (size_of TYPE('a)), k))"
    "inv m'" "view m' = view m" by blast
  then show ?thesis using assms(2) by (simp add: read_generic_def of_object_bytes_swapped)
qed

lemma write_generic_contract:
  assumes "inv m" "byte_sized TYPE('a::len)" "admits (aw_addr a) (size_of TYPE('a))"
  shows "\<exists>m' b. write_generic host ops a (v :: 'a word) AE_REGULAR m = (m', Inr b) \<and> inv m' \<and>
    view m' = store_bytes (view m) (aw_addr a) (value_bytes (fm_endian ops) v)"
proof -
  have "value_bytes (fm_endian ops) v \<noteq> []"
    using assms(2) length_value_bytes [of "fm_endian ops" v] by (auto simp: byte_sized_def simp del: length_value_bytes)
  from write_contract [OF assms(1) this, of a] assms(3) obtain m' r where
    "fm_write ops a (value_bytes (fm_endian ops) v) AE_REGULAR m = (m', Inr r)" "inv m'"
    "view m' = store_bytes (view m) (aw_addr a) (value_bytes (fm_endian ops) v)" by auto
  then show ?thesis using assms(2) by (simp add: write_generic_def object_bytes_swapped)
qed

text \<open>What was written at an address is read back there.\<close>

lemma write_read_generic:
  assumes "inv m" "byte_sized TYPE('a::len)" "admits (aw_addr a) (size_of TYPE('a))" "aw_addr a' = aw_addr a"
    "write_generic host ops a (v :: 'a word) AE_REGULAR m = (m1, Inr b)"
  shows "\<exists>m2. read_generic TYPE('a) host' ops a' AE_REGULAR m1 = (m2, Inr v) \<and> view m2 = view m1"
proof -
  from write_generic_contract [OF assms(1-3), of host v] assms(5)
  have i: "inv m1" and v: "view m1 = store_bytes (view m) (aw_addr a) (value_bytes (fm_endian ops) v)" by auto
  have "load_bytes (view m1) (aw_addr a) (length (value_bytes (fm_endian ops) v)) = value_bytes (fm_endian ops) v"
    unfolding v by (rule load_store_same) (use admits_bound [OF assms(3)] in simp)
  then have "load_bytes (view m1) (aw_addr a) (size_of TYPE('a)) = value_bytes (fm_endian ops) v" by simp
  with read_generic_contract [OF i assms(2), of a' host'] assms(2-4) show ?thesis
    by (auto simp: bytes_value_value_bytes)
qed

text \<open>A memory under the contract cannot be told from the array by any sequence of accesses.\<close>

lemma run_accesses_refines:
  assumes "inv m" "list_all (access_admitted admits) xs"
  shows "\<exists>m'. run_accesses ops xs m = (m', Inr (snd (array_accesses xs (view m)))) \<and> inv m' \<and>
    view m' = fst (array_accesses xs (view m))"
  using assms
proof (induction xs arbitrary: m rule: list.induct)
  case (Cons x xs)
  show ?case
  proof (cases x)
    case (Access_Read a n)
    with Cons.prems read_contract [of m n a] obtain m1 k where
      m1: "fm_read ops a n AE_REGULAR m = (m1, Inr (load_bytes (view m) (aw_addr a) n, k))" "inv m1" "view m1 = view m" by auto
    with Cons.IH [of m1] Cons.prems Access_Read show ?thesis by (auto simp: act_bind_def split: prod.splits)
  next
    case (Access_Write a bs)
    with Cons.prems write_contract [of m bs a] obtain m1 r where
      "fm_write ops a bs AE_REGULAR m = (m1, Inr r)" "inv m1" "view m1 = store_bytes (view m) (aw_addr a) bs" by auto
    with Cons.IH [of m1] Cons.prems Access_Write show ?thesis by (auto simp: act_bind_def)
  qed
qed simp

end

section \<open>Properties\<close>

lemma access_mode_masks: "PRIV_MASK = mask 2" "ASID_MASK = mask 16" "UNCACHED_MASK = mask 2" "OPKIND_MASK = mask 8"
  by (simp_all add: access_mode_fields mask_eq_exp_minus_1)

lemmas access_mode_bits = access_mode_masks PRIV_SHIFT_def ASID_SHIFT_def UNCACHED_SHIFT_def OPKIND_SHIFT_def

lemma am_asid_pack: "am_asid (am_pack asid priv opkind uncached) = asid"
  by (rule bit_word_eqI) (auto simp: am_asid_def am_pack_def access_mode_bits bit_simps)

lemma am_opkind_pack: "am_opkind (am_pack asid priv opkind uncached) = opkind_code opkind"
  by (rule bit_word_eqI) (auto simp: am_opkind_def am_pack_def access_mode_bits bit_simps)

lemma am_uncached_pack: "am_uncached (am_pack asid priv opkind uncached) = uncached AND 3"
proof -
  have three: "(3 :: u8) = mask 2" by (simp add: mask_eq_exp_minus_1)
  show ?thesis unfolding three by (rule bit_word_eqI) (auto simp: am_uncached_def am_pack_def access_mode_bits bit_simps)
qed

lemma am_priv_pack: "am_priv (am_pack asid priv opkind uncached) = priv"
proof -
  have "drop_bit PRIV_SHIFT (am_pack asid priv opkind uncached) AND PRIV_MASK = of_nat (priv_code priv) AND mask 2"
    by (rule bit_word_eqI) (auto simp: am_pack_def access_mode_bits bit_simps)
  also have "\<dots> = of_nat (priv_code priv)" by (cases priv) (simp_all add: mask_eq_exp_minus_1)
  finally show ?thesis by (cases priv) (simp_all add: am_priv_def priv_of_code_def)
qed

text \<open>
  The fields packed into an access mode do not overlap: the address space identifier,
  the privilege level, the kind of operation and the two uncached bits are all read back.
\<close>

theorem access_mode_round_trip:
  "am_asid (am_pack asid priv opkind uncached) = asid \<and> am_priv (am_pack asid priv opkind uncached) = priv \<and>
   am_opkind (am_pack asid priv opkind uncached) = opkind_code opkind \<and>
   am_uncached (am_pack asid priv opkind uncached) = uncached AND 3"
  by (simp add: am_asid_pack am_priv_pack am_opkind_pack am_uncached_pack)

end
