(* ===== verification/Isa.thy ===== *)
theory Isa
  imports Instruction Control_State Frontend_Memory
begin

text \<open>
  The specification that the core is measured by: what the instructions of RV32I and RV64I and
  of the M extension do to a program counter, 32 registers and an array of bytes, by mnemonic, as
  the RISC-V manual describes it.  Registers of a 32-bit machine hold sign-extended values, as
  the simulator keeps them; the address that a jump leaves behind is not extended.  Nothing here mentions flags, stages or the ALU.
\<close>

section \<open>Operations on registers\<close>

definition at_width :: "Xlen \<Rightarrow> (u32 \<Rightarrow> u32 \<Rightarrow> u32) \<Rightarrow> (u64 \<Rightarrow> u64 \<Rightarrow> u64) \<Rightarrow> u64 \<Rightarrow> u64 \<Rightarrow> u64" where
  "at_width xlen f g a b = (case xlen of XLEN_32 \<Rightarrow> scast (f (ucast a) (ucast b)) | XLEN_64 \<Rightarrow> g a b)"

definition cmp_width :: "Xlen \<Rightarrow> (u32 \<Rightarrow> u32 \<Rightarrow> bool) \<Rightarrow> (u64 \<Rightarrow> u64 \<Rightarrow> bool) \<Rightarrow> u64 \<Rightarrow> u64 \<Rightarrow> bool" where
  "cmp_width xlen f g a b = (case xlen of XLEN_32 \<Rightarrow> f (ucast a) (ucast b) | XLEN_64 \<Rightarrow> g a b)"

definition rv_shift_left :: "'a::len word \<Rightarrow> 'a word \<Rightarrow> 'a word" where
  "rv_shift_left a b = push_bit (unat b mod LENGTH('a)) a"

definition rv_shift_right :: "'a::len word \<Rightarrow> 'a word \<Rightarrow> 'a word" where
  "rv_shift_right a b = drop_bit (unat b mod LENGTH('a)) a"

definition rv_shift_arith :: "'a::len word \<Rightarrow> 'a word \<Rightarrow> 'a word" where
  "rv_shift_arith a b = signed_drop_bit (unat b mod LENGTH('a)) a"

definition rv_set_less :: "'a::len word \<Rightarrow> 'a word \<Rightarrow> 'a word" where
  "rv_set_less a b = (if sint a < sint b then 1 else 0)"

definition rv_set_less_u :: "'a::len word \<Rightarrow> 'a word \<Rightarrow> 'a word" where
  "rv_set_less_u a b = (if uint a < uint b then 1 else 0)"

definition rv_mulh :: "'a::len word \<Rightarrow> 'a word \<Rightarrow> 'a word" where
  "rv_mulh a b = word_of_int ((sint a * sint b) div 2 ^ LENGTH('a))"

definition rv_mulhsu :: "'a::len word \<Rightarrow> 'a word \<Rightarrow> 'a word" where
  "rv_mulhsu a b = word_of_int ((sint a * uint b) div 2 ^ LENGTH('a))"

definition rv_mulhu :: "'a::len word \<Rightarrow> 'a word \<Rightarrow> 'a word" where
  "rv_mulhu a b = word_of_int ((uint a * uint b) div 2 ^ LENGTH('a))"

definition rv_div :: "'a::len word \<Rightarrow> 'a word \<Rightarrow> 'a word" where
  "rv_div a b = (if b = 0 then - 1 else word_of_int (sint a sdiv sint b))"

definition rv_rem :: "'a::len word \<Rightarrow> 'a word \<Rightarrow> 'a word" where
  "rv_rem a b = (if b = 0 then a else word_of_int (sint a smod sint b))"

definition rv_divu :: "'a::len word \<Rightarrow> 'a word \<Rightarrow> 'a word" where
  "rv_divu a b = (if b = 0 then - 1 else word_of_int (uint a div uint b))"

definition rv_remu :: "'a::len word \<Rightarrow> 'a word \<Rightarrow> 'a word" where
  "rv_remu a b = (if b = 0 then a else word_of_int (uint a mod uint b))"

section \<open>Instructions by mnemonic\<close>

datatype rv_sem =
    RV_Reg "Xlen \<Rightarrow> u64 \<Rightarrow> u64 \<Rightarrow> u64"
  | RV_Imm "Xlen \<Rightarrow> u64 \<Rightarrow> u64 \<Rightarrow> u64"
  | RV_Upper bool
  | RV_Branch "Xlen \<Rightarrow> u64 \<Rightarrow> u64 \<Rightarrow> bool"
  | RV_Jal
  | RV_Jalr
  | RV_Load nat bool
  | RV_Store nat

text \<open>The instructions that work on the lower halves of 64-bit registers.\<close>

definition on_word :: "(u32 \<Rightarrow> u32 \<Rightarrow> u32) \<Rightarrow> Xlen \<Rightarrow> u64 \<Rightarrow> u64 \<Rightarrow> u64" where
  "on_word f xlen a b = scast (f (ucast a) (ucast b))"

definition rv_table :: "(string \<times> rv_sem) list" where
  "rv_table = [
     (''add'', RV_Reg (\<lambda>x. at_width x (+) (+))), (''sub'', RV_Reg (\<lambda>x. at_width x (-) (-))),
     (''sll'', RV_Reg (\<lambda>x. at_width x rv_shift_left rv_shift_left)),
     (''srl'', RV_Reg (\<lambda>x. at_width x rv_shift_right rv_shift_right)),
     (''sra'', RV_Reg (\<lambda>x. at_width x rv_shift_arith rv_shift_arith)),
     (''slt'', RV_Reg (\<lambda>x. at_width x rv_set_less rv_set_less)),
     (''sltu'', RV_Reg (\<lambda>x. at_width x rv_set_less_u rv_set_less_u)),
     (''xor'', RV_Reg (\<lambda>x. at_width x (XOR) (XOR))), (''or'', RV_Reg (\<lambda>x. at_width x (OR) (OR))),
     (''and'', RV_Reg (\<lambda>x. at_width x (AND) (AND))),
     (''addi'', RV_Imm (\<lambda>x. at_width x (+) (+))),
     (''slli'', RV_Imm (\<lambda>x. at_width x rv_shift_left rv_shift_left)),
     (''srli'', RV_Imm (\<lambda>x. at_width x rv_shift_right rv_shift_right)),
     (''srai'', RV_Imm (\<lambda>x. at_width x rv_shift_arith rv_shift_arith)),
     (''slti'', RV_Imm (\<lambda>x. at_width x rv_set_less rv_set_less)),
     (''sltiu'', RV_Imm (\<lambda>x. at_width x rv_set_less_u rv_set_less_u)),
     (''xori'', RV_Imm (\<lambda>x. at_width x (XOR) (XOR))), (''ori'', RV_Imm (\<lambda>x. at_width x (OR) (OR))),
     (''andi'', RV_Imm (\<lambda>x. at_width x (AND) (AND))),
     (''addw'', RV_Reg (on_word (+))), (''subw'', RV_Reg (on_word (-))),
     (''sllw'', RV_Reg (on_word rv_shift_left)), (''srlw'', RV_Reg (on_word rv_shift_right)),
     (''sraw'', RV_Reg (on_word rv_shift_arith)),
     (''addiw'', RV_Imm (on_word (+))), (''slliw'', RV_Imm (on_word rv_shift_left)),
     (''srliw'', RV_Imm (on_word rv_shift_right)), (''sraiw'', RV_Imm (on_word rv_shift_arith)),
     (''mul'', RV_Reg (\<lambda>x. at_width x (*) (*))), (''mulh'', RV_Reg (\<lambda>x. at_width x rv_mulh rv_mulh)),
     (''mulhsu'', RV_Reg (\<lambda>x. at_width x rv_mulhsu rv_mulhsu)),
     (''mulhu'', RV_Reg (\<lambda>x. at_width x rv_mulhu rv_mulhu)),
     (''div'', RV_Reg (\<lambda>x. at_width x rv_div rv_div)), (''divu'', RV_Reg (\<lambda>x. at_width x rv_divu rv_divu)),
     (''rem'', RV_Reg (\<lambda>x. at_width x rv_rem rv_rem)), (''remu'', RV_Reg (\<lambda>x. at_width x rv_remu rv_remu)),
     (''mulw'', RV_Reg (on_word (*))), (''divw'', RV_Reg (on_word rv_div)), (''divuw'', RV_Reg (on_word rv_divu)),
     (''remw'', RV_Reg (on_word rv_rem)), (''remuw'', RV_Reg (on_word rv_remu)),
     (''lui'', RV_Upper False), (''auipc'', RV_Upper True), (''jal'', RV_Jal), (''jalr'', RV_Jalr),
     (''beq'', RV_Branch (\<lambda>x. cmp_width x (=) (=))), (''bne'', RV_Branch (\<lambda>x. cmp_width x (\<noteq>) (\<noteq>))),
     (''blt'', RV_Branch (\<lambda>x. cmp_width x (\<lambda>a b. sint a < sint b) (\<lambda>a b. sint a < sint b))),
     (''bge'', RV_Branch (\<lambda>x. cmp_width x (\<lambda>a b. sint a \<ge> sint b) (\<lambda>a b. sint a \<ge> sint b))),
     (''bltu'', RV_Branch (\<lambda>x. cmp_width x (\<lambda>a b. uint a < uint b) (\<lambda>a b. uint a < uint b))),
     (''bgeu'', RV_Branch (\<lambda>x. cmp_width x (\<lambda>a b. uint a \<ge> uint b) (\<lambda>a b. uint a \<ge> uint b))),
     (''lb'', RV_Load 1 True), (''lh'', RV_Load 2 True), (''lw'', RV_Load 4 True), (''ld'', RV_Load 8 True),
     (''lbu'', RV_Load 1 False), (''lhu'', RV_Load 2 False), (''lwu'', RV_Load 4 False),
     (''sb'', RV_Store 1), (''sh'', RV_Store 2), (''sw'', RV_Store 4), (''sd'', RV_Store 8)]"

definition rv_semantics :: "string \<Rightarrow> rv_sem option" where
  "rv_semantics = map_of rv_table"

section \<open>The step\<close>

record isa_state =
  isa_pc :: address
  isa_x :: "nat \<Rightarrow> u64"
  isa_mem :: "address \<Rightarrow> byte"

definition isa_write :: "nat \<Rightarrow> u64 \<Rightarrow> isa_state \<Rightarrow> isa_state" where
  "isa_write rd v s = (if rd = 0 then s else s\<lparr>isa_x := (isa_x s)(rd := v)\<rparr>)"

definition isa_goto :: "address \<Rightarrow> isa_state \<Rightarrow> isa_state" where
  "isa_goto a s = s\<lparr>isa_pc := a\<rparr>"

text \<open>Addresses of a 32-bit machine have 32 bits.\<close>

definition address_of :: "Xlen \<Rightarrow> u64 \<Rightarrow> address" where
  "address_of xlen v = (case xlen of XLEN_32 \<Rightarrow> take_bit 32 v | XLEN_64 \<Rightarrow> v)"

definition load_value :: "Endian \<Rightarrow> nat \<Rightarrow> bool \<Rightarrow> byte list \<Rightarrow> u64" where
  "load_value e n sg bs =
     (let v = bytes_value e bs :: u64 in if sg then signed_take_bit (8 * n - 1) v else v)"

definition store_value :: "Endian \<Rightarrow> nat \<Rightarrow> u64 \<Rightarrow> byte list" where
  "store_value e n v = (case e of LITTLE \<Rightarrow> le_bytes n v | BIG \<Rightarrow> rev (le_bytes n v))"

definition isa_exec :: "Xlen \<Rightarrow> Endian \<Rightarrow> rv_sem \<Rightarrow> nat \<Rightarrow> nat \<Rightarrow> nat \<Rightarrow> u64 \<Rightarrow> isa_state \<Rightarrow> isa_state" where
  "isa_exec xlen e sem rs1 rs2 rd imm s =
     (let pc = isa_pc s; a = isa_x s rs1; b = isa_x s rs2; nx = address_of xlen (pc + 4) in
      case sem of
        RV_Reg f \<Rightarrow> isa_goto nx (isa_write rd (f xlen a b) s)
      | RV_Imm f \<Rightarrow> isa_goto nx (isa_write rd (f xlen a imm) s)
      | RV_Upper add_pc \<Rightarrow> isa_goto nx (isa_write rd (at_width xlen (+) (+) (if add_pc then pc else 0) imm) s)
      | RV_Branch c \<Rightarrow> isa_goto (if c xlen a b then address_of xlen (pc + imm) else nx) s
      | RV_Jal \<Rightarrow> isa_goto (address_of xlen (pc + imm)) (isa_write rd nx s)
      | RV_Jalr \<Rightarrow> isa_goto (address_of xlen (a + imm)) (isa_write rd nx s)
      | RV_Load n sg \<Rightarrow>
          isa_goto nx (isa_write rd (load_value e n sg (load_bytes (isa_mem s) (address_of xlen (a + imm)) n)) s)
      | RV_Store n \<Rightarrow>
          isa_goto nx (s\<lparr>isa_mem := store_bytes (isa_mem s) (address_of xlen (a + imm)) (store_value e n b)\<rparr>))"

text \<open>The bytes that an instruction accesses.\<close>

definition isa_access :: "Xlen \<Rightarrow> rv_sem \<Rightarrow> nat \<Rightarrow> u64 \<Rightarrow> isa_state \<Rightarrow> (address \<times> nat) option" where
  "isa_access xlen sem rs1 imm s = (case sem of
     RV_Load n sg \<Rightarrow> Some (address_of xlen (isa_x s rs1 + imm), n)
   | RV_Store n \<Rightarrow> Some (address_of xlen (isa_x s rs1 + imm), n)
   | _ \<Rightarrow> None)"

text \<open>
  One instruction: the word at the program counter, its entry in the instruction tables and the
  semantics of its mnemonic; None where the specification says nothing.
\<close>

definition isa_fetch :: "Endian \<Rightarrow> isa_state \<Rightarrow> u32" where
  "isa_fetch e s = bytes_value e (load_bytes (isa_mem s) (isa_pc s) 4)"

definition isa_sem :: "u32 \<Rightarrow> rv_sem option" where
  "isa_sem w = rv_semantics (im_name (inst_map w))"

definition isa_step :: "Xlen \<Rightarrow> Endian \<Rightarrow> isa_state \<Rightarrow> isa_state option" where
  "isa_step xlen e s =
     (let w = isa_fetch e s in
      case isa_sem w of
        None \<Rightarrow> None
      | Some sem \<Rightarrow>
          let s' = isa_exec xlen e sem (unat (inst_rs w)) (unat (inst_rt w)) (unat (inst_rd w)) (of_i32 (inst_immediate w)) s
          in if isa_pc s' mod 4 = 0 then Some s' else None)"

section \<open>The ALU computes these operations\<close>

lemma and_31: "(w :: u64) AND SHIFT_MASK32 = take_bit 5 w" and and_63: "(w :: u64) AND SHIFT_MASK64 = take_bit 6 w"
  by (simp_all add: take_bit_eq_mask mask_eq_exp_minus_1 SHIFT_MASK32_def SHIFT_MASK64_def)

lemma shift_amount:
  "unat (ucast (as_u32 b) AND SHIFT_MASK32) = unat (as_u32 b) mod 32" "unat (b AND SHIFT_MASK64) = unat b mod 64"
proof -
  have "unat (ucast (as_u32 b) :: u64) = unat (as_u32 b)"
    using unsigned_less [of "as_u32 b", where ?'a = nat] by (simp add: unsigned_ucast_eq take_bit_nat_eq_self)
  then show "unat (ucast (as_u32 b) AND SHIFT_MASK32) = unat (as_u32 b) mod 32"
    unfolding and_31 unsigned_take_bit_eq by (simp add: take_bit_eq_mod)
  show "unat (b AND SHIFT_MASK64) = unat b mod 64"
    unfolding and_63 unsigned_take_bit_eq by (simp add: take_bit_eq_mod)
qed

lemma alu64_spec:
  "alu64_operate ALU_ADD False a b = a + b" "alu64_operate ALU_ADD True a b = a - b"
  "alu64_operate ALU_SLL m a b = rv_shift_left a b"
  "alu64_operate ALU_SLT m a b = rv_set_less a b" "alu64_operate ALU_SLTU m a b = rv_set_less_u a b"
  "alu64_operate ALU_XOR m a b = a XOR b" "alu64_operate ALU_OR m a b = a OR b"
  "alu64_operate ALU_AND False a b = a AND b"
  "alu64_operate ALU_SR False a b = rv_shift_right a b" "alu64_operate ALU_SR True a b = rv_shift_arith a b"
  by (simp_all add: shift_amount rv_shift_left_def rv_shift_right_def rv_shift_arith_def rv_set_less_def rv_set_less_u_def
      bool_to_word_def word_sless_alt word_less_def)

lemma alu32_spec:
  "alu32_operate ALU_ADD False a b = as_u32 a + as_u32 b" "alu32_operate ALU_ADD True a b = as_u32 a - as_u32 b"
  "alu32_operate ALU_SLL m a b = rv_shift_left (as_u32 a) (as_u32 b)"
  "alu32_operate ALU_SLT m a b = rv_set_less (as_u32 a) (as_u32 b)" "alu32_operate ALU_SLTU m a b = rv_set_less_u (as_u32 a) (as_u32 b)"
  "alu32_operate ALU_XOR m a b = as_u32 a XOR as_u32 b" "alu32_operate ALU_OR m a b = as_u32 a OR as_u32 b"
  "alu32_operate ALU_AND False a b = as_u32 a AND as_u32 b"
  "alu32_operate ALU_SR False a b = rv_shift_right (as_u32 a) (as_u32 b)" "alu32_operate ALU_SR True a b = rv_shift_arith (as_u32 a) (as_u32 b)"
  by (simp_all add: shift_amount rv_shift_left_def rv_shift_right_def rv_shift_arith_def rv_set_less_def rv_set_less_u_def
      bool_to_word_def word_sless_alt word_less_def)

lemma mul64_spec:
  "mul64_operate MUL_MUL a b = a * b" "mul64_operate MUL_MULH a b = rv_mulh a b"
  "mul64_operate MUL_MULHSU a b = rv_mulhsu a b" "mul64_operate MUL_MULHU a b = rv_mulhu a b"
  "mul64_operate MUL_DIV a b = rv_div a b" "mul64_operate MUL_REM a b = rv_rem a b"
  "mul64_operate MUL_DIVU a b = rv_divu a b" "mul64_operate MUL_REMU a b = rv_remu a b"
proof -
  show "mul64_operate MUL_DIV a b = rv_div a b" "mul64_operate MUL_REM a b = rv_rem a b"
    by (simp_all only: mul64_div mul64_rem rv_div_def rv_rem_def)
qed (simp_all add: mulh64_eq mulhu64_eq mulhsu64_eq rv_mulh_def rv_mulhsu_def rv_mulhu_def drop_bit_eq_div
      rv_divu_def rv_remu_def word_div_def word_mod_def)

lemma high_word32:
  "ucast (drop_bit 32 (word_of_int x :: u64)) = (word_of_int (x div 2 ^ 32) :: u32)"
  unfolding drop_bit_eq_div [symmetric] by (rule bit_word_eqI) (simp add: bit_simps)

lemma mul32_spec:
  "mul32_operate MUL_MUL a b = as_u32 a * as_u32 b" "mul32_operate MUL_MULH a b = rv_mulh (as_u32 a) (as_u32 b)"
  "mul32_operate MUL_MULHSU a b = rv_mulhsu (as_u32 a) (as_u32 b)" "mul32_operate MUL_MULHU a b = rv_mulhu (as_u32 a) (as_u32 b)"
  "mul32_operate MUL_DIV a b = rv_div (as_u32 a) (as_u32 b)" "mul32_operate MUL_REM a b = rv_rem (as_u32 a) (as_u32 b)"
  "mul32_operate MUL_DIVU a b = rv_divu (as_u32 a) (as_u32 b)" "mul32_operate MUL_REMU a b = rv_remu (as_u32 a) (as_u32 b)"
proof -
  have s: "(scast x :: u64) = word_of_int (sint x)" and u: "(ucast x :: u64) = word_of_int (uint x)" for x :: u32
    by simp_all
  show "mul32_operate MUL_MULH a b = rv_mulh (as_u32 a) (as_u32 b)"
    "mul32_operate MUL_MULHSU a b = rv_mulhsu (as_u32 a) (as_u32 b)" "mul32_operate MUL_MULHU a b = rv_mulhu (as_u32 a) (as_u32 b)"
    unfolding mul32_operate.simps s u of_int_mult [symmetric] high_word32
    by (simp_all add: rv_mulh_def rv_mulhsu_def rv_mulhu_def)
  show "mul32_operate MUL_DIV a b = rv_div (as_u32 a) (as_u32 b)" "mul32_operate MUL_REM a b = rv_rem (as_u32 a) (as_u32 b)"
    by (simp_all only: mul32_div mul32_rem rv_div_def rv_rem_def)
  show "mul32_operate MUL_MUL a b = as_u32 a * as_u32 b"
    "mul32_operate MUL_DIVU a b = rv_divu (as_u32 a) (as_u32 b)" "mul32_operate MUL_REMU a b = rv_remu (as_u32 a) (as_u32 b)"
    by (simp_all add: rv_divu_def rv_remu_def word_div_def word_mod_def)
qed

end
