(* ===== verification/Isa_Tables.thy ===== *)
theory Isa_Tables
  imports Isa
begin

text \<open>
  The instruction tables agree with the specification: every entry whose mnemonic the
  specification knows has the flags, the ALU operation and the memory access that its kind of
  instruction needs, and every mnemonic of the specification that a word decodes to is such an
  entry.  The tables are evaluated once here; the proofs about the core use the attributes.
\<close>

section \<open>Attributes of the instructions\<close>

text \<open>
  The flags that direct an instruction through the stages, and the values they must have for
  each kind of instruction; the table of ALU operations.  Both are compared with the instruction tables by evaluation.
\<close>

definition PROFILE_MASK :: u32 where
  "PROFILE_MASK = IMF_MEMWRITE OR IMF_MEMREAD OR IMF_ALUSRC OR IMF_REGWRITE OR IMF_ALU_REQ_RS OR IMF_ALU_REQ_RT OR
     IMF_BRANCH OR IMF_JUMP OR IMF_BRANCH_JALR OR IMF_EXCEPTION OR IMF_PC_TO_ALU OR IMF_XRET OR IMF_CSR OR
     IMF_CSR_TO_ALU OR IMF_ALU_RS_ID OR IMF_AMO"

fun sem_profile :: "rv_sem \<Rightarrow> u32" where
  "sem_profile (RV_Reg f) = IMF_REGWRITE OR IMF_ALU_REQ_RS OR IMF_ALU_REQ_RT"
| "sem_profile (RV_Imm f) = IMF_ALUSRC OR IMF_REGWRITE OR IMF_ALU_REQ_RS"
| "sem_profile (RV_Upper add_pc) = IMF_ALUSRC OR IMF_REGWRITE OR (if add_pc then IMF_PC_TO_ALU else 0)"
| "sem_profile (RV_Branch c) = IMF_BRANCH OR IMF_ALU_REQ_RS OR IMF_ALU_REQ_RT"
| "sem_profile RV_Jal = IMF_REGWRITE OR IMF_JUMP OR IMF_PC_TO_ALU OR IMF_ALUSRC"
| "sem_profile RV_Jalr = IMF_REGWRITE OR IMF_BRANCH_JALR OR IMF_ALUSRC OR IMF_ALU_REQ_RS"
| "sem_profile (RV_Load n sg) = IMF_ALUSRC OR IMF_REGWRITE OR IMF_MEMREAD OR IMF_ALU_REQ_RS"
| "sem_profile (RV_Store n) = IMF_ALUSRC OR IMF_MEMWRITE OR IMF_ALU_REQ_RS OR IMF_ALU_REQ_RT"

fun sem_memctl :: "rv_sem \<Rightarrow> AccessControl" where
  "sem_memctl (RV_Load n sg) =
     (if n = 1 then if sg then AC_I8 else AC_U8 else if n = 2 then if sg then AC_I16 else AC_U16
      else if n = 4 then if sg then AC_I32 else AC_U32 else AC_I64)"
| "sem_memctl (RV_Store n) = (if n = 1 then AC_U8 else if n = 2 then AC_U16 else if n = 4 then AC_U32 else AC_U64)"
| "sem_memctl _ = AC_NONE"

definition rv_alu :: "(string \<times> u8 \<times> bool \<times> bool \<times> bool \<times> bool) list" where
  "rv_alu = (let op = alu_op_code; mu = mul_op_code in [
     (''add'', op ALU_ADD, False, False, False, False), (''sub'', op ALU_ADD, False, True, False, False),
     (''sll'', op ALU_SLL, False, False, False, False), (''srl'', op ALU_SR, False, False, False, False),
     (''sra'', op ALU_SR, False, True, False, False), (''slt'', op ALU_SLT, False, False, False, False),
     (''sltu'', op ALU_SLTU, False, False, False, False), (''xor'', op ALU_XOR, False, False, False, False),
     (''or'', op ALU_OR, False, False, False, False), (''and'', op ALU_AND, False, False, False, False),
     (''addi'', op ALU_ADD, False, False, False, False), (''slli'', op ALU_SLL, False, False, False, False),
     (''srli'', op ALU_SR, False, False, False, False), (''srai'', op ALU_SR, False, True, False, False),
     (''slti'', op ALU_SLT, False, False, False, False), (''sltiu'', op ALU_SLTU, False, False, False, False),
     (''xori'', op ALU_XOR, False, False, False, False), (''ori'', op ALU_OR, False, False, False, False),
     (''andi'', op ALU_AND, False, False, False, False),
     (''addw'', op ALU_ADD, False, False, True, False), (''subw'', op ALU_ADD, False, True, True, False),
     (''sllw'', op ALU_SLL, False, False, True, False), (''srlw'', op ALU_SR, False, False, True, False),
     (''sraw'', op ALU_SR, False, True, True, False), (''addiw'', op ALU_ADD, False, False, True, False),
     (''slliw'', op ALU_SLL, False, False, True, False), (''srliw'', op ALU_SR, False, False, True, False),
     (''sraiw'', op ALU_SR, False, True, True, False),
     (''mul'', mu MUL_MUL, True, False, False, False), (''mulh'', mu MUL_MULH, True, False, False, False),
     (''mulhsu'', mu MUL_MULHSU, True, False, False, False), (''mulhu'', mu MUL_MULHU, True, False, False, False),
     (''div'', mu MUL_DIV, True, False, False, False), (''divu'', mu MUL_DIVU, True, False, False, False),
     (''rem'', mu MUL_REM, True, False, False, False), (''remu'', mu MUL_REMU, True, False, False, False),
     (''mulw'', mu MUL_MUL, True, False, True, False), (''divw'', mu MUL_DIV, True, False, True, False),
     (''divuw'', mu MUL_DIVU, True, False, True, False), (''remw'', mu MUL_REM, True, False, True, False),
     (''remuw'', mu MUL_REMU, True, False, True, False),
     (''lui'', op ALU_ADD, False, False, False, False), (''auipc'', op ALU_ADD, False, False, False, False),
     (''jal'', op ALU_ADD, False, False, False, False), (''jalr'', op ALU_ADD, False, False, False, False),
     (''beq'', op ALU_ADD, False, True, False, False), (''bne'', op ALU_ADD, False, True, False, True),
     (''blt'', op ALU_SLT, False, False, False, True), (''bge'', op ALU_SLT, False, False, False, False),
     (''bltu'', op ALU_SLTU, False, False, False, True), (''bgeu'', op ALU_SLTU, False, False, False, False),
     (''lb'', op ALU_ADD, False, False, False, False), (''lh'', op ALU_ADD, False, False, False, False),
     (''lw'', op ALU_ADD, False, False, False, False), (''ld'', op ALU_ADD, False, False, False, False),
     (''lbu'', op ALU_ADD, False, False, False, False), (''lhu'', op ALU_ADD, False, False, False, False),
     (''lwu'', op ALU_ADD, False, False, False, False),
     (''sb'', op ALU_ADD, False, False, False, False), (''sh'', op ALU_ADD, False, False, False, False),
     (''sw'', op ALU_ADD, False, False, False, False), (''sd'', op ALU_ADD, False, False, False, False)])"

definition entry_ok :: "InstructionMap \<Rightarrow> bool" where
  "entry_ok im = (case map_of rv_alu (im_name im) of
     None \<Rightarrow> im_name im \<notin> set (map fst rv_table)
   | Some (op, mul, modified, force_w, negated) \<Rightarrow>
       im_alu im = op \<and> has_flag (im_flags im) IMF_MUL = mul \<and> has_flag (im_flags im) IMF_ALU_MOD = modified \<and>
       has_flag (im_flags im) IMF_FORCE_W_OP = force_w \<and> has_flag (im_flags im) IMF_BJ_NOT = negated \<and>
       (case rv_semantics (im_name im) of None \<Rightarrow> False | Some sem \<Rightarrow>
          im_flags im AND PROFILE_MASK = sem_profile sem \<and> im_mem_ctl im = sem_memctl sem))"

lemmas flag_defs = IMF_SUPPORTED_def IMF_MEMWRITE_def IMF_MEMREAD_def IMF_ALUSRC_def IMF_REGWRITE_def
  IMF_MEM_def IMF_ALU_REQ_RS_def IMF_ALU_REQ_RT_def IMF_BRANCH_def IMF_JUMP_def IMF_BJ_NOT_def
  IMF_BRANCH_JALR_def IMF_EXCEPTION_def IMF_ALU_MOD_def IMF_PC_TO_ALU_def IMF_FORCE_W_OP_def IMF_ECALL_def
  IMF_EBREAK_def IMF_XRET_def IMF_MUL_def IMF_CSR_def IMF_CSR_TO_ALU_def IMF_ALU_RS_ID_def IMF_AMO_def
  IMF_RV64_def IMF_PRIV_S_def IMF_PRIV_H_def IMF_PRIV_M_def FLAGS_ALU_I_def FLAGS_ALU_I_LOAD_def
  FLAGS_ALU_I_STORE_def FLAGS_ALU_T_R_D_def FLAGS_ALU_T_R_STD_def FLAGS_AMO_LOAD_def FLAGS_AMO_STORE_def
  FLAGS_AMO_MODIFY_def

definition all_leaves :: "(InstructionMap \<Rightarrow> bool) \<Rightarrow> InstructionMap \<Rightarrow> bool" where
  "all_leaves P im = list_all P (im_leaves im)"

lemma entry_ok_unknown: "entry_ok IM_UNKNOWN"
  by (simp add: entry_ok_def IM_UNKNOWN_def rv_alu_def rv_table_def Let_def)

lemma all_leaves_IM: "all_leaves P (IM nm ty al mc ar c m fl als) = P (IM nm ty al mc ar c m fl als)"
  by (simp add: all_leaves_def)

lemma all_leaves_SUB: "all_leaves P (IM_SUB nm ty al mc subs c m f) = list_all (all_leaves P) (take (2 ^ bf_count f) subs)"
  by (simp add: all_leaves_def list_all_iff take_map)

lemma all_leaves_unknown: "all_leaves entry_ok IM_UNKNOWN"
  using entry_ok_unknown by (simp add: IM_UNKNOWN_def all_leaves_IM)

lemmas tree_simps = all_leaves_IM all_leaves_SUB all_leaves_unknown

lemmas entry_defs = entry_ok_def rv_alu_def rv_table_def Let_def rv_semantics_def PROFILE_MASK_def has_flag_def flag_defs

lemma entries_memory: "list_all (all_leaves entry_ok) (LOAD_map @ STORE_map @ MISC_MEM_map)"
  by (simp add: LOAD_map_def STORE_map_def MISC_MEM_map_def tree_simps) (simp add: entry_defs)

lemma entries_imm: "list_all (all_leaves entry_ok) (OP_IMM_map @ OP_IMM_32_map @ BRANCH_map)"
  by (simp add: OP_IMM_map_def SRI_map_def OP_IMM_32_map_def SRI_32_map_def BRANCH_map_def tree_simps) (simp add: entry_defs)

lemma entries_op: "list_all (all_leaves entry_ok) (OP_map @ OP_32_map)"
  by (simp add: OP_map_def OP_ALU_map_def ADD_map_def SR_map_def OP_MUL_map_def OP_32_map_def OP_ALU_32_map_def
      ADD_32_map_def SR_32_map_def OP_MUL_32_map_def MUL_MAP_ITEM_def MUL_32_MAP_ITEM_def tree_simps) (simp add: entry_defs)

lemma entries_system: "list_all (all_leaves entry_ok) SYSTEM_map"
  by (simp add: SYSTEM_map_def SYSTEM_PRIV_map_def SYSTEM_PRIV_slot8_map_def ENVIRONMENT_AND_BREAKPOINTS_map_def
      CSR_MAP_ITEM_def tree_simps) (simp add: entry_defs)

text \<open>No mnemonic of the specification contains a dot, those of the A extension do.\<close>

lemma entry_ok_dotted:
  assumes "CHR ''.'' \<in> set name" shows "entry_ok (IM name ty al mc ar c m fl als)"
proof -
  have "list_all (\<lambda>n. CHR ''.'' \<notin> set n) (map fst rv_alu @ map fst rv_table)"
    by (simp add: rv_alu_def rv_table_def Let_def)
  with assms have "name \<notin> fst ` set rv_alu" "name \<notin> set (map fst rv_table)" by (auto simp: list_all_iff)
  then have "map_of rv_alu name = None" "name \<notin> set (map fst rv_table)" by (simp_all only: map_of_eq_None_iff not_False_eq_True)
  then show ?thesis by (simp add: entry_ok_def)
qed

lemma entries_amo: "list_all (all_leaves entry_ok) AMO_map"
proof -
  have unknown: "list_all (all_leaves entry_ok) (replicate n IM_UNKNOWN)" for n
    by (simp add: list_all_iff all_leaves_unknown)
  have items: "list_all (all_leaves entry_ok) (AMO_MAP_4ITEMS name c m ctl fl args)" if "CHR ''.'' \<in> set name" for name c m ctl fl args
    using that by (simp add: AMO_MAP_4ITEMS_def all_leaves_IM entry_ok_dotted)
  have "list_all (all_leaves entry_ok) AMO_32_map" "list_all (all_leaves entry_ok) AMO_64_map"
    by (simp_all only: AMO_32_map_def AMO_64_map_def list_all_append) (intro conjI unknown items; simp)+
  then have "list_all (all_leaves entry_ok) (take n AMO_32_map)" "list_all (all_leaves entry_ok) (take n AMO_64_map)" for n
    by (auto simp: list_all_iff dest: in_set_takeD)
  then show ?thesis by (simp add: AMO_map_def tree_simps)
qed

lemma entries_ok: "im \<in> set (im_leaves C_inst_root) \<Longrightarrow> entry_ok im"
proof -
  have sub: "list_all (all_leaves entry_ok) xs \<Longrightarrow> all_leaves entry_ok (IM_SUB nm ty al mc xs c m f)" for nm ty al mc xs c m f
    by (auto simp: all_leaves_SUB list_all_iff dest: in_set_takeD)
  have ups: "entry_ok (IM nm ty al mc ar c m fl als) \<Longrightarrow> all_leaves entry_ok (IM nm ty al mc ar c m fl als)" for nm ty al mc ar c m fl als
    by (simp add: all_leaves_IM)
  have "list_all (all_leaves entry_ok) I_inst_map"
    using entries_memory entries_imm entries_op entries_system entries_amo
    unfolding I_inst_map_def list_all_append list.pred_inject
    by (intro conjI sub all_leaves_unknown ups) (simp_all add: entry_defs)
  then have "all_leaves entry_ok C_inst_root"
    unfolding C_inst_root_def C_inst_map_def by (intro sub) (simp add: all_leaves_unknown sub)
  then show "im \<in> set (im_leaves C_inst_root) \<Longrightarrow> entry_ok im"
    by (simp add: all_leaves_def list_all_iff)
qed

lemma inst_map_entry: "entry_ok (inst_map w)"
proof -
  obtain leaf where leaf: "im_walk C_inst_root w = Some leaf" "leaf \<in> set (im_leaves C_inst_root)"
    using im_check_total [OF C_inst_check] by blast
  have "entry_ok C_inst_unknown" by (simp add: C_inst_unknown_def entry_ok_unknown)
  then show ?thesis
    using leaf entries_ok unfolding inst_map_def InstructionMapFind_root by simp
qed

section \<open>The attributes give the semantics\<close>

definition alu_gives :: "rv_sem \<Rightarrow> u8 \<times> bool \<times> bool \<times> bool \<times> bool \<Rightarrow> bool" where
  "alu_gives sem = (\<lambda>(op, mul, modified, force_w, negated). \<forall>xlen a b.
     (let v = alu_combined_operate op (if mul then COMP_MUL else COMP_ALU) (xlen \<noteq> XLEN_64 \<or> force_w) modified a b
      in case sem of
           RV_Reg f \<Rightarrow> v = f xlen a b
         | RV_Imm f \<Rightarrow> v = f xlen a b
         | RV_Branch c \<Rightarrow> (negated \<noteq> (v = 0)) = c xlen a b
         | _ \<Rightarrow> v = at_width xlen (+) (+) a b))"

lemma alu_op_of_code: "alu_op_of (alu_op_code op) = Some op" "mul_op_of (mul_op_code m) = Some m"
  by (cases op; simp add: alu_op_of_def) (cases m; simp add: mul_op_of_def)

lemma xlen_cases: "(\<forall>xlen. P xlen) \<longleftrightarrow> P XLEN_32 \<and> P XLEN_64"
  by (metis Xlen.exhaust)

lemma scast_is_0: "(scast (w :: u32) :: u64) = 0 \<longleftrightarrow> w = 0"
  by (metis of_i32_def signed_0 unsigned_0 as_u32_of_i32)

lemma if_is_0: "(if P then 1 else 0 :: 'a::len word) = 0 \<longleftrightarrow> \<not> P"
  by simp

lemmas alu_spec_simps = alu_gives_def Let_def alu_op_of_code alu64_spec alu32_spec mul64_spec mul32_spec xlen_cases
  at_width_def cmp_width_def on_word_def of_i32_def as_u32_def scast_is_0 rv_set_less_def rv_set_less_u_def if_is_0

lemma map_of_list_all2:
  assumes "list_all2 (\<lambda>(k, v) (l, w). k = l \<and> P v w) xs ys" "map_of xs k = Some v"
  shows "\<exists>w. map_of ys k = Some w \<and> P v w"
  using assms by (induction rule: list_all2_induct) (auto split: if_splits)

lemma alu_gives_table: "list_all2 (\<lambda>(name, sem) (name', at). name = name' \<and> alu_gives sem at) rv_table rv_alu"
  unfolding rv_table_def rv_alu_def Let_def
  by (simp add: alu_spec_simps del: alu64_operate.simps mul64_operate.simps alu32_operate.simps mul32_operate.simps alu_op_code.simps mul_op_code.simps)
   (auto simp: as_u32_def)

lemma sem_alu:
  assumes "isa_sem w = Some sem"
  defines "im \<equiv> inst_map w"
  shows "im_flags im AND PROFILE_MASK = sem_profile sem" "im_mem_ctl im = sem_memctl sem"
    "alu_gives sem (im_alu im, has_flag (im_flags im) IMF_MUL, has_flag (im_flags im) IMF_ALU_MOD,
       has_flag (im_flags im) IMF_FORCE_W_OP, has_flag (im_flags im) IMF_BJ_NOT)"
proof -
  obtain at where at: "map_of rv_alu (im_name im) = Some at" "alu_gives sem at"
    using map_of_list_all2 [OF alu_gives_table, of "im_name im" sem] assms unfolding isa_sem_def rv_semantics_def by blast
  with inst_map_entry [of w] assms
  show "im_flags im AND PROFILE_MASK = sem_profile sem" "im_mem_ctl im = sem_memctl sem"
    "alu_gives sem (im_alu im, has_flag (im_flags im) IMF_MUL, has_flag (im_flags im) IMF_ALU_MOD,
       has_flag (im_flags im) IMF_FORCE_W_OP, has_flag (im_flags im) IMF_BJ_NOT)"
    by (auto simp: entry_ok_def isa_sem_def split: prod.splits)
qed

lemma profile_flag: "fl AND PROFILE_MASK = p \<Longrightarrow> PROFILE_MASK AND F = F \<Longrightarrow> has_flag fl F = has_flag p F"
  unfolding has_flag_def by (metis and.assoc)

text \<open>The flags that direct an instruction through the stages.\<close>

lemma profile_covers:
  "PROFILE_MASK AND F = F" if "F \<in> {IMF_MEMWRITE, IMF_MEMREAD, IMF_ALUSRC, IMF_REGWRITE, IMF_ALU_REQ_RS, IMF_ALU_REQ_RT,
     IMF_BRANCH, IMF_JUMP, IMF_BRANCH_JALR, IMF_EXCEPTION, IMF_PC_TO_ALU, IMF_XRET, IMF_CSR, IMF_CSR_TO_ALU, IMF_ALU_RS_ID, IMF_AMO}"
  using that by (auto simp: PROFILE_MASK_def flag_defs)

lemma sem_flags:
  assumes "isa_sem w = Some sem"
  defines "fl \<equiv> im_flags (inst_map w)"
  shows "has_flag fl IMF_MEMWRITE \<longleftrightarrow> (\<exists>n. sem = RV_Store n)" "has_flag fl IMF_MEMREAD \<longleftrightarrow> (\<exists>n sg. sem = RV_Load n sg)"
    "has_flag fl IMF_ALUSRC \<longleftrightarrow> (\<forall>f c. sem \<noteq> RV_Reg f \<and> sem \<noteq> RV_Branch c)"
    "has_flag fl IMF_REGWRITE \<longleftrightarrow> (\<forall>n c. sem \<noteq> RV_Store n \<and> sem \<noteq> RV_Branch c)"
    "has_flag fl IMF_ALU_REQ_RS \<longleftrightarrow> sem \<noteq> RV_Jal \<and> (\<forall>u. sem \<noteq> RV_Upper u)"
    "has_flag fl IMF_ALU_REQ_RT \<longleftrightarrow> (\<exists>f n c. sem = RV_Reg f \<or> sem = RV_Store n \<or> sem = RV_Branch c)"
    "has_flag fl IMF_BRANCH \<longleftrightarrow> (\<exists>c. sem = RV_Branch c)" "has_flag fl IMF_JUMP \<longleftrightarrow> sem = RV_Jal"
    "has_flag fl IMF_BRANCH_JALR \<longleftrightarrow> sem = RV_Jalr" "has_flag fl IMF_PC_TO_ALU \<longleftrightarrow> sem = RV_Jal \<or> sem = RV_Upper True"
    "\<not> has_flag fl IMF_EXCEPTION" "\<not> has_flag fl IMF_XRET" "\<not> has_flag fl IMF_CSR" "\<not> has_flag fl IMF_CSR_TO_ALU"
    "\<not> has_flag fl IMF_ALU_RS_ID" "\<not> has_flag fl IMF_AMO"
  unfolding fl_def
  by (simp_all add: profile_flag [OF sem_alu(1) [OF assms(1)] profile_covers])
    (cases sem; auto simp: has_flag_def flag_defs; fail)+

end
