(* ===== verification/Registers.thy ===== *)
theory Registers
  imports Machine_Defs
begin

text \<open>
  The register file (\<^verbatim>\<open>src/src/machine/registers.cpp\<close>, \<^verbatim>\<open>registers.h\<close>): the program counter and
  32 general purpose registers, of which register 0 reads as zero.
\<close>

section \<open>Definitions\<close>

definition REGISTER_COUNT :: nat where "REGISTER_COUNT = 32"

text \<open>A register identifier is checked when it is created.\<close>

type_synonym RegisterId = nat

definition register_id :: "u8 \<Rightarrow> RegisterId result" where
  "register_id value = (if unat value < REGISTER_COUNT then Inr (unat value) else Inl Sanity)"

record Registers =
  reg_gp :: "register_value list"
  reg_pc :: address

definition PC_INIT :: address where "PC_INIT = 0x00000200"
definition SP_INIT :: address where "SP_INIT = 0xbfffff00"

definition read_pc :: "Registers \<Rightarrow> address" where
  "read_pc r = reg_pc r"

definition write_pc :: "Registers \<Rightarrow> address \<Rightarrow> Registers result" where
  "write_pc r addr = (if addr mod 4 \<noteq> 0 then Inl UnalignedJump else Inr (r\<lparr>reg_pc := addr\<rparr>))"

definition read_gp_internal :: "Registers \<Rightarrow> RegisterId \<Rightarrow> register_value" where
  "read_gp_internal r reg = (if reg = 0 then 0 else reg_gp r ! reg)"

definition read_gp :: "Registers \<Rightarrow> RegisterId \<Rightarrow> register_value" where
  "read_gp r reg = (if reg = 0 then 0 else read_gp_internal r reg)"

definition write_gp :: "Registers \<Rightarrow> RegisterId \<Rightarrow> register_value \<Rightarrow> Registers" where
  "write_gp r reg value = (if reg = 0 then r else r\<lparr>reg_gp := (reg_gp r)[reg := value]\<rparr>)"

definition registers_eq :: "Registers \<Rightarrow> Registers \<Rightarrow> bool" where
  "registers_eq r c = (if read_pc r \<noteq> read_pc c then False else if reg_gp r \<noteq> reg_gp c then False else True)"

definition registers_reset :: "Registers \<Rightarrow> Registers result" where
  "registers_reset r = res_bind (write_pc r PC_INIT) (\<lambda>r.
     let r = fold (\<lambda>i r. write_gp r i 0) [1..<32] r in Inr (write_gp r 2 SP_INIT))"

definition registers_new :: "Registers result" where
  "registers_new = registers_reset \<lparr>reg_gp = replicate REGISTER_COUNT 0, reg_pc = 0\<rparr>"

section \<open>Invariant and laws\<close>

text \<open>
  The array has its 32 slots, the slot of register 0 holds zero (nothing ever writes it), and
  the program counter is a multiple of four.
\<close>

definition registers_inv :: "Registers \<Rightarrow> bool" where
  "registers_inv r = (length (reg_gp r) = REGISTER_COUNT \<and> reg_gp r ! 0 = 0 \<and> reg_pc r mod 4 = 0)"

lemma registers_inv_write_gp: "registers_inv r \<Longrightarrow> registers_inv (write_gp r i v)"
  by (auto simp: registers_inv_def write_gp_def)

lemma registers_inv_write_pc: "registers_inv r \<Longrightarrow> write_pc r a = Inr r' \<Longrightarrow> registers_inv r'"
proof -
  assume inv: "registers_inv r" and w: "write_pc r a = Inr r'"
  have "a mod 4 = 0 \<and> r' = r\<lparr>reg_pc := a\<rparr>" using w unfolding write_pc_def by (metis Inl_Inr_False sum.inject(2))
  then show "registers_inv r'" using inv unfolding registers_inv_def by simp
qed

lemma read_gp_0 [simp]: "read_gp r 0 = 0"
  by (simp add: read_gp_def)

lemma read_write_gp:
  assumes "registers_inv r" "j < REGISTER_COUNT"
  shows "read_gp (write_gp r i v) j = (if i = j \<and> j \<noteq> 0 then v else read_gp r j)"
  using assms by (auto simp: read_gp_def read_gp_internal_def write_gp_def registers_inv_def nth_list_update)

lemma read_pc_write_gp [simp]: "read_pc (write_gp r i v) = read_pc r"
  by (simp add: read_pc_def write_gp_def)

lemma read_gp_write_pc: "write_pc r a = Inr r' \<Longrightarrow> read_gp r' i = read_gp r i"
  by (auto simp: write_pc_def read_gp_def read_gp_internal_def split: if_splits)

lemma write_pc_read_pc: "write_pc r a = Inr r' \<Longrightarrow> read_pc r' = a"
  by (auto simp: write_pc_def read_pc_def split: if_splits)

lemma fold_write_gp_zero:
  assumes "registers_inv r" "set xs \<subseteq> {..<REGISTER_COUNT}" "j < REGISTER_COUNT"
  shows "registers_inv (fold (\<lambda>i r. write_gp r i 0) xs r) \<and>
    read_gp (fold (\<lambda>i r. write_gp r i 0) xs r) j = (if j \<in> set xs then 0 else read_gp r j) \<and>
    read_pc (fold (\<lambda>i r. write_gp r i 0) xs r) = read_pc r"
  using assms(1,2)
proof (induction xs arbitrary: r)
  case (Cons i xs)
  from Cons.prems have "registers_inv (write_gp r i 0)" by (simp add: registers_inv_write_gp)
  with Cons.IH [of "write_gp r i 0"] Cons.prems show ?case
    using assms(3) by (auto simp: read_write_gp)
qed simp

lemma registers_reset_spec:
  assumes "length (reg_gp r) = REGISTER_COUNT" "reg_gp r ! 0 = 0"
  obtains r' where "registers_reset r = Inr r'" "registers_inv r'" "read_pc r' = PC_INIT"
    "\<And>j. j < REGISTER_COUNT \<Longrightarrow> read_gp r' j = (if j = 2 then SP_INIT else 0)"
proof -
  define r1 where "r1 = r\<lparr>reg_pc := PC_INIT\<rparr>"
  define r2 where "r2 = fold (\<lambda>i r. write_gp r i 0) [1..<32] r1"
  have "registers_inv r1" using assms by (simp add: r1_def registers_inv_def PC_INIT_def)
  then have r2: "registers_inv r2 \<and> read_gp r2 j = (if j \<in> {1..<32} then 0 else read_gp r1 j) \<and> read_pc r2 = read_pc r1"
    if "j < REGISTER_COUNT" for j
    unfolding r2_def using fold_write_gp_zero [of r1 "[1..<32]" j] that
    by (simp add: REGISTER_COUNT_def subset_eq)
  have inv: "registers_inv r2" and pc: "read_pc r2 = PC_INIT"
    using r2 [of 0] by (simp_all add: REGISTER_COUNT_def r1_def read_pc_def)
  have gp: "read_gp r2 j = 0" if "j < REGISTER_COUNT" for j
    using r2 [OF that] that by (cases "j = 0") (auto simp: REGISTER_COUNT_def read_gp_def)
  have "registers_reset r = Inr (write_gp r2 2 SP_INIT)"
    by (simp add: registers_reset_def write_pc_def r2_def r1_def PC_INIT_def)
  then show thesis
    using that [of "write_gp r2 2 SP_INIT"] inv pc gp
    by (simp add: registers_inv_write_gp read_write_gp)
qed

lemma registers_new_inv: "registers_new = Inr r \<Longrightarrow> registers_inv r"
proof -
  let ?r = "\<lparr>reg_gp = replicate REGISTER_COUNT 0, reg_pc = 0\<rparr>"
  have "length (reg_gp ?r) = REGISTER_COUNT" "reg_gp ?r ! 0 = 0" by (simp_all add: REGISTER_COUNT_def)
  from registers_reset_spec [OF this] show "registers_new = Inr r \<Longrightarrow> registers_inv r"
    unfolding registers_new_def by (metis sum.inject(2))
qed

section \<open>Properties\<close>

text \<open>
  The register file behaves as an array of 31 registers beside the hard-wired zero:
  a write changes the addressed register and no other, register 0 reads as zero after any
  write, the program counter is not touched, and the invariant (32 slots, slot 0 zero,
  program counter aligned) is kept.
\<close>

theorem register_file_array:
  assumes "registers_inv r" "i < REGISTER_COUNT" "j < REGISTER_COUNT"
  shows "read_gp (write_gp r i v) j = (if i = j \<and> j \<noteq> 0 then v else read_gp r j) \<and>
    read_gp (write_gp r i v) 0 = 0 \<and>
    read_pc (write_gp r i v) = read_pc r \<and> registers_inv (write_gp r i v)"
  using assms by (simp add: read_write_gp registers_inv_write_gp)

theorem register_file_array_witness:
  "read_gp (write_gp \<lparr>reg_gp = replicate 32 0, reg_pc = 0x200\<rparr> 5 7) 5 = 7 \<and>
   read_gp (write_gp \<lparr>reg_gp = replicate 32 0, reg_pc = 0x200\<rparr> 5 7) 0 = 0"
  using register_file_array [of "\<lparr>reg_gp = replicate 32 0, reg_pc = 0x200\<rparr>" 5 5 7]
  by (simp add: registers_inv_def REGISTER_COUNT_def)

text \<open>
  The program counter only takes values that are multiples of four: a write of
  another address throws and every other write sets it and leaves the registers alone; a new
  register file starts at 0x200 with the stack pointer 0xbfffff00 and zeros elsewhere.
\<close>

theorem program_counter_aligned:
  "(write_pc r a = Inl UnalignedJump \<longleftrightarrow> a mod 4 \<noteq> 0) \<and>
   (\<forall>r'. write_pc r a = Inr r' \<longrightarrow> read_pc r' = a \<and> (\<forall>i. read_gp r' i = read_gp r i)) \<and>
   (\<exists>r0. registers_new = Inr r0 \<and> registers_inv r0 \<and> read_pc r0 = 0x200 \<and>
      (\<forall>j < REGISTER_COUNT. read_gp r0 j = (if j = 2 then 0xbfffff00 else 0)))"
proof -
  have "length (reg_gp \<lparr>reg_gp = replicate REGISTER_COUNT 0, reg_pc = 0\<rparr>) = REGISTER_COUNT"
    "reg_gp \<lparr>reg_gp = replicate REGISTER_COUNT 0, reg_pc = 0\<rparr> ! 0 = 0"
    by (simp_all add: REGISTER_COUNT_def)
  from registers_reset_spec [OF this]
  have "\<exists>r0. registers_new = Inr r0 \<and> registers_inv r0 \<and> read_pc r0 = 0x200 \<and>
      (\<forall>j < REGISTER_COUNT. read_gp r0 j = (if j = 2 then 0xbfffff00 else 0))"
    unfolding registers_new_def PC_INIT_def SP_INIT_def by metis
  then show ?thesis
    using write_pc_read_pc [of r a] read_gp_write_pc [of r a] by (auto simp: write_pc_def)
qed

theorem program_counter_aligned_witness:
  "write_pc \<lparr>reg_gp = replicate 32 0, reg_pc = 0x200\<rparr> 0x202 = Inl UnalignedJump \<and>
   write_pc \<lparr>reg_gp = replicate 32 0, reg_pc = 0x200\<rparr> 0x204 = Inr \<lparr>reg_gp = replicate 32 0, reg_pc = 0x204\<rparr>"
  using program_counter_aligned [of "\<lparr>reg_gp = replicate 32 0, reg_pc = 0x200\<rparr>" "0x202"]
  by (simp add: write_pc_def)

end
