(* ===== verification/Predictor.thy ===== *)
theory Predictor
  imports Machine_Defs
begin

text \<open>
  The branch predictor (\<^verbatim>\<open>src/src/machine/predictor.cpp\<close>, \<^verbatim>\<open>predictor.h\<close>,
  \<^verbatim>\<open>predictor_types.h\<close>): the history register, the target buffer, the six predictors and the
  class \<^verbatim>\<open>BranchPredictor\<close> that combines them.  The tables are lists, as long as the capacity of
  the C++ vectors; the loops that clear them count with a 16-bit variable and are modelled as
  they are written, so that a loop that never ends is the value \<^term>\<open>None\<close>.  The instruction
  that the code passes along only reaches the signals of the user interface and is left out.
\<close>

section \<open>Types\<close>

datatype BranchType = BT_JUMP | BT_BRANCH | BT_UNDEFINED

datatype BranchResult = BR_NOT_TAKEN | BR_TAKEN | BR_UNDEFINED

datatype PredictorType =
    ALWAYS_NOT_TAKEN | ALWAYS_TAKEN | BTFNT | SMITH_1_BIT | SMITH_2_BIT | SMITH_2_BIT_HYSTERESIS | PT_UNDEFINED

datatype PredictorState =
    NOT_TAKEN | TAKEN | STRONGLY_NOT_TAKEN | WEAKLY_NOT_TAKEN | WEAKLY_TAKEN | STRONGLY_TAKEN | PS_UNDEFINED

definition BP_MAX_BTB_BITS :: u8 where "BP_MAX_BTB_BITS = 8"
definition BP_MAX_BHR_BITS :: u8 where "BP_MAX_BHR_BITS = 8"
definition BP_MAX_BHT_ADDR_BITS :: u8 where "BP_MAX_BHT_ADDR_BITS = 8"
definition BP_MAX_BHT_BITS :: u8 where "BP_MAX_BHT_BITS = BP_MAX_BHT_ADDR_BITS + BP_MAX_BHT_ADDR_BITS"

lemmas bp_limits = BP_MAX_BTB_BITS_def BP_MAX_BHR_BITS_def BP_MAX_BHT_ADDR_BITS_def BP_MAX_BHT_BITS_def

fun is_predictor_type_dynamic :: "PredictorType \<Rightarrow> bool" where
  "is_predictor_type_dynamic SMITH_1_BIT = True"
| "is_predictor_type_dynamic SMITH_2_BIT = True"
| "is_predictor_type_dynamic SMITH_2_BIT_HYSTERESIS = True"
| "is_predictor_type_dynamic _ = False"

text \<open>
  The loop \<^verbatim>\<open>for (uint16_t i = 0; i < v.capacity(); i++) v.at(i) = f(v.at(i));\<close> that the
  functions \<^verbatim>\<open>clear*\<close> share.
\<close>

partial_function (option) for_u16_at :: "('a \<Rightarrow> 'a) \<Rightarrow> u16 \<Rightarrow> 'a list \<Rightarrow> 'a list option" where
  [code]: "for_u16_at f i v =
     (if unat i < length v then for_u16_at f (i + 1) (v[unat i := f (v ! unat i)]) else Some v)"

section \<open>Branch history register\<close>

record BranchHistoryRegister =
  bhr_number_of_bits :: u8
  register_mask :: u16
  bhr_value :: u16

definition init_number_of_bits :: "u8 \<Rightarrow> u8 \<Rightarrow> u8" where
  "init_number_of_bits limit b = (if b > limit then limit else b)"

definition init_register_mask :: "u8 \<Rightarrow> u16" where
  "init_register_mask b =
     (if b \<ge> BP_MAX_BHR_BITS then NOT 0 else if b = 0 then 0 else push_bit (unat b) 1 - 1)"

definition bhr_new :: "u8 \<Rightarrow> BranchHistoryRegister" where
  "bhr_new b = \<lparr>bhr_number_of_bits = init_number_of_bits BP_MAX_BHR_BITS b,
     register_mask = init_register_mask b, bhr_value = 0\<rparr>"

definition bhr_update :: "BranchResult \<Rightarrow> BranchHistoryRegister \<Rightarrow> BranchHistoryRegister" where
  "bhr_update result r =
     (let value = push_bit 1 (bhr_value r);
          value = (if result = BR_TAKEN then value OR 1 else value);
          value = value AND register_mask r
      in r\<lparr>bhr_value := value\<rparr>)"

definition bhr_clear :: "BranchHistoryRegister \<Rightarrow> BranchHistoryRegister" where
  "bhr_clear r = r\<lparr>bhr_value := 0\<rparr>"

section \<open>Branch target buffer\<close>

record BranchTargetBufferEntry =
  entry_valid :: bool
  btb_instruction_address :: address
  btb_target_address :: address
  btb_branch_type :: BranchType

definition btb_entry_default :: BranchTargetBufferEntry where
  "btb_entry_default = \<lparr>entry_valid = False, btb_instruction_address = 0, btb_target_address = 0,
     btb_branch_type = BT_UNDEFINED\<rparr>"

record BranchTargetBuffer =
  btb_number_of_bits :: u8
  btb_rows :: "BranchTargetBufferEntry list"

definition btb_new :: "u8 \<Rightarrow> BranchTargetBuffer" where
  "btb_new b = \<lparr>btb_number_of_bits = init_number_of_bits BP_MAX_BTB_BITS b,
     btb_rows = replicate (2 ^ unat b) btb_entry_default\<rparr>"

definition calculate_index :: "BranchTargetBuffer \<Rightarrow> address \<Rightarrow> u16" where
  "calculate_index t a = (ucast (drop_bit 2 a) :: u16) AND (push_bit (unat (btb_number_of_bits t)) 1 - 1)"

definition get_entry :: "BranchTargetBuffer \<Rightarrow> address \<Rightarrow> BranchTargetBufferEntry" where
  "get_entry t a =
     (let index = calculate_index t a
      in if unat index \<ge> length (btb_rows t) then btb_entry_default else btb_rows t ! unat index)"

definition btb_update :: "address \<Rightarrow> address \<Rightarrow> BranchType \<Rightarrow> BranchTargetBuffer \<Rightarrow> BranchTargetBuffer" where
  "btb_update a target branch_type t =
     (let btb_index = calculate_index t a
      in if unat btb_index \<ge> length (btb_rows t) then t
         else t\<lparr>btb_rows := (btb_rows t)[unat btb_index := \<lparr>entry_valid = True, btb_instruction_address = a,
           btb_target_address = target, btb_branch_type = branch_type\<rparr>]\<rparr>)"

definition btb_clear :: "BranchTargetBuffer \<Rightarrow> BranchTargetBuffer option" where
  "btb_clear t = map_option (\<lambda>v. t\<lparr>btb_rows := v\<rparr>) (for_u16_at (\<lambda>_. btb_entry_default) 0 (btb_rows t))"

section \<open>Predictors\<close>

text \<open>
  The accuracy is a \<^verbatim>\<open>float\<close> that is only assigned quotients of 32-bit integers; the model keeps
  the integer.
\<close>

record PredictionStatistics =
  accuracy :: u32
  stat_total :: u32
  stat_correct :: u32
  stat_wrong :: u32

definition stats_default :: PredictionStatistics where
  "stats_default = \<lparr>accuracy = 0, stat_total = 0, stat_correct = 0, stat_wrong = 0\<rparr>"

definition count_prediction :: "bool \<Rightarrow> PredictionStatistics \<Rightarrow> PredictionStatistics" where
  "count_prediction ok s =
     (let s = s\<lparr>stat_total := stat_total s + 1\<rparr>;
          s = (if ok then s\<lparr>stat_correct := stat_correct s + 1\<rparr> else s\<lparr>stat_wrong := stat_wrong s + 1\<rparr>)
      in s\<lparr>accuracy := (stat_correct s * 100) div stat_total s\<rparr>)"

record BranchHistoryTableEntry =
  bht_state :: PredictorState
  bht_stats :: PredictionStatistics

record Predictor =
  predictor_type :: PredictorType
  number_of_bht_addr_bits :: u8
  number_of_bht_bits :: u8
  predictor_initial_state :: PredictorState
  stats :: PredictionStatistics
  bht :: "BranchHistoryTableEntry list"

fun convert_state_to_prediction :: "PredictorState \<Rightarrow> BranchResult" where
  "convert_state_to_prediction NOT_TAKEN = BR_NOT_TAKEN"
| "convert_state_to_prediction TAKEN = BR_TAKEN"
| "convert_state_to_prediction WEAKLY_NOT_TAKEN = BR_NOT_TAKEN"
| "convert_state_to_prediction STRONGLY_NOT_TAKEN = BR_NOT_TAKEN"
| "convert_state_to_prediction WEAKLY_TAKEN = BR_TAKEN"
| "convert_state_to_prediction STRONGLY_TAKEN = BR_TAKEN"
| "convert_state_to_prediction PS_UNDEFINED = BR_NOT_TAKEN"

definition pred_update_stats :: "bool \<Rightarrow> Predictor \<Rightarrow> Predictor" where
  "pred_update_stats ok p = p\<lparr>stats := count_prediction ok (stats p)\<rparr>"

definition update_bht_stats :: "u16 \<Rightarrow> bool \<Rightarrow> Predictor \<Rightarrow> Predictor" where
  "update_bht_stats index ok p =
     (if unat index \<ge> length (bht p) then p
      else p\<lparr>bht := (bht p)[unat index := (bht p ! unat index)\<lparr>bht_stats := count_prediction ok (bht_stats (bht p ! unat index))\<rparr>]\<rparr>)"

definition calculate_bht_index :: "Predictor \<Rightarrow> u16 \<Rightarrow> address \<Rightarrow> u16" where
  "calculate_bht_index p bhr_val a =
     (let bhr_part = push_bit (unat (number_of_bht_addr_bits p)) bhr_val;
          address_mask = push_bit (unat (number_of_bht_addr_bits p)) 1 - 1;
          address_part = ucast (drop_bit 2 a) AND address_mask
      in bhr_part OR address_part)"

definition clear_stats :: "Predictor \<Rightarrow> Predictor" where
  "clear_stats p = p\<lparr>stats := stats_default\<rparr>"

definition clear_bht_stats :: "Predictor \<Rightarrow> Predictor option" where
  "clear_bht_stats p = map_option (\<lambda>v. p\<lparr>bht := v\<rparr>) (for_u16_at (\<lambda>e. e\<lparr>bht_stats := stats_default\<rparr>) 0 (bht p))"

definition clear_bht_state :: "Predictor \<Rightarrow> Predictor option" where
  "clear_bht_state p =
     map_option (\<lambda>v. p\<lparr>bht := v\<rparr>) (for_u16_at (\<lambda>e. e\<lparr>bht_state := predictor_initial_state p\<rparr>) 0 (bht p))"

definition pred_clear :: "Predictor \<Rightarrow> Predictor option" where
  "pred_clear p = Option.bind (clear_bht_stats (clear_stats p)) clear_bht_state"

definition pred_flush :: "Predictor \<Rightarrow> Predictor option" where
  "pred_flush p = clear_bht_state p"

definition Predictor_new :: "PredictorType \<Rightarrow> u8 \<Rightarrow> u8 \<Rightarrow> PredictorState \<Rightarrow> Predictor option" where
  "Predictor_new type addr_bits bht_bits initial =
     Option.bind (clear_bht_state
       \<lparr>predictor_type = type,
        number_of_bht_addr_bits = init_number_of_bits BP_MAX_BHT_ADDR_BITS addr_bits,
        number_of_bht_bits = init_number_of_bits BP_MAX_BHT_BITS bht_bits,
        predictor_initial_state = initial, stats = stats_default,
        bht = replicate (2 ^ unat bht_bits) \<lparr>bht_state = PS_UNDEFINED, bht_stats = stats_default\<rparr>\<rparr>)
     clear_bht_stats"

subsection \<open>Predictions\<close>

text \<open>The body that the three Smith predictors share word by word.\<close>

definition smith_predict :: "Predictor \<Rightarrow> u16 \<Rightarrow> address \<Rightarrow> BranchResult" where
  "smith_predict p bhr_val a =
     (let index = calculate_bht_index p bhr_val a
      in if unat index \<ge> length (bht p) then BR_NOT_TAKEN
         else convert_state_to_prediction (bht_state (bht p ! unat index)))"

definition btfnt_predict :: "address \<Rightarrow> address \<Rightarrow> BranchResult" where
  "btfnt_predict a target = (if target > a then BR_NOT_TAKEN else BR_TAKEN)"

definition predict :: "Predictor \<Rightarrow> u16 \<Rightarrow> address \<Rightarrow> address \<Rightarrow> BranchResult" where
  "predict p bhr_val a target =
     (case predictor_type p of
        ALWAYS_NOT_TAKEN \<Rightarrow> BR_NOT_TAKEN
      | ALWAYS_TAKEN \<Rightarrow> BR_TAKEN
      | BTFNT \<Rightarrow> btfnt_predict a target
      | _ \<Rightarrow> smith_predict p bhr_val a)"

subsection \<open>Updates\<close>

fun smith1_next :: "BranchResult \<Rightarrow> PredictorState \<Rightarrow> PredictorState" where
  "smith1_next BR_NOT_TAKEN s = NOT_TAKEN"
| "smith1_next BR_TAKEN s = TAKEN"
| "smith1_next BR_UNDEFINED s = s"

fun smith2_next :: "BranchResult \<Rightarrow> PredictorState \<Rightarrow> PredictorState" where
  "smith2_next BR_NOT_TAKEN STRONGLY_TAKEN = WEAKLY_TAKEN"
| "smith2_next BR_NOT_TAKEN WEAKLY_TAKEN = WEAKLY_NOT_TAKEN"
| "smith2_next BR_NOT_TAKEN WEAKLY_NOT_TAKEN = STRONGLY_NOT_TAKEN"
| "smith2_next BR_NOT_TAKEN STRONGLY_NOT_TAKEN = STRONGLY_NOT_TAKEN"
| "smith2_next BR_TAKEN STRONGLY_TAKEN = STRONGLY_TAKEN"
| "smith2_next BR_TAKEN WEAKLY_TAKEN = STRONGLY_TAKEN"
| "smith2_next BR_TAKEN WEAKLY_NOT_TAKEN = WEAKLY_TAKEN"
| "smith2_next BR_TAKEN STRONGLY_NOT_TAKEN = WEAKLY_NOT_TAKEN"
| "smith2_next _ s = s"

fun smith2_hysteresis_next :: "BranchResult \<Rightarrow> PredictorState \<Rightarrow> PredictorState" where
  "smith2_hysteresis_next BR_NOT_TAKEN STRONGLY_TAKEN = WEAKLY_TAKEN"
| "smith2_hysteresis_next BR_NOT_TAKEN WEAKLY_TAKEN = STRONGLY_NOT_TAKEN"
| "smith2_hysteresis_next BR_NOT_TAKEN WEAKLY_NOT_TAKEN = STRONGLY_NOT_TAKEN"
| "smith2_hysteresis_next BR_NOT_TAKEN STRONGLY_NOT_TAKEN = STRONGLY_NOT_TAKEN"
| "smith2_hysteresis_next BR_TAKEN STRONGLY_TAKEN = STRONGLY_TAKEN"
| "smith2_hysteresis_next BR_TAKEN WEAKLY_TAKEN = STRONGLY_TAKEN"
| "smith2_hysteresis_next BR_TAKEN WEAKLY_NOT_TAKEN = STRONGLY_TAKEN"
| "smith2_hysteresis_next BR_TAKEN STRONGLY_NOT_TAKEN = WEAKLY_NOT_TAKEN"
| "smith2_hysteresis_next _ s = s"

definition smith_update :: "(BranchResult \<Rightarrow> PredictorState \<Rightarrow> PredictorState) \<Rightarrow> u16 \<Rightarrow> address \<Rightarrow> BranchResult \<Rightarrow> Predictor \<Rightarrow> Predictor" where
  "smith_update next bhr_val a result p =
     (let index = calculate_bht_index p bhr_val a
      in if unat index \<ge> length (bht p) then p
         else
           let ok = (\<lambda>p. result = convert_state_to_prediction (bht_state (bht p ! unat index)));
               p = update_bht_stats index (ok p) p;
               p = pred_update_stats (ok p) p;
               e = bht p ! unat index
           in p\<lparr>bht := (bht p)[unat index := e\<lparr>bht_state := next result (bht_state e)\<rparr>]\<rparr>)"

definition pred_update :: "u16 \<Rightarrow> address \<Rightarrow> address \<Rightarrow> BranchResult \<Rightarrow> Predictor \<Rightarrow> Predictor" where
  "pred_update bhr_val a target result p =
     (case predictor_type p of
        ALWAYS_NOT_TAKEN \<Rightarrow> pred_update_stats (result = BR_NOT_TAKEN) p
      | ALWAYS_TAKEN \<Rightarrow> pred_update_stats (result = BR_TAKEN) p
      | BTFNT \<Rightarrow> pred_update_stats (result = (if target > a then BR_NOT_TAKEN else BR_TAKEN)) p
      | SMITH_1_BIT \<Rightarrow> smith_update smith1_next bhr_val a result p
      | SMITH_2_BIT \<Rightarrow> smith_update smith2_next bhr_val a result p
      | SMITH_2_BIT_HYSTERESIS \<Rightarrow> smith_update smith2_hysteresis_next bhr_val a result p
      | PT_UNDEFINED \<Rightarrow> p)"

section \<open>The branch predictor\<close>

record BranchPredictor =
  bp_enabled :: bool
  total_stats :: PredictionStatistics
  predictor :: Predictor
  bp_bhr :: BranchHistoryRegister
  bp_btb :: BranchTargetBuffer
  bp_initial_state :: PredictorState
  bp_number_of_btb_bits :: u8
  bp_number_of_bhr_bits :: u8
  bp_number_of_bht_addr_bits :: u8
  bp_number_of_bht_bits :: u8

definition init_number_of_bht_bits :: "u8 \<Rightarrow> u8 \<Rightarrow> u8" where
  "init_number_of_bht_bits b_bhr b_addr =
     (let checked_bhr = (if b_bhr > BP_MAX_BHR_BITS then BP_MAX_BHR_BITS else b_bhr);
          checked_addr = (if b_addr > BP_MAX_BHT_ADDR_BITS then BP_MAX_BHT_ADDR_BITS else b_addr);
          b_sum = checked_bhr + checked_addr
      in if b_sum > BP_MAX_BHT_BITS then BP_MAX_BHT_BITS else b_sum)"

text \<open>
  The constructor: \<^term>\<open>None\<close> when a loop of it does not end, \<^term>\<open>Inl Sanity\<close> for the
  \<^verbatim>\<open>std::invalid_argument\<close> of an unknown type.  The static predictors have tables of one row.
\<close>

definition branch_predictor_new :: "bool \<Rightarrow> PredictorType \<Rightarrow> PredictorState \<Rightarrow> u8 \<Rightarrow> u8 \<Rightarrow> u8 \<Rightarrow> BranchPredictor result option" where
  "branch_predictor_new en type initial btb_bits bhr_bits addr_bits =
     (let bht_bits = init_number_of_bht_bits bhr_bits addr_bits
      in if type = PT_UNDEFINED then Some (Inl Sanity)
         else
           map_option (\<lambda>p. Inr \<lparr>bp_enabled = en, total_stats = stats_default, predictor = p,
               bp_bhr = bhr_new bhr_bits, bp_btb = btb_new btb_bits, bp_initial_state = initial,
               bp_number_of_btb_bits = init_number_of_bits BP_MAX_BTB_BITS btb_bits,
               bp_number_of_bhr_bits = init_number_of_bits BP_MAX_BHR_BITS bhr_bits,
               bp_number_of_bht_addr_bits = init_number_of_bits BP_MAX_BHT_ADDR_BITS addr_bits,
               bp_number_of_bht_bits = bht_bits\<rparr>)
             (if is_predictor_type_dynamic type then Predictor_new type addr_bits bht_bits initial
              else Predictor_new type 0 0 PS_UNDEFINED))"

definition recount :: "PredictionStatistics \<Rightarrow> PredictionStatistics" where
  "recount s =
     (let s = s\<lparr>stat_correct := stat_total s - stat_wrong s\<rparr>
      in if stat_total s > 0 then s\<lparr>accuracy := (stat_correct s * 100) div stat_total s\<rparr> else s)"

definition increment_jumps :: "BranchPredictor \<Rightarrow> BranchPredictor" where
  "increment_jumps b = b\<lparr>total_stats := recount ((total_stats b)\<lparr>stat_total := stat_total (total_stats b) + 1\<rparr>)\<rparr>"

definition increment_mispredictions :: "BranchPredictor \<Rightarrow> BranchPredictor" where
  "increment_mispredictions b = b\<lparr>total_stats := recount ((total_stats b)\<lparr>stat_wrong := stat_wrong (total_stats b) + 1\<rparr>)\<rparr>"

definition predict_next_pc_address :: "BranchPredictor \<Rightarrow> address \<Rightarrow> address" where
  "predict_next_pc_address b a =
     (if \<not> bp_enabled b then a + 4
      else
        let entry = get_entry (bp_btb b) a
        in if \<not> entry_valid entry then a + 4
           else if btb_instruction_address entry \<noteq> a then a + 4
           else
             let predicted = (if btb_branch_type entry = BT_BRANCH
                   then predict (predictor b) (bhr_value (bp_bhr b)) a (btb_target_address entry) else BR_TAKEN)
             in if predicted = BR_TAKEN then btb_target_address entry else a + 4)"

definition bp_update :: "address \<Rightarrow> address \<Rightarrow> BranchType \<Rightarrow> BranchResult \<Rightarrow> BranchPredictor \<Rightarrow> BranchPredictor" where
  "bp_update a target branch_type result b =
     (if \<not> bp_enabled b then b
      else
        let b = b\<lparr>bp_btb := btb_update a target branch_type (bp_btb b)\<rparr>;
            b = (if branch_type = BT_BRANCH
                 then b\<lparr>predictor := pred_update (bhr_value (bp_bhr b)) a target result (predictor b)\<rparr> else b);
            b = increment_jumps b
        in b\<lparr>bp_bhr := bhr_update result (bp_bhr b)\<rparr>)"

definition bp_clear :: "BranchPredictor \<Rightarrow> BranchPredictor option" where
  "bp_clear b =
     (let b = b\<lparr>bp_bhr := bhr_clear (bp_bhr b)\<rparr>
      in Option.bind (btb_clear (bp_btb b)) (\<lambda>t.
         Option.bind (pred_clear (predictor b)) (\<lambda>p. Some (b\<lparr>bp_btb := t, predictor := p\<rparr>))))"

definition bp_flush :: "BranchPredictor \<Rightarrow> BranchPredictor option" where
  "bp_flush b =
     (let b = b\<lparr>bp_bhr := bhr_clear (bp_bhr b)\<rparr>
      in Option.bind (btb_clear (bp_btb b)) (\<lambda>t.
         Option.bind (pred_flush (predictor b)) (\<lambda>p. Some (b\<lparr>bp_btb := t, predictor := p\<rparr>))))"

section \<open>The clearing loops\<close>

lemma for_u16_at_returns:
  assumes "length v < 2 ^ 16" "unat i \<le> length v"
  shows "for_u16_at f i v = Some (take (unat i) v @ map f (drop (unat i) v))"
  using assms
proof (induction "length v - unat i" arbitrary: i v)
  case 0
  then show ?case by (subst for_u16_at.simps) simp
next
  case (Suc k)
  then have lt: "unat i < length v" by simp
  with Suc.prems have step: "unat (i + 1) = Suc (unat i)"
    by (subst unat_add_lem [THEN iffD1]) simp_all
  have "for_u16_at f i v = for_u16_at f (i + 1) (v[unat i := f (v ! unat i)])"
    using lt by (subst for_u16_at.simps) simp
  also have "\<dots> = Some (take (Suc (unat i)) (v[unat i := f (v ! unat i)]) @ map f (drop (Suc (unat i)) v))"
    using Suc.hyps(1) [of "v[unat i := f (v ! unat i)]" "i + 1"] Suc.hyps(2) Suc.prems lt by (simp add: step)
  also have "\<dots> = Some (take (unat i) v @ map f (drop (unat i) v))"
    using lt by (simp add: take_Suc_conv_app_nth Cons_nth_drop_Suc [symmetric])
  finally show ?case .
qed

lemma for_u16_at_ended:
  assumes "for_u16_at f i v = Some w"
  shows "length v < 2 ^ 16"
proof (rule for_u16_at.raw_induct [where P = "\<lambda>f i v w. length v < 2 ^ 16", OF _ assms])
  fix loop f fix i :: u16 fix v w
  assume IH: "\<And>g j u y. loop g j u = Some y \<Longrightarrow> length u < 2 ^ 16"
    and body: "(if unat i < length v then loop f (i + 1) (v[unat i := f (v ! unat i)]) else Some v) = Some w"
  have "unat i < 2 ^ 16" using unsigned_less [of i, where ?'a = nat] by simp
  then show "length v < 2 ^ 16"
    using body IH [of f "i + 1" "v[unat i := f (v ! unat i)]" w] by (cases "unat i < length v") simp_all
qed

lemma for_u16_at_eq:
  "for_u16_at f 0 v = (if length v < 2 ^ 16 then Some (map f v) else None)"
  using for_u16_at_returns [of v 0 f] for_u16_at_ended [of f 0 v] by (cases "for_u16_at f 0 v") auto

lemma init_number_of_bits_le: "init_number_of_bits limit b \<le> limit"
  by (simp add: init_number_of_bits_def linorder_not_less)

lemma init_number_of_bht_bits_eq:
  "unat (init_number_of_bht_bits b_bhr b_addr) = min (unat b_bhr) 8 + min (unat b_addr) 8"
proof -
  define s where "s = min b_bhr 8 + min b_addr (8 :: u8)"
  have s: "unat s = min (unat b_bhr) 8 + min (unat b_addr) 8"
    unfolding s_def by (subst unat_add_lem [THEN iffD1]) (auto simp: min_def word_le_nat_alt)
  then have "\<not> s > 16" by (simp add: word_less_nat_alt)
  moreover have clamp: "(if a > 8 then 8 else a) = min a (8 :: u8)" for a by (auto simp: min_def)
  have "init_number_of_bht_bits b_bhr b_addr = (if s > 16 then 16 else s)"
    unfolding init_number_of_bht_bits_def bp_limits Let_def s_def clamp by simp
  ultimately show ?thesis using s by simp
qed

lemma Predictor_new_eq:
  "Predictor_new type addr_bits bht_bits initial =
     (if unat bht_bits < 16 then Some
       \<lparr>predictor_type = type,
        number_of_bht_addr_bits = init_number_of_bits BP_MAX_BHT_ADDR_BITS addr_bits,
        number_of_bht_bits = init_number_of_bits BP_MAX_BHT_BITS bht_bits,
        predictor_initial_state = initial, stats = stats_default,
        bht = replicate (2 ^ unat bht_bits) \<lparr>bht_state = initial, bht_stats = stats_default\<rparr>\<rparr>
      else None)"
  using power_strict_increasing_iff [of "2::nat" "unat bht_bits" 16]
  by (simp add: Predictor_new_def clear_bht_state_def clear_bht_stats_def for_u16_at_eq)

text \<open>
  The constructor of the branch predictor returns for every choice of its parameters
  but one: a dynamic predictor with (at least) 8 bits of history and 8 bits of address.  The
  table then has 65536 rows, and the 16-bit counter of the loop that fills it never reaches
  the end.
\<close>

theorem branch_predictor_new_returns:
  "branch_predictor_new en type initial btb_bits bhr_bits addr_bits = None \<longleftrightarrow>
     is_predictor_type_dynamic type \<and> 8 \<le> bhr_bits \<and> 8 \<le> addr_bits"
proof -
  have "min (unat bhr_bits) 8 + min (unat addr_bits) 8 < 16 \<longleftrightarrow> \<not> (8 \<le> bhr_bits \<and> 8 \<le> addr_bits)"
    by (auto simp: word_le_nat_alt)
  moreover have "is_predictor_type_dynamic type \<Longrightarrow> type \<noteq> PT_UNDEFINED" by auto
  ultimately show ?thesis
    by (simp add: branch_predictor_new_def Predictor_new_eq init_number_of_bht_bits_eq Let_def)
qed

section \<open>The history register\<close>

lemma bit_init_register_mask:
  "bit (init_register_mask b) i \<longleftrightarrow> i < (if b < 8 then unat b else 16)"
proof (cases "b < 8")
  case True
  then have b: "unat b < 8" by (simp add: word_less_nat_alt)
  have "init_register_mask b = (mask (unat b) :: u16)"
    using True by (auto simp: init_register_mask_def bp_limits mask_eq_exp_minus_1 push_bit_eq_mult)
  then show ?thesis using True b by (auto simp: bit_simps)
next
  case False
  then show ?thesis by (auto simp: init_register_mask_def bp_limits bit_simps linorder_not_less)
qed

lemma bit_bhr_update:
  "bit (bhr_value (bhr_update r h)) i \<longleftrightarrow>
     bit (register_mask h) i \<and> (if i = 0 then r = BR_TAKEN else bit (bhr_value h) (i - 1))"
proof -
  have "bit (push_bit 1 (bhr_value h)) i \<longleftrightarrow> i \<noteq> 0 \<and> i < 16 \<and> bit (bhr_value h) (i - 1)"
    by (simp only: bit_push_bit_iff) (auto simp: Suc_le_eq)
  moreover have "bit (register_mask h) i \<Longrightarrow> i < 16" using bit_imp_le_length [of "register_mask h" i] by simp
  moreover have "bhr_value (bhr_update r h) =
      (if r = BR_TAKEN then push_bit 1 (bhr_value h) OR 1 else push_bit 1 (bhr_value h)) AND register_mask h"
    by (simp add: bhr_update_def Let_def)
  ultimately show ?thesis
    by (auto simp only: bit_and_iff bit_or_iff bit_1_iff split: if_splits)
qed

lemma bhr_update_mask [simp]: "register_mask (bhr_update r h) = register_mask h"
  by (simp add: bhr_update_def Let_def)

lemma bhr_clear_simps [simp]: "register_mask (bhr_clear h) = register_mask h" "bhr_value (bhr_clear h) = 0"
  by (simp_all add: bhr_clear_def)

lemma fold_bhr_update_mask [simp]: "register_mask (fold bhr_update rs h) = register_mask h"
  by (induction rs arbitrary: h) simp_all

text \<open>
  The history register holds the most recent branch results, the latest in bit 0, as
  many as it has bits; a register of 8 bits (the maximum) keeps 16 of them, since its mask has
  all bits set.
\<close>

theorem history_register_contents:
  "bit (bhr_value (fold bhr_update rs (bhr_new b))) i \<longleftrightarrow>
     i < (if b < 8 then unat b else 16) \<and> i < length rs \<and> rev rs ! i = BR_TAKEN"
proof (induction rs arbitrary: i rule: rev_induct)
  case Nil
  then show ?case by (simp add: bhr_new_def)
next
  case (snoc r rs)
  have mask: "register_mask (bhr_new b) = init_register_mask b" by (simp add: bhr_new_def)
  show ?case
    using snoc.IH [of "i - 1"]
    by (cases i) (auto simp: bit_bhr_update mask bit_init_register_mask split: if_splits)
qed

section \<open>Reachable predictors\<close>

inductive bp_reachable :: "bool \<Rightarrow> PredictorType \<Rightarrow> PredictorState \<Rightarrow> u8 \<Rightarrow> u8 \<Rightarrow> u8 \<Rightarrow> BranchPredictor \<Rightarrow> bool"
  for en type initial btb_bits bhr_bits addr_bits where
  bp_start: "branch_predictor_new en type initial btb_bits bhr_bits addr_bits = Some (Inr b) \<Longrightarrow>
     bp_reachable en type initial btb_bits bhr_bits addr_bits b"
| bp_updated: "bp_reachable en type initial btb_bits bhr_bits addr_bits b \<Longrightarrow>
     bp_reachable en type initial btb_bits bhr_bits addr_bits (bp_update a target branch_type result b)"
| bp_mispredicted: "bp_reachable en type initial btb_bits bhr_bits addr_bits b \<Longrightarrow>
     bp_reachable en type initial btb_bits bhr_bits addr_bits (increment_mispredictions b)"
| bp_cleared: "bp_reachable en type initial btb_bits bhr_bits addr_bits b \<Longrightarrow> bp_clear b = Some b' \<Longrightarrow>
     bp_reachable en type initial btb_bits bhr_bits addr_bits b'"
| bp_flushed: "bp_reachable en type initial btb_bits bhr_bits addr_bits b \<Longrightarrow> bp_flush b = Some b' \<Longrightarrow>
     bp_reachable en type initial btb_bits bhr_bits addr_bits b'"

fun state_fits :: "PredictorType \<Rightarrow> PredictorState \<Rightarrow> bool" where
  "state_fits SMITH_1_BIT s = True"
| "state_fits SMITH_2_BIT s = (s \<in> {STRONGLY_NOT_TAKEN, WEAKLY_NOT_TAKEN, WEAKLY_TAKEN, STRONGLY_TAKEN})"
| "state_fits SMITH_2_BIT_HYSTERESIS s = (s \<in> {STRONGLY_NOT_TAKEN, WEAKLY_NOT_TAKEN, WEAKLY_TAKEN, STRONGLY_TAKEN})"
| "state_fits _ s = True"

text \<open>
  The invariant of the tables: their sizes are those of the constructor, the history register
  has no bits outside its mask, and the rows hold states of the automaton of the type when the
  initial state is one.
\<close>

definition pred_ok :: "PredictorType \<Rightarrow> PredictorState \<Rightarrow> nat \<Rightarrow> nat \<Rightarrow> Predictor \<Rightarrow> bool" where
  "pred_ok type initial n m p \<longleftrightarrow> predictor_type p = type \<and> unat (number_of_bht_addr_bits p) = n \<and>
     length (bht p) = 2 ^ m \<and> predictor_initial_state p = initial \<and>
     (state_fits type initial \<longrightarrow> (\<forall>e \<in> set (bht p). state_fits type (bht_state e)))"

definition btb_ok :: "u8 \<Rightarrow> BranchTargetBuffer \<Rightarrow> bool" where
  "btb_ok n t \<longleftrightarrow> btb_number_of_bits t = init_number_of_bits 8 n \<and> length (btb_rows t) = 2 ^ unat n"

definition bhr_ok :: "u8 \<Rightarrow> BranchHistoryRegister \<Rightarrow> bool" where
  "bhr_ok n h \<longleftrightarrow> register_mask h = init_register_mask n \<and> (\<forall>i. bit (bhr_value h) i \<longrightarrow> bit (register_mask h) i)"

named_theorems bp_inv \<open>the invariant of the branch predictor, component by component\<close>

lemma bhr_ok_new [bp_inv]: "bhr_ok n (bhr_new n)"
  by (simp add: bhr_ok_def bhr_new_def)

lemma bhr_ok_update [bp_inv]: "bhr_ok n h \<Longrightarrow> bhr_ok n (bhr_update r h)"
  by (simp add: bhr_ok_def bit_bhr_update)

lemma bhr_ok_clear [bp_inv]: "bhr_ok n h \<Longrightarrow> bhr_ok n (bhr_clear h)"
  by (simp add: bhr_ok_def)

lemma btb_ok_new [bp_inv]: "btb_ok n (btb_new n)"
  by (simp add: btb_ok_def btb_new_def bp_limits)

lemma btb_ok_update [bp_inv]: "btb_ok n t \<Longrightarrow> btb_ok n (btb_update a target ty t)"
  by (simp add: btb_ok_def btb_update_def Let_def)

lemma btb_ok_clear [bp_inv]: "btb_clear t = Some t' \<Longrightarrow> btb_ok n t \<Longrightarrow> btb_ok n t'"
  by (auto simp: btb_ok_def btb_clear_def for_u16_at_eq split: if_splits)

lemma pred_ok_clear_state [bp_inv]: "clear_bht_state p = Some p' \<Longrightarrow> pred_ok type ini n m p \<Longrightarrow> pred_ok type ini n m p'"
  by (auto simp: pred_ok_def clear_bht_state_def for_u16_at_eq split: if_splits)

lemma pred_ok_clear_bht_stats [bp_inv]: "clear_bht_stats p = Some p' \<Longrightarrow> pred_ok type ini n m p \<Longrightarrow> pred_ok type ini n m p'"
  by (auto simp: pred_ok_def clear_bht_stats_def for_u16_at_eq split: if_splits)

lemma pred_ok_clear [bp_inv]: "pred_clear p = Some p' \<Longrightarrow> pred_ok type ini n m p \<Longrightarrow> pred_ok type ini n m p'"
  unfolding pred_clear_def bind_eq_Some_conv
  by (elim exE conjE) (erule pred_ok_clear_state, erule pred_ok_clear_bht_stats, simp add: pred_ok_def clear_stats_def)

lemma pred_ok_flush [bp_inv]: "pred_flush p = Some p' \<Longrightarrow> pred_ok type ini n m p \<Longrightarrow> pred_ok type ini n m p'"
  unfolding pred_flush_def by (rule pred_ok_clear_state)

lemma pred_ok_update_stats: "pred_ok type ini n m p \<Longrightarrow> pred_ok type ini n m (pred_update_stats ok p)"
  by (simp add: pred_ok_def pred_update_stats_def)

lemma pred_ok_update_row:
  assumes "pred_ok type ini n m p" "i < length (bht p)" "state_fits type (bht_state (bht p ! i)) \<Longrightarrow> state_fits type (bht_state e)"
  shows "pred_ok type ini n m (p\<lparr>bht := (bht p)[i := e]\<rparr>)"
  using assms by (auto simp: pred_ok_def dest!: subsetD [OF set_update_subset_insert])

lemma pred_ok_update_bht_stats: "pred_ok type ini n m p \<Longrightarrow> pred_ok type ini n m (update_bht_stats i ok p)"
  unfolding update_bht_stats_def by (auto intro!: pred_ok_update_row)

lemma update_bht_stats_simps [simp]:
  "length (bht (update_bht_stats i ok p)) = length (bht p)"
  "bht (pred_update_stats ok p) = bht p"
  by (simp_all add: update_bht_stats_def pred_update_stats_def)

lemma pred_ok_smith_update:
  assumes "pred_ok type ini n m p" "\<And>s. state_fits type s \<Longrightarrow> state_fits type (next r s)"
  shows "pred_ok type ini n m (smith_update next v a r p)"
proof (cases "unat (calculate_bht_index p v a) < length (bht p)")
  case True
  define i where "i = calculate_bht_index p v a"
  define q where "q = pred_update_stats (r = convert_state_to_prediction
      (bht_state (bht (update_bht_stats i (r = convert_state_to_prediction (bht_state (bht p ! unat i))) p) ! unat i)))
    (update_bht_stats i (r = convert_state_to_prediction (bht_state (bht p ! unat i))) p)"
  have "smith_update next v a r p =
      q\<lparr>bht := (bht q)[unat i := (bht q ! unat i)\<lparr>bht_state := next r (bht_state (bht q ! unat i))\<rparr>]\<rparr>"
    using True unfolding smith_update_def Let_def q_def i_def by (simp add: linorder_not_le)
  moreover have "pred_ok type ini n m q"
    unfolding q_def by (intro pred_ok_update_stats pred_ok_update_bht_stats assms)
  moreover have "unat i < length (bht q)" using True by (simp add: q_def i_def)
  ultimately show ?thesis using assms(2) by (simp add: pred_ok_update_row)
next
  case False
  then show ?thesis using assms(1) by (simp add: smith_update_def Let_def)
qed

lemma smith_next_fits:
  "state_fits SMITH_1_BIT s \<Longrightarrow> state_fits SMITH_1_BIT (smith1_next r s)"
  "state_fits SMITH_2_BIT s \<Longrightarrow> state_fits SMITH_2_BIT (smith2_next r s)"
  "state_fits SMITH_2_BIT_HYSTERESIS s \<Longrightarrow> state_fits SMITH_2_BIT_HYSTERESIS (smith2_hysteresis_next r s)"
  by (cases r; cases s; simp)+

lemma pred_ok_update [bp_inv]:
  assumes "pred_ok type ini n m p" shows "pred_ok type ini n m (pred_update v a target r p)"
proof -
  have "predictor_type p = type" using assms by (simp add: pred_ok_def)
  then show ?thesis
    using assms unfolding pred_update_def by (cases type) (auto intro!: pred_ok_update_stats pred_ok_smith_update smith_next_fits)
qed

definition bht_bits_of :: "PredictorType \<Rightarrow> u8 \<Rightarrow> u8 \<Rightarrow> nat" where
  "bht_bits_of type bhr_bits addr_bits =
     (if is_predictor_type_dynamic type then min (unat bhr_bits) 8 + min (unat addr_bits) 8 else 0)"

definition bp_ok :: "bool \<Rightarrow> PredictorType \<Rightarrow> PredictorState \<Rightarrow> u8 \<Rightarrow> u8 \<Rightarrow> u8 \<Rightarrow> BranchPredictor \<Rightarrow> bool" where
  "bp_ok en type initial btb_bits bhr_bits addr_bits b \<longleftrightarrow> bp_enabled b = en \<and>
     btb_ok btb_bits (bp_btb b) \<and> bhr_ok bhr_bits (bp_bhr b) \<and>
     pred_ok type (if is_predictor_type_dynamic type then initial else PS_UNDEFINED)
       (if is_predictor_type_dynamic type then min (unat addr_bits) 8 else 0)
       (bht_bits_of type bhr_bits addr_bits) (predictor b)"

lemma unat_init_number_of_bits: "unat (init_number_of_bits 8 n) = min (unat n) 8"
  by (auto simp: init_number_of_bits_def min_def word_less_nat_alt)

lemma bp_ok_new:
  assumes "branch_predictor_new en type initial btb_bits bhr_bits addr_bits = Some (Inr b)"
  shows "bp_ok en type initial btb_bits bhr_bits addr_bits b"
  using assms
  by (auto simp: bp_ok_def branch_predictor_new_def Let_def Predictor_new_eq pred_ok_def bht_bits_of_def bp_limits
        unat_init_number_of_bits init_number_of_bht_bits_eq intro!: btb_ok_new bhr_ok_new split: if_splits)

lemma bp_reachable_ok:
  "bp_reachable en type initial btb_bits bhr_bits addr_bits b \<Longrightarrow> bp_ok en type initial btb_bits bhr_bits addr_bits b"
proof (induction rule: bp_reachable.induct)
  case (bp_start b)
  then show ?case by (rule bp_ok_new)
next
  case (bp_updated b a target branch_type result)
  then show ?case
    by (simp add: bp_ok_def bp_update_def increment_jumps_def Let_def bp_inv)
next
  case (bp_mispredicted b)
  then show ?case by (simp add: bp_ok_def increment_mispredictions_def)
next
  case (bp_cleared b b')
  then show ?case
    by (auto simp: bp_ok_def bp_clear_def Let_def bind_eq_Some_conv intro: bp_inv)
next
  case (bp_flushed b b')
  then show ?case
    by (auto simp: bp_ok_def bp_flush_def Let_def bind_eq_Some_conv intro: bp_inv)
qed

section \<open>Indices\<close>

lemma unat_index_less:
  assumes "n \<le> 8"
  shows "unat ((w :: u16) AND (push_bit n 1 - 1)) < 2 ^ n"
proof -
  have "w AND (push_bit n 1 - 1) = take_bit n w"
    by (simp add: take_bit_eq_mask mask_eq_exp_minus_1 push_bit_eq_mult)
  then show ?thesis by (simp add: unsigned_take_bit_eq take_bit_nat_less_exp)
qed

lemma calculate_index_less:
  assumes "btb_ok n t" shows "unat (calculate_index t a) < length (btb_rows t)"
proof -
  have "unat (calculate_index t a) < 2 ^ min (unat n) 8"
    using assms unat_index_less [of "min (unat n) 8"]
    by (simp add: calculate_index_def btb_ok_def unat_init_number_of_bits)
  also have "\<dots> \<le> length (btb_rows t)" using assms by (simp add: btb_ok_def)
  finally show ?thesis .
qed

lemma unat_lessI_bits:
  assumes "\<And>i. bit (w :: u16) i \<Longrightarrow> i < n"
  shows "unat w < 2 ^ n"
proof -
  have "take_bit n w = w" using assms by (auto simp: bit_eq_iff bit_simps)
  then have "unat w = take_bit n (unat w)" by (metis unsigned_take_bit_eq)
  then show ?thesis by (metis take_bit_nat_less_exp)
qed

lemma calculate_bht_index_less:
  assumes "unat (number_of_bht_addr_bits p) = n" "n \<le> 8" "\<And>i. bit v i \<Longrightarrow> i < k"
  shows "unat (calculate_bht_index p v a) < 2 ^ (k + n)"
proof (rule unat_lessI_bits)
  fix i assume "bit (calculate_bht_index p v a) i"
  then consider "bit (push_bit n v) i" | "bit (ucast (drop_bit 2 a) AND (push_bit n 1 - 1 :: u16)) i"
    using assms(1) unfolding calculate_bht_index_def Let_def by (auto simp only: bit_or_iff)
  then show "i < k + n"
  proof cases
    case 1
    then have "n \<le> i" "bit v (i - n)" by (simp_all only: bit_push_bit_iff)
    then show ?thesis using assms(3) by fastforce
  next
    case 2
    then have "bit (mask n :: u16) i"
      by (simp only: bit_and_iff mask_eq_exp_minus_1 push_bit_eq_mult mult_1)
    then show ?thesis by (simp add: bit_simps)
  qed
qed

text \<open>
  With fewer than 8 bits of history, whatever the predictor has been through, the
  rows it reads and writes are inside its two tables, for every instruction address: the
  guards against invalid indices never take effect.
\<close>

theorem predictor_indices_in_tables:
  assumes "bp_reachable en type initial btb_bits bhr_bits addr_bits b"
    and "is_predictor_type_dynamic type" "bhr_bits < 8"
  shows "unat (calculate_index (bp_btb b) a) < length (btb_rows (bp_btb b)) \<and>
    unat (calculate_bht_index (predictor b) (bhr_value (bp_bhr b)) a) < length (bht (predictor b)) \<and>
    length (bht (predictor b)) = 2 ^ (unat bhr_bits + min (unat addr_bits) 8)"
proof -
  note ok = bp_reachable_ok [OF assms(1), unfolded bp_ok_def]
  have n: "unat bhr_bits < 8" using assms(3) by (simp add: word_less_nat_alt)
  then have len: "length (bht (predictor b)) = 2 ^ (unat bhr_bits + min (unat addr_bits) 8)"
    using ok assms(2) by (simp add: pred_ok_def bht_bits_of_def)
  have "\<And>i. bit (bhr_value (bp_bhr b)) i \<Longrightarrow> i < unat bhr_bits"
    using ok assms(3) by (auto simp: bhr_ok_def bit_init_register_mask)
  then have "unat (calculate_bht_index (predictor b) (bhr_value (bp_bhr b)) a) < length (bht (predictor b))"
    using ok assms(2) calculate_bht_index_less [of "predictor b" "min (unat addr_bits) 8" _ "unat bhr_bits" a]
    unfolding len by (simp add: pred_ok_def)
  moreover have "btb_ok btb_bits (bp_btb b)" using ok by blast
  ultimately show ?thesis using len calculate_index_less by blast
qed

theorem predictor_indices_in_tables_witness:
  "unat (calculate_bht_index (predictor (bp_update 0x200 0x100 BT_BRANCH BR_TAKEN
      (case branch_predictor_new True SMITH_2_BIT WEAKLY_NOT_TAKEN 2 3 2 of Some (Inr b) \<Rightarrow> b)))
     (bhr_value (bp_bhr (bp_update 0x200 0x100 BT_BRANCH BR_TAKEN
      (case branch_predictor_new True SMITH_2_BIT WEAKLY_NOT_TAKEN 2 3 2 of Some (Inr b) \<Rightarrow> b)))) 0x200) <
   length (bht (predictor (bp_update 0x200 0x100 BT_BRANCH BR_TAKEN
      (case branch_predictor_new True SMITH_2_BIT WEAKLY_NOT_TAKEN 2 3 2 of Some (Inr b) \<Rightarrow> b))))"
proof -
  have "\<exists>b. branch_predictor_new True SMITH_2_BIT WEAKLY_NOT_TAKEN 2 3 2 = Some (Inr b)"
    by (simp add: branch_predictor_new_def Predictor_new_eq init_number_of_bht_bits_eq Let_def)
  then obtain b where b: "branch_predictor_new True SMITH_2_BIT WEAKLY_NOT_TAKEN 2 3 2 = Some (Inr b)" ..
  show ?thesis
    using predictor_indices_in_tables [OF bp_updated [OF bp_start [OF b], of "0x200" "0x100" BT_BRANCH BR_TAKEN], of "0x200"]
    unfolding b by simp
qed

section \<open>Learning\<close>

lemma get_entry_update:
  assumes "btb_ok n t"
  shows "get_entry (btb_update a target ty t) a' =
    (if calculate_index t a' = calculate_index t a
     then \<lparr>entry_valid = True, btb_instruction_address = a, btb_target_address = target, btb_branch_type = ty\<rparr>
     else get_entry t a')"
proof -
  have "calculate_index (btb_update a target ty t) a' = calculate_index t a'"
    by (simp add: calculate_index_def btb_update_def Let_def)
  then show ?thesis
    using calculate_index_less [OF assms, of a] calculate_index_less [OF assms, of a']
    by (auto simp: get_entry_def btb_update_def Let_def nth_list_update word_unat_eq_iff)
qed

fun smith_next :: "PredictorType \<Rightarrow> BranchResult \<Rightarrow> PredictorState \<Rightarrow> PredictorState" where
  "smith_next SMITH_1_BIT = smith1_next"
| "smith_next SMITH_2_BIT = smith2_next"
| "smith_next _ = smith2_hysteresis_next"

lemma smith_next_twice:
  assumes "state_fits type s" "is_predictor_type_dynamic type" "r \<noteq> BR_UNDEFINED"
  shows "convert_state_to_prediction (smith_next type r (smith_next type r s)) = r"
  using assms by (cases type; cases r; cases s; simp)

lemma pred_update_dynamic:
  assumes "is_predictor_type_dynamic (predictor_type p)"
  shows "pred_update v a target r p = smith_update (smith_next (predictor_type p)) v a r p"
  using assms by (cases "predictor_type p") (auto simp: pred_update_def)

lemma smith_update_row:
  assumes "unat (calculate_bht_index p v a) < length (bht p)"
  shows "bht_state (bht (smith_update next v a r p) ! unat (calculate_bht_index p v a)) =
    next r (bht_state (bht p ! unat (calculate_bht_index p v a)))"
  using assms by (simp add: smith_update_def Let_def update_bht_stats_def linorder_not_le)

lemma calculate_bht_index_cong:
  "number_of_bht_addr_bits p = number_of_bht_addr_bits q \<Longrightarrow> calculate_bht_index p = calculate_bht_index q"
  by (simp add: fun_eq_iff calculate_bht_index_def)

lemma pred_update_simps [simp]:
  "number_of_bht_addr_bits (pred_update v a target r p) = number_of_bht_addr_bits p"
  "predictor_type (pred_update v a target r p) = predictor_type p"
  "length (bht (pred_update v a target r p)) = length (bht p)"
  by (cases "predictor_type p"; simp add: pred_update_def pred_update_stats_def smith_update_def update_bht_stats_def Let_def)+

lemma pred_learns:
  assumes "pred_ok type ini n m p" "state_fits type ini" "is_predictor_type_dynamic type" "r \<noteq> BR_UNDEFINED"
    and "unat (calculate_bht_index p v a) < length (bht p)"
  shows "predict (pred_update v a target r (pred_update v a target r p)) v a target = r"
proof -
  define i where "i = unat (calculate_bht_index p v a)"
  define q where "q = pred_update v a target r p"
  have type: "predictor_type p = type" using assms(1) by (simp add: pred_ok_def)
  have idx: "calculate_bht_index q = calculate_bht_index p" "calculate_bht_index (pred_update v a target r q) = calculate_bht_index p"
    by (intro calculate_bht_index_cong; simp add: q_def)+
  have "bht_state (bht q ! i) = smith_next type r (bht_state (bht p ! i))"
    using assms(3,5) type smith_update_row [of p v a] pred_update_dynamic [of p] by (simp add: q_def i_def)
  moreover have "bht_state (bht (pred_update v a target r q) ! i) = smith_next type r (bht_state (bht q ! i))"
    using assms(3,5) type smith_update_row [of q v a] pred_update_dynamic [of q] idx by (simp add: q_def i_def)
  moreover have "state_fits type (bht_state (bht p ! i))"
    using assms by (simp add: pred_ok_def i_def)
  ultimately have "convert_state_to_prediction (bht_state (bht (pred_update v a target r q) ! i)) = r"
    using smith_next_twice assms(3,4) by simp
  moreover have "predict (pred_update v a target r q) v a target = smith_predict (pred_update v a target r q) v a"
    using assms(3) type by (cases type) (simp_all add: q_def predict_def)
  ultimately show ?thesis
    using assms(5) idx unfolding q_def [symmetric]
    by (simp add: smith_predict_def i_def Let_def linorder_not_le q_def)
qed

lemma bhr_value_0: "bhr_ok 0 h \<Longrightarrow> bhr_value h = 0"
  using bit_init_register_mask [of 0] by (auto simp: bhr_ok_def intro!: bit_word_eqI)

lemma bp_update_simps:
  assumes "bp_enabled b"
  shows "bp_enabled (bp_update a target ty r b)"
    "bp_btb (bp_update a target ty r b) = btb_update a target ty (bp_btb b)"
    "bp_bhr (bp_update a target ty r b) = bhr_update r (bp_bhr b)"
    "predictor (bp_update a target ty r b) =
       (if ty = BT_BRANCH then pred_update (bhr_value (bp_bhr b)) a target r (predictor b) else predictor b)"
  using assms by (simp_all add: bp_update_def increment_jumps_def Let_def)

text \<open>
  The predictor learns.  A jump is predicted to its target as soon as it was executed
  once; a conditional branch of a dynamic predictor without history is predicted right when it
  went the same way twice in a row, whatever happened before.
\<close>

theorem predictor_learns:
  assumes "bp_reachable True type initial btb_bits 0 addr_bits b"
    and "is_predictor_type_dynamic type" "state_fits type initial" "r \<noteq> BR_UNDEFINED"
  shows "predict_next_pc_address (bp_update a target BT_JUMP r b) a = target \<and>
    predict_next_pc_address (bp_update a target BT_BRANCH r (bp_update a target BT_BRANCH r b)) a =
      (if r = BR_TAKEN then target else a + 4)"
proof -
  note ok = bp_reachable_ok [OF assms(1), unfolded bp_ok_def]
  then have en: "bp_enabled b" and btb: "btb_ok btb_bits (bp_btb b)" and h: "bhr_ok 0 (bp_bhr b)" by simp_all
  have pred: "pred_ok type initial (min (unat addr_bits) 8) (min (unat addr_bits) 8) (predictor b)"
    using ok assms(2) by (simp add: bht_bits_of_def)
  then have "unat (calculate_bht_index (predictor b) 0 a) < length (bht (predictor b))"
    using calculate_bht_index_less [of "predictor b" "min (unat addr_bits) 8" 0 0 a] by (simp add: pred_ok_def)
  then have learn: "predict (pred_update 0 a target r (pred_update 0 a target r (predictor b))) 0 a target = r"
    using pred_learns [OF pred assms(3,2,4)] by blast
  have "bhr_value (bhr_update r (bp_bhr b)) = 0" "bhr_value (bhr_update r (bhr_update r (bp_bhr b))) = 0"
    using h by (simp_all add: bhr_value_0 bp_inv)
  then show ?thesis
    using en btb learn bhr_value_0 [OF h]
    by (simp add: predict_next_pc_address_def bp_update_simps Let_def get_entry_update [of btb_bits] btb_ok_update)
qed

theorem predictor_learns_witness:
  "predict_next_pc_address (bp_update 0x204 0x100 BT_BRANCH BR_TAKEN (bp_update 0x204 0x100 BT_BRANCH BR_TAKEN
      (case branch_predictor_new True SMITH_2_BIT STRONGLY_NOT_TAKEN 2 0 2 of Some (Inr b) \<Rightarrow> b))) 0x204 = 0x100"
proof -
  have "\<exists>b. branch_predictor_new True SMITH_2_BIT STRONGLY_NOT_TAKEN 2 0 2 = Some (Inr b)"
    by (simp add: branch_predictor_new_def Predictor_new_eq init_number_of_bht_bits_eq Let_def)
  then obtain b where b: "branch_predictor_new True SMITH_2_BIT STRONGLY_NOT_TAKEN 2 0 2 = Some (Inr b)" ..
  show ?thesis
    using predictor_learns [OF bp_start [OF b], of BR_TAKEN "0x204" "0x100"] unfolding b by simp
qed

end
