(* ===== verification/Pipeline.thy ===== *)
theory Pipeline
  imports Registers Instruction Control_State Predictor Frontend_Memory
begin

text \<open>
  The interstage registers of the pipeline (\<^verbatim>\<open>src/src/machine/pipeline.h\<close>), the address ranges
  of reservations (\<^verbatim>\<open>memory/address_range.h\<close>) and the state of a core
  (\<^verbatim>\<open>core/core_state.h\<close>, \<^verbatim>\<open>core.h\<close>).  The copies of the interstage registers that only the user
  interface shows (\<^verbatim>\<open>internal\<close>, \<^verbatim>\<open>result\<close>) are left out: the model has the \<^verbatim>\<open>final\<close> ones.
\<close>

section \<open>Interstage registers\<close>

definition NOP :: u32 where "NOP = 0x00000013"

datatype ForwardFrom = FORWARD_NONE | FORWARD_FROM_W | FORWARD_FROM_M

record PCInterstage =
  stop_if :: bool

definition pc_default :: PCInterstage where
  "pc_default = \<lparr>stop_if = False\<rparr>"

record FetchInterstage =
  fi_inst :: u32
  fi_inst_addr :: address
  fi_next_inst_addr :: address
  fi_predicted_next_inst_addr :: address
  fi_excause :: ExceptionCause
  fi_is_valid :: bool

definition fi_flush :: FetchInterstage where
  "fi_flush = \<lparr>fi_inst = NOP, fi_inst_addr = STAGEADDR_NONE, fi_next_inst_addr = 0,
     fi_predicted_next_inst_addr = 0, fi_excause = EXCAUSE_NONE, fi_is_valid = False\<rparr>"

record DecodeInterstage =
  di_inst :: u32
  di_inst_addr :: address
  di_next_inst_addr :: address
  di_predicted_next_inst_addr :: address
  di_val_rs :: register_value
  di_val_rs_orig :: register_value
  di_val_rt :: register_value
  di_val_rt_orig :: register_value
  di_immediate_val :: register_value
  di_csr_read_val :: register_value
  di_csr_address :: u16
  di_excause :: ExceptionCause
  di_ff_rs :: ForwardFrom
  di_ff_rt :: ForwardFrom
  di_alu_component :: AluComponent
  di_aluop :: AluCombinedOp
  di_memctl :: AccessControl
  di_num_rs :: RegisterId
  di_num_rt :: RegisterId
  di_num_rd :: RegisterId
  di_memread :: bool
  di_memwrite :: bool
  di_alusrc :: bool
  di_regwrite :: bool
  di_alu_req_rs :: bool
  di_alu_req_rt :: bool
  di_branch_bxx :: bool
  di_branch_jal :: bool
  di_branch_val :: bool
  di_branch_jalr :: bool
  di_stall :: bool
  di_is_valid :: bool
  di_w_operation :: bool
  di_alu_mod :: bool
  di_alu_pc :: bool
  di_csr :: bool
  di_csr_to_alu :: bool
  di_csr_write :: bool
  di_xret :: bool
  di_xret_privlev :: PrivilegeLevel
  di_insert_stall_before :: bool
  di_amo :: bool

definition di_flush :: DecodeInterstage where
  "di_flush = \<lparr>di_inst = NOP, di_inst_addr = STAGEADDR_NONE, di_next_inst_addr = 0,
     di_predicted_next_inst_addr = 0, di_val_rs = 0, di_val_rs_orig = 0, di_val_rt = 0, di_val_rt_orig = 0,
     di_immediate_val = 0, di_csr_read_val = 0, di_csr_address = 0, di_excause = EXCAUSE_NONE,
     di_ff_rs = FORWARD_NONE, di_ff_rt = FORWARD_NONE, di_alu_component = COMP_ALU,
     di_aluop = alu_op_code ALU_ADD, di_memctl = AC_NONE, di_num_rs = 0, di_num_rt = 0, di_num_rd = 0,
     di_memread = False, di_memwrite = False, di_alusrc = False, di_regwrite = False, di_alu_req_rs = False,
     di_alu_req_rt = False, di_branch_bxx = False, di_branch_jal = False, di_branch_val = False,
     di_branch_jalr = False, di_stall = False, di_is_valid = False, di_w_operation = False, di_alu_mod = False,
     di_alu_pc = False, di_csr = False, di_csr_to_alu = False, di_csr_write = False, di_xret = False,
     di_xret_privlev = UNPRIVILEGED, di_insert_stall_before = False, di_amo = False\<rparr>"

record ExecuteInterstage =
  xi_inst :: u32
  xi_inst_addr :: address
  xi_next_inst_addr :: address
  xi_predicted_next_inst_addr :: address
  xi_branch_jal_target :: address
  xi_val_rt :: register_value
  xi_alu_val :: register_value
  xi_immediate_val :: register_value
  xi_csr_read_val :: register_value
  xi_csr_address :: u16
  xi_excause :: ExceptionCause
  xi_memctl :: AccessControl
  xi_num_rd :: RegisterId
  xi_memread :: bool
  xi_memwrite :: bool
  xi_regwrite :: bool
  xi_is_valid :: bool
  xi_branch_bxx :: bool
  xi_branch_jal :: bool
  xi_branch_val :: bool
  xi_branch_jalr :: bool
  xi_alu_zero :: bool
  xi_csr :: bool
  xi_csr_write :: bool
  xi_xret :: bool
  xi_xret_privlev :: PrivilegeLevel
  xi_amo :: bool

definition xi_flush :: ExecuteInterstage where
  "xi_flush = \<lparr>xi_inst = NOP, xi_inst_addr = STAGEADDR_NONE, xi_next_inst_addr = 0,
     xi_predicted_next_inst_addr = 0, xi_branch_jal_target = 0, xi_val_rt = 0, xi_alu_val = 0,
     xi_immediate_val = 0, xi_csr_read_val = 0, xi_csr_address = 0, xi_excause = EXCAUSE_NONE,
     xi_memctl = AC_NONE, xi_num_rd = 0, xi_memread = False, xi_memwrite = False, xi_regwrite = False,
     xi_is_valid = False, xi_branch_bxx = False, xi_branch_jal = False, xi_branch_val = False,
     xi_branch_jalr = False, xi_alu_zero = False, xi_csr = False, xi_csr_write = False, xi_xret = False,
     xi_xret_privlev = UNPRIVILEGED, xi_amo = False\<rparr>"

record MemoryInterstage =
  mi_inst :: u32
  mi_inst_addr :: address
  mi_next_inst_addr :: address
  mi_predicted_next_inst_addr :: address
  mi_computed_next_inst_addr :: address
  mi_mem_addr :: address
  mi_towrite_val :: register_value
  mi_excause :: ExceptionCause
  mi_num_rd :: RegisterId
  mi_memtoreg :: bool
  mi_regwrite :: bool
  mi_is_valid :: bool
  mi_csr_written :: bool
  mi_xret_privlev :: PrivilegeLevel

definition mi_flush :: MemoryInterstage where
  "mi_flush = \<lparr>mi_inst = NOP, mi_inst_addr = STAGEADDR_NONE, mi_next_inst_addr = 0,
     mi_predicted_next_inst_addr = 0, mi_computed_next_inst_addr = 0, mi_mem_addr = 0, mi_towrite_val = 0,
     mi_excause = EXCAUSE_NONE, mi_num_rd = 0, mi_memtoreg = False, mi_regwrite = False,
     mi_is_valid = False, mi_csr_written = False, mi_xret_privlev = UNPRIVILEGED\<rparr>"

section \<open>Address ranges\<close>

record AddressRange =
  ar_first :: address
  ar_last :: address

definition ar_reset :: AddressRange where
  "ar_reset = \<lparr>ar_first = 1, ar_last = 0\<rparr>"

definition ar_is_empty :: "AddressRange \<Rightarrow> bool" where
  "ar_is_empty r = (ar_first r > ar_last r)"

definition ar_eq :: "AddressRange \<Rightarrow> AddressRange \<Rightarrow> bool" where
  "ar_eq r s = (ar_first r = ar_first s \<and> ar_last r = ar_last s \<or> ar_is_empty r \<and> ar_is_empty s)"

definition ar_within :: "AddressRange \<Rightarrow> AddressRange \<Rightarrow> bool" where
  "ar_within r s = (ar_first r \<ge> ar_first s \<and> ar_last r \<le> ar_last s)"

definition ar_contains :: "AddressRange \<Rightarrow> AddressRange \<Rightarrow> bool" where
  "ar_contains r s = (ar_first r \<le> ar_first s \<and> ar_last r \<ge> ar_last s)"

definition ar_overlaps :: "AddressRange \<Rightarrow> AddressRange \<Rightarrow> bool" where
  "ar_overlaps r s = (ar_first r \<le> ar_last s \<and> ar_last r \<ge> ar_first s \<and> \<not> ar_is_empty r \<and> \<not> ar_is_empty s)"

section \<open>The state of a core\<close>

text \<open>
  A core with what it borrows: the registers, the predictor, the control state (absent in the
  simplest machines) and the memories.  The data and the program memory are two ways into one
  memory system, so they share one state.  The privilege level and the address space identifier
  belong to \<^verbatim>\<open>CoreState\<close>, as do the reservation and the counters; \<^verbatim>\<open>prev_inst_addr\<close> is used by the
  single-cycle core only.
\<close>

record 'm Core =
  regs :: Registers
  core_predictor :: BranchPredictor
  mem :: 'm
  control_state :: "ControlState option"
  check_inst_flags_val :: u32
  check_inst_flags_mask :: u32
  stop_on_exception :: "ExceptionCause \<Rightarrow> bool"
  step_over_exception :: "ExceptionCause \<Rightarrow> bool"
  hw_breaks :: "address list"
  LoadReservedRange :: AddressRange
  stall_count :: u32
  cycle_count :: u32
  current_privilege_u :: PrivilegeLevel
  current_asid_u :: u32
  pc_if :: PCInterstage
  if_id :: FetchInterstage
  id_ex :: DecodeInterstage
  ex_mem :: ExecuteInterstage
  mem_wb :: MemoryInterstage
  prev_inst_addr :: address

text \<open>
  What does not change while a core runs: the word length, the byte order of the host, the two
  memories' operations, and the exception handlers, which are given the cause, the
  addresses of the exception and the core.  A handler is held by a pointer, which may be null (\<^term>\<open>None\<close>), also
  where one is registered for a cause.
\<close>

type_synonym 'm handler = "ExceptionCause \<Rightarrow> address \<Rightarrow> address \<Rightarrow> address \<Rightarrow> address \<Rightarrow> ('m Core, bool) action"

record 'm core_env =
  core_xlen :: Xlen
  host_endian :: Endian
  mem_data :: "'m frontend_ops"
  mem_program :: "'m frontend_ops"
  ex_handlers :: "ExceptionCause \<Rightarrow> 'm handler option option"
  ex_default_handler :: "'m handler option"

definition current_asid :: "'m Core \<Rightarrow> u16" where
  "current_asid c = ucast (current_asid_u c AND 0x1FF)"

definition set_current_asid :: "u16 \<Rightarrow> 'm Core \<Rightarrow> 'm Core" where
  "set_current_asid a c = c\<lparr>current_asid_u := ucast (a AND 0x1FF)\<rparr>"

definition make_access_mode :: "'m Core \<Rightarrow> AccessOp \<Rightarrow> AccessMode" where
  "make_access_mode c opkind = am_pack (current_asid c) (current_privilege_u c) opkind 0"

end
