(* ===== verification/Core.thy ===== *)
theory Core
  imports Pipeline
begin

text \<open>
  The processor core (\<^verbatim>\<open>src/src/machine/core.cpp\<close>): the five stages, the exception handling,
  the single-cycle core and the pipelined core with its hazard unit.  Every stage is one
  definition; what a stage changes besides the interstage registers (memory, predictor, control
  registers) is threaded through the state of the core, and a C++ exception that leaves a stage
  keeps what was changed before it.  The Qt signals are left out.
\<close>

section \<open>Threading the state\<close>

definition on_mem :: "('m, 'a) action \<Rightarrow> ('m Core, 'a) action" where
  "on_mem f = (\<lambda>c. case f (mem c) of (m, r) \<Rightarrow> (c\<lparr>mem := m\<rparr>, r))"

definition core_modify :: "('m Core \<Rightarrow> 'm Core) \<Rightarrow> ('m Core, unit) action" where
  "core_modify f = (\<lambda>c. (f c, Inr ()))"

definition core_get :: "('m Core \<Rightarrow> 'a) \<Rightarrow> ('m Core, 'a) action" where
  "core_get f = (\<lambda>c. (c, Inr (f c)))"

definition core_write_pc :: "address \<Rightarrow> ('m Core, unit) action" where
  "core_write_pc a = (\<lambda>c. case write_pc (regs c) a of Inl e \<Rightarrow> (c, Inl e) | Inr r \<Rightarrow> (c\<lparr>regs := r\<rparr>, Inr ()))"

text \<open>\<^verbatim>\<open>predictor->flush()\<close>, whose loops may not end for tables of 65536 rows and more.\<close>

definition core_flush_predictor :: "('m Core, unit) action" where
  "core_flush_predictor = (\<lambda>c. case bp_flush (core_predictor c) of
     None \<Rightarrow> (c, Inl NonTermination) | Some p \<Rightarrow> (c\<lparr>core_predictor := p\<rparr>, Inr ()))"

text \<open>\<^verbatim>\<open>try { f } catch (const SimulatorExceptionPageFault &e) { h(e.get_cause()) }\<close>\<close>

definition catch_page_fault :: "('s, 'a) action \<Rightarrow> (nat \<Rightarrow> 'a) \<Rightarrow> ('s, 'a) action" where
  "catch_page_fault f h = (\<lambda>s. case f s of (s', Inl (PageFault n)) \<Rightarrow> (s', Inr (h n)) | r \<Rightarrow> r)"

definition excause_list :: "ExceptionCause list" where
  "excause_list = [EXCAUSE_NONE, EXCAUSE_INSN_FAULT, EXCAUSE_INSN_ILLEGAL, EXCAUSE_BREAK,
     EXCAUSE_LOAD_MISALIGNED, EXCAUSE_LOAD_FAULT, EXCAUSE_STORE_MISALIGNED, EXCAUSE_STORE_FAULT,
     EXCAUSE_ECALL_U, EXCAUSE_ECALL_S, EXCAUSE_RESERVED_10, EXCAUSE_ECALL_M,
     EXCAUSE_INSN_PAGE_FAULT, EXCAUSE_LOAD_PAGE_FAULT, EXCAUSE_RESERVED_14,
     EXCAUSE_STORE_PAGE_FAULT, EXCAUSE_HWBREAK, EXCAUSE_ECALL_ANY, EXCAUSE_INT_M, EXCAUSE_INT_S]"

definition excause_of_code :: "nat \<Rightarrow> ExceptionCause" where
  "excause_of_code n = (case find (\<lambda>e. excause_code e = n) excause_list of Some e \<Rightarrow> e | None \<Rightarrow> EXCAUSE_NONE)"

section \<open>Configuration and accessors\<close>

text \<open>\<^verbatim>\<open>ConfigIsaWord\<close> (\<^verbatim>\<open>config_isa.h\<close>): one bit for each letter.\<close>

definition isa_by_char :: "char \<Rightarrow> u64" where
  "isa_by_char ch =
     (let n = (of_char ch :: nat) in
      push_bit (if of_char CHR ''A'' \<le> n \<and> n \<le> of_char CHR ''Z'' then n - of_char CHR ''A''
        else if of_char CHR ''a'' \<le> n \<and> n \<le> of_char CHR ''z'' then n - of_char CHR ''a'' else 0) 1)"

definition isa_contains :: "u64 \<Rightarrow> char \<Rightarrow> bool" where
  "isa_contains isa_word ch = (isa_word AND isa_by_char ch \<noteq> 0)"

definition unsupported_inst_flags_to_check :: "Xlen \<Rightarrow> u64 \<Rightarrow> u32" where
  "unsupported_inst_flags_to_check xlen isa_word =
     (let flags = IMF_SUPPORTED;
          flags = (if xlen = XLEN_32 then flags OR IMF_RV64 else flags);
          flags = (if \<not> isa_contains isa_word CHR ''A'' then flags OR IMF_AMO else flags)
      in if \<not> isa_contains isa_word CHR ''M'' then flags OR IMF_MUL else flags)"

definition set_current_privilege :: "PrivilegeLevel \<Rightarrow> 'm Core \<Rightarrow> 'm Core" where
  "set_current_privilege privilege c =
     (let PRIV_BITS = IMF_PRIV_M OR IMF_PRIV_H OR IMF_PRIV_S;
          base_mask = check_inst_flags_mask c AND NOT PRIV_BITS;
          base_val = check_inst_flags_val c AND NOT PRIV_BITS;
          allowed = (if priv_code privilege \<ge> priv_code SUPERVISOR then IMF_PRIV_S else 0);
          allowed = (if priv_code privilege \<ge> priv_code HYPERVISOR then allowed OR IMF_PRIV_H else allowed);
          allowed = (if priv_code privilege \<ge> priv_code MACHINE then allowed OR IMF_PRIV_M else allowed);
          disallowed = PRIV_BITS AND NOT allowed
      in c\<lparr>current_privilege_u := privilege, check_inst_flags_mask := base_mask OR disallowed,
           check_inst_flags_val := base_val\<rparr>)"

definition insert_hwbreak :: "address \<Rightarrow> 'm Core \<Rightarrow> 'm Core" where
  "insert_hwbreak a c = c\<lparr>hw_breaks := List.insert a (hw_breaks c)\<rparr>"

definition remove_hwbreak :: "address \<Rightarrow> 'm Core \<Rightarrow> 'm Core" where
  "remove_hwbreak a c = c\<lparr>hw_breaks := filter (\<lambda>b. b \<noteq> a) (hw_breaks c)\<rparr>"

definition is_hwbreak :: "'m Core \<Rightarrow> address \<Rightarrow> bool" where
  "is_hwbreak c a = (a \<in> set (hw_breaks c))"

definition set_stop_on_exception :: "ExceptionCause \<Rightarrow> bool \<Rightarrow> 'm Core \<Rightarrow> 'm Core" where
  "set_stop_on_exception e v c = c\<lparr>stop_on_exception := (stop_on_exception c)(e := v)\<rparr>"

definition set_step_over_exception :: "ExceptionCause \<Rightarrow> bool \<Rightarrow> 'm Core \<Rightarrow> 'm Core" where
  "set_step_over_exception e v c = c\<lparr>step_over_exception := (step_over_exception c)(e := v)\<rparr>"

definition register_exception_handler :: "ExceptionCause \<Rightarrow> 'm handler option \<Rightarrow> 'm core_env \<Rightarrow> 'm core_env" where
  "register_exception_handler excause h env =
     (if excause = EXCAUSE_NONE then env\<lparr>ex_default_handler := h\<rparr>
      else env\<lparr>ex_handlers := (ex_handlers env)(excause \<mapsto> h)\<rparr>)"

definition stop_exception_handler :: "'m handler" where
  "stop_exception_handler excause inst_addr next_addr jump_branch_pc mem_ref_addr = act_return True"

definition get_xlen_from_reg :: "Xlen \<Rightarrow> register_value \<Rightarrow> u64" where
  "get_xlen_from_reg xlen reg = (case xlen of XLEN_32 \<Rightarrow> ucast (as_u32 reg) | XLEN_64 \<Rightarrow> as_u64 reg)"

section \<open>Exceptions\<close>

definition has_mem_ref :: "ExceptionCause \<Rightarrow> bool" where
  "has_mem_ref excause = (excause \<in> {EXCAUSE_INSN_PAGE_FAULT, EXCAUSE_LOAD_PAGE_FAULT, EXCAUSE_STORE_PAGE_FAULT,
     EXCAUSE_LOAD_MISALIGNED, EXCAUSE_STORE_MISALIGNED, EXCAUSE_INSN_FAULT, EXCAUSE_LOAD_FAULT, EXCAUSE_STORE_FAULT})"

text \<open>The middle part of \<^verbatim>\<open>handle_exception\<close>, from the reset of the reservation to the jump to the trap vector.\<close>

definition deliver_exception :: "ExceptionCause \<Rightarrow> address \<Rightarrow> address \<Rightarrow> ('m Core, unit) action" where
  "deliver_exception excause inst_addr mem_ref_addr = (\<lambda>c.
     let c = c\<lparr>LoadReservedRange := ar_reset\<rparr>;
         origin_priv = current_privilege_u c;
         is_interrupt = (excause = EXCAUSE_INT_M \<or> excause = EXCAUSE_INT_S);
         delegable = (origin_priv = SUPERVISOR \<or> origin_priv = UNPRIVILEGED)
     in case control_state c of
          None \<Rightarrow> if \<not> is_interrupt \<and> delegable then (c, Inl NullDereference) else (c, Inr ())
        | Some cs \<Rightarrow>
            let deliver_to_s = (if is_interrupt then excause = EXCAUSE_INT_S
                  else delegable \<and> read_internal cs CSR_MEDELEG AND push_bit (excause_code excause) 1 \<noteq> 0);
                target_priv = (if deliver_to_s then SUPERVISOR else MACHINE);
                sepc_id = (if deliver_to_s then CSR_SEPC else CSR_MEPC);
                tval_id = (if deliver_to_s then CSR_STVAL else CSR_MTVAL);
                tvec_id = (if deliver_to_s then CSR_STVEC else CSR_MTVEC);
                cs = write_internal sepc_id inst_addr cs;
                cs = write_internal tval_id (if has_mem_ref excause then mem_ref_addr else 0) cs;
                update_priv = (if deliver_to_s then SUPERVISOR else current_privilege_u c);
                cs = update_exception_cause excause update_priv cs
            in if read_internal cs tvec_id \<noteq> 0 \<and> \<not> step_over_exception c excause then
                 let cs = exception_initiate (current_privilege_u c) target_priv cs;
                     c = set_current_privilege target_priv (c\<lparr>control_state := Some cs\<rparr>)
                 in core_write_pc (exception_pc_address cs (current_privilege_u c)) c
               else (c\<lparr>control_state := Some cs\<rparr>, Inr ()))"

definition handle_exception ::
  "'m core_env \<Rightarrow> ExceptionCause \<Rightarrow> address \<Rightarrow> address \<Rightarrow> address \<Rightarrow> address \<Rightarrow> ('m Core, bool) action" where
  "handle_exception env excause inst_addr next_addr jump_branch_pc mem_ref_addr =
     (if excause = EXCAUSE_INSN_ILLEGAL then act_throw UnsupportedInstruction
      else
        act_bind (if excause = EXCAUSE_HWBREAK
                  then act_bind (core_write_pc inst_addr) (\<lambda>_. core_get (\<lambda>c. stop_on_exception c excause))
                  else act_return False) (\<lambda>stop.
        if stop then act_return True
        else
          act_bind (deliver_exception excause inst_addr mem_ref_addr) (\<lambda>_.
          let exhandler = (case ex_handlers env excause of Some h \<Rightarrow> h | None \<Rightarrow> ex_default_handler env)
          in case exhandler of
               None \<Rightarrow> act_return False
             | Some h \<Rightarrow> h excause inst_addr next_addr jump_branch_pc mem_ref_addr)))"

section \<open>Memory operations\<close>

definition amo32_operations :: "AccessControl \<Rightarrow> u32 \<Rightarrow> u32 \<Rightarrow> u32" where
  "amo32_operations memctl a b = (case memctl of
     AC_AMOSWAP32 \<Rightarrow> b
   | AC_AMOADD32 \<Rightarrow> a + b
   | AC_AMOXOR32 \<Rightarrow> a XOR b
   | AC_AMOAND32 \<Rightarrow> a AND b
   | AC_AMOOR32 \<Rightarrow> a OR b
   | AC_AMOMIN32 \<Rightarrow> (if a <s b then a else b)
   | AC_AMOMAX32 \<Rightarrow> (if a <s b then b else a)
   | AC_AMOMINU32 \<Rightarrow> (if a < b then a else b)
   | AC_AMOMAXU32 \<Rightarrow> (if a < b then b else a)
   | _ \<Rightarrow> 0)"

definition amo64_operations :: "AccessControl \<Rightarrow> u64 \<Rightarrow> u64 \<Rightarrow> u64" where
  "amo64_operations memctl a b = (case memctl of
     AC_AMOSWAP64 \<Rightarrow> b
   | AC_AMOADD64 \<Rightarrow> a + b
   | AC_AMOXOR64 \<Rightarrow> a XOR b
   | AC_AMOAND64 \<Rightarrow> a AND b
   | AC_AMOOR64 \<Rightarrow> a OR b
   | AC_AMOMIN64 \<Rightarrow> (if a <s b then a else b)
   | AC_AMOMAX64 \<Rightarrow> (if a <s b then b else a)
   | AC_AMOMINU64 \<Rightarrow> (if a < b then a else b)
   | AC_AMOMAXU64 \<Rightarrow> (if a < b then b else a)
   | _ \<Rightarrow> 0)"

definition reserve :: "address \<Rightarrow> address \<Rightarrow> ('m Core, unit) action" where
  "reserve lo hi = core_modify (\<lambda>c. c\<lparr>LoadReservedRange := \<lparr>ar_first = lo, ar_last = hi\<rparr>\<rparr>)"

definition reset_reservation :: "('m Core, unit) action" where
  "reset_reservation = core_modify (\<lambda>c. c\<lparr>LoadReservedRange := ar_reset\<rparr>)"

text \<open>
  The result is the new value of \<^verbatim>\<open>towrite_val\<close>; the exception cause is \<^verbatim>\<open>EXCAUSE_NONE\<close> on all
  paths.
\<close>

definition memory_special ::
  "'m core_env \<Rightarrow> AccessControl \<Rightarrow> bool \<Rightarrow> bool \<Rightarrow> register_value \<Rightarrow> register_value \<Rightarrow> AddressWithMode \<Rightarrow>
   ('m Core, register_value) action" where
  "memory_special env memctl memread memwrite towrite_val rt_value mem_addr =
     (let md = mem_data env; mp = mem_program env; h = host_endian env; a = aw_addr mem_addr in
      if memctl = AC_CACHE_OP then
        act_bind (on_mem (fm_sync md)) (\<lambda>_. act_bind (on_mem (fm_sync mp)) (\<lambda>_.
        act_bind core_flush_predictor (\<lambda>_. act_return towrite_val)))
      else if memctl = AC_LR32 then
        (if \<not> memread then act_return towrite_val
         else act_bind (reserve a (a + 3)) (\<lambda>_.
              act_bind (on_mem (read_u32 h md mem_addr AE_REGULAR)) (\<lambda>v. act_return (of_i32 v))))
      else if memctl = AC_SC32 then
        (if \<not> memwrite then act_return towrite_val
         else act_bind (core_get LoadReservedRange) (\<lambda>r.
              act_bind (if ar_contains r \<lparr>ar_first = a, ar_last = a + 3\<rparr>
                        then act_bind (on_mem (write_u32 h md mem_addr (as_u32 rt_value) AE_REGULAR)) (\<lambda>_. act_return 0)
                        else act_return 1) (\<lambda>v.
              act_bind reset_reservation (\<lambda>_. act_return v))))
      else if memctl = AC_LR64 then
        (if \<not> memread then act_return towrite_val
         else act_bind (reserve a (a + 7)) (\<lambda>_. on_mem (read_u64 h md mem_addr AE_REGULAR)))
      else if memctl = AC_SC64 then
        (if \<not> memwrite then act_return towrite_val
         else act_bind (core_get LoadReservedRange) (\<lambda>r.
              act_bind (if ar_contains r \<lparr>ar_first = a, ar_last = a + 7\<rparr>
                        then act_bind (on_mem (write_u64 h md mem_addr (as_u64 rt_value) AE_REGULAR)) (\<lambda>_. act_return 0)
                        else act_return 1) (\<lambda>v.
              act_bind reset_reservation (\<lambda>_. act_return v))))
      else if ac_between AC_AMOSWAP32 memctl AC_AMOMAXU32 then
        (if \<not> memread \<or> \<not> memwrite then act_return towrite_val
         else act_bind (on_mem (read_u32 h md mem_addr AE_REGULAR)) (\<lambda>fetched.
              act_bind (on_mem (write_u32 h md mem_addr
                (as_u32 (of_i32 (amo32_operations memctl fetched (as_u32 rt_value)))) AE_REGULAR)) (\<lambda>_.
              act_return (of_i32 fetched))))
      else if ac_between AC_AMOSWAP64 memctl AC_AMOMAXU64 then
        (if \<not> memread \<or> \<not> memwrite then act_return towrite_val
         else act_bind (on_mem (read_u64 h md mem_addr AE_REGULAR)) (\<lambda>fetched.
              act_bind (on_mem (write_u64 h md mem_addr
                (as_u64 (amo64_operations memctl fetched (as_u64 rt_value))) AE_REGULAR)) (\<lambda>_.
              act_return fetched)))
      else if memctl = AC_SFENCE_VMA then
        (let vaddr = as_u64 towrite_val; asid = as_u64 rt_value in
         act_bind (on_mem (fm_sfence_vma md vaddr asid)) (\<lambda>_.
         act_bind (on_mem (fm_sfence_vma mp vaddr asid)) (\<lambda>_.
         act_bind core_flush_predictor (\<lambda>_.
         act_bind reset_reservation (\<lambda>_. act_return towrite_val)))))
      else act_return towrite_val)"

section \<open>Stages\<close>

definition increment_counter :: "csr_id \<Rightarrow> 'm Core \<Rightarrow> 'm Core" where
  "increment_counter i c = c\<lparr>control_state := map_option (increment_internal i 1) (control_state c)\<rparr>"

text \<open>The rest of \<^verbatim>\<open>fetch\<close>, once the instruction word was read or the page fault caught.\<close>

definition fetch_finish :: "bool \<Rightarrow> address \<Rightarrow> u32 \<times> ExceptionCause \<Rightarrow> ('m Core, FetchInterstage) action" where
  "fetch_finish skip_break inst_addr = (\<lambda>(inst, excause) c.
     let excause = (if \<not> skip_break \<and> inst_addr \<in> set (hw_breaks c) then EXCAUSE_HWBREAK else excause);
         c = increment_counter CSR_MCYCLE c;
         excause = (case control_state c of
             Some cs \<Rightarrow> if excause = EXCAUSE_NONE then core_interrupt_request cs (current_privilege_u c) else excause
           | None \<Rightarrow> excause)
     in (c, Inr \<lparr>fi_inst = inst, fi_inst_addr = inst_addr,
           fi_next_inst_addr = inst_addr + ucast (inst_size inst),
           fi_predicted_next_inst_addr = predict_next_pc_address (core_predictor c) inst_addr,
           fi_excause = excause, fi_is_valid = True\<rparr>))"

definition fetch :: "'m core_env \<Rightarrow> PCInterstage \<Rightarrow> bool \<Rightarrow> ('m Core, FetchInterstage) action" where
  "fetch env pc skip_break = (\<lambda>c.
     if stop_if pc then (c, Inr fi_flush)
     else
       let inst_addr = read_pc (regs c);
           target = \<lparr>aw_addr = inst_addr, aw_mode = make_access_mode c OP_FETCH\<rparr>
       in act_bind (catch_page_fault
            (act_bind (on_mem (read_u32 (host_endian env) (mem_program env) target AE_REGULAR))
              (\<lambda>w. act_return (w, EXCAUSE_NONE)))
            (\<lambda>_. (NOP, EXCAUSE_INSN_PAGE_FAULT)))
          (fetch_finish skip_break inst_addr) c)"

definition xret_priv_of_flags :: "u32 \<Rightarrow> PrivilegeLevel" where
  "xret_priv_of_flags flags =
     (if has_flag flags IMF_XRET then
        (if has_flag flags IMF_PRIV_M then MACHINE
         else if has_flag flags IMF_PRIV_H then HYPERVISOR
         else if has_flag flags IMF_PRIV_S then SUPERVISOR else UNPRIVILEGED)
      else UNPRIVILEGED)"

definition environment_call_cause :: "PrivilegeLevel \<Rightarrow> ExceptionCause" where
  "environment_call_cause p = (case p of
     UNPRIVILEGED \<Rightarrow> EXCAUSE_ECALL_U | SUPERVISOR \<Rightarrow> EXCAUSE_ECALL_S | _ \<Rightarrow> EXCAUSE_ECALL_M)"

definition decode_excause :: "'m Core \<Rightarrow> u32 \<Rightarrow> ExceptionCause \<Rightarrow> ExceptionCause" where
  "decode_excause c flags excause =
     (let excause = (if (flags XOR check_inst_flags_val c) AND check_inst_flags_mask c \<noteq> 0
            then EXCAUSE_INSN_ILLEGAL else excause)
      in if has_flag flags IMF_EXCEPTION \<and> excause = EXCAUSE_NONE then
           (if has_flag flags IMF_EBREAK then EXCAUSE_BREAK
            else if has_flag flags IMF_ECALL then environment_call_cause (current_privilege_u c)
            else excause)
         else excause)"

definition decode :: "'m core_env \<Rightarrow> FetchInterstage \<Rightarrow> ('m Core, DecodeInterstage) action" where
  "decode env dt = (\<lambda>c.
     let inst = fi_inst dt;
         (flags, alu_op, mem_ctl) = flags_alu_op_mem_ctl inst;
         num_rs = (if has_flag flags (IMF_ALU_REQ_RS OR IMF_ALU_RS_ID) then unat (inst_rs inst) else 0);
         num_rt = (if has_flag flags IMF_ALU_REQ_RT then unat (inst_rt inst) else 0);
         num_rd = (if has_flag flags IMF_REGWRITE then unat (inst_rd inst) else 0);
         val_rs = (if has_flag flags IMF_ALU_RS_ID then of_nat num_rs else read_gp (regs c) num_rs);
         val_rt = read_gp (regs c) num_rt;
         csr_address = (if has_flag flags IMF_CSR then inst_csr_address inst else 0);
         csr_read_val = (case control_state c of
             Some cs \<Rightarrow> if has_flag flags IMF_CSR then csr_read cs csr_address (current_privilege_u c) else Inr 0
           | None \<Rightarrow> Inr 0);
         csr_write = (has_flag flags IMF_CSR \<and> (\<not> has_flag flags IMF_CSR_TO_ALU \<or> num_rs \<noteq> 0))
     in (c, res_bind csr_read_val (\<lambda>csr_read_val. Inr
          \<lparr>di_inst = inst, di_inst_addr = fi_inst_addr dt, di_next_inst_addr = fi_next_inst_addr dt,
           di_predicted_next_inst_addr = fi_predicted_next_inst_addr dt,
           di_val_rs = val_rs, di_val_rs_orig = val_rs, di_val_rt = val_rt, di_val_rt_orig = val_rt,
           di_immediate_val = of_i32 (inst_immediate inst), di_csr_read_val = csr_read_val,
           di_csr_address = csr_address, di_excause = decode_excause c flags (fi_excause dt),
           di_ff_rs = FORWARD_NONE, di_ff_rt = FORWARD_NONE,
           di_alu_component = (if has_flag flags IMF_AMO then COMP_PASS
              else if has_flag flags IMF_MUL then COMP_MUL else COMP_ALU),
           di_aluop = alu_op, di_memctl = mem_ctl, di_num_rs = num_rs, di_num_rt = num_rt, di_num_rd = num_rd,
           di_memread = has_flag flags IMF_MEMREAD, di_memwrite = has_flag flags IMF_MEMWRITE,
           di_alusrc = has_flag flags IMF_ALUSRC, di_regwrite = has_flag flags IMF_REGWRITE,
           di_alu_req_rs = has_flag flags IMF_ALU_REQ_RS, di_alu_req_rt = has_flag flags IMF_ALU_REQ_RT,
           di_branch_bxx = has_flag flags IMF_BRANCH, di_branch_jal = has_flag flags IMF_JUMP,
           di_branch_val = has_flag flags IMF_BJ_NOT, di_branch_jalr = has_flag flags IMF_BRANCH_JALR,
           di_stall = False, di_is_valid = fi_is_valid dt,
           di_w_operation = (core_xlen env \<noteq> XLEN_64 \<or> has_flag flags IMF_FORCE_W_OP),
           di_alu_mod = has_flag flags IMF_ALU_MOD, di_alu_pc = has_flag flags IMF_PC_TO_ALU,
           di_csr = has_flag flags IMF_CSR, di_csr_to_alu = has_flag flags IMF_CSR_TO_ALU,
           di_csr_write = csr_write, di_xret = has_flag flags IMF_XRET,
           di_xret_privlev = xret_priv_of_flags flags, di_insert_stall_before = has_flag flags IMF_CSR,
           di_amo = has_flag flags IMF_AMO\<rparr>)))"

definition execute :: "DecodeInterstage \<Rightarrow> ExecuteInterstage" where
  "execute dt =
     (let alu_fst = (if di_alu_pc dt then di_inst_addr dt else di_val_rs dt);
          alu_sec = (if di_csr_to_alu dt then di_csr_read_val dt
            else if di_alusrc dt then di_immediate_val dt else di_val_rt dt);
          alu_val = (if di_excause dt \<noteq> EXCAUSE_NONE then 0
            else alu_combined_operate (di_aluop dt) (di_alu_component dt) (di_w_operation dt) (di_alu_mod dt) alu_fst alu_sec)
      in \<lparr>xi_inst = di_inst dt, xi_inst_addr = di_inst_addr dt, xi_next_inst_addr = di_next_inst_addr dt,
          xi_predicted_next_inst_addr = di_predicted_next_inst_addr dt,
          xi_branch_jal_target = di_inst_addr dt + di_immediate_val dt, xi_val_rt = di_val_rt dt,
          xi_alu_val = alu_val, xi_immediate_val = di_immediate_val dt, xi_csr_read_val = di_csr_read_val dt,
          xi_csr_address = di_csr_address dt, xi_excause = di_excause dt, xi_memctl = di_memctl dt,
          xi_num_rd = di_num_rd dt, xi_memread = di_memread dt, xi_memwrite = di_memwrite dt,
          xi_regwrite = di_regwrite dt, xi_is_valid = di_is_valid dt, xi_branch_bxx = di_branch_bxx dt,
          xi_branch_jal = di_branch_jal dt, xi_branch_val = di_branch_val dt, xi_branch_jalr = di_branch_jalr dt,
          xi_alu_zero = (alu_val = 0), xi_csr = di_csr dt, xi_csr_write = di_csr_write dt, xi_xret = di_xret dt,
          xi_xret_privlev = di_xret_privlev dt, xi_amo = di_amo dt\<rparr>)"

text \<open>The access of the memory stage: the cause, whether memory was read, whether a register is written, and the value.\<close>

definition memory_access :: "'m core_env \<Rightarrow> ExecuteInterstage \<Rightarrow> AddressWithMode \<Rightarrow>
    ('m Core, ExceptionCause \<times> bool \<times> bool \<times> register_value) action" where
  "memory_access env dt mem_addr =
     (if xi_excause dt \<noteq> EXCAUSE_NONE then act_return (xi_excause dt, False, False, xi_alu_val dt)
      else
        catch_page_fault
          (act_bind
            (if is_special_access (xi_memctl dt) then
               memory_special env (xi_memctl dt) (xi_memread dt) (xi_memwrite dt) (xi_alu_val dt) (xi_val_rt dt) mem_addr
             else if is_regular_access (xi_memctl dt) then
               act_bind (if xi_memwrite dt
                 then on_mem (write_ctl (host_endian env) (mem_data env) (xi_memctl dt) mem_addr (xi_val_rt dt))
                 else act_return ()) (\<lambda>_.
               if xi_memread dt then on_mem (read_ctl (host_endian env) (mem_data env) (xi_memctl dt) mem_addr)
               else act_return (xi_alu_val dt))
             else act_return (xi_alu_val dt))
            (\<lambda>v. act_return (EXCAUSE_NONE, xi_memread dt, xi_regwrite dt, v)))
          (\<lambda>n. (excause_of_code n, False, False, 0)))"

definition branch_bxx_taken :: "ExecuteInterstage \<Rightarrow> bool" where
  "branch_bxx_taken dt = (xi_branch_bxx dt \<and> ((\<not> xi_branch_val dt) \<noteq> (\<not> xi_alu_zero dt)))"

definition compute_next_inst_addr :: "Xlen \<Rightarrow> ExecuteInterstage \<Rightarrow> bool \<Rightarrow> address" where
  "compute_next_inst_addr xlen exec branch_taken =
     (if branch_taken \<or> xi_branch_jal exec then xi_branch_jal_target exec
      else if xi_branch_jalr exec then get_xlen_from_reg xlen (xi_alu_val exec)
      else xi_next_inst_addr exec)"

definition memory_update_predictor :: "Xlen \<Rightarrow> ExecuteInterstage \<Rightarrow> 'm Core \<Rightarrow> 'm Core" where
  "memory_update_predictor xlen dt c =
     (let p = core_predictor c in
      c\<lparr>core_predictor :=
        (if xi_branch_jal dt then bp_update (xi_inst_addr dt) (xi_branch_jal_target dt) BT_JUMP BR_TAKEN p
         else if xi_branch_jalr dt then
           bp_update (xi_inst_addr dt) (get_xlen_from_reg xlen (xi_alu_val dt)) BT_JUMP BR_TAKEN p
         else if xi_branch_bxx dt then
           bp_update (xi_inst_addr dt) (xi_branch_jal_target dt) BT_BRANCH
             (if branch_bxx_taken dt then BR_TAKEN else BR_NOT_TAKEN) p
         else p)\<rparr>)"

text \<open>
  The control registers in the memory stage: the counter, the write of a CSR instruction and
  the return from a trap.  The result is the next instruction address and \<^verbatim>\<open>csr_written\<close>.
\<close>

definition memory_control :: "Xlen \<Rightarrow> ExecuteInterstage \<Rightarrow> address \<Rightarrow> ('m Core, address \<times> bool) action" where
  "memory_control xlen dt next_addr = (\<lambda>c.
     case control_state c of
       None \<Rightarrow> (c, Inr (next_addr, False))
     | Some cs \<Rightarrow>
         if xi_is_valid dt \<and> xi_excause dt = EXCAUSE_NONE then
           let cs = increment_internal CSR_MINSTRET 1 cs;
               (cs, r) = (if xi_csr_write dt
                 then csr_write (xi_csr_address dt) (xi_alu_val dt) (current_privilege_u c) cs else (cs, Inr ()));
               c = c\<lparr>control_state := Some cs\<rparr>
           in case r of
                Inl e \<Rightarrow> (c, Inl e)
              | Inr _ \<Rightarrow>
                  if xi_xret dt then
                    let (cs, restored) = exception_return (current_privilege_u c) (xi_xret_privlev dt) cs;
                        c = set_current_privilege restored (c\<lparr>control_state := Some cs\<rparr>);
                        epc_reg = (if xi_xret_privlev dt = MACHINE then CSR_MEPC else CSR_SEPC);
                        next_addr = (if xlen = XLEN_32 then ucast (as_u32 (read_internal cs epc_reg))
                          else as_u64 (read_internal cs epc_reg))
                    in (c\<lparr>LoadReservedRange := ar_reset\<rparr>, Inr (next_addr, True))
                  else (c, Inr (next_addr, xi_csr_write dt))
         else (c, Inr (next_addr, False)))"

definition count_misprediction :: "ExecuteInterstage \<Rightarrow> address \<Rightarrow> 'm Core \<Rightarrow> 'm Core" where
  "count_misprediction dt next_addr c =
     (if next_addr \<noteq> xi_predicted_next_inst_addr dt
      then c\<lparr>core_predictor := increment_mispredictions (core_predictor c)\<rparr> else c)"

text \<open>The rest of \<^verbatim>\<open>memory\<close>, once the access was done.\<close>

definition memory_finish :: "Xlen \<Rightarrow> ExecuteInterstage \<Rightarrow> address \<Rightarrow> ExceptionCause \<times> bool \<times> bool \<times> register_value \<Rightarrow>
    ('m Core, MemoryInterstage) action" where
  "memory_finish xlen dt mem_addr = (\<lambda>(excause, memread, regwrite, towrite_val).
     act_bind (core_modify (memory_update_predictor xlen dt)) (\<lambda>_.
     act_bind (memory_control xlen dt (compute_next_inst_addr xlen dt (branch_bxx_taken dt))) (\<lambda>(next_addr, csr_written).
     act_bind (core_modify (count_misprediction dt next_addr)) (\<lambda>_.
     act_return
       \<lparr>mi_inst = xi_inst dt, mi_inst_addr = xi_inst_addr dt, mi_next_inst_addr = xi_next_inst_addr dt,
        mi_predicted_next_inst_addr = xi_predicted_next_inst_addr dt, mi_computed_next_inst_addr = next_addr,
        mi_mem_addr = mem_addr,
        mi_towrite_val = (if xi_csr dt then xi_csr_read_val dt
          else if xi_branch_jalr dt \<or> xi_branch_jal dt then xi_next_inst_addr dt else towrite_val),
        mi_excause = excause, mi_num_rd = xi_num_rd dt, mi_memtoreg = memread, mi_regwrite = regwrite,
        mi_is_valid = xi_is_valid dt, mi_csr_written = csr_written, mi_xret_privlev = xi_xret_privlev dt\<rparr>))))"

definition memory_stage :: "'m core_env \<Rightarrow> ExecuteInterstage \<Rightarrow> ('m Core, MemoryInterstage) action" where
  "memory_stage env dt = (\<lambda>c.
     let opkind = (if xi_memwrite dt \<or> xi_amo dt then OP_WRITE else OP_READ);
         mem_addr = \<lparr>aw_addr = get_xlen_from_reg (core_xlen env) (xi_alu_val dt), aw_mode = make_access_mode c opkind\<rparr>
     in act_bind (memory_access env dt mem_addr) (memory_finish (core_xlen env) dt (aw_addr mem_addr)) c)"

definition writeback :: "MemoryInterstage \<Rightarrow> 'm Core \<Rightarrow> 'm Core" where
  "writeback dt c = (if mi_regwrite dt then c\<lparr>regs := write_gp (regs c) (mi_num_rd dt) (mi_towrite_val dt)\<rparr> else c)"

section \<open>The single-cycle core\<close>

definition single_do_step :: "'m core_env \<Rightarrow> bool \<Rightarrow> ('m Core, unit) action" where
  "single_do_step env skip_break =
     act_bind (core_get pc_if) (\<lambda>pc. act_bind (fetch env pc skip_break) (\<lambda>f.
     act_bind (core_modify (\<lambda>c. c\<lparr>if_id := f\<rparr>)) (\<lambda>_. act_bind (decode env f) (\<lambda>d.
     act_bind (core_modify (\<lambda>c. c\<lparr>id_ex := d, ex_mem := execute d\<rparr>)) (\<lambda>_.
     act_bind (memory_stage env (execute d)) (\<lambda>m.
     act_bind (core_modify (\<lambda>c. writeback m (c\<lparr>mem_wb := m\<rparr>))) (\<lambda>_.
     act_bind (core_write_pc (mi_computed_next_inst_addr m)) (\<lambda>_.
     if mi_excause m \<noteq> EXCAUSE_NONE then
       act_bind (core_get (\<lambda>c. (read_pc (regs c), prev_inst_addr c))) (\<lambda>(pc, prev).
       act_bind (handle_exception env (mi_excause m) (mi_inst_addr m) pc prev (mi_mem_addr m)) (\<lambda>_. act_return ()))
     else core_modify (\<lambda>c. c\<lparr>prev_inst_addr := mi_inst_addr m\<rparr>)))))))))"

definition pipeline_reset :: "'m Core \<Rightarrow> 'm Core" where
  "pipeline_reset c = c\<lparr>pc_if := pc_default, if_id := fi_flush, id_ex := di_flush, ex_mem := xi_flush, mem_wb := mi_flush\<rparr>"

definition single_do_reset :: "'m Core \<Rightarrow> 'm Core" where
  "single_do_reset c = (pipeline_reset c)\<lparr>prev_inst_addr := 0\<rparr>"

section \<open>The pipelined core\<close>

datatype HazardUnit = HU_NONE | HU_STALL | HU_STALL_FORWARD

text \<open>The template \<^verbatim>\<open>is_hazard_in_stage\<close> reads two fields of the interstage register.\<close>

definition is_hazard_in_stage :: "bool \<Rightarrow> RegisterId \<Rightarrow> DecodeInterstage \<Rightarrow> bool" where
  "is_hazard_in_stage regwrite num_rd d =
     (regwrite \<and> num_rd \<noteq> 0 \<and>
      (di_alu_req_rs d \<and> num_rd = di_num_rs d \<or> di_alu_req_rt d \<and> num_rd = di_num_rt d))"

definition forward_to :: "RegisterId \<Rightarrow> register_value \<Rightarrow> ForwardFrom \<Rightarrow> DecodeInterstage \<Rightarrow> DecodeInterstage" where
  "forward_to num_rd value source d =
     (let d = (if di_alu_req_rs d \<and> num_rd = di_num_rs d then d\<lparr>di_val_rs := value, di_ff_rs := source\<rparr> else d)
      in if di_alu_req_rt d \<and> num_rd = di_num_rt d then d\<lparr>di_val_rt := value, di_ff_rt := source\<rparr> else d)"

definition handle_data_hazards :: "HazardUnit \<Rightarrow> 'm Core \<Rightarrow> 'm Core \<times> bool" where
  "handle_data_hazards hu c =
     (let (c, stall) =
        (if is_hazard_in_stage (mi_regwrite (mem_wb c)) (mi_num_rd (mem_wb c)) (id_ex c) then
           (if hu = HU_STALL_FORWARD
            then (c\<lparr>id_ex := forward_to (mi_num_rd (mem_wb c)) (mi_towrite_val (mem_wb c)) FORWARD_FROM_W (id_ex c)\<rparr>, False)
            else (c, True))
         else (c, False))
      in if is_hazard_in_stage (xi_regwrite (ex_mem c)) (xi_num_rd (ex_mem c)) (id_ex c) then
           (if hu = HU_STALL_FORWARD then
              (if xi_memread (ex_mem c) then (c, True)
               else (c\<lparr>id_ex := forward_to (xi_num_rd (ex_mem c)) (xi_alu_val (ex_mem c)) FORWARD_FROM_M (id_ex c)\<rparr>, stall))
            else (c, True))
         else (c, stall))"

definition detect_mispredicted_jump :: "'m Core \<Rightarrow> bool" where
  "detect_mispredicted_jump c = (mi_computed_next_inst_addr (mem_wb c) \<noteq> mi_predicted_next_inst_addr (mem_wb c))"

definition is_stall_requested :: "'m Core \<Rightarrow> bool" where
  "is_stall_requested c = (di_insert_stall_before (id_ex c) \<and> xi_is_valid (ex_mem c))"

definition handle_stall :: "FetchInterstage \<Rightarrow> 'm Core \<Rightarrow> 'm Core" where
  "handle_stall saved_if_id c = c\<lparr>if_id := saved_if_id, id_ex := di_flush\<lparr>di_stall := True\<rparr>, stall_count := stall_count c + 1\<rparr>"

definition flush_and_continue_from_address :: "address \<Rightarrow> ('m Core, unit) action" where
  "flush_and_continue_from_address next_pc =
     act_bind (core_write_pc next_pc) (\<lambda>_.
     core_modify (\<lambda>c. c\<lparr>if_id := fi_flush, id_ex := di_flush, ex_mem := xi_flush\<rparr>))"

text \<open>The flushes behind an instruction with an exception; the result is \<^verbatim>\<open>exception_in_progress\<close>.\<close>

definition flush_behind_exception :: "'m Core \<Rightarrow> 'm Core \<times> bool" where
  "flush_behind_exception c =
     (let e = (mi_excause (mem_wb c) \<noteq> EXCAUSE_NONE);
          c = (if e then c\<lparr>ex_mem := xi_flush\<rparr> else c);
          e = (e \<or> xi_excause (ex_mem c) \<noteq> EXCAUSE_NONE);
          c = (if e then c\<lparr>id_ex := di_flush\<rparr> else c);
          e = (e \<or> di_excause (id_ex c) \<noteq> EXCAUSE_NONE);
          c = (if e then c\<lparr>if_id := fi_flush\<rparr> else c)
      in (c, e))"

definition pipelined_next :: "'m core_env \<Rightarrow> address \<Rightarrow> FetchInterstage \<Rightarrow> bool \<Rightarrow> bool \<Rightarrow> ('m Core, unit) action" where
  "pipelined_next env jump_branch_pc saved_if_id exception_in_progress stall = (\<lambda>c.
     let c = c\<lparr>pc_if := pc_default\<rparr>; m = mem_wb c in
     if mi_excause m \<noteq> EXCAUSE_NONE then
       act_bind (core_write_pc (mi_computed_next_inst_addr m)) (\<lambda>_.
       act_bind (handle_exception env (mi_excause m) (mi_inst_addr m) (mi_computed_next_inst_addr m) jump_branch_pc (mi_mem_addr m))
         (\<lambda>_. act_return ())) c
     else if detect_mispredicted_jump c \<or> mi_csr_written m then
       flush_and_continue_from_address (mi_computed_next_inst_addr m) c
     else if exception_in_progress then (c\<lparr>pc_if := \<lparr>stop_if = True\<rparr>\<rparr>, Inr ())
     else if stall \<or> is_stall_requested c then (handle_stall saved_if_id c, Inr ())
     else core_write_pc (fi_predicted_next_inst_addr (if_id c)) c)"

definition pipelined_do_step :: "'m core_env \<Rightarrow> HazardUnit \<Rightarrow> bool \<Rightarrow> ('m Core, unit) action" where
  "pipelined_do_step env hu skip_break = (\<lambda>c0.
     let jump_branch_pc = mi_inst_addr (mem_wb c0); saved_if_id = if_id c0 in
     act_bind (core_modify (writeback (mem_wb c0))) (\<lambda>_.
     act_bind (memory_stage env (ex_mem c0)) (\<lambda>m. act_bind (core_modify (\<lambda>c. c\<lparr>mem_wb := m\<rparr>)) (\<lambda>_.
     act_bind (core_modify (\<lambda>c. c\<lparr>ex_mem := execute (id_ex c)\<rparr>)) (\<lambda>_.
     act_bind (decode env (if_id c0)) (\<lambda>d. act_bind (core_modify (\<lambda>c. c\<lparr>id_ex := d\<rparr>)) (\<lambda>_.
     act_bind (fetch env (pc_if c0) skip_break) (\<lambda>f. act_bind (core_modify (\<lambda>c. c\<lparr>if_id := f\<rparr>)) (\<lambda>_ c.
     let (c, e) = flush_behind_exception c;
         (c, stall) = (if hu \<noteq> HU_NONE then handle_data_hazards hu c else (c, False))
     in pipelined_next env jump_branch_pc saved_if_id e stall c)))))))) c0)"

section \<open>Steps, reset and construction\<close>

definition core_step :: "(bool \<Rightarrow> ('m Core, unit) action) \<Rightarrow> bool \<Rightarrow> ('m Core, unit) action" where
  "core_step do_step skip_break = (\<lambda>c. do_step skip_break (c\<lparr>cycle_count := cycle_count c + 1\<rparr>))"

definition core_reset :: "('m Core \<Rightarrow> 'm Core) \<Rightarrow> 'm Core \<Rightarrow> 'm Core" where
  "core_reset do_reset c =
     (set_current_privilege MACHINE (do_reset (c\<lparr>cycle_count := 0, stall_count := 0\<rparr>)))\<lparr>LoadReservedRange := ar_reset\<rparr>"

definition core_new :: "Registers \<Rightarrow> BranchPredictor \<Rightarrow> 'm \<Rightarrow> ControlState option \<Rightarrow> Xlen \<Rightarrow> u64 \<Rightarrow> 'm Core" where
  "core_new r p m cs xlen isa_word =
     \<lparr>regs = r, core_predictor = p, mem = m, control_state = cs, check_inst_flags_val = IMF_SUPPORTED,
      check_inst_flags_mask = unsupported_inst_flags_to_check xlen isa_word,
      stop_on_exception = (\<lambda>_. True),
      step_over_exception = (\<lambda>_. True)(EXCAUSE_INT_M := False, EXCAUSE_INT_S := False),
      hw_breaks = [], LoadReservedRange = ar_reset, stall_count = 0, cycle_count = 0,
      current_privilege_u = MACHINE, current_asid_u = 0, pc_if = pc_default, if_id = fi_flush, id_ex = di_flush,
      ex_mem = xi_flush, mem_wb = mi_flush, prev_inst_addr = 0\<rparr>"

definition core_single_new :: "Registers \<Rightarrow> BranchPredictor \<Rightarrow> 'm \<Rightarrow> ControlState option \<Rightarrow> Xlen \<Rightarrow> u64 \<Rightarrow> 'm Core" where
  "core_single_new r p m cs xlen isa_word = core_reset single_do_reset (core_new r p m cs xlen isa_word)"

definition core_pipelined_new :: "Registers \<Rightarrow> BranchPredictor \<Rightarrow> 'm \<Rightarrow> ControlState option \<Rightarrow> Xlen \<Rightarrow> u64 \<Rightarrow> 'm Core" where
  "core_pipelined_new r p m cs xlen isa_word = core_reset pipeline_reset (core_new r p m cs xlen isa_word)"

end
