(* ===== verification/Action_Logic.thy ===== *)
theory Action_Logic
  imports Machine_Prelude
begin

text \<open>
  Invariants of state-changing code that may throw: \<^verbatim>\<open>act_ok P f Q\<close> says that \<^verbatim>\<open>f\<close> keeps \<^verbatim>\<open>P\<close>
  whether it returns or throws, and that what it returns satisfies \<^verbatim>\<open>Q\<close>.
\<close>

definition act_ok :: "('s \<Rightarrow> bool) \<Rightarrow> ('s, 'a) action \<Rightarrow> ('a \<Rightarrow> bool) \<Rightarrow> bool" where
  "act_ok P f Q \<longleftrightarrow> (\<forall>s. P s \<longrightarrow> P (fst (f s)) \<and> (\<forall>x. snd (f s) = Inr x \<longrightarrow> Q x))"

named_theorems act_intro \<open>rules for \<^verbatim>\<open>act_ok\<close>\<close>

lemma act_okI: "(\<And>s s' r. P s \<Longrightarrow> f s = (s', r) \<Longrightarrow> P s' \<and> (\<forall>x. r = Inr x \<longrightarrow> Q x)) \<Longrightarrow> act_ok P f Q"
  unfolding act_ok_def by (metis prod.collapse)

lemma act_okD: "act_ok P f Q \<Longrightarrow> P s \<Longrightarrow> f s = (s', r) \<Longrightarrow> P s'"
  by (metis act_ok_def fst_conv)

lemma act_ok_result: "act_ok P f Q \<Longrightarrow> P s \<Longrightarrow> f s = (s', Inr x) \<Longrightarrow> Q x"
  by (metis act_ok_def snd_conv)

lemma act_ok_return [act_intro]: "Q x \<Longrightarrow> act_ok P (act_return x) Q"
  by (simp add: act_ok_def)

lemma act_ok_throw [act_intro]: "act_ok P (act_throw e) Q"
  by (simp add: act_ok_def)

lemma act_ok_weaken: "act_ok P f Q \<Longrightarrow> (\<And>x. Q x \<Longrightarrow> R x) \<Longrightarrow> act_ok P f R"
  by (auto simp: act_ok_def)

lemma act_ok_bind:
  assumes "act_ok P f Q" "\<And>x. Q x \<Longrightarrow> act_ok P (g x) R"
  shows "act_ok P (act_bind f g) R"
  unfolding act_ok_def
proof (intro allI impI)
  fix s assume P: "P s"
  obtain s' r where f: "f s = (s', r)" by force
  have P': "P s'" using act_okD [OF assms(1) P f] .
  show "P (fst (act_bind f g s)) \<and> (\<forall>x. snd (act_bind f g s) = Inr x \<longrightarrow> R x)"
  proof (cases r)
    case (Inl e)
    then show ?thesis using f P' by (simp add: act_bind_def)
  next
    case (Inr x)
    then have "Q x" using act_ok_result [OF assms(1) P] f by blast
    then show ?thesis using assms(2) P' f Inr by (simp add: act_ok_def act_bind_def)
  qed
qed

text \<open>For actions whose results do not matter.\<close>

lemma act_ok_bind_any [act_intro]:
  "act_ok P f (\<lambda>_. True) \<Longrightarrow> (\<And>x. act_ok P (g x) R) \<Longrightarrow> act_ok P (act_bind f g) R"
  by (rule act_ok_bind)

lemma act_ok_if [act_intro]:
  "(b \<Longrightarrow> act_ok P f Q) \<Longrightarrow> (\<not> b \<Longrightarrow> act_ok P g Q) \<Longrightarrow> act_ok P (if b then f else g) Q"
  by simp

end
