(* ===== verification/Backend_Memory.thy ===== *)
theory Backend_Memory
  imports Memory_Utils
begin

text \<open>
  The main memory of the simulated machine (\<^verbatim>\<open>src/src/machine/memory/backend/memory.cpp\<close>): sections
  of 256 bytes, allocated on the first write, under a tree of rows of 16 pointers that is indexed by
  nibbles of the low 32 bits of the offset. The union \<^verbatim>\<open>MemoryTree\<close> is a datatype, a null pointer
  is \<open>None\<close>. The theory shows that the lazily allocated tree implements a flat array of bytes.
\<close>

section \<open>MemorySection\<close>

type_synonym memory_section = "byte list"

definition section_write :: "memory_section \<Rightarrow> u64 \<Rightarrow> byte list \<Rightarrow> (memory_section \<times> write_result) result" where
  "section_write dt dst_offset source =
    (let destination = unat dst_offset in
     if length dt \<le> destination then Inl OutOfMemoryAccess
     else
       let available_size = min (destination + length source) (length dt) - destination;
           chg = (take available_size source \<noteq> take available_size (drop destination dt));
           dt' = (if chg then take destination dt @ take available_size source @
                              drop (destination + available_size) dt
                  else dt)
       in Inr (dt', \<lparr>n_bytes = available_size, changed = chg\<rparr>))"

definition section_read :: "memory_section \<Rightarrow> u64 \<Rightarrow> nat \<Rightarrow> (byte list) result" where
  "section_read dt src_offset sz =
    (let source = unat src_offset;
         sz' = min (source + sz) (length dt) - source
     in if length dt \<le> source then Inl OutOfMemoryAccess
        else Inr (take sz' (drop source dt)))"

section \<open>The tree\<close>

definition MEMORY_SECTION_BITS :: nat where "MEMORY_SECTION_BITS = 8"

definition MEMORY_TREE_BITS :: nat where "MEMORY_TREE_BITS = 4"

definition MEMORY_SECTION_SIZE :: nat where "MEMORY_SECTION_SIZE = 2 ^ MEMORY_SECTION_BITS"

definition MEMORY_TREE_ROW_SIZE :: nat where "MEMORY_TREE_ROW_SIZE = 2 ^ MEMORY_TREE_BITS"

definition MEMORY_TREE_DEPTH :: nat where
  "MEMORY_TREE_DEPTH = (32 - MEMORY_SECTION_BITS) div MEMORY_TREE_BITS"

lemmas memory_constants =
  MEMORY_SECTION_BITS_def MEMORY_TREE_BITS_def MEMORY_SECTION_SIZE_def MEMORY_TREE_ROW_SIZE_def
  MEMORY_TREE_DEPTH_def

datatype memory_tree = Subtree "memory_tree option list" | Sec memory_section

type_synonym memory_row = "memory_tree option list"

text \<open>The mask is computed in 32 bits (\<^verbatim>\<open>1U\<close>) and widened.\<close>

definition generate_mask :: "nat \<Rightarrow> nat \<Rightarrow> u64" where
  "generate_mask section_size unit_size = ucast (push_bit unit_size (push_bit section_size 1 - 1) :: u32)"

definition tree_row_bit_offset :: "nat \<Rightarrow> nat" where
  "tree_row_bit_offset i = 32 - MEMORY_TREE_BITS - i * MEMORY_TREE_BITS"

definition get_tree_row :: "u64 \<Rightarrow> nat \<Rightarrow> nat" where
  "get_tree_row offset i =
     unat (drop_bit (tree_row_bit_offset i) (offset AND generate_mask MEMORY_TREE_BITS (tree_row_bit_offset i)))"

definition get_section_offset_mask :: "u64 \<Rightarrow> u64" where
  "get_section_offset_mask addr = addr AND generate_mask MEMORY_SECTION_BITS 0"

definition allocate_section_tree :: memory_row where
  "allocate_section_tree = replicate MEMORY_TREE_ROW_SIZE None"

definition new_section :: memory_section where
  "new_section = replicate MEMORY_SECTION_SIZE 0"

text \<open>
  \<^verbatim>\<open>get_section\<close> walks the row numbers of the offset from the root to the leaf. With \<^verbatim>\<open>create\<close> it
  allocates what is missing on the way; the section it returns is a pointer into the tree, so a
  caller that writes to the section changes the tree: \<open>put_section\<close> is that write.
\<close>

definition tree_path :: "u64 \<Rightarrow> nat list" where
  "tree_path offset = map (get_tree_row offset) [0..<MEMORY_TREE_DEPTH]"

fun walk_section :: "memory_row \<Rightarrow> nat list \<Rightarrow> memory_section option" where
  "walk_section w [] = None"
| "walk_section w [row_num] = (case w ! row_num of Some (Sec s) \<Rightarrow> Some s | _ \<Rightarrow> None)"
| "walk_section w (row_num # rest) =
     (case w ! row_num of Some (Subtree t) \<Rightarrow> walk_section t rest | _ \<Rightarrow> None)"

fun create_section :: "memory_row \<Rightarrow> nat list \<Rightarrow> memory_row" where
  "create_section w [] = w"
| "create_section w [row_num] =
     (case w ! row_num of None \<Rightarrow> w[row_num := Some (Sec new_section)] | Some _ \<Rightarrow> w)"
| "create_section w (row_num # rest) =
     (case w ! row_num of
        None \<Rightarrow> w[row_num := Some (Subtree (create_section allocate_section_tree rest))]
      | Some (Subtree t) \<Rightarrow> w[row_num := Some (Subtree (create_section t rest))]
      | Some (Sec _) \<Rightarrow> w)"

fun put_section :: "memory_row \<Rightarrow> nat list \<Rightarrow> memory_section \<Rightarrow> memory_row" where
  "put_section w [] s = w"
| "put_section w [row_num] s = w[row_num := Some (Sec s)]"
| "put_section w (row_num # rest) s =
     (case w ! row_num of
        Some (Subtree t) \<Rightarrow> w[row_num := Some (Subtree (put_section t rest s))]
      | _ \<Rightarrow> w)"

definition get_section :: "memory_row \<Rightarrow> u64 \<Rightarrow> bool \<Rightarrow> memory_row \<times> memory_section option" where
  "get_section root offset create =
     (let root' = (if create then create_section root (tree_path offset) else root)
      in (root', walk_section root' (tree_path offset)))"

section \<open>Memory\<close>

record memory =
  mt_root :: memory_row

definition memory_new :: memory where
  "memory_new = \<lparr>mt_root = allocate_section_tree\<rparr>"

definition memory_reset :: "memory \<Rightarrow> memory" where
  "memory_reset m = m\<lparr>mt_root := allocate_section_tree\<rparr>"

definition memory_write_part :: "memory \<Rightarrow> u64 \<Rightarrow> byte list \<Rightarrow> (memory \<times> write_result) result" where
  "memory_write_part m destination source =
     (case get_section (mt_root m) destination True of
        (root, None) \<Rightarrow> Inl Sanity
      | (root, Some sec) \<Rightarrow>
          (case section_write sec (get_section_offset_mask destination) source of
             Inl e \<Rightarrow> Inl e
           | Inr (sec', r) \<Rightarrow>
               Inr (m\<lparr>mt_root := put_section root (tree_path destination) sec'\<rparr>, r)))"

definition memory_write :: "memory \<Rightarrow> u64 \<Rightarrow> byte list \<Rightarrow> AccessEffects \<Rightarrow> (memory \<times> write_result) result" where
  "memory_write m destination source options =
     repeat_write memory_write_part m destination source write_result_zero"

definition memory_read_part :: "memory \<Rightarrow> u64 \<Rightarrow> nat \<Rightarrow> (memory \<times> byte list) result" where
  "memory_read_part m source sz =
     (case get_section (mt_root m) source False of
        (_, None) \<Rightarrow> Inr (m, replicate sz 0)
      | (_, Some sec) \<Rightarrow>
          (case section_read sec (get_section_offset_mask source) sz of
             Inl e \<Rightarrow> Inl e
           | Inr bs \<Rightarrow> Inr (m, bs)))"

definition memory_read :: "memory \<Rightarrow> u64 \<Rightarrow> nat \<Rightarrow> AccessEffects \<Rightarrow> (memory \<times> byte list) result" where
  "memory_read m source sz options = repeat_read memory_read_part m source sz []"

fun compare_section_tree :: "nat \<Rightarrow> memory_row \<Rightarrow> memory_row \<Rightarrow> bool" where
  "compare_section_tree 0 mt1 mt2 =
     list_all (\<lambda>i. case (mt1 ! i, mt2 ! i) of
                 (None, None) \<Rightarrow> True
               | (Some (Sec s1), Some (Sec s2)) \<Rightarrow> s1 = s2
               | _ \<Rightarrow> False) [0..<MEMORY_TREE_ROW_SIZE]"
| "compare_section_tree (Suc levels) mt1 mt2 =
     list_all (\<lambda>i. case (mt1 ! i, mt2 ! i) of
                 (None, None) \<Rightarrow> True
               | (Some (Subtree t1), Some (Subtree t2)) \<Rightarrow> compare_section_tree levels t1 t2
               | _ \<Rightarrow> False) [0..<MEMORY_TREE_ROW_SIZE]"

text \<open>The argument counts the levels below, so the root is compared with \<^verbatim>\<open>MEMORY_TREE_DEPTH - 1\<close>.\<close>

definition memory_eq :: "memory \<Rightarrow> memory \<Rightarrow> bool" where
  "memory_eq m1 m2 = compare_section_tree (MEMORY_TREE_DEPTH - 1) (mt_root m1) (mt_root m2)"

fun copy_section_tree :: "nat \<Rightarrow> memory_row \<Rightarrow> memory_row" where
  "copy_section_tree 0 mt =
     map (\<lambda>i. case mt ! i of Some (Sec s) \<Rightarrow> Some (Sec s) | _ \<Rightarrow> None) [0..<MEMORY_TREE_ROW_SIZE]"
| "copy_section_tree (Suc levels) mt =
     map (\<lambda>i. case mt ! i of Some (Subtree t) \<Rightarrow> Some (Subtree (copy_section_tree levels t)) | _ \<Rightarrow> None)
       [0..<MEMORY_TREE_ROW_SIZE]"

definition memory_copy :: "memory \<Rightarrow> memory" where
  "memory_copy m = \<lparr>mt_root = copy_section_tree (MEMORY_TREE_DEPTH - 1) (mt_root m)\<rparr>"

section \<open>Well-formed trees\<close>

fun row_ok :: "nat \<Rightarrow> memory_row \<Rightarrow> bool" where
  "row_ok 0 w = (length w = MEMORY_TREE_ROW_SIZE \<and>
     list_all (\<lambda>x. case x of None \<Rightarrow> True | Some (Sec s) \<Rightarrow> length s = MEMORY_SECTION_SIZE
                   | Some (Subtree _) \<Rightarrow> False) w)"
| "row_ok (Suc d) w = (length w = MEMORY_TREE_ROW_SIZE \<and>
     list_all (\<lambda>x. case x of None \<Rightarrow> True | Some (Subtree t) \<Rightarrow> row_ok d t | Some (Sec _) \<Rightarrow> False) w)"

definition memory_inv :: "memory \<Rightarrow> bool" where
  "memory_inv m = row_ok (MEMORY_TREE_DEPTH - 1) (mt_root m)"

text \<open>The flat array that the tree stands for: bytes of sections not yet allocated are zero.\<close>

definition mem_view :: "memory \<Rightarrow> u32 \<Rightarrow> byte" where
  "mem_view m a = (case walk_section (mt_root m) (tree_path (ucast a)) of
      None \<Rightarrow> 0
    | Some s \<Rightarrow> s ! (unat a mod MEMORY_SECTION_SIZE))"

section \<open>Index arithmetic\<close>

lemma generate_mask_bit:
  "u + s \<le> 32 \<Longrightarrow> bit (generate_mask s u) n \<longleftrightarrow> u \<le> n \<and> n < u + s"
proof -
  have "(push_bit s 1 - 1 :: u32) = mask s"
    by (simp add: mask_eq_decr_exp push_bit_of_1)
  then show "u + s \<le> 32 \<Longrightarrow> ?thesis"
    by (auto simp: generate_mask_def bit_simps)
qed

lemma get_section_offset_mask_eq: "get_section_offset_mask a = take_bit 8 a"
  by (rule bit_word_eqI)
     (auto simp: get_section_offset_mask_def memory_constants bit_simps generate_mask_bit)

lemma unat_section_offset: "unat (get_section_offset_mask a) = unat a mod MEMORY_SECTION_SIZE"
  unfolding get_section_offset_mask_eq unsigned_take_bit_eq by (simp add: take_bit_eq_mod memory_constants)

lemma get_tree_row_eq:
  "i < MEMORY_TREE_DEPTH \<Longrightarrow> get_tree_row x i = unat (take_bit 4 (drop_bit (28 - 4 * i) x))"
proof -
  assume "i < MEMORY_TREE_DEPTH"
  then have i: "i < 6" by (simp add: memory_constants)
  then have "drop_bit (tree_row_bit_offset i) (x AND generate_mask MEMORY_TREE_BITS (tree_row_bit_offset i)) =
      take_bit 4 (drop_bit (28 - 4 * i) x)"
    by (intro bit_word_eqI) (auto simp: tree_row_bit_offset_def memory_constants bit_simps generate_mask_bit mult.commute)
  then show ?thesis by (simp add: get_tree_row_def)
qed

lemma get_tree_row_bound: "i < MEMORY_TREE_DEPTH \<Longrightarrow> get_tree_row x i < MEMORY_TREE_ROW_SIZE"
  unfolding get_tree_row_eq unsigned_take_bit_eq by (simp add: memory_constants take_bit_eq_mod)

definition section_index :: "u64 \<Rightarrow> u64" where
  "section_index x = take_bit 24 (drop_bit 8 x)"

lemma tree_path_eq_iff: "tree_path x = tree_path y \<longleftrightarrow> section_index x = section_index y"
proof
  assume "tree_path x = tree_path y"
  then have *: "take_bit 4 (drop_bit (28 - 4 * i) x) = take_bit 4 (drop_bit (28 - 4 * i) y)" if "i < 6" for i
    using that get_tree_row_eq [of i x] get_tree_row_eq [of i y]
    by (simp add: tree_path_def memory_constants word_unat_eq_iff)
  show "section_index x = section_index y"
  proof (rule bit_word_eqI)
    fix n assume "n < LENGTH(64)"
    show "bit (section_index x) n = bit (section_index y) n"
    proof (cases "n < 24")
      case True
      then have "28 - 4 * (5 - n div 4) + n mod 4 = 8 + n" by presburger
      moreover have "bit (take_bit 4 (drop_bit (28 - 4 * (5 - n div 4)) x)) (n mod 4) =
         bit (take_bit 4 (drop_bit (28 - 4 * (5 - n div 4)) y)) (n mod 4)"
        using * [of "5 - n div 4"] by simp
      ultimately show ?thesis using True by (simp add: section_index_def bit_simps)
    qed (simp add: section_index_def bit_simps)
  qed
next
  assume *: "section_index x = section_index y"
  have "get_tree_row x i = get_tree_row y i" if "i < MEMORY_TREE_DEPTH" for i
  proof -
    have "take_bit 4 (drop_bit (28 - 4 * i) z) = take_bit 4 (drop_bit (20 - 4 * i) (section_index z))" for z
      using that by (intro bit_word_eqI)
        (auto simp: section_index_def bit_simps memory_constants algebra_simps)
    then show ?thesis using * that by (simp add: get_tree_row_eq)
  qed
  then show "tree_path x = tree_path y" by (simp add: tree_path_def)
qed

lemma tree_path_ok: "set (tree_path x) \<subseteq> {..<MEMORY_TREE_ROW_SIZE}" "length (tree_path x) = Suc 5"
  using get_tree_row_bound by (auto simp: tree_path_def memory_constants)

section \<open>The tree as a map from paths\<close>

lemma row_ok_length: "row_ok d w \<Longrightarrow> length w = MEMORY_TREE_ROW_SIZE"
  by (cases d) simp_all

lemma row_ok_0_nth:
  assumes "row_ok 0 w" "r < MEMORY_TREE_ROW_SIZE"
  shows "w ! r = None \<or> (\<exists>s. w ! r = Some (Sec s) \<and> length s = MEMORY_SECTION_SIZE)"
proof -
  have "w ! r \<in> set w" using assms row_ok_length [OF assms(1)] by simp
  with assms(1) show ?thesis
    by (cases "w ! r"; cases "the (w ! r)") (auto simp: list_all_iff)
qed

lemma row_ok_Suc_nth:
  assumes "row_ok (Suc d) w" "r < MEMORY_TREE_ROW_SIZE"
  shows "w ! r = None \<or> (\<exists>t. w ! r = Some (Subtree t) \<and> row_ok d t)"
proof -
  have "w ! r \<in> set w" using assms row_ok_length [OF assms(1)] by simp
  with assms(1) show ?thesis
    by (cases "w ! r"; cases "the (w ! r)") (auto simp: list_all_iff)
qed

lemma row_ok_0_update:
  "row_ok 0 w \<Longrightarrow> length s = MEMORY_SECTION_SIZE \<Longrightarrow> row_ok 0 (w[r := Some (Sec s)])"
  by (auto simp: list_all_iff dest!: set_update_subset_insert [THEN subsetD])

lemma row_ok_Suc_update:
  "row_ok (Suc d) w \<Longrightarrow> row_ok d t \<Longrightarrow> row_ok (Suc d) (w[r := Some (Subtree t)])"
  by (auto simp: list_all_iff dest!: set_update_subset_insert [THEN subsetD])

lemma row_ok_allocate [simp]: "row_ok d allocate_section_tree"
  by (cases d) (simp_all add: allocate_section_tree_def list_all_length)

lemma length_new_section [simp]: "length new_section = MEMORY_SECTION_SIZE"
  by (simp add: new_section_def)

lemma walk_allocate:
  "p \<noteq> [] \<Longrightarrow> set p \<subseteq> {..<MEMORY_TREE_ROW_SIZE} \<Longrightarrow> walk_section allocate_section_tree p = None"
  by (cases p; cases "tl p") (auto simp: allocate_section_tree_def)

lemma walk_section_length:
  "row_ok d w \<Longrightarrow> length p = Suc d \<Longrightarrow> set p \<subseteq> {..<MEMORY_TREE_ROW_SIZE} \<Longrightarrow>
   walk_section w p = Some s \<Longrightarrow> length s = MEMORY_SECTION_SIZE"
proof (induction w p arbitrary: d rule: walk_section.induct)
  case (2 w r)
  then show ?case using row_ok_0_nth [of w r] by auto
next
  case (3 w r r' rest)
  then obtain d' where d: "d = Suc d'" by (cases d) auto
  with 3 show ?case using row_ok_Suc_nth [of d' w r] by auto
qed simp

lemma create_section_ok:
  "row_ok d w \<Longrightarrow> length p = Suc d \<Longrightarrow> set p \<subseteq> {..<MEMORY_TREE_ROW_SIZE} \<Longrightarrow> row_ok d (create_section w p)"
proof (induction w p arbitrary: d rule: create_section.induct)
  case (2 w r)
  then show ?case by (auto intro: row_ok_0_update split: option.split simp del: row_ok.simps)
next
  case (3 w r r' rest)
  then obtain d' where d: "d = Suc d'" by (cases d) auto
  with 3 show ?case using row_ok_Suc_nth [of d' w r]
    by (auto intro!: row_ok_Suc_update simp del: row_ok.simps)
qed simp

lemma walk_create_section:
  "row_ok d w \<Longrightarrow> length p = Suc d \<Longrightarrow> length q = Suc d \<Longrightarrow> set p \<subseteq> {..<MEMORY_TREE_ROW_SIZE} \<Longrightarrow>
   set q \<subseteq> {..<MEMORY_TREE_ROW_SIZE} \<Longrightarrow>
   walk_section (create_section w p) q =
     (if q = p \<and> walk_section w p = None then Some new_section else walk_section w q)"
proof (induction w p arbitrary: d q rule: create_section.induct)
  case (2 w r)
  then obtain r2 where "q = [r2]" by (cases q) auto
  with 2 show ?case using row_ok_0_nth [of w r] row_ok_length [of d w]
    by (auto simp: nth_list_update split: option.splits)
next
  case (3 w r r' rest)
  then obtain d' where d: "d = Suc d'" by (cases d) auto
  from "3.prems" obtain q0 q1 qs where q: "q = q0 # q1 # qs" by (cases q; cases "tl q") auto
  have len: "length w = MEMORY_TREE_ROW_SIZE" using "3.prems" row_ok_length by blast
  have r: "r < MEMORY_TREE_ROW_SIZE" using "3.prems" by simp
  have al: "walk_section allocate_section_tree (r' # rest) = None"
    "walk_section allocate_section_tree (q1 # qs) = None"
    using "3.prems" q by (auto intro!: walk_allocate)
  show ?case using row_ok_Suc_nth [of d' w r] "3.prems" r
    using "3.IH"(1) [of d' "q1 # qs"] "3.IH"(2) [of _ _ d' "q1 # qs"]
    by (auto simp: d q len al nth_list_update simp del: row_ok.simps)
qed simp

lemma put_section_ok:
  "row_ok d w \<Longrightarrow> length p = Suc d \<Longrightarrow> set p \<subseteq> {..<MEMORY_TREE_ROW_SIZE} \<Longrightarrow>
   length s = MEMORY_SECTION_SIZE \<Longrightarrow> row_ok d (put_section w p s)"
proof (induction w p s arbitrary: d rule: put_section.induct)
  case (2 w r)
  then show ?case by (auto intro: row_ok_0_update simp del: row_ok.simps)
next
  case (3 w r r' rest)
  then obtain d' where d: "d = Suc d'" by (cases d) auto
  with 3 show ?case using row_ok_Suc_nth [of d' w r]
    by (auto intro!: row_ok_Suc_update simp del: row_ok.simps)
qed simp

lemma walk_put_section:
  "row_ok d w \<Longrightarrow> length p = Suc d \<Longrightarrow> length q = Suc d \<Longrightarrow> set p \<subseteq> {..<MEMORY_TREE_ROW_SIZE} \<Longrightarrow>
   set q \<subseteq> {..<MEMORY_TREE_ROW_SIZE} \<Longrightarrow> walk_section w p \<noteq> None \<Longrightarrow>
   walk_section (put_section w p s) q = (if q = p then Some s else walk_section w q)"
proof (induction w p s arbitrary: d q rule: put_section.induct)
  case (2 w r)
  then obtain r2 where "q = [r2]" by (cases q) auto
  with 2 show ?case using row_ok_length [of d w] by (auto simp: nth_list_update)
next
  case (3 w r r' rest)
  then obtain d' where d: "d = Suc d'" by (cases d) auto
  from "3.prems" obtain q0 q1 qs where q: "q = q0 # q1 # qs" by (cases q; cases "tl q") auto
  have len: "length w = MEMORY_TREE_ROW_SIZE" using "3.prems" row_ok_length by blast
  show ?case using row_ok_Suc_nth [of d' w r] "3.prems" "3.IH" [of _ _ d' "q1 # qs"]
    by (auto simp: d q len nth_list_update simp del: row_ok.simps split: option.splits memory_tree.splits)
qed simp

section \<open>Sections and the flat view\<close>

lemma unat_section_index: "unat (section_index x) = (unat x div 256) mod 2 ^ 24"
  unfolding section_index_def unsigned_take_bit_eq unat_drop_bit_eq
  by (simp add: take_bit_eq_mod drop_bit_eq_div)

lemma section_index_eq_iff:
  "section_index x = section_index y \<longleftrightarrow> (unat x div 256) mod 2 ^ 24 = (unat y div 256) mod 2 ^ 24"
  by (simp add: word_unat_eq_iff unat_section_index)

lemma unat_ucast32: "unat (ucast (x :: u64) :: u32) = unat x mod 2 ^ 32"
  by (simp add: unsigned_ucast_eq take_bit_eq_mod)

lemma div_mod_split:
  fixes n :: nat
  shows "n mod 2 ^ 32 = 256 * ((n div 256) mod 2 ^ 24) + n mod 256"
  using mod_mult2_eq [of n 256 "2 ^ 24"] by simp

lemma block_eq_iff:
  fixes a b c d :: nat
  assumes "b < 256" "d < 256"
  shows "256 * a + b = 256 * c + d \<longleftrightarrow> a = c \<and> b = d"
proof
  assume eq: "256 * a + b = 256 * c + d"
  have "(256 * a + b) div 256 = a" "(256 * c + d) div 256 = c" using assms by simp_all
  with eq show "a = c \<and> b = d" by simp
qed simp

lemma nat_block:
  fixes n i b :: nat
  assumes "n mod b + i < b"
  shows "(n + i) div b = n div b" "(n + i) mod b = n mod b + i"
proof -
  have n: "(n mod b + i) + (n div b) * b = n + i" by simp
  have "(r + q * b) div b = q" "(r + q * b) mod b = r" if "r < b" for r q using that by auto
  from this [OF assms, of "n div b"] show "(n + i) div b = n div b" "(n + i) mod b = n mod b + i"
    unfolding n .
qed

lemma ucast32_eq_iff:
  "(ucast (x :: u64) :: u32) = ucast y \<longleftrightarrow> section_index x = section_index y \<and> unat x mod 256 = unat y mod 256"
proof -
  have "(ucast x :: u32) = ucast y \<longleftrightarrow> unat x mod 2 ^ 32 = unat y mod 2 ^ 32"
    by (simp only: word_unat_eq_iff unat_ucast32)
  also have "\<dots> \<longleftrightarrow> (unat x div 256) mod 2 ^ 24 = (unat y div 256) mod 2 ^ 24 \<and> unat x mod 256 = unat y mod 256"
    unfolding div_mod_split by (rule block_eq_iff) simp_all
  finally show ?thesis by (simp only: section_index_eq_iff)
qed

lemma unat_add_in_section:
  assumes "unat (x :: u64) mod 256 + i < 256"
  shows "unat (x + of_nat i) = unat x + i"
proof -
  have "unat x < 2 ^ 56 * 256" using unsigned_less [of x] by simp
  then have "unat x div 256 < 2 ^ 56" by (simp add: less_mult_imp_div_less)
  moreover have "unat x + i = (unat x div 256) * 256 + (unat x mod 256 + i)" by simp
  moreover have "q * 256 + r < 2 ^ 64" if "q < 2 ^ 56" "r < 256" for q r :: nat using that by simp
  ultimately have "unat x + i < 2 ^ 64" using assms by metis
  then show ?thesis by (simp add: unat_word_ariths unat_of_nat_small)
qed

lemma in_section:
  assumes "unat x mod MEMORY_SECTION_SIZE + i < MEMORY_SECTION_SIZE"
  shows "tree_path (x + of_nat i) = tree_path x"
    and "unat (x + of_nat i) mod MEMORY_SECTION_SIZE = unat x mod MEMORY_SECTION_SIZE + i"
proof -
  from assms have a: "unat x mod 256 + i < 256" by (simp add: memory_constants)
  then have "(unat x + i) div 256 = unat x div 256" "(unat x + i) mod 256 = unat x mod 256 + i"
    by (simp_all only: nat_block)
  with unat_add_in_section [OF a]
  show "tree_path (x + of_nat i) = tree_path x"
    "unat (x + of_nat i) mod MEMORY_SECTION_SIZE = unat x mod MEMORY_SECTION_SIZE + i"
    by (simp_all add: tree_path_eq_iff section_index_eq_iff memory_constants)
qed

lemma mem_view_ucast:
  "mem_view m (ucast x) = (case walk_section (mt_root m) (tree_path x) of
      None \<Rightarrow> 0 | Some s \<Rightarrow> s ! (unat x mod MEMORY_SECTION_SIZE))"
proof -
  have "(ucast (ucast (ucast x :: u32) :: u64) :: u32) = ucast x"
    by (rule bit_word_eqI) (simp add: bit_simps)
  then have "section_index (ucast (ucast x :: u32)) = section_index x"
    "unat (ucast (ucast x :: u32) :: u64) mod 256 = unat x mod 256"
    by (simp_all only: ucast32_eq_iff)
  moreover have "unat (ucast (ucast x :: u32) :: u64) = unat (ucast x :: u32)"
    using unsigned_less [of "ucast x :: u32", where ?'a = nat]
    by (subst unsigned_ucast_eq) (intro take_bit_nat_eq_self, simp)
  moreover from calculation have "tree_path (ucast (ucast x :: u32)) = tree_path x"
    by (simp only: tree_path_eq_iff)
  ultimately show ?thesis
    by (simp add: mem_view_def memory_constants split: option.split)
qed

lemma memory_inv_section:
  "memory_inv m \<Longrightarrow> walk_section (mt_root m) (tree_path x) = Some s \<Longrightarrow> length s = MEMORY_SECTION_SIZE"
  using walk_section_length [OF _ tree_path_ok(2) tree_path_ok(1)]
  by (simp add: memory_inv_def memory_constants)

lemma offset_less: "unat x mod MEMORY_SECTION_SIZE < MEMORY_SECTION_SIZE"
  by (simp add: memory_constants)

lemma load_section:
  assumes "memory_inv m" and "unat x mod MEMORY_SECTION_SIZE + k \<le> MEMORY_SECTION_SIZE"
  shows "load_bytes (mem_view m) (ucast x) k =
    (case walk_section (mt_root m) (tree_path x) of
       None \<Rightarrow> replicate k 0 | Some s \<Rightarrow> take k (drop (unat x mod MEMORY_SECTION_SIZE) s))"
proof (rule nth_equalityI)
  show "length (load_bytes (mem_view m) (ucast x) k) = length (case walk_section (mt_root m) (tree_path x) of
       None \<Rightarrow> replicate k 0 | Some s \<Rightarrow> take k (drop (unat x mod MEMORY_SECTION_SIZE) s))"
    using assms memory_inv_section [OF assms(1), of x] by (auto split: option.split)
  fix i assume "i < length (load_bytes (mem_view m) (ucast x) k)"
  then have i: "i < k" by simp
  then have "unat x mod MEMORY_SECTION_SIZE + i < MEMORY_SECTION_SIZE" using assms by simp
  note sec = in_section [OF this]
  have "load_bytes (mem_view m) (ucast x) k ! i = mem_view m (ucast (x + of_nat i))"
    using i by (simp add: ucast_add_of_nat)
  then show "load_bytes (mem_view m) (ucast x) k ! i = (case walk_section (mt_root m) (tree_path x) of
       None \<Rightarrow> replicate k 0 | Some s \<Rightarrow> take k (drop (unat x mod MEMORY_SECTION_SIZE) s)) ! i"
    using i assms memory_inv_section [OF assms(1), of x]
    by (auto simp: mem_view_ucast sec split: option.split)
qed

section \<open>Reads\<close>

definition readable :: "memory \<Rightarrow> u64 \<Rightarrow> nat \<Rightarrow> bool" where
  "readable m x n \<longleftrightarrow> unat x mod MEMORY_SECTION_SIZE + n \<le> MEMORY_SECTION_SIZE \<or>
     (\<forall>i < n. walk_section (mt_root m) (tree_path (x + of_nat i)) \<noteq> None)"

lemma memory_read_part_spec:
  assumes inv: "memory_inv m" and sz: "0 < sz" and r: "readable m x sz"
  shows "\<exists>k. memory_read_part m x sz = Inr (m, load_bytes (mem_view m) (ucast x) k) \<and>
    0 < k \<and> k \<le> sz \<and> (k < sz \<longrightarrow> readable m (x + of_nat k) (sz - k))"
proof (cases "walk_section (mt_root m) (tree_path x)")
  case None
  then have "\<not> (\<forall>i < sz. walk_section (mt_root m) (tree_path (x + of_nat i)) \<noteq> None)"
    using sz by force
  with r have "unat x mod MEMORY_SECTION_SIZE + sz \<le> MEMORY_SECTION_SIZE"
    unfolding readable_def by blast
  from load_section [OF inv this] None sz show ?thesis
    by (intro exI [of _ sz]) (simp add: memory_read_part_def get_section_def)
next
  case (Some s)
  let ?o = "unat x mod MEMORY_SECTION_SIZE"
  define k where "k = min (?o + sz) MEMORY_SECTION_SIZE - ?o"
  have k: "0 < k" "k \<le> sz" "?o + k \<le> MEMORY_SECTION_SIZE"
    using sz offset_less [of x] by (auto simp: k_def)
  have "memory_read_part m x sz = Inr (m, take k (drop ?o s))"
    using Some memory_inv_section [OF inv Some] offset_less [of x]
    by (simp add: memory_read_part_def get_section_def section_read_def unat_section_offset k_def not_le Let_def)
  also have "\<dots> = Inr (m, load_bytes (mem_view m) (ucast x) k)"
    using load_section [OF inv k(3)] Some by simp
  finally have "memory_read_part m x sz = Inr (m, load_bytes (mem_view m) (ucast x) k)" .
  moreover have "k < sz \<longrightarrow> readable m (x + of_nat k) (sz - k)"
  proof
    assume lt: "k < sz"
    then have "\<not> ?o + sz \<le> MEMORY_SECTION_SIZE" by (auto simp: k_def)
    with r have "\<forall>i < sz. walk_section (mt_root m) (tree_path (x + of_nat i)) \<noteq> None"
      by (simp add: readable_def)
    then have "walk_section (mt_root m) (tree_path (x + of_nat k + of_nat i)) \<noteq> None" if "i < sz - k" for i
      using that by (metis add.assoc less_diff_conv add.commute of_nat_add)
    then show "readable m (x + of_nat k) (sz - k)" by (simp add: readable_def)
  qed
  ultimately show ?thesis using k by blast
qed

lemma memory_read_correct:
  assumes "memory_inv m" "0 < sz" "readable m x sz"
  shows "memory_read m x sz e = Inr (m, load_bytes (mem_view m) (ucast x) sz)"
proof -
  have "\<exists>s'. repeat_read memory_read_part m x sz [] = Inr (s', [] @ load_bytes (mem_view m) (ucast x) sz) \<and>
      s' = m \<and> mem_view s' = mem_view m"
    by (rule repeat_read_complete [where I = "\<lambda>s. s = m" and ok = "readable m" and view = mem_view])
       (use assms memory_read_part_spec in auto)
  then show ?thesis by (simp add: memory_read_def)
qed

section \<open>Writes\<close>

lemma get_section_create:
  assumes "memory_inv m"
  shows "\<exists>root s. get_section (mt_root m) x True = (root, Some s) \<and> row_ok (MEMORY_TREE_DEPTH - 1) root \<and>
    s = (case walk_section (mt_root m) (tree_path x) of None \<Rightarrow> new_section | Some s \<Rightarrow> s) \<and>
    length s = MEMORY_SECTION_SIZE \<and>
    (\<forall>y. walk_section root (tree_path y) =
       (if tree_path y = tree_path x then Some s else walk_section (mt_root m) (tree_path y)))"
proof -
  let ?root = "create_section (mt_root m) (tree_path x)"
  have d: "MEMORY_TREE_DEPTH - Suc 0 = 5" by (simp add: memory_constants)
  have ok: "row_ok 5 (mt_root m)" using assms by (simp add: memory_inv_def memory_constants)
  have w: "walk_section ?root (tree_path y) =
      (if tree_path y = tree_path x \<and> walk_section (mt_root m) (tree_path x) = None then Some new_section
       else walk_section (mt_root m) (tree_path y))" for y
    by (rule walk_create_section [OF ok tree_path_ok(2) tree_path_ok(2) tree_path_ok(1) tree_path_ok(1)])
  have "row_ok 5 ?root" by (rule create_section_ok [OF ok tree_path_ok(2) tree_path_ok(1)])
  with w show ?thesis
    using memory_inv_section [OF assms, of x]
    by (auto simp: get_section_def d split: option.split)
qed

lemma section_write_spec:
  fixes src :: "byte list" and o' :: u64
  assumes "length s = MEMORY_SECTION_SIZE" and o: "unat o' < MEMORY_SECTION_SIZE"
  defines "k \<equiv> min (length src) (MEMORY_SECTION_SIZE - unat o')"
  shows "section_write s o' src =
    Inr (take (unat o') s @ take k src @ drop (unat o' + k) s,
      \<lparr>n_bytes = k, changed = (take k src \<noteq> take k (drop (unat o') s))\<rparr>)"
proof -
  have k: "min (unat o' + length src) MEMORY_SECTION_SIZE - unat o' = k"
    using o by (auto simp: k_def)
  have "take (unat o') s @ take k (drop (unat o') s) @ drop (unat o' + k) s = s"
    by (metis append_take_drop_id drop_drop add.commute)
  with k o assms(1) show ?thesis
    by (auto simp: section_write_def Let_def)
qed

lemma store_section_view:
  assumes inv: "memory_inv m"
    and s: "s = (case walk_section (mt_root m) (tree_path x) of None \<Rightarrow> new_section | Some s \<Rightarrow> s)"
    and len: "length s = MEMORY_SECTION_SIZE"
    and bs: "unat x mod MEMORY_SECTION_SIZE + length bs \<le> MEMORY_SECTION_SIZE"
    and s': "s' = take (unat x mod MEMORY_SECTION_SIZE) s @ bs @
      drop (unat x mod MEMORY_SECTION_SIZE + length bs) s"
    and w: "\<And>y. walk_section (mt_root m') (tree_path y) =
       (if tree_path y = tree_path x then Some s' else walk_section (mt_root m) (tree_path y))"
  shows "mem_view m' = store_bytes (mem_view m) (ucast x) bs"
proof
  fix y :: u32
  let ?o = "unat x mod MEMORY_SECTION_SIZE"
  let ?j = "unat (y - ucast x)"
  have old: "mem_view m (ucast z) = s ! (unat z mod MEMORY_SECTION_SIZE)" if "tree_path z = tree_path x" for z
    using that s offset_less [of z] by (auto simp: mem_view_ucast new_section_def split: option.split)
  have new: "mem_view m' (ucast z) = (if tree_path z = tree_path x then s' ! (unat z mod MEMORY_SECTION_SIZE)
      else mem_view m (ucast z))" for z
    by (simp add: mem_view_ucast w)
  have "y = ucast (ucast y :: u64)" by (rule bit_word_eqI) (simp add: bit_simps)
  then obtain z :: u64 where y: "y = ucast z" by blast
  have b: "length bs \<le> 2 ^ LENGTH(32)" using bs by (simp add: memory_constants)
  show "mem_view m' y = store_bytes (mem_view m) (ucast x) bs y"
  proof (cases "?j < length bs")
    case True
    have "y = ucast x + of_nat ?j" by simp
    also have "\<dots> = ucast (x + of_nat ?j)" by (simp only: ucast_add_of_nat len_bit0 len_num1)
    finally have y': "y = ucast (x + of_nat ?j)" .
    have "?o + ?j < MEMORY_SECTION_SIZE" using True bs by simp
    note sec = in_section [OF this]
    have "mem_view m' y = s' ! (?o + ?j)"
      by (subst y') (simp only: new sec if_True simp_thms)
    also have "\<dots> = bs ! ?j" using True bs len by (simp add: s' nth_append)
    finally show ?thesis using True by (simp add: store_bytes_apply [OF b])
  next
    case False
    have "mem_view m' y = mem_view m y"
    proof (cases "tree_path z = tree_path x")
      case True
      have "\<not> (?o \<le> unat z mod MEMORY_SECTION_SIZE \<and> unat z mod MEMORY_SECTION_SIZE < ?o + length bs)"
      proof
        assume a: "?o \<le> unat z mod MEMORY_SECTION_SIZE \<and> unat z mod MEMORY_SECTION_SIZE < ?o + length bs"
        define i where "i = unat z mod MEMORY_SECTION_SIZE - ?o"
        have i: "i < length bs" "?o + i < MEMORY_SECTION_SIZE" "?o + i = unat z mod MEMORY_SECTION_SIZE"
          using a offset_less [of z] by (auto simp: i_def)
        have "(ucast z :: u32) = ucast (x + of_nat i)"
          using in_section [OF i(2)] i(3) True
          by (simp add: ucast32_eq_iff tree_path_eq_iff memory_constants)
        then have "y - ucast x = of_nat i" by (simp add: y ucast_add_of_nat)
        then show False using False i b by (simp add: unat_of_nat_small)
      qed
      then have "s' ! (unat z mod MEMORY_SECTION_SIZE) = s ! (unat z mod MEMORY_SECTION_SIZE)"
        using len offset_less [of z] bs by (auto simp: s' nth_append min_def not_le)
      with True show ?thesis by (simp add: y new old)
    qed (simp add: y new)
    with False show ?thesis by (simp add: store_bytes_apply [OF b])
  qed
qed

lemma memory_write_part_spec:
  fixes x :: u64
  assumes inv: "memory_inv m" and src: "src \<noteq> []"
  defines "k \<equiv> min (length src) (MEMORY_SECTION_SIZE - unat x mod MEMORY_SECTION_SIZE)"
  shows "\<exists>m'. memory_write_part m x src = Inr (m', \<lparr>n_bytes = k,
        changed = (load_bytes (mem_view m) (ucast x) k \<noteq> take k src)\<rparr>) \<and>
    memory_inv m' \<and> mem_view m' = store_bytes (mem_view m) (ucast x) (take k src) \<and> 0 < k \<and> k \<le> length src \<and>
    (\<forall>y. walk_section (mt_root m') (tree_path y) \<noteq> None \<longleftrightarrow>
       tree_path y = tree_path x \<or> walk_section (mt_root m) (tree_path y) \<noteq> None)"
proof -
  let ?o = "unat x mod MEMORY_SECTION_SIZE"
  from get_section_create [OF inv, of x] obtain root s where
    g: "get_section (mt_root m) x True = (root, Some s)" and ok: "row_ok (MEMORY_TREE_DEPTH - 1) root"
    and s: "s = (case walk_section (mt_root m) (tree_path x) of None \<Rightarrow> new_section | Some s \<Rightarrow> s)"
    and len: "length s = MEMORY_SECTION_SIZE"
    and w: "\<And>y. walk_section root (tree_path y) =
       (if tree_path y = tree_path x then Some s else walk_section (mt_root m) (tree_path y))"
    by blast
  define s' where "s' = take ?o s @ take k src @ drop (?o + k) s"
  define m' where "m' = m\<lparr>mt_root := put_section root (tree_path x) s'\<rparr>"
  have k: "0 < k" "k \<le> length src" "?o + k \<le> MEMORY_SECTION_SIZE"
    using src offset_less [of x] by (auto simp: k_def)
  have len': "length s' = MEMORY_SECTION_SIZE" using k len by (simp add: s'_def)
  have d: "length (tree_path y) = Suc (MEMORY_TREE_DEPTH - 1)" for y
    using tree_path_ok(2) by (simp add: memory_constants)
  have w': "walk_section (mt_root m') (tree_path y) =
       (if tree_path y = tree_path x then Some s' else walk_section (mt_root m) (tree_path y))" for y
    using walk_put_section [OF ok d d tree_path_ok(1) tree_path_ok(1), of x s' y] w by (simp add: m'_def)
  have "memory_inv m'"
    unfolding memory_inv_def m'_def using put_section_ok [OF ok d tree_path_ok(1) len'] by simp
  moreover have "mem_view m' = store_bytes (mem_view m) (ucast x) (take k src)"
    by (rule store_section_view [OF inv s len]) (use k w' in \<open>simp_all add: s'_def\<close>)
  moreover have "load_bytes (mem_view m) (ucast x) k = take k (drop ?o s)"
    using load_section [OF inv k(3)] s k len by (auto simp: new_section_def split: option.split)
  moreover have "memory_write_part m x src = Inr (m', \<lparr>n_bytes = k, changed = (take k src \<noteq> take k (drop ?o s))\<rparr>)"
    using section_write_spec [OF len, of "get_section_offset_mask x" src] offset_less [of x] g
    by (simp add: memory_write_part_def unat_section_offset k_def m'_def s'_def)
  ultimately show ?thesis using k w' by (intro exI [of _ m']) auto
qed

lemma memory_write_correct:
  assumes "memory_inv m" "src \<noteq> []" "length src \<le> 2 ^ 32"
  shows "\<exists>m' r. memory_write m x src e = Inr (m', r) \<and> memory_inv m' \<and> n_bytes r = length src \<and>
    mem_view m' = store_bytes (mem_view m) (ucast x) src \<and>
    (changed r \<longleftrightarrow> load_bytes (mem_view m) (ucast x) (length src) \<noteq> src)"
proof -
  have "\<exists>m' r. repeat_write memory_write_part m x src write_result_zero = Inr (m', r) \<and> memory_inv m' \<and>
      n_bytes r = n_bytes write_result_zero + length src \<and> mem_view m' = store_bytes (mem_view m) (ucast x) src \<and>
      (changed r \<longleftrightarrow> changed write_result_zero \<or> load_bytes (mem_view m) (ucast x) (length src) \<noteq> src)"
  proof (rule repeat_write_complete [where ok = "\<lambda>_ _. True"])
    fix m x and src :: "byte list"
    assume "memory_inv m" "src \<noteq> []"
    from memory_write_part_spec [OF this, of x]
    show "\<exists>m' r. memory_write_part m x src = Inr (m', r) \<and> memory_inv m' \<and> 0 < n_bytes r \<and> n_bytes r \<le> length src \<and>
        mem_view m' = store_bytes (mem_view m) (ucast x) (take (n_bytes r) src) \<and>
        (changed r \<longleftrightarrow> load_bytes (mem_view m) (ucast x) (n_bytes r) \<noteq> take (n_bytes r) src) \<and>
        (n_bytes r < length src \<longrightarrow> True)"
      by auto
  qed (use assms in simp_all)
  then show ?thesis by (simp add: memory_write_def write_result_zero_def)
qed


lemma repeat_write_allocates:
  assumes "memory_inv m" "src \<noteq> []" "repeat_write memory_write_part m x src tot = Inr (m', r)"
  shows "walk_section (mt_root m) (tree_path y) \<noteq> None \<Longrightarrow> walk_section (mt_root m') (tree_path y) \<noteq> None"
    and "i < length src \<Longrightarrow> walk_section (mt_root m') (tree_path (x + of_nat i)) \<noteq> None"
proof -
  have "(\<forall>y. walk_section (mt_root m) (tree_path y) \<noteq> None \<longrightarrow> walk_section (mt_root m') (tree_path y) \<noteq> None) \<and>
    (\<forall>i < length src. walk_section (mt_root m') (tree_path (x + of_nat i)) \<noteq> None)"
    using assms
  proof (induction "length src" arbitrary: m src x tot rule: less_induct)
    case less
    let ?o = "unat x mod MEMORY_SECTION_SIZE"
    define k where "k = min (length src) (MEMORY_SECTION_SIZE - ?o)"
    from memory_write_part_spec [OF less.prems(1,2), of x, folded k_def] obtain m1 c where
      p: "memory_write_part m x src = Inr (m1, \<lparr>n_bytes = k, changed = c\<rparr>)" and inv: "memory_inv m1"
      and k: "0 < k" "k \<le> length src"
      and al: "\<And>y. walk_section (mt_root m1) (tree_path y) \<noteq> None \<longleftrightarrow>
         tree_path y = tree_path x \<or> walk_section (mt_root m) (tree_path y) \<noteq> None" by blast
    have fst: "walk_section (mt_root m1) (tree_path (x + of_nat i)) \<noteq> None" if "i < k" for i
      using that al in_section(1) [of x i] by (auto simp: k_def)
    show ?case
    proof (cases "k = length src")
      case True
      with less.prems(3) p k have "m' = m1"
        by (subst (asm) repeat_write.simps) auto
      with True fst al show ?thesis by auto
    next
      case False
      let ?src = "drop k src"
      have lt: "length ?src < length src" "?src \<noteq> []" using False k by auto
      from less.prems(3) p k False have
        "repeat_write memory_write_part m1 (x + of_nat k) ?src
          (write_result_add tot \<lparr>n_bytes = k, changed = c\<rparr>) = Inr (m', r)"
        by (subst (asm) repeat_write.simps) auto
      note IH = less.hyps [OF lt(1) inv lt(2) this]
      have "walk_section (mt_root m') (tree_path (x + of_nat i)) \<noteq> None" if i: "i < length src" for i
      proof (cases "i < k")
        case True
        then show ?thesis using fst IH by blast
      next
        case False
        then have "x + of_nat i = x + of_nat k + of_nat (i - k)" by (simp add: add.assoc flip: of_nat_add)
        moreover have "i - k < length ?src" using i False by simp
        ultimately show ?thesis using IH by metis
      qed
      with IH al show ?thesis by blast
    qed
  qed
  then show "walk_section (mt_root m) (tree_path y) \<noteq> None \<Longrightarrow> walk_section (mt_root m') (tree_path y) \<noteq> None"
    "i < length src \<Longrightarrow> walk_section (mt_root m') (tree_path (x + of_nat i)) \<noteq> None" by blast+
qed

lemma memory_new_inv [simp]: "memory_inv memory_new"
  by (simp add: memory_inv_def memory_new_def)

lemma walk_memory_new [simp]: "walk_section (mt_root memory_new) (tree_path x) = None"
proof -
  have "tree_path x \<noteq> []" using tree_path_ok(2) [of x] by auto
  then show ?thesis using walk_allocate [OF _ tree_path_ok(1)] by (simp add: memory_new_def)
qed

lemma mem_view_new [simp]: "mem_view memory_new = (\<lambda>_. 0)"
  by (simp add: fun_eq_iff mem_view_def)

lemma copy_section_tree_eq: "row_ok d w \<Longrightarrow> copy_section_tree d w = w"
proof (induction d w rule: copy_section_tree.induct)
  case (1 w)
  then show ?case using row_ok_0_nth [of w] row_ok_length [of 0 w]
    by (intro nth_equalityI) (fastforce simp del: row_ok.simps)+
next
  case (2 d w)
  show ?case
  proof (rule nth_equalityI)
    show "length (copy_section_tree (Suc d) w) = length w" using row_ok_length [OF "2.prems"] by simp
    fix i assume "i < length (copy_section_tree (Suc d) w)"
    then have i: "i < MEMORY_TREE_ROW_SIZE" by simp
    then show "copy_section_tree (Suc d) w ! i = w ! i"
      using row_ok_Suc_nth [OF "2.prems" i] "2.IH" [of i] by (auto simp del: row_ok.simps)
  qed
qed

lemma compare_section_tree_nth:
  assumes "compare_section_tree d w1 w2" "r < MEMORY_TREE_ROW_SIZE"
  shows "case (w1 ! r, w2 ! r) of (None, None) \<Rightarrow> True
    | (Some (Sec s1), Some (Sec s2)) \<Rightarrow> s1 = s2
    | (Some (Subtree t1), Some (Subtree t2)) \<Rightarrow> d \<noteq> 0 \<and> compare_section_tree (d - 1) t1 t2
    | _ \<Rightarrow> False"
proof (cases d)
  case 0
  with assms have "case (w1 ! r, w2 ! r) of (None, None) \<Rightarrow> True
      | (Some (Sec s1), Some (Sec s2)) \<Rightarrow> s1 = s2 | _ \<Rightarrow> False"
    by (auto simp: list_all_iff)
  then show ?thesis by (auto split: option.splits memory_tree.splits)
next
  case (Suc d')
  with assms have "case (w1 ! r, w2 ! r) of (None, None) \<Rightarrow> True
      | (Some (Subtree t1), Some (Subtree t2)) \<Rightarrow> compare_section_tree d' t1 t2 | _ \<Rightarrow> False"
    by (auto simp: list_all_iff)
  with Suc show ?thesis by (auto split: option.splits memory_tree.splits)
qed

lemma compare_section_tree_imp_eq:
  "compare_section_tree d w1 w2 \<Longrightarrow> row_ok d w1 \<Longrightarrow> row_ok d w2 \<Longrightarrow> w1 = w2"
proof (induction d arbitrary: w1 w2)
  case 0
  show ?case
  proof (rule nth_equalityI)
    fix i assume "i < length w1"
    then have i: "i < MEMORY_TREE_ROW_SIZE" using row_ok_length 0 by metis
    show "w1 ! i = w2 ! i"
      using compare_section_tree_nth [OF 0(1) i] row_ok_0_nth [OF 0(2) i] row_ok_0_nth [OF 0(3) i] by auto
  qed (use row_ok_length 0 in metis)
next
  case (Suc d)
  show ?case
  proof (rule nth_equalityI)
    fix i assume "i < length w1"
    then have i: "i < MEMORY_TREE_ROW_SIZE" using row_ok_length Suc.prems by metis
    show "w1 ! i = w2 ! i"
      using compare_section_tree_nth [OF Suc.prems(1) i] row_ok_Suc_nth [OF Suc.prems(2) i]
        row_ok_Suc_nth [OF Suc.prems(3) i] Suc.IH by auto
  qed (use row_ok_length Suc.prems in metis)
qed

lemma compare_section_tree_refl: "row_ok d w \<Longrightarrow> compare_section_tree d w w"
proof (induction d arbitrary: w)
  case 0
  then show ?case using row_ok_0_nth [of w] by (fastforce simp: list_all_iff simp del: row_ok.simps)
next
  case (Suc d)
  then show ?case using row_ok_Suc_nth [of d w] by (fastforce simp: list_all_iff simp del: row_ok.simps)
qed

section \<open>Properties\<close>

text \<open>
  Claim C34: the lazily allocated tree refines a flat array of 4 GiB: a write of any length stores
  its bytes in the array, keeps the tree well formed, reports the whole length and reports a change
  exactly when the array differs; a read that stays inside one 256-byte section, or that touches only sections
  that are allocated, returns the array's bytes and changes nothing. Neither raises the
  out-of-memory exception of a section.  A read that runs from a section that is not allocated into
  one that is does not follow the array, see \<^verbatim>\<open>memory_read_over_unallocated\<close> below.
\<close>

theorem memory_refines_array:
  "memory_inv m \<Longrightarrow> src \<noteq> [] \<Longrightarrow> length src \<le> 2 ^ 32 \<Longrightarrow> 0 < n \<Longrightarrow>
     unat a mod MEMORY_SECTION_SIZE + n \<le> MEMORY_SECTION_SIZE \<or>
       list_all (\<lambda>i. walk_section (mt_root m) (tree_path (a + of_nat i)) \<noteq> None) [0..<n] \<Longrightarrow>
   (\<exists>m' r. memory_write m x src e = Inr (m', r) \<and> memory_inv m' \<and> n_bytes r = length src \<and>
      mem_view m' = store_bytes (mem_view m) (ucast x) src \<and>
      (changed r \<longleftrightarrow> load_bytes (mem_view m) (ucast x) (length src) \<noteq> src)) \<and>
   memory_read m a n e' = Inr (m, load_bytes (mem_view m) (ucast a) n)"
  by (intro conjI memory_write_correct memory_read_correct) (auto simp: readable_def list_all_iff)

theorem memory_refines_array_witness:
  "\<exists>m' r. memory_write memory_new 0x1FC [1, 2, 3, 4, 5, 6] AE_REGULAR = Inr (m', r) \<and> n_bytes r = 6 \<and>
     memory_read memory_new 0x40 8 AE_REGULAR = Inr (memory_new, replicate 8 0)"
proof -
  have "load_bytes (\<lambda>_. 0) (a :: u32) n = replicate n 0" for a n
    by (rule nth_equalityI) simp_all
  then show ?thesis
    using memory_refines_array [of memory_new "[1, 2, 3, 4, 5, 6]" 8 "0x40" "0x1FC" AE_REGULAR AE_REGULAR]
    by (auto simp: memory_constants)
qed

text \<open>
  What is written is read back, for accesses of any length, over section boundaries
  included, and all other bytes keep their value.
\<close>

theorem memory_round_trip:
  assumes "memory_inv m" "src \<noteq> []" "length src \<le> 2 ^ 32" "memory_write m x src e = Inr (m', r)"
  shows "memory_read m' x (length src) e' = Inr (m', src) \<and>
    (\<forall>y. length src \<le> unat (y - ucast x) \<longrightarrow> mem_view m' y = mem_view m y)"
proof -
  from memory_write_correct [OF assms(1-3), of x e] assms(4) have inv: "memory_inv m'"
    and v: "mem_view m' = store_bytes (mem_view m) (ucast x) src" by auto
  have "readable m' x (length src)"
    using repeat_write_allocates(2) [OF assms(1,2)] assms(4)
    unfolding memory_write_def readable_def by blast
  then have "memory_read m' x (length src) e' = Inr (m', load_bytes (mem_view m') (ucast x) (length src))"
    using memory_read_correct [OF inv, of "length src"] assms(2) by simp
  then show ?thesis
    using assms(3) by (simp add: v load_store_same store_bytes_apply)
qed

theorem memory_round_trip_witness:
  "\<exists>m' r. memory_write memory_new 0xFE [1, 2, 3, 4] AE_REGULAR = Inr (m', r) \<and>
     memory_read m' 0xFE 4 AE_REGULAR = Inr (m', [1, 2, 3, 4])"
proof -
  obtain m' r where w: "memory_write memory_new 0xFE [1, 2, 3, 4] AE_REGULAR = Inr (m', r)"
    using memory_write_correct [of memory_new "[1, 2, 3, 4]" "0xFE" AE_REGULAR] by auto
  then have "memory_read m' 0xFE (length [1, 2, 3, 4 :: byte]) AE_REGULAR = Inr (m', [1, 2, 3, 4])"
    by (intro memory_round_trip [THEN conjunct1, OF _ _ _ w]) simp_all
  with w show ?thesis by (auto simp: numeral_eq_Suc)
qed

text \<open>
  A read that starts in a section not yet allocated and runs over its end returns zeros
  for the rest too, although the next section holds data: after a store of 1 at 0x100, the eight
  bytes at 0xFC read as zero, while the byte at 0x100 read alone is 1.
\<close>

theorem memory_read_over_unallocated:
  "\<exists>m r. memory_write memory_new 0x100 [1] AE_REGULAR = Inr (m, r) \<and>
     memory_read m 0xFC 8 AE_REGULAR = Inr (m, replicate 8 0) \<and>
     memory_read m 0x100 1 AE_REGULAR = Inr (m, [1])"
proof -
  have tp: "tree_path 0xFC \<noteq> tree_path 0x100"
    by (simp add: tree_path_eq_iff section_index_eq_iff)
  have w: "memory_write memory_new 0x100 [1] AE_REGULAR = memory_write_part memory_new 0x100 [1]"
    using memory_write_part_spec [of memory_new "[1]" "0x100"]
    by (auto simp: memory_write_def repeat_write.simps write_result_zero_def write_result_add_def
        memory_constants)
  obtain m r where p: "memory_write_part memory_new 0x100 [1] = Inr (m, r)" and inv: "memory_inv m"
    and v: "mem_view m = store_bytes (\<lambda>_. 0) 0x100 [1]"
    and al: "\<And>y. walk_section (mt_root m) (tree_path y) \<noteq> None \<longleftrightarrow>
       tree_path y = tree_path 0x100 \<or> walk_section (mt_root memory_new) (tree_path y) \<noteq> None"
    using memory_write_part_spec [of memory_new "[1]" "0x100"] by (auto simp: memory_constants)
  have "walk_section (mt_root m) (tree_path 0xFC) = None"
    using al [of "0xFC"] tp walk_memory_new [of "0xFC"] by fastforce
  then have "memory_read m 0xFC 8 AE_REGULAR = Inr (m, replicate 8 0)"
    by (simp add: memory_read_def repeat_read.simps memory_read_part_def get_section_def)
  moreover have "memory_read m 0x100 1 AE_REGULAR = Inr (m, [1])"
    using memory_read_correct [OF inv, of 1 "0x100"] by (simp add: readable_def memory_constants v load_bytes_def)
  ultimately show ?thesis using w p by auto
qed

text \<open>
  A copy of a memory compares equal to it and has the same contents, and memories that
  compare equal have the same contents.
\<close>

theorem memory_copy_equal:
  assumes "memory_inv m" "memory_inv m'"
  shows "memory_eq (memory_copy m) m \<and> mem_view (memory_copy m) = mem_view m \<and>
    (memory_eq m m' \<longrightarrow> mem_view m = mem_view m')"
proof -
  note ok = assms [unfolded memory_inv_def]
  have "memory_copy m = m"
    using copy_section_tree_eq [OF ok(1)] by (simp add: memory_copy_def)
  moreover have "memory_eq m m" unfolding memory_eq_def by (rule compare_section_tree_refl [OF ok(1)])
  moreover have "memory_eq m m' \<longrightarrow> m = m'"
    unfolding memory_eq_def using compare_section_tree_imp_eq [OF _ ok] by (simp add: memory.equality)
  ultimately show ?thesis by metis
qed

theorem memory_copy_equal_witness:
  "memory_inv memory_new \<and> memory_eq (memory_copy memory_new) memory_new"
  using memory_copy_equal [of memory_new memory_new] by simp

text \<open>
  The comparison sees the allocation: storing a zero in a fresh memory changes no byte, and
  the two memories do not compare equal.
\<close>

theorem memory_eq_sees_allocation:
  "\<exists>m r. memory_write memory_new 0 [0] AE_REGULAR = Inr (m, r) \<and> \<not> changed r \<and>
     mem_view m = mem_view memory_new \<and> \<not> memory_eq m memory_new"
proof -
  have z: "store_bytes (\<lambda>_. 0) (0 :: u32) [0 :: byte] = (\<lambda>_. 0)" by auto
  obtain m r where w: "memory_write memory_new 0 [0] AE_REGULAR = Inr (m, r)" and inv: "memory_inv m"
    and v: "mem_view m = (\<lambda>_. 0)" and c: "\<not> changed r"
    using memory_write_correct [of memory_new "[0]" 0 AE_REGULAR] z by (auto simp: load_bytes_def)
  have "walk_section (mt_root m) (tree_path 0) \<noteq> None"
    using repeat_write_allocates(2) [of memory_new "[0]" 0 _ m r 0] w by (simp add: memory_write_def)
  then have "mt_root m \<noteq> mt_root memory_new" using walk_memory_new [of 0] by metis
  then have "\<not> memory_eq m memory_new"
    using compare_section_tree_imp_eq [of "MEMORY_TREE_DEPTH - 1" "mt_root m" "mt_root memory_new"] inv
      memory_new_inv unfolding memory_inv_def memory_eq_def by blast
  with w v c show ?thesis by auto
qed

end
