(* ===== verification/Memory_Bus.thy ===== *)
theory Memory_Bus
  imports Frontend_Memory Backend_Memory
begin

text \<open>
  The memory data bus (\<^verbatim>\<open>src/src/machine/memory/memory_bus.cpp\<close>): it finds the device of an
  address among the connected ranges and forwards each part of an access to it.  Devices are
  reached by a pointer, a number here, in a store of device states; the ranges are kept in a
  sorted map from the last address of a range (\<^verbatim>\<open>QMap\<close>) and by device (\<^verbatim>\<open>QMultiMap\<close>).  The
  backend interface of a device is a locale; a memory in a range of the bus satisfies the
  frontend contract there.
\<close>

section \<open>Backend devices\<close>

text \<open>The virtual functions of \<^verbatim>\<open>BackendMemory\<close>.\<close>

record 'd backend_ops =
  bm_write :: "'d \<Rightarrow> u64 \<Rightarrow> byte list \<Rightarrow> AccessEffects \<Rightarrow> ('d \<times> write_result) result"
  bm_read :: "'d \<Rightarrow> u64 \<Rightarrow> nat \<Rightarrow> AccessEffects \<Rightarrow> ('d \<times> byte list) result"
  bm_location_status :: "'d \<Rightarrow> u64 \<Rightarrow> LocationStatus"

text \<open>
  The main memory and the peripherals share the bus: a device is the memory of
  \<^verbatim>\<open>backend/memory.cpp\<close> or another device, whose functions are a parameter.
\<close>

datatype 'x device = Dev_Memory memory | Dev_Other 'x

definition memory_location_status :: "memory \<Rightarrow> u64 \<Rightarrow> LocationStatus" where
  "memory_location_status m offset = LOCSTAT_NONE"

definition device_ops :: "'x backend_ops \<Rightarrow> 'x device backend_ops" where
  "device_ops other = \<lparr>
     bm_write = (\<lambda>d off src e. case d of
        Dev_Memory m \<Rightarrow> res_bind (memory_write m off src e) (\<lambda>(m, r). Inr (Dev_Memory m, r))
      | Dev_Other x \<Rightarrow> res_bind (bm_write other x off src e) (\<lambda>(x, r). Inr (Dev_Other x, r))),
     bm_read = (\<lambda>d off n e. case d of
        Dev_Memory m \<Rightarrow> res_bind (memory_read m off n e) (\<lambda>(m, bs). Inr (Dev_Memory m, bs))
      | Dev_Other x \<Rightarrow> res_bind (bm_read other x off n e) (\<lambda>(x, bs). Inr (Dev_Other x, bs))),
     bm_location_status = (\<lambda>d off. case d of
        Dev_Memory m \<Rightarrow> memory_location_status m off
      | Dev_Other x \<Rightarrow> bm_location_status other x off)\<rparr>"

section \<open>The bus\<close>

type_synonym device_ptr = nat

record RangeDesc =
  rd_device :: device_ptr
  rd_start :: address
  rd_last :: address
  rd_owns :: bool

record 'd data_bus =
  bus_devices :: "device_ptr \<Rightarrow> 'd"
  ranges_by_addr :: "(address \<times> RangeDesc) list"
  ranges_by_device :: "(device_ptr \<times> RangeDesc) list"
  bus_change_counter :: u32

definition range_contains :: "RangeDesc \<Rightarrow> address \<Rightarrow> bool" where
  "range_contains r a = (rd_start r \<le> a \<and> a \<le> rd_last r)"

definition range_overlaps :: "RangeDesc \<Rightarrow> address \<Rightarrow> address \<Rightarrow> bool" where
  "range_overlaps r s l = (range_contains r s \<or> range_contains r l)"

text \<open>\<^verbatim>\<open>QMap::lowerBound\<close>: the first entry whose key is not less; \<^verbatim>\<open>QMap::insert\<close> replaces an equal key.\<close>

fun lower_bound :: "(address \<times> RangeDesc) list \<Rightarrow> address \<Rightarrow> (address \<times> RangeDesc) option" where
  "lower_bound [] a = None"
| "lower_bound ((k, r) # m) a = (if k < a then lower_bound m a else Some (k, r))"

fun qmap_insert :: "address \<Rightarrow> RangeDesc \<Rightarrow> (address \<times> RangeDesc) list \<Rightarrow> (address \<times> RangeDesc) list" where
  "qmap_insert k r [] = [(k, r)]"
| "qmap_insert k r ((k', r') # m) =
     (if k' < k then (k', r') # qmap_insert k r m
      else if k' = k then (k, r) # m else (k, r) # (k', r') # m)"

definition find_range :: "'d data_bus \<Rightarrow> address \<Rightarrow> RangeDesc option" where
  "find_range b a = (case lower_bound (ranges_by_addr b) a of
     None \<Rightarrow> None
   | Some (_, r) \<Rightarrow> if a \<ge> rd_start r \<and> a \<le> rd_last r then Some r else None)"

definition insert_device_to_range ::
  "'d data_bus \<Rightarrow> device_ptr \<Rightarrow> address \<Rightarrow> address \<Rightarrow> bool \<Rightarrow> 'd data_bus \<times> bool" where
  "insert_device_to_range b dev s l owns =
     (case lower_bound (ranges_by_addr b) s of
        Some (_, r) \<Rightarrow> if range_overlaps r s l then (b, False)
          else (b\<lparr>ranges_by_addr := qmap_insert l \<lparr>rd_device = dev, rd_start = s, rd_last = l, rd_owns = owns\<rparr> (ranges_by_addr b),
                 ranges_by_device := (dev, \<lparr>rd_device = dev, rd_start = s, rd_last = l, rd_owns = owns\<rparr>) # ranges_by_device b\<rparr>, True)
      | None \<Rightarrow>
          (b\<lparr>ranges_by_addr := qmap_insert l \<lparr>rd_device = dev, rd_start = s, rd_last = l, rd_owns = owns\<rparr> (ranges_by_addr b),
             ranges_by_device := (dev, \<lparr>rd_device = dev, rd_start = s, rd_last = l, rd_owns = owns\<rparr>) # ranges_by_device b\<rparr>, True))"

text \<open>\<^verbatim>\<open>QMultiMap::take\<close> removes the value inserted last for the key.\<close>

definition remove_device :: "'d data_bus \<Rightarrow> device_ptr \<Rightarrow> 'd data_bus \<times> bool" where
  "remove_device b dev = (case map_of (ranges_by_device b) dev of
     None \<Rightarrow> (b, False)
   | Some r \<Rightarrow>
       (b\<lparr>ranges_by_device := remove1 (dev, r) (ranges_by_device b),
          ranges_by_addr := filter (\<lambda>(k, _). k \<noteq> rd_last r) (ranges_by_addr b)\<rparr>, True))"

definition bus_write_single ::
  "'d backend_ops \<Rightarrow> AccessEffects \<Rightarrow> 'd data_bus \<Rightarrow> u64 \<Rightarrow> byte list \<Rightarrow> ('d data_bus \<times> write_result) result" where
  "bus_write_single bops options b destination source = (case find_range b destination of
     None \<Rightarrow> Inr (b, write_result_zero)
   | Some r \<Rightarrow>
       res_bind (bm_write bops (bus_devices b (rd_device r)) (destination - rd_start r) source options)
         (\<lambda>(d, res). let b = b\<lparr>bus_devices := (bus_devices b)(rd_device r := d)\<rparr> in
            Inr (if changed res then b\<lparr>bus_change_counter := bus_change_counter b + 1\<rparr> else b, res)))"

definition bus_read_single ::
  "'d backend_ops \<Rightarrow> AccessEffects \<Rightarrow> 'd data_bus \<Rightarrow> u64 \<Rightarrow> nat \<Rightarrow> ('d data_bus \<times> byte list) result" where
  "bus_read_single bops options b source sz = (case find_range b source of
     None \<Rightarrow> Inr (b, replicate sz 0)
   | Some r \<Rightarrow>
       res_bind (bm_read bops (bus_devices b (rd_device r)) (source - rd_start r) sz options)
         (\<lambda>(d, bs). Inr (b\<lparr>bus_devices := (bus_devices b)(rd_device r := d)\<rparr>, bs)))"

text \<open>A computation that keeps its old state when it throws, as an action.\<close>

definition lift_action :: "('s \<Rightarrow> ('s \<times> 'a) result) \<Rightarrow> ('s, 'a) action" where
  "lift_action f s = (case f s of Inl e \<Rightarrow> (s, Inl e) | Inr (s', x) \<Rightarrow> (s', Inr x))"

definition bus_write ::
  "'d backend_ops \<Rightarrow> AddressWithMode \<Rightarrow> byte list \<Rightarrow> AccessEffects \<Rightarrow> ('d data_bus, write_result) action" where
  "bus_write bops destination source options =
     lift_action (\<lambda>b. repeat_write (bus_write_single bops options) b (aw_addr destination) source write_result_zero)"

definition bus_read ::
  "'d backend_ops \<Rightarrow> AddressWithMode \<Rightarrow> nat \<Rightarrow> AccessEffects \<Rightarrow> ('d data_bus, byte list \<times> nat) action" where
  "bus_read bops source sz options =
     act_bind (lift_action (\<lambda>b. repeat_read (bus_read_single bops options) b (aw_addr source) sz []))
       (\<lambda>bs. act_return (bs, length bs))"

definition bus_location_status :: "'d backend_ops \<Rightarrow> 'd data_bus \<Rightarrow> address \<Rightarrow> LocationStatus" where
  "bus_location_status bops b a = (case find_range b a of
     None \<Rightarrow> LOCSTAT_ILLEGAL
   | Some r \<Rightarrow> bm_location_status bops (bus_devices b (rd_device r)) (a - rd_start r))"

definition bus_ops :: "'d backend_ops \<Rightarrow> Endian \<Rightarrow> 'd data_bus frontend_ops" where
  "bus_ops bops endian = \<lparr>
     fm_write = bus_write bops, fm_read = bus_read bops, fm_sync = default_sync,
     fm_sfence_vma = default_sfence_vma default_sync,
     fm_location_status = bus_location_status bops, fm_change_counter = bus_change_counter, fm_endian = endian\<rparr>"

section \<open>The trivial bus\<close>

text \<open>The one-to-one wrapper of a single device; the counter counts every write.\<close>

record 'd trivial_bus =
  tb_device :: 'd
  tb_change_counter :: u32

definition trivial_write ::
  "'d backend_ops \<Rightarrow> AddressWithMode \<Rightarrow> byte list \<Rightarrow> AccessEffects \<Rightarrow> ('d trivial_bus, write_result) action" where
  "trivial_write bops destination source options b =
     (let b = b\<lparr>tb_change_counter := tb_change_counter b + 1\<rparr> in
      case bm_write bops (tb_device b) (aw_addr destination) source options of
        Inl e \<Rightarrow> (b, Inl e) | Inr (d, r) \<Rightarrow> (b\<lparr>tb_device := d\<rparr>, Inr r))"

definition trivial_read ::
  "'d backend_ops \<Rightarrow> AddressWithMode \<Rightarrow> nat \<Rightarrow> AccessEffects \<Rightarrow> ('d trivial_bus, byte list \<times> nat) action" where
  "trivial_read bops source sz options b =
     (case bm_read bops (tb_device b) (aw_addr source) sz options of
        Inl e \<Rightarrow> (b, Inl e) | Inr (d, bs) \<Rightarrow> (b\<lparr>tb_device := d\<rparr>, Inr (bs, length bs)))"

definition trivial_ops :: "'d backend_ops \<Rightarrow> Endian \<Rightarrow> 'd trivial_bus frontend_ops" where
  "trivial_ops bops endian = \<lparr>
     fm_write = trivial_write bops, fm_read = trivial_read bops, fm_sync = default_sync,
     fm_sfence_vma = default_sfence_vma default_sync,
     fm_location_status = default_location_status, fm_change_counter = tb_change_counter, fm_endian = endian\<rparr>"

section \<open>Finding a range\<close>

text \<open>The ranges are disjoint and sorted, each under its last address.\<close>

fun ranges_ok :: "(address \<times> RangeDesc) list \<Rightarrow> bool" where
  "ranges_ok [] = True"
| "ranges_ok ((k, r) # m) = (k = rd_last r \<and> rd_start r \<le> rd_last r \<and>
     (\<forall>(k', r') \<in> set m. rd_last r < rd_start r') \<and> ranges_ok m)"

lemma ranges_ok_mem: "ranges_ok m \<Longrightarrow> (k, r) \<in> set m \<Longrightarrow> k = rd_last r \<and> rd_start r \<le> rd_last r"
  by (induction m rule: ranges_ok.induct) auto

lemma lower_bound_spec:
  "ranges_ok m \<Longrightarrow> lower_bound m a = Some (k, r) \<Longrightarrow>
    (k, r) \<in> set m \<and> a \<le> k"
  by (induction m a rule: lower_bound.induct) (auto split: if_splits)

lemma lower_bound_None: "lower_bound m a = None \<Longrightarrow> (k, r) \<in> set m \<Longrightarrow> k < a"
  by (induction m a rule: lower_bound.induct) (auto split: if_splits)

lemma ranges_ok_disjoint:
  "ranges_ok m \<Longrightarrow> (k, r) \<in> set m \<Longrightarrow> (k', r') \<in> set m \<Longrightarrow> r \<noteq> r' \<Longrightarrow> rd_last r < rd_start r' \<or> rd_last r' < rd_start r"
  by (induction m rule: ranges_ok.induct) auto

lemma lower_bound_hit:
  assumes "ranges_ok m" "(rd_last r, r) \<in> set m" "range_contains r a"
  shows "lower_bound m a = Some (rd_last r, r)"
  using assms
proof (induction m a rule: lower_bound.induct)
  case (2 k r' m a)
  show ?case
  proof (cases "r' = r")
    case True
    then show ?thesis using 2 by (auto simp: range_contains_def not_less)
  next
    case False
    then have m: "(rd_last r, r) \<in> set m" using 2 by auto
    with 2(2) have "rd_last r' < rd_start r" "k = rd_last r'" by auto
    then have "k < a" using 2(4) by (auto simp: range_contains_def)
    with 2(1) m 2(2,4) show ?thesis by simp
  qed
qed simp

lemma find_range_iff:
  assumes "ranges_ok (ranges_by_addr b)"
  shows "find_range b a = Some r \<longleftrightarrow> (rd_last r, r) \<in> set (ranges_by_addr b) \<and> range_contains r a"
proof
  assume "find_range b a = Some r"
  then show "(rd_last r, r) \<in> set (ranges_by_addr b) \<and> range_contains r a"
    using lower_bound_spec [OF assms, of a] ranges_ok_mem [OF assms]
    by (fastforce simp: find_range_def range_contains_def split: option.splits prod.splits if_splits)
next
  assume "(rd_last r, r) \<in> set (ranges_by_addr b) \<and> range_contains r a"
  then show "find_range b a = Some r"
    using lower_bound_hit [OF assms] by (auto simp: find_range_def range_contains_def)
qed

text \<open>A new range that is disjoint from all others is accepted and keeps the map in order.\<close>

lemma set_qmap_insert: "\<forall>(k', r') \<in> set m. k' \<noteq> k \<Longrightarrow> set (qmap_insert k r m) = insert (k, r) (set m)"
  by (induction k r m rule: qmap_insert.induct) auto

lemma qmap_insert_ok:
  assumes "ranges_ok m" "rd_start r \<le> rd_last r"
    "\<forall>(k', r') \<in> set m. rd_last r < rd_start r' \<or> rd_last r' < rd_start r"
  shows "ranges_ok (qmap_insert (rd_last r) r m)"
  using assms
proof (induction m rule: ranges_ok.induct)
  case (2 k r' m)
  have k: "k = rd_last r'" using 2 by simp
  have "\<forall>(k'', r'') \<in> set m. k'' \<noteq> rd_last r"
    using 2(2,3,4) ranges_ok_mem [of m] by fastforce
  note si = set_qmap_insert [OF this, of r]
  show ?case
  proof (cases "rd_last r' < rd_start r")
    case True
    then have "k < rd_last r" using k 2(3) by auto
    moreover have "ranges_ok (qmap_insert (rd_last r) r m)" using 2 by auto
    ultimately show ?thesis using 2(2) True k si by auto
  next
    case False
    then have lt: "rd_last r < rd_start r'" using 2(4) by auto
    then have "rd_last r < k" using 2(2) k by auto
    moreover have "\<forall>(k'', r'') \<in> set m. rd_last r < rd_start r''"
      using 2(2) lt by fastforce
    ultimately show ?thesis using 2(2,3) lt by auto
  qed
qed simp

lemma insert_disjoint:
  assumes ok: "ranges_ok (ranges_by_addr b)" and sl: "s \<le> l"
    and dis: "\<forall>(k, r) \<in> set (ranges_by_addr b). l < rd_start r \<or> rd_last r < s"
  shows "\<exists>b'. insert_device_to_range b dev s l owns = (b', True) \<and> ranges_ok (ranges_by_addr b') \<and>
    (\<forall>a. find_range b' a = (if s \<le> a \<and> a \<le> l then
       Some \<lparr>rd_device = dev, rd_start = s, rd_last = l, rd_owns = owns\<rparr> else find_range b a)) \<and>
    bus_devices b' = bus_devices b"
proof -
  define r where "r = \<lparr>rd_device = dev, rd_start = s, rd_last = l, rd_owns = owns\<rparr>"
  define b' where "b' = b\<lparr>ranges_by_addr := qmap_insert l r (ranges_by_addr b), ranges_by_device := (dev, r) # ranges_by_device b\<rparr>"
  have "\<not> range_overlaps r' s l" if "(k, r') \<in> set (ranges_by_addr b)" for k r'
    using dis that sl by (fastforce simp: range_overlaps_def range_contains_def)
  then have ins: "insert_device_to_range b dev s l owns = (b', True)"
    using lower_bound_spec [OF ok, of s]
    by (fastforce simp: insert_device_to_range_def b'_def r_def split: option.splits)
  have ne: "\<forall>(k', r') \<in> set (ranges_by_addr b). k' \<noteq> l"
    using dis ranges_ok_mem [OF ok] sl by fastforce
  have ok': "ranges_ok (ranges_by_addr b')"
    using qmap_insert_ok [OF ok, of r] dis sl by (auto simp: b'_def r_def)
  have mem: "set (ranges_by_addr b') = insert (l, r) (set (ranges_by_addr b))"
    using set_qmap_insert [OF ne, of r] by (simp add: b'_def)
  have "find_range b' a = (if s \<le> a \<and> a \<le> l then Some r else find_range b a)" for a
  proof (cases "s \<le> a \<and> a \<le> l")
    case True
    then have "find_range b' a = Some r"
      unfolding find_range_iff [OF ok'] using mem by (simp add: r_def range_contains_def)
    with True show ?thesis by simp
  next
    case False
    have "find_range b' a = Some x \<longleftrightarrow> find_range b a = Some x" for x
    proof -
      have "\<not> range_contains r a" "rd_last r = l" using False by (simp_all add: r_def range_contains_def)
      then show ?thesis unfolding find_range_iff [OF ok'] find_range_iff [OF ok] mem using ne by auto
    qed
    then have "find_range b' a = find_range b a" by (cases "find_range b a"; cases "find_range b' a") auto
    with False show ?thesis by auto
  qed
  with ins ok' show ?thesis by (auto simp: r_def b'_def)
qed

section \<open>The contract of a device in a range\<close>

locale backend_contract =
  fixes bops :: "'d backend_ops"
    and dinv :: "'d \<Rightarrow> bool"
    and dview :: "'d \<Rightarrow> u32 \<Rightarrow> byte"
    and dadmits :: "u64 \<Rightarrow> nat \<Rightarrow> bool"
  assumes dread: "dinv d \<Longrightarrow> 0 < n \<Longrightarrow> dadmits x n \<Longrightarrow>
      \<exists>d'. bm_read bops d x n AE_REGULAR = Inr (d', load_bytes (dview d) (ucast x) n) \<and> dinv d' \<and> dview d' = dview d"
    and dwrite: "dinv d \<Longrightarrow> bs \<noteq> [] \<Longrightarrow> dadmits x (length bs) \<Longrightarrow>
      \<exists>d' r. bm_write bops d x bs AE_REGULAR = Inr (d', r) \<and> dinv d' \<and> n_bytes r = length bs \<and>
        dview d' = store_bytes (dview d) (ucast x) bs"
    and dadmits_bound: "dadmits x n \<Longrightarrow> n \<le> 2 ^ 32"

text \<open>A device connected to one range of the bus, among any others.\<close>

locale device_on_bus = backend_contract bops dinv dview dadmits
  for bops :: "'d backend_ops" and dinv dview dadmits +
  fixes ram :: RangeDesc and endian :: Endian
  assumes ram_order: "rd_start ram \<le> rd_last ram" and ram_size: "unat (rd_last ram - rd_start ram) < 2 ^ 32"
begin

definition on_bus_inv :: "'d data_bus \<Rightarrow> bool" where
  "on_bus_inv b = (ranges_ok (ranges_by_addr b) \<and> (rd_last ram, ram) \<in> set (ranges_by_addr b) \<and>
     dinv (bus_devices b (rd_device ram)))"

definition on_bus_view :: "'d data_bus \<Rightarrow> address \<Rightarrow> byte" where
  "on_bus_view b a = (if range_contains ram a then dview (bus_devices b (rd_device ram)) (ucast (a - rd_start ram)) else 0)"

definition on_bus_admits :: "address \<Rightarrow> nat \<Rightarrow> bool" where
  "on_bus_admits a n = (range_contains ram a \<and> unat a + n \<le> unat (rd_last ram) + 1 \<and> dadmits (a - rd_start ram) n)"

lemma on_bus_find: "on_bus_inv b \<Longrightarrow> range_contains ram a \<Longrightarrow> find_range b a = Some ram"
  using find_range_iff [of b a ram] by (simp add: on_bus_inv_def)

lemma in_range_add:
  assumes "on_bus_admits a n" "i < n"
  shows "range_contains ram (a + of_nat i)" "unat (a + of_nat i) = unat a + i"
proof -
  have le: "unat a + i \<le> unat (rd_last ram)" "unat (rd_start ram) \<le> unat a"
    using assms by (auto simp: on_bus_admits_def range_contains_def word_le_nat_alt)
  then have "unat a + i < 2 ^ 64" 
    using order.strict_trans1 [OF le(1) unsigned_less] by simp
  then show "unat (a + of_nat i) = unat a + i"
    by (simp add: unat_word_ariths unsigned_of_nat take_bit_nat_eq_self)
  then show "range_contains ram (a + of_nat i)" using le by (simp add: range_contains_def word_le_nat_alt)
qed

lemma offset_add: "(ucast (a + of_nat i - rd_start ram) :: u32) = ucast (a - rd_start ram) + of_nat i"
  using ucast_add_of_nat [where 'a = 32, of "a - rd_start ram" i] by (simp add: algebra_simps)

lemma load_on_bus:
  assumes "on_bus_admits a n"
  shows "load_bytes (on_bus_view b) a n = load_bytes (dview (bus_devices b (rd_device ram))) (ucast (a - rd_start ram)) n"
  by (rule nth_equalityI) (simp_all add: on_bus_view_def in_range_add(1) [OF assms] offset_add)

lemma store_on_bus:
  assumes adm: "on_bus_admits a (length bs)"
    and d: "dview d' = store_bytes (dview (bus_devices b (rd_device ram))) (ucast (a - rd_start ram)) bs"
    and b': "bus_devices b' (rd_device ram) = d'"
  shows "on_bus_view b' = store_bytes (on_bus_view b) a bs"
proof
  fix x
  have len: "length bs \<le> 2 ^ 32" using adm dadmits_bound by (auto simp: on_bus_admits_def)
  show "on_bus_view b' x = store_bytes (on_bus_view b) a bs x"
  proof (cases "unat (x - a) < length bs")
    case True
    define i where "i = unat (x - a)"
    have x: "x = a + of_nat i" by (simp add: i_def)
    have i: "i < length bs" using True by (simp add: i_def)
    then have "unat (of_nat i :: u32) = i" using len by (simp add: unsigned_of_nat take_bit_nat_eq_self)
    then have "dview d' (ucast (x - rd_start ram)) = bs ! i"
      unfolding d x offset_add using len i by (simp add: store_bytes_apply)
    then show ?thesis
      using True in_range_add(1) [OF adm i] len b' by (simp add: on_bus_view_def store_bytes_apply x [symmetric] i_def)
  next
    case False
    have "\<not> unat ((ucast (x - rd_start ram) :: u32) - ucast (a - rd_start ram)) < length bs" if "range_contains ram x"
    proof
      define j where "j = unat ((ucast (x - rd_start ram) :: u32) - ucast (a - rd_start ram))"
      assume "unat ((ucast (x - rd_start ram) :: u32) - ucast (a - rd_start ram)) < length bs"
      then have j: "j < length bs" by (simp add: j_def)
      have small: "unat (y - rd_start ram) < 2 ^ 32" if "range_contains ram y" for y
      proof -
        have "unat (z - rd_start ram) = unat z - unat (rd_start ram)" if "rd_start ram \<le> z" for z
          using that by (rule unat_sub)
        then show ?thesis
          using that ram_size ram_order
          by (auto simp: range_contains_def word_le_nat_alt intro: le_less_trans [OF diff_le_mono])
      qed
      have "(ucast (x - rd_start ram) :: u32) = ucast (a - rd_start ram) + of_nat j" by (simp add: j_def)
      then have "(ucast (x - rd_start ram) :: u32) = ucast (a + of_nat j - rd_start ram)" by (simp add: offset_add)
      moreover have "unat (ucast y :: u32) = unat y" if "unat y < 2 ^ 32" for y :: u64
        using that by (simp add: unsigned_ucast_eq take_bit_nat_eq_self)
      ultimately have "unat (x - rd_start ram) = unat (a + of_nat j - rd_start ram)"
        using small [OF that] small [OF in_range_add(1) [OF adm j]] by metis
      then have "x = a + of_nat j" by (metis diff_add_cancel unsigned_word_eqI)
      then have "unat (x - a) = j" using j len by (simp add: unsigned_of_nat take_bit_nat_eq_self)
      with False j show False by simp
    qed
    then show ?thesis using False len b' by (simp add: on_bus_view_def store_bytes_apply d)
  qed
qed

lemma on_bus_read:
  assumes inv: "on_bus_inv b" and n: "0 < n" and adm: "on_bus_admits (aw_addr a) n"
  shows "\<exists>b' k. bus_read bops a n AE_REGULAR b = (b', Inr (load_bytes (on_bus_view b) (aw_addr a) n, k)) \<and>
    on_bus_inv b' \<and> on_bus_view b' = on_bus_view b"
proof -
  let ?d = "bus_devices b (rd_device ram)"
  have c: "range_contains ram (aw_addr a)" and da: "dadmits (aw_addr a - rd_start ram) n"
    using adm by (simp_all add: on_bus_admits_def)
  from inv have di: "dinv ?d" by (simp add: on_bus_inv_def)
  from dread [OF di n da] obtain d' where
    d: "bm_read bops ?d (aw_addr a - rd_start ram) n AE_REGULAR =
      Inr (d', load_bytes (dview ?d) (ucast (aw_addr a - rd_start ram)) n)" "dinv d'" "dview d' = dview ?d" by blast
  define b' where "b' = b\<lparr>bus_devices := (bus_devices b)(rd_device ram := d')\<rparr>"
  have "bus_read_single bops AE_REGULAR b (aw_addr a) n = Inr (b', load_bytes (on_bus_view b) (aw_addr a) n)"
    using on_bus_find [OF inv c] d(1) by (simp add: bus_read_single_def b'_def load_on_bus [OF adm])
  then have "bus_read bops a n AE_REGULAR b = (b', Inr (load_bytes (on_bus_view b) (aw_addr a) n, n))"
    using n by (simp add: bus_read_def lift_action_def act_bind_def repeat_read.simps)
  moreover have "on_bus_inv b'" "on_bus_view b' = on_bus_view b"
    using inv d by (auto simp: on_bus_inv_def on_bus_view_def b'_def)
  ultimately show ?thesis by blast
qed

lemma on_bus_write:
  assumes inv: "on_bus_inv b" and n: "bs \<noteq> []" and adm: "on_bus_admits (aw_addr a) (length bs)"
  shows "\<exists>b' r. bus_write bops a bs AE_REGULAR b = (b', Inr r) \<and> on_bus_inv b' \<and>
    on_bus_view b' = store_bytes (on_bus_view b) (aw_addr a) bs"
proof -
  let ?d = "bus_devices b (rd_device ram)"
  have c: "range_contains ram (aw_addr a)" and da: "dadmits (aw_addr a - rd_start ram) (length bs)"
    using adm by (simp_all add: on_bus_admits_def)
  from inv have di: "dinv ?d" by (simp add: on_bus_inv_def)
  from dwrite [OF di n da] obtain d' r where
    d: "bm_write bops ?d (aw_addr a - rd_start ram) bs AE_REGULAR = Inr (d', r)" "dinv d'" "n_bytes r = length bs"
    and v: "dview d' = store_bytes (dview ?d) (ucast (aw_addr a - rd_start ram)) bs" by blast
  define b1 where "b1 = b\<lparr>bus_devices := (bus_devices b)(rd_device ram := d')\<rparr>"
  define b' where "b' = (if changed r then b1\<lparr>bus_change_counter := bus_change_counter b1 + 1\<rparr> else b1)"
  have "bus_write_single bops AE_REGULAR b (aw_addr a) bs = Inr (b', r)"
    using on_bus_find [OF inv c] d(1) by (simp add: bus_write_single_def b1_def b'_def Let_def)
  then have "bus_write bops a bs AE_REGULAR b = (b', Inr (write_result_add write_result_zero r))"
    using n d(3) by (simp add: bus_write_def lift_action_def repeat_write.simps)
  moreover have "on_bus_inv b'" using inv d(2) by (simp add: on_bus_inv_def b'_def b1_def)
  moreover have "on_bus_view b' = store_bytes (on_bus_view b) (aw_addr a) bs"
    by (rule store_on_bus [OF adm v]) (simp add: b'_def b1_def)
  ultimately show ?thesis by blast
qed

end

sublocale device_on_bus \<subseteq> bus: frontend_contract "bus_ops bops endian" on_bus_inv on_bus_view on_bus_admits
proof
  fix b and n :: nat and a :: AddressWithMode assume "on_bus_inv b" "0 < n" "on_bus_admits (aw_addr a) n"
  from on_bus_read [OF this] show "\<exists>m' k. fm_read (bus_ops bops endian) a n AE_REGULAR b =
      (m', Inr (load_bytes (on_bus_view b) (aw_addr a) n, k)) \<and> on_bus_inv m' \<and> on_bus_view m' = on_bus_view b"
    by (simp add: bus_ops_def)
next
  fix b and bs :: "byte list" and a :: AddressWithMode assume "on_bus_inv b" "bs \<noteq> []" "on_bus_admits (aw_addr a) (length bs)"
  from on_bus_write [OF this] show "\<exists>m' r. fm_write (bus_ops bops endian) a bs AE_REGULAR b = (m', Inr r) \<and>
      on_bus_inv m' \<and> on_bus_view m' = store_bytes (on_bus_view b) (aw_addr a) bs"
    by (simp add: bus_ops_def)
next
  fix x n assume "on_bus_admits x n"
  then show "n \<le> 2 ^ 64" using dadmits_bound by (fastforce simp: on_bus_admits_def)
qed

section \<open>The main memory on the bus\<close>

text \<open>
  The memory serves an access that stays inside one of its 256-byte sections (see
  \<^const>\<open>readable\<close>: a longer read may start in a section that is not allocated yet).
\<close>

definition memory_admits :: "u64 \<Rightarrow> nat \<Rightarrow> bool" where
  "memory_admits x n = (unat x mod MEMORY_SECTION_SIZE + n \<le> MEMORY_SECTION_SIZE)"

fun memory_device_inv :: "'x device \<Rightarrow> bool" where
  "memory_device_inv (Dev_Memory m) = memory_inv m"
| "memory_device_inv (Dev_Other x) = False"

fun memory_device_view :: "'x device \<Rightarrow> u32 \<Rightarrow> byte" where
  "memory_device_view (Dev_Memory m) = mem_view m"
| "memory_device_view (Dev_Other x) = (\<lambda>_. 0)"

interpretation memory_device: backend_contract "device_ops other" memory_device_inv memory_device_view memory_admits
  for other :: "'x backend_ops"
proof
  fix d x and n :: nat assume a: "memory_device_inv (d :: 'x device)" "0 < n" "memory_admits x n"
  then obtain m where d: "d = Dev_Memory m" "memory_inv m" by (cases d) auto
  have "readable m x n" using a by (simp add: readable_def memory_admits_def)
  from memory_read_correct [OF d(2) a(2) this] show "\<exists>d'. bm_read (device_ops other) d x n AE_REGULAR =
      Inr (d', load_bytes (memory_device_view d) (ucast x) n) \<and> memory_device_inv d' \<and>
      memory_device_view d' = memory_device_view d"
    using d by (simp add: device_ops_def)
next
  fix d x and bs :: "byte list" assume a: "memory_device_inv (d :: 'x device)" "bs \<noteq> []" "memory_admits x (length bs)"
  then obtain m where d: "d = Dev_Memory m" "memory_inv m" by (cases d) auto
  have "length bs \<le> 2 ^ 32" using a(3) by (simp add: memory_admits_def memory_constants)
  from memory_write_correct [OF d(2) a(2) this, of x AE_REGULAR] obtain m' r where
    "memory_write m x bs AE_REGULAR = Inr (m', r)" "memory_inv m'" "n_bytes r = length bs"
    "mem_view m' = store_bytes (mem_view m) (ucast x) bs" by blast
  then show "\<exists>d' r. bm_write (device_ops other) d x bs AE_REGULAR = Inr (d', r) \<and> memory_device_inv d' \<and>
      n_bytes r = length bs \<and> memory_device_view d' = store_bytes (memory_device_view d) (ucast x) bs"
    using d by (simp add: device_ops_def)
next
  fix x n assume "memory_admits x n"
  then show "n \<le> 2 ^ 32" by (simp add: memory_admits_def memory_constants)
qed

text \<open>The range the machine gives the memory (\<^verbatim>\<open>machine.cpp\<close>).\<close>

definition ram_range :: RangeDesc where
  "ram_range = \<lparr>rd_device = 0, rd_start = 0x00000000, rd_last = 0xefffffff, rd_owns = False\<rparr>"

interpretation ram: device_on_bus "device_ops other" memory_device_inv memory_device_view memory_admits ram_range endian
  for other :: "'x backend_ops" and endian
  by unfold_locales (simp_all add: ram_range_def)

section \<open>Properties\<close>

text \<open>A bus with the memory alone, empty.\<close>

definition ram_bus :: "'x device data_bus" where
  "ram_bus = fst (insert_device_to_range
     \<lparr>bus_devices = \<lambda>_. Dev_Memory memory_new, ranges_by_addr = [], ranges_by_device = [], bus_change_counter = 0\<rparr>
     0 0x00000000 0xefffffff False)"

lemma ram_bus_inv: "ram.on_bus_inv ram_bus"
  unfolding ram.on_bus_inv_def by (simp add: ram_bus_def insert_device_to_range_def ram_range_def memory_new_inv)

text \<open>
  Whatever the byte order of the host, a word written to the memory through the bus
  is laid out in the byte order of the simulated machine and is read back unchanged: the bytes
  of the memory are those of the value in the simulated order, no other byte changes, and a
  read on a host of either order returns the value.
\<close>

theorem bus_access_host_independent:
  assumes "ram.on_bus_inv b" "ram.on_bus_admits (aw_addr a) 4"
  shows "\<exists>b1 c. write_u32 host (bus_ops (device_ops other) endian) a v AE_REGULAR b = (b1, Inr c) \<and>
    ram.on_bus_view b1 = store_bytes (ram.on_bus_view b) (aw_addr a)
      (case endian of LITTLE \<Rightarrow> le_bytes 4 v | BIG \<Rightarrow> rev (le_bytes 4 v)) \<and>
    (\<exists>b2. read_u32 host' (bus_ops (device_ops other) endian) a AE_REGULAR b1 = (b2, Inr v) \<and>
      ram.on_bus_view b2 = ram.on_bus_view b1)"
proof -
  have e: "fm_endian (bus_ops (device_ops other) endian) = endian" by (simp add: bus_ops_def)
  obtain b1 c where w: "write_generic host (bus_ops (device_ops other) endian) a v AE_REGULAR b = (b1, Inr c)"
    and v: "ram.on_bus_view b1 = store_bytes (ram.on_bus_view b) (aw_addr a) (value_bytes endian v)"
    using ram.bus.write_generic_contract [where m = b and a = a and host = host and v = v and other = other and endian = endian] assms e by auto
  moreover obtain b2 where "read_generic TYPE(32) host' (bus_ops (device_ops other) endian) a AE_REGULAR b1 = (b2, Inr v)"
    "ram.on_bus_view b2 = ram.on_bus_view b1"
    using ram.bus.write_read_generic [OF assms(1) _ _ refl w, of host'] assms(2) by auto
  ultimately show ?thesis by (simp add: accessor_defs value_bytes_def split: Endian.split)
qed

text \<open>A device that is not there, for a bus with the memory alone.\<close>

definition absent_device_ops :: "unit backend_ops" where
  "absent_device_ops = \<lparr>bm_write = (\<lambda>d _ src _. Inr (d, write_result_zero)),
     bm_read = (\<lambda>d _ n _. Inr (d, replicate n 0)), bm_location_status = (\<lambda>_ _. LOCSTAT_ILLEGAL)\<rparr>"

theorem bus_access_host_independent_witness:
  "\<exists>b1 c b2. write_u32 LITTLE (bus_ops (device_ops absent_device_ops) BIG) (plain_address 0x1000) 0x12345678 AE_REGULAR ram_bus = (b1, Inr c) \<and>
    ram.on_bus_view b1 0x1000 = 0x12 \<and>
    read_u32 BIG (bus_ops (device_ops absent_device_ops) BIG) (plain_address 0x1000) AE_REGULAR b1 = (b2, Inr 0x12345678)"
proof -
  have adm: "ram.on_bus_admits (aw_addr (plain_address 0x1000)) 4"
    unfolding ram.on_bus_admits_def
    by (simp add: plain_address_def range_contains_def ram_range_def memory_admits_def memory_constants)
  from bus_access_host_independent [OF ram_bus_inv adm, of LITTLE absent_device_ops BIG "0x12345678" BIG]
  obtain b1 c b2 where "write_u32 LITTLE (bus_ops (device_ops absent_device_ops) BIG) (plain_address 0x1000) 0x12345678 AE_REGULAR ram_bus = (b1, Inr c)"
    "ram.on_bus_view b1 = store_bytes (ram.on_bus_view (ram_bus :: unit device data_bus)) 0x1000 (rev (le_bytes 4 (0x12345678 :: u32)))"
    "read_u32 BIG (bus_ops (device_ops absent_device_ops) BIG) (plain_address 0x1000) AE_REGULAR b1 = (b2, Inr 0x12345678)"
    by auto
  moreover have "store_bytes f 0x1000 (rev (le_bytes 4 (0x12345678 :: u32))) 0x1000 = 0x12" for f :: "u64 \<Rightarrow> byte"
    by (simp add: le_bytes_def upt_rec)
  ultimately show ?thesis by auto
qed

text \<open>
  The search by last address finds exactly the range that contains an address, and
  connecting a device to a range disjoint from all others succeeds, makes the device visible
  on exactly its range and changes no other lookup.
\<close>

theorem bus_ranges_correct:
  assumes "ranges_ok (ranges_by_addr b)" "s \<le> l"
    "\<forall>(k, r) \<in> set (ranges_by_addr b). l < rd_start r \<or> rd_last r < s"
  shows "(find_range b a = Some r \<longleftrightarrow> (rd_last r, r) \<in> set (ranges_by_addr b) \<and> range_contains r a) \<and>
    (\<exists>b'. insert_device_to_range b dev s l owns = (b', True) \<and> ranges_ok (ranges_by_addr b') \<and>
      (\<forall>a. find_range b' a = (if s \<le> a \<and> a \<le> l then
         Some \<lparr>rd_device = dev, rd_start = s, rd_last = l, rd_owns = owns\<rparr> else find_range b a)))"
  using find_range_iff [OF assms(1)] insert_disjoint [OF assms] by blast

theorem bus_ranges_correct_witness:
  "\<exists>b'. insert_device_to_range (ram_bus :: unit device data_bus) 1 0xffffc000 0xffffc03f True = (b', True) \<and>
     find_range b' 0xffffc010 = Some \<lparr>rd_device = 1, rd_start = 0xffffc000, rd_last = 0xffffc03f, rd_owns = True\<rparr> \<and>
     find_range b' 0x200 = find_range (ram_bus :: unit device data_bus) 0x200"
proof -
  have "ranges_ok (ranges_by_addr (ram_bus :: unit device data_bus))"
    "\<forall>(k, r) \<in> set (ranges_by_addr (ram_bus :: unit device data_bus)). 0xffffc03f < rd_start r \<or> rd_last r < 0xffffc000"
    by (simp_all add: ram_bus_def insert_device_to_range_def)
  from bus_ranges_correct [OF this(1) _ this(2), THEN conjunct2, of 1 True]
  obtain b' where "insert_device_to_range (ram_bus :: unit device data_bus) 1 0xffffc000 0xffffc03f True = (b', True)"
    "\<And>a. find_range b' a = (if 0xffffc000 \<le> a \<and> a \<le> 0xffffc03f then
         Some \<lparr>rd_device = 1, rd_start = 0xffffc000, rd_last = 0xffffc03f, rd_owns = True\<rparr>
       else find_range (ram_bus :: unit device data_bus) a)" by auto
  then show ?thesis by (intro exI [of _ b']) simp
qed

text \<open>
  A range that strictly contains a connected one is accepted, although its addresses
  are partly occupied, and part of the new range is then unreachable: the search stops at the
  inner range.
\<close>

theorem bus_insert_accepts_containing_range:
  "\<exists>b'. insert_device_to_range
      (fst (insert_device_to_range
        \<lparr>bus_devices = \<lambda>_. Dev_Memory memory_new, ranges_by_addr = [], ranges_by_device = [], bus_change_counter = 0\<rparr>
        0 0x100 0x1ff False)) 1 0x80 0x2ff False = (b', True) \<and>
     find_range b' 0x90 = None \<and> (\<exists>r. find_range b' 0x180 = Some r \<and> rd_device r = 0)"
  by (simp add: insert_device_to_range_def range_overlaps_def range_contains_def find_range_def)

end
