(* ===== verification/Core_Invariant.thy ===== *)
theory Core_Invariant
  imports Core Action_Logic Memory_Bus
begin

text \<open>
  The invariant of a core: whatever program runs, whatever exceptions are thrown, the register
  file keeps its shape, the program counter stays aligned, the control registers and the branch
  predictor stay in states reachable by their own operations, and the flags that decide which
  instructions are legal follow the privilege level.
\<close>

definition PRIV_BITS :: u32 where
  "PRIV_BITS = IMF_PRIV_M OR IMF_PRIV_H OR IMF_PRIV_S"

definition disallowed_priv :: "PrivilegeLevel \<Rightarrow> u32" where
  "disallowed_priv p = PRIV_BITS AND NOT
     ((if priv_code p \<ge> 1 then IMF_PRIV_S else 0) OR (if priv_code p \<ge> 2 then IMF_PRIV_H else 0) OR
      (if priv_code p \<ge> 3 then IMF_PRIV_M else 0))"

definition flags_follow_privilege :: "Xlen \<Rightarrow> u64 \<Rightarrow> 'm Core \<Rightarrow> bool" where
  "flags_follow_privilege xlen isa_word c \<longleftrightarrow> check_inst_flags_val c = IMF_SUPPORTED \<and>
     check_inst_flags_mask c = unsupported_inst_flags_to_check xlen isa_word OR disallowed_priv (current_privilege_u c)"

definition numbers_ok :: "'m Core \<Rightarrow> bool" where
  "numbers_ok c \<longleftrightarrow> di_num_rs (id_ex c) < 32 \<and> di_num_rt (id_ex c) < 32 \<and> di_num_rd (id_ex c) < 32 \<and>
     xi_num_rd (ex_mem c) < 32 \<and> mi_num_rd (mem_wb c) < 32"

definition core_inv :: "Xlen \<Rightarrow> u64 \<Rightarrow> 'm Core \<Rightarrow> bool" where
  "core_inv xlen isa_word c \<longleftrightarrow> registers_inv (regs c) \<and>
     (\<forall>cs. control_state c = Some cs \<longrightarrow> csr_reachable xlen cs) \<and>
     (\<exists>en type ini n k j. bp_reachable en type ini n k j (core_predictor c)) \<and>
     flags_follow_privilege xlen isa_word c \<and> numbers_ok c"

section \<open>The parts\<close>

lemma flags_bits:
  "IMF_PRIV_S = push_bit 25 1" "IMF_PRIV_H = push_bit 26 1" "IMF_PRIV_M = push_bit 27 1"
  "IMF_SUPPORTED = push_bit 0 1" "IMF_RV64 = push_bit 24 1" "IMF_AMO = push_bit 23 1" "IMF_MUL = push_bit 19 1"
  by (simp_all only: IMF_PRIV_S_def IMF_PRIV_H_def IMF_PRIV_M_def IMF_SUPPORTED_def IMF_RV64_def IMF_AMO_def IMF_MUL_def)

lemma set_current_privilege_flags:
  assumes "flags_follow_privilege xlen isa_word c"
  shows "flags_follow_privilege xlen isa_word (set_current_privilege p c)"
proof -
  have val: "IMF_SUPPORTED AND NOT PRIV_BITS = IMF_SUPPORTED"
    by (simp add: flags_bits PRIV_BITS_def)
  have base: "unsupported_inst_flags_to_check xlen isa_word AND NOT PRIV_BITS = unsupported_inst_flags_to_check xlen isa_word"
    by (simp add: flags_bits PRIV_BITS_def unsupported_inst_flags_to_check_def Let_def)
  have dis: "disallowed_priv q AND NOT PRIV_BITS = 0" for q
    by (auto simp: disallowed_priv_def bit_eq_iff bit_simps)
  have "check_inst_flags_mask c AND NOT PRIV_BITS = unsupported_inst_flags_to_check xlen isa_word"
    using assms base dis by (simp add: flags_follow_privilege_def bit.conj_disj_distrib2)
  moreover have "check_inst_flags_val c AND NOT PRIV_BITS = IMF_SUPPORTED"
    using assms val by (simp add: flags_follow_privilege_def)
  ultimately show ?thesis
    unfolding flags_follow_privilege_def set_current_privilege_def Let_def PRIV_BITS_def [symmetric]
    by (cases p) (simp_all add: disallowed_priv_def ac_simps)
qed

lemma set_current_privilege_simps [simp]:
  "regs (set_current_privilege p c) = regs c" "control_state (set_current_privilege p c) = control_state c"
  "core_predictor (set_current_privilege p c) = core_predictor c" "numbers_ok (set_current_privilege p c) = numbers_ok c"
  "mem (set_current_privilege p c) = mem c" "current_privilege_u (set_current_privilege p c) = p"
  by (simp_all add: set_current_privilege_def Let_def numbers_ok_def)

lemma core_inv_privilege: "core_inv xlen isa c \<Longrightarrow> core_inv xlen isa (set_current_privilege p c)"
  by (simp add: core_inv_def set_current_privilege_flags)

lemma core_inv_mem [simp]: "core_inv xlen isa (c\<lparr>mem := m\<rparr>) = core_inv xlen isa c"
  by (simp add: core_inv_def flags_follow_privilege_def numbers_ok_def)

lemma core_inv_reserved [simp]: "core_inv xlen isa (c\<lparr>LoadReservedRange := r\<rparr>) = core_inv xlen isa c"
  by (simp add: core_inv_def flags_follow_privilege_def numbers_ok_def)

lemma core_inv_free [simp]:
  "core_inv xlen isa (c\<lparr>pc_if := p\<rparr>) = core_inv xlen isa c"
  "core_inv xlen isa (c\<lparr>if_id := f\<rparr>) = core_inv xlen isa c"
  "core_inv xlen isa (c\<lparr>prev_inst_addr := a\<rparr>) = core_inv xlen isa c"
  "core_inv xlen isa (c\<lparr>stall_count := n\<rparr>) = core_inv xlen isa c"
  "core_inv xlen isa (c\<lparr>cycle_count := n\<rparr>) = core_inv xlen isa c"
  "core_inv xlen isa (c\<lparr>hw_breaks := b\<rparr>) = core_inv xlen isa c"
  "core_inv xlen isa (c\<lparr>stop_on_exception := e\<rparr>) = core_inv xlen isa c"
  "core_inv xlen isa (c\<lparr>step_over_exception := e\<rparr>) = core_inv xlen isa c"
  "core_inv xlen isa (c\<lparr>current_asid_u := n\<rparr>) = core_inv xlen isa c"
  by (simp_all add: core_inv_def flags_follow_privilege_def numbers_ok_def)

lemma core_inv_control:
  "core_inv xlen isa c \<Longrightarrow> (\<And>cs. cs' = Some cs \<Longrightarrow> csr_reachable xlen cs) \<Longrightarrow> core_inv xlen isa (c\<lparr>control_state := cs'\<rparr>)"
  by (simp add: core_inv_def flags_follow_privilege_def numbers_ok_def)

lemma core_inv_csr: "core_inv xlen isa c \<Longrightarrow> control_state c = Some cs \<Longrightarrow> csr_reachable xlen cs"
  by (simp add: core_inv_def)

lemma core_inv_predictor:
  assumes "core_inv xlen isa c"
    "\<And>en type ini n k j. bp_reachable en type ini n k j (core_predictor c) \<Longrightarrow> bp_reachable en type ini n k j p"
  shows "core_inv xlen isa (c\<lparr>core_predictor := p\<rparr>)"
  using assms unfolding core_inv_def flags_follow_privilege_def numbers_ok_def by simp blast

lemma core_inv_regs: "core_inv xlen isa c \<Longrightarrow> registers_inv r \<Longrightarrow> core_inv xlen isa (c\<lparr>regs := r\<rparr>)"
  by (simp add: core_inv_def flags_follow_privilege_def numbers_ok_def)

lemma core_inv_registers: "core_inv xlen isa c \<Longrightarrow> registers_inv (regs c)"
  by (simp add: core_inv_def)

section \<open>The operations\<close>

lemma on_mem_ok [act_intro]: "act_ok (core_inv xlen isa) (on_mem f) (\<lambda>_. True)"
  by (simp add: act_ok_def on_mem_def split: prod.splits)

lemma core_get_ok [act_intro]: "(\<And>c. core_inv xlen isa c \<Longrightarrow> Q (f c)) \<Longrightarrow> act_ok (core_inv xlen isa) (core_get f) Q"
  by (simp add: act_ok_def core_get_def)

lemma core_modify_ok [act_intro]: "(\<And>c. core_inv xlen isa c \<Longrightarrow> core_inv xlen isa (f c)) \<Longrightarrow> Q () \<Longrightarrow> act_ok (core_inv xlen isa) (core_modify f) Q"
  by (simp add: act_ok_def core_modify_def)

lemma core_write_pc_ok [act_intro]: "act_ok (core_inv xlen isa) (core_write_pc a) (\<lambda>_. True)"
proof (rule act_okI)
  fix c c' :: "'a Core" and r
  assume inv: "core_inv xlen isa c" and w: "core_write_pc a c = (c', r)"
  show "core_inv xlen isa c' \<and> (\<forall>x. r = Inr x \<longrightarrow> True)"
  proof (cases "write_pc (regs c) a")
    case (Inl e)
    then show ?thesis using inv w by (simp add: core_write_pc_def)
  next
    case (Inr r)
    then have "registers_inv r" using inv by (blast intro: registers_inv_write_pc core_inv_registers)
    then show ?thesis using Inr inv w core_inv_regs by (auto simp: core_write_pc_def)
  qed
qed

lemma core_flush_predictor_ok [act_intro]: "act_ok (core_inv xlen isa) core_flush_predictor (\<lambda>_. True)"
proof (rule act_okI)
  fix c c' :: "'a Core" and r
  assume inv: "core_inv xlen isa c" and f: "core_flush_predictor c = (c', r)"
  show "core_inv xlen isa c' \<and> (\<forall>x. r = Inr x \<longrightarrow> True)"
  proof (cases "bp_flush (core_predictor c)")
    case None
    then show ?thesis using inv f by (simp add: core_flush_predictor_def)
  next
    case (Some p)
    then have "core_inv xlen isa (c\<lparr>core_predictor := p\<rparr>)"
      using inv by (intro core_inv_predictor) (auto dest: bp_flushed)
    then show ?thesis using Some f by (simp add: core_flush_predictor_def)
  qed
qed

lemma catch_page_fault_ok:
  assumes "act_ok P f Q" "\<And>n. Q (h n)" shows "act_ok P (catch_page_fault f h) Q"
proof (rule act_okI)
  fix s s' r assume P: "P s" and f: "catch_page_fault f h s = (s', r)"
  obtain t q where fs: "f s = (t, q)" by force
  have "P t" using act_okD [OF assms(1) P fs] .
  moreover have "q = Inr x \<Longrightarrow> Q x" for x using act_ok_result [OF assms(1) P] fs by blast
  ultimately show "P s' \<and> (\<forall>x. r = Inr x \<longrightarrow> Q x)"
    using f fs assms(2) by (auto simp: catch_page_fault_def split: sum.splits sim_exception.splits)
qed

lemma memory_special_ok [act_intro]: "act_ok (core_inv xlen isa) (memory_special env ctl rd wr v rt a) (\<lambda>_. True)"
  unfolding memory_special_def Let_def reserve_def reset_reservation_def
  by (intro act_intro) simp_all

lemma memory_access_ok: "act_ok (core_inv xlen isa) (memory_access env dt a) (\<lambda>_. True)"
  unfolding memory_access_def by (intro act_intro catch_page_fault_ok) simp_all

lemma write_internal_reachable: "csr_reachable xlen cs \<Longrightarrow> csr_reachable xlen (write_internal i v cs)"
  by (rule csr_written)

lemma increment_internal_reachable: "csr_reachable xlen cs \<Longrightarrow> csr_reachable xlen (increment_internal i n cs)"
  unfolding increment_internal_def by (rule csr_written)

lemma csr_write_reachable: "csr_reachable xlen cs \<Longrightarrow> csr_reachable xlen (fst (csr_write a v p cs))"
  by (auto simp: csr_write_def csr_written split: sum.splits)

lemma deliver_exception_ok [act_intro]: "act_ok (core_inv xlen isa) (deliver_exception e a m) (\<lambda>_. True)"
proof (rule act_okI)
  fix c c' :: "'a Core" and r
  assume inv: "core_inv xlen isa c" and d: "deliver_exception e a m c = (c', r)"
  show "core_inv xlen isa c' \<and> (\<forall>x. r = Inr x \<longrightarrow> True)"
  proof (cases "control_state c")
    case None
    then show ?thesis using inv d by (auto simp: deliver_exception_def Let_def split: if_splits)
  next
    case (Some cs)
    have inv': "core_inv xlen isa (c\<lparr>LoadReservedRange := ar_reset\<rparr>)" using inv by simp
    have upd: "core_inv xlen isa (c\<lparr>LoadReservedRange := ar_reset, control_state := Some cs'\<rparr>)"
      if "csr_reachable xlen cs'" for cs'
      using core_inv_control [OF inv', of "Some cs'"] that by simp
    note reach = core_inv_csr [OF inv Some]
    have pc: "core_write_pc x (set_current_privilege p (c\<lparr>LoadReservedRange := ar_reset, control_state := Some cs'\<rparr>)) = (c', r) \<Longrightarrow>
        csr_reachable xlen cs' \<Longrightarrow> core_inv xlen isa c'" for x p cs'
      using act_okD [OF core_write_pc_ok core_inv_privilege [OF upd]] by blast
    show ?thesis
      using d Some reach unfolding deliver_exception_def Let_def
      by (auto intro!: upd csr_trap csr_cause csr_written dest!: pc split: if_splits)
  qed
qed

definition handler_of :: "'m core_env \<Rightarrow> ExceptionCause \<Rightarrow> 'm handler option" where
  "handler_of env excause = (case ex_handlers env excause of Some h \<Rightarrow> h | None \<Rightarrow> ex_default_handler env)"

definition handlers_keep :: "Xlen \<Rightarrow> u64 \<Rightarrow> 'm core_env \<Rightarrow> bool" where
  "handlers_keep xlen isa env \<longleftrightarrow>
     (\<forall>excause h a b c d. handler_of env excause = Some h \<longrightarrow> act_ok (core_inv xlen isa) (h excause a b c d) (\<lambda>_. True))"

lemma handle_exception_ok:
  assumes "handlers_keep xlen isa env"
  shows "act_ok (core_inv xlen isa) (handle_exception env e a b c d) (\<lambda>_. True)"
  using assms unfolding handle_exception_def handlers_keep_def handler_of_def [symmetric]
  by (intro act_intro) (auto simp: Let_def act_ok_return split: option.split)

lemma unat_inst_number:
  "unat (inst_rs w) < 32" "unat (inst_rt w) < 32" "unat (inst_rd w) < 32"
proof -
  have "unat (ucast (MASK w 5 k) :: u8) < 32" for k
  proof -
    have "MASK w 5 k = take_bit 5 (drop_bit k w)"
      by (simp add: MASK_def take_bit_eq_mask mask_eq_exp_minus_1)
    then have "unat (MASK w 5 k) < 2 ^ 5" by (simp only: unsigned_take_bit_eq take_bit_nat_less_exp)
    then show ?thesis by (simp add: unsigned_ucast_eq take_bit_nat_eq_self)
  qed
  then show "unat (inst_rs w) < 32" "unat (inst_rt w) < 32" "unat (inst_rd w) < 32"
    by (simp_all add: inst_rs_def inst_rt_def inst_rd_def)
qed

definition di_numbers_ok :: "DecodeInterstage \<Rightarrow> bool" where
  "di_numbers_ok d \<longleftrightarrow> di_num_rs d < 32 \<and> di_num_rt d < 32 \<and> di_num_rd d < 32"

lemma decode_ok: "act_ok (core_inv xlen isa) (decode env f) di_numbers_ok"
  by (auto simp: act_ok_def decode_def Let_def di_numbers_ok_def res_bind_Inr_iff unat_inst_number split: prod.splits)

lemma increment_counter_inv: "core_inv xlen isa c \<Longrightarrow> core_inv xlen isa (increment_counter i c)"
  unfolding increment_counter_def
  by (rule core_inv_control) (auto intro: increment_internal_reachable core_inv_csr)

lemma fetch_finish_ok [act_intro]: "act_ok (core_inv xlen isa) (fetch_finish skip a x) (\<lambda>_. True)"
  by (auto simp: act_ok_def fetch_finish_def Let_def increment_counter_inv split: prod.splits)

lemma fetch_ok [act_intro]: "act_ok (core_inv xlen isa) (fetch env pc skip) (\<lambda>_. True)"
proof -
  have "act_ok (core_inv xlen isa) (act_bind (catch_page_fault (act_bind (on_mem f) (\<lambda>w. act_return (w, EXCAUSE_NONE))) h)
     (fetch_finish skip a)) (\<lambda>_. True)" for f h a
    by (intro act_intro catch_page_fault_ok) simp_all
  then show ?thesis
    by (intro act_okI) (auto simp: fetch_def Let_def dest: act_okD split: if_splits)
qed

definition mi_number_ok :: "MemoryInterstage \<Rightarrow> bool" where
  "mi_number_ok m \<longleftrightarrow> mi_num_rd m < 32"

lemma memory_control_ok [act_intro]: "act_ok (core_inv xlen isa) (memory_control xl dt a) (\<lambda>_. True)"
proof (rule act_okI)
  fix c c' :: "'a Core" and r
  assume inv: "core_inv xlen isa c" and d: "memory_control xl dt a c = (c', r)"
  show "core_inv xlen isa c' \<and> (\<forall>x. r = Inr x \<longrightarrow> True)"
  proof (cases "control_state c")
    case None
    then show ?thesis using inv d by (simp add: memory_control_def)
  next
    case (Some cs)
    have upd: "core_inv xlen isa (c\<lparr>control_state := Some cs'\<rparr>)" if "csr_reachable xlen cs'" for cs'
      using core_inv_control [OF inv, of "Some cs'"] that by simp
    have reach: "csr_reachable xlen (increment_internal CSR_MINSTRET 1 cs)"
      using core_inv_csr [OF inv Some] by (rule increment_internal_reachable)
    have wr: "csr_reachable xlen cs'" if "csr_write x v p (increment_internal CSR_MINSTRET 1 cs) = (cs', q)" for x v p cs' q
      using csr_write_reachable [OF reach, of x v p] that by simp
    have ret: "csr_reachable xlen cs''" if "exception_return p q cs' = (cs'', z)" "csr_reachable xlen cs'" for p q cs' cs'' z
      using csr_xret [OF that(2), of p q] that(1) by simp
    show ?thesis
      using d Some inv reach unfolding memory_control_def Let_def
      by (auto intro!: upd core_inv_privilege dest: wr ret split: if_splits prod.splits sum.splits unit.splits)
  qed
qed

lemma update_predictor_inv: "core_inv xlen isa c \<Longrightarrow> core_inv xlen isa (memory_update_predictor xl dt c)"
  unfolding memory_update_predictor_def Let_def by (rule core_inv_predictor) (auto dest: bp_updated)

lemma count_misprediction_inv: "core_inv xlen isa c \<Longrightarrow> core_inv xlen isa (count_misprediction dt a c)"
  unfolding count_misprediction_def by (auto intro!: core_inv_predictor bp_mispredicted)

lemma memory_finish_ok:
  assumes "xi_num_rd dt < 32" shows "act_ok (core_inv xlen isa) (memory_finish xl dt a x) mi_number_ok"
  unfolding memory_finish_def
  by (auto intro!: act_intro simp: update_predictor_inv count_misprediction_inv mi_number_ok_def assms split: prod.splits)

lemma memory_stage_ok:
  assumes "xi_num_rd dt < 32" shows "act_ok (core_inv xlen isa) (memory_stage env dt) mi_number_ok"
proof -
  have "act_ok (core_inv xlen isa) (act_bind (memory_access env dt a) (memory_finish xl dt b)) mi_number_ok" for a b xl
    by (rule act_ok_bind [OF memory_access_ok memory_finish_ok [OF assms]])
  then show ?thesis
    by (intro act_okI) (auto simp: memory_stage_def Let_def dest: act_okD act_ok_result)
qed

section \<open>The steps\<close>

lemma core_inv_id_ex: "core_inv xlen isa c \<Longrightarrow> di_numbers_ok d \<Longrightarrow> core_inv xlen isa (c\<lparr>id_ex := d\<rparr>)"
  by (simp add: core_inv_def flags_follow_privilege_def numbers_ok_def di_numbers_ok_def)

lemma core_inv_ex_mem: "core_inv xlen isa c \<Longrightarrow> xi_num_rd x < 32 \<Longrightarrow> core_inv xlen isa (c\<lparr>ex_mem := x\<rparr>)"
  by (simp add: core_inv_def flags_follow_privilege_def numbers_ok_def)

lemma core_inv_mem_wb: "core_inv xlen isa c \<Longrightarrow> mi_number_ok m \<Longrightarrow> core_inv xlen isa (c\<lparr>mem_wb := m\<rparr>)"
  by (simp add: core_inv_def flags_follow_privilege_def numbers_ok_def mi_number_ok_def)

lemmas core_inv_interstage = core_inv_id_ex core_inv_ex_mem core_inv_mem_wb

lemma core_inv_numbers:
  "core_inv xlen isa c \<Longrightarrow> di_numbers_ok (id_ex c) \<and> xi_num_rd (ex_mem c) < 32 \<and> mi_number_ok (mem_wb c)"
  by (simp add: core_inv_def numbers_ok_def di_numbers_ok_def mi_number_ok_def)

lemma flushed_numbers [simp]:
  "di_numbers_ok di_flush" "xi_num_rd xi_flush < 32" "mi_number_ok mi_flush" "di_numbers_ok (d\<lparr>di_stall := b\<rparr>) = di_numbers_ok d"
  by (simp_all add: di_numbers_ok_def di_flush_def xi_flush_def mi_number_ok_def mi_flush_def)

lemma execute_number [simp]: "xi_num_rd (execute d) = di_num_rd d"
  by (simp add: execute_def Let_def)

lemma writeback_inv: "core_inv xlen isa c \<Longrightarrow> core_inv xlen isa (writeback m c)"
  by (simp add: writeback_def core_inv_regs core_inv_registers registers_inv_write_gp)

lemma single_do_step_ok:
  assumes "handlers_keep xlen isa env"
  shows "act_ok (core_inv xlen isa) (single_do_step env skip) (\<lambda>_. True)"
proof -
  have tail: "act_ok (core_inv xlen isa) (single_do_step env skip) (\<lambda>_. True)" if
    "\<And>d. di_numbers_ok d \<Longrightarrow> act_ok (core_inv xlen isa) (memory_stage env (execute d)) mi_number_ok"
    unfolding single_do_step_def
    by (intro act_ok_bind_any [OF core_get_ok] act_ok_bind_any [OF fetch_ok] act_ok_bind_any [OF core_modify_ok]
          act_ok_bind [OF decode_ok] act_ok_bind [OF that] act_ok_bind_any [OF core_write_pc_ok]
          act_ok_bind_any [OF handle_exception_ok [OF assms]] act_ok_if core_modify_ok act_ok_return)
      (auto simp: di_numbers_ok_def intro!: core_inv_interstage writeback_inv act_ok_bind_any [OF handle_exception_ok [OF assms]] act_ok_return)
  show ?thesis by (rule tail) (simp add: memory_stage_ok di_numbers_ok_def)
qed

lemma forward_to_numbers [simp]: "di_numbers_ok (forward_to n v s d) = di_numbers_ok d"
  by (simp add: forward_to_def di_numbers_ok_def Let_def)

lemma handle_data_hazards_inv: "core_inv xlen isa c \<Longrightarrow> handle_data_hazards hu c = (c', s) \<Longrightarrow> core_inv xlen isa c'"
  by (auto simp: handle_data_hazards_def Let_def core_inv_numbers intro!: core_inv_id_ex split: if_splits prod.splits)

lemma flush_behind_exception_inv: "core_inv xlen isa c \<Longrightarrow> flush_behind_exception c = (c', e) \<Longrightarrow> core_inv xlen isa c'"
  by (auto simp: flush_behind_exception_def Let_def intro!: core_inv_interstage split: if_splits)

lemma flush_and_continue_ok [act_intro]: "act_ok (core_inv xlen isa) (flush_and_continue_from_address a) (\<lambda>_. True)"
  unfolding flush_and_continue_from_address_def
  by (intro act_intro) (auto intro!: core_inv_interstage)

lemma pipelined_next_ok:
  assumes "handlers_keep xlen isa env"
  shows "act_ok (core_inv xlen isa) (pipelined_next env a f e s) (\<lambda>_. True)"
proof (rule act_okI)
  fix c c' :: "'a Core" and r
  assume inv: "core_inv xlen isa c" and p: "pipelined_next env a f e s c = (c', r)"
  have inv': "core_inv xlen isa (c\<lparr>pc_if := q\<rparr>)" for q using inv by simp
  have exc: "act_ok (core_inv xlen isa) (act_bind (core_write_pc x) (\<lambda>_. act_bind (handle_exception env e b d g h) (\<lambda>_. act_return ()))) (\<lambda>_. True)"
    for x e b d g h
    by (intro act_intro handle_exception_ok assms) simp
  show "core_inv xlen isa c' \<and> (\<forall>x. r = Inr x \<longrightarrow> True)"
    using p act_okD [OF exc inv'] act_okD [OF flush_and_continue_ok inv'] act_okD [OF core_write_pc_ok inv'] inv
    by (auto simp: pipelined_next_def Let_def handle_stall_def intro!: core_inv_id_ex split: if_splits)
qed

lemma pipelined_do_step_ok:
  assumes "handlers_keep xlen isa env"
  shows "act_ok (core_inv xlen isa) (pipelined_do_step env hu skip) (\<lambda>_. True)"
proof (rule act_okI)
  fix c0 c' :: "'a Core" and r
  assume inv: "core_inv xlen isa c0" and p: "pipelined_do_step env hu skip c0 = (c', r)"
  have last: "act_ok (core_inv xlen isa) (\<lambda>c. let (c, e) = flush_behind_exception c;
         (c, stall) = (if hu \<noteq> HU_NONE then handle_data_hazards hu c else (c, False))
     in pipelined_next env a f e stall c) (\<lambda>_. True)" for a f
    by (rule act_okI) (auto split: if_splits prod.splits;
        meson flush_behind_exception_inv handle_data_hazards_inv act_okD [OF pipelined_next_ok [OF assms]])
  have "act_ok (core_inv xlen isa) (act_bind (core_modify (writeback (mem_wb c0))) (\<lambda>_.
     act_bind (memory_stage env (ex_mem c0)) (\<lambda>m. act_bind (core_modify (\<lambda>c. c\<lparr>mem_wb := m\<rparr>)) (\<lambda>_.
     act_bind (core_modify (\<lambda>c. c\<lparr>ex_mem := execute (id_ex c)\<rparr>)) (\<lambda>_.
     act_bind (decode env (if_id c0)) (\<lambda>d. act_bind (core_modify (\<lambda>c. c\<lparr>id_ex := d\<rparr>)) (\<lambda>_.
     act_bind (fetch env (pc_if c0) skip) (\<lambda>f. act_bind (core_modify (\<lambda>c. c\<lparr>if_id := f\<rparr>)) (\<lambda>_ c.
     let (c, e) = flush_behind_exception c;
         (c, stall) = (if hu \<noteq> HU_NONE then handle_data_hazards hu c else (c, False))
     in pipelined_next env (mi_inst_addr (mem_wb c0)) (if_id c0) e stall c))))))))) (\<lambda>_. True)"
    by (intro act_ok_bind_any [OF core_modify_ok] act_ok_bind [OF memory_stage_ok] act_ok_bind [OF decode_ok]
          act_ok_bind_any [OF fetch_ok] last)
      (use core_inv_numbers [OF inv] in \<open>auto intro!: writeback_inv core_inv_interstage simp: di_numbers_ok_def dest: core_inv_numbers\<close>)
  from act_okD [OF this inv] p show "core_inv xlen isa c' \<and> (\<forall>x. r = Inr x \<longrightarrow> True)"
    unfolding pipelined_do_step_def Let_def by simp
qed

section \<open>Reachable cores\<close>

text \<open>
  What can happen to a core: steps of the single-cycle or of the pipelined core, resets, the
  settings of the debugger, interrupt lines and other changes of the memory system.
\<close>

inductive core_reachable :: "Xlen \<Rightarrow> u64 \<Rightarrow> 'm core_env \<Rightarrow> HazardUnit option \<Rightarrow> 'm Core \<Rightarrow> bool"
  for xlen isa_word env unit where
  core_start: "registers_new = Inr r \<Longrightarrow> bp_reachable en type ini n k j p \<Longrightarrow>
     (\<And>s. cs = Some s \<Longrightarrow> s = csr_new xlen isa_word) \<Longrightarrow>
     core_reachable xlen isa_word env unit
       (case unit of None \<Rightarrow> core_single_new r p m cs xlen isa_word | Some hu \<Rightarrow> core_pipelined_new r p m cs xlen isa_word)"
| core_single: "core_reachable xlen isa_word env unit c \<Longrightarrow> unit = None \<Longrightarrow>
     core_step (single_do_step env) skip_break c = (c', result) \<Longrightarrow> core_reachable xlen isa_word env unit c'"
| core_pipelined: "core_reachable xlen isa_word env unit c \<Longrightarrow> unit = Some hu \<Longrightarrow>
     core_step (pipelined_do_step env hu) skip_break c = (c', result) \<Longrightarrow> core_reachable xlen isa_word env unit c'"
| core_restart: "core_reachable xlen isa_word env unit c \<Longrightarrow>
     core_reachable xlen isa_word env unit (core_reset (case unit of None \<Rightarrow> single_do_reset | Some hu \<Rightarrow> pipeline_reset) c)"
| core_break: "core_reachable xlen isa_word env unit c \<Longrightarrow> core_reachable xlen isa_word env unit (insert_hwbreak a c)"
| core_unbreak: "core_reachable xlen isa_word env unit c \<Longrightarrow> core_reachable xlen isa_word env unit (remove_hwbreak a c)"
| core_stop_on: "core_reachable xlen isa_word env unit c \<Longrightarrow> core_reachable xlen isa_word env unit (set_stop_on_exception e b c)"
| core_step_over: "core_reachable xlen isa_word env unit c \<Longrightarrow> core_reachable xlen isa_word env unit (set_step_over_exception e b c)"
| core_irq: "core_reachable xlen isa_word env unit c \<Longrightarrow>
     core_reachable xlen isa_word env unit (c\<lparr>control_state := map_option (set_interrupt_signal i b) (control_state c)\<rparr>)"
| core_memory: "core_reachable xlen isa_word env unit c \<Longrightarrow> core_reachable xlen isa_word env unit (c\<lparr>mem := m\<rparr>)"

lemma core_inv_pipeline_reset: "core_inv xlen isa c \<Longrightarrow> core_inv xlen isa (pipeline_reset c)"
  by (simp add: core_inv_def flags_follow_privilege_def numbers_ok_def pipeline_reset_def di_flush_def xi_flush_def mi_flush_def)

lemma core_inv_reset:
  assumes "core_inv xlen isa c"
  shows "core_inv xlen isa (core_reset single_do_reset c)" "core_inv xlen isa (core_reset pipeline_reset c)"
  using assms by (simp_all add: core_reset_def single_do_reset_def core_inv_privilege core_inv_pipeline_reset)

lemma core_inv_new:
  assumes "registers_inv r" "bp_reachable en type ini n k j p" "\<And>s. cs = Some s \<Longrightarrow> s = csr_new xlen isa"
  shows "core_inv xlen isa (core_new r p m cs xlen isa)"
proof -
  have "disallowed_priv MACHINE = 0" by (simp add: disallowed_priv_def PRIV_BITS_def flags_bits)
  then show ?thesis
    unfolding core_inv_def using assms csr_start [of xlen isa]
    by (intro conjI exI [of _ en] exI [of _ type] exI [of _ ini] exI [of _ n] exI [of _ k] exI [of _ j])
      (auto simp: core_new_def flags_follow_privilege_def numbers_ok_def di_flush_def xi_flush_def mi_flush_def)
qed

lemma core_step_inv:
  assumes "act_ok (core_inv xlen isa) (do_step skip) (\<lambda>_. True)" "core_inv xlen isa c" "core_step do_step skip c = (c', r)"
  shows "core_inv xlen isa c'"
  using act_okD [OF assms(1), of "c\<lparr>cycle_count := cycle_count c + 1\<rparr>"] assms(2,3) by (simp add: core_step_def)

lemma core_reachable_inv:
  assumes "core_reachable xlen isa env unit c" "handlers_keep xlen isa env"
  shows "core_inv xlen isa c"
  using assms(1)
proof (induction rule: core_reachable.induct)
  case (core_start r en type ini n k j p cs m)
  then have "core_inv xlen isa (core_new r p m cs xlen isa)"
    by (intro core_inv_new) (auto simp: registers_new_inv)
  then show ?case
    by (simp add: core_single_new_def core_pipelined_new_def core_inv_reset split: option.splits)
next
  case (core_single c skip c' r)
  then show ?case using core_step_inv [where do_step = "single_do_step env", OF single_do_step_ok [OF assms(2)]] by blast
next
  case (core_pipelined c hu skip c' r)
  then show ?case using core_step_inv [where do_step = "pipelined_do_step env hu", OF pipelined_do_step_ok [OF assms(2)]] by blast
next
  case (core_restart c)
  then show ?case by (simp add: core_inv_reset split: option.splits)
next
  case (core_irq c i b)
  then show ?case by (intro core_inv_control) (auto intro: csr_irq core_inv_csr)
qed (simp_all add: insert_hwbreak_def remove_hwbreak_def set_stop_on_exception_def set_step_over_exception_def)

lemma stop_handler_keeps:
  assumes "ex_handlers env = (\<lambda>_. None)" "ex_default_handler env = Some stop_exception_handler"
  shows "handlers_keep xlen isa env"
  using assms by (simp add: handlers_keep_def handler_of_def stop_exception_handler_def act_ok_return)

text \<open>A machine for examples: the core on the bus with the main memory.\<close>

definition ram_env :: "Xlen \<Rightarrow> unit device data_bus core_env" where
  "ram_env xlen = \<lparr>core_xlen = xlen, host_endian = LITTLE,
     mem_data = bus_ops (device_ops absent_device_ops) LITTLE,
     mem_program = bus_ops (device_ops absent_device_ops) LITTLE,
     ex_handlers = (\<lambda>_. None), ex_default_handler = Some stop_exception_handler\<rparr>"

definition reset_registers :: Registers where
  "reset_registers = (case registers_new of Inr r \<Rightarrow> r | Inl _ \<Rightarrow> \<lparr>reg_gp = [], reg_pc = 0\<rparr>)"

definition no_prediction :: BranchPredictor where
  "no_prediction = (case branch_predictor_new False SMITH_1_BIT NOT_TAKEN 2 0 2 of Some (Inr b) \<Rightarrow> b)"

definition ram_core :: "Xlen \<Rightarrow> u64 \<Rightarrow> unit device data_bus Core" where
  "ram_core xlen isa = core_single_new reset_registers no_prediction ram_bus (Some (csr_new xlen isa)) xlen isa"

lemma reset_registers_new: "registers_new = Inr reset_registers"
  and reset_registers_holds: "registers_inv reset_registers" "read_pc reset_registers = PC_INIT"
    "j < 32 \<Longrightarrow> read_gp reset_registers j = (if j = 2 then SP_INIT else 0)"
proof -
  let ?r = "\<lparr>reg_gp = replicate REGISTER_COUNT 0, reg_pc = 0\<rparr>"
  have "length (reg_gp ?r) = REGISTER_COUNT" "reg_gp ?r ! 0 = 0" by (simp_all add: REGISTER_COUNT_def)
  from registers_reset_spec [OF this] obtain r :: Registers where r: "registers_new = Inr r" "registers_inv r" "read_pc r = PC_INIT"
      "\<And>j. j < REGISTER_COUNT \<Longrightarrow> read_gp r j = (if j = 2 then SP_INIT else 0)"
    unfolding registers_new_def by metis
  have "reset_registers = r" unfolding reset_registers_def r(1) by simp
  with r show "registers_new = Inr reset_registers" "registers_inv reset_registers" "read_pc reset_registers = PC_INIT"
    "j < 32 \<Longrightarrow> read_gp reset_registers j = (if j = 2 then SP_INIT else 0)" by (simp_all add: REGISTER_COUNT_def)
qed

lemma no_prediction_new: "branch_predictor_new False SMITH_1_BIT NOT_TAKEN 2 0 2 = Some (Inr no_prediction)"
proof -
  have "\<exists>b. branch_predictor_new False SMITH_1_BIT NOT_TAKEN 2 0 2 = Some (Inr b)"
    by (simp add: branch_predictor_new_def Predictor_new_eq init_number_of_bht_bits_eq Let_def)
  then show ?thesis by (auto simp: no_prediction_def)
qed

lemma ram_core_reachable: "core_reachable xlen isa (ram_env xlen) None (ram_core xlen isa)"
  unfolding ram_core_def
  using core_start [OF reset_registers_new bp_start [OF no_prediction_new], of "Some (csr_new xlen isa)" xlen isa "ram_env xlen" None ram_bus]
  by simp

lemma ram_env_handlers: "handlers_keep xlen isa (ram_env xl)"
  by (rule stop_handler_keeps) (simp_all add: ram_env_def)

text \<open>
  Claim C5: whatever program runs on a core, single-cycle or pipelined with any hazard unit, with
  traps, returns and exceptions of the simulator in between: the register file has 32
  registers and register 0 is zero, the program counter is a multiple of four, the register
  numbers in the pipeline are valid, and \<^verbatim>\<open>sstatus\<close> mirrors \<^verbatim>\<open>mstatus\<close> below bit 32.
\<close>

theorem core_invariant:
  assumes "core_reachable xlen isa env unit c" "handlers_keep xlen isa env"
  shows "length (reg_gp (regs c)) = 32 \<and> reg_gp (regs c) ! 0 = 0 \<and> reg_pc (regs c) mod 4 = 0 \<and>
    numbers_ok c \<and> (\<forall>cs. control_state c = Some cs \<longrightarrow> status_mirror cs \<and> cs_xlen cs = xlen)"
  using core_reachable_inv [OF assms] csr_reachable_mirror
  by (auto simp: core_inv_def registers_inv_def REGISTER_COUNT_def)

theorem core_invariant_witness:
  "length (reg_gp (regs (fst (core_step (single_do_step (ram_env XLEN_32)) False (ram_core XLEN_32 0))))) = 32 \<and>
   reg_pc (regs (fst (core_step (single_do_step (ram_env XLEN_32)) False (ram_core XLEN_32 0)))) mod 4 = 0"
  using core_invariant [OF core_single [OF ram_core_reachable refl prod.collapse [symmetric]] ram_env_handlers] by blast

section \<open>Legal instructions\<close>

lemma bit_flag: "bit (push_bit k 1 :: u32) n \<longleftrightarrow> n = k \<and> k < 32"
  by (auto simp: push_bit_of_1 bit_exp_iff)

lemma flag_test: "k < 32 \<Longrightarrow> has_flag w (push_bit k 1) \<longleftrightarrow> bit w k"
  unfolding has_flag_def and_0_iff bit_flag by blast

lemma bit_check_mask:
  "bit (unsupported_inst_flags_to_check xlen isa OR disallowed_priv p) n \<longleftrightarrow>
     n = 0 \<or> n = 24 \<and> xlen = XLEN_32 \<or> n = 23 \<and> \<not> isa_contains isa CHR ''A'' \<or> n = 19 \<and> \<not> isa_contains isa CHR ''M'' \<or>
     n = 25 \<and> priv_code p < 1 \<or> n = 26 \<and> priv_code p < 2 \<or> n = 27 \<and> priv_code p < 3"
proof -
  have sup: "bit (unsupported_inst_flags_to_check xlen isa) n \<longleftrightarrow>
      n = 0 \<or> n = 24 \<and> xlen = XLEN_32 \<or> n = 23 \<and> \<not> isa_contains isa CHR ''A'' \<or> n = 19 \<and> \<not> isa_contains isa CHR ''M''"
    unfolding unsupported_inst_flags_to_check_def flags_bits Let_def
    by (cases xlen; cases "isa_contains isa CHR ''A''"; cases "isa_contains isa CHR ''M''";
        simp only: Xlen.distinct simp_thms bit_or_iff bit_flag if_True if_False; auto)
  have priv: "bit (disallowed_priv p) n \<longleftrightarrow> n = 25 \<and> priv_code p < 1 \<or> n = 26 \<and> priv_code p < 2 \<or> n = 27 \<and> priv_code p < 3"
    unfolding disallowed_priv_def PRIV_BITS_def flags_bits
    by (cases p; simp only: priv_code.simps bit_and_iff bit_not_iff bit_or_iff bit_flag bit_0_eq bot_fun_def split: if_splits; auto)
  show ?thesis unfolding bit_or_iff sup priv by blast
qed



end
