(* ===== verification/Cache_Policy.thy ===== *)
theory Cache_Policy
  imports Machine_Prelude
begin

text \<open>
  Replacement policies of the cache (\<^verbatim>\<open>src/src/machine/memory/cache/cache_policy.cpp\<close>): least
  recently used, least frequently used, random, tree pseudo-LRU and not most recently used.
  The interface \<^verbatim>\<open>CachePolicy\<close> is a locale: whatever the policy, the way it selects exists and
  an update keeps it able to select.  Every policy of the source interprets it, and so does
  the virtual dispatch over them.  The C library's \<^verbatim>\<open>rand\<close> is not code of the program: its
  results are a parameter, the sequence of values it returns.
\<close>

section \<open>Least recently used\<close>

text \<open>
  One row of statistics is the queue of ways; \<^verbatim>\<open>at\<close> outside the vector throws and is turned
  into a sanity exception.  The index counts down from the back when the way becomes the most
  recent and up from the front when its block becomes invalid.
\<close>

fun lru_to_back :: "nat list \<Rightarrow> nat \<Rightarrow> nat \<Rightarrow> nat \<Rightarrow> nat list result" where
  "lru_to_back row_stats 0 next_way way = Inl Sanity"
| "lru_to_back row_stats (Suc i) next_way way =
     (if i < length row_stats then
        let out = row_stats ! i; row_stats = row_stats[i := next_way] in
        if out = way then Inr row_stats else lru_to_back row_stats i out way
      else Inl Sanity)"

function lru_to_front :: "nat list \<Rightarrow> nat \<Rightarrow> nat \<Rightarrow> nat \<Rightarrow> nat list result" where
  "lru_to_front row_stats i next_way way =
     (if i < length row_stats then
        let out = row_stats ! i; row_stats = row_stats[i := next_way] in
        if out = way then Inr row_stats else lru_to_front row_stats (i + 1) out way
      else Inl Sanity)"
  by pat_completeness auto
termination by (relation "measure (\<lambda>(row, i, _, _). length row - i)") auto

declare lru_to_front.simps [simp del]

definition lru_new :: "nat \<Rightarrow> nat \<Rightarrow> nat list list" where
  "lru_new associativity set_count = replicate set_count [0..<associativity]"

definition lru_update_stats :: "nat \<Rightarrow> nat list list \<Rightarrow> nat \<Rightarrow> nat \<Rightarrow> bool \<Rightarrow> nat list list result" where
  "lru_update_stats associativity stats way row is_valid =
     (if row < length stats then
        res_bind (if is_valid then lru_to_back (stats ! row) associativity way way
                  else lru_to_front (stats ! row) 0 way way)
          (\<lambda>r. Inr (stats[row := r]))
      else Inl Sanity)"

definition lru_select :: "nat list list \<Rightarrow> nat \<Rightarrow> nat result" where
  "lru_select stats row =
     (if row < length stats \<and> stats ! row \<noteq> [] then Inr (stats ! row ! 0) else Inl Sanity)"

section \<open>Least frequently used\<close>

definition lfu_new :: "nat \<Rightarrow> nat \<Rightarrow> u32 list list" where
  "lfu_new associativity set_count = replicate set_count (replicate associativity 0)"

definition lfu_update_stats :: "u32 list list \<Rightarrow> nat \<Rightarrow> nat \<Rightarrow> bool \<Rightarrow> u32 list list result" where
  "lfu_update_stats stats way row is_valid =
     (if row < length stats \<and> way < length (stats ! row) then
        Inr (stats[row := (stats ! row)[way := (if is_valid then stats ! row ! way + 1 else 0)]])
      else Inl Sanity)"

fun lfu_loop :: "u32 list \<Rightarrow> nat \<Rightarrow> nat \<Rightarrow> u32 \<Rightarrow> nat" where
  "lfu_loop [] i index lowest = index"
| "lfu_loop (s # ss) i index lowest =
     (if s = 0 then i
      else if lowest > s then lfu_loop ss (i + 1) i s
      else lfu_loop ss (i + 1) index lowest)"

definition lfu_select :: "u32 list list \<Rightarrow> nat \<Rightarrow> nat result" where
  "lfu_select stats row =
     (if row < length stats \<and> stats ! row \<noteq> [] then
        Inr (lfu_loop (stats ! row) 0 0 (stats ! row ! 0))
      else Inl Sanity)"

section \<open>Random\<close>

definition rand_select :: "(nat \<Rightarrow> nat) \<Rightarrow> nat \<Rightarrow> nat \<Rightarrow> nat" where
  "rand_select rnd associativity calls = rnd calls mod associativity"

section \<open>Pseudo least recently used\<close>

text \<open>The ceiling of the binary logarithm.\<close>

fun clog2_from :: "nat \<Rightarrow> nat \<Rightarrow> nat \<Rightarrow> nat" where
  "clog2_from 0 k n = k"
| "clog2_from (Suc fuel) k n = (if n \<le> 2 ^ k then k else clog2_from fuel (k + 1) n)"

definition clog2 :: "nat \<Rightarrow> nat" where
  "clog2 n = clog2_from n 0 n"

definition plru_new :: "nat \<Rightarrow> nat \<Rightarrow> nat list list" where
  "plru_new associativity set_count = replicate set_count (replicate (2 ^ clog2 associativity - 1) 0)"

function plru_update_loop :: "nat \<Rightarrow> nat \<Rightarrow> nat \<Rightarrow> nat \<Rightarrow> nat list \<Rightarrow> nat list" where
  "plru_update_loop clog way i plru_idx row_ptr =
     (if i < clog then
        plru_update_loop clog way (i + 1) (2 ^ (i + 1) - 1 + way div 2 ^ (clog - 1 - i))
          (row_ptr[plru_idx := (if odd (way div 2 ^ (clog - 1 - i)) then 0 else 1)])
      else row_ptr)"
  by pat_completeness auto
termination by (relation "measure (\<lambda>(c, w, i, p, r). c - i)") auto

function plru_select_loop :: "nat \<Rightarrow> nat \<Rightarrow> nat \<Rightarrow> nat \<Rightarrow> nat list \<Rightarrow> nat" where
  "plru_select_loop clog i idx plru_idx row_ptr =
     (if i < clog then
        let idx = idx * 2 + row_ptr ! plru_idx in
        plru_select_loop clog (i + 1) idx (2 ^ (i + 1) - 1 + idx) row_ptr
      else idx)"
  by pat_completeness auto
termination by (relation "measure (\<lambda>(c, i, x, p, r). c - i)") auto

declare plru_update_loop.simps [simp del] plru_select_loop.simps [simp del]

definition plru_update_stats :: "nat \<Rightarrow> nat list list \<Rightarrow> nat \<Rightarrow> nat \<Rightarrow> nat list list result" where
  "plru_update_stats associativity ptr way row =
     (if row < length ptr then
        Inr (ptr[row := plru_update_loop (clog2 associativity) way 0 0 (ptr ! row)])
      else Inl Sanity)"

definition plru_select :: "nat \<Rightarrow> nat list list \<Rightarrow> nat \<Rightarrow> nat result" where
  "plru_select associativity ptr row =
     (if row < length ptr then
        let idx = plru_select_loop (clog2 associativity) 0 0 0 (ptr ! row) in
        Inr (if idx \<ge> associativity then associativity - 1 else idx)
      else Inl Sanity)"

section \<open>Not most recently used\<close>

definition nmru_new :: "nat \<Rightarrow> nat list" where
  "nmru_new set_count = replicate set_count 0"

definition nmru_update_stats :: "nat list \<Rightarrow> nat \<Rightarrow> nat \<Rightarrow> nat list result" where
  "nmru_update_stats mru way row = (if row < length mru then Inr (mru[row := way]) else Inl Sanity)"

text \<open>The random number is drawn before the row is looked up, and not at all for one way.\<close>

definition nmru_select :: "(nat \<Rightarrow> nat) \<Rightarrow> nat \<Rightarrow> nat list \<Rightarrow> nat \<Rightarrow> nat \<Rightarrow> (nat \<times> nat) result" where
  "nmru_select rnd associativity mru calls row =
     (if associativity = 1 then Inr (0, calls)
      else let idx = rnd calls mod (associativity - 1) in
        if row < length mru then Inr (if idx < mru ! row then idx else idx + 1, calls + 1)
        else Inl Sanity)"

section \<open>Dispatch\<close>

datatype ReplacementPolicy = RP_RAND | RP_LRU | RP_LFU | RP_PLRU | RP_NMRU

text \<open>
  The policy object of a cache: the statistics of its class; beside them the number of
  \<^verbatim>\<open>rand\<close> calls so far, since the policies only read that stream.  \<^verbatim>\<open>PolicyNull\<close> is the null
  pointer that a disabled cache has in its place; a call through it has no defined result in the
  source and is an error here (the cache makes none, since it is disabled).
\<close>

datatype CachePolicy =
    PolicyNull
  | PolicyRAND
  | PolicyLRU "nat list list"
  | PolicyLFU "u32 list list"
  | PolicyPLRU "nat list list"
  | PolicyNMRU "nat list"

definition get_policy_instance :: "bool \<Rightarrow> ReplacementPolicy \<Rightarrow> nat \<Rightarrow> nat \<Rightarrow> CachePolicy" where
  "get_policy_instance enabled rp associativity set_count =
     (if enabled then (case rp of
        RP_RAND \<Rightarrow> PolicyRAND
      | RP_LRU \<Rightarrow> PolicyLRU (lru_new associativity set_count)
      | RP_LFU \<Rightarrow> PolicyLFU (lfu_new associativity set_count)
      | RP_PLRU \<Rightarrow> PolicyPLRU (plru_new associativity set_count)
      | RP_NMRU \<Rightarrow> PolicyNMRU (nmru_new set_count))
      else PolicyNull)"

definition update_stats :: "nat \<Rightarrow> CachePolicy \<Rightarrow> nat \<Rightarrow> nat \<Rightarrow> bool \<Rightarrow> CachePolicy result" where
  "update_stats associativity p way row is_valid = (case p of
     PolicyNull \<Rightarrow> Inl Sanity
   | PolicyRAND \<Rightarrow> Inr PolicyRAND
   | PolicyLRU s \<Rightarrow> res_bind (lru_update_stats associativity s way row is_valid) (\<lambda>s. Inr (PolicyLRU s))
   | PolicyLFU s \<Rightarrow> res_bind (lfu_update_stats s way row is_valid) (\<lambda>s. Inr (PolicyLFU s))
   | PolicyPLRU s \<Rightarrow> res_bind (plru_update_stats associativity s way row) (\<lambda>s. Inr (PolicyPLRU s))
   | PolicyNMRU s \<Rightarrow> res_bind (nmru_update_stats s way row) (\<lambda>s. Inr (PolicyNMRU s)))"

definition select_way_to_evict ::
  "(nat \<Rightarrow> nat) \<Rightarrow> nat \<Rightarrow> CachePolicy \<Rightarrow> nat \<Rightarrow> nat \<Rightarrow> (nat \<times> nat) result" where
  "select_way_to_evict rnd associativity p calls row = (case p of
     PolicyNull \<Rightarrow> Inl Sanity
   | PolicyRAND \<Rightarrow> Inr (rand_select rnd associativity calls, calls + 1)
   | PolicyLRU s \<Rightarrow> res_bind (lru_select s row) (\<lambda>w. Inr (w, calls))
   | PolicyLFU s \<Rightarrow> res_bind (lfu_select s row) (\<lambda>w. Inr (w, calls))
   | PolicyPLRU s \<Rightarrow> res_bind (plru_select associativity s row) (\<lambda>w. Inr (w, calls))
   | PolicyNMRU s \<Rightarrow> nmru_select rnd associativity s calls row)"

section \<open>The interface\<close>

text \<open>
  What a cache relies on: a policy in a good state selects a way that exists and accepts an
  update of any way of any row.
\<close>

locale replacement_policy =
  fixes upd :: "'p \<Rightarrow> nat \<Rightarrow> nat \<Rightarrow> bool \<Rightarrow> 'p result"
    and sel :: "'p \<Rightarrow> nat \<Rightarrow> nat \<Rightarrow> (nat \<times> nat) result"
    and inv :: "'p \<Rightarrow> bool"
    and ways rows :: nat
  assumes upd_ok: "inv p \<Longrightarrow> way < ways \<Longrightarrow> row < rows \<Longrightarrow> \<exists>p'. upd p way row v = Inr p' \<and> inv p'"
    and sel_ok: "inv p \<Longrightarrow> row < rows \<Longrightarrow> \<exists>way calls'. sel p calls row = Inr (way, calls') \<and> way < ways"
begin

text \<open>Any sequence of updates is accepted, and the policy can still select afterwards.\<close>

fun updates :: "'p \<Rightarrow> (nat \<times> nat \<times> bool) list \<Rightarrow> 'p result" where
  "updates p [] = Inr p"
| "updates p ((way, row, v) # us) = res_bind (upd p way row v) (\<lambda>p. updates p us)"

lemma updates_ok:
  assumes "inv p" "\<forall>(way, row, v) \<in> set us. way < ways \<and> row < rows"
  shows "\<exists>p'. updates p us = Inr p' \<and> inv p'"
  using assms
proof (induction us arbitrary: p)
  case (Cons u us)
  obtain way row v where u: "u = (way, row, v)" by (cases u)
  with Cons.prems upd_ok [of p way row v] obtain p' where "upd p way row v = Inr p'" "inv p'" by auto
  with Cons.IH [of p'] Cons.prems u show ?case by simp
qed simp

lemma select_after_updates:
  assumes "inv p" "\<forall>(way, row, v) \<in> set us. way < ways \<and> row < rows" "row < rows"
  shows "\<exists>p' way calls'. updates p us = Inr p' \<and> sel p' calls row = Inr (way, calls') \<and> way < ways"
  using updates_ok [OF assms(1,2)] sel_ok [OF _ assms(3)] by blast

end

section \<open>Least recently used: lemmas\<close>

lemma lru_to_back_split:
  "way \<notin> set post \<Longrightarrow>
   lru_to_back (pre @ way # post @ done) (length pre + 1 + length post) nxt way = Inr (pre @ post @ nxt # done)"
proof (induction post arbitrary: nxt "done" rule: rev_induct)
  case Nil
  then show ?case by simp
next
  case (snoc x post)
  have "lru_to_back (pre @ way # post @ nxt # done) (length pre + 1 + length post) x way =
      Inr (pre @ post @ x # nxt # done)"
    using snoc by simp
  with snoc.prems show ?case by (simp add: nth_append list_update_append)
qed

lemma lru_to_front_split:
  "way \<notin> set pre \<Longrightarrow>
   lru_to_front (done @ pre @ way # post) (length done) nxt way = Inr (done @ nxt # pre @ post)"
proof (induction pre arbitrary: nxt "done")
  case Nil
  then show ?case by (simp add: lru_to_front.simps nth_append list_update_append)
next
  case (Cons x pre)
  have "lru_to_front ((done @ [nxt]) @ pre @ way # post) (length (done @ [nxt])) x way =
      Inr ((done @ [nxt]) @ x # pre @ post)"
    using Cons by (intro Cons.IH) simp
  with Cons.prems show ?case by (subst lru_to_front.simps) (simp add: nth_append list_update_append)
qed

text \<open>The bubble passes are the queue operations the comment describes.\<close>

lemma lru_to_back_eq:
  assumes "distinct q" "way \<in> set q" "length q = n"
  shows "lru_to_back q n way way = Inr (remove1 way q @ [way])"
proof -
  obtain pre post where q: "q = pre @ way # post" using assms(2) by (meson split_list)
  with assms(1) have "way \<notin> set pre" "way \<notin> set post" by auto
  with q assms(3) lru_to_back_split [of way post pre "[]" way] show ?thesis
    by (simp add: remove1_append remove1_idem)
qed

lemma lru_to_front_eq:
  assumes "distinct q" "way \<in> set q"
  shows "lru_to_front q 0 way way = Inr (way # remove1 way q)"
proof -
  obtain pre post where q: "q = pre @ way # post" using assms(2) by (meson split_list)
  with assms(1) have "way \<notin> set pre" "way \<notin> set post" by auto
  with q lru_to_front_split [of way pre "[]" post way] show ?thesis
    by (simp add: remove1_append remove1_idem)
qed

definition lru_inv :: "nat \<Rightarrow> nat \<Rightarrow> nat list list \<Rightarrow> bool" where
  "lru_inv ways rows stats = (length stats = rows \<and> (\<forall>q \<in> set stats. distinct q \<and> set q = {..<ways}))"

lemma lru_inv_row:
  assumes "lru_inv ways rows stats" "row < rows"
  shows "distinct (stats ! row)" "set (stats ! row) = {..<ways}" "length (stats ! row) = ways"
  using assms nth_mem [of row stats] distinct_card [of "stats ! row"] by (auto simp: lru_inv_def)

lemma lru_update_eq:
  assumes "lru_inv ways rows stats" "way < ways" "row < rows"
  shows "lru_update_stats ways stats way row v =
    Inr (stats[row := (if v then remove1 way (stats ! row) @ [way] else way # remove1 way (stats ! row))])"
proof -
  note q = lru_inv_row [OF assms(1,3)]
  have "way \<in> set (stats ! row)" "row < length stats" using q assms by (auto simp: lru_inv_def)
  with q show ?thesis by (simp add: lru_update_stats_def lru_to_back_eq lru_to_front_eq)
qed

interpretation lru: replacement_policy "lru_update_stats ways" "\<lambda>s calls row. res_bind (lru_select s row) (\<lambda>w. Inr (w, calls))"
    "\<lambda>s. 0 < ways \<and> lru_inv ways rows s" ways rows for ways rows
proof unfold_locales
  fix p way row v assume inv: "0 < ways \<and> lru_inv ways rows p" and w: "way < ways" and r: "row < rows"
  note q = lru_inv_row [OF conjunct2 [OF inv] r]
  have "lru_inv ways rows (p[row := (if v then remove1 way (p ! row) @ [way] else way # remove1 way (p ! row))])"
    unfolding lru_inv_def
  proof (intro conjI ballI)
    show "length (p[row := (if v then remove1 way (p ! row) @ [way] else way # remove1 way (p ! row))]) = rows"
      using inv by (simp add: lru_inv_def)
    fix q' assume "q' \<in> set (p[row := (if v then remove1 way (p ! row) @ [way] else way # remove1 way (p ! row))])"
    then consider "q' = (if v then remove1 way (p ! row) @ [way] else way # remove1 way (p ! row))" | "q' \<in> set p"
      using set_update_subset_insert by fast
    then show "distinct q'" "set q' = {..<ways}"
      using q w inv by (cases; auto simp: lru_inv_def distinct_remove1)+
  qed
  with inv lru_update_eq [OF _ w r] show "\<exists>p'. lru_update_stats ways p way row v = Inr p' \<and> 0 < ways \<and> lru_inv ways rows p'"
    by auto
next
  fix p row and calls :: nat assume inv: "0 < ways \<and> lru_inv ways rows p" and r: "row < rows"
  note q = lru_inv_row [OF conjunct2 [OF inv] r]
  have "p ! row \<noteq> []" using inv q(3) by auto
  moreover from this have "p ! row ! 0 \<in> set (p ! row)" by (cases "p ! row") auto
  ultimately show "\<exists>way calls'. res_bind (lru_select p row) (\<lambda>w. Inr (w, calls)) = Inr (way, calls') \<and> way < ways"
    using q(2) inv r by (auto simp: lru_select_def lru_inv_def)
qed

section \<open>Least frequently used: lemmas\<close>

lemma lfu_loop_minimal:
  assumes "ss = drop k xs" "k \<le> length xs"
    "\<forall>j < k. lowest \<le> xs ! j" "index < k" "xs ! index = lowest" "lowest \<noteq> 0"
  shows "lfu_loop ss k index lowest < length xs \<and> (\<forall>j < length xs. xs ! lfu_loop ss k index lowest \<le> xs ! j)"
  using assms
proof (induction ss k index lowest rule: lfu_loop.induct)
  case (1 i index lowest)
  then show ?case by simp
next
  case (2 s ss k index lowest)
  have k: "k < length xs" "xs ! k = s" "ss = drop (k + 1) xs"
    using 2(3) by (metis drop_eq_Nil list.distinct(1) not_le, metis nth_via_drop, metis Suc_eq_plus1 drop_Suc list.sel(3) tl_drop)
  show ?case
  proof (cases "s = 0")
    case True
    with k show ?thesis by (simp only: lfu_loop.simps if_True) (simp add: word_coorder.extremum)
  next
    case no: False
    show ?thesis
    proof (cases "lowest > s")
      case True
      have "j < k \<Longrightarrow> s \<le> xs ! j" for j using True 2(5) by (meson less_imp_le order.trans)
      then have "\<forall>j < k + 1. s \<le> xs ! j" using k(2) by (metis Suc_eq_plus1 less_Suc_eq order_refl)
      from 2(1) [OF no True k(3) _ this _ k(2) no] k(1) show ?thesis
        unfolding lfu_loop.simps if_not_P [OF no] if_P [OF True] by simp
    next
      case False
      then have "\<forall>j < k + 1. lowest \<le> xs ! j" using k(2) 2(5) by (metis Suc_eq_plus1 less_Suc_eq not_less)
      from 2(2) [OF no False k(3) _ this _ 2(7,8)] k(1) 2(6) show ?thesis
        unfolding lfu_loop.simps if_not_P [OF no] if_not_P [OF False] by simp
    qed
  qed
qed

lemma lfu_select_minimal:
  assumes "row < length stats" "stats ! row \<noteq> []"
  shows "\<exists>w. lfu_select stats row = Inr w \<and> w < length (stats ! row) \<and>
    (\<forall>j < length (stats ! row). stats ! row ! w \<le> stats ! row ! j)"
proof -
  obtain s ss where r: "stats ! row = s # ss" using assms(2) by (cases "stats ! row") auto
  show ?thesis
  proof (cases "s = 0")
    case True
    then have "lfu_select stats row = Inr 0" using assms(1) by (simp add: lfu_select_def r)
    moreover have "stats ! row ! 0 = 0" using True r by simp
    ultimately show ?thesis using assms(2) by (metis length_greater_0_conv word_coorder.extremum)
  next
    case False
    have e: "lfu_loop (s # ss) 0 0 s = lfu_loop ss 1 0 s" using False by simp
    have "lfu_loop ss 1 0 s < length (s # ss) \<and> (\<forall>j < length (s # ss). (s # ss) ! lfu_loop ss 1 0 s \<le> (s # ss) ! j)"
      by (rule lfu_loop_minimal) (use False in simp_all)
    then show ?thesis using assms unfolding lfu_select_def r by (simp only: e nth_Cons_0) simp
  qed
qed

definition lfu_inv :: "nat \<Rightarrow> nat \<Rightarrow> u32 list list \<Rightarrow> bool" where
  "lfu_inv ways rows stats = (length stats = rows \<and> (\<forall>q \<in> set stats. length q = ways))"

interpretation lfu: replacement_policy "lfu_update_stats" "\<lambda>s calls row. res_bind (lfu_select s row) (\<lambda>w. Inr (w, calls))"
    "\<lambda>s. 0 < ways \<and> lfu_inv ways rows s" ways rows for ways rows
proof unfold_locales
  fix p way row v assume inv: "0 < ways \<and> lfu_inv ways rows p" and w: "way < ways" and r: "row < rows"
  have len: "length (p ! row) = ways" "row < length p" using inv r nth_mem [of row p] by (auto simp: lfu_inv_def)
  moreover have "lfu_inv ways rows (p[row := (p ! row)[way := x]])" for x
  proof -
    have "q \<in> set (p[row := (p ! row)[way := x]]) \<Longrightarrow> q = (p ! row)[way := x] \<or> q \<in> set p" for q
      by (meson insertE set_update_subset_insert subsetD)
    then have "length q = ways" if "q \<in> set (p[row := (p ! row)[way := x]])" for q
      using that inv len(1) unfolding lfu_inv_def by fastforce
    then show ?thesis using inv by (simp add: lfu_inv_def)
  qed
  ultimately show "\<exists>p'. lfu_update_stats p way row v = Inr p' \<and> 0 < ways \<and> lfu_inv ways rows p'"
    using inv w by (simp add: lfu_update_stats_def)
next
  fix p row and calls :: nat assume inv: "0 < ways \<and> lfu_inv ways rows p" and r: "row < rows"
  have len: "length (p ! row) = ways" "row < length p" using inv r nth_mem [of row p] by (auto simp: lfu_inv_def)
  with lfu_select_minimal [of row p] inv
  show "\<exists>way calls'. res_bind (lfu_select p row) (\<lambda>w. Inr (w, calls)) = Inr (way, calls') \<and> way < ways" by auto
qed

section \<open>Pseudo least recently used: lemmas\<close>

lemma clog2_from_bounds:
  assumes "n \<le> 2 ^ (k + fuel)" "k = 0 \<or> 2 ^ (k - 1) < n"
  shows "n \<le> 2 ^ clog2_from fuel k n \<and> (clog2_from fuel k n = 0 \<or> 2 ^ (clog2_from fuel k n - 1) < n)"
  using assms by (induction fuel k n rule: clog2_from.induct) auto

lemma clog2_bounds: "n \<le> 2 ^ clog2 n" "clog2 n = 0 \<or> 2 ^ (clog2 n - 1) < n"
  using clog2_from_bounds [of n 0 n] by (simp_all add: clog2_def less_imp_le [OF less_exp])

lemma plru_update_length [simp]: "length (plru_update_loop clog way i p r) = length r"
  by (induction clog way i p r rule: plru_update_loop.induct) (subst plru_update_loop.simps, simp)

lemma plru_update_bits: "set r \<subseteq> {0, 1} \<Longrightarrow> set (plru_update_loop clog way i p r) \<subseteq> {0, 1}"
proof (induction clog way i p r rule: plru_update_loop.induct)
  case (1 clog way i p r)
  show ?case
  proof (cases "i < clog")
    case True
    have "set (r[p := (if odd (way div 2 ^ (clog - 1 - i)) then 0 else 1)]) \<subseteq> {0, 1}"
      using 1(2) by (intro subset_trans [OF set_update_subset_insert]) simp
    from 1(1) [OF True this] True show ?thesis by (subst plru_update_loop.simps) simp
  qed (use 1(2) in \<open>subst plru_update_loop.simps, simp\<close>)
qed

text \<open>The root pointer is written by the first round only, and it decides the top bit of the choice.\<close>

lemma plru_update_root:
  assumes "0 < i" "0 < p" shows "plru_update_loop clog way i p r ! 0 = r ! 0"
  using assms
proof (induction clog way i p r rule: plru_update_loop.induct)
  case (1 clog way i p r)
  show ?case
  proof (cases "i < clog")
    case True
    have "1 < (2 :: nat) ^ (i + 1)" by (metis Suc_eq_plus1 one_less_numeral_iff power_gt1 semiring_norm(76))
    then have "0 < (2 :: nat) ^ (i + 1) - 1 + way div 2 ^ (clog - 1 - i)" by linarith
    from 1(1) [OF True _ this] True 1(3) show ?thesis by (subst plru_update_loop.simps) simp
  qed (subst plru_update_loop.simps, simp)
qed

lemma plru_select_top:
  assumes "set r \<subseteq> {0, 1}" "i \<le> clog"
    "\<And>j x. i \<le> j \<Longrightarrow> j < clog \<Longrightarrow> x < 2 ^ j \<Longrightarrow> 2 ^ j - 1 + x < length r"
    "p = 2 ^ i - 1 + idx" "idx < 2 ^ i"
  shows "plru_select_loop clog i idx p r div 2 ^ (clog - i) = idx"
  using assms
proof (induction clog i idx p r rule: plru_select_loop.induct)
  case (1 clog i idx p r)
  show ?case
  proof (cases "i < clog")
    case True
    define idx' where "idx' = idx * 2 + r ! p"
    have "p < length r" using 1(4) [of i idx] True 1(5,6) by simp
    then have b: "r ! p \<le> 1" using 1(2) nth_mem by fastforce
    have "idx' < 2 ^ (i + 1)" using b 1(6) by (simp add: idx'_def)
    from 1(1) [OF True refl, folded idx'_def, OF 1(2) _ _ refl this] 1(4) True
    have "plru_select_loop clog (i + 1) idx' (2 ^ (i + 1) - 1 + idx') r div 2 ^ (clog - (i + 1)) = idx'" by simp
    then have "plru_select_loop clog i idx p r div 2 ^ (clog - (i + 1)) = idx'"
      using True by (subst plru_select_loop.simps) (simp add: Let_def idx'_def)
    moreover have "(2 :: nat) ^ (clog - i) = 2 ^ (clog - (i + 1)) * 2"
      using True by (metis Suc_diff_Suc Suc_eq_plus1 power_Suc2)
    ultimately have "plru_select_loop clog i idx p r div 2 ^ (clog - i) = idx' div 2"
      by (simp add: div_mult2_eq)
    then show ?thesis using b by (simp add: idx'_def)
  next
    case False
    then show ?thesis using 1(3) by (subst plru_select_loop.simps) simp
  qed
qed

definition plru_inv :: "nat \<Rightarrow> nat \<Rightarrow> nat list list \<Rightarrow> bool" where
  "plru_inv ways rows ptr = (length ptr = rows \<and>
     (\<forall>r \<in> set ptr. length r = 2 ^ clog2 ways - 1 \<and> set r \<subseteq> {0, 1}))"

lemma plru_inv_row:
  assumes "plru_inv ways rows ptr" "row < rows"
  shows "row < length ptr" "length (ptr ! row) = 2 ^ clog2 ways - 1" "set (ptr ! row) \<subseteq> {0, 1}"
  using assms nth_mem [of row ptr] by (auto simp: plru_inv_def)

lemma plru_update_inv:
  assumes "plru_inv ways rows ptr" "row < rows"
  shows "\<exists>ptr'. plru_update_stats ways ptr way row = Inr ptr' \<and> plru_inv ways rows ptr' \<and>
    ptr' ! row = plru_update_loop (clog2 ways) way 0 0 (ptr ! row)"
proof -
  define r' where "r' = plru_update_loop (clog2 ways) way 0 0 (ptr ! row)"
  note r = plru_inv_row [OF assms]
  have "length r' = 2 ^ clog2 ways - 1" "set r' \<subseteq> {0, 1}"
    using r(2) plru_update_bits [OF r(3)] by (simp_all add: r'_def)
  moreover have "q \<in> set (ptr[row := r']) \<Longrightarrow> q = r' \<or> q \<in> set ptr" for q
    by (meson insertE set_update_subset_insert subsetD)
  ultimately have "plru_inv ways rows (ptr[row := r'])" using assms(1) by (auto simp: plru_inv_def)
  then show ?thesis using r(1) by (simp add: plru_update_stats_def r'_def)
qed

lemma plru_pointer_bound: "j < clog \<Longrightarrow> x < 2 ^ j \<Longrightarrow> 2 ^ j - 1 + x < (2 :: nat) ^ clog - 1"
proof -
  assume j: "j < clog" and x: "x < 2 ^ j"
  have "(2 :: nat) ^ (j + 1) \<le> 2 ^ clog" using j by (intro power_increasing) auto
  then show ?thesis using x by simp
qed

lemma plru_select_bound:
  assumes "set r \<subseteq> {0, 1}" "length r = 2 ^ clog - 1" "0 < clog"
  shows "plru_select_loop clog 0 0 0 r div 2 ^ (clog - 1) = r ! 0"
proof -
  have len: "0 < length r" using assms(2,3) plru_pointer_bound [of 0 clog 0] by simp
  then have b: "r ! 0 \<le> 1" using assms(1) nth_mem [OF len] by fastforce
  have "plru_select_loop clog 1 (r ! 0) (2 ^ 1 - 1 + r ! 0) r div 2 ^ (clog - 1) = r ! 0"
  proof (rule plru_select_top)
    show "2 ^ j - 1 + x < length r" if "j < clog" "x < 2 ^ j" for j x
      unfolding assms(2) by (rule plru_pointer_bound [OF that])
  qed (use assms b in simp_all)
  then show ?thesis using assms(3) by (subst plru_select_loop.simps) (simp add: Let_def)
qed

interpretation plru: replacement_policy "\<lambda>s way row v. plru_update_stats ways s way row"
    "\<lambda>s calls row. res_bind (plru_select ways s row) (\<lambda>w. Inr (w, calls))"
    "\<lambda>s. 0 < ways \<and> plru_inv ways rows s" ways rows for ways rows
proof unfold_locales
  fix p way row and v :: bool assume "0 < ways \<and> plru_inv ways rows p" "way < ways" "row < rows"
  with plru_update_inv [of ways rows p row way]
  show "\<exists>p'. plru_update_stats ways p way row = Inr p' \<and> 0 < ways \<and> plru_inv ways rows p'" by auto
next
  fix p row and calls :: nat assume "0 < ways \<and> plru_inv ways rows p" "row < rows"
  then show "\<exists>way calls'. res_bind (plru_select ways p row) (\<lambda>w. Inr (w, calls)) = Inr (way, calls') \<and> way < ways"
    by (auto simp: plru_select_def plru_inv_row Let_def)
qed

text \<open>The block used last is not the one selected, if there is a choice.\<close>

lemma plru_avoids_last:
  assumes inv: "plru_inv ways rows ptr" and w: "way < ways" and r: "row < rows" and two: "2 \<le> ways"
    and upd: "plru_update_stats ways ptr way row = Inr ptr'" and sel: "plru_select ways ptr' row = Inr way'"
  shows "way' \<noteq> way"
proof -
  define k where "k = clog2 ways"
  have k: "0 < k" "ways \<le> 2 ^ k" "2 ^ (k - 1) < ways"
    using clog2_bounds [of ways] two by (auto simp: k_def intro: gr0I)
  note row = plru_inv_row [OF inv r]
  obtain inv': "plru_inv ways rows ptr'" and row': "ptr' ! row = plru_update_loop k way 0 0 (ptr ! row)"
    using plru_update_inv [OF inv r, of way] upd by (auto simp: k_def)
  define top where "top = way div 2 ^ (k - 1)"
  have top: "top \<le> 1"
  proof -
    have "way < 2 ^ (k - 1) * 2" using w k by (metis Suc_diff_1 less_le_trans power_Suc2)
    then show ?thesis by (simp add: top_def less_mult_imp_div_less mult.commute less_Suc_eq_le [symmetric])
  qed
  have p0: "ptr' ! row ! 0 = 1 - top"
  proof -
    have "0 < length (ptr ! row)" using row(2) plru_pointer_bound [of 0 k 0] k(1) by (simp add: k_def)
    moreover have "(2 :: nat) ^ (0 + 1) - 1 + way div 2 ^ (k - 1 - 0) > 0" by simp
    ultimately show ?thesis
      using k(1) top plru_update_root [of 1 "2 ^ (0 + 1) - 1 + way div 2 ^ (k - 1 - 0)"]
      by (subst row', subst plru_update_loop.simps) (auto simp: top_def le_Suc_eq)
  qed
  define idx where "idx = plru_select_loop k 0 0 0 (ptr' ! row)"
  have idx: "idx div 2 ^ (k - 1) = 1 - top"
    using plru_select_bound [of "ptr' ! row" k] plru_inv_row [OF inv' r] k(1) p0 by (simp add: idx_def k_def)
  have sel': "way' = (if idx \<ge> ways then ways - 1 else idx)"
    using sel plru_inv_row(1) [OF inv' r] by (auto simp: plru_select_def idx_def k_def Let_def)
  show ?thesis
  proof (cases "idx < ways")
    case True
    then show ?thesis using idx sel' top by (auto simp: top_def le_Suc_eq)
  next
    case False
    have "(ways - 1) div 2 ^ (k - 1) \<ge> 1" using k(3) by (simp add: Suc_le_eq div_greater_zero_iff)
    moreover have "1 \<le> idx div 2 ^ (k - 1)" using False k(3) by (simp add: Suc_le_eq div_greater_zero_iff)
    ultimately show ?thesis using idx sel' False top by (auto simp: top_def)
  qed
qed

section \<open>Not most recently used: lemmas\<close>

definition nmru_inv :: "nat \<Rightarrow> nat \<Rightarrow> nat list \<Rightarrow> bool" where
  "nmru_inv ways rows mru = (length mru = rows \<and> (\<forall>w \<in> set mru. w < ways))"

lemma nmru_select_avoids:
  assumes "nmru_inv ways rows mru" "row < rows" "2 \<le> ways"
  shows "\<exists>w. nmru_select rnd ways mru calls row = Inr (w, calls + 1) \<and> w < ways \<and> w \<noteq> mru ! row"
proof -
  have "rnd calls mod (ways - 1) < ways - 1" using assms(3) by (intro mod_less_divisor) simp
  moreover have "row < length mru" "ways \<noteq> 1" using assms by (simp_all add: nmru_inv_def)
  ultimately show ?thesis by (auto simp: nmru_select_def Let_def)
qed

interpretation nmru: replacement_policy "\<lambda>s way row v. nmru_update_stats s way row" "nmru_select rnd ways"
    "\<lambda>s. 0 < ways \<and> nmru_inv ways rows s" ways rows for rnd ways rows
proof unfold_locales
  fix p way row and v :: bool assume a: "0 < ways \<and> nmru_inv ways rows p" "way < ways" "row < rows"
  have "w \<in> set (p[row := way]) \<Longrightarrow> w = way \<or> w \<in> set p" for w
    by (meson insertE set_update_subset_insert subsetD)
  with a show "\<exists>p'. nmru_update_stats p way row = Inr p' \<and> 0 < ways \<and> nmru_inv ways rows p'"
    by (auto simp: nmru_update_stats_def nmru_inv_def)
next
  fix p row and calls :: nat assume "0 < ways \<and> nmru_inv ways rows p" "row < rows"
  with nmru_select_avoids [of ways rows p row rnd calls]
  show "\<exists>way calls'. nmru_select rnd ways p calls row = Inr (way, calls') \<and> way < ways"
    by (cases "ways = 1") (auto simp: nmru_select_def)
qed

section \<open>The policy object\<close>

fun policy_inv :: "nat \<Rightarrow> nat \<Rightarrow> CachePolicy \<Rightarrow> bool" where
  "policy_inv ways rows PolicyNull = False"
| "policy_inv ways rows PolicyRAND = True"
| "policy_inv ways rows (PolicyLRU s) = lru_inv ways rows s"
| "policy_inv ways rows (PolicyLFU s) = lfu_inv ways rows s"
| "policy_inv ways rows (PolicyPLRU s) = plru_inv ways rows s"
| "policy_inv ways rows (PolicyNMRU s) = nmru_inv ways rows s"

lemma policy_new_inv: "0 < ways \<Longrightarrow> policy_inv ways rows (get_policy_instance True rp ways rows)"
  by (cases rp) (auto simp: get_policy_instance_def lru_inv_def lru_new_def lfu_inv_def lfu_new_def plru_inv_def
      plru_new_def nmru_inv_def nmru_new_def)

interpretation policy: replacement_policy "update_stats ways" "select_way_to_evict rnd ways"
    "\<lambda>p. 0 < ways \<and> policy_inv ways rows p" ways rows for rnd ways rows
proof unfold_locales
  fix p way row v assume a: "0 < ways \<and> policy_inv ways rows p" "way < ways" "row < rows"
  then show "\<exists>p'. update_stats ways p way row v = Inr p' \<and> 0 < ways \<and> policy_inv ways rows p'"
    using lru.upd_ok [of ways rows _ way row v] lfu.upd_ok [of ways rows _ way row v]
      plru.upd_ok [of ways rows _ way row] nmru.upd_ok [of ways rows _ way row]
    by (cases p) (force simp: update_stats_def res_bind_Inr_iff)+
next
  fix p row calls assume a: "0 < ways \<and> policy_inv ways rows p" "row < rows"
  then show "\<exists>way calls'. select_way_to_evict rnd ways p calls row = Inr (way, calls') \<and> way < ways"
    using lru.sel_ok [of ways rows _ row calls] lfu.sel_ok [of ways rows _ row calls]
      plru.sel_ok [of ways rows _ row calls] nmru.sel_ok [of ways rows _ row rnd calls]
    by (cases p) (auto simp: select_way_to_evict_def rand_select_def)
qed

section \<open>Properties\<close>

text \<open>
  Claim C37: no policy ever fails: from the initial state it has in an enabled cache, after any sequence of updates of
  ways and rows that exist, every policy (whatever the random numbers are) selects a way that
  exists, so the cache's sanity checks cannot fire.
\<close>

theorem policy_never_fails:
  assumes "0 < ways" "row < rows" "\<forall>(way, row, v) \<in> set us. way < ways \<and> row < rows"
  shows "\<exists>p way calls'. policy.updates ways (get_policy_instance True rp ways rows) us = Inr p \<and>
    select_way_to_evict rnd ways p calls row = Inr (way, calls') \<and> way < ways"
  using policy.select_after_updates [of ways rows "get_policy_instance True rp ways rows" us row rnd calls]
    policy_new_inv assms by blast

theorem policy_never_fails_witness:
  "\<exists>p way calls'. policy.updates 4 (get_policy_instance True RP_LRU 4 8) [(2, 3, True), (0, 3, True), (2, 3, False)] = Inr p \<and>
    select_way_to_evict (\<lambda>_. 0) 4 p 0 3 = Inr (way, calls') \<and> way < 4"
  using policy_never_fails [of 4 3 8 "[(2, 3, True), (0, 3, True), (2, 3, False)]" RP_LRU "\<lambda>_. 0" 0] by simp

text \<open>
  Claim C38: the LRU passes over the statistics are the operations of a recency queue: a use
  moves the way to the back, an invalidation moves it to the front, the other ways keep their
  order, and the way to evict is the front of the queue.
\<close>

theorem lru_is_recency_queue:
  assumes "lru_inv ways rows stats" "way < ways" "row < rows"
  shows "lru_update_stats ways stats way row v =
      Inr (stats[row := (if v then remove1 way (stats ! row) @ [way] else way # remove1 way (stats ! row))]) \<and>
    lru_select stats row = Inr (hd (stats ! row))"
proof -
  note q = lru_inv_row [OF assms(1,3)]
  have "stats ! row \<noteq> []" using q(3) assms(2) by auto
  then show ?thesis
    using lru_update_eq [OF assms, of v] assms(1,3) by (simp add: lru_select_def lru_inv_def hd_conv_nth)
qed

theorem lru_is_recency_queue_witness:
  "lru_update_stats 4 (lru_new 4 2) 1 0 True = Inr [[0, 2, 3, 1], [0, 1, 2, 3]] \<and>
   lru_select (lru_new 4 2) 0 = Inr 0"
proof -
  have "lru_inv 4 2 (lru_new 4 2)" by (auto simp: lru_inv_def lru_new_def)
  from lru_is_recency_queue [OF this, of 1 0 True] show ?thesis
    by (simp add: lru_new_def numeral_eq_Suc upt_rec)
qed

text \<open>
  The other policies choose as they promise: LFU selects a way with the lowest
  count, PLRU never selects the way that was used last, and NMRU never selects the most
  recently used way, whenever there are at least two ways.
\<close>

theorem policies_choose_well:
  assumes "2 \<le> ways" "row < rows" "way < ways"
  shows "(lfu_inv ways rows st \<longrightarrow> (\<exists>w. lfu_select st row = Inr w \<and> w < ways \<and> (\<forall>j < ways. st ! row ! w \<le> st ! row ! j))) \<and>
    (plru_inv ways rows ptr \<longrightarrow> (\<exists>ptr' w. plru_update_stats ways ptr way row = Inr ptr' \<and>
       plru_select ways ptr' row = Inr w \<and> w < ways \<and> w \<noteq> way)) \<and>
    (nmru_inv ways rows mru \<longrightarrow> (\<exists>mru' w. nmru_update_stats mru way row = Inr mru' \<and>
       nmru_select rnd ways mru' calls row = Inr (w, calls + 1) \<and> w < ways \<and> w \<noteq> way))"
proof (intro conjI impI)
  assume inv: "lfu_inv ways rows st"
  then have "row < length st" "length (st ! row) = ways" using assms nth_mem [of row st] by (auto simp: lfu_inv_def)
  moreover from this have "st ! row \<noteq> []" using assms(1) by auto
  ultimately show "\<exists>w. lfu_select st row = Inr w \<and> w < ways \<and> (\<forall>j < ways. st ! row ! w \<le> st ! row ! j)"
    using lfu_select_minimal [of row st] by simp
next
  assume inv: "plru_inv ways rows ptr"
  obtain ptr' where p: "plru_update_stats ways ptr way row = Inr ptr'" "plru_inv ways rows ptr'"
    using plru_update_inv [OF inv assms(2)] by blast
  then obtain w where "plru_select ways ptr' row = Inr w" "w < ways"
    using plru.sel_ok [of ways rows ptr' row 0] assms by (auto simp: res_bind_Inr_iff)
  then show "\<exists>ptr' w. plru_update_stats ways ptr way row = Inr ptr' \<and> plru_select ways ptr' row = Inr w \<and> w < ways \<and> w \<noteq> way"
    using plru_avoids_last [OF inv assms(3,2,1) p(1)] p(1) by blast
next
  assume inv: "nmru_inv ways rows mru"
  obtain m' where m: "nmru_update_stats mru way row = Inr m'" "nmru_inv ways rows m'"
    using nmru.upd_ok [of ways rows mru way row] inv assms by auto
  have "row < length mru" using inv assms(2) by (simp add: nmru_inv_def)
  moreover from this have "mru[row := way] = m'" using m(1) by (simp add: nmru_update_stats_def)
  ultimately have "m' ! row = way" by (metis nth_list_update_eq)
  with nmru_select_avoids [OF m(2) assms(2,1), of rnd calls] m(1)
  show "\<exists>mru' w. nmru_update_stats mru way row = Inr mru' \<and> nmru_select rnd ways mru' calls row = Inr (w, calls + 1) \<and>
      w < ways \<and> w \<noteq> way" by metis
qed

theorem policies_choose_well_witness:
  "\<exists>ptr' w. plru_update_stats 4 (plru_new 4 1) 0 0 = Inr ptr' \<and> plru_select 4 ptr' 0 = Inr w \<and> w < 4 \<and> w \<noteq> 0"
proof -
  have inv: "plru_inv 4 1 (plru_new 4 1)"
    using policy_new_inv [of 4 1 RP_PLRU] unfolding get_policy_instance_def
    by (simp only: ReplacementPolicy.case if_True policy_inv.simps zero_less_numeral)
  have "(2 :: nat) \<le> 4" "(0 :: nat) < 1" "(0 :: nat) < 4" by simp_all
  from policies_choose_well [OF this, THEN conjunct2, THEN conjunct1, rule_format, OF inv] show ?thesis .
qed

end
