(* ===== verification/Cache.thy ===== *)
theory Cache
  imports Memory_Bus Cache_Policy
begin

text \<open>
  The set-associative cache (\<^verbatim>\<open>src/src/machine/memory/cache/cache.cpp\<close>, \<^verbatim>\<open>cache_types.h\<close>) and its
  configuration (\<^verbatim>\<open>machineconfig.cpp\<close>).  A cache is a frontend memory over another one; it is
  proved transparent: over any memory that satisfies the contract of
  \<^verbatim>\<open>Frontend_Memory\<close>, a cache of any geometry, replacement policy and write policy satisfies it
  again, so caches stack.  The signals to the user interface carry no state and are left out.
\<close>

section \<open>Configuration\<close>

datatype WritePolicy = WP_THROUGH_NOALLOC | WP_THROUGH_ALLOC | WP_BACK

record CacheConfig =
  cc_enabled :: bool
  cc_set_count :: nat
  cc_block_size :: nat
  cc_associativity :: nat
  cc_replacement_policy :: ReplacementPolicy
  cc_write_policy :: WritePolicy

definition set_enabled :: "bool \<Rightarrow> CacheConfig \<Rightarrow> CacheConfig" where
  "set_enabled v cfg = cfg\<lparr>cc_enabled := v\<rparr>"
definition set_set_count :: "u32 \<Rightarrow> CacheConfig \<Rightarrow> CacheConfig" where
  "set_set_count v cfg = cfg\<lparr>cc_set_count := unat (if 0 < v then v else 1)\<rparr>"
definition set_block_size :: "u32 \<Rightarrow> CacheConfig \<Rightarrow> CacheConfig" where
  "set_block_size v cfg = cfg\<lparr>cc_block_size := unat (if 0 < v then v else 1)\<rparr>"
definition set_associativity :: "u32 \<Rightarrow> CacheConfig \<Rightarrow> CacheConfig" where
  "set_associativity v cfg = cfg\<lparr>cc_associativity := unat (if 0 < v then v else 1)\<rparr>"
definition set_replacement_policy :: "ReplacementPolicy \<Rightarrow> CacheConfig \<Rightarrow> CacheConfig" where
  "set_replacement_policy v cfg = cfg\<lparr>cc_replacement_policy := v\<rparr>"
definition set_write_policy :: "WritePolicy \<Rightarrow> CacheConfig \<Rightarrow> CacheConfig" where
  "set_write_policy v cfg = cfg\<lparr>cc_write_policy := v\<rparr>"

lemmas cache_setters = set_enabled_def set_set_count_def set_block_size_def set_associativity_def
  set_replacement_policy_def set_write_policy_def

text \<open>The default configuration and the presets.\<close>

definition default_cache_config :: CacheConfig where
  "default_cache_config = \<lparr>cc_enabled = False, cc_set_count = 1, cc_block_size = 1, cc_associativity = 1,
     cc_replacement_policy = RP_RAND, cc_write_policy = WP_THROUGH_NOALLOC\<rparr>"

datatype ConfigPresets = CP_SINGLE | CP_SINGLE_CACHE | CP_PIPE_NO_HAZARD | CP_PIPE

fun cache_preset :: "ConfigPresets \<Rightarrow> CacheConfig \<Rightarrow> CacheConfig" where
  "cache_preset p cfg = (if p = CP_PIPE \<or> p = CP_SINGLE_CACHE then
     set_write_policy WP_THROUGH_NOALLOC (set_replacement_policy RP_RAND (set_associativity 2
       (set_block_size 2 (set_set_count 4 (set_enabled True cfg)))))
   else set_enabled False cfg)"

section \<open>State\<close>

definition BLOCK_ITEM_SIZE :: nat where "BLOCK_ITEM_SIZE = 4"

record CacheLocation =
  loc_row :: nat
  loc_col :: nat
  loc_tag :: nat
  loc_byte :: nat

text \<open>The block of a line as the bytes of its words: every access to it is a \<^verbatim>\<open>memcpy\<close>.\<close>

record CacheLine =
  cl_valid :: bool
  cl_dirty :: bool
  cl_tag :: nat
  cl_data :: "byte list"

datatype AccessType = ACCESS_READ | ACCESS_WRITE

record 'm cache =
  ca_mem :: 'm
  ca_dt :: "CacheLine list list"
  ca_policy :: CachePolicy
  ca_rand :: nat
  hit_read :: u32
  miss_read :: u32
  hit_write :: u32
  miss_write :: u32
  mem_reads :: u32
  mem_writes :: u32
  burst_reads :: u32
  burst_writes :: u32
  change_counter :: u32

definition uncached_start :: address where "uncached_start = 0xf0000000"
definition uncached_last :: address where "uncached_last = 0xfffffffe"

definition cache_new :: "CacheConfig \<Rightarrow> 'm \<Rightarrow> 'm cache" where
  "cache_new cfg m = \<lparr>ca_mem = m,
     ca_dt = (if cc_enabled cfg then replicate (cc_associativity cfg) (replicate (cc_set_count cfg)
       \<lparr>cl_valid = False, cl_dirty = False, cl_tag = 0, cl_data = replicate (cc_block_size cfg * BLOCK_ITEM_SIZE) 0\<rparr>) else []),
     ca_policy = get_policy_instance (cc_enabled cfg) (cc_replacement_policy cfg) (cc_associativity cfg) (cc_set_count cfg),
     ca_rand = 0, hit_read = 0, miss_read = 0, hit_write = 0, miss_write = 0, mem_reads = 0, mem_writes = 0,
     burst_reads = 0, burst_writes = 0, change_counter = 0\<rparr>"

definition ca_line :: "'m cache \<Rightarrow> nat \<Rightarrow> nat \<Rightarrow> CacheLine" where
  "ca_line c way row = ca_dt c ! way ! row"

definition ca_set_line :: "nat \<Rightarrow> nat \<Rightarrow> CacheLine \<Rightarrow> 'm cache \<Rightarrow> 'm cache" where
  "ca_set_line way row l c = c\<lparr>ca_dt := (ca_dt c)[way := (ca_dt c ! way)[row := l]]\<rparr>"

section \<open>Operations\<close>

text \<open>An update of the cache's own state, and an access to the memory below.\<close>

definition ca_modify :: "('m cache \<Rightarrow> 'm cache) \<Rightarrow> ('m cache, unit) action" where
  "ca_modify f = (\<lambda>c. (f c, Inr ()))"

definition ca_lower :: "('m, 'a) action \<Rightarrow> ('m cache, 'a) action" where
  "ca_lower f = (\<lambda>c. let (m, r) = f (ca_mem c) in (c\<lparr>ca_mem := m\<rparr>, r))"

definition compute_location :: "CacheConfig \<Rightarrow> address \<Rightarrow> CacheLocation" where
  "compute_location cfg address =
     (let word_index = unat address div BLOCK_ITEM_SIZE;
          byte = unat address mod BLOCK_ITEM_SIZE;
          way_size_words = (cc_set_count cfg * cc_block_size cfg) mod 2 ^ 32;
          index_in_way = word_index mod way_size_words;
          tag = word_index div way_size_words
      in \<lparr>loc_row = index_in_way div cc_block_size cfg, loc_col = index_in_way mod cc_block_size cfg,
          loc_tag = tag, loc_byte = byte\<rparr>)"

definition calc_base_address :: "CacheConfig \<Rightarrow> nat \<Rightarrow> nat \<Rightarrow> address" where
  "calc_base_address cfg tag row = of_nat ((tag * cc_set_count cfg + row) * cc_block_size cfg * BLOCK_ITEM_SIZE)"

definition is_in_uncached_area :: "address \<Rightarrow> bool" where
  "is_in_uncached_area source = (uncached_start \<le> source \<and> source \<le> uncached_last)"

definition calculate_overflow_to_next_blocks :: "CacheConfig \<Rightarrow> nat \<Rightarrow> CacheLocation \<Rightarrow> nat" where
  "calculate_overflow_to_next_blocks cfg access_size loc =
     nat (int (loc_col loc * BLOCK_ITEM_SIZE + loc_byte loc + access_size) - int (cc_block_size cfg * BLOCK_ITEM_SIZE))"

text \<open>The first way that holds the block, or the associativity.\<close>

definition find_block_index :: "CacheConfig \<Rightarrow> 'm cache \<Rightarrow> CacheLocation \<Rightarrow> nat" where
  "find_block_index cfg c loc =
     length (takeWhile (\<lambda>index. \<not> cl_valid (ca_line c index (loc_row loc)) \<or> cl_tag (ca_line c index (loc_row loc)) \<noteq> loc_tag loc)
       [0..<cc_associativity cfg])"

definition ca_update_stats :: "CacheConfig \<Rightarrow> nat \<Rightarrow> nat \<Rightarrow> bool \<Rightarrow> ('m cache, unit) action" where
  "ca_update_stats cfg way row v = (\<lambda>c. case update_stats (cc_associativity cfg) (ca_policy c) way row v of
     Inl e \<Rightarrow> (c, Inl e) | Inr p \<Rightarrow> (c\<lparr>ca_policy := p\<rparr>, Inr ()))"

definition ca_select_way :: "CacheConfig \<Rightarrow> (nat \<Rightarrow> nat) \<Rightarrow> nat \<Rightarrow> ('m cache, nat) action" where
  "ca_select_way cfg rnd row = (\<lambda>c. case select_way_to_evict rnd (cc_associativity cfg) (ca_policy c) (ca_rand c) row of
     Inl e \<Rightarrow> (c, Inl e) | Inr (way, calls) \<Rightarrow> (c\<lparr>ca_rand := calls\<rparr>, Inr way))"

definition kick :: "CacheConfig \<Rightarrow> 'm frontend_ops \<Rightarrow> nat \<Rightarrow> nat \<Rightarrow> ('m cache, unit) action" where
  "kick cfg ops way row = (\<lambda>c. let cd = ca_line c way row in
     act_bind
       (if cl_dirty cd \<and> cc_write_policy cfg = WP_BACK then
          act_bind (ca_lower (fm_write ops (plain_address (calc_base_address cfg (cl_tag cd) row)) (cl_data cd) AE_REGULAR)) (\<lambda>_.
            ca_modify (\<lambda>c. c\<lparr>mem_writes := mem_writes c + of_nat (cc_block_size cfg),
              burst_writes := burst_writes c + of_nat (cc_block_size cfg) - 1\<rparr>))
        else act_return ()) (\<lambda>_.
     act_bind (ca_modify (\<lambda>c. (ca_set_line way row (cd\<lparr>cl_valid := False, cl_dirty := False\<rparr>) c)
         \<lparr>change_counter := change_counter c + 1\<rparr>)) (\<lambda>_.
     ca_update_stats cfg way row False)) c)"

text \<open>
  The first part of \<^verbatim>\<open>access\<close>: the way that serves it, after an eviction on a miss.  \<open>None\<close> is the
  write that misses and does not allocate.
\<close>

definition cache_find_way ::
  "CacheConfig \<Rightarrow> (nat \<Rightarrow> nat) \<Rightarrow> 'm frontend_ops \<Rightarrow> CacheLocation \<Rightarrow> AccessType \<Rightarrow> ('m cache, nat option) action" where
  "cache_find_way cfg rnd ops loc access_type = (\<lambda>c. let way = find_block_index cfg c loc in
     (if cc_associativity cfg \<le> way then
        if access_type = ACCESS_WRITE \<and> cc_write_policy cfg = WP_THROUGH_NOALLOC then
          act_bind (ca_modify (\<lambda>c. c\<lparr>miss_write := miss_write c + 1\<rparr>)) (\<lambda>_. act_return None)
        else
          act_bind (ca_select_way cfg rnd (loc_row loc)) (\<lambda>way.
          act_bind (kick cfg ops way (loc_row loc)) (\<lambda>_.
          if way < cc_associativity cfg then act_return (Some way) else act_throw Sanity))
      else act_return (Some way)) c)"

definition overwrite :: "'a list \<Rightarrow> nat \<Rightarrow> 'a list \<Rightarrow> 'a list" where
  "overwrite xs off ys = take off xs @ ys @ drop (off + length ys) xs"

text \<open>The fill of a line on a miss, with the statistics of hits and misses.\<close>

definition cache_fill ::
  "CacheConfig \<Rightarrow> 'm frontend_ops \<Rightarrow> nat \<Rightarrow> CacheLocation \<Rightarrow> AccessType \<Rightarrow> ('m cache, unit) action" where
  "cache_fill cfg ops way loc access_type = (\<lambda>c. let cd = ca_line c way (loc_row loc) in
     (if cl_valid cd then
        ca_modify (\<lambda>c. if access_type = ACCESS_WRITE then c\<lparr>hit_write := hit_write c + 1\<rparr>
          else c\<lparr>hit_read := hit_read c + 1\<rparr>)
      else
        act_bind (ca_modify (\<lambda>c. if access_type = ACCESS_WRITE then c\<lparr>miss_write := miss_write c + 1\<rparr>
          else c\<lparr>miss_read := miss_read c + 1\<rparr>)) (\<lambda>_.
        act_bind (ca_lower (fm_read ops (plain_address (calc_base_address cfg (loc_tag loc) (loc_row loc)))
          (cc_block_size cfg * BLOCK_ITEM_SIZE) AE_REGULAR)) (\<lambda>(bytes, n).
        ca_modify (\<lambda>c. (ca_set_line way (loc_row loc)
            \<lparr>cl_valid = True, cl_dirty = False, cl_tag = loc_tag loc, cl_data = overwrite (cl_data cd) 0 bytes\<rparr> c)
          \<lparr>change_counter := change_counter c + of_nat (cc_block_size cfg),
           mem_reads := mem_reads c + of_nat (cc_block_size cfg),
           burst_reads := burst_reads c + of_nat (cc_block_size cfg) - 1\<rparr>)))) c)"

text \<open>
  The transfer between the line and the part of the caller's buffer inside the block: a read
  fills that part, a write compares and copies it.
\<close>

definition cache_transfer ::
  "nat \<Rightarrow> CacheLocation \<Rightarrow> AccessType \<Rightarrow> byte list \<Rightarrow> ('m cache, bool \<times> byte list) action" where
  "cache_transfer way loc access_type part = (\<lambda>c.
     let cd = ca_line c way (loc_row loc);
         off = loc_col loc * BLOCK_ITEM_SIZE + loc_byte loc;
         old = take (length part) (drop off (cl_data cd)) in
     (case access_type of
        ACCESS_READ \<Rightarrow> act_return (False, old)
      | ACCESS_WRITE \<Rightarrow>
          (let chg = (old \<noteq> part);
               cd' = cd\<lparr>cl_dirty := True, cl_data := (if chg then overwrite (cl_data cd) off part else cl_data cd)\<rparr> in
           act_bind (ca_modify (\<lambda>c. (ca_set_line way (loc_row loc) cd' c)
             \<lparr>change_counter := change_counter c + (if chg then 1 else 0)\<rparr>)) (\<lambda>_.
           act_return (chg, part)))) c)"

text \<open>
  The access; the part of the buffer behind the end of the block is a recursive access.  The
  result is whether a write changed a line, and the buffer.  With a block size of 0, which no
  setter of the configuration gives, \<^verbatim>\<open>compute_location\<close> divides by zero.
\<close>

function cache_access ::
  "CacheConfig \<Rightarrow> (nat \<Rightarrow> nat) \<Rightarrow> 'm frontend_ops \<Rightarrow> AccessType \<Rightarrow> address \<Rightarrow> byte list \<Rightarrow> ('m cache, bool \<times> byte list) action"
where
  "cache_access cfg rnd ops access_type address buffer =
     (if cc_block_size cfg = 0 then act_throw Sanity
      else if buffer = [] then act_return (False, [])
      else
        let loc = compute_location cfg address;
            size_overflow = calculate_overflow_to_next_blocks cfg (length buffer) loc;
            size_within_block = length buffer - size_overflow
        in
        act_bind (cache_find_way cfg rnd ops loc access_type) (\<lambda>way. case way of
          None \<Rightarrow>
            if 0 < size_overflow then
              act_bind (cache_access cfg rnd ops access_type (address + of_nat size_within_block) (drop size_within_block buffer))
                (\<lambda>(chg, rest). act_return (chg, take size_within_block buffer @ rest))
            else act_return (False, buffer)
        | Some way \<Rightarrow>
            act_bind (cache_fill cfg ops way loc access_type) (\<lambda>_.
            act_bind (ca_update_stats cfg way (loc_row loc) True) (\<lambda>_.
            act_bind (cache_transfer way loc access_type (take size_within_block buffer)) (\<lambda>(chg, part).
            if 0 < size_overflow then
              act_bind (cache_access cfg rnd ops access_type (address + of_nat size_within_block) (drop size_within_block buffer))
                (\<lambda>(chg', rest). act_return (chg \<or> chg', part @ rest))
            else act_return (chg, part))))))"
  by pat_completeness auto

lemma overflow_less:
  "0 < cc_block_size cfg \<Longrightarrow> 0 < n \<Longrightarrow> calculate_overflow_to_next_blocks cfg n (compute_location cfg a) < n"
proof -
  assume b: "0 < cc_block_size cfg" and n: "0 < n"
  let ?l = "compute_location cfg a"
  have "loc_col ?l < cc_block_size cfg" "loc_byte ?l < 4"
    using b by (simp_all add: compute_location_def Let_def BLOCK_ITEM_SIZE_def)
  then have "loc_col ?l * 4 + loc_byte ?l < cc_block_size cfg * 4" by linarith
  then show ?thesis using n by (simp add: calculate_overflow_to_next_blocks_def BLOCK_ITEM_SIZE_def nat_less_iff)
qed

termination cache_access
  by (relation "measure (\<lambda>(cfg, rnd, ops, t, a, buffer). length buffer)")
    (auto simp: overflow_less)

declare cache_access.simps [simp del]

text \<open>
  The read of the user interface: a block that is not in the cache gives zeros.  The copy of
  bytes behind the end of the block would read outside of the vector; the model has none of
  them.
\<close>

definition internal_read :: "CacheConfig \<Rightarrow> 'm cache \<Rightarrow> address \<Rightarrow> nat \<Rightarrow> byte list" where
  "internal_read cfg c source n =
     (let loc = compute_location cfg source; way = find_block_index cfg c loc in
      if way < cc_associativity cfg then
        take n (drop (loc_col loc * BLOCK_ITEM_SIZE + loc_byte loc) (cl_data (ca_line c way (loc_row loc))))
      else replicate n 0)"

definition cache_location_status :: "CacheConfig \<Rightarrow> 'm frontend_ops \<Rightarrow> 'm cache \<Rightarrow> address \<Rightarrow> LocationStatus" where
  "cache_location_status cfg ops c address =
     (let loc = compute_location cfg address; way = find_block_index cfg c loc in
      if cc_enabled cfg \<and> way < cc_associativity cfg then
        if cl_dirty (ca_line c way (loc_row loc)) \<and> cc_write_policy cfg = WP_BACK then LOCSTAT_CACHED OR LOCSTAT_DIRTY
        else LOCSTAT_CACHED
      else fm_location_status ops (ca_mem c) address)"

definition cache_write ::
  "CacheConfig \<Rightarrow> (nat \<Rightarrow> nat) \<Rightarrow> 'm frontend_ops \<Rightarrow> AddressWithMode \<Rightarrow> byte list \<Rightarrow> AccessEffects \<Rightarrow> ('m cache, write_result) action" where
  "cache_write cfg rnd ops destination source options =
     (let write_below = act_bind (ca_modify (\<lambda>c. c\<lparr>mem_writes := mem_writes c + 1\<rparr>))
        (\<lambda>_. ca_lower (fm_write ops destination source options)) in
      if \<not> cc_enabled cfg \<or> is_in_uncached_area (aw_addr destination)
         \<or> is_in_uncached_area (aw_addr destination + of_nat (length source)) then write_below
      else act_bind (cache_access cfg rnd ops ACCESS_WRITE (aw_addr destination) source) (\<lambda>(chg, _).
        if cc_write_policy cfg \<noteq> WP_BACK then write_below
        else act_return \<lparr>n_bytes = length source, changed = chg\<rparr>))"

definition cache_read ::
  "CacheConfig \<Rightarrow> (nat \<Rightarrow> nat) \<Rightarrow> 'm frontend_ops \<Rightarrow> AddressWithMode \<Rightarrow> nat \<Rightarrow> AccessEffects \<Rightarrow> ('m cache, byte list \<times> nat) action" where
  "cache_read cfg rnd ops source n options =
     (if \<not> cc_enabled cfg \<or> is_in_uncached_area (aw_addr source)
         \<or> is_in_uncached_area (aw_addr source + of_nat n) then
        act_bind (ca_modify (\<lambda>c. c\<lparr>mem_reads := mem_reads c + 1\<rparr>))
          (\<lambda>_. ca_lower (fm_read ops source n options))
      else if options = AE_INTERNAL then
        (\<lambda>c. if cache_location_status cfg ops c (aw_addr source) AND LOCSTAT_CACHED = 0 then
            act_bind (ca_lower (fm_read ops source n options)) (\<lambda>(bytes, _). act_return (bytes, 0)) c
          else (c, Inr (internal_read cfg c (aw_addr source) n, 0)))
      else act_bind (cache_access cfg rnd ops ACCESS_READ (aw_addr source) (replicate n 0))
        (\<lambda>(_, bytes). act_return (bytes, 0)))"

text \<open>The loop of \<^verbatim>\<open>flush\<close> over the lines, ways first.\<close>

fun flush_lines :: "CacheConfig \<Rightarrow> 'm frontend_ops \<Rightarrow> (nat \<times> nat) list \<Rightarrow> ('m cache, unit) action" where
  "flush_lines cfg ops [] = act_return ()"
| "flush_lines cfg ops ((way, row) # ls) =
     act_bind (\<lambda>c. if cl_valid (ca_line c way row) then kick cfg ops way row c else (c, Inr ()))
       (\<lambda>_. flush_lines cfg ops ls)"

definition flush :: "CacheConfig \<Rightarrow> 'm frontend_ops \<Rightarrow> ('m cache, unit) action" where
  "flush cfg ops =
     (if \<not> cc_enabled cfg then act_return ()
      else act_bind (flush_lines cfg ops (List.product [0..<cc_associativity cfg] [0..<cc_set_count cfg]))
        (\<lambda>_. ca_modify (\<lambda>c. c\<lparr>change_counter := change_counter c + 1\<rparr>)))"

definition cache_sync :: "CacheConfig \<Rightarrow> 'm frontend_ops \<Rightarrow> ('m cache, unit) action" where
  "cache_sync cfg ops = act_bind (flush cfg ops) (\<lambda>_. ca_lower (fm_sync ops))"

definition cache_reset :: "CacheConfig \<Rightarrow> 'm cache \<Rightarrow> 'm cache" where
  "cache_reset cfg c = c\<lparr>ca_dt := (if cc_enabled cfg then map (map (\<lambda>block. block\<lparr>cl_valid := False\<rparr>)) (ca_dt c) else ca_dt c),
     hit_read := 0, hit_write := 0, miss_read := 0, miss_write := 0, mem_reads := 0, mem_writes := 0,
     burst_reads := 0, burst_writes := 0\<rparr>"

definition cache_ops :: "CacheConfig \<Rightarrow> (nat \<Rightarrow> nat) \<Rightarrow> 'm frontend_ops \<Rightarrow> 'm cache frontend_ops" where
  "cache_ops cfg rnd ops = \<lparr>fm_write = cache_write cfg rnd ops, fm_read = cache_read cfg rnd ops,
     fm_sync = cache_sync cfg ops, fm_sfence_vma = default_sfence_vma (cache_sync cfg ops),
     fm_location_status = cache_location_status cfg ops, fm_change_counter = change_counter,
     fm_endian = fm_endian ops\<rparr>"

section \<open>Statistics\<close>

definition get_hit_count :: "'m cache \<Rightarrow> u32" where "get_hit_count c = hit_read c + hit_write c"
definition get_miss_count :: "'m cache \<Rightarrow> u32" where "get_miss_count c = miss_read c + miss_write c"

text \<open>The penalties of a read, a write and a burst transfer, and whether bursts are enabled.\<close>

record cache_penalties =
  access_pen_r :: u32
  access_pen_w :: u32
  access_pen_b :: u32
  access_ena_b :: bool

definition get_stall_count :: "CacheConfig \<Rightarrow> cache_penalties \<Rightarrow> 'm cache \<Rightarrow> u32" where
  "get_stall_count cfg p c =
     (let st_cycles = mem_reads c * (access_pen_r p - 1) + mem_writes c * (access_pen_w p - 1);
          st_cycles = st_cycles + (miss_read c + miss_write c) * of_nat (cc_block_size cfg) in
      if access_ena_b p then
        st_cycles - (burst_reads c * (access_pen_r p - access_pen_b p) + burst_writes c * (access_pen_w p - access_pen_b p))
      else st_cycles)"

section \<open>Where an address lives\<close>

definition cache_config_ok :: "CacheConfig \<Rightarrow> bool" where
  "cache_config_ok cfg \<longleftrightarrow> 0 < cc_set_count cfg \<and> 0 < cc_block_size cfg \<and> 0 < cc_associativity cfg \<and>
     cc_set_count cfg * cc_block_size cfg < 2 ^ 32"

definition block_bytes :: "CacheConfig \<Rightarrow> nat" where
  "block_bytes cfg = cc_block_size cfg * BLOCK_ITEM_SIZE"

definition block_of :: "CacheConfig \<Rightarrow> address \<Rightarrow> nat" where
  "block_of cfg x = unat x div block_bytes cfg"

lemma block_bytes_pos: "cache_config_ok cfg \<Longrightarrow> 0 < block_bytes cfg"
  by (simp add: cache_config_ok_def block_bytes_def BLOCK_ITEM_SIZE_def)

lemma block_bytes_bound: "cache_config_ok cfg \<Longrightarrow> block_bytes cfg < 2 ^ 34"
proof -
  assume ok: "cache_config_ok cfg"
  then have "1 * cc_block_size cfg \<le> cc_set_count cfg * cc_block_size cfg"
    by (intro mult_le_mono1) (simp add: cache_config_ok_def)
  also have "\<dots> < 2 ^ 32" using ok by (simp add: cache_config_ok_def)
  finally have "cc_block_size cfg < 2 ^ 32" by simp
  then show ?thesis by (simp add: block_bytes_def BLOCK_ITEM_SIZE_def)
qed

lemma compute_location_eq:
  assumes ok: "cache_config_ok cfg"
  shows "loc_row (compute_location cfg a) = block_of cfg a mod cc_set_count cfg"
    and "loc_tag (compute_location cfg a) = block_of cfg a div cc_set_count cfg"
    and "loc_col (compute_location cfg a) * BLOCK_ITEM_SIZE + loc_byte (compute_location cfg a) = unat a mod block_bytes cfg"
proof -
  let ?s = "cc_set_count cfg" and ?b = "cc_block_size cfg" and ?w = "unat a div 4"
  have small: "?s * ?b mod 2 ^ 32 = ?s * ?b" and b: "0 < ?b" using ok by (simp_all add: cache_config_ok_def)
  have blk: "block_of cfg a = ?w div ?b" 
    unfolding block_of_def block_bytes_def BLOCK_ITEM_SIZE_def by (metis div_mult2_eq mult.commute)
  have "?w mod (?s * ?b) = ?b * (?w div ?b mod ?s) + ?w mod ?b" by (simp add: mod_mult2_eq mult.commute)
  then have idx: "?w mod (?s * ?b) div ?b = ?w div ?b mod ?s" "?w mod (?s * ?b) mod ?b = ?w mod ?b" using b by simp_all
  show "loc_row (compute_location cfg a) = block_of cfg a mod ?s"
    by (simp only: compute_location_def Let_def small BLOCK_ITEM_SIZE_def blk idx CacheLocation.select_convs)
  show "loc_tag (compute_location cfg a) = block_of cfg a div ?s"
    by (simp only: compute_location_def Let_def small BLOCK_ITEM_SIZE_def blk CacheLocation.select_convs)
      (metis div_mult2_eq mult.commute)
  have "unat a mod (4 * ?b) = 4 * (?w mod ?b) + unat a mod 4" by (rule mod_mult2_eq)
  then show "loc_col (compute_location cfg a) * BLOCK_ITEM_SIZE + loc_byte (compute_location cfg a) = unat a mod block_bytes cfg"
    by (simp only: compute_location_def Let_def small BLOCK_ITEM_SIZE_def idx CacheLocation.select_convs block_bytes_def)
      (simp add: mult.commute)
qed

lemma calc_base_address_eq: "calc_base_address cfg t r = of_nat ((t * cc_set_count cfg + r) * block_bytes cfg)"
  by (simp add: calc_base_address_def block_bytes_def mult.assoc)

text \<open>The bytes of the block that starts at a base address.\<close>

lemma block_member:
  fixes x :: address
  assumes "0 < B" "k * B + B \<le> 2 ^ 64"
  shows "unat (x - of_nat (k * B)) < B \<longleftrightarrow> unat x div B = k"
    and "unat x div B = k \<Longrightarrow> unat (x - of_nat (k * B)) = unat x mod B"
proof -
  let ?base = "of_nat (k * B) :: address"
  have base: "unat ?base = k * B" using assms by (intro unat_of_nat_small) simp
  have eq: "unat (x - ?base) = unat x mod B" if "unat x div B = k"
  proof -
    have "k * B + unat x mod B = unat x" using that by (metis div_mult_mod_eq)
    then have "?base \<le> x" unfolding word_le_nat_alt base by linarith
    then have "unat (x - ?base) = unat x - k * B" using unat_sub base by metis
    with \<open>k * B + unat x mod B = unat x\<close> show ?thesis by linarith
  qed
  then show "unat x div B = k \<Longrightarrow> unat (x - ?base) = unat x mod B" .
  show "unat (x - ?base) < B \<longleftrightarrow> unat x div B = k"
  proof
    assume lt: "unat (x - ?base) < B"
    have "unat (b + y) = unat b + unat y" if "unat b + unat y < 2 ^ 64" for b y :: address
      using that unat_add_lem [of b y] by simp
    from this [of ?base "x - ?base"] have "unat (?base + (x - ?base)) = unat ?base + unat (x - ?base)"
      using lt assms(2) unfolding base by linarith
    then have "unat x = k * B + unat (x - ?base)" using base by simp
    then show "unat x div B = k" using lt by (simp add: div_mult_self3)
  next
    assume "unat x div B = k" with eq assms(1) show "unat (x - ?base) < B" by simp
  qed
qed

section \<open>Transparency\<close>

text \<open>The line of a way holds the block of an address.\<close>

definition holds :: "CacheConfig \<Rightarrow> 'm cache \<Rightarrow> nat \<Rightarrow> address \<Rightarrow> bool" where
  "holds cfg c w x \<longleftrightarrow> cl_valid (ca_line c w (block_of cfg x mod cc_set_count cfg)) \<and>
     cl_tag (ca_line c w (block_of cfg x mod cc_set_count cfg)) = block_of cfg x div cc_set_count cfg"

definition line_of :: "CacheConfig \<Rightarrow> 'm cache \<Rightarrow> nat \<Rightarrow> address \<Rightarrow> CacheLine" where
  "line_of cfg c w x = ca_line c w (block_of cfg x mod cc_set_count cfg)"

text \<open>Only a dirty line of a write-back cache is ahead of the memory.\<close>

definition ahead :: "CacheConfig \<Rightarrow> CacheLine \<Rightarrow> bool" where
  "ahead cfg l \<longleftrightarrow> cl_dirty l \<and> cc_write_policy cfg = WP_BACK"

definition cache_shape :: "CacheConfig \<Rightarrow> 'm cache \<Rightarrow> bool" where
  "cache_shape cfg c \<longleftrightarrow> length (ca_dt c) = cc_associativity cfg \<and>
     (\<forall>w < cc_associativity cfg. length (ca_dt c ! w) = cc_set_count cfg) \<and>
     policy_inv (cc_associativity cfg) (cc_set_count cfg) (ca_policy c)"

definition line_ok :: "nat \<Rightarrow> CacheConfig \<Rightarrow> nat \<Rightarrow> CacheLine \<Rightarrow> bool" where
  "line_ok lim cfg r l \<longleftrightarrow> length (cl_data l) = block_bytes cfg \<and> (cl_dirty l \<longrightarrow> cl_valid l) \<and>
     (cl_valid l \<longrightarrow> (cl_tag l * cc_set_count cfg + r) * block_bytes cfg < lim)"

text \<open>
  The state represents the contents \<open>L\<close>, except that the memory may be behind at the addresses
  \<open>D\<close> of a write that has not reached it yet.
\<close>

definition cache_rel ::
  "('m \<Rightarrow> bool) \<Rightarrow> ('m \<Rightarrow> address \<Rightarrow> byte) \<Rightarrow> nat \<Rightarrow> CacheConfig \<Rightarrow> 'm cache \<Rightarrow> (address \<Rightarrow> byte) \<Rightarrow> address set \<Rightarrow> bool" where
  "cache_rel linv lview lim cfg c L D \<longleftrightarrow> linv (ca_mem c) \<and> cache_shape cfg c \<and>
     (\<forall>w < cc_associativity cfg. \<forall>r < cc_set_count cfg. line_ok lim cfg r (ca_line c w r)) \<and>
     (\<forall>w < cc_associativity cfg. \<forall>w' < cc_associativity cfg. \<forall>x. holds cfg c w x \<longrightarrow> holds cfg c w' x \<longrightarrow> w = w') \<and>
     (\<forall>w < cc_associativity cfg. \<forall>x. holds cfg c w x \<longrightarrow> cl_data (line_of cfg c w x) ! (unat x mod block_bytes cfg) = L x) \<and>
     (\<forall>x. x \<notin> D \<longrightarrow> (\<forall>w < cc_associativity cfg. holds cfg c w x \<longrightarrow> \<not> ahead cfg (line_of cfg c w x)) \<longrightarrow>
        lview (ca_mem c) x = L x)"

lemma cache_rel_cong:
  assumes "ca_mem c' = ca_mem c" "ca_dt c' = ca_dt c" "ca_policy c' = ca_policy c"
  shows "cache_rel linv lview lim cfg c' L D = cache_rel linv lview lim cfg c L D"
  using assms by (simp add: cache_rel_def cache_shape_def holds_def line_of_def ca_line_def)

lemma ca_line_mem [simp]: "ca_line (c\<lparr>ca_mem := m\<rparr>) w r = ca_line c w r"
  by (simp add: ca_line_def)

lemma ca_line_set_line:
  assumes "cache_shape cfg c" "w < cc_associativity cfg" "r < cc_set_count cfg" "w' < cc_associativity cfg"
  shows "ca_line (ca_set_line w r l c) w' r' = (if w' = w \<and> r' = r then l else ca_line c w' r')"
  using assms by (auto simp: ca_line_def ca_set_line_def cache_shape_def nth_list_update)

lemma cache_shape_set_line:
  "cache_shape cfg c \<Longrightarrow> cache_shape cfg (ca_set_line w r l c)"
  by (cases "w < cc_associativity cfg") (auto simp: cache_shape_def ca_set_line_def nth_list_update)

lemma find_block_index_cases:
  fixes a c
  assumes "cache_config_ok cfg"
  defines "w \<equiv> find_block_index cfg c (compute_location cfg a)"
  shows "w < cc_associativity cfg \<Longrightarrow> holds cfg c w a"
    and "cc_associativity cfg \<le> w \<Longrightarrow> w' < cc_associativity cfg \<Longrightarrow> \<not> holds cfg c w' a"
proof -
  let ?P = "\<lambda>w. \<not> holds cfg c w a"
  have w: "w = length (takeWhile ?P [0..<cc_associativity cfg])"
    by (simp add: w_def find_block_index_def compute_location_eq [OF assms(1)] holds_def)
  show "w < cc_associativity cfg \<Longrightarrow> holds cfg c w a"
    using nth_length_takeWhile [of ?P "[0..<cc_associativity cfg]"] unfolding w by simp
  assume "cc_associativity cfg \<le> w" "w' < cc_associativity cfg"
  then have "takeWhile ?P [0..<cc_associativity cfg] = [0..<cc_associativity cfg]"
    using takeWhile_eq_take [of ?P] unfolding w by (metis length_upt minus_nat.diff_0 take_all)
  then show "\<not> holds cfg c w' a" using \<open>w' < cc_associativity cfg\<close> by (simp add: takeWhile_eq_all_conv)
qed

text \<open>A block is inside or outside of a line's block as a whole.\<close>

lemma holds_set_line:
  assumes "cache_shape cfg c" "w < cc_associativity cfg" "r < cc_set_count cfg" "w' < cc_associativity cfg"
  shows "holds cfg (ca_set_line w r l c) w' x \<longleftrightarrow>
    (if w' = w \<and> block_of cfg x mod cc_set_count cfg = r then cl_valid l \<and> cl_tag l = block_of cfg x div cc_set_count cfg
     else holds cfg c w' x)"
    and "line_of cfg (ca_set_line w r l c) w' x =
      (if w' = w \<and> block_of cfg x mod cc_set_count cfg = r then l else line_of cfg c w' x)"
  using ca_line_set_line [OF assms, of l] by (auto simp: holds_def line_of_def)

text \<open>The contents as a client sees them: a line's byte, or the memory's.\<close>

definition cache_view :: "('m \<Rightarrow> address \<Rightarrow> byte) \<Rightarrow> CacheConfig \<Rightarrow> 'm cache \<Rightarrow> address \<Rightarrow> byte" where
  "cache_view lview cfg c x =
     (let loc = compute_location cfg x; way = find_block_index cfg c loc in
      if cc_enabled cfg \<and> way < cc_associativity cfg then
        cl_data (ca_line c way (loc_row loc)) ! (loc_col loc * BLOCK_ITEM_SIZE + loc_byte loc)
      else lview (ca_mem c) x)"

definition cache_inv :: "('m \<Rightarrow> bool) \<Rightarrow> ('m \<Rightarrow> address \<Rightarrow> byte) \<Rightarrow> nat \<Rightarrow> CacheConfig \<Rightarrow> 'm cache \<Rightarrow> bool" where
  "cache_inv linv lview lim cfg c \<longleftrightarrow>
     (if cc_enabled cfg then cache_rel linv lview lim cfg c (cache_view lview cfg c) {} else linv (ca_mem c))"

definition cache_admits :: "(address \<Rightarrow> nat \<Rightarrow> bool) \<Rightarrow> nat \<Rightarrow> address \<Rightarrow> nat \<Rightarrow> bool" where
  "cache_admits ladmits lim a n \<longleftrightarrow> unat a + n < lim \<and> ladmits a n"

locale cache_over = lower: frontend_contract lops linv lview ladmits
  for lops :: "'m frontend_ops" and linv lview ladmits +
  fixes cfg :: CacheConfig and rnd :: "nat \<Rightarrow> nat" and lim :: nat
  assumes cfg_ok: "cache_config_ok cfg"
    and lim_bound: "lim \<le> unat uncached_start"
    and blocks_admitted: "k * block_bytes cfg < lim \<Longrightarrow> ladmits (of_nat (k * block_bytes cfg)) (block_bytes cfg)"
begin

abbreviation "rel \<equiv> cache_rel linv lview lim cfg"
abbreviation "ways \<equiv> cc_associativity cfg"
abbreviation "sets \<equiv> cc_set_count cfg"
abbreviation "B \<equiv> block_bytes cfg"

lemma sizes: "0 < B" "0 < ways" "0 < sets" "0 < cc_block_size cfg"
  using cfg_ok block_bytes_pos by (simp_all add: cache_config_ok_def)

lemma no_wrap: "k * B < lim \<Longrightarrow> k * B + B \<le> 2 ^ 64"
  using block_bytes_bound [OF cfg_ok] lim_bound by (simp add: uncached_start_def)

text \<open>A stored or loaded block, byte by byte.\<close>

lemma store_block:
  assumes "k * B < lim" "length bs = B"
  shows "store_bytes v (of_nat (k * B)) bs x = (if block_of cfg x = k then bs ! (unat x mod B) else v x)"
  using block_member [OF sizes(1) no_wrap [OF assms(1)], of x] assms no_wrap [OF assms(1)]
  by (simp add: store_bytes_apply block_of_def del: of_nat_mult)

lemma load_block:
  assumes "block_of cfg x * B < lim"
  shows "load_bytes v (of_nat (block_of cfg x * B)) B ! (unat x mod B) = v x"
proof -
  have "of_nat (block_of cfg x * B) + of_nat (unat x mod B) = (of_nat (unat x) :: address)"
    by (simp only: of_nat_add [symmetric] block_of_def div_mult_mod_eq)
  then show ?thesis using sizes by (simp del: of_nat_mult)
qed

lemma rel_lineD:
  assumes "rel c L D" "w < ways" "r < sets"
  shows "length (cl_data (ca_line c w r)) = B" "cl_dirty (ca_line c w r) \<Longrightarrow> cl_valid (ca_line c w r)"
    "cl_valid (ca_line c w r) \<Longrightarrow> (cl_tag (ca_line c w r) * sets + r) * B < lim"
  using assms by (simp_all add: cache_rel_def line_ok_def)

lemma block_split: "r < sets \<Longrightarrow> (block_of cfg x mod sets = r \<and> t = block_of cfg x div sets) \<longleftrightarrow> block_of cfg x = t * sets + r"
  by (metis add.commute add.right_neutral div_mult_mod_eq div_mult_self3 div_less mod_mult_self3 mod_less less_nat_zero_code)

text \<open>A line is replaced, together with the memory and the policy's statistics.\<close>

lemma rel_update:
  assumes rel: "rel c L D" and wr: "w < ways" "r < sets"
    and c': "ca_dt c' = ca_dt (ca_set_line w r l c)" "linv (ca_mem c')" "policy_inv ways sets (ca_policy c')"
    and l: "line_ok lim cfg r l"
    and uniq: "\<And>x w'. cl_valid l \<Longrightarrow> block_of cfg x = cl_tag l * sets + r \<Longrightarrow> w' < ways \<Longrightarrow> w' \<noteq> w \<Longrightarrow> \<not> holds cfg c w' x"
    and content: "\<And>x. cl_valid l \<Longrightarrow> block_of cfg x = cl_tag l * sets + r \<Longrightarrow> cl_data l ! (unat x mod B) = L' x"
    and others: "\<And>x w'. w' < ways \<Longrightarrow> holds cfg c w' x \<Longrightarrow> w' \<noteq> w \<or> block_of cfg x mod sets \<noteq> r \<Longrightarrow> L' x = L x"
    and memory: "\<And>x. x \<notin> D' \<Longrightarrow>
      (\<And>w'. w' < ways \<Longrightarrow> holds cfg c w' x \<Longrightarrow> w' \<noteq> w \<or> block_of cfg x mod sets \<noteq> r \<Longrightarrow> \<not> ahead cfg (line_of cfg c w' x)) \<Longrightarrow>
      (cl_valid l \<Longrightarrow> block_of cfg x = cl_tag l * sets + r \<Longrightarrow> \<not> ahead cfg l) \<Longrightarrow> lview (ca_mem c') x = L' x"
  shows "rel c' L' D'"
proof -
  have shape: "cache_shape cfg c" using rel by (simp add: cache_rel_def)
  let ?s = "ca_set_line w r l c"
  have line: "ca_line c' w' r' = ca_line ?s w' r'" for w' r' by (simp add: ca_line_def c')
  have hold: "holds cfg c' w' x \<longleftrightarrow> (if w' = w \<and> block_of cfg x mod sets = r
      then cl_valid l \<and> block_of cfg x = cl_tag l * sets + r else holds cfg c w' x)"
    and lof: "line_of cfg c' w' x = (if w' = w \<and> block_of cfg x mod sets = r then l else line_of cfg c w' x)"
    if "w' < ways" for w' x
    using holds_set_line [OF shape wr that, of l x] block_split [OF wr(2), of x "cl_tag l"]
    by (auto simp: holds_def line_of_def line)
  have modr: "block_of cfg x mod sets = r" if "block_of cfg x = cl_tag l * sets + r" for x
    using block_split [OF wr(2), of x "cl_tag l"] that by blast
  have "cache_shape cfg c'"
    using cache_shape_set_line [OF shape, of w r l] c' by (simp add: cache_shape_def)
  moreover have "line_ok lim cfg r' (ca_line c' w' r')" if "w' < ways" "r' < sets" for w' r'
    using rel l that ca_line_set_line [OF shape wr that(1), of l r'] by (simp add: line cache_rel_def)
  moreover have "w1 = w2" if "w1 < ways" "w2 < ways" "holds cfg c' w1 x" "holds cfg c' w2 x" for w1 w2 x
  proof (cases "block_of cfg x mod sets = r \<and> (w1 = w \<or> w2 = w)")
    case True then show ?thesis using that uniq [of x w1] uniq [of x w2] hold by (metis (full_types))
  next
    case False
    then have "holds cfg c w1 x" "holds cfg c w2 x" using that hold by metis+
    then show ?thesis using rel that(1,2) unfolding cache_rel_def by blast
  qed
  moreover have "cl_data (line_of cfg c' w' x) ! (unat x mod B) = L' x" if "w' < ways" "holds cfg c' w' x" for w' x
  proof (cases "w' = w \<and> block_of cfg x mod sets = r")
    case True then show ?thesis using that content [of x] hold lof by metis
  next
    case False
    then have "holds cfg c w' x" "line_of cfg c' w' x = line_of cfg c w' x" using that hold lof by metis+
    then show ?thesis using rel that(1) others [of w' x] False unfolding cache_rel_def by metis
  qed
  moreover have "lview (ca_mem c') x = L' x"
    if "x \<notin> D'" "\<forall>w' < ways. holds cfg c' w' x \<longrightarrow> \<not> ahead cfg (line_of cfg c' w' x)" for x
  proof (rule memory [OF that(1)])
    fix w' assume "w' < ways" "holds cfg c w' x" "w' \<noteq> w \<or> block_of cfg x mod sets \<noteq> r"
    then show "\<not> ahead cfg (line_of cfg c w' x)" using that(2) hold lof by metis
  next
    assume "cl_valid l" "block_of cfg x = cl_tag l * sets + r"
    then show "\<not> ahead cfg l" using that(2) hold [OF wr(1), of x] lof [OF wr(1), of x] modr wr(1) by auto
  qed
  ultimately show ?thesis using c'(2) unfolding cache_rel_def by blast
qed

lemma update_stats_ok:
  assumes "policy_inv ways sets (ca_policy c)" "w < ways" "r < sets"
  shows "\<exists>p. ca_update_stats cfg w r v c = (c\<lparr>ca_policy := p\<rparr>, Inr ()) \<and> policy_inv ways sets p"
  using policy.upd_ok [of ways sets "ca_policy c" w r v] assms sizes by (auto simp: ca_update_stats_def)

text \<open>Eviction keeps the contents: a line that is ahead of the memory is written back.\<close>

lemma kick_rel:
  assumes rel: "rel c L D" and wr: "w < ways" "r < sets"
  shows "\<exists>c'. kick cfg lops w r c = (c', Inr ()) \<and> rel c' L D \<and> \<not> cl_valid (ca_line c' w r) \<and>
    (\<forall>w' < ways. \<forall>r'. (w', r') \<noteq> (w, r) \<longrightarrow> ca_line c' w' r' = ca_line c w' r')"
proof -
  let ?l = "ca_line c w r"
  let ?l' = "?l\<lparr>cl_valid := False, cl_dirty := False\<rparr>"
  let ?k = "cl_tag ?l * sets + r"
  have shape: "cache_shape cfg c" and pol: "policy_inv ways sets (ca_policy c)" and li: "linv (ca_mem c)"
    using rel by (simp_all add: cache_rel_def cache_shape_def)
  note line = rel_lineD [OF rel wr]
  define wb where "wb = (if cl_dirty ?l \<and> cc_write_policy cfg = WP_BACK then
      act_bind (ca_lower (fm_write lops (plain_address (calc_base_address cfg (cl_tag ?l) r)) (cl_data ?l) AE_REGULAR)) (\<lambda>_.
        ca_modify (\<lambda>c. c\<lparr>mem_writes := mem_writes c + of_nat (cc_block_size cfg),
          burst_writes := burst_writes c + of_nat (cc_block_size cfg) - 1\<rparr>))
    else act_return ())"
  have "\<exists>c1. wb c = (c1, Inr ()) \<and> ca_dt c1 = ca_dt c \<and> ca_policy c1 = ca_policy c \<and> linv (ca_mem c1) \<and>
      (\<forall>x. lview (ca_mem c1) x = (if ahead cfg ?l \<and> block_of cfg x = ?k then L x else lview (ca_mem c) x))"
  proof (cases "ahead cfg ?l")
    case True
    then have v: "cl_valid ?l" using line(2) by (simp add: ahead_def)
    have "ladmits (of_nat (?k * B)) (length (cl_data ?l))" using blocks_admitted [OF line(3) [OF v]] line(1) by simp
    moreover have "cl_data ?l \<noteq> []" using line(1) sizes by auto
    ultimately obtain m rr where m: "fm_write lops (plain_address (calc_base_address cfg (cl_tag ?l) r)) (cl_data ?l) AE_REGULAR (ca_mem c) = (m, Inr rr)"
      "linv m" "lview m = store_bytes (lview (ca_mem c)) (of_nat (?k * B)) (cl_data ?l)"
      using lower.write_contract [OF li, of "cl_data ?l" "plain_address (calc_base_address cfg (cl_tag ?l) r)"]
      by (auto simp: calc_base_address_eq simp del: of_nat_mult)
    have "cl_data ?l ! (unat x mod B) = L x" if "block_of cfg x = ?k" for x
      using rel v that wr block_split [OF wr(2), of x "cl_tag ?l"]
      unfolding cache_rel_def holds_def line_of_def by metis
    then have "lview m x = (if block_of cfg x = ?k then L x else lview (ca_mem c) x)" for x
      using store_block [OF line(3) [OF v] line(1)] m(3) by simp
    then show ?thesis using True m(1,2) by (simp add: wb_def ahead_def ca_lower_def ca_modify_def act_bind_def)
  next
    case False
    then show ?thesis using li by (auto simp: wb_def ahead_def)
  qed
  then obtain c1 where c1: "wb c = (c1, Inr ())" "ca_dt c1 = ca_dt c" "ca_policy c1 = ca_policy c" "linv (ca_mem c1)"
    "\<And>x. lview (ca_mem c1) x = (if ahead cfg ?l \<and> block_of cfg x = ?k then L x else lview (ca_mem c) x)" by blast
  define c2 where "c2 = (ca_set_line w r ?l' c1)\<lparr>change_counter := change_counter c1 + 1\<rparr>"
  have "ca_policy c2 = ca_policy c" by (simp add: c2_def ca_set_line_def c1)
  with update_stats_ok [of c2 w r False] pol wr obtain p
    where p: "ca_update_stats cfg w r False c2 = (c2\<lparr>ca_policy := p\<rparr>, Inr ())" "policy_inv ways sets p" by auto
  let ?c' = "c2\<lparr>ca_policy := p\<rparr>"
  have dt: "ca_dt ?c' = ca_dt (ca_set_line w r ?l' c)" by (simp add: c2_def ca_set_line_def c1)
  have "kick cfg lops w r c = (?c', Inr ())"
    using c1(1) p(1) unfolding kick_def Let_def wb_def [symmetric]
    by (simp add: ca_modify_def c2_def act_bind_def)
  moreover have "rel ?c' L D"
  proof (rule rel_update [OF rel wr dt])
    show "linv (ca_mem ?c')" "policy_inv ways sets (ca_policy ?c')" using c1 p by (simp_all add: c2_def ca_set_line_def)
    show "line_ok lim cfg r ?l'" using line by (simp add: line_ok_def)
  next
    fix x assume x: "x \<notin> D" and h: "\<And>w'. w' < ways \<Longrightarrow> holds cfg c w' x \<Longrightarrow>
      w' \<noteq> w \<or> block_of cfg x mod sets \<noteq> r \<Longrightarrow> \<not> ahead cfg (line_of cfg c w' x)"
    show "lview (ca_mem ?c') x = L x"
    proof (cases "ahead cfg ?l \<and> block_of cfg x = ?k")
      case False
      have "\<not> ahead cfg (line_of cfg c w' x)" if "w' < ways" "holds cfg c w' x" for w'
      proof (cases "w' = w \<and> block_of cfg x mod sets = r")
        case True
        then have "block_of cfg x = ?k"
          using that(2) block_split [OF wr(2), of x "cl_tag ?l"] by (simp add: holds_def)
        with False True show ?thesis by (simp add: line_of_def)
      qed (use h that in blast)
      then have "lview (ca_mem c) x = L x" using rel x unfolding cache_rel_def by blast
      then show ?thesis using False c1(5) by (simp add: c2_def ca_set_line_def)
    qed (simp add: c2_def ca_set_line_def c1(5))
  qed simp_all
  moreover have "ca_line ?c' w' r' = (if w' = w \<and> r' = r then ?l' else ca_line c w' r')" if "w' < ways" for w' r'
    using ca_line_set_line [OF shape wr that, of ?l' r'] dt by (simp add: ca_line_def)
  ultimately show ?thesis using wr by (intro exI [of _ ?c']) auto
qed

abbreviation "row x \<equiv> block_of cfg x mod sets"

lemma row_bound: "row x < sets" using sizes by simp

text \<open>The way that will serve an access: it holds the block, or it is free and no way holds the block.\<close>

definition ready :: "'m cache \<Rightarrow> nat \<Rightarrow> address \<Rightarrow> bool" where
  "ready c w a \<longleftrightarrow> w < ways \<and> (holds cfg c w a \<or>
     \<not> cl_valid (ca_line c w (row a)) \<and> (\<forall>w' < ways. \<not> holds cfg c w' a))"

lemma find_way_rel:
  assumes rel: "rel c L D" "t = ACCESS_WRITE \<longrightarrow> cc_write_policy cfg \<noteq> WP_THROUGH_NOALLOC"
  shows "\<exists>c' w. cache_find_way cfg rnd lops (compute_location cfg a) t c = (c', Inr (Some w)) \<and> rel c' L D \<and> ready c' w a"
proof (cases "find_block_index cfg c (compute_location cfg a) < ways")
  case True
  then show ?thesis
    using rel find_block_index_cases(1) [OF cfg_ok, of c a] by (auto simp: cache_find_way_def Let_def ready_def)
next
  case False
  let ?loc = "compute_location cfg a"
  note loc = compute_location_eq [OF cfg_ok, of a]
  have none: "\<not> holds cfg c w' a" if "w' < ways" for w'
    using find_block_index_cases(2) [OF cfg_ok, of c a w'] False that by simp
  have "policy_inv ways sets (ca_policy c)" using rel by (simp add: cache_rel_def cache_shape_def)
  with policy.sel_ok [of ways sets "ca_policy c" "row a" rnd "ca_rand c"] sizes obtain w calls where
    w: "select_way_to_evict rnd ways (ca_policy c) (ca_rand c) (row a) = Inr (w, calls)" "w < ways" by auto
  define c1 where "c1 = c\<lparr>ca_rand := calls\<rparr>"
  have "rel c1 L D" using rel(1) cache_rel_cong [of c1 c] by (simp add: c1_def)
  from kick_rel [OF this w(2) row_bound, of a] obtain c' where c': "kick cfg lops w (row a) c1 = (c', Inr ())" "rel c' L D"
    "\<not> cl_valid (ca_line c' w (row a))" "\<And>w' r'. w' < ways \<Longrightarrow> (w', r') \<noteq> (w, row a) \<Longrightarrow> ca_line c' w' r' = ca_line c1 w' r'" by blast
  have "\<not> holds cfg c' w' a" if "w' < ways" for w'
    using none [OF that] c'(3) c'(4) [OF that, of "row a"] that by (cases "w' = w") (simp_all add: holds_def c1_def ca_line_def)
  then have "ready c' w a" using c'(3) w(2) by (simp add: ready_def)
  moreover have "cache_find_way cfg rnd lops ?loc t c = (c', Inr (Some w))"
    using False rel(2) w c'(1) loc
    by (auto simp: cache_find_way_def Let_def ca_select_way_def act_bind_def c1_def)
  ultimately show ?thesis using c'(2) by blast
qed

lemma find_way_noalloc:
  assumes rel: "rel c L D" "cc_write_policy cfg = WP_THROUGH_NOALLOC"
  shows "\<exists>c' w. cache_find_way cfg rnd lops (compute_location cfg a) ACCESS_WRITE c = (c', Inr w) \<and> rel c' L D \<and>
    (case w of None \<Rightarrow> \<forall>w' < ways. \<not> holds cfg c' w' a | Some w \<Rightarrow> ready c' w a)"
proof (cases "find_block_index cfg c (compute_location cfg a) < ways")
  case True
  then show ?thesis
    using rel find_block_index_cases(1) [OF cfg_ok, of c a] by (auto simp: cache_find_way_def Let_def ready_def)
next
  case False
  define c' where "c' = c\<lparr>miss_write := miss_write c + 1\<rparr>"
  have "rel c' L D" using rel(1) cache_rel_cong [of c' c] by (simp add: c'_def)
  moreover have "\<not> holds cfg c' w' a" if "w' < ways" for w'
    using find_block_index_cases(2) [OF cfg_ok, of c a w'] False that by (simp add: holds_def c'_def ca_line_def)
  ultimately show ?thesis
    using False rel(2) by (auto simp: cache_find_way_def Let_def ca_modify_def act_bind_def c'_def)
qed

text \<open>The line holds the block after the fill, and only its memory was read.\<close>

lemma fill_rel:
  assumes rel: "rel c L D" and ready: "ready c w a" and a: "block_of cfg a * B < lim"
    and D: "\<And>x. x \<in> D \<Longrightarrow> block_of cfg x \<noteq> block_of cfg a"
  shows "\<exists>c'. cache_fill cfg lops w (compute_location cfg a) t c = (c', Inr ()) \<and> rel c' L D \<and> holds cfg c' w a"
proof -
  let ?loc = "compute_location cfg a"
  let ?l = "ca_line c w (row a)"
  note loc = compute_location_eq [OF cfg_ok, of a]
  have w: "w < ways" using ready by (simp add: ready_def)
  have shape: "cache_shape cfg c" and li: "linv (ca_mem c)" and pol: "policy_inv ways sets (ca_policy c)"
    using rel by (simp_all add: cache_rel_def cache_shape_def)
  show ?thesis
  proof (cases "cl_valid ?l")
    case True
    then have h: "holds cfg c w a" using ready by (simp add: ready_def)
    define c' where "c' = (if t = ACCESS_WRITE then c\<lparr>hit_write := hit_write c + 1\<rparr> else c\<lparr>hit_read := hit_read c + 1\<rparr>)"
    have "rel c' L D" "holds cfg c' w a"
      using rel h cache_rel_cong [of c' c] by (simp_all add: c'_def holds_def ca_line_def)
    then show ?thesis using True loc by (simp add: cache_fill_def Let_def ca_modify_def c'_def)
  next
    case False
    then have none: "\<not> holds cfg c w' a" if "w' < ways" for w' using ready that by (auto simp: ready_def holds_def)
    then have none': "\<not> holds cfg c w' x" if "w' < ways" "block_of cfg x = block_of cfg a" for w' x
      using that by (simp add: holds_def)
    have base: "calc_base_address cfg (loc_tag ?loc) (loc_row ?loc) = of_nat (block_of cfg a * B)"
      by (simp add: calc_base_address_eq loc del: of_nat_mult)
    obtain m k where m: "fm_read lops (plain_address (of_nat (block_of cfg a * B))) B AE_REGULAR (ca_mem c) =
        (m, Inr (load_bytes (lview (ca_mem c)) (of_nat (block_of cfg a * B)) B, k))" "linv m" "lview m = lview (ca_mem c)"
      using lower.read_contract [OF li sizes(1), of "plain_address (of_nat (block_of cfg a * B))"] blocks_admitted [OF a]
      by (auto simp del: of_nat_mult)
    let ?bs = "load_bytes (lview (ca_mem c)) (of_nat (block_of cfg a * B)) B"
    let ?l' = "\<lparr>cl_valid = True, cl_dirty = False, cl_tag = loc_tag ?loc, cl_data = ?bs\<rparr>"
    define c1 where "c1 = (if t = ACCESS_WRITE then c\<lparr>miss_write := miss_write c + 1\<rparr> else c\<lparr>miss_read := miss_read c + 1\<rparr>)"
    define c' where "c' = (ca_set_line w (row a) ?l' (c1\<lparr>ca_mem := m\<rparr>))
        \<lparr>change_counter := change_counter c1 + of_nat (cc_block_size cfg),
         mem_reads := mem_reads c1 + of_nat (cc_block_size cfg),
         burst_reads := burst_reads c1 + of_nat (cc_block_size cfg) - 1\<rparr>"
    have len: "length (cl_data ?l) = B" using rel_lineD(1) [OF rel w row_bound] .
    have Beq: "cc_block_size cfg * BLOCK_ITEM_SIZE = B" by (simp add: block_bytes_def)
    have data: "overwrite (cl_data ?l) 0 ?bs = ?bs" using len by (simp add: overwrite_def)
    have c1: "ca_mem c1 = ca_mem c" "ca_line c1 = ca_line c" by (auto simp: c1_def ca_line_def fun_eq_iff)
    have "cache_fill cfg lops w ?loc t c = (c', Inr ())"
      using False m(1) unfolding cache_fill_def Let_def base Beq
      by (simp add: loc(1) ca_modify_def act_bind_def ca_lower_def c1_def [symmetric] c1 data c'_def del: of_nat_mult)
    moreover have dt: "ca_dt c' = ca_dt (ca_set_line w (row a) ?l' c)"
      by (simp add: c'_def ca_set_line_def c1_def)
    have tagrow: "cl_tag ?l' * sets + row a = block_of cfg a" by (simp add: loc)
    have "rel c' L D"
    proof (rule rel_update [OF rel w row_bound dt])
      show "linv (ca_mem c')" "policy_inv ways sets (ca_policy c')" using m pol by (simp_all add: c'_def ca_set_line_def c1_def)
      show "line_ok lim cfg (row a) ?l'" using a by (simp add: line_ok_def loc)
      show "\<not> holds cfg c w' x" if "block_of cfg x = cl_tag ?l' * sets + row a" "w' < ways" for x w'
        using none' [OF that(2)] that(1) unfolding tagrow by blast
      show "cl_data ?l' ! (unat x mod B) = L x" if "block_of cfg x = cl_tag ?l' * sets + row a" for x
      proof -
        have b: "block_of cfg x = block_of cfg a" using that unfolding tagrow .
        then have "x \<notin> D" using D by blast
        then have "lview (ca_mem c) x = L x" using rel none' [OF _ b] unfolding cache_rel_def by blast
        then show ?thesis using load_block [of x "lview (ca_mem c)"] a b by (simp del: of_nat_mult)
      qed
      fix x assume x: "x \<notin> D" and h: "\<And>w'. w' < ways \<Longrightarrow> holds cfg c w' x \<Longrightarrow>
        w' \<noteq> w \<or> row x \<noteq> row a \<Longrightarrow> \<not> ahead cfg (line_of cfg c w' x)"
      have "\<not> ahead cfg (line_of cfg c w' x)" if "w' < ways" "holds cfg c w' x" for w'
        using h [OF that] False that(2) unfolding holds_def by metis
      then show "lview (ca_mem c') x = L x" using rel x m(3) unfolding cache_rel_def by (simp add: c'_def ca_set_line_def)
    qed simp
    moreover have "holds cfg c' w a"
      using ca_line_set_line [OF shape w row_bound w, of a ?l' "row a"] dt by (simp add: holds_def ca_line_def loc)
    ultimately show ?thesis by blast
  qed
qed

text \<open>The part of an access inside one block.\<close>

lemma chunk_nth:
  assumes "unat a mod B + p \<le> B" "block_of cfg a * B < lim" "i < p"
  shows "unat (a + of_nat i) = unat a + i" "block_of cfg (a + of_nat i) = block_of cfg a"
    "unat (a + of_nat i) mod B = unat a mod B + i"
proof -
  have a: "unat a = block_of cfg a * B + unat a mod B" by (simp add: block_of_def)
  have "unat a + i < 2 ^ 64" using no_wrap [OF assms(2)] assms(1,3) a by linarith
  then show u: "unat (a + of_nat i) = unat a + i"
    using unat_add_lem [of a "of_nat i"] by (simp add: unat_of_nat_small)
  have lt: "unat a mod B + i < B" using assms by linarith
  have "unat (a + of_nat i) = block_of cfg a * B + (unat a mod B + i)" using a u by linarith
  moreover have "(q * B + j) div B = q" "(q * B + j) mod B = j" if "j < B" for q j using that by simp_all
  ultimately show "block_of cfg (a + of_nat i) = block_of cfg a" "unat (a + of_nat i) mod B = unat a mod B + i"
    using lt unfolding block_of_def by metis+
qed

lemma chunk_iff:
  assumes "unat a mod B + p \<le> B" "block_of cfg a * B < lim"
  shows "unat (x - a) < p \<longleftrightarrow> block_of cfg x = block_of cfg a \<and> unat a mod B \<le> unat x mod B \<and> unat x mod B < unat a mod B + p"
    and "unat (x - a) < p \<Longrightarrow> unat (x - a) = unat x mod B - unat a mod B"
proof -
  have fwd: "block_of cfg x = block_of cfg a \<and> unat x mod B = unat a mod B + unat (x - a)" if "unat (x - a) < p"
    using chunk_nth [OF assms that] by simp
  then show "unat (x - a) < p \<Longrightarrow> unat (x - a) = unat x mod B - unat a mod B" by simp
  show "unat (x - a) < p \<longleftrightarrow> block_of cfg x = block_of cfg a \<and> unat a mod B \<le> unat x mod B \<and> unat x mod B < unat a mod B + p"
  proof
    assume r: "block_of cfg x = block_of cfg a \<and> unat a mod B \<le> unat x mod B \<and> unat x mod B < unat a mod B + p"
    let ?i = "unat x mod B - unat a mod B"
    have "unat x = block_of cfg x * B + unat x mod B" "unat a = block_of cfg a * B + unat a mod B"
      by (simp_all add: block_of_def)
    then have "unat x = unat a + ?i" using r by simp
    moreover have i: "?i < p" using r by linarith
    ultimately have "x = a + of_nat ?i" using chunk_nth(1) [OF assms i] by (metis unsigned_word_eqI)
    then have "x - a = of_nat ?i" by (metis add_diff_cancel_left')
    moreover have "?i < 2 ^ LENGTH(64)" using i assms(1) block_bytes_bound [OF cfg_ok] by simp
    ultimately have "unat (x - a) = ?i" by (metis unat_of_nat_small)
    then show "unat (x - a) < p" using i by simp
  qed (use fwd in auto)
qed

lemma line_content:
  assumes "rel c L D" "w < ways" "holds cfg c w x"
  shows "cl_data (ca_line c w (row x)) ! (unat x mod B) = L x" "length (cl_data (ca_line c w (row x))) = B"
  using assms rel_lineD(1) [OF assms(1,2) row_bound] by (auto simp: cache_rel_def line_of_def)

lemma transfer_read:
  assumes rel: "rel c L D" and w: "w < ways" and h: "holds cfg c w a"
    and p: "unat a mod B + length part \<le> B" "block_of cfg a * B < lim"
  shows "cache_transfer w (compute_location cfg a) ACCESS_READ part c = (c, Inr (False, load_bytes L a (length part)))"
proof -
  note loc = compute_location_eq [OF cfg_ok, of a]
  let ?d = "cl_data (ca_line c w (row a))"
  have "take (length part) (drop (unat a mod B) ?d) = load_bytes L a (length part)"
  proof (rule nth_equalityI)
    show "length (take (length part) (drop (unat a mod B) ?d)) = length (load_bytes L a (length part))"
      using line_content(2) [OF rel w h] p(1) by simp
    fix i assume "i < length (take (length part) (drop (unat a mod B) ?d))"
    then have i: "i < length part" by simp
    note c = chunk_nth [OF p i]
    have "holds cfg c w (a + of_nat i)" using h c(2) by (simp add: holds_def)
    from line_content(1) [OF rel w this] show "take (length part) (drop (unat a mod B) ?d) ! i = load_bytes L a (length part) ! i"
      using i c line_content(2) [OF rel w h] p(1) by simp
  qed
  then show ?thesis by (simp add: cache_transfer_def Let_def loc(1,3))
qed

lemma nth_overwrite:
  "off + length ys \<le> length xs \<Longrightarrow> j < length xs \<Longrightarrow>
   overwrite xs off ys ! j = (if off \<le> j \<and> j < off + length ys then ys ! (j - off) else xs ! j)"
  by (auto simp: overwrite_def nth_append)

lemma transfer_write:
  assumes rel: "rel c L D" and w: "w < ways" and h: "holds cfg c w a"
    and p: "unat a mod B + length part \<le> B" "block_of cfg a * B < lim"
  shows "\<exists>c' chg. cache_transfer w (compute_location cfg a) ACCESS_WRITE part c = (c', Inr (chg, part)) \<and>
    rel c' (store_bytes L a part) (D \<union> (if cc_write_policy cfg = WP_BACK then {} else {x. unat (x - a) < length part}))"
proof -
  note loc = compute_location_eq [OF cfg_ok, of a]
  let ?l = "ca_line c w (row a)" and ?off = "unat a mod B"
  let ?D = "D \<union> (if cc_write_policy cfg = WP_BACK then {} else {x. unat (x - a) < length part})"
  have len: "length (cl_data ?l) = B" using line_content(2) [OF rel w h] .
  define chg where "chg = (take (length part) (drop ?off (cl_data ?l)) \<noteq> part)"
  have ow: "(if chg then overwrite (cl_data ?l) ?off part else cl_data ?l) = overwrite (cl_data ?l) ?off part"
    unfolding chg_def overwrite_def by (metis add.commute append_take_drop_id drop_drop)
  let ?l' = "?l\<lparr>cl_dirty := True, cl_data := overwrite (cl_data ?l) ?off part\<rparr>"
  define c' where "c' = (ca_set_line w (row a) ?l' c)\<lparr>change_counter := change_counter c + (if chg then 1 else 0)\<rparr>"
  have "cache_transfer w (compute_location cfg a) ACCESS_WRITE part c = (c', Inr (chg, part))"
    unfolding cache_transfer_def Let_def loc(1,3) chg_def [symmetric] ow
    by (simp add: ca_modify_def act_bind_def c'_def)
  moreover have "rel c' (store_bytes L a part) ?D"
  proof (rule rel_update [OF rel w row_bound [of a]])
    have v: "cl_valid ?l" "cl_tag ?l * sets + row a = block_of cfg a" using h by (simp_all add: holds_def)
    have small: "length part \<le> 2 ^ LENGTH(64)" using p(1) block_bytes_bound [OF cfg_ok] by simp
    show "ca_dt c' = ca_dt (ca_set_line w (row a) ?l' c)" by (simp add: c'_def)
    show "linv (ca_mem c')" "policy_inv ways sets (ca_policy c')"
      using rel by (simp_all add: c'_def ca_set_line_def cache_rel_def cache_shape_def)
    show "line_ok lim cfg (row a) ?l'"
      using rel_lineD [OF rel w row_bound, of a] v p(1) by (simp add: line_ok_def overwrite_def)
    show "\<not> holds cfg c w' x" if "block_of cfg x = cl_tag ?l' * sets + row a" "w' < ways" "w' \<noteq> w" for x w'
    proof
      assume "holds cfg c w' x"
      moreover have "block_of cfg x = block_of cfg a" using that(1) v(2) by simp
      ultimately have "holds cfg c w' a" by (simp add: holds_def)
      then show False using rel w h that unfolding cache_rel_def by blast
    qed
    show "cl_data ?l' ! (unat x mod B) = store_bytes L a part x" if "block_of cfg x = cl_tag ?l' * sets + row a" for x
    proof -
      have b: "block_of cfg x = block_of cfg a" using that v(2) by simp
      then have hx: "holds cfg c w x" using h by (simp add: holds_def)
      have "cl_data ?l ! (unat x mod B) = L x" using line_content(1) [OF rel w hx] b by simp
      then show ?thesis
        using b chunk_iff [OF p, of x] p(1) len sizes by (auto simp: store_bytes_apply [OF small] nth_overwrite)
    qed
    show "store_bytes L a part x = L x" if "w' < ways" "holds cfg c w' x" "w' \<noteq> w \<or> row x \<noteq> row a" for x w'
    proof -
      have "block_of cfg x \<noteq> block_of cfg a"
      proof
        assume b: "block_of cfg x = block_of cfg a"
        then have "holds cfg c w' a" using that(2) by (simp add: holds_def)
        then show False using rel w h that(1,3) b unfolding cache_rel_def by metis
      qed
      then show ?thesis using chunk_iff(1) [OF p, of x] by (simp add: store_bytes_apply [OF small])
    qed
    fix x assume x: "x \<notin> ?D" and o: "\<And>w'. w' < ways \<Longrightarrow> holds cfg c w' x \<Longrightarrow>
        w' \<noteq> w \<or> row x \<noteq> row a \<Longrightarrow> \<not> ahead cfg (line_of cfg c w' x)"
      and n: "cl_valid ?l' \<Longrightarrow> block_of cfg x = cl_tag ?l' * sets + row a \<Longrightarrow> \<not> ahead cfg ?l'"
    have na: "\<not> ahead cfg (line_of cfg c w' x)" if "w' < ways" "holds cfg c w' x" for w'
    proof (cases "w' = w \<and> row x = row a")
      case True
      then have "block_of cfg x = block_of cfg a" using that(2) h unfolding holds_def by (metis div_mult_mod_eq)
      then have "cc_write_policy cfg \<noteq> WP_BACK" using n v by (simp add: ahead_def)
      then show ?thesis by (simp add: ahead_def)
    qed (use o that in blast)
    then have "lview (ca_mem c) x = L x" using rel x unfolding cache_rel_def by blast
    moreover have "\<not> unat (x - a) < length part"
    proof
      assume i: "unat (x - a) < length part"
      then have "block_of cfg x = block_of cfg a" using chunk_iff(1) [OF p, of x] by blast
      with n v x i show False by (auto simp: ahead_def split: if_splits)
    qed
    ultimately show "lview (ca_mem c') x = store_bytes L a part x"
      by (simp add: store_bytes_apply [OF small] c'_def ca_set_line_def)
  qed
  ultimately show ?thesis by blast
qed

lemma unat_step: "unat a + k < lim \<Longrightarrow> unat (a + of_nat k) = unat a + k" for a :: address
  using unat_add_lem [of a "of_nat k"] lim_bound by (simp add: unat_of_nat_small uncached_start_def)

text \<open>How an access is cut at the end of the block.\<close>

lemma overflow_split:
  fixes a :: address
  assumes "0 < n" "unat a + n \<le> lim"
  defines "ov \<equiv> calculate_overflow_to_next_blocks cfg n (compute_location cfg a)"
  shows "ov < n" "unat a mod B + (n - ov) \<le> B" "block_of cfg a * B < lim"
    "0 < ov \<Longrightarrow> unat (a + of_nat (n - ov)) = unat a + (n - ov)"
    "0 < ov \<Longrightarrow> block_of cfg (a + of_nat (n - ov)) = Suc (block_of cfg a)"
proof -
  note loc = compute_location_eq(3) [OF cfg_ok, of a]
  have ov: "ov = nat (int (unat a mod B + n) - int B)"
    unfolding ov_def calculate_overflow_to_next_blocks_def loc by (simp add: block_bytes_def)
  have lt: "unat a mod B < B" using sizes by simp
  show o: "ov < n" unfolding ov_def using overflow_less [OF sizes(4) assms(1)] .
  show "unat a mod B + (n - ov) \<le> B" using ov lt by linarith
  have "block_of cfg a * B \<le> unat a" by (simp add: block_of_def)
  then show "block_of cfg a * B < lim" using assms by linarith
  assume p: "0 < ov"
  then have "unat a mod B + (n - ov) = B" using ov lt by linarith
  moreover show u: "unat (a + of_nat (n - ov)) = unat a + (n - ov)"
    using p o assms(2) by (intro unat_step) linarith
  moreover have "unat a = block_of cfg a * B + unat a mod B" by (simp add: block_of_def)
  ultimately have "unat (a + of_nat (n - ov)) = Suc (block_of cfg a) * B" by (simp add: algebra_simps)
  then show "block_of cfg (a + of_nat (n - ov)) = Suc (block_of cfg a)" using sizes by (simp add: block_of_def)
qed

lemma stats_rel:
  assumes "rel c L D" "w < ways" "r < sets"
  shows "\<exists>c'. ca_update_stats cfg w r v c = (c', Inr ()) \<and> rel c' L D \<and> (\<forall>w x. holds cfg c' w x = holds cfg c w x)"
proof -
  have "policy_inv ways sets (ca_policy c)" using assms by (simp add: cache_rel_def cache_shape_def)
  from update_stats_ok [OF this assms(2,3)] obtain p where
    p: "ca_update_stats cfg w r v c = (c\<lparr>ca_policy := p\<rparr>, Inr ())" "policy_inv ways sets p" by blast
  moreover have "rel (c\<lparr>ca_policy := p\<rparr>) L D"
    using assms p(2) by (simp add: cache_rel_def cache_shape_def holds_def line_of_def ca_line_def)
  ultimately show ?thesis by (simp add: holds_def ca_line_def)
qed

text \<open>Everything up to the transfer, for an access that uses a line.\<close>

lemma prepare_rel:
  assumes rel: "rel c L D" and ready: "ready c w a" and a: "block_of cfg a * B < lim"
    and D: "\<And>x. x \<in> D \<Longrightarrow> block_of cfg x \<noteq> block_of cfg a"
  shows "\<exists>c1 c2. cache_fill cfg lops w (compute_location cfg a) t c = (c1, Inr ()) \<and>
    ca_update_stats cfg w (loc_row (compute_location cfg a)) True c1 = (c2, Inr ()) \<and> rel c2 L D \<and> w < ways \<and> holds cfg c2 w a"
proof -
  have w: "w < ways" using ready by (simp add: ready_def)
  from fill_rel [OF assms] obtain c1 where c1: "cache_fill cfg lops w (compute_location cfg a) t c = (c1, Inr ())"
    "rel c1 L D" "holds cfg c1 w a" by blast
  with stats_rel [OF c1(2) w row_bound, of a True] show ?thesis using w compute_location_eq(1) [OF cfg_ok, of a] by auto
qed

lemma access_read:
  "rel c L {} \<Longrightarrow> unat a + length buffer \<le> lim \<Longrightarrow>
    \<exists>c'. cache_access cfg rnd lops ACCESS_READ a buffer c = (c', Inr (False, load_bytes L a (length buffer))) \<and> rel c' L {}"
proof (induction buffer arbitrary: a c rule: length_induct)
  case (1 buffer)
  show ?case
  proof (cases "buffer = []")
    case True with 1 sizes show ?thesis by (auto simp: cache_access.simps)
  next
    case False
    define loc where "loc = compute_location cfg a"
    define ov where "ov = calculate_overflow_to_next_blocks cfg (length buffer) loc"
    define n where "n = length buffer - ov"
    have "0 < length buffer" using False by simp
    note ovs = overflow_split [OF this "1.prems"(2), folded loc_def, folded ov_def, folded n_def]
    from find_way_rel [OF "1.prems"(1), of ACCESS_READ a] obtain c0 w where
      c0: "cache_find_way cfg rnd lops loc ACCESS_READ c = (c0, Inr (Some w))" "rel c0 L {}" "ready c0 w a"
      unfolding loc_def by auto
    from prepare_rel [OF c0(2,3) ovs(3), of ACCESS_READ] obtain c1 c2 where
      c12: "cache_fill cfg lops w loc ACCESS_READ c0 = (c1, Inr ())" "ca_update_stats cfg w (loc_row loc) True c1 = (c2, Inr ())"
      "rel c2 L {}" "w < ways" "holds cfg c2 w a" unfolding loc_def by auto
    have len: "length (take n buffer) = n" by (simp add: n_def)
    have tr: "cache_transfer w loc ACCESS_READ (take n buffer) c2 = (c2, Inr (False, load_bytes L a n))"
      using transfer_read [OF c12(3-5), of "take n buffer"] ovs(2,3) unfolding loc_def len by blast
    note run = c0(1) c12(1,2) tr
    show ?thesis
    proof (cases "0 < ov")
      case True
      have rest: "length (drop n buffer) = ov" "length (drop n buffer) < length buffer" using ovs(1) True by (auto simp: n_def)
      have "unat (a + of_nat n) + length (drop n buffer) \<le> lim"
        using ovs(4) [OF True] rest "1.prems"(2) ovs(1) by (simp add: n_def)
      with "1.IH" rest(2) c12(3) obtain c' where
        "cache_access cfg rnd lops ACCESS_READ (a + of_nat n) (drop n buffer) c2 = (c', Inr (False, load_bytes L (a + of_nat n) ov))" "rel c' L {}"
        unfolding rest(1) [symmetric] by blast
      moreover have "load_bytes L a (length buffer) = load_bytes L a n @ load_bytes L (a + of_nat n) ov"
        using load_bytes_append [of L a n ov] ovs(1) by (simp add: n_def)
      ultimately show ?thesis
        using run True False sizes
        by (subst cache_access.simps) (simp add: loc_def [symmetric] ov_def [symmetric] n_def [symmetric] Let_def)
    next
      case no: False
      then have "n = length buffer" by (simp add: n_def)
      then show ?thesis using run no False sizes c12(3)
        by (subst cache_access.simps) (simp add: loc_def [symmetric] ov_def [symmetric] n_def [symmetric] Let_def)
    qed
  qed
qed

text \<open>The addresses at which the memory is behind after a write that has only changed lines.\<close>

definition pending :: "address \<Rightarrow> nat \<Rightarrow> address set" where
  "pending a n = (if cc_write_policy cfg = WP_BACK then {} else {x. unat (x - a) < n})"

lemma pending_append: "pending a n \<union> pending (a + of_nat n) k \<subseteq> pending a (n + k)"
proof -
  have "unat (x - a) < n + k" if "unat (x - (a + of_nat n)) < k" for x
  proof -
    have "x - a = (x - (a + of_nat n)) + of_nat n" by simp
    then have "unat (x - a) \<le> unat (x - (a + of_nat n)) + unat (of_nat n :: address)"
      using unat_plus_if' [of "x - (a + of_nat n)" "of_nat n"] by simp
    moreover have "unat (of_nat n :: address) \<le> n" by (simp add: unsigned_of_nat take_bit_nat_less_eq_self)
    ultimately show ?thesis using that by linarith
  qed
  then show ?thesis by (auto simp: pending_def)
qed

lemma rel_mono: "rel c L D \<Longrightarrow> D \<subseteq> D' \<Longrightarrow> rel c L D'"
  unfolding cache_rel_def by blast

text \<open>A write that misses without allocating concerns no line.\<close>

lemma skip_rel:
  assumes rel: "rel c L D" and none: "\<forall>w < ways. \<not> holds cfg c w a" and wt: "cc_write_policy cfg \<noteq> WP_BACK"
    and p: "unat a mod B + length part \<le> B" "block_of cfg a * B < lim"
  shows "rel c (store_bytes L a part) (D \<union> pending a (length part))"
proof -
  have small: "length part \<le> 2 ^ LENGTH(64)" using p(1) block_bytes_bound [OF cfg_ok] by simp
  have st: "store_bytes L a part x = (if x \<in> pending a (length part) then part ! unat (x - a) else L x)" for x
    using wt by (simp add: store_bytes_apply [OF small] pending_def)
  have out: "x \<notin> pending a (length part)" if "w < ways" "holds cfg c w x" for w x
  proof
    assume "x \<in> pending a (length part)"
    then have "block_of cfg x = block_of cfg a" using chunk_iff(1) [OF p, of x] wt by (simp add: pending_def)
    then show False using that none unfolding holds_def by metis
  qed
  show ?thesis using rel out unfolding cache_rel_def st by simp
qed

text \<open>One chunk of a write, with or without a line.\<close>

lemma write_chunk:
  assumes rel: "rel c L D" and p: "unat a mod B + length part \<le> B" "block_of cfg a * B < lim"
    and D: "\<And>x. x \<in> D \<Longrightarrow> block_of cfg x < block_of cfg a"
  shows "\<exists>c0 w c'. cache_find_way cfg rnd lops (compute_location cfg a) ACCESS_WRITE c = (c0, Inr w) \<and>
    rel c' (store_bytes L a part) (D \<union> pending a (length part)) \<and>
    (case w of None \<Rightarrow> c' = c0
     | Some w \<Rightarrow> \<exists>c1 c2 chg. cache_fill cfg lops w (compute_location cfg a) ACCESS_WRITE c0 = (c1, Inr ()) \<and>
         ca_update_stats cfg w (loc_row (compute_location cfg a)) True c1 = (c2, Inr ()) \<and>
         cache_transfer w (compute_location cfg a) ACCESS_WRITE part c2 = (c', Inr (chg, part)))"
proof -
  have "\<exists>c0 w. cache_find_way cfg rnd lops (compute_location cfg a) ACCESS_WRITE c = (c0, Inr w) \<and> rel c0 L D \<and>
      (case w of None \<Rightarrow> cc_write_policy cfg \<noteq> WP_BACK \<and> (\<forall>w' < ways. \<not> holds cfg c0 w' a) | Some w \<Rightarrow> ready c0 w a)"
  proof (cases "cc_write_policy cfg = WP_THROUGH_NOALLOC")
    case True
    from find_way_noalloc [OF rel True, of a] obtain c0 w where
      "cache_find_way cfg rnd lops (compute_location cfg a) ACCESS_WRITE c = (c0, Inr w)" "rel c0 L D"
      "case w of None \<Rightarrow> \<forall>w' < ways. \<not> holds cfg c0 w' a | Some w \<Rightarrow> ready c0 w a" by blast
    then show ?thesis using True by (intro exI [of _ c0] exI [of _ w]) (simp split: option.splits)
  next
    case False
    then show ?thesis using find_way_rel [OF rel, of ACCESS_WRITE a] by auto
  qed
  then obtain c0 w where f: "cache_find_way cfg rnd lops (compute_location cfg a) ACCESS_WRITE c = (c0, Inr w)" "rel c0 L D"
    and w: "case w of None \<Rightarrow> cc_write_policy cfg \<noteq> WP_BACK \<and> (\<forall>w' < ways. \<not> holds cfg c0 w' a) | Some w \<Rightarrow> ready c0 w a" by blast
  show ?thesis
  proof (cases w)
    case None
    then have "rel c0 (store_bytes L a part) (D \<union> pending a (length part))" using skip_rel [OF f(2) _ _ p] w by simp
    then show ?thesis using f(1) None by auto
  next
    case (Some v)
    then have "ready c0 v a" using w by simp
    from prepare_rel [OF f(2) this p(2), of ACCESS_WRITE] D obtain c1 c2 where
      c12: "cache_fill cfg lops v (compute_location cfg a) ACCESS_WRITE c0 = (c1, Inr ())"
      "ca_update_stats cfg v (loc_row (compute_location cfg a)) True c1 = (c2, Inr ())" "rel c2 L D" "v < ways" "holds cfg c2 v a"
      by (metis less_irrefl)
    from transfer_write [OF c12(3-5) p] obtain c' chg where
      "cache_transfer v (compute_location cfg a) ACCESS_WRITE part c2 = (c', Inr (chg, part))"
      "rel c' (store_bytes L a part) (D \<union> pending a (length part))" unfolding pending_def by blast
    then show ?thesis using f(1) c12(1,2) Some by auto
  qed
qed

lemma access_write:
  "rel c L D \<Longrightarrow> unat a + length buffer \<le> lim \<Longrightarrow> (\<And>x. x \<in> D \<Longrightarrow> block_of cfg x < block_of cfg a) \<Longrightarrow>
    \<exists>c' chg bs. cache_access cfg rnd lops ACCESS_WRITE a buffer c = (c', Inr (chg, bs)) \<and>
      rel c' (store_bytes L a buffer) (D \<union> pending a (length buffer))"
proof (induction buffer arbitrary: a c L D rule: length_induct)
  case (1 buffer)
  show ?case
  proof (cases "buffer = []")
    case True with 1 sizes show ?thesis by (auto simp: cache_access.simps intro: rel_mono)
  next
    case False
    define loc where "loc = compute_location cfg a"
    define ov where "ov = calculate_overflow_to_next_blocks cfg (length buffer) loc"
    define n where "n = length buffer - ov"
    have "0 < length buffer" using False by simp
    note ovs = overflow_split [OF this "1.prems"(2), folded loc_def, folded ov_def, folded n_def]
    have len: "length (take n buffer) = n" by (simp add: n_def)
    let ?L = "store_bytes L a (take n buffer)"
    from write_chunk [OF "1.prems"(1) _ ovs(3), of "take n buffer"] "1.prems"(3) ovs(2) obtain c0 w c' where
      f: "cache_find_way cfg rnd lops loc ACCESS_WRITE c = (c0, Inr w)" and r: "rel c' ?L (D \<union> pending a n)"
      and w: "case w of None \<Rightarrow> c' = c0 | Some w \<Rightarrow> \<exists>c1 c2 chg. cache_fill cfg lops w loc ACCESS_WRITE c0 = (c1, Inr ()) \<and>
         ca_update_stats cfg w (loc_row loc) True c1 = (c2, Inr ()) \<and>
         cache_transfer w loc ACCESS_WRITE (take n buffer) c2 = (c', Inr (chg, take n buffer))"
      unfolding loc_def len by blast
    show ?thesis
    proof (cases "0 < ov")
      case True
      have rest: "length (drop n buffer) = ov" "length (drop n buffer) < length buffer" using ovs(1) True by (auto simp: n_def)
      have lim: "unat (a + of_nat n) + length (drop n buffer) \<le> lim"
        using ovs(4) [OF True] rest "1.prems"(2) ovs(1) by (simp add: n_def)
      have below: "block_of cfg x < block_of cfg (a + of_nat n)" if "x \<in> D \<union> pending a n" for x
        using that "1.prems"(3) [of x] chunk_iff(1) [OF ovs(2,3), of x] ovs(5) [OF True]
        by (auto simp: pending_def split: if_splits)
      from "1.IH" [rule_format, OF rest(2) r lim below] obtain d chg bs where
        d: "cache_access cfg rnd lops ACCESS_WRITE (a + of_nat n) (drop n buffer) c' = (d, Inr (chg, bs))"
        "rel d (store_bytes ?L (a + of_nat n) (drop n buffer)) (D \<union> pending a n \<union> pending (a + of_nat n) (length (drop n buffer)))" by blast
      have "store_bytes ?L (a + of_nat n) (drop n buffer) = store_bytes L a buffer"
        using store_bytes_append [of L a "take n buffer" "drop n buffer"] len by simp
      moreover have "pending a n \<union> pending (a + of_nat n) (length (drop n buffer)) \<subseteq> pending a (length buffer)"
        using pending_append [of a n ov] rest(1) ovs(1) by (simp add: n_def)
      ultimately have "rel d (store_bytes L a buffer) (D \<union> pending a (length buffer))"
        using d(2) by (auto elim!: rel_mono)
      then show ?thesis
        using f w d(1) True False sizes
        by (subst cache_access.simps)
          (auto simp: loc_def [symmetric] ov_def [symmetric] n_def [symmetric] Let_def split: option.splits)
    next
      case no: False
      then have "n = length buffer" by (simp add: n_def)
      then show ?thesis using f w r no False sizes
        by (subst cache_access.simps)
          (auto simp: loc_def [symmetric] ov_def [symmetric] n_def [symmetric] Let_def split: option.splits)
    qed
  qed
qed

lemma rel_view: "rel c L {} \<Longrightarrow> cc_enabled cfg \<Longrightarrow> cache_view lview cfg c = L"
proof
  fix x assume rel: "rel c L {}" and en: "cc_enabled cfg"
  let ?w = "find_block_index cfg c (compute_location cfg x)"
  note loc = compute_location_eq [OF cfg_ok, of x]
  show "cache_view lview cfg c x = L x"
  proof (cases "?w < ways")
    case True
    from find_block_index_cases(1) [OF cfg_ok this] have "holds cfg c ?w x" .
    with line_content(1) [OF rel True this] True en show ?thesis by (simp add: cache_view_def Let_def loc)
  next
    case False
    then have "\<not> holds cfg c w x" if "w < ways" for w using find_block_index_cases(2) [OF cfg_ok _ that, of c x] by simp
    then have "lview (ca_mem c) x = L x" using rel unfolding cache_rel_def by blast
    with False show ?thesis by (simp add: cache_view_def Let_def)
  qed
qed

lemma rel_inv: "rel c L {} \<Longrightarrow> cc_enabled cfg \<Longrightarrow> cache_inv linv lview lim cfg c"
  using rel_view by (simp add: cache_inv_def)

lemma cached_area:
  assumes "unat a + n < lim"
  shows "\<not> is_in_uncached_area a" "\<not> is_in_uncached_area (a + of_nat n)"
  using assms unat_step [OF assms] lim_bound by (simp_all add: is_in_uncached_area_def word_le_nat_alt)

lemma contract_read:
  assumes inv: "cache_inv linv lview lim cfg c" and n: "0 < n" and adm: "cache_admits ladmits lim (aw_addr a) n"
  shows "\<exists>c' k. cache_read cfg rnd lops a n AE_REGULAR c = (c', Inr (load_bytes (cache_view lview cfg c) (aw_addr a) n, k)) \<and>
    cache_inv linv lview lim cfg c' \<and> cache_view lview cfg c' = cache_view lview cfg c"
proof (cases "cc_enabled cfg")
  case True
  let ?L = "cache_view lview cfg c"
  have "rel c ?L {}" using inv True by (simp add: cache_inv_def)
  moreover have lt: "unat (aw_addr a) + n < lim" using adm by (simp add: cache_admits_def)
  ultimately obtain c' where c': "cache_access cfg rnd lops ACCESS_READ (aw_addr a) (replicate n 0) c =
      (c', Inr (False, load_bytes ?L (aw_addr a) n))" "rel c' ?L {}"
    using access_read [of c ?L "aw_addr a" "replicate n 0"] by auto
  then show ?thesis
    using True cached_area [OF lt] rel_view rel_inv by (simp add: cache_read_def act_bind_def)
next
  case False
  let ?c = "c\<lparr>mem_reads := mem_reads c + 1\<rparr>"
  obtain m k where m: "fm_read lops a n AE_REGULAR (ca_mem c) = (m, Inr (load_bytes (lview (ca_mem c)) (aw_addr a) n, k))"
    "linv m" "lview m = lview (ca_mem c)"
    using lower.read_contract [of "ca_mem c" n a] inv adm n False by (auto simp: cache_inv_def cache_admits_def)
  moreover have "cache_view lview cfg c' = lview (ca_mem c')" for c' :: "'m cache"
    using False by (simp add: cache_view_def Let_def fun_eq_iff)
  ultimately show ?thesis
    using False by (simp add: cache_read_def cache_inv_def ca_modify_def ca_lower_def act_bind_def)
qed

text \<open>The write to the memory catches up with the lines.\<close>

lemma write_below_rel:
  assumes rel: "rel c (store_bytes L a bs) (pending a (length bs))" and wt: "cc_write_policy cfg \<noteq> WP_BACK"
    and m: "linv m" "lview m = store_bytes (lview (ca_mem c)) a bs" and len: "length bs \<le> 2 ^ 64"
    and c': "ca_mem c' = m" "ca_dt c' = ca_dt c" "ca_policy c' = ca_policy c"
  shows "rel c' (store_bytes L a bs) {}"
proof -
  have "lview m x = store_bytes L a bs x" for x
  proof (cases "unat (x - a) < length bs")
    case False
    then have "lview (ca_mem c) x = store_bytes L a bs x" using rel wt by (simp add: cache_rel_def pending_def ahead_def)
    then show ?thesis using False len m(2) by (simp add: store_bytes_apply)
  qed (use len m(2) in \<open>simp add: store_bytes_apply\<close>)
  then show ?thesis
    using rel m(1) by (simp add: cache_rel_def cache_shape_def holds_def line_of_def ca_line_def c')
qed

lemma contract_write:
  assumes inv: "cache_inv linv lview lim cfg c" and ne: "bs \<noteq> []" and adm: "cache_admits ladmits lim (aw_addr a) (length bs)"
  shows "\<exists>c' r. cache_write cfg rnd lops a bs AE_REGULAR c = (c', Inr r) \<and> cache_inv linv lview lim cfg c' \<and>
    cache_view lview cfg c' = store_bytes (cache_view lview cfg c) (aw_addr a) bs"
proof (cases "cc_enabled cfg")
  case True
  let ?L = "cache_view lview cfg c" and ?a = "aw_addr a"
  have lt: "unat ?a + length bs < lim" and la: "ladmits ?a (length bs)" using adm by (simp_all add: cache_admits_def)
  have "rel c ?L {}" using inv True by (simp add: cache_inv_def)
  from access_write [OF this, of ?a bs] lt obtain c1 chg bs' where
    c1: "cache_access cfg rnd lops ACCESS_WRITE ?a bs c = (c1, Inr (chg, bs'))"
    "rel c1 (store_bytes ?L ?a bs) (pending ?a (length bs))" by auto
  show ?thesis
  proof (cases "cc_write_policy cfg = WP_BACK")
    case wb: True
    then have "rel c1 (store_bytes ?L ?a bs) {}" using c1(2) by (simp add: pending_def)
    then show ?thesis
      using True wb c1(1) cached_area [OF lt] rel_view rel_inv by (simp add: cache_write_def Let_def act_bind_def)
  next
    case wt: False
    have "linv (ca_mem c1)" using c1(2) by (simp add: cache_rel_def)
    from lower.write_contract [OF this ne la] obtain m r where
      m: "fm_write lops a bs AE_REGULAR (ca_mem c1) = (m, Inr r)" "linv m" "lview m = store_bytes (lview (ca_mem c1)) ?a bs" by blast
    define c' where "c' = c1\<lparr>mem_writes := mem_writes c1 + 1, ca_mem := m\<rparr>"
    have "rel c' (store_bytes ?L ?a bs) {}"
      by (rule write_below_rel [OF c1(2) wt m(2,3) lower.admits_bound [OF la]]) (simp_all add: c'_def)
    moreover have "cache_write cfg rnd lops a bs AE_REGULAR c = (c', Inr r)"
      using True wt c1(1) m(1) cached_area [OF lt]
      by (simp add: cache_write_def Let_def act_bind_def ca_modify_def ca_lower_def c'_def)
    ultimately show ?thesis using rel_view rel_inv True by auto
  qed
next
  case False
  have "linv (ca_mem c)" "ladmits (aw_addr a) (length bs)" using inv adm False by (simp_all add: cache_inv_def cache_admits_def)
  from lower.write_contract [OF this(1) ne this(2)] obtain m r where
    m: "fm_write lops a bs AE_REGULAR (ca_mem c) = (m, Inr r)" "linv m" "lview m = store_bytes (lview (ca_mem c)) (aw_addr a) bs" by blast
  moreover have "cache_view lview cfg c' = lview (ca_mem c')" for c' :: "'m cache"
    using False by (simp add: cache_view_def Let_def fun_eq_iff)
  ultimately show ?thesis
    using False by (simp add: cache_write_def Let_def cache_inv_def ca_modify_def ca_lower_def act_bind_def)
qed

text \<open>After a flush no line is valid and the memory holds the contents.\<close>

lemma flush_lines_rel:
  assumes "rel c L {}" "\<forall>(w, r) \<in> set ls. w < ways \<and> r < sets"
  shows "\<exists>c'. flush_lines cfg lops ls c = (c', Inr ()) \<and> rel c' L {} \<and>
    (\<forall>w < ways. \<forall>r. (w, r) \<in> set ls \<or> \<not> cl_valid (ca_line c w r) \<longrightarrow> \<not> cl_valid (ca_line c' w r))"
  using assms
proof (induction ls arbitrary: c)
  case (Cons p ls)
  obtain w r where p: "p = (w, r)" "w < ways" "r < sets" using Cons.prems(2) by (cases p) auto
  let ?step = "\<lambda>c. if cl_valid (ca_line c w r) then kick cfg lops w r c else (c, Inr ())"
  obtain c1 where c1: "?step c = (c1, Inr ())" "rel c1 L {}" "\<not> cl_valid (ca_line c1 w r)"
    "\<And>w' r'. w' < ways \<Longrightarrow> (w', r') \<noteq> (w, r) \<Longrightarrow> ca_line c1 w' r' = ca_line c w' r'"
    using kick_rel [OF Cons.prems(1) p(2,3)] Cons.prems(1) by (cases "cl_valid (ca_line c w r)") fastforce+
  from Cons.IH [OF c1(2)] Cons.prems(2) obtain c' where
    c': "flush_lines cfg lops ls c1 = (c', Inr ())" "rel c' L {}"
    "\<forall>w < ways. \<forall>r. (w, r) \<in> set ls \<or> \<not> cl_valid (ca_line c1 w r) \<longrightarrow> \<not> cl_valid (ca_line c' w r)" by auto
  have "\<not> cl_valid (ca_line c' w' r')" if "w' < ways" "(w', r') \<in> set (p # ls) \<or> \<not> cl_valid (ca_line c w' r')" for w' r'
    using that c'(3) c1(3,4) p(1) by (metis prod.inject set_ConsD)
  moreover have "flush_lines cfg lops (p # ls) c = (c', Inr ())" using c1(1) c'(1) by (simp add: p(1) act_bind_def)
  ultimately show ?case using c'(2) by blast
qed auto

lemma flush_contract:
  assumes "cache_inv linv lview lim cfg c"
  shows "\<exists>c'. flush cfg lops c = (c', Inr ()) \<and> cache_inv linv lview lim cfg c' \<and> cache_view lview cfg c' = cache_view lview cfg c \<and>
    lview (ca_mem c') = cache_view lview cfg c \<and> (cc_enabled cfg \<longrightarrow> (\<forall>w < ways. \<forall>r < sets. \<not> cl_valid (ca_line c' w r)))"
proof (cases "cc_enabled cfg")
  case True
  let ?L = "cache_view lview cfg c"
  let ?ls = "List.product [0..<ways] [0..<sets]"
  have rel: "rel c ?L {}" using assms True by (simp add: cache_inv_def)
  have "\<forall>(w, r) \<in> set ?ls. w < ways \<and> r < sets" by auto
  from flush_lines_rel [OF rel this] obtain c1 where c1: "flush_lines cfg lops ?ls c = (c1, Inr ())" "rel c1 ?L {}"
    "\<forall>w < ways. \<forall>r. (w, r) \<in> set ?ls \<or> \<not> cl_valid (ca_line c w r) \<longrightarrow> \<not> cl_valid (ca_line c1 w r)" by blast
  define c' where "c' = c1\<lparr>change_counter := change_counter c1 + 1\<rparr>"
  have "flush cfg lops c = (c', Inr ())" using True c1(1) by (simp add: flush_def act_bind_def ca_modify_def c'_def)
  moreover have r': "rel c' ?L {}" using c1(2) cache_rel_cong [of c' c1] by (simp add: c'_def)
  moreover have inv: "\<not> cl_valid (ca_line c' w r)" if "w < ways" "r < sets" for w r
    using c1(3) that by (simp add: c'_def ca_line_def)
  moreover have "lview (ca_mem c') = ?L"
    using r' inv row_bound unfolding cache_rel_def holds_def fun_eq_iff by blast
  ultimately show ?thesis using rel_view rel_inv True by blast
next
  case False
  then show ?thesis using assms by (simp add: flush_def cache_view_def Let_def fun_eq_iff)
qed

lemma new_inv: "linv m \<Longrightarrow> cache_inv linv lview lim cfg (cache_new cfg m)"
proof (cases "cc_enabled cfg")
  case True
  assume m: "linv m"
  let ?c = "cache_new cfg m"
  have line: "ca_line ?c w r = \<lparr>cl_valid = False, cl_dirty = False, cl_tag = 0, cl_data = replicate B 0\<rparr>"
    if "w < ways" "r < sets" for w r using that True by (simp add: ca_line_def cache_new_def block_bytes_def)
  have "\<not> holds cfg ?c w x" if "w < ways" for w x using line [OF that row_bound] by (simp add: holds_def)
  moreover have "cache_shape cfg ?c" using True policy_new_inv [OF sizes(2)] by (simp add: cache_shape_def cache_new_def)
  moreover have "ca_mem ?c = m" by (simp add: cache_new_def)
  ultimately have "rel ?c (lview m) {}" using m line by (simp add: cache_rel_def line_ok_def)
  then show ?thesis using rel_inv True by blast
qed (simp add: cache_inv_def cache_new_def)

end

sublocale cache_over \<subseteq> cached: frontend_contract "cache_ops cfg rnd lops" "cache_inv linv lview lim cfg"
    "cache_view lview cfg" "cache_admits ladmits lim"
proof
  fix c and n :: nat and a :: AddressWithMode
  assume "cache_inv linv lview lim cfg c" "0 < n" "cache_admits ladmits lim (aw_addr a) n"
  from contract_read [OF this] show "\<exists>c' k. fm_read (cache_ops cfg rnd lops) a n AE_REGULAR c =
      (c', Inr (load_bytes (cache_view lview cfg c) (aw_addr a) n, k)) \<and>
      cache_inv linv lview lim cfg c' \<and> cache_view lview cfg c' = cache_view lview cfg c"
    by (simp add: cache_ops_def)
next
  fix c and bs :: "byte list" and a :: AddressWithMode
  assume "cache_inv linv lview lim cfg c" "bs \<noteq> []" "cache_admits ladmits lim (aw_addr a) (length bs)"
  from contract_write [OF this] show "\<exists>c' r. fm_write (cache_ops cfg rnd lops) a bs AE_REGULAR c = (c', Inr r) \<and>
      cache_inv linv lview lim cfg c' \<and> cache_view lview cfg c' = store_bytes (cache_view lview cfg c) (aw_addr a) bs"
    by (simp add: cache_ops_def)
next
  fix x n assume "cache_admits ladmits lim x n"
  then show "n \<le> 2 ^ 64" using lower.admits_bound unfolding cache_admits_def by blast
qed

section \<open>Caches over the main memory\<close>

lemma ram_blocks_admitted:
  assumes "B dvd 256" "k * B < 0xf0000000"
  shows "ram.on_bus_admits (of_nat (k * B)) B" and "k * B + B \<le> 0xf0000000"
proof -
  obtain q where q: "256 = B * q" using assms(1) by (rule dvdE)
  then have qp: "0 < q" "0 < B" by (auto intro: gr0I)
  have small: "unat (of_nat (k * B) :: address) = k * B" using assms(2) by (intro unat_of_nat_small) simp
  have "(k * B) mod 256 = (k mod q) * B" by (metis q mult.commute mult_mod_right)
  moreover have "(k mod q) * B + B \<le> q * B" using qp by (metis Suc_leI add.commute mod_less_divisor mult_Suc mult_le_mono1)
  moreover have "q * B = 256" using q by (simp add: mult.commute)
  ultimately have "(k * B) mod 256 + B \<le> 256" by metis
  then have "memory_admits (of_nat (k * B)) B"
    using small by (simp add: memory_admits_def memory_constants del: of_nat_mult)
  moreover have "range_contains ram_range (of_nat (k * B))"
    using assms(2) small by (simp add: range_contains_def ram_range_def word_le_nat_alt del: of_nat_mult)
  moreover show up: "k * B + B \<le> 0xf0000000"
  proof -
    have top: "0xf0000000 = (0xf00000 * q) * B" using q by simp
    then have "k < 0xf00000 * q" using assms(2) by (metis mult_less_cancel2)
    then have "Suc k * B \<le> (0xf00000 * q) * B" by (intro mult_le_mono1) simp
    then have "Suc k * B \<le> 0xf0000000" unfolding top .
    then show ?thesis by simp
  qed
  ultimately show "ram.on_bus_admits (of_nat (k * B)) B"
    unfolding ram.on_bus_admits_def using small by (simp add: ram_range_def del: of_nat_mult)
qed

text \<open>A cache of any shape whose blocks fit into the memory's sections.\<close>

lemma ram_cache:
  assumes "cache_config_ok cfg" "block_bytes cfg dvd 256"
  shows "cache_over (bus_ops (device_ops other) endian) ram.on_bus_inv ram.on_bus_view ram.on_bus_admits cfg 0xf0000000"
proof unfold_locales
  show "cache_config_ok cfg" by fact
  show "0xf0000000 \<le> unat uncached_start" by (simp add: uncached_start_def)
  show "ram.on_bus_admits (of_nat (k * block_bytes cfg)) (block_bytes cfg)" if "k * block_bytes cfg < 0xf0000000" for k
    using ram_blocks_admitted(1) [OF assms(2) that] .
qed

text \<open>The cache of the presets, with any policies, is one of them.\<close>

definition preset_cache :: "ReplacementPolicy \<Rightarrow> WritePolicy \<Rightarrow> CacheConfig" where
  "preset_cache rp wp = set_write_policy wp (set_replacement_policy rp (cache_preset CP_PIPE default_cache_config))"

lemma preset_cache_ok: "cache_config_ok (preset_cache rp wp)" "block_bytes (preset_cache rp wp) dvd 256"
  by (simp_all add: preset_cache_def cache_setters default_cache_config_def cache_config_ok_def block_bytes_def BLOCK_ITEM_SIZE_def)

interpretation preset_l1: cache_over "bus_ops (device_ops other) endian" ram.on_bus_inv ram.on_bus_view ram.on_bus_admits
    "preset_cache rp wp" rnd "0xf0000000" for other :: "'x backend_ops" and endian rp wp rnd
  by (rule ram_cache [OF preset_cache_ok])

context cache_over
begin

lemma cached_contract: "frontend_contract (cache_ops cfg rnd lops) (cache_inv linv lview lim cfg) (cache_view lview cfg)
    (cache_admits ladmits lim)"
  by (rule cached.frontend_contract_axioms)

end

text \<open>
  Two levels: the blocks of the upper cache are served by the lower one, except that the
  access to the topmost block would end where the uncached area starts.
\<close>

lemma two_level_cache:
  assumes "cache_config_ok l1" "block_bytes l1 dvd 256" "cache_config_ok l2" "block_bytes l2 dvd 256"
  shows "cache_over (cache_ops l2 rnd (bus_ops (device_ops other) endian))
    (cache_inv ram.on_bus_inv ram.on_bus_view 0xf0000000 l2) (cache_view ram.on_bus_view l2)
    (cache_admits ram.on_bus_admits 0xf0000000) l1 0xefffff00"
proof (intro cache_over.intro cache_over_axioms.intro)
  show "frontend_contract (cache_ops l2 rnd (bus_ops (device_ops other) endian))
    (cache_inv ram.on_bus_inv ram.on_bus_view 0xf0000000 l2) (cache_view ram.on_bus_view l2)
    (cache_admits ram.on_bus_admits 0xf0000000)"
    by (rule cache_over.cached_contract [OF ram_cache [OF assms(3,4)]])
  show "cache_config_ok l1" by fact
  show "0xefffff00 \<le> unat uncached_start" by (simp add: uncached_start_def)
  fix k assume k: "k * block_bytes l1 < 0xefffff00"
  then have lt: "k * block_bytes l1 < 0xf0000000" by simp
  have "block_bytes l1 \<le> 256" using assms(2) by (auto dest: dvd_imp_le)
  then have "unat (of_nat (k * block_bytes l1) :: address) + block_bytes l1 < 0xf0000000"
    using k by (subst unat_of_nat_small) auto
  then show "cache_admits ram.on_bus_admits 0xf0000000 (of_nat (k * block_bytes l1)) (block_bytes l1)"
    using ram_blocks_admitted(1) [OF assms(2) lt] by (simp add: cache_admits_def)
qed

lemma cache_view_new: "cache_config_ok cfg \<Longrightarrow> cache_view lview cfg (cache_new cfg m) = lview m"
proof
  fix x assume ok: "cache_config_ok cfg"
  let ?c = "cache_new cfg m" and ?loc = "compute_location cfg x"
  let ?w = "find_block_index cfg ?c ?loc"
  have "\<not> (cc_enabled cfg \<and> ?w < cc_associativity cfg)"
  proof
    assume a: "cc_enabled cfg \<and> ?w < cc_associativity cfg"
    then have "holds cfg ?c ?w x" using find_block_index_cases(1) [OF ok] by blast
    moreover have "block_of cfg x mod cc_set_count cfg < cc_set_count cfg" using ok by (simp add: cache_config_ok_def)
    moreover have "\<not> cl_valid (ca_line ?c w r)" if "w < cc_associativity cfg" "r < cc_set_count cfg" for w r
      using that a by (simp add: ca_line_def cache_new_def)
    ultimately show False using a unfolding holds_def by blast
  qed
  moreover have "ca_mem ?c = m" by (simp add: cache_new_def)
  ultimately show "cache_view lview cfg ?c x = lview m x" unfolding cache_view_def Let_def by (metis (full_types))
qed

lemma ram_bus_view: "ram.on_bus_view ram_bus = (\<lambda>_. 0)"
  unfolding ram.on_bus_view_def
  by (simp add: fun_eq_iff ram_bus_def insert_device_to_range_def)

section \<open>Properties\<close>

text \<open>
  Claim C1: the memory hierarchy is transparent.  Whatever the number of sets, the associativity, the replacement policy, the write
  policy, the random numbers and whether each cache is enabled, with blocks whose size in bytes divides the 256 of
  a memory section: a sequence of reads and writes, each of which stays inside one such section and below 0xefffff00,
  through a first-level cache over a second-level cache over the memory bus never fails, and its
  reads return exactly what a plain array of bytes returns.  Outside of these limits it does not hold: a block that is larger than a
  section, or an access over the end of a section, may read zeros where the next section has data
  (\<^verbatim>\<open>memory_read_over_unallocated\<close>).
\<close>

theorem cache_hierarchy_transparent:
  assumes "cache_config_ok l1" "block_bytes l1 dvd 256" "cache_config_ok l2" "block_bytes l2 dvd 256"
    "list_all (access_admitted (cache_admits (cache_admits ram.on_bus_admits 0xf0000000) 0xefffff00)) xs"
  shows "\<exists>c. run_accesses (cache_ops l1 rnd1 (cache_ops l2 rnd2 (bus_ops (device_ops other) endian))) xs
      (cache_new l1 (cache_new l2 ram_bus)) = (c, Inr (snd (array_accesses xs (\<lambda>_. 0))))"
proof -
  note over = two_level_cache [OF assms(1-4)]
  have inv2: "cache_inv ram.on_bus_inv ram.on_bus_view 0xf0000000 l2 (cache_new l2 (ram_bus :: 'a device data_bus))"
    by (rule cache_over.new_inv [OF ram_cache [OF assms(3,4)] ram_bus_inv])
  have view: "cache_view (cache_view ram.on_bus_view l2) l1 (cache_new l1 (cache_new l2 (ram_bus :: 'a device data_bus))) = (\<lambda>_. 0)"
    by (simp add: cache_view_new [OF assms(1)] cache_view_new [OF assms(3)] ram_bus_view)
  show ?thesis
    using frontend_contract.run_accesses_refines [OF cache_over.cached_contract [OF over] cache_over.new_inv [OF over inv2] assms(5)]
    unfolding view by blast
qed

theorem cache_hierarchy_transparent_witness:
  "\<exists>c. run_accesses (cache_ops (preset_cache RP_LRU WP_BACK) (\<lambda>_. 0)
      (cache_ops (preset_cache RP_PLRU WP_THROUGH_ALLOC) (\<lambda>_. 0) (bus_ops (device_ops absent_device_ops) LITTLE)))
      [Access_Write (plain_address 0x106) [1, 2, 3, 4], Access_Read (plain_address 0x104) 6]
      (cache_new (preset_cache RP_LRU WP_BACK) (cache_new (preset_cache RP_PLRU WP_THROUGH_ALLOC) ram_bus)) =
    (c, Inr [[0, 0, 1, 2, 3, 4]])"
proof -
  let ?xs = "[Access_Write (plain_address 0x106) [1, 2, 3, 4], Access_Read (plain_address 0x104) 6]"
  have "list_all (access_admitted (cache_admits (cache_admits ram.on_bus_admits 0xf0000000) 0xefffff00)) ?xs"
    unfolding cache_admits_def ram.on_bus_admits_def
    by (simp add: plain_address_def range_contains_def ram_range_def memory_admits_def memory_constants)
  from cache_hierarchy_transparent [OF preset_cache_ok preset_cache_ok this,
      of RP_LRU WP_BACK "\<lambda>_. 0" RP_PLRU WP_THROUGH_ALLOC "\<lambda>_. 0" absent_device_ops LITTLE]
  moreover have "snd (array_accesses ?xs (\<lambda>_. 0)) = [[0, 0, 1, 2, 3, 4]]"
    by (simp add: plain_address_def load_bytes_def upt_rec)
  ultimately show ?thesis by simp
qed

text \<open>
  Claim C35: synchronising the hierarchy (with blocks whose size divides 256 bytes) loses nothing: the first-level cache is written back
  into the second, the second into the memory, no line of either stays valid, and the memory
  alone then holds what a client of the caches saw before.
\<close>

theorem cache_sync_writes_back:
  assumes "cache_config_ok l1" "block_bytes l1 dvd 256" "cache_config_ok l2" "block_bytes l2 dvd 256"
    "cache_inv (cache_inv ram.on_bus_inv ram.on_bus_view 0xf0000000 l2) (cache_view ram.on_bus_view l2) 0xefffff00 l1 c"
  shows "\<exists>c'. cache_sync l1 (cache_ops l2 rnd2 (bus_ops (device_ops other) endian)) c = (c', Inr ()) \<and>
    ram.on_bus_view (ca_mem (ca_mem c')) = cache_view (cache_view ram.on_bus_view l2) l1 c \<and>
    (cc_enabled l1 \<longrightarrow> (\<forall>w < cc_associativity l1. \<forall>r < cc_set_count l1. \<not> cl_valid (ca_line c' w r))) \<and>
    (cc_enabled l2 \<longrightarrow> (\<forall>w < cc_associativity l2. \<forall>r < cc_set_count l2. \<not> cl_valid (ca_line (ca_mem c') w r)))"
proof -
  let ?bus = "bus_ops (device_ops other) endian" and ?v2 = "cache_view ram.on_bus_view l2"
  let ?i2 = "cache_inv ram.on_bus_inv ram.on_bus_view 0xf0000000 l2"
  obtain c1 where c1: "flush l1 (cache_ops l2 rnd2 ?bus) c = (c1, Inr ())" "cache_inv ?i2 ?v2 0xefffff00 l1 c1"
    "?v2 (ca_mem c1) = cache_view ?v2 l1 c"
    "cc_enabled l1 \<longrightarrow> (\<forall>w < cc_associativity l1. \<forall>r < cc_set_count l1. \<not> cl_valid (ca_line c1 w r))"
    using cache_over.flush_contract [OF two_level_cache [OF assms(1-4)] assms(5), of rnd2 other endian] by blast
  have "?i2 (ca_mem c1)" using c1(2) by (simp add: cache_inv_def [of ?i2] cache_rel_def split: if_splits)
  from cache_over.flush_contract [OF ram_cache [OF assms(3,4)] this, of other endian] obtain m where
    m: "flush l2 ?bus (ca_mem c1) = (m, Inr ())" "ram.on_bus_view (ca_mem m) = ?v2 (ca_mem c1)"
    "cc_enabled l2 \<longrightarrow> (\<forall>w < cc_associativity l2. \<forall>r < cc_set_count l2. \<not> cl_valid (ca_line m w r))" by blast
  have "cache_sync l1 (cache_ops l2 rnd2 ?bus) c = (c1\<lparr>ca_mem := m\<rparr>, Inr ())"
    using c1(1) m(1) by (simp add: cache_sync_def cache_ops_def ca_lower_def act_bind_def bus_ops_def default_sync_def)
  then show ?thesis using c1(3,4) m(2,3) by simp
qed

text \<open>
  The location of an address in the cache determines it: the base of its block,
  computed back from tag and row, plus the column and the byte is the address, and different
  addresses have different locations.
\<close>

theorem cache_location_round_trip:
  assumes "cache_config_ok cfg"
  shows "calc_base_address cfg (loc_tag (compute_location cfg a)) (loc_row (compute_location cfg a)) +
      of_nat (loc_col (compute_location cfg a) * BLOCK_ITEM_SIZE + loc_byte (compute_location cfg a)) = a \<and>
    loc_row (compute_location cfg a) < cc_set_count cfg \<and> loc_col (compute_location cfg a) < cc_block_size cfg \<and>
    (compute_location cfg a = compute_location cfg b \<longrightarrow> a = b)"
proof -
  have inverse: "calc_base_address cfg (loc_tag (compute_location cfg x)) (loc_row (compute_location cfg x)) +
      of_nat (loc_col (compute_location cfg x) * BLOCK_ITEM_SIZE + loc_byte (compute_location cfg x)) = x" for x
  proof -
    have "(block_of cfg x div cc_set_count cfg * cc_set_count cfg + block_of cfg x mod cc_set_count cfg) * block_bytes cfg +
        unat x mod block_bytes cfg = unat x" by (simp add: block_of_def)
    then show ?thesis
      unfolding calc_base_address_eq compute_location_eq [OF assms] of_nat_add [symmetric] by (simp del: of_nat_add of_nat_mult)
  qed
  moreover have "loc_col (compute_location cfg a) < cc_block_size cfg" "loc_row (compute_location cfg a) < cc_set_count cfg"
    using assms compute_location_eq(1) [OF assms, of a] by (simp_all add: compute_location_def Let_def cache_config_ok_def)
  ultimately show ?thesis by metis
qed

theorem cache_location_round_trip_witness:
  "compute_location (preset_cache RP_RAND WP_BACK) 0x2e = \<lparr>loc_row = 1, loc_col = 1, loc_tag = 1, loc_byte = 2\<rparr> \<and>
   calc_base_address (preset_cache RP_RAND WP_BACK) 1 1 = 0x28"
proof -
  have l: "compute_location (preset_cache RP_RAND WP_BACK) 0x2e = \<lparr>loc_row = 1, loc_col = 1, loc_tag = 1, loc_byte = 2\<rparr>"
    by (simp add: compute_location_def preset_cache_def cache_setters default_cache_config_def BLOCK_ITEM_SIZE_def)
  from cache_location_round_trip [OF preset_cache_ok(1), of RP_RAND WP_BACK "0x2e", unfolded l]
  have "calc_base_address (preset_cache RP_RAND WP_BACK) 1 1 + 6 = 0x2e" by (simp add: BLOCK_ITEM_SIZE_def)
  then have "calc_base_address (preset_cache RP_RAND WP_BACK) 1 1 = 0x2e - 6" by (simp only: eq_diff_eq)
  then show ?thesis using l by simp
qed

text \<open>
  A reset of a write-back cache invalidates its lines but leaves them dirty, and the
  eviction tests only the dirty bit: the first eviction after the reset writes the block of
  before the reset over the memory.
\<close>

theorem cache_reset_writes_stale_block:
  assumes "cc_enabled cfg" "cc_write_policy cfg = WP_BACK" "cache_shape cfg c"
    "w < cc_associativity cfg" "r < cc_set_count cfg" "cl_dirty (ca_line c w r)"
  shows "\<not> cl_valid (ca_line (cache_reset cfg c) w r) \<and>
    ca_mem (fst (kick cfg ops w r (cache_reset cfg c))) =
      fst (fm_write ops (plain_address (calc_base_address cfg (cl_tag (ca_line c w r)) r)) (cl_data (ca_line c w r)) AE_REGULAR (ca_mem c))"
proof -
  have l: "ca_line (cache_reset cfg c) w r = (ca_line c w r)\<lparr>cl_valid := False\<rparr>"
    using assms by (simp add: ca_line_def cache_reset_def cache_shape_def)
  have p: "ca_mem (fst (ca_update_stats cfg w r False c')) = ca_mem c'" for c' :: "'a cache"
    by (simp add: ca_update_stats_def split: sum.split)
  have m: "ca_mem (cache_reset cfg c) = ca_mem c" by (simp add: cache_reset_def)
  obtain m' res where wr: "fm_write ops (plain_address (calc_base_address cfg (cl_tag (ca_line c w r)) r))
      (cl_data (ca_line c w r)) AE_REGULAR (ca_mem c) = (m', res)" by (cases "fm_write ops (plain_address
      (calc_base_address cfg (cl_tag (ca_line c w r)) r)) (cl_data (ca_line c w r)) AE_REGULAR (ca_mem c)")
  show ?thesis
    using assms(2,6) wr unfolding kick_def Let_def l
    by (cases res) (simp_all add: ca_lower_def act_bind_def ca_modify_def m p ca_set_line_def)
qed

theorem cache_sync_writes_back_witness:
  "\<exists>c'. cache_sync (preset_cache RP_LRU WP_BACK)
      (cache_ops (preset_cache RP_LRU WP_BACK) (\<lambda>_. 0) (bus_ops (device_ops absent_device_ops) LITTLE))
      (cache_new (preset_cache RP_LRU WP_BACK) (cache_new (preset_cache RP_LRU WP_BACK) ram_bus)) = (c', Inr ()) \<and>
    ram.on_bus_view (ca_mem (ca_mem c')) = (\<lambda>_. 0)"
proof -
  let ?l = "preset_cache RP_LRU WP_BACK"
  note over = two_level_cache [OF preset_cache_ok [of RP_LRU WP_BACK] preset_cache_ok [of RP_LRU WP_BACK]]
  have "cache_inv ram.on_bus_inv ram.on_bus_view 0xf0000000 ?l (cache_new ?l (ram_bus :: unit device data_bus))"
    by (rule cache_over.new_inv [OF ram_cache [OF preset_cache_ok] ram_bus_inv])
  from cache_sync_writes_back [OF preset_cache_ok preset_cache_ok cache_over.new_inv [OF over this],
      of "\<lambda>_. 0" absent_device_ops LITTLE]
  show ?thesis by (auto simp: cache_view_new [OF preset_cache_ok(1)] ram_bus_view)
qed

theorem cache_reset_writes_stale_block_witness:
  "let cfg = \<lparr>cc_enabled = True, cc_set_count = 1, cc_block_size = 1, cc_associativity = 1,
       cc_replacement_policy = RP_LRU, cc_write_policy = WP_BACK\<rparr>;
     c = ca_set_line 0 0 \<lparr>cl_valid = True, cl_dirty = True, cl_tag = 64, cl_data = [1, 2, 3, 4]\<rparr>
       (cache_new cfg (ram_bus :: unit device data_bus));
     ops = bus_ops (device_ops absent_device_ops) LITTLE in
   ca_mem (fst (kick cfg ops 0 0 (cache_reset cfg c))) =
     fst (fm_write ops (plain_address 0x100) [1, 2, 3, 4] AE_REGULAR ram_bus)"
proof -
  let ?cfg = "\<lparr>cc_enabled = True, cc_set_count = 1, cc_block_size = 1, cc_associativity = 1,
       cc_replacement_policy = RP_LRU, cc_write_policy = WP_BACK\<rparr>"
  let ?c = "ca_set_line 0 0 \<lparr>cl_valid = True, cl_dirty = True, cl_tag = 64, cl_data = [1, 2, 3, 4]\<rparr>
       (cache_new ?cfg (ram_bus :: unit device data_bus))"
  have shape: "cache_shape ?cfg ?c" using policy_new_inv [of 1 1 RP_LRU] by (simp add: cache_shape_def ca_set_line_def cache_new_def)
  have line: "ca_line ?c 0 0 = \<lparr>cl_valid = True, cl_dirty = True, cl_tag = 64, cl_data = [1, 2, 3, 4]\<rparr>" and mem: "ca_mem ?c = ram_bus"
    by (simp_all add: ca_line_def ca_set_line_def cache_new_def)
  have base: "calc_base_address ?cfg 64 0 = 0x100" by (simp add: calc_base_address_def BLOCK_ITEM_SIZE_def)
  have "cc_enabled ?cfg" "cc_write_policy ?cfg = WP_BACK" "0 < cc_associativity ?cfg" "0 < cc_set_count ?cfg" by simp_all
  note cfg = this
  have "cl_dirty (ca_line ?c 0 0)" unfolding line by simp
  from cache_reset_writes_stale_block [OF cfg(1,2) shape cfg(3,4) this, of "bus_ops (device_ops absent_device_ops) LITTLE"]
  show ?thesis unfolding Let_def line mem CacheLine.select_convs base by (rule conjunct2)
qed

end
