(* ===== verification/Core_Exec.thy ===== *)
theory Core_Exec
  imports Isa_Tables Core_Invariant Cache
begin

text \<open>
  The single-cycle core executes the instruction set: one step of it does what the specification
  of the instruction at the program counter says, for every memory that satisfies the memory
  contract, caches included.
\<close>

section \<open>The stages on plain instructions\<close>

text \<open>No interrupt is accepted in the next fetch.\<close>

definition no_interrupt :: "'m Core \<Rightarrow> bool" where
  "no_interrupt c \<longleftrightarrow> (\<forall>cs. control_state c = Some cs \<longrightarrow>
     core_interrupt_request (increment_internal CSR_MCYCLE 1 cs) (current_privilege_u c) = EXCAUSE_NONE)"

definition fetched :: "'m Core \<Rightarrow> u32 \<Rightarrow> FetchInterstage" where
  "fetched c w = \<lparr>fi_inst = w, fi_inst_addr = read_pc (regs c), fi_next_inst_addr = read_pc (regs c) + 4,
     fi_predicted_next_inst_addr = predict_next_pc_address (core_predictor c) (read_pc (regs c)),
     fi_excause = EXCAUSE_NONE, fi_is_valid = True\<rparr>"

text \<open>An instruction that the stages do not treat specially: no control register, trap or atomic instruction.\<close>

definition plain_flags :: "u32 \<Rightarrow> bool" where
  "plain_flags fl \<longleftrightarrow> \<not> has_flag fl IMF_CSR \<and> \<not> has_flag fl IMF_CSR_TO_ALU \<and> \<not> has_flag fl IMF_ALU_RS_ID \<and>
     \<not> has_flag fl IMF_XRET \<and> \<not> has_flag fl IMF_EXCEPTION \<and> \<not> has_flag fl IMF_AMO"

lemma has_flag_OR: "has_flag w (a OR b) \<longleftrightarrow> has_flag w a \<or> has_flag w b"
  unfolding has_flag_def bit.conj_disj_distrib by (metis or_eq_0_iff)

definition operand_a :: "'m Core \<Rightarrow> u32 \<Rightarrow> u32 \<Rightarrow> u64" where
  "operand_a c fl w = (if has_flag fl IMF_PC_TO_ALU then read_pc (regs c)
     else read_gp (regs c) (if has_flag fl IMF_ALU_REQ_RS then unat (inst_rs w) else 0))"

definition operand_rt :: "'m Core \<Rightarrow> u32 \<Rightarrow> u32 \<Rightarrow> u64" where
  "operand_rt c fl w = read_gp (regs c) (if has_flag fl IMF_ALU_REQ_RT then unat (inst_rt w) else 0)"

definition plain_alu :: "Xlen \<Rightarrow> 'm Core \<Rightarrow> InstructionMap \<Rightarrow> u32 \<Rightarrow> u64" where
  "plain_alu xlen c im w =
     (let fl = im_flags im in
      alu_combined_operate (im_alu im) (if has_flag fl IMF_MUL then COMP_MUL else COMP_ALU)
        (xlen \<noteq> XLEN_64 \<or> has_flag fl IMF_FORCE_W_OP) (has_flag fl IMF_ALU_MOD) (operand_a c fl w)
        (if has_flag fl IMF_ALUSRC then of_i32 (inst_immediate w) else operand_rt c fl w))"

definition executed :: "Xlen \<Rightarrow> 'm Core \<Rightarrow> u32 \<Rightarrow> ExecuteInterstage" where
  "executed xlen c w =
     (let im = inst_map w; fl = im_flags im; pc = read_pc (regs c); v = plain_alu xlen c im w in
      \<lparr>xi_inst = w, xi_inst_addr = pc, xi_next_inst_addr = pc + 4,
       xi_predicted_next_inst_addr = predict_next_pc_address (core_predictor c) pc,
       xi_branch_jal_target = pc + of_i32 (inst_immediate w), xi_val_rt = operand_rt c fl w, xi_alu_val = v,
       xi_immediate_val = of_i32 (inst_immediate w), xi_csr_read_val = 0, xi_csr_address = 0,
       xi_excause = EXCAUSE_NONE, xi_memctl = im_mem_ctl im,
       xi_num_rd = (if has_flag fl IMF_REGWRITE then unat (inst_rd w) else 0),
       xi_memread = has_flag fl IMF_MEMREAD, xi_memwrite = has_flag fl IMF_MEMWRITE,
       xi_regwrite = has_flag fl IMF_REGWRITE, xi_is_valid = True, xi_branch_bxx = has_flag fl IMF_BRANCH,
       xi_branch_jal = has_flag fl IMF_JUMP, xi_branch_val = has_flag fl IMF_BJ_NOT,
       xi_branch_jalr = has_flag fl IMF_BRANCH_JALR, xi_alu_zero = (v = 0), xi_csr = False, xi_csr_write = False,
       xi_xret = False, xi_xret_privlev = UNPRIVILEGED, xi_amo = False\<rparr>)"

lemma decode_execute_plain:
  assumes "plain_flags (im_flags (inst_map w))" "decode_excause c (im_flags (inst_map w)) EXCAUSE_NONE = EXCAUSE_NONE"
  shows "\<exists>d. decode env (fetched c w) c = (c, Inr d) \<and> execute d = executed (core_xlen env) c w"
  using assms
  by (cases "control_state c")
    (simp_all add: decode_def fetched_def flags_alu_op_mem_ctl_def Let_def plain_flags_def execute_def executed_def
      plain_alu_def operand_a_def operand_rt_def has_flag_OR xret_priv_of_flags_def
      split del: if_split cong: if_cong)

lemma memory_finish_plain:
  assumes "\<not> xi_csr_write dt" "\<not> xi_xret dt"
  shows "\<exists>c'. memory_finish xl dt a (e, mr, rw, v) c = (c', Inr
      \<lparr>mi_inst = xi_inst dt, mi_inst_addr = xi_inst_addr dt, mi_next_inst_addr = xi_next_inst_addr dt,
       mi_predicted_next_inst_addr = xi_predicted_next_inst_addr dt,
       mi_computed_next_inst_addr = compute_next_inst_addr xl dt (branch_bxx_taken dt), mi_mem_addr = a,
       mi_towrite_val = (if xi_csr dt then xi_csr_read_val dt
         else if xi_branch_jalr dt \<or> xi_branch_jal dt then xi_next_inst_addr dt else v),
       mi_excause = e, mi_num_rd = xi_num_rd dt, mi_memtoreg = mr, mi_regwrite = rw, mi_is_valid = xi_is_valid dt,
       mi_csr_written = False, mi_xret_privlev = xi_xret_privlev dt\<rparr>) \<and>
    regs c' = regs c \<and> mem c' = mem c"
proof -
  define c1 where "c1 = memory_update_predictor xl dt c"
  have c1: "regs c1 = regs c" "mem c1 = mem c" "control_state c1 = control_state c"
    by (simp_all add: c1_def memory_update_predictor_def Let_def)
  have ctl: "\<exists>c2. memory_control xl dt n c1 = (c2, Inr (n, False)) \<and> regs c2 = regs c \<and> mem c2 = mem c" for n
  proof (cases "control_state c")
    case None
    then show ?thesis using c1 by (simp add: memory_control_def)
  next
    case (Some cs)
    then have "memory_control xl dt n c1 = (if xi_is_valid dt \<and> xi_excause dt = EXCAUSE_NONE
        then c1\<lparr>control_state := Some (increment_internal CSR_MINSTRET 1 cs)\<rparr> else c1, Inr (n, False))"
      using assms c1(3) by (cases "xi_is_valid dt \<and> xi_excause dt = EXCAUSE_NONE") (auto simp: memory_control_def Let_def)
    then show ?thesis using c1 by simp
  qed
  then obtain c2 where c2: "memory_control xl dt (compute_next_inst_addr xl dt (branch_bxx_taken dt)) c1 =
      (c2, Inr (compute_next_inst_addr xl dt (branch_bxx_taken dt), False))" "regs c2 = regs c" "mem c2 = mem c" by blast
  have "regs (count_misprediction dt n c2) = regs c" "mem (count_misprediction dt n c2) = mem c" for n
    using c2 by (simp_all add: count_misprediction_def)
  with c2(1) show ?thesis
    by (simp add: memory_finish_def act_bind_def core_modify_def c1_def [symmetric])
qed

section \<open>A core on a memory\<close>

text \<open>
  The interface between a core and its memories: both satisfy the memory contract on one state
  and have one byte order.
\<close>

locale core_memory =
  data: frontend_contract "mem_data env" inv view admits +
  program: frontend_contract "mem_program env" inv view admits
  for env :: "'m core_env" and inv :: "'m \<Rightarrow> bool" and view :: "'m \<Rightarrow> address \<Rightarrow> byte" and admits +
  assumes one_endian: "fm_endian (mem_program env) = fm_endian (mem_data env)"
begin

lemma fetch_plain:
  assumes "inv (mem c)" "admits (read_pc (regs c)) 4" "\<not> stop_if pc"
    "skip \<or> read_pc (regs c) \<notin> set (hw_breaks c)" "no_interrupt c"
  shows "\<exists>c1. fetch env pc skip c = (c1, Inr (fetched c (bytes_value (fm_endian (mem_data env)) (load_bytes (view (mem c)) (read_pc (regs c)) 4)))) \<and>
    inv (mem c1) \<and> view (mem c1) = view (mem c) \<and> regs c1 = regs c \<and> core_predictor c1 = core_predictor c \<and>
    current_privilege_u c1 = current_privilege_u c \<and> check_inst_flags_val c1 = check_inst_flags_val c \<and>
    check_inst_flags_mask c1 = check_inst_flags_mask c"
proof -
  let ?t = "\<lparr>aw_addr = read_pc (regs c), aw_mode = make_access_mode c OP_FETCH\<rparr>"
  obtain m where m: "read_u32 (host_endian env) (mem_program env) ?t AE_REGULAR (mem c) =
      (m, Inr (bytes_value (fm_endian (mem_data env)) (load_bytes (view (mem c)) (read_pc (regs c)) 4)))"
    "inv m" "view m = view (mem c)"
    using program.read_generic_contract [OF assms(1), where a = ?t and host = "host_endian env" and 'a = 32] assms(2) one_endian
    by (auto simp: read_u32_def)
  have "on_mem (read_u32 (host_endian env) (mem_program env) ?t AE_REGULAR) c =
      (c\<lparr>mem := m\<rparr>, Inr (bytes_value (fm_endian (mem_data env)) (load_bytes (view (mem c)) (read_pc (regs c)) 4)))"
    by (simp add: on_mem_def m(1))
  then show ?thesis
    using assms(3-5) m(2,3)
    by (auto simp: fetch_def fetch_finish_def act_bind_def catch_page_fault_def Let_def increment_counter_def no_interrupt_def
        fetched_def inst_size_def split: option.splits)
qed

end

section \<open>Loads and stores\<close>

lemma bit_bytes_value:
  "bit (bytes_value e bs :: 'a::len word) k \<longleftrightarrow> k < LENGTH('a) \<and> k div 8 < length bs \<and>
     bit ((case e of LITTLE \<Rightarrow> bs | BIG \<Rightarrow> rev bs) ! (k div 8)) (k mod 8)"
  by (simp add: bytes_value_def bit_of_le_bytes split: Endian.splits)

lemma ucast_bytes_value:
  assumes "8 * length bs \<le> LENGTH('a::len)" "8 * length bs \<le> LENGTH('b::len)"
  shows "ucast (bytes_value e bs :: 'a word) = (bytes_value e bs :: 'b word)"
  using assms by (intro bit_word_eqI) (auto simp: bit_simps bit_bytes_value)

lemma scast_eq_signed_take_bit:
  assumes "LENGTH('a::len) \<le> LENGTH('b::len)"
  shows "scast (w :: 'a word) = (signed_take_bit (LENGTH('a) - 1) (ucast w) :: 'b word)"
  using assms by (intro bit_word_eqI) (auto simp: bit_simps min_def)

lemma load_signed:
  assumes "LENGTH('a::len) = 8 * length bs" "LENGTH('a) \<le> 64"
  shows "scast (bytes_value e bs :: 'a word) = load_value e (length bs) True bs"
  using assms ucast_bytes_value [where 'a = 'a and 'b = 64 and bs = bs and e = e]
  by (simp add: load_value_def scast_eq_signed_take_bit)

lemma load_unsigned:
  assumes "LENGTH('a::len) = 8 * length bs" "LENGTH('a) \<le> 64"
  shows "ucast (bytes_value e bs :: 'a word) = load_value e (length bs) False bs"
  using assms ucast_bytes_value [where 'a = 'a and 'b = 64 and bs = bs and e = e]
  by (simp add: load_value_def)

lemma store_value_bytes:
  assumes "LENGTH('a::len) = 8 * n"
  shows "value_bytes e (ucast v :: 'a word) = store_value e n v"
proof -
  have "le_bytes n (ucast v :: 'a word) = le_bytes n v"
    using assms by (auto simp: le_bytes_def intro!: bit_word_eqI simp: bit_simps)
  then show ?thesis using assms by (simp add: value_bytes_def store_value_def size_of_def split: Endian.splits)
qed

lemma sem_sizes:
  "isa_sem w = Some (RV_Load n sg) \<Longrightarrow> n \<in> {1, 2, 4} \<or> n = 8 \<and> sg"
  "isa_sem w = Some (RV_Store n) \<Longrightarrow> n \<in> {1, 2, 4, 8}"
  unfolding isa_sem_def rv_semantics_def
  by (drule map_of_SomeD, simp add: rv_table_def, elim disjE; simp)+

context core_memory
begin

lemma read_ctl_load:
  assumes "inv m" "n \<in> {1, 2, 4} \<or> n = 8 \<and> sg" "admits (aw_addr a) n"
  shows "\<exists>m'. read_ctl (host_endian env) (mem_data env) (sem_memctl (RV_Load n sg)) a m =
      (m', Inr (load_value (fm_endian (mem_data env)) n sg (load_bytes (view m) (aw_addr a) n))) \<and> inv m' \<and> view m' = view m"
proof -
  note read = data.read_generic_contract [OF assms(1), where a = a and host = "host_endian env"]
  note r8 = read [where 'a = 8] and r16 = read [where 'a = 16] and r32 = read [where 'a = 32] and r64 = read [where 'a = 64]
  consider "n = 1" | "n = 2" | "n = 4" | "n = 8" "sg" using assms(2) by auto
  then show ?thesis
  proof cases
    case 1
    then show ?thesis using r8 assms(3)
      load_signed [where 'a = 8 and bs = "load_bytes (view m) (aw_addr a) 1"] load_unsigned [where 'a = 8 and bs = "load_bytes (view m) (aw_addr a) 1"]
      by (cases sg) (auto simp: read_ctl_def read_u8_def of_i8_def act_bind_def)
  next
    case 2
    then show ?thesis using r16 assms(3)
      load_signed [where 'a = 16 and bs = "load_bytes (view m) (aw_addr a) 2"] load_unsigned [where 'a = 16 and bs = "load_bytes (view m) (aw_addr a) 2"]
      by (cases sg) (auto simp: read_ctl_def read_u16_def of_i16_def act_bind_def)
  next
    case 3
    then show ?thesis using r32 assms(3)
      load_signed [where 'a = 32 and bs = "load_bytes (view m) (aw_addr a) 4"] load_unsigned [where 'a = 32 and bs = "load_bytes (view m) (aw_addr a) 4"]
      by (cases sg) (auto simp: read_ctl_def read_u32_def of_i32_def act_bind_def)
  next
    case 4
    then show ?thesis using r64 assms(3)
      load_signed [where 'a = 64 and bs = "load_bytes (view m) (aw_addr a) 8"]
      by (auto simp: read_ctl_def read_u64_def)
  qed
qed

lemma write_ctl_store:
  assumes "inv m" "n \<in> {1, 2, 4, 8}" "admits (aw_addr a) n"
  shows "\<exists>m'. write_ctl (host_endian env) (mem_data env) (sem_memctl (RV_Store n)) a v m = (m', Inr ()) \<and> inv m' \<and>
    view m' = store_bytes (view m) (aw_addr a) (store_value (fm_endian (mem_data env)) n v)"
proof -
  note wr = data.write_generic_contract [OF assms(1), where a = a and host = "host_endian env"]
  note w8 = wr [where 'a = 8 and v = "as_u8 v"] and w16 = wr [where 'a = 16 and v = "as_u16 v"] and w32 = wr [where 'a = 32 and v = "as_u32 v"] and w64 = wr [where 'a = 64 and v = "as_u64 v"]
  note st = store_value_bytes [where 'a = 8 and n = 1 and v = v] store_value_bytes [where 'a = 16 and n = 2 and v = v]
    store_value_bytes [where 'a = 32 and n = 4 and v = v] store_value_bytes [where 'a = 64 and n = 8 and v = v]
  consider "n = 1" | "n = 2" | "n = 4" | "n = 8" using assms(2) by auto
  then show ?thesis
    using w8 w16 w32 w64 st assms(3)
    by cases (auto simp: write_ctl_def accessor_defs ignore_result_def act_bind_def as_u8_def as_u16_def as_u32_def as_u64_def)
qed

end

end
