(* ===== verification/Core_Refines.thy ===== *)
theory Core_Refines
  imports Core_Exec
begin

section \<open>The step\<close>

definition isa_of :: "('m \<Rightarrow> address \<Rightarrow> byte) \<Rightarrow> 'm Core \<Rightarrow> isa_state" where
  "isa_of view c = \<lparr>isa_pc = read_pc (regs c), isa_x = read_gp (regs c), isa_mem = view (mem c)\<rparr>"

lemma isa_of_simps [simp]:
  "isa_pc (isa_of view c) = read_pc (regs c)" "isa_x (isa_of view c) = read_gp (regs c)" "isa_mem (isa_of view c) = view (mem c)"
  by (simp_all add: isa_of_def)

lemma take_bit_32: "take_bit 32 v = (ucast (ucast v :: u32) :: u64)"
  by (rule bit_word_eqI) (auto simp: bit_simps)

lemma get_xlen_address: "get_xlen_from_reg xlen v = address_of xlen v"
  by (cases xlen) (simp_all add: get_xlen_from_reg_def address_of_def as_u32_def as_u64_def take_bit_32)

lemma address_of_at_width: "address_of xlen (at_width xlen (+) (+) a b) = address_of xlen (a + b)"
proof (cases xlen)
  case XLEN_32
  have "(ucast (a + b) :: u32) = ucast a + ucast b"
    using alu64_low32(1) [of False a b] by (simp add: as_u32_def)
  then have "(ucast (scast (ucast a + ucast b :: u32) :: u64) :: u32) = ucast (a + b)"
    using as_u32_of_i32 [of "ucast a + ucast b"] by (simp add: as_u32_def of_i32_def)
  then show ?thesis using XLEN_32 by (simp add: address_of_def at_width_def take_bit_32)
qed (simp add: address_of_def at_width_def)

lemma write_gp_fun: "registers_inv r \<Longrightarrow> i < 32 \<Longrightarrow> read_gp (write_gp r i v) = (if i = 0 then read_gp r else (read_gp r)(i := v))"
  by (rule ext) (auto simp: read_gp_def read_gp_internal_def write_gp_def registers_inv_def REGISTER_COUNT_def)


lemma operands_sem:
  assumes "isa_sem w = Some sem"
  shows "operand_a c (im_flags (inst_map w)) w = (case sem of RV_Jal \<Rightarrow> read_pc (regs c)
      | RV_Upper add_pc \<Rightarrow> (if add_pc then read_pc (regs c) else 0) | _ \<Rightarrow> read_gp (regs c) (unat (inst_rs w)))"
    "operand_rt c (im_flags (inst_map w)) w =
      (case sem of RV_Reg _ \<Rightarrow> read_gp (regs c) (unat (inst_rt w)) | RV_Branch _ \<Rightarrow> read_gp (regs c) (unat (inst_rt w))
       | RV_Store _ \<Rightarrow> read_gp (regs c) (unat (inst_rt w)) | _ \<Rightarrow> 0)"
  using assms by (cases sem; auto simp: operand_a_def operand_rt_def sem_flags [OF assms])+

lemma plain_alu_sem:
  fixes c :: "'m Core" and xlen :: Xlen
  assumes "isa_sem w = Some sem"
  defines "a \<equiv> read_gp (regs c) (unat (inst_rs w))" and "b \<equiv> read_gp (regs c) (unat (inst_rt w))"
    and "imm \<equiv> of_i32 (inst_immediate w)" and "v \<equiv> plain_alu xlen c (inst_map w) w"
  shows "sem = RV_Reg f \<Longrightarrow> v = f xlen a b" "sem = RV_Imm f \<Longrightarrow> v = f xlen a imm"
    "sem = RV_Upper p \<Longrightarrow> v = at_width xlen (+) (+) (if p then read_pc (regs c) else 0) imm"
    "sem = RV_Branch g \<Longrightarrow> (has_flag (im_flags (inst_map w)) IMF_BJ_NOT \<noteq> (v = 0)) = g xlen a b"
    "sem = RV_Jalr \<or> sem = RV_Load n sg \<or> sem = RV_Store n \<Longrightarrow> v = at_width xlen (+) (+) a imm"
  using sem_alu(3) [OF assms(1)] unfolding alu_gives_def v_def plain_alu_def Let_def split_conv a_def b_def imm_def
  by (auto simp: sem_flags [OF assms(1)] operands_sem [OF assms(1)])

lemma executed_simps [simp]:
  "xi_excause (executed xlen c w) = EXCAUSE_NONE" "xi_memctl (executed xlen c w) = im_mem_ctl (inst_map w)"
  "xi_alu_val (executed xlen c w) = plain_alu xlen c (inst_map w) w" "\<not> xi_csr (executed xlen c w)"
  "\<not> xi_csr_write (executed xlen c w)" "\<not> xi_xret (executed xlen c w)" "\<not> xi_amo (executed xlen c w)"
  "xi_val_rt (executed xlen c w) = operand_rt c (im_flags (inst_map w)) w"
  "xi_branch_jal_target (executed xlen c w) = read_pc (regs c) + of_i32 (inst_immediate w)"
  "xi_inst_addr (executed xlen c w) = read_pc (regs c)"
  "xi_next_inst_addr (executed xlen c w) = read_pc (regs c) + 4"
  "xi_alu_zero (executed xlen c w) = (plain_alu xlen c (inst_map w) w = 0)"
  "xi_branch_val (executed xlen c w) = has_flag (im_flags (inst_map w)) IMF_BJ_NOT"
  by (simp_all add: executed_def Let_def)

lemma executed_flags:
  assumes "isa_sem w = Some sem"
  shows "xi_memread (executed xlen c w) \<longleftrightarrow> (\<exists>n sg. sem = RV_Load n sg)" "xi_memwrite (executed xlen c w) \<longleftrightarrow> (\<exists>n. sem = RV_Store n)"
    "xi_regwrite (executed xlen c w) \<longleftrightarrow> (\<forall>n g. sem \<noteq> RV_Store n \<and> sem \<noteq> RV_Branch g)"
    "xi_branch_bxx (executed xlen c w) \<longleftrightarrow> (\<exists>g. sem = RV_Branch g)" "xi_branch_jal (executed xlen c w) \<longleftrightarrow> sem = RV_Jal"
    "xi_branch_jalr (executed xlen c w) \<longleftrightarrow> sem = RV_Jalr"
    "xi_num_rd (executed xlen c w) = (if \<forall>n g. sem \<noteq> RV_Store n \<and> sem \<noteq> RV_Branch g then unat (inst_rd w) else 0)"
  by (simp_all add: executed_def Let_def sem_flags [OF assms])

text \<open>What the memory stage does to the memory and the value it passes on.\<close>

definition stage_effect :: "Endian \<Rightarrow> rv_sem \<Rightarrow> address \<Rightarrow> u64 \<Rightarrow> u64 \<Rightarrow> (address \<Rightarrow> byte) \<Rightarrow> (address \<Rightarrow> byte) \<times> u64" where
  "stage_effect e sem a b v mm = (case sem of
     RV_Load n sg \<Rightarrow> (mm, load_value e n sg (load_bytes mm a n))
   | RV_Store n \<Rightarrow> (store_bytes mm a (store_value e n b), v)
   | _ \<Rightarrow> (mm, v))"

context core_memory
begin

lemma memory_access_sem:
  fixes xlen :: Xlen
  assumes "inv (mem c)" "isa_sem w = Some sem"
    "\<And>n sg. sem = RV_Load n sg \<or> sem = RV_Store n \<Longrightarrow> admits (aw_addr t) n"
  defines "dt \<equiv> executed xlen c w"
  shows "\<exists>m v. memory_access env dt t c = (c\<lparr>mem := m\<rparr>, Inr (EXCAUSE_NONE, xi_memread dt, xi_regwrite dt, v)) \<and> inv m \<and>
    (view m, v) = stage_effect (fm_endian (mem_data env)) sem (aw_addr t) (read_gp (regs c) (unat (inst_rt w))) (xi_alu_val dt) (view (mem c))"
proof (cases "(\<exists>n sg. sem = RV_Load n sg) \<or> (\<exists>n. sem = RV_Store n)")
  case False
  then have "im_mem_ctl (inst_map w) = AC_NONE" "stage_effect e sem a b v mm = (mm, v)" for e a b v mm
    using sem_alu(2) [OF assms(2)] by (cases sem; simp add: stage_effect_def)+
  then show ?thesis
    using assms(1) unfolding dt_def
    by (intro exI [of _ "mem c"] exI [of _ "plain_alu xlen c (inst_map w) w"])
      (simp add: memory_access_def catch_page_fault_def act_bind_def is_special_access_def is_regular_access_def ac_between_def)
next
  case True
  then consider (load) n sg where "sem = RV_Load n sg" | (store) n where "sem = RV_Store n" by blast
  then show ?thesis
  proof cases
    case load
    then have n: "n \<in> {1, 2, 4} \<or> n = 8 \<and> sg" using sem_sizes(1) assms(2) by blast
    from read_ctl_load [OF assms(1) this, of t] assms(3) load obtain m where
      "read_ctl (host_endian env) (mem_data env) (sem_memctl sem) t (mem c) =
        (m, Inr (load_value (fm_endian (mem_data env)) n sg (load_bytes (view (mem c)) (aw_addr t) n)))"
      "inv m" "view m = view (mem c)" by auto
    moreover have "\<not> is_special_access (sem_memctl sem)" "is_regular_access (sem_memctl sem)"
      using n load by (auto simp: is_special_access_def is_regular_access_def ac_between_def)
    ultimately show ?thesis
      using load sem_alu(2) [OF assms(2)] unfolding dt_def
      by (intro exI [of _ m]) (simp add: memory_access_def catch_page_fault_def act_bind_def on_mem_def executed_flags [OF assms(2)] stage_effect_def del: sem_memctl.simps)
  next
    case store
    then have n: "n \<in> {1, 2, 4, 8}" using sem_sizes(2) assms(2) by blast
    from write_ctl_store [OF assms(1) this, of t] assms(3) store obtain m where
      "write_ctl (host_endian env) (mem_data env) (sem_memctl sem) t (read_gp (regs c) (unat (inst_rt w))) (mem c) = (m, Inr ())"
      "inv m" "view m = store_bytes (view (mem c)) (aw_addr t) (store_value (fm_endian (mem_data env)) n (read_gp (regs c) (unat (inst_rt w))))" by blast
    moreover have "\<not> is_special_access (sem_memctl sem)" "is_regular_access (sem_memctl sem)"
      using n store by (auto simp: is_special_access_def is_regular_access_def ac_between_def)
    ultimately show ?thesis
      using store sem_alu(2) [OF assms(2)] operands_sem(2) [OF assms(2), of c] unfolding dt_def
      by (intro exI [of _ m]) (simp add: memory_access_def catch_page_fault_def act_bind_def on_mem_def executed_flags [OF assms(2)] stage_effect_def del: sem_memctl.simps)
  qed
qed


lemma memory_stage_sem:
  assumes "inv (mem c)" "isa_sem w = Some sem"
    "\<And>n sg. sem = RV_Load n sg \<or> sem = RV_Store n \<Longrightarrow> admits (address_of (core_xlen env) (read_gp (regs c) (unat (inst_rs w)) + of_i32 (inst_immediate w))) n"
  defines "dt \<equiv> executed (core_xlen env) c w"
  shows "\<exists>c' mi v. memory_stage env dt c = (c', Inr mi) \<and> inv (mem c') \<and> regs c' = regs c \<and>
    (view (mem c'), v) = stage_effect (fm_endian (mem_data env)) sem
      (address_of (core_xlen env) (xi_alu_val dt)) (read_gp (regs c) (unat (inst_rt w))) (xi_alu_val dt) (view (mem c)) \<and>
    mi_computed_next_inst_addr mi = compute_next_inst_addr (core_xlen env) dt (branch_bxx_taken dt) \<and>
    mi_towrite_val mi = (if xi_branch_jalr dt \<or> xi_branch_jal dt then xi_next_inst_addr dt else v) \<and>
    mi_excause mi = EXCAUSE_NONE \<and> mi_num_rd mi = xi_num_rd dt \<and> mi_regwrite mi = xi_regwrite dt"
proof -
  define t where "t = \<lparr>aw_addr = get_xlen_from_reg (core_xlen env) (xi_alu_val dt), aw_mode = make_access_mode c (if xi_memwrite dt \<or> xi_amo dt then OP_WRITE else OP_READ)\<rparr>"
  have adm: "admits (aw_addr t) n" if "sem = RV_Load n sg \<or> sem = RV_Store n" for n sg
    using assms(3) [OF that] plain_alu_sem(5) [OF assms(2), of n sg, where c = c and xlen = "core_xlen env"] that
    by (auto simp: t_def dt_def get_xlen_address address_of_at_width)
  obtain m v where m: "memory_access env dt t c = (c\<lparr>mem := m\<rparr>, Inr (EXCAUSE_NONE, xi_memread dt, xi_regwrite dt, v))" "inv m"
    "(view m, v) = stage_effect (fm_endian (mem_data env)) sem (aw_addr t) (read_gp (regs c) (unat (inst_rt w))) (xi_alu_val dt) (view (mem c))"
    using memory_access_sem [OF assms(1,2) adm, where xlen = "core_xlen env"] unfolding dt_def by blast
  have "memory_stage env dt c = act_bind (memory_access env dt t) (memory_finish (core_xlen env) dt (aw_addr t)) c"
    by (simp add: memory_stage_def t_def Let_def)
  moreover obtain c' where "memory_finish (core_xlen env) dt (aw_addr t) (EXCAUSE_NONE, xi_memread dt, xi_regwrite dt, v) (c\<lparr>mem := m\<rparr>) = (c', Inr
      \<lparr>mi_inst = xi_inst dt, mi_inst_addr = xi_inst_addr dt, mi_next_inst_addr = xi_next_inst_addr dt,
       mi_predicted_next_inst_addr = xi_predicted_next_inst_addr dt,
       mi_computed_next_inst_addr = compute_next_inst_addr (core_xlen env) dt (branch_bxx_taken dt), mi_mem_addr = aw_addr t,
       mi_towrite_val = (if xi_csr dt then xi_csr_read_val dt
         else if xi_branch_jalr dt \<or> xi_branch_jal dt then xi_next_inst_addr dt else v),
       mi_excause = EXCAUSE_NONE, mi_num_rd = xi_num_rd dt, mi_memtoreg = xi_memread dt, mi_regwrite = xi_regwrite dt, mi_is_valid = xi_is_valid dt,
       mi_csr_written = False, mi_xret_privlev = xi_xret_privlev dt\<rparr>)" "regs c' = regs c" "mem c' = m"
    using memory_finish_plain [of dt "core_xlen env" "aw_addr t" EXCAUSE_NONE "xi_memread dt" "xi_regwrite dt" v "c\<lparr>mem := m\<rparr>"]
    by (auto simp: dt_def)
  ultimately show ?thesis
    using m by (auto simp: act_bind_def t_def get_xlen_address dt_def)
qed

end

text \<open>
  The specification keeps addresses in the machine's word length; the stages compute the next
  and the target address in 64 bits.  They agree while these addresses fit.
\<close>

definition addresses_fit :: "Xlen \<Rightarrow> rv_sem \<Rightarrow> address \<Rightarrow> u64 \<Rightarrow> bool" where
  "addresses_fit xlen sem pc imm \<longleftrightarrow> address_of xlen (pc + 4) = pc + 4 \<and>
     (sem = RV_Jal \<or> (\<exists>g. sem = RV_Branch g) \<longrightarrow> address_of xlen (pc + imm) = pc + imm)"

text \<open>
  Nothing stands in the way of the instruction at the program counter: it is legal, no breakpoint
  or interrupt comes first, and the memory admits its accesses.
\<close>

definition step_ready :: "'m core_env \<Rightarrow> ('m \<Rightarrow> address \<Rightarrow> byte) \<Rightarrow> (address \<Rightarrow> nat \<Rightarrow> bool) \<Rightarrow> bool \<Rightarrow> 'm Core \<Rightarrow> bool" where
  "step_ready env view admits skip_break c \<longleftrightarrow>
     (let pc = read_pc (regs c); w = isa_fetch (fm_endian (mem_data env)) (isa_of view c); imm = of_i32 (inst_immediate w) in
      registers_inv (regs c) \<and> \<not> stop_if (pc_if c) \<and> (skip_break \<or> \<not> is_hwbreak c pc) \<and> no_interrupt c \<and> admits pc 4 \<and>
      decode_excause c (im_flags (inst_map w)) EXCAUSE_NONE = EXCAUSE_NONE \<and>
      (case isa_sem w of None \<Rightarrow> False | Some sem \<Rightarrow> addresses_fit (core_xlen env) sem pc imm \<and>
        (case isa_access (core_xlen env) sem (unat (inst_rs w)) imm (isa_of view c) of None \<Rightarrow> True | Some (a, n) \<Rightarrow> admits a n)))"

lemma branch_taken_sem:
  assumes "isa_sem w = Some sem"
  shows "branch_bxx_taken (executed xlen c w) \<longleftrightarrow>
    (\<exists>g. sem = RV_Branch g \<and> g xlen (read_gp (regs c) (unat (inst_rs w))) (read_gp (regs c) (unat (inst_rt w))))"
  using plain_alu_sem(4) [OF assms, where c = c and xlen = xlen] executed_flags(4) [OF assms, of xlen c]
  by (auto simp: branch_bxx_taken_def)

text \<open>The values that the memory stage hands to the write-back are those of the specification.\<close>

lemma stage_matches_isa:
  assumes sem: "isa_sem w = Some sem" and fit: "addresses_fit xlen sem (read_pc (regs c)) (of_i32 (inst_immediate w))"
    and eff: "(mm', v) = stage_effect e sem (address_of xlen (xi_alu_val dt)) (read_gp (regs c) (unat (inst_rt w))) (xi_alu_val dt) (view (mem c))"
    and dt: "dt = executed xlen c w"
  defines "nx \<equiv> compute_next_inst_addr xlen dt (branch_bxx_taken dt)"
    and "tw \<equiv> (if xi_branch_jalr dt \<or> xi_branch_jal dt then xi_next_inst_addr dt else v)"
  shows "isa_exec xlen e sem (unat (inst_rs w)) (unat (inst_rt w)) (unat (inst_rd w)) (of_i32 (inst_immediate w)) (isa_of view c) =
    isa_goto nx (isa_write (if xi_regwrite dt then unat (inst_rd w) else 0) tw ((isa_of view c)\<lparr>isa_mem := mm'\<rparr>))"
proof -
  note alu = plain_alu_sem [OF sem, where c = c and xlen = xlen]
  note facts = branch_taken_sem [OF sem] executed_flags [OF sem] compute_next_inst_addr_def isa_exec_def Let_def stage_effect_def
    get_xlen_address address_of_at_width addresses_fit_def isa_goto_def isa_write_def
  show ?thesis
    using eff fit unfolding nx_def tw_def dt
    by (cases sem) (simp_all add: facts alu isa_of_def)
qed

lemma act_bind_Inr: "f s = (s', Inr x) \<Longrightarrow> g x s' = r \<Longrightarrow> act_bind f g s = r"
  by (simp add: act_bind_def)

lemma fetched_cong: "regs c = regs c' \<Longrightarrow> core_predictor c = core_predictor c' \<Longrightarrow> fetched c w = fetched c' w"
  by (simp add: fetched_def)

lemma executed_cong:
  assumes "regs c = regs c'" "core_predictor c = core_predictor c'"
  shows "executed xlen c w = executed xlen c' w"
proof -
  have "operand_a c fl w = operand_a c' fl w" "operand_rt c fl w = operand_rt c' fl w" for fl
    using assms by (simp_all add: operand_a_def operand_rt_def)
  then have "plain_alu xlen c im w = plain_alu xlen c' im w" for im by (simp add: plain_alu_def Let_def)
  with assms show ?thesis by (simp add: executed_def operand_rt_def Let_def)
qed

lemma decode_excause_cong:
  "check_inst_flags_val c = check_inst_flags_val c' \<Longrightarrow> check_inst_flags_mask c = check_inst_flags_mask c' \<Longrightarrow>
   current_privilege_u c = current_privilege_u c' \<Longrightarrow> decode_excause c fl e = decode_excause c' fl e"
  by (simp add: decode_excause_def)

text \<open>The end of the step: the register and the program counter are written.\<close>

lemma write_back_step:
  assumes "registers_inv (regs c)" "mi_num_rd m < 32" "mi_computed_next_inst_addr m mod 4 = 0" "mi_excause m = EXCAUSE_NONE"
  shows "\<exists>c'. act_bind (core_modify (\<lambda>c. writeback m (c\<lparr>mem_wb := m\<rparr>))) (\<lambda>_.
      act_bind (core_write_pc (mi_computed_next_inst_addr m)) (\<lambda>_.
      if mi_excause m \<noteq> EXCAUSE_NONE then f else core_modify (\<lambda>c. c\<lparr>prev_inst_addr := mi_inst_addr m\<rparr>))) c = (c', Inr ()) \<and>
    isa_of view c' = isa_goto (mi_computed_next_inst_addr m) (isa_write (if mi_regwrite m then mi_num_rd m else 0) (mi_towrite_val m) (isa_of view c)) \<and>
    mem c' = mem c \<and> registers_inv (regs c')"
proof -
  define c1 where "c1 = writeback m (c\<lparr>mem_wb := m\<rparr>)"
  define r where "r = regs c1"
  define c2 where "c2 = c1\<lparr>regs := (regs c1)\<lparr>reg_pc := mi_computed_next_inst_addr m\<rparr>, prev_inst_addr := mi_inst_addr m\<rparr>"
  have w: "write_pc (regs c1) (mi_computed_next_inst_addr m) = Inr ((regs c1)\<lparr>reg_pc := mi_computed_next_inst_addr m\<rparr>)"
    using assms(3) by (simp add: write_pc_def)
  have inv1: "registers_inv (regs c1)" using assms(1) by (simp add: c1_def writeback_def registers_inv_write_gp)
  have mem1: "mem c1 = mem c" by (simp add: c1_def writeback_def)
  have gp: "read_gp (regs c1) = isa_x (isa_write (if mi_regwrite m then mi_num_rd m else 0) (mi_towrite_val m) (isa_of view c))"
    using assms(1,2) by (auto simp: c1_def writeback_def isa_write_def write_gp_fun)
  have pc_free: "read_gp (q\<lparr>reg_pc := a\<rparr>) = read_gp q" for q a by (rule ext) (simp add: read_gp_def read_gp_internal_def)
  have "act_bind (core_modify (\<lambda>c. writeback m (c\<lparr>mem_wb := m\<rparr>))) (\<lambda>_.
      act_bind (core_write_pc (mi_computed_next_inst_addr m)) (\<lambda>_.
      if mi_excause m \<noteq> EXCAUSE_NONE then f else core_modify (\<lambda>c. c\<lparr>prev_inst_addr := mi_inst_addr m\<rparr>))) c = (c2, Inr ())"
    using assms(4) w by (simp add: act_bind_def core_modify_def core_write_pc_def c1_def [symmetric] c2_def)
  moreover have "isa_of view c2 = isa_goto (mi_computed_next_inst_addr m) (isa_write (if mi_regwrite m then mi_num_rd m else 0) (mi_towrite_val m) (isa_of view c))"
    using gp mem1 by (simp add: isa_of_def c2_def isa_goto_def pc_free read_pc_def isa_write_def)
  moreover have "registers_inv (regs c2)" using inv1 assms(3) by (simp add: c2_def registers_inv_def)
  moreover have "mem c2 = mem c" using mem1 by (simp add: c2_def)
  ultimately show ?thesis by blast
qed

context core_memory
begin

lemma single_step_sem:
  assumes inv: "inv (mem c)" and ready: "step_ready env view admits skip c"
    and step: "isa_step (core_xlen env) (fm_endian (mem_data env)) (isa_of view c) = Some s'"
  shows "\<exists>c'. single_do_step env skip c = (c', Inr ()) \<and> isa_of view c' = s' \<and> inv (mem c') \<and> registers_inv (regs c')"
proof -
  define e where "e = fm_endian (mem_data env)"
  define xl where "xl = core_xlen env"
  define w where "w = isa_fetch e (isa_of view c)"
  define imm where "imm = of_i32 (inst_immediate w)"
  obtain sem where sem: "isa_sem w = Some sem" and fit: "addresses_fit xl sem (read_pc (regs c)) imm"
    and acc: "case isa_access xl sem (unat (inst_rs w)) imm (isa_of view c) of None \<Rightarrow> True | Some (a, n) \<Rightarrow> admits a n"
    using ready by (auto simp: step_ready_def Let_def e_def w_def xl_def imm_def split: option.splits)
  have r: "registers_inv (regs c)" "\<not> stop_if (pc_if c)" "skip \<or> read_pc (regs c) \<notin> set (hw_breaks c)" "no_interrupt c"
      "admits (read_pc (regs c)) 4" "decode_excause c (im_flags (inst_map w)) EXCAUSE_NONE = EXCAUSE_NONE"
    using ready by (auto simp: step_ready_def Let_def e_def w_def is_hwbreak_def)
  have ww: "bytes_value (fm_endian (mem_data env)) (load_bytes (view (mem c)) (read_pc (regs c)) 4) = w"
    by (simp add: w_def isa_fetch_def e_def)
  obtain c1 where c1: "fetch env (pc_if c) skip c = (c1, Inr (fetched c w))" "inv (mem c1)" "view (mem c1) = view (mem c)"
      "regs c1 = regs c" "core_predictor c1 = core_predictor c" "current_privilege_u c1 = current_privilege_u c"
      "check_inst_flags_val c1 = check_inst_flags_val c" "check_inst_flags_mask c1 = check_inst_flags_mask c"
    using fetch_plain [OF inv r(5) r(2) r(3) r(4)] unfolding ww by blast
  define c2 where "c2 = c1\<lparr>if_id := fetched c w\<rparr>"
  have f2: "fetched c w = fetched c2 w" using c1 by (intro fetched_cong) (simp_all add: c2_def)
  have "plain_flags (im_flags (inst_map w))" using sem_flags [OF sem] by (simp add: plain_flags_def)
  moreover have "decode_excause c2 (im_flags (inst_map w)) EXCAUSE_NONE = EXCAUSE_NONE"
    using r(6) decode_excause_cong [of c2 c] c1 by (simp add: c2_def)
  ultimately obtain d where d: "decode env (fetched c2 w) c2 = (c2, Inr d)" "execute d = executed xl c2 w"
    using decode_execute_plain unfolding xl_def by blast
  define c3 where "c3 = c2\<lparr>id_ex := d, ex_mem := execute d\<rparr>"
  have x3: "executed xl c2 w = executed xl c3 w" by (intro executed_cong) (simp_all add: c3_def)
  have i3: "isa_of view c3 = isa_of view c" "inv (mem c3)" "regs c3 = regs c" using c1 by (simp_all add: c3_def c2_def isa_of_def)
  have adm: "admits (address_of (core_xlen env) (read_gp (regs c3) (unat (inst_rs w)) + of_i32 (inst_immediate w))) n"
    if "sem = RV_Load n sg \<or> sem = RV_Store n" for n sg
    using that acc i3(3) by (auto simp: isa_access_def xl_def imm_def)
  obtain c4 m v where c4: "memory_stage env (executed xl c3 w) c3 = (c4, Inr m)" "inv (mem c4)" "regs c4 = regs c3"
    "(view (mem c4), v) = stage_effect e sem (address_of xl (xi_alu_val (executed xl c3 w))) (read_gp (regs c3) (unat (inst_rt w)))
       (xi_alu_val (executed xl c3 w)) (view (mem c3))"
    "mi_computed_next_inst_addr m = compute_next_inst_addr xl (executed xl c3 w) (branch_bxx_taken (executed xl c3 w))"
    "mi_towrite_val m = (if xi_branch_jalr (executed xl c3 w) \<or> xi_branch_jal (executed xl c3 w) then xi_next_inst_addr (executed xl c3 w) else v)"
    "mi_excause m = EXCAUSE_NONE" "mi_num_rd m = xi_num_rd (executed xl c3 w)" "mi_regwrite m = xi_regwrite (executed xl c3 w)"
    using memory_stage_sem [OF i3(2) sem adm] unfolding e_def xl_def by blast
  have fit3: "addresses_fit xl sem (read_pc (regs c3)) (of_i32 (inst_immediate w))" using fit i3(3) by (simp add: imm_def)
  note isa = stage_matches_isa [where view = view, OF sem fit3 c4(4) refl]
  have s': "s' = isa_exec xl e sem (unat (inst_rs w)) (unat (inst_rt w)) (unat (inst_rd w)) imm (isa_of view c)" "isa_pc s' mod 4 = 0"
    using step sem by (auto simp: isa_step_def Let_def w_def e_def xl_def imm_def split: if_splits)
  have rd: "mi_num_rd m < 32" "mi_regwrite m \<Longrightarrow> mi_num_rd m = unat (inst_rd w)"
    using c4(8,9) unat_inst_number(3) [of w] by (auto simp: executed_flags [OF sem])
  have s'': "s' = isa_goto (mi_computed_next_inst_addr m) (isa_write (if mi_regwrite m then mi_num_rd m else 0) (mi_towrite_val m) (isa_of view c4))"
    using isa rd(2) c4(3) unfolding s'(1) i3(1) [symmetric] c4(5,6) imm_def c4(9) by (auto simp: isa_of_def)
  then have "mi_computed_next_inst_addr m mod 4 = 0" using s'(2) by (simp add: isa_goto_def)
  with write_back_step [OF _ rd(1) _ c4(7), of c4 _ view] r(1) c4(3) i3(3)
  obtain c5 where c5: "act_bind (core_modify (\<lambda>c. writeback m (c\<lparr>mem_wb := m\<rparr>))) (\<lambda>_.
      act_bind (core_write_pc (mi_computed_next_inst_addr m)) (\<lambda>_.
      if mi_excause m \<noteq> EXCAUSE_NONE then
       act_bind (core_get (\<lambda>c. (read_pc (regs c), prev_inst_addr c))) (\<lambda>(pc, prev).
       act_bind (handle_exception env (mi_excause m) (mi_inst_addr m) pc prev (mi_mem_addr m)) (\<lambda>_. act_return ()))
      else core_modify (\<lambda>c. c\<lparr>prev_inst_addr := mi_inst_addr m\<rparr>))) c4 = (c5, Inr ())"
    "isa_of view c5 = s'" "mem c5 = mem c4" "registers_inv (regs c5)" unfolding s'' by metis
  have "single_do_step env skip c = (c5, Inr ())"
    unfolding single_do_step_def
    apply (rule act_bind_Inr, simp add: core_get_def)
    apply (rule act_bind_Inr, rule c1(1), rule act_bind_Inr, simp add: core_modify_def c2_def [symmetric])
    apply (rule act_bind_Inr, rule d(1) [folded f2], rule act_bind_Inr, simp add: core_modify_def c3_def [symmetric])
    by (rule act_bind_Inr, rule c4(1) [folded x3 d(2)], rule c5(1))
  then show ?thesis using c5 c4(2) by auto
qed

end

section \<open>Machines\<close>

interpretation ram_machine: core_memory "ram_env xlen" ram.on_bus_inv ram.on_bus_view ram.on_bus_admits for xlen
proof -
  have "frontend_contract (bus_ops (device_ops absent_device_ops) LITTLE) ram.on_bus_inv (ram.on_bus_view :: unit device data_bus \<Rightarrow> _) ram.on_bus_admits"
    by (rule ram.bus.frontend_contract_axioms)
  then show "core_memory (ram_env xlen) ram.on_bus_inv ram.on_bus_view ram.on_bus_admits"
    by (simp add: core_memory_def core_memory_axioms_def ram_env_def)
qed

text \<open>The same core on one cache, for instructions and data, over that bus.\<close>

definition cached_env :: "Xlen \<Rightarrow> CacheConfig \<Rightarrow> (nat \<Rightarrow> nat) \<Rightarrow> unit device data_bus cache core_env" where
  "cached_env xlen cfg rnd = \<lparr>core_xlen = xlen, host_endian = LITTLE,
     mem_data = cache_ops cfg rnd (bus_ops (device_ops absent_device_ops) LITTLE),
     mem_program = cache_ops cfg rnd (bus_ops (device_ops absent_device_ops) LITTLE),
     ex_handlers = (\<lambda>_. None), ex_default_handler = Some stop_exception_handler\<rparr>"

interpretation cached_machine: core_memory "cached_env xlen (preset_cache rp wp) rnd"
    "cache_inv ram.on_bus_inv ram.on_bus_view 0xf0000000 (preset_cache rp wp)" "cache_view ram.on_bus_view (preset_cache rp wp)"
    "cache_admits ram.on_bus_admits 0xf0000000" for xlen rp wp rnd
  using preset_l1.cached.frontend_contract_axioms
  by (simp add: core_memory_def core_memory_axioms_def cached_env_def)

text \<open>
  Claim C2: the single-cycle core executes the RV32/RV64 IM instruction set.  On every memory that
  satisfies the memory contract, caches included, one step of the core, from the fetch through the
  instruction tables, the ALU, the memory stage and the write-back, at which the instruction is legal, no breakpoint or interrupt comes first,
  the memory admits the accesses and no address wraps around the word length (\<open>step_ready\<close>), ends without an exception in
  the state that the specification of the instruction at the program counter prescribes for the
  program counter, the registers and the memory.
\<close>

theorem single_step_refines_isa:
  assumes "core_memory env minv view admits" "minv (mem c)" "step_ready env view admits skip c"
    "isa_step (core_xlen env) (fm_endian (mem_data env)) (isa_of view c) = Some s'"
  shows "\<exists>c'. single_do_step env skip c = (c', Inr ()) \<and> isa_of view c' = s' \<and> minv (mem c') \<and> registers_inv (regs c')"
  by (rule core_memory.single_step_sem [OF assms])

text \<open>A machine with the instruction \<^verbatim>\<open>addi x1, x0, 5\<close> at the address of the reset.\<close>

definition addi_memory :: "unit device data_bus" where
  "addi_memory = fst (write_u32 LITTLE (mem_data (ram_env XLEN_32)) (plain_address 0x200) 0x00500093 AE_REGULAR ram_bus)"

definition addi_core :: "unit device data_bus Core" where
  "addi_core = core_single_new reset_registers no_prediction addi_memory None XLEN_32 0"

lemma addi_memory_holds:
  "ram.on_bus_inv addi_memory" "load_bytes (ram.on_bus_view addi_memory) 0x200 4 = [0x93, 0x00, 0x50, 0x00]"
proof -
  have adm: "ram.on_bus_admits 0x200 4"
    unfolding ram.on_bus_admits_def by (simp add: range_contains_def ram_range_def memory_admits_def memory_constants)
  with ram_machine.data.write_generic_contract [OF ram_bus_inv, where a = "plain_address 0x200" and host = LITTLE and v = "0x00500093 :: u32"]
  obtain m b where m: "write_u32 LITTLE (mem_data (ram_env XLEN_32)) (plain_address 0x200) 0x00500093 AE_REGULAR ram_bus = (m, Inr b)"
    "ram.on_bus_inv m" "ram.on_bus_view m = store_bytes (ram.on_bus_view (ram_bus :: unit device data_bus)) 0x200 (value_bytes LITTLE (0x00500093 :: u32))"
    by (auto simp: write_u32_def ram_env_def bus_ops_def)
  then have "addi_memory = m" by (simp add: addi_memory_def)
  with m show "ram.on_bus_inv addi_memory" "load_bytes (ram.on_bus_view addi_memory) 0x200 4 = [0x93, 0x00, 0x50, 0x00]"
    by (simp_all add: value_bytes_def le_bytes_def upt_rec load_bytes_def)
qed

lemma addi_core_holds:
  "regs addi_core = reset_registers" "mem addi_core = addi_memory" "control_state addi_core = None" "hw_breaks addi_core = []"
  "pc_if addi_core = pc_default" "current_privilege_u addi_core = MACHINE"
  by (simp_all add: addi_core_def core_single_new_def core_reset_def core_new_def single_do_reset_def pipeline_reset_def
      set_current_privilege_def Let_def)

lemma addi_core_fetch: "isa_fetch LITTLE (isa_of ram.on_bus_view addi_core) = 0x00500093"
  using addi_memory_holds(2) by (simp add: isa_fetch_def addi_core_holds reset_registers_holds PC_INIT_def bytes_value_def push_bit_eq_mult)

lemma addi_decoded: "inst_map 0x00500093 = im_addi"
  using find_matching [OF im_addi_supported, of "0x00500093"] by (simp add: inst_map_def im_addi_def OP_IMM_map_def)

lemma addi_flags: "im_name im_addi = ''addi''" "im_flags im_addi = FLAGS_ALU_I" "im_type im_addi = IT_I"
  by (simp_all add: im_addi_def OP_IMM_map_def)

lemma addi_operands: "inst_rs 0x00500093 = 0" "inst_rd 0x00500093 = 1" "inst_immediate 0x00500093 = 5"
  by (simp_all add: inst_rs_def inst_rd_def MASK_def immediate_of_type_def inst_extend_def inst_immediate_def inst_type_def addi_decoded addi_flags)

lemma addi_ready: "step_ready (ram_env XLEN_32) ram.on_bus_view ram.on_bus_admits False addi_core"
proof -
  have "decode_excause addi_core FLAGS_ALU_I EXCAUSE_NONE = EXCAUSE_NONE"
    by (simp add: decode_excause_def addi_core_def core_single_new_def core_reset_def core_new_def single_do_reset_def pipeline_reset_def
      set_current_privilege_def Let_def unsupported_inst_flags_to_check_def isa_contains_def has_flag_def flag_defs)
  moreover have "isa_sem 0x00500093 = Some (RV_Imm (\<lambda>x. at_width x (+) (+)))"
    by (simp add: isa_sem_def addi_decoded addi_flags rv_semantics_def rv_table_def)
  moreover have "ram.on_bus_admits 0x200 4"
    unfolding ram.on_bus_admits_def by (simp add: range_contains_def ram_range_def memory_admits_def memory_constants)
  moreover have "fm_endian (mem_data (ram_env XLEN_32)) = LITTLE" "core_xlen (ram_env XLEN_32) = XLEN_32"
    by (simp_all add: ram_env_def bus_ops_def)
  moreover have "addresses_fit XLEN_32 (RV_Imm f) 0x200 imm" for f imm
    by (simp add: addresses_fit_def address_of_def)
  ultimately show ?thesis
    by (simp add: step_ready_def Let_def addi_core_fetch addi_core_holds reset_registers_holds addi_decoded addi_flags
        isa_access_def PC_INIT_def pc_default_def is_hwbreak_def no_interrupt_def)
qed

theorem single_step_refines_isa_witness:
  "\<exists>c'. single_do_step (ram_env XLEN_32) False addi_core = (c', Inr ()) \<and> read_gp (regs c') 1 = 5 \<and> read_pc (regs c') = 0x204"
proof -
  let ?s = "isa_of ram.on_bus_view addi_core"
  have "isa_sem 0x00500093 = Some (RV_Imm (\<lambda>x. at_width x (+) (+)))"
    by (simp add: isa_sem_def addi_decoded addi_flags rv_semantics_def rv_table_def)
  then have "isa_step XLEN_32 LITTLE ?s = Some (isa_goto 0x204 (isa_write 1 5 ?s))"
    by (simp add: isa_step_def Let_def addi_core_fetch addi_operands isa_exec_def addi_core_holds reset_registers_holds at_width_def
        of_i32_def PC_INIT_def address_of_def isa_goto_def)
  moreover have "fm_endian (mem_data (ram_env XLEN_32)) = LITTLE" "core_xlen (ram_env XLEN_32) = XLEN_32"
    by (simp_all add: ram_env_def bus_ops_def)
  ultimately obtain c' where c': "single_do_step (ram_env XLEN_32) False addi_core = (c', Inr ())"
    "isa_of ram.on_bus_view c' = isa_goto 0x204 (isa_write 1 5 ?s)"
    using single_step_refines_isa [OF ram_machine.core_memory_axioms _ addi_ready] addi_memory_holds(1) by (auto simp: addi_core_holds)
  have "read_gp (regs c') 1 = 5" "read_pc (regs c') = 0x204"
    using arg_cong [OF c'(2), of isa_x] arg_cong [OF c'(2), of isa_pc] by (simp_all add: isa_goto_def isa_write_def)
  with c' show ?thesis by blast
qed

end
