(* ===== verification/Core_Hazards.thy ===== *)
theory Core_Hazards
  imports Core_Invariant
begin

text \<open>
  The hazard unit of the pipelined core: what an instruction in the decode stage reads, when the
  two older instructions in front of it have not been written back, and what an exception
  flushes.
\<close>

section \<open>Pending writes\<close>

text \<open>The value that the memory stage will hand on for an instruction that does not read memory.\<close>

definition stage_result :: "ExecuteInterstage \<Rightarrow> register_value" where
  "stage_result x = (if xi_csr x then xi_csr_read_val x
     else if xi_branch_jalr x \<or> xi_branch_jal x then xi_next_inst_addr x else xi_alu_val x)"

text \<open>The registers once the two older instructions have been written back, in program order.\<close>

definition registers_behind :: "'m Core \<Rightarrow> Registers" where
  "registers_behind c =
     (let r = (if mi_regwrite (mem_wb c) then write_gp (regs c) (mi_num_rd (mem_wb c)) (mi_towrite_val (mem_wb c)) else regs c)
      in if xi_regwrite (ex_mem c) then write_gp r (xi_num_rd (ex_mem c)) (stage_result (ex_mem c)) else r)"

text \<open>The decode stage has read the registers as they are before both writes.\<close>

definition operands_read :: "'m Core \<Rightarrow> bool" where
  "operands_read c \<longleftrightarrow> di_val_rs (id_ex c) = read_gp (regs c) (di_num_rs (id_ex c)) \<and>
     di_val_rt (id_ex c) = read_gp (regs c) (di_num_rt (id_ex c))"

lemma registers_behind_read:
  assumes "registers_inv (regs c)" "i < 32"
  shows "read_gp (registers_behind c) i =
    (if xi_regwrite (ex_mem c) \<and> xi_num_rd (ex_mem c) = i \<and> i \<noteq> 0 then stage_result (ex_mem c)
     else if mi_regwrite (mem_wb c) \<and> mi_num_rd (mem_wb c) = i \<and> i \<noteq> 0 then mi_towrite_val (mem_wb c)
     else read_gp (regs c) i)"
  using assms by (auto simp: registers_behind_def Let_def read_write_gp registers_inv_write_gp REGISTER_COUNT_def)

lemma forward_rs:
  fixes d :: DecodeInterstage and a :: bool and v :: register_value and f :: ForwardFrom
  defines "d' \<equiv> if a then d\<lparr>di_val_rs := v, di_ff_rs := f\<rparr> else d"
  shows "di_alu_req_rs d' = di_alu_req_rs d" "di_alu_req_rt d' = di_alu_req_rt d" "di_num_rs d' = di_num_rs d"
    "di_num_rt d' = di_num_rt d" "di_val_rs d' = (if a then v else di_val_rs d)" "di_val_rt d' = di_val_rt d"
  unfolding d'_def by (cases a; simp)+

lemma forward_rt:
  fixes d :: DecodeInterstage and a :: bool and v :: register_value and f :: ForwardFrom
  defines "d' \<equiv> if a then d\<lparr>di_val_rt := v, di_ff_rt := f\<rparr> else d"
  shows "di_alu_req_rs d' = di_alu_req_rs d" "di_alu_req_rt d' = di_alu_req_rt d" "di_num_rs d' = di_num_rs d"
    "di_num_rt d' = di_num_rt d" "di_val_rs d' = di_val_rs d" "di_val_rt d' = (if a then v else di_val_rt d)"
  unfolding d'_def by (cases a; simp)+

lemma forward_to_simps [simp]:
  "di_alu_req_rs (forward_to n v f d) = di_alu_req_rs d" "di_alu_req_rt (forward_to n v f d) = di_alu_req_rt d"
  "di_num_rs (forward_to n v f d) = di_num_rs d" "di_num_rt (forward_to n v f d) = di_num_rt d"
  "di_val_rs (forward_to n v f d) = (if di_alu_req_rs d \<and> n = di_num_rs d then v else di_val_rs d)"
  "di_val_rt (forward_to n v f d) = (if di_alu_req_rt d \<and> n = di_num_rt d then v else di_val_rt d)"
  by (simp_all only: forward_to_def Let_def forward_rs forward_rt)

lemma is_hazard_forward_to [simp]: "is_hazard_in_stage w k (forward_to n v f d) = is_hazard_in_stage w k d"
  by (simp add: is_hazard_in_stage_def)

text \<open>One register that is forwarded or not.\<close>

definition forward_if :: "bool \<Rightarrow> RegisterId \<Rightarrow> register_value \<Rightarrow> ForwardFrom \<Rightarrow> DecodeInterstage \<Rightarrow> DecodeInterstage" where
  "forward_if w n v f d = (if is_hazard_in_stage w n d then forward_to n v f d else d)"

lemma hazards_stall:
  "handle_data_hazards HU_STALL c = (c, is_hazard_in_stage (mi_regwrite (mem_wb c)) (mi_num_rd (mem_wb c)) (id_ex c) \<or>
     is_hazard_in_stage (xi_regwrite (ex_mem c)) (xi_num_rd (ex_mem c)) (id_ex c))"
  by (simp add: handle_data_hazards_def Let_def)

lemma hazards_forward:
  assumes "handle_data_hazards HU_STALL_FORWARD c = (c', False)"
  shows "id_ex c' = forward_if (xi_regwrite (ex_mem c)) (xi_num_rd (ex_mem c)) (xi_alu_val (ex_mem c)) FORWARD_FROM_M
    (forward_if (mi_regwrite (mem_wb c)) (mi_num_rd (mem_wb c)) (mi_towrite_val (mem_wb c)) FORWARD_FROM_W (id_ex c))"
proof -
  define h1 where "h1 = is_hazard_in_stage (mi_regwrite (mem_wb c)) (mi_num_rd (mem_wb c)) (id_ex c)"
  define h2 where "h2 = is_hazard_in_stage (xi_regwrite (ex_mem c)) (xi_num_rd (ex_mem c)) (id_ex c)"
  show ?thesis
    using assms unfolding handle_data_hazards_def Let_def forward_if_def
    by (cases h1; cases h2; cases "xi_memread (ex_mem c)") (auto simp: h1_def h2_def)
qed

lemma forward_if_value:
  "di_alu_req_rs d \<Longrightarrow> di_val_rs (forward_if w n v f d) = (if w \<and> n = di_num_rs d \<and> di_num_rs d \<noteq> 0 then v else di_val_rs d)"
  "di_alu_req_rt d \<Longrightarrow> di_val_rt (forward_if w n v f d) = (if w \<and> n = di_num_rt d \<and> di_num_rt d \<noteq> 0 then v else di_val_rt d)"
  by (auto simp: forward_if_def is_hazard_in_stage_def)

lemma forward_if_simps [simp]:
  "di_alu_req_rs (forward_if w n v f d) = di_alu_req_rs d" "di_alu_req_rt (forward_if w n v f d) = di_alu_req_rt d"
  "di_num_rs (forward_if w n v f d) = di_num_rs d" "di_num_rt (forward_if w n v f d) = di_num_rt d"
  by (simp_all add: forward_if_def)

text \<open>
  The operands that the forwarding unit takes from an instruction whose result is not its ALU value: a jump-and-link, whose result is
  the link address, or an access to a control register, whose result is the old value of the register.
\<close>

definition forwards_alu_value :: "HazardUnit \<Rightarrow> ExecuteInterstage \<Rightarrow> RegisterId \<Rightarrow> bool" where
  "forwards_alu_value hu x i \<longleftrightarrow> hu = HU_STALL_FORWARD \<and> xi_regwrite x \<and> xi_num_rd x = i \<and> i \<noteq> 0 \<and>
     (xi_csr x \<or> xi_branch_jal x \<or> xi_branch_jalr x)"


lemma forward_no_stall:
  assumes "\<not> xi_memread (ex_mem c)" shows "\<exists>c'. handle_data_hazards HU_STALL_FORWARD c = (c', False)"
  using assms by (cases "is_hazard_in_stage (mi_regwrite (mem_wb c)) (mi_num_rd (mem_wb c)) (id_ex c)";
      cases "is_hazard_in_stage (xi_regwrite (ex_mem c)) (xi_num_rd (ex_mem c)) (id_ex c)") (simp_all add: handle_data_hazards_def)

text \<open>A core in which a jump waits for its write-back and the next instruction reads register 1.\<close>

definition jal_x :: ExecuteInterstage where
  "jal_x = xi_flush\<lparr>xi_inst_addr := 0x200, xi_next_inst_addr := 0x204, xi_alu_val := 0x300, xi_regwrite := True, xi_num_rd := 1,
     xi_branch_jal := True, xi_is_valid := True\<rparr>"

definition reader_d :: DecodeInterstage where
  "reader_d = di_flush\<lparr>di_alu_req_rs := True, di_num_rs := 1, di_is_valid := True\<rparr>"

definition hazard_core :: "ExecuteInterstage \<Rightarrow> unit Core" where
  "hazard_core x = (core_new reset_registers no_prediction () None XLEN_32 0)\<lparr>ex_mem := x, id_ex := reader_d\<rparr>"

lemma hazard_core_simps [simp]:
  "ex_mem (hazard_core x) = x" "mem_wb (hazard_core x) = mi_flush" "id_ex (hazard_core x) = reader_d" "regs (hazard_core x) = reset_registers"
  by (simp_all add: hazard_core_def core_new_def)

lemma hazard_core_ok: "operands_read (hazard_core x)" "xi_num_rd x < 32 \<Longrightarrow> numbers_ok (hazard_core x)"
  by (simp_all add: operands_read_def reader_d_def di_flush_def reset_registers_holds numbers_ok_def mi_flush_def)


text \<open>
  The link of a jump is not forwarded.  When a jump-and-link whose target was predicted
  is followed directly by an instruction that reads the link register, the forwarding unit hands
  it the ALU result of the jump, its target, and asks for no stall; the
  sequential machine would read the return address.
\<close>

theorem link_forwarding_wrong:
  assumes "xi_branch_jal (ex_mem c) \<or> xi_branch_jalr (ex_mem c)" "xi_regwrite (ex_mem c)" "\<not> xi_memread (ex_mem c)" "\<not> xi_csr (ex_mem c)"
    "xi_num_rd (ex_mem c) = di_num_rs (id_ex c)" "di_alu_req_rs (id_ex c)" "0 < di_num_rs (id_ex c)" "numbers_ok c" "registers_inv (regs c)"
  shows "\<exists>c'. handle_data_hazards HU_STALL_FORWARD c = (c', False) \<and> di_val_rs (id_ex c') = xi_alu_val (ex_mem c) \<and>
    read_gp (registers_behind c) (di_num_rs (id_ex c)) = xi_next_inst_addr (ex_mem c)"
proof -
  obtain c' where c': "handle_data_hazards HU_STALL_FORWARD c = (c', False)" using forward_no_stall [OF assms(3)] by blast
  have "di_val_rs (id_ex c') = xi_alu_val (ex_mem c)"
    using assms(2,5,6,7) unfolding hazards_forward [OF c'] by (simp add: forward_if_value)
  moreover have "di_num_rs (id_ex c) < 32" using assms(8) by (simp add: numbers_ok_def)
  then have "read_gp (registers_behind c) (di_num_rs (id_ex c)) = xi_next_inst_addr (ex_mem c)"
    using assms(1,2,4,5,7,9) by (auto simp: registers_behind_read stage_result_def)
  ultimately show ?thesis using c' by blast
qed

theorem link_forwarding_wrong_witness:
  "\<exists>c'. handle_data_hazards HU_STALL_FORWARD (hazard_core jal_x) = (c', False) \<and> di_val_rs (id_ex c') = 0x300 \<and>
    read_gp (registers_behind (hazard_core jal_x)) 1 = 0x204"
  using link_forwarding_wrong [of "hazard_core jal_x"] hazard_core_ok(2) [of jal_x]
  by (simp add: jal_x_def xi_flush_def reader_d_def reset_registers_holds)

end
