(* ===== verification/Core_Traps.thy ===== *)
theory Core_Traps
  imports Core_Invariant
begin

text \<open>
  Exceptions of the core: where a trap goes, what it leaves in the control registers, and the
  return from it.
\<close>

section \<open>The control registers of a trap\<close>

definition trap_to_supervisor :: "ControlState \<Rightarrow> PrivilegeLevel \<Rightarrow> ExceptionCause \<Rightarrow> bool" where
  "trap_to_supervisor cs origin e \<longleftrightarrow>
     (if e = EXCAUSE_INT_M \<or> e = EXCAUSE_INT_S then e = EXCAUSE_INT_S
      else (origin = SUPERVISOR \<or> origin = UNPRIVILEGED) \<and> bit (register_data cs CSR_MEDELEG) (excause_code e))"

text \<open>An address that fits the registers of the machine.\<close>

definition fits :: "ControlState \<Rightarrow> u64 \<Rightarrow> bool" where
  "fits cs a \<longleftrightarrow> (cs_xlen cs = XLEN_32 \<longrightarrow> a AND 0xffffffff = a)"

definition trap_regs :: "csr_id set" where
  "trap_regs = {CSR_MEPC, CSR_SEPC, CSR_MTVAL, CSR_STVAL, CSR_MTVEC, CSR_STVEC, CSR_MCAUSE, CSR_SCAUSE, CSR_MEDELEG}"

lemma write_trap_reg:
  assumes "i \<in> {CSR_MEPC, CSR_SEPC, CSR_MTVAL, CSR_STVAL, CSR_MTVEC}"
  shows "write_internal i v cs = csr_set i (if cs_xlen cs = XLEN_32 then v AND 0xffffffff else v) cs"
proof -
  have full: "(0xffffffffffffffff :: u64) = - 1" by simp
  have "csr_handler (REGISTERS i) = default_wlrl" "csr_write_mask (REGISTERS i) = - 1"
    using assms unfolding full [symmetric] by auto
  then show ?thesis by (simp add: write_internal_def default_wlrl_write_handler_def Let_def)
qed

lemma csr_set_data [simp]: "register_data (csr_set i v cs) j = (if j = i then v else register_data cs j)"
  by (simp add: csr_set_def)

lemma write_field_trap_regs:
  assumes "field_reg f = CSR_MSTATUS \<or> field_reg f = CSR_SSTATUS" "i \<in> trap_regs"
  shows "register_data (write_field f v cs) i = register_data cs i"
  using assms by (auto simp: write_field_def write_internal_def mstatus_wlrl_write_handler_def sstatus_wlrl_write_handler_def
      Let_def trap_regs_def)

lemma initiate_trap_regs: "i \<in> trap_regs \<Longrightarrow> register_data (exception_initiate p q cs) i = register_data cs i"
  by (simp add: exception_initiate_def Let_def write_field_trap_regs csr_fields)

lemma return_trap_regs: "i \<in> trap_regs \<Longrightarrow> register_data (fst (exception_return p q cs)) i = register_data cs i"
  by (simp add: exception_return_def Let_def write_field_trap_regs csr_fields)

text \<open>The control state at the jump to the trap vector.\<close>

definition trap_state :: "bool \<Rightarrow> PrivilegeLevel \<Rightarrow> ExceptionCause \<Rightarrow> address \<Rightarrow> address \<Rightarrow> ControlState \<Rightarrow> ControlState" where
  "trap_state s origin e a m cs =
     update_exception_cause e (if s then SUPERVISOR else origin)
       (write_internal (if s then CSR_STVAL else CSR_MTVAL) (if has_mem_ref e then m else 0)
         (write_internal (if s then CSR_SEPC else CSR_MEPC) a cs))"

lemma trap_state_regs:
  "register_data (trap_state s p e a m cs) (if s then CSR_SEPC else CSR_MEPC) = (if cs_xlen cs = XLEN_32 then a AND 0xffffffff else a)"
  "register_data (trap_state s p e a m cs) (if s then CSR_STVEC else CSR_MTVEC) = register_data cs (if s then CSR_STVEC else CSR_MTVEC)"
  "register_data (trap_state s p e a m cs) (if s then CSR_STVAL else CSR_MTVAL) =
     (if has_mem_ref e then if cs_xlen cs = XLEN_32 then m AND 0xffffffff else m else 0)"
  by (simp_all add: trap_state_def update_exception_cause_def Let_def write_trap_reg)

lemma medeleg_test: "(w :: u64) AND push_bit k 1 \<noteq> 0 \<longleftrightarrow> bit w k"
  by (simp add: bit_iff_and_push_bit_not_eq_0)

lemma deliver_exception_eq:
  fixes c :: "'m Core" and e :: ExceptionCause and a m :: address
  assumes "control_state c = Some cs"
  defines "s \<equiv> trap_to_supervisor cs (current_privilege_u c) e" and "c0 \<equiv> c\<lparr>LoadReservedRange := ar_reset\<rparr>"
  defines "cs1 \<equiv> trap_state s (current_privilege_u c) e a m cs" and "t \<equiv> if s then SUPERVISOR else MACHINE"
  shows "deliver_exception e a m c =
    (if register_data cs (if s then CSR_STVEC else CSR_MTVEC) \<noteq> 0 \<and> \<not> step_over_exception c e
     then let cs2 = exception_initiate (current_privilege_u c) t cs1 in
       core_write_pc (exception_pc_address cs2 t) (set_current_privilege t (c0\<lparr>control_state := Some cs2\<rparr>))
     else (c0\<lparr>control_state := Some cs1\<rparr>, Inr ()))"
proof -
  have s: "s \<longleftrightarrow> (if e = EXCAUSE_INT_M \<or> e = EXCAUSE_INT_S then e = EXCAUSE_INT_S
      else (current_privilege_u c = SUPERVISOR \<or> current_privilege_u c = UNPRIVILEGED) \<and> read_internal cs CSR_MEDELEG AND push_bit (excause_code e) 1 \<noteq> 0)"
    unfolding s_def trap_to_supervisor_def medeleg_test read_internal_def by simp
  note regs = trap_state_regs(2) [of s "current_privilege_u c" e a m cs]
  note defs = deliver_exception_def Let_def assms(1) c0_def cs1_def t_def trap_state_def read_internal_def
  show ?thesis
  proof (cases "e = EXCAUSE_INT_M \<or> e = EXCAUSE_INT_S")
    case True
    then show ?thesis using s regs by (auto simp: defs)
  next
    case False
    then have "s \<longleftrightarrow> (current_privilege_u c = SUPERVISOR \<or> current_privilege_u c = UNPRIVILEGED) \<and> register_data cs CSR_MEDELEG AND 2 ^ excause_code e \<noteq> 0"
      unfolding s by (simp add: read_internal_def)
    then show ?thesis using False regs
      by (cases "register_data cs CSR_MEDELEG AND 2 ^ excause_code e = 0"; cases "current_privilege_u c") (simp_all add: defs)
  qed
qed

lemma core_write_pc_ok_eq: "a mod 4 = 0 \<Longrightarrow> core_write_pc a c = (c\<lparr>regs := (regs c)\<lparr>reg_pc := a\<rparr>\<rparr>, Inr ())"
  by (simp add: core_write_pc_def write_pc_def)

lemma exception_pc_initiated:
  "exception_pc_address (exception_initiate p q (trap_state s p e a m cs)) (if s then SUPERVISOR else MACHINE) =
     register_data cs (if s then CSR_STVEC else CSR_MTVEC)"
  using trap_state_regs(2) [of s p e a m cs] by (cases s) (simp_all add: exception_pc_address_def initiate_trap_regs trap_regs_def)

definition trap_taken :: "'m Core \<Rightarrow> ControlState \<Rightarrow> ExceptionCause \<Rightarrow> bool" where
  "trap_taken c cs e \<longleftrightarrow> control_state c = Some cs \<and> \<not> step_over_exception c e \<and>
     (let tvec = register_data cs (if trap_to_supervisor cs (current_privilege_u c) e then CSR_STVEC else CSR_MTVEC)
      in tvec \<noteq> 0 \<and> tvec mod 4 = 0)"

text \<open>The state of the core at the first instruction of the trap handler.\<close>

lemma deliver_exception_taken:
  fixes c :: "'m Core" and e :: ExceptionCause and a m :: address
  assumes "trap_taken c cs e"
  defines "s \<equiv> trap_to_supervisor cs (current_privilege_u c) e"
  defines "t \<equiv> if s then SUPERVISOR else MACHINE"
  defines "cs' \<equiv> exception_initiate (current_privilege_u c) t (trap_state s (current_privilege_u c) e a m cs)"
  shows "\<exists>c'. deliver_exception e a m c = (c', Inr ()) \<and> control_state c' = Some cs' \<and>
    read_pc (regs c') = register_data cs (if s then CSR_STVEC else CSR_MTVEC) \<and> current_privilege_u c' = t \<and>
    LoadReservedRange c' = ar_reset \<and> mem c' = mem c"
proof -
  have c: "control_state c = Some cs" "\<not> step_over_exception c e" "register_data cs (if s then CSR_STVEC else CSR_MTVEC) \<noteq> 0"
    "register_data cs (if s then CSR_STVEC else CSR_MTVEC) mod 4 = 0"
    using assms(1) by (simp_all add: trap_taken_def Let_def s_def)
  let ?c0 = "set_current_privilege t (c\<lparr>LoadReservedRange := ar_reset, control_state := Some cs'\<rparr>)"
  have "deliver_exception e a m c = core_write_pc (register_data cs (if s then CSR_STVEC else CSR_MTVEC)) ?c0"
    unfolding deliver_exception_eq [OF c(1)] s_def [symmetric] Let_def t_def [symmetric] cs'_def [symmetric]
    using c exception_pc_initiated [of "current_privilege_u c" t s e a m cs] by (simp add: cs'_def t_def)
  also have "\<dots> = (?c0\<lparr>regs := (regs ?c0)\<lparr>reg_pc := register_data cs (if s then CSR_STVEC else CSR_MTVEC)\<rparr>\<rparr>, Inr ())"
    by (rule core_write_pc_ok_eq [OF c(4)])
  finally show ?thesis by (simp add: read_pc_def set_current_privilege_def Let_def)
qed

section \<open>The return\<close>

lemma minstret_regs:
  "i \<noteq> CSR_MINSTRET \<Longrightarrow> register_data (increment_internal CSR_MINSTRET n cs) i = register_data cs i"
  "cs_xlen (increment_internal CSR_MINSTRET n cs) = cs_xlen cs"
  by (simp_all add: increment_internal_def write_internal_def)

lemma return_privilege_status:
  assumes "register_data cs CSR_MSTATUS = register_data cs' CSR_MSTATUS" "q = MACHINE \<or> q = SUPERVISOR"
  shows "snd (exception_return p q cs) = snd (exception_return p q cs')"
  using assms by (auto simp: return_machine_privilege return_supervisor(2) [of 0] read_field_def read_internal_def mstatus_MPP_def)

lemma trap_state_mirror: "status_mirror cs \<Longrightarrow> status_mirror (trap_state s p e a m cs)"
  by (simp add: trap_state_def update_exception_cause_def Let_def csr_set_mirror write_internal_mirror)

lemma trap_privilege_restored:
  assumes "status_mirror cs" "s \<Longrightarrow> p = UNPRIVILEGED \<or> p = SUPERVISOR"
  shows "snd (exception_return (if s then SUPERVISOR else MACHINE) (if s then SUPERVISOR else MACHINE)
    (exception_initiate p (if s then SUPERVISOR else MACHINE) cs)) = p"
proof (cases s)
  case True
  then show ?thesis
    using assms(2) return_supervisor(2) [of 0 SUPERVISOR "exception_initiate p SUPERVISOR cs"] initiate_supervisor [OF assms(1), of 8 p] by auto
next
  case False
  have "read_field (exception_initiate p MACHINE cs) mstatus_MPP = take_bit 2 (of_nat (priv_code p))"
    by (rule read_field_MPP_eq) (auto simp: initiate_machine)
  then show ?thesis using False by (cases p) (simp_all add: return_machine_privilege priv_of_code_def take_bit_eq_mod)
qed

text \<open>
  Claim C6: a trap and the return from it.  An exception or interrupt that is taken enters the
  handler at the trap vector of the level it is delegated to, in that level's privilege, with the
  reservation dropped; the return instruction of that level then continues at the interrupted
  instruction's address in the interrupted privilege level.
\<close>

theorem trap_round_trip:
  assumes "trap_taken c cs e" "status_mirror cs" "fits cs a"
    "trap_to_supervisor cs (current_privilege_u c) e \<Longrightarrow> current_privilege_u c = UNPRIVILEGED \<or> current_privilege_u c = SUPERVISOR"
    "xi_xret dt" "xi_is_valid dt" "xi_excause dt = EXCAUSE_NONE" "\<not> xi_csr_write dt"
    "xi_xret_privlev dt = (if trap_to_supervisor cs (current_privilege_u c) e then SUPERVISOR else MACHINE)"
  shows "\<exists>c' c''. deliver_exception e a m c = (c', Inr ()) \<and> LoadReservedRange c' = ar_reset \<and>
    current_privilege_u c' = xi_xret_privlev dt \<and>
    read_pc (regs c') = register_data cs (if xi_xret_privlev dt = SUPERVISOR then CSR_STVEC else CSR_MTVEC) \<and>
    memory_control (cs_xlen cs) dt next_addr c' = (c'', Inr (a, True)) \<and>
    current_privilege_u c'' = current_privilege_u c"
proof -
  define p where "p = current_privilege_u c"
  define s where "s = trap_to_supervisor cs p e"
  define t where "t = (if s then SUPERVISOR else MACHINE)"
  define cs1 where "cs1 = trap_state s p e a m cs"
  define cs2 where "cs2 = exception_initiate p t cs1"
  define cs3 where "cs3 = increment_internal CSR_MINSTRET 1 cs2"
  define cs4 where "cs4 = fst (exception_return t t cs3)"
  have t: "xi_xret_privlev dt = t" "(if xi_xret_privlev dt = SUPERVISOR then CSR_STVEC else CSR_MTVEC) = (if s then CSR_STVEC else CSR_MTVEC)"
    using assms(9) by (simp_all add: t_def s_def p_def)
  obtain c' where c': "deliver_exception e a m c = (c', Inr ())" "control_state c' = Some cs2"
    "read_pc (regs c') = register_data cs (if s then CSR_STVEC else CSR_MTVEC)" "current_privilege_u c' = t" "LoadReservedRange c' = ar_reset"
    using deliver_exception_taken [OF assms(1), of a m] unfolding p_def s_def t_def cs1_def cs2_def by metis
  have "register_data cs3 CSR_MSTATUS = register_data cs2 CSR_MSTATUS" by (simp add: cs3_def minstret_regs)
  then have "snd (exception_return t t cs3) = snd (exception_return t t cs2)" by (rule return_privilege_status) (simp add: t_def)
  also have "\<dots> = p"
    unfolding cs2_def t_def using assms(4) by (intro trap_privilege_restored trap_state_mirror assms(2)) (simp_all add: cs1_def trap_state_mirror assms(2) s_def p_def)
  finally have priv: "exception_return t t cs3 = (cs4, p)" by (simp add: cs4_def prod_eq_iff)
  have epc: "register_data cs4 (if t = MACHINE then CSR_MEPC else CSR_SEPC) = a"
    using assms(3) trap_state_regs(1) [of s p e a m cs]
    by (cases s) (auto simp: cs4_def cs3_def cs2_def cs1_def t_def return_trap_regs initiate_trap_regs trap_regs_def minstret_regs fits_def)
  have low: "ucast (as_u32 a) = a" if "cs_xlen cs = XLEN_32"
  proof -
    have "ucast (as_u32 a) = a AND mask 32" by (rule bit_word_eqI) (auto simp: as_u32_def bit_simps)
    then show ?thesis using assms(3) that by (simp add: fits_def mask32)
  qed
  have "memory_control (cs_xlen cs) dt next_addr c' =
      ((set_current_privilege p (c'\<lparr>control_state := Some cs4\<rparr>))\<lparr>LoadReservedRange := ar_reset\<rparr>, Inr (a, True))"
    using assms(5-8) c'(2,4) priv epc low
    by (cases "cs_xlen cs") (auto simp: memory_control_def Let_def cs3_def [symmetric] t(1) read_internal_def as_u64_def split del: if_split)
  then show ?thesis using c' t unfolding p_def by (intro exI conjI) (assumption | simp)+
qed

text \<open>A core in user mode with its trap vector set, and the return instruction of machine mode.\<close>

definition user_state :: ControlState where
  "user_state = write_internal CSR_MTVEC 0x1000 (csr_new XLEN_32 0)"

definition user_core :: "unit Core" where
  "user_core = (set_step_over_exception EXCAUSE_ECALL_U False
     (core_new reset_registers no_prediction () (Some user_state) XLEN_32 0))\<lparr>current_privilege_u := UNPRIVILEGED\<rparr>"

definition mret_x :: ExecuteInterstage where
  "mret_x = xi_flush\<lparr>xi_xret := True, xi_xret_privlev := MACHINE, xi_is_valid := True\<rparr>"

lemma user_state_regs: "register_data user_state CSR_MTVEC = 0x1000" "register_data user_state CSR_MEDELEG = 0" "cs_xlen user_state = XLEN_32"
  "status_mirror user_state"
proof -
  have "csr_reachable XLEN_32 user_state" unfolding user_state_def by (intro csr_written csr_start)
  then show "cs_xlen user_state = XLEN_32" "status_mirror user_state" using csr_reachable_mirror by blast+
  have "register_data (csr_new XLEN_32 0) CSR_MEDELEG = 0" by (simp add: csr_new_def csr_reset_def Let_def)
  then show "register_data user_state CSR_MTVEC = 0x1000" "register_data user_state CSR_MEDELEG = 0"
    by (simp_all add: user_state_def write_trap_reg)
qed

lemma user_core_taken: "trap_taken user_core user_state EXCAUSE_ECALL_U" "\<not> trap_to_supervisor user_state UNPRIVILEGED EXCAUSE_ECALL_U"
  "current_privilege_u user_core = UNPRIVILEGED"
  by (simp_all add: trap_taken_def user_core_def core_new_def set_step_over_exception_def trap_to_supervisor_def user_state_regs)

theorem trap_round_trip_witness:
  "\<exists>c' c''. deliver_exception EXCAUSE_ECALL_U 0x400 0 user_core = (c', Inr ()) \<and> current_privilege_u c' = MACHINE \<and>
    read_pc (regs c') = 0x1000 \<and> memory_control XLEN_32 mret_x 0 c' = (c'', Inr (0x400, True)) \<and> current_privilege_u c'' = UNPRIVILEGED"
proof -
  have "fits user_state 0x400" by (simp add: fits_def)
  from trap_round_trip [OF user_core_taken(1) user_state_regs(4) this, of mret_x 0 0] user_core_taken(2,3)
  show ?thesis by (auto simp: mret_x_def xi_flush_def user_state_regs)
qed

text \<open>
  An exception of a less privileged level that is not delegated is delivered to machine
  mode, but its cause goes to \<^verbatim>\<open>scause\<close>: \<^verbatim>\<open>mcause\<close> keeps its old value.
\<close>

theorem machine_trap_leaves_mcause:
  assumes "trap_taken c cs e" "\<not> trap_to_supervisor cs (current_privilege_u c) e" "e \<noteq> EXCAUSE_INT_M" "current_privilege_u c \<noteq> MACHINE"
  shows "\<exists>c' cs'. deliver_exception e a m c = (c', Inr ()) \<and> current_privilege_u c' = MACHINE \<and> control_state c' = Some cs' \<and>
    register_data cs' CSR_MCAUSE = register_data cs CSR_MCAUSE \<and> register_data cs' CSR_SCAUSE = of_nat (excause_code e)"
proof -
  have e: "e \<noteq> EXCAUSE_INT_S" using assms(2) by (auto simp: trap_to_supervisor_def)
  show ?thesis
    using deliver_exception_taken [OF assms(1), of a m] assms(2-4) e
    by (auto simp: initiate_trap_regs trap_regs_def trap_state_def update_exception_cause_def write_trap_reg)
qed

theorem machine_trap_leaves_mcause_witness:
  "\<exists>c' cs'. deliver_exception EXCAUSE_ECALL_U 0x400 0 user_core = (c', Inr ()) \<and> control_state c' = Some cs' \<and>
    register_data cs' CSR_SCAUSE = 8"
  using machine_trap_leaves_mcause [OF user_core_taken(1), where a = "0x400" and m = 0] user_core_taken(2,3) by auto

end
