(* ===== verification/Core_Atomics.thy ===== *)
theory Core_Atomics
  imports Core_Refines
begin

text \<open>
  The atomic instructions in the memory stage: load-reserved and store-conditional on the
  reservation, and the read-modify-write instructions.
\<close>

text \<open>What the read-modify-write instructions compute, in integers.\<close>

definition amo_spec32 :: "AccessControl \<Rightarrow> u32 \<Rightarrow> u32 \<Rightarrow> u32" where
  "amo_spec32 ctl a b = (case ctl of
     AC_AMOSWAP32 \<Rightarrow> b | AC_AMOADD32 \<Rightarrow> word_of_int (uint a + uint b)
   | AC_AMOXOR32 \<Rightarrow> a XOR b | AC_AMOAND32 \<Rightarrow> a AND b | AC_AMOOR32 \<Rightarrow> a OR b
   | AC_AMOMIN32 \<Rightarrow> word_of_int (min (sint a) (sint b)) | AC_AMOMAX32 \<Rightarrow> word_of_int (max (sint a) (sint b))
   | AC_AMOMINU32 \<Rightarrow> word_of_int (min (uint a) (uint b)) | AC_AMOMAXU32 \<Rightarrow> word_of_int (max (uint a) (uint b)) | _ \<Rightarrow> 0)"

definition amo_spec64 :: "AccessControl \<Rightarrow> u64 \<Rightarrow> u64 \<Rightarrow> u64" where
  "amo_spec64 ctl a b = (case ctl of
     AC_AMOSWAP64 \<Rightarrow> b | AC_AMOADD64 \<Rightarrow> word_of_int (uint a + uint b)
   | AC_AMOXOR64 \<Rightarrow> a XOR b | AC_AMOAND64 \<Rightarrow> a AND b | AC_AMOOR64 \<Rightarrow> a OR b
   | AC_AMOMIN64 \<Rightarrow> word_of_int (min (sint a) (sint b)) | AC_AMOMAX64 \<Rightarrow> word_of_int (max (sint a) (sint b))
   | AC_AMOMINU64 \<Rightarrow> word_of_int (min (uint a) (uint b)) | AC_AMOMAXU64 \<Rightarrow> word_of_int (max (uint a) (uint b)) | _ \<Rightarrow> 0)"

lemma amo_operations_spec: "amo32_operations ctl x y = amo_spec32 ctl x y" "amo64_operations ctl a b = amo_spec64 ctl a b"
  by (cases ctl; simp add: amo32_operations_def amo64_operations_def amo_spec32_def amo_spec64_def
      word_sless_alt word_less_def min_def max_def not_less)+

lemma ac_codes: "ac_between AC_AMOSWAP32 ctl AC_AMOMAXU32 \<Longrightarrow> ctl \<notin> {AC_CACHE_OP, AC_LR32, AC_SC32, AC_LR64, AC_SC64}"
  "ac_between AC_AMOSWAP64 ctl AC_AMOMAXU64 \<Longrightarrow> ctl \<notin> {AC_CACHE_OP, AC_LR32, AC_SC32, AC_LR64, AC_SC64} \<and> \<not> ac_between AC_AMOSWAP32 ctl AC_AMOMAXU32"
  by (auto simp: ac_between_def)

text \<open>Aligned words never wrap around the end of the address space.\<close>

lemma aligned_not_wrapped: "(a :: u64) mod 4 = 0 \<Longrightarrow> a + 3 \<noteq> 0" "(a :: u64) mod 8 = 0 \<Longrightarrow> a + 7 \<noteq> 0"
proof -
  have "a + 3 = 0 \<Longrightarrow> a = 0xFFFFFFFFFFFFFFFD" "a + 7 = 0 \<Longrightarrow> a = 0xFFFFFFFFFFFFFFF9"
    by (simp_all add: add_eq_0_iff2)
  moreover have "(0xFFFFFFFFFFFFFFFD :: u64) mod 4 \<noteq> 0" "(0xFFFFFFFFFFFFFFF9 :: u64) mod 8 \<noteq> 0" by code_simp+
  ultimately show "a mod 4 = 0 \<Longrightarrow> a + 3 \<noteq> 0" "a mod 8 = 0 \<Longrightarrow> a + 7 \<noteq> 0" by metis+
qed

context core_memory
begin

abbreviation "E \<equiv> fm_endian (mem_data env)"

lemma on_mem_read32:
  assumes "inv (mem c)" "admits (aw_addr t) 4"
  shows "\<exists>m. on_mem (read_u32 (host_endian env) (mem_data env) t AE_REGULAR) c =
      (c\<lparr>mem := m\<rparr>, Inr (bytes_value E (load_bytes (view (mem c)) (aw_addr t) 4))) \<and> inv m \<and> view m = view (mem c)"
  using data.read_generic_contract [OF assms(1), where a = t and host = "host_endian env" and 'a = 32] assms(2)
  by (auto simp: on_mem_def read_u32_def)

lemma on_mem_read64:
  assumes "inv (mem c)" "admits (aw_addr t) 8"
  shows "\<exists>m. on_mem (read_u64 (host_endian env) (mem_data env) t AE_REGULAR) c =
      (c\<lparr>mem := m\<rparr>, Inr (bytes_value E (load_bytes (view (mem c)) (aw_addr t) 8))) \<and> inv m \<and> view m = view (mem c)"
  using data.read_generic_contract [OF assms(1), where a = t and host = "host_endian env" and 'a = 64] assms(2)
  by (auto simp: on_mem_def read_u64_def)

lemma on_mem_write32:
  assumes "inv (mem c)" "admits (aw_addr t) 4"
  shows "\<exists>m b. on_mem (write_u32 (host_endian env) (mem_data env) t v AE_REGULAR) c = (c\<lparr>mem := m\<rparr>, Inr b) \<and> inv m \<and>
    view m = store_bytes (view (mem c)) (aw_addr t) (value_bytes E v)"
  using data.write_generic_contract [OF assms(1), where a = t and host = "host_endian env" and v = v] assms(2)
  by (auto simp: on_mem_def write_u32_def)

lemma on_mem_write64:
  assumes "inv (mem c)" "admits (aw_addr t) 8"
  shows "\<exists>m b. on_mem (write_u64 (host_endian env) (mem_data env) t v AE_REGULAR) c = (c\<lparr>mem := m\<rparr>, Inr b) \<and> inv m \<and>
    view m = store_bytes (view (mem c)) (aw_addr t) (value_bytes E v)"
  using data.write_generic_contract [OF assms(1), where a = t and host = "host_endian env" and v = v] assms(2)
  by (auto simp: on_mem_def write_u64_def)

lemma amo32:
  assumes "inv (mem c)" "admits (aw_addr t) 4" "ac_between AC_AMOSWAP32 ctl AC_AMOMAXU32"
  defines "old \<equiv> bytes_value E (load_bytes (view (mem c)) (aw_addr t) 4)"
  shows "\<exists>m. memory_special env ctl True True v rt t c = (c\<lparr>mem := m\<rparr>, Inr (of_i32 old)) \<and> inv m \<and>
    view m = store_bytes (view (mem c)) (aw_addr t) (value_bytes E (amo_spec32 ctl old (as_u32 rt)))"
proof -
  obtain m1 where m1: "on_mem (read_u32 (host_endian env) (mem_data env) t AE_REGULAR) c = (c\<lparr>mem := m1\<rparr>, Inr old)"
    "inv m1" "view m1 = view (mem c)" using on_mem_read32 [OF assms(1,2)] unfolding old_def by blast
  obtain m2 b where m2: "on_mem (write_u32 (host_endian env) (mem_data env) t (amo_spec32 ctl old (as_u32 rt)) AE_REGULAR) (c\<lparr>mem := m1\<rparr>) =
      (c\<lparr>mem := m2\<rparr>, Inr b)" "inv m2" "view m2 = store_bytes (view (mem c)) (aw_addr t) (value_bytes E (amo_spec32 ctl old (as_u32 rt)))"
    using on_mem_write32 [of "c\<lparr>mem := m1\<rparr>" t "amo_spec32 ctl old (as_u32 rt)"] assms(2) m1(2,3) by auto
  have "memory_special env ctl True True v rt t c = (c\<lparr>mem := m2\<rparr>, Inr (of_i32 old))"
    using ac_codes(1) [OF assms(3)] assms(3) m1(1) m2(1) by (simp add: memory_special_def Let_def amo_operations_spec)
  then show ?thesis using m2 by blast
qed

lemma amo64:
  assumes "inv (mem c)" "admits (aw_addr t) 8" "ac_between AC_AMOSWAP64 ctl AC_AMOMAXU64"
  defines "old \<equiv> bytes_value E (load_bytes (view (mem c)) (aw_addr t) 8)"
  shows "\<exists>m. memory_special env ctl True True v rt t c = (c\<lparr>mem := m\<rparr>, Inr old) \<and> inv m \<and>
    view m = store_bytes (view (mem c)) (aw_addr t) (value_bytes E (amo_spec64 ctl old rt))"
proof -
  obtain m1 where m1: "on_mem (read_u64 (host_endian env) (mem_data env) t AE_REGULAR) c = (c\<lparr>mem := m1\<rparr>, Inr old)"
    "inv m1" "view m1 = view (mem c)" using on_mem_read64 [OF assms(1,2)] unfolding old_def by blast
  obtain m2 b where m2: "on_mem (write_u64 (host_endian env) (mem_data env) t (amo_spec64 ctl old rt) AE_REGULAR) (c\<lparr>mem := m1\<rparr>) =
      (c\<lparr>mem := m2\<rparr>, Inr b)" "inv m2" "view m2 = store_bytes (view (mem c)) (aw_addr t) (value_bytes E (amo_spec64 ctl old rt))"
    using on_mem_write64 [of "c\<lparr>mem := m1\<rparr>" t "amo_spec64 ctl old rt"] assms(2) m1(2,3) by auto
  have "memory_special env ctl True True v rt t c = (c\<lparr>mem := m2\<rparr>, Inr old)"
    using ac_codes(2) [OF assms(3)] assms(3) m1(1) m2(1) by (simp add: memory_special_def Let_def amo_operations_spec as_u64_def)
  then show ?thesis using m2 by blast
qed

text \<open>Load-reserved, then store-conditional.\<close>

lemma load_reserved32:
  assumes "inv (mem c)" "admits (aw_addr t) 4"
  shows "\<exists>m. memory_special env AC_LR32 True wr v rt t c =
      (c\<lparr>LoadReservedRange := \<lparr>ar_first = aw_addr t, ar_last = aw_addr t + 3\<rparr>, mem := m\<rparr>,
       Inr (of_i32 (bytes_value E (load_bytes (view (mem c)) (aw_addr t) 4)))) \<and> inv m \<and> view m = view (mem c)"
  using on_mem_read32 [of "c\<lparr>LoadReservedRange := \<lparr>ar_first = aw_addr t, ar_last = aw_addr t + 3\<rparr>\<rparr>" t] assms
  by (auto simp: memory_special_def Let_def reserve_def core_modify_def act_bind_def)

lemma store_conditional32:
  assumes "inv (mem c)" "admits (aw_addr t) 4" "ar_contains (LoadReservedRange c) \<lparr>ar_first = aw_addr t, ar_last = aw_addr t + 3\<rparr>"
  shows "\<exists>m. memory_special env AC_SC32 rd True v rt t c = (c\<lparr>mem := m, LoadReservedRange := ar_reset\<rparr>, Inr 0) \<and> inv m \<and>
    view m = store_bytes (view (mem c)) (aw_addr t) (value_bytes E (as_u32 rt))"
  using on_mem_write32 [OF assms(1,2), of "as_u32 rt"] assms(3)
  by (auto simp: memory_special_def Let_def reset_reservation_def core_modify_def core_get_def act_bind_def)

lemma store_conditional32_fails:
  assumes "\<not> ar_contains (LoadReservedRange c) \<lparr>ar_first = aw_addr t, ar_last = aw_addr t + 3\<rparr>"
  shows "memory_special env AC_SC32 rd True v rt t c = (c\<lparr>LoadReservedRange := ar_reset\<rparr>, Inr 1)"
  using assms by (simp add: memory_special_def Let_def reset_reservation_def core_modify_def core_get_def act_bind_def)

end

lemma no_reservation: "(a :: address) + 3 \<noteq> 0 \<Longrightarrow> \<not> ar_contains ar_reset \<lparr>ar_first = a, ar_last = a + 3\<rparr>"
  by (simp add: ar_contains_def ar_reset_def)

text \<open>
  Claim C8: load-reserved and store-conditional implement the reservation protocol.  After a
  load-reserved, which returns the sign-extended word, the next store-conditional to the same
  aligned word succeeds: it stores its value and returns 0; a second one without a new
  reservation fails: it returns 1 and changes nothing.
\<close>

theorem lr_sc_protocol:
  assumes "core_memory env minv view admits" "minv (mem c)" "admits (aw_addr t) 4" "aw_addr t mod 4 = 0"
    "aw_addr t' = aw_addr t" "aw_addr t'' = aw_addr t"
  shows "\<exists>c1 c2 c3. memory_special env AC_LR32 True False v rt t c =
      (c1, Inr (of_i32 (bytes_value (fm_endian (mem_data env)) (load_bytes (view (mem c)) (aw_addr t) 4)))) \<and> view (mem c1) = view (mem c) \<and>
    memory_special env AC_SC32 True True v' x t' c1 = (c2, Inr 0) \<and>
    view (mem c2) = store_bytes (view (mem c)) (aw_addr t) (value_bytes (fm_endian (mem_data env)) (as_u32 x)) \<and>
    memory_special env AC_SC32 True True v'' y t'' c2 = (c3, Inr 1) \<and> mem c3 = mem c2"
proof -
  note laws = core_memory.load_reserved32 [OF assms(1)] core_memory.store_conditional32 [OF assms(1)] core_memory.store_conditional32_fails [OF assms(1)]
  have wrap: "aw_addr t + 3 \<noteq> 0" using assms(4) by (rule aligned_not_wrapped(1))
  let ?r = "\<lparr>ar_first = aw_addr t, ar_last = aw_addr t + 3\<rparr>"
  obtain m1 where m1: "memory_special env AC_LR32 True False v rt t c = (c\<lparr>LoadReservedRange := ?r, mem := m1\<rparr>,
      Inr (of_i32 (bytes_value (fm_endian (mem_data env)) (load_bytes (view (mem c)) (aw_addr t) 4))))" "minv m1" "view m1 = view (mem c)"
    using laws(1) [OF assms(2,3)] by blast
  define c1 where "c1 = c\<lparr>LoadReservedRange := ?r, mem := m1\<rparr>"
  have "minv (mem c1)" "admits (aw_addr t') 4" "ar_contains (LoadReservedRange c1) \<lparr>ar_first = aw_addr t', ar_last = aw_addr t' + 3\<rparr>"
    using m1 assms(3,5) by (simp_all add: c1_def ar_contains_def)
  from laws(2) [OF this] obtain m2 where m2: "memory_special env AC_SC32 True True v' x t' c1 = (c1\<lparr>mem := m2, LoadReservedRange := ar_reset\<rparr>, Inr 0)"
    "view m2 = store_bytes (view (mem c1)) (aw_addr t') (value_bytes (fm_endian (mem_data env)) (as_u32 x))" by blast
  define c2 where "c2 = c1\<lparr>mem := m2, LoadReservedRange := ar_reset\<rparr>"
  have "\<not> ar_contains (LoadReservedRange c2) \<lparr>ar_first = aw_addr t'', ar_last = aw_addr t'' + 3\<rparr>"
    using no_reservation [OF wrap] assms(6) by (simp add: c2_def)
  note m3 = laws(3) [OF this]
  show ?thesis
    using m1 m2 m3 [of True v'' y] assms(5) by (intro exI [of _ c1] exI [of _ c2] exI [of _ "c2\<lparr>LoadReservedRange := ar_reset\<rparr>"])
      (simp add: c1_def c2_def)
qed

lemma ram_admits_word: "ram.on_bus_admits 0x200 4"
  unfolding ram.on_bus_admits_def by (simp add: range_contains_def ram_range_def memory_admits_def memory_constants)

theorem lr_sc_protocol_witness:
  "\<exists>c1 c2 c3. memory_special (ram_env XLEN_32) AC_LR32 True False 0 0 (plain_address 0x200) addi_core = (c1, Inr 0x00500093) \<and>
    memory_special (ram_env XLEN_32) AC_SC32 True True 0 5 (plain_address 0x200) c1 = (c2, Inr 0) \<and>
    ram.on_bus_view (mem c2) 0x200 = 5 \<and>
    memory_special (ram_env XLEN_32) AC_SC32 True True 0 6 (plain_address 0x200) c2 = (c3, Inr 1)"
proof -
  have e: "fm_endian (mem_data (ram_env XLEN_32)) = LITTLE" by (simp add: ram_env_def bus_ops_def)
  have w: "of_i32 (bytes_value LITTLE (load_bytes (ram.on_bus_view (mem addi_core)) 0x200 4)) = 0x00500093"
    by (simp add: addi_core_holds addi_memory_holds(2) bytes_value_def of_i32_def push_bit_eq_mult)
  have s: "store_bytes f 0x200 (value_bytes LITTLE (as_u32 5)) 0x200 = 5" for f :: "u64 \<Rightarrow> byte"
    by (simp add: value_bytes_def le_bytes_def upt_rec as_u32_def)
  show ?thesis
    using lr_sc_protocol [OF ram_machine.core_memory_axioms, of addi_core "plain_address 0x200" "plain_address 0x200" "plain_address 0x200" XLEN_32 0 0 0 5 0 6]
      ram_admits_word addi_memory_holds(1) s by (auto simp: addi_core_holds(2) e w [unfolded addi_core_holds(2)])
qed

text \<open>
  Claim C9: the read-modify-write instructions are atomic updates: they return the old value of
  the word (sign-extended) or double word and leave in memory what the instruction's operation
  makes of it and of the register, and nothing else changes.
\<close>

theorem amo_read_modify_write:
  assumes "core_memory env minv view admits" "minv (mem c)"
  shows "(admits (aw_addr t) 4 \<and> ac_between AC_AMOSWAP32 ctl AC_AMOMAXU32 \<longrightarrow>
      (let old = bytes_value (fm_endian (mem_data env)) (load_bytes (view (mem c)) (aw_addr t) 4) in
       \<exists>m. memory_special env ctl True True v rt t c = (c\<lparr>mem := m\<rparr>, Inr (of_i32 old)) \<and> minv m \<and>
         view m = store_bytes (view (mem c)) (aw_addr t) (value_bytes (fm_endian (mem_data env)) (amo_spec32 ctl old (as_u32 rt))))) \<and>
    (admits (aw_addr t) 8 \<and> ac_between AC_AMOSWAP64 ctl AC_AMOMAXU64 \<longrightarrow>
      (let old = bytes_value (fm_endian (mem_data env)) (load_bytes (view (mem c)) (aw_addr t) 8) in
       \<exists>m. memory_special env ctl True True v rt t c = (c\<lparr>mem := m\<rparr>, Inr old) \<and> minv m \<and>
         view m = store_bytes (view (mem c)) (aw_addr t) (value_bytes (fm_endian (mem_data env)) (amo_spec64 ctl old rt))))"
  using core_memory.amo32 [OF assms, of t ctl v rt] core_memory.amo64 [OF assms, of t ctl v rt] unfolding Let_def by blast

theorem amo_read_modify_write_witness:
  "\<exists>m. memory_special (ram_env XLEN_32) AC_AMOADD32 True True 0 1 (plain_address 0x200) addi_core =
     (addi_core\<lparr>mem := m\<rparr>, Inr 0x00500093) \<and> ram.on_bus_view m 0x200 = 0x94"
proof -
  have e: "fm_endian (mem_data (ram_env XLEN_32)) = LITTLE" by (simp add: ram_env_def bus_ops_def)
  have s: "store_bytes f 0x200 (value_bytes LITTLE (0x00500094 :: u32)) 0x200 = 0x94" for f :: "u64 \<Rightarrow> byte"
    by (simp add: value_bytes_def le_bytes_def upt_rec)
  have w: "(bytes_value LITTLE [0x93, 0, 0x50, 0] :: u32) = 0x00500093" by (simp add: bytes_value_def push_bit_eq_mult)
  show ?thesis
    using amo_read_modify_write [OF ram_machine.core_memory_axioms, of addi_core "plain_address 0x200" AC_AMOADD32 XLEN_32 0 1]
      ram_admits_word addi_memory_holds s
    by (auto simp: addi_core_holds(2) e w Let_def ac_between_def amo_spec32_def of_i32_def as_u32_def)
qed

end
