(* ===== verification/Tlb_Policy.thy ===== *)
theory Tlb_Policy
  imports Cache_Policy
begin

text \<open>
  Replacement policies of the translation lookaside buffer
  (\<^verbatim>\<open>src/src/machine/memory/tlb/tlb_policy.cpp\<close>): random, least recently used, least frequently
  used and tree pseudo-LRU.  They are classes of their own, with loops that differ from the
  ones of the cache; the least recently used policy is shown to be the queue of the cache's, and
  all of them satisfy the interface \<open>replacement_policy\<close>.  The vectors are indexed without a
  check: the invariant is what keeps every index in range.
\<close>

section \<open>The policy objects\<close>

datatype TLBPolicyKind = TPK_RAND | TPK_LRU | TPK_LFU | TPK_PLRU

datatype TLBPolicy =
    TLBPolicyRAND
  | TLBPolicyLRU "nat list list"
  | TLBPolicyLFU "u32 list list"
  | TLBPolicyPLRU "nat list list"

definition tlb_lru_new :: "nat \<Rightarrow> nat \<Rightarrow> nat list list" where
  "tlb_lru_new assoc sets = replicate sets [0..<assoc]"

definition tlb_lfu_new :: "nat \<Rightarrow> nat \<Rightarrow> u32 list list" where
  "tlb_lfu_new assoc sets = replicate sets (replicate assoc 0)"

definition tlb_plru_new :: "nat \<Rightarrow> nat \<Rightarrow> nat list list" where
  "tlb_plru_new assoc sets = replicate sets (replicate (2 ^ clog2 assoc - 1) 0)"

definition make_tlb_policy :: "TLBPolicyKind \<Rightarrow> nat \<Rightarrow> nat \<Rightarrow> TLBPolicy" where
  "make_tlb_policy kind associativity set_count = (case kind of
     TPK_RAND \<Rightarrow> TLBPolicyRAND
   | TPK_LRU \<Rightarrow> TLBPolicyLRU (tlb_lru_new associativity set_count)
   | TPK_LFU \<Rightarrow> TLBPolicyLFU (tlb_lfu_new associativity set_count)
   | TPK_PLRU \<Rightarrow> TLBPolicyPLRU (tlb_plru_new associativity set_count))"

section \<open>Least recently used\<close>

text \<open>
  The first argument counts the elements that the index has still to visit; \<open>next_way\<close> is the
  value that the swap carries to the next position.
\<close>

fun tlb_lru_back :: "nat \<Rightarrow> nat list \<Rightarrow> nat \<Rightarrow> nat \<Rightarrow> nat list" where
  "tlb_lru_back 0 row next_way way = row"
| "tlb_lru_back (Suc i) row next_way way =
     (let out = row ! i; row = row[i := next_way] in
      if out = way then row else tlb_lru_back i row out way)"

fun tlb_lru_front :: "nat list \<Rightarrow> nat \<Rightarrow> nat \<Rightarrow> nat list" where
  "tlb_lru_front [] next_way way = []"
| "tlb_lru_front (out # row) next_way way =
     (if out = way then next_way # row else next_way # tlb_lru_front row out way)"

definition tlb_lru_notify :: "nat list list \<Rightarrow> nat \<Rightarrow> nat \<Rightarrow> bool \<Rightarrow> nat list list" where
  "tlb_lru_notify stats set_idx way is_valid =
     (let row = stats ! set_idx in
      stats[set_idx := (if is_valid then tlb_lru_back (length row) row way way else tlb_lru_front row way way)])"

definition tlb_lru_select :: "nat list list \<Rightarrow> nat \<Rightarrow> nat" where
  "tlb_lru_select stats set_idx = stats ! set_idx ! 0"

section \<open>Least frequently used\<close>

fun tlb_lfu_loop :: "u32 list \<Rightarrow> nat \<Rightarrow> nat \<Rightarrow> u32 \<Rightarrow> nat" where
  "tlb_lfu_loop [] i idx minv = idx"
| "tlb_lfu_loop (s # ss) i idx minv =
     (if s = 0 \<or> s < minv then if s = 0 then i else tlb_lfu_loop ss (i + 1) i s
      else tlb_lfu_loop ss (i + 1) idx minv)"

definition tlb_lfu_select :: "u32 list list \<Rightarrow> nat \<Rightarrow> nat" where
  "tlb_lfu_select stats set_idx = tlb_lfu_loop (tl (stats ! set_idx)) 1 0 (stats ! set_idx ! 0)"

definition tlb_lfu_notify :: "u32 list list \<Rightarrow> nat \<Rightarrow> nat \<Rightarrow> bool \<Rightarrow> u32 list list" where
  "tlb_lfu_notify stats set_idx way is_valid =
     stats[set_idx := (stats ! set_idx)[way := (if is_valid then stats ! set_idx ! way + 1 else 0)]]"

section \<open>Pseudo least recently used\<close>

function tlb_plru_select_loop :: "nat \<Rightarrow> nat \<Rightarrow> nat \<Rightarrow> nat \<Rightarrow> nat list \<Rightarrow> nat" where
  "tlb_plru_select_loop c_log lvl idx node bits =
     (if lvl < c_log then
        let idx = 2 * idx + bits ! node in
        tlb_plru_select_loop c_log (lvl + 1) idx ((2 ^ (lvl + 1) - 1) + idx) bits
      else idx)"
  by pat_completeness auto
termination by (relation "measure (\<lambda>(c, l, x, p, r). c - l)") auto

function tlb_plru_notify_loop :: "nat \<Rightarrow> nat \<Rightarrow> nat \<Rightarrow> nat \<Rightarrow> nat list \<Rightarrow> nat list" where
  "tlb_plru_notify_loop c_log way lvl node bits =
     (if lvl < c_log then
        let dir = way div 2 ^ (c_log - lvl - 1) mod 2 in
        tlb_plru_notify_loop c_log way (lvl + 1) ((2 ^ (lvl + 1) - 1) + (if dir \<noteq> 0 then 1 else 0))
          (bits[node := (if dir \<noteq> 0 then 0 else 1)])
      else bits)"
  by pat_completeness auto
termination by (relation "measure (\<lambda>(c, w, l, p, r). c - l)") auto

declare tlb_plru_select_loop.simps [simp del] tlb_plru_notify_loop.simps [simp del]

definition tlb_plru_select :: "nat \<Rightarrow> nat list list \<Rightarrow> nat \<Rightarrow> nat" where
  "tlb_plru_select associativity tree set_idx =
     min (tlb_plru_select_loop (clog2 associativity) 0 0 0 (tree ! set_idx)) (associativity - 1)"

definition tlb_plru_notify :: "nat \<Rightarrow> nat list list \<Rightarrow> nat \<Rightarrow> nat \<Rightarrow> nat list list" where
  "tlb_plru_notify associativity tree set_idx way =
     tree[set_idx := tlb_plru_notify_loop (clog2 associativity) way 0 0 (tree ! set_idx)]"

section \<open>Dispatch\<close>

definition notify_access :: "nat \<Rightarrow> TLBPolicy \<Rightarrow> nat \<Rightarrow> nat \<Rightarrow> bool \<Rightarrow> TLBPolicy" where
  "notify_access associativity p set_idx way is_valid = (case p of
     TLBPolicyRAND \<Rightarrow> TLBPolicyRAND
   | TLBPolicyLRU s \<Rightarrow> TLBPolicyLRU (tlb_lru_notify s set_idx way is_valid)
   | TLBPolicyLFU s \<Rightarrow> TLBPolicyLFU (tlb_lfu_notify s set_idx way is_valid)
   | TLBPolicyPLRU s \<Rightarrow> TLBPolicyPLRU (tlb_plru_notify associativity s set_idx way))"

text \<open>The selected way, and the number of \<^verbatim>\<open>rand\<close> calls made so far.\<close>

definition select_way :: "(nat \<Rightarrow> nat) \<Rightarrow> nat \<Rightarrow> TLBPolicy \<Rightarrow> nat \<Rightarrow> nat \<Rightarrow> nat \<times> nat" where
  "select_way rnd associativity p calls set_idx = (case p of
     TLBPolicyRAND \<Rightarrow> (rnd calls mod associativity, calls + 1)
   | TLBPolicyLRU s \<Rightarrow> (tlb_lru_select s set_idx, calls)
   | TLBPolicyLFU s \<Rightarrow> (tlb_lfu_select s set_idx, calls)
   | TLBPolicyPLRU s \<Rightarrow> (tlb_plru_select associativity s set_idx, calls))"

section \<open>Lemmas\<close>

lemma ball_list_update: "\<forall>x \<in> set xs. P x \<Longrightarrow> P y \<Longrightarrow> \<forall>x \<in> set (xs[i := y]). P x"
  using set_update_subset_insert [of xs i y] by blast

text \<open>The two passes over a row are the ones of the cache's policy.\<close>

lemma tlb_lru_back_eq: "lru_to_back row i next_way way = Inr r \<Longrightarrow> tlb_lru_back i row next_way way = r"
  by (induction row i next_way way rule: lru_to_back.induct) (auto simp: Let_def split: if_splits)

lemma tlb_lru_front_eq:
  "lru_to_front (pre @ row) (length pre) next_way way = Inr r \<Longrightarrow> pre @ tlb_lru_front row next_way way = r"
proof (induction row arbitrary: pre next_way)
  case Nil
  then show ?case by (simp add: lru_to_front.simps)
next
  case (Cons out row)
  from Cons.prems have step: "(if out = way then Inr (pre @ next_way # row)
      else lru_to_front ((pre @ [next_way]) @ row) (length (pre @ [next_way])) out way) = Inr r"
    by (subst (asm) lru_to_front.simps) (auto simp: Let_def nth_append list_update_append)
  show ?case
  proof (cases "out = way")
    case True
    then show ?thesis using step by simp
  next
    case False
    then have "(pre @ [next_way]) @ tlb_lru_front row out way = r" using step by (intro Cons.IH) simp
    then show ?thesis using False by simp
  qed
qed

lemma tlb_lru_notify_eq:
  assumes "lru_inv ways rows stats" "way < ways" "row < rows"
  shows "lru_update_stats ways stats way row v = Inr (tlb_lru_notify stats row way v)"
proof -
  note q = lru_inv_row [OF assms(1,3)]
  have w: "way \<in> set (stats ! row)" using q(2) assms(2) by simp
  have "tlb_lru_back (length (stats ! row)) (stats ! row) way way = remove1 way (stats ! row) @ [way]"
    by (rule tlb_lru_back_eq [OF lru_to_back_eq]) (use q w in auto)
  moreover have "tlb_lru_front (stats ! row) way way = way # remove1 way (stats ! row)"
    using tlb_lru_front_eq [of "[]"] lru_to_front_eq [OF q(1) w] by simp
  ultimately show ?thesis by (simp add: lru_update_eq [OF assms] tlb_lru_notify_def)
qed

lemma tlb_lfu_loop_bound: "idx < n \<Longrightarrow> i + length ss \<le> n \<Longrightarrow> tlb_lfu_loop ss i idx minv < n"
  by (induction ss i idx minv rule: tlb_lfu_loop.induct) auto

lemma tlb_plru_notify_bits:
  "set bits \<subseteq> {0, 1} \<Longrightarrow> set (tlb_plru_notify_loop c way lvl node bits) \<subseteq> {0, 1} \<and>
   length (tlb_plru_notify_loop c way lvl node bits) = length bits"
proof (induction c way lvl node bits rule: tlb_plru_notify_loop.induct)
  case (1 c way lvl node bits)
  have "set (bits[node := b]) \<subseteq> {0, 1}" if "b \<in> {0, 1}" for b
    using 1(2) that by (meson insert_subset order_trans set_update_subset_insert)
  then show ?case using 1 by (subst (1 2) tlb_plru_notify_loop.simps) (auto simp: Let_def)
qed

fun tlb_policy_inv :: "nat \<Rightarrow> nat \<Rightarrow> TLBPolicy \<Rightarrow> bool" where
  "tlb_policy_inv ways rows TLBPolicyRAND = True"
| "tlb_policy_inv ways rows (TLBPolicyLRU s) = lru_inv ways rows s"
| "tlb_policy_inv ways rows (TLBPolicyLFU s) = lfu_inv ways rows s"
| "tlb_policy_inv ways rows (TLBPolicyPLRU s) = plru_inv ways rows s"

lemma tlb_policy_new_inv: "0 < ways \<Longrightarrow> tlb_policy_inv ways rows (make_tlb_policy kind ways rows)"
  by (cases kind) (auto simp: make_tlb_policy_def lru_inv_def tlb_lru_new_def lfu_inv_def tlb_lfu_new_def plru_inv_def
      tlb_plru_new_def)

lemma tlb_notify_inv:
  assumes "tlb_policy_inv ways rows p" "way < ways" "row < rows"
  shows "tlb_policy_inv ways rows (notify_access ways p row way v)"
proof (cases p)
  case (TLBPolicyLRU s)
  then show ?thesis using assms lru.upd_ok [of ways rows s way row v]
    by (auto simp: notify_access_def tlb_lru_notify_eq)
next
  case (TLBPolicyLFU s)
  then have s: "length s = rows" "\<forall>q \<in> set s. length q = ways" using assms by (simp_all add: lfu_inv_def)
  then have "length (s ! row) = ways" using assms(3) nth_mem [of row s] by simp
  then have "\<forall>q \<in> set (tlb_lfu_notify s row way v). length q = ways"
    unfolding tlb_lfu_notify_def by (intro ball_list_update [OF s(2)]) simp
  then show ?thesis using s(1) by (simp add: TLBPolicyLFU notify_access_def lfu_inv_def tlb_lfu_notify_def)
next
  case (TLBPolicyPLRU s)
  then have s: "plru_inv ways rows s" using assms by simp
  note row = plru_inv_row [OF this assms(3)]
  have "\<forall>q \<in> set (tlb_plru_notify ways s row way). length q = 2 ^ clog2 ways - 1 \<and> set q \<subseteq> {0, 1}"
    unfolding tlb_plru_notify_def
    by (rule ball_list_update) (use s row(2) tlb_plru_notify_bits [OF row(3)] in \<open>simp_all add: plru_inv_def\<close>)
  then show ?thesis using s by (simp add: TLBPolicyPLRU notify_access_def plru_inv_def tlb_plru_notify_def)
qed (use assms in \<open>simp add: notify_access_def\<close>)

lemma tlb_select_bound:
  assumes "tlb_policy_inv ways rows p" "0 < ways" "row < rows"
  shows "fst (select_way rnd ways p calls row) < ways"
proof (cases p)
  case (TLBPolicyLRU s)
  then have "length (s ! row) = ways" "set (s ! row) = {..<ways}" using assms lru_inv_row [of ways rows s row] by simp_all
  then show ?thesis using TLBPolicyLRU assms(2) nth_mem [of 0 "s ! row"]
    by (simp add: select_way_def tlb_lru_select_def)
next
  case (TLBPolicyLFU s)
  then have "length (s ! row) = ways" using assms nth_mem [of row s] by (auto simp: lfu_inv_def)
  then show ?thesis using TLBPolicyLFU assms(2)
    by (auto simp: select_way_def tlb_lfu_select_def intro!: tlb_lfu_loop_bound)
qed (use assms in \<open>auto simp: select_way_def tlb_plru_select_def\<close>)

interpretation tlb_policy: replacement_policy "\<lambda>p way row v. Inr (notify_access ways p row way v)"
    "\<lambda>p calls row. Inr (select_way rnd ways p calls row)"
    "\<lambda>p. 0 < ways \<and> tlb_policy_inv ways rows p" ways rows for rnd ways rows
proof unfold_locales
  fix p row calls assume "0 < ways \<and> tlb_policy_inv ways rows p" "row < rows"
  then show "\<exists>way calls'. Inr (select_way rnd ways p calls row) = (Inr (way, calls') :: (nat \<times> nat) result) \<and> way < ways"
    using tlb_select_bound [of ways rows p row rnd calls] by (cases "select_way rnd ways p calls row") simp
qed (simp add: tlb_notify_inv)

section \<open>The tree of the pseudo least recently used policy\<close>

text \<open>Three levels, unrolled: the update reaches only the first five of the seven tree bits.\<close>

lemma clog2_8: "clog2 8 = 3"
  by (simp add: clog2_def numeral_eq_Suc)

lemma tlb_plru_notify_8:
  "tlb_plru_notify_loop 3 way 0 0 bits ! 5 = bits ! 5 \<and> tlb_plru_notify_loop 3 way 0 0 bits ! 6 = bits ! 6"
  by (simp add: tlb_plru_notify_loop.simps [of 3 way 0] tlb_plru_notify_loop.simps [of 3 way "Suc 0"]
      tlb_plru_notify_loop.simps [of 3 way "Suc (Suc 0)"] tlb_plru_notify_loop.simps [of 3 way "Suc (Suc (Suc 0))"] Let_def nth_list_update)

lemma tlb_plru_select_8:
  assumes "bits ! 5 = 0" "bits ! 6 = 0" "length bits = 7" "set bits \<subseteq> {0, 1}"
  shows "tlb_plru_select_loop 3 0 0 0 bits \<in> {0, 1, 2, 3, 4, 6}"
proof -
  from assms(3) obtain b0 b1 b2 b3 b4 b5 b6 where bits: "bits = [b0, b1, b2, b3, b4, b5, b6]"
    by (auto simp: numeral_eq_Suc length_Suc_conv)
  have "b0 \<in> {0, 1}" "b1 \<in> {0, 1}" "b2 \<in> {0, 1}" "b3 \<in> {0, 1}" "b4 \<in> {0, 1}" "b5 = 0" "b6 = 0"
    using assms(1,2,4) by (simp_all add: bits)
  then show ?thesis
    by (auto simp: bits tlb_plru_select_loop.simps [of 3 0] tlb_plru_select_loop.simps [of 3 "Suc 0"]
        tlb_plru_select_loop.simps [of 3 "Suc (Suc 0)"] tlb_plru_select_loop.simps [of 3 "Suc (Suc (Suc 0))"] Let_def)
qed

definition tlb_notifies :: "nat \<Rightarrow> TLBPolicy \<Rightarrow> (nat \<times> nat \<times> bool) list \<Rightarrow> TLBPolicy" where
  "tlb_notifies ways = foldl (\<lambda>p (row, way, v). notify_access ways p row way v)"

lemma tlb_plru_never_writes:
  assumes "plru_inv 8 rows s" "\<forall>r < rows. s ! r ! 5 = 0 \<and> s ! r ! 6 = 0"
    "\<forall>(row, way, v) \<in> set us. row < rows \<and> way < 8"
  shows "\<exists>s'. tlb_notifies 8 (TLBPolicyPLRU s) us = TLBPolicyPLRU s' \<and> plru_inv 8 rows s' \<and>
    (\<forall>r < rows. s' ! r ! 5 = 0 \<and> s' ! r ! 6 = 0)"
  using assms
proof (induction us arbitrary: s)
  case (Cons u us)
  obtain row way v where u: "u = (row, way, v)" by (cases u)
  define s1 where "s1 = tlb_plru_notify 8 s row way"
  have row: "row < rows" "way < 8" using Cons.prems(3) u by auto
  have "plru_inv 8 rows s1"
    using tlb_notify_inv [of 8 rows "TLBPolicyPLRU s" way row v] Cons.prems(1) row
    by (simp add: notify_access_def s1_def)
  moreover have "\<forall>r < rows. s1 ! r ! 5 = 0 \<and> s1 ! r ! 6 = 0"
    using Cons.prems(1,2) row tlb_plru_notify_8 [of way "s ! row"]
    by (auto simp: s1_def tlb_plru_notify_def clog2_8 nth_list_update plru_inv_def)
  ultimately show ?case using Cons.IH [of s1] Cons.prems(3)
    by (auto simp: tlb_notifies_def u notify_access_def s1_def)
qed (simp add: tlb_notifies_def)

section \<open>Properties\<close>

text \<open>
  The pseudo-LRU policy of the TLB starves ways.  In an eight-way TLB, whatever
  sequence of accesses happened before, it never selects way 5 or way 7 of a set, because the
  update computes the tree node of the next level from the last direction alone and so never
  reaches the two tree nodes that distinguish ways 4 and 5 and ways 6 and 7.
\<close>

theorem tlb_plru_starves_ways:
  assumes "\<forall>(row, way, v) \<in> set us. row < rows \<and> way < 8" "row < rows"
  shows "fst (select_way rnd 8 (tlb_notifies 8 (make_tlb_policy TPK_PLRU 8 rows) us) calls row) \<notin> {5, 7}"
proof -
  have inv0: "plru_inv 8 rows (tlb_plru_new 8 rows)"
    using tlb_policy_new_inv [of 8 rows TPK_PLRU] by (simp add: make_tlb_policy_def)
  have "tlb_plru_new 8 rows ! r ! 5 = 0 \<and> tlb_plru_new 8 rows ! r ! 6 = 0" if "r < rows" for r
    using that by (simp add: tlb_plru_new_def clog2_8)
  then obtain s where s: "tlb_notifies 8 (TLBPolicyPLRU (tlb_plru_new 8 rows)) us = TLBPolicyPLRU s"
      "plru_inv 8 rows s" "s ! row ! 5 = 0" "s ! row ! 6 = 0"
    using tlb_plru_never_writes [OF inv0 _ assms(1)] assms(2) by blast
  have "tlb_plru_select_loop 3 0 0 0 (s ! row) \<in> {0, 1, 2, 3, 4, 6}"
    by (rule tlb_plru_select_8) (use s plru_inv_row [OF s(2) assms(2)] in \<open>simp_all add: clog2_8\<close>)
  then show ?thesis using s(1) by (auto simp: make_tlb_policy_def select_way_def tlb_plru_select_def clog2_8)
qed

theorem tlb_plru_starves_ways_witness:
  "fst (select_way (\<lambda>_. 0) 8 (tlb_notifies 8 (make_tlb_policy TPK_PLRU 8 1) [(0, 0, True), (0, 6, True), (0, 2, True)]) 0 0)
     \<notin> {5, 7}"
  by (rule tlb_plru_starves_ways) simp_all

end
