(* ===== verification/Page_Table.thy ===== *)
theory Page_Table
  imports Cache Control_State
begin

text \<open>
  Page tables (\<^verbatim>\<open>src/src/machine/memory/virtual/\<close>): the page table entries of the two paging modes
  (\<^verbatim>\<open>generic_pte.h\<close>, \<^verbatim>\<open>sv32.h\<close>, \<^verbatim>\<open>sv39.h\<close>), the permission check shared with the TLB
  (\<^verbatim>\<open>memory_utils.h\<close>) and the walker (\<^verbatim>\<open>page_table_walker.cpp\<close>).  The specification is a
  translation algorithm on natural numbers; the walker is proved to
  compute it on every memory that satisfies the contract of \<open>frontend_contract\<close>, and the algorithm is compared with the
  one of the privileged architecture, which makes more checks.
\<close>

section \<open>Page table entries\<close>

datatype PagingMode = SV32 | SV39

text \<open>The template parameters and constants of the two modes.\<close>

definition PAGE_SHIFT :: nat where "PAGE_SHIFT = 12"

fun VPN_BITS :: "PagingMode \<Rightarrow> nat" where "VPN_BITS SV32 = 10" | "VPN_BITS SV39 = 9"
fun PPN_BITS :: "PagingMode \<Rightarrow> nat" where "PPN_BITS SV32 = 22" | "PPN_BITS SV39 = 44"

definition VPN_MASK :: "PagingMode \<Rightarrow> u64" where "VPN_MASK pm = push_bit (VPN_BITS pm) 1 - 1"
definition PPN_MASK :: "PagingMode \<Rightarrow> u64" where "PPN_MASK pm = push_bit (PPN_BITS pm) 1 - 1"
definition SATP_PPN_MASK :: "PagingMode \<Rightarrow> u64" where "SATP_PPN_MASK pm = push_bit (PPN_BITS pm) 1 - 1"

fun SATP_MODE_MASK :: "PagingMode \<Rightarrow> u64" where
  "SATP_MODE_MASK SV32 = push_bit 31 1"
| "SATP_MODE_MASK SV39 = push_bit 60 0xF"

fun max_level_idx :: "PagingMode \<Rightarrow> nat" where "max_level_idx SV32 = 1" | "max_level_idx SV39 = 2"

text \<open>\<^verbatim>\<open>sizeof(RawType)\<close>.\<close>

fun raw_pte_size :: "PagingMode \<Rightarrow> nat" where "raw_pte_size SV32 = 4" | "raw_pte_size SV39 = 8"

datatype GenericPte = Sv32Pte (pte_raw: u64) | Sv39Pte (pte_raw: u64)

text \<open>The factories.\<close>

fun pte_factory :: "PagingMode \<Rightarrow> u64 \<Rightarrow> GenericPte" where
  "pte_factory SV32 raw = Sv32Pte raw"
| "pte_factory SV39 raw = Sv39Pte raw"

definition pte_flag :: "nat \<Rightarrow> GenericPte \<Rightarrow> bool" where
  "pte_flag shift pte = (drop_bit shift (pte_raw pte) AND 1 \<noteq> 0)"

definition pte_v :: "GenericPte \<Rightarrow> bool" where "pte_v = pte_flag 0"
definition pte_r :: "GenericPte \<Rightarrow> bool" where "pte_r = pte_flag 1"
definition pte_w :: "GenericPte \<Rightarrow> bool" where "pte_w = pte_flag 2"
definition pte_x :: "GenericPte \<Rightarrow> bool" where "pte_x = pte_flag 3"
definition pte_u :: "GenericPte \<Rightarrow> bool" where "pte_u = pte_flag 4"
definition pte_g :: "GenericPte \<Rightarrow> bool" where "pte_g = pte_flag 5"
definition pte_a :: "GenericPte \<Rightarrow> bool" where "pte_a = pte_flag 6"
definition pte_d :: "GenericPte \<Rightarrow> bool" where "pte_d = pte_flag 7"

definition pte_rsw :: "GenericPte \<Rightarrow> u64" where "pte_rsw pte = drop_bit 8 (pte_raw pte) AND 0x3"

fun pte_ppn :: "GenericPte \<Rightarrow> u64" where
  "pte_ppn (Sv32Pte raw) = drop_bit 10 raw AND PPN_MASK SV32"
| "pte_ppn (Sv39Pte raw) = drop_bit 10 raw AND PPN_MASK SV39"

definition pte_is_leaf :: "GenericPte \<Rightarrow> bool" where "pte_is_leaf pte = (pte_r pte \<or> pte_x pte)"
definition pte_is_valid :: "GenericPte \<Rightarrow> bool" where "pte_is_valid pte = (pte_v pte \<and> (\<not> pte_w pte \<or> pte_r pte))"

text \<open>A PTE from its fields.\<close>

definition sv32_make ::
  "bool \<Rightarrow> bool \<Rightarrow> bool \<Rightarrow> bool \<Rightarrow> bool \<Rightarrow> bool \<Rightarrow> bool \<Rightarrow> bool \<Rightarrow> u64 \<Rightarrow> u64 \<Rightarrow> GenericPte" where
  "sv32_make v r w x u g a d rsw ppn = Sv32Pte
     (push_bit 0 (bool_to_word v) OR push_bit 1 (bool_to_word r) OR push_bit 2 (bool_to_word w) OR
      push_bit 3 (bool_to_word x) OR push_bit 4 (bool_to_word u) OR push_bit 5 (bool_to_word g) OR
      push_bit 6 (bool_to_word a) OR push_bit 7 (bool_to_word d) OR push_bit 8 (rsw AND 0x3) OR
      push_bit 10 (ppn AND PPN_MASK SV32))"

definition sv39_make ::
  "bool \<Rightarrow> bool \<Rightarrow> bool \<Rightarrow> bool \<Rightarrow> bool \<Rightarrow> bool \<Rightarrow> bool \<Rightarrow> bool \<Rightarrow> u64 \<Rightarrow> u64 \<Rightarrow> GenericPte" where
  "sv39_make v r w x u g a d rsw ppn = Sv39Pte
     (push_bit 0 (bool_to_word v) OR push_bit 1 (bool_to_word r) OR push_bit 2 (bool_to_word w) OR
      push_bit 3 (bool_to_word x) OR push_bit 4 (bool_to_word u) OR push_bit 5 (bool_to_word g) OR
      push_bit 6 (bool_to_word a) OR push_bit 7 (bool_to_word d) OR push_bit 8 (rsw AND 0x3) OR
      push_bit 10 (ppn AND PPN_MASK SV39))"

text \<open>The physical address that a leaf gives; a leaf above level 0 is a superpage.\<close>

definition sv32_make_phys :: "u64 \<Rightarrow> u64 \<Rightarrow> nat \<Rightarrow> address" where
  "sv32_make_phys ppn va_raw level =
     (let offset = va_raw AND (push_bit PAGE_SHIFT 1 - 1);
          phys_ppn = (if level = 1 then
            let vpn0 = drop_bit PAGE_SHIFT va_raw AND VPN_MASK SV32
            in (ppn AND NOT (VPN_MASK SV32)) OR (vpn0 AND VPN_MASK SV32) else ppn)
      in push_bit PAGE_SHIFT phys_ppn OR offset)"

fun sv39_vpn_combined :: "u64 \<Rightarrow> nat \<Rightarrow> u64" where
  "sv39_vpn_combined va_raw 0 = 0"
| "sv39_vpn_combined va_raw (Suc i) = sv39_vpn_combined va_raw i OR
     push_bit (VPN_BITS SV39 * i) (drop_bit (PAGE_SHIFT + VPN_BITS SV39 * i) va_raw AND VPN_MASK SV39)"

definition sv39_make_phys :: "u64 \<Rightarrow> u64 \<Rightarrow> nat \<Rightarrow> address" where
  "sv39_make_phys ppn va_raw level =
     (let offset = va_raw AND (push_bit PAGE_SHIFT 1 - 1);
          phys_ppn = (if level > 0 then
            let low_bits_mask = push_bit (VPN_BITS SV39 * level) 1 - 1
            in (ppn AND NOT low_bits_mask) OR (sv39_vpn_combined va_raw level AND low_bits_mask) else ppn)
      in push_bit PAGE_SHIFT phys_ppn OR offset)"

fun pte_make_phys :: "GenericPte \<Rightarrow> u64 \<Rightarrow> nat \<Rightarrow> address" where
  "pte_make_phys (Sv32Pte raw) va_raw level = sv32_make_phys (pte_ppn (Sv32Pte raw)) va_raw level"
| "pte_make_phys (Sv39Pte raw) va_raw level = sv39_make_phys (pte_ppn (Sv39Pte raw)) va_raw level"

section \<open>Permissions\<close>

definition sstatus_SUM where "sstatus_SUM = csr_field CSR_SSTATUS 1 18"
definition sstatus_MXR where "sstatus_MXR = csr_field CSR_SSTATUS 1 19"

text \<open>
  The template is instantiated for page table entries and for TLB entries; it sees their flags
  only.  The operation is the number that the access mode carries.
\<close>

definition check_permissions :: "bool \<Rightarrow> bool \<Rightarrow> bool \<Rightarrow> bool \<Rightarrow> u64 \<Rightarrow> PrivilegeLevel \<Rightarrow> u8 \<Rightarrow> bool" where
  "check_permissions p_u p_r p_w p_x raw_sstatus priv op =
     (let sum = bf_decode (field_bits sstatus_SUM) raw_sstatus \<noteq> 0;
          mxr = bf_decode (field_bits sstatus_MXR) raw_sstatus \<noteq> 0
      in if priv = UNPRIVILEGED \<and> \<not> p_u then False
         else if priv = SUPERVISOR \<and> p_u \<and> (op = opkind_code OP_READ \<or> op = opkind_code OP_WRITE) \<and> \<not> sum then False
         else if op = opkind_code OP_READ then (if p_r then True else if mxr \<and> p_x then True else False)
         else if op = opkind_code OP_WRITE then p_w
         else if op = opkind_code OP_FETCH then p_x
         else False)"

definition get_current_cause :: "u8 \<Rightarrow> ExceptionCause" where
  "get_current_cause opkind =
     (if opkind = opkind_code OP_FETCH then EXCAUSE_INSN_PAGE_FAULT
      else if opkind = opkind_code OP_WRITE then EXCAUSE_STORE_PAGE_FAULT
      else EXCAUSE_LOAD_PAGE_FAULT)"

definition page_fault :: "AccessMode \<Rightarrow> sim_exception" where
  "page_fault mode = PageFault (excause_code (get_current_cause (am_opkind mode)))"

section \<open>The walker\<close>

record WalkResult =
  wk_phys :: address
  wk_pte_addr :: address
  wk_leaf_pte :: "GenericPte option"
  wk_pte_was_written :: bool

definition empty_walk_result :: WalkResult where
  "empty_walk_result = \<lparr>wk_phys = 0, wk_pte_addr = 0, wk_leaf_pte = None, wk_pte_was_written = False\<rparr>"

text \<open>
  The entry is read into a variable of the raw type as the bytes lie in memory: in the byte
  order of the host.
\<close>

fun raw_pte_of_bytes :: "PagingMode \<Rightarrow> Endian \<Rightarrow> byte list \<Rightarrow> u64" where
  "raw_pte_of_bytes SV32 host bs = ucast (of_object_bytes host bs :: u32)"
| "raw_pte_of_bytes SV39 host bs = of_object_bytes host bs"

definition read_pte :: "Endian \<Rightarrow> 'm frontend_ops \<Rightarrow> PagingMode \<Rightarrow> address \<Rightarrow> ('m, GenericPte) action" where
  "read_pte host ops pm pte_addr =
     act_bind (fm_read ops (plain_address pte_addr) (raw_pte_size pm) AE_REGULAR)
       (\<lambda>(bytes, n). act_return (pte_factory pm (raw_pte_of_bytes pm host bytes)))"

text \<open>The argument before the last counts the levels that are left.\<close>

fun walk_levels ::
  "Endian \<Rightarrow> 'm frontend_ops \<Rightarrow> PagingMode \<Rightarrow> u64 \<Rightarrow> u64 \<Rightarrow> AccessMode \<Rightarrow> nat \<Rightarrow> u64 \<Rightarrow> ('m, WalkResult) action" where
  "walk_levels host ops pm va_raw raw_sstatus mode 0 ppn = act_throw (page_fault mode)"
| "walk_levels host ops pm va_raw raw_sstatus mode (Suc lvl) ppn =
     (let vpn_idx = (ucast (drop_bit (PAGE_SHIFT + lvl * VPN_BITS pm) va_raw AND VPN_MASK pm) :: u32);
          pte_addr = push_bit PAGE_SHIFT ppn + ucast vpn_idx * of_nat (raw_pte_size pm)
      in act_bind (read_pte host ops pm pte_addr) (\<lambda>pte.
           if \<not> pte_is_valid pte then act_throw (page_fault mode)
           else if pte_is_leaf pte then
             (if lvl > 0 \<and> pte_ppn pte AND (push_bit (lvl * VPN_BITS pm) 1 - 1) \<noteq> 0 then act_throw (page_fault mode)
              else if \<not> check_permissions (pte_u pte) (pte_r pte) (pte_w pte) (pte_x pte) raw_sstatus
                     (am_priv mode) (am_opkind mode) then act_throw (page_fault mode)
              else act_return (empty_walk_result\<lparr>wk_phys := pte_make_phys pte va_raw lvl, wk_pte_addr := pte_addr,
                     wk_leaf_pte := Some pte\<rparr>))
           else if pte_r pte \<or> pte_w pte \<or> pte_x pte then act_throw (page_fault mode)
           else walk_levels host ops pm va_raw raw_sstatus mode lvl (pte_ppn pte)))"

definition page_table_walk ::
  "Endian \<Rightarrow> 'm frontend_ops \<Rightarrow> PagingMode \<Rightarrow> u64 \<Rightarrow> u64 \<Rightarrow> u64 \<Rightarrow> AccessMode \<Rightarrow> ('m, WalkResult) action" where
  "page_table_walk host ops pm va_raw raw_satp raw_sstatus mode =
     (if raw_satp AND SATP_MODE_MASK pm = 0 then act_return (empty_walk_result\<lparr>wk_phys := va_raw\<rparr>)
      else walk_levels host ops pm va_raw raw_sstatus mode (max_level_idx pm + 1) (raw_satp AND SATP_PPN_MASK pm))"

section \<open>Specification\<close>

text \<open>
  The lookup on natural numbers, with the checks that the code makes.  A page at level \<open>i\<close> covers
  \<open>page_bytes pm i\<close> bytes; the index into the table at level \<open>i\<close> is the corresponding field of the
  address.  The result of a lookup is the level and the address of the leaf, and the leaf.
\<close>

definition page_bytes :: "PagingMode \<Rightarrow> nat \<Rightarrow> nat" where
  "page_bytes pm i = 4096 * 2 ^ (VPN_BITS pm * i)"

definition vpn_field :: "PagingMode \<Rightarrow> nat \<Rightarrow> nat \<Rightarrow> nat" where
  "vpn_field pm i va = va div page_bytes pm i mod 2 ^ VPN_BITS pm"

definition pte_address :: "PagingMode \<Rightarrow> nat \<Rightarrow> nat \<Rightarrow> nat \<Rightarrow> nat" where
  "pte_address pm table i va = table * 4096 + vpn_field pm i va * raw_pte_size pm"

fun pte_value :: "PagingMode \<Rightarrow> Endian \<Rightarrow> byte list \<Rightarrow> u64" where
  "pte_value SV32 e bs = ucast (bytes_value e bs :: u32)"
| "pte_value SV39 e bs = bytes_value e bs"

definition pte_at :: "PagingMode \<Rightarrow> Endian \<Rightarrow> (address \<Rightarrow> byte) \<Rightarrow> nat \<Rightarrow> u64" where
  "pte_at pm e v a = pte_value pm e (load_bytes v (of_nat a) (raw_pte_size pm))"

definition ppn_of :: "PagingMode \<Rightarrow> u64 \<Rightarrow> nat" where
  "ppn_of pm pte = unat pte div 2 ^ 10 mod 2 ^ PPN_BITS pm"

fun pt_lookup :: "PagingMode \<Rightarrow> Endian \<Rightarrow> (address \<Rightarrow> byte) \<Rightarrow> nat \<Rightarrow> nat \<Rightarrow> nat \<Rightarrow> (nat \<times> nat \<times> u64) option" where
  "pt_lookup pm e v va 0 table = None"
| "pt_lookup pm e v va (Suc i) table =
     (let a = pte_address pm table i va; pte = pte_at pm e v a
      in if \<not> bit pte 0 \<or> bit pte 2 \<and> \<not> bit pte 1 then None
         else if bit pte 1 \<or> bit pte 3 then
           (if 2 ^ (VPN_BITS pm * i) dvd ppn_of pm pte then Some (i, a, pte) else None)
         else pt_lookup pm e v va i (ppn_of pm pte))"

text \<open>The addresses that a lookup reads.\<close>

fun pt_reads :: "PagingMode \<Rightarrow> Endian \<Rightarrow> (address \<Rightarrow> byte) \<Rightarrow> nat \<Rightarrow> nat \<Rightarrow> nat \<Rightarrow> nat list" where
  "pt_reads pm e v va 0 table = []"
| "pt_reads pm e v va (Suc i) table =
     (let a = pte_address pm table i va; pte = pte_at pm e v a
      in a # (if bit pte 0 \<and> \<not> bit pte 1 \<and> \<not> bit pte 2 \<and> \<not> bit pte 3 then pt_reads pm e v va i (ppn_of pm pte) else []))"

definition satp_root :: "PagingMode \<Rightarrow> u64 \<Rightarrow> nat" where
  "satp_root pm satp = unat satp mod 2 ^ PPN_BITS pm"

definition pt_resolve :: "PagingMode \<Rightarrow> Endian \<Rightarrow> (address \<Rightarrow> byte) \<Rightarrow> u64 \<Rightarrow> nat \<Rightarrow> (nat \<times> nat \<times> u64) option" where
  "pt_resolve pm e v satp va = pt_lookup pm e v va (max_level_idx pm + 1) (satp_root pm satp)"

definition leaf_address :: "PagingMode \<Rightarrow> nat \<Rightarrow> u64 \<Rightarrow> nat \<Rightarrow> nat" where
  "leaf_address pm i pte va = ppn_of pm pte * 4096 + va mod page_bytes pm i"

text \<open>
  What an access may do with a page, by the rule of the code.  It permits the supervisor to fetch from a
  user page, which the comment in \<^verbatim>\<open>memory_utils.h\<close> and the architecture forbid; the architecture's
  rule is \<open>arch_permits\<close> below.
\<close>

definition leaf_permits :: "u64 \<Rightarrow> u64 \<Rightarrow> AccessMode \<Rightarrow> bool" where
  "leaf_permits sstatus pte mode =
     (let op = am_opkind mode; user = bit pte 4 in
      (am_priv mode = UNPRIVILEGED \<longrightarrow> user) \<and>
      (am_priv mode = SUPERVISOR \<and> user \<and> op \<in> {1, 2} \<longrightarrow> bit sstatus 18) \<and>
      (op = 0 \<and> bit pte 3 \<or> op = 1 \<and> (bit pte 1 \<or> bit sstatus 19 \<and> bit pte 3) \<or> op = 2 \<and> bit pte 2))"

definition walk_spec ::
  "PagingMode \<Rightarrow> Endian \<Rightarrow> (address \<Rightarrow> byte) \<Rightarrow> u64 \<Rightarrow> u64 \<Rightarrow> AccessMode \<Rightarrow> nat \<Rightarrow> WalkResult result" where
  "walk_spec pm e v satp sstatus mode va = (case pt_resolve pm e v satp va of
     None \<Rightarrow> Inl (page_fault mode)
   | Some (i, a, pte) \<Rightarrow> if leaf_permits sstatus pte mode then
       Inr \<lparr>wk_phys = of_nat (leaf_address pm i pte va), wk_pte_addr = of_nat a,
            wk_leaf_pte = Some (pte_factory pm pte), wk_pte_was_written = False\<rparr>
     else Inl (page_fault mode))"

text \<open>
  The translation as the architecture prescribes it, independently of the code.  An address must be canonical (Sv39:
  bits 63 to 38 all equal; Sv32: 32 bits); an entry with a reserved bit set (Sv39: bits 63 to 54; in a pointer to the next
  table: U, A and D) is a page fault; the supervisor loads from and stores to user pages only with SUM set
  and never fetches from them.
\<close>

fun arch_canonical :: "PagingMode \<Rightarrow> nat \<Rightarrow> bool" where
  "arch_canonical SV32 va = (va < 2 ^ 32)"
| "arch_canonical SV39 va = (va < 2 ^ 38 \<or> 2 ^ 64 - 2 ^ 38 \<le> va)"

definition pte_reserved :: "PagingMode \<Rightarrow> u64 \<Rightarrow> bool" where
  "pte_reserved pm pte \<longleftrightarrow> pm = SV39 \<and> unat pte \<ge> 2 ^ 54 \<or>
     bit pte 0 \<and> \<not> bit pte 1 \<and> \<not> bit pte 2 \<and> \<not> bit pte 3 \<and> (bit pte 4 \<or> bit pte 6 \<or> bit pte 7)"

fun arch_lookup :: "PagingMode \<Rightarrow> Endian \<Rightarrow> (address \<Rightarrow> byte) \<Rightarrow> nat \<Rightarrow> nat \<Rightarrow> nat \<Rightarrow> (nat \<times> nat \<times> u64) option" where
  "arch_lookup pm e v va 0 table = None"
| "arch_lookup pm e v va (Suc i) table =
     (let a = pte_address pm table i va; pte = pte_at pm e v a
      in if \<not> bit pte 0 \<or> bit pte 2 \<and> \<not> bit pte 1 \<or> pte_reserved pm pte then None
         else if bit pte 1 \<or> bit pte 3 then
           (if 2 ^ (VPN_BITS pm * i) dvd ppn_of pm pte then Some (i, a, pte) else None)
         else arch_lookup pm e v va i (ppn_of pm pte))"

fun arch_user_rule :: "PrivilegeLevel \<Rightarrow> bool \<Rightarrow> bool \<Rightarrow> bool \<Rightarrow> bool" where
  "arch_user_rule UNPRIVILEGED user fetch sum_bit = user"
| "arch_user_rule SUPERVISOR user fetch sum_bit = (\<not> user \<or> \<not> fetch \<and> sum_bit)"
| "arch_user_rule _ user fetch sum_bit = True"

definition arch_permits :: "u64 \<Rightarrow> u64 \<Rightarrow> AccessMode \<Rightarrow> bool" where
  "arch_permits sstatus pte mode =
     (let fetch = (am_opkind mode = 0); load = (am_opkind mode = 1); store = (am_opkind mode = 2);
          r = bit pte 1; w = bit pte 2; x = bit pte 3; mxr = bit sstatus 19
      in arch_user_rule (am_priv mode) (bit pte 4) fetch (bit sstatus 18) \<and>
         (fetch \<and> x \<or> load \<and> (r \<or> mxr \<and> x) \<or> store \<and> w))"

definition arch_walk ::
  "PagingMode \<Rightarrow> Endian \<Rightarrow> (address \<Rightarrow> byte) \<Rightarrow> u64 \<Rightarrow> u64 \<Rightarrow> AccessMode \<Rightarrow> nat \<Rightarrow> WalkResult result" where
  "arch_walk pm e v satp sstatus mode va =
     (if \<not> arch_canonical pm va then Inl (page_fault mode)
      else case arch_lookup pm e v va (max_level_idx pm + 1) (satp_root pm satp) of
        None \<Rightarrow> Inl (page_fault mode)
      | Some (i, a, pte) \<Rightarrow> if arch_permits sstatus pte mode then
          Inr \<lparr>wk_phys = of_nat (leaf_address pm i pte va), wk_pte_addr = of_nat a,
               wk_leaf_pte = Some (pte_factory pm pte), wk_pte_was_written = False\<rparr>
        else Inl (page_fault mode))"

text \<open>The checks of the architecture that the code does not make: canonical addresses, reserved bits, and supervisor fetches from user pages.\<close>

definition arch_unchecked :: "PagingMode \<Rightarrow> Endian \<Rightarrow> (address \<Rightarrow> byte) \<Rightarrow> u64 \<Rightarrow> AccessMode \<Rightarrow> nat \<Rightarrow> bool" where
  "arch_unchecked pm e v satp mode va \<longleftrightarrow> \<not> arch_canonical pm va \<or>
     list_ex (\<lambda>a. pte_reserved pm (pte_at pm e v a)) (pt_reads pm e v va (max_level_idx pm + 1) (satp_root pm satp)) \<or>
     am_priv mode = SUPERVISOR \<and> am_opkind mode = 0 \<and>
       (case pt_resolve pm e v satp va of None \<Rightarrow> False | Some (i, a, pte) \<Rightarrow> bit pte 4)"

section \<open>Entries as numbers\<close>

lemma low_mask_eq: "push_bit n 1 - 1 = (mask n :: u64)" "(2 ^ n - 1 :: u64) = mask n"
  by (simp_all add: mask_eq_exp_minus_1)

lemma paging_masks: "VPN_MASK pm = mask (VPN_BITS pm)" "PPN_MASK pm = mask (PPN_BITS pm)"
    "SATP_PPN_MASK pm = mask (PPN_BITS pm)"
  unfolding VPN_MASK_def PPN_MASK_def SATP_PPN_MASK_def by (rule low_mask_eq(1))+

lemma pte_flag_bit [simp]: "pte_flag n (pte_factory pm raw) = bit raw n"
  by (cases pm) (simp_all add: pte_flag_def bit_iff_odd_drop_bit and_one_eq odd_iff_mod_2_eq_one)

lemmas pte_flags = pte_v_def pte_r_def pte_w_def pte_x_def pte_u_def pte_g_def pte_a_def pte_d_def

lemma unat_and_mask: "unat (w AND mask n :: u64) = unat w mod 2 ^ n"
  unfolding take_bit_eq_mask [symmetric] unsigned_take_bit_eq by (simp add: take_bit_eq_mod)

lemma unat_drop_bit: "unat (drop_bit n w :: u64) = unat w div 2 ^ n"
proof -
  have "unat w < 2 ^ LENGTH(64)" by (rule unsigned_less)
  then show ?thesis unfolding unsigned_drop_bit_eq unfolding drop_bit_eq_div by (simp add: take_bit_nat_eq_self)
qed

lemma pte_ppn_factory: "pte_ppn (pte_factory pm raw) = drop_bit 10 raw AND mask (PPN_BITS pm)"
  unfolding paging_masks [symmetric] by (cases pm) simp_all

lemma unat_pte_ppn: "unat (pte_ppn (pte_factory pm raw)) = ppn_of pm raw"
  by (simp only: pte_ppn_factory unat_and_mask unat_drop_bit ppn_of_def)

lemma ppn_of_bound: "ppn_of pm pte < 2 ^ PPN_BITS pm" "satp_root pm satp < 2 ^ PPN_BITS pm"
  by (simp_all add: ppn_of_def satp_root_def)

lemma vpn_field_bound: "vpn_field pm i va < 2 ^ VPN_BITS pm"
  by (simp add: vpn_field_def)

lemma page_bytes_eq: "page_bytes pm i = 2 ^ (PAGE_SHIFT + i * VPN_BITS pm)"
  by (simp add: page_bytes_def PAGE_SHIFT_def power_add mult.commute)

lemma vpn_field_word:
  "drop_bit (PAGE_SHIFT + i * VPN_BITS pm) va AND VPN_MASK pm = (of_nat (vpn_field pm i (unat va)) :: u64)"
proof (rule word_unat_eq_iff [THEN iffD2])
  have "vpn_field pm i (unat va) < 2 ^ 64"
    using vpn_field_bound [of pm i "unat va"] by (cases pm) auto
  then have "unat (of_nat (vpn_field pm i (unat va)) :: u64) = vpn_field pm i (unat va)"
    by (intro unat_of_nat_small) simp
  then show "unat (drop_bit (PAGE_SHIFT + i * VPN_BITS pm) va AND VPN_MASK pm) = unat (of_nat (vpn_field pm i (unat va)) :: u64)"
    by (simp only: paging_masks unat_and_mask unat_drop_bit vpn_field_def page_bytes_eq)
qed

lemma pte_address_word:
  "push_bit PAGE_SHIFT ppn + ucast (ucast (drop_bit (PAGE_SHIFT + i * VPN_BITS pm) va AND VPN_MASK pm) :: u32) *
     of_nat (raw_pte_size pm) = (of_nat (pte_address pm (unat ppn) i (unat va)) :: u64)"
proof -
  have "vpn_field pm i (unat va) < 2 ^ 32"
    using vpn_field_bound [of pm i "unat va"] by (cases pm) auto
  then have "(ucast (of_nat (vpn_field pm i (unat va)) :: u32) :: u64) = of_nat (vpn_field pm i (unat va))"
    by (simp add: unsigned_of_nat take_bit_nat_eq_self)
  moreover have "(ucast (of_nat n :: u64) :: u32) = of_nat n" for n
    by (rule bit_word_eqI) (auto simp: bit_simps)
  moreover have "push_bit PAGE_SHIFT ppn = (of_nat (unat ppn * 4096) :: u64)"
    by (simp add: PAGE_SHIFT_def push_bit_eq_mult)
  ultimately show ?thesis unfolding vpn_field_word by (simp add: pte_address_def)
qed

lemma pte_misaligned:
  "pte_ppn (pte_factory pm raw) AND (push_bit (i * VPN_BITS pm) 1 - 1) \<noteq> 0 \<longleftrightarrow>
     \<not> 2 ^ (VPN_BITS pm * i) dvd ppn_of pm raw"
proof -
  have "pte_ppn (pte_factory pm raw) AND (push_bit (i * VPN_BITS pm) 1 - 1) = 0 \<longleftrightarrow>
      unat (pte_ppn (pte_factory pm raw) AND (push_bit (i * VPN_BITS pm) 1 - 1)) = 0"
    by (simp add: unat_eq_zero)
  also have "\<dots> \<longleftrightarrow> ppn_of pm raw mod 2 ^ (i * VPN_BITS pm) = 0"
    by (simp only: low_mask_eq unat_and_mask unat_pte_ppn)
  finally show ?thesis by (simp add: dvd_eq_mod_eq_0 mult.commute)
qed

text \<open>The address a leaf gives: the loop over the levels collects the low bits of the virtual address.\<close>

lemma bit_sv39_vpn_combined: "bit (sv39_vpn_combined va i) n \<longleftrightarrow> n < VPN_BITS SV39 * i \<and> bit va (PAGE_SHIFT + n)"
proof (induction i)
  case (Suc i)
  have "VPN_BITS SV39 * i \<le> n \<Longrightarrow> PAGE_SHIFT + VPN_BITS SV39 * i + (n - VPN_BITS SV39 * i) = PAGE_SHIFT + n" by simp
  then show ?case using Suc
    by (auto simp: bit_simps paging_masks PAGE_SHIFT_def dest: bit_imp_le_length)
qed simp

lemma make_phys_masks:
  "sv32_make_phys ppn va level = push_bit PAGE_SHIFT (if level = 1 then (ppn AND NOT (mask 10)) OR
     (drop_bit PAGE_SHIFT va AND mask 10 AND mask 10) else ppn) OR (va AND mask PAGE_SHIFT)"
  "sv39_make_phys ppn va level = push_bit PAGE_SHIFT (if level > 0 then (ppn AND NOT (mask (9 * level))) OR
     (sv39_vpn_combined va level AND mask (9 * level)) else ppn) OR (va AND mask PAGE_SHIFT)"
  by (simp_all only: sv32_make_phys_def sv39_make_phys_def Let_def low_mask_eq paging_masks VPN_BITS.simps and.assoc)

lemma pte_make_phys_bits:
  assumes "i \<le> max_level_idx pm" "2 ^ (VPN_BITS pm * i) dvd ppn_of pm raw"
  shows "pte_make_phys (pte_factory pm raw) va i =
    push_bit PAGE_SHIFT (pte_ppn (pte_factory pm raw)) OR (va AND mask (PAGE_SHIFT + i * VPN_BITS pm))"
proof -
  have "\<not> bit (pte_ppn (pte_factory pm raw)) n" if "n < i * VPN_BITS pm" for n
  proof
    assume "bit (pte_ppn (pte_factory pm raw)) n"
    then have "bit (pte_ppn (pte_factory pm raw) AND (push_bit (i * VPN_BITS pm) 1 - 1)) n"
      using that unfolding low_mask_eq by (auto simp: bit_simps dest: bit_imp_le_length)
    moreover have "pte_ppn (pte_factory pm raw) AND (push_bit (i * VPN_BITS pm) 1 - 1) = 0"
      using assms(2) pte_misaligned [of pm raw i] by blast
    ultimately show False by simp
  qed
  then show ?thesis using assms(1)
    by (cases pm; intro bit_word_eqI)
      (auto simp: make_phys_masks bit_simps bit_sv39_vpn_combined PAGE_SHIFT_def le_Suc_eq simp del: pte_ppn.simps)
qed

lemma pte_make_phys_eq:
  assumes "i \<le> max_level_idx pm" "2 ^ (VPN_BITS pm * i) dvd ppn_of pm raw"
  shows "pte_make_phys (pte_factory pm raw) va i = of_nat (leaf_address pm i raw (unat va))"
proof -
  define p where "p = pte_ppn (pte_factory pm raw)"
  have p: "unat p = ppn_of pm raw" by (simp add: p_def unat_pte_ppn)
  have b: "\<not> bit p n" if "n < i * VPN_BITS pm" for n
  proof -
    have "2 ^ (i * VPN_BITS pm) dvd unat p" using assms(2) p by (simp add: mult.commute)
    then have "take_bit (i * VPN_BITS pm) (unat p) = 0" by (simp add: take_bit_eq_0_iff)
    then have "\<not> bit (unat p) n" using that by (metis bit_take_bit_iff bit_0_eq bot_apply bot_bool_def)
    then show ?thesis by (auto simp: bit_unsigned_iff dest: bit_imp_le_length)
  qed
  have "push_bit PAGE_SHIFT p AND (va AND mask (PAGE_SHIFT + i * VPN_BITS pm)) = 0"
    by (rule bit_word_eqI) (auto simp: bit_simps b)
  then have "pte_make_phys (pte_factory pm raw) va i = push_bit PAGE_SHIFT p + (va AND mask (PAGE_SHIFT + i * VPN_BITS pm))"
    by (simp add: pte_make_phys_bits [OF assms] p_def disjunctive_add_eq_or)
  also have "push_bit PAGE_SHIFT p = of_nat (ppn_of pm raw * 4096)"
    by (simp add: PAGE_SHIFT_def push_bit_eq_mult p [symmetric])
  also have "va AND mask (PAGE_SHIFT + i * VPN_BITS pm) = of_nat (unat va mod page_bytes pm i)"
    unfolding page_bytes_eq unat_and_mask [symmetric] by simp
  finally show ?thesis by (simp add: leaf_address_def)
qed

lemma check_permissions_pte:
  "check_permissions (pte_u (pte_factory pm raw)) (pte_r (pte_factory pm raw)) (pte_w (pte_factory pm raw))
     (pte_x (pte_factory pm raw)) sstatus (am_priv mode) (am_opkind mode) = leaf_permits sstatus raw mode"
proof -
  have d: "bf_decode \<lparr>bf_count = 1, bf_offset = k\<rparr> sstatus \<noteq> 0 \<longleftrightarrow> bit sstatus k" for k
  proof -
    have "bit (bf_decode \<lparr>bf_count = 1, bf_offset = k\<rparr> sstatus) n \<longleftrightarrow> n = 0 \<and> bit sstatus k" for n
      by (subst bit_bf_decode) auto
    then show ?thesis by (metis bit_0_eq bit_eqI bot_apply bot_bool_def)
  qed
  show ?thesis
    by (auto simp: check_permissions_def leaf_permits_def Let_def sstatus_SUM_def sstatus_MXR_def csr_field_def
        d [unfolded One_nat_def] pte_flags)
qed

lemma raw_pte_of_bytes_eq: "raw_pte_of_bytes pm host bs = pte_value pm host bs"
  by (cases pm; cases host) (simp_all add: bytes_value_def of_object_bytes_def)

section \<open>The walker computes the specification\<close>

definition pt_admitted :: "(address \<Rightarrow> nat \<Rightarrow> bool) \<Rightarrow> PagingMode \<Rightarrow> nat list \<Rightarrow> bool" where
  "pt_admitted admits pm as = (\<forall>a \<in> set as. admits (of_nat a) (raw_pte_size pm))"

definition walk_outcome :: "PagingMode \<Rightarrow> u64 \<Rightarrow> AccessMode \<Rightarrow> nat \<Rightarrow> (nat \<times> nat \<times> u64) option \<Rightarrow> WalkResult result" where
  "walk_outcome pm sstatus mode va r = (case r of
     None \<Rightarrow> Inl (page_fault mode)
   | Some (i, a, pte) \<Rightarrow> if leaf_permits sstatus pte mode then
       Inr \<lparr>wk_phys = of_nat (leaf_address pm i pte va), wk_pte_addr = of_nat a,
            wk_leaf_pte = Some (pte_factory pm pte), wk_pte_was_written = False\<rparr>
     else Inl (page_fault mode))"

lemma walk_spec_outcome: "walk_spec pm e v satp sstatus mode va = walk_outcome pm sstatus mode va (pt_resolve pm e v satp va)"
  by (simp add: walk_spec_def walk_outcome_def)

text \<open>One level of the loop, with the entry as a number.\<close>

lemma walk_levels_step:
  assumes "read_pte host ops pm (of_nat (pte_address pm (unat ppn) i (unat va))) m = (m1, Inr (pte_factory pm pte))"
  shows "i \<le> max_level_idx pm \<Longrightarrow> walk_levels host ops pm va sstatus mode (Suc i) ppn m =
    (if \<not> bit pte 0 \<or> bit pte 2 \<and> \<not> bit pte 1 then (m1, Inl (page_fault mode))
     else if bit pte 1 \<or> bit pte 3 then (m1, walk_outcome pm sstatus mode (unat va)
       (if 2 ^ (VPN_BITS pm * i) dvd ppn_of pm pte then Some (i, pte_address pm (unat ppn) i (unat va), pte) else None))
     else walk_levels host ops pm va sstatus mode i (pte_ppn (pte_factory pm pte)) m1)"
  unfolding walk_levels.simps Let_def pte_address_word act_bind_ok [where f = "read_pte _ _ _ _", OF assms]
    pte_misaligned check_permissions_pte
  using pte_make_phys_eq [of i pm pte va]
  by (auto simp: pte_is_valid_def pte_is_leaf_def pte_flags walk_outcome_def empty_walk_result_def)

context frontend_contract
begin

lemma read_pte_contract:
  assumes "inv m" "admits (of_nat a) (raw_pte_size pm)" "fm_endian ops = host"
  shows "\<exists>m'. read_pte host ops pm (of_nat a) m = (m', Inr (pte_factory pm (pte_at pm host (view m) a))) \<and>
    inv m' \<and> view m' = view m"
proof -
  have "0 < raw_pte_size pm" by (cases pm) simp_all
  from read_contract [OF assms(1) this, of "plain_address (of_nat a)"] assms(2) obtain m' k where
    "fm_read ops (plain_address (of_nat a)) (raw_pte_size pm) AE_REGULAR m =
       (m', Inr (load_bytes (view m) (of_nat a) (raw_pte_size pm), k))" "inv m'" "view m' = view m" by auto
  then show ?thesis by (simp add: read_pte_def raw_pte_of_bytes_eq pte_at_def)
qed

lemma walk_levels_contract:
  assumes "inv m" "pt_admitted admits pm (pt_reads pm host (view m) (unat va) n (unat ppn))" "fm_endian ops = host"
    "n \<le> max_level_idx pm + 1"
  shows "\<exists>m'. walk_levels host ops pm va sstatus mode n ppn m =
      (m', walk_outcome pm sstatus mode (unat va) (pt_lookup pm host (view m) (unat va) n (unat ppn))) \<and>
    inv m' \<and> view m' = view m"
  using assms
proof (induction n arbitrary: m ppn)
  case 0
  then show ?case by (simp add: walk_outcome_def)
next
  case (Suc i)
  define a where "a = pte_address pm (unat ppn) i (unat va)"
  define pte where "pte = pte_at pm host (view m) a"
  have "admits (of_nat a) (raw_pte_size pm)"
    using Suc.prems(2) by (simp add: pt_admitted_def Let_def a_def)
  from read_pte_contract [OF Suc.prems(1) this Suc.prems(3)] obtain m1 where
    m1: "read_pte host ops pm (of_nat a) m = (m1, Inr (pte_factory pm pte))" "inv m1" "view m1 = view m"
    by (auto simp: pte_def)
  note step = walk_levels_step [OF m1(1) [unfolded a_def]] Suc.prems(4)
  show ?case
  proof (cases "bit pte 0 \<and> \<not> bit pte 1 \<and> \<not> bit pte 2 \<and> \<not> bit pte 3")
    case True
    then have "pt_admitted admits pm (pt_reads pm host (view m1) (unat va) i (unat (pte_ppn (pte_factory pm pte))))"
      using Suc.prems(2) m1(3) by (simp add: pt_admitted_def Let_def a_def pte_def unat_pte_ppn)
    from Suc.IH [OF m1(2) this Suc.prems(3)] step m1(3) True show ?thesis
      by (simp add: Let_def unat_pte_ppn a_def [symmetric] pte_def [symmetric])
  next
    case False
    then show ?thesis using step m1(2,3) by (auto simp: Let_def a_def [symmetric] pte_def [symmetric] walk_outcome_def)
  qed
qed

lemma page_table_walk_contract:
  assumes "inv m" "pt_admitted admits pm (pt_reads pm host (view m) (unat va) (max_level_idx pm + 1) (satp_root pm satp))"
    "fm_endian ops = host" "satp AND SATP_MODE_MASK pm \<noteq> 0"
  shows "\<exists>m'. page_table_walk host ops pm va satp sstatus mode m =
      (m', walk_spec pm host (view m) satp sstatus mode (unat va)) \<and> inv m' \<and> view m' = view m"
proof -
  have "unat (satp AND SATP_PPN_MASK pm) = satp_root pm satp"
    by (simp only: paging_masks unat_and_mask satp_root_def)
  then show ?thesis
    using walk_levels_contract [of m pm host va "max_level_idx pm + 1" "satp AND SATP_PPN_MASK pm" sstatus mode] assms
    by (simp add: page_table_walk_def walk_spec_outcome pt_resolve_def)
qed

end

section \<open>Pages\<close>

text \<open>All addresses of a page are resolved by the same leaf, and their offset is kept.\<close>

lemma div_page_bytes: "va div page_bytes pm i = va div 4096 div 2 ^ (VPN_BITS pm * i)"
  by (simp add: page_bytes_def div_mult2_eq)

lemma pt_lookup_page: "va div 4096 = vb div 4096 \<Longrightarrow> pt_lookup pm e v va n table = pt_lookup pm e v vb n table"
proof (induction n arbitrary: table)
  case (Suc i)
  then have "pte_address pm table i va = pte_address pm table i vb"
    by (simp add: pte_address_def vpn_field_def div_page_bytes)
  with Suc show ?case by (simp add: Let_def)
qed simp

lemma leaf_address_page:
  "leaf_address pm i pte va = leaf_address pm i pte (va div 4096 * 4096) + va mod 4096"
proof -
  have "va mod page_bytes pm i = 4096 * (va div 4096 mod 2 ^ (VPN_BITS pm * i)) + va mod 4096"
    unfolding page_bytes_def by (rule mod_mult2_eq)
  moreover have "(va div 4096 * 4096) mod page_bytes pm i = 4096 * (va div 4096 mod 2 ^ (VPN_BITS pm * i))"
    unfolding page_bytes_def by (simp add: mult.commute)
  ultimately show ?thesis by (simp add: leaf_address_def)
qed

lemma leaf_address_aligned: "4096 dvd leaf_address pm i pte (n * 4096)"
  unfolding leaf_address_def page_bytes_def by (simp add: mult.commute dvd_add_right_iff) 

lemma leaf_address_bound:
  assumes "2 ^ (VPN_BITS pm * i) dvd ppn_of pm pte" "i \<le> max_level_idx pm"
  shows "leaf_address pm i pte va < 2 ^ (PPN_BITS pm + 12)"
proof -
  define k where "k = VPN_BITS pm * i"
  obtain q where q: "ppn_of pm pte = 2 ^ k * q" using assms(1) by (auto simp: k_def)
  have k: "k \<le> PPN_BITS pm" using assms(2) by (cases pm) (auto simp: k_def)
  then have pow: "(2 :: nat) ^ PPN_BITS pm = 2 ^ k * 2 ^ (PPN_BITS pm - k)" by (simp flip: power_add)
  then have "q < 2 ^ (PPN_BITS pm - k)" using ppn_of_bound(1) [of pm pte] q by simp
  then have "2 ^ k * (q + 1) \<le> 2 ^ PPN_BITS pm" unfolding pow by (intro mult_le_mono2) simp
  then have "ppn_of pm pte + 2 ^ k \<le> 2 ^ PPN_BITS pm" using q by simp
  moreover have "va mod page_bytes pm i < 4096 * 2 ^ k" by (simp add: page_bytes_def k_def)
  ultimately show ?thesis by (simp add: leaf_address_def power_add)
qed

section \<open>Accessed and dirty bits\<close>

text \<open>Entries that differ in these two bits only resolve an address alike.\<close>

definition ad_bits :: "bool \<Rightarrow> u64" where
  "ad_bits is_write = push_bit 6 1 OR (if is_write then push_bit 7 1 else 0)"

definition ad_similar :: "u64 \<Rightarrow> u64 \<Rightarrow> bool" where
  "ad_similar p q = (p AND NOT (ad_bits True) = q AND NOT (ad_bits True))"

lemma bit_ad_bits: "bit (ad_bits is_write) n \<longleftrightarrow> n = 6 \<or> is_write \<and> n = 7"
  unfolding ad_bits_def by (auto simp: bit_or_iff bit_push_bit_iff bit_1_iff simp del: push_bit_of_1)

lemma ad_similar_bit: "ad_similar p q \<Longrightarrow> n \<noteq> 6 \<Longrightarrow> n \<noteq> 7 \<Longrightarrow> bit p n = bit q n"
  unfolding ad_similar_def by (drule arg_cong [where f = "\<lambda>w. bit w n"]) (auto simp: bit_simps bit_ad_bits dest: bit_imp_le_length)

lemma ad_similarI: "(\<And>n. n < 64 \<Longrightarrow> n \<noteq> 6 \<Longrightarrow> n \<noteq> 7 \<Longrightarrow> bit p n = bit q n) \<Longrightarrow> ad_similar p q"
  unfolding ad_similar_def by (rule bit_word_eqI) (auto simp: bit_simps bit_ad_bits)

lemma ad_similar_refl [simp]: "ad_similar p p"
  by (simp add: ad_similar_def)

lemma ad_similar_sym: "ad_similar p q \<Longrightarrow> ad_similar q p"
  by (simp add: ad_similar_def)

lemma ad_similar_trans: "ad_similar p q \<Longrightarrow> ad_similar q r \<Longrightarrow> ad_similar p r"
  by (simp add: ad_similar_def)

lemma ad_similar_ppn: "ad_similar p q \<Longrightarrow> ppn_of pm p = ppn_of pm q"
proof -
  assume "ad_similar p q"
  then have "drop_bit 10 p = drop_bit 10 q" by (intro bit_word_eqI) (auto simp: bit_simps ad_similar_bit)
  then show ?thesis by (metis ppn_of_def unat_drop_bit)
qed

lemma ad_similar_permits: "ad_similar p q \<Longrightarrow> leaf_permits sstatus p mode = leaf_permits sstatus q mode"
  by (simp add: leaf_permits_def ad_similar_bit)

lemma ad_similar_leaf: "ad_similar p q \<Longrightarrow> leaf_address pm i p va = leaf_address pm i q va"
  by (simp add: leaf_address_def ad_similar_ppn)

definition tables_similar :: "PagingMode \<Rightarrow> Endian \<Rightarrow> (address \<Rightarrow> byte) \<Rightarrow> (address \<Rightarrow> byte) \<Rightarrow> bool" where
  "tables_similar pm e v v' \<longleftrightarrow> (\<forall>a. raw_pte_size pm dvd a \<longrightarrow> a < 2 ^ 63 \<longrightarrow> ad_similar (pte_at pm e v a) (pte_at pm e v' a))"

lemma raw_pte_size_dvd: "raw_pte_size pm dvd pte_address pm table i va"
  by (cases pm) (simp_all add: pte_address_def)

lemma pte_address_bound: "table < 2 ^ PPN_BITS pm \<Longrightarrow> pte_address pm table i va < 2 ^ 63"
  using vpn_field_bound [of pm i va] by (cases pm) (auto simp: pte_address_def)

definition leaf_similar :: "nat \<times> nat \<times> u64 \<Rightarrow> nat \<times> nat \<times> u64 \<Rightarrow> bool" where
  "leaf_similar = (\<lambda>(i, a, p) (j, b, q). i = j \<and> a = b \<and> ad_similar p q)"

lemma pt_lookup_similar:
  assumes "tables_similar pm e v v'" "table < 2 ^ PPN_BITS pm"
  shows "rel_option leaf_similar (pt_lookup pm e v va n table) (pt_lookup pm e v' va n table) \<and>
    pt_reads pm e v va n table = pt_reads pm e v' va n table"
  using assms(2)
proof (induction n arbitrary: table)
  case (Suc i)
  define a where "a = pte_address pm table i va"
  have "ad_similar (pte_at pm e v a) (pte_at pm e v' a)"
    using assms(1) raw_pte_size_dvd [of pm table i va] pte_address_bound [OF Suc.prems, of i va]
    by (simp add: tables_similar_def a_def)
  moreover from this have "ppn_of pm (pte_at pm e v a) = ppn_of pm (pte_at pm e v' a)"
    "bit (pte_at pm e v a) 0 = bit (pte_at pm e v' a) 0" "bit (pte_at pm e v a) 1 = bit (pte_at pm e v' a) 1"
    "bit (pte_at pm e v a) 2 = bit (pte_at pm e v' a) 2" "bit (pte_at pm e v a) 3 = bit (pte_at pm e v' a) 3"
    by (simp_all add: ad_similar_ppn ad_similar_bit)
  ultimately show ?case using Suc.IH [OF ppn_of_bound(1), of "pte_at pm e v' a"]
    by (simp add: Let_def a_def [symmetric] leaf_similar_def)
qed simp

text \<open>Setting the bits of the entry at an address, in memory.\<close>

fun pte_bytes :: "PagingMode \<Rightarrow> Endian \<Rightarrow> u64 \<Rightarrow> byte list" where
  "pte_bytes SV32 e pte = value_bytes e (ucast pte :: u32)"
| "pte_bytes SV39 e pte = value_bytes e pte"

definition set_ad :: "PagingMode \<Rightarrow> Endian \<Rightarrow> bool \<Rightarrow> nat \<Rightarrow> (address \<Rightarrow> byte) \<Rightarrow> (address \<Rightarrow> byte)" where
  "set_ad pm e is_write a v = store_bytes v (of_nat a) (pte_bytes pm e (pte_at pm e v a OR ad_bits is_write))"

lemma length_pte_bytes [simp]: "length (pte_bytes pm e p) = raw_pte_size pm"
  by (cases pm) simp_all

lemma pte_value_pte_bytes: "pte_value pm e (pte_bytes pm e p) = (if pm = SV32 then take_bit 32 p else p)"
  by (cases pm) (auto simp: bytes_value_value_bytes intro!: bit_word_eqI simp: bit_simps)

lemma pte_at_sv32: "take_bit 32 (pte_at SV32 e v a) = pte_at SV32 e v a"
  by (rule bit_word_eqI) (auto simp: pte_at_def bit_simps dest: bit_imp_le_length)

lemma take_bit_ad_bits: "take_bit 32 (ad_bits is_write) = ad_bits is_write"
  by (rule bit_word_eqI) (auto simp: bit_simps bit_ad_bits)

lemma pte_at_set_ad_same: "pte_at pm e (set_ad pm e is_write a v) a = pte_at pm e v a OR ad_bits is_write"
proof -
  have "load_bytes (set_ad pm e is_write a v) (of_nat a) (length (pte_bytes pm e (pte_at pm e v a OR ad_bits is_write))) =
      pte_bytes pm e (pte_at pm e v a OR ad_bits is_write)"
    unfolding set_ad_def by (rule load_store_same) (cases pm; simp)
  then have "load_bytes (set_ad pm e is_write a v) (of_nat a) (raw_pte_size pm) =
      pte_bytes pm e (pte_at pm e v a OR ad_bits is_write)" by simp
  then have "pte_at pm e (set_ad pm e is_write a v) a = pte_value pm e (pte_bytes pm e (pte_at pm e v a OR ad_bits is_write))"
    by (simp add: pte_at_def)
  also have "\<dots> = pte_at pm e v a OR ad_bits is_write"
    using pte_at_sv32 [of e v a] by (auto simp: pte_value_pte_bytes take_bit_ad_bits)
  finally show ?thesis .
qed

lemma ad_similar_or: "ad_similar p (p OR ad_bits is_write)"
  by (rule ad_similarI) (auto simp: bit_simps bit_ad_bits)

lemma load_store_disjoint:
  assumes "a + length bs \<le> 2 ^ 64" "b + n \<le> 2 ^ 64" "a + length bs \<le> b \<or> b + n \<le> a"
  shows "load_bytes (store_bytes v (of_nat a :: address) bs) (of_nat b) n = load_bytes v (of_nat b) n"
proof (rule nth_equalityI)
  fix i assume "i < length (load_bytes (store_bytes v (of_nat a :: address) bs) (of_nat b) n)"
  then have i: "i < n" by simp
  have "\<not> unat (of_nat (b + i) - of_nat a :: address) < length bs"
  proof
    define k where "k = unat (of_nat (b + i) - of_nat a :: address)"
    assume "unat (of_nat (b + i) - of_nat a :: address) < length bs"
    then have k: "k < length bs" by (simp add: k_def)
    have "(of_nat (b + i) :: address) = of_nat (a + k)" by (simp add: k_def)
    then have "unat (of_nat (b + i) :: address) = unat (of_nat (a + k) :: address)" by (simp only:)
    moreover have "unat (of_nat (b + i) :: address) = b + i" by (rule unat_of_nat_small) (use assms(2) i in simp)
    moreover have "unat (of_nat (a + k) :: address) = a + k" by (rule unat_of_nat_small) (use assms(1) k in simp)
    ultimately show False using assms(3) i k by linarith
  qed
  then show "load_bytes (store_bytes v (of_nat a) bs) (of_nat b) n ! i = load_bytes v (of_nat b) n ! i"
    using i assms(1) by (simp add: store_bytes_apply)
qed simp

lemma store_load_id: "n \<le> 2 ^ 64 \<Longrightarrow> store_bytes v (a :: address) (load_bytes v a n) = v"
  by (rule ext) (simp add: store_bytes_apply)

lemma set_ad_similar:
  assumes "raw_pte_size pm dvd a" "a < 2 ^ 63"
  shows "tables_similar pm e v (set_ad pm e is_write a v)"
  unfolding tables_similar_def
proof (intro allI impI)
  fix b assume b: "raw_pte_size pm dvd b" "b < 2 ^ 63"
  show "ad_similar (pte_at pm e v b) (pte_at pm e (set_ad pm e is_write a v) b)"
  proof (cases "b = a")
    case True
    then show ?thesis by (simp add: pte_at_set_ad_same ad_similar_or)
  next
    case False
    then have "a + raw_pte_size pm \<le> b \<or> b + raw_pte_size pm \<le> a" using assms(1) b(1) by (cases pm) (auto elim!: dvdE)
    moreover have "raw_pte_size pm \<le> 8" by (cases pm) simp_all
    ultimately have "load_bytes (set_ad pm e is_write a v) (of_nat b) (raw_pte_size pm) = load_bytes v (of_nat b) (raw_pte_size pm)"
      unfolding set_ad_def using assms(2) b(2) by (intro load_store_disjoint) auto
    then show ?thesis by (simp add: pte_at_def)
  qed
qed

text \<open>Where the bits are set already, nothing changes.\<close>

lemma pte_bytes_pte_at: "pte_bytes pm e (pte_at pm e v a) = load_bytes v (of_nat a) (raw_pte_size pm)"
proof (cases pm)
  case SV32
  have "le_bytes 4 (of_le_bytes bs :: u32) = bs" if "length bs = 4" for bs using that by (simp add: le_bytes_of_le_bytes)
  moreover have "(ucast (ucast w :: u64) :: u32) = w" for w by (rule bit_word_eqI) (auto simp: bit_simps)
  ultimately show ?thesis by (cases e) (simp_all add: SV32 pte_at_def value_bytes_def bytes_value_def)
next
  case SV39
  have "le_bytes 8 (of_le_bytes bs :: u64) = bs" if "length bs = 8" for bs using that by (simp add: le_bytes_of_le_bytes)
  then show ?thesis by (cases e) (simp_all add: SV39 pte_at_def value_bytes_def bytes_value_def)
qed

lemma set_ad_id:
  assumes "pte_at pm e v a OR ad_bits is_write = pte_at pm e v a"
  shows "set_ad pm e is_write a v = v"
  unfolding set_ad_def assms pte_bytes_pte_at by (rule store_load_id) (cases pm; simp)

section \<open>Properties\<close>

text \<open>The fields that an entry was made from are read back.\<close>

lemma pte_make_fields:
  "pte_v (sv39_make v r w x u g a d rsw ppn) = v \<and> pte_r (sv39_make v r w x u g a d rsw ppn) = r \<and>
   pte_w (sv39_make v r w x u g a d rsw ppn) = w \<and> pte_x (sv39_make v r w x u g a d rsw ppn) = x \<and>
   pte_u (sv39_make v r w x u g a d rsw ppn) = u \<and> pte_g (sv39_make v r w x u g a d rsw ppn) = g \<and>
   pte_a (sv39_make v r w x u g a d rsw ppn) = a \<and> pte_d (sv39_make v r w x u g a d rsw ppn) = d \<and>
   pte_rsw (sv39_make v r w x u g a d rsw ppn) = take_bit 2 rsw \<and>
   pte_ppn (sv39_make v r w x u g a d rsw ppn) = take_bit 44 ppn"
proof -
  have f: "pte_flag n (Sv39Pte raw) = bit raw n" for n raw using pte_flag_bit [of n SV39 raw] by simp
  have three: "(3 :: u64) = mask 2" by (simp add: mask_eq_exp_minus_1)
  have b: "bit (bool_to_word t :: u64) n \<longleftrightarrow> t \<and> n = 0" for t n by (simp add: bool_to_word_def bit_1_iff)
  have "pte_rsw (sv39_make v r w x u g a d rsw ppn) = take_bit 2 rsw"
    unfolding sv39_make_def pte_rsw_def three
    by (rule bit_word_eqI) (auto simp: bit_simps b paging_masks simp del: push_bit_Suc)
  moreover have "pte_ppn (sv39_make v r w x u g a d rsw ppn) = take_bit 44 ppn"
    unfolding sv39_make_def three by (rule bit_word_eqI) (auto simp: bit_simps b paging_masks simp del: push_bit_Suc)
  ultimately show ?thesis
    by (simp add: pte_flags f sv39_make_def three bit_simps b paging_masks del: push_bit_Suc)
qed

section \<open>The algorithm of the architecture\<close>

lemma arch_lookup_eq:
  "arch_lookup pm e v va n table =
     (if list_ex (\<lambda>a. pte_reserved pm (pte_at pm e v a)) (pt_reads pm e v va n table) then None else pt_lookup pm e v va n table)"
proof (induction n arbitrary: table)
  case (Suc n)
  show ?case by (simp add: Let_def Suc.IH)
qed simp

lemma arch_permits_eq:
  "arch_permits sstatus pte mode \<longleftrightarrow> leaf_permits sstatus pte mode \<and> \<not> (am_priv mode = SUPERVISOR \<and> am_opkind mode = 0 \<and> bit pte 4)"
  by (cases "am_priv mode") (auto simp: arch_permits_def leaf_permits_def Let_def)

lemma arch_walk_eq:
  "arch_walk pm e v satp sstatus mode va =
     (if arch_unchecked pm e v satp mode va then Inl (page_fault mode) else walk_spec pm e v satp sstatus mode va)"
  by (cases "pt_resolve pm e v satp va")
    (auto simp: arch_walk_def arch_unchecked_def walk_spec_def arch_lookup_eq arch_permits_eq pt_resolve_def simp del: pt_lookup.simps pt_reads.simps)
text \<open>
  Claim C12: the page table walker computes the address translation, for Sv32 and Sv39, every root table, address and access
  mode, over one cache (with blocks whose size divides 256 bytes) over the memory bus, when the entries it reads lie in
  the cached memory.  The walk gives the physical address, the address of the
  leaf and the leaf, superpages included, or the page fault of that kind of access, as the lookup \<open>walk_spec\<close> on natural numbers
  does, and it changes nothing that a client of the memory sees.  Compared with the algorithm of the architecture, \<open>arch_walk\<close>,
  the result is the same except where the architecture faults for one of exactly three reasons that the code does not test:
  the address is not canonical, an entry that was read has a reserved bit set, or the supervisor fetches from a user page.
\<close>

theorem walker_computes_translation:
  assumes "cache_config_ok l1" "block_bytes l1 dvd 256"
    "cache_inv ram.on_bus_inv ram.on_bus_view 0xf0000000 l1 c" "satp AND SATP_MODE_MASK pm \<noteq> 0"
    "pt_admitted (cache_admits ram.on_bus_admits 0xf0000000) pm
       (pt_reads pm host (cache_view ram.on_bus_view l1 c) (unat va) (max_level_idx pm + 1) (satp_root pm satp))"
  shows "\<exists>c' r. page_table_walk host (cache_ops l1 rnd (bus_ops (device_ops other) host)) pm va satp sstatus mode c = (c', r) \<and>
    r = walk_spec pm host (cache_view ram.on_bus_view l1 c) satp sstatus mode (unat va) \<and>
    arch_walk pm host (cache_view ram.on_bus_view l1 c) satp sstatus mode (unat va) =
      (if arch_unchecked pm host (cache_view ram.on_bus_view l1 c) satp mode (unat va) then Inl (page_fault mode) else r) \<and>
    cache_inv ram.on_bus_inv ram.on_bus_view 0xf0000000 l1 c' \<and>
    cache_view ram.on_bus_view l1 c' = cache_view ram.on_bus_view l1 c"
proof -
  have "\<exists>c'. page_table_walk host (cache_ops l1 rnd (bus_ops (device_ops other) host)) pm va satp sstatus mode c =
      (c', walk_spec pm host (cache_view ram.on_bus_view l1 c) satp sstatus mode (unat va)) \<and>
    cache_inv ram.on_bus_inv ram.on_bus_view 0xf0000000 l1 c' \<and>
    cache_view ram.on_bus_view l1 c' = cache_view ram.on_bus_view l1 c"
    by (rule frontend_contract.page_table_walk_contract [OF cache_over.cached_contract [OF ram_cache [OF assms(1,2)]] assms(3,5) _ assms(4)])
      (simp add: cache_ops_def bus_ops_def)
  then show ?thesis by (auto simp: arch_walk_eq)
qed

text \<open>
  The witness: an Sv32 root table at page 1 whose second entry is a superpage leaf for physical
  page \<open>0x800\<close>.
\<close>

lemma cached_memory_with:
  assumes cfg: "cache_config_ok l1" "block_bytes l1 dvd 256"
    and bs: "bs \<noteq> []" "cache_admits ram.on_bus_admits 0xf0000000 a (length bs)"
  shows "\<exists>c :: unit device data_bus cache. cache_inv ram.on_bus_inv ram.on_bus_view 0xf0000000 l1 c \<and>
    cache_view ram.on_bus_view l1 c = store_bytes (\<lambda>_. 0) a bs"
proof -
  note over = ram_cache [OF cfg, where other = absent_device_ops and endian = LITTLE]
  have new: "cache_inv ram.on_bus_inv ram.on_bus_view 0xf0000000 l1 (cache_new l1 (ram_bus :: unit device data_bus))"
    by (rule cache_over.new_inv [OF over ram_bus_inv])
  have zero: "cache_view ram.on_bus_view l1 (cache_new l1 (ram_bus :: unit device data_bus)) = (\<lambda>_. 0)"
    by (simp add: cache_view_new [OF cfg(1)] ram_bus_view)
  show ?thesis
    using frontend_contract.write_contract [OF cache_over.cached_contract [OF over] new bs(1), of "plain_address a"] bs(2) zero
    unfolding aw_addr_plain by metis
qed

definition superpage_view :: "address \<Rightarrow> byte" where
  "superpage_view = store_bytes (\<lambda>_. 0) 0x1004 [0xCF, 0, 0x20, 0]"

lemma superpage_admitted: "cache_admits ram.on_bus_admits 0xf0000000 0x1004 4"
  unfolding cache_admits_def ram.on_bus_admits_def
  by (simp add: range_contains_def ram_range_def memory_admits_def memory_constants)

lemma superpage_memory:
  "\<exists>c :: unit device data_bus cache. cache_inv ram.on_bus_inv ram.on_bus_view 0xf0000000 (preset_cache RP_LRU WP_BACK) c \<and>
     cache_view ram.on_bus_view (preset_cache RP_LRU WP_BACK) c = superpage_view"
proof -
  have four: "length [0xCF, 0, 0x20, 0 :: byte] = 4" by simp
  show ?thesis
    using cached_memory_with [OF preset_cache_ok, of "[0xCF, 0, 0x20, 0]" "0x1004" RP_LRU WP_BACK] superpage_admitted
    unfolding superpage_view_def four by blast
qed

lemma superpage_pte: "pte_at SV32 LITTLE superpage_view 0x1004 = 0x2000CF"
  by (simp add: pte_at_def superpage_view_def load_bytes_def upt_rec bytes_value_def)

lemma superpage_lookup:
  "pt_lookup SV32 LITTLE superpage_view 0x403004 (Suc 1) 1 = Some (1, 0x1004, 0x2000CF)"
  "pt_reads SV32 LITTLE superpage_view 0x403004 (Suc 1) 1 = [0x1004]"
  by (simp_all add: pte_address_def vpn_field_def page_bytes_def superpage_pte ppn_of_def)

lemma superpage_spec:
  "walk_spec SV32 LITTLE superpage_view 0x80000001 0 (am_pack 0 SUPERVISOR OP_READ 0) 0x403004 =
     Inr \<lparr>wk_phys = 0x803004, wk_pte_addr = 0x1004, wk_leaf_pte = Some (Sv32Pte 0x2000CF), wk_pte_was_written = False\<rparr>"
proof -
  have "leaf_permits 0 0x2000CF (am_pack 0 SUPERVISOR OP_READ 0)"
    by (simp add: leaf_permits_def am_priv_pack am_opkind_pack)
  moreover have "pt_resolve SV32 LITTLE superpage_view 0x80000001 0x403004 = Some (1, 0x1004, 0x2000CF)"
    using superpage_lookup(1) by (simp add: pt_resolve_def satp_root_def)
  ultimately show ?thesis by (simp add: walk_spec_def leaf_address_def ppn_of_def page_bytes_def)
qed

theorem walker_computes_translation_witness:
  "\<exists>c c'. page_table_walk LITTLE (cache_ops (preset_cache RP_LRU WP_BACK) (\<lambda>_. 0) (bus_ops (device_ops absent_device_ops) LITTLE))
      SV32 0x403004 0x80000001 0 (am_pack 0 SUPERVISOR OP_READ 0) c =
    (c', Inr \<lparr>wk_phys = 0x803004, wk_pte_addr = 0x1004, wk_leaf_pte = Some (Sv32Pte 0x2000CF), wk_pte_was_written = False\<rparr>) \<and>
    arch_walk SV32 LITTLE superpage_view 0x80000001 0 (am_pack 0 SUPERVISOR OP_READ 0) 0x403004 =
      Inr \<lparr>wk_phys = 0x803004, wk_pte_addr = 0x1004, wk_leaf_pte = Some (Sv32Pte 0x2000CF), wk_pte_was_written = False\<rparr>"
proof -
  let ?cfg = "preset_cache RP_LRU WP_BACK" and ?bus = "bus_ops (device_ops absent_device_ops) LITTLE"
  let ?inv = "cache_inv ram.on_bus_inv ram.on_bus_view 0xf0000000 ?cfg" and ?view = "cache_view ram.on_bus_view ?cfg"
  obtain c :: "unit device data_bus cache" where c: "?inv c" "?view c = superpage_view" using superpage_memory by blast
  have "satp_root SV32 0x80000001 = 1" "unat (0x403004 :: u64) = 0x403004" by (simp_all add: satp_root_def)
  moreover from this have "\<not> arch_unchecked SV32 LITTLE superpage_view 0x80000001 (am_pack 0 SUPERVISOR OP_READ 0) 0x403004"
    using superpage_lookup(2) by (simp add: arch_unchecked_def superpage_pte pte_reserved_def am_opkind_pack del: pt_reads.simps)
  moreover note walker_computes_translation [OF preset_cache_ok c(1), of "0x80000001" SV32 LITTLE "0x403004" "\<lambda>_. 0" absent_device_ops
      0 "am_pack 0 SUPERVISOR OP_READ 0"]
  ultimately show ?thesis using superpage_admitted superpage_lookup(2) by (auto simp: c(2) superpage_spec pt_admitted_def)
qed

end
