(* ===== verification/Tlb.thy ===== *)
theory Tlb
  imports Tlb_Policy Page_Table
begin

text \<open>
  The translation lookaside buffer (\<^verbatim>\<open>src/src/machine/memory/tlb/tlb.cpp\<close>, \<^verbatim>\<open>tlb.h\<close>): a
  set-associative table of translations in front of the physical memory, filled by the page
  table walker, with its flushes and the update of the accessed and dirty bits; its configuration
  (\<^verbatim>\<open>TLBConfig\<close> of \<^verbatim>\<open>machineconfig.cpp\<close>).  The signals to the user interface are left out.
\<close>

section \<open>Configuration\<close>

text \<open>The enumeration of the configuration has the values of \<^verbatim>\<open>TLBPolicyKind\<close> and is cast to it.\<close>

record TLBConfig =
  tc_vm_asid :: u32
  tc_num_sets :: nat
  tc_associativity :: nat
  tc_replacement_policy :: TLBPolicyKind

definition default_tlb_config :: TLBConfig where
  "default_tlb_config = \<lparr>tc_vm_asid = 0, tc_num_sets = 16, tc_associativity = 1, tc_replacement_policy = TPK_LRU\<rparr>"

definition copy_tlb_config :: "TLBConfig option \<Rightarrow> TLBConfig" where
  "copy_tlb_config tc = (case tc of None \<Rightarrow> default_tlb_config
   | Some tc \<Rightarrow> \<lparr>tc_vm_asid = tc_vm_asid tc, tc_num_sets = tc_num_sets tc, tc_associativity = tc_associativity tc,
       tc_replacement_policy = tc_replacement_policy tc\<rparr>)"

definition tlb_preset :: "ConfigPresets \<Rightarrow> TLBConfig \<Rightarrow> TLBConfig" where
  "tlb_preset p tc = tc\<lparr>tc_vm_asid := 0, tc_num_sets := 16, tc_associativity := 1, tc_replacement_policy := TPK_LRU\<rparr>"

definition set_vm_asid :: "u32 \<Rightarrow> TLBConfig \<Rightarrow> TLBConfig" where
  "set_vm_asid a tc = tc\<lparr>tc_vm_asid := a\<rparr>"
definition set_tlb_num_sets :: "u32 \<Rightarrow> TLBConfig \<Rightarrow> TLBConfig" where
  "set_tlb_num_sets v tc = tc\<lparr>tc_num_sets := unat (if v > 0 then v else 1)\<rparr>"
definition set_tlb_associativity :: "u32 \<Rightarrow> TLBConfig \<Rightarrow> TLBConfig" where
  "set_tlb_associativity v tc = tc\<lparr>tc_associativity := unat (if v > 0 then v else 1)\<rparr>"
definition set_tlb_replacement_policy :: "TLBPolicyKind \<Rightarrow> TLBConfig \<Rightarrow> TLBConfig" where
  "set_tlb_replacement_policy p tc = tc\<lparr>tc_replacement_policy := p\<rparr>"

definition tlb_config_eq :: "TLBConfig \<Rightarrow> TLBConfig \<Rightarrow> bool" where
  "tlb_config_eq a b = (tc_vm_asid a = tc_vm_asid b \<and> tc_num_sets a = tc_num_sets b \<and>
     tc_associativity a = tc_associativity b \<and> tc_replacement_policy a = tc_replacement_policy b)"

section \<open>State\<close>

record tlb_entry =
  te_valid :: bool
  te_asid :: u16
  te_vpn :: u64
  te_phys :: address
  te_pte_addr :: address
  te_pte_bytes :: u8
  te_lru :: u32
  te_R :: bool
  te_W :: bool
  te_X :: bool
  te_U :: bool
  te_G :: bool
  te_A :: bool
  te_D :: bool

definition empty_tlb_entry :: tlb_entry where
  "empty_tlb_entry = \<lparr>te_valid = False, te_asid = 0, te_vpn = 0, te_phys = 0, te_pte_addr = 0, te_pte_bytes = 0,
     te_lru = 0, te_R = False, te_W = False, te_X = False, te_U = False, te_G = False, te_A = False, te_D = False\<rparr>"

text \<open>
  What is fixed at construction: the memory behind the TLB and the one the walker reads
  (\<open>tv_same_mem\<close>: they are the same object), both operating on one memory state.
\<close>

record 'm tlb_env =
  tv_host :: Endian
  tv_mem :: "'m frontend_ops"
  tv_ptw :: "'m frontend_ops"
  tv_same_mem :: bool
  tv_config :: TLBConfig
  tv_xlen :: Xlen
  tv_vm_enabled :: bool
  tv_rnd :: "nat \<Rightarrow> nat"
  tv_pen_r :: u32
  tv_pen_w :: u32
  tv_pen_b :: u32
  tv_ena_b :: bool

record 'm TLB =
  tl_mem :: 'm
  tl_satp :: u64
  tl_sstatus :: u64
  tl_table :: "tlb_entry list list"
  tl_policy :: TLBPolicy
  tl_rand_calls :: nat
  tl_hit_count :: u32
  tl_miss_count :: u32
  tl_mem_reads :: u32
  tl_mem_writes :: u32
  tl_ptw_reads :: u32
  tl_ptw_writes :: u32
  tl_burst_reads :: u32
  tl_burst_writes :: u32
  tl_change_counter :: u32

abbreviation tlb_sets :: "'m tlb_env \<Rightarrow> nat" where "tlb_sets env \<equiv> tc_num_sets (tv_config env)"
abbreviation tlb_ways :: "'m tlb_env \<Rightarrow> nat" where "tlb_ways env \<equiv> tc_associativity (tv_config env)"

definition tlb_new :: "'m tlb_env \<Rightarrow> 'm \<Rightarrow> 'm TLB" where
  "tlb_new env memory = \<lparr>tl_mem = memory, tl_satp = 0, tl_sstatus = 0,
     tl_table = replicate (tlb_sets env) (replicate (tlb_ways env) empty_tlb_entry),
     tl_policy = make_tlb_policy (tc_replacement_policy (tv_config env)) (tlb_ways env) (tlb_sets env),
     tl_rand_calls = 0, tl_hit_count = 0, tl_miss_count = 0, tl_mem_reads = 0, tl_mem_writes = 0, tl_ptw_reads = 0,
     tl_ptw_writes = 0, tl_burst_reads = 0, tl_burst_writes = 0, tl_change_counter = 0\<rparr>"

definition tlb_set_index :: "'m tlb_env \<Rightarrow> u64 \<Rightarrow> nat" where
  "tlb_set_index env vpn = unat (vpn AND (of_nat (tlb_sets env) - 1))"

definition is_mode_enabled_in_satp :: "'m tlb_env \<Rightarrow> u64 \<Rightarrow> bool" where
  "is_mode_enabled_in_satp env satp_raw = (case tv_xlen env of
     XLEN_32 \<Rightarrow> satp_raw AND push_bit 31 1 \<noteq> 0
   | XLEN_64 \<Rightarrow> drop_bit 60 satp_raw AND 0xF \<noteq> 0)"

definition root_page_table_ppn :: "'m tlb_env \<Rightarrow> 'm TLB \<Rightarrow> u64" where
  "root_page_table_ppn env t = (case tv_xlen env of
     XLEN_32 \<Rightarrow> tl_satp t AND (push_bit (PPN_BITS SV32) 1 - 1)
   | XLEN_64 \<Rightarrow> tl_satp t AND (push_bit (PPN_BITS SV39) 1 - 1))"

section \<open>Flushes\<close>

text \<open>The loops over the ways of one set and over all sets; the second component tells whether an entry was invalidated.\<close>

definition invalidate_entry :: "(tlb_entry \<Rightarrow> bool) \<Rightarrow> tlb_entry \<Rightarrow> tlb_entry" where
  "invalidate_entry P e = (if te_valid e \<and> P e then e\<lparr>te_valid := False\<rparr> else e)"

definition invalidate_all :: "(tlb_entry \<Rightarrow> bool) \<Rightarrow> tlb_entry list list \<Rightarrow> tlb_entry list list" where
  "invalidate_all P = map (map (invalidate_entry P))"

definition any_match :: "(tlb_entry \<Rightarrow> bool) \<Rightarrow> tlb_entry list \<Rightarrow> bool" where
  "any_match P row = list_ex (\<lambda>e. te_valid e \<and> P e) row"

definition bump_change_counter :: "'m TLB \<Rightarrow> 'm TLB" where
  "bump_change_counter t = t\<lparr>tl_change_counter := tl_change_counter t + 1\<rparr>"

definition flush_single :: "'m tlb_env \<Rightarrow> u64 \<Rightarrow> u16 \<Rightarrow> 'm TLB \<Rightarrow> 'm TLB" where
  "flush_single env va asid t =
     (let vpn = drop_bit 12 va; s = tlb_set_index env vpn;
          P = (\<lambda>e. te_vpn e = vpn \<and> (te_asid e = asid \<or> asid = 0));
          t' = t\<lparr>tl_table := (tl_table t)[s := map (invalidate_entry P) (tl_table t ! s)]\<rparr>
      in if any_match P (tl_table t ! s) then bump_change_counter t' else t')"

definition flush_all_entries :: "'m tlb_env \<Rightarrow> 'm TLB \<Rightarrow> 'm TLB" where
  "flush_all_entries env t =
     (if tlb_sets env = 0 \<or> tlb_ways env = 0 then t
      else bump_change_counter (t\<lparr>tl_table := invalidate_all (\<lambda>_. True) (tl_table t)\<rparr>))"

definition flush_by_asid :: "u16 \<Rightarrow> 'm TLB \<Rightarrow> 'm TLB" where
  "flush_by_asid asid t =
     (let P = (\<lambda>e. te_asid e = asid); t' = t\<lparr>tl_table := invalidate_all P (tl_table t)\<rparr>
      in if list_ex (any_match P) (tl_table t) then bump_change_counter t' else t')"

definition flush_by_vpn :: "u64 \<Rightarrow> 'm TLB \<Rightarrow> 'm TLB" where
  "flush_by_vpn vpn t =
     (let P = (\<lambda>e. te_vpn e = vpn); t' = t\<lparr>tl_table := invalidate_all P (tl_table t)\<rparr>
      in if list_ex (any_match P) (tl_table t) then bump_change_counter t' else t')"

definition tlb_sfence_vma :: "'m tlb_env \<Rightarrow> u64 \<Rightarrow> u64 \<Rightarrow> 'm TLB \<Rightarrow> 'm TLB" where
  "tlb_sfence_vma env vaddr asid t =
     (if vaddr = 0 \<and> asid = 0 then flush_all_entries env t
      else if vaddr \<noteq> 0 \<and> asid \<noteq> 0 then flush_single env vaddr (ucast (asid AND 0xFFFF)) t
      else if vaddr = 0 \<and> asid \<noteq> 0 then flush_by_asid (ucast (asid AND 0xFFFF)) t
      else flush_by_vpn (drop_bit 12 vaddr) t)"

definition tlb_on_csr_write :: "'m tlb_env \<Rightarrow> csr_id \<Rightarrow> u64 \<Rightarrow> 'm TLB \<Rightarrow> 'm TLB" where
  "tlb_on_csr_write env internal_id val t =
     (if internal_id = CSR_SSTATUS then t\<lparr>tl_sstatus := val\<rparr>
      else if internal_id \<noteq> CSR_SATP then t
      else let old_mode = is_mode_enabled_in_satp env (tl_satp t);
               new_mode = is_mode_enabled_in_satp env val;
               t = t\<lparr>tl_satp := val\<rparr>
           in if old_mode \<noteq> new_mode then flush_all_entries env t else t)"

section \<open>Translation\<close>

text \<open>An action of the memory behind the TLB, as an action of the TLB.\<close>

definition tl_lower :: "('m, 'a) action \<Rightarrow> ('m TLB, 'a) action" where
  "tl_lower f t = (case f (tl_mem t) of (m, r) \<Rightarrow> (t\<lparr>tl_mem := m\<rparr>, r))"

text \<open>The result: the physical address, the bytes left in the page and the place of the entry.\<close>

record TranslationResult =
  tr_phys :: address
  tr_bytes_until_page_end :: u64
  tr_entry :: "(nat \<times> nat) option"

fun tlb_lookup :: "u64 \<Rightarrow> u16 \<Rightarrow> nat \<Rightarrow> tlb_entry list \<Rightarrow> (nat \<times> tlb_entry) option" where
  "tlb_lookup vpn asid w [] = None"
| "tlb_lookup vpn asid w (e # es) =
     (if te_valid e \<and> te_vpn e = vpn \<and> te_asid e = asid then Some (w, e) else tlb_lookup vpn asid (w + 1) es)"

definition tlb_paging :: "'m tlb_env \<Rightarrow> PagingMode" where
  "tlb_paging env = (case tv_xlen env of XLEN_32 \<Rightarrow> SV32 | XLEN_64 \<Rightarrow> SV39)"

definition PAGE_MASK :: u64 where "PAGE_MASK = push_bit 12 1 - 1"

definition set_tlb_entry :: "nat \<Rightarrow> nat \<Rightarrow> tlb_entry \<Rightarrow> 'm TLB \<Rightarrow> 'm TLB" where
  "set_tlb_entry s w e t = t\<lparr>tl_table := (tl_table t)[s := (tl_table t ! s)[w := e]]\<rparr>"

text \<open>The entry that a successful walk leaves in the table; a walk that found no leaf is dereferenced all the same.\<close>

definition entry_of_walk :: "'m tlb_env \<Rightarrow> u16 \<Rightarrow> u64 \<Rightarrow> WalkResult \<Rightarrow> tlb_entry \<Rightarrow> tlb_entry result" where
  "entry_of_walk env asid vpn res old = (case wk_leaf_pte res of None \<Rightarrow> Inl NullDereference
   | Some pte \<Rightarrow> Inr (old\<lparr>te_valid := True, te_asid := asid, te_vpn := vpn, te_phys := wk_phys res AND NOT PAGE_MASK,
       te_pte_addr := wk_pte_addr res, te_pte_bytes := of_nat (raw_pte_size (tlb_paging env)),
       te_R := pte_r pte, te_W := pte_w pte, te_X := pte_x pte, te_U := pte_u pte, te_G := pte_g pte,
       te_A := pte_a pte, te_D := pte_d pte\<rparr>))"

definition tlb_count_walk :: "'m tlb_env \<Rightarrow> WalkResult \<Rightarrow> 'm TLB \<Rightarrow> 'm TLB" where
  "tlb_count_walk env res t =
     (let t = (if wk_pte_was_written res then
                 (if tv_same_mem env then t\<lparr>tl_mem_writes := tl_mem_writes t + 1\<rparr>
                  else t\<lparr>tl_ptw_writes := tl_ptw_writes t + 1\<rparr>) else t)
      in t\<lparr>tl_mem_reads := tl_mem_reads t + 1\<rparr>)"

definition tlb_fill ::
  "'m tlb_env \<Rightarrow> u16 \<Rightarrow> u64 \<Rightarrow> u64 \<Rightarrow> WalkResult \<Rightarrow> ('m TLB, TranslationResult) action" where
  "tlb_fill env asid vpn off res t0 =
     (let t = tlb_count_walk env res t0; s = tlb_set_index env vpn;
          (victim, calls) = select_way (tv_rnd env) (tlb_ways env) (tl_policy t) (tl_rand_calls t) s
      in case entry_of_walk env asid vpn res (tl_table t ! s ! victim) of
           Inl e \<Rightarrow> (t, Inl e)
         | Inr ent \<Rightarrow>
             ((set_tlb_entry s victim ent t)\<lparr>tl_rand_calls := calls,
                tl_policy := notify_access (tlb_ways env) (tl_policy t) s victim True,
                tl_miss_count := tl_miss_count t + 1\<rparr>,
              Inr \<lparr>tr_phys = (wk_phys res AND NOT PAGE_MASK) + off, tr_bytes_until_page_end = 4096 - off,
                   tr_entry = Some (s, victim)\<rparr>))"

definition should_translate :: "'m tlb_env \<Rightarrow> AccessMode \<Rightarrow> 'm TLB \<Rightarrow> bool" where
  "should_translate env mode t =
     (tv_vm_enabled env \<and> is_mode_enabled_in_satp env (tl_satp t) \<and> am_priv mode \<noteq> MACHINE)"

definition translate_virtual_to_physical :: "'m tlb_env \<Rightarrow> AddressWithMode \<Rightarrow> ('m TLB, TranslationResult) action" where
  "translate_virtual_to_physical env vaddr t =
     (let virt = aw_addr vaddr; mode = aw_mode vaddr; asid = am_asid mode in
      if \<not> should_translate env mode t then
        (t, Inr \<lparr>tr_phys = virt, tr_bytes_until_page_end = -1, tr_entry = None\<rparr>)
      else let off = virt AND PAGE_MASK; vpn = drop_bit 12 virt; s = tlb_set_index env vpn in
      case tlb_lookup vpn asid 0 (tl_table t ! s) of
        Some (w, e) \<Rightarrow>
          if \<not> check_permissions (te_U e) (te_R e) (te_W e) (te_X e) (tl_sstatus t) (am_priv mode) (am_opkind mode)
          then (t, Inl (page_fault mode))
          else (t\<lparr>tl_policy := notify_access (tlb_ways env) (tl_policy t) s w True, tl_hit_count := tl_hit_count t + 1\<rparr>,
            Inr \<lparr>tr_phys = (te_phys e AND NOT PAGE_MASK) + off, tr_bytes_until_page_end = 4096 - off, tr_entry = Some (s, w)\<rparr>)
      | None \<Rightarrow>
          act_bind (tl_lower (page_table_walk (tv_host env) (tv_ptw env) (tlb_paging env) virt (tl_satp t) (tl_sstatus t) mode))
            (tlb_fill env asid vpn off) t)"

section \<open>Accessed and dirty bits\<close>

text \<open>The two instances of \<^verbatim>\<open>ensure_ad_bits_impl\<close>: the raw entry is a \<^verbatim>\<open>uint32_t\<close> or a \<^verbatim>\<open>uint64_t\<close>.\<close>

definition ensure_ad_bits_impl ::
  "'a::len itself \<Rightarrow> 'm tlb_env \<Rightarrow> nat \<times> nat \<Rightarrow> AccessOp \<Rightarrow> ('m TLB, bool) action" where
  "ensure_ad_bits_impl T env loc op t0 = (case loc of (s, w) \<Rightarrow>
     let a = plain_address (te_pte_addr (tl_table t0 ! s ! w));
         mark = (\<lambda>t. let e = tl_table t ! s ! w
           in set_tlb_entry s w (e\<lparr>te_A := True, te_D := (if op = OP_WRITE then True else te_D e)\<rparr>) t)
     in act_bind (tl_lower (fm_read (tv_ptw env) a (size_of TYPE('a)) AE_REGULAR)) (\<lambda>(bytes, n).
          let raw = (of_object_bytes (tv_host env) bytes :: 'a word);
              updated = raw OR push_bit 6 1 OR (if op = OP_WRITE then push_bit 7 1 else 0)
          in if updated \<noteq> raw then
               act_bind (tl_lower (fm_write (tv_ptw env) a (object_bytes (tv_host env) (size_of TYPE('a)) updated) AE_REGULAR))
                 (\<lambda>_ t. (mark t, Inr True))
             else (\<lambda>t. (mark t, Inr False))) t0)"

definition ensure_ad_bits :: "'m tlb_env \<Rightarrow> nat \<times> nat \<Rightarrow> AccessOp \<Rightarrow> ('m TLB, bool) action" where
  "ensure_ad_bits env loc op t = (case loc of (s, w) \<Rightarrow>
     if te_pte_bytes (tl_table t ! s ! w) = 4 then ensure_ad_bits_impl TYPE(32) env loc op t
     else ensure_ad_bits_impl TYPE(64) env loc op t)"

section \<open>Reads and writes\<close>

definition tlb_ensure :: "'m tlb_env \<Rightarrow> AccessMode \<Rightarrow> TranslationResult \<Rightarrow> AccessOp \<Rightarrow> ('m TLB, unit) action" where
  "tlb_ensure env mode tr op t = (case tr_entry tr of
     Some loc \<Rightarrow> if should_translate env mode t then ignore_result (ensure_ad_bits env loc op) t else (t, Inr ())
   | None \<Rightarrow> (t, Inr ()))"

text \<open>
  The loops over the pages of an access; \<open>fuel\<close> bounds the number of iterations, and every
  iteration that makes progress leaves fewer bytes.
\<close>

fun translate_and_read ::
  "nat \<Rightarrow> 'm tlb_env \<Rightarrow> u64 \<Rightarrow> AccessMode \<Rightarrow> nat \<Rightarrow> AccessEffects \<Rightarrow> ('m TLB, byte list \<times> nat) action" where
  "translate_and_read fuel env cur_virt mode 0 opts = act_return ([], 0)"
| "translate_and_read 0 env cur_virt mode (Suc n) opts = act_throw NonTermination"
| "translate_and_read (Suc fuel) env cur_virt mode (Suc n) opts =
     act_bind (translate_virtual_to_physical env \<lparr>aw_addr = cur_virt, aw_mode = mode\<rparr>) (\<lambda>tr.
     act_bind (tlb_ensure env mode tr OP_READ) (\<lambda>_.
     let bytes_to_read = min (Suc n) (unat (tr_bytes_until_page_end tr)) in
     act_bind (tl_lower (fm_read (tv_mem env) (plain_address (tr_phys tr)) bytes_to_read opts)) (\<lambda>(bs, k).
     act_bind (translate_and_read fuel env (cur_virt + of_nat bytes_to_read) mode (Suc n - bytes_to_read) opts) (\<lambda>(bs', k').
     act_return (bs @ bs', k + k')))))"

fun translate_and_write ::
  "nat \<Rightarrow> 'm tlb_env \<Rightarrow> u64 \<Rightarrow> AccessMode \<Rightarrow> byte list \<Rightarrow> AccessEffects \<Rightarrow> ('m TLB, write_result) action" where
  "translate_and_write fuel env cur_virt mode [] opts = act_return write_result_zero"
| "translate_and_write 0 env cur_virt mode (b # bs) opts = act_throw NonTermination"
| "translate_and_write (Suc fuel) env cur_virt mode (b # bs) opts =
     act_bind (translate_virtual_to_physical env \<lparr>aw_addr = cur_virt, aw_mode = mode\<rparr>) (\<lambda>tr.
     act_bind (tlb_ensure env mode tr OP_WRITE) (\<lambda>_.
     let src = b # bs; bytes_to_write = min (length src) (unat (tr_bytes_until_page_end tr)) in
     act_bind (tl_lower (fm_write (tv_mem env) (plain_address (tr_phys tr)) (take bytes_to_write src) opts)) (\<lambda>wr.
     act_bind (translate_and_write fuel env (cur_virt + of_nat bytes_to_write) mode (drop bytes_to_write src) opts) (\<lambda>wr'.
     act_return (write_result_add wr wr')))))"

definition tlb_read :: "'m tlb_env \<Rightarrow> AddressWithMode \<Rightarrow> nat \<Rightarrow> AccessEffects \<Rightarrow> ('m TLB, byte list \<times> nat) action" where
  "tlb_read env src sz opts = translate_and_read sz env (aw_addr src) (aw_mode src) sz opts"

definition tlb_write :: "'m tlb_env \<Rightarrow> AddressWithMode \<Rightarrow> byte list \<Rightarrow> AccessEffects \<Rightarrow> ('m TLB, write_result) action" where
  "tlb_write env dst src opts = translate_and_write (length src) env (aw_addr dst) (aw_mode dst) src opts"

section \<open>The remaining operations\<close>

definition tlb_sync :: "'m tlb_env \<Rightarrow> ('m TLB, unit) action" where
  "tlb_sync env = tl_lower (fm_sync (tv_mem env))"

definition tlb_get_change_counter :: "'m tlb_env \<Rightarrow> 'm TLB \<Rightarrow> u32" where
  "tlb_get_change_counter env t =
     fm_change_counter (tv_mem env) (tl_mem t) +
     (if tv_same_mem env then 0 else fm_change_counter (tv_ptw env) (tl_mem t))"

definition reverse_lookup :: "'m TLB \<Rightarrow> address \<Rightarrow> u64 option" where
  "reverse_lookup t paddr =
     (let ppn = drop_bit 12 paddr; offset = paddr AND 0xFFF
      in case find (\<lambda>e. te_valid e \<and> drop_bit 12 (te_phys e) = ppn) (concat (tl_table t)) of
           Some e \<Rightarrow> Some (push_bit 12 (te_vpn e) OR offset)
         | None \<Rightarrow> None)"

definition tlb_get_read_count :: "'m tlb_env \<Rightarrow> 'm TLB \<Rightarrow> u32" where
  "tlb_get_read_count env t = tl_mem_reads t + (if tv_same_mem env then 0 else tl_ptw_reads t)"

definition tlb_get_write_count :: "'m tlb_env \<Rightarrow> 'm TLB \<Rightarrow> u32" where
  "tlb_get_write_count env t = tl_mem_writes t + (if tv_same_mem env then 0 else tl_ptw_writes t)"

definition tlb_get_stall_count :: "'m tlb_env \<Rightarrow> 'm TLB \<Rightarrow> u32" where
  "tlb_get_stall_count env t =
     (let st_cycles = tl_mem_reads t * (tv_pen_r env - 1) + tl_mem_writes t * (tv_pen_w env - 1) + tl_miss_count t
      in if tv_ena_b env then
           st_cycles - (tl_burst_reads t * (tv_pen_r env - tv_pen_b env) + tl_burst_writes t * (tv_pen_w env - tv_pen_b env))
         else st_cycles)"

definition tlb_reset :: "'m TLB \<Rightarrow> 'm TLB" where
  "tlb_reset t = t\<lparr>tl_table := invalidate_all (\<lambda>_. True) (tl_table t), tl_hit_count := 0, tl_miss_count := 0,
     tl_mem_reads := 0, tl_mem_writes := 0, tl_burst_reads := 0, tl_burst_writes := 0, tl_change_counter := 0\<rparr>"

text \<open>The TLB as a memory of the core.\<close>

definition tlb_ops :: "'m tlb_env \<Rightarrow> 'm TLB frontend_ops" where
  "tlb_ops env = \<lparr>fm_write = tlb_write env, fm_read = tlb_read env, fm_sync = tlb_sync env,
     fm_sfence_vma = (\<lambda>vaddr asid t. (tlb_sfence_vma env vaddr asid t, Inr ())),
     fm_location_status = default_location_status, fm_change_counter = tlb_get_change_counter env,
     fm_endian = fm_endian (tv_mem env)\<rparr>"

section \<open>Specification\<close>

text \<open>
  The translation that the access must get: the address itself when paging is off or the access is
  made in machine mode, otherwise what the page tables in memory say.
\<close>

definition translate_spec ::
  "'m tlb_env \<Rightarrow> (address \<Rightarrow> byte) \<Rightarrow> 'm TLB \<Rightarrow> AddressWithMode \<Rightarrow> (address \<times> u64) result" where
  "translate_spec env v t vaddr =
     (let va = unat (aw_addr vaddr); mode = aw_mode vaddr in
      if \<not> should_translate env mode t then Inr (aw_addr vaddr, -1)
      else case pt_resolve (tlb_paging env) (tv_host env) v (tl_satp t) va of
        None \<Rightarrow> Inl (page_fault mode)
      | Some (i, a, pte) \<Rightarrow> if leaf_permits (tl_sstatus t) pte mode
          then Inr (of_nat (leaf_address (tlb_paging env) i pte va), of_nat (4096 - va mod 4096))
          else Inl (page_fault mode))"

text \<open>An entry is coherent when the tables in memory resolve its page as it says.\<close>

definition entry_coherent :: "PagingMode \<Rightarrow> Endian \<Rightarrow> (address \<Rightarrow> byte) \<Rightarrow> u64 \<Rightarrow> tlb_entry \<Rightarrow> bool" where
  "entry_coherent pm e v satp ent = (case pt_resolve pm e v satp (unat (te_vpn ent) * 4096) of
     None \<Rightarrow> False
   | Some (i, a, pte) \<Rightarrow> te_phys ent = of_nat (leaf_address pm i pte (unat (te_vpn ent) * 4096)) \<and>
       te_pte_addr ent = of_nat a \<and> te_pte_bytes ent = of_nat (raw_pte_size pm) \<and>
       te_R ent = bit pte 1 \<and> te_W ent = bit pte 2 \<and> te_X ent = bit pte 3 \<and> te_U ent = bit pte 4)"

definition tlb_coherent :: "'m tlb_env \<Rightarrow> (address \<Rightarrow> byte) \<Rightarrow> u16 \<Rightarrow> 'm TLB \<Rightarrow> bool" where
  "tlb_coherent env v asid t = (\<forall>row \<in> set (tl_table t). \<forall>ent \<in> set row. te_valid ent \<and> te_asid ent = asid \<longrightarrow>
     entry_coherent (tlb_paging env) (tv_host env) v (tl_satp t) ent)"

definition tlb_shape :: "'m tlb_env \<Rightarrow> 'm TLB \<Rightarrow> bool" where
  "tlb_shape env t = (length (tl_table t) = tlb_sets env \<and> (\<forall>row \<in> set (tl_table t). length row = tlb_ways env) \<and>
     tlb_policy_inv (tlb_ways env) (tlb_sets env) (tl_policy t))"

definition tlb_invariant :: "('m \<Rightarrow> bool) \<Rightarrow> 'm tlb_env \<Rightarrow> 'm TLB \<Rightarrow> bool" where
  "tlb_invariant minv env t = (tlb_shape env t \<and> minv (tl_mem t))"

text \<open>The memory admits the reads of the walk that resolves an address.\<close>

definition tables_admitted :: "(address \<Rightarrow> nat \<Rightarrow> bool) \<Rightarrow> 'm tlb_env \<Rightarrow> (address \<Rightarrow> byte) \<Rightarrow> 'm TLB \<Rightarrow> address \<Rightarrow> bool" where
  "tables_admitted admits env v t a = pt_admitted admits (tlb_paging env)
     (pt_reads (tlb_paging env) (tv_host env) v (unat a) (max_level_idx (tlb_paging env) + 1)
        (satp_root (tlb_paging env) (tl_satp t)))"

definition tlb_config_ok :: "TLBConfig \<Rightarrow> bool" where
  "tlb_config_ok tc = (0 < tc_num_sets tc \<and> tc_num_sets tc \<le> 2 ^ 32 \<and> 0 < tc_associativity tc)"

section \<open>Lemmas on the table\<close>

lemma page_mask_eq: "PAGE_MASK = mask 12"
  unfolding PAGE_MASK_def by (rule low_mask_eq)

lemma tlb_set_index_bound: "tlb_config_ok (tv_config env) \<Longrightarrow> tlb_set_index env vpn < tlb_sets env"
proof -
  assume ok: "tlb_config_ok (tv_config env)"
  have m: "(of_nat (tlb_sets env) - 1 :: u64) = of_nat (tlb_sets env - 1)" using ok by (simp add: tlb_config_ok_def of_nat_diff)
  have "unat (vpn AND of_nat (tlb_sets env - 1)) \<le> unat (of_nat (tlb_sets env - 1) :: u64)"
    by (simp add: word_and_le1 flip: word_le_nat_alt)
  also have "unat (of_nat (tlb_sets env - 1) :: u64) = tlb_sets env - 1"
    using ok by (intro unat_of_nat_small) (auto simp: tlb_config_ok_def)
  finally show ?thesis using ok unfolding tlb_set_index_def tlb_config_ok_def m by linarith
qed

lemma tlb_lookup_Some:
  "tlb_lookup vpn asid k row = Some (w, e) \<Longrightarrow>
     k \<le> w \<and> w - k < length row \<and> row ! (w - k) = e \<and> te_valid e \<and> te_vpn e = vpn \<and> te_asid e = asid"
proof (induction row arbitrary: k)
  case (Cons e' row)
  show ?case
  proof (cases "te_valid e' \<and> te_vpn e' = vpn \<and> te_asid e' = asid")
    case True
    then show ?thesis using Cons.prems by simp
  next
    case False
    then have "tlb_lookup vpn asid (k + 1) row = Some (w, e)" using Cons.prems by (simp split: if_splits)
    from Cons.IH [OF this] show ?thesis by (auto simp: nth_Cons' Suc_diff_Suc less_diff_conv)
  qed
qed simp

lemma tlb_row:
  assumes "tlb_shape env t" "s < tlb_sets env"
  shows "tl_table t ! s \<in> set (tl_table t)" "length (tl_table t ! s) = tlb_ways env" "s < length (tl_table t)"
  using assms nth_mem [of s "tl_table t"] by (auto simp: tlb_shape_def)

lemma ball_table_update:
  assumes "\<forall>row \<in> set table. \<forall>e \<in> set row. P e" "P ent" "s < length table"
  shows "\<forall>row \<in> set (table[s := (table ! s)[w := ent]]). \<forall>e \<in> set row. P e"
proof (rule ball_list_update [OF assms(1)])
  show "\<forall>e \<in> set ((table ! s)[w := ent]). P e"
    by (rule ball_list_update) (use assms nth_mem in auto)
qed

lemma set_tlb_entry_shape: "tlb_shape env t \<Longrightarrow> s < tlb_sets env \<Longrightarrow> tlb_shape env (set_tlb_entry s w e t)"
  using tlb_row(2) [of env t s] ball_list_update [of "tl_table t" "\<lambda>row. length row = tlb_ways env" "(tl_table t ! s)[w := e]" s]
  by (simp add: tlb_shape_def set_tlb_entry_def)

lemma set_tlb_entry_coherent:
  assumes "tlb_coherent env v asid t" "s < length (tl_table t)"
    "te_valid e \<Longrightarrow> te_asid e = asid \<Longrightarrow> entry_coherent (tlb_paging env) (tv_host env) v (tl_satp t) e"
  shows "tlb_coherent env v asid (set_tlb_entry s w e t)"
  unfolding tlb_coherent_def set_tlb_entry_def
  using ball_table_update [of "tl_table t" "\<lambda>ent. te_valid ent \<and> te_asid ent = asid \<longrightarrow>
      entry_coherent (tlb_paging env) (tv_host env) v (tl_satp t) ent" e s w] assms
  by (simp add: tlb_coherent_def)

lemma tlb_coherent_cong:
  "tl_table t' = tl_table t \<Longrightarrow> tl_satp t' = tl_satp t \<Longrightarrow> tlb_coherent env v asid t' = tlb_coherent env v asid t"
  by (simp add: tlb_coherent_def)

lemma tlb_shape_cong:
  "tl_table t' = tl_table t \<Longrightarrow> tlb_policy_inv (tlb_ways env) (tlb_sets env) (tl_policy t') \<Longrightarrow> tlb_shape env t \<Longrightarrow> tlb_shape env t'"
  by (simp add: tlb_shape_def)

lemma entry_coherent_similar:
  assumes "tables_similar pm e v v'" "entry_coherent pm e v satp ent"
  shows "entry_coherent pm e v' satp ent"
proof -
  let ?va = "unat (te_vpn ent) * 4096"
  have rel: "rel_option leaf_similar (pt_resolve pm e v satp ?va) (pt_resolve pm e v' satp ?va)"
    unfolding pt_resolve_def using pt_lookup_similar [OF assms(1) ppn_of_bound(2)] by blast
  obtain i a p where p: "pt_resolve pm e v satp ?va = Some (i, a, p)"
    using assms(2) by (auto simp: entry_coherent_def split: option.splits)
  with rel obtain q where q: "pt_resolve pm e v' satp ?va = Some (i, a, q)" "ad_similar p q"
    by (auto simp: option_rel_Some1 leaf_similar_def)
  have "bit p 1 = bit q 1" "bit p 2 = bit q 2" "bit p 3 = bit q 3" "bit p 4 = bit q 4"
    by (rule ad_similar_bit [OF q(2)]; simp)+
  then show ?thesis using assms(2) by (simp add: entry_coherent_def p q(1) ad_similar_leaf [OF q(2)])
qed

lemma tlb_coherent_similar:
  "tables_similar (tlb_paging env) (tv_host env) v v' \<Longrightarrow> tlb_coherent env v asid t \<Longrightarrow> tlb_coherent env v' asid t"
  unfolding tlb_coherent_def using entry_coherent_similar by blast

section \<open>Lemmas on addresses\<close>

lemma unat_page_offset: "unat (a AND PAGE_MASK) = unat a mod 4096"
  unfolding page_mask_eq unat_and_mask by simp

lemma unat_page_number: "unat (drop_bit 12 a :: u64) = unat a div 4096"
  unfolding unat_drop_bit by simp

lemma page_base_word: "(of_nat n :: u64) AND NOT PAGE_MASK = of_nat (n div 4096 * 4096)"
proof -
  have "(of_nat n :: u64) AND PAGE_MASK = of_nat (n mod 4096)"
  proof (rule word_unat_eq_iff [THEN iffD2])
    have "unat (of_nat n :: u64) mod 4096 = n mod 4096"
      by (simp add: unsigned_of_nat take_bit_eq_mod mod_mod_cancel)
    moreover have "unat (of_nat (n mod 4096) :: u64) = n mod 4096"
    proof (rule unat_of_nat_small)
      have "n mod 4096 < 4096" by simp
      also have "(4096 :: nat) < 2 ^ LENGTH(64)" by simp
      finally show "n mod 4096 < 2 ^ LENGTH(64)" .
    qed
    ultimately show "unat (of_nat n AND PAGE_MASK :: u64) = unat (of_nat (n mod 4096) :: u64)"
      by (simp add: unat_page_offset)
  qed
  moreover have "(w AND NOT PAGE_MASK) + (w AND PAGE_MASK) = w" for w :: u64
  proof -
    have "(w AND NOT PAGE_MASK) AND (w AND PAGE_MASK) = 0" by (rule bit_word_eqI) (auto simp: bit_simps)
    then have "(w AND NOT PAGE_MASK) + (w AND PAGE_MASK) = (w AND NOT PAGE_MASK) OR (w AND PAGE_MASK)"
      by (rule disjunctive_add_eq_or)
    also have "\<dots> = w" by (rule bit_word_eqI) (auto simp: bit_simps)
    finally show ?thesis .
  qed
  ultimately have "((of_nat n :: u64) AND NOT PAGE_MASK) + of_nat (n mod 4096) = of_nat n" by metis
  also have "\<dots> = of_nat (n div 4096 * 4096 + n mod 4096)" by simp
  also have "\<dots> = of_nat (n div 4096 * 4096) + of_nat (n mod 4096)" by (rule of_nat_add)
  finally show ?thesis by (simp only: add_right_cancel)
qed

lemma leaf_page_base: "leaf_address pm i pte va div 4096 * 4096 = leaf_address pm i pte (va div 4096 * 4096)"
proof -
  obtain q where q: "leaf_address pm i pte (va div 4096 * 4096) = 4096 * q"
    using leaf_address_aligned [of pm i pte "va div 4096"] by (rule dvdE)
  have "(4096 * q + va mod 4096) div 4096 = q" by simp
  then show ?thesis unfolding leaf_address_page [of pm i pte va] q by simp
qed

text \<open>The base of a page plus the offset of an address is the address that its leaf gives.\<close>

lemma translated_address:
  assumes "p = of_nat (leaf_address pm i pte (unat a))"
  shows "(p AND NOT PAGE_MASK) + (a AND PAGE_MASK) = p"
    "(of_nat (leaf_address pm i pte (unat a div 4096 * 4096)) AND NOT PAGE_MASK) + (a AND PAGE_MASK) = p"
proof -
  have off: "a AND PAGE_MASK = of_nat (unat a mod 4096)"
    by (simp flip: unat_page_offset)
  have base: "leaf_address pm i pte (unat a div 4096 * 4096) div 4096 * 4096 = leaf_address pm i pte (unat a div 4096 * 4096)"
    using leaf_page_base [of pm i pte "unat a div 4096 * 4096"] by simp
  show "(p AND NOT PAGE_MASK) + (a AND PAGE_MASK) = p"
    "(of_nat (leaf_address pm i pte (unat a div 4096 * 4096)) AND NOT PAGE_MASK) + (a AND PAGE_MASK) = p"
    unfolding assms page_base_word off leaf_page_base base using leaf_address_page [of pm i pte "unat a"]
    by (simp_all flip: of_nat_add)
qed

lemma page_rest_word: "(4096 - (a AND PAGE_MASK) :: u64) = of_nat (4096 - unat a mod 4096)"
proof -
  have "a AND PAGE_MASK = of_nat (unat a mod 4096)"
    by (simp flip: unat_page_offset)
  then show ?thesis by (simp add: of_nat_diff)
qed

lemma pt_resolve_page:
  "pt_resolve pm e v satp (unat (a :: u64) div 4096 * 4096) = pt_resolve pm e v satp (unat a)"
  unfolding pt_resolve_def by (rule pt_lookup_page) simp

text \<open>The leaf is one of the entries that the lookup reads.\<close>

lemma pt_lookup_read:
  assumes "pt_lookup pm e v va n table = Some (i, a, pte)" "table < 2 ^ PPN_BITS pm"
  shows "a \<in> set (pt_reads pm e v va n table) \<and> raw_pte_size pm dvd a \<and> a < 2 ^ 63"
  using assms
proof (induction n arbitrary: table)
  case (Suc k)
  let ?a = "pte_address pm table k va"
  show ?case
  proof (cases "bit (pte_at pm e v ?a) 0 \<and> \<not> bit (pte_at pm e v ?a) 1 \<and> \<not> bit (pte_at pm e v ?a) 2 \<and> \<not> bit (pte_at pm e v ?a) 3")
    case True
    then have "pt_lookup pm e v va k (ppn_of pm (pte_at pm e v ?a)) = Some (i, a, pte)" using Suc.prems(1) by (simp add: Let_def)
    from Suc.IH [OF this ppn_of_bound(1)] True show ?thesis by (simp add: Let_def)
  next
    case False
    then have "a = ?a" using Suc.prems(1) by (auto simp: Let_def split: if_splits)
    then show ?thesis using raw_pte_size_dvd [of pm table k va] pte_address_bound [OF Suc.prems(2)] by (simp add: Let_def)
  qed
qed simp

text \<open>The bytes of memory after an access to a page: the accessed bit of its leaf is set, for a write the dirty bit too.\<close>

definition access_view :: "'m tlb_env \<Rightarrow> bool \<Rightarrow> 'm TLB \<Rightarrow> AddressWithMode \<Rightarrow> (address \<Rightarrow> byte) \<Rightarrow> (address \<Rightarrow> byte)" where
  "access_view env wr t va v =
     (if should_translate env (aw_mode va) t then
        case pt_resolve (tlb_paging env) (tv_host env) v (tl_satp t) (unat (aw_addr va)) of
          None \<Rightarrow> v | Some (i, a, pte) \<Rightarrow> set_ad (tlb_paging env) (tv_host env) wr a v
      else v)"

section \<open>The contract of a TLB\<close>

text \<open>
  A TLB over a memory that satisfies the memory contract, with the walker reading the same bytes.
  The page tables are read in the byte order of the host, which has to be that of the machine.
\<close>

locale tlb_over = mem: frontend_contract "tv_mem env" minv view admits + ptw: frontend_contract "tv_ptw env" minv view admits
  for env :: "'m tlb_env" and minv view admits +
  assumes config_ok: "tlb_config_ok (tv_config env)"
    and byte_order: "fm_endian (tv_ptw env) = tv_host env"
begin

abbreviation tview :: "'m TLB \<Rightarrow> address \<Rightarrow> byte" where "tview t \<equiv> view (tl_mem t)"

abbreviation tlb_inv :: "'m TLB \<Rightarrow> bool" where "tlb_inv \<equiv> tlb_invariant minv env"

abbreviation walk_admitted :: "'m TLB \<Rightarrow> address \<Rightarrow> bool" where "walk_admitted t \<equiv> tables_admitted admits env (tview t) t"

text \<open>What an operation that only reads the tables keeps.\<close>

definition keeps :: "u16 \<Rightarrow> 'm TLB \<Rightarrow> 'm TLB \<Rightarrow> bool" where
  "keeps asid t t' = (tlb_inv t' \<and> tlb_coherent env (tview t') asid t' \<and> tview t' = tview t \<and>
     tl_satp t' = tl_satp t \<and> tl_sstatus t' = tl_sstatus t)"

lemma keeps_trans: "keeps asid t t1 \<Longrightarrow> keeps asid t1 t' \<Longrightarrow> keeps asid t t'"
  unfolding keeps_def by metis

lemma notify_keeps:
  assumes "tlb_inv t" "tlb_coherent env (tview t) asid t" "s < tlb_sets env" "w < tlb_ways env"
  shows "keeps asid t (t\<lparr>tl_policy := notify_access (tlb_ways env) (tl_policy t) s w v, tl_hit_count := n\<rparr>)"
  using assms tlb_notify_inv [of "tlb_ways env" "tlb_sets env" "tl_policy t" w s v]
  by (auto simp: keeps_def tlb_invariant_def tlb_shape_def tlb_coherent_def)

text \<open>A hit in a coherent table.\<close>

lemma hit_spec:
  assumes coh: "tlb_coherent env (tview t) (am_asid (aw_mode va)) t" and shape: "tlb_shape env t"
    and on: "should_translate env (aw_mode va) t"
    and hit: "tlb_lookup (drop_bit 12 (aw_addr va)) (am_asid (aw_mode va)) 0
      (tl_table t ! tlb_set_index env (drop_bit 12 (aw_addr va))) = Some (w, e)"
  shows "entry_coherent (tlb_paging env) (tv_host env) (tview t) (tl_satp t) e"
    "w < tlb_ways env" "tl_table t ! tlb_set_index env (drop_bit 12 (aw_addr va)) ! w = e"
    "translate_spec env (tview t) t va =
      (if check_permissions (te_U e) (te_R e) (te_W e) (te_X e) (tl_sstatus t) (am_priv (aw_mode va)) (am_opkind (aw_mode va))
       then Inr ((te_phys e AND NOT PAGE_MASK) + (aw_addr va AND PAGE_MASK), 4096 - (aw_addr va AND PAGE_MASK))
       else Inl (page_fault (aw_mode va)))"
proof -
  let ?s = "tlb_set_index env (drop_bit 12 (aw_addr va))"
  note row = tlb_row [OF shape tlb_set_index_bound [OF config_ok], of "drop_bit 12 (aw_addr va)"]
  from tlb_lookup_Some [OF hit] have w: "w < length (tl_table t ! ?s)" "tl_table t ! ?s ! w = e" and
    e: "te_valid e" "te_vpn e = drop_bit 12 (aw_addr va)" "te_asid e = am_asid (aw_mode va)" by simp_all
  then show "w < tlb_ways env" "tl_table t ! ?s ! w = e" using row(2) by simp_all
  have "e \<in> set (tl_table t ! ?s)" using w nth_mem by blast
  then show ec: "entry_coherent (tlb_paging env) (tv_host env) (tview t) (tl_satp t) e"
    using coh row(1) e by (auto simp: tlb_coherent_def)
  have vpn: "unat (te_vpn e) * 4096 = unat (aw_addr va) div 4096 * 4096" by (simp add: e unat_page_number)
  obtain i a pte where r: "pt_resolve (tlb_paging env) (tv_host env) (tview t) (tl_satp t) (unat (aw_addr va)) = Some (i, a, pte)"
    "te_phys e = of_nat (leaf_address (tlb_paging env) i pte (unat (aw_addr va) div 4096 * 4096))"
    "te_R e = bit pte 1" "te_W e = bit pte 2" "te_X e = bit pte 3" "te_U e = bit pte 4"
    using ec unfolding entry_coherent_def vpn pt_resolve_page by (auto split: option.splits)
  have "check_permissions (te_U e) (te_R e) (te_W e) (te_X e) (tl_sstatus t) (am_priv (aw_mode va)) (am_opkind (aw_mode va)) =
      leaf_permits (tl_sstatus t) pte (aw_mode va)"
    using check_permissions_pte [of "tlb_paging env" pte "tl_sstatus t" "aw_mode va"] by (simp add: r(3-6) pte_flags)
  then show "translate_spec env (tview t) t va =
      (if check_permissions (te_U e) (te_R e) (te_W e) (te_X e) (tl_sstatus t) (am_priv (aw_mode va)) (am_opkind (aw_mode va))
       then Inr ((te_phys e AND NOT PAGE_MASK) + (aw_addr va AND PAGE_MASK), 4096 - (aw_addr va AND PAGE_MASK))
       else Inl (page_fault (aw_mode va)))"
    using on translated_address(2) [OF refl, of "tlb_paging env" i pte "aw_addr va"]
    by (simp add: translate_spec_def Let_def r(1,2) page_rest_word)
qed

text \<open>The place of the entry that a translation returns.\<close>

definition entry_for :: "AddressWithMode \<Rightarrow> 'm TLB \<Rightarrow> (nat \<times> nat) option \<Rightarrow> bool" where
  "entry_for va t loc = (\<exists>s w. loc = Some (s, w) \<and> s < tlb_sets env \<and> w < tlb_ways env \<and>
     te_vpn (tl_table t ! s ! w) = drop_bit 12 (aw_addr va) \<and>
     entry_coherent (tlb_paging env) (tv_host env) (tview t) (tl_satp t) (tl_table t ! s ! w))"

lemma nth_set_tlb_entry:
  "s < length (tl_table t) \<Longrightarrow> w < length (tl_table t ! s) \<Longrightarrow> tl_table (set_tlb_entry s w e t) ! s ! w = e"
  by (simp add: set_tlb_entry_def)

lemma fill_spec:
  assumes inv: "tlb_inv t" and coh: "tlb_coherent env (tview t) (am_asid (aw_mode va)) t"
    and res: "pt_resolve (tlb_paging env) (tv_host env) (tview t) (tl_satp t) (unat (aw_addr va)) = Some (i, a, pte)"
      "wk_phys res = of_nat (leaf_address (tlb_paging env) i pte (unat (aw_addr va)))" "wk_pte_addr res = of_nat a"
      "wk_leaf_pte res = Some (pte_factory (tlb_paging env) pte)" "\<not> wk_pte_was_written res"
  shows "\<exists>t' loc. tlb_fill env (am_asid (aw_mode va)) (drop_bit 12 (aw_addr va)) (aw_addr va AND PAGE_MASK) res t =
      (t', Inr \<lparr>tr_phys = of_nat (leaf_address (tlb_paging env) i pte (unat (aw_addr va))),
                tr_bytes_until_page_end = of_nat (4096 - unat (aw_addr va) mod 4096), tr_entry = loc\<rparr>) \<and>
    keeps (am_asid (aw_mode va)) t t' \<and> entry_for va t' loc"
proof -
  define vpn where "vpn = drop_bit 12 (aw_addr va)"
  define asid where "asid = am_asid (aw_mode va)"
  define s where "s = tlb_set_index env vpn"
  define t1 where "t1 = tlb_count_walk env res t"
  obtain w calls where sel: "select_way (tv_rnd env) (tlb_ways env) (tl_policy t1) (tl_rand_calls t1) s = (w, calls)"
    by (cases "select_way (tv_rnd env) (tlb_ways env) (tl_policy t1) (tl_rand_calls t1) s")
  obtain ent where ent: "entry_of_walk env asid vpn res (tl_table t1 ! s ! w) = Inr ent" by (simp add: entry_of_walk_def res)
  define t' where "t' = (set_tlb_entry s w ent t1)\<lparr>tl_rand_calls := calls,
    tl_policy := notify_access (tlb_ways env) (tl_policy t1) s w True, tl_miss_count := tl_miss_count t1 + 1\<rparr>"
  have t1: "tl_table t1 = tl_table t" "tl_mem t1 = tl_mem t" "tl_satp t1 = tl_satp t" "tl_sstatus t1 = tl_sstatus t"
    "tl_policy t1 = tl_policy t" by (simp_all add: t1_def tlb_count_walk_def Let_def)
  have s: "s < tlb_sets env" unfolding s_def by (rule tlb_set_index_bound [OF config_ok])
  have shape: "tlb_shape env t" and ok: "tlb_policy_inv (tlb_ways env) (tlb_sets env) (tl_policy t)" "0 < tlb_ways env"
    using inv config_ok by (simp_all add: tlb_invariant_def tlb_shape_def tlb_config_ok_def)
  note row = tlb_row [OF shape s]
  have w: "w < tlb_ways env" using tlb_select_bound [OF ok s, of "tv_rnd env" "tl_rand_calls t1"] sel by (simp add: t1)
  have vpn: "unat vpn * 4096 = unat (aw_addr va) div 4096 * 4096" by (simp add: vpn_def unat_page_number)
  have ec: "entry_coherent (tlb_paging env) (tv_host env) (tview t) (tl_satp t) ent"
    using ent res by (auto simp: entry_of_walk_def entry_coherent_def vpn pt_resolve_page page_base_word leaf_page_base pte_flags)
  have "tlb_coherent env (tview t) asid (set_tlb_entry s w ent t1)"
    by (rule set_tlb_entry_coherent) (use coh row(3) ec in \<open>simp_all add: t1 tlb_coherent_def asid_def\<close>)
  then have "tlb_coherent env (tview t') asid t'" by (simp add: t'_def tlb_coherent_def set_tlb_entry_def t1)
  moreover have "tlb_shape env t'"
    using set_tlb_entry_shape [OF shape s, of w ent] tlb_notify_inv [OF ok(1) w s, of True]
    by (simp add: tlb_shape_def t'_def set_tlb_entry_def t1)
  moreover have "te_vpn ent = vpn" using ent res by (auto simp: entry_of_walk_def)
  ultimately have "keeps asid t t'" "entry_for va t' (Some (s, w))"
    using inv s w row ec by (simp_all add: keeps_def tlb_invariant_def entry_for_def t'_def set_tlb_entry_def t1 vpn_def)
  moreover have "tlb_fill env asid vpn (aw_addr va AND PAGE_MASK) res t =
      (t', Inr \<lparr>tr_phys = (wk_phys res AND NOT PAGE_MASK) + (aw_addr va AND PAGE_MASK),
        tr_bytes_until_page_end = 4096 - (aw_addr va AND PAGE_MASK), tr_entry = Some (s, w)\<rparr>)"
    by (simp add: tlb_fill_def Let_def t1_def [symmetric] s_def [symmetric] sel ent t'_def)
  moreover note translated_address(1) [OF res(2)] page_rest_word [of "aw_addr va"]
  ultimately show ?thesis unfolding asid_def vpn_def res(2) by metis
qed

lemma tl_lower_ok: "f (tl_mem t) = (m, r) \<Longrightarrow> tl_lower f t = (t\<lparr>tl_mem := m\<rparr>, r)"
  by (simp add: tl_lower_def)

lemma mode_mask: "is_mode_enabled_in_satp env satp \<longleftrightarrow> satp AND SATP_MODE_MASK (tlb_paging env) \<noteq> 0"
proof -
  have f: "(0xF :: u64) = mask 4" by (simp add: mask_eq_exp_minus_1)
  have "drop_bit 60 satp AND mask 4 = 0 \<longleftrightarrow> satp AND push_bit 60 (mask 4) = 0"
    by (auto simp: and_0_iff bit_simps)
  then show ?thesis by (simp add: is_mode_enabled_in_satp_def tlb_paging_def f split: Xlen.splits)
qed

text \<open>Translation through a coherent TLB.\<close>

lemma translate_contract:
  assumes inv: "tlb_inv t" and coh: "tlb_coherent env (tview t) (am_asid (aw_mode va)) t"
    and adm: "should_translate env (aw_mode va) t \<longrightarrow> walk_admitted t (aw_addr va)"
  shows "\<exists>t' r. translate_virtual_to_physical env va t = (t', r) \<and> keeps (am_asid (aw_mode va)) t t' \<and>
    (case translate_spec env (tview t) t va of
       Inl e \<Rightarrow> r = Inl e
     | Inr (p, k) \<Rightarrow> \<exists>loc. r = Inr \<lparr>tr_phys = p, tr_bytes_until_page_end = k, tr_entry = loc\<rparr> \<and>
         (if should_translate env (aw_mode va) t then entry_for va t' loc else loc = None))"
proof (cases "should_translate env (aw_mode va) t")
  case False
  then show ?thesis using inv coh
    by (simp add: translate_virtual_to_physical_def translate_spec_def keeps_def)
next
  case on: True
  let ?s = "tlb_set_index env (drop_bit 12 (aw_addr va))" and ?asid = "am_asid (aw_mode va)"
  have shape: "tlb_shape env t" using inv by (simp add: tlb_invariant_def)
  have s: "?s < tlb_sets env" by (rule tlb_set_index_bound [OF config_ok])
  show ?thesis
  proof (cases "tlb_lookup (drop_bit 12 (aw_addr va)) ?asid 0 (tl_table t ! ?s)")
    case (Some p)
    obtain w e where p: "p = (w, e)" by (cases p)
    note hit = hit_spec [OF coh shape on Some [unfolded p]]
    have vpn: "te_vpn e = drop_bit 12 (aw_addr va)" using tlb_lookup_Some [OF Some [unfolded p]] by simp
    have "keeps ?asid t t" using inv coh by (simp add: keeps_def)
    moreover note notify_keeps [OF inv coh s hit(2), where v = True and n = "tl_hit_count t + 1"]
    ultimately show ?thesis using on Some p hit s vpn
      by (simp add: translate_virtual_to_physical_def entry_for_def Let_def)
  next
    case None
    have "tl_satp t AND SATP_MODE_MASK (tlb_paging env) \<noteq> 0" using on mode_mask by (simp add: should_translate_def)
    from ptw.page_table_walk_contract [OF _ _ byte_order this, of "tl_mem t" "aw_addr va" "tl_sstatus t" "aw_mode va"]
    obtain m where m: "page_table_walk (tv_host env) (tv_ptw env) (tlb_paging env) (aw_addr va) (tl_satp t) (tl_sstatus t) (aw_mode va)
          (tl_mem t) = (m, walk_spec (tlb_paging env) (tv_host env) (tview t) (tl_satp t) (tl_sstatus t) (aw_mode va) (unat (aw_addr va)))"
        "minv m" "view m = tview t"
      using inv adm on by (auto simp: tlb_invariant_def tables_admitted_def)
    define t1 where "t1 = t\<lparr>tl_mem := m\<rparr>"
    have t1: "tlb_inv t1" "tlb_coherent env (tview t1) ?asid t1" "keeps ?asid t t1" "tview t1 = tview t" "tl_satp t1 = tl_satp t"
      using inv coh m by (simp_all add: t1_def keeps_def tlb_invariant_def tlb_shape_def tlb_coherent_def)
    define walk where "walk = page_table_walk (tv_host env) (tv_ptw env) (tlb_paging env) (aw_addr va) (tl_satp t) (tl_sstatus t) (aw_mode va)"
    have low: "tl_lower walk t = (t1, walk_spec (tlb_paging env) (tv_host env) (tview t) (tl_satp t) (tl_sstatus t) (aw_mode va) (unat (aw_addr va)))"
      using m(1) by (simp add: walk_def t1_def tl_lower_ok)
    have tr: "translate_virtual_to_physical env va t =
        act_bind (tl_lower walk) (tlb_fill env ?asid (drop_bit 12 (aw_addr va)) (aw_addr va AND PAGE_MASK)) t"
      using on None by (simp add: translate_virtual_to_physical_def Let_def walk_def)
    show ?thesis
    proof (cases "\<exists>i a pte. pt_resolve (tlb_paging env) (tv_host env) (tview t) (tl_satp t) (unat (aw_addr va)) = Some (i, a, pte) \<and>
        leaf_permits (tl_sstatus t) pte (aw_mode va)")
      case True
      then obtain i a pte where r: "pt_resolve (tlb_paging env) (tv_host env) (tview t) (tl_satp t) (unat (aw_addr va)) = Some (i, a, pte)"
        "leaf_permits (tl_sstatus t) pte (aw_mode va)" by blast
      define res where "res = \<lparr>wk_phys = of_nat (leaf_address (tlb_paging env) i pte (unat (aw_addr va))), wk_pte_addr = of_nat a,
        wk_leaf_pte = Some (pte_factory (tlb_paging env) pte), wk_pte_was_written = False\<rparr>"
      have res: "tl_lower walk t = (t1, Inr res)" "wk_pte_addr res = of_nat a" "\<not> wk_pte_was_written res"
        "wk_phys res = of_nat (leaf_address (tlb_paging env) i pte (unat (aw_addr va)))"
        "wk_leaf_pte res = Some (pte_factory (tlb_paging env) pte)" using low by (simp_all add: walk_spec_def r res_def)
      have "pt_resolve (tlb_paging env) (tv_host env) (tview t1) (tl_satp t1) (unat (aw_addr va)) = Some (i, a, pte)"
        using r(1) t1(4,5) by simp
      from fill_spec [OF t1(1,2) this res(4,2,5,3)] obtain t' loc where
        t': "tlb_fill env ?asid (drop_bit 12 (aw_addr va)) (aw_addr va AND PAGE_MASK) res t1 =
          (t', Inr \<lparr>tr_phys = of_nat (leaf_address (tlb_paging env) i pte (unat (aw_addr va))),
            tr_bytes_until_page_end = of_nat (4096 - unat (aw_addr va) mod 4096), tr_entry = loc\<rparr>)"
          "keeps ?asid t1 t'" "entry_for va t' loc" by blast
      moreover have "keeps ?asid t t'" by (rule keeps_trans [OF t1(3) t'(2)])
      ultimately show ?thesis using on r res(1) by (simp add: tr translate_spec_def Let_def)
    next
      case False
      then have "tl_lower walk t = (t1, Inl (page_fault (aw_mode va)))"
        "translate_spec env (tview t) t va = Inl (page_fault (aw_mode va))"
        using low on by (auto simp: walk_spec_def translate_spec_def Let_def split: option.splits)
      then show ?thesis using t1(3) by (simp add: tr)
    qed
  qed
qed

text \<open>The update of the accessed and dirty bits is the store \<open>set_ad\<close> of the specification.\<close>

lemma entry_coherent_mark [simp]:
  "entry_coherent pm e v satp (ent\<lparr>te_A := b, te_D := d\<rparr>) = entry_coherent pm e v satp ent"
  unfolding entry_coherent_def by (simp cong: option.case_cong)

lemma mark_keeps:
  assumes "tlb_shape env t" "tlb_coherent env v asid t" "s < tlb_sets env" "w < tlb_ways env"
  shows "tlb_shape env (set_tlb_entry s w ((tl_table t ! s ! w)\<lparr>te_A := b, te_D := d\<rparr>) t)"
    "tlb_coherent env v asid (set_tlb_entry s w ((tl_table t ! s ! w)\<lparr>te_A := b, te_D := d\<rparr>) t)"
proof -
  note row = tlb_row [OF assms(1,3)]
  show "tlb_shape env (set_tlb_entry s w ((tl_table t ! s ! w)\<lparr>te_A := b, te_D := d\<rparr>) t)"
    by (rule set_tlb_entry_shape [OF assms(1,3)])
  have "tl_table t ! s ! w \<in> set (tl_table t ! s)" using assms(4) row(2) by simp
  then show "tlb_coherent env v asid (set_tlb_entry s w ((tl_table t ! s ! w)\<lparr>te_A := b, te_D := d\<rparr>) t)"
    using assms(2) row(1,3) by (intro set_tlb_entry_coherent) (auto simp: tlb_coherent_def)
qed

lemma updated_bytes:
  "object_bytes h 4 (of_object_bytes h (load_bytes v (of_nat a) 4) OR push_bit 6 1 OR (if wr then push_bit 7 1 else 0) :: u32) =
     pte_bytes SV32 h (pte_at SV32 h v a OR ad_bits wr)"
  "object_bytes h 8 (of_object_bytes h (load_bytes v (of_nat a) 8) OR push_bit 6 1 OR (if wr then push_bit 7 1 else 0) :: u64) =
     pte_bytes SV39 h (pte_at SV39 h v a OR ad_bits wr)"
proof -
  have "(ucast (ucast w OR ad_bits wr :: u64) :: u32) = w OR push_bit 6 1 OR (if wr then push_bit 7 1 else 0)" for w
    unfolding ad_bits_def by (rule bit_word_eqI) (auto simp: bit_simps simp del: push_bit_of_1)
  then show "object_bytes h 4 (of_object_bytes h (load_bytes v (of_nat a) 4) OR push_bit 6 1 OR (if wr then push_bit 7 1 else 0) :: u32) =
     pte_bytes SV32 h (pte_at SV32 h v a OR ad_bits wr)"
    by (cases h) (simp_all add: object_bytes_def of_object_bytes_def pte_at_def value_bytes_def bytes_value_def)
  show "object_bytes h 8 (of_object_bytes h (load_bytes v (of_nat a) 8) OR push_bit 6 1 OR (if wr then push_bit 7 1 else 0) :: u64) =
     pte_bytes SV39 h (pte_at SV39 h v a OR ad_bits wr)"
    by (cases h) (simp_all add: object_bytes_def of_object_bytes_def pte_at_def value_bytes_def bytes_value_def ad_bits_def)
qed

text \<open>What an update of these bits keeps.\<close>

definition updates_ad :: "u16 \<Rightarrow> bool \<Rightarrow> nat \<Rightarrow> 'm TLB \<Rightarrow> 'm TLB \<Rightarrow> bool" where
  "updates_ad asid wr a t t' = (tlb_inv t' \<and> tlb_coherent env (tview t') asid t' \<and>
     tview t' = set_ad (tlb_paging env) (tv_host env) wr a (tview t) \<and> tl_satp t' = tl_satp t \<and> tl_sstatus t' = tl_sstatus t)"

lemma marked_updates_ad:
  assumes "tlb_coherent env (tview t) asid t" "s < tlb_sets env" "w < tlb_ways env" "raw_pte_size (tlb_paging env) dvd a" "a < 2 ^ 63"
    and t': "tlb_shape env t'" "minv (tl_mem t')" "tview t' = set_ad (tlb_paging env) (tv_host env) wr a (tview t)"
      "tl_table t' = tl_table t" "tl_satp t' = tl_satp t" "tl_sstatus t' = tl_sstatus t"
  shows "updates_ad asid wr a t (set_tlb_entry s w ((tl_table t' ! s ! w)\<lparr>te_A := b, te_D := d\<rparr>) t')"
proof -
  have "tlb_coherent env (tview t') asid t'"
    using tlb_coherent_similar [OF set_ad_similar [OF assms(4,5), of "tv_host env" "tview t" wr] assms(1)] t'
    by (simp add: tlb_coherent_def)
  from mark_keeps [OF t'(1) this assms(2,3)] t' show ?thesis
    by (simp add: updates_ad_def tlb_invariant_def set_tlb_entry_def)
qed

lemma ensure_impl_contract:
  fixes s w a :: nat and t :: "'m TLB"
  assumes inv: "tlb_inv t" and coh: "tlb_coherent env (tview t) asid t" and sw: "s < tlb_sets env" "w < tlb_ways env"
    and e: "te_pte_addr (tl_table t ! s ! w) = of_nat a" and adm: "admits (of_nat a) (raw_pte_size (tlb_paging env))"
    and a: "raw_pte_size (tlb_paging env) dvd a" "a < 2 ^ 63"
    and sz: "size_of TYPE('a::len) = raw_pte_size (tlb_paging env)"
    and upd: "object_bytes (tv_host env) (size_of TYPE('a)) (of_object_bytes (tv_host env) (load_bytes (tview t) (of_nat a) (size_of TYPE('a)))
        OR push_bit 6 1 OR (if op = OP_WRITE then push_bit 7 1 else 0) :: 'a word) =
      pte_bytes (tlb_paging env) (tv_host env) (pte_at (tlb_paging env) (tv_host env) (tview t) a OR ad_bits (op = OP_WRITE))"
    and same: "object_bytes (tv_host env) (size_of TYPE('a)) (of_object_bytes (tv_host env) (load_bytes (tview t) (of_nat a) (size_of TYPE('a))) :: 'a word) =
      load_bytes (tview t) (of_nat a) (size_of TYPE('a))"
  shows "\<exists>t' b. ensure_ad_bits_impl TYPE('a) env (s, w) op t = (t', Inr b) \<and> updates_ad asid (op = OP_WRITE) a t t'"
proof -
  let ?pm = "tlb_paging env" and ?h = "tv_host env" and ?n = "size_of TYPE('a)" and ?wr = "op = OP_WRITE"
  define raw where "raw = (of_object_bytes ?h (load_bytes (tview t) (of_nat a) ?n) :: 'a word)"
  define new where "new = raw OR push_bit 6 1 OR (if ?wr then push_bit 7 1 else 0)"
  define mark where "mark t = set_tlb_entry s w ((tl_table t ! s ! w)\<lparr>te_A := True, te_D := (if ?wr then True else te_D (tl_table t ! s ! w))\<rparr>) t"
    for t :: "'m TLB"
  have n: "0 < ?n" unfolding sz by (cases ?pm) simp_all
  from ptw.read_contract [OF _ n, of "tl_mem t" "plain_address (of_nat a)"] inv adm obtain m1 k where
    m1: "fm_read (tv_ptw env) (plain_address (of_nat a)) ?n AE_REGULAR (tl_mem t) = (m1, Inr (load_bytes (tview t) (of_nat a) ?n, k))"
      "minv m1" "view m1 = tview t" by (auto simp: tlb_invariant_def sz)
  define t1 where "t1 = t\<lparr>tl_mem := m1\<rparr>"
  have shape: "tlb_shape env t1" and coh1: "tlb_coherent env (tview t1) asid t1"
    using inv coh m1(3) by (simp_all add: t1_def tlb_invariant_def tlb_shape_def tlb_coherent_def)
  have rd: "tl_lower (fm_read (tv_ptw env) (plain_address (of_nat a)) ?n AE_REGULAR) t = (t1, Inr (load_bytes (tview t) (of_nat a) ?n, k))"
    using m1(1) by (simp add: tl_lower_ok t1_def)
  have marked: "updates_ad asid ?wr a t (mark t')" if "tlb_shape env t'" "minv (tl_mem t')"
      "tview t' = set_ad ?pm ?h ?wr a (tview t)" "tl_table t' = tl_table t" "tl_satp t' = tl_satp t" "tl_sstatus t' = tl_sstatus t" for t'
    unfolding mark_def by (rule marked_updates_ad [OF coh sw a that])
  have step: "ensure_ad_bits_impl TYPE('a) env (s, w) op t = (if new \<noteq> raw then
      act_bind (tl_lower (fm_write (tv_ptw env) (plain_address (of_nat a)) (object_bytes ?h ?n new) AE_REGULAR)) (\<lambda>_ t. (mark t, Inr True)) t1
      else (mark t1, Inr False))"
    unfolding ensure_ad_bits_impl_def prod.case Let_def e act_bind_ok [where f = "tl_lower _", OF rd]
      raw_def [symmetric] new_def [symmetric] mark_def [symmetric] by simp
  show ?thesis
  proof (cases "new = raw")
    case True
    have "set_ad ?pm ?h ?wr a (tview t) = tview t"
      unfolding set_ad_def upd [folded raw_def, folded new_def, symmetric] True same [folded raw_def]
      by (rule store_load_id) (cases ?pm; simp add: sz)
    then have "updates_ad asid ?wr a t (mark t1)" using shape m1(2,3) by (intro marked) (simp_all add: t1_def)
    then show ?thesis using step True by auto
  next
    case False
    have "object_bytes ?h ?n new \<noteq> []" using n by (metis length_object_bytes list.size(3) less_irrefl)
    from ptw.write_contract [OF m1(2) this, of "plain_address (of_nat a)"] adm obtain m2 r where
      m2: "fm_write (tv_ptw env) (plain_address (of_nat a)) (object_bytes ?h ?n new) AE_REGULAR m1 = (m2, Inr r)" "minv m2"
        "view m2 = store_bytes (tview t) (of_nat a) (object_bytes ?h ?n new)" by (auto simp: sz m1(3))
    define t2 where "t2 = t1\<lparr>tl_mem := m2\<rparr>"
    have "view m2 = set_ad ?pm ?h ?wr a (tview t)" unfolding m2(3) set_ad_def upd [folded raw_def, folded new_def] ..
    then have "updates_ad asid ?wr a t (mark t2)"
      using shape m2(2) by (intro marked) (simp_all add: t2_def t1_def tlb_shape_def)
    moreover have "tl_lower (fm_write (tv_ptw env) (plain_address (of_nat a)) (object_bytes ?h ?n new) AE_REGULAR) t1 = (t2, Inr r)"
      using m2(1) by (simp add: tl_lower_ok t1_def t2_def)
    ultimately show ?thesis using step False by auto
  qed
qed

lemma ensure_contract:
  assumes inv: "tlb_inv t" and coh: "tlb_coherent env (tview t) asid t" and adm: "walk_admitted t (aw_addr va)"
    and loc: "entry_for va t loc"
    and res: "pt_resolve (tlb_paging env) (tv_host env) (tview t) (tl_satp t) (unat (aw_addr va)) = Some (i, a, pte)"
  shows "\<exists>l t' b. loc = Some l \<and> ensure_ad_bits env l op t = (t', Inr b) \<and> updates_ad asid (op = OP_WRITE) a t t'"
proof -
  let ?pm = "tlb_paging env" and ?h = "tv_host env"
  obtain s w where sw: "loc = Some (s, w)" "s < tlb_sets env" "w < tlb_ways env" and
    e: "te_vpn (tl_table t ! s ! w) = drop_bit 12 (aw_addr va)" "entry_coherent ?pm ?h (tview t) (tl_satp t) (tl_table t ! s ! w)"
    using loc by (auto simp: entry_for_def)
  have vpn: "unat (te_vpn (tl_table t ! s ! w)) * 4096 = unat (aw_addr va) div 4096 * 4096" by (simp add: e(1) unat_page_number)
  have ent: "te_pte_addr (tl_table t ! s ! w) = of_nat a" "te_pte_bytes (tl_table t ! s ! w) = of_nat (raw_pte_size ?pm)"
    using e(2) unfolding entry_coherent_def vpn pt_resolve_page res by simp_all
  from pt_lookup_read [OF res [unfolded pt_resolve_def] ppn_of_bound(2)]
  have a: "admits (of_nat a) (raw_pte_size ?pm)" "raw_pte_size ?pm dvd a" "a < 2 ^ 63"
    using adm by (auto simp: tables_admitted_def pt_admitted_def)
  show ?thesis
  proof (cases ?pm)
    case SV32
    have "\<exists>t' b. ensure_ad_bits_impl TYPE(32) env (s, w) op t = (t', Inr b) \<and> updates_ad asid (op = OP_WRITE) a t t'"
      by (rule ensure_impl_contract [OF inv coh sw(2,3) ent(1) a])
        (simp_all add: SV32 updated_bytes(1) [of ?h] object_bytes_of_object_bytes del: push_bit_of_1)
    then show ?thesis using sw(1) ent(2) by (simp add: ensure_ad_bits_def SV32)
  next
    case SV39
    have "\<exists>t' b. ensure_ad_bits_impl TYPE(64) env (s, w) op t = (t', Inr b) \<and> updates_ad asid (op = OP_WRITE) a t t'"
      by (rule ensure_impl_contract [OF inv coh sw(2,3) ent(1) a])
        (simp_all add: SV39 updated_bytes(2) [of ?h] object_bytes_of_object_bytes del: push_bit_of_1)
    then show ?thesis using sw(1) ent(2) by (simp add: ensure_ad_bits_def SV39)
  qed
qed

lemma address_eta [simp]: "\<lparr>aw_addr = aw_addr va, aw_mode = aw_mode va\<rparr> = (va :: AddressWithMode)"
  by simp

lemma should_translate_cong: "tl_satp t' = tl_satp t \<Longrightarrow> should_translate env mode t' = should_translate env mode t"
  by (simp add: should_translate_def)

text \<open>Translation and update of the bits, as the loops do them for every page.\<close>

lemma access_page:
  assumes inv: "tlb_inv t" and coh: "tlb_coherent env (tview t) (am_asid (aw_mode va)) t"
    and adm: "should_translate env (aw_mode va) t \<longrightarrow> walk_admitted t (aw_addr va)"
    and spec: "translate_spec env (tview t) t va = Inr (p, k)"
  shows "\<exists>t1 tr t2. translate_virtual_to_physical env va t = (t1, Inr tr) \<and> tr_phys tr = p \<and> tr_bytes_until_page_end tr = k \<and>
    tlb_ensure env (aw_mode va) tr op t1 = (t2, Inr ()) \<and> tlb_inv t2 \<and> tlb_coherent env (tview t2) (am_asid (aw_mode va)) t2 \<and>
    tview t2 = access_view env (op = OP_WRITE) t va (tview t) \<and> tl_satp t2 = tl_satp t \<and> tl_sstatus t2 = tl_sstatus t"
proof -
  from translate_contract [OF inv coh adm] spec obtain t1 tr where
    t1: "translate_virtual_to_physical env va t = (t1, Inr tr)" "keeps (am_asid (aw_mode va)) t t1"
    "tr_phys tr = p" "tr_bytes_until_page_end tr = k"
    "if should_translate env (aw_mode va) t then entry_for va t1 (tr_entry tr) else tr_entry tr = None" by auto
  then have inv1: "tlb_inv t1" and coh1: "tlb_coherent env (tview t1) (am_asid (aw_mode va)) t1" and
    same: "tview t1 = tview t" "tl_satp t1 = tl_satp t" "tl_sstatus t1 = tl_sstatus t" unfolding keeps_def by blast+
  show ?thesis
  proof (cases "should_translate env (aw_mode va) t")
    case False
    then have "tlb_ensure env (aw_mode va) tr op t1 = (t1, Inr ())" using t1(5) by (simp add: tlb_ensure_def)
    then show ?thesis using False t1(1,3,4) inv1 coh1 same by (auto simp: access_view_def)
  next
    case True
    then obtain i a pte where res: "pt_resolve (tlb_paging env) (tv_host env) (tview t1) (tl_satp t1) (unat (aw_addr va)) = Some (i, a, pte)"
      using spec same by (auto simp: translate_spec_def Let_def split: option.splits)
    have "walk_admitted t1 (aw_addr va)" using adm True same by (simp add: tables_admitted_def)
    moreover have "entry_for va t1 (tr_entry tr)" using t1(5) True by simp
    ultimately obtain l t2 b where t2: "tr_entry tr = Some l" "ensure_ad_bits env l op t1 = (t2, Inr b)"
      "updates_ad (am_asid (aw_mode va)) (op = OP_WRITE) a t1 t2" using ensure_contract [OF inv1 coh1 _ _ res] by blast
    then have "tlb_ensure env (aw_mode va) tr op t1 = (t2, Inr ())"
      using True should_translate_cong [OF same(2)] by (simp add: tlb_ensure_def ignore_result_def)
    then show ?thesis using t1(1,3,4) t2(3) True res same by (auto simp: updates_ad_def access_view_def)
  qed
qed

text \<open>Reads and writes that stay within a page.\<close>

lemma read_page_contract:
  assumes inv: "tlb_inv t" and coh: "tlb_coherent env (tview t) (am_asid (aw_mode va)) t"
    and adm: "should_translate env (aw_mode va) t \<longrightarrow> walk_admitted t (aw_addr va)"
    and spec: "translate_spec env (tview t) t va = Inr (p, k)" and n: "0 < n" "n \<le> unat k" "admits p n"
  shows "\<exists>t' c. tlb_read env va n AE_REGULAR t = (t', Inr (load_bytes (access_view env False t va (tview t)) p n, c)) \<and>
    tlb_inv t' \<and> tlb_coherent env (tview t') (am_asid (aw_mode va)) t' \<and> tview t' = access_view env False t va (tview t)"
proof -
  from access_page [OF inv coh adm spec, of OP_READ] obtain t1 tr t2 where
    t1: "translate_virtual_to_physical env va t = (t1, Inr tr)" "tr_phys tr = p" "tr_bytes_until_page_end tr = k"
    "tlb_ensure env (aw_mode va) tr OP_READ t1 = (t2, Inr ())" and
    t2: "tlb_inv t2" "tlb_coherent env (tview t2) (am_asid (aw_mode va)) t2" "tview t2 = access_view env False t va (tview t)" by auto
  from mem.read_contract [OF _ n(1), of "tl_mem t2" "plain_address p"] t2(1) n(3) obtain m c where
    m: "fm_read (tv_mem env) (plain_address p) n AE_REGULAR (tl_mem t2) = (m, Inr (load_bytes (tview t2) p n, c))" "minv m" "view m = tview t2"
    by (auto simp: tlb_invariant_def)
  obtain n' where n': "n = Suc n'" using n(1) by (cases n) simp_all
  have "min n (unat k) = n" using n(2) by simp
  then have "tlb_read env va n AE_REGULAR t = (t2\<lparr>tl_mem := m\<rparr>, Inr (load_bytes (tview t2) p n, c))"
    using t1 m(1) by (simp add: tlb_read_def n' act_bind_def tl_lower_def split: prod.splits)
  moreover have "tlb_inv (t2\<lparr>tl_mem := m\<rparr>)" "tlb_coherent env (view m) (am_asid (aw_mode va)) (t2\<lparr>tl_mem := m\<rparr>)"
    using t2 m by (simp_all add: tlb_invariant_def tlb_shape_def tlb_coherent_def)
  ultimately show ?thesis using t2(3) m(3) by auto
qed

lemma write_page_contract:
  assumes inv: "tlb_inv t" and coh: "tlb_coherent env (tview t) (am_asid (aw_mode va)) t"
    and adm: "should_translate env (aw_mode va) t \<longrightarrow> walk_admitted t (aw_addr va)"
    and spec: "translate_spec env (tview t) t va = Inr (p, k)"
    and bs: "bs \<noteq> []" "length bs \<le> unat k" "admits p (length bs)"
  shows "\<exists>t' r. tlb_write env va bs AE_REGULAR t = (t', Inr r) \<and> tlb_inv t' \<and>
    tview t' = store_bytes (access_view env True t va (tview t)) p bs \<and>
    (tables_similar (tlb_paging env) (tv_host env) (access_view env True t va (tview t)) (tview t') \<longrightarrow>
       tlb_coherent env (tview t') (am_asid (aw_mode va)) t')"
proof -
  from access_page [OF inv coh adm spec, of OP_WRITE] obtain t1 tr t2 where
    t1: "translate_virtual_to_physical env va t = (t1, Inr tr)" "tr_phys tr = p" "tr_bytes_until_page_end tr = k"
    "tlb_ensure env (aw_mode va) tr OP_WRITE t1 = (t2, Inr ())" and
    t2: "tlb_inv t2" "tlb_coherent env (tview t2) (am_asid (aw_mode va)) t2" "tview t2 = access_view env True t va (tview t)" by auto
  from mem.write_contract [OF _ bs(1), of "tl_mem t2" "plain_address p"] t2(1) bs(3) obtain m r where
    m: "fm_write (tv_mem env) (plain_address p) bs AE_REGULAR (tl_mem t2) = (m, Inr r)" "minv m" "view m = store_bytes (tview t2) p bs"
    by (auto simp: tlb_invariant_def)
  obtain b bs' where bs': "bs = b # bs'" using bs(1) by (cases bs) simp_all
  have len: "min (length bs) (unat k) = length bs" using bs(2) by simp
  have "tlb_write env va bs AE_REGULAR t = (t2\<lparr>tl_mem := m\<rparr>, Inr (write_result_add r write_result_zero))"
    using t1 m(1) len by (simp add: tlb_write_def bs' act_bind_def tl_lower_def Let_def split: prod.splits)
  moreover have "tlb_inv (t2\<lparr>tl_mem := m\<rparr>)" using t2 m(2) by (simp add: tlb_invariant_def tlb_shape_def)
  moreover have "tlb_coherent env (view m) (am_asid (aw_mode va)) (t2\<lparr>tl_mem := m\<rparr>)"
    if "tables_similar (tlb_paging env) (tv_host env) (tview t2) (view m)"
    using tlb_coherent_similar [OF that t2(2)] by (simp add: tlb_coherent_def)
  ultimately show ?thesis using t2(3) m(3) by auto
qed

text \<open>An access that the tables refuse raises the page fault and changes nothing.\<close>

lemma fault_contract:
  assumes inv: "tlb_inv t" and coh: "tlb_coherent env (tview t) (am_asid (aw_mode va)) t"
    and adm: "should_translate env (aw_mode va) t \<longrightarrow> walk_admitted t (aw_addr va)"
    and spec: "translate_spec env (tview t) t va = Inl e" and n: "0 < n"
  shows "\<exists>t'. tlb_read env va n AE_REGULAR t = (t', Inl e) \<and> keeps (am_asid (aw_mode va)) t t'"
    "bs \<noteq> [] \<Longrightarrow> \<exists>t'. tlb_write env va bs AE_REGULAR t = (t', Inl e) \<and> keeps (am_asid (aw_mode va)) t t'"
proof -
  from translate_contract [OF inv coh adm] spec obtain t' where
    t': "translate_virtual_to_physical env va t = (t', Inl e)" "keeps (am_asid (aw_mode va)) t t'" by auto
  then show "\<exists>t'. tlb_read env va n AE_REGULAR t = (t', Inl e) \<and> keeps (am_asid (aw_mode va)) t t'"
    using n by (cases n) (simp_all add: tlb_read_def)
  show "\<exists>t'. tlb_write env va bs AE_REGULAR t = (t', Inl e) \<and> keeps (am_asid (aw_mode va)) t t'" if "bs \<noteq> []"
    using that t' by (cases bs) (simp_all add: tlb_write_def)
qed

end

context tlb_over
begin

text \<open>A write of the register that selects the tables, with paging staying on, keeps the cached translations.\<close>

lemma satp_write_hit:
  assumes inv: "tlb_inv t" and coh: "tlb_coherent env (tview t) (am_asid (aw_mode va)) t" and on: "should_translate env (aw_mode va) t"
    and hit: "tlb_lookup (drop_bit 12 (aw_addr va)) (am_asid (aw_mode va)) 0
      (tl_table t ! tlb_set_index env (drop_bit 12 (aw_addr va))) \<noteq> None"
    and spec: "translate_spec env (tview t) t va = Inr (p, k)" and new: "is_mode_enabled_in_satp env satp"
  shows "\<exists>t' tr. translate_virtual_to_physical env va (tlb_on_csr_write env CSR_SATP satp t) = (t', Inr tr) \<and> tr_phys tr = p"
proof -
  obtain w e where w: "tlb_lookup (drop_bit 12 (aw_addr va)) (am_asid (aw_mode va)) 0
      (tl_table t ! tlb_set_index env (drop_bit 12 (aw_addr va))) = Some (w, e)" using hit by auto
  have shape: "tlb_shape env t" using inv by (simp add: tlb_invariant_def)
  note e = hit_spec [OF coh shape on w]
  have "tlb_on_csr_write env CSR_SATP satp t = t\<lparr>tl_satp := satp\<rparr>"
    using on new by (simp add: tlb_on_csr_write_def should_translate_def Let_def)
  then show ?thesis using e(4) spec w on new
    by (simp add: translate_virtual_to_physical_def should_translate_def Let_def split: if_splits)
qed

end

text \<open>With virtual memory disabled, the TLB is a memory of its own right.\<close>

context tlb_over
begin

lemma translate_off:
  assumes "\<not> tv_vm_enabled env"
  shows "translate_virtual_to_physical env va t = (t, Inr \<lparr>tr_phys = aw_addr va, tr_bytes_until_page_end = -1, tr_entry = None\<rparr>)"
  using assms by (simp add: translate_virtual_to_physical_def should_translate_def)

lemma bare_contract:
  assumes "\<not> tv_vm_enabled env"
  shows "frontend_contract (tlb_ops env) tlb_inv tview (\<lambda>a n. admits a n \<and> n < 2 ^ 64)"
proof
  note off = translate_off [OF assms]
  have inv: "tlb_inv (t\<lparr>tl_mem := m\<rparr>)" if "tlb_inv t" "minv m" for t m using that by (simp add: tlb_invariant_def tlb_shape_def)
  have top: "unat (-1 :: u64) = 2 ^ 64 - 1" by (simp add: unsigned_minus_1_eq_mask mask_eq_exp_minus_1)
  fix t and a :: AddressWithMode
  assume t: "tlb_inv t"
  then have m: "minv (tl_mem t)" by (simp add: tlb_invariant_def)
  show "\<exists>t' k. fm_read (tlb_ops env) a n AE_REGULAR t = (t', Inr (load_bytes (tview t) (aw_addr a) n, k)) \<and> tlb_inv t' \<and> tview t' = tview t"
    if n: "0 < n" "admits (aw_addr a) n \<and> n < 2 ^ 64" for n
  proof -
    from mem.read_contract [OF m n(1), of "plain_address (aw_addr a)"] n(2) obtain m' k where
      m': "fm_read (tv_mem env) (plain_address (aw_addr a)) n AE_REGULAR (tl_mem t) = (m', Inr (load_bytes (tview t) (aw_addr a) n, k))"
        "minv m'" "view m' = tview t" by auto
    have "fm_read (tlb_ops env) a n AE_REGULAR t = (t\<lparr>tl_mem := m'\<rparr>, Inr (load_bytes (tview t) (aw_addr a) n, k))"
      using n m'(1) by (cases n) (simp_all add: tlb_ops_def tlb_read_def off tlb_ensure_def top tl_lower_ok act_bind_def)
    then show ?thesis using inv [OF t m'(2)] m'(3) by simp
  qed
  show "\<exists>t' r. fm_write (tlb_ops env) a bs AE_REGULAR t = (t', Inr r) \<and> tlb_inv t' \<and> tview t' = store_bytes (tview t) (aw_addr a) bs"
    if bs: "bs \<noteq> []" "admits (aw_addr a) (length bs) \<and> length bs < 2 ^ 64" for bs
  proof -
    from mem.write_contract [OF m bs(1), of "plain_address (aw_addr a)"] bs(2) obtain m' r where
      m': "fm_write (tv_mem env) (plain_address (aw_addr a)) bs AE_REGULAR (tl_mem t) = (m', Inr r)" "minv m'"
        "view m' = store_bytes (tview t) (aw_addr a) bs" by auto
    have "fm_write (tlb_ops env) a bs AE_REGULAR t = (t\<lparr>tl_mem := m'\<rparr>, Inr (write_result_add r write_result_zero))"
      using bs m'(1) by (cases bs) (simp_all add: tlb_ops_def tlb_write_def off tlb_ensure_def top tl_lower_ok act_bind_def Let_def)
    then show ?thesis using inv [OF t m'(2)] m'(3) by simp
  qed
qed simp

end

section \<open>Flushes restore coherence\<close>

lemma invalidate_coherent:
  assumes "\<And>row ent. row \<in> set (tl_table t) \<Longrightarrow> ent \<in> set row \<Longrightarrow> te_valid ent \<Longrightarrow> te_asid ent = asid \<Longrightarrow> \<not> P ent \<Longrightarrow>
      entry_coherent (tlb_paging env) (tv_host env) v (tl_satp t) ent"
    and "tl_table t' = invalidate_all P (tl_table t)" "tl_satp t' = tl_satp t"
  shows "tlb_coherent env v asid t'"
  using assms by (auto simp: tlb_coherent_def invalidate_all_def invalidate_entry_def)

lemma bump_simps [simp]:
  "tl_table (bump_change_counter t) = tl_table t" "tl_satp (bump_change_counter t) = tl_satp t"
  "tl_mem (bump_change_counter t) = tl_mem t" "tl_policy (bump_change_counter t) = tl_policy t"
  by (simp_all add: bump_change_counter_def)

lemma flush_all_coherent:
  assumes "tlb_config_ok (tv_config env)"
  shows "tlb_coherent env v asid (flush_all_entries env t)"
  by (rule invalidate_coherent [where t = t and P = "\<lambda>_. True"]) (use assms in \<open>auto simp: flush_all_entries_def tlb_config_ok_def\<close>)

lemma invalidate_shape:
  "tlb_shape env t \<Longrightarrow> tl_table t' = invalidate_all P (tl_table t) \<Longrightarrow> tl_policy t' = tl_policy t \<Longrightarrow> tlb_shape env t'"
  by (auto simp: tlb_shape_def invalidate_all_def)

lemma flush_by_vpn_simps:
  "tl_table (flush_by_vpn vpn t) = invalidate_all (\<lambda>e. te_vpn e = vpn) (tl_table t)" "tl_satp (flush_by_vpn vpn t) = tl_satp t"
  "tl_policy (flush_by_vpn vpn t) = tl_policy t" "tl_mem (flush_by_vpn vpn t) = tl_mem t"
  by (simp_all add: flush_by_vpn_def Let_def)

lemma flush_by_asid_simps:
  "tl_table (flush_by_asid a t) = invalidate_all (\<lambda>e. te_asid e = a) (tl_table t)" "tl_satp (flush_by_asid a t) = tl_satp t"
  "tl_policy (flush_by_asid a t) = tl_policy t" "tl_mem (flush_by_asid a t) = tl_mem t"
  by (simp_all add: flush_by_asid_def Let_def)

lemma flush_single_misses:
  assumes "tlb_shape env t" "tlb_config_ok (tv_config env)"
  shows "tlb_lookup (drop_bit 12 va) asid 0 (tl_table (flush_single env va asid t) ! tlb_set_index env (drop_bit 12 va)) = None"
proof -
  let ?s = "tlb_set_index env (drop_bit 12 va)"
  have none: "tlb_lookup vpn a k (map (invalidate_entry P) row) = None" if "\<And>e. te_vpn e = vpn \<Longrightarrow> te_asid e = a \<Longrightarrow> P e" for vpn a k P row
    using that by (induction row arbitrary: k) (auto simp: invalidate_entry_def)
  have "?s < length (tl_table t)" by (rule tlb_row(3) [OF assms(1) tlb_set_index_bound [OF assms(2)]])
  then show ?thesis by (simp add: flush_single_def Let_def none)
qed

section \<open>The TLBs of the machine\<close>

text \<open>
  The program TLB as the machine constructs it, over the program cache; the default arguments
  are the access penalties.  The data TLB has the data cache behind it, and walks through the
  program cache all the same.
\<close>

definition program_tlb_env :: "Endian \<Rightarrow> 'c frontend_ops \<Rightarrow> TLBConfig \<Rightarrow> Xlen \<Rightarrow> bool \<Rightarrow> (nat \<Rightarrow> nat) \<Rightarrow> 'c tlb_env" where
  "program_tlb_env host cch_program tc xlen vm_enabled rnd = \<lparr>tv_host = host, tv_mem = cch_program, tv_ptw = cch_program,
     tv_same_mem = True, tv_config = tc, tv_xlen = xlen, tv_vm_enabled = vm_enabled, tv_rnd = rnd,
     tv_pen_r = 1, tv_pen_w = 1, tv_pen_b = 0, tv_ena_b = False\<rparr>"

definition data_tlb_env :: "Endian \<Rightarrow> 'c frontend_ops \<Rightarrow> 'c frontend_ops \<Rightarrow> TLBConfig \<Rightarrow> Xlen \<Rightarrow> bool \<Rightarrow> (nat \<Rightarrow> nat) \<Rightarrow> 'c tlb_env" where
  "data_tlb_env host cch_data cch_program tc xlen vm_enabled rnd = \<lparr>tv_host = host, tv_mem = cch_data, tv_ptw = cch_program,
     tv_same_mem = False, tv_config = tc, tv_xlen = xlen, tv_vm_enabled = vm_enabled, tv_rnd = rnd,
     tv_pen_r = 1, tv_pen_w = 1, tv_pen_b = 0, tv_ena_b = False\<rparr>"

text \<open>Every configuration that the setters can make is accepted.\<close>

definition tlb_config_of :: "u32 \<Rightarrow> u32 \<Rightarrow> TLBPolicyKind \<Rightarrow> TLBConfig" where
  "tlb_config_of sets ways kind =
     set_tlb_replacement_policy kind (set_tlb_associativity ways (set_tlb_num_sets sets default_tlb_config))"

lemma tlb_config_of_ok: "tlb_config_ok (tlb_config_of sets ways kind)"
proof -
  have "unat (if v > 0 then v else 1 :: u32) > 0" "unat (if v > 0 then v else 1 :: u32) \<le> 2 ^ 32" for v
    using order.strict_implies_order [OF unsigned_less [of v]] by (auto simp: unat_gt_0 word_gt_0)
  then show ?thesis
    by (simp add: tlb_config_ok_def tlb_config_of_def set_tlb_replacement_policy_def set_tlb_associativity_def set_tlb_num_sets_def
        del: if_split)
qed

definition preset_tlb_env where
  "preset_tlb_env host rp wp rnd1 other sets ways kind xlen vm rnd2 =
     program_tlb_env host (cache_ops (preset_cache rp wp) rnd1 (bus_ops (device_ops other) host)) (tlb_config_of sets ways kind) xlen vm rnd2"

abbreviation preset_inv where
  "preset_inv rp wp \<equiv> cache_inv ram.on_bus_inv ram.on_bus_view 0xf0000000 (preset_cache rp wp)"
abbreviation preset_view where
  "preset_view rp wp \<equiv> cache_view ram.on_bus_view (preset_cache rp wp)"
abbreviation preset_admits where
  "preset_admits \<equiv> cache_admits ram.on_bus_admits 0xf0000000"

interpretation preset_tlb: tlb_over "preset_tlb_env host rp wp rnd1 other sets ways kind xlen vm rnd2"
    "preset_inv rp wp" "preset_view rp wp" preset_admits
    for host rp wp rnd1 and other :: "'x backend_ops" and sets ways kind xlen vm rnd2
proof -
  have c: "frontend_contract (cache_ops (preset_cache rp wp) rnd1 (bus_ops (device_ops other) host)) (preset_inv rp wp)
      (preset_view rp wp) preset_admits"
    by (rule preset_l1.cached_contract)
  then show "tlb_over (preset_tlb_env host rp wp rnd1 other sets ways kind xlen vm rnd2) (preset_inv rp wp) (preset_view rp wp) preset_admits"
    by (intro tlb_over.intro tlb_over_axioms.intro)
      (simp_all add: preset_tlb_env_def program_tlb_env_def tlb_config_of_ok cache_ops_def bus_ops_def)
qed

section \<open>Properties\<close>

text \<open>
  Claim C3: the TLB is invisible.  Whatever the number of sets and ways, the replacement policy
  and the random numbers, for Sv32 and Sv39, a translation through a TLB whose entries are
  coherent with the page tables gives exactly what the page tables in memory give, the same
  physical address and the same page faults, on a hit as on a miss; the address itself with paging
  off or in machine mode; and it leaves the TLB coherent and the memory as it was.
\<close>

theorem tlb_translates_as_page_tables:
  fixes host rp wp rnd1 sets ways kind xlen vm rnd2 and other :: "'x backend_ops"
  defines "env \<equiv> preset_tlb_env host rp wp rnd1 other sets ways kind xlen vm rnd2"
  assumes "tlb_invariant (preset_inv rp wp) env t" "tlb_coherent env (preset_view rp wp (tl_mem t)) (am_asid (aw_mode va)) t"
    "should_translate env (aw_mode va) t \<longrightarrow> tables_admitted preset_admits env (preset_view rp wp (tl_mem t)) t (aw_addr va)"
  shows "\<exists>t' r. translate_virtual_to_physical env va t = (t', r) \<and>
    map_sum id (\<lambda>tr. (tr_phys tr, tr_bytes_until_page_end tr)) r = translate_spec env (preset_view rp wp (tl_mem t)) t va \<and>
    tlb_invariant (preset_inv rp wp) env t' \<and> tlb_coherent env (preset_view rp wp (tl_mem t')) (am_asid (aw_mode va)) t' \<and>
    preset_view rp wp (tl_mem t') = preset_view rp wp (tl_mem t)"
  using preset_tlb.translate_contract [OF assms(2-4) [unfolded env_def]]
  unfolding env_def preset_tlb.keeps_def by (fastforce split: sum.splits)

text \<open>
  Claim C13: reads and writes through the TLB.  An access to bytes of one page reads or writes
  exactly the bytes at the physical address that the page tables give, after the accessed bit of
  the leaf entry was set in memory, and the dirty bit for a write; a refused access raises
  the page fault of the tables and changes no byte.  The TLB stays coherent, for a write as
  long as the bytes written are not page table entries.
\<close>

theorem tlb_access_page:
  fixes host rp wp rnd1 sets ways kind xlen vm rnd2 and other :: "'x backend_ops"
  defines "env \<equiv> preset_tlb_env host rp wp rnd1 other sets ways kind xlen vm rnd2"
  assumes "tlb_invariant (preset_inv rp wp) env t" "tlb_coherent env (preset_view rp wp (tl_mem t)) (am_asid (aw_mode va)) t"
    "should_translate env (aw_mode va) t \<longrightarrow> tables_admitted preset_admits env (preset_view rp wp (tl_mem t)) t (aw_addr va)"
    "bs \<noteq> []"
  shows "case translate_spec env (preset_view rp wp (tl_mem t)) t va of
      Inl e \<Rightarrow> (\<exists>t'. tlb_read env va (length bs) AE_REGULAR t = (t', Inl e) \<and> preset_view rp wp (tl_mem t') = preset_view rp wp (tl_mem t)) \<and>
        (\<exists>t'. tlb_write env va bs AE_REGULAR t = (t', Inl e) \<and> preset_view rp wp (tl_mem t') = preset_view rp wp (tl_mem t))
    | Inr (p, k) \<Rightarrow> length bs \<le> unat k \<and> preset_admits p (length bs) \<longrightarrow>
        (\<exists>t' c. tlb_read env va (length bs) AE_REGULAR t =
            (t', Inr (load_bytes (access_view env False t va (preset_view rp wp (tl_mem t))) p (length bs), c)) \<and>
          preset_view rp wp (tl_mem t') = access_view env False t va (preset_view rp wp (tl_mem t)) \<and>
          tlb_coherent env (preset_view rp wp (tl_mem t')) (am_asid (aw_mode va)) t') \<and>
        (\<exists>t' r. tlb_write env va bs AE_REGULAR t = (t', Inr r) \<and>
          preset_view rp wp (tl_mem t') = store_bytes (access_view env True t va (preset_view rp wp (tl_mem t))) p bs \<and>
          (tables_similar (tlb_paging env) (tv_host env) (access_view env True t va (preset_view rp wp (tl_mem t))) (preset_view rp wp (tl_mem t')) \<longrightarrow>
             tlb_coherent env (preset_view rp wp (tl_mem t')) (am_asid (aw_mode va)) t'))"
proof (cases "translate_spec env (preset_view rp wp (tl_mem t)) t va")
  case (Inl e)
  have "0 < length bs" using assms(5) by simp
  from preset_tlb.fault_contract(1) [OF assms(2-4) [unfolded env_def] Inl [unfolded env_def] this]
    preset_tlb.fault_contract(2) [OF assms(2-4) [unfolded env_def] Inl [unfolded env_def] this assms(5)]
  show ?thesis unfolding Inl sum.case unfolding env_def preset_tlb.keeps_def by blast
next
  case (Inr pk)
  obtain p k where pk: "pk = (p, k)" by (cases pk)
  show ?thesis
    using preset_tlb.read_page_contract [OF assms(2-4) [unfolded env_def] Inr [unfolded env_def pk], of "length bs"]
      preset_tlb.write_page_contract [OF assms(2-4) [unfolded env_def] Inr [unfolded env_def pk] assms(5)] assms(5)
    unfolding Inr pk sum.case prod.case unfolding env_def by blast
qed

text \<open>
  Claim C14: \<^verbatim>\<open>sfence.vma\<close> makes the TLB forget what the program changed.  Without arguments it
  makes the TLB coherent with whatever page tables are in memory; with an address space
  identifier, for the accesses with that identifier; with an address, when the tables resolve every
  other page as before.
\<close>

theorem sfence_restores_coherence:
  assumes "tlb_config_ok (tv_config env)"
  shows "tlb_coherent env v' a (tlb_sfence_vma env 0 0 t) \<and>
    (asid \<noteq> 0 \<longrightarrow> tlb_coherent env v' (ucast asid) (tlb_sfence_vma env 0 asid t)) \<and>
    (vaddr \<noteq> 0 \<and> tlb_coherent env v a t \<and>
       (\<forall>vpn. vpn \<noteq> drop_bit 12 vaddr \<longrightarrow> pt_resolve (tlb_paging env) (tv_host env) v' (tl_satp t) (unat vpn * 4096) =
          pt_resolve (tlb_paging env) (tv_host env) v (tl_satp t) (unat vpn * 4096)) \<longrightarrow>
     tlb_coherent env v' a (tlb_sfence_vma env vaddr 0 t))"
proof (intro conjI impI)
  show "tlb_coherent env v' a (tlb_sfence_vma env 0 0 t)" by (simp add: tlb_sfence_vma_def flush_all_coherent [OF assms])
  have m: "(0xFFFF :: u64) = mask 16" by (simp add: mask_eq_exp_minus_1)
  have cast: "(ucast (asid AND 0xFFFF) :: u16) = ucast asid" unfolding m by (rule bit_word_eqI) (auto simp: bit_simps)
  show "tlb_coherent env v' (ucast asid) (tlb_sfence_vma env 0 asid t)" if "asid \<noteq> 0"
    by (rule invalidate_coherent [where t = t and P = "\<lambda>e. te_asid e = ucast asid"])
      (use that cast in \<open>simp_all add: tlb_sfence_vma_def flush_by_asid_simps\<close>)
  assume a: "vaddr \<noteq> 0 \<and> tlb_coherent env v a t \<and>
       (\<forall>vpn. vpn \<noteq> drop_bit 12 vaddr \<longrightarrow> pt_resolve (tlb_paging env) (tv_host env) v' (tl_satp t) (unat vpn * 4096) =
          pt_resolve (tlb_paging env) (tv_host env) v (tl_satp t) (unat vpn * 4096))"
  show "tlb_coherent env v' a (tlb_sfence_vma env vaddr 0 t)"
  proof (rule invalidate_coherent [where t = t and P = "\<lambda>e. te_vpn e = drop_bit 12 vaddr"])
    fix row ent assume "row \<in> set (tl_table t)" "ent \<in> set row" "te_valid ent" "te_asid ent = a" "te_vpn ent \<noteq> drop_bit 12 vaddr"
    then show "entry_coherent (tlb_paging env) (tv_host env) v' (tl_satp t) ent"
      using a unfolding tlb_coherent_def entry_coherent_def by simp
  qed (use a in \<open>simp_all add: tlb_sfence_vma_def flush_by_vpn_simps\<close>)
qed

theorem sfence_restores_coherence_witness:
  "tlb_coherent (program_tlb_env LITTLE (cache_ops (preset_cache RP_LRU WP_BACK) (\<lambda>_. 0) (bus_ops (device_ops absent_device_ops) LITTLE))
      (tlb_config_of 4 2 TPK_PLRU) XLEN_32 True (\<lambda>_. 0)) (\<lambda>_. 0xCF) 0
    (tlb_sfence_vma (program_tlb_env LITTLE (cache_ops (preset_cache RP_LRU WP_BACK) (\<lambda>_. 0) (bus_ops (device_ops absent_device_ops) LITTLE))
      (tlb_config_of 4 2 TPK_PLRU) XLEN_32 True (\<lambda>_. 0)) 0 0
      \<lparr>tl_mem = cache_new (preset_cache RP_LRU WP_BACK) ram_bus, tl_satp = 0x80000001, tl_sstatus = 0,
       tl_table = replicate 4 (replicate 2 (empty_tlb_entry\<lparr>te_valid := True, te_vpn := 7\<rparr>)), tl_policy = TLBPolicyRAND,
       tl_rand_calls = 0, tl_hit_count = 0, tl_miss_count = 0, tl_mem_reads = 0, tl_mem_writes = 0, tl_ptw_reads = 0,
       tl_ptw_writes = 0, tl_burst_reads = 0, tl_burst_writes = 0, tl_change_counter = 0\<rparr>)"
  by (rule sfence_restores_coherence [THEN conjunct1]) (simp add: program_tlb_env_def tlb_config_of_ok)

text \<open>
  Writing \<^verbatim>\<open>satp\<close> does not change the address space.  When the register is written
  with paging staying on, whatever root table and address space identifier the new value has, an
  address that the TLB holds is still translated as the old tables said.  The identifier in \<^verbatim>\<open>satp\<close>
  never reaches the access mode, so it does not separate the entries either.
\<close>

theorem satp_write_keeps_translations:
  fixes host rp wp rnd1 sets ways kind xlen vm rnd2 and other :: "'x backend_ops"
  defines "env \<equiv> preset_tlb_env host rp wp rnd1 other sets ways kind xlen vm rnd2"
  assumes "tlb_invariant (preset_inv rp wp) env t" "tlb_coherent env (preset_view rp wp (tl_mem t)) (am_asid (aw_mode va)) t"
    "should_translate env (aw_mode va) t"
    "tlb_lookup (drop_bit 12 (aw_addr va)) (am_asid (aw_mode va)) 0
      (tl_table t ! tlb_set_index env (drop_bit 12 (aw_addr va))) \<noteq> None"
    "translate_spec env (preset_view rp wp (tl_mem t)) t va = Inr (p, k)" "is_mode_enabled_in_satp env satp"
  shows "\<exists>t' tr. translate_virtual_to_physical env va (tlb_on_csr_write env CSR_SATP satp t) = (t', Inr tr) \<and> tr_phys tr = p"
  using preset_tlb.satp_write_hit [OF assms(2-7) [unfolded env_def]] unfolding env_def .

section \<open>Witnesses\<close>

lemma translate_spec_cong:
  "tl_satp t' = tl_satp t \<Longrightarrow> tl_sstatus t' = tl_sstatus t \<Longrightarrow> translate_spec env v t' va = translate_spec env v t va"
  by (simp only: translate_spec_def should_translate_def)

text \<open>
  A machine with an Sv32 table at page 1 that maps the four megabytes from \<open>0x400000\<close> to
  \<open>0x800000\<close>, just after \<^verbatim>\<open>satp\<close> was written.
\<close>

definition example_env :: "unit device data_bus cache tlb_env" where
  "example_env = preset_tlb_env LITTLE RP_LRU WP_BACK (\<lambda>_. 0) absent_device_ops 4 2 TPK_PLRU XLEN_32 True (\<lambda>_. 0)"

definition example_va :: AddressWithMode where
  "example_va = \<lparr>aw_addr = 0x403004, aw_mode = am_pack 0 SUPERVISOR OP_READ 0\<rparr>"

definition example_tlb :: "unit device data_bus cache \<Rightarrow> unit device data_bus cache TLB" where
  "example_tlb c = tlb_on_csr_write example_env CSR_SATP 0x80000001 (tlb_new example_env c)"

lemma example_env_simps:
  "tv_host example_env = LITTLE" "tlb_paging example_env = SV32" "tv_vm_enabled example_env" "tlb_config_ok (tv_config example_env)"
  "tlb_sets example_env = 4" "tlb_ways example_env = 2" "tv_xlen example_env = XLEN_32"
  by (simp_all add: example_env_def preset_tlb_env_def program_tlb_env_def tlb_paging_def tlb_config_of_ok)
    (simp_all add: tlb_config_of_def set_tlb_replacement_policy_def set_tlb_associativity_def set_tlb_num_sets_def)

lemma example_tlb_simps:
  "tl_mem (example_tlb c) = c" "tl_satp (example_tlb c) = 0x80000001" "tl_sstatus (example_tlb c) = 0"
  "tl_table (example_tlb c) = replicate 4 (replicate 2 empty_tlb_entry)" "tlb_coherent example_env v asid (example_tlb c)"
  "tlb_shape example_env (example_tlb c)"
proof -
  have e: "example_tlb c = flush_all_entries example_env ((tlb_new example_env c)\<lparr>tl_satp := 0x80000001\<rparr>)"
    by (simp add: example_tlb_def tlb_on_csr_write_def Let_def is_mode_enabled_in_satp_def example_env_simps tlb_new_def)
  show tab: "tl_table (example_tlb c) = replicate 4 (replicate 2 empty_tlb_entry)"
    by (simp add: e flush_all_entries_def example_env_simps invalidate_all_def invalidate_entry_def tlb_new_def empty_tlb_entry_def)
  show "tl_mem (example_tlb c) = c" "tl_satp (example_tlb c) = 0x80000001" "tl_sstatus (example_tlb c) = 0"
    by (simp_all add: e flush_all_entries_def bump_change_counter_def tlb_new_def)
  show "tlb_coherent example_env v asid (example_tlb c)" unfolding e by (rule flush_all_coherent) (simp add: example_env_simps)
  have "tl_policy (example_tlb c) = make_tlb_policy (tc_replacement_policy (tv_config example_env)) 2 4"
    by (simp add: e flush_all_entries_def tlb_new_def example_env_simps)
  then show "tlb_shape example_env (example_tlb c)"
    using tlb_policy_new_inv [of 2 4] by (simp add: tlb_shape_def tab example_env_simps)
qed

lemma example_spec:
  assumes "preset_view RP_LRU WP_BACK c = superpage_view" "preset_inv RP_LRU WP_BACK c"
  shows "tlb_invariant (preset_inv RP_LRU WP_BACK) example_env (example_tlb c)"
    "should_translate example_env (aw_mode example_va) (example_tlb c)"
    "tables_admitted preset_admits example_env superpage_view (example_tlb c) (aw_addr example_va)"
    "translate_spec example_env superpage_view (example_tlb c) example_va = Inr (0x803004, 4092)"
proof -
  have root: "satp_root SV32 0x80000001 = 1" by (simp add: satp_root_def)
  show "tlb_invariant (preset_inv RP_LRU WP_BACK) example_env (example_tlb c)"
    using assms(2) by (simp add: tlb_invariant_def example_tlb_simps)
  show on: "should_translate example_env (aw_mode example_va) (example_tlb c)"
    by (simp add: should_translate_def example_env_simps example_tlb_simps is_mode_enabled_in_satp_def example_va_def am_priv_pack)
  show "tables_admitted preset_admits example_env superpage_view (example_tlb c) (aw_addr example_va)"
    using superpage_lookup(2) superpage_admitted by (simp add: tables_admitted_def example_env_simps example_tlb_simps example_va_def root pt_admitted_def)
  have "pt_resolve SV32 LITTLE superpage_view 0x80000001 0x403004 = Some (1, 0x1004, 0x2000CF)"
    using superpage_lookup(1) by (simp add: pt_resolve_def root)
  moreover have "leaf_permits 0 0x2000CF (am_pack 0 SUPERVISOR OP_READ 0)"
    by (simp add: leaf_permits_def am_priv_pack am_opkind_pack)
  ultimately show "translate_spec example_env superpage_view (example_tlb c) example_va = Inr (0x803004, 4092)"
    using on by (simp add: translate_spec_def example_env_simps example_tlb_simps example_va_def leaf_address_def ppn_of_def page_bytes_def)
qed

theorem tlb_translates_as_page_tables_witness:
  "\<exists>c t' r. translate_virtual_to_physical example_env example_va (example_tlb c) = (t', r) \<and>
     map_sum id (\<lambda>tr. (tr_phys tr, tr_bytes_until_page_end tr)) r = Inr (0x803004, 4092)"
proof -
  obtain c :: "unit device data_bus cache" where c: "preset_inv RP_LRU WP_BACK c" "preset_view RP_LRU WP_BACK c = superpage_view" using superpage_memory by blast
  note ex = example_spec [OF c(2,1)] example_tlb_simps(1) [of c] example_tlb_simps(5) [where c = c]
  from tlb_translates_as_page_tables [of RP_LRU WP_BACK LITTLE "\<lambda>_. 0" absent_device_ops 4 2 TPK_PLRU XLEN_32 True "\<lambda>_. 0" "example_tlb c" example_va]
  show ?thesis using ex c unfolding example_env_def [symmetric] by auto
qed

theorem tlb_access_page_witness:
  "\<exists>c t' k. tlb_read example_env example_va 4 AE_REGULAR (example_tlb c) = (t', Inr ([0, 0, 0, 0], k))"
proof -
  obtain c :: "unit device data_bus cache" where c: "preset_inv RP_LRU WP_BACK c" "preset_view RP_LRU WP_BACK c = superpage_view" using superpage_memory by blast
  note ex = example_spec [OF c(2,1)] example_tlb_simps(1) [of c] example_tlb_simps(5) [where c = c]
  have res: "pt_resolve SV32 LITTLE superpage_view 0x80000001 0x403004 = Some (1, 0x1004, 0x2000CF)"
    using superpage_lookup(1) by (simp add: pt_resolve_def satp_root_def)
  have "set_ad SV32 LITTLE False 0x1004 superpage_view = superpage_view"
    by (rule set_ad_id) (simp add: superpage_pte ad_bits_def)
  then have v: "access_view example_env False (example_tlb c) example_va superpage_view = superpage_view"
    using res by (simp add: access_view_def ex(2) example_env_simps example_tlb_simps) (simp add: example_va_def example_env_simps)
  have adm: "preset_admits 0x803004 4"
    unfolding cache_admits_def ram.on_bus_admits_def
    by (simp add: range_contains_def ram_range_def memory_admits_def memory_constants)
  have l: "load_bytes superpage_view 0x803004 4 = [0, 0, 0, 0]"
    by (simp add: superpage_view_def load_bytes_def upt_rec)
  have four: "length [0, 0, 0, 0 :: byte] = 4" by simp
  from tlb_access_page [of RP_LRU WP_BACK LITTLE "\<lambda>_. 0" absent_device_ops 4 2 TPK_PLRU XLEN_32 True "\<lambda>_. 0" "example_tlb c" example_va
      "[0, 0, 0, 0]"]
  show ?thesis using ex c adm unfolding example_env_def [symmetric] four by (auto simp: v l)
qed

text \<open>The table with the translation of the page, and the switch to an empty table at page 2.\<close>

definition example_filled :: "unit device data_bus cache \<Rightarrow> unit device data_bus cache TLB" where
  "example_filled c = (example_tlb c)\<lparr>tl_table := replicate 3 (replicate 2 empty_tlb_entry) @
     [[empty_tlb_entry\<lparr>te_valid := True, te_vpn := 0x403, te_phys := 0x803000, te_pte_addr := 0x1004, te_pte_bytes := 4,
        te_R := True, te_W := True, te_X := True\<rparr>, empty_tlb_entry]]\<rparr>"

theorem satp_write_keeps_translations_witness:
  "\<exists>c. (\<exists>t' tr. translate_virtual_to_physical example_env example_va
        (tlb_on_csr_write example_env CSR_SATP 0x80000002 (example_filled c)) = (t', Inr tr) \<and> tr_phys tr = 0x803004) \<and>
     translate_spec example_env (preset_view RP_LRU WP_BACK c)
        (tlb_on_csr_write example_env CSR_SATP 0x80000002 (example_filled c)) example_va = Inl (page_fault (aw_mode example_va))"
proof -
  obtain c :: "unit device data_bus cache" where c: "preset_inv RP_LRU WP_BACK c" "preset_view RP_LRU WP_BACK c = superpage_view" using superpage_memory by blast
  note ex = example_spec [OF c(2,1)]
  have t: "tl_mem (example_filled c) = c" "tl_satp (example_filled c) = 0x80000001" "tl_sstatus (example_filled c) = 0"
    by (simp_all add: example_filled_def example_tlb_simps)
  have res: "pt_resolve SV32 LITTLE superpage_view 0x80000001 0x403004 = Some (1, 0x1004, 0x2000CF)"
    using superpage_lookup(1) by (simp add: pt_resolve_def satp_root_def)
  have page: "pt_resolve SV32 LITTLE superpage_view 0x80000001 0x403000 = Some (1, 0x1004, 0x2000CF)"
    using pt_resolve_page [of SV32 LITTLE superpage_view "0x80000001" "0x403004"] res by simp
  have inv: "tlb_invariant (preset_inv RP_LRU WP_BACK) example_env (example_filled c)"
    using ex(1) by (auto simp: tlb_invariant_def tlb_shape_def example_filled_def example_env_simps example_tlb_simps)
  have coh: "tlb_coherent example_env superpage_view 0 (example_filled c)"
    using page by (simp add: tlb_coherent_def t example_filled_def empty_tlb_entry_def example_tlb_simps entry_coherent_def
        example_env_simps leaf_address_def ppn_of_def page_bytes_def)
  have on: "should_translate example_env (aw_mode example_va) (example_filled c)"
    using ex(2) by (simp add: should_translate_def t example_tlb_simps)
  have spec: "translate_spec example_env superpage_view (example_filled c) example_va = Inr (0x803004, 4092)"
    using ex(4) translate_spec_cong [of "example_filled c" "example_tlb c" example_env] by (simp add: t example_tlb_simps)
  have new: "is_mode_enabled_in_satp example_env 0x80000002" by (simp add: is_mode_enabled_in_satp_def example_env_simps)
  have hit: "tlb_lookup (drop_bit 12 (aw_addr example_va)) (am_asid (aw_mode example_va)) 0
      (tl_table (example_filled c) ! tlb_set_index example_env (drop_bit 12 (aw_addr example_va))) \<noteq> None"
    by (simp add: example_va_def tlb_set_index_def example_env_simps example_filled_def empty_tlb_entry_def nth_append am_asid_pack)
  have "tlb_on_csr_write example_env CSR_SATP 0x80000002 (example_filled c) = (example_filled c)\<lparr>tl_satp := 0x80000002\<rparr>"
    using on new by (simp add: tlb_on_csr_write_def should_translate_def)
  moreover have "pt_resolve SV32 LITTLE superpage_view 0x80000002 0x403004 = None"
    by (simp add: pt_resolve_def satp_root_def pte_address_def vpn_field_def page_bytes_def pte_at_def superpage_view_def load_bytes_def
        upt_rec bytes_value_def)
  ultimately have "translate_spec example_env superpage_view (tlb_on_csr_write example_env CSR_SATP 0x80000002 (example_filled c)) example_va =
      Inl (page_fault (aw_mode example_va))"
    using on by (simp add: translate_spec_def should_translate_def t example_env_simps new) (simp add: example_va_def)
  moreover have "am_asid (aw_mode example_va) = 0" by (simp add: example_va_def am_asid_pack)
  ultimately show ?thesis
    using satp_write_keeps_translations [of RP_LRU WP_BACK LITTLE "\<lambda>_. 0" absent_device_ops 4 2 TPK_PLRU XLEN_32 True "\<lambda>_. 0"
        "example_filled c" example_va "0x803004" 4092 "0x80000002"] inv coh on spec new hit c(2)
    unfolding example_env_def [symmetric] by (intro exI [of _ c]) (simp add: t)
qed

end
