(* ===== verification/Word_Access.thy ===== *)
theory Word_Access
  imports Memory_Bus
begin

text \<open>
  Access to peripherals that only know words of one width
  (\<^verbatim>\<open>read_by_u16\<close> to \<^verbatim>\<open>write_by_u64\<close> of \<^verbatim>\<open>src/src/machine/memory/memory_utils.h\<close>): an access of any
  size and alignment becomes a series of aligned word accesses, a partial write reads the word
  first.  The contract of the words is a locale, in which the loops are proved to be an array of
  bytes.
\<close>

section \<open>The loops\<close>

text \<open>
  The templates differ in the width only.  The mask of the offset is a 32-bit constant and clears
  the upper half of the offset as well.  The bodies run at least once, so that an empty access
  still calls the device; \<open>k = 0\<close> ends the loop for a width of zero, which none of them has.
\<close>

function read_by_word ::
  "Endian \<Rightarrow> u64 \<Rightarrow> ('s \<Rightarrow> u64 \<Rightarrow> 's \<times> 'a::len word) \<Rightarrow> 's \<Rightarrow> u64 \<Rightarrow> nat \<Rightarrow> byte list \<Rightarrow> 's \<times> byte list" where
  "read_by_word host align data_getter s current_src remaining_size acc =
     (let data_offset = unat current_src mod size_of TYPE('a);
          partial_size = min (size_of TYPE('a) - data_offset) remaining_size;
          (s, data) = data_getter s (current_src AND align);
          acc = acc @ take partial_size (drop data_offset (object_bytes host (size_of TYPE('a)) data))
      in if remaining_size - partial_size = 0 \<or> partial_size = 0 then (s, acc)
         else read_by_word host align data_getter s (current_src + of_nat partial_size) (remaining_size - partial_size) acc)"
  by pat_completeness auto
termination by (relation "measure (\<lambda>(h, m, g, s, a, n, acc). n)") auto

function write_by_word ::
  "Endian \<Rightarrow> u64 \<Rightarrow> ('s \<Rightarrow> u64 \<Rightarrow> 's \<times> 'a::len word) \<Rightarrow> ('s \<Rightarrow> u64 \<Rightarrow> 'a word \<Rightarrow> 's \<times> bool) \<Rightarrow> 's \<Rightarrow> u64 \<Rightarrow>
     byte list \<Rightarrow> bool \<Rightarrow> 's \<times> bool" where
  "write_by_word host align data_getter data_setter s current_dst current_src any_changed =
     (let data_offset = unat current_dst mod size_of TYPE('a);
          partial_size = min (size_of TYPE('a) - data_offset) (length current_src);
          (s, data) = (if partial_size < size_of TYPE('a) then data_getter s (current_dst AND align) else (s, 0));
          bytes = object_bytes host (size_of TYPE('a)) data;
          data = of_object_bytes host (take data_offset bytes @ take partial_size current_src @ drop (data_offset + partial_size) bytes);
          (s, now_changed) = data_setter s (current_dst AND align) data;
          any_changed = (any_changed \<or> now_changed)
      in if length current_src - partial_size = 0 \<or> partial_size = 0 then (s, any_changed)
         else write_by_word host align data_getter data_setter s (current_dst + of_nat partial_size) (drop partial_size current_src) any_changed)"
  by pat_completeness auto
termination by (relation "measure (\<lambda>(h, m, g, t, s, a, bs, c). length bs)") auto

declare read_by_word.simps [simp del] write_by_word.simps [simp del]

definition align_u16 :: u64 where "align_u16 = 0xFFFFFFFE"
definition align_u32 :: u64 where "align_u32 = 0xFFFFFFFC"
definition align_u64 :: u64 where "align_u64 = 0xFFFFFFF8"

definition read_by_u16 :: "Endian \<Rightarrow> ('s \<Rightarrow> u64 \<Rightarrow> 's \<times> u16) \<Rightarrow> 's \<Rightarrow> u64 \<Rightarrow> nat \<Rightarrow> 's \<times> byte list" where
  "read_by_u16 host get s src n = read_by_word host align_u16 get s src n []"
definition read_by_u32 :: "Endian \<Rightarrow> ('s \<Rightarrow> u64 \<Rightarrow> 's \<times> u32) \<Rightarrow> 's \<Rightarrow> u64 \<Rightarrow> nat \<Rightarrow> 's \<times> byte list" where
  "read_by_u32 host get s src n = read_by_word host align_u32 get s src n []"
definition read_by_u64 :: "Endian \<Rightarrow> ('s \<Rightarrow> u64 \<Rightarrow> 's \<times> u64) \<Rightarrow> 's \<Rightarrow> u64 \<Rightarrow> nat \<Rightarrow> 's \<times> byte list" where
  "read_by_u64 host get s src n = read_by_word host align_u64 get s src n []"

definition write_by_u16 ::
  "Endian \<Rightarrow> ('s \<Rightarrow> u64 \<Rightarrow> 's \<times> u16) \<Rightarrow> ('s \<Rightarrow> u64 \<Rightarrow> u16 \<Rightarrow> 's \<times> bool) \<Rightarrow> 's \<Rightarrow> u64 \<Rightarrow> byte list \<Rightarrow> 's \<times> write_result" where
  "write_by_u16 host get set_word s dst src =
     (case write_by_word host align_u16 get set_word s dst src False of (s, c) \<Rightarrow> (s, \<lparr>n_bytes = length src, changed = c\<rparr>))"
definition write_by_u32 ::
  "Endian \<Rightarrow> ('s \<Rightarrow> u64 \<Rightarrow> 's \<times> u32) \<Rightarrow> ('s \<Rightarrow> u64 \<Rightarrow> u32 \<Rightarrow> 's \<times> bool) \<Rightarrow> 's \<Rightarrow> u64 \<Rightarrow> byte list \<Rightarrow> 's \<times> write_result" where
  "write_by_u32 host get set_word s dst src =
     (case write_by_word host align_u32 get set_word s dst src False of (s, c) \<Rightarrow> (s, \<lparr>n_bytes = length src, changed = c\<rparr>))"
definition write_by_u64 ::
  "Endian \<Rightarrow> ('s \<Rightarrow> u64 \<Rightarrow> 's \<times> u64) \<Rightarrow> ('s \<Rightarrow> u64 \<Rightarrow> u64 \<Rightarrow> 's \<times> bool) \<Rightarrow> 's \<Rightarrow> u64 \<Rightarrow> byte list \<Rightarrow> 's \<times> write_result" where
  "write_by_u64 host get set_word s dst src =
     (case write_by_word host align_u64 get set_word s dst src False of (s, c) \<Rightarrow> (s, \<lparr>n_bytes = length src, changed = c\<rparr>))"

text \<open>On an offset below 4 GiB the masks round down.\<close>

lemma align_of_nat:
  assumes "x < 2 ^ 32"
  shows "(of_nat x AND (mask 32 AND NOT (mask k)) :: u64) = of_nat (x - x mod 2 ^ k)"
proof -
  have "(of_nat x AND mask 32 :: u64) = of_nat (take_bit 32 x)" by (simp only: take_bit_eq_mask [symmetric] of_nat_take_bit)
  then have "(of_nat x AND mask 32 :: u64) = of_nat x" using assms by (simp add: take_bit_nat_eq_self)
  then have "(of_nat x AND (mask 32 AND NOT (mask k)) :: u64) = of_nat x AND NOT (mask k)" by (simp only: and.assoc [symmetric])
  also have "\<dots> = of_nat x - take_bit k (of_nat x)"
  proof -
    have "(of_nat x :: u64) AND NOT (take_bit k (of_nat x)) = of_nat x AND NOT (mask k)"
      by (rule bit_word_eqI) (auto simp: bit_simps)
    then show ?thesis by (subst disjunctive_diff) (auto simp: bit_simps)
  qed
  also have "\<dots> = of_nat x - of_nat (take_bit k x)" by (simp only: of_nat_take_bit)
  also have "\<dots> = of_nat (x - x mod 2 ^ k)" by (simp add: take_bit_eq_mod of_nat_diff)
  finally show ?thesis .
qed

section \<open>Arrays of words\<close>

text \<open>
  A device whose words below a limit hold the bytes of an array: what the access functions of the
  words promise, and what the loops make of it.
\<close>

locale word_array =
  fixes host :: Endian and align :: u64
    and get :: "'s \<Rightarrow> u64 \<Rightarrow> 's \<times> 'a::len word" and set_word :: "'s \<Rightarrow> u64 \<Rightarrow> 'a word \<Rightarrow> 's \<times> bool"
    and winv :: "'s \<Rightarrow> bool" and wview :: "'s \<Rightarrow> nat \<Rightarrow> byte" and lim :: nat
  assumes sized: "byte_sized TYPE('a)"
    and lim: "size_of TYPE('a) dvd lim" "lim \<le> 2 ^ 32"
    and align: "x < 2 ^ 32 \<Longrightarrow> (of_nat x AND align :: u64) = of_nat (x - x mod size_of TYPE('a))"
    and get_word: "winv s \<Longrightarrow> size_of TYPE('a) dvd a \<Longrightarrow> a < lim \<Longrightarrow>
      \<exists>s' d. get s (of_nat a) = (s', d) \<and> winv s' \<and> wview s' = wview s \<and>
        object_bytes host (size_of TYPE('a)) d = map (wview s) [a..<a + size_of TYPE('a)]"
    and set_word: "winv s \<Longrightarrow> size_of TYPE('a) dvd a \<Longrightarrow> a < lim \<Longrightarrow>
      \<exists>s' c. set_word s (of_nat a) d = (s', c) \<and> winv s' \<and>
        wview s' = (\<lambda>x. if a \<le> x \<and> x < a + size_of TYPE('a) then object_bytes host (size_of TYPE('a)) d ! (x - a) else wview s x)"
begin

lemma w_pos: "0 < size_of TYPE('a)"
  using sized by (simp add: byte_sized_def)

lemma base:
  assumes "x < lim"
  shows "size_of TYPE('a) dvd x - x mod size_of TYPE('a)" "x - x mod size_of TYPE('a) < lim" "x - x mod size_of TYPE('a) + size_of TYPE('a) \<le> lim"
proof -
  show "size_of TYPE('a) dvd x - x mod size_of TYPE('a)" "x - x mod size_of TYPE('a) < lim" using assms by (simp_all add: less_imp_diff_less)
  obtain q where q: "lim = size_of TYPE('a) * q" using lim(1) by (rule dvdE)
  have "x div size_of TYPE('a) < q" using assms q w_pos by (metis less_mult_imp_div_less mult.commute)
  then have "size_of TYPE('a) * (x div size_of TYPE('a) + 1) \<le> lim" unfolding q by (intro mult_le_mono2) simp
  moreover have "x - x mod size_of TYPE('a) = size_of TYPE('a) * (x div size_of TYPE('a))" by (simp add: minus_mod_eq_mult_div)
  ultimately show "x - x mod size_of TYPE('a) + size_of TYPE('a) \<le> lim" by simp
qed

lemma unat_of_nat64: "x \<le> 2 ^ 32 \<Longrightarrow> unat (of_nat x :: u64) = x"
  by (intro unat_of_nat_small) simp

lemma read_loop:
  assumes "winv s" "0 < n" "x + n \<le> lim"
  shows "\<exists>s'. read_by_word host align get s (of_nat x) n acc = (s', acc @ map (wview s) [x..<x + n]) \<and> winv s' \<and> wview s' = wview s"
  using assms
proof (induction n arbitrary: s x acc rule: less_induct)
  case (less n)
  define off where "off = x mod size_of TYPE('a)"
  define k where "k = min (size_of TYPE('a) - off) n"
  have off: "off < size_of TYPE('a)" using w_pos by (simp add: off_def)
  have k: "0 < k" "k \<le> n" using off less.prems(2) by (simp_all add: k_def)
  have x: "x < lim" "x < 2 ^ 32" using less.prems(2,3) lim(2) by simp_all
  have un: "unat (of_nat x :: u64) = x" using x(2) by (simp add: unat_of_nat64)
  note b = base [OF x(1)]
  obtain s1 d where g: "get s (of_nat (x - off)) = (s1, d)" "winv s1" "wview s1 = wview s"
      "object_bytes host (size_of TYPE('a)) d = map (wview s) [x - off..<x - off + size_of TYPE('a)]"
    using get_word [OF less.prems(1) b(1,2)] by (auto simp: off_def)
  have part: "take k (drop off (object_bytes host (size_of TYPE('a)) d)) = map (wview s) [x..<x + k]"
  proof -
    have "drop off [x - off..<x - off + size_of TYPE('a)] = [x..<x - off + size_of TYPE('a)]" by (simp add: off_def)
    moreover have "take k [x..<x - off + size_of TYPE('a)] = [x..<x + k]"
      using off k by (subst take_upt) (simp_all add: k_def off_def)
    ultimately show ?thesis by (simp add: g(4) drop_map take_map)
  qed
  have step: "read_by_word host align get s (of_nat x) n acc = (if n - k = 0 \<or> k = 0 then (s1, acc @ map (wview s) [x..<x + k])
      else read_by_word host align get s1 (of_nat x + of_nat k) (n - k) (acc @ map (wview s) [x..<x + k]))"
    by (subst read_by_word.simps) (simp only: Let_def un align [OF x(2)] off_def [symmetric] k_def [symmetric] g(1) prod.case part)
  show ?case
  proof (cases "n - k = 0")
    case True
    then show ?thesis using step g k by auto
  next
    case False
    then have "n - k < n" "0 < n - k" "(x + k) + (n - k) \<le> lim" using k less.prems by simp_all
    from less.IH [OF this(1) g(2) this(2,3), of "acc @ map (wview s) [x..<x + k]"] obtain s' where
      "read_by_word host align get s1 (of_nat (x + k)) (n - k) (acc @ map (wview s) [x..<x + k]) =
        (s', (acc @ map (wview s) [x..<x + k]) @ map (wview s1) [x + k..<(x + k) + (n - k)])" "winv s'" "wview s' = wview s1" by blast
    moreover have "[x..<x + n] = [x..<x + k] @ [x + k..<(x + k) + (n - k)]" using k by (metis add.assoc le_add1 le_add_diff_inverse upt_add_eq_append)
    ultimately show ?thesis using step False k g(3) by simp
  qed
qed

text \<open>The array with some bytes replaced.\<close>

definition put_bytes :: "(nat \<Rightarrow> byte) \<Rightarrow> nat \<Rightarrow> byte list \<Rightarrow> (nat \<Rightarrow> byte)" where
  "put_bytes v a bs = (\<lambda>x. if a \<le> x \<and> x < a + length bs then bs ! (x - a) else v x)"

lemma put_bytes_append: "put_bytes (put_bytes v a bs) (a + length bs) cs = put_bytes v a (bs @ cs)"
  by (auto simp: put_bytes_def nth_append fun_eq_iff)

lemma put_word:
  assumes "off + length bs \<le> n" "length old = n" "off = 0 \<and> length bs = n \<or> old = map v [b..<b + n]"
  shows "put_bytes v b (take off old @ bs @ drop (off + length bs) old) = put_bytes v (b + off) bs"
proof (rule ext)
  fix y
  let ?new = "take off old @ bs @ drop (off + length bs) old"
  have len: "length ?new = n" using assms(1,2) by simp
  show "put_bytes v b ?new y = put_bytes v (b + off) bs y"
  proof (cases "b \<le> y \<and> y < b + n")
    case True
    then obtain i where i: "y = b + i" "i < n" by (metis le_Suc_ex add_less_cancel_left)
    have "old ! i = v y" if "\<not> (off \<le> i \<and> i < off + length bs)"
      using assms(3) that i by (auto simp: nth_map_upt)
    then have "?new ! i = (if off \<le> i \<and> i < off + length bs then bs ! (i - off) else v y)"
      using assms(1,2) i by (auto simp: nth_append)
    then show ?thesis using i len by (auto simp: put_bytes_def)
  next
    case False
    then show ?thesis using assms(1) len by (auto simp: put_bytes_def)
  qed
qed

lemma write_loop:
  assumes "winv s" "bs \<noteq> []" "x + length bs \<le> lim"
  shows "\<exists>s' c. write_by_word host align get set_word s (of_nat x) bs ch = (s', c) \<and> winv s' \<and> wview s' = put_bytes (wview s) x bs"
  using assms
proof (induction "length bs" arbitrary: s x bs ch rule: less_induct)
  case less
  define off where "off = x mod size_of TYPE('a)"
  define k where "k = min (size_of TYPE('a) - off) (length bs)"
  have off: "off < size_of TYPE('a)" "off \<le> x" using w_pos by (simp_all add: off_def)
  have k: "0 < k" "k \<le> length bs" "off + k \<le> size_of TYPE('a)" using off less.prems(2) by (auto simp: k_def)
  have x: "x < lim" "x < 2 ^ 32" using less.prems(2,3) lim(2) by (cases bs; simp)+
  have un: "unat (of_nat x :: u64) = x" using x(2) by (simp add: unat_of_nat64)
  note b = base [OF x(1), folded off_def]
  obtain s1 d where g: "(if k < size_of TYPE('a) then get s (of_nat (x - off)) else (s, 0)) = (s1, d)" "winv s1" "wview s1 = wview s"
      "off = 0 \<and> k = size_of TYPE('a) \<or> object_bytes host (size_of TYPE('a)) d = map (wview s) [x - off..<x - off + size_of TYPE('a)]"
    using get_word [OF less.prems(1) b(1,2)] less.prems(1) k(3) by (cases "k < size_of TYPE('a)") auto
  define old where "old = object_bytes host (size_of TYPE('a)) d"
  define new where "new = take off old @ take k bs @ drop (off + k) old"
  have len: "length old = size_of TYPE('a)" "length (take k bs) = k" "length new = size_of TYPE('a)"
    using k off by (simp_all add: old_def new_def)
  have nb: "object_bytes host (size_of TYPE('a)) (of_object_bytes host new :: 'a word) = new"
    using len(3) sized by (simp add: object_bytes_of_object_bytes byte_sized_def)
  obtain s2 c where s2: "set_word s1 (of_nat (x - off)) (of_object_bytes host new) = (s2, c)" "winv s2"
      "wview s2 = put_bytes (wview s1) (x - off) new"
    using set_word [OF g(2) b(1,2), of "of_object_bytes host new", unfolded nb] unfolding put_bytes_def len(3) by blast
  have v2: "wview s2 = put_bytes (wview s) x (take k bs)"
    using put_word [of off "take k bs" "size_of TYPE('a)" old "wview s" "x - off"] g(3,4) s2(3) k off len
    by (simp add: old_def [symmetric] new_def)
  have step: "write_by_word host align get set_word s (of_nat x) bs ch = (if length bs - k = 0 \<or> k = 0 then (s2, ch \<or> c)
      else write_by_word host align get set_word s2 (of_nat x + of_nat k) (drop k bs) (ch \<or> c))"
    by (subst write_by_word.simps)
      (simp only: Let_def un align [OF x(2)] off_def [symmetric] k_def [symmetric] g(1) prod.case old_def [symmetric] new_def [symmetric] s2(1))
  show ?case
  proof (cases "length bs - k = 0")
    case True
    then show ?thesis using step s2(2) v2 k by auto
  next
    case False
    then have "length (drop k bs) < length bs" "drop k bs \<noteq> []" "(x + k) + length (drop k bs) \<le> lim" using k less.prems(3) by simp_all
    from less.hyps [OF this(1) s2(2) this(2,3), of "ch \<or> c"] obtain s' c' where
      "write_by_word host align get set_word s2 (of_nat (x + k)) (drop k bs) (ch \<or> c) = (s', c')" "winv s'"
      "wview s' = put_bytes (wview s2) (x + k) (drop k bs)" by blast
    moreover have "put_bytes (wview s2) (x + k) (drop k bs) = put_bytes (wview s) x bs"
      using put_bytes_append [of "wview s" x "take k bs" "drop k bs"] len(2) by (simp add: v2)
    ultimately show ?thesis using step False k by simp
  qed
qed

text \<open>The same as an array indexed by 32-bit offsets, as the bus sees a device.\<close>

definition offset_view :: "'s \<Rightarrow> u32 \<Rightarrow> byte" where
  "offset_view s = (\<lambda>y. wview s (unat y))"

lemma load_offset_view:
  assumes "a + n \<le> lim"
  shows "load_bytes (offset_view s) (of_nat a) n = map (wview s) [a..<a + n]"
proof (rule nth_equalityI)
  fix i assume "i < length (load_bytes (offset_view s) (of_nat a) n)"
  then have i: "i < n" by simp
  then have "unat (of_nat (a + i) :: u32) = a + i" using assms lim(2) by (intro unat_of_nat_small) simp
  then show "load_bytes (offset_view s) (of_nat a) n ! i = map (wview s) [a..<a + n] ! i"
    using i by (simp add: offset_view_def)
qed simp

lemma store_offset_view:
  assumes "a + length bs \<le> lim" "wview s' = put_bytes (wview s) a bs"
  shows "offset_view s' = store_bytes (offset_view s) (of_nat a) bs"
proof (rule ext)
  fix y :: u32
  have bound: "length bs \<le> 2 ^ LENGTH(32)" using assms(1) lim(2) by simp
  show "offset_view s' y = store_bytes (offset_view s) (of_nat a) bs y"
  proof (cases "a \<le> unat y")
    case True
    have "unat y < 2 ^ LENGTH(32)" by (rule unsigned_less)
    then have "unat (of_nat (unat y - a) :: u32) = unat y - a" by (intro unat_of_nat_small) (rule less_imp_diff_less)
    moreover have "(of_nat (unat y - a) :: u32) = y - of_nat a" using True by (simp add: of_nat_diff)
    ultimately have "unat (y - of_nat a) = unat y - a" by simp
    then show ?thesis using True bound by (auto simp: offset_view_def assms(2) put_bytes_def store_bytes_apply)
  next
    case False
    have "\<not> unat (y - of_nat a) < length bs"
    proof
      define j where "j = unat (y - of_nat a)"
      assume "unat (y - of_nat a) < length bs"
      then have j: "j < length bs" by (simp add: j_def)
      then have "unat (of_nat (a + j) :: u32) = a + j" using assms(1) lim(2) by (intro unat_of_nat_small) simp
      moreover have "y = of_nat (a + j)" by (simp add: j_def)
      ultimately show False using False by simp
    qed
    then show ?thesis using False bound by (simp add: offset_view_def assms(2) put_bytes_def store_bytes_apply)
  qed
qed

lemma offset_of_u64: "unat (x :: u64) \<le> 2 ^ 32 \<Longrightarrow> (ucast x :: u32) = of_nat (unat x)" 
  by (rule bit_word_eqI) (simp add: bit_simps)

lemma word_read:
  assumes "winv s" "0 < n" "unat x + n \<le> lim"
  shows "\<exists>s'. read_by_word host align get s x n [] = (s', load_bytes (offset_view s) (ucast x) n) \<and> winv s' \<and> offset_view s' = offset_view s"
  using read_loop [OF assms, of "[]"] load_offset_view [OF assms(3), of s] offset_of_u64 [of x] assms(3) lim(2)
  by (auto simp: offset_view_def)

lemma word_write:
  assumes "winv s" "bs \<noteq> []" "unat x + length bs \<le> lim"
  shows "\<exists>s' c. write_by_word host align get set_word s x bs False = (s', c) \<and> winv s' \<and>
    offset_view s' = store_bytes (offset_view s) (ucast x) bs"
  using write_loop [OF assms, of False] store_offset_view [OF assms(3), of _ s] offset_of_u64 [of x] assms(3) lim(2) by auto

end

end
