(* ===== verification/Device_Events.thy ===== *)
theory Device_Events
  imports Word_Access
begin

text \<open>
  What the peripherals of \<^verbatim>\<open>src/src/machine/memory/backend\<close> tell the rest of the simulator.  A Qt
  signal is an event; a device keeps the events it has emitted, oldest first, and what another
  component sees of it (the level of an interrupt line, a pixel of the display) is a function of
  the events.
\<close>

section \<open>Signals\<close>

datatype device_event =
    Signal_Interrupt nat bool
  | Tx_Byte u32
  | Write_Notification u64 u64
  | Read_Notification u64 u64
  | External_Backend_Change u64 u64
  | Led_Line_Changed u32
  | Led_Rgb1_Changed u32
  | Led_Rgb2_Changed u32
  | Pixel_Update nat nat u32 u32 u32
  | Start_Timer int int
  | Kill_Timer int

text \<open>The level of an interrupt line: the last value signalled, low before any.\<close>

definition line_step :: "nat \<Rightarrow> bool \<Rightarrow> device_event \<Rightarrow> bool" where
  "line_step level l e = (case e of Signal_Interrupt i active \<Rightarrow> if i = level then active else l | _ \<Rightarrow> l)"

definition irq_line :: "nat \<Rightarrow> device_event list \<Rightarrow> bool" where
  "irq_line level log = foldl (line_step level) False log"

lemma irq_line_Nil [simp]: "irq_line level [] = False"
  by (simp add: irq_line_def)

lemma irq_line_snoc [simp]: "irq_line level (log @ [e]) = line_step level (irq_line level log) e"
  by (simp add: irq_line_def)

lemma line_step_simps [simp]:
  "line_step level l (Signal_Interrupt i active) = (if i = level then active else l)"
  "line_step level l (Tx_Byte b) = l"
  "line_step level l (Write_Notification a v) = l"
  "line_step level l (Read_Notification a v) = l"
  "line_step level l (External_Backend_Change s t) = l"
  "line_step level l (Start_Timer tid ms) = l"
  "line_step level l (Kill_Timer tid) = l"
  by (simp_all add: line_step_def)

text \<open>The bytes sent by a serial port.\<close>

fun tx_bytes :: "device_event list \<Rightarrow> u32 list" where
  "tx_bytes [] = []"
| "tx_bytes (Tx_Byte b # es) = b # tx_bytes es"
| "tx_bytes (_ # es) = tx_bytes es"

lemma tx_bytes_append [simp]: "tx_bytes (a @ b) = tx_bytes a @ tx_bytes b"
  by (induction a rule: tx_bytes.induct) auto

section \<open>Masks of registers\<close>

lemma mask_clear [simp]: "(x AND NOT m) AND m = (0 :: 'a::len word)"
  by (rule bit_word_eqI) (auto simp: bit_simps)

lemma mask_set [simp]: "(x OR m) AND m = (m :: 'a::len word)"
  by (rule bit_word_eqI) (auto simp: bit_simps)

lemma mask_keep_clear:
  fixes m k :: "'a::len word"
  assumes "m AND k = 0"
  shows "(x AND NOT m) AND k = x AND k"
proof (rule bit_word_eqI)
  fix n assume n: "n < LENGTH('a)"
  have "\<not> bit (m AND k) n" by (simp add: assms)
  with n show "bit ((x AND NOT m) AND k) n = bit (x AND k) n" by (auto simp: bit_simps)
qed

lemma mask_keep_set: "m AND k = 0 \<Longrightarrow> (x OR m) AND k = x AND (k :: 'a::len word)"
  by (simp add: bit.conj_disj_distrib2)

end
