(* ===== verification/Serial_Port.thy ===== *)
theory Serial_Port
  imports Device_Events
begin

text \<open>
  The serial port (\<^verbatim>\<open>src/src/machine/memory/backend/serialport.cpp\<close>) and the dummy peripheral
  (\<^verbatim>\<open>peripheral.cpp\<close>).  The receiver polls whoever is connected to \<^verbatim>\<open>rx_byte_pool\<close>: the answers it
  will give are a list in the state, \<open>None\<close> when no byte is available.
\<close>

section \<open>The dummy peripheral\<close>

definition SimplePeripheral_write :: "device_event list \<Rightarrow> u64 \<Rightarrow> byte list \<Rightarrow> device_event list \<times> write_result" where
  "SimplePeripheral_write log destination source =
     (log @ [Write_Notification destination (of_nat (length source))], \<lparr>n_bytes = length source, changed = False\<rparr>)"

definition SimplePeripheral_read :: "device_event list \<Rightarrow> u64 \<Rightarrow> nat \<Rightarrow> device_event list \<times> byte list" where
  "SimplePeripheral_read log source sz = (log @ [Read_Notification source (of_nat sz)], replicate sz 0x12)"

definition SimplePeripheral_location_status :: "u64 \<Rightarrow> LocationStatus" where
  "SimplePeripheral_location_status offset = LOCSTAT_NONE"

section \<open>The serial port\<close>

definition SERP_RX_ST_REG_o :: u64 where "SERP_RX_ST_REG_o = 0x00"
definition SERP_RX_ST_REG_READY_m :: u32 where "SERP_RX_ST_REG_READY_m = 0x1"
definition SERP_RX_ST_REG_IE_m :: u32 where "SERP_RX_ST_REG_IE_m = 0x2"
definition SERP_RX_DATA_REG_o :: u64 where "SERP_RX_DATA_REG_o = 0x04"
definition SERP_TX_ST_REG_o :: u64 where "SERP_TX_ST_REG_o = 0x08"
definition SERP_TX_ST_REG_READY_m :: u32 where "SERP_TX_ST_REG_READY_m = 0x1"
definition SERP_TX_ST_REG_IE_m :: u32 where "SERP_TX_ST_REG_IE_m = 0x2"
definition SERP_TX_DATA_REG_o :: u64 where "SERP_TX_DATA_REG_o = 0xc"

lemmas serp_consts = SERP_RX_ST_REG_o_def SERP_RX_ST_REG_READY_m_def SERP_RX_ST_REG_IE_m_def SERP_RX_DATA_REG_o_def
  SERP_TX_ST_REG_o_def SERP_TX_ST_REG_READY_m_def SERP_TX_ST_REG_IE_m_def SERP_TX_DATA_REG_o_def

record serial_port =
  tx_irq_level :: nat
  rx_irq_level :: nat
  sp_change_counter :: u32
  tx_st_reg :: u32
  rx_st_reg :: u32
  rx_data_reg :: u32
  tx_irq_active :: bool
  rx_irq_active :: bool
  rx_input :: "u32 option list"
  sp_log :: "device_event list"

definition SerialPort_new :: "u32 option list \<Rightarrow> serial_port" where
  "SerialPort_new input = \<lparr>tx_irq_level = 17, rx_irq_level = 16, sp_change_counter = 0,
     tx_st_reg = SERP_TX_ST_REG_READY_m, rx_st_reg = 0, rx_data_reg = 0,
     tx_irq_active = False, rx_irq_active = False, rx_input = input, sp_log = []\<rparr>"

definition sp_emit :: "device_event \<Rightarrow> serial_port \<Rightarrow> serial_port" where
  "sp_emit e s = s\<lparr>sp_log := sp_log s @ [e]\<rparr>"

text \<open>One call of the slot connected to \<^verbatim>\<open>rx_byte_pool\<close>.\<close>

definition rx_byte_pool :: "serial_port \<Rightarrow> serial_port \<times> u32 option" where
  "rx_byte_pool s = (case rx_input s of
     [] \<Rightarrow> (s, None)
   | answer # rest \<Rightarrow> (s\<lparr>rx_input := rest\<rparr>, answer))"

definition pool_rx_byte :: "serial_port \<Rightarrow> serial_port" where
  "pool_rx_byte s =
     (if rx_st_reg s AND SERP_RX_ST_REG_READY_m = 0 then
        let s = s\<lparr>rx_st_reg := rx_st_reg s OR SERP_RX_ST_REG_READY_m\<rparr> in
        case rx_byte_pool s of
          (s, Some data) \<Rightarrow> s\<lparr>sp_change_counter := sp_change_counter s + 1, rx_data_reg := data\<rparr>
        | (s, None) \<Rightarrow> s\<lparr>rx_st_reg := rx_st_reg s AND NOT SERP_RX_ST_REG_READY_m\<rparr>
      else s)"

definition rx_wants_irq :: "serial_port \<Rightarrow> bool" where
  "rx_wants_irq s = (rx_st_reg s AND SERP_RX_ST_REG_IE_m \<noteq> 0 \<and> rx_st_reg s AND SERP_RX_ST_REG_READY_m \<noteq> 0)"

definition tx_wants_irq :: "serial_port \<Rightarrow> bool" where
  "tx_wants_irq s = (tx_st_reg s AND SERP_TX_ST_REG_IE_m \<noteq> 0 \<and> tx_st_reg s AND SERP_TX_ST_REG_READY_m \<noteq> 0)"

definition update_rx_irq :: "serial_port \<Rightarrow> serial_port" where
  "update_rx_irq s = (let active = rx_wants_irq s in
     if active \<noteq> rx_irq_active s then sp_emit (Signal_Interrupt (rx_irq_level s) active) (s\<lparr>rx_irq_active := active\<rparr>) else s)"

definition rx_queue_check_internal :: "serial_port \<Rightarrow> serial_port" where
  "rx_queue_check_internal s =
     update_rx_irq (if rx_st_reg s AND SERP_RX_ST_REG_IE_m \<noteq> 0 then pool_rx_byte s else s)"

definition rx_queue_check :: "serial_port \<Rightarrow> serial_port" where
  "rx_queue_check s =
     sp_emit (External_Backend_Change SERP_RX_ST_REG_o (SERP_RX_DATA_REG_o + 3)) (rx_queue_check_internal s)"

definition update_tx_irq :: "serial_port \<Rightarrow> serial_port" where
  "update_tx_irq s = (let active = tx_wants_irq s in
     if active \<noteq> tx_irq_active s then sp_emit (Signal_Interrupt (tx_irq_level s) active) (s\<lparr>tx_irq_active := active\<rparr>) else s)"

definition sp_read_reg :: "AccessEffects \<Rightarrow> serial_port \<Rightarrow> u64 \<Rightarrow> serial_port \<times> u32" where
  "sp_read_reg type s source =
     (let (s, value) =
        (if source = SERP_RX_ST_REG_o then let s = pool_rx_byte s in (s, rx_st_reg s)
         else if source = SERP_RX_DATA_REG_o then
           let s = pool_rx_byte s;
               (s, value) = (if rx_st_reg s AND SERP_RX_ST_REG_READY_m \<noteq> 0 then
                   (if type = AE_REGULAR then
                      sp_emit (External_Backend_Change SERP_RX_ST_REG_o (SERP_RX_DATA_REG_o + 3))
                        (update_rx_irq (s\<lparr>rx_st_reg := rx_st_reg s AND NOT SERP_RX_ST_REG_READY_m\<rparr>))
                    else s, rx_data_reg s)
                 else (s, 0))
           in (rx_queue_check_internal s, value)
         else if source = SERP_TX_ST_REG_o then (s, tx_st_reg s)
         else (s, 0))
      in (sp_emit (Read_Notification source (ucast value)) s, value))"

definition sp_write_reg :: "serial_port \<Rightarrow> u64 \<Rightarrow> u32 \<Rightarrow> serial_port \<times> bool" where
  "sp_write_reg s destination value =
     (let reg = destination AND ucast (NOT 3 :: u32);
          (s, changed) =
        (if reg = SERP_RX_ST_REG_o then
           (update_rx_irq (rx_queue_check_internal
              (s\<lparr>rx_st_reg := (rx_st_reg s AND NOT SERP_RX_ST_REG_IE_m) OR (value AND SERP_RX_ST_REG_IE_m)\<rparr>)), True)
         else if reg = SERP_TX_ST_REG_o then
           (update_tx_irq
              (s\<lparr>tx_st_reg := (tx_st_reg s AND NOT SERP_TX_ST_REG_IE_m) OR (value AND SERP_TX_ST_REG_IE_m)\<rparr>), True)
         else if reg = SERP_TX_DATA_REG_o then (update_tx_irq (sp_emit (Tx_Byte (value AND 0xff)) s), True)
         else (s, False))
      in (sp_emit (Write_Notification destination (ucast value)) s, changed))"

definition SerialPort_write :: "Endian \<Rightarrow> Endian \<Rightarrow> serial_port \<Rightarrow> u64 \<Rightarrow> byte list \<Rightarrow> serial_port \<times> write_result" where
  "SerialPort_write host simulated s destination source =
     write_by_u32 host (\<lambda>s _. (s, 0)) (\<lambda>s a value. sp_write_reg s a (byteswap_if host value (host \<noteq> simulated))) s destination source"

definition SerialPort_read :: "Endian \<Rightarrow> Endian \<Rightarrow> serial_port \<Rightarrow> u64 \<Rightarrow> nat \<Rightarrow> AccessEffects \<Rightarrow> serial_port \<times> byte list" where
  "SerialPort_read host simulated s source sz type =
     read_by_u32 host (\<lambda>s a. let (s, v) = sp_read_reg type s a in (s, byteswap_if host v (host \<noteq> simulated))) s source sz"

definition SerialPort_location_status :: "u64 \<Rightarrow> LocationStatus" where
  "SerialPort_location_status offset =
     (let reg = offset AND ucast (NOT 3 :: u32) in
      if reg = SERP_RX_ST_REG_o \<or> reg = SERP_TX_ST_REG_o \<or> reg = SERP_TX_DATA_REG_o then LOCSTAT_NONE
      else if reg = SERP_RX_DATA_REG_o then LOCSTAT_READ_ONLY else LOCSTAT_ILLEGAL)"


section \<open>Interrupt lines\<close>

text \<open>What the rest of the machine sees of the two lines is what the port remembers of them.\<close>

definition serial_inv :: "serial_port \<Rightarrow> bool" where
  "serial_inv s = (rx_irq_level s = 16 \<and> tx_irq_level s = 17 \<and>
     irq_line 16 (sp_log s) = rx_irq_active s \<and> irq_line 17 (sp_log s) = tx_irq_active s)"

definition rx_ready :: "serial_port \<Rightarrow> bool" where
  "rx_ready s = (rx_st_reg s AND SERP_RX_ST_REG_READY_m \<noteq> 0)"

definition rx_enabled :: "serial_port \<Rightarrow> bool" where
  "rx_enabled s = (rx_st_reg s AND SERP_RX_ST_REG_IE_m \<noteq> 0)"

lemma rx_wants_irq_iff: "rx_wants_irq s \<longleftrightarrow> rx_enabled s \<and> rx_ready s"
  by (simp add: rx_wants_irq_def rx_enabled_def rx_ready_def)

lemma serp_masks [simp]:
  "SERP_RX_ST_REG_READY_m \<noteq> 0" "SERP_RX_ST_REG_IE_m \<noteq> 0"
  "SERP_RX_ST_REG_READY_m AND SERP_RX_ST_REG_IE_m = 0" "SERP_RX_ST_REG_IE_m AND SERP_RX_ST_REG_READY_m = 0"
  by (simp_all add: serp_consts)

lemma sp_emit_simps [simp]:
  "rx_st_reg (sp_emit e s) = rx_st_reg s" "tx_st_reg (sp_emit e s) = tx_st_reg s" "rx_data_reg (sp_emit e s) = rx_data_reg s"
  "rx_input (sp_emit e s) = rx_input s" "rx_irq_active (sp_emit e s) = rx_irq_active s" "tx_irq_active (sp_emit e s) = tx_irq_active s"
  "sp_log (sp_emit e s) = sp_log s @ [e]"
  "rx_ready (sp_emit e s) = rx_ready s" "rx_enabled (sp_emit e s) = rx_enabled s" "tx_wants_irq (sp_emit e s) = tx_wants_irq s"
  by (simp_all add: sp_emit_def rx_ready_def rx_enabled_def tx_wants_irq_def)

lemma serial_inv_emit [simp]:
  "serial_inv s \<Longrightarrow> (\<And>l. line_step 16 l e = l) \<Longrightarrow> (\<And>l. line_step 17 l e = l) \<Longrightarrow> serial_inv (sp_emit e s)"
  by (simp add: serial_inv_def sp_emit_def)

lemma serial_inv_regs [simp]:
  "serial_inv (s\<lparr>rx_st_reg := v\<rparr>) = serial_inv s" "serial_inv (s\<lparr>tx_st_reg := v\<rparr>) = serial_inv s"
  "serial_inv (s\<lparr>rx_data_reg := v\<rparr>) = serial_inv s" "serial_inv (s\<lparr>rx_input := i\<rparr>) = serial_inv s"
  "serial_inv (s\<lparr>sp_change_counter := v\<rparr>) = serial_inv s"
  by (simp_all add: serial_inv_def)

lemma update_rx_irq_simps [simp]:
  "rx_st_reg (update_rx_irq s) = rx_st_reg s" "tx_st_reg (update_rx_irq s) = tx_st_reg s" "rx_data_reg (update_rx_irq s) = rx_data_reg s"
  "rx_input (update_rx_irq s) = rx_input s" "rx_irq_active (update_rx_irq s) = rx_wants_irq s"
  "tx_irq_active (update_rx_irq s) = tx_irq_active s"
  "tx_bytes (sp_log (update_rx_irq s)) = tx_bytes (sp_log s)"
  by (auto simp: update_rx_irq_def Let_def)

lemma update_tx_irq_simps [simp]:
  "rx_st_reg (update_tx_irq s) = rx_st_reg s" "tx_st_reg (update_tx_irq s) = tx_st_reg s" "rx_data_reg (update_tx_irq s) = rx_data_reg s"
  "rx_input (update_tx_irq s) = rx_input s" "tx_irq_active (update_tx_irq s) = tx_wants_irq s"
  "rx_irq_active (update_tx_irq s) = rx_irq_active s"
  "tx_bytes (sp_log (update_tx_irq s)) = tx_bytes (sp_log s)"
  by (auto simp: update_tx_irq_def Let_def)

lemma update_irq_inv: "serial_inv s \<Longrightarrow> serial_inv (update_rx_irq s)" "serial_inv s \<Longrightarrow> serial_inv (update_tx_irq s)"
  by (auto simp: update_rx_irq_def update_tx_irq_def serial_inv_def sp_emit_def Let_def)

text \<open>Polling for a byte changes neither the enable bits nor what was signalled.\<close>

lemma pool_rx_byte_simps [simp]:
  "serial_inv s \<Longrightarrow> serial_inv (pool_rx_byte s)" "rx_enabled (pool_rx_byte s) = rx_enabled s"
  "rx_irq_active (pool_rx_byte s) = rx_irq_active s" "tx_irq_active (pool_rx_byte s) = tx_irq_active s"
  "tx_st_reg (pool_rx_byte s) = tx_st_reg s" "sp_log (pool_rx_byte s) = sp_log s"
  by (auto simp: pool_rx_byte_def rx_byte_pool_def Let_def rx_enabled_def mask_keep_set mask_keep_clear split: list.splits option.splits)

section \<open>Received bytes\<close>

text \<open>The bytes that wait for the program: the one in the register and those the input will give.\<close>

fun available :: "u32 option list \<Rightarrow> u32 list" where
  "available [] = []"
| "available (None # is) = available is"
| "available (Some b # is) = b # available is"

definition serial_pending :: "serial_port \<Rightarrow> u32 list" where
  "serial_pending s = (if rx_ready s then [rx_data_reg s] else []) @ available (rx_input s)"

lemma pool_rx_byte_pending [simp]: "serial_pending (pool_rx_byte s) = serial_pending s"
  by (auto simp: pool_rx_byte_def rx_byte_pool_def Let_def serial_pending_def rx_ready_def split: list.splits option.splits)

lemma pending_update [simp]:
  "serial_pending (update_rx_irq s) = serial_pending s" "serial_pending (update_tx_irq s) = serial_pending s"
  "serial_pending (sp_emit e s) = serial_pending s" "serial_pending (s\<lparr>tx_st_reg := v\<rparr>) = serial_pending s"
  by (simp_all add: serial_pending_def rx_ready_def)

lemma queue_check_pending [simp]: "serial_pending (rx_queue_check_internal s) = serial_pending s"
  by (simp add: rx_queue_check_internal_def)

lemma queue_check_settles [simp]: "rx_irq_active (rx_queue_check_internal s) = rx_wants_irq (rx_queue_check_internal s)"
  by (simp add: rx_queue_check_internal_def rx_wants_irq_def)

lemma queue_check_simps [simp]:
  "tx_irq_active (rx_queue_check_internal s) = tx_irq_active s" "tx_st_reg (rx_queue_check_internal s) = tx_st_reg s"
  "tx_bytes (sp_log (rx_queue_check_internal s)) = tx_bytes (sp_log s)"
  "serial_inv s \<Longrightarrow> serial_inv (rx_queue_check_internal s)"
  by (simp_all add: rx_queue_check_internal_def update_irq_inv)

section \<open>Sequences of accesses\<close>

text \<open>
  The program reads and writes registers, and the terminal announces input.  A run gives the bytes
  a program takes from the data register while the port has one.
\<close>

datatype serial_op = Serial_Read AccessEffects u64 | Serial_Write u64 u32 | Serial_Check

fun serial_step :: "serial_op \<Rightarrow> serial_port \<Rightarrow> serial_port" where
  "serial_step (Serial_Read type a) s = fst (sp_read_reg type s a)"
| "serial_step (Serial_Write a v) s = fst (sp_write_reg s a v)"
| "serial_step Serial_Check s = rx_queue_check s"

definition takes_byte :: "serial_op \<Rightarrow> serial_port \<Rightarrow> bool" where
  "takes_byte a s = (a = Serial_Read AE_REGULAR SERP_RX_DATA_REG_o \<and> rx_ready (pool_rx_byte s))"

definition received :: "serial_op \<Rightarrow> serial_port \<Rightarrow> u32 list" where
  "received a s = (if takes_byte a s then [snd (sp_read_reg AE_REGULAR s SERP_RX_DATA_REG_o)] else [])"

definition sent :: "serial_op \<Rightarrow> u32 list" where
  "sent a = (case a of Serial_Write d v \<Rightarrow> if d AND ucast (NOT 3 :: u32) = 0xc then [v AND 0xff] else [] | _ \<Rightarrow> [])"

fun serial_run :: "serial_op list \<Rightarrow> serial_port \<Rightarrow> serial_port \<times> u32 list" where
  "serial_run [] s = (s, [])"
| "serial_run (a # as) s = (case serial_run as (serial_step a s) of (s', bs) \<Rightarrow> (s', received a s @ bs))"

lemma serp_offsets [simp]:
  "SERP_RX_DATA_REG_o \<noteq> SERP_RX_ST_REG_o" "SERP_TX_ST_REG_o \<noteq> SERP_RX_ST_REG_o" "SERP_TX_DATA_REG_o \<noteq> SERP_RX_ST_REG_o"
  "SERP_TX_ST_REG_o \<noteq> SERP_RX_DATA_REG_o" "SERP_TX_DATA_REG_o \<noteq> SERP_RX_DATA_REG_o" "SERP_TX_DATA_REG_o \<noteq> SERP_TX_ST_REG_o"
  by (simp_all add: serp_consts)

lemma read_data_ready:
  assumes "rx_ready (pool_rx_byte s)"
  shows "snd (sp_read_reg type s SERP_RX_DATA_REG_o) = rx_data_reg (pool_rx_byte s)"
  using assms by (simp add: sp_read_reg_def rx_ready_def Let_def split: prod.splits)

lemma step_pending: "serial_pending s = received a s @ serial_pending (serial_step a s)"
proof (cases a)
  case (Serial_Read type d)
  let ?p = "pool_rx_byte s"
  consider "d = SERP_RX_DATA_REG_o" "rx_ready ?p" "type = AE_REGULAR" | "d = SERP_RX_DATA_REG_o" "rx_ready ?p" "type \<noteq> AE_REGULAR"
    | "d = SERP_RX_DATA_REG_o" "\<not> rx_ready ?p" | "d \<noteq> SERP_RX_DATA_REG_o" by blast
  then show ?thesis
  proof cases
    case 1
    have "serial_pending s = serial_pending ?p" by simp
    also have "\<dots> = rx_data_reg ?p # available (rx_input ?p)" using 1(2) by (simp add: serial_pending_def)
    finally show ?thesis
      using 1 Serial_Read read_data_ready [OF 1(2), of type]
      by (simp add: received_def takes_byte_def sp_read_reg_def Let_def rx_ready_def) (simp add: serial_pending_def rx_ready_def)
  next
    case 2
    then show ?thesis using Serial_Read by (simp add: received_def takes_byte_def sp_read_reg_def Let_def rx_ready_def)
  next
    case 3
    then show ?thesis using Serial_Read by (simp add: received_def takes_byte_def sp_read_reg_def Let_def rx_ready_def)
  next
    case 4
    then show ?thesis using Serial_Read by (auto simp: received_def takes_byte_def sp_read_reg_def Let_def)
  qed
next
  case (Serial_Write d v)
  have "rx_ready (s\<lparr>rx_st_reg := rx_st_reg s AND NOT SERP_RX_ST_REG_IE_m OR v AND SERP_RX_ST_REG_IE_m\<rparr>) = rx_ready s"
    using and.assoc [of v SERP_RX_ST_REG_IE_m SERP_RX_ST_REG_READY_m] by (simp add: rx_ready_def bit.conj_disj_distrib2 mask_keep_clear)
  then have "serial_pending (s\<lparr>rx_st_reg := rx_st_reg s AND NOT SERP_RX_ST_REG_IE_m OR v AND SERP_RX_ST_REG_IE_m\<rparr>) = serial_pending s"
    by (simp add: serial_pending_def)
  then show ?thesis using Serial_Write by (simp add: received_def takes_byte_def sp_write_reg_def Let_def)
next
  case Serial_Check
  then show ?thesis by (simp add: received_def takes_byte_def rx_queue_check_def)
qed

lemma step_sent: "tx_bytes (sp_log (serial_step a s)) = tx_bytes (sp_log s) @ sent a"
  unfolding sent_def SERP_TX_DATA_REG_o_def [symmetric]
  by (cases a) (auto simp: sp_read_reg_def sp_write_reg_def rx_queue_check_def Let_def)

text \<open>What holds of the interrupt lines after every access.\<close>

definition lines_ok :: "serial_port \<Rightarrow> bool" where
  "lines_ok s = (serial_inv s \<and> tx_irq_active s = tx_wants_irq s \<and> (rx_irq_active s \<longrightarrow> rx_wants_irq s))"

lemma pool_keeps_request: "rx_wants_irq s \<Longrightarrow> rx_wants_irq (pool_rx_byte s)"
  unfolding rx_wants_irq_iff by (simp add: pool_rx_byte_def rx_ready_def)

lemma step_serial_inv: "serial_inv s \<Longrightarrow> serial_inv (serial_step a s)"
  by (cases a) (auto simp: sp_read_reg_def sp_write_reg_def rx_queue_check_def Let_def update_irq_inv)

lemma step_tx_line: "tx_irq_active s = tx_wants_irq s \<Longrightarrow> tx_irq_active (serial_step a s) = tx_wants_irq (serial_step a s)"
  by (cases a) (auto simp: sp_read_reg_def sp_write_reg_def rx_queue_check_def Let_def tx_wants_irq_def)

definition settles :: "serial_op \<Rightarrow> bool" where
  "settles a = (case a of Serial_Read _ d \<Rightarrow> d = SERP_RX_DATA_REG_o
     | Serial_Write d _ \<Rightarrow> d AND ucast (NOT 3 :: u32) = SERP_RX_ST_REG_o | Serial_Check \<Rightarrow> True)"

lemma step_settles: "settles a \<Longrightarrow> rx_irq_active (serial_step a s) = rx_wants_irq (serial_step a s)"
  by (cases a) (auto simp: settles_def sp_read_reg_def sp_write_reg_def rx_queue_check_def Let_def rx_wants_irq_def)

lemma step_rx_line:
  assumes "rx_irq_active s \<longrightarrow> rx_wants_irq s"
  shows "rx_irq_active (serial_step a s) \<longrightarrow> rx_wants_irq (serial_step a s)"
proof (cases "settles a")
  case True
  then show ?thesis by (simp add: step_settles)
next
  case False
  then show ?thesis using assms pool_keeps_request [of s]
    by (cases a) (auto simp: settles_def sp_read_reg_def sp_write_reg_def Let_def rx_wants_irq_iff rx_ready_def rx_enabled_def)
qed

lemma step_lines_ok: "lines_ok s \<Longrightarrow> lines_ok (serial_step a s)"
  using step_serial_inv step_tx_line step_rx_line by (simp add: lines_ok_def)

lemma fst_serial_run [simp]: "fst (serial_run (a # as) s) = fst (serial_run as (serial_step a s))"
  by (simp split: prod.splits)

lemma run_lines_ok: "lines_ok s \<Longrightarrow> lines_ok (fst (serial_run as s))"
  by (induction as arbitrary: s) (simp_all only: fst_serial_run step_lines_ok serial_run.simps(1) fst_conv)

lemma fst_run_append: "fst (serial_run (as @ bs) s) = fst (serial_run bs (fst (serial_run as s)))"
  by (induction as arbitrary: s) (simp_all only: fst_serial_run serial_run.simps(1) fst_conv append.simps)

lemma run_settled:
  assumes "as \<noteq> []" "settles (last as)"
  shows "rx_irq_active (fst (serial_run as s)) = rx_wants_irq (fst (serial_run as s))"
proof -
  have "fst (serial_run as s) = serial_step (last as) (fst (serial_run (butlast as) s))"
    using fst_run_append [of "butlast as" "[last as]" s] assms(1) by simp
  then show ?thesis using step_settles [OF assms(2)] by simp
qed

lemma run_pending: "serial_pending s = snd (serial_run as s) @ serial_pending (fst (serial_run as s))"
proof (induction as arbitrary: s)
  case (Cons a as)
  show ?case using step_pending [of s a] Cons.IH [of "serial_step a s"] by (simp split: prod.splits)
qed simp

lemma run_sent: "tx_bytes (sp_log (fst (serial_run as s))) = tx_bytes (sp_log s) @ concat (map sent as)"
  by (induction as arbitrary: s) (simp_all only: fst_serial_run step_sent serial_run.simps(1) fst_conv list.map concat.simps append_assoc append_Nil2)

lemma new_lines_ok [simp]: "lines_ok (SerialPort_new input)"
  by (simp add: lines_ok_def SerialPort_new_def serial_inv_def tx_wants_irq_def serp_consts)

lemma new_pending: "serial_pending (SerialPort_new input) = available input" "sp_log (SerialPort_new input) = []"
  by (simp_all add: SerialPort_new_def serial_pending_def rx_ready_def)

section \<open>What the port promises\<close>

text \<open>
  Claim C17: Over any sequence of register accesses and announcements of input, the bytes a program
  takes from the data register are the bytes the terminal offered, in their order, with none lost
  or repeated: what was taken followed by what the port still holds or will be offered is the whole
  input.  The bytes sent are exactly the low bytes of the values written to the
  transmit data register at offset 0x0c (a write to any other offset sends nothing).
\<close>

theorem serial_bytes_in_order:
  "let (s, taken) = serial_run as (SerialPort_new input)
   in available input = taken @ serial_pending s \<and> tx_bytes (sp_log s) = concat (map sent as)"
  using run_pending [of "SerialPort_new input" as] run_sent [of as "SerialPort_new input"]
  by (simp add: new_pending case_prod_beta)

text \<open>
  The transmit interrupt line always is high exactly when the interrupt is enabled and the
  transmitter ready.  The receive line never is high without a byte and the enable bit, and it is
  high exactly then after a write of the receiver's status, a read of its data or an announcement
  of input.
\<close>

theorem serial_interrupt_lines:
  assumes "s = fst (serial_run as (SerialPort_new input))"
  shows "irq_line 17 (sp_log s) = tx_wants_irq s \<and> (irq_line 16 (sp_log s) \<longrightarrow> rx_enabled s \<and> rx_ready s) \<and>
    (as \<noteq> [] \<and> settles (last as) \<longrightarrow> irq_line 16 (sp_log s) = (rx_enabled s \<and> rx_ready s))"
proof -
  have l: "lines_ok s" unfolding assms by (rule run_lines_ok [OF new_lines_ok])
  have st: "as \<noteq> [] \<Longrightarrow> settles (last as) \<Longrightarrow> rx_irq_active s = rx_wants_irq s" unfolding assms by (rule run_settled)
  from l have "irq_line 17 (sp_log s) = tx_wants_irq s" "irq_line 16 (sp_log s) = rx_irq_active s" "rx_irq_active s \<longrightarrow> rx_wants_irq s"
    by (simp_all add: lines_ok_def serial_inv_def)
  with st show ?thesis unfolding rx_wants_irq_iff by blast
qed

theorem serial_interrupt_lines_witness:
  "irq_line 16 (sp_log (fst (serial_run [Serial_Write 0 2, Serial_Check] (SerialPort_new [None, Some 65]))))"
proof -
  let ?s = "fst (serial_run [Serial_Write 0 2, Serial_Check] (SerialPort_new [None, Some 65]))"
  have "irq_line 16 (sp_log ?s) = (rx_enabled ?s \<and> rx_ready ?s)"
  proof -
    have "settles (last [Serial_Write 0 2, Serial_Check])" by (simp add: settles_def)
    then show ?thesis using serial_interrupt_lines [OF refl, of "[Serial_Write 0 2, Serial_Check]" "[None, Some 65]"] by blast
  qed
  moreover have "rx_enabled ?s \<and> rx_ready ?s" by code_simp
  ultimately show ?thesis by simp
qed

text \<open>
  A read of the receiver's status polls for a byte but does not update the interrupt line:
  with the interrupt enabled and a byte received, the line stays low until another access.
\<close>

theorem serial_status_read_raises_no_interrupt:
  "let s = fst (serial_run [Serial_Write 0 2, Serial_Read AE_REGULAR 0] (SerialPort_new [None, Some 65]))
   in rx_enabled s \<and> rx_ready s \<and> \<not> irq_line 16 (sp_log s)"
  by code_simp

end
