(* ===== verification/Spi_Led.thy ===== *)
theory Spi_Led
  imports Device_Events
begin

text \<open>
  The LEDs and knobs (\<^verbatim>\<open>src/src/machine/memory/backend/peripspiled.cpp\<close>).  Programs write the
  three LED registers, the user turns and pushes the knobs.
\<close>

section \<open>State and registers\<close>

definition SPILED_REG_LED_LINE_o :: u64 where "SPILED_REG_LED_LINE_o = 0x004"
definition SPILED_REG_LED_RGB1_o :: u64 where "SPILED_REG_LED_RGB1_o = 0x010"
definition SPILED_REG_LED_RGB2_o :: u64 where "SPILED_REG_LED_RGB2_o = 0x014"
definition SPILED_REG_LED_KBDWR_DIRECT_o :: u64 where "SPILED_REG_LED_KBDWR_DIRECT_o = 0x018"
definition SPILED_REG_KBDRD_KNOBS_DIRECT_o :: u64 where "SPILED_REG_KBDRD_KNOBS_DIRECT_o = 0x020"
definition SPILED_REG_KNOBS_8BIT_o :: u64 where "SPILED_REG_KNOBS_8BIT_o = 0x024"

lemmas spiled_consts = SPILED_REG_LED_LINE_o_def SPILED_REG_LED_RGB1_o_def SPILED_REG_LED_RGB2_o_def
  SPILED_REG_LED_KBDWR_DIRECT_o_def SPILED_REG_KBDRD_KNOBS_DIRECT_o_def SPILED_REG_KNOBS_8BIT_o_def

record perip_spi_led =
  spiled_reg_led_line :: u32
  spiled_reg_led_rgb1 :: u32
  spiled_reg_led_rgb2 :: u32
  spiled_reg_led_kbdwr_direct :: u32
  spiled_reg_kbdrd_knobs_direct :: u32
  spiled_reg_knobs_8bit :: u32
  spiled_log :: "device_event list"

definition PeripSpiLed_new :: perip_spi_led where
  "PeripSpiLed_new = \<lparr>spiled_reg_led_line = 0, spiled_reg_led_rgb1 = 0, spiled_reg_led_rgb2 = 0,
     spiled_reg_led_kbdwr_direct = 0, spiled_reg_kbdrd_knobs_direct = 0, spiled_reg_knobs_8bit = 0, spiled_log = []\<rparr>"

definition spiled_emit :: "device_event \<Rightarrow> perip_spi_led \<Rightarrow> perip_spi_led" where
  "spiled_emit e s = s\<lparr>spiled_log := spiled_log s @ [e]\<rparr>"

definition spiled_value :: "perip_spi_led \<Rightarrow> u64 \<Rightarrow> u32" where
  "spiled_value s source =
     (if source = SPILED_REG_LED_LINE_o then spiled_reg_led_line s
      else if source = SPILED_REG_LED_RGB1_o then spiled_reg_led_rgb1 s
      else if source = SPILED_REG_LED_RGB2_o then spiled_reg_led_rgb2 s
      else if source = SPILED_REG_LED_KBDWR_DIRECT_o then spiled_reg_led_kbdwr_direct s
      else if source = SPILED_REG_KBDRD_KNOBS_DIRECT_o then spiled_reg_kbdrd_knobs_direct s
      else if source = SPILED_REG_KNOBS_8BIT_o then spiled_reg_knobs_8bit s
      else 0)"

definition spiled_read_reg :: "perip_spi_led \<Rightarrow> u64 \<Rightarrow> perip_spi_led \<times> u32" where
  "spiled_read_reg s source =
     (let value = spiled_value s source in (spiled_emit (Read_Notification source (ucast value)) s, value))"

definition spiled_write_reg :: "perip_spi_led \<Rightarrow> u64 \<Rightarrow> u32 \<Rightarrow> perip_spi_led \<times> bool" where
  "spiled_write_reg s destination value =
     (let (s, changed) =
        (if destination = SPILED_REG_LED_LINE_o then
           if spiled_reg_led_line s \<noteq> value then (spiled_emit (Led_Line_Changed value) (s\<lparr>spiled_reg_led_line := value\<rparr>), True) else (s, False)
         else if destination = SPILED_REG_LED_RGB1_o then
           if spiled_reg_led_rgb1 s \<noteq> value then (spiled_emit (Led_Rgb1_Changed value) (s\<lparr>spiled_reg_led_rgb1 := value\<rparr>), True) else (s, False)
         else if destination = SPILED_REG_LED_RGB2_o then
           if spiled_reg_led_rgb2 s \<noteq> value then (spiled_emit (Led_Rgb2_Changed value) (s\<lparr>spiled_reg_led_rgb2 := value\<rparr>), True) else (s, False)
         else (s, False))
      in (spiled_emit (Write_Notification destination (ucast value)) s, changed))"

definition PeripSpiLed_write :: "Endian \<Rightarrow> Endian \<Rightarrow> perip_spi_led \<Rightarrow> u64 \<Rightarrow> byte list \<Rightarrow> perip_spi_led \<times> write_result" where
  "PeripSpiLed_write host simulated s destination source =
     write_by_u32 host
       (\<lambda>s a. let (s, v) = spiled_read_reg s a in (s, byteswap_if host v (host \<noteq> simulated)))
       (\<lambda>s a value. spiled_write_reg s a (byteswap_if host value (host \<noteq> simulated))) s destination source"

definition PeripSpiLed_read :: "Endian \<Rightarrow> Endian \<Rightarrow> perip_spi_led \<Rightarrow> u64 \<Rightarrow> nat \<Rightarrow> perip_spi_led \<times> byte list" where
  "PeripSpiLed_read host simulated s source sz =
     read_by_u32 host (\<lambda>s a. let (s, v) = spiled_read_reg s a in (s, byteswap_if host v (host \<noteq> simulated))) s source sz"

definition PeripSpiLed_location_status :: "u64 \<Rightarrow> LocationStatus" where
  "PeripSpiLed_location_status offset =
     (let reg = offset AND ucast (NOT 3 :: u32) in
      if reg = SPILED_REG_LED_LINE_o \<or> reg = SPILED_REG_LED_RGB1_o \<or> reg = SPILED_REG_LED_RGB2_o then LOCSTAT_NONE
      else if reg = SPILED_REG_LED_KBDWR_DIRECT_o \<or> reg = SPILED_REG_KBDRD_KNOBS_DIRECT_o \<or> reg = SPILED_REG_KNOBS_8BIT_o
        then LOCSTAT_READ_ONLY
      else LOCSTAT_ILLEGAL)"

section \<open>Knobs\<close>

definition knob_update_notify :: "u32 \<Rightarrow> u32 \<Rightarrow> nat \<Rightarrow> perip_spi_led \<Rightarrow> perip_spi_led" where
  "knob_update_notify val m shift s =
     (let m = push_bit shift m; val = push_bit shift val in
      if (spiled_reg_knobs_8bit s XOR val) AND m = 0 then s
      else spiled_emit (External_Backend_Change SPILED_REG_KNOBS_8BIT_o (SPILED_REG_KNOBS_8BIT_o + 3))
             (s\<lparr>spiled_reg_knobs_8bit := (spiled_reg_knobs_8bit s AND NOT m) OR val\<rparr>))"

text \<open>The slots take an \<^verbatim>\<open>int\<close>, converted to \<^verbatim>\<open>uint32_t\<close>.\<close>

definition red_knob_update :: "int \<Rightarrow> perip_spi_led \<Rightarrow> perip_spi_led" where
  "red_knob_update val = knob_update_notify (of_int val) 0xff 16"
definition green_knob_update :: "int \<Rightarrow> perip_spi_led \<Rightarrow> perip_spi_led" where
  "green_knob_update val = knob_update_notify (of_int val) 0xff 8"
definition blue_knob_update :: "int \<Rightarrow> perip_spi_led \<Rightarrow> perip_spi_led" where
  "blue_knob_update val = knob_update_notify (of_int val) 0xff 0"
definition red_knob_push :: "bool \<Rightarrow> perip_spi_led \<Rightarrow> perip_spi_led" where
  "red_knob_push state = knob_update_notify (if state then 1 else 0) 1 26"
definition green_knob_push :: "bool \<Rightarrow> perip_spi_led \<Rightarrow> perip_spi_led" where
  "green_knob_push state = knob_update_notify (if state then 1 else 0) 1 25"
definition blue_knob_push :: "bool \<Rightarrow> perip_spi_led \<Rightarrow> perip_spi_led" where
  "blue_knob_push state = knob_update_notify (if state then 1 else 0) 1 24"

lemmas knob_slots = red_knob_update_def green_knob_update_def blue_knob_update_def
  red_knob_push_def green_knob_push_def blue_knob_push_def

text \<open>A value that fits the mask replaces exactly the bits of its field, whether or not it changed.\<close>

lemma knob_update_field:
  assumes "val AND NOT m = 0"
  shows "spiled_reg_knobs_8bit (knob_update_notify val m k s) =
    (spiled_reg_knobs_8bit s AND NOT (push_bit k m)) OR push_bit k val"
proof (cases "(spiled_reg_knobs_8bit s XOR push_bit k val) AND push_bit k m = 0")
  case True
  have sub: "\<not> bit m i \<Longrightarrow> \<not> bit val i" for i
    using assms by (metis bit_and_iff bit_not_iff_eq bit_0_eq bot_apply bot_bool_def exp_eq_0_imp_not_bit)
  have eq: "bit (push_bit k m) i \<Longrightarrow> bit (spiled_reg_knobs_8bit s) i = bit (push_bit k val) i" for i
    using True by (metis bit_0_eq bit_and_iff bit_xor_iff bot_apply bot_bool_def)
  have "(spiled_reg_knobs_8bit s AND NOT (push_bit k m)) OR push_bit k val = spiled_reg_knobs_8bit s"
    by (rule bit_word_eqI) (use sub eq in \<open>auto simp: bit_simps\<close>)
  with True show ?thesis by (simp add: knob_update_notify_def Let_def)
next
  case False
  then show ?thesis by (simp add: knob_update_notify_def spiled_emit_def Let_def)
qed

end
