(* ===== verification/Lcd_Display.thy ===== *)
theory Lcd_Display
  imports Device_Events
begin

text \<open>
  The LCD display (\<^verbatim>\<open>src/src/machine/memory/backend/lcddisplay.cpp\<close>): a framebuffer of 480 by
  320 pixels of 16 bits.  Two things are shown of it: the bus sees an array of bytes whatever the
  byte orders of host and machine, and the pixels announced to the screen are the pixels of the
  framebuffer.
\<close>

section \<open>Geometry\<close>

definition fb_width :: nat where "fb_width = 480"
definition fb_height :: nat where "fb_height = 320"
definition fb_bits_per_pixel :: nat where "fb_bits_per_pixel = 16"

definition get_fb_line_size :: nat where
  "get_fb_line_size = (if fb_bits_per_pixel > 12 then drop_bit 3 (fb_bits_per_pixel + 7) * fb_width
     else drop_bit 3 (fb_bits_per_pixel * fb_width + 7))"

definition get_fb_size_bytes :: nat where
  "get_fb_size_bytes = get_fb_line_size * fb_height"

definition divide_and_ceil_nat :: "nat \<Rightarrow> nat \<Rightarrow> nat" where
  "divide_and_ceil_nat divided divisor = (divided + divisor - 1) div divisor"

definition get_address_from_pixel :: "nat \<Rightarrow> nat \<Rightarrow> nat" where
  "get_address_from_pixel x y =
     (if fb_bits_per_pixel > 12 then y * get_fb_line_size + x * divide_and_ceil_nat fb_bits_per_pixel 8
      else y * get_fb_line_size + x * fb_bits_per_pixel div 8)"

definition get_pixel_from_address :: "nat \<Rightarrow> nat \<times> nat" where
  "get_pixel_from_address address =
     (let y = address div get_fb_line_size;
          x = (if fb_bits_per_pixel > 12 then (address - y * get_fb_line_size) div drop_bit 3 (fb_bits_per_pixel + 7)
               else (address - y * get_fb_line_size) * 8 div fb_bits_per_pixel)
      in (x, y))"

lemma lcd_line [simp]: "get_fb_line_size = 960"
  by (simp add: get_fb_line_size_def fb_bits_per_pixel_def fb_width_def drop_bit_eq_div)

lemma lcd_size [simp]: "get_fb_size_bytes = 307200"
  by (simp add: get_fb_size_bytes_def fb_height_def)

lemma lcd_address [simp]: "get_address_from_pixel x y = y * 960 + x * 2"
  by (simp add: get_address_from_pixel_def fb_bits_per_pixel_def divide_and_ceil_nat_def)

lemma lcd_pixel [simp]: "get_pixel_from_address a = ((a - a div 960 * 960) div 2, a div 960)"
  by (simp add: get_pixel_from_address_def fb_bits_per_pixel_def drop_bit_eq_div Let_def)

section \<open>State and operations\<close>

record lcd_display =
  fb_data :: "byte list"
  lcd_log :: "device_event list"

definition LcdDisplay_new :: lcd_display where
  "LcdDisplay_new = \<lparr>fb_data = replicate get_fb_size_bytes 0, lcd_log = []\<rparr>"

definition lcd_emit :: "device_event \<Rightarrow> lcd_display \<Rightarrow> lcd_display" where
  "lcd_emit e s = s\<lparr>lcd_log := lcd_log s @ [e]\<rparr>"

definition fb_u16 :: "Endian \<Rightarrow> byte list \<Rightarrow> nat \<Rightarrow> u16" where
  "fb_u16 host fb a = of_object_bytes host (take 2 (drop a fb))"

definition read_raw_pixel :: "Endian \<Rightarrow> lcd_display \<Rightarrow> u64 \<Rightarrow> lcd_display \<times> u16" where
  "read_raw_pixel host s source =
     (if source + 1 \<ge> of_nat get_fb_size_bytes then (s, 0)
      else let value = fb_u16 host (fb_data s) (unat source)
           in (lcd_emit (Read_Notification source (ucast value)) s, value))"

definition pixel_red :: "u16 \<Rightarrow> u32" where "pixel_red p = push_bit 3 (drop_bit 11 (ucast p) AND 0x1f)"
definition pixel_green :: "u16 \<Rightarrow> u32" where "pixel_green p = push_bit 2 (drop_bit 5 (ucast p) AND 0x3f)"
definition pixel_blue :: "u16 \<Rightarrow> u32" where "pixel_blue p = push_bit 3 (ucast p AND 0x1f)"

text \<open>
  The loop over the pixels that a write touches.  While the column is below the width the address grows in every round, and
  after one round it always is; the addresses are below the size of the framebuffer, far below 32 bits.
\<close>

function lcd_update_loop :: "Endian \<Rightarrow> byte list \<Rightarrow> nat \<Rightarrow> nat \<Rightarrow> nat \<Rightarrow> device_event list" where
  "lcd_update_loop host fb last_addr x y =
     (if get_address_from_pixel x y \<le> last_addr then
        let pixel_data = fb_u16 host fb (get_address_from_pixel x y)
        in Pixel_Update x y (pixel_red pixel_data) (pixel_green pixel_data) (pixel_blue pixel_data) #
           (if x + 1 \<ge> fb_width then lcd_update_loop host fb last_addr 0 (y + 1)
            else lcd_update_loop host fb last_addr (x + 1) y)
      else [])"
  by pat_completeness auto
termination
  by (relation "measures [\<lambda>(h, fb, a, x, y). if x < fb_width then 0 else 1, \<lambda>(h, fb, a, x, y). Suc a - get_address_from_pixel x y]")
    (auto simp: fb_width_def)

declare lcd_update_loop.simps [simp del]

definition write_raw_pixel :: "Endian \<Rightarrow> lcd_display \<Rightarrow> u64 \<Rightarrow> u16 \<Rightarrow> lcd_display \<times> bool" where
  "write_raw_pixel host s destination value =
     (if destination + 1 \<ge> of_nat get_fb_size_bytes then (s, False)
      else let (s, old) = read_raw_pixel host s destination in
        if old = value then (s, False)
        else let a = unat destination;
                 fb = take a (fb_data s) @ object_bytes host 2 value @ drop (a + 2) (fb_data s);
                 (x, y) = get_pixel_from_address a;
                 s = s\<lparr>fb_data := fb, lcd_log := lcd_log s @ lcd_update_loop host fb (a + 1) x y\<rparr>
             in (lcd_emit (Write_Notification destination (ucast value)) s, True))"

definition lcd_get :: "Endian \<Rightarrow> Endian \<Rightarrow> lcd_display \<Rightarrow> u64 \<Rightarrow> lcd_display \<times> u16" where
  "lcd_get host simulated s a = (let (s, v) = read_raw_pixel host s a in (s, byteswap_if host v (host \<noteq> simulated)))"

definition lcd_set :: "Endian \<Rightarrow> Endian \<Rightarrow> lcd_display \<Rightarrow> u64 \<Rightarrow> u16 \<Rightarrow> lcd_display \<times> bool" where
  "lcd_set host simulated s a value = write_raw_pixel host s a (byteswap_if host value (host \<noteq> simulated))"

definition LcdDisplay_write :: "Endian \<Rightarrow> Endian \<Rightarrow> lcd_display \<Rightarrow> u64 \<Rightarrow> byte list \<Rightarrow> lcd_display \<times> write_result" where
  "LcdDisplay_write host simulated s destination source =
     write_by_u16 host (lcd_get host simulated) (lcd_set host simulated) s destination source"

definition LcdDisplay_read :: "Endian \<Rightarrow> Endian \<Rightarrow> lcd_display \<Rightarrow> u64 \<Rightarrow> nat \<Rightarrow> lcd_display \<times> byte list" where
  "LcdDisplay_read host simulated s source sz = read_by_u16 host (lcd_get host simulated) s source sz"

definition LcdDisplay_location_status :: "u64 \<Rightarrow> LocationStatus" where
  "LcdDisplay_location_status offset =
     (if offset OR ucast (NOT 3 :: u32) \<ge> of_nat get_fb_size_bytes then LOCSTAT_ILLEGAL else LOCSTAT_NONE)"

section \<open>The screen\<close>

text \<open>A screen shows the last colour announced for each pixel, black before any.\<close>

fun screen_step :: "(nat \<times> nat \<Rightarrow> u32 \<times> u32 \<times> u32) \<Rightarrow> device_event \<Rightarrow> (nat \<times> nat \<Rightarrow> u32 \<times> u32 \<times> u32)" where
  "screen_step f (Pixel_Update x y r g b) = f((x, y) := (r, g, b))"
| "screen_step f _ = f"

definition lcd_screen :: "device_event list \<Rightarrow> (nat \<times> nat \<Rightarrow> u32 \<times> u32 \<times> u32)" where
  "lcd_screen log = foldl screen_step (\<lambda>_. (0, 0, 0)) log"

text \<open>
  The colour of a pixel in the format RGB565: red in bits 15 to 11, green in bits 10 to 5, blue in bits 4 to 0,
  each scaled to 8 bits by zeros.
\<close>

definition pixel_colour :: "u16 \<Rightarrow> u32 \<times> u32 \<times> u32" where
  "pixel_colour p = (of_nat (unat p div 2 ^ 11 * 8), of_nat (unat p div 2 ^ 5 mod 2 ^ 6 * 4), of_nat (unat p mod 2 ^ 5 * 8))"

lemma pixel_colour_channels: "pixel_colour p = (pixel_red p, pixel_green p, pixel_blue p)"
proof -
  have p: "unat p < 2 ^ 16" using unsigned_less [of p, where ?'a = nat] by simp
  have m: "(31 :: u32) = mask 5" "(63 :: u32) = mask 6" by (simp_all add: mask_eq_exp_minus_1)
  have u: "unat (ucast p :: u32) = unat p" using p by (simp add: unsigned_ucast_eq take_bit_nat_eq_self)
  have f: "push_bit k (drop_bit n (ucast p) AND mask j :: u32) = of_nat (unat p div 2 ^ n mod 2 ^ j * 2 ^ k)" for k n j
  proof -
    have "drop_bit n (ucast p :: u32) AND mask j = of_nat (unat (drop_bit n (ucast p :: u32) AND mask j))" by simp
    also have "unat (drop_bit n (ucast p :: u32) AND mask j) = unat p div 2 ^ n mod 2 ^ j"
      using p unfolding take_bit_eq_mask [symmetric] unsigned_take_bit_eq unsigned_drop_bit_eq u
      by (simp add: take_bit_eq_mod drop_bit_eq_div)
    finally show ?thesis by (simp add: push_bit_eq_mult)
  qed
  have "unat p div 2 ^ 11 mod 2 ^ 5 = unat p div 2 ^ 11" using p by (simp add: less_mult_imp_div_less)
  then show ?thesis
    using f [of 3 11 5] f [of 2 5 6] f [of 3 0 5]
    by (simp add: pixel_colour_def pixel_red_def pixel_green_def pixel_blue_def m)
qed

definition lcd_inv :: "Endian \<Rightarrow> lcd_display \<Rightarrow> bool" where
  "lcd_inv host s = (length (fb_data s) = 307200 \<and>
     (\<forall>x < 480. \<forall>y < 320. lcd_screen (lcd_log s) (x, y) = pixel_colour (fb_u16 host (fb_data s) (y * 960 + x * 2))))"

lemma lcd_screen_snoc [simp]: "lcd_screen (log @ [e]) = screen_step (lcd_screen log) e"
  by (simp add: lcd_screen_def)

text \<open>Pixels and their addresses.\<close>

lemma pixel_address:
  assumes "even (a :: nat)"
  shows "a div 960 * 960 + (a - a div 960 * 960) div 2 * 2 = a"
proof -
  have "even (a - a div 960 * 960)" using assms by (simp add: even_diff_nat)
  then show ?thesis by simp
qed

lemma pixel_of_address:
  assumes "even (a :: nat)" "x < 480"
  shows "(x = (a - a div 960 * 960) div 2 \<and> y = a div 960) = (y * 960 + x * 2 = a)"
proof
  assume "y * 960 + x * 2 = a"
  then have "a div 960 = y" "a - y * 960 = x * 2" using assms(2) by auto
  then show "x = (a - a div 960 * 960) div 2 \<and> y = a div 960" by simp
qed (use pixel_address [OF assms(1)] in simp)

text \<open>An aligned write touches one pixel.\<close>

lemma update_one_pixel:
  assumes "even a"
  shows "lcd_update_loop host fb (Suc a) ((a - a div 960 * 960) div 2) (a div 960) =
    [Pixel_Update ((a - a div 960 * 960) div 2) (a div 960) (pixel_red (fb_u16 host fb a)) (pixel_green (fb_u16 host fb a)) (pixel_blue (fb_u16 host fb a))]"
proof -
  define x where "x = (a - a div 960 * 960) div 2"
  define y where "y = a div 960"
  have a: "a = y * 960 + x * 2" using pixel_address [OF assms] by (simp add: x_def y_def)
  have x: "x < 480" by (simp add: x_def minus_div_mult_eq_mod less_mult_imp_div_less)
  have "lcd_update_loop host fb (Suc a) 0 (y + 1) = []" "lcd_update_loop host fb (Suc a) (x + 1) y = []"
    using a x by (subst lcd_update_loop.simps; simp)+
  then have "lcd_update_loop host fb (Suc a) x y = [Pixel_Update x y (pixel_red (fb_u16 host fb a)) (pixel_green (fb_u16 host fb a)) (pixel_blue (fb_u16 host fb a))]"
    using a x by (subst lcd_update_loop.simps) (simp add: fb_width_def Let_def)
  then show ?thesis by (simp add: x_def y_def)
qed

lemma fb_u16_update:
  assumes "length fb = n" "even a" "a + 2 \<le> n" "even c"
  shows "fb_u16 host (take a fb @ object_bytes host 2 v @ drop (a + 2) fb) c = (if c = a then v else fb_u16 host fb c)"
proof -
  let ?fb = "take a fb @ object_bytes host 2 v @ drop (a + 2) fb"
  consider "c = a" | "c + 2 \<le> a" | "a + 2 \<le> c" using assms(2,4) by (metis Suc_leI add_2_eq_Suc' even_Suc le_antisym le_eq_less_or_eq linorder_le_cases)
  then show ?thesis
  proof cases
    case 1
    then have "take 2 (drop c ?fb) = object_bytes host 2 v" using assms by simp
    then show ?thesis using 1 by (simp add: fb_u16_def of_object_bytes_object_bytes)
  next
    case 2
    then have "take 2 (drop c ?fb) = take 2 (drop c fb)" using assms by (simp add: take_drop min_def)
    then show ?thesis using 2 by (simp add: fb_u16_def)
  next
    case 3
    then obtain k where "c = a + 2 + k" using le_Suc_ex by blast
    then have "drop c ?fb = drop c fb" using assms by (simp add: ac_simps)
    then show ?thesis using 3 by (simp add: fb_u16_def)
  qed
qed

lemma write_raw_pixel_inv:
  assumes inv: "lcd_inv host s" and a: "even a" "a < 307200"
  shows "\<exists>s' c. write_raw_pixel host s (of_nat a) v = (s', c) \<and> lcd_inv host s' \<and>
    fb_data s' = take a (fb_data s) @ object_bytes host 2 v @ drop (a + 2) (fb_data s)"
proof -
  let ?fb = "take a (fb_data s) @ object_bytes host 2 v @ drop (a + 2) (fb_data s)"
  have len: "length (fb_data s) = 307200" using inv by (simp add: lcd_inv_def)
  have a2: "a + 2 \<le> 307200" using a by presburger
  have un: "unat (of_nat a :: u64) = a" using a by (intro unat_of_nat_small) simp
  have "(of_nat a + 1 :: u64) = of_nat (a + 1)" by simp
  then have in_range: "\<not> (of_nat 307200 :: u64) \<le> of_nat a + 1"
    using a2 by (simp only: word_le_nat_alt) (subst unat_of_nat_small; simp)+
  define s1 where "s1 = lcd_emit (Read_Notification (of_nat a) (ucast (fb_u16 host (fb_data s) a))) s"
  have s1: "fb_data s1 = fb_data s" "lcd_screen (lcd_log s1) = lcd_screen (lcd_log s)" by (simp_all add: s1_def lcd_emit_def)
  have r: "read_raw_pixel host s (of_nat a) = (s1, fb_u16 host (fb_data s) a)"
    using in_range un by (simp add: read_raw_pixel_def s1_def Let_def)
  show ?thesis
  proof (cases "fb_u16 host (fb_data s) a = v")
    case True
    have two: "take 2 (drop a (fb_data s)) = object_bytes host 2 v"
      using True len a2 object_bytes_of_object_bytes [where 'a = 16, of "take 2 (drop a (fb_data s))" 2 host]
      by (auto simp: fb_u16_def)
    have "?fb = fb_data s" by (metis two append_take_drop_id drop_drop add.commute)
    moreover have "write_raw_pixel host s (of_nat a) v = (s1, False)"
      using True in_range r by (simp add: write_raw_pixel_def)
    ultimately show ?thesis using inv s1 by (intro exI [of _ s1] exI [of _ False]) (simp add: lcd_inv_def)
  next
    case False
    define s2 where "s2 = lcd_emit (Write_Notification (of_nat a) (ucast v)) (s1\<lparr>fb_data := ?fb, lcd_log := lcd_log s1 @ lcd_update_loop host ?fb (a + 1) ((a - a div 960 * 960) div 2) (a div 960)\<rparr>)"
    have w: "write_raw_pixel host s (of_nat a) v = (s2, True)"
      using False in_range r un s1 by (simp add: write_raw_pixel_def s2_def Let_def)
    have new: "fb_u16 host ?fb c = (if c = a then v else fb_u16 host (fb_data s) c)" if "even c" for c
      by (rule fb_u16_update [OF len a(1) a2 that])
    have log: "lcd_log s2 = (lcd_log s1 @ [Pixel_Update ((a - a div 960 * 960) div 2) (a div 960) (pixel_red v) (pixel_green v) (pixel_blue v)])
        @ [Write_Notification (of_nat a) (ucast v)]"
      using update_one_pixel [OF a(1), of host ?fb] new [OF a(1)] by (simp add: s2_def lcd_emit_def)
    have "lcd_screen (lcd_log s2) = (lcd_screen (lcd_log s))(((a - a div 960 * 960) div 2, a div 960) := pixel_colour v)"
      unfolding log lcd_screen_snoc by (simp add: s1(2) pixel_colour_channels)
    moreover have "(x = (a - a div 960 * 960) div 2 \<and> y = a div 960) = (y * 960 + x * 2 = a)" if "x < 480" for x y
      using pixel_of_address [OF a(1) that] .
    ultimately have "\<forall>x < 480. \<forall>y < 320. lcd_screen (lcd_log s2) (x, y) = pixel_colour (fb_u16 host ?fb (y * 960 + x * 2))"
      using inv new by (auto simp: lcd_inv_def)
    moreover have "fb_data s2 = ?fb" "length ?fb = 307200" using len a2 by (simp_all add: s2_def lcd_emit_def)
    ultimately show ?thesis using w by (auto simp: lcd_inv_def)
  qed
qed

lemma read_raw_pixel_ok:
  assumes "lcd_inv host s" "even a" "a < 307200"
  shows "\<exists>s'. read_raw_pixel host s (of_nat a) = (s', fb_u16 host (fb_data s) a) \<and> lcd_inv host s' \<and> fb_data s' = fb_data s"
proof -
  have a2: "a + 2 \<le> 307200" using assms(2,3) by presburger
  have un: "unat (of_nat a :: u64) = a" using assms(3) by (intro unat_of_nat_small) simp
  have "(of_nat a + 1 :: u64) = of_nat (a + 1)" by simp
  then have in_range: "\<not> (of_nat 307200 :: u64) \<le> of_nat a + 1"
    using a2 by (simp only: word_le_nat_alt) (subst unat_of_nat_small; simp)+
  then show ?thesis using assms(1) un by (simp add: read_raw_pixel_def lcd_emit_def lcd_inv_def Let_def)
qed

section \<open>The framebuffer as an array of bytes\<close>

definition flip_byte :: "nat \<Rightarrow> nat" where
  "flip_byte x = (if even x then x + 1 else x - 1)"

definition lcd_view :: "Endian \<Rightarrow> Endian \<Rightarrow> lcd_display \<Rightarrow> nat \<Rightarrow> byte" where
  "lcd_view host simulated s x = fb_data s ! (if host \<noteq> simulated then flip_byte x else x)"

lemma align_u16_of_nat: "x < 2 ^ 32 \<Longrightarrow> (of_nat x AND align_u16 :: u64) = of_nat (x - x mod 2)"
  using align_of_nat [of x 1] by (simp add: align_u16_def mask_eq_exp_minus_1)

lemma pixel_bytes:
  assumes "length fb = n" "a + 2 \<le> n"
  shows "object_bytes host 2 (byteswap_if host (fb_u16 host fb a) sw) = (if sw then [fb ! (a + 1), fb ! a] else [fb ! a, fb ! (a + 1)])"
proof -
  have "take 2 (drop a fb) = [fb ! a, fb ! (a + 1)]"
    using assms by (intro nth_equalityI) (auto simp: less_Suc_eq numeral_2_eq_2)
  then have b: "object_bytes host 2 (fb_u16 host fb a) = [fb ! a, fb ! (a + 1)]"
    by (simp add: fb_u16_def object_bytes_of_object_bytes)
  have "object_bytes host 2 (byteswap host (fb_u16 host fb a)) = rev (object_bytes host 2 (fb_u16 host fb a))"
    using object_bytes_byteswap [where 'a = 16, of host] by simp
  with b show ?thesis by (simp add: byteswap_if_def)
qed

lemma nth_fb_update:
  assumes "length fb = n" "a + 2 \<le> n" "length new = 2"
  shows "(take a fb @ new @ drop (a + 2) fb) ! x = (if a \<le> x \<and> x < a + 2 then new ! (x - a) else fb ! x)"
proof (cases "a + 2 \<le> x")
  case True
  then obtain k where "x = a + 2 + k" using le_Suc_ex by blast
  then show ?thesis using assms by (simp add: nth_append ac_simps)
next
  case False
  then show ?thesis using assms by (auto simp: nth_append)
qed

lemma flip_byte_pair: "even a \<Longrightarrow> a \<le> flip_byte x \<and> flip_byte x < a + 2 \<longleftrightarrow> a \<le> x \<and> x < a + 2"
  by (auto simp: flip_byte_def elim!: oddE) presburger+

lemma flip_byte_in: "even a \<Longrightarrow> a \<le> x \<Longrightarrow> x < a + 2 \<Longrightarrow> flip_byte x - a = 1 - (x - a) \<and> (x = a \<or> x = a + 1)"
  by (auto simp: flip_byte_def) presburger+

interpretation lcd: word_array host align_u16 "lcd_get host simulated" "lcd_set host simulated" "lcd_inv host"
  "lcd_view host simulated" 307200 for host simulated
proof
  show "byte_sized TYPE(16)" by (simp add: byte_sized_def)
  show "size_of TYPE(16) dvd 307200" "307200 \<le> (2 :: nat) ^ 32" by simp_all
  show "x < 2 ^ 32 \<Longrightarrow> (of_nat x AND align_u16 :: u64) = of_nat (x - x mod size_of TYPE(16))" for x
    by (simp add: align_u16_of_nat)
next
  fix s a assume s: "lcd_inv host s" and "size_of TYPE(16) dvd a" and a: "a < 307200"
  then have e: "even a" by simp
  obtain s' where "read_raw_pixel host s (of_nat a) = (s', fb_u16 host (fb_data s) a)" "lcd_inv host s'" "fb_data s' = fb_data s"
    using read_raw_pixel_ok [OF s e a] by blast
  moreover have "a + 2 \<le> 307200" using e a by presburger
  moreover have "length (fb_data s) = 307200" using s by (simp add: lcd_inv_def)
  moreover have "[a..<a + 2] = [a, a + 1]" by (simp add: upt_rec)
  ultimately show "\<exists>s' d. lcd_get host simulated s (of_nat a) = (s', d) \<and> lcd_inv host s' \<and> lcd_view host simulated s' = lcd_view host simulated s \<and>
      object_bytes host (size_of TYPE(16)) d = map (lcd_view host simulated s) [a..<a + size_of TYPE(16)]"
    using e by (simp add: lcd_get_def lcd_view_def flip_byte_def pixel_bytes [of "fb_data s" 307200] fun_eq_iff)
next
  fix s a and d :: u16 assume s: "lcd_inv host s" and "size_of TYPE(16) dvd a" and a: "a < 307200"
  then have e: "even a" by simp
  then have a2: "a + 2 \<le> 307200" using a by presburger
  let ?v = "byteswap_if host d (host \<noteq> simulated)"
  obtain s' c where w: "write_raw_pixel host s (of_nat a) ?v = (s', c)" "lcd_inv host s'"
      "fb_data s' = take a (fb_data s) @ object_bytes host 2 ?v @ drop (a + 2) (fb_data s)"
    using write_raw_pixel_inv [OF s e a] by blast
  have len: "length (fb_data s) = 307200" using s by (simp add: lcd_inv_def)
  have swap: "object_bytes host 2 (byteswap host d) = rev (object_bytes host 2 d)"
    using object_bytes_byteswap [where 'a = 16, of host] by simp
  have "lcd_view host simulated s' x = (if a \<le> x \<and> x < a + 2 then object_bytes host 2 d ! (x - a) else lcd_view host simulated s x)" for x
    using nth_fb_update [OF len a2, of "object_bytes host 2 ?v"] flip_byte_pair [OF e, of x] flip_byte_in [OF e, of x] swap
    by (cases "host \<noteq> simulated"; cases "a \<le> x \<and> x < a + 2") (auto simp: lcd_view_def w(3) byteswap_if_def rev_nth)
  then show "\<exists>s' c. lcd_set host simulated s (of_nat a) d = (s', c) \<and> lcd_inv host s' \<and>
      lcd_view host simulated s' = (\<lambda>x. if a \<le> x \<and> x < a + size_of TYPE(16) then object_bytes host (size_of TYPE(16)) d ! (x - a) else lcd_view host simulated s x)"
    using w by (auto simp: lcd_set_def)
qed

end
