(* ===== verification/Aclint.thy ===== *)
theory Aclint
  imports Device_Events
begin

text \<open>
  The ACLINT devices (\<^verbatim>\<open>aclintmtimer.cpp\<close>, \<^verbatim>\<open>aclintmswi.cpp\<close>, \<^verbatim>\<open>aclintsswi.cpp\<close> of
  \<^verbatim>\<open>src/src/machine/memory/backend\<close>): the machine timer and the two software interrupts.  The
  elapsed milliseconds of \<^verbatim>\<open>QElapsedTimer\<close> at the time of a call and the identifiers that
  \<^verbatim>\<open>QObject::startTimer\<close> gives are arguments.
\<close>

section \<open>The machine timer\<close>

definition ACLINT_MTIME_OFFSET :: u64 where "ACLINT_MTIME_OFFSET = 0x7ff8"
definition ACLINT_MTIMECMP_OFFSET :: u64 where "ACLINT_MTIMECMP_OFFSET = 0x0000"
definition ACLINT_MTIMECMP_COUNT_MAX :: nat where "ACLINT_MTIMECMP_COUNT_MAX = 1"

record aclint_mtimer =
  mtimecmp_count :: nat
  mtimecmp_value :: "u64 list"
  mtimer_irq_level :: nat
  mtime_user_offset :: u64
  mtime_last_current_fetch :: u64
  mtimer_irq_active :: bool
  qt_timer_id :: int
  mt_log :: "device_event list"

definition AclintMtimer_new :: aclint_mtimer where
  "AclintMtimer_new = \<lparr>mtimecmp_count = 1, mtimecmp_value = replicate ACLINT_MTIMECMP_COUNT_MAX 0, mtimer_irq_level = 7,
     mtime_user_offset = 0, mtime_last_current_fetch = 0, mtimer_irq_active = False, qt_timer_id = -1, mt_log = []\<rparr>"

definition mt_emit :: "device_event \<Rightarrow> aclint_mtimer \<Rightarrow> aclint_mtimer" where
  "mt_emit e s = s\<lparr>mt_log := mt_log s @ [e]\<rparr>"

definition kill_timer :: "aclint_mtimer \<Rightarrow> aclint_mtimer" where
  "kill_timer s = (let s = (if qt_timer_id s \<ge> 0 then mt_emit (Kill_Timer (qt_timer_id s)) s else s) in s\<lparr>qt_timer_id := -1\<rparr>)"

definition mtime_fetch_current :: "u64 \<Rightarrow> aclint_mtimer \<Rightarrow> aclint_mtimer" where
  "mtime_fetch_current elapsed s = s\<lparr>mtime_last_current_fetch := elapsed * 10000\<rparr>"

text \<open>The time the guest reads.\<close>

definition mtime :: "aclint_mtimer \<Rightarrow> u64" where
  "mtime s = mtime_last_current_fetch s + mtime_user_offset s"

definition update_mtimer_irq :: "aclint_mtimer \<Rightarrow> aclint_mtimer \<times> bool" where
  "update_mtimer_irq s =
     (let active = mtimecmp_value s ! 0 < mtime_last_current_fetch s + mtime_user_offset s;
          s = (if active \<noteq> mtimer_irq_active s
               then mt_emit (Signal_Interrupt (mtimer_irq_level s) active) (s\<lparr>mtimer_irq_active := active\<rparr>) else s);
          s = (if active then kill_timer s else s)
      in (s, active))"

text \<open>\<^verbatim>\<open>startTimer\<close> takes an \<^verbatim>\<open>int\<close>; its argument is converted to 32 bits and read as signed.\<close>

definition arm_mtimer_event :: "(int \<Rightarrow> int) \<Rightarrow> aclint_mtimer \<Rightarrow> aclint_mtimer" where
  "arm_mtimer_event startTimer s =
     (let s = kill_timer s;
          ticks_to_wait = mtimecmp_value s ! 0 - (mtime_last_current_fetch s + mtime_user_offset s);
          interval = sint (ucast (ticks_to_wait div 10000) :: u32)
      in mt_emit (Start_Timer (startTimer interval) interval) (s\<lparr>qt_timer_id := startTimer interval\<rparr>))"

definition timerEvent :: "u64 \<Rightarrow> (int \<Rightarrow> int) \<Rightarrow> int \<Rightarrow> aclint_mtimer \<Rightarrow> aclint_mtimer" where
  "timerEvent elapsed startTimer event_id s =
     (if event_id = qt_timer_id s then
        let s = mtime_fetch_current elapsed (kill_timer s); (s, active) = update_mtimer_irq s
        in if active then s else arm_mtimer_event startTimer s
      else s)"

definition mt_read_reg64 :: "u64 \<Rightarrow> AccessEffects \<Rightarrow> aclint_mtimer \<Rightarrow> u64 \<Rightarrow> aclint_mtimer \<times> u64" where
  "mt_read_reg64 elapsed type s source =
     (let (s, value) =
        (if source = ACLINT_MTIME_OFFSET then
           let s = (if type = AE_REGULAR then mtime_fetch_current elapsed s else s)
           in (s, mtime_last_current_fetch s + mtime_user_offset s)
         else if source \<ge> ACLINT_MTIMECMP_OFFSET \<and> source < ACLINT_MTIMECMP_OFFSET + 8 * of_nat (mtimecmp_count s) then
           (s, mtimecmp_value s ! unat (drop_bit 3 source))
         else (s, 0))
      in (mt_emit (Read_Notification source (ucast (ucast value :: u32))) s, value))"

definition mt_write_reg64 :: "u64 \<Rightarrow> (int \<Rightarrow> int) \<Rightarrow> aclint_mtimer \<Rightarrow> u64 \<Rightarrow> u64 \<Rightarrow> aclint_mtimer \<times> bool" where
  "mt_write_reg64 elapsed startTimer s destination value =
     (let (s, changed) =
        (if destination = ACLINT_MTIME_OFFSET then
           let s = mtime_fetch_current elapsed s;
               s = s\<lparr>mtime_user_offset := value - mtime_last_current_fetch s\<rparr>;
               (s, active) = update_mtimer_irq s
           in (if active then s else arm_mtimer_event startTimer s, True)
         else if destination \<ge> ACLINT_MTIMECMP_OFFSET \<and> destination < ACLINT_MTIMECMP_OFFSET + 8 * of_nat (mtimecmp_count s) then
           let changed = (value \<noteq> mtimecmp_value s ! unat (drop_bit 3 destination));
               s = s\<lparr>mtimecmp_value := (mtimecmp_value s)[unat (drop_bit 3 destination) := value]\<rparr>;
               (s, active) = update_mtimer_irq s
           in (if active then s else arm_mtimer_event startTimer s, changed)
         else (s, False))
      in (mt_emit (Write_Notification destination (ucast (ucast value :: u32))) s, changed))"

definition AclintMtimer_write ::
  "u64 \<Rightarrow> (int \<Rightarrow> int) \<Rightarrow> Endian \<Rightarrow> Endian \<Rightarrow> aclint_mtimer \<Rightarrow> u64 \<Rightarrow> byte list \<Rightarrow> AccessEffects \<Rightarrow> aclint_mtimer \<times> write_result" where
  "AclintMtimer_write elapsed startTimer host simulated s destination source type =
     write_by_u64 host
       (\<lambda>s a. let (s, v) = mt_read_reg64 elapsed type s a in (s, byteswap_if host v (host \<noteq> simulated)))
       (\<lambda>s a value. mt_write_reg64 elapsed startTimer s a (byteswap_if host value (host \<noteq> simulated))) s destination source"

definition AclintMtimer_read ::
  "u64 \<Rightarrow> Endian \<Rightarrow> Endian \<Rightarrow> aclint_mtimer \<Rightarrow> u64 \<Rightarrow> nat \<Rightarrow> AccessEffects \<Rightarrow> aclint_mtimer \<times> byte list" where
  "AclintMtimer_read elapsed host simulated s source sz type =
     read_by_u64 host (\<lambda>s a. let (s, v) = mt_read_reg64 elapsed type s a in (s, byteswap_if host v (host \<noteq> simulated))) s source sz"

definition AclintMtimer_location_status :: "aclint_mtimer \<Rightarrow> u64 \<Rightarrow> LocationStatus" where
  "AclintMtimer_location_status s offset =
     (if offset \<ge> ACLINT_MTIMECMP_OFFSET \<and> offset < ACLINT_MTIMECMP_OFFSET + 8 * of_nat (mtimecmp_count s) then LOCSTAT_NONE
      else if offset AND ucast (NOT 7 :: u32) = ACLINT_MTIME_OFFSET then LOCSTAT_NONE
      else LOCSTAT_ILLEGAL)"

section \<open>Machine software interrupts\<close>

definition ACLINT_MSWI_OFFSET :: u64 where "ACLINT_MSWI_OFFSET = 0"
definition ACLINT_MSWI_COUNT_MAX :: nat where "ACLINT_MSWI_COUNT_MAX = 1"

record aclint_mswi =
  mswi_count :: nat
  mswi_value :: "bool list"
  mswi_irq_level :: nat
  mswi_irq_active :: bool
  mswi_log :: "device_event list"

definition AclintMswi_new :: aclint_mswi where
  "AclintMswi_new = \<lparr>mswi_count = 1, mswi_value = replicate ACLINT_MSWI_COUNT_MAX False, mswi_irq_level = 3,
     mswi_irq_active = False, mswi_log = []\<rparr>"

definition mswi_emit :: "device_event \<Rightarrow> aclint_mswi \<Rightarrow> aclint_mswi" where
  "mswi_emit e s = s\<lparr>mswi_log := mswi_log s @ [e]\<rparr>"

definition update_mswi_irq :: "aclint_mswi \<Rightarrow> aclint_mswi \<times> bool" where
  "update_mswi_irq s = (let active = mswi_value s ! 0 in
     (if active \<noteq> mswi_irq_active s then mswi_emit (Signal_Interrupt (mswi_irq_level s) active) (s\<lparr>mswi_irq_active := active\<rparr>) else s,
      active))"

definition mswi_read_reg32 :: "aclint_mswi \<Rightarrow> u64 \<Rightarrow> aclint_mswi \<times> u32" where
  "mswi_read_reg32 s source =
     (let value = (if source \<ge> ACLINT_MSWI_OFFSET \<and> source < ACLINT_MSWI_OFFSET + 4 * of_nat (mswi_count s)
                   then if mswi_value s ! unat (drop_bit 2 source) then 1 else 0 else 0)
      in (mswi_emit (Read_Notification source (ucast value)) s, value))"

definition mswi_write_reg32 :: "aclint_mswi \<Rightarrow> u64 \<Rightarrow> u32 \<Rightarrow> aclint_mswi \<times> bool" where
  "mswi_write_reg32 s destination value =
     (let (s, changed) =
        (if destination \<ge> ACLINT_MSWI_OFFSET \<and> destination < ACLINT_MSWI_OFFSET + 4 * of_nat (mswi_count s) then
           let value_bool = (value AND 1 \<noteq> 0);
               changed = (value_bool \<noteq> mswi_value s ! unat (drop_bit 2 destination));
               s = s\<lparr>mswi_value := (mswi_value s)[unat (drop_bit 2 destination) := value_bool]\<rparr>
           in (fst (update_mswi_irq s), changed)
         else (s, False))
      in (mswi_emit (Write_Notification destination (ucast value)) s, changed))"

definition AclintMswi_write :: "Endian \<Rightarrow> Endian \<Rightarrow> aclint_mswi \<Rightarrow> u64 \<Rightarrow> byte list \<Rightarrow> aclint_mswi \<times> write_result" where
  "AclintMswi_write host simulated s destination source =
     write_by_u32 host
       (\<lambda>s a. let (s, v) = mswi_read_reg32 s a in (s, byteswap_if host v (host \<noteq> simulated)))
       (\<lambda>s a value. mswi_write_reg32 s a (byteswap_if host value (host \<noteq> simulated))) s destination source"

definition AclintMswi_read :: "Endian \<Rightarrow> Endian \<Rightarrow> aclint_mswi \<Rightarrow> u64 \<Rightarrow> nat \<Rightarrow> aclint_mswi \<times> byte list" where
  "AclintMswi_read host simulated s source sz =
     read_by_u32 host (\<lambda>s a. let (s, v) = mswi_read_reg32 s a in (s, byteswap_if host v (host \<noteq> simulated))) s source sz"

definition AclintMswi_location_status :: "aclint_mswi \<Rightarrow> u64 \<Rightarrow> LocationStatus" where
  "AclintMswi_location_status s offset =
     (if offset \<ge> ACLINT_MSWI_OFFSET \<and> offset < ACLINT_MSWI_OFFSET + 4 * of_nat (mswi_count s) then LOCSTAT_NONE else LOCSTAT_ILLEGAL)"

section \<open>Supervisor software interrupts\<close>

definition ACLINT_SSWI_OFFSET :: u64 where "ACLINT_SSWI_OFFSET = 0"

record aclint_sswi =
  sswi_count :: nat
  sswi_irq_level :: nat
  sswi_log :: "device_event list"

definition AclintSswi_new :: aclint_sswi where
  "AclintSswi_new = \<lparr>sswi_count = 1, sswi_irq_level = 1, sswi_log = []\<rparr>"

definition sswi_emit :: "device_event \<Rightarrow> aclint_sswi \<Rightarrow> aclint_sswi" where
  "sswi_emit e s = s\<lparr>sswi_log := sswi_log s @ [e]\<rparr>"

definition sswi_read_reg32 :: "aclint_sswi \<Rightarrow> u64 \<Rightarrow> aclint_sswi \<times> u32" where
  "sswi_read_reg32 s source = (sswi_emit (Read_Notification source 0) s, 0)"

definition sswi_write_reg32 :: "aclint_sswi \<Rightarrow> u64 \<Rightarrow> u32 \<Rightarrow> aclint_sswi \<times> bool" where
  "sswi_write_reg32 s destination value =
     (let s = (if destination \<ge> ACLINT_SSWI_OFFSET \<and> destination < ACLINT_SSWI_OFFSET + 4 * of_nat (sswi_count s) then
                 let value_bool = (value AND 1 \<noteq> 0) in
                 if value_bool then sswi_emit (Signal_Interrupt (sswi_irq_level s) value_bool) s else s
               else s)
      in (sswi_emit (Write_Notification destination (ucast value)) s, False))"

definition AclintSswi_write :: "Endian \<Rightarrow> Endian \<Rightarrow> aclint_sswi \<Rightarrow> u64 \<Rightarrow> byte list \<Rightarrow> aclint_sswi \<times> write_result" where
  "AclintSswi_write host simulated s destination source =
     write_by_u32 host
       (\<lambda>s a. let (s, v) = sswi_read_reg32 s a in (s, byteswap_if host v (host \<noteq> simulated)))
       (\<lambda>s a value. sswi_write_reg32 s a (byteswap_if host value (host \<noteq> simulated))) s destination source"

definition AclintSswi_read :: "Endian \<Rightarrow> Endian \<Rightarrow> aclint_sswi \<Rightarrow> u64 \<Rightarrow> nat \<Rightarrow> aclint_sswi \<times> byte list" where
  "AclintSswi_read host simulated s source sz =
     read_by_u32 host (\<lambda>s a. let (s, v) = sswi_read_reg32 s a in (s, byteswap_if host v (host \<noteq> simulated))) s source sz"

definition AclintSswi_location_status :: "aclint_sswi \<Rightarrow> u64 \<Rightarrow> LocationStatus" where
  "AclintSswi_location_status s offset =
     (if offset \<ge> ACLINT_SSWI_OFFSET \<and> offset < ACLINT_SSWI_OFFSET + 4 * of_nat (sswi_count s) then LOCSTAT_NONE else LOCSTAT_ILLEGAL)"

section \<open>The timer's interrupt line\<close>

definition mtimer_inv :: "aclint_mtimer \<Rightarrow> bool" where
  "mtimer_inv s = (mtimecmp_count s = 1 \<and> length (mtimecmp_value s) = 1 \<and> mtimer_irq_level s = 7 \<and>
     irq_line 7 (mt_log s) = mtimer_irq_active s)"

definition mtimecmp :: "aclint_mtimer \<Rightarrow> u64" where
  "mtimecmp s = mtimecmp_value s ! 0"

lemma mt_emit_simps [simp]:
  "mtimecmp_count (mt_emit e s) = mtimecmp_count s" "mtimecmp_value (mt_emit e s) = mtimecmp_value s"
  "mtimer_irq_level (mt_emit e s) = mtimer_irq_level s" "mtime_user_offset (mt_emit e s) = mtime_user_offset s"
  "mtime_last_current_fetch (mt_emit e s) = mtime_last_current_fetch s" "mtimer_irq_active (mt_emit e s) = mtimer_irq_active s"
  "qt_timer_id (mt_emit e s) = qt_timer_id s" "mt_log (mt_emit e s) = mt_log s @ [e]"
  by (simp_all add: mt_emit_def)

lemma kill_timer_simps [simp]:
  "mtimecmp_count (kill_timer s) = mtimecmp_count s" "mtimecmp_value (kill_timer s) = mtimecmp_value s"
  "mtimer_irq_level (kill_timer s) = mtimer_irq_level s" "mtime_user_offset (kill_timer s) = mtime_user_offset s"
  "mtime_last_current_fetch (kill_timer s) = mtime_last_current_fetch s" "mtimer_irq_active (kill_timer s) = mtimer_irq_active s"
  "qt_timer_id (kill_timer s) = -1" "irq_line l (mt_log (kill_timer s)) = irq_line l (mt_log s)"
  by (simp_all add: kill_timer_def Let_def)

lemma fetch_simps [simp]:
  "mtimecmp_count (mtime_fetch_current e s) = mtimecmp_count s" "mtimecmp_value (mtime_fetch_current e s) = mtimecmp_value s"
  "mtimer_irq_level (mtime_fetch_current e s) = mtimer_irq_level s" "mtime_user_offset (mtime_fetch_current e s) = mtime_user_offset s"
  "mtime_last_current_fetch (mtime_fetch_current e s) = e * 10000" "mtimer_irq_active (mtime_fetch_current e s) = mtimer_irq_active s"
  "qt_timer_id (mtime_fetch_current e s) = qt_timer_id s" "mt_log (mtime_fetch_current e s) = mt_log s"
  by (simp_all add: mtime_fetch_current_def)

text \<open>The end of every operation that can change the comparison: update the line, else arm the timer.\<close>

definition refresh_timer :: "(int \<Rightarrow> int) \<Rightarrow> aclint_mtimer \<Rightarrow> aclint_mtimer" where
  "refresh_timer startTimer s = (let (s, active) = update_mtimer_irq s in if active then s else arm_mtimer_event startTimer s)"

definition timer_due :: "aclint_mtimer \<Rightarrow> bool" where
  "timer_due s = (mtimecmp s < mtime s)"

definition wait_interval :: "aclint_mtimer \<Rightarrow> int" where
  "wait_interval s = sint (ucast ((mtimecmp s - mtime s) div 10000) :: u32)"

lemma snd_update_irq [simp]: "snd (update_mtimer_irq s) = timer_due s"
  by (simp add: update_mtimer_irq_def timer_due_def mtimecmp_def mtime_def Let_def)

lemma refresh_simps [simp]:
  "mtimecmp_count (refresh_timer st s) = mtimecmp_count s" "mtimecmp_value (refresh_timer st s) = mtimecmp_value s"
  "mtimer_irq_level (refresh_timer st s) = mtimer_irq_level s" "mtime_user_offset (refresh_timer st s) = mtime_user_offset s"
  "mtime_last_current_fetch (refresh_timer st s) = mtime_last_current_fetch s"
  by (simp_all add: refresh_timer_def update_mtimer_irq_def arm_mtimer_event_def Let_def)

lemma refresh_line:
  assumes "mtimer_inv s"
  shows "mtimer_inv (refresh_timer st s) \<and> mtimer_irq_active (refresh_timer st s) = timer_due s \<and>
    qt_timer_id (refresh_timer st s) = (if timer_due s then -1 else st (wait_interval s))"
  using assms
  by (auto simp: refresh_timer_def update_mtimer_irq_def arm_mtimer_event_def Let_def mtimer_inv_def
    timer_due_def wait_interval_def mtimecmp_def mtime_def)

lemma due_refresh [simp]: "timer_due (refresh_timer st s) = timer_due s"
  by (simp add: timer_due_def mtimecmp_def mtime_def)

lemma timerEvent_refresh:
  "timerEvent elapsed st i s = (if i = qt_timer_id s then refresh_timer st (mtime_fetch_current elapsed (kill_timer s)) else s)"
  by (simp add: timerEvent_def refresh_timer_def Let_def)

lemma write_mtime_refresh:
  "fst (mt_write_reg64 elapsed st s ACLINT_MTIME_OFFSET v) =
    mt_emit (Write_Notification ACLINT_MTIME_OFFSET (ucast (ucast v :: u32)))
      (refresh_timer st (mtime_fetch_current elapsed s\<lparr>mtime_user_offset := v - elapsed * 10000\<rparr>))"
  by (simp add: mt_write_reg64_def refresh_timer_def Let_def split: prod.splits)

lemma write_mtimecmp_refresh:
  assumes "mtimer_inv s"
  shows "fst (mt_write_reg64 elapsed st s ACLINT_MTIMECMP_OFFSET v) =
    mt_emit (Write_Notification ACLINT_MTIMECMP_OFFSET (ucast (ucast v :: u32))) (refresh_timer st (s\<lparr>mtimecmp_value := [v]\<rparr>))"
proof -
  have "(mtimecmp_value s)[0 := v] = [v]" using assms by (cases "mtimecmp_value s") (simp_all add: mtimer_inv_def)
  then show ?thesis using assms
    by (simp add: mt_write_reg64_def refresh_timer_def Let_def mtimer_inv_def ACLINT_MTIME_OFFSET_def ACLINT_MTIMECMP_OFFSET_def split: prod.splits)
qed

lemma mtimer_inv_updates [simp]:
  "mtimer_inv s \<Longrightarrow> mtimer_inv (s\<lparr>mtime_user_offset := v\<rparr>)" "mtimer_inv s \<Longrightarrow> mtimer_inv (s\<lparr>mtimecmp_value := [v]\<rparr>)"
  "mtimer_inv s \<Longrightarrow> mtimer_inv (mtime_fetch_current e s)" "mtimer_inv s \<Longrightarrow> mtimer_inv (kill_timer s)"
  by (simp_all add: mtimer_inv_def)

text \<open>Runs of the device: accesses to its registers and timer events, each at a time of the clock.\<close>

datatype mtimer_op = MT_Read u64 AccessEffects u64 | MT_Write u64 u64 u64 | MT_Event u64 int

fun mtimer_step :: "(int \<Rightarrow> int) \<Rightarrow> mtimer_op \<Rightarrow> aclint_mtimer \<Rightarrow> aclint_mtimer" where
  "mtimer_step st (MT_Read elapsed type a) s = fst (mt_read_reg64 elapsed type s a)"
| "mtimer_step st (MT_Write elapsed a v) s = fst (mt_write_reg64 elapsed st s a v)"
| "mtimer_step st (MT_Event elapsed i) s = timerEvent elapsed st i s"

inductive mtimer_reachable :: "(int \<Rightarrow> int) \<Rightarrow> aclint_mtimer \<Rightarrow> bool" for st where
  mt_start: "mtimer_reachable st AclintMtimer_new"
| mt_step: "mtimer_reachable st s \<Longrightarrow> mtimer_reachable st (mtimer_step st a s)"

lemma mtimer_inv_emit: "mtimer_inv s \<Longrightarrow> (\<And>l. line_step 7 l e = l) \<Longrightarrow> mtimer_inv (mt_emit e s)"
  by (simp add: mtimer_inv_def)

lemma write_mtimer_inv:
  assumes "mtimer_inv s"
  shows "mtimer_inv (fst (mt_write_reg64 elapsed st s a v))"
proof -
  consider "a = ACLINT_MTIME_OFFSET" | "a \<noteq> ACLINT_MTIME_OFFSET" "a < 8" | "a \<noteq> ACLINT_MTIME_OFFSET" "\<not> a < 8" by blast
  then show ?thesis
  proof cases
    case 1
    then show ?thesis using assms refresh_line by (simp add: write_mtime_refresh mtimer_inv_emit)
  next
    case 2
    have z: "unat (drop_bit 3 a) = 0"
      using 2(2) by (simp add: drop_bit_eq_div unat_div word_less_nat_alt)
    have "(mtimecmp_value s)[0 := v] = [v]" using assms by (cases "mtimecmp_value s") (simp_all add: mtimer_inv_def)
    then have "fst (mt_write_reg64 elapsed st s a v) =
        mt_emit (Write_Notification a (ucast (ucast v :: u32))) (refresh_timer st (s\<lparr>mtimecmp_value := [v]\<rparr>))"
      using 2 z assms by (simp add: mt_write_reg64_def refresh_timer_def Let_def mtimer_inv_def ACLINT_MTIMECMP_OFFSET_def split: prod.splits)
    then show ?thesis using assms refresh_line by (simp add: mtimer_inv_emit)
  next
    case 3
    then show ?thesis using assms by (simp add: mt_write_reg64_def Let_def mtimer_inv_def ACLINT_MTIMECMP_OFFSET_def)
  qed
qed

lemma mtimer_step_inv: "mtimer_inv s \<Longrightarrow> mtimer_inv (mtimer_step st a s)"
proof (cases a)
  case (MT_Read e t d)
  assume "mtimer_inv s"
  then show ?thesis unfolding MT_Read by (simp add: mt_read_reg64_def Let_def mtimer_inv_def)
next
  case (MT_Write e d v)
  assume "mtimer_inv s"
  then show ?thesis unfolding MT_Write by (simp add: write_mtimer_inv)
next
  case (MT_Event e i)
  assume "mtimer_inv s"
  then show ?thesis unfolding MT_Event using refresh_line [of "mtime_fetch_current e (kill_timer s)" st] by (simp add: timerEvent_refresh)
qed

lemma reachable_inv: "mtimer_reachable st s \<Longrightarrow> mtimer_inv s"
  by (induction rule: mtimer_reachable.induct)
    (simp_all add: mtimer_step_inv, simp add: mtimer_inv_def AclintMtimer_new_def ACLINT_MTIMECMP_COUNT_MAX_def)

lemma refreshed_line:
  assumes "mtimer_inv s" "s' = mt_emit (Write_Notification a v) (refresh_timer st s)"
  shows "irq_line 7 (mt_log s') = (mtimecmp s < mtime s) \<and> qt_timer_id s' = (if mtimecmp s < mtime s then -1 else st (wait_interval s))"
  using refresh_line [OF assms(1), of st] by (simp add: assms(2) mtimer_inv_def timer_due_def)

text \<open>
  In every reachable state of the timer, setting the time to \<open>v\<close> raises its interrupt line
  exactly when the compare register is below \<open>v\<close> and otherwise starts a timer for the rest of the
  wait; a regular read at a later time of the clock gives \<open>v\<close> plus the ticks that have passed.
\<close>

theorem mtime_write_read:
  assumes "mtimer_reachable st s" and s1_def: "s1 = fst (mt_write_reg64 t st s ACLINT_MTIME_OFFSET v)"
  shows "snd (mt_read_reg64 t' AE_REGULAR s1 ACLINT_MTIME_OFFSET) = v + (t' - t) * 10000"
    and "irq_line 7 (mt_log s1) = (mtimecmp s < v)"
    and "qt_timer_id s1 = (if mtimecmp s < v then -1 else st (sint (ucast ((mtimecmp s - v) div 10000) :: u32)))"
proof -
  let ?s = "mtime_fetch_current t s\<lparr>mtime_user_offset := v - t * 10000\<rparr>"
  have inv: "mtimer_inv ?s" using reachable_inv [OF assms(1)] by simp
  have s1: "s1 = mt_emit (Write_Notification ACLINT_MTIME_OFFSET (ucast (ucast v :: u32))) (refresh_timer st ?s)"
    unfolding s1_def by (rule write_mtime_refresh)
  have m: "mtime ?s = v" "mtimecmp ?s = mtimecmp s" by (simp_all add: mtime_def mtimecmp_def)
  show "irq_line 7 (mt_log s1) = (mtimecmp s < v)"
    "qt_timer_id s1 = (if mtimecmp s < v then -1 else st (sint (ucast ((mtimecmp s - v) div 10000) :: u32)))"
    using refreshed_line [OF inv s1] by (simp_all add: m wait_interval_def)
  show "snd (mt_read_reg64 t' AE_REGULAR s1 ACLINT_MTIME_OFFSET) = v + (t' - t) * 10000"
    by (simp add: s1 mt_read_reg64_def Let_def algebra_simps)
qed

theorem mtime_write_read_witness:
  "snd (mt_read_reg64 12 AE_REGULAR (fst (mt_write_reg64 2 (\<lambda>_. 5) AclintMtimer_new ACLINT_MTIME_OFFSET 500)) ACLINT_MTIME_OFFSET) = 100500"
  using mtime_write_read(1) [OF mt_start refl, where st = "\<lambda>_. 5" and t = 2 and t' = 12 and v = 500] by simp

text \<open>
  Claim C18: The machine timer's interrupt is not lost: in every reachable state with the wait for the
  compare register armed, the timer event at a time of the clock after it raises the interrupt line
  and ends the wait, and an event before it keeps the line low and starts a new wait.
\<close>

theorem timer_event_raises_interrupt:
  assumes "mtimer_reachable st s" "i = qt_timer_id s"
  shows "irq_line 7 (mt_log (timerEvent t st i s)) = (mtimecmp s < t * 10000 + mtime_user_offset s) \<and>
    qt_timer_id (timerEvent t st i s) = (if mtimecmp s < t * 10000 + mtime_user_offset s then -1
      else st (sint (ucast ((mtimecmp s - (t * 10000 + mtime_user_offset s)) div 10000) :: u32)))"
proof -
  let ?s = "mtime_fetch_current t (kill_timer s)"
  have inv: "mtimer_inv ?s" using reachable_inv [OF assms(1)] by simp
  have m: "mtime ?s = t * 10000 + mtime_user_offset s" "mtimecmp ?s = mtimecmp s" by (simp_all add: mtime_def mtimecmp_def)
  show ?thesis
    using refresh_line [OF inv, of st] assms(2) by (simp add: timerEvent_refresh timer_due_def wait_interval_def m mtimer_inv_def)
qed

theorem timer_event_raises_interrupt_witness:
  "irq_line 7 (mt_log (timerEvent 6 (\<lambda>_. 5) 5 (fst (mt_write_reg64 0 (\<lambda>_. 5) AclintMtimer_new ACLINT_MTIMECMP_OFFSET 50000))))"
proof -
  let ?s = "fst (mt_write_reg64 0 (\<lambda>_. 5) AclintMtimer_new ACLINT_MTIMECMP_OFFSET 50000)"
  have "mtimer_reachable (\<lambda>_. 5) (mtimer_step (\<lambda>_. 5) (MT_Write 0 ACLINT_MTIMECMP_OFFSET 50000) AclintMtimer_new)"
    by (rule mt_step [OF mt_start])
  then have r: "mtimer_reachable (\<lambda>_. 5) ?s" by simp
  have "5 = qt_timer_id ?s" "mtimecmp ?s < 6 * 10000 + mtime_user_offset ?s" by code_simp+
  then show ?thesis using timer_event_raises_interrupt [OF r, of 5 6] by simp
qed

text \<open>
  Writing the compare register does not consult the clock: the interrupt and the wait are
  decided with the time of the last regular read or write of the time register.  Five seconds after
  the start, with the time never read, a compare value one millisecond ahead of the clock waits for
  5001 ms, and one that has passed raises no interrupt.
\<close>

theorem mtimecmp_write_uses_stale_time:
  "(fst (mt_write_reg64 t st s a v) = fst (mt_write_reg64 t' st s a v) \<or> a = ACLINT_MTIME_OFFSET) \<and>
   (let s = fst (mt_write_reg64 5000 (\<lambda>_. 5) AclintMtimer_new ACLINT_MTIMECMP_OFFSET (5001 * 10000))
    in \<not> irq_line 7 (mt_log s) \<and> Start_Timer 5 5001 \<in> set (mt_log s)) \<and>
   (let s = fst (mt_write_reg64 5000 (\<lambda>_. 5) AclintMtimer_new ACLINT_MTIMECMP_OFFSET (4000 * 10000))
    in \<not> irq_line 7 (mt_log s) \<and> snd (mt_read_reg64 5000 AE_REGULAR s ACLINT_MTIME_OFFSET) > 4000 * 10000)"
proof (intro conjI)
  show "fst (mt_write_reg64 t st s a v) = fst (mt_write_reg64 t' st s a v) \<or> a = ACLINT_MTIME_OFFSET"
    by (simp add: mt_write_reg64_def)
  show "let s = fst (mt_write_reg64 5000 (\<lambda>_. 5) AclintMtimer_new ACLINT_MTIMECMP_OFFSET (5001 * 10000))
    in \<not> irq_line 7 (mt_log s) \<and> Start_Timer 5 5001 \<in> set (mt_log s)" by code_simp
  show "let s = fst (mt_write_reg64 5000 (\<lambda>_. 5) AclintMtimer_new ACLINT_MTIMECMP_OFFSET (4000 * 10000))
    in \<not> irq_line 7 (mt_log s) \<and> snd (mt_read_reg64 5000 AE_REGULAR s ACLINT_MTIME_OFFSET) > 4000 * 10000" by code_simp
qed

section \<open>The software interrupt lines\<close>

definition mswi_inv :: "aclint_mswi \<Rightarrow> bool" where
  "mswi_inv s = (mswi_count s = 1 \<and> length (mswi_value s) = 1 \<and> mswi_irq_level s = 3 \<and>
     irq_line 3 (mswi_log s) = mswi_irq_active s \<and> mswi_irq_active s = mswi_value s ! 0)"

lemma mswi_new_inv [simp]: "mswi_inv AclintMswi_new"
  by (simp add: mswi_inv_def AclintMswi_new_def ACLINT_MSWI_COUNT_MAX_def)

lemma mswi_read_inv: "mswi_inv s \<Longrightarrow> mswi_inv (fst (mswi_read_reg32 s a))"
  by (simp add: mswi_inv_def mswi_read_reg32_def mswi_emit_def Let_def)

lemma mswi_write_other: "mswi_inv s \<Longrightarrow> \<not> a < 4 \<Longrightarrow> mswi_inv (fst (mswi_write_reg32 s a v))"
  by (simp add: mswi_inv_def mswi_write_reg32_def mswi_emit_def Let_def ACLINT_MSWI_OFFSET_def)

lemma mswi_write_0:
  assumes "mswi_inv s"
  shows "mswi_inv (fst (mswi_write_reg32 s 0 v))" "irq_line 3 (mswi_log (fst (mswi_write_reg32 s 0 v))) = (v AND 1 \<noteq> 0)"
    "snd (mswi_read_reg32 (fst (mswi_write_reg32 s 0 v)) 0) = v AND 1"
proof -
  obtain b where b: "mswi_value s = [b]" using assms by (cases "mswi_value s") (auto simp: mswi_inv_def)
  have v1: "v AND 1 = (if v AND 1 \<noteq> 0 then 1 else 0)" by (simp add: and_one_eq mod_2_eq_odd)
  show "mswi_inv (fst (mswi_write_reg32 s 0 v))" "irq_line 3 (mswi_log (fst (mswi_write_reg32 s 0 v))) = (v AND 1 \<noteq> 0)"
    using assms b by (auto simp: mswi_inv_def mswi_write_reg32_def update_mswi_irq_def mswi_emit_def Let_def ACLINT_MSWI_OFFSET_def)
  show "snd (mswi_read_reg32 (fst (mswi_write_reg32 s 0 v)) 0) = v AND 1"
    using assms b by (subst v1) (auto simp: mswi_inv_def mswi_write_reg32_def mswi_read_reg32_def update_mswi_irq_def mswi_emit_def Let_def ACLINT_MSWI_OFFSET_def)
qed

end
