(* ===== verification/Machine_Bus.thy ===== *)
theory Machine_Bus
  imports Serial_Port Spi_Led Lcd_Display Aclint Control_State
begin

text \<open>
  The bus of a machine (the set-up functions of \<^verbatim>\<open>src/src/machine/machine.cpp\<close>): the main memory
  and the peripherals in their ranges, and the wiring of the interrupt signals to the control
  registers.
\<close>

section \<open>Peripherals as devices\<close>

datatype peripheral =
    Perip_Simple "device_event list"
  | Perip_Serial serial_port
  | Perip_Spi_Led perip_spi_led
  | Perip_Lcd lcd_display
  | Perip_Mtimer aclint_mtimer
  | Perip_Mswi aclint_mswi
  | Perip_Sswi aclint_sswi

text \<open>The host's clock and timers during an access.\<close>

record host_env =
  he_endian :: Endian
  he_elapsed :: u64
  he_start_timer :: "int \<Rightarrow> int"

definition peripheral_write ::
  "host_env \<Rightarrow> Endian \<Rightarrow> peripheral \<Rightarrow> u64 \<Rightarrow> byte list \<Rightarrow> AccessEffects \<Rightarrow> (peripheral \<times> write_result) result" where
  "peripheral_write h simulated p off src type = Inr (case p of
     Perip_Simple s \<Rightarrow> map_prod Perip_Simple id (SimplePeripheral_write s off src)
   | Perip_Serial s \<Rightarrow> map_prod Perip_Serial id (SerialPort_write (he_endian h) simulated s off src)
   | Perip_Spi_Led s \<Rightarrow> map_prod Perip_Spi_Led id (PeripSpiLed_write (he_endian h) simulated s off src)
   | Perip_Lcd s \<Rightarrow> map_prod Perip_Lcd id (LcdDisplay_write (he_endian h) simulated s off src)
   | Perip_Mtimer s \<Rightarrow> map_prod Perip_Mtimer id
       (AclintMtimer_write (he_elapsed h) (he_start_timer h) (he_endian h) simulated s off src type)
   | Perip_Mswi s \<Rightarrow> map_prod Perip_Mswi id (AclintMswi_write (he_endian h) simulated s off src)
   | Perip_Sswi s \<Rightarrow> map_prod Perip_Sswi id (AclintSswi_write (he_endian h) simulated s off src))"

definition peripheral_read ::
  "host_env \<Rightarrow> Endian \<Rightarrow> peripheral \<Rightarrow> u64 \<Rightarrow> nat \<Rightarrow> AccessEffects \<Rightarrow> (peripheral \<times> byte list) result" where
  "peripheral_read h simulated p off sz type = Inr (case p of
     Perip_Simple s \<Rightarrow> map_prod Perip_Simple id (SimplePeripheral_read s off sz)
   | Perip_Serial s \<Rightarrow> map_prod Perip_Serial id (SerialPort_read (he_endian h) simulated s off sz type)
   | Perip_Spi_Led s \<Rightarrow> map_prod Perip_Spi_Led id (PeripSpiLed_read (he_endian h) simulated s off sz)
   | Perip_Lcd s \<Rightarrow> map_prod Perip_Lcd id (LcdDisplay_read (he_endian h) simulated s off sz)
   | Perip_Mtimer s \<Rightarrow> map_prod Perip_Mtimer id (AclintMtimer_read (he_elapsed h) (he_endian h) simulated s off sz type)
   | Perip_Mswi s \<Rightarrow> map_prod Perip_Mswi id (AclintMswi_read (he_endian h) simulated s off sz)
   | Perip_Sswi s \<Rightarrow> map_prod Perip_Sswi id (AclintSswi_read (he_endian h) simulated s off sz))"

definition peripheral_location_status :: "peripheral \<Rightarrow> u64 \<Rightarrow> LocationStatus" where
  "peripheral_location_status p off = (case p of
     Perip_Simple _ \<Rightarrow> SimplePeripheral_location_status off
   | Perip_Serial _ \<Rightarrow> SerialPort_location_status off
   | Perip_Spi_Led _ \<Rightarrow> PeripSpiLed_location_status off
   | Perip_Lcd _ \<Rightarrow> LcdDisplay_location_status off
   | Perip_Mtimer s \<Rightarrow> AclintMtimer_location_status s off
   | Perip_Mswi s \<Rightarrow> AclintMswi_location_status s off
   | Perip_Sswi s \<Rightarrow> AclintSswi_location_status s off)"

definition peripheral_ops :: "host_env \<Rightarrow> Endian \<Rightarrow> peripheral backend_ops" where
  "peripheral_ops h simulated = \<lparr>bm_write = peripheral_write h simulated, bm_read = peripheral_read h simulated,
     bm_location_status = peripheral_location_status\<rparr>"

abbreviation machine_ops :: "host_env \<Rightarrow> Endian \<Rightarrow> peripheral device backend_ops" where
  "machine_ops h simulated \<equiv> device_ops (peripheral_ops h simulated)"

section \<open>Ranges\<close>

type_synonym machine_bus = "peripheral device data_bus"

text \<open>\<^verbatim>\<open>memory_bus_insert_range\<close> on a machine that has its bus; the set-up ignores the result.\<close>

definition memory_bus_insert_range :: "machine_bus \<Rightarrow> device_ptr \<Rightarrow> address \<Rightarrow> address \<Rightarrow> bool \<Rightarrow> machine_bus \<times> bool" where
  "memory_bus_insert_range b dev start_addr last_addr move_ownership = insert_device_to_range b dev start_addr last_addr move_ownership"

definition insert_range :: "device_ptr \<Rightarrow> address \<Rightarrow> address \<Rightarrow> bool \<Rightarrow> machine_bus \<Rightarrow> machine_bus" where
  "insert_range dev s l owns b = fst (memory_bus_insert_range b dev s l owns)"

text \<open>The devices, by the order in which the machine creates them.\<close>

definition mem_ptr :: device_ptr where "mem_ptr = 0"
definition serial_ptr :: device_ptr where "serial_ptr = 1"
definition spi_led_ptr :: device_ptr where "spi_led_ptr = 2"
definition lcd_ptr :: device_ptr where "lcd_ptr = 3"
definition mtimer_ptr :: device_ptr where "mtimer_ptr = 4"
definition mswi_ptr :: device_ptr where "mswi_ptr = 5"
definition sswi_ptr :: device_ptr where "sswi_ptr = 6"

lemmas device_ptrs = mem_ptr_def serial_ptr_def spi_led_ptr_def lcd_ptr_def mtimer_ptr_def mswi_ptr_def sswi_ptr_def

definition put_device :: "device_ptr \<Rightarrow> peripheral device \<Rightarrow> machine_bus \<Rightarrow> machine_bus" where
  "put_device dev d b = b\<lparr>bus_devices := (bus_devices b)(dev := d)\<rparr>"

definition CLINT_MTIMER_OFFSET :: address where "CLINT_MTIMER_OFFSET = 0x4000"
definition CLINT_MTIMER_SIZE :: address where "CLINT_MTIMER_SIZE = 0x8000"
definition CLINT_MSWI_OFFSET :: address where "CLINT_MSWI_OFFSET = 0x0000"
definition CLINT_MSWI_SIZE :: address where "CLINT_MSWI_SIZE = 0x4000"
definition CLINT_SSWI_OFFSET :: address where "CLINT_SSWI_OFFSET = 0xc000"
definition CLINT_SSWI_SIZE :: address where "CLINT_SSWI_SIZE = 0x4000"

lemmas clint_consts = CLINT_MTIMER_OFFSET_def CLINT_MTIMER_SIZE_def CLINT_MSWI_OFFSET_def CLINT_MSWI_SIZE_def
  CLINT_SSWI_OFFSET_def CLINT_SSWI_SIZE_def

definition setup_lcd_display :: "Xlen \<Rightarrow> machine_bus \<Rightarrow> machine_bus" where
  "setup_lcd_display xlen b =
     (let b = insert_range lcd_ptr 0xffe00000 0xffe4afff True (put_device lcd_ptr (Dev_Other (Perip_Lcd LcdDisplay_new)) b)
      in if xlen = XLEN_64 then insert_range lcd_ptr 0xffffffffffe00000 0xffffffffffe4afff False b else b)"

definition setup_perip_spi_led :: "Xlen \<Rightarrow> machine_bus \<Rightarrow> machine_bus" where
  "setup_perip_spi_led xlen b =
     (let b = insert_range spi_led_ptr 0xffffc100 0xffffc1ff True (put_device spi_led_ptr (Dev_Other (Perip_Spi_Led PeripSpiLed_new)) b)
      in if xlen = XLEN_64 then insert_range spi_led_ptr 0xffffffffffffc100 0xffffffffffffc1ff False b else b)"

definition setup_serial_port :: "u32 option list \<Rightarrow> Xlen \<Rightarrow> machine_bus \<Rightarrow> machine_bus" where
  "setup_serial_port input xlen b =
     (let b = insert_range serial_ptr 0xffffc000 0xffffc03f True (put_device serial_ptr (Dev_Other (Perip_Serial (SerialPort_new input))) b);
          b = insert_range serial_ptr 0xffff0000 0xffff003f False b
      in if xlen = XLEN_64 then insert_range serial_ptr 0xffffffffffffc000 0xffffffffffffc03f False b else b)"

definition setup_aclint_mtime :: "Xlen \<Rightarrow> machine_bus \<Rightarrow> machine_bus" where
  "setup_aclint_mtime xlen b =
     (let b = insert_range mtimer_ptr (0xfffd0000 + CLINT_MTIMER_OFFSET) (0xfffd0000 + CLINT_MTIMER_OFFSET + CLINT_MTIMER_SIZE - 1) True
                (put_device mtimer_ptr (Dev_Other (Perip_Mtimer AclintMtimer_new)) b)
      in if xlen = XLEN_64 then
           insert_range mtimer_ptr (0xfffffffffffd0000 + CLINT_MTIMER_OFFSET) (0xfffffffffffd0000 + CLINT_MTIMER_OFFSET + CLINT_MTIMER_SIZE - 1) False b
         else b)"

definition setup_aclint_mswi :: "Xlen \<Rightarrow> machine_bus \<Rightarrow> machine_bus" where
  "setup_aclint_mswi xlen b =
     (let b = insert_range mswi_ptr (0xfffd0000 + CLINT_MSWI_OFFSET) (0xfffd0000 + CLINT_MSWI_OFFSET + CLINT_MSWI_SIZE - 1) True
                (put_device mswi_ptr (Dev_Other (Perip_Mswi AclintMswi_new)) b)
      in if xlen = XLEN_64 then
           insert_range mswi_ptr (0xfffffffffffd0000 + CLINT_MSWI_OFFSET) (0xfffffffffffd0000 + CLINT_MSWI_OFFSET + CLINT_MSWI_SIZE - 1) False b
         else b)"

definition setup_aclint_sswi :: "Xlen \<Rightarrow> machine_bus \<Rightarrow> machine_bus" where
  "setup_aclint_sswi xlen b =
     (let b = insert_range sswi_ptr (0xfffd0000 + CLINT_SSWI_OFFSET) (0xfffd0000 + CLINT_SSWI_OFFSET + CLINT_SSWI_SIZE - 1) True
                (put_device sswi_ptr (Dev_Other (Perip_Sswi AclintSswi_new)) b)
      in if xlen = XLEN_64 then
           insert_range sswi_ptr (0xfffffffffffd0000 + CLINT_SSWI_OFFSET) (0xfffffffffffd0000 + CLINT_SSWI_OFFSET + CLINT_SSWI_SIZE - 1) False b
         else b)"

text \<open>The constructor's part: the memory first, then the peripherals.\<close>

definition machine_bus_new :: "memory \<Rightarrow> u32 option list \<Rightarrow> Xlen \<Rightarrow> machine_bus" where
  "machine_bus_new m input xlen =
     (let b = \<lparr>bus_devices = (\<lambda>_. Dev_Memory m), ranges_by_addr = [], ranges_by_device = [], bus_change_counter = 0\<rparr>;
          b = fst (insert_device_to_range b mem_ptr 0x00000000 0xefffffff False);
          b = setup_serial_port input xlen b;
          b = setup_perip_spi_led xlen b;
          b = setup_lcd_display xlen b;
          b = setup_aclint_mtime xlen b;
          b = setup_aclint_mswi xlen b
      in setup_aclint_sswi xlen b)"

section \<open>The memory map\<close>

abbreviation rng :: "device_ptr \<Rightarrow> address \<Rightarrow> address \<Rightarrow> bool \<Rightarrow> address \<times> RangeDesc" where
  "rng dev s l owns \<equiv> (l, \<lparr>rd_device = dev, rd_start = s, rd_last = l, rd_owns = owns\<rparr>)"

definition low_map :: "(address \<times> RangeDesc) list" where
  "low_map =
     [rng mem_ptr 0 0xefffffff False, rng lcd_ptr 0xffe00000 0xffe4afff True, rng mswi_ptr 0xfffd0000 0xfffd3fff True,
      rng mtimer_ptr 0xfffd4000 0xfffdbfff True, rng sswi_ptr 0xfffdc000 0xfffdffff True, rng serial_ptr 0xffff0000 0xffff003f False,
      rng serial_ptr 0xffffc000 0xffffc03f True, rng spi_led_ptr 0xffffc100 0xffffc1ff True]"

definition high_map :: "(address \<times> RangeDesc) list" where
  "high_map =
     [rng lcd_ptr 0xffffffffffe00000 0xffffffffffe4afff False, rng mswi_ptr 0xfffffffffffd0000 0xfffffffffffd3fff False,
      rng mtimer_ptr 0xfffffffffffd4000 0xfffffffffffdbfff False, rng sswi_ptr 0xfffffffffffdc000 0xfffffffffffdffff False,
      rng serial_ptr 0xffffffffffffc000 0xffffffffffffc03f False, rng spi_led_ptr 0xffffffffffffc100 0xffffffffffffc1ff False]"

text \<open>The ranges alone.\<close>

definition add_range :: "device_ptr \<Rightarrow> address \<Rightarrow> address \<Rightarrow> bool \<Rightarrow> (address \<times> RangeDesc) list \<Rightarrow> (address \<times> RangeDesc) list" where
  "add_range dev s l owns m = (case lower_bound m s of
     Some (_, r) \<Rightarrow> if range_overlaps r s l then m else qmap_insert l \<lparr>rd_device = dev, rd_start = s, rd_last = l, rd_owns = owns\<rparr> m
   | None \<Rightarrow> qmap_insert l \<lparr>rd_device = dev, rd_start = s, rd_last = l, rd_owns = owns\<rparr> m)"

lemma insert_device_ranges: "ranges_by_addr (fst (insert_device_to_range b dev s l owns)) = add_range dev s l owns (ranges_by_addr b)"
  by (auto simp: insert_device_to_range_def add_range_def split: option.splits)

lemma insert_range_ranges [simp]: "ranges_by_addr (insert_range dev s l owns b) = add_range dev s l owns (ranges_by_addr b)"
  by (simp add: insert_range_def memory_bus_insert_range_def insert_device_ranges)

lemma put_device_ranges [simp]: "ranges_by_addr (put_device dev d b) = ranges_by_addr b"
  by (simp add: put_device_def)

lemma setup_ranges:
  "ranges_by_addr (setup_serial_port input xlen b) =
     (let m = add_range serial_ptr 0xffff0000 0xffff003f False (add_range serial_ptr 0xffffc000 0xffffc03f True (ranges_by_addr b))
      in if xlen = XLEN_64 then add_range serial_ptr 0xffffffffffffc000 0xffffffffffffc03f False m else m)"
  "ranges_by_addr (setup_perip_spi_led xlen b) =
     (let m = add_range spi_led_ptr 0xffffc100 0xffffc1ff True (ranges_by_addr b)
      in if xlen = XLEN_64 then add_range spi_led_ptr 0xffffffffffffc100 0xffffffffffffc1ff False m else m)"
  "ranges_by_addr (setup_lcd_display xlen b) =
     (let m = add_range lcd_ptr 0xffe00000 0xffe4afff True (ranges_by_addr b)
      in if xlen = XLEN_64 then add_range lcd_ptr 0xffffffffffe00000 0xffffffffffe4afff False m else m)"
  "ranges_by_addr (setup_aclint_mtime xlen b) =
     (let m = add_range mtimer_ptr 0xfffd4000 0xfffdbfff True (ranges_by_addr b)
      in if xlen = XLEN_64 then add_range mtimer_ptr 0xfffffffffffd4000 0xfffffffffffdbfff False m else m)"
  "ranges_by_addr (setup_aclint_mswi xlen b) =
     (let m = add_range mswi_ptr 0xfffd0000 0xfffd3fff True (ranges_by_addr b)
      in if xlen = XLEN_64 then add_range mswi_ptr 0xfffffffffffd0000 0xfffffffffffd3fff False m else m)"
  "ranges_by_addr (setup_aclint_sswi xlen b) =
     (let m = add_range sswi_ptr 0xfffdc000 0xfffdffff True (ranges_by_addr b)
      in if xlen = XLEN_64 then add_range sswi_ptr 0xfffffffffffdc000 0xfffffffffffdffff False m else m)"
  by (simp_all add: setup_serial_port_def setup_perip_spi_led_def setup_lcd_display_def setup_aclint_mtime_def
    setup_aclint_mswi_def setup_aclint_sswi_def clint_consts Let_def)

lemma machine_ranges:
  "ranges_by_addr (machine_bus_new m input XLEN_32) = low_map"
  "ranges_by_addr (machine_bus_new m input XLEN_64) = low_map @ high_map"
  by (simp_all add: machine_bus_new_def setup_ranges insert_device_ranges Let_def add_range_def range_overlaps_def range_contains_def
    low_map_def high_map_def)

lemma machine_ranges_ok: "ranges_ok (ranges_by_addr (machine_bus_new m input xlen))"
  by (cases xlen) (simp_all add: machine_ranges low_map_def high_map_def)

lemma machine_find:
  "find_range (machine_bus_new m input xlen) a = Some r \<longleftrightarrow>
    (rd_last r, r) \<in> set (low_map @ (if xlen = XLEN_64 then high_map else [])) \<and> range_contains r a"
  unfolding find_range_iff [OF machine_ranges_ok] by (cases xlen) (simp_all add: machine_ranges)

text \<open>What an access sees: the device and the offset in it.\<close>

definition decode_address :: "machine_bus \<Rightarrow> address \<Rightarrow> (device_ptr \<times> u64) option" where
  "decode_address b a = map_option (\<lambda>r. (rd_device r, a - rd_start r)) (find_range b a)"

lemma decode_address_iff:
  "decode_address (machine_bus_new m input xlen) a = Some (dev, off) \<longleftrightarrow>
    (\<exists>r. (rd_last r, r) \<in> set (low_map @ (if xlen = XLEN_64 then high_map else [])) \<and> range_contains r a \<and> dev = rd_device r \<and> off = a - rd_start r)"
  unfolding decode_address_def map_option_eq_Some machine_find by auto

text \<open>The upper copy of the peripherals is the lower one, sign-extended.\<close>

definition sign_extend32 :: "address \<Rightarrow> address" where
  "sign_extend32 a = a + 0xffffffff00000000"

definition shift_range :: "RangeDesc \<Rightarrow> RangeDesc" where
  "shift_range r = r\<lparr>rd_start := sign_extend32 (rd_start r), rd_last := sign_extend32 (rd_last r), rd_owns := False\<rparr>"

lemma sign_extend32_le:
  assumes "a \<le> 0xffffffff" "k \<le> 0xffffffff"
  shows "sign_extend32 k \<le> sign_extend32 a \<longleftrightarrow> k \<le> a"
proof -
  have "unat (sign_extend32 x) = unat x + 0xffffffff00000000" if "x \<le> 0xffffffff" for x
    using that unfolding sign_extend32_def by (simp add: unat_word_ariths word_le_nat_alt)
  then show ?thesis using assms by (simp add: word_le_nat_alt)
qed

lemma sign_extend32_high: "a \<le> 0xffffffff \<Longrightarrow> 0xffffffff00000000 \<le> sign_extend32 a"
  unfolding sign_extend32_def by (simp add: unat_word_ariths word_le_nat_alt)

definition mirrored_map :: "(address \<times> RangeDesc) list" where
  "mirrored_map = filter (\<lambda>(k, r). rd_device r \<noteq> mem_ptr \<and> rd_start r \<noteq> 0xffff0000) low_map"

lemma high_map_mirror: "high_map = map (\<lambda>(k, r). (sign_extend32 k, shift_range r)) mirrored_map"
  by (simp add: high_map_def mirrored_map_def low_map_def shift_range_def sign_extend32_def device_ptrs)

lemma mirrored_bounds: "(k, r) \<in> set mirrored_map \<Longrightarrow> k = rd_last r \<and> rd_start r \<le> 0xffffffff \<and> rd_last r \<le> 0xffffffff"
proof -
  assume "(k, r) \<in> set mirrored_map"
  then have "(k, r) \<in> set low_map" by (simp add: mirrored_map_def)
  then show ?thesis by (auto simp: low_map_def)
qed

lemma low_map_high_address: "(k, r) \<in> set low_map \<Longrightarrow> 0xffffffff00000000 \<le> a \<Longrightarrow> \<not> range_contains r a"
  by (auto simp: low_map_def range_contains_def word_le_nat_alt)

lemma high_map_low_address: "(k, r) \<in> set high_map \<Longrightarrow> a \<le> 0xffffffff \<Longrightarrow> \<not> range_contains r a"
  by (auto simp: high_map_def range_contains_def word_le_nat_alt)

lemma low_map_peripheral:
  assumes "(k, r) \<in> set low_map" "range_contains r a" "0xf0000000 \<le> a" "\<not> (0xffff0000 \<le> a \<and> a \<le> 0xffff003f)"
  shows "(k, r) \<in> set mirrored_map"
proof -
  have "rd_device r = mem_ptr \<Longrightarrow> rd_last r = 0xefffffff" "rd_start r = 0xffff0000 \<Longrightarrow> rd_last r = 0xffff003f"
    using assms(1) by (auto simp: low_map_def device_ptrs)
  moreover have "\<not> a \<le> 0xefffffff" using assms(3) by (simp add: word_le_nat_alt)
  ultimately have "rd_device r \<noteq> mem_ptr" "rd_start r \<noteq> 0xffff0000" using assms(2,4) by (auto simp: range_contains_def)
  then show ?thesis using assms(1) by (simp add: mirrored_map_def)
qed

lemma decode_mirror:
  assumes a: "0xf0000000 \<le> a" "a \<le> 0xffffffff" and serial: "\<not> (0xffff0000 \<le> a \<and> a \<le> 0xffff003f)"
  shows "decode_address (machine_bus_new m input XLEN_64) (sign_extend32 a) = decode_address (machine_bus_new m input XLEN_64) a"
proof -
  have "decode_address (machine_bus_new m input XLEN_64) (sign_extend32 a) = Some (dev, off) \<longleftrightarrow>
      (\<exists>r. (rd_last r, r) \<in> set mirrored_map \<and> range_contains r a \<and> dev = rd_device r \<and> off = a - rd_start r)" for dev off
  proof -
    have "decode_address (machine_bus_new m input XLEN_64) (sign_extend32 a) = Some (dev, off) \<longleftrightarrow>
        (\<exists>r. (rd_last r, r) \<in> set high_map \<and> range_contains r (sign_extend32 a) \<and> dev = rd_device r \<and> off = sign_extend32 a - rd_start r)"
      unfolding decode_address_iff using low_map_high_address [OF _ sign_extend32_high [OF a(2)]] by auto
    also have "\<dots> \<longleftrightarrow> (\<exists>r. (rd_last r, r) \<in> set mirrored_map \<and> range_contains r a \<and> dev = rd_device r \<and> off = a - rd_start r)"
    proof -
      have c: "range_contains (shift_range r) (sign_extend32 a) = range_contains r a" "rd_device (shift_range r) = rd_device r"
          "sign_extend32 a - rd_start (shift_range r) = a - rd_start r" "rd_last (shift_range r) = sign_extend32 k" "k = rd_last r"
        if "(k, r) \<in> set mirrored_map" for k r
        using mirrored_bounds [OF that] a(2) by (auto simp: range_contains_def shift_range_def sign_extend32_le) (simp_all add: sign_extend32_def)
      show ?thesis
      proof
        assume "\<exists>r. (rd_last r, r) \<in> set high_map \<and> range_contains r (sign_extend32 a) \<and> dev = rd_device r \<and> off = sign_extend32 a - rd_start r"
        then obtain k r where "(k, r) \<in> set mirrored_map" "range_contains (shift_range r) (sign_extend32 a)"
            "dev = rd_device (shift_range r)" "off = sign_extend32 a - rd_start (shift_range r)" by (auto simp: high_map_mirror)
        then show "\<exists>r. (rd_last r, r) \<in> set mirrored_map \<and> range_contains r a \<and> dev = rd_device r \<and> off = a - rd_start r"
          using c [of k r] by metis
      next
        assume "\<exists>r. (rd_last r, r) \<in> set mirrored_map \<and> range_contains r a \<and> dev = rd_device r \<and> off = a - rd_start r"
        then obtain r where r: "(rd_last r, r) \<in> set mirrored_map" "range_contains r a" "dev = rd_device r" "off = a - rd_start r" by blast
        have "(rd_last (shift_range r), shift_range r) \<in> set high_map" using r(1) c(4) [OF r(1)] by (force simp: high_map_mirror)
        then show "\<exists>r. (rd_last r, r) \<in> set high_map \<and> range_contains r (sign_extend32 a) \<and> dev = rd_device r \<and> off = sign_extend32 a - rd_start r"
          using r c [OF r(1)] by (intro exI [of _ "shift_range r"]) simp
      qed
    qed
    finally show ?thesis .
  qed
  moreover have "decode_address (machine_bus_new m input XLEN_64) a = Some (dev, off) \<longleftrightarrow>
      (\<exists>r. (rd_last r, r) \<in> set mirrored_map \<and> range_contains r a \<and> dev = rd_device r \<and> off = a - rd_start r)" for dev off
    unfolding decode_address_iff using high_map_low_address [OF _ a(2)] low_map_peripheral [OF _ _ a(1) serial]
    by (auto simp: mirrored_map_def)
  ultimately have "decode_address (machine_bus_new m input XLEN_64) (sign_extend32 a) = Some x \<longleftrightarrow>
      decode_address (machine_bus_new m input XLEN_64) a = Some x" for x by (cases x) simp
  then show ?thesis by (metis not_None_eq option.sel)
qed

text \<open>
  Claim C19: All ranges of the machine's constructor are accepted by the bus, and an address reaches
  exactly the device whose range of the memory map has it.  On a 64-bit machine the peripherals
  appear again at their sign-extended addresses, at the same offsets; only the second window of the
  serial port at \<^verbatim>\<open>0xffff0000\<close> has no such copy.
\<close>

theorem machine_memory_map:
  "(decode_address (machine_bus_new m input xlen) a = Some (dev, off) \<longleftrightarrow>
     (\<exists>r. (rd_last r, r) \<in> set (low_map @ (if xlen = XLEN_64 then high_map else [])) \<and> rd_start r \<le> a \<and> a \<le> rd_last r \<and>
       dev = rd_device r \<and> off = a - rd_start r)) \<and>
   (0xf0000000 \<le> a \<and> a \<le> 0xffffffff \<longrightarrow>
     decode_address (machine_bus_new m input XLEN_64) (sign_extend32 a) =
       (if 0xffff0000 \<le> a \<and> a \<le> 0xffff003f then None else decode_address (machine_bus_new m input XLEN_64) a))"
proof (intro conjI impI)
  show "decode_address (machine_bus_new m input xlen) a = Some (dev, off) \<longleftrightarrow>
     (\<exists>r. (rd_last r, r) \<in> set (low_map @ (if xlen = XLEN_64 then high_map else [])) \<and> rd_start r \<le> a \<and> a \<le> rd_last r \<and>
       dev = rd_device r \<and> off = a - rd_start r)"
    unfolding decode_address_iff range_contains_def by auto
next
  assume "0xf0000000 \<le> a \<and> a \<le> 0xffffffff"
  then have a: "0xf0000000 \<le> a" "a \<le> 0xffffffff" by simp_all
  have "\<not> range_contains r (sign_extend32 a)" if "0xffff0000 \<le> a" "a \<le> 0xffff003f" "(k, r) \<in> set (low_map @ high_map)" for k r
  proof
    assume c: "range_contains r (sign_extend32 a)"
    then have "(k, r) \<in> set high_map" using that(3) low_map_high_address [OF _ sign_extend32_high [OF a(2)]] by auto
    moreover have "sign_extend32 0xffff0000 \<le> sign_extend32 a" "sign_extend32 a \<le> sign_extend32 0xffff003f"
      using that a by (simp_all add: sign_extend32_le)
    ultimately show False using c by (auto simp: high_map_def range_contains_def sign_extend32_def word_le_nat_alt)
  qed
  then have "decode_address (machine_bus_new m input XLEN_64) (sign_extend32 a) \<noteq> Some x" if "0xffff0000 \<le> a" "a \<le> 0xffff003f" for x
    using that by (cases x) (auto simp: decode_address_iff)
  then have "decode_address (machine_bus_new m input XLEN_64) (sign_extend32 a) = None" if "0xffff0000 \<le> a" "a \<le> 0xffff003f"
    using that by (meson not_None_eq)
  with a show "decode_address (machine_bus_new m input XLEN_64) (sign_extend32 a) =
       (if 0xffff0000 \<le> a \<and> a \<le> 0xffff003f then None else decode_address (machine_bus_new m input XLEN_64) a)"
    by (simp add: decode_mirror)
qed

theorem machine_memory_map_witness:
  "decode_address (machine_bus_new memory_new [] XLEN_64) 0xffffffffffffc004 = Some (serial_ptr, 4)"
proof -
  have "decode_address (machine_bus_new memory_new [] XLEN_64) (sign_extend32 0xffffc004) =
      decode_address (machine_bus_new memory_new [] XLEN_64) 0xffffc004"
    using machine_memory_map [where a = "0xffffc004" and m = memory_new and input = "[]"] by simp
  moreover have "decode_address (machine_bus_new memory_new [] XLEN_64) 0xffffc004 = Some (serial_ptr, 4)"
    by (simp add: decode_address_def find_range_def machine_ranges low_map_def)
  ultimately show ?thesis by (simp add: sign_extend32_def)
qed

section \<open>The display on the bus\<close>

definition lcd_range :: RangeDesc where
  "lcd_range = \<lparr>rd_device = lcd_ptr, rd_start = 0xffe00000, rd_last = 0xffe4afff, rd_owns = True\<rparr>"

fun lcd_device_inv :: "host_env \<Rightarrow> peripheral device \<Rightarrow> bool" where
  "lcd_device_inv h (Dev_Other (Perip_Lcd s)) = lcd_inv (he_endian h) s"
| "lcd_device_inv h _ = False"

fun lcd_device_view :: "host_env \<Rightarrow> Endian \<Rightarrow> peripheral device \<Rightarrow> u32 \<Rightarrow> byte" where
  "lcd_device_view h simulated (Dev_Other (Perip_Lcd s)) = (\<lambda>y. lcd_view (he_endian h) simulated s (unat y))"
| "lcd_device_view h simulated _ = (\<lambda>_. 0)"

definition lcd_admits :: "u64 \<Rightarrow> nat \<Rightarrow> bool" where
  "lcd_admits x n = (unat x + n \<le> 307200)"

lemma lcd_device_invE:
  assumes "lcd_device_inv h d" obtains s where "d = Dev_Other (Perip_Lcd s)" "lcd_inv (he_endian h) s"
  using assms by (cases "(h, d)" rule: lcd_device_inv.cases) auto

interpretation lcd_device: backend_contract "machine_ops h simulated" "lcd_device_inv h" "lcd_device_view h simulated" lcd_admits
  for h simulated
proof
  fix d x n assume a: "lcd_device_inv h d" "0 < n" "lcd_admits x n"
  then obtain s where s: "d = Dev_Other (Perip_Lcd s)" "lcd_inv (he_endian h) s" by (blast elim: lcd_device_invE)
  have "unat x + n \<le> 307200" using a(3) by (simp add: lcd_admits_def)
  from lcd.word_read [OF s(2) a(2) this, of simulated] obtain s' where
    "LcdDisplay_read (he_endian h) simulated s x n = (s', load_bytes (lcd_device_view h simulated d) (ucast x) n)"
    "lcd_inv (he_endian h) s'" "lcd.offset_view (he_endian h) simulated s' = lcd.offset_view (he_endian h) simulated s"
    by (auto simp: LcdDisplay_read_def read_by_u16_def s(1) lcd.offset_view_def)
  then show "\<exists>d'. bm_read (machine_ops h simulated) d x n AE_REGULAR = Inr (d', load_bytes (lcd_device_view h simulated d) (ucast x) n) \<and>
      lcd_device_inv h d' \<and> lcd_device_view h simulated d' = lcd_device_view h simulated d"
    by (simp add: s(1) device_ops_def peripheral_ops_def peripheral_read_def lcd.offset_view_def)
next
  fix d x and bs :: "byte list" assume a: "lcd_device_inv h d" "bs \<noteq> []" "lcd_admits x (length bs)"
  then obtain s where s: "d = Dev_Other (Perip_Lcd s)" "lcd_inv (he_endian h) s" by (blast elim: lcd_device_invE)
  have "unat x + length bs \<le> 307200" using a(3) by (simp add: lcd_admits_def)
  from lcd.word_write [OF s(2) a(2) this, of simulated] obtain s' c where
    "LcdDisplay_write (he_endian h) simulated s x bs = (s', \<lparr>n_bytes = length bs, changed = c\<rparr>)"
    "lcd_inv (he_endian h) s'" "lcd.offset_view (he_endian h) simulated s' = store_bytes (lcd.offset_view (he_endian h) simulated s) (ucast x) bs"
    by (auto simp: LcdDisplay_write_def write_by_u16_def)
  then show "\<exists>d' r. bm_write (machine_ops h simulated) d x bs AE_REGULAR = Inr (d', r) \<and> lcd_device_inv h d' \<and> n_bytes r = length bs \<and>
      lcd_device_view h simulated d' = store_bytes (lcd_device_view h simulated d) (ucast x) bs"
    by (simp add: s(1) device_ops_def peripheral_ops_def peripheral_write_def lcd.offset_view_def)
qed (simp add: lcd_admits_def)

interpretation lcd_bus: device_on_bus "machine_ops h simulated" "lcd_device_inv h" "lcd_device_view h simulated" lcd_admits lcd_range simulated
  for h simulated
  by unfold_locales (simp_all add: lcd_range_def)

definition lcd_of :: "machine_bus \<Rightarrow> lcd_display" where
  "lcd_of b = (case bus_devices b lcd_ptr of Dev_Other (Perip_Lcd s) \<Rightarrow> s | _ \<Rightarrow> LcdDisplay_new)"

definition pixel_addr :: "nat \<Rightarrow> nat \<Rightarrow> address" where
  "pixel_addr x y = 0xffe00000 + of_nat (get_address_from_pixel x y)"

lemma value_bytes_lcd: "value_bytes e (v :: u16) = object_bytes e 2 v"
  by (simp add: value_bytes_def object_bytes_def split: Endian.split)

lemma object_bytes_other: "host \<noteq> simulated \<Longrightarrow> object_bytes simulated n v = rev (object_bytes host n v)"
  by (cases host; cases simulated) (simp_all add: object_bytes_def)

lemma view_of_fb:
  assumes "length (fb_data s) = 307200" "even a" "a + 2 \<le> 307200"
  shows "map (lcd_view host simulated s) [a, a + 1] = object_bytes simulated 2 (fb_u16 host (fb_data s) a)"
proof (cases "host = simulated")
  case True
  then show ?thesis using pixel_bytes [OF assms(1,3), of host False] by (simp add: lcd_view_def byteswap_if_def)
next
  case False
  then show ?thesis using pixel_bytes [OF assms(1,3), of host False] object_bytes_other [OF False, of 2 "fb_u16 host (fb_data s) a"] assms(2)
    by (simp add: lcd_view_def byteswap_if_def flip_byte_def)
qed

lemma fb_of_view:
  assumes "length (fb_data s) = 307200" "even a" "a + 2 \<le> 307200"
    "map (lcd_view host simulated s) [a, a + 1] = object_bytes simulated 2 v"
  shows "fb_u16 host (fb_data s) a = v"
proof -
  have "object_bytes simulated 2 (fb_u16 host (fb_data s) a) = object_bytes simulated 2 v"
    using view_of_fb [OF assms(1-3)] assms(4) by simp
  moreover have "of_object_bytes simulated (object_bytes simulated 2 w) = w" for w :: u16 by (simp add: of_object_bytes_object_bytes)
  ultimately show ?thesis by metis
qed

text \<open>The bytes of a pixel on the bus.\<close>

lemma pixel_offset: "x < 480 \<Longrightarrow> y < 320 \<Longrightarrow> get_address_from_pixel x y + 2 \<le> 307200"
  by simp

lemma pixel_addr_offset:
  assumes "x < 480" "y < 320" "i < 2"
  shows "range_contains lcd_range (pixel_addr x y + of_nat i)" "unat (ucast (pixel_addr x y + of_nat i - rd_start lcd_range) :: u32) = y * 960 + x * 2 + i"
    "unat (pixel_addr x y + of_nat i) = 0xffe00000 + (y * 960 + x * 2 + i)"
proof -
  let ?n = "y * 960 + x * 2 + i"
  have n: "?n < 307200" using assms by simp
  have a: "pixel_addr x y + of_nat i = 0xffe00000 + of_nat ?n" by (simp add: pixel_addr_def)
  have un: "unat (of_nat ?n :: u64) = ?n" using n by (intro unat_of_nat_small) simp
  have u: "unat (pixel_addr x y + of_nat i) = 0xffe00000 + ?n"
    unfolding a unat_word_ariths un using n by simp
  then show "unat (pixel_addr x y + of_nat i) = 0xffe00000 + (y * 960 + x * 2 + i)" by simp
  show "range_contains lcd_range (pixel_addr x y + of_nat i)" using u n by (simp add: range_contains_def lcd_range_def word_le_nat_alt)
  have "pixel_addr x y + of_nat i - rd_start lcd_range = of_nat ?n" unfolding a by (simp add: lcd_range_def)
  then show "unat (ucast (pixel_addr x y + of_nat i - rd_start lcd_range) :: u32) = ?n"
    using un n by (simp only: unsigned_ucast_eq) (simp add: take_bit_nat_eq_self)
qed

lemma lcd_of_inv:
  assumes "lcd_bus.on_bus_inv h b"
  shows "bus_devices b lcd_ptr = Dev_Other (Perip_Lcd (lcd_of b))" "lcd_inv (he_endian h) (lcd_of b)"
proof -
  have "lcd_device_inv h (bus_devices b lcd_ptr)"
    using assms unfolding lcd_bus.on_bus_inv_def by (simp add: lcd_range_def)
  then obtain s where "bus_devices b lcd_ptr = Dev_Other (Perip_Lcd s)" "lcd_inv (he_endian h) s" by (rule lcd_device_invE)
  then show "bus_devices b lcd_ptr = Dev_Other (Perip_Lcd (lcd_of b))" "lcd_inv (he_endian h) (lcd_of b)" by (simp_all add: lcd_of_def)
qed

lemma pixel_on_bus:
  assumes "lcd_bus.on_bus_inv h b" "x < 480" "y < 320" "i < 2"
  shows "lcd_bus.on_bus_view h simulated b (pixel_addr x y + of_nat i) = lcd_view (he_endian h) simulated (lcd_of b) (y * 960 + x * 2 + i)"
  using pixel_addr_offset [OF assms(2-4)] lcd_of_inv(1) [OF assms(1)]
  unfolding lcd_bus.on_bus_view_def by (simp add: lcd_range_def)

lemma screen_of_pixel:
  assumes "lcd_bus.on_bus_inv h b" "x < 480" "y < 320"
    "map (\<lambda>i. lcd_bus.on_bus_view h simulated b (pixel_addr x y + of_nat i)) [0, 1] = object_bytes simulated 2 v"
  shows "lcd_screen (lcd_log (lcd_of b)) (x, y) = pixel_colour v"
proof -
  note i = lcd_of_inv(2) [OF assms(1)]
  have "map (lcd_view (he_endian h) simulated (lcd_of b)) [y * 960 + x * 2, y * 960 + x * 2 + 1] = object_bytes simulated 2 v"
    using assms(4) pixel_on_bus [OF assms(1-3), of 0 simulated] pixel_on_bus [OF assms(1-3), of 1 simulated] by simp
  then have "fb_u16 (he_endian h) (fb_data (lcd_of b)) (y * 960 + x * 2) = v"
    using i assms(2,3) by (intro fb_of_view) (simp_all add: lcd_inv_def)
  then show ?thesis using i assms(2,3) by (simp add: lcd_inv_def)
qed

lemma pixel_store:
  assumes "x < 480" "y < 320" "x' < 480" "y' < 320" "i < 2" "length bs = 2"
  shows "store_bytes f (pixel_addr x y) bs (pixel_addr x' y' + of_nat i) =
    (if x' = x \<and> y' = y then bs ! i else f (pixel_addr x' y' + of_nat i))"
proof (cases "x' = x \<and> y' = y")
  case True
  have "unat (of_nat i :: u64) = i" using assms(5) by (intro unat_of_nat_small) simp
  then show ?thesis using True assms(5,6) by (simp add: store_bytes_apply)
next
  case False
  let ?d = "pixel_addr x' y' + of_nat i - pixel_addr x y"
  have "\<not> unat ?d < 2"
  proof
    define j where "j = unat ?d"
    assume "unat ?d < 2"
    then have j: "j < 2" by (simp add: j_def)
    have "pixel_addr x' y' + of_nat i = pixel_addr x y + of_nat j" by (simp add: j_def)
    then have e: "y' * 960 + x' * 2 + i = y * 960 + x * 2 + j"
      using pixel_addr_offset(3) [OF assms(3,4,5)] pixel_addr_offset(3) [OF assms(1,2) j] by simp
    have "(q * 960 + p * 2 + k) mod 2 = k" if "k < 2" for q p k :: nat
    proof -
      have "q * 960 + p * 2 + k = k + 2 * (q * 480 + p)" by simp
      then show ?thesis using that by (simp only: mod_mult_self2) simp
    qed
    from arg_cong [OF e, of "\<lambda>n. n mod 2", unfolded this [OF assms(5)] this [OF j]] have "i = j" .
    with e have e': "y' * 480 + x' = y * 480 + x" by simp
    have "(q * 480 + p) div 480 = q" if "p < 480" for q p :: nat using that by simp
    from arg_cong [OF e', of "\<lambda>n. n div 480", unfolded this [OF assms(3)] this [OF assms(1)]] have "y' = y" .
    with e' False show False by simp
  qed
  then show ?thesis using False assms(6) by (auto simp: store_bytes_apply)
qed

text \<open>
  Claim C15: A 16-bit store to the address of a pixel, through the bus, on a host and a machine of
  either byte order, makes exactly that pixel of the screen show the colour of the stored value in the format
  RGB565; every other pixel keeps its colour.
\<close>

theorem lcd_pixel_visible:
  assumes "lcd_bus.on_bus_inv h b" "x < 480" "y < 320"
  shows "\<exists>b1 c. write_u16 (he_endian h) (bus_ops (machine_ops h simulated) simulated) (plain_address (pixel_addr x y)) v AE_REGULAR b = (b1, Inr c) \<and>
    lcd_bus.on_bus_inv h b1 \<and>
    (\<forall>x' < 480. \<forall>y' < 320. lcd_screen (lcd_log (lcd_of b1)) (x', y') =
      (if x' = x \<and> y' = y then pixel_colour v else lcd_screen (lcd_log (lcd_of b)) (x', y')))"
proof -
  let ?ops = "bus_ops (machine_ops h simulated) simulated" and ?a = "plain_address (pixel_addr x y)"
  have aa: "aw_addr ?a = pixel_addr x y" by (simp add: plain_address_def)
  have "unat (pixel_addr x y) = 0xffe00000 + (y * 960 + x * 2)" using pixel_addr_offset(3) [OF assms(2,3), of 0] by simp
  moreover have "unat (pixel_addr x y - rd_start lcd_range) = y * 960 + x * 2"
  proof -
    have "pixel_addr x y - rd_start lcd_range = of_nat (y * 960 + x * 2)" by (simp add: pixel_addr_def lcd_range_def)
    then show ?thesis using assms(2,3) by (simp only:) (intro unat_of_nat_small, simp)
  qed
  ultimately have adm: "lcd_bus.on_bus_admits (aw_addr ?a) (size_of TYPE(16))"
    using pixel_addr_offset(1) [OF assms(2,3), of 0] assms(2,3)
    unfolding lcd_bus.on_bus_admits_def aa by (simp add: lcd_admits_def) (simp add: lcd_range_def)
  obtain b1 c where w: "write_generic (he_endian h) ?ops ?a v AE_REGULAR b = (b1, Inr c)" "lcd_bus.on_bus_inv h b1"
    and v: "lcd_bus.on_bus_view h simulated b1 = store_bytes (lcd_bus.on_bus_view h simulated b) (pixel_addr x y) (object_bytes simulated 2 v)"
    using lcd_bus.bus.write_generic_contract [where 'a = 16, OF assms(1) _ adm, where host = "he_endian h" and v = v and simulated = simulated]
    by (auto simp: byte_sized_def aa value_bytes_lcd bus_ops_def)
  have "lcd_screen (lcd_log (lcd_of b1)) (x', y') = (if x' = x \<and> y' = y then pixel_colour v else lcd_screen (lcd_log (lcd_of b)) (x', y'))"
    if p: "x' < 480" "y' < 320" for x' y'
  proof -
    let ?old = "fb_u16 (he_endian h) (fb_data (lcd_of b)) (y' * 960 + x' * 2)"
    note st = pixel_store [OF assms(2,3) p, where bs = "object_bytes simulated 2 v" and f = "lcd_bus.on_bus_view h simulated b"]
    have old: "map (\<lambda>i. lcd_bus.on_bus_view h simulated b (pixel_addr x' y' + of_nat i)) [0, 1] = object_bytes simulated 2 ?old"
      using view_of_fb [of "lcd_of b" "y' * 960 + x' * 2" "he_endian h" simulated] lcd_of_inv(2) [OF assms(1)] p
        pixel_on_bus [OF assms(1) p, of 0 simulated] pixel_on_bus [OF assms(1) p, of 1 simulated]
      by (simp add: lcd_inv_def)
    have "object_bytes simulated 2 v = [object_bytes simulated 2 v ! 0, object_bytes simulated 2 v ! 1]"
      by (intro nth_equalityI) (auto simp: less_Suc_eq numeral_2_eq_2)
    then have "map (\<lambda>i. lcd_bus.on_bus_view h simulated b1 (pixel_addr x' y' + of_nat i)) [0, 1] =
        object_bytes simulated 2 (if x' = x \<and> y' = y then v else ?old)"
      using st [of 0] st [of 1] old unfolding v by simp
    from screen_of_pixel [OF w(2) p this] screen_of_pixel [OF assms(1) p old] show ?thesis by simp
  qed
  then show ?thesis using w by (auto simp: accessor_defs)
qed

lemma insert_devices [simp]: "bus_devices (insert_range dev s l owns b) = bus_devices b"
  by (auto simp: insert_range_def memory_bus_insert_range_def insert_device_to_range_def split: option.splits)

lemma machine_devices:
  "bus_devices (machine_bus_new m input xlen) = (\<lambda>_. Dev_Memory m)
     (serial_ptr := Dev_Other (Perip_Serial (SerialPort_new input)), spi_led_ptr := Dev_Other (Perip_Spi_Led PeripSpiLed_new),
      lcd_ptr := Dev_Other (Perip_Lcd LcdDisplay_new), mtimer_ptr := Dev_Other (Perip_Mtimer AclintMtimer_new),
      mswi_ptr := Dev_Other (Perip_Mswi AclintMswi_new), sswi_ptr := Dev_Other (Perip_Sswi AclintSswi_new))"
proof -
  have "bus_devices (fst (insert_device_to_range b dev s l owns)) = bus_devices b" for b :: machine_bus and dev s l owns
    by (auto simp: insert_device_to_range_def split: option.splits)
  then show ?thesis
    by (simp add: machine_bus_new_def setup_serial_port_def setup_perip_spi_led_def setup_lcd_display_def
      setup_aclint_mtime_def setup_aclint_mswi_def setup_aclint_sswi_def put_device_def Let_def)
qed

lemma lcd_new_inv: "lcd_inv host LcdDisplay_new"
proof -
  have "fb_u16 host (replicate 307200 0) (y * 960 + x * 2) = 0" if "x < 480" "y < 320" for x y
  proof -
    have "min 2 (307200 - (y * 960 + x * 2)) = 2" using that by simp
    then have "take 2 (drop (y * 960 + x * 2) (replicate 307200 (0 :: byte))) = replicate 2 0"
      by (simp only: drop_replicate take_replicate)
    moreover have "replicate 2 (0 :: byte) = [0, 0]" by (simp add: numeral_2_eq_2)
    ultimately have "take 2 (drop (y * 960 + x * 2) (replicate 307200 (0 :: byte))) = [0, 0]" by (rule trans)
    then show ?thesis by (simp only: fb_u16_def of_object_bytes_def) simp
  qed
  then show ?thesis
    by (simp add: lcd_inv_def LcdDisplay_new_def lcd_screen_def pixel_colour_def)
qed

lemma machine_bus_lcd: "lcd_bus.on_bus_inv h (machine_bus_new m input xlen)"
proof -
  have "(rd_last lcd_range, lcd_range) \<in> set (ranges_by_addr (machine_bus_new m input xlen))"
    by (cases xlen) (simp_all add: machine_ranges lcd_range_def low_map_def)
  then show ?thesis unfolding lcd_bus.on_bus_inv_def
    using machine_ranges_ok by (simp add: machine_devices lcd_range_def device_ptrs lcd_new_inv)
qed

theorem lcd_pixel_visible_witness:
  "\<exists>b1 c. write_u16 LITTLE (bus_ops (machine_ops \<lparr>he_endian = LITTLE, he_elapsed = 0, he_start_timer = \<lambda>_. 1\<rparr> BIG) BIG)
      (plain_address (pixel_addr 479 319)) 0xf800 AE_REGULAR (machine_bus_new memory_new [] XLEN_32) = (b1, Inr c) \<and>
    lcd_screen (lcd_log (lcd_of b1)) (479, 319) = (248, 0, 0)"
proof -
  have "pixel_colour 0xf800 = (248, 0, 0)" by (simp add: pixel_colour_def)
  then show ?thesis
    using lcd_pixel_visible [OF machine_bus_lcd [of "\<lparr>he_endian = LITTLE, he_elapsed = 0, he_start_timer = \<lambda>_. 1\<rparr>" memory_new "[]" XLEN_32],
        of 479 319 BIG "0xf800"] by auto
qed

section \<open>Interrupt wiring\<close>

text \<open>
  Every \<^verbatim>\<open>signal_interrupt\<close> of a device is connected to the machine's \<^verbatim>\<open>set_interrupt_signal\<close>, and that to
  the control registers: the signals a device has emitted act on them in their order.
\<close>

definition deliver_signal :: "device_event \<Rightarrow> ControlState \<Rightarrow> ControlState" where
  "deliver_signal e cs = (case e of Signal_Interrupt level active \<Rightarrow> set_interrupt_signal (of_nat level) active cs | _ \<Rightarrow> cs)"

definition deliver_signals :: "device_event list \<Rightarrow> ControlState \<Rightarrow> ControlState" where
  "deliver_signals log cs = foldl (\<lambda>cs e. deliver_signal e cs) cs log"

lemma deliver_signal_mip:
  assumes "level < 32" "\<forall>i a. e = Signal_Interrupt i a \<longrightarrow> i < 32"
  shows "bit (register_data (deliver_signal e cs) CSR_MIP) level = line_step level (bit (register_data cs CSR_MIP) level) e"
proof (cases e)
  case (Signal_Interrupt i a)
  then have i: "i < 32" using assms(2) by simp
  have "unat (of_nat i :: u32) = i" "\<not> (32 :: u32) \<le> of_nat i"
    using i by (simp_all add: word_le_nat_alt unsigned_of_nat take_bit_nat_eq_self)
  then show ?thesis using Signal_Interrupt i assms(1)
    by (auto simp: deliver_signal_def set_interrupt_signal_def Let_def csr_set_def bit_simps)
qed (simp_all add: deliver_signal_def line_step_def)

lemma deliver_signals_mip:
  assumes "level < 32" "\<forall>i a. Signal_Interrupt i a \<in> set log \<longrightarrow> i < 32" "\<not> bit (register_data cs CSR_MIP) level"
  shows "bit (register_data (deliver_signals log cs) CSR_MIP) level = irq_line level log"
  using assms(2)
proof (induction log rule: rev_induct)
  case Nil
  then show ?case using assms(3) by (simp add: deliver_signals_def)
next
  case (snoc e log)
  then have "\<forall>i a. Signal_Interrupt i a \<in> set log \<longrightarrow> i < 32" "\<forall>i a. e = Signal_Interrupt i a \<longrightarrow> i < 32" by auto
  with snoc.IH show ?case using deliver_signal_mip [OF assms(1), of e "deliver_signals log cs"]
    by (simp add: deliver_signals_def)
qed

end
