(* ===== verification/Machine_Status.thy ===== *)
theory Machine_Status
  imports Machine_Bus Core_Refines
begin

text \<open>
  The control of a machine (\<^verbatim>\<open>src/src/machine/machine.cpp\<close>): its status, the clock that drives it,
  and the slots \<^verbatim>\<open>play\<close>, \<^verbatim>\<open>pause\<close>, \<^verbatim>\<open>step\<close>, \<^verbatim>\<open>restart\<close> and \<^verbatim>\<open>step_timer\<close>.  A step of the
  core may throw, and while it runs a slot connected to one of its signals may call \<^verbatim>\<open>pause\<close>.
  The measured frequency of the core is left out.
\<close>

section \<open>State\<close>

datatype Status = ST_READY | ST_RUNNING | ST_BUSY | ST_EXIT | ST_TRAPPED

datatype machine_signal =
    Status_Change Status
  | Tick
  | Post_Tick
  | Program_Trap sim_exception
  | Play_Initiated
  | Play_Paused
  | Core_Frequency_Zero
  | Core_Frequency_Fixed nat

record 'm machine =
  mc_core :: "'m Core"
  mc_stat :: Status
  run_interval :: nat
  run_active :: bool
  frequency_measured :: bool
  last_cycle_count :: u64
  time_chunk :: nat
  mc_signals :: "machine_signal list"

text \<open>
  What a machine is built of: the step of its core, whether a slot calls \<^verbatim>\<open>pause\<close> during the step, the
  reset of the core, and the reset of the memory and the caches.
\<close>

record 'm machine_parts =
  mp_step :: "bool \<Rightarrow> ('m Core, unit) action"
  mp_pauses :: "bool \<Rightarrow> 'm Core \<Rightarrow> bool"
  mp_do_reset :: "'m Core \<Rightarrow> 'm Core"
  mp_reset_memory :: "'m \<Rightarrow> 'm"
  mp_reset_caches :: "'m \<Rightarrow> 'm"
  mp_program_loaded :: bool

definition mc_emit :: "machine_signal \<Rightarrow> 'm machine \<Rightarrow> 'm machine" where
  "mc_emit e m = m\<lparr>mc_signals := mc_signals m @ [e]\<rparr>"

section \<open>Operations\<close>

definition set_status :: "Status \<Rightarrow> 'm machine \<Rightarrow> 'm machine" where
  "set_status st m = (let change = (st \<noteq> mc_stat m); m = m\<lparr>mc_stat := st\<rparr> in if change then mc_emit (Status_Change st) m else m)"

definition exited :: "'m machine \<Rightarrow> bool" where
  "exited m = (mc_stat m = ST_EXIT \<or> mc_stat m = ST_TRAPPED)"

definition ctl_guard :: "'m machine \<Rightarrow> bool" where
  "ctl_guard m = (exited m \<or> mc_stat m = ST_BUSY)"

definition start_core_clock :: "'m machine \<Rightarrow> 'm machine" where
  "start_core_clock m =
     (let m = m\<lparr>last_cycle_count := ucast (cycle_count (mc_core m))\<rparr>;
          m = (if run_interval m = 0 then m\<lparr>frequency_measured := True\<rparr> else mc_emit (Core_Frequency_Fixed (run_interval m)) m)
      in m\<lparr>run_active := True\<rparr>)"

definition stop_core_clock :: "'m machine \<Rightarrow> 'm machine" where
  "stop_core_clock m = mc_emit Core_Frequency_Zero (m\<lparr>run_active := False, frequency_measured := False\<rparr>)"

definition set_speed :: "nat \<Rightarrow> nat \<Rightarrow> 'm machine \<Rightarrow> 'm machine" where
  "set_speed ips time_chunk_ms m =
     (let m = m\<lparr>time_chunk := time_chunk_ms, run_interval := ips\<rparr> in if run_active m then start_core_clock m else m)"

definition pause :: "'m machine \<Rightarrow> 'm machine" where
  "pause m = (if mc_stat m \<noteq> ST_BUSY \<and> ctl_guard m then m else mc_emit Play_Paused (stop_core_clock (set_status ST_READY m)))"

text \<open>
  The loop of \<^verbatim>\<open>step_internal\<close> takes the readings of its timer, in milliseconds; after the last of
  them the time is up.
\<close>

definition step_core :: "'m machine_parts \<Rightarrow> bool \<Rightarrow> 'm machine \<Rightarrow> 'm machine \<times> unit result" where
  "step_core ps skip_break m =
     (case mp_step ps skip_break (mc_core m) of
        (c, r) \<Rightarrow> let stop = mp_pauses ps skip_break (mc_core m); m = m\<lparr>mc_core := c\<rparr> in (if stop then pause m else m, r))"

fun step_loop :: "'m machine_parts \<Rightarrow> bool \<Rightarrow> nat list \<Rightarrow> 'm machine \<Rightarrow> 'm machine \<times> unit result" where
  "step_loop ps skip_break readings m =
     (case step_core ps skip_break m of
        (m, Inl e) \<Rightarrow> (m, Inl e)
      | (m, Inr _) \<Rightarrow>
          if time_chunk m \<noteq> 0 \<and> mc_stat m = ST_BUSY \<and> \<not> skip_break then
            case readings of [] \<Rightarrow> (m, Inr ()) | t # ts \<Rightarrow> if t < time_chunk m then step_loop ps skip_break ts m else (m, Inr ())
          else (m, Inr ()))"

declare step_loop.simps [simp del]

definition step_internal :: "'m machine_parts \<Rightarrow> bool \<Rightarrow> nat list \<Rightarrow> 'm machine \<Rightarrow> 'm machine" where
  "step_internal ps skip_break readings m =
     (if ctl_guard m then m
      else let stat_prev = mc_stat m in
        case step_loop ps skip_break readings (mc_emit Tick (set_status ST_BUSY m)) of
          (m, Inl e) \<Rightarrow> mc_emit (Program_Trap e) (set_status ST_TRAPPED (stop_core_clock m))
        | (m, Inr _) \<Rightarrow> mc_emit Post_Tick (if mc_stat m = ST_BUSY then set_status stat_prev m else m))"

definition play :: "'m machine_parts \<Rightarrow> 'm machine \<Rightarrow> 'm machine" where
  "play ps m = (if ctl_guard m then m
     else mc_emit Play_Initiated (step_internal ps True [] (start_core_clock (set_status ST_RUNNING m))))"

definition machine_step :: "'m machine_parts \<Rightarrow> 'm machine \<Rightarrow> 'm machine" where
  "machine_step ps m = step_internal ps True [] m"

fun step_while_running :: "'m machine_parts \<Rightarrow> nat \<Rightarrow> 'm machine \<Rightarrow> 'm machine" where
  "step_while_running ps 0 m = m"
| "step_while_running ps (Suc n) m = (if mc_stat m = ST_RUNNING then step_while_running ps n (step_internal ps False [] m) else m)"

definition step_timer :: "'m machine_parts \<Rightarrow> nat list \<Rightarrow> 'm machine \<Rightarrow> 'm machine" where
  "step_timer ps readings m =
     (if run_interval m = 0 \<and> time_chunk m = 0 then step_while_running ps 32 m else step_internal ps False readings m)"

definition restart :: "'m machine_parts \<Rightarrow> ('m machine, unit) action" where
  "restart ps m =
     (let m = pause m; c = mc_core m in
      case registers_reset (regs c) of
        Inl e \<Rightarrow> (m, Inl e)
      | Inr r \<Rightarrow>
          let c = c\<lparr>regs := r\<rparr>;
              c = (if mp_program_loaded ps then c\<lparr>mem := mp_reset_memory ps (mem c)\<rparr> else c);
              c = c\<lparr>mem := mp_reset_caches ps (mem c)\<rparr>;
              c = core_reset (mp_do_reset ps) c
          in (set_status ST_READY (m\<lparr>mc_core := c\<rparr>), Inr ()))"

definition get_exception_cause :: "'m Core \<Rightarrow> ExceptionCause + nat" where
  "get_exception_cause c = (case control_state c of
     None \<Rightarrow> Inl EXCAUSE_NONE
   | Some cs \<Rightarrow>
       let priv = current_privilege_u c;
           cause_reg = (if priv = SUPERVISOR then CSR_SCAUSE else CSR_MCAUSE);
           val = read_internal cs cause_reg
       in if val AND 0xffffffff80000000 \<noteq> 0 then Inl (if priv = SUPERVISOR then EXCAUSE_INT_S else EXCAUSE_INT_M)
          else Inr (unat val))"

section \<open>The status\<close>

text \<open>
  Between two calls from outside the machine is ready, running or trapped, and its clock ticks
  exactly while it is running.
\<close>

definition status_ok :: "'m machine \<Rightarrow> bool" where
  "status_ok m = (mc_stat m \<in> {ST_READY, ST_RUNNING, ST_TRAPPED} \<and> (run_active m \<longleftrightarrow> mc_stat m = ST_RUNNING))"

lemma mc_emit_simps [simp]:
  "mc_core (mc_emit e m) = mc_core m" "mc_stat (mc_emit e m) = mc_stat m" "run_active (mc_emit e m) = run_active m"
  "run_interval (mc_emit e m) = run_interval m" "time_chunk (mc_emit e m) = time_chunk m"
  "mc_signals (mc_emit e m) = mc_signals m @ [e]"
  by (simp_all add: mc_emit_def)

lemma set_status_simps [simp]:
  "mc_core (set_status st m) = mc_core m" "mc_stat (set_status st m) = st" "run_active (set_status st m) = run_active m"
  "run_interval (set_status st m) = run_interval m" "time_chunk (set_status st m) = time_chunk m"
  by (simp_all add: set_status_def Let_def)

lemma start_core_clock_simps [simp]:
  "mc_core (start_core_clock m) = mc_core m" "mc_stat (start_core_clock m) = mc_stat m" "run_active (start_core_clock m)"
  "run_interval (start_core_clock m) = run_interval m" "time_chunk (start_core_clock m) = time_chunk m"
  by (simp_all add: start_core_clock_def Let_def)

lemma stop_core_clock_simps [simp]:
  "mc_core (stop_core_clock m) = mc_core m" "mc_stat (stop_core_clock m) = mc_stat m" "\<not> run_active (stop_core_clock m)"
  "run_interval (stop_core_clock m) = run_interval m" "time_chunk (stop_core_clock m) = time_chunk m"
  by (simp_all add: stop_core_clock_def)

lemma pause_core [simp]: "mc_core (pause m) = mc_core m"
  by (simp add: pause_def)

text \<open>During a step the status is busy, or ready with the clock stopped after a pause.\<close>

definition stepping :: "bool \<Rightarrow> 'm machine \<Rightarrow> bool" where
  "stepping act m = (mc_stat m = ST_BUSY \<and> run_active m = act \<or> mc_stat m = ST_READY \<and> \<not> run_active m)"

lemma step_core_stepping: "stepping act m \<Longrightarrow> stepping act (fst (step_core ps skip m))"
  by (auto simp: step_core_def stepping_def pause_def ctl_guard_def exited_def Let_def split: prod.splits)

lemma step_loop_stepping: "stepping act m \<Longrightarrow> stepping act (fst (step_loop ps skip readings m))"
proof (induction readings arbitrary: m)
  case Nil
  obtain m1 r where m1: "step_core ps skip m = (m1, r)" by (cases "step_core ps skip m")
  then have "stepping act m1" using step_core_stepping [OF Nil, of ps skip] by simp
  then show ?case by (subst step_loop.simps) (simp add: m1 split: sum.splits)
next
  case (Cons t ts)
  obtain m1 r where m1: "step_core ps skip m = (m1, r)" by (cases "step_core ps skip m")
  then have "stepping act m1" using step_core_stepping [OF Cons.prems, of ps skip] by simp
  then show ?case using Cons.IH [of m1] unfolding step_loop.simps [of ps skip "t # ts" m] m1 prod.case by (auto split: sum.splits)
qed

lemma step_internal_ok:
  assumes "status_ok m"
  shows "status_ok (step_internal ps skip readings m)"
proof (cases "ctl_guard m")
  case True
  then show ?thesis using assms by (simp add: step_internal_def)
next
  case False
  then have prev: "mc_stat m = ST_READY \<or> mc_stat m = ST_RUNNING" "run_active m \<longleftrightarrow> mc_stat m = ST_RUNNING"
    using assms by (auto simp: status_ok_def ctl_guard_def exited_def)
  obtain m1 r where m1: "step_loop ps skip readings (mc_emit Tick (set_status ST_BUSY m)) = (m1, r)" by force
  then have "stepping (run_active m) m1"
    using step_loop_stepping [of "run_active m" "mc_emit Tick (set_status ST_BUSY m)" ps skip readings] by (simp add: stepping_def)
  then show ?thesis using prev False m1
    by (cases r) (auto simp: step_internal_def Let_def status_ok_def stepping_def)
qed

lemma step_while_running_ok: "status_ok m \<Longrightarrow> status_ok (step_while_running ps n m)"
  by (induction n arbitrary: m) (simp_all add: step_internal_ok)

text \<open>The calls from outside.\<close>

datatype machine_control = Call_Play | Call_Pause | Call_Step | Call_Restart | Call_Timer "nat list" | Call_Set_Speed nat nat

fun do_call :: "'m machine_parts \<Rightarrow> machine_control \<Rightarrow> 'm machine \<Rightarrow> 'm machine" where
  "do_call ps Call_Play m = play ps m"
| "do_call ps Call_Pause m = pause m"
| "do_call ps Call_Step m = machine_step ps m"
| "do_call ps Call_Restart m = fst (restart ps m)"
| "do_call ps (Call_Timer readings) m = step_timer ps readings m"
| "do_call ps (Call_Set_Speed ips chunk) m = set_speed ips chunk m"

lemma pause_ok: "status_ok m \<Longrightarrow> status_ok (pause m)"
  by (auto simp: pause_def status_ok_def ctl_guard_def exited_def)

lemma restart_ok: "status_ok m \<Longrightarrow> status_ok (fst (restart ps m))"
  using pause_ok [of m] by (auto simp: restart_def Let_def status_ok_def pause_def ctl_guard_def exited_def split: sum.splits if_splits)

lemma do_call_ok: "status_ok m \<Longrightarrow> status_ok (do_call ps call m)"
proof (cases call)
  case Call_Play
  assume m: "status_ok m"
  show ?thesis
  proof (cases "ctl_guard m")
    case True
    then show ?thesis using m Call_Play by (simp add: play_def)
  next
    case False
    have "status_ok (start_core_clock (set_status ST_RUNNING m))" by (simp add: status_ok_def)
    from step_internal_ok [OF this, of ps True "[]"] show ?thesis using False Call_Play by (simp add: play_def status_ok_def)
  qed
qed (simp_all add: pause_ok restart_ok machine_step_def step_internal_ok step_timer_def step_while_running_ok,
  auto simp: set_speed_def status_ok_def Let_def)

text \<open>A machine after its constructor, and a sequence of calls.\<close>

definition machine_new :: "'m Core \<Rightarrow> 'm machine" where
  "machine_new c = set_speed 0 0 \<lparr>mc_core = c, mc_stat = ST_READY, run_interval = 0, run_active = False,
     frequency_measured = False, last_cycle_count = 0, time_chunk = 0, mc_signals = []\<rparr>"

definition run_calls :: "'m machine_parts \<Rightarrow> machine_control list \<Rightarrow> 'm machine \<Rightarrow> 'm machine" where
  "run_calls ps calls m = foldl (\<lambda>m call. do_call ps call m) m calls"

lemma run_calls_ok: "status_ok m \<Longrightarrow> status_ok (run_calls ps calls m)"
  by (induction calls arbitrary: m) (simp_all add: run_calls_def do_call_ok)

lemma machine_new_ok: "status_ok (machine_new c)"
  by (simp add: machine_new_def set_speed_def status_ok_def)

text \<open>
  Claim C16: Whatever sequence of calls a machine gets, whatever its core does in a step, between two
  calls it is ready, running or trapped, never busy, and its clock is active exactly while it runs.
\<close>

theorem machine_status_sound:
  "let m = run_calls ps calls (machine_new c)
   in mc_stat m \<in> {ST_READY, ST_RUNNING, ST_TRAPPED} \<and> run_active m = (mc_stat m = ST_RUNNING)"
  using run_calls_ok [OF machine_new_ok, of ps calls c] by (simp add: status_ok_def Let_def)

lemma trapped_ignores:
  assumes "mc_stat m = ST_TRAPPED" "call \<notin> range (\<lambda>(i, t). Call_Set_Speed i t)" "call \<noteq> Call_Restart"
  shows "do_call ps call m = m"
  using assms by (cases call) (auto simp: play_def pause_def machine_step_def step_internal_def step_timer_def ctl_guard_def exited_def numeral_eq_Suc)

text \<open>
  When the core throws in a step, the machine keeps what the core had changed, announces the
  exception, is trapped with its clock stopped, and then ignores every call until a restart (or a
  change of its speed, which does not wake it).
\<close>

theorem exception_traps_machine:
  assumes "mc_stat m = ST_READY \<or> mc_stat m = ST_RUNNING" "mp_step ps True (mc_core m) = (c, Inl e)"
    "\<forall>call \<in> set calls. call \<in> {Call_Play, Call_Pause, Call_Step} \<or> (\<exists>r. call = Call_Timer r)"
  shows "mc_stat (machine_step ps m) = ST_TRAPPED \<and> \<not> run_active (machine_step ps m) \<and> mc_core (machine_step ps m) = c \<and>
    last (mc_signals (machine_step ps m)) = Program_Trap e \<and> run_calls ps calls (machine_step ps m) = machine_step ps m"
proof -
  have g: "\<not> ctl_guard m" using assms(1) by (auto simp: ctl_guard_def exited_def)
  have "step_loop ps True [] (mc_emit Tick (set_status ST_BUSY m)) =
      (if mp_pauses ps True (mc_core m) then pause ((mc_emit Tick (set_status ST_BUSY m))\<lparr>mc_core := c\<rparr>)
       else (mc_emit Tick (set_status ST_BUSY m))\<lparr>mc_core := c\<rparr>, Inl e)"
    by (subst step_loop.simps) (simp add: step_core_def assms(2) Let_def)
  then have t: "mc_stat (machine_step ps m) = ST_TRAPPED" "\<not> run_active (machine_step ps m)" "mc_core (machine_step ps m) = c"
      "last (mc_signals (machine_step ps m)) = Program_Trap e"
    using g by (simp_all add: machine_step_def step_internal_def Let_def)
  have "run_calls ps cs (machine_step ps m) = machine_step ps m" if "set cs \<subseteq> set calls" for cs
    using that
  proof (induction cs)
    case (Cons call cs)
    then have "do_call ps call (machine_step ps m) = machine_step ps m"
      using assms(3) by (intro trapped_ignores [OF t(1)]) auto
    with Cons show ?case by (simp add: run_calls_def)
  qed (simp add: run_calls_def)
  with t show ?thesis by simp
qed

section \<open>Restarting\<close>

lemma resets_keep:
  "do_reset \<in> {single_do_reset, pipeline_reset} \<Longrightarrow> control_state (core_reset do_reset c) = control_state c \<and>
    core_predictor (core_reset do_reset c) = core_predictor c \<and> regs (core_reset do_reset c) = regs c \<and>
    current_privilege_u (core_reset do_reset c) = MACHINE \<and> cycle_count (core_reset do_reset c) = 0"
  by (auto simp: core_reset_def single_do_reset_def pipeline_reset_def set_current_privilege_def Let_def)

text \<open>
  Restarting a machine succeeds from every status and makes it ready, with the registers and
  the counters of a fresh core.  The program counter is the default one, whatever the entry point the
  program was loaded with, and the control registers and the branch predictor keep what the previous
  run left in them.
\<close>

theorem restart_effect:
  assumes "registers_inv (regs (mc_core m))" "mp_do_reset ps \<in> {single_do_reset, pipeline_reset}"
  shows "\<exists>m'. restart ps m = (m', Inr ()) \<and> mc_stat m' = ST_READY \<and> read_pc (regs (mc_core m')) = PC_INIT \<and>
    registers_inv (regs (mc_core m')) \<and> cycle_count (mc_core m') = 0 \<and> current_privilege_u (mc_core m') = MACHINE \<and>
    control_state (mc_core m') = control_state (mc_core m) \<and> core_predictor (mc_core m') = core_predictor (mc_core m)"
proof -
  obtain r where r: "registers_reset (regs (mc_core m)) = Inr r" "registers_inv r" "read_pc r = PC_INIT"
  proof -
    from assms(1) have "length (reg_gp (regs (mc_core m))) = REGISTER_COUNT" "reg_gp (regs (mc_core m)) ! 0 = 0"
      by (simp_all add: registers_inv_def)
    then show thesis by (rule registers_reset_spec) (rule that)
  qed
  define c where "c = (let c = mc_core m\<lparr>regs := r\<rparr>;
      c = (if mp_program_loaded ps then c\<lparr>mem := mp_reset_memory ps (mem c)\<rparr> else c) in c\<lparr>mem := mp_reset_caches ps (mem c)\<rparr>)"
  have c: "regs c = r" "control_state c = control_state (mc_core m)" "core_predictor c = core_predictor (mc_core m)"
    by (simp_all add: c_def Let_def)
  have "restart ps m = (set_status ST_READY (pause m\<lparr>mc_core := core_reset (mp_do_reset ps) c\<rparr>), Inr ())"
    by (simp add: restart_def r(1) Let_def c_def)
  then show ?thesis using resets_keep [OF assms(2), of c] c r(2,3) by simp
qed

text \<open>A machine without a program, on a memory that is not used.\<close>

definition idle_registers :: Registers where
  "idle_registers = \<lparr>reg_gp = replicate REGISTER_COUNT 0, reg_pc = 0x400\<rparr>"

definition idle_core :: "unit Core" where
  "idle_core = core_single_new idle_registers no_prediction () (Some (write_internal CSR_MTVEC 0x800 (csr_new XLEN_32 0))) XLEN_32 0"

definition failing_parts :: "unit machine_parts" where
  "failing_parts = \<lparr>mp_step = (\<lambda>_ c. (c, Inl UnsupportedInstruction)), mp_pauses = (\<lambda>_ _. False), mp_do_reset = single_do_reset,
     mp_reset_memory = id, mp_reset_caches = id, mp_program_loaded = True\<rparr>"

theorem exception_traps_machine_witness:
  "mc_stat (machine_step failing_parts (machine_new idle_core)) = ST_TRAPPED \<and>
   run_calls failing_parts [Call_Play, Call_Timer [], Call_Step] (machine_step failing_parts (machine_new idle_core)) =
     machine_step failing_parts (machine_new idle_core)"
proof -
  have "mc_stat (machine_new idle_core) = ST_READY" "mc_core (machine_new idle_core) = idle_core"
    by (simp_all add: machine_new_def set_speed_def)
  then show ?thesis
    using exception_traps_machine [of "machine_new idle_core" failing_parts idle_core UnsupportedInstruction "[Call_Play, Call_Timer [], Call_Step]"]
    by (simp add: failing_parts_def)
qed

theorem restart_effect_witness:
  "\<exists>m'. restart failing_parts (machine_new idle_core) = (m', Inr ()) \<and> read_pc (regs (mc_core (machine_new idle_core))) = 0x400 \<and>
     read_pc (regs (mc_core m')) = 0x200 \<and> control_state (mc_core m') = control_state idle_core"
proof -
  have c: "mc_core (machine_new idle_core) = idle_core" by (simp add: machine_new_def set_speed_def)
  have r: "regs idle_core = idle_registers"
    by (simp add: idle_core_def core_single_new_def resets_keep) (simp add: core_new_def)
  have "registers_inv (regs (mc_core (machine_new idle_core)))" by (simp add: c r idle_registers_def registers_inv_def REGISTER_COUNT_def)
  from restart_effect [OF this, of failing_parts] show ?thesis
    by (auto simp: failing_parts_def c r idle_registers_def read_pc_def PC_INIT_def)
qed

end
