(* ===== verification/Machine_Config.thy ===== *)
theory Machine_Config
  imports Tlb Predictor Core
begin

text \<open>
  The configuration of a machine (\<^verbatim>\<open>src/src/machine/machineconfig.cpp\<close>, \<^verbatim>\<open>config_isa.h\<close>): presets,
  setters and getters, and the settings it is stored in.  \<^verbatim>\<open>QSettings\<close> and \<^verbatim>\<open>QVariant\<close> are an
  interface: a record of operations, whose documented laws are a locale.
\<close>

section \<open>Settings\<close>

record ('s, 'v) settings_ops =
  st_value :: "'s \<Rightarrow> string \<Rightarrow> 'v option"
  st_set :: "'s \<Rightarrow> string \<Rightarrow> 'v \<Rightarrow> 's"
  of_bool_v :: "bool \<Rightarrow> 'v"
  of_uint_v :: "u64 \<Rightarrow> 'v"
  of_string_v :: "string \<Rightarrow> 'v"
  to_bool_v :: "'v \<Rightarrow> bool"
  to_uint_v :: "'v \<Rightarrow> u32"
  to_string_v :: "'v \<Rightarrow> string"

text \<open>\<^verbatim>\<open>value(key, default)\<close> and its conversions.\<close>

definition read_bool :: "('s, 'v) settings_ops \<Rightarrow> 's \<Rightarrow> string \<Rightarrow> bool \<Rightarrow> bool" where
  "read_bool ops s key d = to_bool_v ops (case st_value ops s key of Some v \<Rightarrow> v | None \<Rightarrow> of_bool_v ops d)"
definition read_uint :: "('s, 'v) settings_ops \<Rightarrow> 's \<Rightarrow> string \<Rightarrow> u64 \<Rightarrow> u32" where
  "read_uint ops s key d = to_uint_v ops (case st_value ops s key of Some v \<Rightarrow> v | None \<Rightarrow> of_uint_v ops d)"
definition read_string :: "('s, 'v) settings_ops \<Rightarrow> 's \<Rightarrow> string \<Rightarrow> string \<Rightarrow> string" where
  "read_string ops s key d = to_string_v ops (case st_value ops s key of Some v \<Rightarrow> v | None \<Rightarrow> of_string_v ops d)"

text \<open>A series of calls of \<^verbatim>\<open>setValue\<close>, the keys under a prefix.\<close>

definition set_values :: "('s, 'v) settings_ops \<Rightarrow> string \<Rightarrow> (string \<times> 'v) list \<Rightarrow> 's \<Rightarrow> 's" where
  "set_values ops prefix kvs s = foldl (\<lambda>s (k, v). st_set ops s (prefix @ k) v) s kvs"

section \<open>Enumerations as numbers\<close>

text \<open>
  The stored number of an enumeration is cast back without a test.  A number that is no value of the
  enumeration has no counterpart here: reading it gives \<open>None\<close>.
\<close>

definition index_of :: "'a list \<Rightarrow> 'a \<Rightarrow> u64" where
  "index_of xs x = of_nat (length (takeWhile (\<lambda>y. y \<noteq> x) xs))"

definition of_index :: "'a list \<Rightarrow> u32 \<Rightarrow> 'a option" where
  "of_index xs n = (if unat n < length xs then Some (xs ! unat n) else None)"

definition replacement_policies :: "ReplacementPolicy list" where
  "replacement_policies = [RP_RAND, RP_LRU, RP_LFU, RP_PLRU, RP_NMRU]"
definition write_policies :: "WritePolicy list" where
  "write_policies = [WP_THROUGH_NOALLOC, WP_THROUGH_ALLOC, WP_BACK]"
definition tlb_policies :: "TLBPolicyKind list" where
  "tlb_policies = [TPK_RAND, TPK_LRU, TPK_LFU, TPK_PLRU]"
definition hazard_units :: "HazardUnit list" where
  "hazard_units = [HU_NONE, HU_STALL, HU_STALL_FORWARD]"
definition predictor_types :: "PredictorType list" where
  "predictor_types = [ALWAYS_NOT_TAKEN, ALWAYS_TAKEN, BTFNT, SMITH_1_BIT, SMITH_2_BIT, SMITH_2_BIT_HYSTERESIS, PT_UNDEFINED]"
definition predictor_states :: "PredictorState list" where
  "predictor_states = [NOT_TAKEN, TAKEN, STRONGLY_NOT_TAKEN, WEAKLY_NOT_TAKEN, WEAKLY_TAKEN, STRONGLY_TAKEN, PS_UNDEFINED]"

lemmas enum_lists = replacement_policies_def write_policies_def tlb_policies_def hazard_units_def predictor_types_def predictor_states_def

section \<open>Cache and TLB configurations\<close>

definition cache_config_load :: "('s, 'v) settings_ops \<Rightarrow> 's \<Rightarrow> string \<Rightarrow> CacheConfig option" where
  "cache_config_load ops sts prefix =
     (case (of_index replacement_policies (read_uint ops sts (prefix @ ''Replacement'') (index_of replacement_policies RP_RAND)),
            of_index write_policies (read_uint ops sts (prefix @ ''Write'') (index_of write_policies WP_THROUGH_NOALLOC))) of
        (Some rp, Some wp) \<Rightarrow> Some
          \<lparr>cc_enabled = read_bool ops sts (prefix @ ''Enabled'') False,
           cc_set_count = unat (read_uint ops sts (prefix @ ''Sets'') 1),
           cc_block_size = unat (read_uint ops sts (prefix @ ''Blocks'') 1),
           cc_associativity = unat (read_uint ops sts (prefix @ ''Associativity'') 1),
           cc_replacement_policy = rp, cc_write_policy = wp\<rparr>
      | _ \<Rightarrow> None)"

definition cache_config_values :: "('s, 'v) settings_ops \<Rightarrow> CacheConfig \<Rightarrow> (string \<times> 'v) list" where
  "cache_config_values ops c =
     [(''Enabled'', of_bool_v ops (cc_enabled c)), (''Sets'', of_uint_v ops (of_nat (cc_set_count c))),
      (''Blocks'', of_uint_v ops (of_nat (cc_block_size c))), (''Associativity'', of_uint_v ops (of_nat (cc_associativity c))),
      (''Replacement'', of_uint_v ops (index_of replacement_policies (cc_replacement_policy c))),
      (''Write'', of_uint_v ops (index_of write_policies (cc_write_policy c)))]"

definition cache_config_store :: "('s, 'v) settings_ops \<Rightarrow> 's \<Rightarrow> string \<Rightarrow> CacheConfig \<Rightarrow> 's" where
  "cache_config_store ops sts prefix c = set_values ops prefix (cache_config_values ops c) sts"

definition cache_config_eq :: "CacheConfig \<Rightarrow> CacheConfig \<Rightarrow> bool" where
  "cache_config_eq a b = (cc_enabled a = cc_enabled b \<and> cc_set_count a = cc_set_count b \<and> cc_block_size a = cc_block_size b \<and>
     cc_associativity a = cc_associativity b \<and> cc_replacement_policy a = cc_replacement_policy b \<and> cc_write_policy a = cc_write_policy b)"

definition tlb_config_load :: "('s, 'v) settings_ops \<Rightarrow> 's \<Rightarrow> string \<Rightarrow> TLBConfig option" where
  "tlb_config_load ops sts prefix =
     (case of_index tlb_policies (read_uint ops sts (prefix @ ''Policy'') (index_of tlb_policies TPK_LRU)) of
        Some rp \<Rightarrow> Some
          \<lparr>tc_vm_asid = read_uint ops sts (prefix @ ''VM_ASID'') 0,
           tc_num_sets = unat (read_uint ops sts (prefix @ ''NumSets'') 16),
           tc_associativity = unat (read_uint ops sts (prefix @ ''Associativity'') 1),
           tc_replacement_policy = rp\<rparr>
      | None \<Rightarrow> None)"

definition tlb_config_values :: "('s, 'v) settings_ops \<Rightarrow> TLBConfig \<Rightarrow> (string \<times> 'v) list" where
  "tlb_config_values ops c =
     [(''VM_ASID'', of_uint_v ops (ucast (tc_vm_asid c))), (''NumSets'', of_uint_v ops (of_nat (tc_num_sets c))),
      (''Associativity'', of_uint_v ops (of_nat (tc_associativity c))),
      (''Policy'', of_uint_v ops (index_of tlb_policies (tc_replacement_policy c)))]"

definition tlb_config_store :: "('s, 'v) settings_ops \<Rightarrow> 's \<Rightarrow> string \<Rightarrow> TLBConfig \<Rightarrow> 's" where
  "tlb_config_store ops sts prefix c = set_values ops prefix (tlb_config_values ops c) sts"

section \<open>The machine's configuration\<close>

definition config_isa_word_default :: u64 where
  "config_isa_word_default = isa_by_char CHR ''E'' OR isa_by_char CHR ''I'' OR isa_by_char CHR ''A'' OR isa_by_char CHR ''M''"

definition config_isa_word_fixed :: u64 where
  "config_isa_word_fixed = isa_by_char CHR ''E'' OR isa_by_char CHR ''I''"

definition isa_modify :: "u64 \<Rightarrow> u64 \<Rightarrow> u64 \<Rightarrow> u64" where
  "isa_modify m val w = (let w = w AND (NOT m OR val) in w OR (m AND val))"

record MachineConfig =
  mf_pipeline :: bool
  mf_delayslot :: bool
  mf_hunit :: HazardUnit
  mf_exec_protect :: bool
  mf_write_protect :: bool
  mf_mem_acc_read :: u32
  mf_mem_acc_write :: u32
  mf_mem_acc_burst :: u32
  mf_mem_acc_level2 :: u32
  mf_mem_acc_enable_burst :: bool
  mf_osem_enable :: bool
  mf_osem_known_syscall_stop :: bool
  mf_osem_unknown_syscall_stop :: bool
  mf_osem_interrupt_stop :: bool
  mf_osem_exception_stop :: bool
  mf_res_at_compile :: bool
  mf_osem_fs_root :: string
  mf_elf_path :: string
  mf_cch_program :: CacheConfig
  mf_cch_data :: CacheConfig
  mf_cch_level2 :: CacheConfig
  mf_simulated_endian :: Endian
  mf_simulated_xlen :: Xlen
  mf_isa_word :: u64
  mf_bp_enabled :: bool
  mf_bp_type :: PredictorType
  mf_bp_init_state :: PredictorState
  mf_bp_btb_bits :: u8
  mf_bp_bhr_bits :: u8
  mf_bp_bht_addr_bits :: u8
  mf_bp_bht_bits :: u8
  mf_vm_enabled :: bool
  mf_tlb_program :: TLBConfig
  mf_tlb_data :: TLBConfig

definition machine_config_new :: MachineConfig where
  "machine_config_new = \<lparr>mf_pipeline = False, mf_delayslot = True, mf_hunit = HU_STALL_FORWARD, mf_exec_protect = False,
     mf_write_protect = False, mf_mem_acc_read = 10, mf_mem_acc_write = 10, mf_mem_acc_burst = 0, mf_mem_acc_level2 = 2,
     mf_mem_acc_enable_burst = False, mf_osem_enable = True, mf_osem_known_syscall_stop = True,
     mf_osem_unknown_syscall_stop = True, mf_osem_interrupt_stop = True, mf_osem_exception_stop = True,
     mf_res_at_compile = True, mf_osem_fs_root = [], mf_elf_path = [], mf_cch_program = default_cache_config,
     mf_cch_data = default_cache_config, mf_cch_level2 = default_cache_config, mf_simulated_endian = LITTLE,
     mf_simulated_xlen = XLEN_32, mf_isa_word = config_isa_word_default, mf_bp_enabled = False, mf_bp_type = SMITH_1_BIT,
     mf_bp_init_state = NOT_TAKEN, mf_bp_btb_bits = 2, mf_bp_bhr_bits = 0, mf_bp_bht_addr_bits = 2, mf_bp_bht_bits = 0 + 2,
     mf_vm_enabled = False, mf_tlb_program = default_tlb_config, mf_tlb_data = default_tlb_config\<rparr>"

subsection \<open>Setters\<close>

definition set_pipelined :: "bool \<Rightarrow> MachineConfig \<Rightarrow> MachineConfig" where
  "set_pipelined v c = c\<lparr>mf_pipeline := v\<rparr>"
definition set_delay_slot :: "bool \<Rightarrow> MachineConfig \<Rightarrow> MachineConfig" where
  "set_delay_slot v c = c\<lparr>mf_delayslot := v\<rparr>"
definition set_hazard_unit :: "HazardUnit \<Rightarrow> MachineConfig \<Rightarrow> MachineConfig" where
  "set_hazard_unit v c = c\<lparr>mf_hunit := v\<rparr>"
definition set_memory_execute_protection :: "bool \<Rightarrow> MachineConfig \<Rightarrow> MachineConfig" where
  "set_memory_execute_protection v c = c\<lparr>mf_exec_protect := v\<rparr>"
definition set_memory_write_protection :: "bool \<Rightarrow> MachineConfig \<Rightarrow> MachineConfig" where
  "set_memory_write_protection v c = c\<lparr>mf_write_protect := v\<rparr>"
definition set_memory_access_time_read :: "u32 \<Rightarrow> MachineConfig \<Rightarrow> MachineConfig" where
  "set_memory_access_time_read v c = c\<lparr>mf_mem_acc_read := v\<rparr>"
definition set_memory_access_time_write :: "u32 \<Rightarrow> MachineConfig \<Rightarrow> MachineConfig" where
  "set_memory_access_time_write v c = c\<lparr>mf_mem_acc_write := v\<rparr>"
definition set_memory_access_time_burst :: "u32 \<Rightarrow> MachineConfig \<Rightarrow> MachineConfig" where
  "set_memory_access_time_burst v c = c\<lparr>mf_mem_acc_burst := v\<rparr>"
definition set_memory_access_time_level2 :: "u32 \<Rightarrow> MachineConfig \<Rightarrow> MachineConfig" where
  "set_memory_access_time_level2 v c = c\<lparr>mf_mem_acc_level2 := v\<rparr>"
definition set_memory_access_enable_burst :: "bool \<Rightarrow> MachineConfig \<Rightarrow> MachineConfig" where
  "set_memory_access_enable_burst v c = c\<lparr>mf_mem_acc_enable_burst := v\<rparr>"
definition set_osemu_enable :: "bool \<Rightarrow> MachineConfig \<Rightarrow> MachineConfig" where
  "set_osemu_enable v c = c\<lparr>mf_osem_enable := v\<rparr>"
definition set_osemu_known_syscall_stop :: "bool \<Rightarrow> MachineConfig \<Rightarrow> MachineConfig" where
  "set_osemu_known_syscall_stop v c = c\<lparr>mf_osem_known_syscall_stop := v\<rparr>"
definition set_osemu_unknown_syscall_stop :: "bool \<Rightarrow> MachineConfig \<Rightarrow> MachineConfig" where
  "set_osemu_unknown_syscall_stop v c = c\<lparr>mf_osem_unknown_syscall_stop := v\<rparr>"
definition set_osemu_interrupt_stop :: "bool \<Rightarrow> MachineConfig \<Rightarrow> MachineConfig" where
  "set_osemu_interrupt_stop v c = c\<lparr>mf_osem_interrupt_stop := v\<rparr>"
definition set_osemu_exception_stop :: "bool \<Rightarrow> MachineConfig \<Rightarrow> MachineConfig" where
  "set_osemu_exception_stop v c = c\<lparr>mf_osem_exception_stop := v\<rparr>"
definition set_osemu_fs_root :: "string \<Rightarrow> MachineConfig \<Rightarrow> MachineConfig" where
  "set_osemu_fs_root v c = c\<lparr>mf_osem_fs_root := v\<rparr>"
definition set_reset_at_compile :: "bool \<Rightarrow> MachineConfig \<Rightarrow> MachineConfig" where
  "set_reset_at_compile v c = c\<lparr>mf_res_at_compile := v\<rparr>"
definition set_elf :: "string \<Rightarrow> MachineConfig \<Rightarrow> MachineConfig" where
  "set_elf v c = c\<lparr>mf_elf_path := v\<rparr>"
definition set_cache_program :: "CacheConfig \<Rightarrow> MachineConfig \<Rightarrow> MachineConfig" where
  "set_cache_program v c = c\<lparr>mf_cch_program := v\<rparr>"
definition set_cache_data :: "CacheConfig \<Rightarrow> MachineConfig \<Rightarrow> MachineConfig" where
  "set_cache_data v c = c\<lparr>mf_cch_data := v\<rparr>"
definition set_cache_level2 :: "CacheConfig \<Rightarrow> MachineConfig \<Rightarrow> MachineConfig" where
  "set_cache_level2 v c = c\<lparr>mf_cch_level2 := v\<rparr>"
definition set_simulated_endian :: "Endian \<Rightarrow> MachineConfig \<Rightarrow> MachineConfig" where
  "set_simulated_endian v c = c\<lparr>mf_simulated_endian := v\<rparr>"
definition set_simulated_xlen :: "Xlen \<Rightarrow> MachineConfig \<Rightarrow> MachineConfig" where
  "set_simulated_xlen v c = c\<lparr>mf_simulated_xlen := v\<rparr>"
definition set_bp_enabled :: "bool \<Rightarrow> MachineConfig \<Rightarrow> MachineConfig" where
  "set_bp_enabled v c = c\<lparr>mf_bp_enabled := v\<rparr>"
definition set_bp_type :: "PredictorType \<Rightarrow> MachineConfig \<Rightarrow> MachineConfig" where
  "set_bp_type v c = c\<lparr>mf_bp_type := v\<rparr>"
definition set_bp_init_state :: "PredictorState \<Rightarrow> MachineConfig \<Rightarrow> MachineConfig" where
  "set_bp_init_state v c = c\<lparr>mf_bp_init_state := v\<rparr>"
definition set_vm_enabled :: "bool \<Rightarrow> MachineConfig \<Rightarrow> MachineConfig" where
  "set_vm_enabled v c = c\<lparr>mf_vm_enabled := v\<rparr>"

definition hukind_map :: "(string \<times> HazardUnit) list" where
  "hukind_map = [(''none'', HU_NONE), (''stall'', HU_STALL), (''forward'', HU_STALL_FORWARD), (''stall-forward'', HU_STALL_FORWARD)]"

definition set_hazard_unit_kind :: "string \<Rightarrow> MachineConfig \<Rightarrow> MachineConfig \<times> bool" where
  "set_hazard_unit_kind hukind c = (case map_of hukind_map hukind of None \<Rightarrow> (c, False) | Some hu \<Rightarrow> (set_hazard_unit hu c, True))"

definition set_isa_word :: "u64 \<Rightarrow> MachineConfig \<Rightarrow> MachineConfig" where
  "set_isa_word bits c = c\<lparr>mf_isa_word := bits OR config_isa_word_fixed\<rparr>"
definition modify_isa_word :: "u64 \<Rightarrow> u64 \<Rightarrow> MachineConfig \<Rightarrow> MachineConfig" where
  "modify_isa_word m val c = (let m = m AND NOT config_isa_word_fixed in c\<lparr>mf_isa_word := isa_modify m val (mf_isa_word c)\<rparr>)"

definition set_bp_btb_bits :: "u8 \<Rightarrow> MachineConfig \<Rightarrow> MachineConfig" where
  "set_bp_btb_bits b c = c\<lparr>mf_bp_btb_bits := if b > BP_MAX_BTB_BITS then BP_MAX_BTB_BITS else b\<rparr>"

definition set_bp_bhr_bits :: "u8 \<Rightarrow> MachineConfig \<Rightarrow> MachineConfig" where
  "set_bp_bhr_bits b c =
     (let bhr = (if b > BP_MAX_BHR_BITS then BP_MAX_BHR_BITS else b);
          addr = (if mf_bp_bht_addr_bits c > BP_MAX_BHT_ADDR_BITS then BP_MAX_BHT_ADDR_BITS else mf_bp_bht_addr_bits c);
          bht = bhr + addr
      in c\<lparr>mf_bp_bhr_bits := bhr, mf_bp_bht_addr_bits := addr, mf_bp_bht_bits := if bht > BP_MAX_BHT_BITS then BP_MAX_BHT_BITS else bht\<rparr>)"

definition set_bp_bht_addr_bits :: "u8 \<Rightarrow> MachineConfig \<Rightarrow> MachineConfig" where
  "set_bp_bht_addr_bits b c =
     (let addr = (if b > BP_MAX_BHT_ADDR_BITS then BP_MAX_BHT_ADDR_BITS else b);
          bhr = (if mf_bp_bhr_bits c > BP_MAX_BHR_BITS then BP_MAX_BHR_BITS else mf_bp_bhr_bits c);
          bht = bhr + addr
      in c\<lparr>mf_bp_bht_addr_bits := addr, mf_bp_bhr_bits := bhr, mf_bp_bht_bits := if bht > BP_MAX_BHT_BITS then BP_MAX_BHT_BITS else bht\<rparr>)"

subsection \<open>Getters that compute\<close>

text \<open>All others return their field.\<close>

definition delay_slot :: "MachineConfig \<Rightarrow> bool" where
  "delay_slot c = (mf_pipeline c \<or> mf_delayslot c)"
definition hazard_unit :: "MachineConfig \<Rightarrow> HazardUnit" where
  "hazard_unit c = (if mf_pipeline c then mf_hunit c else HU_NONE)"
definition memory_access_time_read :: "MachineConfig \<Rightarrow> u32" where
  "memory_access_time_read c = (if mf_mem_acc_read c > 1 then mf_mem_acc_read c else 1)"
definition memory_access_time_write :: "MachineConfig \<Rightarrow> u32" where
  "memory_access_time_write c = (if mf_mem_acc_write c > 1 then mf_mem_acc_write c else 1)"

subsection \<open>Copy, settings, presets, comparison\<close>

definition machine_config_copy :: "MachineConfig \<Rightarrow> MachineConfig" where
  "machine_config_copy config = config\<lparr>mf_delayslot := delay_slot config, mf_hunit := hazard_unit config,
     mf_mem_acc_read := memory_access_time_read config, mf_mem_acc_write := memory_access_time_write config,
     mf_bp_bht_bits := mf_bp_bhr_bits config + mf_bp_bht_addr_bits config\<rparr>"

definition machine_config_load :: "('s, 'v) settings_ops \<Rightarrow> 's \<Rightarrow> string \<Rightarrow> MachineConfig option" where
  "machine_config_load ops sts prefix =
     (let rb = (\<lambda>k. read_bool ops sts (prefix @ k)); ru = (\<lambda>k. read_uint ops sts (prefix @ k)); rs = (\<lambda>k. read_string ops sts (prefix @ k));
          isa = ucast (ru ''IsaWord'' config_isa_word_default) :: u64;
          isa = isa OR (config_isa_word_default AND config_isa_word_fixed);
          isa = isa AND (config_isa_word_default OR NOT config_isa_word_fixed);
          bhr = ucast (ru ''BranchPredictor_BitsBHR'' 0) :: u8;
          addr = ucast (ru ''BranchPredictor_BitsBHTAddr'' 2) :: u8
      in case (of_index hazard_units (ru ''HazardUnit'' (index_of hazard_units HU_STALL_FORWARD)),
               cache_config_load ops sts (prefix @ ''ProgramCache_''), cache_config_load ops sts (prefix @ ''DataCache_''),
               cache_config_load ops sts (prefix @ ''Level2Cache_''),
               of_index predictor_types (ru ''BranchPredictor_Type'' (index_of predictor_types SMITH_1_BIT)),
               of_index predictor_states (ru ''BranchPredictor_InitState'' (index_of predictor_states NOT_TAKEN)),
               tlb_config_load ops sts (prefix @ ''DataTLB_''), tlb_config_load ops sts (prefix @ ''ProgramTLB_'')) of
           (Some hu, Some cp, Some cd, Some cl, Some pt, Some ps, Some td, Some tp) \<Rightarrow> Some
             \<lparr>mf_pipeline = rb ''Pipelined'' False, mf_delayslot = rb ''DelaySlot'' True, mf_hunit = hu,
              mf_exec_protect = rb ''MemoryExecuteProtection'' False, mf_write_protect = rb ''MemoryWriteProtection'' False,
              mf_mem_acc_read = ru ''MemoryRead'' 10, mf_mem_acc_write = ru ''MemoryWrite'' 10, mf_mem_acc_burst = ru ''MemoryBurst'' 0,
              mf_mem_acc_level2 = ru ''MemoryLevel2'' 2, mf_mem_acc_enable_burst = rb ''MemoryBurstEnable'' False,
              mf_osem_enable = rb ''OsemuEnable'' True, mf_osem_known_syscall_stop = rb ''OsemuKnownSyscallStop'' True,
              mf_osem_unknown_syscall_stop = rb ''OsemuUnknownSyscallStop'' True, mf_osem_interrupt_stop = rb ''OsemuInterruptStop'' True,
              mf_osem_exception_stop = rb ''OsemuExceptionStop'' True, mf_res_at_compile = rb ''ResetAtCompile'' True,
              mf_osem_fs_root = rs ''OsemuFilesystemRoot'' [], mf_elf_path = rs ''Elf'' [],
              mf_cch_program = cp, mf_cch_data = cd, mf_cch_level2 = cl, mf_simulated_endian = LITTLE,
              mf_simulated_xlen = (if ru ''XlenBits'' 32 = 64 then XLEN_64 else XLEN_32), mf_isa_word = isa,
              mf_bp_enabled = rb ''BranchPredictor_Enabled'' False, mf_bp_type = pt, mf_bp_init_state = ps,
              mf_bp_btb_bits = ucast (ru ''BranchPredictor_BitsBTB'' 2), mf_bp_bhr_bits = bhr, mf_bp_bht_addr_bits = addr,
              mf_bp_bht_bits = bhr + addr, mf_vm_enabled = rb ''VMEnabled'' False, mf_tlb_program = tp, mf_tlb_data = td\<rparr>
         | _ \<Rightarrow> None)"

definition prefixed :: "string \<Rightarrow> (string \<times> 'v) list \<Rightarrow> (string \<times> 'v) list" where
  "prefixed p kvs = map (\<lambda>(k, v). (p @ k, v)) kvs"

definition machine_config_values :: "('s, 'v) settings_ops \<Rightarrow> MachineConfig \<Rightarrow> (string \<times> 'v) list" where
  "machine_config_values ops c =
     [(''XlenBits'', of_uint_v ops (if mf_simulated_xlen c = XLEN_64 then 64 else 32)), (''IsaWord'', of_uint_v ops (mf_isa_word c)),
      (''Pipelined'', of_bool_v ops (mf_pipeline c)), (''DelaySlot'', of_bool_v ops (delay_slot c)),
      (''HazardUnit'', of_uint_v ops (index_of hazard_units (hazard_unit c))),
      (''MemoryRead'', of_uint_v ops (ucast (memory_access_time_read c))), (''MemoryWrite'', of_uint_v ops (ucast (memory_access_time_write c))),
      (''MemoryBurst'', of_uint_v ops (ucast (mf_mem_acc_burst c))), (''MemoryLevel2'', of_uint_v ops (ucast (mf_mem_acc_level2 c))),
      (''MemoryBurstEnable'', of_bool_v ops (mf_mem_acc_enable_burst c)), (''OsemuEnable'', of_bool_v ops (mf_osem_enable c)),
      (''OsemuKnownSyscallStop'', of_bool_v ops (mf_osem_known_syscall_stop c)),
      (''OsemuUnknownSyscallStop'', of_bool_v ops (mf_osem_unknown_syscall_stop c)),
      (''OsemuInterruptStop'', of_bool_v ops (mf_osem_interrupt_stop c)), (''OsemuExceptionStop'', of_bool_v ops (mf_osem_exception_stop c)),
      (''OsemuFilesystemRoot'', of_string_v ops (mf_osem_fs_root c)), (''ResetAtCompile'', of_bool_v ops (mf_res_at_compile c)),
      (''Elf'', of_string_v ops (mf_elf_path c))] @
     prefixed ''ProgramCache_'' (cache_config_values ops (mf_cch_program c)) @
     prefixed ''DataCache_'' (cache_config_values ops (mf_cch_data c)) @
     prefixed ''Level2Cache_'' (cache_config_values ops (mf_cch_level2 c)) @
     [(''BranchPredictor_Enabled'', of_bool_v ops (mf_bp_enabled c)),
      (''BranchPredictor_Type'', of_uint_v ops (index_of predictor_types (mf_bp_type c))),
      (''BranchPredictor_InitState'', of_uint_v ops (index_of predictor_states (mf_bp_init_state c))),
      (''BranchPredictor_BitsBTB'', of_uint_v ops (ucast (mf_bp_btb_bits c))),
      (''BranchPredictor_BitsBHR'', of_uint_v ops (ucast (mf_bp_bhr_bits c))),
      (''BranchPredictor_BitsBHTAddr'', of_uint_v ops (ucast (mf_bp_bht_addr_bits c))),
      (''VMEnabled'', of_bool_v ops (mf_vm_enabled c))] @
     prefixed ''ProgramTLB_'' (tlb_config_values ops (mf_tlb_program c)) @
     prefixed ''DataTLB_'' (tlb_config_values ops (mf_tlb_data c))"

definition machine_config_store :: "('s, 'v) settings_ops \<Rightarrow> 's \<Rightarrow> string \<Rightarrow> MachineConfig \<Rightarrow> 's" where
  "machine_config_store ops sts prefix c = set_values ops prefix (machine_config_values ops c) sts"

definition machine_config_preset :: "ConfigPresets \<Rightarrow> MachineConfig \<Rightarrow> MachineConfig" where
  "machine_config_preset p c =
     (let c = (case p of
             CP_SINGLE \<Rightarrow> set_delay_slot True (set_pipelined False c)
           | CP_SINGLE_CACHE \<Rightarrow> set_delay_slot True (set_pipelined False c)
           | CP_PIPE_NO_HAZARD \<Rightarrow> set_hazard_unit HU_NONE (set_pipelined True c)
           | CP_PIPE \<Rightarrow> set_hazard_unit HU_STALL_FORWARD (set_pipelined True c));
          c = set_memory_write_protection False (set_memory_execute_protection False c);
          c = set_memory_access_time_write 10 (set_memory_access_time_read 10 c);
          c = set_memory_access_enable_burst False (set_memory_access_time_level2 2 (set_memory_access_time_burst 0 c));
          c = set_bp_init_state NOT_TAKEN (set_bp_type SMITH_1_BIT (set_bp_enabled False c));
          c = set_bp_bht_addr_bits 2 (set_bp_bhr_bits 0 (set_bp_btb_bits 2 c));
          c = c\<lparr>mf_cch_program := cache_preset p (mf_cch_program c), mf_cch_data := cache_preset p (mf_cch_data c),
                mf_cch_level2 := cache_preset p (mf_cch_level2 c)\<rparr>;
          c = set_vm_enabled False c;
          c = c\<lparr>mf_tlb_program := tlb_preset p (mf_tlb_program c), mf_tlb_data := tlb_preset p (mf_tlb_data c)\<rparr>;
          c = set_isa_word config_isa_word_default (set_simulated_xlen XLEN_32 c)
      in c\<lparr>mf_cch_level2 := set_enabled False (mf_cch_level2 c)\<rparr>)"

definition machine_config_eq :: "MachineConfig \<Rightarrow> MachineConfig \<Rightarrow> bool" where
  "machine_config_eq a b = (mf_pipeline a = mf_pipeline b \<and> delay_slot a = delay_slot b \<and> hazard_unit a = hazard_unit b \<and>
     mf_simulated_xlen a = mf_simulated_xlen b \<and> mf_isa_word a = mf_isa_word b \<and> mf_bp_enabled a = mf_bp_enabled b \<and>
     mf_bp_type a = mf_bp_type b \<and> mf_bp_init_state a = mf_bp_init_state b \<and> mf_bp_btb_bits a = mf_bp_btb_bits b \<and>
     mf_bp_bhr_bits a = mf_bp_bhr_bits b \<and> mf_bp_bht_addr_bits a = mf_bp_bht_addr_bits b \<and>
     mf_exec_protect a = mf_exec_protect b \<and> mf_write_protect a = mf_write_protect b \<and>
     memory_access_time_read a = memory_access_time_read b \<and> memory_access_time_write a = memory_access_time_write b \<and>
     mf_mem_acc_burst a = mf_mem_acc_burst b \<and> mf_mem_acc_level2 a = mf_mem_acc_level2 b \<and>
     mf_mem_acc_enable_burst a = mf_mem_acc_enable_burst b \<and> mf_elf_path a = mf_elf_path b \<and>
     cache_config_eq (mf_cch_program a) (mf_cch_program b) \<and> cache_config_eq (mf_cch_data a) (mf_cch_data b) \<and>
     cache_config_eq (mf_cch_level2 a) (mf_cch_level2 b) \<and> mf_vm_enabled a = mf_vm_enabled b \<and>
     tlb_config_eq (mf_tlb_data a) (mf_tlb_data b) \<and> tlb_config_eq (mf_tlb_program a) (mf_tlb_program b))"

section \<open>The settings keep a configuration\<close>

text \<open>A stored enumeration is read back.\<close>

lemma index_of_round_trip:
  assumes "x \<in> set xs" "length xs < 2 ^ 32"
  shows "index_of xs x < 2 ^ 32" "of_index xs (ucast (index_of xs x)) = Some x"
proof -
  let ?n = "length (takeWhile (\<lambda>y. y \<noteq> x) xs)"
  have lt: "?n < length xs" using assms(1) by (induction xs) auto
  then have n: "?n < 2 ^ 32" using assms(2) by simp
  have u: "unat (of_nat ?n :: u64) = ?n" using n by (intro unat_of_nat_small) simp
  then show "index_of xs x < 2 ^ 32" using n by (simp add: index_of_def word_less_nat_alt)
  have "unat (ucast (of_nat ?n :: u64) :: u32) = ?n" using u n by (simp only: unsigned_ucast_eq) (simp add: take_bit_nat_eq_self)
  moreover have "xs ! ?n = x" using nth_length_takeWhile [OF lt] by simp
  ultimately show "of_index xs (ucast (index_of xs x)) = Some x" using lt by (simp add: of_index_def index_of_def)
qed

lemma enum_members:
  "rp \<in> set replacement_policies" "wp \<in> set write_policies" "tp \<in> set tlb_policies" "hu \<in> set hazard_units"
  "pt \<in> set predictor_types" "ps \<in> set predictor_states"
proof -
  show "rp \<in> set replacement_policies" by (cases rp) (simp_all add: enum_lists)
  show "wp \<in> set write_policies" by (cases wp) (simp_all add: enum_lists)
  show "tp \<in> set tlb_policies" by (cases tp) (simp_all add: enum_lists)
  show "hu \<in> set hazard_units" by (cases hu) (simp_all add: enum_lists)
  show "pt \<in> set predictor_types" by (cases pt) (simp_all add: enum_lists)
  show "ps \<in> set predictor_states" by (cases ps) (simp_all add: enum_lists)
qed

lemma enum_lengths:
  "length replacement_policies < 2 ^ 32" "length write_policies < 2 ^ 32" "length tlb_policies < 2 ^ 32"
  "length hazard_units < 2 ^ 32" "length predictor_types < 2 ^ 32" "length predictor_states < 2 ^ 32"
  by (simp_all add: enum_lists)

lemma ucast_ucast_32: "w < 2 ^ 32 \<Longrightarrow> (ucast (ucast w :: u32) :: u64) = w" for w :: u64
proof -
  assume "w < 2 ^ 32"
  then have "unat w < 2 ^ 32" by (simp add: word_less_nat_alt)
  then have "take_bit 32 (unat w) = unat w" by (simp add: take_bit_nat_eq_self)
  then have "unat (take_bit 32 w) = unat w" by (simp only: unsigned_take_bit_eq)
  then have "take_bit 32 w = w" by (simp only: word_unat_eq_iff)
  moreover have "(ucast (ucast w :: u32) :: u64) = take_bit 32 w" by (rule bit_word_eqI) (auto simp: bit_simps)
  ultimately show ?thesis by simp
qed

text \<open>The counts of the caches and TLBs fit their 32-bit types.\<close>

definition cache_config_fits :: "CacheConfig \<Rightarrow> bool" where
  "cache_config_fits c = (cc_set_count c < 2 ^ 32 \<and> cc_block_size c < 2 ^ 32 \<and> cc_associativity c < 2 ^ 32)"

definition tlb_config_fits :: "TLBConfig \<Rightarrow> bool" where
  "tlb_config_fits c = (tc_num_sets c < 2 ^ 32 \<and> tc_associativity c < 2 ^ 32)"

lemma machine_config_keys: "distinct (map fst (machine_config_values ops c))"
  by (simp add: machine_config_values_def cache_config_values_def tlb_config_values_def prefixed_def)

definition machine_config_fits :: "MachineConfig \<Rightarrow> bool" where
  "machine_config_fits c = (cache_config_fits (mf_cch_program c) \<and> cache_config_fits (mf_cch_data c) \<and> cache_config_fits (mf_cch_level2 c) \<and>
     tlb_config_fits (mf_tlb_program c) \<and> tlb_config_fits (mf_tlb_data c) \<and> mf_isa_word c < 2 ^ 32)"

text \<open>
  What comes back: the fields as their getters show them, the two protections from the settings as
  they were before, and the byte order little endian.
\<close>

definition stored_form :: "('s, 'v) settings_ops \<Rightarrow> 's \<Rightarrow> string \<Rightarrow> MachineConfig \<Rightarrow> MachineConfig" where
  "stored_form ops s prefix c = (machine_config_copy c)
     \<lparr>mf_exec_protect := read_bool ops s (prefix @ ''MemoryExecuteProtection'') False,
      mf_write_protect := read_bool ops s (prefix @ ''MemoryWriteProtection'') False,
      mf_simulated_endian := LITTLE, mf_isa_word := mf_isa_word c OR config_isa_word_fixed\<rparr>"

lemma isa_word_loaded:
  "(w OR (config_isa_word_default AND config_isa_word_fixed)) AND (config_isa_word_default OR NOT config_isa_word_fixed) = w OR config_isa_word_fixed"
proof -
  have "config_isa_word_default AND config_isa_word_fixed = config_isa_word_fixed" by code_simp
  moreover have "config_isa_word_default OR NOT config_isa_word_fixed = NOT 0" by code_simp
  ultimately show ?thesis by simp
qed

locale settings_store =
  fixes ops :: "('s, 'v) settings_ops"
  assumes value_set: "st_value ops (st_set ops s k v) k' = (if k' = k then Some v else st_value ops s k')"
    and bool_law: "to_bool_v ops (of_bool_v ops b) = b"
    and uint_law: "n < 2 ^ 32 \<Longrightarrow> to_uint_v ops (of_uint_v ops n) = ucast n"
    and string_law: "to_string_v ops (of_string_v ops t) = t"
begin

lemma value_set_values:
  assumes "distinct (map fst kvs)"
  shows "st_value ops (set_values ops prefix kvs s) (prefix @ k) =
    (case map_of kvs k of Some v \<Rightarrow> Some v | None \<Rightarrow> st_value ops s (prefix @ k))"
  using assms
proof (induction kvs arbitrary: s)
  case (Cons kv kvs)
  obtain k0 v0 where kv: "kv = (k0, v0)" by force
  have "map_of kvs k0 = None" using Cons.prems kv by (simp add: map_of_eq_None_iff)
  then show ?case using Cons kv by (auto simp: set_values_def value_set split: option.splits)
qed (simp add: set_values_def)

text \<open>A number of 32 bits, a count and an enumeration after they were stored.\<close>

lemma uint_u32: "to_uint_v ops (of_uint_v ops (ucast (w :: u32))) = w"
proof -
  have "unat w < 2 ^ LENGTH(32)" by (rule unsigned_less)
  then have "(ucast w :: u64) < 2 ^ 32" by (simp add: word_less_nat_alt unsigned_ucast_eq take_bit_nat_eq_self)
  moreover have "ucast (ucast w :: u64) = w" by (rule bit_word_eqI) (simp add: bit_simps)
  ultimately show ?thesis by (simp add: uint_law)
qed

lemma uint_u8: "to_uint_v ops (of_uint_v ops (ucast (w :: u8))) = ucast w"
proof -
  have "unat w < 2 ^ LENGTH(8)" by (rule unsigned_less)
  then have "(ucast w :: u64) < 2 ^ 32" by (simp add: word_less_nat_alt unsigned_ucast_eq take_bit_nat_eq_self)
  moreover have "ucast (ucast w :: u64) = (ucast w :: u32)" by (rule bit_word_eqI) (simp add: bit_simps)
  ultimately show ?thesis by (simp add: uint_law)
qed

lemma uint_count: "n < 2 ^ 32 \<Longrightarrow> unat (to_uint_v ops (of_uint_v ops (of_nat n))) = n"
proof -
  assume n: "n < 2 ^ 32"
  then have u: "unat (of_nat n :: u64) = n" by (intro unat_of_nat_small) simp
  then have "(of_nat n :: u64) < 2 ^ 32" using n by (simp add: word_less_nat_alt)
  then have "to_uint_v ops (of_uint_v ops (of_nat n)) = ucast (of_nat n :: u64)" by (rule uint_law)
  then show ?thesis using u n by (simp only: unsigned_ucast_eq) (simp add: take_bit_nat_eq_self)
qed

lemma uint_enum:
  assumes "x \<in> set xs" "length xs < 2 ^ 32"
  shows "of_index xs (to_uint_v ops (of_uint_v ops (index_of xs x))) = Some x"
  using index_of_round_trip [OF assms] by (simp add: uint_law)

lemmas stored_enums = uint_enum [OF enum_members(1) enum_lengths(1)] uint_enum [OF enum_members(2) enum_lengths(2)]
  uint_enum [OF enum_members(3) enum_lengths(3)] uint_enum [OF enum_members(4) enum_lengths(4)]
  uint_enum [OF enum_members(5) enum_lengths(5)] uint_enum [OF enum_members(6) enum_lengths(6)]

text \<open>Reading keys under a prefix that hold the values of a cache or a TLB.\<close>

lemma cache_config_loaded:
  assumes "\<And>k v. (k, v) \<in> set (cache_config_values ops c) \<Longrightarrow> st_value ops s (prefix @ k) = Some v" "cache_config_fits c"
  shows "cache_config_load ops s prefix = Some c"
proof -
  note v = assms(1) [unfolded cache_config_values_def]
  have "st_value ops s (prefix @ ''Enabled'') = Some (of_bool_v ops (cc_enabled c))"
    "st_value ops s (prefix @ ''Sets'') = Some (of_uint_v ops (of_nat (cc_set_count c)))"
    "st_value ops s (prefix @ ''Blocks'') = Some (of_uint_v ops (of_nat (cc_block_size c)))"
    "st_value ops s (prefix @ ''Associativity'') = Some (of_uint_v ops (of_nat (cc_associativity c)))"
    "st_value ops s (prefix @ ''Replacement'') = Some (of_uint_v ops (index_of replacement_policies (cc_replacement_policy c)))"
    "st_value ops s (prefix @ ''Write'') = Some (of_uint_v ops (index_of write_policies (cc_write_policy c)))"
    by (rule v; simp)+
  then show ?thesis using assms(2)
    by (simp add: cache_config_load_def read_bool_def read_uint_def bool_law uint_count stored_enums cache_config_fits_def)
qed

lemma tlb_config_loaded:
  assumes "\<And>k v. (k, v) \<in> set (tlb_config_values ops c) \<Longrightarrow> st_value ops s (prefix @ k) = Some v" "tlb_config_fits c"
  shows "tlb_config_load ops s prefix = Some c"
proof -
  note v = assms(1) [unfolded tlb_config_values_def]
  have "st_value ops s (prefix @ ''VM_ASID'') = Some (of_uint_v ops (ucast (tc_vm_asid c)))"
    "st_value ops s (prefix @ ''NumSets'') = Some (of_uint_v ops (of_nat (tc_num_sets c)))"
    "st_value ops s (prefix @ ''Associativity'') = Some (of_uint_v ops (of_nat (tc_associativity c)))"
    "st_value ops s (prefix @ ''Policy'') = Some (of_uint_v ops (index_of tlb_policies (tc_replacement_policy c)))"
    by (rule v; simp)+
  then show ?thesis using assms(2)
    by (simp add: tlb_config_load_def read_uint_def uint_u32 uint_count stored_enums tlb_config_fits_def)
qed

text \<open>Every value that was stored is found.\<close>

lemma stored_value:
  assumes "(k, v) \<in> set (machine_config_values ops c)"
  shows "st_value ops (machine_config_store ops s prefix c) (prefix @ k) = Some v"
  using value_set_values [OF machine_config_keys [of ops c], of prefix s k] map_of_is_SomeI [OF machine_config_keys [of ops c] assms]
  by (simp add: machine_config_store_def)

lemma stored_values:
  shows "st_value ops (machine_config_store ops s prefix c) (prefix @ ''XlenBits'') = Some (of_uint_v ops (if mf_simulated_xlen c = XLEN_64 then 64 else 32))"
    "st_value ops (machine_config_store ops s prefix c) (prefix @ ''IsaWord'') = Some (of_uint_v ops (mf_isa_word c))"
    "st_value ops (machine_config_store ops s prefix c) (prefix @ ''Pipelined'') = Some (of_bool_v ops (mf_pipeline c))"
    "st_value ops (machine_config_store ops s prefix c) (prefix @ ''DelaySlot'') = Some (of_bool_v ops (delay_slot c))"
    "st_value ops (machine_config_store ops s prefix c) (prefix @ ''HazardUnit'') = Some (of_uint_v ops (index_of hazard_units (hazard_unit c)))"
    "st_value ops (machine_config_store ops s prefix c) (prefix @ ''MemoryRead'') = Some (of_uint_v ops (ucast (memory_access_time_read c)))"
    "st_value ops (machine_config_store ops s prefix c) (prefix @ ''MemoryWrite'') = Some (of_uint_v ops (ucast (memory_access_time_write c)))"
    "st_value ops (machine_config_store ops s prefix c) (prefix @ ''MemoryBurst'') = Some (of_uint_v ops (ucast (mf_mem_acc_burst c)))"
    "st_value ops (machine_config_store ops s prefix c) (prefix @ ''MemoryLevel2'') = Some (of_uint_v ops (ucast (mf_mem_acc_level2 c)))"
    "st_value ops (machine_config_store ops s prefix c) (prefix @ ''MemoryBurstEnable'') = Some (of_bool_v ops (mf_mem_acc_enable_burst c))"
    "st_value ops (machine_config_store ops s prefix c) (prefix @ ''OsemuEnable'') = Some (of_bool_v ops (mf_osem_enable c))"
    "st_value ops (machine_config_store ops s prefix c) (prefix @ ''OsemuKnownSyscallStop'') = Some (of_bool_v ops (mf_osem_known_syscall_stop c))"
    "st_value ops (machine_config_store ops s prefix c) (prefix @ ''OsemuUnknownSyscallStop'') = Some (of_bool_v ops (mf_osem_unknown_syscall_stop c))"
    "st_value ops (machine_config_store ops s prefix c) (prefix @ ''OsemuInterruptStop'') = Some (of_bool_v ops (mf_osem_interrupt_stop c))"
    "st_value ops (machine_config_store ops s prefix c) (prefix @ ''OsemuExceptionStop'') = Some (of_bool_v ops (mf_osem_exception_stop c))"
    "st_value ops (machine_config_store ops s prefix c) (prefix @ ''OsemuFilesystemRoot'') = Some (of_string_v ops (mf_osem_fs_root c))"
    "st_value ops (machine_config_store ops s prefix c) (prefix @ ''ResetAtCompile'') = Some (of_bool_v ops (mf_res_at_compile c))"
    "st_value ops (machine_config_store ops s prefix c) (prefix @ ''Elf'') = Some (of_string_v ops (mf_elf_path c))"
    "st_value ops (machine_config_store ops s prefix c) (prefix @ ''BranchPredictor_Enabled'') = Some (of_bool_v ops (mf_bp_enabled c))"
    "st_value ops (machine_config_store ops s prefix c) (prefix @ ''BranchPredictor_Type'') = Some (of_uint_v ops (index_of predictor_types (mf_bp_type c)))"
    "st_value ops (machine_config_store ops s prefix c) (prefix @ ''BranchPredictor_InitState'') = Some (of_uint_v ops (index_of predictor_states (mf_bp_init_state c)))"
    "st_value ops (machine_config_store ops s prefix c) (prefix @ ''BranchPredictor_BitsBTB'') = Some (of_uint_v ops (ucast (mf_bp_btb_bits c)))"
    "st_value ops (machine_config_store ops s prefix c) (prefix @ ''BranchPredictor_BitsBHR'') = Some (of_uint_v ops (ucast (mf_bp_bhr_bits c)))"
    "st_value ops (machine_config_store ops s prefix c) (prefix @ ''BranchPredictor_BitsBHTAddr'') = Some (of_uint_v ops (ucast (mf_bp_bht_addr_bits c)))"
    "st_value ops (machine_config_store ops s prefix c) (prefix @ ''VMEnabled'') = Some (of_bool_v ops (mf_vm_enabled c))"
  by (rule stored_value; simp add: machine_config_values_def)+

lemma not_stored_values:
  "read_bool ops (machine_config_store ops s prefix c) (prefix @ ''MemoryExecuteProtection'') d = read_bool ops s (prefix @ ''MemoryExecuteProtection'') d"
  "read_bool ops (machine_config_store ops s prefix c) (prefix @ ''MemoryWriteProtection'') d = read_bool ops s (prefix @ ''MemoryWriteProtection'') d"
proof -
  have "map_of (machine_config_values ops c) ''MemoryExecuteProtection'' = None" "map_of (machine_config_values ops c) ''MemoryWriteProtection'' = None"
    by (simp_all add: machine_config_values_def cache_config_values_def tlb_config_values_def prefixed_def)
  then show "read_bool ops (machine_config_store ops s prefix c) (prefix @ ''MemoryExecuteProtection'') d = read_bool ops s (prefix @ ''MemoryExecuteProtection'') d"
    "read_bool ops (machine_config_store ops s prefix c) (prefix @ ''MemoryWriteProtection'') d = read_bool ops s (prefix @ ''MemoryWriteProtection'') d"
    using value_set_values [OF machine_config_keys [of ops c], of prefix s] by (simp_all add: read_bool_def machine_config_store_def)
qed

lemma stored_cache:
  assumes "set (prefixed p (cache_config_values ops cc)) \<subseteq> set (machine_config_values ops c)" "cache_config_fits cc"
  shows "cache_config_load ops (machine_config_store ops s prefix c) (prefix @ p) = Some cc"
proof (rule cache_config_loaded [OF _ assms(2)])
  fix k v assume "(k, v) \<in> set (cache_config_values ops cc)"
  then have "(p @ k, v) \<in> set (machine_config_values ops c)" using assms(1) by (force simp: prefixed_def)
  from stored_value [OF this] show "st_value ops (machine_config_store ops s prefix c) ((prefix @ p) @ k) = Some v" by simp
qed

lemma stored_tlb:
  assumes "set (prefixed p (tlb_config_values ops tc)) \<subseteq> set (machine_config_values ops c)" "tlb_config_fits tc"
  shows "tlb_config_load ops (machine_config_store ops s prefix c) (prefix @ p) = Some tc"
proof (rule tlb_config_loaded [OF _ assms(2)])
  fix k v assume "(k, v) \<in> set (tlb_config_values ops tc)"
  then have "(p @ k, v) \<in> set (machine_config_values ops c)" using assms(1) by (force simp: prefixed_def)
  from stored_value [OF this] show "st_value ops (machine_config_store ops s prefix c) ((prefix @ p) @ k) = Some v" by simp
qed

lemma stored_parts:
  assumes "machine_config_fits c"
  shows "cache_config_load ops (machine_config_store ops s prefix c) (prefix @ ''ProgramCache_'') = Some (mf_cch_program c)"
    "cache_config_load ops (machine_config_store ops s prefix c) (prefix @ ''DataCache_'') = Some (mf_cch_data c)"
    "cache_config_load ops (machine_config_store ops s prefix c) (prefix @ ''Level2Cache_'') = Some (mf_cch_level2 c)"
    "tlb_config_load ops (machine_config_store ops s prefix c) (prefix @ ''ProgramTLB_'') = Some (mf_tlb_program c)"
    "tlb_config_load ops (machine_config_store ops s prefix c) (prefix @ ''DataTLB_'') = Some (mf_tlb_data c)"
  using assms by (auto intro!: stored_cache stored_tlb simp: machine_config_fits_def machine_config_values_def)

lemma stored_reads:
  "read_bool ops (machine_config_store ops s prefix c) (prefix @ ''Pipelined'') d = (mf_pipeline c)"
  "read_bool ops (machine_config_store ops s prefix c) (prefix @ ''DelaySlot'') d = (delay_slot c)"
  "read_bool ops (machine_config_store ops s prefix c) (prefix @ ''MemoryBurstEnable'') d = (mf_mem_acc_enable_burst c)"
  "read_bool ops (machine_config_store ops s prefix c) (prefix @ ''OsemuEnable'') d = (mf_osem_enable c)"
  "read_bool ops (machine_config_store ops s prefix c) (prefix @ ''OsemuKnownSyscallStop'') d = (mf_osem_known_syscall_stop c)"
  "read_bool ops (machine_config_store ops s prefix c) (prefix @ ''OsemuUnknownSyscallStop'') d = (mf_osem_unknown_syscall_stop c)"
  "read_bool ops (machine_config_store ops s prefix c) (prefix @ ''OsemuInterruptStop'') d = (mf_osem_interrupt_stop c)"
  "read_bool ops (machine_config_store ops s prefix c) (prefix @ ''OsemuExceptionStop'') d = (mf_osem_exception_stop c)"
  "read_bool ops (machine_config_store ops s prefix c) (prefix @ ''ResetAtCompile'') d = (mf_res_at_compile c)"
  "read_bool ops (machine_config_store ops s prefix c) (prefix @ ''BranchPredictor_Enabled'') d = (mf_bp_enabled c)"
  "read_bool ops (machine_config_store ops s prefix c) (prefix @ ''VMEnabled'') d = (mf_vm_enabled c)"
  "read_string ops (machine_config_store ops s prefix c) (prefix @ ''OsemuFilesystemRoot'') t = mf_osem_fs_root c"
  "read_string ops (machine_config_store ops s prefix c) (prefix @ ''Elf'') t = mf_elf_path c"
  "read_uint ops (machine_config_store ops s prefix c) (prefix @ ''MemoryRead'') n = memory_access_time_read c"
  "read_uint ops (machine_config_store ops s prefix c) (prefix @ ''MemoryWrite'') n = memory_access_time_write c"
  "read_uint ops (machine_config_store ops s prefix c) (prefix @ ''MemoryBurst'') n = mf_mem_acc_burst c"
  "read_uint ops (machine_config_store ops s prefix c) (prefix @ ''MemoryLevel2'') n = mf_mem_acc_level2 c"
  "read_uint ops (machine_config_store ops s prefix c) (prefix @ ''BranchPredictor_BitsBTB'') n = ucast (mf_bp_btb_bits c)"
  "read_uint ops (machine_config_store ops s prefix c) (prefix @ ''BranchPredictor_BitsBHR'') n = ucast (mf_bp_bhr_bits c)"
  "read_uint ops (machine_config_store ops s prefix c) (prefix @ ''BranchPredictor_BitsBHTAddr'') n = ucast (mf_bp_bht_addr_bits c)"
  by (simp_all only: read_bool_def read_string_def read_uint_def stored_values option.case bool_law string_law uint_u32 uint_u8)

lemma stored_enum_reads:
  "of_index hazard_units (read_uint ops (machine_config_store ops s prefix c) (prefix @ ''HazardUnit'') n) = Some (hazard_unit c)"
  "of_index predictor_types (read_uint ops (machine_config_store ops s prefix c) (prefix @ ''BranchPredictor_Type'') n) = Some (mf_bp_type c)"
  "of_index predictor_states (read_uint ops (machine_config_store ops s prefix c) (prefix @ ''BranchPredictor_InitState'') n) = Some (mf_bp_init_state c)"
  by (simp_all only: read_uint_def stored_values option.case stored_enums)

lemma stored_xlen: "(if read_uint ops (machine_config_store ops s prefix c) (prefix @ ''XlenBits'') n = 64 then XLEN_64 else XLEN_32) = mf_simulated_xlen c"
proof -
  have "to_uint_v ops (of_uint_v ops 64) = 64" "to_uint_v ops (of_uint_v ops 32) = 32" by (simp_all add: uint_law)
  then show ?thesis by (cases "mf_simulated_xlen c") (simp_all only: read_uint_def stored_values option.case, simp_all)
qed

lemma stored_isa:
  assumes "mf_isa_word c < 2 ^ 32"
  shows "(ucast (read_uint ops (machine_config_store ops s prefix c) (prefix @ ''IsaWord'') n) :: u64) = mf_isa_word c"
  unfolding read_uint_def stored_values option.case uint_law [OF assms] by (rule ucast_ucast_32 [OF assms])

lemma store_load:
  assumes "machine_config_fits c"
  shows "machine_config_load ops (machine_config_store ops s prefix c) prefix = Some (stored_form ops s prefix c)"
proof -
  have isa: "mf_isa_word c < 2 ^ 32" using assms by (simp add: machine_config_fits_def)
  have b: "(ucast (ucast w :: u32) :: u8) = w" for w :: u8 by (rule bit_word_eqI) (simp add: bit_simps)
  show ?thesis
    unfolding machine_config_load_def Let_def stored_enum_reads stored_parts [OF assms] option.case prod.case
      stored_reads not_stored_values stored_isa [OF isa] isa_word_loaded stored_xlen b
    by (simp add: stored_form_def machine_config_copy_def)
qed

end

section \<open>Settings in memory\<close>

text \<open>The settings before they are written to a file: a map of values that keep their type.\<close>

datatype variant = V_Bool bool | V_UInt u64 | V_String string

definition map_settings :: "(string \<Rightarrow> variant option, variant) settings_ops" where
  "map_settings = \<lparr>st_value = (\<lambda>s k. s k), st_set = (\<lambda>s k v. s(k \<mapsto> v)), of_bool_v = V_Bool, of_uint_v = V_UInt, of_string_v = V_String,
     to_bool_v = (\<lambda>v. case v of V_Bool b \<Rightarrow> b | _ \<Rightarrow> False), to_uint_v = (\<lambda>v. case v of V_UInt n \<Rightarrow> ucast n | _ \<Rightarrow> 0),
     to_string_v = (\<lambda>v. case v of V_String t \<Rightarrow> t | _ \<Rightarrow> [])\<rparr>"

interpretation map_settings: settings_store map_settings
  by unfold_locales (simp_all add: map_settings_def)

section \<open>Bounds kept by the setters\<close>

definition cache_config_pos :: "CacheConfig \<Rightarrow> bool" where
  "cache_config_pos c = (0 < cc_set_count c \<and> 0 < cc_block_size c \<and> 0 < cc_associativity c)"

text \<open>What the constructors of caches and predictors need of a configuration.\<close>

definition config_ok :: "MachineConfig \<Rightarrow> bool" where
  "config_ok c = (cache_config_pos (mf_cch_program c) \<and> cache_config_pos (mf_cch_data c) \<and> cache_config_pos (mf_cch_level2 c) \<and>
     mf_bp_btb_bits c \<le> 8 \<and> mf_bp_bhr_bits c \<le> 8 \<and> mf_bp_bht_addr_bits c \<le> 8 \<and>
     mf_bp_bht_bits c = mf_bp_bhr_bits c + mf_bp_bht_addr_bits c \<and>
     mf_isa_word c AND config_isa_word_fixed = config_isa_word_fixed)"

lemma bht_bits_no_clamp: "a \<le> 8 \<Longrightarrow> b \<le> 8 \<Longrightarrow> \<not> (16 :: u8) < a + b"
proof -
  assume "a \<le> 8" "b \<le> 8"
  then have "unat a \<le> 8" "unat b \<le> 8" by (simp_all add: word_le_nat_alt)
  then show ?thesis by (simp add: word_less_nat_alt unat_word_ariths)
qed

lemma set_bp_bits_ok:
  "config_ok c \<Longrightarrow> config_ok (set_bp_btb_bits b c)" "config_ok c \<Longrightarrow> config_ok (set_bp_bhr_bits b c)"
  "config_ok c \<Longrightarrow> config_ok (set_bp_bht_addr_bits b c)"
  by (auto simp: config_ok_def set_bp_btb_bits_def set_bp_bhr_bits_def set_bp_bht_addr_bits_def bp_limits Let_def not_less bht_bits_no_clamp
    dest: bht_bits_no_clamp)

lemma isa_modify_fixed:
  assumes "w AND fixed = fixed"
  shows "isa_modify (m AND NOT fixed) val w AND fixed = (fixed :: u64)"
proof (rule bit_word_eqI)
  fix n assume "n < LENGTH(64)"
  have "bit w n" if "bit fixed n" using assms that by (metis bit_and_iff)
  then show "bit (isa_modify (m AND NOT fixed) val w AND fixed) n = bit fixed n" by (auto simp: isa_modify_def Let_def bit_simps)
qed

lemma set_isa_ok: "config_ok c \<Longrightarrow> config_ok (set_isa_word w c)" "config_ok c \<Longrightarrow> config_ok (modify_isa_word m w c)"
  using isa_modify_fixed [of "mf_isa_word c" config_isa_word_fixed m w]
  by (simp_all add: config_ok_def set_isa_word_def modify_isa_word_def Let_def)

text \<open>The setters of single fields that the bounds do not mention.\<close>

definition plain_setter :: "(MachineConfig \<Rightarrow> MachineConfig) \<Rightarrow> bool" where
  "plain_setter f = ((\<exists>v. f = set_pipelined v) \<or>
     (\<exists>v. f = set_delay_slot v) \<or>
     (\<exists>v. f = set_hazard_unit v) \<or>
     (\<exists>v. f = set_memory_execute_protection v) \<or>
     (\<exists>v. f = set_memory_write_protection v) \<or>
     (\<exists>v. f = set_memory_access_time_read v) \<or>
     (\<exists>v. f = set_memory_access_time_write v) \<or>
     (\<exists>v. f = set_memory_access_time_burst v) \<or>
     (\<exists>v. f = set_memory_access_time_level2 v) \<or>
     (\<exists>v. f = set_memory_access_enable_burst v) \<or>
     (\<exists>v. f = set_osemu_enable v) \<or>
     (\<exists>v. f = set_osemu_known_syscall_stop v) \<or>
     (\<exists>v. f = set_osemu_unknown_syscall_stop v) \<or>
     (\<exists>v. f = set_osemu_interrupt_stop v) \<or>
     (\<exists>v. f = set_osemu_exception_stop v) \<or>
     (\<exists>v. f = set_osemu_fs_root v) \<or>
     (\<exists>v. f = set_reset_at_compile v) \<or>
     (\<exists>v. f = set_elf v) \<or>
     (\<exists>v. f = set_simulated_endian v) \<or>
     (\<exists>v. f = set_simulated_xlen v) \<or>
     (\<exists>v. f = set_bp_enabled v) \<or>
     (\<exists>v. f = set_bp_type v) \<or>
     (\<exists>v. f = set_bp_init_state v) \<or>
     (\<exists>v. f = set_vm_enabled v))"

lemmas plain_setter_defs = set_pipelined_def
  set_delay_slot_def
  set_hazard_unit_def
  set_memory_execute_protection_def
  set_memory_write_protection_def
  set_memory_access_time_read_def
  set_memory_access_time_write_def
  set_memory_access_time_burst_def
  set_memory_access_time_level2_def
  set_memory_access_enable_burst_def
  set_osemu_enable_def
  set_osemu_known_syscall_stop_def
  set_osemu_unknown_syscall_stop_def
  set_osemu_interrupt_stop_def
  set_osemu_exception_stop_def
  set_osemu_fs_root_def
  set_reset_at_compile_def
  set_elf_def
  set_simulated_endian_def
  set_simulated_xlen_def
  set_bp_enabled_def
  set_bp_type_def
  set_bp_init_state_def
  set_vm_enabled_def

definition cache_setter :: "(CacheConfig \<Rightarrow> CacheConfig) \<Rightarrow> bool" where
  "cache_setter f = ((\<exists>v. f = set_enabled v) \<or> (\<exists>v. f = set_set_count v) \<or> (\<exists>v. f = set_block_size v) \<or> (\<exists>v. f = set_associativity v) \<or>
     (\<exists>v. f = set_replacement_policy v) \<or> (\<exists>v. f = set_write_policy v) \<or> (\<exists>p. f = cache_preset p))"

inductive config_reachable :: "MachineConfig \<Rightarrow> bool" where
  cr_new: "config_reachable machine_config_new"
| cr_copy: "config_reachable c \<Longrightarrow> config_reachable (machine_config_copy c)"
| cr_preset: "config_reachable c \<Longrightarrow> config_reachable (machine_config_preset p c)"
| cr_plain: "config_reachable c \<Longrightarrow> plain_setter f \<Longrightarrow> config_reachable (f c)"
| cr_kind: "config_reachable c \<Longrightarrow> config_reachable (fst (set_hazard_unit_kind k c))"
| cr_isa: "config_reachable c \<Longrightarrow> config_reachable (set_isa_word w c)"
| cr_modify: "config_reachable c \<Longrightarrow> config_reachable (modify_isa_word m w c)"
| cr_btb: "config_reachable c \<Longrightarrow> config_reachable (set_bp_btb_bits b c)"
| cr_bhr: "config_reachable c \<Longrightarrow> config_reachable (set_bp_bhr_bits b c)"
| cr_bht: "config_reachable c \<Longrightarrow> config_reachable (set_bp_bht_addr_bits b c)"
| cr_program: "config_reachable c \<Longrightarrow> cache_setter f \<Longrightarrow> config_reachable (c\<lparr>mf_cch_program := f (mf_cch_program c)\<rparr>)"
| cr_data: "config_reachable c \<Longrightarrow> cache_setter f \<Longrightarrow> config_reachable (c\<lparr>mf_cch_data := f (mf_cch_data c)\<rparr>)"
| cr_level2: "config_reachable c \<Longrightarrow> cache_setter f \<Longrightarrow> config_reachable (c\<lparr>mf_cch_level2 := f (mf_cch_level2 c)\<rparr>)"
| cr_set_program: "config_reachable c \<Longrightarrow> config_reachable d \<Longrightarrow> config_reachable (set_cache_program (mf_cch_program d) c)"
| cr_set_data: "config_reachable c \<Longrightarrow> config_reachable d \<Longrightarrow> config_reachable (set_cache_data (mf_cch_data d) c)"
| cr_set_level2: "config_reachable c \<Longrightarrow> config_reachable d \<Longrightarrow> config_reachable (set_cache_level2 (mf_cch_level2 d) c)"

lemma plain_setter_ok: "plain_setter f \<Longrightarrow> config_ok (f c) = config_ok c"
  by (auto simp: plain_setter_def config_ok_def plain_setter_defs)

lemma cache_preset_pos: "cache_config_pos c \<Longrightarrow> cache_config_pos (cache_preset p c)"
  by (cases p) (simp_all add: cache_config_pos_def set_enabled_def set_set_count_def set_block_size_def set_associativity_def
    set_replacement_policy_def set_write_policy_def)

lemma cache_setter_pos: "cache_setter f \<Longrightarrow> cache_config_pos c \<Longrightarrow> cache_config_pos (f c)"
  using cache_preset_pos [of c]
  by (auto simp: cache_setter_def cache_config_pos_def set_enabled_def set_set_count_def set_block_size_def set_associativity_def
    set_replacement_policy_def set_write_policy_def unat_gt_0 word_neq_0_conv)

lemma copy_ok: "config_ok c \<Longrightarrow> config_ok (machine_config_copy c)"
  by (simp add: config_ok_def machine_config_copy_def)

lemma preset_ok: "config_ok c \<Longrightarrow> config_ok (machine_config_preset p c)"
proof -
  assume c: "config_ok c"
  have level2: "config_ok d \<Longrightarrow> config_ok (d\<lparr>mf_cch_level2 := set_enabled v (mf_cch_level2 d)\<rparr>)" for d v
    by (simp add: config_ok_def cache_config_pos_def set_enabled_def)
  have tlbs: "config_ok d \<Longrightarrow> config_ok (d\<lparr>mf_tlb_program := a, mf_tlb_data := b\<rparr>)" for d a b by (simp add: config_ok_def)
  have caches: "config_ok d \<Longrightarrow> config_ok (d\<lparr>mf_cch_program := cache_preset p (mf_cch_program d), mf_cch_data := cache_preset p (mf_cch_data d),
      mf_cch_level2 := cache_preset p (mf_cch_level2 d)\<rparr>)" for d
    using cache_preset_pos by (simp add: config_ok_def del: cache_preset.simps)
  have plain: "config_ok (set_pipelined v d) = config_ok d" "config_ok (set_delay_slot v d) = config_ok d" "config_ok (set_hazard_unit hu d) = config_ok d"
    "config_ok (set_memory_write_protection v d) = config_ok d" "config_ok (set_memory_execute_protection v d) = config_ok d" "config_ok (set_memory_access_time_write n d) = config_ok d"
    "config_ok (set_memory_access_time_read n d) = config_ok d" "config_ok (set_memory_access_enable_burst v d) = config_ok d" "config_ok (set_memory_access_time_level2 n d) = config_ok d"
    "config_ok (set_memory_access_time_burst n d) = config_ok d" "config_ok (set_bp_init_state ps d) = config_ok d" "config_ok (set_bp_type pt d) = config_ok d"
    "config_ok (set_bp_enabled v d) = config_ok d" "config_ok (set_vm_enabled v d) = config_ok d" "config_ok (set_simulated_xlen x d) = config_ok d" for v hu n ps pt x d
    by (simp_all add: config_ok_def plain_setter_defs)
  note ok = plain [THEN iffD2] set_isa_ok set_bp_bits_ok
  show ?thesis unfolding machine_config_preset_def Let_def
    by (intro level2 ok tlbs caches) (cases p; simp add: plain c)
qed

lemma config_reachable_ok: "config_reachable c \<Longrightarrow> config_ok c"
proof (induction rule: config_reachable.induct)
  case cr_new
  have "config_isa_word_default AND config_isa_word_fixed = config_isa_word_fixed" by code_simp
  then show ?case by (simp add: machine_config_new_def config_ok_def default_cache_config_def cache_config_pos_def)
next
  case (cr_kind c k)
  then show ?case by (auto simp: set_hazard_unit_kind_def set_hazard_unit_def config_ok_def split: option.splits)
qed (simp_all add: copy_ok preset_ok plain_setter_ok set_isa_ok set_bp_bits_ok,
  simp_all add: config_ok_def cache_setter_pos set_cache_program_def set_cache_data_def set_cache_level2_def)

section \<open>Properties\<close>

lemma stored_form_getters:
  "delay_slot (stored_form ops s prefix c) = delay_slot c" "hazard_unit (stored_form ops s prefix c) = hazard_unit c"
  "memory_access_time_read (stored_form ops s prefix c) = memory_access_time_read c"
  "memory_access_time_write (stored_form ops s prefix c) = memory_access_time_write c"
  by (auto simp: stored_form_def machine_config_copy_def delay_slot_def hazard_unit_def memory_access_time_read_def memory_access_time_write_def)

text \<open>
  Claim C33: a configuration that was stored in any settings that keep their values is read back with
  every field as its getter shows it (a pipelined core has a delay slot, one without a pipeline no hazard unit, access times are at
  least 1, the width of the history table is the sum of its parts), with three exceptions: the two memory
  protections are not stored and come back as the settings had them before, and the simulated byte order is
  not stored either and comes back as little endian.  The comparison operator, which does not look at the byte
  order, finds the two equal exactly when the protections agree.
\<close>

theorem config_store_load:
  assumes "settings_store ops" "machine_config_fits c" "mf_isa_word c AND config_isa_word_fixed = config_isa_word_fixed"
  shows "\<exists>c'. machine_config_load ops (machine_config_store ops s prefix c) prefix = Some c' \<and>
    c' = c\<lparr>mf_delayslot := mf_pipeline c \<or> mf_delayslot c, mf_hunit := if mf_pipeline c then mf_hunit c else HU_NONE,
       mf_mem_acc_read := max 1 (mf_mem_acc_read c), mf_mem_acc_write := max 1 (mf_mem_acc_write c),
       mf_bp_bht_bits := mf_bp_bhr_bits c + mf_bp_bht_addr_bits c,
       mf_exec_protect := read_bool ops s (prefix @ ''MemoryExecuteProtection'') False,
       mf_write_protect := read_bool ops s (prefix @ ''MemoryWriteProtection'') False,
       mf_simulated_endian := LITTLE\<rparr> \<and>
    (machine_config_eq c' c \<longleftrightarrow>
      mf_exec_protect c = read_bool ops s (prefix @ ''MemoryExecuteProtection'') False \<and>
      mf_write_protect c = read_bool ops s (prefix @ ''MemoryWriteProtection'') False)"
proof (intro exI conjI)
  show "machine_config_load ops (machine_config_store ops s prefix c) prefix = Some (stored_form ops s prefix c)"
    by (rule settings_store.store_load [OF assms(1,2)])
  have "mf_isa_word c OR config_isa_word_fixed = mf_isa_word c"
  proof (rule bit_word_eqI)
    fix n assume "n < LENGTH(64)"
    show "bit (mf_isa_word c OR config_isa_word_fixed) n = bit (mf_isa_word c) n"
      using arg_cong [OF assms(3), of "\<lambda>w. bit w n"] by (auto simp: bit_simps)
  qed
  then show "stored_form ops s prefix c = c\<lparr>mf_delayslot := mf_pipeline c \<or> mf_delayslot c, mf_hunit := if mf_pipeline c then mf_hunit c else HU_NONE,
       mf_mem_acc_read := max 1 (mf_mem_acc_read c), mf_mem_acc_write := max 1 (mf_mem_acc_write c),
       mf_bp_bht_bits := mf_bp_bhr_bits c + mf_bp_bht_addr_bits c,
       mf_exec_protect := read_bool ops s (prefix @ ''MemoryExecuteProtection'') False,
       mf_write_protect := read_bool ops s (prefix @ ''MemoryWriteProtection'') False,
       mf_simulated_endian := LITTLE\<rparr>"
    and "machine_config_eq (stored_form ops s prefix c) c \<longleftrightarrow>
      mf_exec_protect c = read_bool ops s (prefix @ ''MemoryExecuteProtection'') False \<and>
      mf_write_protect c = read_bool ops s (prefix @ ''MemoryWriteProtection'') False"
    unfolding machine_config_eq_def stored_form_getters
    by (auto simp: stored_form_def machine_config_copy_def cache_config_eq_def tlb_config_eq_def delay_slot_def hazard_unit_def
        memory_access_time_read_def memory_access_time_write_def max_def not_less)
qed

definition protected_config :: MachineConfig where
  "protected_config = (set_memory_write_protection True machine_config_new)\<lparr>mf_simulated_endian := BIG\<rparr>"

theorem config_store_load_witness:
  "\<exists>c'. machine_config_load map_settings (machine_config_store map_settings (\<lambda>_. None) ''Core_'' protected_config) ''Core_'' = Some c' \<and>
     \<not> machine_config_eq c' protected_config \<and> mf_simulated_endian protected_config = BIG \<and> mf_simulated_endian c' = LITTLE \<and>
     mf_cch_data c' = mf_cch_data protected_config"
proof -
  have f: "machine_config_fits protected_config"
    by (simp add: machine_config_fits_def protected_config_def set_memory_write_protection_def machine_config_new_def cache_config_fits_def
      tlb_config_fits_def default_cache_config_def default_tlb_config_def) code_simp
  have i: "mf_isa_word protected_config AND config_isa_word_fixed = config_isa_word_fixed" by code_simp
  show ?thesis
    using config_store_load [OF map_settings.settings_store_axioms f i, of "\<lambda>_. None" "''Core_''"]
    by (auto simp: protected_config_def set_memory_write_protection_def read_bool_def map_settings_def machine_config_copy_def)
qed

text \<open>
  In every configuration that the constructor, the copy, the presets and the setters can make,
  the caches have at least one set, word and way, the tables of the branch predictor have at most 8
  bits each and the history and address bits add up, and the base instruction set is selected.
\<close>

theorem config_bounds:
  assumes "config_reachable c"
  shows "cache_config_pos (mf_cch_program c) \<and> cache_config_pos (mf_cch_data c) \<and> cache_config_pos (mf_cch_level2 c) \<and>
    mf_bp_btb_bits c \<le> 8 \<and> mf_bp_bhr_bits c \<le> 8 \<and> mf_bp_bht_addr_bits c \<le> 8 \<and>
    mf_bp_bht_bits c = mf_bp_bhr_bits c + mf_bp_bht_addr_bits c \<and> isa_contains (mf_isa_word c) CHR ''I''"
proof -
  have ok: "config_ok c" by (rule config_reachable_ok [OF assms])
  have "config_isa_word_fixed AND isa_by_char CHR ''I'' = isa_by_char CHR ''I''" "isa_by_char CHR ''I'' \<noteq> 0" by code_simp+
  then have "mf_isa_word c AND isa_by_char CHR ''I'' \<noteq> 0" using ok unfolding config_ok_def by (metis and.assoc)
  then show ?thesis using ok by (simp add: config_ok_def isa_contains_def)
qed

theorem config_bounds_witness:
  "mf_bp_bht_bits (set_bp_bhr_bits 200 machine_config_new) = 10 \<and> mf_bp_bhr_bits (set_bp_bhr_bits 200 machine_config_new) \<le> 8"
  using config_bounds [OF cr_bhr [OF cr_new], of 200] by (simp add: set_bp_bhr_bits_def machine_config_new_def bp_limits Let_def)

end
