(* ===== verification/Text_Utils.thy ===== *)
theory Text_Utils
  imports Machine_Prelude
begin

text \<open>
  Text as the assembler handles it.  A \<^verbatim>\<open>QString\<close> is a list of Latin-1 characters; the classes of
  characters and the methods on strings that the sources use, the readers of numbers of the C
  library (\<^verbatim>\<open>strtoll\<close>, \<^verbatim>\<open>strtoull\<close> and \<^verbatim>\<open>strtoul\<close> with base 0), the printers
  of numbers (\<^verbatim>\<open>QString::number\<close> and \<^verbatim>\<open>str::asHex\<close> of \<^verbatim>\<open>common/string_utils.h\<close>), and that a
  number that was printed is read back.
\<close>

section \<open>Characters\<close>

definition char_code :: "char \<Rightarrow> nat" where
  "char_code c = of_char c"

text \<open>\<^verbatim>\<open>QChar::isSpace\<close>, \<^verbatim>\<open>isDigit\<close>, \<^verbatim>\<open>isLetter\<close> and \<^verbatim>\<open>isLetterOrNumber\<close> by the Unicode classes of the
  first 256 characters, and \<^verbatim>\<open>isspace\<close> of the C library.\<close>

definition is_space :: "char \<Rightarrow> bool" where
  "is_space c = (let n = char_code c in n = 32 \<or> (9 \<le> n \<and> n \<le> 13) \<or> n = 0x85 \<or> n = 0xa0)"

definition c_isspace :: "char \<Rightarrow> bool" where
  "c_isspace c = (let n = char_code c in n = 32 \<or> (9 \<le> n \<and> n \<le> 13))"

definition is_digit :: "char \<Rightarrow> bool" where
  "is_digit c = (let n = char_code c in 48 \<le> n \<and> n \<le> 57)"

definition is_letter :: "char \<Rightarrow> bool" where
  "is_letter c = (let n = char_code c in (65 \<le> n \<and> n \<le> 90) \<or> (97 \<le> n \<and> n \<le> 122) \<or>
     n = 0xaa \<or> n = 0xb5 \<or> n = 0xba \<or> (0xc0 \<le> n \<and> n \<noteq> 0xd7 \<and> n \<noteq> 0xf7))"

definition is_letter_or_number :: "char \<Rightarrow> bool" where
  "is_letter_or_number c = (is_letter c \<or> is_digit c \<or>
     (let n = char_code c in n = 0xb2 \<or> n = 0xb3 \<or> n = 0xb9 \<or> (0xbc \<le> n \<and> n \<le> 0xbe)))"

definition to_lower_char :: "char \<Rightarrow> char" where
  "to_lower_char c = (let n = char_code c in
     if (65 \<le> n \<and> n \<le> 90) \<or> (0xc0 \<le> n \<and> n \<le> 0xde \<and> n \<noteq> 0xd7) then char_of (n + 32) else c)"

section \<open>Strings\<close>

definition to_lower :: "string \<Rightarrow> string" where
  "to_lower s = map to_lower_char s"

definition trimmed :: "string \<Rightarrow> string" where
  "trimmed s = rev (dropWhile is_space (rev (dropWhile is_space s)))"

text \<open>\<^verbatim>\<open>QString::simplified\<close> trims and replaces every inner run of white space by one space.\<close>

fun squeeze_spaces :: "string \<Rightarrow> string" where
  "squeeze_spaces [] = []"
| "squeeze_spaces [c] = (if is_space c then '' '' else [c])"
| "squeeze_spaces (c # d # s) =
     (if is_space c then (if is_space d then squeeze_spaces (d # s) else CHR '' '' # squeeze_spaces (d # s))
      else c # squeeze_spaces (d # s))"

definition simplified :: "string \<Rightarrow> string" where
  "simplified s = squeeze_spaces (trimmed s)"

definition starts_with :: "string \<Rightarrow> string \<Rightarrow> bool" where
  "starts_with s p = (take (length p) s = p)"

definition mid :: "string \<Rightarrow> nat \<Rightarrow> nat \<Rightarrow> string" where
  "mid s pos n = take n (drop pos s)"

text \<open>\<^verbatim>\<open>QString::split\<close> at a character, with empty parts kept.\<close>

fun split_at :: "char \<Rightarrow> string \<Rightarrow> string list" where
  "split_at x [] = [[]]"
| "split_at x (c # s) =
     (if c = x then [] # split_at x s
      else (case split_at x s of [] \<Rightarrow> [[c]] | p # ps \<Rightarrow> (c # p) # ps))"

section \<open>Numbers\<close>

definition digit_char :: "nat \<Rightarrow> char" where
  "digit_char d = (if d < 10 then char_of (48 + d) else char_of (87 + d))"

definition digit_value :: "char \<Rightarrow> nat option" where
  "digit_value c = (let n = char_code c in
     if 48 \<le> n \<and> n \<le> 57 then Some (n - 48)
     else if 97 \<le> n \<and> n \<le> 122 then Some (n - 87)
     else if 65 \<le> n \<and> n \<le> 90 then Some (n - 55) else None)"

definition is_digit_of :: "nat \<Rightarrow> char \<Rightarrow> bool" where
  "is_digit_of b c = (case digit_value c of None \<Rightarrow> False | Some d \<Rightarrow> d < b)"

function show_nat :: "nat \<Rightarrow> nat \<Rightarrow> string" where
  "show_nat b n = (if n < b \<or> b < 2 then [digit_char n] else show_nat b (n div b) @ [digit_char (n mod b)])"
  by pat_completeness auto
termination by (relation "measure snd") auto

declare show_nat.simps [simp del]

definition show_int :: "int \<Rightarrow> string" where
  "show_int i = (if i < 0 then CHR ''-'' # show_nat 10 (nat (- i)) else show_nat 10 (nat i))"

text \<open>\<^verbatim>\<open>str::asHex\<close>: the format \<^verbatim>\<open>%x\<close> reads an \<^verbatim>\<open>unsigned int\<close>.\<close>

definition asHex :: "int \<Rightarrow> string" where
  "asHex i = (if i < 0 then ''-0x'' @ show_nat 16 (unat (word_of_int (- i) :: u32))
              else ''0x'' @ show_nat 16 (unat (word_of_int i :: u32)))"

text \<open>The digits at the beginning of a string: their value and the characters taken.\<close>

fun read_digits :: "nat \<Rightarrow> string \<Rightarrow> nat \<Rightarrow> nat \<Rightarrow> nat \<times> nat" where
  "read_digits b [] acc k = (acc, k)"
| "read_digits b (c # s) acc k =
     (if is_digit_of b c then read_digits b s (acc * b + the (digit_value c)) (k + 1) else (acc, k))"

text \<open>The prefix that selects the base: the base and the length of the prefix.\<close>

definition number_base :: "string \<Rightarrow> nat \<times> nat" where
  "number_base s = (case s of
     z # x # h # _ \<Rightarrow> if z = CHR ''0'' \<and> (x = CHR ''x'' \<or> x = CHR ''X'') \<and> is_digit_of 16 h then (16, 2)
                    else if z = CHR ''0'' then (8, 0) else (10, 0)
   | z # _ \<Rightarrow> if z = CHR ''0'' then (8, 0) else (10, 0)
   | [] \<Rightarrow> (10, 0))"

definition read_unsigned :: "string \<Rightarrow> nat \<times> nat" where
  "read_unsigned s = (let (b, p) = number_base s; (v, k) = read_digits b (drop p s) 0 0 in
     if k = 0 then (0, 0) else (v, p + k))"

text \<open>
  A number as the C library reads it with base 0: white space, a sign, the digits.  The results
  are the sign, the magnitude and the number of characters taken, which is 0 when there is no
  number.
\<close>

definition scan_number :: "string \<Rightarrow> bool \<times> nat \<times> nat" where
  "scan_number s =
     (let w = length (takeWhile c_isspace s); t = drop w s;
          neg = (t \<noteq> [] \<and> hd t = CHR ''-'');
          g = (if t \<noteq> [] \<and> (hd t = CHR ''-'' \<or> hd t = CHR ''+'') then 1 else 0);
          (v, k) = read_unsigned (drop g t) in
      if k = 0 then (False, 0, 0) else (neg, v, w + g + k))"

text \<open>Out of range, \<^verbatim>\<open>strtoll\<close> and \<^verbatim>\<open>strtoull\<close> return the nearest limit, the largest value.\<close>

definition strtoll :: "string \<Rightarrow> u64 \<times> nat" where
  "strtoll s = (let (neg, v, k) = scan_number s; i = (if neg then - int v else int v) in
     (word_of_int (max (- (2 ^ 63)) (min (2 ^ 63 - 1) i)), k))"

definition strtoull :: "string \<Rightarrow> u64 \<times> nat" where
  "strtoull s = (let (neg, v, k) = scan_number s in
     (if 2 ^ 64 \<le> int v then - 1 else if neg then - of_nat v else of_nat v, k))"

section \<open>Lemmas\<close>

lemma char_code_char_of [simp]: "n < 256 \<Longrightarrow> char_code (char_of n) = n"
  by (simp add: char_code_def)

lemma char_code_lt [simp]: "char_code c < 256"
  by (simp add: char_code_def)

lemma char_code_eq_iff: "char_code c = char_code d \<longleftrightarrow> c = d"
  by (simp add: char_code_def)

lemma char_code_digit: "d < 36 \<Longrightarrow> char_code (digit_char d) = (if d < 10 then 48 + d else 87 + d)"
  by (simp add: digit_char_def)

lemma digit_value_char [simp]: "d < 36 \<Longrightarrow> digit_value (digit_char d) = Some d"
  by (auto simp: digit_value_def char_code_digit)

lemma digit_char_of: "d < b \<Longrightarrow> b \<le> 36 \<Longrightarrow> is_digit_of b (digit_char d)"
  by (simp add: is_digit_of_def)

lemma show_nat_nonempty [simp]: "show_nat b n \<noteq> []"
  by (subst show_nat.simps) simp

lemma read_digits_stop:
  "(s = [] \<or> \<not> is_digit_of b (hd s)) \<Longrightarrow> read_digits b s acc k = (acc, k)"
  by (cases s) simp_all

text \<open>The digits of a printed number are read to its value, whatever follows them.\<close>

lemma read_show_nat:
  assumes "2 \<le> b" "b \<le> 36"
  shows "read_digits b (show_nat b n @ s) acc k =
    read_digits b s (acc * b ^ length (show_nat b n) + n) (k + length (show_nat b n))"
  using assms
proof (induction n arbitrary: s acc k rule: less_induct)
  case (less n)
  show ?case
  proof (cases "n < b")
    case True
    then show ?thesis using less.prems by (simp add: show_nat.simps [of b n] digit_char_of)
  next
    case False
    with less.prems have d: "n div b < n" by simp
    have m: "n mod b < b" using less.prems by simp
    have dig: "digit_value (digit_char (n mod b)) = Some (n mod b)"
      using m less.prems by (intro digit_value_char) linarith
    have acc: "(acc * b ^ l + n div b) * b + n mod b = acc * b ^ Suc l + n" for l
      using div_mult_mod_eq [of n b] by (simp add: add_mult_distrib)
    show ?thesis
      using False less.prems m
      by (simp add: show_nat.simps [of b n] less.IH [OF d] digit_char_of dig acc del: power_Suc)
  qed
qed

lemma show_nat_digits: "2 \<le> b \<Longrightarrow> b \<le> 36 \<Longrightarrow> c \<in> set (show_nat b n) \<Longrightarrow> is_digit_of b c"
proof (induction n rule: less_induct)
  case (less n)
  show ?case
  proof (cases "n < b")
    case True
    then show ?thesis using less.prems by (simp add: show_nat.simps [of b n] digit_char_of)
  next
    case False
    then have "c \<in> set (show_nat b (n div b)) \<or> c = digit_char (n mod b)"
      using less.prems by (auto simp: show_nat.simps [of b n])
    then show ?thesis using less.prems False less.IH [of "n div b"] by (auto simp: digit_char_of)
  qed
qed

lemma show_nat_hd: "2 \<le> b \<Longrightarrow> b \<le> 36 \<Longrightarrow> is_digit_of b (hd (show_nat b n))"
  by (rule show_nat_digits [of b _ n]) simp_all

text \<open>A decimal number has no leading zero.\<close>

lemma show_nat_hd_pos: "0 < n \<Longrightarrow> 2 \<le> b \<Longrightarrow> b \<le> 36 \<Longrightarrow> hd (show_nat b n) \<noteq> CHR ''0''"
proof (induction n rule: less_induct)
  case (less n)
  show ?case
  proof (cases "n < b")
    case True
    have "char_code (digit_char n) \<noteq> char_code CHR ''0''"
      using True less.prems by (simp add: char_code_digit) (simp add: char_code_def)
    then show ?thesis using True by (auto simp: show_nat.simps [of b n])
  next
    case False
    then have "0 < n div b" "n div b < n" using less.prems by (auto simp: div_greater_zero_iff)
    then have "hd (show_nat b (n div b)) \<noteq> CHR ''0''" using less.IH less.prems by blast
    then show ?thesis using False less.prems by (simp add: show_nat.simps [of b n])
  qed
qed

lemma show_nat_0: "2 \<le> b \<Longrightarrow> show_nat b 0 = ''0''"
  by (simp add: show_nat.simps [of b 0]) code_simp

lemma is_digit_of_cases: "is_digit_of b c \<Longrightarrow> b \<le> 10 \<Longrightarrow> 48 \<le> char_code c \<and> char_code c \<le> 57"
  by (auto simp: is_digit_of_def digit_value_def Let_def split: if_splits)

lemma is_digit_of_mono: "is_digit_of b c \<Longrightarrow> b \<le> b' \<Longrightarrow> is_digit_of b' c"
  by (auto simp: is_digit_of_def split: option.splits)

text \<open>What may follow a number: no character that continues it.\<close>

definition ends_number :: "string \<Rightarrow> bool" where
  "ends_number s = (s = [] \<or> \<not> is_letter_or_number (hd s))"

lemma ends_number_digit: "ends_number s \<Longrightarrow> s = [] \<or> \<not> is_digit_of b (hd s)"
  by (auto simp: ends_number_def is_digit_of_def is_letter_or_number_def is_letter_def is_digit_def
      digit_value_def Let_def split: option.splits if_splits)

lemma ends_number_simps [simp]: "ends_number []" "ends_number (c # s) = (\<not> is_letter_or_number c)"
  by (simp_all add: ends_number_def)

lemma number_base_dec:
  assumes "s \<noteq> []" "hd s \<noteq> CHR ''0''"
  shows "number_base s = (10, 0)"
  using assms by (auto simp: number_base_def split: list.splits)

lemma read_unsigned_dec:
  assumes "ends_number s"
  shows "read_unsigned (show_nat 10 n @ s) = (n, length (show_nat 10 n))"
proof (cases "n = 0")
  case True
  have "number_base (CHR ''0'' # s) = (8, 0)"
    using assms by (auto simp: number_base_def is_letter_or_number_def is_letter_def char_code_def split: list.splits)
  then show ?thesis using True ends_number_digit [OF assms, of 8]
    by (auto simp: read_unsigned_def show_nat_0 is_digit_of_def digit_value_def char_code_def read_digits_stop)
next
  case False
  have "number_base (show_nat 10 n @ s) = (10, 0)"
    using False show_nat_hd_pos [of n 10] by (intro number_base_dec) simp_all
  then show ?thesis using ends_number_digit [OF assms, of 10]
    by (simp add: read_unsigned_def read_show_nat read_digits_stop)
qed

lemma read_unsigned_hex:
  assumes "ends_number s"
  shows "read_unsigned (''0x'' @ show_nat 16 n @ s) = (n, 2 + length (show_nat 16 n))"
proof -
  obtain h t where ht: "show_nat 16 n = h # t" by (cases "show_nat 16 n") simp_all
  have "is_digit_of 16 h" using show_nat_hd [of 16 n] ht by simp
  then have "number_base (''0x'' @ show_nat 16 n @ s) = (16, 2)" by (simp add: number_base_def ht)
  then show ?thesis using ends_number_digit [OF assms, of 16]
    by (simp add: read_unsigned_def read_show_nat read_digits_stop)
qed

lemma scan_number_unsigned:
  assumes "read_unsigned s = (v, k)" "0 < k" "s \<noteq> []" "is_digit_of 10 (hd s)"
  shows "scan_number s = (False, v, k)" "scan_number (CHR ''-'' # s) = (True, v, Suc k)"
proof -
  have "48 \<le> char_code (hd s) \<and> char_code (hd s) \<le> 57" using assms(4) by (rule is_digit_of_cases) simp
  then have h: "\<not> c_isspace (hd s)" "hd s \<noteq> CHR ''-''" "hd s \<noteq> CHR ''+''"
    by (auto simp: c_isspace_def char_code_def)
  then have "takeWhile c_isspace s = []" using assms(3) by (cases s) simp_all
  with h assms show "scan_number s = (False, v, k)" by (simp add: scan_number_def Let_def)
  have "\<not> c_isspace CHR ''-''" by (simp add: c_isspace_def char_code_def)
  with assms show "scan_number (CHR ''-'' # s) = (True, v, Suc k)" by (simp add: scan_number_def Let_def)
qed

text \<open>What the printers print, the readers read.\<close>

lemma scan_show_int:
  assumes "ends_number s"
  shows "scan_number (show_int i @ s) = (i < 0, nat \<bar>i\<bar>, length (show_int i))"
proof -
  have d: "is_digit_of 10 (hd (show_nat 10 n @ s))" for n using show_nat_hd [of 10 n] by simp
  note r = scan_number_unsigned [OF read_unsigned_dec [OF assms] _ _ d]
  show ?thesis using r(1) [of "nat i"] r(2) [of "nat (- i)"] by (simp add: show_int_def)
qed

lemma scan_asHex:
  assumes "ends_number s" "0 \<le> i" "i < 2 ^ 32"
  shows "scan_number (asHex i @ s) = (False, nat i, length (asHex i))"
proof -
  have d: "is_digit_of 10 (hd (''0x'' @ show_nat 16 n @ s))" for n
    by (simp add: is_digit_of_def digit_value_def char_code_def)
  have "unat (word_of_int i :: u32) = nat i"
    using assms by (simp add: unsigned_of_int take_bit_int_eq_self)
  then show ?thesis
    using scan_number_unsigned(1) [OF read_unsigned_hex [OF assms(1)] _ _ d] assms(2) by (simp add: asHex_def)
qed

lemma strtoll_show_int:
  assumes "ends_number s" "- (2 ^ 63) \<le> i" "i < 2 ^ 63"
  shows "strtoll (show_int i @ s) = (word_of_int i, length (show_int i))"
  using assms by (simp add: strtoll_def scan_show_int)

lemma strtoll_asHex:
  assumes "ends_number s" "0 \<le> i" "i < 2 ^ 32"
  shows "strtoll (asHex i @ s) = (word_of_int i, length (asHex i))"
  using assms by (simp add: strtoll_def scan_asHex)

lemma strtoull_asHex:
  assumes "ends_number s" "0 \<le> i" "i < 2 ^ 32"
  shows "strtoull (asHex i @ s) = (word_of_int i, length (asHex i))"
proof -
  have "of_nat (nat i) = (word_of_int i :: u64)"
    using assms(2) by (metis int_nat_eq of_int_of_nat_eq)
  moreover have "nat i < 2 ^ 64" using assms(3) by (simp add: nat_less_iff)
  ultimately show ?thesis using assms by (simp add: strtoull_def scan_asHex)
qed

end
