(* ===== verification/Fix_Math_Eval.thy ===== *)
theory Fix_Math_Eval
  imports Text_Utils BitField Alu
begin

text \<open>
  The expressions of the assembler (\<^verbatim>\<open>src/src/assembler/fixmatheval.cpp\<close>): the tree of nodes, the
  parser that grows it character by character, and the evaluation at 64 bits.  The parser has no
  grammar: an operator is inserted on the right spine of the tree by its priority, and a
  bracket raises the priorities inside it by 100.  It is correct with respect to a grammar with
  precedence and left associativity: an expression printed with the brackets it needs is parsed
  to a tree with its value.

  \<^verbatim>\<open>QString::toLongLong\<close> is the argument \<open>toll\<close> of the parser.  The text of the error messages is
  not modelled, only their kind and argument.
\<close>

section \<open>Nodes\<close>

type_synonym FmeValue = u64

text \<open>The function pointers of the nodes, by the operator that selects them.\<close>

datatype unary_op = OpHi | OpLo | OpPcrelHi | OpPcrelLo | OpNot | OpNeg

datatype binary_op = OpSub | OpAdd | OpMul | OpDiv | OpOr | OpAnd | OpXor

text \<open>A null pointer is None; an expression (\<^verbatim>\<open>FmeExpression\<close>) is the pointer to its root.\<close>

datatype FmeNode =
    FmeNodeConstant FmeValue
  | FmeNodeSymbol string
  | FmeNodeUnaryOp int unary_op "FmeNode option"
  | FmeNodeBinaryOp int binary_op "FmeNode option" "FmeNode option"

definition INT_MAX :: int where "INT_MAX = 2147483647"

fun fme_priority :: "FmeNode \<Rightarrow> int" where
  "fme_priority (FmeNodeConstant _) = INT_MAX"
| "fme_priority (FmeNodeSymbol _) = INT_MAX"
| "fme_priority (FmeNodeUnaryOp p _ _) = p"
| "fme_priority (FmeNodeBinaryOp p _ _ _) = p"

text \<open>
  \<open>insert_last\<close> is \<^verbatim>\<open>find_last_child()->insert(node)\<close>: the last child of the right spine takes the new
  node as its operand; a constant or a symbol has none and refuses (None).
\<close>

fun insert_last :: "FmeNode option \<Rightarrow> FmeNode \<Rightarrow> FmeNode option" where
  "insert_last None node = Some node"
| "insert_last (Some (FmeNodeConstant v)) node = None"
| "insert_last (Some (FmeNodeSymbol n)) node = None"
| "insert_last (Some (FmeNodeUnaryOp p f a)) node =
     map_option (\<lambda>x. FmeNodeUnaryOp p f (Some x)) (insert_last a node)"
| "insert_last (Some (FmeNodeBinaryOp p f a b)) node =
     map_option (\<lambda>x. FmeNodeBinaryOp p f a (Some x)) (insert_last b node)"

text \<open>
  The loop of the parser that looks for the place of an operator: it goes down the right spine to
  the first child with at least the operator's priority; the new node, made from that child,
  replaces it.
\<close>

fun insert_op :: "FmeNode option \<Rightarrow> int \<Rightarrow> (FmeNode option \<Rightarrow> FmeNode) \<Rightarrow> FmeNode option" where
  "insert_op None prio mk = Some (mk None)"
| "insert_op (Some (FmeNodeConstant v)) prio mk =
     (if INT_MAX \<ge> prio then Some (mk (Some (FmeNodeConstant v))) else None)"
| "insert_op (Some (FmeNodeSymbol n)) prio mk =
     (if INT_MAX \<ge> prio then Some (mk (Some (FmeNodeSymbol n))) else None)"
| "insert_op (Some (FmeNodeUnaryOp p f a)) prio mk =
     (if p \<ge> prio then Some (mk (Some (FmeNodeUnaryOp p f a)))
      else map_option (\<lambda>x. FmeNodeUnaryOp p f (Some x)) (insert_op a prio mk))"
| "insert_op (Some (FmeNodeBinaryOp p f a b)) prio mk =
     (if p \<ge> prio then Some (mk (Some (FmeNodeBinaryOp p f a b)))
      else map_option (\<lambda>x. FmeNodeBinaryOp p f a (Some x)) (insert_op b prio mk))"

section \<open>Evaluation\<close>

definition unary_apply :: "unary_op \<Rightarrow> address \<Rightarrow> FmeValue \<Rightarrow> FmeValue" where
  "unary_apply f inst_addr a = (case f of
     OpHi \<Rightarrow> get_bits (a + 0x800) 31 12
   | OpLo \<Rightarrow> sign_extend (get_bits a 11 0) 12
   | OpPcrelHi \<Rightarrow> get_bits (a - inst_addr) 31 12 + get_bit (a - inst_addr) 11
   | OpPcrelLo \<Rightarrow> sign_extend (get_bits (a - inst_addr + 4) 11 0) 12
   | OpNot \<Rightarrow> NOT a
   | OpNeg \<Rightarrow> - a)"

text \<open>
  The errors of an evaluation.  \<open>UndefinedDivision\<close> is no error of the code: a division by zero, and the
  division of the least value by -1, have no defined result in C++ and stop the process.
\<close>

datatype eval_error = MissingOperand | NoSymbolTable string | SymbolNotFound string | UndefinedDivision

definition binary_apply :: "binary_op \<Rightarrow> FmeValue \<Rightarrow> FmeValue \<Rightarrow> eval_error + FmeValue" where
  "binary_apply f a b = (case f of
     OpSub \<Rightarrow> Inr (a - b)
   | OpAdd \<Rightarrow> Inr (a + b)
   | OpMul \<Rightarrow> Inr (a * b)
   | OpDiv \<Rightarrow> if b = 0 \<or> (a = push_bit 63 1 \<and> b = - 1) then Inl UndefinedDivision
             else Inr (word_of_int (sint a sdiv sint b))
   | OpOr \<Rightarrow> Inr (a OR b)
   | OpAnd \<Rightarrow> Inr (a AND b)
   | OpXor \<Rightarrow> Inr (a XOR b))"

text \<open>A symbol table is a function from names; the pointer to it may be null.\<close>

type_synonym FmeSymbolDb = "(string \<Rightarrow> FmeValue option) option"

definition symbol_value :: "FmeSymbolDb \<Rightarrow> string \<Rightarrow> eval_error + FmeValue" where
  "symbol_value symdb name = (case symdb of
     None \<Rightarrow> Inl (NoSymbolTable name)
   | Some db \<Rightarrow> (case db name of None \<Rightarrow> Inl (SymbolNotFound name) | Some v \<Rightarrow> Inr v))"

fun fme_eval :: "FmeSymbolDb \<Rightarrow> address \<Rightarrow> FmeNode option \<Rightarrow> eval_error + FmeValue" where
  "fme_eval symdb addr None = Inl MissingOperand"
| "fme_eval symdb addr (Some (FmeNodeConstant v)) = Inr v"
| "fme_eval symdb addr (Some (FmeNodeSymbol n)) = symbol_value symdb n"
| "fme_eval symdb addr (Some (FmeNodeUnaryOp p f a)) =
     (case fme_eval symdb addr a of Inl e \<Rightarrow> Inl e | Inr v \<Rightarrow> Inr (unary_apply f addr v))"
| "fme_eval symdb addr (Some (FmeNodeBinaryOp p f a b)) =
     (if a = None \<or> b = None then Inl MissingOperand
      else case fme_eval symdb addr a of Inl e \<Rightarrow> Inl e
      | Inr va \<Rightarrow> (case fme_eval symdb addr b of Inl e \<Rightarrow> Inl e | Inr vb \<Rightarrow> binary_apply f va vb))"

text \<open>The text of a tree, as the messages of the assembler show it.\<close>

definition unary_text :: "unary_op \<Rightarrow> string" where
  "unary_text f = (case f of OpHi \<Rightarrow> ''%hi'' | OpLo \<Rightarrow> ''%lo'' | OpPcrelHi \<Rightarrow> ''%pcrel_hi''
     | OpPcrelLo \<Rightarrow> ''%pcrel_lo'' | OpNot \<Rightarrow> ''~'' | OpNeg \<Rightarrow> ''-'')"

definition binary_text :: "binary_op \<Rightarrow> string" where
  "binary_text f = (case f of OpSub \<Rightarrow> ''-'' | OpAdd \<Rightarrow> ''+'' | OpMul \<Rightarrow> ''*'' | OpDiv \<Rightarrow> ''/''
     | OpOr \<Rightarrow> ''|'' | OpAnd \<Rightarrow> ''&'' | OpXor \<Rightarrow> ''^'')"

fun fme_dump :: "FmeNode option \<Rightarrow> string" where
  "fme_dump None = ''nullptr''"
| "fme_dump (Some (FmeNodeConstant v)) = show_int (sint v)"
| "fme_dump (Some (FmeNodeSymbol n)) = n"
| "fme_dump (Some (FmeNodeUnaryOp p f a)) = ''('' @ unary_text f @ '' '' @ fme_dump a @ '')''"
| "fme_dump (Some (FmeNodeBinaryOp p f a b)) =
     ''('' @ fme_dump a @ '' '' @ binary_text f @ '' '' @ fme_dump b @ '')''"

section \<open>The parser\<close>

datatype fme_error =
    CannotConvert string
  | ParseStuck string
  | UnknownModifier string
  | UnbalancedBrackets
  | UnknownCharacter char

text \<open>
  The local variables of \<^verbatim>\<open>parse\<close>; the word is None outside a word, else the characters since
  \<^verbatim>\<open>word_start\<close>, white space included.
\<close>

record ParseState =
  ps_root :: "FmeNode option"
  ps_base_prio :: int
  ps_word :: "string option"
  ps_is_unary :: bool

text \<open>The function returns the whole rest, not only the name it skips.\<close>

definition tokenize_symbol :: "string \<Rightarrow> string \<times> string" where
  "tokenize_symbol expression =
     (expression, dropWhile (\<lambda>c. is_letter_or_number c \<or> c = CHR ''_'') expression)"

definition word_char :: "char \<Rightarrow> bool" where
  "word_char c = (is_letter_or_number c \<or> c = CHR ''_'')"

definition end_word :: "(string \<Rightarrow> FmeValue option) \<Rightarrow> ParseState \<Rightarrow> fme_error + ParseState" where
  "end_word toll st = (case ps_word st of
     None \<Rightarrow> Inr st
   | Some word \<Rightarrow>
       (case (if is_digit (hd word)
              then (case toll word of None \<Rightarrow> Inl (CannotConvert word) | Some v \<Rightarrow> Inr (FmeNodeConstant v))
              else Inr (FmeNodeSymbol word)) of
          Inl e \<Rightarrow> Inl e
        | Inr node \<Rightarrow>
            (case insert_last (ps_root st) node of
               None \<Rightarrow> Inl (ParseStuck word)
             | Some r \<Rightarrow> Inr (st\<lparr>ps_root := Some r, ps_word := None, ps_is_unary := False\<rparr>))))"

definition parse_unary :: "char \<Rightarrow> unary_op \<Rightarrow> nat \<Rightarrow> ParseState \<Rightarrow> fme_error + ParseState \<times> nat" where
  "parse_unary c f skip st =
     (let prio = ps_base_prio st + 90 in
      case insert_op (ps_root st) prio (\<lambda>_. FmeNodeUnaryOp prio f None) of
        None \<Rightarrow> Inl (ParseStuck [c])
      | Some r \<Rightarrow> Inr (st\<lparr>ps_root := Some r\<rparr>, skip))"

definition parse_binary :: "char \<Rightarrow> binary_op \<Rightarrow> int \<Rightarrow> ParseState \<Rightarrow> fme_error + ParseState \<times> nat" where
  "parse_binary c f inc st =
     (let prio = ps_base_prio st + inc in
      case insert_op (ps_root st) prio (\<lambda>child. FmeNodeBinaryOp prio f child None) of
        None \<Rightarrow> Inl (ParseStuck [c])
      | Some r \<Rightarrow> Inr (st\<lparr>ps_root := Some r, ps_is_unary := True\<rparr>, 0))"

text \<open>
  The operator at a character, with the text behind it; the result has the number of further
  characters it takes.  A modifier does not take its opening bracket.
\<close>

definition parse_operator :: "char \<Rightarrow> string \<Rightarrow> ParseState \<Rightarrow> fme_error + ParseState \<times> nat" where
  "parse_operator ch expr st =
     (if ch = CHR ''%'' then
        (if starts_with expr ''hi('' then parse_unary ch OpHi 2 st
         else if starts_with expr ''lo('' then parse_unary ch OpLo 2 st
         else if starts_with expr ''pcrel_hi('' then parse_unary ch OpPcrelHi 8 st
         else if starts_with expr ''pcrel_lo('' then parse_unary ch OpPcrelLo 8 st
         else Inl (UnknownModifier (fst (tokenize_symbol expr))))
      else if ch = CHR ''~'' then parse_unary ch OpNot 0 st
      else if ch = CHR ''-'' then
        (if ps_is_unary st then parse_unary ch OpNeg 0 st else parse_binary ch OpSub 20 st)
      else if ch = CHR ''+'' then
        (if ps_is_unary st then Inr (st, 0) else parse_binary ch OpAdd 20 st)
      else if ch = CHR ''*'' then parse_binary ch OpMul 30 st
      else if ch = CHR ''/'' then parse_binary ch OpDiv 30 st
      else if ch = CHR ''|'' then parse_binary ch OpOr 10 st
      else if ch = CHR ''&'' then parse_binary ch OpAnd 15 st
      else if ch = CHR ''^'' then parse_binary ch OpXor 15 st
      else if ch = CHR ''('' then Inr (st\<lparr>ps_base_prio := ps_base_prio st + 100\<rparr>, 0)
      else if ch = CHR '')'' then
        (if ps_base_prio st - 100 \<le> 0 then Inl UnbalancedBrackets
         else Inr (st\<lparr>ps_base_prio := ps_base_prio st - 100\<rparr>, 0))
      else Inl (UnknownCharacter ch))"

definition word_append :: "char \<Rightarrow> string option \<Rightarrow> string option" where
  "word_append c w = (case w of None \<Rightarrow> Some [c] | Some w \<Rightarrow> Some (w @ [c]))"

function parse_loop :: "(string \<Rightarrow> FmeValue option) \<Rightarrow> string \<Rightarrow> ParseState \<Rightarrow> fme_error + ParseState" where
  "parse_loop toll [] st = end_word toll st"
| "parse_loop toll (ch # s) st =
     (if word_char ch then parse_loop toll s (st\<lparr>ps_word := word_append ch (ps_word st)\<rparr>)
      else if is_space ch then
        parse_loop toll s (if ps_word st = None then st else st\<lparr>ps_word := word_append ch (ps_word st)\<rparr>)
      else case end_word toll st of Inl e \<Rightarrow> Inl e
      | Inr st \<Rightarrow> (case parse_operator ch s st of Inl e \<Rightarrow> Inl e
          | Inr (st, skip) \<Rightarrow> parse_loop toll (drop skip s) st))"
  by pat_completeness auto
termination by (relation "measure (\<lambda>(_, s, _). length s)") auto

definition fme_parse :: "(string \<Rightarrow> FmeValue option) \<Rightarrow> string \<Rightarrow> fme_error + FmeNode option" where
  "fme_parse toll expression =
     (case parse_loop toll expression
        \<lparr>ps_root = None, ps_base_prio = 100, ps_word = None, ps_is_unary = True\<rparr> of
        Inl e \<Rightarrow> Inl e
      | Inr st \<Rightarrow> Inr (ps_root st))"

section \<open>The grammar\<close>

text \<open>
  The specification: expressions as trees, their value, and their text with the brackets that
  precedence and left associativity need.  The operand of a unary operator is in brackets unless
  it is a number or a name, the operand of a modifier always.
\<close>

datatype fexpr = ENum nat | ESym string | EUn unary_op fexpr | EBin binary_op fexpr fexpr

fun ref_eval :: "FmeSymbolDb \<Rightarrow> address \<Rightarrow> fexpr \<Rightarrow> eval_error + FmeValue" where
  "ref_eval symdb addr (ENum n) = Inr (of_nat n)"
| "ref_eval symdb addr (ESym s) = symbol_value symdb s"
| "ref_eval symdb addr (EUn f e) =
     (case ref_eval symdb addr e of Inl x \<Rightarrow> Inl x | Inr v \<Rightarrow> Inr (unary_apply f addr v))"
| "ref_eval symdb addr (EBin f a b) =
     (case ref_eval symdb addr a of Inl x \<Rightarrow> Inl x
      | Inr u \<Rightarrow> (case ref_eval symdb addr b of Inl x \<Rightarrow> Inl x | Inr v \<Rightarrow> binary_apply f u v))"

definition binary_level :: "binary_op \<Rightarrow> nat" where
  "binary_level f = (case f of OpOr \<Rightarrow> 10 | OpAnd \<Rightarrow> 15 | OpXor \<Rightarrow> 15 | OpSub \<Rightarrow> 20 | OpAdd \<Rightarrow> 20
     | OpMul \<Rightarrow> 30 | OpDiv \<Rightarrow> 30)"

definition is_modifier :: "unary_op \<Rightarrow> bool" where
  "is_modifier f = (f \<noteq> OpNot \<and> f \<noteq> OpNeg)"

definition bracket :: "bool \<Rightarrow> string \<Rightarrow> string" where
  "bracket b s = (if b then ''('' @ s @ '')'' else s)"

fun show_fexpr :: "nat \<Rightarrow> fexpr \<Rightarrow> string" where
  "show_fexpr p (ENum n) = show_nat 10 n"
| "show_fexpr p (ESym s) = s"
| "show_fexpr p (EUn f e) = bracket (90 < p) (unary_text f @
     (if is_modifier f then bracket True (show_fexpr 0 e) else show_fexpr 91 e))"
| "show_fexpr p (EBin f a b) = bracket (binary_level f < p)
     (show_fexpr (binary_level f) a @ binary_text f @ show_fexpr (Suc (binary_level f)) b)"

definition symbol_ok :: "string \<Rightarrow> bool" where
  "symbol_ok s = (s \<noteq> [] \<and> list_all word_char s \<and> \<not> is_digit (hd s))"

text \<open>Numbers fit in a signed 64-bit integer, names are names.\<close>

fun fexpr_ok :: "fexpr \<Rightarrow> bool" where
  "fexpr_ok (ENum n) = (n < 2 ^ 63)"
| "fexpr_ok (ESym s) = symbol_ok s"
| "fexpr_ok (EUn f e) = fexpr_ok e"
| "fexpr_ok (EBin f a b) = (fexpr_ok a \<and> fexpr_ok b)"

fun fexpr_depth :: "fexpr \<Rightarrow> nat" where
  "fexpr_depth (ENum n) = 0"
| "fexpr_depth (ESym s) = 0"
| "fexpr_depth (EUn f e) = Suc (Suc (fexpr_depth e))"
| "fexpr_depth (EBin f a b) = Suc (max (fexpr_depth a) (fexpr_depth b))"

section \<open>Correctness of the parser\<close>

text \<open>
  The tree under construction is a context on the right spine and the subtree at its end.  A frame
  is a node of the spine without its last operand.
\<close>

datatype frame = FrameU int unary_op | FrameB int binary_op "FmeNode option"

fun frame_prio :: "frame \<Rightarrow> int" where
  "frame_prio (FrameU p f) = p"
| "frame_prio (FrameB p f a) = p"

fun frame_node :: "frame \<Rightarrow> FmeNode option \<Rightarrow> FmeNode" where
  "frame_node (FrameU p f) x = FmeNodeUnaryOp p f x"
| "frame_node (FrameB p f a) x = FmeNodeBinaryOp p f a x"

fun fill :: "frame list \<Rightarrow> FmeNode option \<Rightarrow> FmeNode option" where
  "fill [] x = x"
| "fill (k # ks) x = Some (frame_node k (fill ks x))"

lemma fill_snoc: "fill (ks @ [k]) x = fill ks (Some (frame_node k x))"
  by (induction ks) simp_all

lemma fill_Some: "\<exists>r. fill ks (Some t) = Some r"
  by (cases ks) simp_all

lemma insert_last_frame: "insert_last (Some (frame_node k x)) t = map_option (\<lambda>y. frame_node k (Some y)) (insert_last x t)"
  by (cases k) simp_all

lemma insert_op_frame:
  "frame_prio k < p \<Longrightarrow>
    insert_op (Some (frame_node k x)) p mk = map_option (\<lambda>y. frame_node k (Some y)) (insert_op x p mk)"
  by (cases k) simp_all

lemma insert_op_here: "p \<le> fme_priority t \<Longrightarrow> insert_op (Some t) p mk = Some (mk (Some t))"
  by (cases t) simp_all

lemma insert_last_fill: "insert_last (fill ks None) t = fill ks (Some t)"
proof (induction ks)
  case (Cons k ks)
  obtain r where "fill ks (Some t) = Some r" using fill_Some by blast
  with Cons show ?case by (simp add: insert_last_frame)
qed simp

lemma insert_op_fill:
  assumes "list_all (\<lambda>k. frame_prio k < p) ks" "x = None \<or> p \<le> fme_priority (the x)"
  shows "insert_op (fill ks x) p mk = fill ks (Some (mk x))"
  using assms(1)
proof (induction ks)
  case Nil
  show ?case using assms(2) by (cases x) (simp_all add: insert_op_here)
next
  case (Cons k ks)
  obtain r where "fill ks (Some (mk x)) = Some r" using fill_Some by blast
  with Cons show ?case by (simp add: insert_op_frame)
qed

text \<open>The subtree that an expression printed at a level becomes, with the priorities of its place.\<close>

fun build :: "int \<Rightarrow> nat \<Rightarrow> fexpr \<Rightarrow> FmeNode" where
  "build b p (ENum n) = FmeNodeConstant (of_nat n)"
| "build b p (ESym s) = FmeNodeSymbol s"
| "build b p (EUn f e) = (let b' = (if 90 < p then b + 100 else b) in
     FmeNodeUnaryOp (b' + 90) f (Some (if is_modifier f then build (b' + 100) 0 e else build b' 91 e)))"
| "build b p (EBin f l r) = (let b' = (if binary_level f < p then b + 100 else b); q = binary_level f in
     FmeNodeBinaryOp (b' + int q) f (Some (build b' q l)) (Some (build b' (Suc q) r)))"

lemma build_eval: "fme_eval symdb addr (Some (build b p e)) = ref_eval symdb addr e"
  by (induction e arbitrary: b p) (simp_all add: Let_def split: sum.split)

lemma build_priority:
  "p \<le> 91 \<Longrightarrow> b + 91 \<le> INT_MAX \<Longrightarrow> b + int p \<le> fme_priority (build b p e)"
  by (cases e) (auto simp: Let_def)

text \<open>What may follow a word: the end or an operator.\<close>

definition ends_word :: "string \<Rightarrow> bool" where
  "ends_word s = (s = [] \<or> \<not> word_char (hd s) \<and> \<not> is_space (hd s))"

lemma parse_word:
  assumes "list_all word_char w" "ps_word st = Some v"
  shows "parse_loop toll (w @ s) st = parse_loop toll s (st\<lparr>ps_word := Some (v @ w)\<rparr>)"
  using assms
proof (induction w arbitrary: v st)
  case Nil
  then show ?case by (cases st) simp
next
  case (Cons c w)
  then show ?case by (simp add: word_append_def)
qed

lemma parse_flush:
  assumes "ends_word s" "end_word toll st = Inr st'" "ps_word st' = None"
  shows "parse_loop toll s st = parse_loop toll s st'"
proof -
  have "end_word toll st' = Inr st'" using assms(3) by (simp add: end_word_def)
  then show ?thesis using assms by (cases s) (simp_all add: ends_word_def)
qed

text \<open>A word fills the hole of the context.\<close>

lemma parse_leaf:
  assumes w: "w \<noteq> []" "list_all word_char w" and s: "ends_word s"
    and node: "(if is_digit (hd w) then map_option FmeNodeConstant (toll w) else Some (FmeNodeSymbol w)) = Some node"
  shows "parse_loop toll (w @ s) \<lparr>ps_root = fill ks None, ps_base_prio = b, ps_word = None, ps_is_unary = u\<rparr> =
    parse_loop toll s \<lparr>ps_root = fill ks (Some node), ps_base_prio = b, ps_word = None, ps_is_unary = False\<rparr>"
proof -
  obtain c t where ct: "w = c # t" using w(1) by (cases w) simp_all
  obtain r where r: "fill ks (Some node) = Some r" using fill_Some by blast
  let ?st = "\<lparr>ps_root = fill ks None, ps_base_prio = b, ps_word = Some w, ps_is_unary = u\<rparr>"
  let ?st' = "\<lparr>ps_root = Some r, ps_base_prio = b, ps_word = None, ps_is_unary = False\<rparr>"
  have "parse_loop toll (w @ s) \<lparr>ps_root = fill ks None, ps_base_prio = b, ps_word = None, ps_is_unary = u\<rparr>
      = parse_loop toll s ?st"
    using w(2) by (simp add: ct word_append_def parse_word)
  also have "end_word toll ?st = Inr ?st'"
    using node r by (auto simp: end_word_def insert_last_fill split: if_splits)
  then have "parse_loop toll s ?st = parse_loop toll s ?st'"
    by (rule parse_flush [OF s]) simp
  finally show ?thesis by (simp add: r)
qed

text \<open>One step at an operator character, outside a word.\<close>

lemma parse_op_step:
  assumes "\<not> word_char c" "\<not> is_space c" "ps_word st = None" "parse_operator c s st = Inr (st', k)"
  shows "parse_loop toll (c # s) st = parse_loop toll (drop k s) st'"
  using assms by (simp add: end_word_def)

declare parse_loop.simps(2) [simp del]

lemma operator_chars [simp]:
  "c \<in> set ''%~-+*/|&^()'' \<Longrightarrow> \<not> word_char c" "c \<in> set ''%~-+*/|&^()'' \<Longrightarrow> \<not> is_space c"
  by (auto simp: word_char_def is_letter_or_number_def is_letter_def is_digit_def is_space_def char_code_def)

abbreviation ps :: "frame list \<Rightarrow> FmeNode option \<Rightarrow> int \<Rightarrow> bool \<Rightarrow> ParseState" where
  "ps ks x b u \<equiv> \<lparr>ps_root = fill ks x, ps_base_prio = b, ps_word = None, ps_is_unary = u\<rparr>"

lemma parse_open: "parse_loop toll (CHR ''('' # s) (ps ks x b u) = parse_loop toll s (ps ks x (b + 100) u)"
  by (subst parse_op_step [where k = 0]) (simp_all add: parse_operator_def)

lemma parse_close:
  "0 < b \<Longrightarrow> parse_loop toll (CHR '')'' # s) (ps ks x (b + 100) u) = parse_loop toll s (ps ks x b u)"
  by (subst parse_op_step [where k = 0]) (simp_all add: parse_operator_def)

lemma parse_unary_fill:
  assumes "list_all (\<lambda>k. frame_prio k < b + 90) ks"
  shows "parse_unary c f n (ps ks None b u) = Inr (ps (ks @ [FrameU (b + 90) f]) None b u, n)"
  using fill_Some [of ks "FmeNodeUnaryOp (b + 90) f None"] insert_op_fill [OF assms, of None]
  by (auto simp: parse_unary_def Let_def fill_snoc)

lemma parse_unary_text:
  assumes "list_all (\<lambda>k. frame_prio k < b + 90) ks" "is_modifier f \<Longrightarrow> s = CHR ''('' # t"
  shows "parse_loop toll (unary_text f @ s) (ps ks None b True) =
    parse_loop toll s (ps (ks @ [FrameU (b + 90) f]) None b True)"
proof -
  obtain c r where cr: "unary_text f = c # r" and c: "c \<in> set ''%~-''"
    by (cases f) (simp_all add: unary_text_def)
  have "parse_operator c (r @ s) (ps ks None b True) =
      Inr (ps (ks @ [FrameU (b + 90) f]) None b True, length r)"
    using assms cr
    by (cases f) (auto simp: unary_text_def is_modifier_def parse_operator_def starts_with_def parse_unary_fill)
  moreover have "\<not> word_char c" "\<not> is_space c" using c by auto
  ultimately show ?thesis by (simp add: cr parse_op_step)
qed

lemma parse_binary_text:
  assumes "list_all (\<lambda>k. frame_prio k < b + int (binary_level f)) ks"
    and "b + int (binary_level f) \<le> fme_priority t"
  shows "parse_loop toll (binary_text f @ s) (ps ks (Some t) b False) =
    parse_loop toll s (ps (ks @ [FrameB (b + int (binary_level f)) f (Some t)]) None b True)"
proof -
  obtain c where cr: "binary_text f = [c]" and c: "c \<in> set ''-+*/|&^''"
    by (cases f) (simp_all add: binary_text_def)
  have "parse_binary c f (int (binary_level f)) (ps ks (Some t) b False) =
      Inr (ps (ks @ [FrameB (b + int (binary_level f)) f (Some t)]) None b True, 0)"
    using fill_Some [of ks "FmeNodeBinaryOp (b + int (binary_level f)) f (Some t) None"]
      insert_op_fill [OF assms(1), of "Some t"] assms(2)
    by (auto simp: parse_binary_def Let_def fill_snoc)
  then have "parse_operator c s (ps ks (Some t) b False) =
      Inr (ps (ks @ [FrameB (b + int (binary_level f)) f (Some t)]) None b True, 0)"
    using cr by (cases f) (auto simp: binary_text_def parse_operator_def binary_level_def)
  moreover have "\<not> word_char c" "\<not> is_space c" using c by auto
  ultimately show ?thesis by (simp add: cr parse_op_step)
qed

text \<open>Brackets raise the base for what is inside them.\<close>

lemma parse_bracket:
  assumes inner: "\<And>s. ends_word s \<Longrightarrow>
      parse_loop toll (w @ s) (ps ks None B True) = parse_loop toll s (ps ks (Some t) B False)"
    and s: "ends_word s" and b: "0 < b" and B: "B = (if br then b + 100 else b)"
  shows "parse_loop toll (bracket br w @ s) (ps ks None b True) = parse_loop toll s (ps ks (Some t) b False)"
proof (cases br)
  case True
  have "ends_word (CHR '')'' # s)" by (simp add: ends_word_def)
  from inner [OF this] show ?thesis
    using True B b by (simp add: bracket_def parse_open parse_close)
next
  case False
  with inner [OF s] B show ?thesis by (simp add: bracket_def)
qed

lemma show_nat_word:
  "list_all word_char (show_nat 10 n)" "is_digit (hd (show_nat 10 n))"
proof -
  have d: "is_digit_of 10 c \<Longrightarrow> is_digit c" for c
    by (drule is_digit_of_cases) (simp_all add: is_digit_def)
  then show "is_digit (hd (show_nat 10 n))" using show_nat_hd [of 10 n] by simp
  have "is_digit c \<Longrightarrow> word_char c" for c by (simp add: word_char_def is_letter_or_number_def)
  with d show "list_all word_char (show_nat 10 n)"
    using show_nat_digits [of 10 _ n] by (auto simp: list_all_iff)
qed

lemma ends_word_binary: "ends_word (binary_text f @ s)"
  by (cases f) (simp_all add: ends_word_def binary_text_def)

lemma frames_mono: "list_all (\<lambda>k. frame_prio k < a) ks \<Longrightarrow> a \<le> b \<Longrightarrow> list_all (\<lambda>k. frame_prio k < b) ks"
  by (auto simp: list_all_iff)

lemma binary_level_bounds: "10 \<le> binary_level f" "binary_level f \<le> 30"
  by (cases f; simp add: binary_level_def)+

text \<open>
  What the parser relies on in \<^verbatim>\<open>QString::toLongLong\<close>: the decimal digits of a number that fits are
  read to that number.
\<close>

locale number_reader =
  fixes toll :: "string \<Rightarrow> FmeValue option"
  assumes reads: "n < 2 ^ 63 \<Longrightarrow> toll (show_nat 10 n) = Some (of_nat n)"
begin

text \<open>The text of an expression, met with a hole at the end of the spine, becomes its tree there.\<close>

lemma parse_show:
  assumes "fexpr_ok e" "p \<le> 91" "0 < b" "b + 100 * int (fexpr_depth e) + 100 \<le> INT_MAX"
    and "list_all (\<lambda>k. frame_prio k < b + int p) ks" "ends_word s"
  shows "parse_loop toll (show_fexpr p e @ s) (ps ks None b True) =
    parse_loop toll s (ps ks (Some (build b p e)) b False)"
  using assms
proof (induction e arbitrary: b p ks s)
  case (ENum n)
  then show ?case using reads show_nat_word [of n] by (simp add: parse_leaf)
next
  case (ESym x)
  then show ?case by (simp add: symbol_ok_def parse_leaf)
next
  case (EUn f e)
  define B where "B = (if 90 < p then b + 100 else b)"
  have ks: "list_all (\<lambda>k. frame_prio k < B + 90) ks"
    by (rule frames_mono [OF EUn.prems(5)]) (use EUn.prems(2) in \<open>simp add: B_def\<close>)
  let ?ks = "ks @ [FrameU (B + 90) f]"
  let ?x = "if is_modifier f then bracket True (show_fexpr 0 e) else show_fexpr 91 e"
  let ?t = "if is_modifier f then build (B + 100) 0 e else build B 91 e"
  have "parse_loop toll (?x @ s) (ps ?ks None B True) = parse_loop toll s (ps ?ks (Some ?t) B False)"
    if s: "ends_word s" for s
  proof (cases "is_modifier f")
    case True
    have "parse_loop toll (show_fexpr 0 e @ s) (ps ?ks None (B + 100) True) =
        parse_loop toll s (ps ?ks (Some (build (B + 100) 0 e)) (B + 100) False)" if "ends_word s" for s
      by (rule EUn.IH) (use EUn.prems that frames_mono [OF ks] in \<open>auto simp: B_def split: if_splits\<close>)
    from parse_bracket [OF this s, where br = True]
    have "parse_loop toll (bracket True (show_fexpr 0 e) @ s) (ps ?ks None B True) =
        parse_loop toll s (ps ?ks (Some (build (B + 100) 0 e)) B False)"
      using EUn.prems(3) by (simp add: B_def)
    with True show ?thesis by simp
  next
    case False
    have "parse_loop toll (show_fexpr 91 e @ s) (ps ?ks None B True) =
        parse_loop toll s (ps ?ks (Some (build B 91 e)) B False)"
      by (rule EUn.IH) (use EUn.prems s frames_mono [OF ks] in \<open>auto simp: B_def split: if_splits\<close>)
    with False show ?thesis by simp
  qed
  then have "parse_loop toll ((unary_text f @ ?x) @ s) (ps ks None B True) =
      parse_loop toll s (ps ks (Some (FmeNodeUnaryOp (B + 90) f (Some ?t))) B False)" if "ends_word s" for s
    using that parse_unary_text [OF ks, of f "?x @ s"] by (simp add: bracket_def fill_snoc)
  from parse_bracket [OF this EUn.prems(6,3) B_def] show ?case by (simp add: B_def Let_def)
next
  case (EBin f l r)
  let ?q = "binary_level f"
  define B where "B = (if ?q < p then b + 100 else b)"
  have ks: "list_all (\<lambda>k. frame_prio k < B + int ?q) ks"
    by (rule frames_mono [OF EBin.prems(5)])
      (use EBin.prems(2) binary_level_bounds [of f] in \<open>auto simp: B_def\<close>)
  have B: "0 < B" "B + 100 * int (fexpr_depth l) + 100 \<le> INT_MAX" "B + 100 * int (fexpr_depth r) + 100 \<le> INT_MAX"
    using EBin.prems(3,4) by (auto simp: B_def split: if_splits)
  let ?l = "build B ?q l" and ?r = "build B (Suc ?q) r"
  let ?ks = "ks @ [FrameB (B + int ?q) f (Some ?l)]"
  have lp: "B + int ?q \<le> fme_priority ?l"
    by (rule build_priority) (use B binary_level_bounds [of f] in auto)
  have "parse_loop toll ((show_fexpr ?q l @ binary_text f @ show_fexpr (Suc ?q) r) @ s) (ps ks None B True) =
      parse_loop toll s (ps ks (Some (FmeNodeBinaryOp (B + int ?q) f (Some ?l) (Some ?r))) B False)"
    if s: "ends_word s" for s
  proof -
    have "parse_loop toll (show_fexpr ?q l @ binary_text f @ show_fexpr (Suc ?q) r @ s) (ps ks None B True) =
        parse_loop toll (binary_text f @ show_fexpr (Suc ?q) r @ s) (ps ks (Some ?l) B False)"
      by (rule EBin.IH(1)) (use EBin.prems(1) B ks binary_level_bounds [of f] ends_word_binary in auto)
    also have "\<dots> = parse_loop toll (show_fexpr (Suc ?q) r @ s) (ps ?ks None B True)"
      by (rule parse_binary_text [OF ks lp])
    also have "\<dots> = parse_loop toll s (ps ?ks (Some ?r) B False)"
      by (rule EBin.IH(2)) (use EBin.prems(1) B s frames_mono [OF ks] binary_level_bounds [of f] in auto)
    finally show ?thesis by (simp add: fill_snoc)
  qed
  from parse_bracket [OF this EBin.prems(6,3) B_def] show ?case by (simp add: B_def Let_def)
qed

corollary parse_correct:
  assumes "fexpr_ok e" "100 * int (fexpr_depth e) + 200 \<le> INT_MAX"
  shows "fme_parse toll (show_fexpr 0 e) = Inr (Some (build 100 0 e))"
  using parse_show [OF assms(1), of 0 100 "[]" "[]"] assms(2)
  by (simp add: fme_parse_def ends_word_def end_word_def)

text \<open>
  A unary operator behind a unary operator of the same brackets replaces it, since it is inserted
  above a child of its own priority: in \<^verbatim>\<open>~-5\<close> only the second one is left.
\<close>

lemma stacked_unary_lost:
  assumes "n < 2 ^ 63"
  shows "fme_parse toll (''~-'' @ show_nat 10 n) =
    Inr (Some (FmeNodeUnaryOp 190 OpNeg (Some (FmeNodeConstant (of_nat n)))))"
proof -
  let ?d = "show_nat 10 n"
  have "parse_loop toll (''~-'' @ ?d) (ps [] None 100 True) = parse_loop toll (CHR ''-'' # ?d) (ps [FrameU 190 OpNot] None 100 True)"
    using parse_unary_text [of 100 "[]" OpNot "CHR ''-'' # ?d"] by (simp add: unary_text_def is_modifier_def)
  also have "\<dots> = parse_loop toll ?d (ps [FrameU 190 OpNeg] None 100 True)"
    by (subst parse_op_step [where k = 0 and st' = "ps [FrameU 190 OpNeg] None 100 True"])
      (simp_all add: parse_operator_def parse_unary_def)
  also have "\<dots> = Inr (ps [FrameU 190 OpNeg] (Some (FmeNodeConstant (of_nat n))) 100 False)"
    using parse_leaf [of ?d "[]" toll "FmeNodeConstant (of_nat n)" "[FrameU 190 OpNeg]"] assms reads show_nat_word [of n]
    by (simp add: ends_word_def end_word_def)
  finally show ?thesis by (simp add: fme_parse_def)
qed

end

text \<open>White space behind a name becomes part of the name.\<close>

lemma name_keeps_space:
  assumes "symbol_ok x"
  shows "fme_parse toll (x @ '' '') = Inr (Some (FmeNodeSymbol (x @ '' '')))"
proof -
  obtain c t where x: "x = c # t" "word_char c" "list_all word_char t" "\<not> is_digit c"
    using assms by (cases x) (simp_all add: symbol_ok_def)
  have "\<not> word_char CHR '' ''" "is_space CHR '' ''"
    by (simp_all add: word_char_def is_letter_or_number_def is_letter_def is_digit_def is_space_def char_code_def)
  then show ?thesis using x
    by (simp add: fme_parse_def parse_loop.simps(2) word_append_def parse_word end_word_def)
qed

text \<open>A reader by the rules of the C library: a number and nothing else, in range.\<close>

definition c_reader :: "string \<Rightarrow> FmeValue option" where
  "c_reader s = (let t = trimmed s; (neg, v, k) = scan_number t; i = (if neg then - int v else int v) in
     if 0 < k \<and> k = length t \<and> - (2 ^ 63) \<le> i \<and> i < 2 ^ 63 then Some (word_of_int i) else None)"

lemma is_digit_not_space: "is_digit c \<Longrightarrow> \<not> is_space c"
  by (auto simp: is_digit_def is_space_def Let_def)

lemma dropWhile_hd: "s \<noteq> [] \<Longrightarrow> \<not> P (hd s) \<Longrightarrow> dropWhile P s = s"
  by (cases s) simp_all

lemma trimmed_id: "s \<noteq> [] \<Longrightarrow> \<not> is_space (hd s) \<Longrightarrow> \<not> is_space (last s) \<Longrightarrow> trimmed s = s"
  by (simp add: trimmed_def dropWhile_hd hd_rev)

interpretation c_reader: number_reader c_reader
proof
  fix n :: nat assume n: "n < 2 ^ 63"
  have dig: "c \<in> set (show_nat 10 n) \<Longrightarrow> \<not> is_space c" for c
    using show_nat_digits [of 10 c n] is_digit_of_cases [of 10 c] by (auto simp: is_space_def Let_def)
  have "trimmed (show_nat 10 n) = show_nat 10 n" by (rule trimmed_id) (simp_all add: dig)
  moreover have "scan_number (show_nat 10 n) = (False, n, length (show_nat 10 n))"
    using scan_show_int [of "[]" "int n"] by (simp add: show_int_def)
  moreover have "int n < 2 ^ 63" using n by (simp add: nat_less_iff)
  ultimately show "c_reader (show_nat 10 n) = Some (of_nat n)" by (simp add: c_reader_def)
qed

section \<open>Properties\<close>

text \<open>
  Claim C22: an expression written in the canonical form of \<open>show_fexpr\<close>, without spaces and with exactly the brackets
  that precedence (or, and with xor, sum, product), left associativity and a unary operator below another ask for, is parsed, and the tree evaluates
  to the value or to the error that the expression has by its structure, whatever the symbol table and the address.  The
  priorities are 32-bit integers, so the nesting is limited.  Other ways to write an expression are not covered, and some fail:
  a space behind a name becomes part of it (\<^verbatim>\<open>name_keeps_space\<close>), and a unary operator directly in front of another
  is lost (\<^verbatim>\<open>stacked_unary_lost\<close>).
\<close>

theorem expression_value:
  assumes "number_reader toll" "fexpr_ok e" "100 * int (fexpr_depth e) + 200 \<le> INT_MAX"
  shows "\<exists>t. fme_parse toll (show_fexpr 0 e) = Inr (Some t) \<and>
    (\<forall>symdb addr. fme_eval symdb addr (Some t) = ref_eval symdb addr e)"
  using number_reader.parse_correct [OF assms] build_eval by blast

theorem expression_value_witness:
  "\<exists>t. fme_parse c_reader ''7-2-(x|%lo(9))*-3'' = Inr (Some t) \<and>
    fme_eval (Some [''x'' \<mapsto> 4]) 0 (Some t) = Inr 44"
proof -
  let ?e = "EBin OpSub (EBin OpSub (ENum 7) (ENum 2))
    (EBin OpMul (EBin OpOr (ESym ''x'') (EUn OpLo (ENum 9))) (EUn OpNeg (ENum 3)))"
  have "show_fexpr 0 ?e = ''7-2-(x|%lo(9))*-3''" by code_simp
  moreover have "ref_eval (Some [''x'' \<mapsto> 4]) 0 ?e = Inr 44"
    by (simp add: symbol_value_def unary_apply_def binary_apply_def get_bits_def mask_bits_def get_bitmask_def
        sign_extend_def)
  moreover have "fexpr_ok ?e" by (simp add: symbol_ok_def) code_simp
  moreover have "100 * int (fexpr_depth ?e) + 200 \<le> INT_MAX" by (simp add: INT_MAX_def)
  ultimately show ?thesis using expression_value [OF c_reader.number_reader_axioms, of ?e] by metis
qed

text \<open>The sign-extended low half of a word, by the carry it passes to the high half.\<close>

lemma signed_low_shift: "signed_take_bit n x = take_bit (Suc n) (x + 2 ^ n) - 2 ^ n" for x :: "'a::len word"
proof -
  obtain k where x: "x = of_int k" by (rule that [of "uint x"]) simp
  have "(of_int k + 2 ^ n :: 'a word) = of_int (k + 2 ^ n)" by simp
  then show ?thesis unfolding x
    by (simp only: signed_take_bit_of_int take_bit_of_int signed_take_bit_eq_take_bit_shift of_int_diff of_int_power of_int_numeral)
qed

lemma signed_low_minus:
  fixes x :: "'a::len word" assumes "n < LENGTH('a)"
  shows "signed_take_bit n x = take_bit (Suc n) x - (if bit x n then 2 ^ Suc n else 0)"
proof -
  obtain k where x: "x = of_int k" by (rule that [of "uint x"]) simp
  have "bit x n = bit k n" using assms by (simp add: x bit_simps)
  then show ?thesis unfolding x
    by (simp add: signed_take_bit_of_int take_bit_of_int signed_take_bit_eq_take_bit_minus del: power_Suc)
qed

lemma ucast_low:
  "ucast (x + y :: u64) = (ucast x + ucast y :: u32)"
  "ucast (push_bit 12 x :: u64) = (push_bit 12 (ucast x) :: u32)"
  "ucast (get_bits x 31 12 :: u64) = (drop_bit 12 (ucast x) :: u32)"
  "ucast (sign_extend (get_bits x 11 0) 12) = (signed_take_bit 11 (ucast x) :: u32)"
proof -
  show "ucast (x + y) = (ucast x + ucast y :: u32)" 
    using as_u32_arith(1) [of x y] by (simp add: as_u32_def)
qed (rule bit_word_eqI; auto simp: get_bits_eq sign_extend_eq bit_simps min_def)+

text \<open>
  The modifiers split an address into what \<^verbatim>\<open>lui\<close> or \<^verbatim>\<open>auipc\<close> and a following instruction with a
  12-bit immediate add up to: \<^verbatim>\<open>%hi\<close> and \<^verbatim>\<open>%lo\<close> to the address, \<^verbatim>\<open>%pcrel_hi\<close> and \<^verbatim>\<open>%pcrel_lo\<close>, evaluated
  one instruction later, to its distance from the first instruction, at 32 bits.
\<close>

theorem modifiers_recompose:
  "ucast (push_bit 12 (unary_apply OpHi pc a) + unary_apply OpLo pc' a) = (ucast a :: u32) \<and>
   ucast (push_bit 12 (unary_apply OpPcrelHi pc a) + unary_apply OpPcrelLo (pc + 4) a) = (ucast (a - pc) :: u32)"
proof
  have hi: "push_bit 12 (drop_bit 12 (y + 0x800)) + signed_take_bit 11 y = y" for y :: u32
    using bits_ident [of 12 "y + 0x800"] by (simp add: signed_low_shift add_diff_eq)
  show "ucast (push_bit 12 (unary_apply OpHi pc a) + unary_apply OpLo pc' a) = (ucast a :: u32)"
    using hi [of "ucast a"] by (simp add: unary_apply_def ucast_low)
next
  have lo: "push_bit 12 (drop_bit 12 y + ucast (get_bit d 11)) + signed_take_bit 11 y = y"
    if "y = ucast d" for y :: u32 and d :: u64
  proof -
    have "get_bit d 11 = (if bit d 11 then 1 else 0)"
      by (rule bit_word_eqI) (auto simp: get_bit_def bit_simps bit_1_iff intro: gr0I)
    then have b: "ucast (get_bit d 11) = (if bit y 11 then 1 else 0 :: u32)" by (simp add: that bit_simps)
    show ?thesis using bits_ident [of 12 y]
      by (simp add: b signed_low_minus push_bit_add algebra_simps)
  qed
  show "ucast (push_bit 12 (unary_apply OpPcrelHi pc a) + unary_apply OpPcrelLo (pc + 4) a) = (ucast (a - pc) :: u32)"
    using lo [OF refl, of "a - pc"] by (simp add: unary_apply_def ucast_low)
qed

end
