(* ===== verification/Instruction_Text.thy ===== *)
theory Instruction_Text
  imports Text_Utils Instruction Control_State Pipeline "HOL-Library.List_Lexorder" "HOL-Library.Char_ord"
begin

text \<open>
  The text of an instruction (\<^verbatim>\<open>src/src/machine/instruction.cpp\<close>): printing
  (\<^verbatim>\<open>Instruction::to_str\<close>) and parsing (\<^verbatim>\<open>code_from_string\<close> and what it calls), with relocations and
  pseudoinstructions.

  A parse error is a value.  The pointer to the list of relocations, which may be null, is an
  option; the list is returned also when an error is thrown, since what was appended stays.
  \<open>OutOfString\<close> is no error of the code: \<^verbatim>\<open>QString::at(0)\<close> of an empty string is undefined, and it is not
  caught where a parse error is.  \<^verbatim>\<open>parse_csr_address\<close> reads a number from a buffer that is
  released before; the definition reads the number that was there.
\<close>

section \<open>Data\<close>

definition Rv_regnames :: "string list" where
  "Rv_regnames = [''zero'', ''ra'', ''sp'', ''gp'', ''tp'', ''t0'', ''t1'', ''t2'', ''s0'', ''s1'', ''a0'',
     ''a1'', ''a2'', ''a3'', ''a4'', ''a5'', ''a6'', ''a7'', ''s2'', ''s3'', ''s4'', ''s5'',
     ''s6'', ''s7'', ''s8'', ''s9'', ''s10'', ''s11'', ''t3'', ''t4'', ''t5'', ''t6'']"

text \<open>The array has 36 elements, those without an initializer are empty strings.\<close>

definition RECOGNIZED_PSEUDOINSTRUCTIONS :: "string list" where
  "RECOGNIZED_PSEUDOINSTRUCTIONS =
     [''nop'', ''la'', ''li'', ''sext.b'', ''sext.h'', ''zext.h'', ''zext.w'', ''call'', ''tail''] @ replicate 27 []"

record TokenizedInstruction =
  ti_base :: string
  ti_fields :: "string list"
  ti_address :: address
  ti_filename :: string
  ti_line :: nat

text \<open>A relocation with its place and its text.\<close>

record RelocEntry = RelocExpression +
  re_location :: address
  re_expression :: string
  re_filename :: string
  re_line :: nat

type_synonym reloc_list = "RelocEntry list option"

datatype parse_error =
    InsufficientBuffer
  | UnknownInstruction
  | NopArguments
  | ArgumentCount
  | NoMatch
  | EmptyArgument
  | TemplateMismatch
  | NotImmediate string
  | ArgumentParse
  | ArgumentRange
  | ExcessiveCharacters
  | EmptyInstruction
  | OutOfString

section \<open>Printing\<close>

text \<open>\<^verbatim>\<open>CSR::REGISTER_MAP\<close> and \<^verbatim>\<open>REGISTER_MAP_BY_NAME\<close>: the first register with the address or the name.\<close>

definition register_by_address :: "u16 \<Rightarrow> csr_id option" where
  "register_by_address a = find (\<lambda>i. csr_address (REGISTERS i) = a) csr_ids"

definition register_by_name :: "string \<Rightarrow> csr_id option" where
  "register_by_name n = find (\<lambda>i. csr_name (REGISTERS i) = n) csr_ids"

definition field_value :: "ArgumentDesc \<Rightarrow> u32 \<Rightarrow> u32" where
  "field_value d dt =
     (let field = sbf_decode (ad_arg d) dt in
      if ad_min d < 0
      then inst_extend field (sbf_shift (ad_arg d) + sum_list (map bf_count (sbf_fields (ad_arg d))))
      else field)"

definition field_text :: "bool \<Rightarrow> ArgumentDesc \<Rightarrow> address \<Rightarrow> u32 \<Rightarrow> string" where
  "field_text symbolic d inst_addr field =
     (if ad_kind d = CHR ''g'' then
        (if symbolic then Rv_regnames ! unat field else CHR ''x'' # show_int (sint field))
      else if ad_kind d = CHR ''p'' \<or> ad_kind d = CHR ''a'' then asHex (uint (field + ucast inst_addr))
      else if ad_kind d = CHR ''o'' \<or> ad_kind d = CHR ''n'' then
        (if ad_min d < 0 then show_int (sint field) else asHex (uint field))
      else if ad_kind d = CHR ''E'' then
        (if symbolic then
           (case register_by_address (ucast field) of
              Some i \<Rightarrow> csr_name (REGISTERS i)
            | None \<Rightarrow> asHex (sint field))
         else asHex (sint field))
      else [])"

definition letter_text :: "bool \<Rightarrow> u32 \<Rightarrow> address \<Rightarrow> char \<Rightarrow> string" where
  "letter_text symbolic dt inst_addr c = (case arg_desc_by_code c of
     None \<Rightarrow> [c]
   | Some d \<Rightarrow> field_text symbolic d inst_addr (field_value d dt))"

definition arg_text :: "bool \<Rightarrow> u32 \<Rightarrow> address \<Rightarrow> string \<Rightarrow> string" where
  "arg_text symbolic dt inst_addr arg = concat (map (letter_text symbolic dt inst_addr) arg)"

fun args_text :: "bool \<Rightarrow> u32 \<Rightarrow> address \<Rightarrow> string \<Rightarrow> string list \<Rightarrow> string" where
  "args_text symbolic dt inst_addr next_delim [] = []"
| "args_text symbolic dt inst_addr next_delim (arg # args) =
     next_delim @ arg_text symbolic dt inst_addr arg @ args_text symbolic dt inst_addr '', '' args"

definition to_str :: "bool \<Rightarrow> u32 \<Rightarrow> address \<Rightarrow> string" where
  "to_str symbolic dt inst_addr =
     (let im = inst_map dt in
      if im_type im = IT_UNKNOWN then ''unknown''
      else if dt = NOP then ''nop''
      else im_name im @ args_text symbolic dt inst_addr '' '' (im_args im))"

section \<open>The table of names\<close>

text \<open>A multimap: a list with the most recent item first, as \<^verbatim>\<open>QMultiMap\<close> orders equal keys.\<close>

type_synonym code_map = "(string \<times> u32) list"

definition equal_range :: "code_map \<Rightarrow> string \<Rightarrow> u32 list" where
  "equal_range m name = map snd (filter (\<lambda>p. fst p = name) m)"

fun build_base_aliases :: "u32 \<Rightarrow> u32 \<Rightarrow> InstructionMap list \<Rightarrow> code_map \<Rightarrow> code_map" where
  "build_base_aliases base_code base_mask [] m = m"
| "build_base_aliases base_code base_mask (ia # ias) m =
     build_base_aliases base_code base_mask ias
       (if (im_code ia XOR base_code) AND base_mask \<noteq> 0 then m
        else if NOT (im_mask ia) AND base_mask \<noteq> 0 then m
        else if base_code \<in> set (equal_range m (im_name ia)) then m
        else (im_name ia, base_code) # m)"

fun build_base_entry :: "InstructionMap \<Rightarrow> u32 \<Rightarrow> u32 \<Rightarrow> code_map \<Rightarrow> code_map"
and build_base_table :: "BitField \<Rightarrow> InstructionMap list \<Rightarrow> nat \<Rightarrow> u32 \<Rightarrow> u32 \<Rightarrow> code_map \<Rightarrow> code_map" where
  "build_base_entry (IM nm ty al mc ar c m fl als) code base_mask cm =
     (if \<not> has_flag fl IMF_SUPPORTED then cm
      else if (c XOR code) AND base_mask \<noteq> 0 then cm
      else if NOT m AND base_mask \<noteq> 0 then cm
      else build_base_aliases c m als ((nm, c) # cm))"
| "build_base_entry (IM_SUB nm ty al mc subs c m f) code base_mask cm =
     build_base_table f subs 0 code (base_mask OR field_mask32 f) cm"
| "build_base_table f [] i base_code base_mask cm = cm"
| "build_base_table f (im # ims) i base_code base_mask cm =
     (if i < 2 ^ bf_count f
      then build_base_table f ims (i + 1) base_code base_mask
             (build_base_entry im (base_code OR push_bit (bf_offset f) (of_nat i)) base_mask cm)
      else cm)"

definition str_to_instruction_code_map :: code_map where
  "str_to_instruction_code_map =
     build_base_table instruction_map_opcode_field C_inst_map 0 0 (0 OR field_mask32 instruction_map_opcode_field) []"

text \<open>The keys of the multimap are in the order of the names.\<close>

definition append_recognized_instructions :: "string list \<Rightarrow> string list" where
  "append_recognized_instructions l =
     l @ sort (map fst str_to_instruction_code_map) @ RECOGNIZED_PSEUDOINSTRUCTIONS"

definition append_recognized_registers :: "string list \<Rightarrow> string list" where
  "append_recognized_registers l = l @ Rv_regnames"

section \<open>Parsing of fields\<close>

text \<open>
  A register: its number, or -1, and the characters taken, 0 when the pointer is not written.
  The number behind \<^verbatim>\<open>x\<close> is an \<^verbatim>\<open>int\<close> that may overflow; it is kept at 32 bits.
\<close>

fun read_reg_number :: "string \<Rightarrow> u32 \<Rightarrow> nat \<Rightarrow> u32 \<times> nat" where
  "read_reg_number [] res ctk = (res, ctk)"
| "read_reg_number (c # s) res ctk =
     (if is_digit c then read_reg_number s (res * 10 + of_nat (char_code c - 48)) (ctk + 1) else (res, ctk))"

fun match_reg_name :: "string list \<Rightarrow> nat \<Rightarrow> string \<Rightarrow> int \<times> nat \<Rightarrow> int \<times> nat" where
  "match_reg_name [] i s found = found"
| "match_reg_name (n # ns) i s found =
     match_reg_name ns (i + 1) s (if starts_with s n then (int i, length n) else found)"

definition parse_reg_from_string :: "string \<Rightarrow> int \<times> nat" where
  "parse_reg_from_string str =
     (if length str < 2 then (- 1, 0)
      else if hd str = CHR ''x'' then
        (let (res, ctk) = read_reg_number (tl str) 0 1 in (sint res, ctk))
      else match_reg_name Rv_regnames 0 str (- 1, 0))"

definition reloc_operators :: string where "reloc_operators = ''+-/*|&^~''"
definition reloc_special_chars :: string where "reloc_special_chars = ''()%_''"

fun read_reloc_loop :: "string \<Rightarrow> string \<Rightarrow> nat \<Rightarrow> bool \<Rightarrow> bool \<Rightarrow> string \<times> nat" where
  "read_reloc_loop [] expression chars_taken prev_was_operator is_modifier = (expression, chars_taken)"
| "read_reloc_loop (ch # s) expression chars_taken prev_was_operator is_modifier =
     (let is_operator = (ch \<in> set reloc_operators) in
      if ch = CHR ''('' \<and> \<not> prev_was_operator \<and> \<not> is_modifier then (expression, chars_taken)
      else
        (let is_modifier = (if ch = CHR ''('' \<and> \<not> prev_was_operator then False else is_modifier) in
         if is_letter_or_number ch \<or> is_operator \<or> ch \<in> set reloc_special_chars then
           read_reloc_loop s (expression @ [ch]) (chars_taken + 1) is_operator (is_modifier \<or> ch = CHR ''%'')
         else if \<not> is_space ch then (expression, chars_taken)
         else read_reloc_loop s expression (chars_taken + 1) is_operator is_modifier))"

definition read_reloc_expression :: "string \<Rightarrow> string \<times> nat" where
  "read_reloc_expression input = read_reloc_loop input [] 0 False False"

definition reloc_append ::
  "RelocEntry list \<Rightarrow> string \<Rightarrow> address \<Rightarrow> u64 \<Rightarrow> ArgumentDesc \<Rightarrow> string \<Rightarrow> nat \<Rightarrow> Modifier \<Rightarrow> RelocEntry list \<times> nat" where
  "reloc_append reloc fl inst_addr offset adesc filename line pseudo_mod =
     (let (expression, chars_taken) = read_reloc_expression fl in
      (if expression \<noteq> []
       then reloc @ [\<lparr>re_offset = offset, re_min = ad_min adesc, re_max = ad_max adesc, re_arg = ad_arg adesc,
                      re_mod = pseudo_mod, re_location = inst_addr, re_expression = expression,
                      re_filename = filename, re_line = line\<rparr>]
       else reloc, chars_taken))"

text \<open>The value, the characters taken and the relocations; the method returns whether any were taken.\<close>

definition parse_immediate_value ::
  "string \<Rightarrow> address \<Rightarrow> reloc_list \<Rightarrow> string \<Rightarrow> nat \<Rightarrow> bool \<Rightarrow> ArgumentDesc \<Rightarrow> Modifier \<Rightarrow> u64 \<Rightarrow> u64 \<times> nat \<times> reloc_list" where
  "parse_immediate_value field_token inst_addr reloc filename line need_reloc adesc effective_mod val =
     (let (need_reloc, val, chars_taken) =
        (if is_digit (hd field_token) \<or> hd field_token = CHR ''-'' \<or> reloc = None then
           (let (num_val, k) = (if ad_min adesc < 0 then strtoll field_token else strtoull field_token);
                k = k + length (takeWhile c_isspace (drop k field_token));
                r = drop k field_token in
            if r \<noteq> [] \<and> hd r \<in> set ''+-/*|&^~%'' then (True, val, k) else (need_reloc, val + num_val, k))
         else (True, val, 0)) in
      case reloc of
        Some l \<Rightarrow>
          if need_reloc then
            (let (l, chars_taken) = reloc_append l field_token inst_addr val adesc filename line effective_mod in
             (0, chars_taken, Some l))
          else (val, chars_taken, reloc)
      | None \<Rightarrow> (val, chars_taken, reloc))"

definition parse_csr_address :: "string \<Rightarrow> u16 \<times> nat" where
  "parse_csr_address field_token =
     (if is_letter (hd field_token) then
        (case register_by_name field_token of
           Some i \<Rightarrow> (csr_address (REGISTERS i), length (csr_name (REGISTERS i)))
         | None \<Rightarrow> (0, 0))
      else (let (val, k) = strtoull field_token in (ucast val, k)))"

text \<open>
  One argument of an instruction.  The value of a descriptor's letter: a null descriptor is a
  literal character.
\<close>

definition parse_value ::
  "ArgumentDesc \<Rightarrow> string \<Rightarrow> address \<Rightarrow> reloc_list \<Rightarrow> string \<Rightarrow> nat \<Rightarrow> Modifier \<Rightarrow> u64 \<Rightarrow>
     reloc_list \<times> (parse_error + u64 \<times> nat)" where
  "parse_value adesc field_token inst_addr reloc filename line effective_mod initial_immediate_value =
     (let kind = ad_kind adesc in
      if kind = CHR ''g'' then
        (let (r, k) = parse_reg_from_string field_token in (reloc, Inr (word_of_int r, k)))
      else if kind = CHR ''p'' \<or> kind = CHR ''a'' \<or> kind = CHR ''o'' \<or> kind = CHR ''n'' then
        (if field_token = [] then (reloc, Inl OutOfString)
         else
           (let val = (if kind = CHR ''p'' \<or> kind = CHR ''a'' then - inst_addr else 0) + initial_immediate_value;
                (val, k, reloc) =
                  parse_immediate_value field_token inst_addr reloc filename line False adesc effective_mod val in
            if k = 0 then (reloc, Inl (NotImmediate field_token)) else (reloc, Inr (val, k))))
      else if kind = CHR ''E'' then
        (if field_token = [] then (reloc, Inl OutOfString)
         else (let (a, k) = parse_csr_address field_token in (reloc, Inr (ucast a, k))))
      else (reloc, Inr (0, 0)))"

fun parse_letters ::
  "string \<Rightarrow> string \<Rightarrow> u32 \<Rightarrow> address \<Rightarrow> reloc_list \<Rightarrow> string \<Rightarrow> nat \<Rightarrow> Modifier \<Rightarrow> u64 \<Rightarrow>
     reloc_list \<times> (parse_error + u32)" where
  "parse_letters [] field_token inst_code inst_addr reloc filename line pseudo_mod init =
     (reloc, if trimmed field_token \<noteq> [] then Inl ExcessiveCharacters else Inr inst_code)"
| "parse_letters (ao # arg) field_token inst_code inst_addr reloc filename line pseudo_mod init =
     (if char_code ao = 0 then parse_letters arg field_token inst_code inst_addr reloc filename line pseudo_mod init
      else
        (let field_token = trimmed field_token in
         case arg_desc_by_code ao of
           None \<Rightarrow>
             if field_token = [] then (reloc, Inl EmptyArgument)
             else if hd field_token \<noteq> ao then (reloc, Inl TemplateMismatch)
             else parse_letters arg (tl field_token) inst_code inst_addr reloc filename line pseudo_mod init
         | Some adesc \<Rightarrow>
             (let effective_mod = (if is_imm adesc then pseudo_mod else MOD_NONE) in
              case parse_value adesc field_token inst_addr reloc filename line effective_mod init of
                (reloc, Inl e) \<Rightarrow> (reloc, Inl e)
              | (reloc, Inr (val, chars_taken)) \<Rightarrow>
                  if chars_taken = 0 then (reloc, Inl ArgumentParse)
                  else if effective_mod = MOD_NONE \<and> \<not> is_value_in_field_range adesc val then (reloc, Inl ArgumentRange)
                  else
                    parse_letters arg (drop chars_taken field_token)
                      (inst_code OR sbf_encode (ad_arg adesc) (ucast (modify_pseudoinst_imm effective_mod val)))
                      inst_addr reloc filename line pseudo_mod init)))"

definition parse_field ::
  "string \<Rightarrow> string \<Rightarrow> address \<Rightarrow> reloc_list \<Rightarrow> string \<Rightarrow> nat \<Rightarrow> Modifier \<Rightarrow> u64 \<Rightarrow> reloc_list \<times> (parse_error + u32)" where
  "parse_field field_token arg inst_addr reloc filename line pseudo_mod init =
     parse_letters arg field_token 0 inst_addr reloc filename line pseudo_mod init"

section \<open>Instructions\<close>

text \<open>All fields of an instruction against the arguments of an entry.\<close>

fun parse_fields ::
  "TokenizedInstruction \<Rightarrow> string list \<Rightarrow> string list \<Rightarrow> u32 \<Rightarrow> reloc_list \<Rightarrow> Modifier \<Rightarrow> u64 \<Rightarrow>
     reloc_list \<times> (parse_error + u32)" where
  "parse_fields inst (arg # args) (f # fs) inst_code reloc pseudo_mod init =
     (case parse_field f arg (ti_address inst) reloc (ti_filename inst) (ti_line inst) pseudo_mod init of
        (reloc, Inl e) \<Rightarrow> (reloc, Inl e)
      | (reloc, Inr c) \<Rightarrow> parse_fields inst args fs (inst_code OR c) reloc pseudo_mod init)"
| "parse_fields inst args fs inst_code reloc pseudo_mod init = (reloc, Inr inst_code)"

text \<open>
  The entries that are tried for a name: for every code of the name the entry of the code and
  then its aliases.  \<open>err\<close> is the error that is thrown when none matches, None while \<^verbatim>\<open>rethrow\<close> is false.
\<close>

definition candidates :: "string \<Rightarrow> InstructionMap list" where
  "candidates name =
     concat (map (\<lambda>code. filter (\<lambda>im. im_name im = name) (inst_map code # im_aliases (inst_map code)))
       (equal_range str_to_instruction_code_map name))"

fun try_candidates ::
  "TokenizedInstruction \<Rightarrow> InstructionMap list \<Rightarrow> reloc_list \<Rightarrow> Modifier \<Rightarrow> u64 \<Rightarrow> parse_error option \<Rightarrow>
     reloc_list \<times> (parse_error + u32)" where
  "try_candidates inst [] reloc pseudo_mod init err =
     (reloc, case err of Some e \<Rightarrow> Inl e | None \<Rightarrow> Inr 0)"
| "try_candidates inst (im # ims) reloc pseudo_mod init err =
     (if length (ti_fields inst) \<noteq> length (im_args im) then
        try_candidates inst ims reloc pseudo_mod init (if err = None then Some ArgumentCount else err)
      else
        (case parse_fields inst (im_args im) (ti_fields inst) (im_code im) reloc pseudo_mod init of
           (reloc, Inr c) \<Rightarrow> (reloc, Inr c)
         | (reloc, Inl e) \<Rightarrow>
             if e = OutOfString then (reloc, Inl e)
             else try_candidates inst ims reloc pseudo_mod init (Some e)))"

text \<open>The word 0 is \<^verbatim>\<open>Instruction::UNKNOWN_INST\<close>.\<close>

definition base_from_tokens ::
  "TokenizedInstruction \<Rightarrow> reloc_list \<Rightarrow> Modifier \<Rightarrow> u64 \<Rightarrow> reloc_list \<times> (parse_error + u32)" where
  "base_from_tokens inst reloc pseudo_mod init =
     try_candidates inst (candidates (ti_base inst)) reloc pseudo_mod init None"

text \<open>Two instructions in a row, each with its tokens, modifier and initial value.\<close>

definition two_words ::
  "TokenizedInstruction \<Rightarrow> Modifier \<Rightarrow> u64 \<Rightarrow> TokenizedInstruction \<Rightarrow> Modifier \<Rightarrow> u64 \<Rightarrow> reloc_list \<Rightarrow>
     reloc_list \<times> (parse_error + u32 list)" where
  "two_words i1 m1 v1 i2 m2 v2 reloc =
     (case base_from_tokens i1 reloc m1 v1 of
        (reloc, Inl e) \<Rightarrow> (reloc, Inl e)
      | (reloc, Inr c1) \<Rightarrow>
          (case base_from_tokens i2 reloc m2 v2 of
             (reloc, Inl e) \<Rightarrow> (reloc, Inl e)
           | (reloc, Inr c2) \<Rightarrow> (reloc, Inr [c1, c2])))"

text \<open>
  The shifts of \<^verbatim>\<open>sext.b\<close>, \<^verbatim>\<open>sext.h\<close>, \<^verbatim>\<open>zext.h\<close> and \<^verbatim>\<open>zext.w\<close>.  The tokens of the second instruction have the
  address of the first.
\<close>

definition shift_pair ::
  "TokenizedInstruction \<Rightarrow> string \<Rightarrow> string \<Rightarrow> reloc_list \<Rightarrow> reloc_list \<times> (parse_error + u32 list)" where
  "shift_pair inst amount second reloc =
     (if length (ti_fields inst) \<noteq> 2 then (reloc, Inl ArgumentCount)
      else
        (let i1 = inst\<lparr>ti_base := ''slli'', ti_fields := ti_fields inst @ [amount]\<rparr>;
             i2 = i1\<lparr>ti_base := second, ti_fields := (ti_fields i1)[1 := ti_fields i1 ! 0]\<rparr> in
         two_words i1 MOD_NONE 0 i2 MOD_NONE 0 reloc))"

text \<open>The words of a pseudoinstruction; no word when the name is none.\<close>

definition pseudo_from_tokens ::
  "nat \<Rightarrow> TokenizedInstruction \<Rightarrow> reloc_list \<Rightarrow> reloc_list \<times> (parse_error + u32 list)" where
  "pseudo_from_tokens buffsize inst reloc =
     (let base = ti_base inst; fields = ti_fields inst; addr = ti_address inst;
          at_base = (\<lambda>b fs. inst\<lparr>ti_base := b, ti_fields := fs\<rparr>);
          at_next = (\<lambda>b fs. inst\<lparr>ti_base := b, ti_fields := fs, ti_address := addr + 4\<rparr>) in
      if base = ''nop'' then
        (if fields \<noteq> [] then (reloc, Inl NopArguments) else (reloc, Inr [NOP]))
      else if base = ''la'' \<and> 8 \<le> buffsize then
        (if length fields \<noteq> 2 then (reloc, Inl ArgumentCount)
         else two_words (at_base ''auipc'' fields) COMPOSED_IMM_UPPER (- addr)
                (at_next ''addi'' (fields ! 0 # fields)) COMPOSED_IMM_LOWER (- addr) reloc)
      else if base = ''li'' \<and> 8 \<le> buffsize then
        (if length fields \<noteq> 2 then (reloc, Inl ArgumentCount)
         else two_words (at_base ''lui'' fields) COMPOSED_IMM_UPPER 0
                (at_next ''addi'' (fields ! 0 # fields)) COMPOSED_IMM_LOWER 0 reloc)
      else if base = ''call'' \<and> 8 \<le> buffsize then
        (if length fields \<noteq> 1 then (reloc, Inl ArgumentCount)
         else two_words (at_base ''auipc'' [''x6'', fields ! 0]) COMPOSED_IMM_UPPER (- addr)
                (at_next ''jalr'' [''x1'', fields ! 0 @ ''(x6)'']) COMPOSED_IMM_LOWER (- addr) reloc)
      else if base = ''tail'' \<and> 8 \<le> buffsize then
        (if length fields \<noteq> 1 then (reloc, Inl ArgumentCount)
         else two_words (at_base ''auipc'' [''x6'', fields ! 0]) COMPOSED_IMM_UPPER (- addr)
                (at_next ''jalr'' [''x0'', fields ! 0 @ ''(x6)'']) COMPOSED_IMM_LOWER (- addr) reloc)
      else if base = ''sext.b'' \<and> 8 \<le> buffsize then shift_pair inst ''XLEN-8'' ''srai'' reloc
      else if base = ''sext.h'' \<and> 8 \<le> buffsize then shift_pair inst ''XLEN-16'' ''srai'' reloc
      else if base = ''zext.h'' \<and> 8 \<le> buffsize then shift_pair inst ''XLEN-16'' ''srli'' reloc
      else if base = ''zext.w'' \<and> 8 \<le> buffsize then shift_pair inst ''XLEN-32'' ''srli'' reloc
      else (reloc, Inr []))"

text \<open>The words of an instruction; the method stores them and returns their size in bytes.\<close>

definition code_from_tokens ::
  "nat \<Rightarrow> TokenizedInstruction \<Rightarrow> reloc_list \<Rightarrow> bool \<Rightarrow> reloc_list \<times> (parse_error + u32 list)" where
  "code_from_tokens buffsize inst reloc pseudoinst_enabled =
     (case base_from_tokens inst reloc MOD_NONE 0 of
        (reloc, Inl e) \<Rightarrow> (reloc, Inl e)
      | (reloc, Inr result) \<Rightarrow>
          if result \<noteq> 0 then
            (if unat (inst_size result) > buffsize then (reloc, Inl InsufficientBuffer) else (reloc, Inr [result]))
          else if pseudoinst_enabled then
            (case pseudo_from_tokens buffsize inst reloc of
               (reloc, Inl e) \<Rightarrow> (reloc, Inl e)
             | (reloc, Inr ws) \<Rightarrow> if ws \<noteq> [] then (reloc, Inr ws) else (reloc, Inl UnknownInstruction))
          else (reloc, Inl UnknownInstruction))"

definition partially_apply ::
  "string \<Rightarrow> nat \<Rightarrow> nat \<Rightarrow> string \<Rightarrow> nat \<Rightarrow> TokenizedInstruction \<Rightarrow> reloc_list \<Rightarrow> reloc_list \<times> (parse_error + u32 list)" where
  "partially_apply base argument_count position value buffsize inst reloc =
     (if length (ti_fields inst) \<noteq> argument_count then (reloc, Inl ArgumentCount)
      else code_from_tokens buffsize
        (inst\<lparr>ti_base := base, ti_fields := take position (ti_fields inst) @ [value] @ drop position (ti_fields inst)\<rparr>)
        reloc False)"

definition from_line :: "string \<Rightarrow> address \<Rightarrow> string \<Rightarrow> nat \<Rightarrow> parse_error + TokenizedInstruction" where
  "from_line line_str inst_addr filename line =
     (let s = dropWhile is_space line_str;
          base = takeWhile (\<lambda>c. \<not> is_space c) s;
          rest = trimmed (drop (length base + 1) s) in
      if to_lower base = [] then Inl EmptyInstruction
      else Inr \<lparr>ti_base = to_lower base, ti_fields = (if rest \<noteq> [] then split_at CHR '','' rest else []),
                ti_address = inst_addr, ti_filename = filename, ti_line = line\<rparr>)"

definition code_from_string ::
  "nat \<Rightarrow> string \<Rightarrow> address \<Rightarrow> reloc_list \<Rightarrow> string \<Rightarrow> nat \<Rightarrow> bool \<Rightarrow> reloc_list \<times> (parse_error + u32 list)" where
  "code_from_string buffsize str inst_addr reloc filename line pseudoinst_enabled =
     (case from_line str inst_addr filename line of
        Inl e \<Rightarrow> (reloc, Inl e)
      | Inr inst \<Rightarrow> code_from_tokens buffsize inst reloc pseudoinst_enabled)"

end
