(* ===== verification/Instruction_Names.thy ===== *)
theory Instruction_Names
  imports Instruction_Text Isa_Tables
begin

text \<open>
  The table of instruction names that the assembler searches (\<^verbatim>\<open>str_to_instruction_code_map\<close> of
  \<^verbatim>\<open>src/src/machine/instruction.cpp\<close>): on the tables of the source it is built without a
  refusal, holds every supported instruction, and a name with a number of arguments belongs to
  at most one instruction.
\<close>

section \<open>The table of names\<close>

definition add_entry :: "InstructionMap \<Rightarrow> code_map \<Rightarrow> code_map" where
  "add_entry im cm = build_base_aliases (im_code im) (im_mask im) (im_aliases im) ((im_name im, im_code im) # cm)"

text \<open>On a consistent tree no entry is refused: the table is filled with every supported entry.\<close>

lemma build_base_leaves:
  "im_check im pc pm \<Longrightarrow>
    build_base_entry im pc pm cm = fold add_entry (filter im_supported (im_leaves im)) cm"
  "im_check_table f ims i pc pm \<Longrightarrow>
    build_base_table f ims i pc pm cm =
      fold add_entry (filter im_supported (concat (take (2 ^ bf_count f - i) (map im_leaves ims)))) cm"
proof (induction im pc pm cm and f ims i pc pm cm rule: build_base_entry_build_base_table.induct)
  case (1 nm ty al mc ar c m fl als code base_mask cm)
  then show ?case
    by (auto simp: leaf_ok_def im_supported_def add_entry_def and.commute [of _ base_mask])
next
  case (2 nm ty al mc subs c m f code base_mask cm)
  then show ?case by simp
next
  case (3 f i base_code base_mask cm)
  then show ?case by simp
next
  case (4 f im ims i base_code base_mask cm)
  show ?case
  proof (cases "i < 2 ^ bf_count f")
    case True
    then have "2 ^ bf_count f - i = Suc (2 ^ bf_count f - Suc i)" by simp
    with True 4 show ?thesis by simp
  qed simp
qed

lemma code_map_eq: "str_to_instruction_code_map = fold add_entry instruction_set []"
proof -
  have "im_check_table instruction_map_opcode_field C_inst_map 0 0 (0 OR field_mask32 instruction_map_opcode_field)"
    using C_inst_check by (simp add: C_inst_root_def)
  from build_base_leaves(2) [OF this] show ?thesis
    by (simp add: str_to_instruction_code_map_def instruction_set_def C_inst_root_def)
qed

lemma build_base_aliases_sub:
  "set cm \<subseteq> set (build_base_aliases c m ias cm)"
  "set (build_base_aliases c m ias cm) \<subseteq> set cm \<union> {(n, c) | n. n \<in> im_name ` set ias}"
proof (induction ias arbitrary: cm)
  case (Cons ia ias)
  { case 1 show ?case using Cons(1) by (fastforce split: if_splits) }
  { case 2 show ?case using Cons(2) by (fastforce split: if_splits) }
qed simp_all

lemma add_entries_sub:
  "set cm \<subseteq> set (fold add_entry ims cm)"
  "im \<in> set ims \<Longrightarrow> (im_name im, im_code im) \<in> set (fold add_entry ims cm)"
  "(n, c) \<in> set (fold add_entry ims cm) \<Longrightarrow>
    (n, c) \<in> set cm \<or> (\<exists>im\<in>set ims. c = im_code im \<and> n \<in> im_name ` set (im # im_aliases im))"
proof (induction ims arbitrary: cm)
  case (Cons a ims)
  have grow: "set ((im_name a, im_code a) # cm) \<subseteq> set (add_entry a cm)" for cm
    unfolding add_entry_def by (rule build_base_aliases_sub)
  { case 1
    from grow [of cm] have "set cm \<subseteq> set (add_entry a cm)" by simp
    also note Cons(1)
    finally show ?case by simp }
  { case 2 show ?case using Cons(1,2) [of "add_entry a cm"] grow [of cm] 2 by auto }
  { case 3
    have "set (add_entry a cm) \<subseteq> set ((im_name a, im_code a) # cm) \<union> {(n, im_code a) | n. n \<in> im_name ` set (im_aliases a)}"
      unfolding add_entry_def by (rule build_base_aliases_sub)
    then show ?case using Cons(3) [of "add_entry a cm"] 3 by auto }
qed simp_all

lemma inst_map_code: "im \<in> set instruction_set \<Longrightarrow> inst_map (im_code im) = im"
  by (simp add: inst_map_def find_matching)

lemma candidates_sub:
  assumes "e \<in> set (candidates n)"
  shows "im_name e = n \<and> (\<exists>im\<in>set instruction_set. e \<in> set (im # im_aliases im))"
proof -
  obtain c where c: "(n, c) \<in> set str_to_instruction_code_map" "im_name e = n"
      "e \<in> set (inst_map c # im_aliases (inst_map c))"
    using assms by (auto simp: candidates_def equal_range_def)
  then obtain im where "im \<in> set instruction_set" "c = im_code im"
    using add_entries_sub(3) [of n c instruction_set "[]"] by (auto simp: code_map_eq)
  with c inst_map_code show ?thesis by auto
qed

lemma candidates_entry: "im \<in> set instruction_set \<Longrightarrow> im \<in> set (candidates (im_name im))"
  using add_entries_sub(2) [of im instruction_set "[]"] inst_map_code
  by (force simp: candidates_def equal_range_def code_map_eq)

text \<open>
  What is computed on the tables: no two instructions share a name and a number of arguments, and no
  alias shares both with an instruction; names are in lower case and without white space or separators.
\<close>

definition entry_key :: "InstructionMap \<Rightarrow> string \<times> nat" where
  "entry_key im = (im_name im, length (im_args im))"

text \<open>A character that does not end a token of a line.\<close>

definition line_char :: "char \<Rightarrow> bool" where
  "line_char c = (\<not> is_space c \<and> c \<notin> set [CHR '','', CHR '':'', CHR '';'', CHR ''#'', CHR ''/'', CHR ''\"''])"

definition name_char :: "char \<Rightarrow> bool" where
  "name_char c = (line_char c \<and> to_lower_char c = c)"

definition instruction_keys :: "(string \<times> nat) list" where
  "instruction_keys = [(''lb'', 2), (''lh'', 2), (''lw'', 2), (''ld'', 2), (''lbu'', 2), (''lhu'', 2), (''lwu'', 2),
    (''fence'', 0), (''fence.i'', 0), (''addi'', 3), (''slli'', 3), (''slti'', 3), (''sltiu'', 3),
    (''xori'', 3), (''srli'', 3), (''srai'', 3), (''ori'', 3), (''andi'', 3), (''auipc'', 2), (''addiw'', 3),
    (''slliw'', 3), (''srliw'', 3), (''sraiw'', 3), (''sb'', 2), (''sh'', 2), (''sw'', 2), (''sd'', 2),
    (''amoadd.w'', 3), (''amoadd.w.rl'', 3), (''amoadd.w.aq'', 3), (''amoadd.w.aqrl'', 3),
    (''amoswap.w'', 3), (''amoswap.w.rl'', 3), (''amoswap.w.aq'', 3), (''amoswap.w.aqrl'', 3), (''lr.w'', 2),
    (''lr.w.rl'', 2), (''lr.w.aq'', 2), (''lr.w.aqrl'', 2), (''sc.w'', 3), (''sc.w.rl'', 3),
    (''sc.w.aq'', 3), (''sc.w.aqrl'', 3), (''amoxor.w'', 3), (''amoxor.w.rl'', 3), (''amoxor.w.aq'', 3),
    (''amoxor.w.aqrl'', 3), (''amoor.w'', 3), (''amoor.w.rl'', 3), (''amoor.w.aq'', 3),
    (''amoor.w.aqrl'', 3), (''amoand.w'', 3), (''amoand.w.rl'', 3), (''amoand.w.aq'', 3),
    (''amoand.w.aqrl'', 3), (''amomin.w'', 3), (''amomin.w.rl'', 3), (''amomin.w.aq'', 3),
    (''amomin.w.aqrl'', 3), (''amomax.w'', 3), (''amomax.w.rl'', 3), (''amomax.w.aq'', 3),
    (''amomax.w.aqrl'', 3), (''amominu.w'', 3), (''amominu.w.rl'', 3), (''amominu.w.aq'', 3),
    (''amominu.w.aqrl'', 3), (''amomaxu.w'', 3), (''amomaxu.w.rl'', 3), (''amomaxu.w.aq'', 3),
    (''amomaxu.w.aqrl'', 3), (''amoadd.d'', 3), (''amoadd.d.rl'', 3), (''amoadd.d.aq'', 3),
    (''amoadd.d.aqrl'', 3), (''amoswap.d'', 3), (''amoswap.d.rl'', 3), (''amoswap.d.aq'', 3),
    (''amoswap.d.aqrl'', 3), (''lr.d'', 2), (''lr.d.rl'', 2), (''lr.d.aq'', 2), (''lr.d.aqrl'', 2),
    (''sc.d'', 3), (''sc.d.rl'', 3), (''sc.d.aq'', 3), (''sc.d.aqrl'', 3), (''amoxor.d'', 3),
    (''amoxor.d.rl'', 3), (''amoxor.d.aq'', 3), (''amoxor.d.aqrl'', 3), (''amoor.d'', 3),
    (''amoor.d.rl'', 3), (''amoor.d.aq'', 3), (''amoor.d.aqrl'', 3), (''amoand.d'', 3), (''amoand.d.rl'', 3),
    (''amoand.d.aq'', 3), (''amoand.d.aqrl'', 3), (''amomin.d'', 3), (''amomin.d.rl'', 3),
    (''amomin.d.aq'', 3), (''amomin.d.aqrl'', 3), (''amomax.d'', 3), (''amomax.d.rl'', 3),
    (''amomax.d.aq'', 3), (''amomax.d.aqrl'', 3), (''amominu.d'', 3), (''amominu.d.rl'', 3),
    (''amominu.d.aq'', 3), (''amominu.d.aqrl'', 3), (''amomaxu.d'', 3), (''amomaxu.d.rl'', 3),
    (''amomaxu.d.aq'', 3), (''amomaxu.d.aqrl'', 3), (''add'', 3), (''sub'', 3), (''sll'', 3), (''slt'', 3),
    (''sltu'', 3), (''xor'', 3), (''srl'', 3), (''sra'', 3), (''or'', 3), (''and'', 3), (''mul'', 3),
    (''mulh'', 3), (''mulhsu'', 3), (''mulhu'', 3), (''div'', 3), (''divu'', 3), (''rem'', 3), (''remu'', 3),
    (''lui'', 2), (''addw'', 3), (''subw'', 3), (''sllw'', 3), (''srlw'', 3), (''sraw'', 3), (''mulw'', 3),
    (''divw'', 3), (''divuw'', 3), (''remw'', 3), (''remuw'', 3), (''beq'', 3), (''bne'', 3), (''blt'', 3),
    (''bge'', 3), (''bltu'', 3), (''bgeu'', 3), (''jalr'', 2), (''jal'', 2), (''ecall'', 0), (''ebreak'', 0),
    (''sret'', 0), (''wfi'', 0), (''sfence.vma'', 2), (''mret'', 0), (''csrrw'', 3), (''csrrs'', 3),
    (''csrrc'', 3), (''csrrwi'', 3), (''csrrsi'', 3), (''csrrci'', 3)]"

definition alias_keys :: "(string \<times> nat) list" where
  "alias_keys = [(''mv'', 2), (''seqz'', 2), (''not'', 2), (''zext.b'', 2), (''sext.w'', 2), (''neg'', 2), (''sltz'', 2),
     (''sgtz'', 2), (''snez'', 2), (''negw'', 2), (''beqz'', 2), (''bnez'', 2), (''bltz'', 2), (''bgtz'', 2), (''bgt'', 3),
     (''bgez'', 2), (''ble'', 3), (''blez'', 2), (''bgtu'', 3), (''bleu'', 3), (''ret'', 0), (''jr'', 1), (''jr'', 1),
     (''jalr'', 1), (''jalr'', 1), (''jalr'', 3), (''j'', 1), (''jal'', 1), (''csrw'', 2), (''csrr'', 2)]"

lemmas alias_defs = inst_aliases_addi_def inst_aliases_andi_def inst_aliases_addiw_def inst_aliases_xori_def
  inst_aliases_sub_def inst_aliases_subw_def inst_aliases_sltiu_def inst_aliases_sltu_def inst_aliases_slt_def
  inst_aliases_beq_def inst_aliases_bne_def inst_aliases_blt_def inst_aliases_bge_def inst_aliases_bltu_def
  inst_aliases_bgeu_def inst_aliases_jal_def inst_aliases_jalr_def inst_aliases_csrrw_def inst_aliases_csrrs_def
  IM_ALIAS_def

lemmas leaf_defs = instruction_set_def C_inst_root_def instruction_map_opcode_field_def table_defs IM_UNKNOWN_def
  im_supported_def has_flag_def flag_defs

lemma instruction_keys: "map entry_key instruction_set = instruction_keys"
  unfolding instruction_keys_def by (simp add: leaf_defs entry_key_def)

lemma alias_keys: "map entry_key (concat (map im_aliases instruction_set)) = alias_keys"
  unfolding alias_keys_def by (simp add: leaf_defs entry_key_def alias_defs)

lemma names_distinct: "distinct (map fst instruction_keys)"
  unfolding instruction_keys_def by simp

lemma alias_keys_new: "list_all (\<lambda>k. k \<notin> set instruction_keys) alias_keys"
  unfolding instruction_keys_def alias_keys_def by simp

lemma names_lower: "list_all (\<lambda>(n, _). n \<noteq> [] \<and> list_all name_char n \<and> n \<noteq> ''nop'' \<and> hd n \<noteq> CHR ''.'') (instruction_keys @ alias_keys)"
  by code_simp

text \<open>The arguments: a letter with a descriptor is followed by a bracket or is the last.\<close>

definition arg_shapes :: "string list" where
  "arg_shapes = [''d'', ''s'', ''t'', ''j'', ''>'', ''a'', ''u'', ''p'', ''E'', ''Z'', ''(s)'', ''o(s)'', ''q(s)'']"

lemma entries_shape:
  "list_all (\<lambda>im. im_type im \<noteq> IT_UNKNOWN \<and> im_code im \<noteq> 0 \<and> set (im_args im) \<subseteq> set arg_shapes) instruction_set"
  by (simp add: leaf_defs arg_shapes_def)

text \<open>The entry of an instruction is the only candidate for its name with its number of arguments.\<close>

lemma candidates_unique:
  assumes L: "L \<in> set instruction_set" and e: "e \<in> set (candidates (im_name L))"
    and len: "length (im_args e) = length (im_args L)"
  shows "e = L"
proof -
  obtain im where im: "im \<in> set instruction_set" "e = im \<or> e \<in> set (im_aliases im)" and n: "im_name e = im_name L"
    using candidates_sub [OF e] by auto
  have key: "entry_key e = entry_key L" by (simp add: entry_key_def n len)
  have "inj_on im_name (set instruction_set)"
    using names_distinct by (simp add: instruction_keys [symmetric] distinct_map comp_def entry_key_def inj_on_def)
  moreover have False if "e \<in> set (im_aliases im)"
  proof -
    have "entry_key e \<in> set alias_keys" using im(1) that by (force simp: alias_keys [symmetric])
    moreover have "entry_key L \<in> set instruction_keys" using L by (force simp: instruction_keys [symmetric])
    ultimately show False using alias_keys_new key by (auto simp: list_all_iff)
  qed
  ultimately show ?thesis using im L n by (auto dest: inj_onD)
qed

lemma candidates_nop: "candidates ''nop'' = []"
proof -
  have "entry_key im \<in> set instruction_keys" "\<forall>a\<in>set (im_aliases im). entry_key a \<in> set alias_keys"
    if "im \<in> set instruction_set" for im
    using that by (force simp: instruction_keys [symmetric] alias_keys [symmetric])+
  then have "e \<notin> set (candidates ''nop'')" for e
    using names_lower candidates_sub [of e "''nop''"] by (fastforce simp: list_all_iff entry_key_def)
  then show ?thesis by (meson last_in_set)
qed

text \<open>Entries with another number of arguments are passed over.\<close>

lemma try_candidates_found:
  assumes "L \<in> set cs" "\<forall>e\<in>set cs. length (im_args e) = length (im_args L) \<longrightarrow> e = L"
    and "length (ti_fields inst) = length (im_args L)"
    and "parse_fields inst (im_args L) (ti_fields inst) (im_code L) reloc md init = (reloc', Inr w)"
  shows "try_candidates inst cs reloc md init err = (reloc', Inr w)"
  using assms(1,2)
proof (induction cs arbitrary: err)
  case (Cons e cs)
  then show ?case using assms(3,4) by (cases "e = L") auto
qed simp

lemma base_from_tokens_found:
  assumes "L \<in> set instruction_set" "ti_base inst = im_name L" "length (ti_fields inst) = length (im_args L)"
    and "parse_fields inst (im_args L) (ti_fields inst) (im_code L) reloc md init = (reloc', Inr w)"
  shows "base_from_tokens inst reloc md init = (reloc', Inr w)"
  unfolding base_from_tokens_def assms(2)
  using assms candidates_entry candidates_unique by (intro try_candidates_found) auto

end
