(* ===== verification/Instruction_Round_Trip.thy ===== *)
theory Instruction_Round_Trip
  imports Instruction_Names
begin

text \<open>
  What is printed can be assembled again: for every supported instruction, the text that
  \<^verbatim>\<open>Instruction::to_str\<close> prints for a word is parsed by \<^verbatim>\<open>Instruction::code_from_string\<close> to the same word,
  with register numbers and with register names.  The exceptions are named in the hypotheses.
\<close>

section \<open>Fields\<close>

lemma bf_encode_take:
  "bf_count f \<le> n \<Longrightarrow> bf_count f < 64 \<Longrightarrow> bf_encode f (take_bit n x) = bf_encode f (x :: u32)"
  by (rule bit_word_eqI) (auto simp: bit_bf_encode bit_simps)

lemma sbf_encode_loop_take:
  "\<forall>f\<in>set fs. bf_count f < 64 \<Longrightarrow> sbf_encode_loop fs (take_bit (sbf_width fs) x) r = sbf_encode_loop fs x r"
proof (induction fs arbitrary: x r)
  case (Cons f fs)
  have "drop_bit (bf_count f) (take_bit (bf_count f + sbf_width fs) x) = take_bit (sbf_width fs) (drop_bit (bf_count f) x)"
    by (simp add: drop_bit_take_bit)
  with Cons show ?case by (simp add: bf_encode_take)
qed simp

lemma sbf_encode_cong:
  assumes "sbf_ok s" "take_bit (sbf_width (sbf_fields s)) (drop_bit (sbf_shift s) x) =
    take_bit (sbf_width (sbf_fields s)) (drop_bit (sbf_shift s) y)"
  shows "sbf_encode s x = sbf_encode s y"
proof -
  have "\<forall>f\<in>set (sbf_fields s). bf_count f < 64"
    using sbf_fields_ok_count assms(1) by (auto simp: sbf_ok_def)
  from sbf_encode_loop_take [OF this] assms(2) show ?thesis unfolding sbf_encode_def by metis
qed

text \<open>The descriptors of the source.\<close>

lemma arg_desc_listed:
  assumes "arg_desc_by_code c = Some d" shows "d \<in> set arg_desc_list \<and> ad_name d = c"
proof -
  have "fold (\<lambda>d t. t(ad_name d \<mapsto> d)) ds m c = Some d \<Longrightarrow> m c = Some d \<or> d \<in> set ds \<and> ad_name d = c" for ds m
  proof (induction ds arbitrary: m)
    case (Cons a ds)
    from Cons.IH [of "m(ad_name a \<mapsto> a)"] Cons.prems show ?case by (auto split: if_splits)
  qed simp
  from this [of arg_desc_list Map.empty] show ?thesis using assms by (simp add: arg_desc_by_code_def)
qed

definition desc_kind_ok :: "ArgumentDesc \<Rightarrow> bool" where
  "desc_kind_ok d = (let k = ad_kind d; s = sbf_shift (ad_arg d); w = sbf_width (sbf_fields (ad_arg d)) in
     k = CHR ''g'' \<and> ad_min d = 0 \<and> ad_max d = 31 \<and> s = 0 \<and> w = 5
     \<or> (k = CHR ''o'' \<or> k = CHR ''n'') \<and> ad_min d = - 2048 \<and> ad_max d = 2047 \<and> s = 0 \<and> w = 12
     \<or> k = CHR ''n'' \<and> ad_min d = 0 \<and> s = 0 \<and> (ad_max d = 31 \<and> w = 5 \<or> ad_max d = 0xfffff000 \<and> w = 20)
     \<or> (k = CHR ''a'' \<or> k = CHR ''p'') \<and> ad_min d < 0 \<and> 0 < w
     \<or> ad_name d = CHR ''E'' \<and> k = CHR ''E'' \<and> ad_min d = 0 \<and> ad_max d = 0xfff \<and> s = 0 \<and> w = 12)"

lemma desc_kinds: "arg_desc_by_code c = Some d \<Longrightarrow> desc_kind_ok d"
proof -
  have "list_all desc_kind_ok arg_desc_list"
    by (simp add: arg_desc_list_def desc_kind_ok_def ad_def Let_def sbf_width_def)
  then show "arg_desc_by_code c = Some d \<Longrightarrow> desc_kind_ok d"
    using arg_desc_listed by (auto simp: list_all_iff)
qed

text \<open>The value of a field of an assembled word, and that it is encoded to the same bits again.\<close>

lemma signed_take_bit_bounds:
  fixes x :: "'a::len word" assumes "n < LENGTH('a)"
  shows "- (2 ^ n) \<le> sint (signed_take_bit n x)" "sint (signed_take_bit n x) < 2 ^ n"
proof -
  define k where "k = signed_take_bit n (uint x)"
  have k: "- (2 ^ n) \<le> k" "k < 2 ^ n"
    by (simp_all add: k_def signed_take_bit_int_greater_eq_minus_exp signed_take_bit_int_less_exp)
  have "signed_take_bit n x = word_of_int k"
    using signed_take_bit_of_int [of n "uint x", where ?'a = "'a word"] by (simp add: k_def)
  moreover have "sint (word_of_int k :: 'a word) = k"
  proof -
    have "(2::int) ^ n \<le> 2 ^ (LENGTH('a) - 1)" using assms by (intro power_increasing) simp_all
    then have "- (2 ^ (LENGTH('a) - 1)) \<le> k" "k < 2 ^ (LENGTH('a) - 1)" using k by linarith+
    then show ?thesis by (simp add: signed_of_int signed_take_bit_int_eq_self)
  qed
  ultimately show "- (2 ^ n) \<le> sint (signed_take_bit n x)" "sint (signed_take_bit n x) < 2 ^ n" using k by simp_all
qed

lemma field_value_assemble:
  fixes v :: "char \<Rightarrow> u64"
  assumes "im \<in> set instruction_set" "c \<in> set (concat (im_args im))" "arg_desc_by_code c = Some d"
  defines "F \<equiv> field_value d (assemble im v)"
  shows "sbf_encode (ad_arg d) F = encode_letter c (v c)"
    "0 \<le> ad_min d \<Longrightarrow> uint F < 2 ^ (sbf_shift (ad_arg d) + sbf_width (sbf_fields (ad_arg d)))"
    "ad_min d < 0 \<Longrightarrow> - (2 ^ (sbf_shift (ad_arg d) + sbf_width (sbf_fields (ad_arg d)) - 1)) \<le> sint F \<and>
      sint F < 2 ^ (sbf_shift (ad_arg d) + sbf_width (sbf_fields (ad_arg d)) - 1)"
proof -
  let ?s = "sbf_shift (ad_arg d)" and ?w = "sbf_width (sbf_fields (ad_arg d))"
  define x :: u32 where "x = ucast (v c)"
  define D where "D = push_bit ?s (take_bit ?w (drop_bit ?s x))"
  note ok = arg_desc_ok [OF assms(3)]
  have le: "?s + ?w \<le> 32" "0 < ?s + ?w" using ok desc_kinds [OF assms(3)] by (auto simp: sbf_ok_def desc_kind_ok_def Let_def)
  have "sbf_decode (ad_arg d) (assemble im v) = D"
    using decode_assemble [OF assms(1-3), of v] sbf_decode_encode [OF ok] by (simp add: D_def x_def)
  then have F: "F = (if ad_min d < 0 then inst_extend D (?s + ?w) else D)"
    by (simp add: F_def field_value_def sbf_width_def)
  have tb: "take_bit (?s + ?w) D = D"
    by (rule bit_word_eqI) (auto simp: D_def bit_simps)
  have sg: "inst_extend D (?s + ?w) = signed_take_bit (?s + ?w - 1) D"
    using inst_extend_signed [OF le(2,1) tb] .
  have "take_bit ?w (drop_bit ?s F) = take_bit ?w (drop_bit ?s x)"
  proof (rule bit_word_eqI)
    fix n assume "n < LENGTH(32)"
    show "bit (take_bit ?w (drop_bit ?s F)) n = bit (take_bit ?w (drop_bit ?s x)) n"
    proof (cases "n < ?w")
      case True
      then have "min (?s + n) (?s + ?w - 1) = ?s + n" by simp
      with True show ?thesis using le unfolding F sg by (auto simp: bit_simps D_def)
    qed (simp add: bit_simps)
  qed
  from sbf_encode_cong [OF ok this] show "sbf_encode (ad_arg d) F = encode_letter c (v c)"
    by (simp add: encode_letter_def assms(3) x_def)
  show "0 \<le> ad_min d \<Longrightarrow> uint F < 2 ^ (?s + ?w)"
  proof -
    assume "0 \<le> ad_min d"
    then have "uint F = take_bit (?s + ?w) (uint D)" using tb by (simp add: F flip: unsigned_take_bit_eq)
    then show ?thesis by simp
  qed
  show "- (2 ^ (?s + ?w - 1)) \<le> sint F \<and> sint F < 2 ^ (?s + ?w - 1)" if "ad_min d < 0"
    using signed_take_bit_bounds [of "?s + ?w - 1" D] le that by (simp add: F sg)
qed

section \<open>The text of a field\<close>

text \<open>What follows a field inside an argument: nothing or a bracket.\<close>

definition field_end :: "string \<Rightarrow> bool" where
  "field_end s = (s = [] \<or> hd s = CHR ''('' \<or> hd s = CHR '')'')"

lemma bracket_char:
  "c = CHR ''('' \<or> c = CHR '')'' \<Longrightarrow> \<not> is_letter_or_number c \<and> \<not> is_digit c \<and> \<not> c_isspace c \<and> line_char c"
  by (auto simp: is_letter_or_number_def is_letter_def is_digit_def c_isspace_def is_space_def char_code_def line_char_def)

lemma field_end_number: "field_end s \<Longrightarrow> ends_number s"
  using bracket_char by (auto simp: field_end_def ends_number_def)

lemma read_reg_number_stop:
  "s = [] \<or> \<not> is_digit (hd s) \<Longrightarrow> read_reg_number (t @ s) r k = read_reg_number t r k"
  by (induction t arbitrary: r k; cases s) auto

lemma reg_numbers:
  "list_all (\<lambda>n. parse_reg_from_string (CHR ''x'' # show_nat 10 n) = (int n, length (CHR ''x'' # show_nat 10 n))) [0..<32]"
  by code_simp

lemma parse_reg_number:
  assumes "n < 32" "field_end s"
  shows "parse_reg_from_string ((CHR ''x'' # show_nat 10 n) @ s) = (int n, length (CHR ''x'' # show_nat 10 n))"
proof -
  have l: "2 \<le> length (CHR ''x'' # show_nat 10 n)" using show_nat_nonempty [of 10 n] by (cases "show_nat 10 n") simp_all
  have "s = [] \<or> \<not> is_digit (hd s)" using assms(2) bracket_char by (auto simp: field_end_def)
  with l have "parse_reg_from_string ((CHR ''x'' # show_nat 10 n) @ s) = parse_reg_from_string (CHR ''x'' # show_nat 10 n)"
    by (simp add: parse_reg_from_string_def read_reg_number_stop)
  also have "\<dots> = (int n, length (CHR ''x'' # show_nat 10 n))" using reg_numbers assms(1) by (simp add: list_all_iff)
  finally show ?thesis .
qed

definition plain_name :: "string \<Rightarrow> bool" where
  "plain_name n = list_all (\<lambda>c. c \<noteq> CHR ''('' \<and> c \<noteq> CHR '')'' \<and> line_char c) n"

lemma starts_with_end: "plain_name n \<Longrightarrow> field_end s \<Longrightarrow> starts_with (t @ s) n = starts_with t n"
proof (cases "length n \<le> length t")
  case False
  assume n: "plain_name n" and s: "field_end s"
  have "\<not> starts_with (t @ s) n"
  proof
    assume "starts_with (t @ s) n"
    then have e: "take (length n) (t @ s) = n" by (simp add: starts_with_def)
    then have "length n \<le> length (t @ s)" by (metis length_take min.cobounded1)
    with False have s0: "s \<noteq> []" by auto
    have "n ! length t = (t @ s) ! length t" using e False by (metis not_le nth_take)
    then have "n ! length t = hd s" using s0 by (simp add: nth_append hd_conv_nth)
    moreover have "n ! length t \<in> set n" using False by simp
    ultimately show False using n s s0 by (auto simp: plain_name_def field_end_def list_all_iff)
  qed
  moreover have "\<not> starts_with t n" using False by (metis length_take min.cobounded1 not_le starts_with_def)
  ultimately show ?thesis by simp
qed (simp add: starts_with_def)

lemma reg_names:
  "list_all (\<lambda>n. parse_reg_from_string (Rv_regnames ! n) = (int n, length (Rv_regnames ! n)) \<and>
     plain_name (Rv_regnames ! n) \<and> 2 \<le> length (Rv_regnames ! n) \<and> hd (Rv_regnames ! n) \<noteq> CHR ''x'') [0..<32]"
  "list_all plain_name Rv_regnames"
  by code_simp+

lemma match_reg_name_end:
  "list_all plain_name ns \<Longrightarrow> field_end s \<Longrightarrow> match_reg_name ns i (t @ s) f = match_reg_name ns i t f"
  by (induction ns arbitrary: i f) (simp_all add: starts_with_end)

lemma parse_reg_name:
  assumes "n < 32" "field_end s"
  shows "parse_reg_from_string (Rv_regnames ! n @ s) = (int n, length (Rv_regnames ! n))"
proof -
  have n: "parse_reg_from_string (Rv_regnames ! n) = (int n, length (Rv_regnames ! n))"
    "2 \<le> length (Rv_regnames ! n)" "hd (Rv_regnames ! n) \<noteq> CHR ''x''"
    using reg_names(1) assms(1) by (simp_all add: list_all_iff)
  moreover from n(2) have "Rv_regnames ! n \<noteq> []" by auto
  ultimately show ?thesis
    using match_reg_name_end [OF reg_names(2) assms(2)] by (simp add: parse_reg_from_string_def)
qed

lemma csr_by_name: "i \<noteq> CSR_STIMECMP \<Longrightarrow> parse_csr_address (csr_name (REGISTERS i)) =
    (csr_address (REGISTERS i), length (csr_name (REGISTERS i))) \<and> plain_name (csr_name (REGISTERS i)) \<and> csr_name (REGISTERS i) \<noteq> []"
proof -
  have "list_all (\<lambda>i. i = CSR_STIMECMP \<or> parse_csr_address (csr_name (REGISTERS i)) =
    (csr_address (REGISTERS i), length (csr_name (REGISTERS i))) \<and> plain_name (csr_name (REGISTERS i)) \<and>
      csr_name (REGISTERS i) \<noteq> []) csr_ids"
    by code_simp
  then show "i \<noteq> CSR_STIMECMP \<Longrightarrow> ?thesis" using csr_ids_all [of i] by (auto simp: list_all_iff)
qed

text \<open>A number that ends there is no relocation.\<close>

lemma parse_immediate_number:
  assumes "T \<noteq> []" "is_digit (hd T) \<or> hd T = CHR ''-''" "field_end s"
    and "(if ad_min d < 0 then strtoll (T @ s) else strtoull (T @ s)) = (num, length T)"
  shows "parse_immediate_value (T @ s) addr reloc fn ln False d md val = (val + num, length T, reloc)"
proof -
  have "takeWhile c_isspace s = []" "\<not> (s \<noteq> [] \<and> hd s \<in> set ''+-/*|&^~%'')"
    using assms(3) bracket_char by (cases s; auto simp: field_end_def)+
  with assms show ?thesis
    by (auto simp: parse_immediate_value_def Let_def split: option.splits)
qed

lemma show_int_hd: "is_digit (hd (show_int i)) \<or> hd (show_int i) = CHR ''-''" "show_int i \<noteq> []"
proof -
  have "is_digit (hd (show_nat 10 n))" for n
    using is_digit_of_cases [OF show_nat_hd [of 10 n]] by (simp add: is_digit_def)
  then show "is_digit (hd (show_int i)) \<or> hd (show_int i) = CHR ''-''" "show_int i \<noteq> []" by (simp_all add: show_int_def)
qed

lemma asHex_hd: "is_digit (hd (asHex i)) \<or> hd (asHex i) = CHR ''-''" "asHex i \<noteq> []"
  by (simp_all add: asHex_def is_digit_def char_code_def)

text \<open>
  The fields that are printed so that they can be read: the offset of a jump or branch is in the range
  of its descriptor and its target an address of 32 bits; the register whose name in the table
  ends with a space has no symbolic name that can be read.
\<close>

definition field_printable :: "bool \<Rightarrow> ArgumentDesc \<Rightarrow> address \<Rightarrow> u32 \<Rightarrow> bool" where
  "field_printable symbolic d addr F =
     ((ad_kind d = CHR ''a'' \<or> ad_kind d = CHR ''p'' \<longrightarrow>
         ad_min d \<le> sint F \<and> sint F \<le> ad_max d \<and> 0 \<le> uint addr + sint F \<and> uint addr + sint F < 2 ^ 32) \<and>
      (symbolic \<and> ad_kind d = CHR ''E'' \<longrightarrow> ucast F \<noteq> csr_address (REGISTERS CSR_STIMECMP)))"

definition field_number :: "ArgumentDesc \<Rightarrow> u32 \<Rightarrow> u64" where
  "field_number d F = (if ad_min d < 0 then scast F else ucast F)"

lemma field_number_low [simp]: "ucast (field_number d F) = F"
  by (rule bit_word_eqI) (simp add: field_number_def bit_simps)

lemma sint_scast64: "sint (scast (F :: u32) :: u64) = sint F"
proof -
  have "- (2 ^ 31) \<le> sint F" "sint F < 2 ^ 31" using sint_range_size [of F] by (simp_all add: word_size)
  then show ?thesis by (simp add: signed_scast_eq signed_take_bit_int_eq_self)
qed

lemma target_text:
  fixes F :: u32 and addr :: u64
  assumes "0 \<le> uint addr + sint F" "uint addr + sint F < 2 ^ 32"
  shows "uint (F + ucast addr) = uint addr + sint F" "- addr + word_of_int (uint addr + sint F) = scast F"
proof -
  have "F + ucast addr = word_of_int (uint addr + sint F)" by simp
  then show "uint (F + ucast addr) = uint addr + sint F"
    using assms by (simp only: unsigned_of_int) (simp add: take_bit_int_eq_self)
  show "- addr + word_of_int (uint addr + sint F) = scast F" by simp
qed

text \<open>No text of a field has white space or a comma.\<close>

lemma digits_plain: "2 \<le> b \<Longrightarrow> b \<le> 36 \<Longrightarrow> plain_name (show_nat b n)"
proof -
  assume b: "2 \<le> b" "b \<le> 36"
  have "is_digit_of b c \<Longrightarrow> c \<noteq> CHR ''('' \<and> c \<noteq> CHR '')'' \<and> line_char c" for c
    by (auto simp: line_char_def is_digit_of_def digit_value_def is_space_def char_code_def Let_def split: if_splits)
  then show ?thesis using show_nat_digits [OF b] by (auto simp: plain_name_def list_all_iff)
qed

lemma plain_simps [simp]:
  "plain_name []" "plain_name (c # s) \<longleftrightarrow> c \<noteq> CHR ''('' \<and> c \<noteq> CHR '')'' \<and> line_char c \<and> plain_name s"
  by (simp_all add: plain_name_def)

lemma number_plain: "plain_name (show_int i)" "plain_name (asHex i)"
proof -
  have "line_char CHR ''-''" "line_char CHR ''0''" "line_char CHR ''x''" by (simp_all add: line_char_def is_space_def char_code_def)
  then show "plain_name (show_int i)" "plain_name (asHex i)" by (simp_all add: show_int_def asHex_def digits_plain)
qed

text \<open>What is printed for a field is read as its value, which passes the range check.\<close>

definition field_reads :: "bool \<Rightarrow> ArgumentDesc \<Rightarrow> address \<Rightarrow> u32 \<Rightarrow> string \<Rightarrow> bool" where
  "field_reads symbolic d addr F s = (let T = field_text symbolic d addr F in
     (\<forall>reloc fn ln. parse_value d (T @ s) addr reloc fn ln MOD_NONE 0 = (reloc, Inr (field_number d F, length T))) \<and>
     T \<noteq> [] \<and> plain_name T \<and> is_value_in_field_range d (field_number d F))"

lemma field_reads_register:
  assumes "ad_kind d = CHR ''g''" "ad_min d = 0" "ad_max d = 31" "uint F < 32" "field_end s"
  shows "field_reads symbolic d addr F s"
proof -
  define n where "n = unat F"
  have n2: "uint F = int n" by (simp add: n_def)
  have n: "n < 32" "uint F = int n" using assms(4) n2 by simp_all
  have sn: "sint F = int n"
    using n by (simp add: sint_uint signed_take_bit_int_eq_self)
  have "word_of_int (uint F) = (ucast F :: u64)" by simp
  then have val: "word_of_int (int n) = (ucast F :: u64)" unfolding n(2) .
  have rng: "is_value_in_field_range d (field_number d F)"
    using n assms(2,3) by (simp add: is_value_in_field_range_def field_number_def unsigned_ucast_eq take_bit_int_eq_self)
  have "2 \<le> length (Rv_regnames ! n)" "plain_name (Rv_regnames ! n)"
    using reg_names(1) n(1) by (simp_all add: list_all_iff)
  then have nm: "Rv_regnames ! n \<noteq> []" "plain_name (Rv_regnames ! n)" by auto
  have "line_char CHR ''x''" by (simp add: line_char_def is_space_def char_code_def)
  then show ?thesis
    using parse_reg_number [OF n(1) assms(5)] parse_reg_name [OF n(1) assms(5)] val rng nm assms(1,2)
    by (simp add: field_reads_def field_text_def parse_value_def sn show_int_def digits_plain n_def [symmetric] field_number_def)
qed

lemma field_reads_signed:
  assumes "ad_kind d = CHR ''o'' \<or> ad_kind d = CHR ''n''" "ad_min d = - 2048" "ad_max d = 2047"
    and "- 2048 \<le> sint F" "sint F < 2048" "field_end s"
  shows "field_reads symbolic d addr F s"
proof -
  have "strtoll (show_int (sint F) @ s) = (scast F, length (show_int (sint F)))"
    using strtoll_show_int [OF field_end_number [OF assms(6)], of "sint F"] assms(4,5) by simp
  then have "parse_immediate_value (show_int (sint F) @ s) addr reloc fn ln False d MOD_NONE val =
      (val + scast F, length (show_int (sint F)), reloc)" for reloc fn ln val
    using assms(2,6) show_int_hd by (intro parse_immediate_number) simp_all
  then show ?thesis
    using assms show_int_hd(2) [of "sint F"] number_plain(1) [of "sint F"]
    by (auto simp: field_reads_def field_text_def parse_value_def is_value_in_field_range_def field_number_def sint_scast64)
qed

lemma field_reads_unsigned:
  assumes "ad_kind d = CHR ''n''" "ad_min d = 0" "uint F \<le> ad_max d" "ad_max d < 2 ^ 32" "field_end s"
  shows "field_reads symbolic d addr F s"
proof -
  have u: "uint F < 2 ^ 32" using assms(3,4) by simp
  have "strtoull (asHex (uint F) @ s) = (ucast F, length (asHex (uint F)))"
    using strtoull_asHex [OF field_end_number [OF assms(5)], of "uint F"] u by simp
  then have "parse_immediate_value (asHex (uint F) @ s) addr reloc fn ln False d MOD_NONE val =
      (val + ucast F, length (asHex (uint F)), reloc)" for reloc fn ln val
    using assms(2,5) asHex_hd by (intro parse_immediate_number) simp_all
  moreover have "uint (ucast F :: u64) = uint F" using u by (simp add: unsigned_ucast_eq take_bit_int_eq_self)
  moreover have "uint (word_of_int (ad_max d) :: u64) = ad_max d"
    using assms(3,4) by (intro uint_word_of_int64) (auto intro: order_trans [of 0 "uint F"])
  ultimately show ?thesis
    using assms asHex_hd(2) [of "uint F"] number_plain(2) [of "uint F"]
    by (auto simp: field_reads_def field_text_def parse_value_def is_value_in_field_range_def field_number_def)
qed

lemma field_reads_target:
  assumes "ad_kind d = CHR ''a'' \<or> ad_kind d = CHR ''p''" "ad_min d < 0" "field_printable symbolic d addr F" "field_end s"
  shows "field_reads symbolic d addr F s"
proof -
  have r: "0 \<le> uint addr + sint F" "uint addr + sint F < 2 ^ 32" "ad_min d \<le> sint F" "sint F \<le> ad_max d"
    using assms(1,3) by (auto simp: field_printable_def)
  define a where "a = uint addr + sint F"
  have "strtoll (asHex a @ s) = (word_of_int a, length (asHex a))"
    using strtoll_asHex [OF field_end_number [OF assms(4)]] r(1,2) by (simp add: a_def)
  then have "parse_immediate_value (asHex a @ s) addr reloc fn ln False d MOD_NONE (- addr) =
      (- addr + word_of_int a, length (asHex a), reloc)" for reloc fn ln
    using assms(2,4) asHex_hd by (intro parse_immediate_number) simp_all
  moreover have "- addr + word_of_int a = scast F" "uint (F + ucast addr) = a"
    using target_text [OF r(1,2)] by (simp_all add: a_def)
  ultimately show ?thesis
    using assms r asHex_hd(2) [of a] number_plain(2) [of a]
    by (auto simp: field_reads_def field_text_def parse_value_def is_value_in_field_range_def field_number_def sint_scast64)
qed

lemma field_reads_csr:
  assumes "ad_kind d = CHR ''E''" "ad_min d = 0" "ad_max d = 0xfff" "uint F < 0x1000" "field_printable symbolic d addr F"
  shows "field_reads symbolic d addr F []"
proof -
  define n where "n = unat F"
  have n: "uint F = int n" by (simp add: n_def)
  have sn: "sint F = uint F" using assms(4) unfolding sint_uint n by (simp add: signed_take_bit_int_eq_self)
  have "take_bit 12 F = F" using assms(4) by (simp add: word_uint_eq_iff unsigned_take_bit_eq take_bit_int_eq_self)
  then have bits: "bit F k \<Longrightarrow> k < 12" for k by (metis bit_take_bit_iff)
  have wide: "ucast (ucast F :: u16) = (ucast F :: u64)"
  proof (rule bit_word_eqI)
    show "bit (ucast (ucast F :: u16) :: u64) n = bit (ucast F :: u64) n" for n
      using bits [of n] by (auto simp: bit_simps)
  qed
  have rng: "is_value_in_field_range d (field_number d F)"
    using assms(2-4) by (simp add: is_value_in_field_range_def field_number_def unsigned_ucast_eq take_bit_int_eq_self)
  have "strtoull (asHex (uint F)) = (ucast F, length (asHex (uint F)))"
    using strtoull_asHex [of "[]" "uint F"] assms(4) by simp
  moreover have "\<not> is_letter (hd (asHex (uint F)))" by (simp add: asHex_def is_letter_def char_code_def)
  moreover have "ucast (ucast F :: u64) = (ucast F :: u16)" by (rule bit_word_eqI) (simp add: bit_simps)
  ultimately have hex: "parse_csr_address (asHex (uint F)) = (ucast F, length (asHex (uint F)))"
    by (simp add: parse_csr_address_def)
  show ?thesis
  proof (cases "if symbolic then register_by_address (ucast F) else None")
    case None
    then have "field_text symbolic d addr F = asHex (uint F)"
      using assms(1) by (auto simp: field_text_def sn split: if_splits)
    then show ?thesis
      using hex asHex_hd(2) [of "uint F"] number_plain(2) [of "uint F"] rng wide assms(1,2)
      by (simp add: field_reads_def parse_value_def field_number_def)
  next
    case (Some i)
    then have i: "csr_address (REGISTERS i) = ucast F" and sym: symbolic
      by (auto simp: register_by_address_def find_Some_iff split: if_splits)
    with assms(1,5) have "i \<noteq> CSR_STIMECMP" by (auto simp: field_printable_def)
    moreover have "field_text symbolic d addr F = csr_name (REGISTERS i)"
      using Some assms(1) by (auto simp: field_text_def split: if_splits)
    ultimately show ?thesis
      using csr_by_name [of i] rng wide assms(1,2) i by (simp add: field_reads_def parse_value_def field_number_def)
  qed
qed

lemma field_reads_all:
  assumes d: "arg_desc_by_code c = Some d" and im: "im \<in> set instruction_set" "c \<in> set (concat (im_args im))"
    and "field_printable symbolic d addr (field_value d (assemble im v))" "field_end s" "c = CHR ''E'' \<Longrightarrow> s = []"
  shows "field_reads symbolic d addr (field_value d (assemble im v)) s"
proof -
  note F = field_value_assemble(2,3) [OF im d, of v]
  have E: "ad_name d = CHR ''E'' \<Longrightarrow> s = []" using arg_desc_listed [OF d] assms(6) by simp
  show ?thesis
    using desc_kinds [OF d, unfolded desc_kind_ok_def Let_def] F assms(4,5) E
    by (elim disjE conjE)
      (simp_all add: field_reads_register field_reads_signed field_reads_unsigned field_reads_target field_reads_csr)
qed

section \<open>The text of an argument\<close>

lemma trimmed_plain: "s = [] \<or> \<not> is_space (hd s) \<and> \<not> is_space (last s) \<Longrightarrow> trimmed s = s"
  "s \<noteq> [] \<Longrightarrow> \<not> is_space (hd s) \<Longrightarrow> \<not> is_space (last s) \<Longrightarrow> trimmed (CHR '' '' # s) = s"
proof -
  have d: "s \<noteq> [] \<Longrightarrow> \<not> is_space (hd s) \<Longrightarrow> dropWhile is_space s = s" for s by (cases s) simp_all
  have sp: "is_space CHR '' ''" by (simp add: is_space_def char_code_def)
  show "s = [] \<or> \<not> is_space (hd s) \<and> \<not> is_space (last s) \<Longrightarrow> trimmed s = s"
    by (cases "s = []") (simp_all add: trimmed_def d hd_rev)
  show "s \<noteq> [] \<Longrightarrow> \<not> is_space (hd s) \<Longrightarrow> \<not> is_space (last s) \<Longrightarrow> trimmed (CHR '' '' # s) = s"
    by (simp add: trimmed_def sp d hd_rev)
qed

fun arg_shape :: "string \<Rightarrow> bool" where
  "arg_shape [] = True"
| "arg_shape (c # cs) = (char_code c \<noteq> 0 \<and> arg_shape cs \<and>
     (if arg_desc_by_code c = None then c = CHR ''('' \<or> c = CHR '')''
      else (cs = [] \<or> hd cs = CHR ''('' \<or> hd cs = CHR '')'') \<and> (c = CHR ''E'' \<longrightarrow> cs = [])))"

lemma arg_shapes_ok: "list_all (\<lambda>a. a \<noteq> [] \<and> arg_shape a) arg_shapes"
  by code_simp

definition args_printable :: "bool \<Rightarrow> InstructionMap \<Rightarrow> (char \<Rightarrow> u64) \<Rightarrow> address \<Rightarrow> bool" where
  "args_printable symbolic im v addr = list_all (\<lambda>c. case arg_desc_by_code c of None \<Rightarrow> True
     | Some d \<Rightarrow> field_printable symbolic d addr (field_value d (assemble im v))) (concat (im_args im))"

text \<open>The characters of a text: brackets are allowed, white space and separators are not.\<close>

definition solid :: "string \<Rightarrow> bool" where
  "solid s = list_all line_char s"

lemma solid_simps [simp]:
  "solid []" "solid (c # s) \<longleftrightarrow> line_char c \<and> solid s" "solid (s @ t) \<longleftrightarrow> solid s \<and> solid t"
  by (simp_all add: solid_def)

lemma plain_solid: "plain_name s \<Longrightarrow> solid s"
  by (auto simp: plain_name_def solid_def list_all_iff)

lemma solid_trimmed: "solid s \<Longrightarrow> trimmed s = s" "s \<noteq> [] \<Longrightarrow> solid s \<Longrightarrow> trimmed (CHR '' '' # s) = s"
proof -
  have "s \<noteq> [] \<Longrightarrow> solid s \<Longrightarrow> \<not> is_space (hd s) \<and> \<not> is_space (last s)"
    by (simp add: solid_def list_all_iff line_char_def)
  then show "solid s \<Longrightarrow> trimmed s = s" "s \<noteq> [] \<Longrightarrow> solid s \<Longrightarrow> trimmed (CHR '' '' # s) = s"
    using trimmed_plain [of s] by blast+
qed

lemma letter_text_literal: "arg_desc_by_code c = None \<Longrightarrow> letter_text symbolic dt addr c = [c]"
  by (simp add: letter_text_def)

lemma arg_text_Cons: "arg_text symbolic dt addr (c # cs) = letter_text symbolic dt addr c @ arg_text symbolic dt addr cs"
  by (simp add: arg_text_def)

lemma arg_text_end:
  assumes "cs = [] \<or> hd cs = CHR ''('' \<or> hd cs = CHR '')''"
  shows "field_end (arg_text symbolic dt addr cs)"
proof -
  have "arg_desc_by_code CHR ''('' = None" "arg_desc_by_code CHR '')'' = None"
    by (simp_all add: arg_desc_by_code_def arg_desc_list_def ad_def)
  with assms show ?thesis
    by (cases cs) (auto simp: arg_text_Cons letter_text_literal field_end_def arg_text_def)
qed

lemma letter_reads:
  assumes "im \<in> set instruction_set" "args_printable symbolic im v addr" "c \<in> set (concat (im_args im))"
    and "arg_desc_by_code c = Some d" "arg_shape (c # cs)"
  shows "field_reads symbolic d addr (field_value d (assemble im v)) (arg_text symbolic dt addr cs)"
proof (rule field_reads_all [OF assms(4,1,3)])
  show "field_printable symbolic d addr (field_value d (assemble im v))"
    using assms(2-4) unfolding args_printable_def list_all_iff by fastforce
  show "field_end (arg_text symbolic dt addr cs)" using assms(4,5) by (intro arg_text_end) simp
  show "c = CHR ''E'' \<Longrightarrow> arg_text symbolic dt addr cs = []" using assms(4,5) by (simp add: arg_text_def)
qed

lemma arg_text_solid:
  assumes "im \<in> set instruction_set" "args_printable symbolic im v addr"
  shows "set arg \<subseteq> set (concat (im_args im)) \<Longrightarrow> arg_shape arg \<Longrightarrow> solid (arg_text symbolic (assemble im v) addr arg)"
proof (induction arg)
  case (Cons c cs)
  have "solid (letter_text symbolic (assemble im v) addr c)"
  proof (cases "arg_desc_by_code c")
    case None
    with Cons.prems bracket_char show ?thesis by (auto simp: letter_text_literal)
  next
    case (Some d)
    from letter_reads [OF assms _ Some Cons.prems(2)] Cons.prems(1)
    show ?thesis by (simp add: field_reads_def Let_def letter_text_def Some plain_solid)
  qed
  with Cons show ?case by (simp add: arg_text_Cons)
qed (simp add: arg_text_def)

text \<open>The text of an argument is read back to the bits of its letters.\<close>

lemma parse_letters_text:
  assumes "im \<in> set instruction_set" "args_printable symbolic im v addr"
  shows "set arg \<subseteq> set (concat (im_args im)) \<Longrightarrow> arg_shape arg \<Longrightarrow>
    T = arg_text symbolic (assemble im v) addr arg \<Longrightarrow> tok = T \<or> arg \<noteq> [] \<and> tok = CHR '' '' # T \<Longrightarrow>
    parse_letters arg tok code addr reloc fn ln MOD_NONE 0 = (reloc, Inr (encode_fields arg v code))"
proof (induction arg arbitrary: T tok code)
  case Nil
  then show ?case by (simp add: arg_text_def solid_trimmed)
next
  case (Cons c cs)
  let ?T = "arg_text symbolic (assemble im v) addr cs" and ?c = "letter_text symbolic (assemble im v) addr c"
  have T: "T = ?c @ ?T" "solid T"
    using Cons.prems(3) arg_text_solid [OF assms Cons.prems(1,2)] by (simp_all add: arg_text_Cons)
  have IH: "parse_letters cs ?T code addr reloc fn ln MOD_NONE 0 = (reloc, Inr (encode_fields cs v code))" for code
    using Cons.prems(1,2) by (intro Cons.IH [OF _ _ refl]) auto
  have nz: "char_code c \<noteq> 0" using Cons.prems(2) by simp
  show ?case
  proof (cases "arg_desc_by_code c")
    case None
    then have "T = c # ?T" using T by (simp add: letter_text_literal)
    then have "trimmed tok = c # ?T" using Cons.prems(4) T(2) solid_trimmed by auto
    then show ?thesis using None nz IH by (simp add: encode_letter_def)
  next
    case (Some d)
    let ?F = "field_value d (assemble im v)"
    have fr: "field_reads symbolic d addr ?F ?T"
      using letter_reads [OF assms _ Some Cons.prems(2)] Cons.prems(1) by simp
    then have ne: "T \<noteq> []" using T by (simp add: field_reads_def Let_def letter_text_def Some)
    then have tr: "trimmed tok = T" using Cons.prems(4) T(2) solid_trimmed by auto
    have "sbf_encode (ad_arg d) ?F = encode_letter c (v c)"
      using field_value_assemble(1) [OF assms(1) _ Some] Cons.prems(1) by simp
    with fr tr show ?thesis
      using Some nz IH T(1)
      by (simp add: field_reads_def Let_def letter_text_def modify_pseudoinst_imm_def split: prod.split)
  qed
qed

section \<open>The text of an instruction\<close>

lemma encode_fields_or: "encode_fields cs v code = code OR encode_fields cs v 0"
proof (induction cs arbitrary: code)
  case (Cons c cs)
  show ?case unfolding encode_fields.simps using Cons [of "code OR encode_letter c (v c)"] Cons [of "0 OR encode_letter c (v c)"]
    by (simp add: or.assoc)
qed simp

lemma encode_fields_append: "encode_fields (a @ b) v code = encode_fields b v (encode_fields a v code)"
  by (induction a arbitrary: code) simp_all

lemma parse_fields_text:
  assumes "im \<in> set instruction_set" "args_printable symbolic im v addr" "ti_address inst = addr"
  shows "list_all2 (\<lambda>arg f. set arg \<subseteq> set (concat (im_args im)) \<and> arg \<noteq> [] \<and> arg_shape arg \<and>
      (f = arg_text symbolic (assemble im v) addr arg \<or> f = CHR '' '' # arg_text symbolic (assemble im v) addr arg)) args fs \<Longrightarrow>
    parse_fields inst args fs code reloc MOD_NONE 0 = (reloc, Inr (encode_fields (concat args) v code))"
proof (induction args fs arbitrary: code rule: list_all2_induct)
  case (Cons arg args f fs)
  then have "parse_field f arg (ti_address inst) reloc (ti_filename inst) (ti_line inst) MOD_NONE 0 =
      (reloc, Inr (encode_fields arg v 0))"
    unfolding parse_field_def assms(3) by (intro parse_letters_text [OF assms(1,2) _ _ refl]) auto
  with Cons show ?case by (simp add: encode_fields_append flip: encode_fields_or [of arg v code])
qed simp

lemma split_at_plain: "CHR '','' \<notin> set s \<Longrightarrow> split_at CHR '','' s = [s]"
  by (induction s) auto

lemma split_at_comma: "CHR '','' \<notin> set s \<Longrightarrow> split_at CHR '','' (s @ CHR '','' # t) = s # split_at CHR '','' t"
  by (induction s) auto

text \<open>The arguments of a line, separated: every one but the first with a leading space.\<close>

lemma split_args_text:
  assumes "CHR '','' \<notin> set s" "\<forall>a\<in>set args. CHR '','' \<notin> set (arg_text symbolic dt addr a)"
  shows "split_at CHR '','' (s @ args_text symbolic dt addr '', '' args) =
    s # map (\<lambda>a. CHR '' '' # arg_text symbolic dt addr a) args"
  using assms
proof (induction args arbitrary: s)
  case (Cons a args)
  then show ?case using Cons.IH [of "CHR '' '' # arg_text symbolic dt addr a"] by (simp add: split_at_comma)
qed (simp add: split_at_plain)

lemma args_text_last:
  assumes "\<forall>a\<in>set args. arg_text symbolic dt addr a \<noteq> [] \<and> solid (arg_text symbolic dt addr a)" "s \<noteq> []" "\<not> is_space (last s)"
  shows "\<not> is_space (last (s @ args_text symbolic dt addr '', '' args))"
  using assms
proof (induction args arbitrary: s)
  case (Cons a args)
  have "\<not> is_space (last (arg_text symbolic dt addr a))"
    using Cons.prems(1) by (auto simp: solid_def list_all_iff line_char_def)
  then show ?case using Cons.prems Cons.IH [of "s @ '', '' @ arg_text symbolic dt addr a"] by simp
qed simp

lemma to_lower_name: "list_all name_char n \<Longrightarrow> to_lower n = n"
  unfolding to_lower_def by (rule map_idI) (simp add: name_char_def list_all_iff)

lemma from_line_text:
  assumes n: "n \<noteq> []" "list_all name_char n"
    and a: "\<forall>a\<in>set args. arg_text symbolic dt addr a \<noteq> [] \<and> solid (arg_text symbolic dt addr a)"
  shows "from_line (n @ args_text symbolic dt addr '' '' args) addr fn ln =
    Inr \<lparr>ti_base = n, ti_fields = (case args of [] \<Rightarrow> [] | b # bs \<Rightarrow>
        arg_text symbolic dt addr b # map (\<lambda>a. CHR '' '' # arg_text symbolic dt addr a) bs),
      ti_address = addr, ti_filename = fn, ti_line = ln\<rparr>"
proof -
  let ?t = "n @ args_text symbolic dt addr '' '' args"
  have ns: "\<forall>c\<in>set n. \<not> is_space c" using n(2) by (auto simp: name_char_def list_all_iff line_char_def)
  have sp: "is_space CHR '' ''" by (simp add: is_space_def char_code_def)
  have d: "dropWhile is_space ?t = ?t" using n(1) ns by (cases n) simp_all
  have t: "takeWhile (\<lambda>c. \<not> is_space c) ?t = n"
    using ns sp by (cases args) (simp_all add: takeWhile_append2 takeWhile_eq_all_conv)
  show ?thesis
  proof (cases args)
    case Nil
    show ?thesis unfolding from_line_def Let_def d t to_lower_name [OF n(2)] by (simp add: Nil n(1) trimmed_def)
  next
    case (Cons b bs)
    let ?r = "arg_text symbolic dt addr b @ args_text symbolic dt addr '', '' bs"
    have b: "arg_text symbolic dt addr b \<noteq> []" "solid (arg_text symbolic dt addr b)" using a Cons by simp_all
    then have hl: "\<not> is_space (hd (arg_text symbolic dt addr b))" "\<not> is_space (last (arg_text symbolic dt addr b))"
      by (auto simp: solid_def list_all_iff line_char_def)
    have "trimmed ?r = ?r"
      using b hl args_text_last [of bs symbolic dt addr "arg_text symbolic dt addr b"] a Cons
      by (intro trimmed_plain) simp
    moreover have "split_at CHR '','' ?r =
        arg_text symbolic dt addr b # map (\<lambda>a. CHR '' '' # arg_text symbolic dt addr a) bs"
      using a Cons by (intro split_args_text) (auto simp: solid_def list_all_iff line_char_def)
    ultimately show ?thesis
      unfolding from_line_def Let_def d t to_lower_name [OF n(2)] by (simp add: Cons n(1) b)
  qed
qed

text \<open>What the tables say about every instruction.\<close>

lemma entry_facts:
  assumes "im \<in> set instruction_set"
  shows "im_type im \<noteq> IT_UNKNOWN" "im_code im \<noteq> 0" "im_name im \<noteq> []" "list_all name_char (im_name im)"
    "arg \<in> set (im_args im) \<Longrightarrow> arg \<noteq> [] \<and> arg_shape arg" "hd (im_name im) \<noteq> CHR ''.''"
proof -
  show "im_type im \<noteq> IT_UNKNOWN" "im_code im \<noteq> 0" using entries_shape assms by (auto simp: list_all_iff)
  have "entry_key im \<in> set instruction_keys" using assms by (force simp: instruction_keys [symmetric])
  then show "im_name im \<noteq> []" "list_all name_char (im_name im)" "hd (im_name im) \<noteq> CHR ''.''"
    using names_lower by (auto simp: list_all_iff entry_key_def)
  show "arg \<in> set (im_args im) \<Longrightarrow> arg \<noteq> [] \<and> arg_shape arg"
    using entries_shape arg_shapes_ok assms unfolding list_all_iff by blast
qed

lemma assemble_nonzero: "im \<in> set instruction_set \<Longrightarrow> assemble im v \<noteq> 0"
proof
  assume im: "im \<in> set instruction_set" and "assemble im v = 0"
  then have "im_code im AND im_mask im = 0"
    using encode_fields_keeps [OF instruction_set_ok(4) [OF im], of v "im_code im"] by (simp add: assemble_def)
  then have "im_code im = 0" using instruction_set_ok(3) [OF im] unfolding and_not_0_iff unfolding and_0_iff
    by (intro bit_word_eqI) auto
  then show False using entry_facts(2) [OF im] by simp
qed

text \<open>The texts of the arguments of an instruction, and the tokens that they are assembled from.\<close>

lemma arg_text_facts:
  assumes "im \<in> set instruction_set" "args_printable symbolic im v addr" "arg \<in> set (im_args im)"
  shows "set arg \<subseteq> set (concat (im_args im))" "arg \<noteq> []" "arg_shape arg"
    "solid (arg_text symbolic (assemble im v) addr arg)" "arg_text symbolic (assemble im v) addr arg \<noteq> []"
proof -
  show s: "set arg \<subseteq> set (concat (im_args im))" "arg \<noteq> []" "arg_shape arg" using assms(3) entry_facts(5) [OF assms(1)] by auto
  show "solid (arg_text symbolic (assemble im v) addr arg)" using arg_text_solid [OF assms(1,2) s(1,3)] .
  obtain c cs where arg: "arg = c # cs" using s(2) by (cases arg) simp_all
  show "arg_text symbolic (assemble im v) addr arg \<noteq> []"
  proof (cases "arg_desc_by_code c")
    case (Some d)
    from letter_reads [OF assms(1,2) _ Some, of cs] s arg show ?thesis
      by (simp add: arg arg_text_Cons letter_text_def Some field_reads_def Let_def)
  qed (simp add: arg arg_text_Cons letter_text_literal)
qed

definition field_of_arg :: "bool \<Rightarrow> u32 \<Rightarrow> address \<Rightarrow> string \<Rightarrow> string \<Rightarrow> bool" where
  "field_of_arg symbolic dt addr arg f = (f = arg_text symbolic dt addr arg \<or> f = CHR '' '' # arg_text symbolic dt addr arg)"

lemma tokens_assemble:
  assumes "im \<in> set instruction_set" "args_printable symbolic im v addr" "4 \<le> buffsize"
    and "list_all2 (field_of_arg symbolic (assemble im v) addr) (im_args im) (ti_fields inst)"
    and "ti_base inst = im_name im" "ti_address inst = addr"
  shows "code_from_tokens buffsize inst reloc True = (reloc, Inr [assemble im v])"
proof -
  have "list_all2 (\<lambda>arg f. set arg \<subseteq> set (concat (im_args im)) \<and> arg \<noteq> [] \<and> arg_shape arg \<and>
      (f = arg_text symbolic (assemble im v) addr arg \<or> f = CHR '' '' # arg_text symbolic (assemble im v) addr arg))
      (im_args im) (ti_fields inst)"
    using assms(4) by (rule list.rel_mono_strong) (use arg_text_facts [OF assms(1,2)] in \<open>auto simp: field_of_arg_def\<close>)
  from parse_fields_text [OF assms(1,2,6) this, of "im_code im" reloc]
  have "base_from_tokens inst reloc MOD_NONE 0 = (reloc, Inr (assemble im v))"
    by (intro base_from_tokens_found [OF assms(1,5)]) (use list_all2_lengthD [OF assms(4)] in \<open>simp_all add: assemble_def\<close>)
  then show ?thesis
    using assemble_nonzero [OF assms(1), of v] assms(3) by (simp add: code_from_tokens_def inst_size_def)
qed

lemma tokens_nop:
  "ti_base inst = ''nop'' \<Longrightarrow> ti_fields inst = [] \<Longrightarrow> code_from_tokens buffsize inst reloc True = (reloc, Inr [NOP])"
  by (simp add: code_from_tokens_def base_from_tokens_def candidates_nop pseudo_from_tokens_def)

lemma to_str_assemble:
  assumes "im \<in> set instruction_set"
  shows "to_str symbolic (assemble im v) addr = (if assemble im v = NOP then ''nop''
    else im_name im @ args_text symbolic (assemble im v) addr '' '' (im_args im))"
  using entry_facts(1) [OF assms] find_assemble [OF assms, of v] by (simp add: to_str_def inst_map_def)

section \<open>Properties\<close>

text \<open>
  Claim C21: what the disassembler prints, the assembler reads back, within the limits of \<open>args_printable\<close>.  For
  every supported instruction and all values of its arguments such that the offset of a jump or
  branch is in the range that the argument's descriptor gives and its target an address of 32 bits, and that the control register
  \<^verbatim>\<open>stimecmp\<close>, whose name the table spells with a space, is not printed by its name, the text of the word, with the numbers
  or the names of the control registers, is assembled to that word without a relocation.  The limits exclude words that are
  valid: the descriptor of the offset of JAL covers half of its range, see \<^verbatim>\<open>jal_range_halved\<close>.
\<close>

theorem disassembly_assembles:
  assumes "im \<in> set instruction_set" "args_printable symbolic im v addr" "4 \<le> buffsize"
  shows "code_from_string buffsize (to_str symbolic (assemble im v) addr) addr reloc fn ln True =
    (reloc, Inr [assemble im v])"
proof (cases "assemble im v = NOP")
  case True
  have "from_line ''nop'' addr fn ln = Inr \<lparr>ti_base = ''nop'', ti_fields = [], ti_address = addr, ti_filename = fn, ti_line = ln\<rparr>"
    using from_line_text [of "''nop''" "[]"] by (simp add: name_char_def line_char_def is_space_def to_lower_char_def char_code_def)
  moreover have "to_str symbolic (assemble im v) addr = ''nop''" unfolding to_str_assemble [OF assms(1)] using True by simp
  ultimately show ?thesis by (simp add: True code_from_string_def tokens_nop)
next
  case False
  let ?w = "assemble im v"
  let ?T = "arg_text symbolic ?w addr"
  let ?fs = "case im_args im of [] \<Rightarrow> [] | b # bs \<Rightarrow> ?T b # map (\<lambda>a. CHR '' '' # ?T a) bs"
  have "list_all2 (field_of_arg symbolic ?w addr) (im_args im) ?fs"
    by (cases "im_args im") (auto simp: list.rel_map field_of_arg_def intro!: list.rel_refl_strong)
  then have "code_from_tokens buffsize \<lparr>ti_base = im_name im, ti_fields = ?fs, ti_address = addr, ti_filename = fn, ti_line = ln\<rparr>
      reloc True = (reloc, Inr [?w])" by (intro tokens_assemble [OF assms]) simp_all
  moreover have "from_line (to_str symbolic ?w addr) addr fn ln =
      Inr \<lparr>ti_base = im_name im, ti_fields = ?fs, ti_address = addr, ti_filename = fn, ti_line = ln\<rparr>"
    using False entry_facts(3,4) [OF assms(1)] arg_text_facts [OF assms(1,2)]
    by (auto simp: to_str_assemble [OF assms(1)] intro!: from_line_text)
  ultimately show ?thesis by (simp add: code_from_string_def)
qed

theorem disassembly_assembles_witness:
  "code_from_string 8 (to_str False (assemble im_addi (\<lambda>c. if c = CHR ''j'' then - 5 else 7)) 0x200) 0x200 (Some []) [] 1 True =
    (Some [], Inr [assemble im_addi (\<lambda>c. if c = CHR ''j'' then - 5 else 7)])"
proof -
  have "args_printable False im_addi (\<lambda>c. if c = CHR ''j'' then - 5 else 7) 0x200"
    by (simp add: args_printable_def im_addi_def OP_IMM_map_def field_printable_def arg_desc_by_code_def arg_desc_list_def ad_def)
  from disassembly_assembles [OF im_addi_supported this, of 8] show ?thesis by simp
qed

text \<open>
  The offset 0x80000 of a jump-and-link has an encoding that is decoded to it, and it is printed; the assembler's
  test of the range refuses it.
\<close>

lemma jal_range_halved:
  "\<exists>d. arg_desc_by_code CHR ''a'' = Some d \<and> field_value d (sbf_encode (ad_arg d) 0x80000) = 0x80000 \<and>
     \<not> is_value_in_field_range d 0x80000"
proof -
  have "case arg_desc_by_code CHR ''a'' of None \<Rightarrow> False | Some d \<Rightarrow> field_value d (sbf_encode (ad_arg d) 0x80000) = 0x80000 \<and>
     \<not> is_value_in_field_range d 0x80000" by code_simp
  then show ?thesis by (auto split: option.splits)
qed

text \<open>A register \<^verbatim>\<open>x\<close> without a number is read as register 0, one with a bracket behind it.\<close>

lemma register_without_number: "parse_reg_from_string ''x)'' = (0, 1)"
  by code_simp

definition im_slli :: InstructionMap where "im_slli = OP_IMM_map ! 1"
definition im_srai :: InstructionMap where "im_srai = SRI_map ! 1"

lemma im_shifts_supported: "im_slli \<in> set instruction_set" "im_srai \<in> set instruction_set"
  by (simp_all add: instruction_set_def im_slli_def im_srai_def C_inst_root_def C_inst_map_def I_inst_map_def OP_IMM_map_def
      SRI_map_def instruction_map_opcode_field_def im_supported_def has_flag_def flag_defs)

text \<open>
  The two shifts of \<^verbatim>\<open>sext.b\<close> (as of \<^verbatim>\<open>sext.h\<close>, \<^verbatim>\<open>zext.h\<close> and \<^verbatim>\<open>zext.w\<close>) have the same location in
  their relocations, the address of the first: both amounts are put into the first word, and the
  second word, at the next address, keeps the amount 0, so the result is not shifted back.
\<close>

theorem sext_second_shift_not_relocated:
  "pseudo_from_tokens 8 \<lparr>ti_base = ''sext.b'', ti_fields = [''x1'', ''x2''], ti_address = a, ti_filename = fn, ti_line = ln\<rparr> (Some l) =
    (let r = \<lparr>re_offset = 0, re_min = 0, re_max = 31, re_arg = \<lparr>sbf_fields = [\<lparr>bf_count = 5, bf_offset = 20\<rparr>], sbf_shift = 0\<rparr>,
              re_mod = MOD_NONE, re_location = a, re_expression = ''XLEN-8'', re_filename = fn, re_line = ln\<rparr> in
     (Some (l @ [r, r]), Inr [0x00011093, 0x4000d093]))"
proof -
  define r where "r = \<lparr>re_offset = 0, re_min = 0, re_max = 31, re_arg = \<lparr>sbf_fields = [\<lparr>bf_count = 5, bf_offset = 20\<rparr>], sbf_shift = 0\<rparr>,
    re_mod = MOD_NONE, re_location = a, re_expression = ''XLEN-8'', re_filename = fn, re_line = ln\<rparr>"
  let ?i = "\<lambda>b s. \<lparr>ti_base = b, ti_fields = [''x1'', s, ''XLEN-8''], ti_address = a, ti_filename = fn, ti_line = ln\<rparr>"
  have regs: "parse_reg_from_string ''x1'' = (1, 2)" "parse_reg_from_string ''x2'' = (2, 2)"
    "trimmed ''x1'' = ''x1''" "trimmed ''x2'' = ''x2''" "trimmed ''XLEN-8'' = ''XLEN-8''" "trimmed [] = []"
    "read_reloc_expression ''XLEN-8'' = (''XLEN-8'', 6)" "is_digit CHR ''X'' = False"
    by code_simp+
  have desc: "arg_desc_by_code CHR ''d'' = Some (ad CHR ''d'' CHR ''g'' 0 0x1f [(5, 7)] 0)"
    "arg_desc_by_code CHR ''s'' = Some (ad CHR ''s'' CHR ''g'' 0 0x1f [(5, 15)] 0)"
    "arg_desc_by_code CHR ''>'' = Some (ad CHR ''>'' CHR ''n'' 0 0x1f [(5, 20)] 0)"
    by (simp_all add: arg_desc_by_code_def arg_desc_list_def ad_def)
  have imm: "parse_immediate_value ''XLEN-8'' a (Some l) fn ln False (ad CHR ''>'' CHR ''n'' 0 0x1f [(5, 20)] 0) MOD_NONE 0 =
      (0, 6, Some (l @ [r]))" for l
    by (simp add: parse_immediate_value_def reloc_append_def regs r_def ad_def)
  have f: "parse_field ''x1'' ''d'' a reloc fn ln MOD_NONE 0 = (reloc, Inr 0x80)"
    "parse_field ''x1'' ''s'' a reloc fn ln MOD_NONE 0 = (reloc, Inr 0x8000)"
    "parse_field ''x2'' ''s'' a reloc fn ln MOD_NONE 0 = (reloc, Inr 0x10000)" for reloc
    by (simp_all add: parse_field_def regs desc parse_value_def is_imm_def ad_def is_value_in_field_range_def char_code_def
        modify_pseudoinst_imm_def sbf_encode_def bf_encode_def bf_low_mask_def)
  have g: "parse_field ''XLEN-8'' ''>'' a (Some l) fn ln MOD_NONE 0 = (Some (l @ [r]), Inr 0)" for l
    using imm by (simp add: parse_field_def regs desc parse_value_def is_imm_def ad_def is_value_in_field_range_def char_code_def
        modify_pseudoinst_imm_def sbf_encode_def bf_encode_def bf_low_mask_def)
  have 1: "base_from_tokens (?i ''slli'' ''x2'') (Some l) MOD_NONE 0 = (Some (l @ [r]), Inr 0x00011093)" for l
    by (rule base_from_tokens_found [OF im_shifts_supported(1)]) (simp_all add: im_slli_def OP_IMM_map_def f g)
  have 2: "base_from_tokens (?i ''srai'' ''x1'') (Some l) MOD_NONE 0 = (Some (l @ [r]), Inr 0x4000d093)" for l
    by (rule base_from_tokens_found [OF im_shifts_supported(2)]) (simp_all add: im_srai_def SRI_map_def f g)
  show ?thesis using 1 [of l] 2 [of "l @ [r]"]
    by (simp add: pseudo_from_tokens_def shift_pair_def two_words_def r_def [symmetric])
qed

end
