(* ===== verification/Symbol_Table.thy ===== *)
theory Symbol_Table
  imports Machine_Prelude "HOL-Library.List_Lexorder" "HOL-Library.Char_ord"
begin

text \<open>
  The symbol table (\<^verbatim>\<open>src/src/machine/symboltable.cpp\<close>): two indexes, by name and by value, of entries
  on the heap.  An entry is a pointer (a number that is not used twice) and its constant
  contents.  What the assembler relies on is the locale \<open>symbol_store\<close>.
\<close>

section \<open>Definitions\<close>

record SymbolTableEntry =
  sym_name :: string
  sym_value :: u64
  sym_size :: u32
  sym_info :: u8
  sym_other :: u8

type_synonym symbol_ptr = "nat \<times> SymbolTableEntry"

text \<open>The multimap lists the most recent item of a key first.\<close>

record SymbolTable =
  map_name_to_symbol :: "string \<rightharpoonup> symbol_ptr"
  map_value_to_symbol :: "(u64 \<times> symbol_ptr) list"
  sym_next :: nat

definition symbol_table_new :: SymbolTable where
  "symbol_table_new = \<lparr>map_name_to_symbol = Map.empty, map_value_to_symbol = [], sym_next = 0\<rparr>"

definition add_symbol :: "SymbolTable \<Rightarrow> string \<Rightarrow> u64 \<Rightarrow> u32 \<Rightarrow> u8 \<Rightarrow> u8 \<Rightarrow> SymbolTable" where
  "add_symbol t name value sz info other =
     (let p = (sym_next t, \<lparr>sym_name = name, sym_value = value, sym_size = sz, sym_info = info, sym_other = other\<rparr>) in
      t\<lparr>map_value_to_symbol := (value, p) # map_value_to_symbol t,
        map_name_to_symbol := (map_name_to_symbol t)(name \<mapsto> p), sym_next := Suc (sym_next t)\<rparr>)"

definition remove_symbol :: "SymbolTable \<Rightarrow> string \<Rightarrow> SymbolTable" where
  "remove_symbol t name = (case map_name_to_symbol t name of
     None \<Rightarrow> t
   | Some p \<Rightarrow> t\<lparr>map_name_to_symbol := (map_name_to_symbol t)(name := None),
                map_value_to_symbol := removeAll (sym_value (snd p), p) (map_value_to_symbol t)\<rparr>)"

definition set_symbol :: "SymbolTable \<Rightarrow> string \<Rightarrow> u64 \<Rightarrow> u32 \<Rightarrow> u8 \<Rightarrow> u8 \<Rightarrow> SymbolTable" where
  "set_symbol t name value sz info other = add_symbol (remove_symbol t name) name value sz info other"

definition name_to_value :: "SymbolTable \<Rightarrow> string \<Rightarrow> u64 option" where
  "name_to_value t name = map_option (\<lambda>p. sym_value (snd p)) (map_name_to_symbol t name)"

definition location_to_name :: "SymbolTable \<Rightarrow> u64 \<Rightarrow> string option" where
  "location_to_name t value = map_option (\<lambda>p. sym_name (snd p)) (map_of (map_value_to_symbol t) value)"

text \<open>The keys of the map by name, in the order of the names; every name of it is among the given ones.\<close>

definition symbol_names :: "SymbolTable \<Rightarrow> string list" where
  "symbol_names t = sorted_list_of_set (dom (map_name_to_symbol t))"

section \<open>Invariant\<close>

text \<open>
  Every entry is indexed under its value; an entry of the index by name is indexed under its
  own name and in both indexes; pointers are not shared.
\<close>

definition symbol_table_ok :: "SymbolTable \<Rightarrow> bool" where
  "symbol_table_ok t =
     ((\<forall>(v, p)\<in>set (map_value_to_symbol t). sym_value (snd p) = v \<and> fst p < sym_next t) \<and>
      distinct (map (\<lambda>(v, p). fst p) (map_value_to_symbol t)) \<and>
      (\<forall>name p. map_name_to_symbol t name = Some p \<longrightarrow>
         sym_name (snd p) = name \<and> (sym_value (snd p), p) \<in> set (map_value_to_symbol t)))"

lemma symbol_table_new_ok: "symbol_table_ok symbol_table_new"
  by (simp add: symbol_table_ok_def symbol_table_new_def)

lemma add_symbol_ok: "symbol_table_ok t \<Longrightarrow> symbol_table_ok (add_symbol t name value sz info other)"
  unfolding symbol_table_ok_def add_symbol_def Let_def
  by (auto intro: less_SucI split: if_splits)

lemma remove_symbol_ok:
  assumes "symbol_table_ok t" shows "symbol_table_ok (remove_symbol t name)"
proof (cases "map_name_to_symbol t name")
  case (Some p)
  have "distinct (map (\<lambda>(v, p). fst p) (removeAll x xs))" if "distinct (map (\<lambda>(v, p). fst p) xs)" for x and xs :: "(u64 \<times> symbol_ptr) list"
    using that by (simp add: removeAll_filter_not_eq distinct_map_filter)
  then show ?thesis using assms Some unfolding symbol_table_ok_def remove_symbol_def
    by (auto split: if_splits) metis
qed (use assms in \<open>simp add: remove_symbol_def\<close>)

lemma set_symbol_ok: "symbol_table_ok t \<Longrightarrow> symbol_table_ok (set_symbol t name value sz info other)"
  unfolding set_symbol_def by (intro add_symbol_ok remove_symbol_ok)

section \<open>The interface\<close>

locale symbol_store =
  fixes lookup_symbol :: "'t \<Rightarrow> string \<Rightarrow> u64 option"
    and define_symbol :: "'t \<Rightarrow> string \<Rightarrow> u64 \<Rightarrow> 't"
  assumes lookup_define: "lookup_symbol (define_symbol t name value) n = (if n = name then Some value else lookup_symbol t n)"
begin

text \<open>The table after a sequence of definitions: the last one of a name counts.\<close>

lemma lookup_definitions:
  "lookup_symbol (fold (\<lambda>(n, v) t. define_symbol t n v) ds t) n =
    (case map_of (rev ds) n of Some v \<Rightarrow> Some v | None \<Rightarrow> lookup_symbol t n)"
  by (induction ds arbitrary: t) (auto simp: lookup_define map_add_def split: option.splits)

end

lemma name_to_value_set:
  "name_to_value (set_symbol t name value sz info other) n = (if n = name then Some value else name_to_value t n)"
  by (simp add: name_to_value_def set_symbol_def add_symbol_def remove_symbol_def Let_def split: option.split)

interpretation symbols: symbol_store name_to_value "\<lambda>t name value. set_symbol t name value sz info other"
  for sz info other
  by unfold_locales (rule name_to_value_set)

text \<open>The location of a symbol leads back to a name with that value, the newest one.\<close>

lemma location_of_set:
  "location_to_name (set_symbol t name value sz info other) value = Some name"
  by (simp add: location_to_name_def set_symbol_def add_symbol_def Let_def)

lemma location_sound:
  assumes "symbol_table_ok t" "map_of (map_value_to_symbol t) v = Some p"
  shows "sym_value (snd p) = v"
  using assms by (auto simp: symbol_table_ok_def dest!: map_of_SomeD)

end
