(* ===== verification/Simple_Asm.thy ===== *)
theory Simple_Asm
  imports Fix_Math_Eval Instruction_Round_Trip Symbol_Table Frontend_Memory
begin

text \<open>
  The assembler (\<^verbatim>\<open>src/src/assembler/simpleasm.cpp\<close>): a line is split into a label, an operation and
  operands; directives and instructions change the memory, the symbol table and the current
  address; expressions that need symbols are left as relocations for the end.

  The reader of numbers of Qt, the names and the contents of files and the memory are
  parameters.  A message is its place and its kind.  What the caller's error string holds is
  \<open>sa_error\<close>.  An outcome that is no boolean is an exception of the memory or undefined behaviour (a
  division by zero in an expression, a character of an empty operand).
\<close>

section \<open>State\<close>

datatype asm_error =
    EmptyLabel | EmptyFirstOperand | EmptyOperand | UnexpectedQuotes | UnterminatedQuotes
  | OperandsForEmptyOperation | IncludeOperands | RecursiveInclude string | IncludedFile string | CannotOpen string
  | OrgOperands | OrgParse | OrgEval | SpaceOperands | SpaceParse | SpaceEval | SetOperands | SetParse string
  | AsciiEmpty | AsciiQuotes | AsciiEscapeEnd | AsciiEscape char | ByteParse | ByteEval
  | InstructionParse parse_error | RelocParse fme_error | RelocEval eval_error | RelocUpdate u64

record asm_message =
  msg_file :: string
  msg_line :: nat
  msg_column :: nat
  msg_error :: asm_error

record 'm SimpleAsm =
  sa_error_occured :: bool
  sa_fatal_occured :: bool
  sa_symtab :: SymbolTable
  sa_address :: address
  sa_include_stack :: "string list"
  sa_mem :: 'm
  sa_reloc :: "RelocEntry list"
  sa_messages :: "asm_message list"
  sa_error :: "asm_error option"

record 'm asm_env =
  ae_to_long_long :: "string \<Rightarrow> u64 option"
  ae_include_path :: "string \<Rightarrow> string \<Rightarrow> string"
  ae_read_file :: "string \<Rightarrow> string list option"
  ae_host :: Endian
  ae_mem :: "'m frontend_ops"

type_synonym ('m, 'a) asm = "('m SimpleAsm, 'a) action"

definition get_value :: "SymbolTable \<Rightarrow> string \<Rightarrow> u64 option" where
  "get_value t name = name_to_value t name"

definition asm_set_symbol :: "string \<Rightarrow> u64 \<Rightarrow> u32 \<Rightarrow> ('m, unit) asm" where
  "asm_set_symbol name value sz = (\<lambda>s. (s\<lparr>sa_symtab := set_symbol (sa_symtab s) name value sz 0 0\<rparr>, Inr ()))"

text \<open>
  The constructor and the destructor clear.  The pointers to the memory and the table that are cleared too are
  set again by the setup before any use.
\<close>

definition asm_clear :: "'m SimpleAsm \<Rightarrow> 'm SimpleAsm" where
  "asm_clear s = s\<lparr>sa_reloc := [], sa_error_occured := False, sa_fatal_occured := False\<rparr>"

definition asm_setup :: "'m \<Rightarrow> SymbolTable \<Rightarrow> address \<Rightarrow> Xlen \<Rightarrow> 'm SimpleAsm \<Rightarrow> 'm SimpleAsm" where
  "asm_setup memory_ptr symtab addr xlen s =
     s\<lparr>sa_mem := memory_ptr, sa_symtab := set_symbol symtab ''XLEN'' (if xlen = XLEN_32 then 32 else 64) 8 0 0, sa_address := addr\<rparr>"

text \<open>An error: a message, the flag and the caller's string; the line fails.\<close>

definition asm_fail :: "string \<Rightarrow> nat \<Rightarrow> nat \<Rightarrow> asm_error \<Rightarrow> ('m, bool) asm" where
  "asm_fail file line col e = (\<lambda>s.
     (s\<lparr>sa_messages := sa_messages s @ [\<lparr>msg_file = file, msg_line = line, msg_column = col, msg_error = e\<rparr>],
        sa_error_occured := True, sa_error := Some e\<rparr>, Inr False))"

definition asm_fatal :: "string \<Rightarrow> nat \<Rightarrow> asm_error \<Rightarrow> ('m, bool) asm" where
  "asm_fatal file line e = (\<lambda>s. asm_fail file line 0 e (s\<lparr>sa_fatal_occured := True\<rparr>))"

text \<open>Writes are left out after a fatal error; the address advances all the same.\<close>

definition asm_on_memory :: "('m, 'a) action \<Rightarrow> ('m, 'a) asm" where
  "asm_on_memory f = (\<lambda>s. case f (sa_mem s) of (m, r) \<Rightarrow> (s\<lparr>sa_mem := m\<rparr>, r))"

definition asm_emit8 :: "'m asm_env \<Rightarrow> u8 \<Rightarrow> ('m, unit) asm" where
  "asm_emit8 env v = act_bind
     (\<lambda>s. if sa_fatal_occured s then (s, Inr ())
          else ignore_result (asm_on_memory (write_u8 (ae_host env) (ae_mem env) (plain_address (sa_address s)) v AE_INTERNAL)) s)
     (\<lambda>_ s. (s\<lparr>sa_address := sa_address s + 1\<rparr>, Inr ()))"

definition asm_emit32 :: "'m asm_env \<Rightarrow> u32 \<Rightarrow> ('m, unit) asm" where
  "asm_emit32 env v = act_bind
     (\<lambda>s. if sa_fatal_occured s then (s, Inr ())
          else ignore_result (asm_on_memory (write_u32 (ae_host env) (ae_mem env) (plain_address (sa_address s)) v AE_INTERNAL)) s)
     (\<lambda>_ s. (s\<lparr>sa_address := sa_address s + 4\<rparr>, Inr ()))"

primrec asm_repeat :: "nat \<Rightarrow> ('m, unit) asm \<Rightarrow> ('m, unit) asm" where
  "asm_repeat 0 f = act_return ()"
| "asm_repeat (Suc n) f = act_bind f (\<lambda>_. asm_repeat n f)"

text \<open>\<^verbatim>\<open>SimpleAsm::string_to_uint64\<close> with base 0.\<close>

definition string_to_uint64 :: "string \<Rightarrow> u64 \<times> nat" where
  "string_to_uint64 str = strtoll str"

section \<open>Splitting a line\<close>

text \<open>The position -1 of \<^verbatim>\<open>token_beg\<close> and of \<^verbatim>\<open>operand_num\<close> is None.\<close>

record line_state =
  ls_label :: string
  ls_op :: string
  ls_operands :: "string list"
  ls_in_quotes :: bool
  ls_backslash :: bool
  ls_maybe_label :: bool
  ls_space_separated :: bool
  ls_token_beg :: "nat option"
  ls_token_last :: nat
  ls_operand_num :: "nat option"

definition line_start :: line_state where
  "line_start = \<lparr>ls_label = [], ls_op = [], ls_operands = [], ls_in_quotes = False, ls_backslash = False,
     ls_maybe_label = True, ls_space_separated = False, ls_token_beg = None, ls_token_last = 0, ls_operand_num = None\<rparr>"

definition line_token :: "string \<Rightarrow> line_state \<Rightarrow> string" where
  "line_token line l = (case ls_token_beg l of None \<Rightarrow> []
     | Some b \<Rightarrow> mid line b (ls_token_last l + 1 - b))"

text \<open>A comment ends the line; \<^verbatim>\<open>#include\<close> and \<^verbatim>\<open>#pragma\<close> are no comments.\<close>

definition line_final :: "string \<Rightarrow> nat \<Rightarrow> char \<Rightarrow> bool" where
  "line_final line pos ch =
     (if ch = CHR ''#'' then
        (let rest = drop pos line in
         if starts_with rest ''#include'' then pos + 8 < length line \<and> \<not> is_space (line ! (pos + 8))
         else if starts_with rest ''#pragma'' then pos + 7 < length line \<and> \<not> is_space (line ! (pos + 7))
         else True)
      else ch = CHR '';'' \<or> (ch = CHR ''/'' \<and> pos + 1 < length line \<and> line ! (pos + 1) = CHR ''/''))"

definition line_pragma :: "string \<Rightarrow> nat \<Rightarrow> char \<Rightarrow> bool" where
  "line_pragma line pos ch = (ch = CHR ''#'' \<and> \<not> starts_with (drop pos line) ''#include'' \<and>
     starts_with (drop pos line) ''#pragma'' \<and> \<not> (pos + 7 < length line \<and> \<not> is_space (line ! (pos + 7))))"

text \<open>What a character outside quotes completes: the label, the operation or an operand.\<close>

definition line_complete :: "string \<Rightarrow> nat \<Rightarrow> char \<Rightarrow> bool \<Rightarrow> bool \<Rightarrow> line_state \<Rightarrow> asm_error + line_state" where
  "line_complete line pos ch final separator l =
     (if ls_maybe_label l \<and> ch = CHR '':'' then
        (if ls_token_beg l = None then Inl EmptyLabel
         else Inr (l\<lparr>ls_maybe_label := False, ls_label := line_token line l, ls_token_beg := None\<rparr>))
      else if ((\<not> is_space ch \<and> ls_token_beg l \<noteq> None \<and> ls_token_last l + 1 < pos) \<or> final) \<and> ls_operand_num l = None then
        (if ch = CHR '','' then Inl EmptyFirstOperand
         else Inr (l\<lparr>ls_maybe_label := False,
                ls_op := (if ls_token_beg l \<noteq> None then to_lower (line_token line l) else ls_op l),
                ls_token_beg := None, ls_operand_num := Some 0\<rparr>))
      else if separator \<or> final then
        (if ls_token_beg l = None then Inl EmptyOperand
         else Inr (l\<lparr>ls_operands := ls_operands l @ [line_token line l], ls_token_beg := None,
                ls_operand_num := map_option Suc (ls_operand_num l)\<rparr>))
      else Inr l)"

text \<open>The loop over the characters and the end of the line; an error has its column.\<close>

function scan_line :: "string \<Rightarrow> nat \<Rightarrow> line_state \<Rightarrow> (nat \<times> asm_error) + line_state" where
  "scan_line line pos l =
     (if length line < pos then Inr l
      else
        (let at_end = (length line \<le> pos); ch = (if at_end then CHR '' '' else line ! pos) in
         if \<not> ls_in_quotes l then
           (let final = (at_end \<or> line_final line pos ch);
                l = l\<lparr>ls_space_separated := ls_space_separated l \<or> (\<not> at_end \<and> line_pragma line pos ch)\<rparr>;
                separator = (final \<or> (ls_maybe_label l \<and> ch = CHR '':'') \<or>
                  (ls_operand_num l \<noteq> None \<and>
                    (ch = CHR '','' \<or> (ls_space_separated l \<and> is_space ch \<and> ls_token_beg l \<noteq> None)))) in
            case line_complete line pos ch final separator l of
              Inl e \<Rightarrow> Inl (pos, e)
            | Inr l \<Rightarrow>
                if final then Inr l
                else
                  (let l = (if \<not> is_space ch \<and> \<not> separator
                        then l\<lparr>ls_token_beg := (if ls_token_beg l = None then Some pos else ls_token_beg l), ls_token_last := pos\<rparr>
                        else l)\<lparr>ls_backslash := False\<rparr> in
                   if ch = CHR ''\"'' then
                     (if ls_operand_num l = None then Inl (pos, UnexpectedQuotes)
                      else scan_line line (pos + 1) (l\<lparr>ls_in_quotes := True\<rparr>))
                   else scan_line line (pos + 1) l))
         else if at_end then Inl (pos, UnterminatedQuotes)
         else
           scan_line line (pos + 1)
             (l\<lparr>ls_token_last := pos,
                ls_in_quotes := \<not> (ch = CHR ''\"'' \<and> \<not> ls_backslash l),
                ls_backslash := (ch = CHR 0x5c \<and> \<not> ls_backslash l)\<rparr>)))"
  by pat_completeness auto
termination by (relation "measure (\<lambda>(line, pos, _). Suc (length line) - pos)") auto

declare scan_line.simps [simp del]

section \<open>Directives\<close>

text \<open>
  Parsing and evaluating an operand.  The errors of the two steps are told apart by the caller;
  a division without a result stops the process.
\<close>

datatype expr_result = ExprParse fme_error | ExprEval eval_error | ExprValue u64

definition asm_expression :: "'m asm_env \<Rightarrow> string \<Rightarrow> ('m, expr_result) asm" where
  "asm_expression env text = (\<lambda>s.
     (s, case fme_parse (ae_to_long_long env) text of
           Inl e \<Rightarrow> Inr (ExprParse e)
         | Inr t \<Rightarrow> (case fme_eval (Some (get_value (sa_symtab s))) (sa_address s) t of
             Inl UndefinedDivision \<Rightarrow> Inl UndefinedBehaviour
           | Inl e \<Rightarrow> Inr (ExprEval e)
           | Inr v \<Rightarrow> Inr (ExprValue v))))"

text \<open>An expression whose errors are fatal.\<close>

definition asm_with_value ::
  "'m asm_env \<Rightarrow> string \<Rightarrow> nat \<Rightarrow> string \<Rightarrow> asm_error \<Rightarrow> asm_error \<Rightarrow> (u64 \<Rightarrow> ('m, bool) asm) \<Rightarrow> ('m, bool) asm" where
  "asm_with_value env file line text eparse eeval k = act_bind (asm_expression env text) (\<lambda>r. case r of
     ExprParse e \<Rightarrow> asm_fatal file line eparse
   | ExprEval e \<Rightarrow> asm_fatal file line eeval
   | ExprValue v \<Rightarrow> k v)"

definition do_org :: "'m asm_env \<Rightarrow> string \<Rightarrow> nat \<Rightarrow> string list \<Rightarrow> ('m, bool) asm" where
  "do_org env file line operands =
     (if length operands \<noteq> 1 then asm_fail file line 0 OrgOperands
      else asm_with_value env file line (operands ! 0) OrgParse OrgEval (\<lambda>v s. (s\<lparr>sa_address := v\<rparr>, Inr True)))"

definition do_fill :: "'m asm_env \<Rightarrow> string \<Rightarrow> nat \<Rightarrow> string \<Rightarrow> u64 \<Rightarrow> ('m, bool) asm" where
  "do_fill env file line text filler = asm_with_value env file line text SpaceParse SpaceEval (\<lambda>v.
     act_bind (asm_repeat (nat (sint v)) (asm_emit8 env (ucast filler))) (\<lambda>_. act_return True))"

definition do_space :: "'m asm_env \<Rightarrow> string \<Rightarrow> nat \<Rightarrow> string list \<Rightarrow> ('m, bool) asm" where
  "do_space env file line operands =
     (if length operands \<noteq> 1 \<and> length operands \<noteq> 2 then asm_fail file line 0 SpaceOperands
      else if 1 < length operands
      then asm_with_value env file line (operands ! 1) SpaceParse SpaceEval (do_fill env file line (operands ! 0))
      else do_fill env file line (operands ! 0) 0)"

definition do_set :: "'m asm_env \<Rightarrow> string \<Rightarrow> nat \<Rightarrow> string list \<Rightarrow> ('m, bool) asm" where
  "do_set env file line operands =
     (if 2 < length operands \<or> length operands < 1 then asm_fail file line 0 SetOperands
      else
        (let name = trimmed (operands ! 0) in
         if name = ''noat'' \<or> name = ''noreored'' then act_return True
         else if 1 < length operands then
           act_bind (asm_expression env (operands ! 1)) (\<lambda>r. case r of
             ExprValue v \<Rightarrow> act_bind (asm_set_symbol name v 0) (\<lambda>_. act_return True)
           | _ \<Rightarrow> asm_fail file line 0 (SetParse (operands ! 1)))
         else act_bind (asm_set_symbol name 1 0) (\<lambda>_. act_return True)))"

definition ascii_escape :: "char \<Rightarrow> u8 option" where
  "ascii_escape c = map_of [(CHR ''0'', 0x00), (CHR ''b'', 0x08), (CHR ''t'', 0x09), (CHR ''n'', 0x0A), (CHR ''r'', 0x0D),
     (CHR ''\"'', 0x22), (CHR 0x5c, 0x5C)] c"

fun do_ascii_chars :: "'m asm_env \<Rightarrow> string \<Rightarrow> nat \<Rightarrow> string \<Rightarrow> ('m, bool) asm" where
  "do_ascii_chars env file line [] = act_return True"
| "do_ascii_chars env file line (c # s) =
     (if c = CHR 0x5c then
        (case s of [] \<Rightarrow> asm_fail file line 0 AsciiEscapeEnd
         | e # s \<Rightarrow> (case ascii_escape e of None \<Rightarrow> asm_fail file line 0 (AsciiEscape e)
             | Some b \<Rightarrow> act_bind (asm_emit8 env b) (\<lambda>_. do_ascii_chars env file line s)))
      else act_bind (asm_emit8 env (of_nat (char_code c))) (\<lambda>_. do_ascii_chars env file line s))"

fun do_ascii :: "'m asm_env \<Rightarrow> string \<Rightarrow> nat \<Rightarrow> bool \<Rightarrow> string list \<Rightarrow> ('m, bool) asm" where
  "do_ascii env file line append_zero [] = act_return True"
| "do_ascii env file line append_zero (s # operands) =
     (if length s < 2 then asm_fail file line 0 AsciiEmpty
      else if hd s \<noteq> CHR ''\"'' \<or> last s \<noteq> CHR ''\"'' then asm_fail file line 0 AsciiQuotes
      else act_bind (do_ascii_chars env file line (mid s 1 (length s - 2))) (\<lambda>ok.
        if \<not> ok then act_return False
        else act_bind (if append_zero then asm_emit8 env 0 else act_return ())
          (\<lambda>_. do_ascii env file line append_zero operands)))"

fun do_byte :: "'m asm_env \<Rightarrow> string \<Rightarrow> nat \<Rightarrow> string list \<Rightarrow> ('m, bool) asm" where
  "do_byte env file line [] = act_return True"
| "do_byte env file line (s # operands) =
     (let (val, chars_taken) = string_to_uint64 s;
          next = (\<lambda>v. act_bind (asm_emit8 env v) (\<lambda>_. do_byte env file line operands)) in
      if chars_taken \<noteq> length s
      then asm_with_value env file line s ByteParse ByteEval (\<lambda>v. next (ucast v))
      else next (ucast val))"

text \<open>The bytes that bring an address to a multiple of four.\<close>

definition align_count :: "address \<Rightarrow> nat" where
  "align_count a = unat ((- a) AND 3)"

definition asm_align :: "'m asm_env \<Rightarrow> ('m, unit) asm" where
  "asm_align env = (\<lambda>s. asm_repeat (align_count (sa_address s)) (asm_emit8 env 0) s)"

text \<open>
  The lower limit of a word is written \<^verbatim>\<open>-0xffffffff\<close>, which is an unsigned number of 32 bits: 1.
\<close>

definition wordArg :: SplitBitField where
  "wordArg = \<lparr>sbf_fields = [\<lparr>bf_count = 32, bf_offset = 0\<rparr>], sbf_shift = 0\<rparr>"

definition word_min :: int where
  "word_min = uint (- 0xffffffff :: u32)"

definition word_reloc :: "address \<Rightarrow> string \<Rightarrow> string \<Rightarrow> nat \<Rightarrow> RelocEntry" where
  "word_reloc location expr file line = \<lparr>re_offset = 0, re_min = word_min, re_max = 0xffffffff, re_arg = wordArg,
     re_mod = MOD_NONE, re_location = location, re_expression = expr, re_filename = file, re_line = line\<rparr>"

definition asm_append_reloc :: "RelocEntry \<Rightarrow> ('m, unit) asm" where
  "asm_append_reloc r = (\<lambda>s. (s\<lparr>sa_reloc := sa_reloc s @ [r]\<rparr>, Inr ()))"

fun do_word :: "'m asm_env \<Rightarrow> string \<Rightarrow> nat \<Rightarrow> string list \<Rightarrow> ('m, bool) asm" where
  "do_word env file line [] = act_return True"
| "do_word env file line (t # operands) =
     (let s = simplified t; (val, chars_taken) = string_to_uint64 s in
      if chars_taken \<noteq> length s then
        act_bind (\<lambda>st. asm_append_reloc (word_reloc (sa_address st) s file line) st)
          (\<lambda>_. act_bind (asm_emit32 env 0) (\<lambda>_. do_word env file line operands))
      else act_bind (asm_emit32 env (ucast val)) (\<lambda>_. do_word env file line operands))"

fun asm_emit_words :: "'m asm_env \<Rightarrow> u32 list \<Rightarrow> ('m, unit) asm" where
  "asm_emit_words env [] = act_return ()"
| "asm_emit_words env (w # ws) = act_bind (asm_emit32 env w) (\<lambda>_. asm_emit_words env ws)"

definition do_instruction :: "'m asm_env \<Rightarrow> string \<Rightarrow> nat \<Rightarrow> string \<Rightarrow> string list \<Rightarrow> ('m, bool) asm" where
  "do_instruction env file line op operands = (\<lambda>s.
     case code_from_tokens 8 \<lparr>ti_base = op, ti_fields = operands, ti_address = sa_address s, ti_filename = file, ti_line = line\<rparr>
            (Some (sa_reloc s)) True of
       (reloc, r) \<Rightarrow>
         (let s = s\<lparr>sa_reloc := the reloc\<rparr> in
          case r of
            Inl e \<Rightarrow> if e = OutOfString then (s, Inl UndefinedBehaviour) else asm_fail file line 0 (InstructionParse e) s
          | Inr ws \<Rightarrow> act_bind (asm_emit_words env ws) (\<lambda>_. act_return True) s))"

section \<open>Lines and files\<close>

text \<open>The base class ignores a pragma.\<close>

definition process_pragma :: "string list \<Rightarrow> string \<Rightarrow> nat \<Rightarrow> ('m, bool) asm" where
  "process_pragma operands file line = act_return True"

text \<open>
  An include; \<open>process\<close> processes a file.  The error of the caller's string is kept when the included file
  has set it.
\<close>

definition include_fail :: "string \<Rightarrow> nat \<Rightarrow> asm_error \<Rightarrow> ('m, bool) asm" where
  "include_fail file line e = (\<lambda>s. let prev = sa_error s in
     case asm_fail file line 0 e s of (s, r) \<Rightarrow> (s\<lparr>sa_error := (if prev = None then Some e else prev)\<rparr>, r))"

definition include_pop :: "('m, bool) asm \<Rightarrow> ('m, bool) asm" where
  "include_pop f = act_bind f (\<lambda>r s. (s\<lparr>sa_include_stack := butlast (sa_include_stack s)\<rparr>, Inr r))"

definition do_include ::
  "'m asm_env \<Rightarrow> (string \<Rightarrow> ('m, bool) asm) \<Rightarrow> string \<Rightarrow> nat \<Rightarrow> string list \<Rightarrow> ('m, bool) asm" where
  "do_include env process file line operands =
     (if length operands \<noteq> 1 \<or> operands ! 0 = [] then asm_fail file line 0 IncludeOperands
      else
        (let n = operands ! 0;
             n = (if hd n = CHR ''\"'' then mid n 1 (length n - 2) else n);
             incname = ae_include_path env file n in
         include_pop (\<lambda>s.
           let s = s\<lparr>sa_include_stack := sa_include_stack s @ [file]\<rparr> in
           if incname \<in> set (sa_include_stack s) then include_fail file line (RecursiveInclude incname) s
           else act_bind (process incname) (\<lambda>ok.
                  if ok then act_return True else include_fail file line (IncludedFile incname)) s)))"

definition ignored_directives :: "string list" where
  "ignored_directives = [''.text'', ''.data'', ''.bss'', ''.globl'', ''.end'', ''.ent'', ''.option'']"

definition process_operation ::
  "'m asm_env \<Rightarrow> (string \<Rightarrow> ('m, bool) asm) \<Rightarrow> string \<Rightarrow> nat \<Rightarrow> string \<Rightarrow> string list \<Rightarrow> ('m, bool) asm" where
  "process_operation env process file line op operands =
     (if op = [] then
        (if operands \<noteq> [] then asm_fail file line 0 OperandsForEmptyOperation else act_return True)
      else if op = ''#pragma'' then process_pragma operands file line
      else if op = ''#include'' then do_include env process file line operands
      else if op \<in> set ignored_directives then act_return True
      else if op = ''.org'' then do_org env file line operands
      else if op = ''.space'' \<or> op = ''.skip'' then do_space env file line operands
      else if op = ''.equ'' \<or> op = ''.set'' then do_set env file line operands
      else if op = ''.ascii'' \<or> op = ''.asciz'' then do_ascii env file line (op = ''.asciz'') operands
      else if op = ''.byte'' then do_byte env file line operands
      else act_bind (asm_align env) (\<lambda>_.
        if op = ''.word'' then do_word env file line operands else do_instruction env file line op operands))"

definition process_line ::
  "'m asm_env \<Rightarrow> (string \<Rightarrow> ('m, bool) asm) \<Rightarrow> string \<Rightarrow> string \<Rightarrow> nat \<Rightarrow> ('m, bool) asm" where
  "process_line env process line file line_number =
     (case scan_line line 0 line_start of
        Inl (pos, e) \<Rightarrow> asm_fail file line_number pos e
      | Inr l \<Rightarrow>
          act_bind (if ls_label l \<noteq> [] then (\<lambda>s. asm_set_symbol (ls_label l) (sa_address s) 4 s) else act_return ())
            (\<lambda>_. process_operation env process file line_number (ls_op l) (ls_operands l)))"

fun process_lines ::
  "(string \<Rightarrow> nat \<Rightarrow> ('m, bool) asm) \<Rightarrow> string list \<Rightarrow> nat \<Rightarrow> bool \<Rightarrow> ('m, bool) asm" where
  "process_lines f [] ln res = act_return res"
| "process_lines f (l # ls) ln res = act_bind (f l ln) (\<lambda>ok. process_lines f ls (ln + 1) (res \<and> ok))"

text \<open>
  A file, with a bound on the nesting of includes; nothing else limits it, and beyond the bound the
  call has not returned.
\<close>

primrec process_file :: "nat \<Rightarrow> 'm asm_env \<Rightarrow> string \<Rightarrow> ('m, bool) asm" where
  "process_file 0 env file = act_throw NonTermination"
| "process_file (Suc n) env file = (case ae_read_file env file of
     None \<Rightarrow> asm_fail [] 0 0 (CannotOpen file)
   | Some lines \<Rightarrow> process_lines (\<lambda>l ln. process_line env (process_file n env) l file ln) lines 1 True)"

section \<open>Relocations\<close>

text \<open>
  One relocation at the end; the first error is the one of the caller's string.  A word that cannot be
  updated is written back without its old argument.
\<close>

definition reloc_fail :: "RelocEntry \<Rightarrow> bool \<Rightarrow> asm_error \<Rightarrow> ('m, bool) asm" where
  "reloc_fail r reported e = (\<lambda>s. let prev = sa_error s in
     case asm_fail (re_filename r) (re_line r) 0 e s of
       (s, _) \<Rightarrow> (s\<lparr>sa_error := (if reported then prev else Some e)\<rparr>, Inr True))"

definition reloc_update :: "u32 \<Rightarrow> u64 \<Rightarrow> RelocEntry \<Rightarrow> u32 \<times> bool" where
  "reloc_update w value r = (case inst_update w value (RelocExpression.truncate r) of
     Some w' \<Rightarrow> (w', True) | None \<Rightarrow> (w AND NOT (sbf_encode (re_arg r) (NOT 0)), False))"

definition do_reloc :: "'m asm_env \<Rightarrow> RelocEntry \<Rightarrow> bool \<Rightarrow> ('m, bool) asm" where
  "do_reloc env r reported = (\<lambda>s.
     case fme_parse (ae_to_long_long env) (re_expression r) of
       Inl e \<Rightarrow> reloc_fail r reported (RelocParse e) s
     | Inr t \<Rightarrow>
         (case fme_eval (Some (get_value (sa_symtab s))) (re_location r) t of
            Inl UndefinedDivision \<Rightarrow> (s, Inl UndefinedBehaviour)
          | Inl e \<Rightarrow> reloc_fail r reported (RelocEval e) s
          | Inr value \<Rightarrow>
              act_bind (asm_on_memory (read_u32 (ae_host env) (ae_mem env) (plain_address (re_location r)) AE_INTERNAL)) (\<lambda>w.
                let (w', ok) = reloc_update w value r in
                act_bind (if ok then act_return reported else reloc_fail r reported (RelocUpdate value)) (\<lambda>reported s.
                  if sa_fatal_occured s then (s, Inr reported)
                  else act_bind (asm_on_memory (write_u32 (ae_host env) (ae_mem env) (plain_address (re_location r)) w' AE_INTERNAL))
                         (\<lambda>_. act_return reported) s)) s))"

fun do_relocs :: "'m asm_env \<Rightarrow> RelocEntry list \<Rightarrow> bool \<Rightarrow> ('m, bool) asm" where
  "do_relocs env [] reported = act_return reported"
| "do_relocs env (r # rs) reported = act_bind (do_reloc env r reported) (do_relocs env rs)"

definition asm_finish :: "'m asm_env \<Rightarrow> ('m, bool) asm" where
  "asm_finish env = (\<lambda>s. act_bind (do_relocs env (sa_reloc s) False) (\<lambda>_ s.
     (s\<lparr>sa_reloc := []\<rparr>, Inr (\<not> sa_error_occured s))) s)"

end
