(* ===== verification/Asm_Lines.thy ===== *)
theory Asm_Lines
  imports Simple_Asm
begin

text \<open>
  What the loop over the characters of a line (\<^verbatim>\<open>SimpleAsm::process_line\<close>) finds in an operation
  followed by operands: one lemma per kind of character, composed along the line.
\<close>

section \<open>One character\<close>

text \<open>A state outside quotes without a label.\<close>

definition scan_state :: "string \<Rightarrow> string list \<Rightarrow> bool \<Rightarrow> nat option \<Rightarrow> nat \<Rightarrow> nat option \<Rightarrow> line_state" where
  "scan_state op operands ml tb te num = \<lparr>ls_label = [], ls_op = op, ls_operands = operands, ls_in_quotes = False,
     ls_backslash = False, ls_maybe_label = ml, ls_space_separated = False, ls_token_beg = tb, ls_token_last = te,
     ls_operand_num = num\<rparr>"

lemma line_start_state: "line_start = scan_state [] [] True None 0 None"
  by (simp add: line_start_def scan_state_def)

lemma space_char [simp]: "is_space CHR '' ''"
  by (simp add: is_space_def char_code_def)

lemma line_charD:
  "line_char c \<Longrightarrow> \<not> is_space c \<and> c \<noteq> CHR '','' \<and> c \<noteq> CHR '':'' \<and> c \<noteq> CHR '';'' \<and> c \<noteq> CHR ''#'' \<and> c \<noteq> CHR ''/'' \<and> c \<noteq> CHR ''\"''"
  by (auto simp: line_char_def)

lemma scan_char:
  assumes "pos < length line" "line_char (line ! pos)" "tb = None \<or> pos \<le> Suc te \<or> num \<noteq> None"
  shows "scan_line line pos (scan_state op os ml tb te num) =
    scan_line line (Suc pos) (scan_state op os ml (Some (case tb of None \<Rightarrow> pos | Some b \<Rightarrow> b)) pos num)"
  using assms(1,3) line_charD [OF assms(2)]
  by (subst scan_line.simps) (auto simp: scan_state_def line_final_def line_pragma_def line_complete_def Let_def split: option.splits)

lemma scan_operation_end:
  assumes "pos < length line" "line_char (line ! pos)" "Suc te < pos"
  shows "scan_line line pos (scan_state op os ml (Some b) te None) =
    scan_line line (Suc pos) (scan_state (to_lower (mid line b (Suc te - b))) os False (Some pos) pos (Some 0))"
  using assms(1,3) line_charD [OF assms(2)]
  by (subst scan_line.simps) (auto simp: scan_state_def line_final_def line_pragma_def line_complete_def line_token_def Let_def)

lemma scan_space:
  assumes "pos < length line" "line ! pos = CHR '' ''"
  shows "scan_line line pos (scan_state op os ml tb te num) = scan_line line (Suc pos) (scan_state op os ml tb te num)"
  using assms
  by (subst scan_line.simps) (auto simp: scan_state_def line_final_def line_pragma_def line_complete_def Let_def)

lemma scan_comma:
  assumes "pos < length line" "line ! pos = CHR '',''"
  shows "scan_line line pos (scan_state op os ml (Some b) te (Some k)) =
    scan_line line (Suc pos) (scan_state op (os @ [mid line b (Suc te - b)]) ml None te (Some (Suc k)))"
proof -
  have "\<not> is_space CHR '',''" by (simp add: is_space_def char_code_def)
  with assms show ?thesis
    by (subst scan_line.simps) (auto simp: scan_state_def line_final_def line_pragma_def line_complete_def line_token_def Let_def)
qed

lemma scan_end:
  "scan_line line (length line) (scan_state op os ml (Some b) te None) =
    Inr (scan_state (to_lower (mid line b (Suc te - b))) os False None te (Some 0))"
  "scan_line line (length line) (scan_state op os ml (Some b) te (Some k)) =
    Inr (scan_state op (os @ [mid line b (Suc te - b)]) ml None te (Some (Suc k)))"
  by (subst scan_line.simps, simp add: scan_state_def line_complete_def line_token_def Let_def)+

section \<open>Tokens and lines\<close>

lemma scan_rest_of_word:
  assumes "list_all line_char w" "pre \<noteq> []"
  shows "scan_line (pre @ w @ post) (length pre) (scan_state op os ml (Some b) (length pre - 1) num) =
    scan_line (pre @ w @ post) (length pre + length w) (scan_state op os ml (Some b) (length pre + length w - 1) num)"
  using assms
proof (induction w arbitrary: pre)
  case (Cons c w)
  have "scan_line (pre @ (c # w) @ post) (length pre) (scan_state op os ml (Some b) (length pre - 1) num) =
      scan_line (pre @ (c # w) @ post) (Suc (length pre)) (scan_state op os ml (Some b) (length pre) num)"
    using Cons.prems by (subst scan_char) simp_all
  also have "\<dots> = scan_line ((pre @ [c]) @ w @ post) (length (pre @ [c])) (scan_state op os ml (Some b) (length (pre @ [c]) - 1) num)"
    by simp
  also have "\<dots> = scan_line ((pre @ [c]) @ w @ post) (length (pre @ [c]) + length w)
      (scan_state op os ml (Some b) (length (pre @ [c]) + length w - 1) num)"
    using Cons.prems by (intro Cons.IH) simp_all
  finally show ?case by simp
qed simp

lemma scan_word:
  assumes "list_all line_char w" "w \<noteq> []"
  shows "scan_line (pre @ w @ post) (length pre) (scan_state op os ml None te num) =
    scan_line (pre @ w @ post) (length pre + length w) (scan_state op os ml (Some (length pre)) (length pre + length w - 1) num)"
proof -
  obtain c v where w: "w = c # v" using assms(2) by (cases w) simp_all
  have "scan_line (pre @ w @ post) (length pre) (scan_state op os ml None te num) =
      scan_line ((pre @ [c]) @ v @ post) (length (pre @ [c])) (scan_state op os ml (Some (length pre)) (length (pre @ [c]) - 1) num)"
    using assms(1) by (subst scan_char) (simp_all add: w)
  also have "\<dots> = scan_line ((pre @ [c]) @ v @ post) (length (pre @ [c]) + length v)
      (scan_state op os ml (Some (length pre)) (length (pre @ [c]) + length v - 1) num)"
    using assms(1) by (intro scan_rest_of_word) (simp_all add: w)
  finally show ?thesis by (simp add: w)
qed

fun operands_text :: "string \<Rightarrow> string list \<Rightarrow> string" where
  "operands_text delim [] = []"
| "operands_text delim (t # ts) = delim @ t @ operands_text '', '' ts"

definition token_text :: "string \<Rightarrow> bool" where
  "token_text t = (t \<noteq> [] \<and> list_all line_char t)"

lemma mid_word: "mid (pre @ w @ post) (length pre) (length w) = w"
  by (simp add: mid_def)

lemma scan_operands:
  assumes "token_text t" "list_all token_text ts"
  shows "\<exists>l. scan_line (pre @ t @ operands_text '', '' ts) (length pre + length t)
      (scan_state op os ml (Some (length pre)) (length pre + length t - 1) (Some k)) = Inr l \<and>
    ls_label l = [] \<and> ls_op l = op \<and> ls_operands l = os @ t # ts"
  using assms
proof (induction ts arbitrary: pre t os k)
  case Nil
  then have "Suc (length pre + length t - 1) - length pre = length t" by (cases t) (simp_all add: token_text_def)
  with scan_end(2) [of "pre @ t" op os ml "length pre" "length pre + length t - 1" k] mid_word [of pre t "[]"]
  show ?case by (simp add: scan_state_def)
next
  case (Cons u ts)
  let ?line = "pre @ t @ operands_text '', '' (u # ts)"
  have "Suc (length pre + length t - 1) - length pre = length t" using Cons.prems(1) by (cases t) (simp_all add: token_text_def)
  then have "scan_line ?line (length pre + length t) (scan_state op os ml (Some (length pre)) (length pre + length t - 1) (Some k)) =
      scan_line ?line (Suc (length pre + length t)) (scan_state op (os @ [t]) ml None (length pre + length t - 1) (Some (Suc k)))"
    using mid_word [of pre t] by (subst scan_comma) (simp_all add: nth_append)
  also have "\<dots> = scan_line ?line (Suc (Suc (length pre + length t))) (scan_state op (os @ [t]) ml None (length pre + length t - 1) (Some (Suc k)))"
    by (subst scan_space) (simp_all add: nth_append)
  also have "\<dots> = scan_line ((pre @ t @ '', '') @ u @ operands_text '', '' ts) (length (pre @ t @ '', ''))
      (scan_state op (os @ [t]) ml None (length pre + length t - 1) (Some (Suc k)))" by simp
  also have "\<dots> = scan_line ((pre @ t @ '', '') @ u @ operands_text '', '' ts) (length (pre @ t @ '', '') + length u)
      (scan_state op (os @ [t]) ml (Some (length (pre @ t @ '', ''))) (length (pre @ t @ '', '') + length u - 1) (Some (Suc k)))"
    using Cons.prems(2) by (intro scan_word) (simp_all add: token_text_def)
  finally show ?case using Cons.IH [of u "pre @ t @ '', ''" "os @ [t]" "Suc k"] Cons.prems(2) by simp
qed

lemma scan_line_text:
  assumes "token_text n" "to_lower n = n" "list_all token_text ts"
  shows "\<exists>l. scan_line (n @ operands_text '' '' ts) 0 line_start = Inr l \<and> ls_label l = [] \<and> ls_op l = n \<and> ls_operands l = ts"
proof -
  let ?line = "n @ operands_text '' '' ts"
  have n: "list_all line_char n" "n \<noteq> []" "Suc (length n - 1) = length n" "mid ?line 0 (length n) = n"
    using assms(1) mid_word [of "[]" n] by (simp_all add: token_text_def)
  have w: "scan_line ?line 0 line_start = scan_line ?line (length n) (scan_state [] [] True (Some 0) (length n - 1) None)"
    using scan_word [OF n(1,2), of "[]"] by (simp add: line_start_state)
  show ?thesis
  proof (cases ts)
    case Nil
    with w n assms(2) scan_end(1) [of n] show ?thesis by (simp add: scan_state_def)
  next
    case (Cons t us)
    obtain c v where t: "t = c # v" "line_char c" "list_all line_char v"
      using assms(3) Cons by (cases t) (simp_all add: token_text_def)
    let ?pre = "n @ '' ''"
    have "scan_line ?line (length n) (scan_state [] [] True (Some 0) (length n - 1) None) =
        scan_line ?line (Suc (length n)) (scan_state [] [] True (Some 0) (length n - 1) None)"
      by (subst scan_space) (simp_all add: Cons nth_append)
    also have "\<dots> = scan_line ?line (Suc (Suc (length n))) (scan_state n [] False (Some (Suc (length n))) (Suc (length n)) (Some 0))"
      using n assms(2) by (subst scan_operation_end) (simp_all add: Cons t nth_append)
    also have "\<dots> = scan_line ((?pre @ [c]) @ v @ operands_text '', '' us) (length (?pre @ [c]))
        (scan_state n [] False (Some (length ?pre)) (length (?pre @ [c]) - 1) (Some 0))" by (simp add: Cons t)
    also have "\<dots> = scan_line ((?pre @ [c]) @ v @ operands_text '', '' us) (length (?pre @ [c]) + length v)
        (scan_state n [] False (Some (length ?pre)) (length (?pre @ [c]) + length v - 1) (Some 0))"
      by (rule scan_rest_of_word [OF t(3)]) simp
    also have "\<dots> = scan_line (?pre @ t @ operands_text '', '' us) (length ?pre + length t)
        (scan_state n [] False (Some (length ?pre)) (length ?pre + length t - 1) (Some 0))" by (simp add: t)
    finally show ?thesis using w scan_operands [of t us ?pre n "[]" False 0] assms(3) Cons by simp
  qed
qed

lemma process_line_text:
  assumes "token_text n" "to_lower n = n" "list_all token_text ts"
  shows "process_line env process (n @ operands_text '' '' ts) file ln s = process_operation env process file ln n ts s"
  using scan_line_text [OF assms] by (auto simp: process_line_def)

text \<open>The text of an instruction is such a line.\<close>

lemma args_text_operands: "args_text symbolic dt addr delim args = operands_text delim (map (arg_text symbolic dt addr) args)"
  by (induction args arbitrary: delim) simp_all

lemma operation_not_directive:
  assumes "n \<noteq> []" "hd n \<noteq> CHR ''.''" "hd n \<noteq> CHR ''#''"
  shows "process_operation env process file ln n ts =
    act_bind (asm_align env) (\<lambda>_. do_instruction env file ln n ts)"
proof -
  have "n \<noteq> CHR ''.'' # m" "n \<noteq> CHR ''#'' # m" for m using assms by (cases n; simp)+
  with assms(1) show ?thesis by (simp add: process_operation_def ignored_directives_def)
qed

lemma process_instruction_line:
  assumes "im \<in> set instruction_set" "args_printable symbolic im v (sa_address s)" "align_count (sa_address s) = 0"
  shows "process_line env process (to_str symbolic (assemble im v) (sa_address s)) file ln s =
    act_bind (asm_emit32 env (assemble im v)) (\<lambda>_. act_return True) s"
proof -
  let ?w = "assemble im v" and ?a = "sa_address s"
  have al: "asm_align env s = (s, Inr ())" using assms(3) by (simp add: asm_align_def)
  define n where "n = (if ?w = NOP then ''nop'' else im_name im)"
  define ts where "ts = (if ?w = NOP then [] else map (arg_text symbolic ?w ?a) (im_args im))"
  have nop: "list_all name_char ''nop''" by (simp add: name_char_def line_char_def is_space_def to_lower_char_def char_code_def)
  have n: "n \<noteq> []" "list_all name_char n" "hd n \<noteq> CHR ''.''" using nop entry_facts [OF assms(1)] by (simp_all add: n_def)
  have "list_all line_char n" using n(2) by (auto simp: name_char_def list_all_iff)
  moreover from this n(1) have "line_char (hd n)" by (simp add: list_all_iff)
  ultimately have tn: "token_text n" "to_lower n = n" "hd n \<noteq> CHR ''#''"
    using n(1) to_lower_name [OF n(2)] by (simp add: token_text_def, blast, auto dest: line_charD)
  have tt: "list_all token_text ts"
    using arg_text_facts(4,5) [OF assms(1,2)] by (auto simp: ts_def token_text_def list_all_iff solid_def)
  have line: "to_str symbolic ?w ?a = n @ operands_text '' '' ts"
    unfolding to_str_assemble [OF assms(1)] by (simp add: n_def ts_def args_text_operands)
  have code: "code_from_tokens 8 \<lparr>ti_base = n, ti_fields = ts, ti_address = ?a, ti_filename = file, ti_line = ln\<rparr>
      (Some (sa_reloc s)) True = (Some (sa_reloc s), Inr [?w])"
  proof (cases "?w = NOP")
    case True
    then show ?thesis by (simp add: n_def ts_def tokens_nop)
  next
    case False
    have "list_all2 (field_of_arg symbolic ?w ?a) (im_args im) (map (arg_text symbolic ?w ?a) (im_args im))"
      by (auto simp: list.rel_map field_of_arg_def intro!: list.rel_refl_strong)
    then show ?thesis using False by (intro tokens_assemble [OF assms(1,2)]) (simp_all add: n_def ts_def)
  qed
  have "process_line env process (to_str symbolic ?w ?a) file ln s = do_instruction env file ln n ts s"
    unfolding line process_line_text [OF tn(1,2) tt] operation_not_directive [OF n(1,3) tn(3)] using al by simp
  also have "\<dots> = act_bind (asm_emit32 env ?w) (\<lambda>_. act_return True) s"
    by (simp add: do_instruction_def code act_bind_def split: prod.splits sum.splits)
  finally show ?thesis .
qed

end
