(* ===== verification/Asm_Errors.thy ===== *)
theory Asm_Errors
  imports Simple_Asm Memory_Bus
begin

text \<open>
  Errors and termination of the assembler: what every directive leaves of the stack of includes, the
  error flag and the messages, by rules for the actions it is composed of; the nesting of includes is
  bounded by the number of files.
\<close>

section \<open>Actions that report no error\<close>

definition outcome_ok :: "('m SimpleAsm \<Rightarrow> asm_message list \<Rightarrow> 'a \<Rightarrow> bool) \<Rightarrow> 'm SimpleAsm \<Rightarrow> 'm SimpleAsm \<times> (sim_exception + 'a) \<Rightarrow> bool" where
  "outcome_ok Q s x = (case x of
     (s', Inl e) \<Rightarrow> e \<noteq> NonTermination
   | (s', Inr b) \<Rightarrow> sa_include_stack s' = sa_include_stack s \<and>
       (\<exists>ms. sa_messages s' = sa_messages s @ ms \<and> sa_error_occured s' = (sa_error_occured s \<or> ms \<noteq> []) \<and> Q s' ms b))"

lemma outcome_simps [simp]:
  "outcome_ok Q s (s', Inl e) = (e \<noteq> NonTermination)"
  "outcome_ok Q s (s', Inr b) = (sa_include_stack s' = sa_include_stack s \<and>
     (\<exists>ms. sa_messages s' = sa_messages s @ ms \<and> sa_error_occured s' = (sa_error_occured s \<or> ms \<noteq> []) \<and> Q s' ms b))"
  by (simp_all add: outcome_ok_def)

lemma outcome_reloc [simp]: "outcome_ok Q (s\<lparr>sa_reloc := rl\<rparr>) x = outcome_ok Q s x"
  by (simp add: outcome_ok_def split: prod.split sum.split)

text \<open>An action that reports nothing, and one that returns whether it has reported nothing.\<close>

definition quiet :: "('m, 'a) asm \<Rightarrow> bool" where
  "quiet f = (\<forall>s. outcome_ok (\<lambda>_ ms _. ms = []) s (f s))"

definition reports :: "string list \<Rightarrow> ('m, bool) asm \<Rightarrow> bool" where
  "reports st f = (\<forall>s. sa_include_stack s = st \<longrightarrow> outcome_ok (\<lambda>_ ms b. b = (ms = [])) s (f s))"

named_theorems asm_rules \<open>rules for the actions of the assembler\<close>

lemma outcome_bind:
  assumes "outcome_ok P s (f s)"
    and "\<And>s' x ms. f s = (s', Inr x) \<Longrightarrow> sa_include_stack s' = sa_include_stack s \<Longrightarrow>
      sa_error_occured s' = (sa_error_occured s \<or> ms \<noteq> []) \<Longrightarrow> P s' ms x \<Longrightarrow>
      outcome_ok (\<lambda>s'' ns b. Q s'' (ms @ ns) b) s' (g x s')"
  shows "outcome_ok Q s (act_bind f g s)"
proof (cases "f s")
  case (Pair s' r)
  show ?thesis
  proof (cases r)
    case (Inl e)
    then show ?thesis using Pair assms(1) by simp
  next
    case (Inr x)
    then obtain ms where ms: "sa_include_stack s' = sa_include_stack s" "sa_messages s' = sa_messages s @ ms"
      "sa_error_occured s' = (sa_error_occured s \<or> ms \<noteq> [])" "P s' ms x"
      using Pair assms(1) by auto
    note o = assms(2) [OF _ ms(1,3,4)]
    show ?thesis
    proof (cases "g x s'")
      case (Pair s'' r')
      then show ?thesis using o \<open>f s = (s', r)\<close> Inr ms by (cases r') fastforce+
    qed
  qed
qed

lemma quiet_bind [asm_rules]: "quiet f \<Longrightarrow> (\<And>x. quiet (g x)) \<Longrightarrow> quiet (act_bind f g)"
  unfolding quiet_def by (intro allI outcome_bind [where P = "\<lambda>_ ms _. ms = []"]) auto

lemma quiet_return [asm_rules]: "quiet (act_return x)"
  by (simp add: quiet_def)

lemma quiet_update [asm_rules]:
  "(\<And>s. sa_include_stack (u s) = sa_include_stack s) \<Longrightarrow> (\<And>s. sa_messages (u s) = sa_messages s) \<Longrightarrow>
   (\<And>s. sa_error_occured (u s) = sa_error_occured s) \<Longrightarrow> quiet (\<lambda>s. (u s, Inr (x s)))"
  by (simp add: quiet_def)

lemma reports_bind [asm_rules]: "quiet f \<Longrightarrow> (\<And>x. reports st (g x)) \<Longrightarrow> reports st (act_bind f g)"
  unfolding reports_def quiet_def by (intro allI impI outcome_bind [where P = "\<lambda>_ ms _. ms = []"]) auto

lemma reports_and_then:
  "reports st f \<Longrightarrow> reports st g \<Longrightarrow> reports st (act_bind f (\<lambda>ok. if \<not> ok then act_return False else g))"
  unfolding reports_def by (intro allI impI outcome_bind [where P = "\<lambda>_ ms b. b = (ms = [])"]) auto

lemma reports_true [asm_rules]: "reports st (act_return True)"
  by (simp add: reports_def)

lemma reports_update [asm_rules]:
  "(\<And>s. sa_include_stack (u s) = sa_include_stack s) \<Longrightarrow> (\<And>s. sa_messages (u s) = sa_messages s) \<Longrightarrow>
   (\<And>s. sa_error_occured (u s) = sa_error_occured s) \<Longrightarrow> reports st (\<lambda>s. (u s, Inr True))"
  by (simp add: reports_def)

lemma reports_if [asm_rules]: "(b \<Longrightarrow> reports st f) \<Longrightarrow> (\<not> b \<Longrightarrow> reports st g) \<Longrightarrow> reports st (if b then f else g)"
  by simp

lemma quiet_if [asm_rules]: "(b \<Longrightarrow> quiet f) \<Longrightarrow> (\<not> b \<Longrightarrow> quiet g) \<Longrightarrow> quiet (if b then f else g)"
  by simp

lemma reports_fail [asm_rules]: "reports st (asm_fail file line col e)" "reports st (asm_fatal file line e)"
  by (simp_all add: reports_def asm_fail_def asm_fatal_def)

section \<open>Directives\<close>

text \<open>A memory whose accesses return or throw.\<close>

definition memory_returns :: "'m frontend_ops \<Rightarrow> bool" where
  "memory_returns ops \<longleftrightarrow> (\<forall>a bs e m. snd (fm_write ops a bs e m) \<noteq> Inl NonTermination) \<and>
     (\<forall>a n e m. snd (fm_read ops a n e m) \<noteq> Inl NonTermination)"

lemma quiet_memory:
  fixes f :: "('m, 'a) action"
  assumes "\<And>m. snd (f m) \<noteq> Inl NonTermination"
  shows "quiet (asm_on_memory f)"
  unfolding quiet_def
proof
  fix s :: "'m SimpleAsm"
  obtain m r where f: "f (sa_mem s) = (m, r)" by fastforce
  with assms [of "sa_mem s"] show "outcome_ok (\<lambda>_ ms _. ms = []) s (asm_on_memory f s)"
    by (cases r) (auto simp: asm_on_memory_def)
qed

lemma snd_bind_return:
  "snd (act_bind f (\<lambda>x. act_return (g x)) m) = (case snd (f m) of Inl e \<Rightarrow> Inl e | Inr x \<Rightarrow> Inr (g x))"
  by (cases "f m"; cases "snd (f m)") simp_all

lemma accesses_return:
  assumes "memory_returns ops"
  shows "snd (write_generic host ops a v e m) \<noteq> Inl NonTermination" "snd (read_generic T host ops a e m) \<noteq> Inl NonTermination"
  using assms
  by (auto simp: memory_returns_def write_generic_def read_generic_def case_prod_beta' snd_bind_return split: sum.splits)

lemma quiet_unless_fatal:
  assumes "\<And>a. quiet (f a)"
  shows "quiet (\<lambda>s. if sa_fatal_occured s then (s, Inr ()) else f (sa_address s) s)"
  using assms by (simp add: quiet_def)

lemma quiet_emit [asm_rules]:
  assumes "memory_returns (ae_mem env)"
  shows "quiet (asm_emit8 env b)" "quiet (asm_emit32 env w)"
proof -
  have w: "quiet (ignore_result (asm_on_memory (write_generic host (ae_mem env) a v e)))" for host a e and v :: "'w::len word"
    unfolding ignore_result_def by (intro asm_rules quiet_memory accesses_return assms)
  show "quiet (asm_emit8 env b)" unfolding asm_emit8_def write_u8_def
    by (rule quiet_bind) (intro quiet_unless_fatal w, intro quiet_update, simp_all)
  show "quiet (asm_emit32 env w)" unfolding asm_emit32_def write_u32_def
    by (rule quiet_bind) (intro quiet_unless_fatal w, intro quiet_update, simp_all)
qed

lemma quiet_repeat [asm_rules]: "quiet f \<Longrightarrow> quiet (asm_repeat n f)"
  by (induction n) (auto intro: asm_rules)

lemma quiet_align [asm_rules]:
  assumes "memory_returns (ae_mem env)"
  shows "quiet (asm_align env)"
  unfolding quiet_def asm_align_def
  by (intro allI quiet_repeat [OF quiet_emit(1) [OF assms], unfolded quiet_def, rule_format])

lemma quiet_emit_words [asm_rules]: "memory_returns (ae_mem env) \<Longrightarrow> quiet (asm_emit_words env ws)"
  by (induction ws) (auto intro: asm_rules)

lemma quiet_state [asm_rules]:
  "quiet (asm_set_symbol name v sz)" "quiet (asm_append_reloc r)" "quiet (asm_expression env t)"
  by (simp_all add: quiet_def asm_set_symbol_def asm_append_reloc_def asm_expression_def split: sum.splits eval_error.splits)

lemma reports_with_value [asm_rules]:
  "(\<And>v. reports st (k v)) \<Longrightarrow> reports st (asm_with_value env file line t e1 e2 k)"
  unfolding asm_with_value_def by (intro asm_rules) (auto intro: asm_rules split: expr_result.split)

lemma reports_directives [asm_rules]:
  assumes m: "memory_returns (ae_mem env)"
  shows "reports st (do_org env file line operands)" "reports st (do_fill env file line t filler)"
    "reports st (do_space env file line operands)" "reports st (do_set env file line operands)"
    "reports st (do_ascii_chars env file line s)" "reports st (do_ascii env file line z operands)"
    "reports st (do_byte env file line operands)" "reports st (do_word env file line operands)"
proof -
  show "reports st (do_org env file line operands)" unfolding do_org_def by (intro asm_rules) simp_all
  show f: "reports st (do_fill env file line t filler)" for t filler unfolding do_fill_def by (intro asm_rules m)
  show "reports st (do_space env file line operands)" unfolding do_space_def by (intro asm_rules f)
  show "reports st (do_set env file line operands)" unfolding do_set_def Let_def
    by (intro asm_rules) (auto intro!: asm_rules split: expr_result.split)
  show c: "reports st (do_ascii_chars env file line s)" for s
  proof (induction s rule: length_induct)
    case (1 s)
    then show ?case by (cases s) (simp_all add: reports_true [unfolded act_return_def] reports_fail reports_bind quiet_emit m split: list.split option.split)
  qed
  show "reports st (do_ascii env file line z operands)" using m
  proof (induction operands)
    case (Cons s os)
    have "reports st (act_bind (if z then asm_emit8 env 0 else act_return ()) (\<lambda>_. do_ascii env file line z os))"
      by (intro reports_bind quiet_if quiet_emit quiet_return m Cons)
    from reports_and_then [OF c this] show ?case by (auto intro: reports_fail)
  qed (simp add: reports_true)
  show "reports st (do_byte env file line operands)" using m
    by (induction operands) (auto intro!: asm_rules simp: Let_def split: prod.split)
  have append: "quiet (\<lambda>s. asm_append_reloc (r s) s)" for r by (simp add: quiet_def asm_append_reloc_def)
  show "reports st (do_word env file line operands)" using m
    by (induction operands) (auto intro!: asm_rules append simp: Let_def split: prod.split)
qed

lemma reports_instruction [asm_rules]:
  assumes "memory_returns (ae_mem env)"
  shows "reports st (do_instruction env file line op operands)"
  unfolding reports_def
proof (intro allI impI)
  fix s :: "'a SimpleAsm" assume st: "sa_include_stack s = st"
  obtain rl r where c: "code_from_tokens 8 \<lparr>ti_base = op, ti_fields = operands, ti_address = sa_address s, ti_filename = file, ti_line = line\<rparr>
      (Some (sa_reloc s)) True = (rl, r)" by fastforce
  let ?s = "s\<lparr>sa_reloc := the rl\<rparr>"
  have "outcome_ok (\<lambda>_ ms b. b = (ms = [])) s (act_bind (asm_emit_words env ws) (\<lambda>_. act_return True) ?s)" for ws
    using reports_bind [OF quiet_emit_words [OF assms] reports_true, of st ws, unfolded reports_def, rule_format, of ?s] st by simp
  then show "outcome_ok (\<lambda>_ ms b. b = (ms = [])) s (do_instruction env file line op operands s)"
    by (cases r) (auto simp: do_instruction_def c asm_fail_def Let_def)
qed

section \<open>Files\<close>

lemma reports_include_fail:
  "outcome_ok (\<lambda>_ ms b. b = (ms = [])) s (include_fail file line e s)"
  by (simp add: include_fail_def asm_fail_def Let_def)

lemma outcome_pop:
  assumes "outcome_ok (\<lambda>_. Q) (s\<lparr>sa_include_stack := st @ [file]\<rparr>) (f (s\<lparr>sa_include_stack := st @ [file]\<rparr>))"
    and "sa_include_stack s = st"
  shows "outcome_ok (\<lambda>_. Q) s (include_pop (\<lambda>s. f (s\<lparr>sa_include_stack := sa_include_stack s @ [file]\<rparr>)) s)"
proof -
  obtain s' r where f: "f (s\<lparr>sa_include_stack := st @ [file]\<rparr>) = (s', r)" by fastforce
  with assms show ?thesis by (cases r) (auto simp: include_pop_def)
qed

lemma reports_include:
  assumes "\<And>inc. inc \<notin> set (st @ [file]) \<Longrightarrow> reports (st @ [file]) (process inc)"
  shows "reports st (do_include env process file line operands)"
proof -
  let ?Q = "\<lambda>_ ms b. b = (ms = [])"
  define inc where "inc = ae_include_path env file (if hd (operands ! 0) = CHR ''\"'' then mid (operands ! 0) 1 (length (operands ! 0) - 2) else operands ! 0)"
  define body where "body = (\<lambda>s. if inc \<in> set (sa_include_stack s) then include_fail file line (RecursiveInclude inc) s
    else act_bind (process inc) (\<lambda>ok. if ok then act_return True else include_fail file line (IncludedFile inc)) s)"
  have "outcome_ok ?Q s (body s)" if st: "sa_include_stack s = st @ [file]" for s
  proof (cases "inc \<in> set (st @ [file])")
    case False
    from assms [OF this] st have "outcome_ok ?Q s (process inc s)" by (simp add: reports_def)
    then have "outcome_ok ?Q s (act_bind (process inc) (\<lambda>ok. if ok then act_return True else include_fail file line (IncludedFile inc)) s)"
      by (rule outcome_bind) (auto simp: include_fail_def asm_fail_def Let_def)
    with False st show ?thesis by (simp add: body_def)
  qed (simp add: body_def st reports_include_fail)
  then have "outcome_ok ?Q s (include_pop (\<lambda>s. body (s\<lparr>sa_include_stack := sa_include_stack s @ [file]\<rparr>)) s)"
    if "sa_include_stack s = st" for s
    using that by (intro outcome_pop) simp_all
  then show ?thesis
    unfolding do_include_def Let_def reports_def body_def inc_def
    by (auto simp: asm_fail_def)
qed

lemma reports_operation:
  assumes "memory_returns (ae_mem env)" "\<And>inc. inc \<notin> set (st @ [file]) \<Longrightarrow> reports (st @ [file]) (process inc)"
  shows "reports st (process_operation env process file line op operands)"
  unfolding process_operation_def process_pragma_def
  by (intro asm_rules reports_include assms)

lemma reports_line:
  assumes "memory_returns (ae_mem env)" "\<And>inc. inc \<notin> set (st @ [file]) \<Longrightarrow> reports (st @ [file]) (process inc)"
  shows "reports st (process_line env process l file ln)"
proof (cases "scan_line l 0 line_start")
  case (Inl x)
  then show ?thesis by (cases x) (simp add: process_line_def reports_fail)
next
  case (Inr ls)
  have "quiet (if ls_label ls \<noteq> [] then \<lambda>s. asm_set_symbol (ls_label ls) (sa_address s) 4 s else act_return ())"
    by (simp add: quiet_def asm_set_symbol_def)
  then have "reports st (act_bind (if ls_label ls \<noteq> [] then \<lambda>s. asm_set_symbol (ls_label ls) (sa_address s) 4 s else act_return ())
      (\<lambda>_. process_operation env process file ln (ls_op ls) (ls_operands ls)))"
    by (rule reports_bind) (rule reports_operation [OF assms])
  then show ?thesis unfolding process_line_def Inr by simp
qed

text \<open>The result of a sequence of lines is true when it was and no line reports.\<close>

lemma outcome_lines:
  assumes "\<And>l ln. reports st (f l ln)"
  shows "sa_include_stack (s :: 'a SimpleAsm) = st \<Longrightarrow> outcome_ok (\<lambda>_ ms b. b = (res \<and> ms = [])) s (process_lines f ls ln res s)"
proof (induction ls arbitrary: ln res s)
  case (Cons l ls)
  from assms [of l ln] Cons.prems have "outcome_ok (\<lambda>_ ms b. b = (ms = [])) s (f l ln s)" by (simp add: reports_def)
  then show ?case unfolding process_lines.simps
  proof (rule outcome_bind)
    fix s' :: "'a SimpleAsm" and ok and ms :: "asm_message list" assume "sa_include_stack s' = sa_include_stack s" "ok = (ms = [])"
    with Cons.IH [of s' "res \<and> ok" "ln + 1"] Cons.prems
    show "outcome_ok (\<lambda>s'' ns b. b = (res \<and> ms @ ns = [])) s' (process_lines f ls (ln + 1) (res \<and> ok) s')"
      by (simp add: conj_assoc)
  qed
qed simp

text \<open>
  The names on the stack of includes are different readable files, so the bound on the nesting is not
  reached when it exceeds their number.
\<close>

lemma reports_file:
  assumes m: "memory_returns (ae_mem env)" and F: "finite F" "\<And>f. ae_read_file env f \<noteq> None \<Longrightarrow> f \<in> F"
  shows "distinct st \<Longrightarrow> set st \<subseteq> F \<Longrightarrow> fl \<notin> set st \<Longrightarrow> card F < n + length st \<Longrightarrow> reports st (process_file n env fl)"
proof (induction n arbitrary: st fl)
  case 0
  then have "length st \<le> card F" using F(1) by (metis card_mono distinct_card)
  with 0 show ?case by simp
next
  case (Suc n)
  show ?case
  proof (cases "ae_read_file env fl")
    case None
    then show ?thesis by (simp add: reports_fail)
  next
    case (Some lines)
    then have "fl \<in> F" using F(2) by blast
    with Suc have "reports (st @ [fl]) (process_file n env inc)" if "inc \<notin> set (st @ [fl])" for inc
      using that by (intro Suc.IH) auto
    then have "reports st (process_line env (process_file n env) l fl ln)" for l ln by (intro reports_line m)
    from outcome_lines [OF this, where res = True] show ?thesis using Some by (simp add: reports_def)
  qed
qed

section \<open>Relocations\<close>

lemma outcome_reloc_fail: "outcome_ok (\<lambda>_ _ _. True) s (reloc_fail r reported e s)"
  by (simp add: reloc_fail_def asm_fail_def Let_def)

lemma outcome_any:
  "quiet f \<Longrightarrow> outcome_ok (\<lambda>_ _ _. True) s (f s)"
  "outcome_ok (\<lambda>_ _ _. True) s (f s) \<Longrightarrow> (\<And>x s. outcome_ok (\<lambda>_ _ _. True) s (g x s)) \<Longrightarrow> outcome_ok (\<lambda>_ _ _. True) s (act_bind f g s)"
proof -
  show "quiet f \<Longrightarrow> outcome_ok (\<lambda>_ _ _. True) s (f s)" unfolding quiet_def
    by (cases "f s"; cases "snd (f s)") (auto dest!: spec [of _ s])
  show "outcome_ok (\<lambda>_ _ _. True) s (f s) \<Longrightarrow> (\<And>x s. outcome_ok (\<lambda>_ _ _. True) s (g x s)) \<Longrightarrow> outcome_ok (\<lambda>_ _ _. True) s (act_bind f g s)"
    by (rule outcome_bind)
qed

lemma outcome_do_reloc:
  assumes "memory_returns (ae_mem env)"
  shows "outcome_ok (\<lambda>_ _ _. True) s (do_reloc env r reported s)"
proof -
  note mem = outcome_any(1) [OF quiet_memory [OF accesses_return(1) [OF assms]]]
    outcome_any(1) [OF quiet_memory [OF accesses_return(2) [OF assms]]]
  show ?thesis
    unfolding do_reloc_def accessor_defs
    by (auto simp: outcome_reloc_fail mem Let_def split: sum.split eval_error.split prod.split intro!: outcome_any(2))
qed

lemma outcome_relocs:
  assumes "memory_returns (ae_mem env)"
  shows "outcome_ok (\<lambda>_ _ _. True) s (do_relocs env rs reported s)"
  using outcome_do_reloc [OF assms]
  by (induction rs arbitrary: s reported) (auto intro: outcome_any(2))

lemma outcome_finish:
  assumes "memory_returns (ae_mem env)"
  shows "outcome_ok (\<lambda>_ ms b. b = (\<not> sa_error_occured s \<and> ms = [])) s (asm_finish env s)"
  unfolding asm_finish_def
  by (rule outcome_bind [OF outcome_relocs [OF assms]]) auto

section \<open>Properties\<close>

text \<open>
  Claim C23: when finitely many files can be opened and the memory returns, the assembler returns from
  every file with its includes: a bound on the nesting that exceeds their number is never
  reached, and the stack of includes is as before.
\<close>

theorem includes_terminate:
  assumes "finite F" "\<forall>f. ae_read_file env f \<noteq> None \<longrightarrow> f \<in> F" "memory_returns (ae_mem env)"
    and "sa_include_stack s = []" "card F < n"
  shows "snd (process_file n env fl s) \<noteq> Inl NonTermination \<and>
    (\<forall>s' b. process_file n env fl s = (s', Inr b) \<longrightarrow> sa_include_stack s' = [])"
proof -
  have "reports [] (process_file n env fl)" by (rule reports_file [OF assms(3,1)]) (use assms in auto)
  with assms(4) have "outcome_ok (\<lambda>_ ms b. b = (ms = [])) s (process_file n env fl s)" by (simp add: reports_def)
  then show ?thesis using assms(4) by (cases "process_file n env fl s"; cases "snd (process_file n env fl s)") auto
qed

text \<open>What a line is split into, to be computed on concrete lines.\<close>

definition line_parts :: "string \<Rightarrow> (string \<times> string \<times> string list) option" where
  "line_parts line = (case scan_line line 0 line_start of Inl e \<Rightarrow> None | Inr l \<Rightarrow> Some (ls_label l, ls_op l, ls_operands l))"

lemma process_line_parts:
  "line_parts line = Some ([], op, operands) \<Longrightarrow> process_line env process line file ln s = process_operation env process file ln op operands s"
  by (auto simp: line_parts_def process_line_def split: sum.splits)

text \<open>Two files that include each other, on the wrapper of one device.\<close>

definition mutual_env :: "unit trivial_bus asm_env" where
  "mutual_env = \<lparr>ae_to_long_long = (\<lambda>_. None), ae_include_path = (\<lambda>_ n. n),
     ae_read_file = map_of [(''a'', [''#include b'']), (''b'', [''#include a''])], ae_host = LITTLE,
     ae_mem = trivial_ops absent_device_ops LITTLE\<rparr>"

definition asm_initial :: "'m \<Rightarrow> 'm SimpleAsm" where
  "asm_initial m = asm_setup m symbol_table_new 0x200 XLEN_32
     \<lparr>sa_error_occured = False, sa_fatal_occured = False, sa_symtab = symbol_table_new,
      sa_address = 0, sa_include_stack = [], sa_mem = m, sa_reloc = [], sa_messages = [], sa_error = None\<rparr>"

lemma asm_initial_simps [simp]:
  "sa_include_stack (asm_initial m) = []" "sa_error_occured (asm_initial m) = False" "sa_fatal_occured (asm_initial m) = False"
  "sa_mem (asm_initial m) = m" "sa_reloc (asm_initial m) = []" "sa_address (asm_initial m) = 0x200" "sa_messages (asm_initial m) = []"
  by (simp_all add: asm_initial_def asm_setup_def)

lemma mutual_memory_returns: "memory_returns (ae_mem mutual_env)"
  by (simp add: memory_returns_def mutual_env_def trivial_ops_def trivial_write_def trivial_read_def absent_device_ops_def Let_def)

lemma mutual_files: "\<forall>f. ae_read_file mutual_env f \<noteq> None \<longrightarrow> f \<in> {''a'', ''b''}"
  by (simp add: mutual_env_def)

theorem includes_terminate_witness:
  "snd (process_file 3 mutual_env ''a'' (asm_initial \<lparr>tb_device = (), tb_change_counter = 0\<rparr>)) \<noteq> Inl NonTermination"
  using includes_terminate [OF _ mutual_files mutual_memory_returns, of "asm_initial \<lparr>tb_device = (), tb_change_counter = 0\<rparr>" 3 "''a''"]
  by simp

text \<open>
  Claim C24: the results of the assembler are its messages.  Processing a file returns true exactly when it has
  reported no message, and finishing the relocations returns true exactly when no message was reported
  since the assembler was cleared.
\<close>

theorem success_iff_no_message:
  assumes "finite F" "\<forall>f. ae_read_file env f \<noteq> None \<longrightarrow> f \<in> F" "memory_returns (ae_mem env)"
    and "sa_include_stack s = []" "\<not> sa_error_occured s" "sa_messages s = []" "card F < n"
    and "process_file n env fl s = (s1, Inr ok)" "asm_finish env s1 = (s2, Inr b)"
  shows "(ok \<longleftrightarrow> sa_messages s1 = []) \<and> (b \<longleftrightarrow> sa_messages s2 = []) \<and> (b \<longrightarrow> ok)"
proof -
  have "reports [] (process_file n env fl)" by (rule reports_file [OF assms(3,1)]) (use assms in auto)
  with assms(4) have "outcome_ok (\<lambda>_ ms b. b = (ms = [])) s (process_file n env fl s)" by (simp add: reports_def)
  moreover have "outcome_ok (\<lambda>_ ms b. b = (\<not> sa_error_occured s1 \<and> ms = [])) s1 (asm_finish env s1)"
    by (rule outcome_finish [OF assms(3)])
  ultimately show ?thesis using assms by auto
qed

theorem success_iff_no_message_witness:
  "\<exists>s1 s2 ok b. process_file 3 mutual_env ''a'' (asm_initial \<lparr>tb_device = (), tb_change_counter = 0\<rparr>) = (s1, Inr ok) \<and>
     asm_finish mutual_env s1 = (s2, Inr b) \<and> (ok \<longleftrightarrow> sa_messages s1 = []) \<and> (b \<longleftrightarrow> sa_messages s2 = []) \<and> (b \<longrightarrow> ok) \<and> \<not> b"
proof -
  let ?s = "asm_initial \<lparr>tb_device = (), tb_change_counter = 0\<rparr>"
  have scan: "line_parts ''#include b'' = Some ([], ''#include'', [''b''])" "line_parts ''#include a'' = Some ([], ''#include'', [''a''])"
    by code_simp+
  obtain s1 where r: "process_file 3 mutual_env ''a'' ?s = (s1, Inr False)" "sa_messages s1 \<noteq> []" "sa_reloc s1 = []" "sa_error_occured s1"
    using scan by (auto simp: numeral_3_eq_3 mutual_env_def process_line_parts process_operation_def do_include_def include_pop_def
        include_fail_def asm_fail_def Let_def)
  then have f: "asm_finish mutual_env s1 = (s1\<lparr>sa_reloc := []\<rparr>, Inr False)" by (simp add: asm_finish_def)
  from success_iff_no_message [OF _ mutual_files mutual_memory_returns _ _ _ _ r(1) f] r f show ?thesis by auto
qed

text \<open>
  A file that includes itself by a path with a dot is not recognised, since the paths are compared as
  they are written: each level has a new name, and no bound on the nesting is enough.
\<close>

theorem dotted_include_unbounded:
  assumes "\<forall>k. ae_read_file env (nm k) = Some [''#include \"./p.S\"'']" "\<forall>k. ae_include_path env (nm k) ''./p.S'' = nm (Suc k)"
    and "inj nm" "sa_include_stack s = map nm [0..<k]"
  shows "snd (process_file n env (nm k) s) = Inl NonTermination"
  using assms(4)
proof (induction n arbitrary: k s)
  case (Suc n)
  let ?s = "s\<lparr>sa_include_stack := sa_include_stack s @ [nm k]\<rparr>"
  have l: "line_parts ''#include \"./p.S\"'' = Some ([], ''#include'', [''\"./p.S\"''])" by code_simp
  have "nm (Suc k) \<notin> set (sa_include_stack ?s)" using Suc.prems assms(3) by (auto dest: injD)
  moreover have "snd (process_file n env (nm (Suc k)) ?s) = Inl NonTermination" by (rule Suc.IH) (simp add: Suc.prems)
  then obtain s' where "process_file n env (nm (Suc k)) ?s = (s', Inl NonTermination)" by (cases "process_file n env (nm (Suc k)) ?s") auto
  ultimately show ?case
    using assms(1,2) by (simp add: process_line_parts [OF l] process_operation_def do_include_def include_pop_def mid_def Let_def)
qed simp

definition dotted_env :: "unit trivial_bus asm_env" where
  "dotted_env = mutual_env\<lparr>ae_include_path := (\<lambda>file n. take (length file - 3) file @ n),
     ae_read_file := (\<lambda>_. Some [''#include \"./p.S\"''])\<rparr>"

theorem dotted_include_unbounded_witness:
  "snd (process_file 100 dotted_env ''p.S'' (asm_initial \<lparr>tb_device = (), tb_change_counter = 0\<rparr>)) = Inl NonTermination"
proof -
  define nm where "nm = (\<lambda>k. concat (replicate k ''./'') @ ''p.S'')"
  have len: "length (nm k) = 2 * k + 3" for k by (induction k) (simp_all add: nm_def)
  have "inj nm" by (rule injI) (metis len add_right_cancel mult_left_cancel zero_neq_numeral)
  moreover have "concat (replicate k ''./'') @ ''./'' = ''./'' @ concat (replicate k ''./'')" for k by (induction k) simp_all
  then have "\<forall>k. ae_include_path dotted_env (nm k) ''./p.S'' = nm (Suc k)" by (simp add: dotted_env_def nm_def)
  moreover have "\<forall>k. ae_read_file dotted_env (nm k) = Some [''#include \"./p.S\"'']" by (simp add: dotted_env_def)
  ultimately show ?thesis
    using dotted_include_unbounded [of dotted_env nm "asm_initial \<lparr>tb_device = (), tb_change_counter = 0\<rparr>" 0 100] by (simp add: nm_def)
qed

text \<open>
  The expression of a word is accepted exactly when its value is from 1 to 0xffffffff, and the word is
  then the value.  The limit \<^verbatim>\<open>-0xffffffff\<close> is meant to admit zero and negative values and is the
  unsigned number 1: they are rejected and the word is cleared.
\<close>

theorem word_relocation_range:
  "reloc_update w val (word_reloc location expr file line) =
    (if 1 \<le> uint val \<and> uint val \<le> 0xffffffff then (ucast val, True) else (0, False))"
proof -
  have enc: "sbf_encode wordArg x = x" for x
    by (rule bit_word_eqI) (simp add: wordArg_def sbf_encode_def bit_bf_encode bit_simps)
  have "uint val = 0 \<longleftrightarrow> val = 0" by (metis unsigned_0 unsigned_word_eqI)
  then have u: "val = 0 \<longleftrightarrow> \<not> 1 \<le> uint val" "0xffffffff < val \<longleftrightarrow> \<not> uint val \<le> 0xffffffff"
    using uint_nonnegative [of val] by (linarith, simp add: word_less_def not_le)
  have sh: "sbf_shift wordArg = 0" by (simp add: wordArg_def)
  show ?thesis by (auto simp: u reloc_update_def word_reloc_def word_min_def inst_update_def enc sh RelocExpression.truncate_def Let_def)
qed

end
