(* ===== verification/Asm_Listing.thy ===== *)
theory Asm_Listing
  imports Asm_Lines Asm_Errors
begin

text \<open>
  The assembler on a memory: the contract its internal accesses rely on, its instance on the bus of the
  machine, and the assembly of a whole listing.
\<close>

section \<open>Internal accesses\<close>

text \<open>The assembler accesses the memory as the simulator itself does (\<^verbatim>\<open>ae::INTERNAL\<close>).\<close>

definition internal_ops :: "'m frontend_ops \<Rightarrow> 'm frontend_ops" where
  "internal_ops ops = ops\<lparr>fm_write := \<lambda>a bs e. fm_write ops a bs AE_INTERNAL, fm_read := \<lambda>a n e. fm_read ops a n AE_INTERNAL\<rparr>"

lemma internal_accesses:
  "write_generic host ops a v AE_INTERNAL = write_generic host (internal_ops ops) a v AE_REGULAR"
  "fm_endian (internal_ops ops) = fm_endian ops"
  by (simp_all add: write_generic_def internal_ops_def)

fun listing :: "bool \<Rightarrow> address \<Rightarrow> (InstructionMap \<times> (char \<Rightarrow> u64)) list \<Rightarrow> string list" where
  "listing symbolic a [] = []"
| "listing symbolic a ((im, v) # qs) = to_str symbolic (assemble im v) a # listing symbolic (a + 4) qs"

fun listing_printable :: "bool \<Rightarrow> address \<Rightarrow> (InstructionMap \<times> (char \<Rightarrow> u64)) list \<Rightarrow> bool" where
  "listing_printable symbolic a [] = True"
| "listing_printable symbolic a ((im, v) # qs) =
     (im \<in> set instruction_set \<and> args_printable symbolic im v a \<and> listing_printable symbolic (a + 4) qs)"

lemma align_count_step: "align_count a = 0 \<Longrightarrow> align_count (a + 4) = 0"
proof -
  have three: "(3 :: u64) = mask 2" by (simp add: mask_eq_exp_minus_1)
  have "take_bit 2 (- (k + 4)) = take_bit 2 (- k)" for k :: int using take_bit_diff [of 2 "- k" 4] by simp
  then have "take_bit 2 (- (a + 4)) = take_bit 2 (- a)" by (transfer, simp add: take_bit_take_bit min_def)
  then have "(- (a + 4)) AND mask 2 = (- a) AND mask 2" by (simp only: take_bit_eq_mask)
  then show "align_count a = 0 \<Longrightarrow> align_count (a + 4) = 0" by (simp add: align_count_def three)
qed

locale assembler_memory = frontend_contract "internal_ops ops" inv view admits
  for ops :: "'m frontend_ops" and inv view admits
begin

lemma emit_word:
  assumes "ae_mem env = ops" "\<not> sa_fatal_occured s" "inv (sa_mem s)" "admits (sa_address s) 4"
  shows "\<exists>m. asm_emit32 env w s = (s\<lparr>sa_mem := m, sa_address := sa_address s + 4\<rparr>, Inr ()) \<and> inv m \<and>
    view m = store_bytes (view (sa_mem s)) (sa_address s) (value_bytes (fm_endian ops) w)"
proof -
  obtain m b where "write_generic (ae_host env) ops (plain_address (sa_address s)) w AE_INTERNAL (sa_mem s) = (m, Inr b)" "inv m"
    "view m = store_bytes (view (sa_mem s)) (sa_address s) (value_bytes (fm_endian ops) w)"
    using write_generic_contract [OF assms(3), where a = "plain_address (sa_address s)" and v = w and host = "ae_host env"] assms(4)
    by (auto simp: internal_accesses)
  then show ?thesis
    using assms(1,2) by (intro exI [of _ m]) (simp add: asm_emit32_def ignore_result_def asm_on_memory_def accessor_defs)
qed

lemma listing_lines:
  assumes ops: "ae_mem env = ops"
  shows "listing_printable symbolic (sa_address s) qs \<Longrightarrow> \<not> sa_fatal_occured s \<Longrightarrow> inv (sa_mem s) \<Longrightarrow>
    align_count (sa_address s) = 0 \<Longrightarrow> (\<And>i. i < length qs \<Longrightarrow> admits (sa_address s + 4 * of_nat i) 4) \<Longrightarrow>
    \<exists>m. process_lines (\<lambda>l ln. process_line env process l fl ln) (listing symbolic (sa_address s) qs) ln res s =
      (s\<lparr>sa_mem := m, sa_address := sa_address s + 4 * of_nat (length qs)\<rparr>, Inr res) \<and> inv m \<and>
      view m = store_bytes (view (sa_mem s)) (sa_address s) (concat (map (\<lambda>(im, v). value_bytes (fm_endian ops) (assemble im v)) qs))"
proof (induction qs arbitrary: s ln)
  case (Cons p qs)
  obtain im v where p: "p = (im, v)" by fastforce
  obtain m where m: "asm_emit32 env (assemble im v) s = (s\<lparr>sa_mem := m, sa_address := sa_address s + 4\<rparr>, Inr ())" "inv m"
    "view m = store_bytes (view (sa_mem s)) (sa_address s) (value_bytes (fm_endian ops) (assemble im v))"
    using emit_word [OF ops Cons.prems(2,3)] Cons.prems(5) [of 0] by auto
  let ?s = "s\<lparr>sa_mem := m, sa_address := sa_address s + 4\<rparr>"
  have line: "process_line env process (to_str symbolic (assemble im v) (sa_address s)) fl ln s = (?s, Inr True)"
    using process_instruction_line [of im symbolic v s] Cons.prems(1,4) m(1) by (simp add: p)
  have "\<exists>m'. process_lines (\<lambda>l ln. process_line env process l fl ln) (listing symbolic (sa_address ?s) qs) (ln + 1) res ?s =
      (?s\<lparr>sa_mem := m', sa_address := sa_address ?s + 4 * of_nat (length qs)\<rparr>, Inr res) \<and> inv m' \<and>
      view m' = store_bytes (view (sa_mem ?s)) (sa_address ?s) (concat (map (\<lambda>(im, v). value_bytes (fm_endian ops) (assemble im v)) qs))"
  proof (rule Cons.IH)
    show "admits (sa_address ?s + 4 * of_nat i) 4" if "i < length qs" for i
      using Cons.prems(5) [of "Suc i"] that by (simp add: algebra_simps)
  qed (use Cons.prems m align_count_step in \<open>simp_all add: p\<close>)
  then show ?case
    using line m(3) by (auto simp: p store_bytes_append algebra_simps)
next
  case Nil
  then show ?case by (intro exI [of _ "sa_mem s"]) simp
qed

end

section \<open>The bus of the machine\<close>

text \<open>The memory does not distinguish internal accesses from others.\<close>

definition internal_bops :: "'d backend_ops \<Rightarrow> 'd backend_ops" where
  "internal_bops bops = bops\<lparr>bm_write := \<lambda>d off bs e. bm_write bops d off bs AE_INTERNAL,
     bm_read := \<lambda>d off n e. bm_read bops d off n AE_INTERNAL\<rparr>"

lemma memory_internal:
  assumes "memory_device_inv d"
  shows "bm_read (device_ops other) d x n AE_INTERNAL = bm_read (device_ops other) d x n AE_REGULAR"
    "bm_write (device_ops other) d x bs AE_INTERNAL = bm_write (device_ops other) d x bs AE_REGULAR"
  using assms by (cases d; simp add: device_ops_def memory_read_def memory_write_def)+

interpretation internal_memory: backend_contract "internal_bops (device_ops other)" memory_device_inv memory_device_view memory_admits
  for other :: "'x backend_ops"
  by unfold_locales
    (use memory_device.dread memory_device.dwrite memory_device.dadmits_bound in \<open>simp_all add: internal_bops_def memory_internal\<close>)

interpretation internal_ram: device_on_bus "internal_bops (device_ops other)" memory_device_inv memory_device_view memory_admits ram_range endian
  for other :: "'x backend_ops" and endian
  by unfold_locales (simp_all add: ram_range_def)

lemma internal_bus:
  "fm_write (internal_ops (bus_ops bops endian)) a bs AE_REGULAR = bus_write (internal_bops bops) a bs AE_REGULAR"
  "fm_read (internal_ops (bus_ops bops endian)) a n AE_REGULAR = bus_read (internal_bops bops) a n AE_REGULAR"
proof -
  have "bus_write_single bops AE_INTERNAL = bus_write_single (internal_bops bops) AE_REGULAR"
    "bus_read_single bops AE_INTERNAL = bus_read_single (internal_bops bops) AE_REGULAR"
    by (simp_all add: fun_eq_iff bus_write_single_def bus_read_single_def internal_bops_def split: option.split)
  then show "fm_write (internal_ops (bus_ops bops endian)) a bs AE_REGULAR = bus_write (internal_bops bops) a bs AE_REGULAR"
    "fm_read (internal_ops (bus_ops bops endian)) a n AE_REGULAR = bus_read (internal_bops bops) a n AE_REGULAR"
    by (simp_all add: internal_ops_def bus_ops_def bus_write_def bus_read_def)
qed

interpretation asm_ram: assembler_memory "bus_ops (device_ops other) endian" ram.on_bus_inv ram.on_bus_view ram.on_bus_admits
  for other :: "'x backend_ops" and endian
  by unfold_locales
    (use internal_ram.on_bus_read internal_ram.on_bus_write internal_ram.bus.admits_bound in \<open>simp_all add: internal_bus\<close>)

text \<open>An aligned word inside the range of the memory is inside one section.\<close>

lemma aligned_admitted:
  assumes "4 dvd unat a" "unat a + 4 \<le> 0xf0000000"
  shows "ram.on_bus_admits a 4"
proof -
  obtain k where k: "unat a = 4 * k" using assms(1) by blast
  have "4 * k mod 256 = 4 * (k mod 64)" using mult_mod_right [of 4 k 64] by simp
  moreover have "k mod 64 < 64" by simp
  ultimately have "unat a mod 256 + 4 \<le> 256" unfolding k by linarith
  then show ?thesis
    unfolding ram.on_bus_admits_def using assms(2)
    by (simp add: ram_range_def range_contains_def memory_admits_def memory_constants word_le_nat_alt)
qed

lemma aligned_count:
  assumes "4 dvd unat a"
  shows "align_count a = 0"
proof -
  have "align_count (4 * of_nat k) = 0" for k
  proof (induction k)
    case (Suc k)
    from align_count_step [OF this] show ?case by (simp add: algebra_simps)
  qed (simp add: align_count_def)
  moreover obtain k where "unat a = 4 * k" using assms by blast
  then have "word_of_nat (unat a) = (4 * of_nat k :: u64)" by simp
  then have "a = 4 * of_nat k" by simp
  ultimately show ?thesis by simp
qed

section \<open>Properties\<close>

text \<open>
  Claim C20: assembling a listing gives back the program.  The disassembled text of a sequence of supported
  instructions at consecutive addresses, from an aligned address on and below 0xf0000000, each of which is printed within the
  limits of the round trip of one instruction (\<open>args_printable\<close>: the offset of every jump and branch in the range that the descriptor
  of its argument gives, its target an address of 32 bits, and the register \<^verbatim>\<open>stimecmp\<close> not by its name),
  processed as a file and finished, succeeds without a message,
  stores exactly the words of the sequence, in the byte order of the machine, from the start
  address, changes no other byte of the memory, and leaves the address behind the last word.
\<close>

theorem listing_assembled:
  fixes other :: "'x backend_ops"
  assumes "ae_mem env = bus_ops (device_ops other) endian" "ram.on_bus_inv (sa_mem s)"
    and "ae_read_file env fl = Some (listing symbolic (sa_address s) qs)" "listing_printable symbolic (sa_address s) qs"
    and "4 dvd unat (sa_address s)" "unat (sa_address s) + 4 * length qs \<le> 0xf0000000"
    and "\<not> sa_fatal_occured s" "\<not> sa_error_occured s" "sa_reloc s = []"
  shows "\<exists>m. act_bind (process_file (Suc n) env fl) (\<lambda>ok. act_bind (asm_finish env) (\<lambda>b. act_return (ok, b))) s =
      (s\<lparr>sa_mem := m, sa_address := sa_address s + 4 * of_nat (length qs)\<rparr>, Inr (True, True)) \<and> ram.on_bus_inv m \<and>
    ram.on_bus_view m = store_bytes (ram.on_bus_view (sa_mem s)) (sa_address s)
      (concat (map (\<lambda>(im, v). value_bytes endian (assemble im v)) qs))"
proof -
  have adm: "ram.on_bus_admits (sa_address s + 4 * of_nat i) 4" if "i < length qs" for i
  proof -
    have "unat (sa_address s + 4 * of_nat i) = unat (sa_address s + of_nat (4 * i))" by simp
    also have "\<dots> = unat (sa_address s) + 4 * i"
      using assms(6) that by (simp add: unat_word_ariths unsigned_of_nat take_bit_nat_eq_self del: of_nat_mult)
    finally show ?thesis using assms(5,6) that by (intro aligned_admitted) auto
  qed
  obtain m where m: "process_lines (\<lambda>l ln. process_line env (process_file n env) l fl ln) (listing symbolic (sa_address s) qs) 1 True s =
      (s\<lparr>sa_mem := m, sa_address := sa_address s + 4 * of_nat (length qs)\<rparr>, Inr True)" "ram.on_bus_inv m"
    "ram.on_bus_view m = store_bytes (ram.on_bus_view (sa_mem s)) (sa_address s)
      (concat (map (\<lambda>(im, v). value_bytes endian (assemble im v)) qs))"
    using asm_ram.listing_lines [OF assms(1,4,7,2) aligned_count [OF assms(5)] adm, of "process_file n env" fl 1 True]
    by (auto simp: bus_ops_def)
  have "asm_finish env (s\<lparr>sa_mem := m, sa_address := sa_address s + 4 * of_nat (length qs)\<rparr>) =
      (s\<lparr>sa_mem := m, sa_address := sa_address s + 4 * of_nat (length qs)\<rparr>, Inr True)"
    using assms(8,9) by (simp add: asm_finish_def)
  with m assms(3) show ?thesis by (intro exI [of _ m]) simp
qed

text \<open>A program of two instructions, on the empty memory.\<close>

definition sample_program :: "(InstructionMap \<times> (char \<Rightarrow> u64)) list" where
  "sample_program = [(im_addi, \<lambda>c. if c = CHR ''j'' then - 5 else 7), (im_slli, \<lambda>c. 3)]"

definition sample_env :: "unit device data_bus asm_env" where
  "sample_env = \<lparr>ae_to_long_long = (\<lambda>_. None), ae_include_path = (\<lambda>_ n. n),
     ae_read_file = (\<lambda>_. Some (listing False 0x200 sample_program)), ae_host = LITTLE,
     ae_mem = bus_ops (device_ops absent_device_ops) LITTLE\<rparr>"

theorem listing_assembled_witness:
  "\<exists>m. act_bind (process_file (Suc 0) sample_env ''a.S'') (\<lambda>ok. act_bind (asm_finish sample_env) (\<lambda>b. act_return (ok, b))) (asm_initial ram_bus) =
      ((asm_initial ram_bus)\<lparr>sa_mem := m, sa_address := 0x208\<rparr>, Inr (True, True)) \<and>
    load_bytes (ram.on_bus_view m) 0x200 8 =
      value_bytes LITTLE (assemble im_addi (\<lambda>c. if c = CHR ''j'' then - 5 else 7)) @ value_bytes LITTLE (assemble im_slli (\<lambda>c. 3))"
proof -
  let ?s = "asm_initial (ram_bus :: unit device data_bus)"
  let ?b = "concat (map (\<lambda>(im, v). value_bytes LITTLE (assemble im v)) sample_program)"
  have p: "listing_printable False (sa_address ?s) sample_program"
    using im_addi_supported im_shifts_supported
    by (simp add: sample_program_def args_printable_def im_addi_def im_slli_def OP_IMM_map_def field_printable_def
        arg_desc_by_code_def arg_desc_list_def ad_def)
  have e: "ae_mem sample_env = bus_ops (device_ops absent_device_ops) LITTLE"
    "ae_read_file sample_env ''a.S'' = Some (listing False (sa_address ?s) sample_program)" by (simp_all add: sample_env_def)
  have inv: "ram.on_bus_inv (sa_mem ?s)" by (simp add: ram_bus_inv)
  have b: "?b = value_bytes LITTLE (assemble im_addi (\<lambda>c. if c = CHR ''j'' then - 5 else 7)) @ value_bytes LITTLE (assemble im_slli (\<lambda>c. 3))"
    "length sample_program = 2" by (simp_all add: sample_program_def)
  have "\<exists>m. act_bind (process_file (Suc 0) sample_env ''a.S'') (\<lambda>ok. act_bind (asm_finish sample_env) (\<lambda>b. act_return (ok, b))) ?s =
      (?s\<lparr>sa_mem := m, sa_address := 0x208\<rparr>, Inr (True, True)) \<and> ram.on_bus_inv m \<and>
      ram.on_bus_view m = store_bytes (ram.on_bus_view (sa_mem ?s)) 0x200 ?b"
    using listing_assembled [OF e(1) inv e(2) p, of 0] b(2) by (simp del: process_file.simps)
  moreover have "length ?b = 8" unfolding b(1) by simp
  then have "load_bytes (store_bytes v 0x200 ?b) 0x200 8 = ?b" for v :: "u64 \<Rightarrow> byte"
    using load_store_same [of ?b v "0x200"] by simp
  ultimately show ?thesis unfolding b(1) [symmetric] by (metis (no_types, lifting))
qed

end
