(* ===== verification/Os_Path.thy ===== *)
theory Os_Path
  imports Text_Utils
begin

text \<open>
  Paths of the emulated operating system (\<^verbatim>\<open>OsSyscallExceptionHandler::filepath_to_host\<close> of
  \<^verbatim>\<open>src/src/os_emulation/ossyscall.cpp\<close>): parent components are removed before the directory that
  stands for the root of the file system is put in front.  The loop over positions is proved equal to
  a pass over the components, so no path leads out of the root.
\<close>

section \<open>The loop\<close>

text \<open>\<^verbatim>\<open>QString::indexOf\<close> and \<^verbatim>\<open>QString::lastIndexOf\<close> of a slash, from a position.\<close>

definition index_from :: "string \<Rightarrow> nat \<Rightarrow> nat option" where
  "index_from s pos = (let n = pos + length (takeWhile (\<lambda>c. c \<noteq> CHR ''/'') (drop pos s)) in
     if n < length s then Some n else None)"

definition last_index_from :: "string \<Rightarrow> nat \<Rightarrow> nat option" where
  "last_index_from s pos = (let p = take (pos + 1) s; n = length (takeWhile (\<lambda>c. c \<noteq> CHR ''/'') (rev p)) in
     if n < length p then Some (length p - n - 1) else None)"

definition remove_at :: "string \<Rightarrow> nat \<Rightarrow> nat \<Rightarrow> string" where
  "remove_at s pos n = take pos s @ drop (pos + n) s"

lemma index_from_bound: "index_from s pos = Some i \<Longrightarrow> pos \<le> i \<and> i < length s"
  by (auto simp: index_from_def Let_def split: if_splits)

definition at_parent :: "string \<Rightarrow> nat \<Rightarrow> bool" where
  "at_parent path pos = ((length path - pos = 2 \<and> drop pos path = ''..'') \<or> (2 < length path - pos \<and> mid path pos 3 = ''../''))"

definition parent_start :: "string \<Rightarrow> nat \<Rightarrow> nat" where
  "parent_start path pos = (if pos \<le> 1 then 0 else (case last_index_from path (pos - 2) of None \<Rightarrow> 0 | Some i \<Rightarrow> i + 1))"

lemma last_index_bound: "last_index_from s i = Some j \<Longrightarrow> j \<le> i"
  by (auto simp: last_index_from_def Let_def split: if_splits)

lemma parent_start_le: "parent_start path pos \<le> pos"
  using last_index_bound [of path "pos - 2"] by (fastforce simp: parent_start_def split: option.split)

function remove_parents :: "string \<Rightarrow> nat \<Rightarrow> string" where
  "remove_parents path pos =
     (if at_parent path pos
      then (let prev = parent_start path pos in remove_parents (remove_at path prev (pos + 3 - prev)) prev)
      else (case index_from path pos of None \<Rightarrow> path | Some i \<Rightarrow> remove_parents path (i + 1)))"
  by pat_completeness auto
termination
proof (relation "measure (\<lambda>(path, pos). 2 * length path - pos)", goal_cases)
  case (2 path pos prev)
  then have "prev \<le> pos" "pos + 2 \<le> length path" using parent_start_le by (auto simp: at_parent_def)
  then show ?case by (auto simp: remove_at_def)
next
  case (3 path pos i)
  then show ?case using index_from_bound by fastforce
qed simp

declare remove_parents.simps [simp del]

definition filepath_to_host :: "string \<Rightarrow> string \<Rightarrow> string" where
  "filepath_to_host root path =
     (let path = remove_parents path 0 in
      if path \<noteq> [] \<and> hd path = CHR ''/'' then root @ path else root @ ''/'' @ path)"

section \<open>Components\<close>

fun join_path :: "string list \<Rightarrow> string" where
  "join_path [] = []"
| "join_path [c] = c"
| "join_path (c # cs) = c @ CHR ''/'' # join_path cs"

fun drop_parents :: "string list \<Rightarrow> string list \<Rightarrow> string list" where
  "drop_parents ds [] = ds"
| "drop_parents ds (c # cs) = (if c = ''..'' then drop_parents (butlast ds) cs else drop_parents (ds @ [c]) cs)"

definition closed_components :: "string list \<Rightarrow> string list" where
  "closed_components cs = (if cs \<noteq> [] \<and> last cs = ''..'' then cs @ [[]] else cs)"

definition component :: "string \<Rightarrow> bool" where
  "component c \<longleftrightarrow> CHR ''/'' \<notin> set c"

definition path_prefix :: "string list \<Rightarrow> string" where
  "path_prefix ds = concat (map (\<lambda>d. d @ ''/'') ds)"

lemma path_prefix_simps [simp]: "path_prefix [] = []" "path_prefix (ds @ [d]) = path_prefix ds @ d @ ''/''"
  by (simp_all add: path_prefix_def)

lemma join_path_Cons: "cs \<noteq> [] \<Longrightarrow> join_path (c # cs) = c @ CHR ''/'' # join_path cs"
  by (cases cs) simp_all

lemma join_path_prefix: "cs \<noteq> [] \<Longrightarrow> join_path (ds @ cs) = path_prefix ds @ join_path cs"
  by (induction ds) (simp_all add: path_prefix_def join_path_Cons)

lemma split_components: "split_at CHR ''/'' s \<noteq> []" "list_all component (split_at CHR ''/'' s)" "join_path (split_at CHR ''/'' s) = s"
proof (induction s)
  case (Cons c s)
  { case 1 then show ?case by (auto split: list.splits) }
  { case 2 then show ?case using Cons by (auto simp: component_def split: list.splits) }
  { case 3 then show ?case using Cons by (cases "split_at CHR ''/'' s"; cases "tl (split_at CHR ''/'' s)") (auto simp: join_path_Cons) }
qed (simp_all add: component_def)

lemma takeWhile_component: "component c \<Longrightarrow> takeWhile (\<lambda>c. c \<noteq> CHR ''/'') (c @ s) = c @ takeWhile (\<lambda>c. c \<noteq> CHR ''/'') s"
  by (intro takeWhile_append2) (auto simp: component_def)

lemma index_component:
  assumes "component c"
  shows "index_from (p @ c) (length p) = None" "index_from (p @ c @ CHR ''/'' # r) (length p) = Some (length p + length c)"
  using takeWhile_component [OF assms] takeWhile_component [OF assms, of "[]"] by (simp_all add: index_from_def Let_def del: takeWhile_eq_all_conv)

lemma parent_start_component:
  assumes "component d"
  shows "parent_start (path_prefix (es @ [d]) @ r) (length (path_prefix (es @ [d]))) = length (path_prefix es)"
proof (cases "es = [] \<and> d = []")
  case False
  let ?path = "path_prefix (es @ [d]) @ r" and ?n = "length (path_prefix es) + length d"
  have n: "length (path_prefix (es @ [d])) = Suc ?n" by simp
  from False have "?n \<noteq> 0" by (auto simp: path_prefix_def)
  then have t: "take (Suc ?n - 2 + 1) ?path = path_prefix es @ d" by simp
  have "component (rev d)" using assms by (simp add: component_def)
  then have tw: "takeWhile (\<lambda>c. c \<noteq> CHR ''/'') (rev (path_prefix es @ d)) = rev d @ takeWhile (\<lambda>c. c \<noteq> CHR ''/'') (rev (path_prefix es))"
    using takeWhile_component by simp
  have "takeWhile (\<lambda>c. c \<noteq> CHR ''/'') (rev (path_prefix es)) = []" by (cases es rule: rev_cases) simp_all
  then show ?thesis
    using \<open>?n \<noteq> 0\<close> False unfolding parent_start_def n last_index_from_def t Let_def tw
    by (cases es rule: rev_cases) auto
qed (simp add: parent_start_def path_prefix_def)

lemma at_parent_iff:
  assumes "component c"
  shows "at_parent (p @ c) (length p) \<longleftrightarrow> c = ''..''" "at_parent (p @ c @ CHR ''/'' # r) (length p) \<longleftrightarrow> c = ''..''"
proof -
  show "at_parent (p @ c) (length p) \<longleftrightarrow> c = ''..''"
    using assms set_take_subset [of 3 c] by (auto simp: at_parent_def mid_def component_def)
  show "at_parent (p @ c @ CHR ''/'' # r) (length p) \<longleftrightarrow> c = ''..''"
    using assms by (cases c; cases "tl c"; cases "tl (tl c)") (auto simp: at_parent_def mid_def component_def)
qed

text \<open>The position is behind the components that are kept; the others are still to come.\<close>

lemma remove_parents_last:
  "component c \<Longrightarrow> c \<noteq> ''..'' \<Longrightarrow> remove_parents (path_prefix ds @ c) (length (path_prefix ds)) = path_prefix ds @ c"
  by (subst remove_parents.simps) (simp add: at_parent_iff index_component)

lemma remove_parents_step:
  assumes "component c" "list_all component ds"
  shows "remove_parents (path_prefix ds @ c @ CHR ''/'' # r) (length (path_prefix ds)) =
    (let ds = (if c = ''..'' then butlast ds else ds @ [c]) in remove_parents (path_prefix ds @ r) (length (path_prefix ds)))"
    "c = ''..'' \<Longrightarrow> remove_parents (path_prefix ds @ c) (length (path_prefix ds)) = path_prefix (butlast ds)"
proof -
  have start: "parent_start (path_prefix ds @ r) (length (path_prefix ds)) = length (path_prefix (butlast ds))" for r
    using assms(2) parent_start_component by (cases ds rule: rev_cases) (auto simp: parent_start_def)
  have pre: "\<exists>x. path_prefix ds = path_prefix (butlast ds) @ x" by (cases ds rule: rev_cases) simp_all
  then obtain x where x: "path_prefix ds = path_prefix (butlast ds) @ x" by blast
  show "remove_parents (path_prefix ds @ c @ CHR ''/'' # r) (length (path_prefix ds)) =
    (let ds = (if c = ''..'' then butlast ds else ds @ [c]) in remove_parents (path_prefix ds @ r) (length (path_prefix ds)))"
  proof (cases "c = ''..''")
    case True
    have "remove_at (path_prefix ds @ c @ CHR ''/'' # r) (length (path_prefix (butlast ds)))
        (length (path_prefix ds) + 3 - length (path_prefix (butlast ds))) = path_prefix (butlast ds) @ r"
      unfolding x True by (simp add: remove_at_def)
    moreover have "at_parent (path_prefix ds @ c @ CHR ''/'' # r) (length (path_prefix ds))" using at_parent_iff(2) [OF assms(1)] True by simp
    ultimately show ?thesis using start [of "c @ CHR ''/'' # r"] True
      by (subst remove_parents.simps) (simp add: Let_def)
  next
    case False
    then show ?thesis using assms(1) by (subst remove_parents.simps) (simp add: at_parent_iff index_component)
  qed
  assume c: "c = ''..''"
  have "remove_at (path_prefix ds @ c) (length (path_prefix (butlast ds)))
      (length (path_prefix ds) + 3 - length (path_prefix (butlast ds))) = path_prefix (butlast ds)"
    unfolding x c by (simp add: remove_at_def)
  then show "remove_parents (path_prefix ds @ c) (length (path_prefix ds)) = path_prefix (butlast ds)"
    using assms(1) start [of c] c remove_parents_last [of "[]" "butlast ds"]
    by (subst remove_parents.simps) (simp add: at_parent_iff Let_def component_def)
qed

lemma remove_parents_components:
  assumes "cs \<noteq> []" "list_all component cs" "list_all component ds"
  shows "remove_parents (path_prefix ds @ join_path cs) (length (path_prefix ds)) = join_path (drop_parents ds (closed_components cs))"
  using assms
proof (induction cs arbitrary: ds)
  case (Cons c cs)
  have c: "component c" using Cons.prems by simp
  show ?case
  proof (cases "cs = []")
    case True
    then show ?thesis
      using remove_parents_last [OF c] remove_parents_step(2) [OF c Cons.prems(3)] join_path_prefix [of "[c]" ds]
        join_path_prefix [of "[[]]" "butlast ds"]
      by (auto simp: closed_components_def)
  next
    case False
    let ?ds = "if c = ''..'' then butlast ds else ds @ [c]"
    have "list_all component ?ds" using Cons.prems by (auto simp: list_all_iff dest: in_set_butlastD)
    from Cons.IH [OF False _ this] Cons.prems
    have "remove_parents (path_prefix ?ds @ join_path cs) (length (path_prefix ?ds)) = join_path (drop_parents ?ds (closed_components cs))" by simp
    then show ?thesis
      using remove_parents_step(1) [OF c Cons.prems(3)] False
      by (simp add: join_path_Cons Let_def closed_components_def split: if_splits)
  qed
qed simp

lemma drop_parents_none: "''..'' \<notin> set ds \<Longrightarrow> ''..'' \<notin> set (drop_parents ds cs)"
  by (induction ds cs rule: drop_parents.induct) (auto dest: in_set_butlastD)

lemma drop_parents_components: "list_all component ds \<Longrightarrow> list_all component cs \<Longrightarrow> list_all component (drop_parents ds cs)"
  by (induction ds cs rule: drop_parents.induct) (auto simp: list_all_iff dest: in_set_butlastD)

lemma split_join: "cs \<noteq> [] \<Longrightarrow> list_all component cs \<Longrightarrow> split_at CHR ''/'' (join_path cs) = cs"
proof (induction cs rule: join_path.induct)
  have s: "component c \<Longrightarrow> split_at CHR ''/'' c = [c]" "component c \<Longrightarrow> split_at CHR ''/'' (c @ CHR ''/'' # t) = c # split_at CHR ''/'' t" for c t
    by (induction c) (auto simp: component_def)
  { case (2 c) then show ?case using s by simp }
  { case (3 c d cs) then show ?case using s by simp }
qed simp

lemma join_absolute:
  assumes "list_all component cs" "join_path cs \<noteq> []" "hd (join_path cs) = CHR ''/''"
  shows "\<exists>ds. cs = [] # ds \<and> ds \<noteq> []"
proof (cases cs)
  case (Cons c ds)
  have "c = []"
  proof (rule ccontr)
    assume c: "c \<noteq> []"
    then have "hd (join_path cs) = hd c" by (cases ds) (simp_all add: Cons)
    with c assms(3) have "CHR ''/'' \<in> set c" by (metis hd_in_set)
    with assms(1) Cons show False by (simp add: component_def)
  qed
  with Cons assms(2) show ?thesis by (cases ds) simp_all
qed (use assms(2) in simp)

section \<open>Properties\<close>

text \<open>
  Claim C25: the loop that removes parent components computes the pass over the components that removes with each
  \<^verbatim>\<open>..\<close> the component before it, if any, and the path on the host is the root followed by components none
  of which is \<^verbatim>\<open>..\<close>: no name that a program opens leads out of the root directory.
\<close>

theorem path_stays_in_root:
  "remove_parents path 0 = join_path (drop_parents [] (closed_components (split_at CHR ''/'' path))) \<and>
   (\<exists>cs. filepath_to_host root path = root @ ''/'' @ join_path cs \<and> list_all component cs \<and> ''..'' \<notin> set cs)"
proof -
  let ?cs = "drop_parents [] (closed_components (split_at CHR ''/'' path))"
  have eq: "remove_parents path 0 = join_path ?cs"
    using remove_parents_components [of "split_at CHR ''/'' path" "[]"] split_components by simp
  have cs: "list_all component ?cs" "''..'' \<notin> set ?cs"
    using split_components(2) [of path] drop_parents_components [of "[]"] drop_parents_none [of "[]"]
    by (auto simp: closed_components_def component_def)
  have "\<exists>cs. filepath_to_host root path = root @ ''/'' @ join_path cs \<and> list_all component cs \<and> ''..'' \<notin> set cs"
  proof (cases "join_path ?cs \<noteq> [] \<and> hd (join_path ?cs) = CHR ''/''")
    case False
    then show ?thesis using eq cs by (intro exI [of _ ?cs]) (auto simp: filepath_to_host_def path_prefix_def)
  next
    case True
    then obtain ds where ds: "?cs = [] # ds" "ds \<noteq> []"
      using join_absolute [OF cs(1)] by blast
    then show ?thesis using eq cs True by (intro exI [of _ ds]) (auto simp: filepath_to_host_def path_prefix_def join_path_Cons)
  qed
  with eq show ?thesis by blast
qed

end
