(* ===== verification/Os_Syscall.thy ===== *)
theory Os_Syscall
  imports Os_Path Core
begin

text \<open>
  The emulated operating system (\<^verbatim>\<open>src/src/os_emulation/ossyscall.cpp\<close>): system calls of Linux that a program makes
  are served by files of the host and by the terminal of the simulator.

  The host is a parameter: its constants, its calls on files and the answers of the terminal, on a state of
  its own.  A call of the host returns an error number or a value.  What is printed
  to the console of the simulator is left out; what is sent to the terminal and to the core is a log of events.
  Vectors are as long as the program asks for.
\<close>

section \<open>Tables\<close>

text \<open>A number of the target; two of them are defined by a constant of the host.\<close>

definition errno_table :: "(string \<times> (nat + string)) list" where
  "errno_table = [
     (''EPERM'', Inl 1), (''ENOENT'', Inl 2), (''ESRCH'', Inl 3), (''EINTR'', Inl 4), (''EIO'', Inl 5),
     (''ENXIO'', Inl 6), (''E2BIG'', Inl 7), (''ENOEXEC'', Inl 8), (''EBADF'', Inl 9), (''ECHILD'', Inl 10),
     (''EAGAIN'', Inl 11), (''ENOMEM'', Inl 12), (''EACCES'', Inl 13), (''EFAULT'', Inl 14), (''ENOTBLK'', Inl 15),
     (''EBUSY'', Inl 16), (''EEXIST'', Inl 17), (''EXDEV'', Inl 18), (''ENODEV'', Inl 19), (''ENOTDIR'', Inl 20),
     (''EISDIR'', Inl 21), (''EINVAL'', Inl 22), (''ENFILE'', Inl 23), (''EMFILE'', Inl 24), (''ENOTTY'', Inl 25),
     (''ETXTBSY'', Inl 26), (''EFBIG'', Inl 27), (''ENOSPC'', Inl 28), (''ESPIPE'', Inl 29), (''EROFS'', Inl 30),
     (''EMLINK'', Inl 31), (''EPIPE'', Inl 32), (''EDOM'', Inl 33), (''ERANGE'', Inl 34), (''ENOMSG'', Inl 35),
     (''EIDRM'', Inl 36), (''ECHRNG'', Inl 37), (''EL2NSYNC'', Inl 38), (''EL3HLT'', Inl 39), (''EL3RST'', Inl 40),
     (''ELNRNG'', Inl 41), (''EUNATCH'', Inl 42), (''ENOCSI'', Inl 43), (''EL2HLT'', Inl 44), (''EDEADLK'', Inl 45),
     (''ENOLCK'', Inl 46), (''EBADE'', Inl 50), (''EBADR'', Inl 51), (''EXFULL'', Inl 52), (''ENOANO'', Inl 53),
     (''EBADRQC'', Inl 54), (''EBADSLT'', Inl 55), (''EDEADLOCK'', Inl 56), (''EBFONT'', Inl 59),
     (''ENOSTR'', Inl 60), (''ENODATA'', Inl 61), (''ETIME'', Inl 62), (''ENOSR'', Inl 63), (''ENONET'', Inl 64),
     (''ENOPKG'', Inl 65), (''EREMOTE'', Inl 66), (''ENOLINK'', Inl 67), (''EADV'', Inl 68), (''ESRMNT'', Inl 69),
     (''ECOMM'', Inl 70), (''EPROTO'', Inl 71), (''EDOTDOT'', Inl 73), (''EMULTIHOP'', Inl 74),
     (''EBADMSG'', Inl 77), (''ENAMETOOLONG'', Inl 78), (''EOVERFLOW'', Inl 79), (''ENOTUNIQ'', Inl 80),
     (''EBADFD'', Inl 81), (''EREMCHG'', Inl 82), (''ELIBACC'', Inl 83), (''ELIBBAD'', Inl 84),
     (''ELIBSCN'', Inl 85), (''ELIBMAX'', Inl 86), (''ELIBEXEC'', Inl 87), (''EILSEQ'', Inl 88),
     (''ENOSYS'', Inl 89), (''ELOOP'', Inl 90), (''ERESTART'', Inl 91), (''ESTRPIPE'', Inl 92),
     (''ENOTEMPTY'', Inl 93), (''EUSERS'', Inl 94), (''ENOTSOCK'', Inl 95), (''EDESTADDRREQ'', Inl 96),
     (''EMSGSIZE'', Inl 97), (''EPROTOTYPE'', Inl 98), (''ENOPROTOOPT'', Inl 99), (''EPROTONOSUPPORT'', Inl 120),
     (''ESOCKTNOSUPPORT'', Inl 121), (''EOPNOTSUPP'', Inl 122), (''ENOTSUP'', Inr ''EOPNOTSUPP''),
     (''EPFNOSUPPORT'', Inl 123), (''EAFNOSUPPORT'', Inl 124), (''EADDRINUSE'', Inl 125),
     (''EADDRNOTAVAIL'', Inl 126), (''ENETDOWN'', Inl 127), (''ENETUNREACH'', Inl 128), (''ENETRESET'', Inl 129),
     (''ECONNABORTED'', Inl 130), (''ECONNRESET'', Inl 131), (''ENOBUFS'', Inl 132), (''EISCONN'', Inl 133),
     (''ENOTCONN'', Inl 134), (''EUCLEAN'', Inl 135), (''ENOTNAM'', Inl 137), (''ENAVAIL'', Inl 138),
     (''EISNAM'', Inl 139), (''EREMOTEIO'', Inl 140), (''ESHUTDOWN'', Inl 143), (''ETOOMANYREFS'', Inl 144),
     (''ETIMEDOUT'', Inl 145), (''ECONNREFUSED'', Inl 146), (''EHOSTDOWN'', Inl 147), (''EHOSTUNREACH'', Inl 148),
     (''EWOULDBLOCK'', Inr ''EAGAIN''), (''EALREADY'', Inl 149), (''EINPROGRESS'', Inl 150), (''ESTALE'', Inl 151),
     (''ECANCELED'', Inl 158), (''ENOMEDIUM'', Inl 159), (''EMEDIUMTYPE'', Inl 160), (''ENOKEY'', Inl 161),
     (''EKEYEXPIRED'', Inl 162), (''EKEYREVOKED'', Inl 163), (''EKEYREJECTED'', Inl 164), (''EOWNERDEAD'', Inl 165),
     (''ENOTRECOVERABLE'', Inl 166), (''ERFKILL'', Inl 167), (''EHWPOISON'', Inl 168), (''EDQUOT'', Inl 1133)]"

definition TARGET_EINVAL :: nat where "TARGET_EINVAL = 22"
definition TARGET_ENOSYS :: nat where "TARGET_ENOSYS = 89"

text \<open>The entries of the constants that the host defines; of two with the same number the last is kept.\<close>

definition errno_entry :: "(string \<rightharpoonup> int) \<Rightarrow> string \<times> (nat + string) \<Rightarrow> (int \<times> int) option" where
  "errno_entry host e = (case host (fst e) of None \<Rightarrow> None
     | Some n \<Rightarrow> Some (n, case snd e of Inl t \<Rightarrow> int t | Inr c \<Rightarrow> (case host c of None \<Rightarrow> 0 | Some v \<Rightarrow> v)))"

definition errno_map :: "(string \<rightharpoonup> int) \<Rightarrow> int \<Rightarrow> int" where
  "errno_map host errno = (case map_of (rev (List.map_filter (errno_entry host) errno_table)) errno of None \<Rightarrow> 0 | Some t \<Rightarrow> t)"

definition map_target_o_flags_to_o_flags :: "(u32 \<times> string) list" where
  "map_target_o_flags_to_o_flags = [
     (0x40, ''O_CREAT''), (0x80, ''O_EXCL''), (0x100, ''O_NOCTTY''), (0x200, ''O_TRUNC''), (0x400, ''O_APPEND''),
     (0x800, ''O_NONBLOCK''), (0x1000, ''O_DSYNC''), (0x4000, ''O_SYNC''), (0x4000, ''O_RSYNC''),
     (0x10000, ''O_DIRECTORY''), (0x20000, ''O_NOFOLLOW''), (0x80000, ''O_CLOEXEC'')]"

definition TARGET_O_ACCMODE :: u32 where "TARGET_O_ACCMODE = 3 OR 0x200000"
definition TARGET_AT_FDCWD :: u64 where "TARGET_AT_FDCWD = - 100"

datatype syscall_handler =
    Sys_default | Sys_exit | Sys_writev | Sys_write | Sys_readv | Sys_read | Sys_openat | Sys_close | Sys_ftruncate
  | Sys_brk | Sys_mmap

definition rv_syscall_args :: "(nat \<times> syscall_handler \<times> string) list" where
  "rv_syscall_args = [
     (2, Sys_default, ''io_setup''), (1, Sys_default, ''io_destroy''), (3, Sys_default, ''io_submit''),
     (3, Sys_default, ''io_cancel''), (5, Sys_default, ''io_getevents''), (5, Sys_default, ''setxattr''),
     (5, Sys_default, ''lsetxattr''), (5, Sys_default, ''fsetxattr''), (4, Sys_default, ''getxattr''),
     (4, Sys_default, ''lgetxattr''), (4, Sys_default, ''fgetxattr''), (3, Sys_default, ''listxattr''),
     (3, Sys_default, ''llistxattr''), (3, Sys_default, ''flistxattr''), (2, Sys_default, ''removexattr''),
     (2, Sys_default, ''lremovexattr''), (2, Sys_default, ''fremovexattr''), (2, Sys_default, ''getcwd''),
     (3, Sys_default, ''lookup_dcookie''), (2, Sys_default, ''eventfd2''), (1, Sys_default, ''epoll_create1''),
     (4, Sys_default, ''epoll_ctl''), (6, Sys_default, ''epoll_pwait''), (1, Sys_default, ''dup''),
     (3, Sys_default, ''dup3''), (3, Sys_default, ''fcntl''), (1, Sys_default, ''inotify_init1''),
     (3, Sys_default, ''inotify_add_watch''), (2, Sys_default, ''inotify_rm_watch''), (3, Sys_default, ''ioctl''),
     (3, Sys_default, ''ioprio_set''), (2, Sys_default, ''ioprio_get''), (2, Sys_default, ''flock''),
     (4, Sys_default, ''mknodat''), (3, Sys_default, ''mkdirat''), (3, Sys_default, ''unlinkat''),
     (3, Sys_default, ''symlinkat''), (5, Sys_default, ''linkat''), (4, Sys_default, ''renameat''),
     (2, Sys_default, ''umount2''), (5, Sys_default, ''mount''), (2, Sys_default, ''pivot_root''),
     (3, Sys_default, ''nfsservctl''), (2, Sys_default, ''statfs''), (2, Sys_default, ''fstatfs''),
     (2, Sys_default, ''truncate''), (2, Sys_ftruncate, ''ftruncate''), (4, Sys_default, ''fallocate''),
     (3, Sys_default, ''faccessat''), (1, Sys_default, ''chdir''), (1, Sys_default, ''fchdir''),
     (1, Sys_default, ''chroot''), (2, Sys_default, ''fchmod''), (3, Sys_default, ''fchmodat''),
     (5, Sys_default, ''fchownat''), (3, Sys_default, ''fchown''), (4, Sys_openat, ''openat''),
     (1, Sys_close, ''close''), (0, Sys_default, ''vhangup''), (2, Sys_default, ''pipe2''),
     (4, Sys_default, ''quotactl''), (3, Sys_default, ''getdents64''), (3, Sys_default, ''lseek''),
     (3, Sys_read, ''read''), (3, Sys_write, ''write''), (3, Sys_readv, ''readv''), (3, Sys_writev, ''writev''),
     (4, Sys_default, ''pread64''), (4, Sys_default, ''pwrite64''), (4, Sys_default, ''preadv''),
     (4, Sys_default, ''pwritev''), (4, Sys_default, ''sendfile''), (6, Sys_default, ''pselect6''),
     (5, Sys_default, ''ppoll''), (4, Sys_default, ''signalfd4''), (4, Sys_default, ''vmsplice''),
     (6, Sys_default, ''splice''), (4, Sys_default, ''tee''), (4, Sys_default, ''readlinkat''),
     (4, Sys_default, ''newfstatat''), (2, Sys_default, ''fstat''), (0, Sys_default, ''sync''),
     (1, Sys_default, ''fsync''), (1, Sys_default, ''fdatasync''), (4, Sys_default, ''sync_file_range''),
     (2, Sys_default, ''timerfd_create''), (4, Sys_default, ''timerfd_settime''),
     (2, Sys_default, ''timerfd_gettime''), (4, Sys_default, ''utimensat''), (1, Sys_default, ''acct''),
     (2, Sys_default, ''capget''), (2, Sys_default, ''capset''), (1, Sys_default, ''personality''),
     (1, Sys_exit, ''exit''), (1, Sys_default, ''exit_group''), (5, Sys_default, ''waitid''),
     (1, Sys_default, ''set_tid_address''), (1, Sys_default, ''unshare''), (6, Sys_default, ''futex''),
     (2, Sys_default, ''set_robust_list''), (3, Sys_default, ''get_robust_list''), (2, Sys_default, ''nanosleep''),
     (2, Sys_default, ''getitimer''), (3, Sys_default, ''setitimer''), (4, Sys_default, ''kexec_load''),
     (3, Sys_default, ''init_module''), (2, Sys_default, ''delete_module''), (3, Sys_default, ''timer_create''),
     (2, Sys_default, ''timer_gettime''), (1, Sys_default, ''timer_getoverrun''),
     (4, Sys_default, ''timer_settime''), (1, Sys_default, ''timer_delete''), (2, Sys_default, ''clock_settime''),
     (2, Sys_default, ''clock_gettime''), (2, Sys_default, ''clock_getres''), (4, Sys_default, ''clock_nanosleep''),
     (3, Sys_default, ''syslog''), (4, Sys_default, ''ptrace''), (2, Sys_default, ''sched_setparam''),
     (3, Sys_default, ''sched_setscheduler''), (1, Sys_default, ''sched_getscheduler''),
     (2, Sys_default, ''sched_getparam''), (3, Sys_default, ''sched_setaffinity''),
     (3, Sys_default, ''sched_getaffinity''), (0, Sys_default, ''sched_yield''),
     (1, Sys_default, ''sched_get_priority_max''), (1, Sys_default, ''sched_get_priority_min''),
     (2, Sys_default, ''sched_rr_get_interval''), (0, Sys_default, ''restart_syscall''), (2, Sys_default, ''kill''),
     (2, Sys_default, ''tkill''), (3, Sys_default, ''tgkill''), (2, Sys_default, ''sigaltstack''),
     (2, Sys_default, ''rt_sigsuspend''), (4, Sys_default, ''rt_sigaction''), (4, Sys_default, ''rt_sigprocmask''),
     (2, Sys_default, ''rt_sigpending''), (4, Sys_default, ''rt_sigtimedwait''),
     (3, Sys_default, ''rt_sigqueueinfo''), (0, Sys_default, ''rt_sigreturn''), (3, Sys_default, ''setpriority''),
     (2, Sys_default, ''getpriority''), (4, Sys_default, ''reboot''), (2, Sys_default, ''setregid''),
     (1, Sys_default, ''setgid''), (2, Sys_default, ''setreuid''), (1, Sys_default, ''setuid''),
     (3, Sys_default, ''setresuid''), (3, Sys_default, ''getresuid''), (3, Sys_default, ''setresgid''),
     (3, Sys_default, ''getresgid''), (1, Sys_default, ''setfsuid''), (1, Sys_default, ''setfsgid''),
     (1, Sys_default, ''times''), (2, Sys_default, ''setpgid''), (1, Sys_default, ''getpgid''),
     (1, Sys_default, ''getsid''), (0, Sys_default, ''setsid''), (2, Sys_default, ''getgroups''),
     (2, Sys_default, ''setgroups''), (1, Sys_default, ''uname''), (2, Sys_default, ''sethostname''),
     (2, Sys_default, ''setdomainname''), (2, Sys_default, ''getrlimit''), (2, Sys_default, ''setrlimit''),
     (2, Sys_default, ''getrusage''), (1, Sys_default, ''umask''), (5, Sys_default, ''prctl''),
     (3, Sys_default, ''getcpu''), (2, Sys_default, ''gettimeofday''), (2, Sys_default, ''settimeofday''),
     (1, Sys_default, ''adjtimex''), (0, Sys_default, ''getpid''), (0, Sys_default, ''getppid''),
     (0, Sys_default, ''getuid''), (0, Sys_default, ''geteuid''), (0, Sys_default, ''getgid''),
     (0, Sys_default, ''getegid''), (0, Sys_default, ''gettid''), (1, Sys_default, ''sysinfo''),
     (4, Sys_default, ''mq_open''), (1, Sys_default, ''mq_unlink''), (5, Sys_default, ''mq_timedsend''),
     (5, Sys_default, ''mq_timedreceive''), (2, Sys_default, ''mq_notify''), (3, Sys_default, ''mq_getsetattr''),
     (2, Sys_default, ''msgget''), (3, Sys_default, ''msgctl''), (5, Sys_default, ''msgrcv''),
     (4, Sys_default, ''msgsnd''), (3, Sys_default, ''semget''), (4, Sys_default, ''semctl''),
     (4, Sys_default, ''semtimedop''), (3, Sys_default, ''semop''), (3, Sys_default, ''shmget''),
     (3, Sys_default, ''shmctl''), (3, Sys_default, ''shmat''), (1, Sys_default, ''shmdt''),
     (3, Sys_default, ''socket''), (4, Sys_default, ''socketpair''), (3, Sys_default, ''bind''),
     (2, Sys_default, ''listen''), (3, Sys_default, ''accept''), (3, Sys_default, ''connect''),
     (3, Sys_default, ''getsockname''), (3, Sys_default, ''getpeername''), (6, Sys_default, ''sendto''),
     (6, Sys_default, ''recvfrom''), (5, Sys_default, ''setsockopt''), (5, Sys_default, ''getsockopt''),
     (2, Sys_default, ''shutdown''), (3, Sys_default, ''sendmsg''), (3, Sys_default, ''recvmsg''),
     (3, Sys_default, ''readahead''), (1, Sys_brk, ''brk''), (2, Sys_default, ''munmap''),
     (5, Sys_default, ''mremap''), (5, Sys_default, ''add_key''), (4, Sys_default, ''request_key''),
     (5, Sys_default, ''keyctl''), (5, Sys_default, ''clone''), (3, Sys_default, ''execve''),
     (6, Sys_mmap, ''mmap''), (4, Sys_default, ''fadvise64''), (2, Sys_default, ''swapon''),
     (1, Sys_default, ''swapoff''), (3, Sys_default, ''mprotect''), (3, Sys_default, ''msync''),
     (2, Sys_default, ''mlock''), (2, Sys_default, ''munlock''), (1, Sys_default, ''mlockall''),
     (0, Sys_default, ''munlockall''), (3, Sys_default, ''mincore''), (3, Sys_default, ''madvise''),
     (5, Sys_default, ''remap_file_pages''), (6, Sys_default, ''mbind''), (5, Sys_default, ''get_mempolicy''),
     (3, Sys_default, ''set_mempolicy''), (4, Sys_default, ''migrate_pages''), (6, Sys_default, ''move_pages''),
     (4, Sys_default, ''rt_tgsigqueueinfo''), (5, Sys_default, ''perf_event_open''), (4, Sys_default, ''accept4''),
     (5, Sys_default, ''recvmmsg'')]"

section \<open>State\<close>

definition FD_UNUSED :: int where "FD_UNUSED = - 1"
definition FD_INVALID :: int where "FD_INVALID = - 1"
definition FD_TERMINAL :: int where "FD_TERMINAL = - 2"

record OsSyscall =
  fd_mapping :: "int list"
  brk_limit :: u32
  anonymous_base :: u32
  anonymous_last :: u32
  known_syscall_stop :: bool
  unknown_syscall_stop :: bool
  fs_root :: string

definition os_syscall_new :: "bool \<Rightarrow> bool \<Rightarrow> string \<Rightarrow> OsSyscall" where
  "os_syscall_new known unknown root = \<lparr>fd_mapping = replicate 3 FD_TERMINAL, brk_limit = 0, anonymous_base = 0x60000000,
     anonymous_last = 0x60000000, known_syscall_stop = known, unknown_syscall_stop = unknown, fs_root = root\<rparr>"

record 'h host_ops =
  ho_errno :: "string \<rightharpoonup> int"
  ho_flag :: "string \<rightharpoonup> u32"
  ho_open_mode :: u32
  ho_open :: "string \<Rightarrow> u32 \<Rightarrow> u32 \<Rightarrow> 'h \<Rightarrow> 'h \<times> (int + int)"
  ho_close :: "int \<Rightarrow> 'h \<Rightarrow> 'h \<times> (int + unit)"
  ho_read :: "int \<Rightarrow> nat \<Rightarrow> 'h \<Rightarrow> 'h \<times> (int + byte list)"
  ho_write :: "int \<Rightarrow> byte list \<Rightarrow> 'h \<Rightarrow> 'h \<times> (int + nat)"
  ho_ftruncate :: "int \<Rightarrow> u64 \<Rightarrow> 'h \<Rightarrow> 'h \<times> (int + unit)"
  ho_rx_byte :: "int \<Rightarrow> 'h \<Rightarrow> 'h \<times> u32 option"

datatype os_event = CharWritten int u32 | StopReached

record ('m, 'h) os_machine =
  om_os :: OsSyscall
  om_regs :: Registers
  om_mem :: 'm
  om_host :: 'h
  om_errno :: int
  om_events :: "os_event list"

record ('m, 'h) os_env =
  oe_xlen :: Xlen
  oe_endian :: Endian
  oe_mem :: "'m frontend_ops"
  oe_host :: "'h host_ops"
  oe_name_bound :: nat

type_synonym ('m, 'h, 'a) os = "(('m, 'h) os_machine, 'a) action"

definition os_emit :: "os_event list \<Rightarrow> ('m, 'h, unit) os" where
  "os_emit es = (\<lambda>s. (s\<lparr>om_events := om_events s @ es\<rparr>, Inr ()))"

definition on_memory :: "('m, 'a) action \<Rightarrow> ('m, 'h, 'a) os" where
  "on_memory f = (\<lambda>s. case f (om_mem s) of (m, r) \<Rightarrow> (s\<lparr>om_mem := m\<rparr>, r))"

text \<open>A call of the host; the number of its error is kept as \<^verbatim>\<open>errno\<close>.\<close>

definition host_call :: "('h \<Rightarrow> 'h \<times> (int + 'a)) \<Rightarrow> ('m, 'h, 'a option) os" where
  "host_call f = (\<lambda>s. case f (om_host s) of
     (h, Inl e) \<Rightarrow> (s\<lparr>om_host := h, om_errno := e\<rparr>, Inr None)
   | (h, Inr x) \<Rightarrow> (s\<lparr>om_host := h\<rparr>, Inr (Some x)))"

section \<open>Results\<close>

definition result_errno_if_error :: "('m, 'h) os_env \<Rightarrow> int \<Rightarrow> u32 \<Rightarrow> u32" where
  "result_errno_if_error env errno result =
     (if result < - 4096 then result
      else (let result = word_of_int (- errno_map (ho_errno (oe_host env)) errno) in if result = 0 then - 1 else result))"

definition os_result :: "('m, 'h) os_env \<Rightarrow> u32 \<Rightarrow> ('m, 'h, u32) os" where
  "os_result env r = (\<lambda>s. (s, Inr (result_errno_if_error env (om_errno s) r)))"

definition status_from_result :: "u64 \<Rightarrow> u32" where
  "status_from_result result = (let result = ucast result :: u32 in if result < - 4096 then 0 else - result)"

section \<open>Memory and files\<close>

fun write_mem_bytes :: "('m, 'h) os_env \<Rightarrow> address \<Rightarrow> byte list \<Rightarrow> ('m, 'h, unit) os" where
  "write_mem_bytes env addr [] = act_return ()"
| "write_mem_bytes env addr (b # bs) =
     act_bind (on_memory (write_u8 (oe_endian env) (oe_mem env) (plain_address addr) b AE_REGULAR)) (\<lambda>_. write_mem_bytes env (addr + 1) bs)"

definition write_mem :: "('m, 'h) os_env \<Rightarrow> address \<Rightarrow> byte list \<Rightarrow> nat \<Rightarrow> ('m, 'h, unit) os" where
  "write_mem env addr data count = write_mem_bytes env addr (take count data)"

primrec read_mem :: "('m, 'h) os_env \<Rightarrow> address \<Rightarrow> nat \<Rightarrow> ('m, 'h, byte list) os" where
  "read_mem env addr 0 = act_return []"
| "read_mem env addr (Suc n) =
     act_bind (on_memory (read_u8 (oe_endian env) (oe_mem env) (plain_address addr) AE_REGULAR)) (\<lambda>b.
     act_bind (read_mem env (addr + 1) n) (\<lambda>bs. act_return (b # bs)))"

definition write_io :: "('m, 'h) os_env \<Rightarrow> int \<Rightarrow> byte list \<Rightarrow> nat \<Rightarrow> ('m, 'h, u32) os" where
  "write_io env fd data count =
     (let data = take count data in
      if fd = FD_UNUSED then act_return (- 1)
      else if fd = FD_TERMINAL then
        act_bind (os_emit (map (\<lambda>b. CharWritten fd (ucast b)) data)) (\<lambda>_. os_result env (of_nat (length data)))
      else act_bind (host_call (ho_write (oe_host env) fd data)) (\<lambda>r.
        os_result env (case r of None \<Rightarrow> - 1 | Some n \<Rightarrow> of_nat n)))"

text \<open>
  Reading from the terminal stops at the first byte that is not available; it counts, as a new line or as what
  the buffer holds there, zero.
\<close>

primrec read_terminal :: "('m, 'h) os_env \<Rightarrow> int \<Rightarrow> bool \<Rightarrow> nat \<Rightarrow> ('m, 'h, byte list) os" where
  "read_terminal env fd nl 0 = act_return []"
| "read_terminal env fd nl (Suc n) = (\<lambda>s. case ho_rx_byte (oe_host env) fd (om_host s) of
     (h, None) \<Rightarrow> (s\<lparr>om_host := h\<rparr>, Inr [if nl then 10 else 0])
   | (h, Some b) \<Rightarrow> act_bind (read_terminal env fd nl n) (\<lambda>bs. act_return (ucast b # bs)) (s\<lparr>om_host := h\<rparr>))"

definition read_io :: "('m, 'h) os_env \<Rightarrow> int \<Rightarrow> nat \<Rightarrow> bool \<Rightarrow> ('m, 'h, byte list \<times> u32) os" where
  "read_io env fd count add_nl_at_eof =
     (if fd = FD_UNUSED then act_return (replicate count 0, - 1)
      else
        act_bind (if fd = FD_TERMINAL then act_bind (read_terminal env fd add_nl_at_eof count) (\<lambda>bs. act_return (Some bs))
                  else host_call (ho_read (oe_host env) fd count)) (\<lambda>r.
        case r of
          None \<Rightarrow> act_bind (os_result env (- 1)) (\<lambda>c. act_return (replicate count 0, c))
        | Some bs \<Rightarrow> act_bind (os_result env (of_nat (length bs))) (\<lambda>c. act_return (bs, c))))"

fun first_unused :: "int list \<Rightarrow> nat option" where
  "first_unused [] = None"
| "first_unused (f # fs) = (if f = FD_UNUSED then Some 0 else map_option Suc (first_unused fs))"

definition allocate_fd :: "int \<Rightarrow> OsSyscall \<Rightarrow> OsSyscall \<times> nat" where
  "allocate_fd val s = (case first_unused (fd_mapping s) of
     Some i \<Rightarrow> (s\<lparr>fd_mapping := (fd_mapping s)[i := val]\<rparr>, i)
   | None \<Rightarrow> (s\<lparr>fd_mapping := fd_mapping s @ [val]\<rparr>, length (fd_mapping s)))"

definition os_allocate_fd :: "int \<Rightarrow> ('m, 'h, u32) os" where
  "os_allocate_fd val = (\<lambda>s. case allocate_fd val (om_os s) of (os, i) \<Rightarrow> (s\<lparr>om_os := os\<rparr>, Inr (of_nat i)))"

definition host_flags :: "('m, 'h) os_env \<Rightarrow> u32 \<Rightarrow> u32" where
  "host_flags env flags =
     (let flag = (\<lambda>n. case ho_flag (oe_host env) n of None \<Rightarrow> 0 | Some v \<Rightarrow> v);
          entries = rev (filter (\<lambda>(t, n). ho_flag (oe_host env) n \<noteq> None) map_target_o_flags_to_o_flags);
          mapped = (\<lambda>t. case map_of entries t of None \<Rightarrow> 0 | Some n \<Rightarrow> flag n);
          f = fold (\<lambda>t f. if flags AND t \<noteq> 0 then f OR mapped t else f) (map fst entries) 0;
          mode = flags AND TARGET_O_ACCMODE in
      if mode = 0 then f OR flag ''O_RDONLY'' else if mode = 1 then f OR flag ''O_WRONLY''
      else if mode = 2 then f OR flag ''O_RDWR'' else f)"

definition file_open :: "('m, 'h) os_env \<Rightarrow> string \<Rightarrow> u32 \<Rightarrow> ('m, 'h, u32) os" where
  "file_open env fname flags = (\<lambda>s.
     if fs_root (om_os s) = [] then os_allocate_fd FD_TERMINAL s
     else act_bind (host_call (ho_open (oe_host env) (filepath_to_host (fs_root (om_os s)) fname) (host_flags env flags) (ho_open_mode (oe_host env))))
       (\<lambda>r. case r of None \<Rightarrow> os_result env (- 1) | Some fd \<Rightarrow> os_allocate_fd fd) s)"

definition targetfd_to_fd :: "OsSyscall \<Rightarrow> u32 \<Rightarrow> int" where
  "targetfd_to_fd s targetfd =
     (if sint targetfd < 0 then FD_INVALID
      else if length (fd_mapping s) \<le> nat (sint targetfd) then FD_INVALID
      else fd_mapping s ! nat (sint targetfd))"

text \<open>The caller has found the descriptor in the table, so that the position exists.\<close>

definition close_fd :: "u32 \<Rightarrow> OsSyscall \<Rightarrow> OsSyscall" where
  "close_fd targetfd s = s\<lparr>fd_mapping := (fd_mapping s)[nat (sint targetfd) := FD_UNUSED]\<rparr>"

definition map_stdin_to_hostfile :: "('m, 'h) os_env \<Rightarrow> string \<Rightarrow> ('m, 'h, bool) os" where
  "map_stdin_to_hostfile env hostpath =
     (if hostpath = [] then act_return False
      else act_bind (host_call (ho_open (oe_host env) hostpath (case ho_flag (oe_host env) ''O_RDONLY'' of None \<Rightarrow> 0 | Some v \<Rightarrow> v) 0)) (\<lambda>r.
        case r of None \<Rightarrow> act_return False
        | Some hostfd \<Rightarrow> (\<lambda>s.
            let fds = (if fd_mapping (om_os s) = [] then [FD_UNUSED] else fd_mapping (om_os s)) in
            act_bind (if 0 \<le> hd fds then host_call (ho_close (oe_host env) (hd fds)) else act_return None) (\<lambda>_ s.
              (s\<lparr>om_os := (om_os s)\<lparr>fd_mapping := hostfd # tl fds\<rparr>\<rparr>, Inr True)) s)))"

section \<open>System calls\<close>

text \<open>A handler gets the arguments as registers and returns the status and the result.\<close>

type_synonym ('m, 'h) syscall = "u64 \<Rightarrow> u64 \<Rightarrow> u64 \<Rightarrow> u64 \<Rightarrow> u64 \<Rightarrow> u64 \<Rightarrow> ('m, 'h, u32 \<times> u64) os"

definition with_status :: "u64 \<Rightarrow> ('m, 'h, u32 \<times> u64) os" where
  "with_status result = act_return (status_from_result result, result)"

definition with_fd :: "u64 \<Rightarrow> (int \<Rightarrow> ('m, 'h, u32 \<times> u64) os) \<Rightarrow> ('m, 'h, u32 \<times> u64) os" where
  "with_fd a f = (\<lambda>s. let fd = targetfd_to_fd (om_os s) (ucast a) in
     if fd = FD_INVALID then (s, Inr (0, - of_nat TARGET_EINVAL)) else f fd s)"

definition stop_when :: "(OsSyscall \<Rightarrow> bool) \<Rightarrow> ('m, 'h, unit) os" where
  "stop_when c = (\<lambda>s. if c (om_os s) then os_emit [StopReached] s else (s, Inr ()))"

definition syscall_default_handler :: "('m, 'h, u32 \<times> u64) os" where
  "syscall_default_handler = act_bind (stop_when unknown_syscall_stop) (\<lambda>_. act_return (of_nat TARGET_ENOSYS, 0))"

definition do_sys_exit :: "('m, 'h, u32 \<times> u64) os" where
  "do_sys_exit = act_bind (os_emit [StopReached]) (\<lambda>_. act_return (0, 0))"

text \<open>The vectors of \<^verbatim>\<open>writev\<close> and \<^verbatim>\<open>readv\<close>: an address and a length of 32 bits each.\<close>

definition read_iovec :: "('m, 'h) os_env \<Rightarrow> address \<Rightarrow> ('m, 'h, address \<times> u32) os" where
  "read_iovec env iov =
     act_bind (on_memory (read_u32 (oe_endian env) (oe_mem env) (plain_address iov) AE_REGULAR)) (\<lambda>b.
     act_bind (on_memory (read_u32 (oe_endian env) (oe_mem env) (plain_address (iov + 4)) AE_REGULAR)) (\<lambda>l.
     act_return (ucast b, l)))"

definition add_count :: "u64 \<Rightarrow> u32 \<Rightarrow> u64" where
  "add_count result count = (if 0 \<le> sint count then result + scast count else if result = 0 then scast count else result)"

primrec sys_writev_loop :: "('m, 'h) os_env \<Rightarrow> nat \<Rightarrow> int \<Rightarrow> address \<Rightarrow> u64 \<Rightarrow> ('m, 'h, u64) os" where
  "sys_writev_loop env 0 fd iov result = act_return result"
| "sys_writev_loop env (Suc n) fd iov result =
     act_bind (read_iovec env iov) (\<lambda>(base, len).
     act_bind (read_mem env base (unat len)) (\<lambda>data.
     act_bind (write_io env fd data (unat len)) (\<lambda>count.
     if sint count < sint len then act_return (add_count result count)
     else sys_writev_loop env n fd (iov + 8) (add_count result count))))"

definition do_sys_writev :: "('m, 'h) os_env \<Rightarrow> ('m, 'h) syscall" where
  "do_sys_writev env a1 a2 a3 a4 a5 a6 = with_fd a1 (\<lambda>fd.
     act_bind (sys_writev_loop env (nat (sint (ucast a3 :: u32))) fd (get_xlen_from_reg (oe_xlen env) a2) 0) with_status)"

definition do_sys_write :: "('m, 'h) os_env \<Rightarrow> ('m, 'h) syscall" where
  "do_sys_write env a1 a2 a3 a4 a5 a6 = with_fd a1 (\<lambda>fd.
     let size = unat (ucast (get_xlen_from_reg (oe_xlen env) a3) :: u32) in
     act_bind (read_mem env (get_xlen_from_reg (oe_xlen env) a2) size) (\<lambda>data.
     act_bind (write_io env fd data size) (\<lambda>count. with_status (scast count))))"

primrec sys_readv_loop :: "('m, 'h) os_env \<Rightarrow> nat \<Rightarrow> int \<Rightarrow> address \<Rightarrow> u64 \<Rightarrow> ('m, 'h, u64) os" where
  "sys_readv_loop env 0 fd iov result = act_return result"
| "sys_readv_loop env (Suc n) fd iov result =
     act_bind (read_iovec env iov) (\<lambda>(base, len).
     act_bind (read_io env fd (unat len) True) (\<lambda>(data, count).
     act_bind (if 0 \<le> sint count then write_mem env base data (unat count) else act_return ()) (\<lambda>_.
     if sint count < sint len then act_return (add_count result count)
     else sys_readv_loop env n fd (iov + 8) (add_count result count))))"

definition do_sys_readv :: "('m, 'h) os_env \<Rightarrow> ('m, 'h) syscall" where
  "do_sys_readv env a1 a2 a3 a4 a5 a6 = with_fd a1 (\<lambda>fd.
     act_bind (sys_readv_loop env (nat (sint (ucast a3 :: u32))) fd (get_xlen_from_reg (oe_xlen env) a2) 0) with_status)"

definition do_sys_read :: "('m, 'h) os_env \<Rightarrow> ('m, 'h) syscall" where
  "do_sys_read env a1 a2 a3 a4 a5 a6 = with_fd a1 (\<lambda>fd.
     let size = unat (ucast (get_xlen_from_reg (oe_xlen env) a3) :: u32) in
     act_bind (read_io env fd size True) (\<lambda>(data, count).
     act_bind (if 0 \<le> sint count then write_mem env (get_xlen_from_reg (oe_xlen env) a2) data size else act_return ())
       (\<lambda>_. with_status (scast count))))"

text \<open>The name of a file up to a zero byte, within the bound; without a zero byte the loop does not end.\<close>

primrec read_name :: "('m, 'h) os_env \<Rightarrow> nat \<Rightarrow> address \<Rightarrow> ('m, 'h, string) os" where
  "read_name env 0 addr = act_throw NonTermination"
| "read_name env (Suc n) addr =
     act_bind (on_memory (read_u8 (oe_endian env) (oe_mem env) (plain_address addr) AE_REGULAR)) (\<lambda>b.
     if b = 0 then act_return [] else act_bind (read_name env n (addr + 1)) (\<lambda>s. act_return (char_of (unat b) # s)))"

definition do_sys_openat :: "('m, 'h) os_env \<Rightarrow> ('m, 'h) syscall" where
  "do_sys_openat env a1 a2 a3 a4 a5 a6 =
     (if a1 \<noteq> TARGET_AT_FDCWD then act_bind (stop_when unknown_syscall_stop) (\<lambda>_. act_return (of_nat TARGET_ENOSYS, 0))
      else act_bind (read_name env (oe_name_bound env) (get_xlen_from_reg (oe_xlen env) a2)) (\<lambda>fname.
        act_bind (file_open env fname (ucast a3)) (\<lambda>fd. with_status (scast fd))))"

definition do_sys_close :: "('m, 'h) os_env \<Rightarrow> ('m, 'h) syscall" where
  "do_sys_close env a1 a2 a3 a4 a5 a6 = with_fd a1 (\<lambda>fd.
     act_bind (host_call (ho_close (oe_host env) fd)) (\<lambda>_ s. (s\<lparr>om_os := close_fd (ucast a1) (om_os s)\<rparr>, Inr (0, 0))))"

definition do_sys_ftruncate :: "('m, 'h) os_env \<Rightarrow> ('m, 'h) syscall" where
  "do_sys_ftruncate env a1 a2 a3 a4 a5 a6 =
     (let len = (case oe_xlen env of
          XLEN_32 \<Rightarrow> get_xlen_from_reg XLEN_32 a2 OR push_bit 32 (get_xlen_from_reg XLEN_32 a3)
        | XLEN_64 \<Rightarrow> get_xlen_from_reg XLEN_64 a2) in
      with_fd a1 (\<lambda>fd.
        act_bind (host_call (ho_ftruncate (oe_host env) fd len)) (\<lambda>r.
        act_bind (os_result env (case r of None \<Rightarrow> - 1 | Some _ \<Rightarrow> 0)) (\<lambda>c. with_status (ucast c)))))"

definition do_sys_brk :: "('m, 'h) syscall" where
  "do_sys_brk a1 a2 a3 a4 a5 a6 = (\<lambda>s. (s\<lparr>om_os := (om_os s)\<lparr>brk_limit := ucast a1\<rparr>\<rparr>, Inr (0, ucast (ucast a1 :: u32))))"

definition do_sys_mmap :: "('m, 'h) syscall" where
  "do_sys_mmap a1 a2 a3 a4 a5 a6 = (\<lambda>s.
     (s\<lparr>om_os := (om_os s)\<lparr>anonymous_last := anonymous_last (om_os s) + ucast a2\<rparr>\<rparr>, Inr (0, ucast (anonymous_last (om_os s)))))"

definition call_handler :: "('m, 'h) os_env \<Rightarrow> syscall_handler \<Rightarrow> ('m, 'h) syscall" where
  "call_handler env h a1 a2 a3 a4 a5 a6 = (case h of
     Sys_default \<Rightarrow> syscall_default_handler
   | Sys_exit \<Rightarrow> do_sys_exit
   | Sys_writev \<Rightarrow> do_sys_writev env a1 a2 a3 a4 a5 a6
   | Sys_write \<Rightarrow> do_sys_write env a1 a2 a3 a4 a5 a6
   | Sys_readv \<Rightarrow> do_sys_readv env a1 a2 a3 a4 a5 a6
   | Sys_read \<Rightarrow> do_sys_read env a1 a2 a3 a4 a5 a6
   | Sys_openat \<Rightarrow> do_sys_openat env a1 a2 a3 a4 a5 a6
   | Sys_close \<Rightarrow> do_sys_close env a1 a2 a3 a4 a5 a6
   | Sys_ftruncate \<Rightarrow> do_sys_ftruncate env a1 a2 a3 a4 a5 a6
   | Sys_brk \<Rightarrow> do_sys_brk a1 a2 a3 a4 a5 a6
   | Sys_mmap \<Rightarrow> do_sys_mmap a1 a2 a3 a4 a5 a6)"

definition finish_syscall :: "u32 \<times> u64 \<Rightarrow> ('m, 'h, bool) os" where
  "finish_syscall r = (\<lambda>s. (s\<lparr>om_regs := write_gp (om_regs s) 10 (if sint (fst r) < 0 then of_i32 (fst r) else snd r)\<rparr>, Inr True))"

definition os_handle_exception :: "('m, 'h) os_env \<Rightarrow> ('m, 'h, bool) os" where
  "os_handle_exception env = (\<lambda>s.
     let regs = om_regs s; syscall_num = read_gp regs 17 in
     if unat syscall_num < length rv_syscall_args then
       act_bind (call_handler env (fst (snd (rv_syscall_args ! unat syscall_num)))
           (read_gp regs 10) (read_gp regs 11) (read_gp regs 12) (read_gp regs 13) (read_gp regs 14) (read_gp regs 15)) (\<lambda>r.
       act_bind (stop_when known_syscall_stop) (\<lambda>_. finish_syscall r)) s
     else (s, Inl SyscallUnknown))"

end
