(* ===== verification/Os_Syscall_Correct.thy ===== *)
theory Os_Syscall_Correct
  imports Os_Syscall Memory_Bus Action_Logic
begin

text \<open>
  What system calls do: the registers they leave alone, descriptors, the bytes that go from the memory to
  the terminal and back, the regions of \<^verbatim>\<open>mmap\<close> and the numbers of errors.
\<close>

section \<open>Frame\<close>

text \<open>Registers and settings that no handler changes.\<close>

definition os_frame :: "Registers \<Rightarrow> string \<Rightarrow> ('m, 'h) os_machine \<Rightarrow> bool" where
  "os_frame r root s \<longleftrightarrow> om_regs s = r \<and> fs_root (om_os s) = root"

abbreviation keeps :: "Registers \<Rightarrow> string \<Rightarrow> ('m, 'h, 'a) os \<Rightarrow> bool" where
  "keeps r root f \<equiv> act_ok (os_frame r root) f (\<lambda>_. True)"

lemma keeps_basic [act_intro]:
  "keeps r root (os_emit es)" "keeps r root (on_memory f)" "keeps r root (host_call h)" "keeps r root (os_result env x)"
  "keeps r root (os_allocate_fd v)" "keeps r root (stop_when c)" "keeps r root (with_status y)" "keeps r root (read_terminal env fd nl n)"
proof -
  show "keeps r root (os_emit es)" "keeps r root (on_memory f)" "keeps r root (host_call h)" "keeps r root (os_result env x)"
    "keeps r root (os_allocate_fd v)" "keeps r root (stop_when c)" "keeps r root (with_status y)"
    by (auto simp: act_ok_def os_frame_def os_emit_def on_memory_def host_call_def os_result_def os_allocate_fd_def
        allocate_fd_def stop_when_def with_status_def split: prod.splits sum.splits option.splits)
  show "keeps r root (read_terminal env fd nl n)"
  proof (induction n)
    case (Suc n)
    have b: "keeps r root (act_bind (read_terminal env fd nl n) (\<lambda>bs. act_return (ucast b # bs)))" for b :: u32
      by (intro act_intro Suc) simp
    show ?case
    proof (rule act_okI)
      fix s s' x assume fr: "os_frame r root s" and e: "read_terminal env fd nl (Suc n) s = (s', x)"
      obtain h o' where h: "ho_rx_byte (oe_host env) fd (om_host s) = (h, o')" by fastforce
      have "os_frame r root (s\<lparr>om_host := h\<rparr>)" using fr by (simp add: os_frame_def)
      with e h act_okD [OF b] show "os_frame r root s' \<and> (\<forall>y. x = Inr y \<longrightarrow> True)"
        by (cases o') auto
    qed
  qed (simp add: act_ok_def)
qed

lemma keeps_with_fd [act_intro]: "(\<And>fd. keeps r root (f fd)) \<Longrightarrow> keeps r root (with_fd a f)"
  by (auto simp: act_ok_def with_fd_def Let_def)

lemma keeps_memory [act_intro]:
  "keeps r root (write_mem_bytes env a bs)" "keeps r root (read_mem env a n)" "keeps r root (read_name env n a)"
proof -
  show "keeps r root (write_mem_bytes env a bs)" by (induction bs arbitrary: a) (auto intro!: act_intro)
  show "keeps r root (read_mem env a n)" by (induction n arbitrary: a) (auto intro!: act_intro)
  show "keeps r root (read_name env n a)" by (induction n arbitrary: a) (auto intro!: act_intro)
qed

lemma keeps_io [act_intro]:
  "keeps r root (write_mem env a bs n)" "keeps r root (write_io env fd bs n)" "keeps r root (read_io env fd n nl)"
  "keeps r root (read_iovec env a)" "keeps r root (file_open env fname flags)"
proof -
  show "keeps r root (write_mem env a bs n)" unfolding write_mem_def by (intro act_intro)
  show "keeps r root (write_io env fd bs n)" unfolding write_io_def Let_def by (intro act_intro) simp
  show "keeps r root (read_io env fd n nl)" unfolding read_io_def by (intro act_intro) (auto intro!: act_intro split: option.split)
  show "keeps r root (read_iovec env a)" unfolding read_iovec_def by (intro act_intro) simp
  define g where "g = (\<lambda>x. if x = [] then os_allocate_fd FD_TERMINAL
      else act_bind (host_call (ho_open (oe_host env) (filepath_to_host x fname) (host_flags env flags) (ho_open_mode (oe_host env))))
        (\<lambda>r. case r of None \<Rightarrow> os_result env (- 1) | Some fd \<Rightarrow> os_allocate_fd fd) :: ('a, 'b, u32) os)"
  have "keeps r root (g x)" for x unfolding g_def by (intro act_intro) (auto intro!: act_intro split: option.split)
  moreover have "file_open env fname flags = (\<lambda>s. g (fs_root (om_os s)) s)" by (simp add: fun_eq_iff file_open_def g_def)
  ultimately show "keeps r root (file_open env fname flags)" by (auto simp: act_ok_def)
qed

lemma keeps_loops [act_intro]:
  "keeps r root (sys_writev_loop env n fd iov res)" "keeps r root (sys_readv_loop env n fd iov res)"
proof -
  show "keeps r root (sys_writev_loop env n fd iov res)"
    by (induction n arbitrary: iov res) (auto intro!: act_intro split: prod.split)
  show "keeps r root (sys_readv_loop env n fd iov res)"
    by (induction n arbitrary: iov res) (auto intro!: act_intro split: prod.split)
qed

lemma keeps_handlers: "keeps r root (call_handler env h a1 a2 a3 a4 a5 a6)"
proof (cases h)
  case Sys_close
  then show ?thesis
    by (auto simp: act_ok_def os_frame_def call_handler_def do_sys_close_def with_fd_def close_fd_def host_call_def act_bind_def Let_def
        split: prod.splits sum.splits)
next
  case Sys_brk
  then show ?thesis by (simp add: act_ok_def os_frame_def call_handler_def do_sys_brk_def)
next
  case Sys_mmap
  then show ?thesis by (simp add: act_ok_def os_frame_def call_handler_def do_sys_mmap_def)
qed (auto simp: call_handler_def syscall_default_handler_def do_sys_exit_def do_sys_writev_def do_sys_write_def do_sys_readv_def
    do_sys_read_def do_sys_openat_def do_sys_ftruncate_def Let_def intro!: act_intro split: prod.split)

text \<open>No handler returns a negative status, so the result goes to the register.\<close>

definition nonneg_status :: "u32 \<times> u64 \<Rightarrow> bool" where
  "nonneg_status r \<longleftrightarrow> 0 \<le> sint (fst r)"

lemma small_negative:
  assumes "(- 4096 :: u32) \<le> w"
  shows "uint (- w) = 0x100000000 - uint w" "uint (- w) \<le> 4096" "sint (- w) = uint (- w)"
proof -
  have u: "0xfffff000 \<le> uint w" "uint w < 0x100000000" using assms unsigned_less [of w] by (simp_all add: word_le_def)
  then have "(- uint w) mod 0x100000000 = 0x100000000 - uint w" by (simp add: zmod_zminus1_eq_if)
  then show e: "uint (- w) = 0x100000000 - uint w" by (simp add: uint_word_ariths)
  with u show "uint (- w) \<le> 4096" by simp
  then show "sint (- w) = uint (- w)" unfolding sint_uint by (intro signed_take_bit_int_eq_self) (auto intro: order_trans [OF _ uint_nonnegative])
qed

lemma status_nonneg: "0 \<le> sint (status_from_result result)"
  using small_negative(3) [of "ucast result"] by (auto simp: status_from_result_def Let_def not_less)


lemma status_with [act_intro]: "act_ok (\<lambda>_. True) (with_status x) nonneg_status" "act_ok (\<lambda>_. True) (f :: ('m, 'h, 'a) os) (\<lambda>_. True)"
  by (simp_all add: act_ok_def with_status_def nonneg_status_def status_nonneg)

lemma status_with_fd [act_intro]:
  "(\<And>fd. act_ok (\<lambda>_. True) (f fd) nonneg_status) \<Longrightarrow> act_ok (\<lambda>_. True) (with_fd a f) nonneg_status"
  by (auto simp: act_ok_def with_fd_def nonneg_status_def Let_def)

lemma status_handlers: "act_ok (\<lambda>_. True) (call_handler env h a1 a2 a3 a4 a5 a6) nonneg_status"
proof -
  have z: "nonneg_status (0, x)" "nonneg_status (of_nat TARGET_ENOSYS, x)" for x
    by (simp_all add: nonneg_status_def TARGET_ENOSYS_def)
  have [act_intro]: "act_ok (\<lambda>_. True) (\<lambda>s. (g s, Inr (0, k s))) nonneg_status" for g :: "('a, 'b) os_machine \<Rightarrow> ('a, 'b) os_machine" and k
    by (simp add: act_ok_def z)
  show ?thesis
    by (cases h) (auto simp: call_handler_def syscall_default_handler_def do_sys_exit_def do_sys_writev_def do_sys_write_def
      do_sys_readv_def do_sys_read_def do_sys_openat_def do_sys_ftruncate_def do_sys_close_def do_sys_brk_def do_sys_mmap_def Let_def z
      intro!: act_intro split: prod.split)
qed

section \<open>Memory\<close>

lemma load_bytes_Suc: "load_bytes v a (Suc n) = v a # load_bytes v (a + 1) n"
  using load_bytes_append [of v a 1 n] by (simp add: load_bytes_def)

locale syscall_memory = frontend_contract ops inv view admits
  for ops :: "'m frontend_ops" and inv view admits
begin

lemma read_byte:
  assumes "oe_mem env = ops" "inv (om_mem s)" "admits a 1"
  obtains m where "on_memory (read_u8 (oe_endian env) (oe_mem env) (plain_address a) AE_REGULAR) s = (s\<lparr>om_mem := m\<rparr>, Inr (view (om_mem s) a))"
    "inv m" "view m = view (om_mem s)"
proof -
  obtain m where m: "read_generic TYPE(8) (oe_endian env) ops (plain_address a) AE_REGULAR (om_mem s) =
      (m, Inr (bytes_value (fm_endian ops) (load_bytes (view (om_mem s)) a 1)))" "inv m" "view m = view (om_mem s)"
    using read_generic_contract [where 'a = 8 and a = "plain_address a" and host = "oe_endian env", OF assms(2)] assms(3) by auto
  have "load_bytes v a 1 = value_bytes (fm_endian ops) (v a)" for v :: "address \<Rightarrow> byte"
    by (cases "fm_endian ops") (simp_all add: value_bytes_def le_bytes_def load_bytes_def)
  then have "bytes_value (fm_endian ops) (load_bytes v a 1) = (v a :: u8)" for v :: "address \<Rightarrow> byte"
    by (simp add: bytes_value_value_bytes)
  with m assms(1) show thesis by (intro that [of m]) (simp_all add: on_memory_def accessor_defs)
qed

lemma read_mem_bytes:
  assumes "oe_mem env = ops"
  shows "inv (om_mem s) \<Longrightarrow> (\<And>i. i < n \<Longrightarrow> admits (a + of_nat i) 1) \<Longrightarrow>
    \<exists>m. read_mem env a n s = (s\<lparr>om_mem := m\<rparr>, Inr (load_bytes (view (om_mem s)) a n)) \<and> inv m \<and> view m = view (om_mem s)"
proof (induction n arbitrary: a s)
  case 0
  then show ?case by (intro exI [of _ "om_mem s"]) simp
next
  case (Suc n)
  have "admits a 1" using Suc.prems(2) [of 0] by simp
  then obtain m where m: "on_memory (read_u8 (oe_endian env) (oe_mem env) (plain_address a) AE_REGULAR) s = (s\<lparr>om_mem := m\<rparr>, Inr (view (om_mem s) a))"
    "inv m" "view m = view (om_mem s)"
    using read_byte [OF assms Suc.prems(1)] by blast
  have adm: "\<And>i. i < n \<Longrightarrow> admits (a + 1 + of_nat i) 1" using Suc.prems(2) [of "Suc i" for i] by (simp add: algebra_simps)
  obtain m' where m': "read_mem env (a + 1) n (s\<lparr>om_mem := m\<rparr>) = (s\<lparr>om_mem := m'\<rparr>, Inr (load_bytes (view (om_mem s)) (a + 1) n))"
    "inv m'" "view m' = view (om_mem s)"
    using Suc.IH [of "s\<lparr>om_mem := m\<rparr>" "a + 1", OF _ adm] m by auto
  then show ?case using m by (intro exI [of _ m']) (simp add: load_bytes_Suc)
qed

text \<open>A name within the bound is read up to its zero byte.\<close>

lemma read_name_returns:
  assumes "oe_mem env = ops"
  shows "inv (om_mem s) \<Longrightarrow> (\<And>i. i \<le> length bs \<Longrightarrow> admits (a + of_nat i) 1) \<Longrightarrow> length bs < n \<Longrightarrow> 0 \<notin> set bs \<Longrightarrow>
    load_bytes (view (om_mem s)) a (Suc (length bs)) = bs @ [0] \<Longrightarrow>
    \<exists>m. read_name env n a s = (s\<lparr>om_mem := m\<rparr>, Inr (map (\<lambda>b. char_of (unat b)) bs)) \<and> inv m \<and> view m = view (om_mem s)"
proof (induction bs arbitrary: a s n)
  case Nil
  obtain k where k: "n = Suc k" using Nil.prems(3) by (cases n) auto
  have "admits a 1" using Nil.prems(2) [of 0] by simp
  then obtain m where m: "on_memory (read_u8 (oe_endian env) (oe_mem env) (plain_address a) AE_REGULAR) s = (s\<lparr>om_mem := m\<rparr>, Inr (view (om_mem s) a))"
    "inv m" "view m = view (om_mem s)"
    using read_byte [OF assms Nil.prems(1)] by blast
  then show ?case using Nil.prems(5) by (intro exI [of _ m]) (simp add: k load_bytes_Suc)
next
  case (Cons b bs)
  obtain k where k: "n = Suc k" "length bs < k" using Cons.prems(3) by (cases n) auto
  have "admits a 1" using Cons.prems(2) [of 0] by simp
  then obtain m where m: "on_memory (read_u8 (oe_endian env) (oe_mem env) (plain_address a) AE_REGULAR) s = (s\<lparr>om_mem := m\<rparr>, Inr (view (om_mem s) a))"
    "inv m" "view m = view (om_mem s)"
    using read_byte [OF assms Cons.prems(1)] by blast
  have adm: "\<And>i. i \<le> length bs \<Longrightarrow> admits (a + 1 + of_nat i) 1" using Cons.prems(2) [of "Suc i" for i] by (simp add: algebra_simps)
  have l: "view (om_mem s) a = b" "load_bytes (view (om_mem s)) (a + 1) (Suc (length bs)) = bs @ [0]"
    using Cons.prems(5) by (simp_all add: load_bytes_Suc)
  obtain m' where "read_name env k (a + 1) (s\<lparr>om_mem := m\<rparr>) = (s\<lparr>om_mem := m'\<rparr>, Inr (map (\<lambda>b. char_of (unat b)) bs))"
    "inv m'" "view m' = view (om_mem s)"
    using Cons.IH [of "s\<lparr>om_mem := m\<rparr>" "a + 1" k, OF _ adm k(2)] m Cons.prems(4) l(2) by auto
  then show ?case using m Cons.prems(4) l(1) by (intro exI [of _ m']) (simp add: k(1))
qed

lemma write_mem_stores:
  assumes "oe_mem env = ops"
  shows "inv (om_mem s) \<Longrightarrow> (\<And>i. i < length bs \<Longrightarrow> admits (a + of_nat i) 1) \<Longrightarrow>
    \<exists>m. write_mem_bytes env a bs s = (s\<lparr>om_mem := m\<rparr>, Inr ()) \<and> inv m \<and> view m = store_bytes (view (om_mem s)) a bs"
proof (induction bs arbitrary: a s)
  case Nil
  then show ?case by (intro exI [of _ "om_mem s"]) simp
next
  case (Cons b bs)
  have vb: "value_bytes (fm_endian ops) b = [b]" by (cases "fm_endian ops") (simp_all add: value_bytes_def le_bytes_def)
  obtain m c where m: "write_generic (oe_endian env) ops (plain_address a) b AE_REGULAR (om_mem s) = (m, Inr c)" "inv m"
    "view m = (view (om_mem s))(a := b)"
    using write_generic_contract [where a = "plain_address a" and v = b and host = "oe_endian env", OF Cons.prems(1)] Cons.prems(2) [of 0]
    by (auto simp: vb)
  have adm: "\<And>i. i < length bs \<Longrightarrow> admits (a + 1 + of_nat i) 1" using Cons.prems(2) [of "Suc i" for i] by (simp add: algebra_simps)
  obtain m' where m': "write_mem_bytes env (a + 1) bs (s\<lparr>om_mem := m\<rparr>) = (s\<lparr>om_mem := m'\<rparr>, Inr ())" "inv m'"
    "view m' = store_bytes (view m) (a + 1) bs"
    using Cons.IH [of "s\<lparr>om_mem := m\<rparr>" "a + 1", OF _ adm] m(2) by auto
  then show ?case using m assms by (intro exI [of _ m']) (simp add: on_memory_def accessor_defs)
qed

end

interpretation syscall_ram: syscall_memory "bus_ops (device_ops other) endian" ram.on_bus_inv ram.on_bus_view ram.on_bus_admits
  for other :: "'x backend_ops" and endian
  by (rule syscall_memory.intro) (rule ram.bus.frontend_contract_axioms)

lemma bytes_admitted:
  assumes "unat a + n \<le> 0xf0000000" "i < n"
  shows "ram.on_bus_admits (a + of_nat i) 1"
proof -
  have "unat (a + of_nat i) = unat a + i"
    using assms by (simp add: unat_word_ariths unsigned_of_nat take_bit_nat_eq_self)
  then show ?thesis
    unfolding ram.on_bus_admits_def using assms mod_less_divisor [of 256 "unat a + i"]
    by (simp add: ram_range_def range_contains_def memory_admits_def memory_constants word_le_nat_alt)
qed

section \<open>The terminal\<close>

text \<open>A terminal that gives the bytes of its input in order.\<close>

definition terminal_input :: "'h host_ops \<Rightarrow> ('h \<Rightarrow> byte list) \<Rightarrow> bool" where
  "terminal_input ops inp \<longleftrightarrow> (\<forall>h. case inp h of
     [] \<Rightarrow> snd (ho_rx_byte ops FD_TERMINAL h) = None \<and> inp (fst (ho_rx_byte ops FD_TERMINAL h)) = []
   | b # bs \<Rightarrow> snd (ho_rx_byte ops FD_TERMINAL h) = Some (ucast b) \<and> inp (fst (ho_rx_byte ops FD_TERMINAL h)) = bs)"

lemma read_terminal_input:
  assumes t: "terminal_input (oe_host env) inp"
  shows "\<exists>h. read_terminal env FD_TERMINAL nl n s =
      (s\<lparr>om_host := h\<rparr>, Inr (take n (inp (om_host s)) @ (if length (inp (om_host s)) < n then [if nl then 10 else 0] else []))) \<and>
    inp h = drop n (inp (om_host s))"
proof (induction n arbitrary: s)
  case 0
  then show ?case by (intro exI [of _ "om_host s"]) simp
next
  case (Suc n)
  obtain h r where h: "ho_rx_byte (oe_host env) FD_TERMINAL (om_host s) = (h, r)" by fastforce
  show ?case
  proof (cases "inp (om_host s)")
    case Nil
    then have "r = None" "inp h = []" using t [unfolded terminal_input_def, rule_format, of "om_host s"] h by simp_all
    then show ?thesis using h Nil by (intro exI [of _ h]) simp
  next
    case (Cons b bs)
    then have r: "r = Some (ucast b)" "inp h = bs" using t [unfolded terminal_input_def, rule_format, of "om_host s"] h by simp_all
    have "ucast (ucast b :: u32) = b" by (rule bit_word_eqI) (simp add: bit_simps)
    moreover from Suc.IH [of "s\<lparr>om_host := h\<rparr>"] obtain h' where "read_terminal env FD_TERMINAL nl n (s\<lparr>om_host := h\<rparr>) =
        (s\<lparr>om_host := h'\<rparr>, Inr (take n bs @ (if length bs < n then [if nl then 10 else 0] else [])))" "inp h' = drop n bs"
      using r(2) by auto
    ultimately show ?thesis using h r Cons by (intro exI [of _ h']) simp
  qed
qed

lemma small_result:
  assumes "n < 2 ^ 31"
  shows "result_errno_if_error env e (of_nat n) = of_nat n" "sint (of_nat n :: u32) = int n" "scast (of_nat n :: u32) = (of_nat n :: u64)"
    "status_from_result (of_nat n) = 0"
proof -
  have u: "uint (of_nat n :: u32) = int n" using assms by (simp add: unsigned_of_nat take_bit_int_eq_self take_bit_nat_eq_self)
  show si: "sint (of_nat n :: u32) = int n" unfolding sint_uint u using assms by (intro signed_take_bit_int_eq_self) auto
  have "(of_nat n :: u32) < - 4096" using u assms by (simp add: word_less_def)
  then show "result_errno_if_error env e (of_nat n) = of_nat n" by (simp add: result_errno_if_error_def)
  show "scast (of_nat n :: u32) = (of_nat n :: u64)" by (simp add: scast_eq si)
  have "ucast (of_nat n :: u64) = (of_nat n :: u32)" by (rule bit_word_eqI) (simp add: bit_simps)
  then show "status_from_result (of_nat n) = 0" using \<open>(of_nat n :: u32) < - 4096\<close> by (simp add: status_from_result_def)
qed

lemma read_write_a0: "registers_inv r \<Longrightarrow> read_gp (write_gp r 10 v) i = (if i = 10 then v else read_gp r i)"
  by (simp add: read_gp_def read_gp_internal_def write_gp_def registers_inv_def REGISTER_COUNT_def)

text \<open>The buffer of a call and its length.\<close>

definition call_buffer :: "('m, 'h) os_env \<Rightarrow> ('m, 'h) os_machine \<Rightarrow> address" where
  "call_buffer env s = get_xlen_from_reg (oe_xlen env) (read_gp (om_regs s) 11)"

definition call_size :: "('m, 'h) os_env \<Rightarrow> ('m, 'h) os_machine \<Rightarrow> nat" where
  "call_size env s = unat (ucast (get_xlen_from_reg (oe_xlen env) (read_gp (om_regs s) 12)) :: u32)"

text \<open>A host with an empty file system and a terminal whose input is a list, and a machine about to make a call.\<close>

definition sample_host :: "byte list host_ops" where
  "sample_host = \<lparr>ho_errno = map_of [(''ENOENT'', 2), (''EAGAIN'', 11), (''EOPNOTSUPP'', 95)], ho_flag = map_of [(''O_RDONLY'', 0), (''O_WRONLY'', 1)],
     ho_open_mode = 0x1b6, ho_open = (\<lambda>_ _ _ h. (h, Inl 2)), ho_close = (\<lambda>_ h. (h, Inr ())), ho_read = (\<lambda>_ _ h. (h, Inr [])),
     ho_write = (\<lambda>_ bs h. (h, Inr (length bs))), ho_ftruncate = (\<lambda>_ _ h. (h, Inr ())),
     ho_rx_byte = (\<lambda>_ h. case h of [] \<Rightarrow> ([], None) | b # bs \<Rightarrow> (bs, Some (ucast b)))\<rparr>"

definition sample_os_env :: "(unit device data_bus, byte list) os_env" where
  "sample_os_env = \<lparr>oe_xlen = XLEN_32, oe_endian = LITTLE, oe_mem = bus_ops (device_ops absent_device_ops) LITTLE, oe_host = sample_host,
     oe_name_bound = 256\<rparr>"

definition sample_call :: "register_value \<Rightarrow> (unit device data_bus, byte list) os_machine" where
  "sample_call num = \<lparr>om_os = os_syscall_new False False [], om_regs = \<lparr>reg_gp = (replicate 32 0)[10 := 1, 11 := 0x1000, 12 := 3, 17 := num], reg_pc = 0x200\<rparr>,
     om_mem = ram_bus, om_host = [0x61, 0x62], om_errno = 0, om_events = []\<rparr>"

lemma sample_regs [simp]:
  "read_gp (om_regs (sample_call n)) 10 = 1" "read_gp (om_regs (sample_call n)) 11 = 0x1000" "read_gp (om_regs (sample_call n)) 12 = 3"
  "read_gp (om_regs (sample_call n)) 17 = n" "registers_inv (om_regs (sample_call n))"
  by (simp_all add: sample_call_def read_gp_def read_gp_internal_def registers_inv_def REGISTER_COUNT_def)

lemma sample_state [simp]:
  "om_host (sample_call n) = [0x61, 0x62]" "om_events (sample_call n) = []" "known_syscall_stop (om_os (sample_call n)) = False"
  by (simp_all add: sample_call_def os_syscall_new_def)

lemma sample_facts:
  "oe_mem sample_os_env = bus_ops (device_ops absent_device_ops) LITTLE" "ram.on_bus_inv (om_mem (sample_call n))"
  "targetfd_to_fd (om_os (sample_call n)) 1 = FD_TERMINAL" "call_buffer sample_os_env (sample_call n) = 0x1000"
  "call_size sample_os_env (sample_call n) = 3" "terminal_input (oe_host sample_os_env) (\<lambda>h. h)"
proof -
  show "oe_mem sample_os_env = bus_ops (device_ops absent_device_ops) LITTLE" by (simp add: sample_os_env_def)
  show "ram.on_bus_inv (om_mem (sample_call n))" by (simp add: sample_call_def ram_bus_inv)
  show "targetfd_to_fd (om_os (sample_call n)) 1 = FD_TERMINAL" by (simp add: sample_call_def targetfd_to_fd_def os_syscall_new_def)
  show "call_buffer sample_os_env (sample_call n) = 0x1000" "call_size sample_os_env (sample_call n) = 3"
    by (simp_all add: call_buffer_def call_size_def sample_os_env_def get_xlen_from_reg_def as_u32_def)
  show "terminal_input (oe_host sample_os_env) (\<lambda>h. h)" by (simp add: terminal_input_def sample_os_env_def sample_host_def split: list.split)
qed

section \<open>Properties\<close>

text \<open>
  Claim C26: a system call changes no register but a0 (x10), whether it returns or throws, nor the program counter, nor the
  root of the file system; when it returns, a0 is the result of its handler, as no handler returns a negative
  status.
\<close>

theorem syscall_changes_only_a0:
  assumes "registers_inv (om_regs s)" "os_handle_exception env s = (s', r)"
  shows "(\<forall>i. i \<noteq> 10 \<longrightarrow> read_gp (om_regs s') i = read_gp (om_regs s) i) \<and> read_pc (om_regs s') = read_pc (om_regs s) \<and>
    fs_root (om_os s') = fs_root (om_os s) \<and>
    (\<forall>b. r = Inr b \<longrightarrow> b \<and> (\<exists>s1 st result. call_handler env (fst (snd (rv_syscall_args ! unat (read_gp (om_regs s) 17)))) (read_gp (om_regs s) 10) (read_gp (om_regs s) 11) (read_gp (om_regs s) 12)
       (read_gp (om_regs s) 13) (read_gp (om_regs s) 14) (read_gp (om_regs s) 15) s = (s1, Inr (st, result)) \<and> read_gp (om_regs s') 10 = result)) \<and>
    (\<forall>e. r = Inl e \<longrightarrow> om_regs s' = om_regs s)"
proof (cases "unat (read_gp (om_regs s) 17) < length rv_syscall_args")
  case False
  then show ?thesis using assms(2) by (auto simp: os_handle_exception_def Let_def)
next
  case True
  define h where "h = fst (snd (rv_syscall_args ! unat (read_gp (om_regs s) 17)))"
  define f where "f = call_handler env h (read_gp (om_regs s) 10) (read_gp (om_regs s) 11) (read_gp (om_regs s) 12)
       (read_gp (om_regs s) 13) (read_gp (om_regs s) 14) (read_gp (om_regs s) 15)"
  obtain s1 r1 where f: "f s = (s1, r1)" by fastforce
  have fr: "os_frame (om_regs s) (fs_root (om_os s)) s" by (simp add: os_frame_def)
  have k: "keeps (om_regs s) (fs_root (om_os s)) f" unfolding f_def by (rule keeps_handlers)
  have s1: "om_regs s1 = om_regs s" "fs_root (om_os s1) = fs_root (om_os s)" using act_okD [OF k fr f] by (simp_all add: os_frame_def)
  have st: "r1 = Inr x \<Longrightarrow> nonneg_status x" for x
    using act_ok_result [OF status_handlers TrueI] f unfolding f_def by blast
  have e: "os_handle_exception env s = act_bind f (\<lambda>r. act_bind (stop_when known_syscall_stop) (\<lambda>_. finish_syscall r)) s"
    using True by (simp add: os_handle_exception_def Let_def f_def h_def)
  show ?thesis
  proof (cases r1)
    case (Inl x)
    then show ?thesis using assms(2) e f s1 by auto
  next
    case (Inr x)
    define s2 where "s2 = (if known_syscall_stop (om_os s1) then s1\<lparr>om_events := om_events s1 @ [StopReached]\<rparr> else s1)"
    then have s2: "stop_when known_syscall_stop s1 = (s2, Inr ())" "om_regs s2 = om_regs s" "om_os s2 = om_os s1"
      using s1 by (simp_all add: stop_when_def os_emit_def)
    have "\<not> sint (fst x) < 0" using st [OF Inr] by (simp add: nonneg_status_def)
    then have r: "r = Inr True" "s' = s2\<lparr>om_regs := write_gp (om_regs s) 10 (snd x)\<rparr>"
      using assms(2) e f Inr s2 by (auto simp: finish_syscall_def)
    have "\<exists>s1 st. call_handler env h (read_gp (om_regs s) 10) (read_gp (om_regs s) 11) (read_gp (om_regs s) 12)
       (read_gp (om_regs s) 13) (read_gp (om_regs s) 14) (read_gp (om_regs s) 15) s = (s1, Inr (st, snd x))"
      using f Inr unfolding f_def by (metis prod.collapse)
    then show ?thesis using r s1 s2 by (auto simp: h_def read_write_a0 [OF assms(1)])
  qed
qed

theorem syscall_changes_only_a0_witness:
  "read_gp (om_regs (fst (os_handle_exception sample_os_env (sample_call 64)))) 11 = 0x1000 \<and>
   read_pc (om_regs (fst (os_handle_exception sample_os_env (sample_call 64)))) = 0x200"
proof -
  obtain s' r where e: "os_handle_exception sample_os_env (sample_call 64) = (s', r)" by fastforce
  have "read_pc (om_regs (sample_call 64)) = 0x200" by (simp add: sample_call_def read_pc_def)
  then show ?thesis using syscall_changes_only_a0 [OF sample_regs(5) e] e by simp
qed

text \<open>
  Claim C28: \<^verbatim>\<open>write\<close> to the terminal sends exactly the bytes of the buffer in the memory, in order, changes no byte of the memory
  and returns their number.
\<close>

theorem sys_write_terminal:
  fixes other :: "'x backend_ops"
  assumes "oe_mem env = bus_ops (device_ops other) endian" "ram.on_bus_inv (om_mem s)"
    and "read_gp (om_regs s) 17 = 64" "targetfd_to_fd (om_os s) (ucast (read_gp (om_regs s) 10)) = FD_TERMINAL"
    and "unat (call_buffer env s) + call_size env s \<le> 0xf0000000" "call_size env s < 2 ^ 31"
  shows "\<exists>m. os_handle_exception env s =
      (s\<lparr>om_mem := m,
         om_events := om_events s @ map (\<lambda>b. CharWritten FD_TERMINAL (ucast b)) (load_bytes (ram.on_bus_view (om_mem s)) (call_buffer env s) (call_size env s)) @
           (if known_syscall_stop (om_os s) then [StopReached] else []),
         om_regs := write_gp (om_regs s) 10 (of_nat (call_size env s))\<rparr>, Inr True) \<and>
    ram.on_bus_inv m \<and> ram.on_bus_view m = ram.on_bus_view (om_mem s)"
proof -
  let ?n = "call_size env s" and ?a = "call_buffer env s"
  have h: "unat (64 :: u64) < length rv_syscall_args" "fst (snd (rv_syscall_args ! unat (64 :: u64))) = Sys_write"
    by (simp_all add: rv_syscall_args_def)
  obtain m where m: "read_mem env ?a ?n s = (s\<lparr>om_mem := m\<rparr>, Inr (load_bytes (ram.on_bus_view (om_mem s)) ?a ?n))" "ram.on_bus_inv m"
    "ram.on_bus_view m = ram.on_bus_view (om_mem s)"
    using syscall_ram.read_mem_bytes [OF assms(1,2) bytes_admitted [OF assms(5)]] by blast
  have "FD_TERMINAL \<noteq> FD_UNUSED" "FD_TERMINAL \<noteq> FD_INVALID" by (simp_all add: FD_TERMINAL_def FD_UNUSED_def FD_INVALID_def)
  then show ?thesis using m assms(3,4) h small_result(1) [OF assms(6), of env "om_errno s"] small_result(2-4) [OF assms(6)]
    by (intro exI [of _ m])
      (simp add: os_handle_exception_def call_handler_def do_sys_write_def with_fd_def write_io_def os_emit_def os_result_def with_status_def
        stop_when_def finish_syscall_def Let_def call_size_def [symmetric] call_buffer_def [symmetric])
qed

theorem sys_write_terminal_witness:
  "\<exists>s'. os_handle_exception sample_os_env (sample_call 64) = (s', Inr True) \<and> length (om_events s') = 3 \<and> read_gp (om_regs s') 10 = 3"
proof -
  from sys_write_terminal [OF sample_facts(1,2), of 64] obtain m where
    "os_handle_exception sample_os_env (sample_call 64) = ((sample_call 64)\<lparr>om_mem := m, om_events := om_events (sample_call 64) @
      map (\<lambda>b. CharWritten FD_TERMINAL (ucast b)) (load_bytes (ram.on_bus_view (om_mem (sample_call 64))) 0x1000 3) @
      (if known_syscall_stop (om_os (sample_call 64)) then [StopReached] else []), om_regs := write_gp (om_regs (sample_call 64)) 10 3\<rparr>, Inr True)"
    using sample_facts(3-5) [of 64] by auto
  then show ?thesis by (simp add: read_write_a0)
qed

text \<open>
  Claim C29: \<^verbatim>\<open>read\<close> from the terminal stores the next bytes of its input, as many as were asked for, takes them from the input
  and returns their number.  When the input is shorter, a new line follows it and counts, so at the end of the
  input one byte is read where a program expects none.
\<close>

theorem sys_read_terminal:
  fixes other :: "'x backend_ops"
  assumes "oe_mem env = bus_ops (device_ops other) endian" "ram.on_bus_inv (om_mem s)" "terminal_input (oe_host env) inp"
    and "read_gp (om_regs s) 17 = 63" "targetfd_to_fd (om_os s) (ucast (read_gp (om_regs s) 10)) = FD_TERMINAL"
    and "unat (call_buffer env s) + call_size env s \<le> 0xf0000000" "call_size env s < 2 ^ 31"
    and data: "data = take (call_size env s) (inp (om_host s)) @ (if length (inp (om_host s)) < call_size env s then [10] else [])"
  shows "\<exists>m h. os_handle_exception env s =
      (s\<lparr>om_mem := m, om_host := h, om_events := om_events s @ (if known_syscall_stop (om_os s) then [StopReached] else []),
         om_regs := write_gp (om_regs s) 10 (of_nat (length data))\<rparr>, Inr True) \<and>
    ram.on_bus_view m = store_bytes (ram.on_bus_view (om_mem s)) (call_buffer env s) data \<and>
    inp h = drop (call_size env s) (inp (om_host s))"
proof -
  let ?n = "call_size env s" and ?a = "call_buffer env s"
  have h: "unat (63 :: u64) < length rv_syscall_args" "fst (snd (rv_syscall_args ! unat (63 :: u64))) = Sys_read"
    by (simp_all add: rv_syscall_args_def)
  obtain host where t: "read_terminal env FD_TERMINAL True ?n s = (s\<lparr>om_host := host\<rparr>, Inr data)" "inp host = drop ?n (inp (om_host s))"
    using read_terminal_input [OF assms(3), of True ?n s] by (auto simp: data)
  have len: "length data \<le> ?n" by (simp add: data)
  then have small: "length data < 2 ^ 31" "take ?n data = data" using assms(7) by simp_all
  have "ram.on_bus_admits (?a + of_nat i) 1" if "i < length data" for i
    using bytes_admitted [OF assms(6)] that len by simp
  then obtain m where m: "write_mem_bytes env ?a data (s\<lparr>om_host := host\<rparr>) = (s\<lparr>om_host := host, om_mem := m\<rparr>, Inr ())"
    "ram.on_bus_view m = store_bytes (ram.on_bus_view (om_mem s)) ?a data"
    using syscall_ram.write_mem_stores [OF assms(1), of "s\<lparr>om_host := host\<rparr>" data ?a] assms(2) by auto
  have "FD_TERMINAL \<noteq> FD_UNUSED" "FD_TERMINAL \<noteq> FD_INVALID" by (simp_all add: FD_TERMINAL_def FD_UNUSED_def FD_INVALID_def)
  then show ?thesis
    using m t small(2) assms(4,5) h small_result(1) [OF small(1), of env "om_errno s"] small_result(2-4) [OF small(1)]
    by (intro exI [of _ m] exI [of _ host])
      (simp add: os_handle_exception_def call_handler_def do_sys_read_def with_fd_def read_io_def os_result_def with_status_def write_mem_def
        stop_when_def os_emit_def finish_syscall_def Let_def call_size_def [symmetric] call_buffer_def [symmetric])
qed

theorem sys_read_terminal_witness:
  "\<exists>s'. os_handle_exception sample_os_env (sample_call 63) = (s', Inr True) \<and> read_gp (om_regs s') 10 = 3 \<and> om_host s' = [] \<and>
     load_bytes (ram.on_bus_view (om_mem s')) 0x1000 3 = [0x61, 0x62, 10]"
proof -
  have d: "[0x61, 0x62, 10] = take (call_size sample_os_env (sample_call 63)) (om_host (sample_call 63)) @
      (if length (om_host (sample_call 63)) < call_size sample_os_env (sample_call 63) then [10] else [])"
    by (simp add: sample_facts)
  from sys_read_terminal [OF sample_facts(1,2,6) _ _ _ _ d] obtain m h where
    "os_handle_exception sample_os_env (sample_call 63) = ((sample_call 63)\<lparr>om_mem := m, om_host := h, om_events := om_events (sample_call 63) @
      (if known_syscall_stop (om_os (sample_call 63)) then [StopReached] else []), om_regs := write_gp (om_regs (sample_call 63)) 10 3\<rparr>, Inr True)"
    "ram.on_bus_view m = store_bytes (ram.on_bus_view (om_mem (sample_call 63))) 0x1000 [0x61, 0x62, 10]" "h = []"
    using sample_facts(3-5) [of 63] by auto
  moreover have "load_bytes (store_bytes v 0x1000 [0x61, 0x62, 10]) 0x1000 3 = [0x61, 0x62, 10]" for v :: "u64 \<Rightarrow> byte"
    by (simp add: load_bytes_def upt_rec)
  ultimately show ?thesis by (simp add: read_write_a0)
qed

text \<open>
  A new descriptor is the lowest that is not in use; it is then looked up as the file of the host it was made for,
  no other descriptor changes, and closing it restores what was looked up before.
\<close>

lemma descriptor_allocation:
  assumes "allocate_fd val s = (s', i)" "length (fd_mapping s) < 2 ^ 31 - 1"
  shows "targetfd_to_fd s (of_nat i) = FD_INVALID \<and> (\<forall>j < i. targetfd_to_fd s (of_nat j) \<noteq> FD_INVALID) \<and>
    (\<forall>w. targetfd_to_fd s' w = (if w = of_nat i then val else targetfd_to_fd s w)) \<and>
    (\<forall>w. targetfd_to_fd (close_fd (of_nat i) s') w = targetfd_to_fd s w)"
proof -
  have first: "first_unused fs = Some k \<Longrightarrow> k < length fs \<and> fs ! k = FD_UNUSED \<and> (\<forall>j<k. fs ! j \<noteq> FD_UNUSED)"
    "first_unused fs = None \<Longrightarrow> FD_UNUSED \<notin> set fs" for fs k
    by (induction fs arbitrary: k) (auto simp: less_Suc_eq_0_disj split: if_splits)
  have nat_of: "sint (of_nat k :: u32) = int k" if "k < 2 ^ 31" for k using small_result(2) [OF that] .
  have inj: "w = (of_nat k :: u32) \<longleftrightarrow> sint w = int k" if "k < 2 ^ 31" for w k
    using nat_of [OF that] by (metis signed_word_eqI)
  let ?fs = "fd_mapping s"
  show ?thesis
  proof (cases "first_unused ?fs")
    case None
    then have s: "s' = s\<lparr>fd_mapping := ?fs @ [val]\<rparr>" "i = length ?fs" using assms(1) by (auto simp: allocate_fd_def)
    have u: "?fs ! j \<noteq> FD_UNUSED" if "j < length ?fs" for j using first(2) [OF None] that by (metis nth_mem)
    from s assms(2) have i: "i < 2 ^ 31" by simp
    have "Suc 0 \<le> nat (sint w)" if "w \<noteq> 0" "\<not> sint w < 0" for w :: u32
    proof -
      have "sint w \<noteq> 0" using that(1) by (metis signed_0 signed_word_eqI)
      with that(2) show ?thesis by linarith
    qed
    then show ?thesis using u s assms(2) nat_of inj [OF i]
      by (auto simp: targetfd_to_fd_def close_fd_def FD_UNUSED_def FD_INVALID_def nth_append list_update_append)
  next
    case (Some k)
    then have s: "s' = s\<lparr>fd_mapping := ?fs[i := val]\<rparr>" "i = k" using assms(1) by (auto simp: allocate_fd_def)
    note f = first(1) [OF Some]
    from f s assms(2) have i: "i < 2 ^ 31" by simp
    show ?thesis using f s assms(2) nat_of inj [OF i]
      by (auto simp: targetfd_to_fd_def close_fd_def FD_UNUSED_def FD_INVALID_def nth_list_update)
  qed
qed

lemma descriptor_bound:
  assumes "allocate_fd val s = (s', i)"
  shows "i \<le> length (fd_mapping s)"
proof -
  have "first_unused fs = Some k \<Longrightarrow> k < length fs" for fs k by (induction fs arbitrary: k) (auto split: if_splits)
  from this [of "fd_mapping s" i] show ?thesis using assms by (auto simp: allocate_fd_def split: option.splits)
qed

text \<open>
  Claim C27: \<^verbatim>\<open>openat\<close> in the working directory returns when the name ends within the bound: it hands the host the name read
  from the memory, below the root directory, and the translated flags; when the host opens the file, a0 is the lowest descriptor
  that was free, it stands for the file from now on, the other descriptors are kept and no byte of the memory changes.
\<close>

theorem sys_openat_opens:
  fixes other :: "'x backend_ops"
  assumes "oe_mem env = bus_ops (device_ops other) endian" "ram.on_bus_inv (om_mem s)" "registers_inv (om_regs s)"
    and "read_gp (om_regs s) 17 = 56" "read_gp (om_regs s) 10 = TARGET_AT_FDCWD" "fs_root (om_os s) \<noteq> []"
    and name: "load_bytes (ram.on_bus_view (om_mem s)) (call_buffer env s) (Suc (length bs)) = bs @ [0]" "0 \<notin> set bs"
    and "length bs < oe_name_bound env" "unat (call_buffer env s) + Suc (length bs) \<le> 0xf0000000"
    and host: "ho_open (oe_host env) (filepath_to_host (fs_root (om_os s)) (map (\<lambda>b. char_of (unat b)) bs))
      (host_flags env (ucast (read_gp (om_regs s) 12))) (ho_open_mode (oe_host env)) (om_host s) = (h, Inr fd)"
    and "length (fd_mapping (om_os s)) < 2 ^ 31 - 1"
  shows "\<exists>s' i. os_handle_exception env s = (s', Inr True) \<and> read_gp (om_regs s') 10 = of_nat i \<and> om_host s' = h \<and>
    ram.on_bus_view (om_mem s') = ram.on_bus_view (om_mem s) \<and>
    targetfd_to_fd (om_os s) (of_nat i) = FD_INVALID \<and> (\<forall>j < i. targetfd_to_fd (om_os s) (of_nat j) \<noteq> FD_INVALID) \<and>
    (\<forall>w. targetfd_to_fd (om_os s') w = (if w = of_nat i then fd else targetfd_to_fd (om_os s) w))"
proof -
  have sys: "unat (56 :: u64) < length rv_syscall_args" "fst (snd (rv_syscall_args ! unat (56 :: u64))) = Sys_openat"
    by (simp_all add: rv_syscall_args_def)
  let ?a = "call_buffer env s" and ?f = "map (\<lambda>b. char_of (unat b)) bs"
  obtain m where m: "read_name env (oe_name_bound env) ?a s = (s\<lparr>om_mem := m\<rparr>, Inr ?f)" "ram.on_bus_view m = ram.on_bus_view (om_mem s)"
    using syscall_ram.read_name_returns [OF assms(1,2) bytes_admitted [OF assms(10)] assms(9) name(2,1)] by fastforce
  obtain os i where al: "allocate_fd fd (om_os s) = (os, i)" by fastforce
  note d = descriptor_allocation [OF al assms(12)]
  have i: "i < 2 ^ 31" using descriptor_bound [OF al] assms(12) by simp
  have stop: "known_syscall_stop os = known_syscall_stop (om_os s)" using al by (auto simp: allocate_fd_def split: option.splits)
  let ?s = "s\<lparr>om_mem := m, om_host := h, om_os := os,
    om_events := om_events s @ (if known_syscall_stop (om_os s) then [StopReached] else []), om_regs := write_gp (om_regs s) 10 (of_nat i)\<rparr>"
  have "os_handle_exception env s = (?s, Inr True)"
    using m host al stop assms(4-6) sys small_result(2-4) [OF i]
    by (simp add: os_handle_exception_def call_handler_def do_sys_openat_def call_buffer_def [symmetric] file_open_def host_call_def
        os_allocate_fd_def with_status_def stop_when_def os_emit_def finish_syscall_def Let_def)
  then show ?thesis using d m by (intro exI [of _ ?s] exI [of _ i]) (simp add: read_write_a0 [OF assms(3)])
qed

definition sample_open_env :: "(unit device data_bus, byte list) os_env" where
  "sample_open_env = sample_os_env\<lparr>oe_host := sample_host\<lparr>ho_open := \<lambda>fname flags mode h. (h, if fname = ''/srv/a'' then Inr 7 else Inl 2)\<rparr>\<rparr>"

definition sample_open :: "unit device data_bus \<Rightarrow> (unit device data_bus, byte list) os_machine" where
  "sample_open m = (sample_call 56)\<lparr>om_mem := m, om_os := os_syscall_new False False ''/srv'',
     om_regs := write_gp (om_regs (sample_call 56)) 10 TARGET_AT_FDCWD\<rparr>"

text \<open>A file is opened by the name \<^verbatim>\<open>../a\<close>.\<close>

theorem sys_openat_opens_witness:
  "\<exists>m s' i. load_bytes (ram.on_bus_view m) 0x1000 5 = [0x2e, 0x2e, 0x2f, 0x61, 0] \<and>
     os_handle_exception sample_open_env (sample_open m) = (s', Inr True) \<and> targetfd_to_fd (om_os s') (of_nat i) = 7"
proof -
  let ?bs = "[0x2e, 0x2e, 0x2f, 0x61 :: byte]"
  have e: "oe_mem sample_open_env = bus_ops (device_ops absent_device_ops) LITTLE" by (simp add: sample_open_env_def sample_os_env_def)
  have adm: "\<And>i. i < length (?bs @ [0]) \<Longrightarrow> ram.on_bus_admits (0x1000 + of_nat i) 1" by (intro bytes_admitted [of _ 5]) simp_all
  obtain m :: "unit device data_bus" where m: "ram.on_bus_inv m"
    "ram.on_bus_view m = store_bytes (ram.on_bus_view (om_mem (sample_call 56))) 0x1000 (?bs @ [0])"
    using syscall_ram.write_mem_stores [OF sample_facts(1,2) adm, of "?bs @ [0]" 56] by fast
  have ld: "load_bytes (store_bytes v 0x1000 [0x2e, 0x2e, 0x2f, 0x61, 0]) 0x1000 5 = [0x2e, 0x2e, 0x2f, 0x61, 0]" for v :: "u64 \<Rightarrow> byte"
    by (simp add: load_bytes_def upt_rec)
  have nm: "load_bytes (ram.on_bus_view m) 0x1000 (Suc (length ?bs)) = ?bs @ [0]" unfolding m(2) using ld by (simp add: numeral_eq_Suc)
  have st: "call_buffer sample_open_env (sample_open m) = 0x1000" "om_mem (sample_open m) = m" "registers_inv (om_regs (sample_open m))"
    "read_gp (om_regs (sample_open m)) 17 = 56" "read_gp (om_regs (sample_open m)) 10 = TARGET_AT_FDCWD" "fs_root (om_os (sample_open m)) = ''/srv''"
    "oe_name_bound sample_open_env = 256" "length (fd_mapping (om_os (sample_open m))) = 3"
    by (simp_all add: call_buffer_def sample_open_env_def sample_os_env_def sample_open_def sample_call_def os_syscall_new_def
        read_gp_def read_gp_internal_def write_gp_def registers_inv_def REGISTER_COUNT_def get_xlen_from_reg_def as_u32_def)
  have "filepath_to_host ''/srv'' (map (\<lambda>b. char_of (unat b)) ?bs) = ''/srv/a''" by code_simp
  then have "ho_open (oe_host sample_open_env) (filepath_to_host (fs_root (om_os (sample_open m))) (map (\<lambda>b. char_of (unat b)) ?bs))
      fl mode h = (h, Inr 7)" for fl mode h
    unfolding st by (simp add: sample_open_env_def)
  from sys_openat_opens [OF e, of "sample_open m", OF _ _ _ _ _ _ _ _ _ this]
  obtain s' i where "os_handle_exception sample_open_env (sample_open m) = (s', Inr True)"
    "\<forall>w. targetfd_to_fd (om_os s') w = (if w = of_nat i then 7 else targetfd_to_fd (om_os (sample_open m)) w)"
    using m nm st by auto
  then show ?thesis using m(2) ld by (intro exI [of _ m] exI [of _ s'] exI [of _ i]) simp
qed

text \<open>Calls of \<^verbatim>\<open>mmap\<close> with the given lengths, and the addresses they return.\<close>

fun run_mmaps :: "('m, 'h) os_env \<Rightarrow> u64 list \<Rightarrow> ('m, 'h, u64 list) os" where
  "run_mmaps env [] = act_return []"
| "run_mmaps env (l # ls) = act_bind (call_handler env Sys_mmap 0 l 3 0x22 (- 1) 0) (\<lambda>(st, a).
     act_bind (run_mmaps env ls) (\<lambda>as. act_return (a # as)))"

lemma run_mmaps_addresses:
  assumes "uint (anonymous_last (om_os s)) + (\<Sum>l\<leftarrow>ls. uint l) < 2 ^ 32"
  shows "\<exists>s' as. run_mmaps env ls s = (s', Inr as) \<and> length as = length ls \<and>
    (\<forall>i < length ls. uint (as ! i) = uint (anonymous_last (om_os s)) + (\<Sum>l\<leftarrow>take i ls. uint l))"
  using assms
proof (induction ls arbitrary: s)
  case (Cons l ls)
  let ?a = "anonymous_last (om_os s)"
  let ?s = "s\<lparr>om_os := (om_os s)\<lparr>anonymous_last := ?a + ucast l\<rparr>\<rparr>"
  have nn: "0 \<le> (\<Sum>l\<leftarrow>ls. uint l)" by (rule sum_list_nonneg) auto
  then have le: "uint ?a + uint l < 2 ^ 32" using Cons.prems by simp
  then have "uint l < 2 ^ 32" by (rule order.strict_trans1 [rotated]) simp
  then have "uint (ucast l :: u32) = uint l" by (simp add: unsigned_ucast_eq take_bit_int_eq_self)
  then have last: "uint (?a + ucast l) = uint ?a + uint l" using le by (simp add: uint_word_ariths)
  obtain s' as where r: "run_mmaps env ls ?s = (s', Inr as)" "length as = length ls"
    "\<forall>i < length ls. uint (as ! i) = uint (?a + ucast l) + (\<Sum>l\<leftarrow>take i ls. uint l)"
    using Cons.IH [of ?s] Cons.prems last by auto
  have "uint (ucast ?a :: u64) = uint ?a" by (rule uint_up_ucast) (simp add: is_up)
  then show ?case using r last
    by (intro exI [of _ s'] exI [of _ "ucast ?a # as"])
      (auto simp: call_handler_def do_sys_mmap_def nth_Cons split: nat.split)
qed simp

text \<open>
  As long as the lengths do not exceed the 32-bit address space above the base, every call of \<^verbatim>\<open>mmap\<close> returns a region behind
  all regions returned before: no two of them overlap.
\<close>

lemma mmap_regions_disjoint:
  assumes "uint (anonymous_last (om_os s)) + (\<Sum>l\<leftarrow>ls. uint l) < 2 ^ 32"
  shows "\<exists>s' as. run_mmaps env ls s = (s', Inr as) \<and> length as = length ls \<and>
    (\<forall>i j. i < j \<and> j < length ls \<longrightarrow> uint (as ! i) + uint (ls ! i) \<le> uint (as ! j))"
proof -
  obtain s' as where r: "run_mmaps env ls s = (s', Inr as)" "length as = length ls"
    "\<forall>i < length ls. uint (as ! i) = uint (anonymous_last (om_os s)) + (\<Sum>l\<leftarrow>take i ls. uint l)"
    using run_mmaps_addresses [OF assms] by blast
  have "uint (as ! i) + uint (ls ! i) \<le> uint (as ! j)" if "i < j" "j < length ls" for i j
  proof -
    have "take j ls = take (Suc i) ls @ take (j - Suc i) (drop (Suc i) ls)"
      using that by (metis Suc_leI le_add_diff_inverse take_add)
    moreover have "take (Suc i) ls = take i ls @ [ls ! i]" using that by (simp add: take_Suc_conv_app_nth)
    moreover have "0 \<le> (\<Sum>l\<leftarrow>take (j - Suc i) (drop (Suc i) ls). uint l)" by (rule sum_list_nonneg) auto
    ultimately show ?thesis using r(3) that by simp
  qed
  with r show ?thesis by blast
qed

text \<open>
  A call without a handler returns zero: its status \<^verbatim>\<open>ENOSYS\<close> is positive, and only negative ones are written to the register.
\<close>

lemma unimplemented_call_returns_zero:
  assumes "registers_inv (om_regs s)" "unat (read_gp (om_regs s) 17) < length rv_syscall_args"
    and "fst (snd (rv_syscall_args ! unat (read_gp (om_regs s) 17))) = Sys_default"
  shows "\<exists>s'. os_handle_exception env s = (s', Inr True) \<and> read_gp (om_regs s') 10 = 0"
  using assms
  by (cases "unknown_syscall_stop (om_os s)"; cases "known_syscall_stop (om_os s)")
    (simp_all add: os_handle_exception_def call_handler_def syscall_default_handler_def stop_when_def os_emit_def finish_syscall_def
      TARGET_ENOSYS_def read_write_a0 act_bind_def Let_def)

text \<open>The numbers of errors that a program gets are negative and above -4096.\<close>

lemma errno_targets: "list_all (\<lambda>(n, t). case t of Inl v \<Rightarrow> 0 < v \<and> v < 4096 | Inr c \<Rightarrow> c \<in> {''EOPNOTSUPP'', ''EAGAIN''}) errno_table"
  by (simp add: errno_table_def)


lemma errno_map_range:
  assumes "\<And>c v. c \<in> {''EOPNOTSUPP'', ''EAGAIN''} \<Longrightarrow> host c = Some v \<Longrightarrow> 0 < v \<and> v < 4096"
  shows "0 \<le> errno_map host e \<and> errno_map host e < 4096"
proof (cases "map_of (rev (List.map_filter (errno_entry host) errno_table)) e")
  case (Some t)
  then have "(e, t) \<in> set (List.map_filter (errno_entry host) errno_table)" using map_of_SomeD by fastforce
  then obtain n x where x: "(n, x) \<in> set errno_table" "errno_entry host (n, x) = Some (e, t)"
    by (auto simp: List.map_filter_def)
  have "case x of Inl v \<Rightarrow> 0 < v \<and> v < 4096 | Inr c \<Rightarrow> c \<in> {''EOPNOTSUPP'', ''EAGAIN''}"
    using bspec [OF errno_targets [unfolded list_all_iff] x(1)] by (cases x) auto
  then show ?thesis using Some x(2) assms
    by (cases x) (fastforce simp: errno_map_def errno_entry_def split: option.splits)+
qed (simp add: errno_map_def)

text \<open>
  An error number of the host reaches the program as a negative number above -4096, whatever the error, when the
  two constants of the host that the table uses are in range.
\<close>

lemma errno_result_range:
  assumes "\<And>c v. c \<in> {''EOPNOTSUPP'', ''EAGAIN''} \<Longrightarrow> ho_errno (oe_host env) c = Some v \<Longrightarrow> 0 < v \<and> v < 4096"
  shows "- 4096 < sint (result_errno_if_error env e (- 1)) \<and> sint (result_errno_if_error env e (- 1)) < 0"
proof -
  let ?t = "errno_map (ho_errno (oe_host env)) e"
  have t: "0 \<le> ?t" "?t < 4096" using errno_map_range [OF assms, where e = e] by auto
  show ?thesis
  proof (cases "?t = 0")
    case False
    have s: "sint (word_of_int (- ?t) :: u32) = - ?t"
      unfolding signed_of_int using t by (simp add: signed_take_bit_int_eq_self)
    then have "(word_of_int (- ?t) :: u32) \<noteq> 0" using False by auto
    then show ?thesis using s t False by (simp add: result_errno_if_error_def Let_def)
  qed (simp add: result_errno_if_error_def)
qed

end
