(* ===== verification/Program_Loader.thy ===== *)
theory Program_Loader
  imports Machine_Config Backend_Memory Symbol_Table
begin

text \<open>
  The loader of executables (\<^verbatim>\<open>src/src/machine/programloader.cpp\<close>) and the part of the constructor of a machine
  that uses it (\<^verbatim>\<open>src/src/machine/machine.cpp\<close>).

  A file in the format ELF is read by a library; what it found is the record \<open>elf_file\<close>: the header, the segments with
  the result of asking for their data, and the sections with their symbols.  Types and classes are the numbers of the format.
\<close>

section \<open>The file\<close>

record elf_segment =
  seg_type :: nat
  seg_vaddr :: u64
  seg_filesz :: u64
  seg_data :: "byte list result"

record elf_symbol =
  esym_name :: string
  esym_value :: u64
  esym_size :: u64
  esym_info :: u8
  esym_other :: u8

record elf_section =
  sec_type :: nat
  sec_symbols :: "elf_symbol list"

record elf_file =
  elf_type :: nat
  elf_machine :: nat
  elf_class :: nat
  elf_data :: nat
  elf_entry :: u64
  elf_segments :: "elf_segment list"
  elf_sections :: "elf_section list"

definition EM_RISCV :: nat where "EM_RISCV = 243"

text \<open>
  The files of the host: a name without a file that can be opened gives \<^term>\<open>None\<close>, a file that can be opened but not
  mapped into memory (such as an empty one) \<^term>\<open>Some None\<close>, and any other its bytes.
\<close>

type_synonym host_files = "string \<Rightarrow> byte list option option"

definition mem_loader_new :: "host_files \<Rightarrow> string \<Rightarrow> byte list result" where
  "mem_loader_new files fname = (case files fname of
     None \<Rightarrow> Inl Input
   | Some None \<Rightarrow> Inl Input
   | Some (Some mapped) \<Rightarrow> Inr mapped)"

text \<open>
  The bytes that the library asks for.  The sum of position and length wraps around; a position behind the end of the file
  then leaves the mapped region.
\<close>

definition mem_loader_load :: "byte list \<Rightarrow> u64 \<Rightarrow> u64 \<Rightarrow> byte list result" where
  "mem_loader_load mapped offset len =
     (if length mapped < unat (offset + len) then Inl Sanity
      else if length mapped < unat offset + unat len then Inl UndefinedBehaviour
      else Inr (take (unat len) (drop (unat offset) mapped)))"

section \<open>The loader\<close>

datatype ArchitectureType = ARCH32 | ARCH64

record ProgramLoader =
  pl_elf :: elf_file
  pl_architecture_type :: ArchitectureType
  pl_executable_entry :: address
  pl_load_segments :: "elf_segment list"

text \<open>The library parses the bytes of the file or fails.\<close>

definition program_loader_new :: "(byte list \<Rightarrow> elf_file option) \<Rightarrow> host_files \<Rightarrow> string \<Rightarrow> ProgramLoader result" where
  "program_loader_new parse files fname =
     res_bind (mem_loader_new files fname) (\<lambda>bs.
     case parse bs of
       None \<Rightarrow> Inl Input
     | Some elf \<Rightarrow>
         if elf_type elf \<noteq> 2 then Inl Input
         else if elf_machine elf \<noteq> EM_RISCV then Inl Input
         else if elf_class elf \<noteq> 1 \<and> elf_class elf \<noteq> 2 then Inl Input
         else Inr \<lparr>pl_elf = elf, pl_architecture_type = (if elf_class elf = 1 then ARCH32 else ARCH64),
                   pl_executable_entry = elf_entry elf, pl_load_segments = filter (\<lambda>s. seg_type s = 1) (elf_segments elf)\<rparr>)"

definition memory_write_u8 :: "memory \<Rightarrow> u64 \<Rightarrow> byte \<Rightarrow> memory result" where
  "memory_write_u8 m addr v = res_bind (memory_write m addr [v] AE_REGULAR) (\<lambda>(m, _). Inr m)"

primrec copy_segment :: "u64 \<Rightarrow> byte list \<Rightarrow> nat \<Rightarrow> nat \<Rightarrow> memory \<Rightarrow> memory result" where
  "copy_segment base data i 0 m = Inr m"
| "copy_segment base data i (Suc n) m =
     (if i < length data then res_bind (memory_write_u8 m (base + of_nat i) (data ! i)) (copy_segment base data (Suc i) n)
      else Inl UndefinedBehaviour)"

fun segments_to_memory :: "elf_segment list \<Rightarrow> memory \<Rightarrow> memory result" where
  "segments_to_memory [] m = Inr m"
| "segments_to_memory (s # ss) m =
     res_bind (seg_data s) (\<lambda>data. res_bind (copy_segment (seg_vaddr s) data 0 (unat (seg_filesz s)) m) (segments_to_memory ss))"

definition to_memory :: "ProgramLoader \<Rightarrow> memory \<Rightarrow> memory result" where
  "to_memory l = segments_to_memory (pl_load_segments l)"

definition loader_end :: "ProgramLoader \<Rightarrow> address" where
  "loader_end l = fold (\<lambda>s last. let e = seg_vaddr s + seg_filesz s in if last < e then e else last) (pl_load_segments l) 0 + 0x10"

definition get_symbol_table :: "ProgramLoader \<Rightarrow> SymbolTable" where
  "get_symbol_table l =
     fold (\<lambda>sec t. if sec_type sec = 2
         then fold (\<lambda>s t. add_symbol t (esym_name s) (esym_value s) (ucast (esym_size s)) (esym_info s) (esym_other s)) (sec_symbols sec) t
         else t)
       (elf_sections (pl_elf l)) symbol_table_new"

definition get_endian :: "ProgramLoader \<Rightarrow> Endian result" where
  "get_endian l = (if elf_data (pl_elf l) = 1 then Inr LITTLE else if elf_data (pl_elf l) = 2 then Inr BIG else Inl Input)"

section \<open>The machine\<close>

text \<open>What the constructor of a machine has after loading: its configuration, memories, symbols, registers and the end of the program.\<close>

record loaded_machine =
  lm_config :: MachineConfig
  lm_mem_program_only :: "memory option"
  lm_mem :: memory
  lm_symtab :: "SymbolTable option"
  lm_program_end :: address
  lm_regs :: Registers

definition load_program :: "(byte list \<Rightarrow> elf_file option) \<Rightarrow> host_files \<Rightarrow> MachineConfig \<Rightarrow> bool \<Rightarrow> bool \<Rightarrow> loaded_machine result" where
  "load_program parse files config load_symtab load_executable =
     res_bind registers_new (\<lambda>regs.
     if load_executable then
       res_bind (program_loader_new parse files (mf_elf_path config)) (\<lambda>program.
       res_bind (get_endian program) (\<lambda>endian.
       let config = set_simulated_endian endian config in
       res_bind (to_memory program memory_new) (\<lambda>mem_program_only.
       let config = set_simulated_xlen (if pl_architecture_type program = ARCH64 then XLEN_64 else XLEN_32) config;
           symtab = (if load_symtab then Some (get_symbol_table program) else None) in
       res_bind (if pl_executable_entry program \<noteq> 0 then write_pc regs (pl_executable_entry program) else Inr regs) (\<lambda>regs.
       Inr \<lparr>lm_config = config, lm_mem_program_only = Some mem_program_only, lm_mem = memory_copy mem_program_only, lm_symtab = symtab,
            lm_program_end = loader_end program, lm_regs = regs\<rparr>))))
     else Inr \<lparr>lm_config = config, lm_mem_program_only = None, lm_mem = memory_new, lm_symtab = None, lm_program_end = 0xffff0000, lm_regs = regs\<rparr>)"

section \<open>Segments in the memory\<close>

text \<open>The library returned all bytes of the segment, as many as the file has for it.\<close>

definition segment_complete :: "elf_segment \<Rightarrow> bool" where
  "segment_complete s = (case seg_data s of Inl _ \<Rightarrow> False | Inr d \<Rightarrow> unat (seg_filesz s) \<le> length d \<and> unat (seg_vaddr s) + unat (seg_filesz s) \<le> 2 ^ 32)"

definition segment_bytes :: "elf_segment \<Rightarrow> byte list" where
  "segment_bytes s = (case seg_data s of Inl _ \<Rightarrow> [] | Inr d \<Rightarrow> take (unat (seg_filesz s)) d)"

definition segments_apart :: "elf_segment \<Rightarrow> elf_segment \<Rightarrow> bool" where
  "segments_apart s s' \<longleftrightarrow> unat (seg_vaddr s) + unat (seg_filesz s) \<le> unat (seg_vaddr s') \<or> unat (seg_vaddr s') + unat (seg_filesz s') \<le> unat (seg_vaddr s)"

definition in_segment :: "elf_segment \<Rightarrow> u32 \<Rightarrow> bool" where
  "in_segment s x \<longleftrightarrow> unat (seg_vaddr s) \<le> unat x \<and> unat x < unat (seg_vaddr s) + unat (seg_filesz s)"

lemma copy_segment_stores:
  assumes "memory_inv m" "i + n \<le> length data"
  shows "\<exists>m'. copy_segment base data i n m = Inr m' \<and> memory_inv m' \<and>
    mem_view m' = store_bytes (mem_view m) (ucast base + of_nat i) (take n (drop i data))"
  using assms
proof (induction n arbitrary: i m)
  case (Suc n)
  obtain m1 r where m1: "memory_write m (base + of_nat i) [data ! i] AE_REGULAR = Inr (m1, r)" "memory_inv m1"
    "mem_view m1 = (mem_view m)(ucast (base + of_nat i) := data ! i)"
    using memory_write_correct [OF Suc.prems(1), of "[data ! i]" "base + of_nat i" AE_REGULAR] by auto
  have u: "ucast (base + of_nat i) = (ucast base + of_nat i :: u32)"
    using ucast_add_of_nat [where 'a = 32, of base i] by simp
  have d: "drop i data = data ! i # drop (Suc i) data" using Suc.prems(2) by (simp add: Cons_nth_drop_Suc)
  obtain m' where m': "copy_segment base data (Suc i) n m1 = Inr m'" "memory_inv m'"
    "mem_view m' = store_bytes (mem_view m1) (ucast base + of_nat (Suc i)) (take n (drop (Suc i) data))"
    using Suc.IH [OF m1(2), of "Suc i"] Suc.prems(2) by auto
  have "ucast base + of_nat (Suc i) = (ucast base + of_nat i + 1 :: u32)" by (simp add: add.commute)
  then show ?case using m1 m' d u Suc.prems(2) by (intro exI [of _ m']) (simp add: memory_write_u8_def add.assoc del: of_nat_Suc)
qed auto

definition stored_segments :: "elf_segment list \<Rightarrow> (u32 \<Rightarrow> byte) \<Rightarrow> (u32 \<Rightarrow> byte)" where
  "stored_segments ss v = fold (\<lambda>s v. store_bytes v (ucast (seg_vaddr s)) (segment_bytes s)) ss v"

lemma segments_stored:
  assumes "list_all segment_complete ss" "memory_inv m"
  shows "\<exists>m'. segments_to_memory ss m = Inr m' \<and> memory_inv m' \<and> mem_view m' = stored_segments ss (mem_view m)"
  using assms
proof (induction ss arbitrary: m)
  case (Cons s ss)
  then obtain d where d: "seg_data s = Inr d" "unat (seg_filesz s) \<le> length d" by (auto simp: segment_complete_def split: sum.splits)
  from copy_segment_stores [OF Cons.prems(2), of 0 "unat (seg_filesz s)" d "seg_vaddr s"] d obtain m1 where m1:
    "copy_segment (seg_vaddr s) d 0 (unat (seg_filesz s)) m = Inr m1" "memory_inv m1"
    "mem_view m1 = store_bytes (mem_view m) (ucast (seg_vaddr s)) (segment_bytes s)"
    by (auto simp: segment_bytes_def)
  with Cons.IH [OF _ m1(2)] Cons.prems(1) d show ?case by (auto simp: stored_segments_def)
qed (simp add: stored_segments_def)

lemma segment_position:
  assumes "segment_complete s"
  shows "length (segment_bytes s) = unat (seg_filesz s)" "in_segment s x \<longleftrightarrow> unat (x - ucast (seg_vaddr s)) < unat (seg_filesz s)"
    "in_segment s x \<Longrightarrow> unat (x - ucast (seg_vaddr s)) = unat x - unat (seg_vaddr s)"
proof -
  have b: "unat (seg_vaddr s) + unat (seg_filesz s) \<le> 2 ^ 32" and l: "length (segment_bytes s) = unat (seg_filesz s)"
    using assms by (auto simp: segment_complete_def segment_bytes_def split: sum.splits)
  show "length (segment_bytes s) = unat (seg_filesz s)" by (rule l)
  have "unat (x - ucast (seg_vaddr s)) = (if unat (seg_vaddr s) \<le> unat x then unat x - unat (seg_vaddr s) else unat x + 2 ^ 32 - unat (seg_vaddr s))"
    if "unat (seg_vaddr s) < 2 ^ 32"
  proof -
    have u: "unat (ucast (seg_vaddr s) :: u32) = unat (seg_vaddr s)" using that by (simp add: unsigned_ucast_eq take_bit_nat_eq_self)
    show ?thesis using u by (simp add: unat_sub_if_size word_size)
  qed
  moreover have "unat (seg_filesz s) = 0" if "\<not> unat (seg_vaddr s) < 2 ^ 32" using b that by linarith
  ultimately show "in_segment s x \<longleftrightarrow> unat (x - ucast (seg_vaddr s)) < unat (seg_filesz s)"
    "in_segment s x \<Longrightarrow> unat (x - ucast (seg_vaddr s)) = unat x - unat (seg_vaddr s)"
    using b by (auto simp: in_segment_def split: if_splits)
qed

lemma stored_segments_at:
  assumes "list_all segment_complete ss" "sorted_wrt segments_apart ss"
  shows "stored_segments ss v x = (case find (\<lambda>s. in_segment s x) ss of
      None \<Rightarrow> v x | Some s \<Rightarrow> segment_bytes s ! (unat x - unat (seg_vaddr s)))"
  using assms
proof (induction ss arbitrary: v)
  case (Cons s ss)
  have sb: "store_bytes v (ucast (seg_vaddr s)) (segment_bytes s) x =
      (if in_segment s x then segment_bytes s ! (unat x - unat (seg_vaddr s)) else v x)"
    using store_bytes_apply [where bs = "segment_bytes s" and v = v and a = "ucast (seg_vaddr s) :: u32" and x = x] segment_position(1) [of s] segment_position(2,3) [of s x] Cons.prems(1)
    by (auto simp: segment_complete_def split: sum.splits)
  have "find (\<lambda>s. in_segment s x) ss = None" if "in_segment s x"
    using Cons.prems(2) that by (auto simp: find_None_iff segments_apart_def in_segment_def)
  with Cons sb show ?case by (auto simp: stored_segments_def split: option.split)
qed (simp add: stored_segments_def)

lemma segments_unique:
  assumes "sorted_wrt segments_apart ss" "t \<in> set ss" "s \<in> set ss" "in_segment t x" "in_segment s x"
  shows "t = s"
proof (rule ccontr)
  assume "t \<noteq> s"
  then have "segments_apart t s \<or> segments_apart s t" using assms(1-3) by (induction ss) auto
  with assms(4,5) show False by (auto simp: segments_apart_def in_segment_def)
qed

lemma load_segment:
  assumes "list_all segment_complete ss" "sorted_wrt segments_apart ss" "s \<in> set ss"
  shows "load_bytes (stored_segments ss v) (ucast (seg_vaddr s)) (unat (seg_filesz s)) = segment_bytes s"
proof (rule nth_equalityI)
  have c: "segment_complete s" using assms by (simp add: list_all_iff)
  then show "length (load_bytes (stored_segments ss v) (ucast (seg_vaddr s)) (unat (seg_filesz s))) = length (segment_bytes s)"
    by (simp add: segment_position)
  fix i assume "i < length (load_bytes (stored_segments ss v) (ucast (seg_vaddr s)) (unat (seg_filesz s)))"
  then have i: "i < unat (seg_filesz s)" by simp
  let ?x = "ucast (seg_vaddr s) + of_nat i :: u32"
  have "i < 2 ^ 32" using i c by (auto simp: segment_complete_def split: sum.splits)
  then have u: "unat (?x - ucast (seg_vaddr s)) = i" by (simp add: unsigned_of_nat take_bit_nat_eq_self)
  then have x: "in_segment s ?x" "unat ?x - unat (seg_vaddr s) = i" using segment_position(2,3) [OF c, of ?x] i by auto
  have "segment_bytes t ! (unat ?x - unat (seg_vaddr t)) = segment_bytes s ! i" if "find (\<lambda>s. in_segment s ?x) ss = Some t" for t
  proof -
    have "t \<in> set ss" "in_segment t ?x" using that by (auto simp: find_Some_iff)
    then have "t = s" using segments_unique [OF assms(2) _ assms(3)] x(1) by blast
    then show ?thesis using x(2) by simp
  qed
  moreover have "find (\<lambda>s. in_segment s ?x) ss \<noteq> None" using x(1) assms(3) by (auto simp: find_None_iff)
  ultimately show "load_bytes (stored_segments ss v) (ucast (seg_vaddr s)) (unat (seg_filesz s)) ! i = segment_bytes s ! i"
    using i by (auto simp: stored_segments_at [OF assms(1,2)])
qed

section \<open>Symbols\<close>

definition file_symbols :: "elf_file \<Rightarrow> (string \<times> u64) list" where
  "file_symbols elf = concat (map (\<lambda>sec. if sec_type sec = 2 then map (\<lambda>s. (esym_name s, esym_value s)) (sec_symbols sec) else []) (elf_sections elf))"

lemma name_to_value_add: "name_to_value (add_symbol t name value sz info other) n = (if n = name then Some value else name_to_value t n)"
  by (simp add: name_to_value_def add_symbol_def Let_def)

lemma symbols_of_file: "name_to_value (get_symbol_table l) n = map_of (rev (file_symbols (pl_elf l))) n"
proof -
  define add where "add = (\<lambda>(s :: elf_symbol) t. add_symbol t (esym_name s) (esym_value s) (ucast (esym_size s)) (esym_info s) (esym_other s))"
  have one: "name_to_value (fold add xs t) n = (case map_of (rev (map (\<lambda>s. (esym_name s, esym_value s)) xs)) n of None \<Rightarrow> name_to_value t n | Some v \<Rightarrow> Some v)" for xs t
    by (induction xs arbitrary: t) (auto simp: add_def name_to_value_add map_add_def split: option.splits)
  have "name_to_value (fold (\<lambda>sec t. if sec_type sec = 2 then fold add (sec_symbols sec) t else t) secs t) n =
      (case map_of (rev (concat (map (\<lambda>sec. if sec_type sec = 2 then map (\<lambda>s. (esym_name s, esym_value s)) (sec_symbols sec) else []) secs))) n of
         None \<Rightarrow> name_to_value t n | Some v \<Rightarrow> Some v)" for secs :: "elf_section list" and t
    by (induction secs arbitrary: t) (auto simp: one map_add_def split: option.splits)
  moreover have "name_to_value symbol_table_new n = None" by (simp add: name_to_value_def symbol_table_new_def)
  ultimately show ?thesis unfolding get_symbol_table_def file_symbols_def add_def by (simp split: option.split)
qed

section \<open>Properties\<close>

text \<open>
  Claim C30: A machine that loads an executable has in its memory the bytes of every segment at its address and zeros elsewhere, takes
  byte order and word length from the header, starts at the entry point, and finds a symbol of the file under its name, the
  last one of a name.  The segments are those that the file marks as loaded; they do not overlap and lie in the first 4 GiB.
\<close>

theorem program_loaded:
  assumes "files (mf_elf_path config) = Some (Some bs)" "parse bs = Some elf" "elf_type elf = 2" "elf_machine elf = 243"
    and "elf_class elf \<in> {1, 2}" "elf_data elf \<in> {1, 2}" "elf_entry elf mod 4 = 0"
    and ss: "ss = filter (\<lambda>s. seg_type s = 1) (elf_segments elf)" "list_all segment_complete ss" "sorted_wrt segments_apart ss"
  shows "\<exists>lm t. load_program parse files config True True = Inr lm \<and>
    (\<forall>s \<in> set ss. load_bytes (mem_view (lm_mem lm)) (ucast (seg_vaddr s)) (unat (seg_filesz s)) = segment_bytes s) \<and>
    (\<forall>x. \<not> list_ex (\<lambda>s. in_segment s x) ss \<longrightarrow> mem_view (lm_mem lm) x = 0) \<and>
    mf_simulated_endian (lm_config lm) = (if elf_data elf = 1 then LITTLE else BIG) \<and>
    mf_simulated_xlen (lm_config lm) = (if elf_class elf = 1 then XLEN_32 else XLEN_64) \<and>
    read_pc (lm_regs lm) = (if elf_entry elf = 0 then PC_INIT else elf_entry elf) \<and>
    lm_symtab lm = Some t \<and> (\<forall>n. name_to_value t n = map_of (rev (file_symbols elf)) n)"
proof -
  define l where "l = \<lparr>pl_elf = elf, pl_architecture_type = (if elf_class elf = 1 then ARCH32 else ARCH64),
      pl_executable_entry = elf_entry elf, pl_load_segments = ss\<rparr>"
  have l: "program_loader_new parse files (mf_elf_path config) = Inr l"
    using assms(1-5) ss(1) by (auto simp: program_loader_new_def mem_loader_new_def EM_RISCV_def l_def)
  obtain r where r: "registers_new = Inr r" "read_pc r = PC_INIT"
    using registers_reset_spec [of "\<lparr>reg_gp = replicate REGISTER_COUNT 0, reg_pc = 0\<rparr>"]
    by (auto simp: registers_new_def REGISTER_COUNT_def)
  obtain m where m: "to_memory l memory_new = Inr m" "memory_inv m" "mem_view m = stored_segments ss (mem_view memory_new)"
    using segments_stored [OF ss(2) memory_new_inv] by (auto simp: to_memory_def l_def)
  have v: "mem_view (memory_copy m) = stored_segments ss (\<lambda>_. 0)"
    using m(3) copy_section_tree_eq [OF m(2) [unfolded memory_inv_def]] by (simp add: memory_copy_def mem_view_def fun_eq_iff)
  let ?lm = "\<lparr>lm_config = set_simulated_xlen (if elf_class elf = 1 then XLEN_32 else XLEN_64) (set_simulated_endian (if elf_data elf = 1 then LITTLE else BIG) config),
    lm_mem_program_only = Some m, lm_mem = memory_copy m, lm_symtab = Some (get_symbol_table l), lm_program_end = loader_end l,
    lm_regs = (if elf_entry elf = 0 then r else r\<lparr>reg_pc := elf_entry elf\<rparr>)\<rparr>"
  have "load_program parse files config True True = Inr ?lm"
    unfolding load_program_def r(1) using l m assms(5-7) by (auto simp: get_endian_def l_def write_pc_def Let_def)
  moreover have "stored_segments ss (\<lambda>_. 0) x = 0" if "\<not> list_ex (\<lambda>s. in_segment s x) ss" for x
  proof -
    have "find (\<lambda>s. in_segment s x) ss = None" using that by (auto simp: find_None_iff list_ex_iff)
    then show ?thesis by (simp add: stored_segments_at [OF ss(2,3)])
  qed
  ultimately show ?thesis
    using v load_segment [OF ss(2,3)] r(2) symbols_of_file [of l]
    by (intro exI [of _ ?lm] exI [of _ "get_symbol_table l"])
      (simp add: set_simulated_xlen_def set_simulated_endian_def read_pc_def l_def)
qed

text \<open>An executable of one segment and one symbol.\<close>

definition sample_elf :: elf_file where
  "sample_elf = \<lparr>elf_type = 2, elf_machine = 243, elf_class = 1, elf_data = 1, elf_entry = 0x1000,
     elf_segments = [\<lparr>seg_type = 1, seg_vaddr = 0x1000, seg_filesz = 4, seg_data = Inr [0x13, 0, 0, 0]\<rparr>],
     elf_sections = [\<lparr>sec_type = 2, sec_symbols = [\<lparr>esym_name = ''main'', esym_value = 0x1000, esym_size = 4, esym_info = 0, esym_other = 0\<rparr>]\<rparr>]\<rparr>"

theorem program_loaded_witness:
  "\<exists>lm t. load_program (\<lambda>_. Some sample_elf) (\<lambda>_. Some (Some [0x7F])) machine_config_new True True = Inr lm \<and>
     load_bytes (mem_view (lm_mem lm)) 0x1000 4 = [0x13, 0, 0, 0] \<and> read_pc (lm_regs lm) = 0x1000 \<and>
     lm_symtab lm = Some t \<and> name_to_value t ''main'' = Some 0x1000"
proof -
  let ?ss = "elf_segments sample_elf"
  have "?ss = filter (\<lambda>s. seg_type s = 1) (elf_segments sample_elf)" "list_all segment_complete ?ss" "sorted_wrt segments_apart ?ss"
    by (simp_all add: sample_elf_def segment_complete_def)
  note * = program_loaded [where config = machine_config_new and parse = "\<lambda>_. Some sample_elf" and files = "\<lambda>_. Some (Some [0x7F])" and elf = sample_elf,
    OF refl refl _ _ _ _ _ this]
  have "file_symbols sample_elf = [(''main'', 0x1000)]" by (simp add: file_symbols_def sample_elf_def)
  then show ?thesis using * by (auto simp: sample_elf_def segment_bytes_def)
qed

text \<open>
  The test of the loader against the size of the file lets a range pass whose end wraps around: at a position close to
  $2^{64}$ the library gets a pointer outside of the mapping.
\<close>

lemma mem_loader_wraps: "mem_loader_load [1, 2, 3, 4] 0xffffffffffffffff 2 = Inl UndefinedBehaviour" "mem_loader_load [1, 2, 3, 4] 1 2 = Inr [2, 3]"
  by (simp_all add: mem_loader_load_def)

end
