(* ===== verification/Cli_Config.thy ===== *)
theory Cli_Config
  imports Machine_Config Text_Utils Symbol_Table
begin

text \<open>
  The command line program (\<^verbatim>\<open>src/src/cli/main.cpp\<close>): how its options configure the machine, the tracer and the
  reporter, and the loading of memory ranges from text files.

  The options are found by the parser of Qt, its result is the record \<open>cmdline\<close>; numbers are read by Qt and the
  standard library, the record \<open>number_ops\<close>.  Where the program exits with a message or an exception ends
  it, the result is an error.
\<close>

section \<open>Options\<close>

record cmdline =
  cl_set :: "string \<Rightarrow> bool"
  cl_values :: "string \<Rightarrow> string list"
  cl_arguments :: "string list"

record number_ops =
  to_long :: "string \<Rightarrow> int option"
  to_int :: "string \<Rightarrow> int option"
  to_uint :: "string \<Rightarrow> u32 option"
  to_ulong :: "string \<Rightarrow> u64 option"
  stoul :: "string \<Rightarrow> (u64 \<times> nat) option"
  to_upper :: "string \<Rightarrow> string"

datatype cli_error =
    Show_Help
  | Bad_Cache
  | Bad_Predictor
  | Bad_Hazard_Unit
  | Bad_Number
  | Bad_Register
  | Bad_Cycle_Limit
  | Bad_Fail_Condition
  | Bad_Range
  | Bad_Load_Data
  | Uncaught_Exception
  | Machine_Exception sim_exception

type_synonym 'a cli = "cli_error + 'a"

fun cli_bind :: "'a cli \<Rightarrow> ('a \<Rightarrow> 'b cli) \<Rightarrow> 'b cli" where
  "cli_bind (Inl e) f = Inl e"
| "cli_bind (Inr x) f = f x"

text \<open>A conversion without a check gives zero when it fails.\<close>

definition long_or_zero :: "number_ops \<Rightarrow> string \<Rightarrow> int" where
  "long_or_zero q s = (case to_long q s of None \<Rightarrow> 0 | Some n \<Rightarrow> n)"

section \<open>The machine\<close>

definition cli_replacement_policy :: "string \<Rightarrow> ReplacementPolicy option" where
  "cli_replacement_policy s = map_of [(''random'', RP_RAND), (''lru'', RP_LRU), (''lfu'', RP_LFU)] (to_lower s)"

definition cli_write_policy :: "string \<Rightarrow> WritePolicy option" where
  "cli_write_policy s =
     map_of [(''wb'', WP_BACK), (''wt'', WP_THROUGH_NOALLOC), (''wtna'', WP_THROUGH_NOALLOC), (''wta'', WP_THROUGH_ALLOC)] (to_lower s)"

definition configure_cache :: "number_ops \<Rightarrow> string list \<Rightarrow> CacheConfig \<Rightarrow> CacheConfig cli" where
  "configure_cache q cachearg c =
     (if cachearg = [] then Inr c
      else let c = set_enabled True c; pieces = split_at CHR '','' (last cachearg) in
        if length pieces < 3 then Inl Bad_Cache
        else if pieces ! 0 = [] then Inl Bad_Cache
        else cli_bind
          (if \<not> is_digit (pieces ! 0 ! 0)
           then (case cli_replacement_policy (pieces ! 0) of
                   None \<Rightarrow> Inl Bad_Cache
                 | Some rp \<Rightarrow> Inr (set_replacement_policy rp c, tl pieces))
           else Inr (c, pieces)) (\<lambda>(c, pieces).
          if length pieces < 3 then Inl Bad_Cache
          else let c = set_set_count (word_of_int (long_or_zero q (pieces ! 0))) c;
                   c = set_block_size (word_of_int (long_or_zero q (pieces ! 1))) c;
                   c = set_associativity (word_of_int (long_or_zero q (pieces ! 2))) c in
            if cc_set_count c = 0 \<or> cc_block_size c = 0 \<or> cc_associativity c = 0 then Inl Bad_Cache
            else if 3 < length pieces
            then (case cli_write_policy (pieces ! 3) of None \<Rightarrow> Inl Bad_Cache | Some wp \<Rightarrow> Inr (set_write_policy wp c))
            else Inr c))"

definition cli_predictor_type :: "string \<Rightarrow> PredictorType" where
  "cli_predictor_type s = (case map_of [(''always_not_taken'', ALWAYS_NOT_TAKEN), (''always_taken'', ALWAYS_TAKEN), (''btfnt'', BTFNT),
      (''smith_1_bit'', SMITH_1_BIT), (''smith_2_bit'', SMITH_2_BIT), (''smith_2_bit_hysteresis'', SMITH_2_BIT_HYSTERESIS)] (to_lower s) of
     None \<Rightarrow> PT_UNDEFINED | Some t \<Rightarrow> t)"

definition cli_predictor_state :: "string \<Rightarrow> PredictorState" where
  "cli_predictor_state s = (case map_of [(''not_taken'', NOT_TAKEN), (''taken'', TAKEN), (''strongly_not_taken'', STRONGLY_NOT_TAKEN),
      (''weakly_not_taken'', WEAKLY_NOT_TAKEN), (''weakly_taken'', WEAKLY_TAKEN), (''strongly_taken'', STRONGLY_TAKEN)] (to_lower s) of
     None \<Rightarrow> PS_UNDEFINED | Some t \<Rightarrow> t)"

text \<open>The initial state that goes with a type, or none.\<close>

definition checked_state :: "PredictorType \<Rightarrow> PredictorState \<Rightarrow> PredictorState cli" where
  "checked_state ptype state = (case ptype of
     ALWAYS_NOT_TAKEN \<Rightarrow> Inr PS_UNDEFINED
   | ALWAYS_TAKEN \<Rightarrow> Inr PS_UNDEFINED
   | BTFNT \<Rightarrow> Inr PS_UNDEFINED
   | SMITH_1_BIT \<Rightarrow> if state \<noteq> NOT_TAKEN \<and> state \<noteq> TAKEN then Inl Bad_Predictor else Inr state
   | SMITH_2_BIT \<Rightarrow> if state \<notin> {STRONGLY_NOT_TAKEN, WEAKLY_NOT_TAKEN, WEAKLY_TAKEN, STRONGLY_TAKEN} then Inl Bad_Predictor else Inr state
   | SMITH_2_BIT_HYSTERESIS \<Rightarrow> if state \<notin> {STRONGLY_NOT_TAKEN, WEAKLY_NOT_TAKEN, WEAKLY_TAKEN, STRONGLY_TAKEN} then Inl Bad_Predictor else Inr state
   | PT_UNDEFINED \<Rightarrow> Inl Bad_Predictor)"

definition configure_branch_predictor :: "number_ops \<Rightarrow> string list \<Rightarrow> MachineConfig \<Rightarrow> MachineConfig cli" where
  "configure_branch_predictor q bpred c =
     (if bpred = [] then Inr c
      else let c = set_bp_enabled True c; pieces = split_at CHR '','' (last bpred) in
        if length pieces < 5 then Inl Bad_Predictor
        else let ptype = cli_predictor_type (pieces ! 0) in
          cli_bind (checked_state ptype (cli_predictor_state (pieces ! 1))) (\<lambda>state.
          Inr (set_bp_bht_addr_bits (word_of_int (long_or_zero q (pieces ! 4)))
            (set_bp_bhr_bits (word_of_int (long_or_zero q (pieces ! 3)))
            (set_bp_btb_bits (word_of_int (long_or_zero q (pieces ! 2)))
            (set_bp_init_state state (set_bp_type ptype c)))))))"

definition parse_u32_option :: "number_ops \<Rightarrow> cmdline \<Rightarrow> string \<Rightarrow> (u32 \<Rightarrow> MachineConfig \<Rightarrow> MachineConfig) \<Rightarrow> MachineConfig \<Rightarrow> MachineConfig cli" where
  "parse_u32_option q p option_name setter c =
     (let values = cl_values p option_name in
      if values = [] then Inr c
      else (case to_uint q (last values) of None \<Rightarrow> Inl Bad_Number | Some v \<Rightarrow> Inr (setter v c)))"

text \<open>The letters of a variant; \<open>isa_by_char\<close> takes what is not a letter for the letter A.\<close>

fun isa_letters :: "string \<Rightarrow> bool \<Rightarrow> bool \<Rightarrow> MachineConfig \<Rightarrow> MachineConfig" where
  "isa_letters [] first subtract c = c"
| "isa_letters (ch # s) first subtract c =
     (if ch = CHR ''+'' then isa_letters s False False c
      else if ch = CHR ''-'' then isa_letters s False True c
      else let flag = isa_by_char ch in
        if flag = 0 then isa_letters s False subtract c
        else let c = (if first then modify_isa_word (NOT 0) 0 c else c) in
          isa_letters s False subtract (if subtract then modify_isa_word flag 0 c else modify_isa_word flag flag c))"

definition configure_isa :: "number_ops \<Rightarrow> string \<Rightarrow> MachineConfig \<Rightarrow> MachineConfig" where
  "configure_isa q variant c =
     (let isa_str = to_upper q variant in
      if starts_with isa_str ''RV32'' then isa_letters (drop 4 isa_str) True False (set_simulated_xlen XLEN_32 c)
      else if starts_with isa_str ''RV64'' then isa_letters (drop 4 isa_str) True False (set_simulated_xlen XLEN_64 c)
      else isa_letters isa_str True False c)"

definition configure_hazard_unit :: "cmdline \<Rightarrow> MachineConfig \<Rightarrow> MachineConfig cli" where
  "configure_hazard_unit p c =
     (let values = cl_values p ''hazard-unit'' in
      if values = [] then Inr c
      else (case set_hazard_unit_kind (to_lower (last values)) c of (c, ok) \<Rightarrow> if ok then Inr c else Inl Bad_Hazard_Unit))"

definition configure_times :: "number_ops \<Rightarrow> cmdline \<Rightarrow> MachineConfig \<Rightarrow> MachineConfig cli" where
  "configure_times q p c =
     cli_bind (parse_u32_option q p ''read-time'' set_memory_access_time_read c) (\<lambda>c.
     cli_bind (parse_u32_option q p ''write-time'' set_memory_access_time_write c) (\<lambda>c.
     cli_bind (parse_u32_option q p ''burst-time'' set_memory_access_time_burst c) (\<lambda>c.
     cli_bind (parse_u32_option q p ''l2-time'' set_memory_access_time_level2 c) (\<lambda>c.
     Inr (if cl_values p ''burst-time'' \<noteq> [] then set_memory_access_enable_burst True c else c)))))"

definition configure_caches :: "number_ops \<Rightarrow> cmdline \<Rightarrow> MachineConfig \<Rightarrow> MachineConfig cli" where
  "configure_caches q p c =
     cli_bind (configure_cache q (cl_values p ''d-cache'') (mf_cch_data c)) (\<lambda>d.
     cli_bind (configure_cache q (cl_values p ''i-cache'') (mf_cch_program c)) (\<lambda>i.
     cli_bind (configure_cache q (cl_values p ''l2-cache'') (mf_cch_level2 c)) (\<lambda>l.
     Inr (c\<lparr>mf_cch_data := d, mf_cch_program := i, mf_cch_level2 := l\<rparr>))))"

definition configure_machine :: "number_ops \<Rightarrow> cmdline \<Rightarrow> MachineConfig \<Rightarrow> MachineConfig cli" where
  "configure_machine q p c =
     (if length (cl_arguments p) \<noteq> 1 then Inl Show_Help
      else
        cli_bind (configure_hazard_unit p (set_pipelined (cl_set p ''pipelined'') (set_delay_slot (\<not> cl_set p ''no-delay-slot'')
          (set_elf (cl_arguments p ! 0) c)))) (\<lambda>c.
        cli_bind (configure_times q p c) (\<lambda>c.
        cli_bind (configure_caches q p c) (\<lambda>c.
        cli_bind (configure_branch_predictor q (cl_values p ''branch-predictor'') c) (\<lambda>c.
        let c = set_osemu_known_syscall_stop False (set_osemu_enable (cl_set p ''os-emulation'') c);
            roots = cl_values p ''os-fs-root'';
            c = (if roots \<noteq> [] \<and> last roots \<noteq> [] then set_osemu_fs_root (last roots) c else c);
            c = fold (configure_isa q) (cl_values p ''isa-variant'') c
        in Inr (set_vm_enabled (cl_set p ''enable-vm'') c))))))"

section \<open>The tracer\<close>

record Tracer =
  regs_to_trace :: "bool list"
  trace_fetch :: bool
  trace_decode :: bool
  trace_execute :: bool
  trace_memory :: bool
  trace_writeback :: bool
  trace_pc :: bool
  trace_wrmem :: bool
  trace_rdmem :: bool
  trace_regs_gp :: bool
  trace_exception :: bool
  trace_mode_change :: bool
  cycle_limit :: u64

definition tracer_new :: Tracer where
  "tracer_new = \<lparr>regs_to_trace = replicate REGISTER_COUNT False, trace_fetch = False, trace_decode = False, trace_execute = False,
     trace_memory = False, trace_writeback = False, trace_pc = False, trace_wrmem = False, trace_rdmem = False, trace_regs_gp = False,
     trace_exception = False, trace_mode_change = False, cycle_limit = 0\<rparr>"

text \<open>A negative number is a large one as an index; the index of a position that does not exist throws.\<close>

fun trace_registers :: "number_ops \<Rightarrow> string list \<Rightarrow> bool list \<Rightarrow> bool list cli" where
  "trace_registers q [] rs = Inr rs"
| "trace_registers q (gp # gps) rs =
     (if gp = ''*'' then trace_registers q gps (replicate (length rs) True)
      else (case to_int q gp of
        None \<Rightarrow> Inl Bad_Register
      | Some n \<Rightarrow>
          let num = unat (word_of_int n :: u64) in
          if num \<le> REGISTER_COUNT
          then (if num < length rs then trace_registers q gps (rs[num := True]) else Inl Uncaught_Exception)
          else Inl Bad_Register))"

definition configure_tracer :: "number_ops \<Rightarrow> cmdline \<Rightarrow> Tracer \<Rightarrow> Tracer cli" where
  "configure_tracer q p tr =
     (let piped = cl_set p ''pipelined'';
          tr = tr\<lparr>trace_fetch := trace_fetch tr \<or> cl_set p ''trace-fetch'',
                  trace_decode := trace_decode tr \<or> (piped \<and> cl_set p ''trace-decode''),
                  trace_execute := trace_execute tr \<or> (piped \<and> cl_set p ''trace-execute''),
                  trace_memory := trace_memory tr \<or> (piped \<and> cl_set p ''trace-memory''),
                  trace_writeback := trace_writeback tr \<or> (piped \<and> cl_set p ''trace-writeback''),
                  trace_pc := trace_pc tr \<or> cl_set p ''trace-pc'',
                  trace_regs_gp := trace_regs_gp tr \<or> cl_set p ''trace-gp''\<rparr>
      in cli_bind (trace_registers q (cl_values p ''trace-gp'') (regs_to_trace tr)) (\<lambda>rs.
      let tr = tr\<lparr>regs_to_trace := rs,
                  trace_rdmem := trace_rdmem tr \<or> cl_set p ''trace-rdmem'',
                  trace_wrmem := trace_wrmem tr \<or> cl_set p ''trace-wrmem'',
                  trace_exception := trace_exception tr \<or> cl_set p ''trace-exception'',
                  trace_mode_change := trace_mode_change tr \<or> cl_set p ''trace-mode-change''\<rparr>;
          clim = cl_values p ''cycle-limit''
      in if clim = [] then Inr tr
         else (case to_long q (last clim) of None \<Rightarrow> Inl Bad_Cycle_Limit | Some n \<Rightarrow> Inr (tr\<lparr>cycle_limit := word_of_int n\<rparr>))))"

section \<open>The reporter\<close>

record DumpRange =
  dr_start :: address
  dr_len :: u64
  path_to_write :: string

record Reporter =
  dump_ranges :: "DumpRange list"
  e_regs :: bool
  e_cache_stats :: bool
  e_cycles :: bool
  e_symtab :: bool
  e_predictor :: bool
  e_fail :: u32
  dump_format :: u32
  dump_file_json :: string

definition reporter_new :: Reporter where
  "reporter_new = \<lparr>dump_ranges = [], e_regs = False, e_cache_stats = False, e_cycles = False, e_symtab = False, e_predictor = False,
     e_fail = 0, dump_format = 1, dump_file_json = []\<rparr>"

definition enable_all_reporting :: "Reporter \<Rightarrow> Reporter" where
  "enable_all_reporting r = r\<lparr>e_regs := True, e_cache_stats := True, e_cycles := True, e_symtab := True, e_predictor := True\<rparr>"

definition expect_fail :: "u32 \<Rightarrow> Reporter \<Rightarrow> Reporter" where
  "expect_fail reason r = r\<lparr>e_fail := e_fail r OR reason\<rparr>"

definition add_dump_range :: "address \<Rightarrow> u64 \<Rightarrow> string \<Rightarrow> Reporter \<Rightarrow> Reporter" where
  "add_dump_range start len path r = r\<lparr>dump_ranges := dump_ranges r @ [\<lparr>dr_start = start, dr_len = len, path_to_write = path\<rparr>]\<rparr>"

fun fail_letters :: "string \<Rightarrow> Reporter \<Rightarrow> Reporter cli" where
  "fail_letters [] r = Inr r"
| "fail_letters (ch # s) r = (if ch = CHR ''i'' \<or> ch = CHR ''I'' then fail_letters s (expect_fail 1 r) else Inl Bad_Fail_Condition)"

text \<open>An address or a length: the value of a symbol, when there is a table and the text does not start with a digit, or a number.\<close>

definition range_value :: "number_ops \<Rightarrow> SymbolTable option \<Rightarrow> string \<Rightarrow> u64 option" where
  "range_value q symtab str =
     (case symtab of
        Some t \<Rightarrow> if str \<noteq> [] \<and> \<not> is_digit (hd str) then name_to_value t str else to_ulong q str
      | None \<Rightarrow> to_ulong q str)"

definition comma_from :: "string \<Rightarrow> nat \<Rightarrow> nat option" where
  "comma_from s pos = (let n = pos + length (takeWhile (\<lambda>c. c \<noteq> CHR '','') (drop pos s)) in if n < length s then Some n else None)"

definition configure_dump_range :: "number_ops \<Rightarrow> SymbolTable option \<Rightarrow> string \<Rightarrow> Reporter \<Rightarrow> Reporter cli" where
  "configure_dump_range q symtab range_arg r =
     (case comma_from range_arg 0 of
        None \<Rightarrow> Inl Bad_Range
      | Some comma1 \<Rightarrow>
          (case comma_from range_arg (comma1 + 1) of
             None \<Rightarrow> Inl Bad_Range
           | Some comma2 \<Rightarrow>
               (case (range_value q symtab (mid range_arg 0 comma1), range_value q symtab (mid range_arg (comma1 + 1) (comma2 - comma1 - 1))) of
                  (Some start, Some len) \<Rightarrow> Inr (add_dump_range start len (drop (comma2 + 1) range_arg) r)
                | _ \<Rightarrow> Inl Bad_Range)))"

fun cli_fold :: "('x \<Rightarrow> 'a \<Rightarrow> 'a cli) \<Rightarrow> 'x list \<Rightarrow> 'a \<Rightarrow> 'a cli" where
  "cli_fold f [] a = Inr a"
| "cli_fold f (x # xs) a = cli_bind (f x a) (cli_fold f xs)"

definition configure_reporter :: "number_ops \<Rightarrow> cmdline \<Rightarrow> SymbolTable option \<Rightarrow> Reporter \<Rightarrow> Reporter cli" where
  "configure_reporter q p symtab r =
     (let r = (if cl_set p ''dump-to-json'' then r\<lparr>dump_format := dump_format r OR 2,
                 dump_file_json := (if cl_values p ''dump-to-json'' = [] then [] else last (cl_values p ''dump-to-json''))\<rparr> else r);
          r = (if cl_set p ''disable-console-dump'' then r\<lparr>dump_format := dump_format r AND NOT 1\<rparr> else r);
          r = r\<lparr>e_regs := e_regs r \<or> cl_set p ''dump-registers'', e_cache_stats := e_cache_stats r \<or> cl_set p ''dump-cache-stats'',
                e_cycles := e_cycles r \<or> cl_set p ''dump-cycles'', e_symtab := e_symtab r \<or> cl_set p ''dump-symbol-table'',
                e_predictor := e_predictor r \<or> cl_set p ''dump-branch-predictor''\<rparr>;
          r = (if cl_set p ''dump-all'' then enable_all_reporting r else r)
      in cli_bind (cli_fold fail_letters (cl_values p ''fail-match'') r) (\<lambda>r.
      let r = (if cl_set p ''expect-fail'' \<and> \<not> cl_set p ''fail-match'' then expect_fail 1 r else r) in
      cli_fold (configure_dump_range q symtab) (cl_values p ''dump-range'') r))"

section \<open>Memory ranges\<close>

text \<open>The lines of a text file; a file that cannot be opened has none.\<close>

definition is_blank :: "char \<Rightarrow> bool" where
  "is_blank ch \<longleftrightarrow> ch = CHR '' '' \<or> char_code ch = 9 \<or> char_code ch = 10"

definition strip_blanks :: "string \<Rightarrow> string" where
  "strip_blanks s = dropWhile is_blank (rev (dropWhile is_blank (rev s)))"

fun load_lines :: "number_ops \<Rightarrow> Endian \<Rightarrow> 'm frontend_ops \<Rightarrow> string list \<Rightarrow> address \<Rightarrow> 'm \<Rightarrow> 'm cli" where
  "load_lines q host ops [] addr m = Inr m"
| "load_lines q host ops (l # ls) addr m =
     (let line = strip_blanks l in
      if line = [] then load_lines q host ops ls addr m
      else (case stoul q line of
        None \<Rightarrow> Inl Uncaught_Exception
      | Some (v, idx) \<Rightarrow>
          if idx \<noteq> length line then Inl Bad_Load_Data
          else (case write_u32 host ops (plain_address addr) (ucast v) AE_INTERNAL m of
            (m, Inl e) \<Rightarrow> Inl (Machine_Exception e)
          | (m, Inr _) \<Rightarrow> load_lines q host ops ls (addr + 4) m)))"

definition load_range :: "number_ops \<Rightarrow> (string \<rightharpoonup> string list) \<Rightarrow> Endian \<Rightarrow> 'm frontend_ops \<Rightarrow> SymbolTable option \<Rightarrow> string \<Rightarrow> 'm \<Rightarrow> 'm cli" where
  "load_range q files host ops symtab range_arg m =
     (case comma_from range_arg 0 of
        None \<Rightarrow> Inl Bad_Range
      | Some comma1 \<Rightarrow>
          (case range_value q symtab (mid range_arg 0 comma1) of
             None \<Rightarrow> Inl Bad_Range
           | Some start \<Rightarrow>
               load_lines q host ops (case files (drop (comma1 + 1) range_arg) of None \<Rightarrow> [] | Some ls \<Rightarrow> ls) start m))"

definition load_ranges :: "number_ops \<Rightarrow> (string \<rightharpoonup> string list) \<Rightarrow> Endian \<Rightarrow> 'm frontend_ops \<Rightarrow> SymbolTable option \<Rightarrow> string list \<Rightarrow> 'm \<Rightarrow> 'm cli" where
  "load_ranges q files host ops symtab = cli_fold (load_range q files host ops symtab)"

section \<open>Bounds of the configuration\<close>

lemma cli_bind_Inr: "cli_bind r f = Inr y \<longleftrightarrow> (\<exists>x. r = Inr x \<and> f x = Inr y)"
  by (cases r) auto

lemma configure_cache_pos:
  assumes "configure_cache q args c = Inr c'" "cache_config_pos c"
  shows "cache_config_pos c'"
  using assms
  by (auto simp: configure_cache_def cli_bind_Inr cache_config_pos_def cache_setters Let_def split: if_splits option.splits)

lemma parse_u32_ok:
  assumes "parse_u32_option q p n f c = Inr c'" "config_ok c" "\<And>v c. config_ok (f v c) = config_ok c"
  shows "config_ok c'"
  using assms by (auto simp: parse_u32_option_def Let_def split: if_splits option.splits)

lemma plain_ok [simp]:
  "config_ok (set_pipelined v d) = config_ok d" "config_ok (set_delay_slot v d) = config_ok d" "config_ok (set_hazard_unit hu d) = config_ok d"
  "config_ok (set_memory_access_time_write n d) = config_ok d" "config_ok (set_memory_access_time_read n d) = config_ok d"
  "config_ok (set_memory_access_enable_burst v d) = config_ok d" "config_ok (set_memory_access_time_level2 n d) = config_ok d"
  "config_ok (set_memory_access_time_burst n d) = config_ok d" "config_ok (set_bp_init_state ps d) = config_ok d"
  "config_ok (set_bp_type pt d) = config_ok d" "config_ok (set_bp_enabled v d) = config_ok d" "config_ok (set_vm_enabled v d) = config_ok d"
  "config_ok (set_simulated_xlen x d) = config_ok d" "config_ok (set_elf f d) = config_ok d" "config_ok (set_osemu_enable v d) = config_ok d"
  "config_ok (set_osemu_known_syscall_stop v d) = config_ok d" "config_ok (set_osemu_fs_root f d) = config_ok d"
  by (simp_all add: config_ok_def plain_setter_defs)

lemma isa_letters_ok: "config_ok c \<Longrightarrow> config_ok (isa_letters s first subtract c)"
  by (induction s first subtract c rule: isa_letters.induct) (auto simp: set_isa_ok Let_def)

lemma configure_isa_ok: "config_ok c \<Longrightarrow> config_ok (configure_isa q v c)"
  by (simp add: configure_isa_def isa_letters_ok Let_def)

text \<open>
  The predictor that a configuration asks for exists, with an initial state of its type: the static
  predictors have none, the 1-bit predictor has one of two, the 2-bit predictors one of four.
\<close>

fun predictor_states :: "PredictorType \<Rightarrow> PredictorState set" where
  "predictor_states ALWAYS_NOT_TAKEN = {PS_UNDEFINED}"
| "predictor_states ALWAYS_TAKEN = {PS_UNDEFINED}"
| "predictor_states BTFNT = {PS_UNDEFINED}"
| "predictor_states SMITH_1_BIT = {NOT_TAKEN, TAKEN}"
| "predictor_states SMITH_2_BIT = {STRONGLY_NOT_TAKEN, WEAKLY_NOT_TAKEN, WEAKLY_TAKEN, STRONGLY_TAKEN}"
| "predictor_states SMITH_2_BIT_HYSTERESIS = {STRONGLY_NOT_TAKEN, WEAKLY_NOT_TAKEN, WEAKLY_TAKEN, STRONGLY_TAKEN}"
| "predictor_states PT_UNDEFINED = {}"

definition predictor_config_ok :: "MachineConfig \<Rightarrow> bool" where
  "predictor_config_ok c = (mf_bp_enabled c \<longrightarrow> mf_bp_init_state c \<in> predictor_states (mf_bp_type c))"

lemma checked_state_valid: "checked_state t st = Inr st' \<Longrightarrow> st' \<in> predictor_states t"
  by (cases t) (auto simp: checked_state_def split: if_splits)

lemma plain_predictor [simp]:
  "predictor_config_ok (set_pipelined v d) = predictor_config_ok d" "predictor_config_ok (set_delay_slot v d) = predictor_config_ok d"
  "predictor_config_ok (set_hazard_unit hu d) = predictor_config_ok d" "predictor_config_ok (set_memory_access_time_write n d) = predictor_config_ok d"
  "predictor_config_ok (set_memory_access_time_read n d) = predictor_config_ok d" "predictor_config_ok (set_memory_access_enable_burst v d) = predictor_config_ok d"
  "predictor_config_ok (set_memory_access_time_level2 n d) = predictor_config_ok d" "predictor_config_ok (set_memory_access_time_burst n d) = predictor_config_ok d"
  "predictor_config_ok (set_vm_enabled v d) = predictor_config_ok d" "predictor_config_ok (set_simulated_xlen x d) = predictor_config_ok d"
  "predictor_config_ok (set_elf f d) = predictor_config_ok d" "predictor_config_ok (set_osemu_enable v d) = predictor_config_ok d"
  "predictor_config_ok (set_osemu_known_syscall_stop v d) = predictor_config_ok d" "predictor_config_ok (set_osemu_fs_root f d) = predictor_config_ok d"
  "predictor_config_ok (modify_isa_word m w d) = predictor_config_ok d"
  by (simp_all add: predictor_config_ok_def plain_setter_defs modify_isa_word_def Let_def)

lemma configure_isa_predictor [simp]: "predictor_config_ok (configure_isa q v c) = predictor_config_ok c"
proof -
  have "predictor_config_ok (isa_letters s first subtract c) = predictor_config_ok c" for s first subtract c
    by (induction s first subtract c rule: isa_letters.induct) (auto simp: Let_def)
  then show ?thesis by (simp add: configure_isa_def Let_def)
qed

text \<open>What the constructors of the machine need of a configuration.\<close>

definition cli_config_ok :: "MachineConfig \<Rightarrow> bool" where
  "cli_config_ok c \<longleftrightarrow> config_ok c \<and> predictor_config_ok c"

lemma configure_branch_predictor_ok:
  assumes "configure_branch_predictor q args c = Inr c'" "config_ok c" "predictor_config_ok c"
  shows "config_ok c' \<and> predictor_config_ok c'"
proof (cases "args = []")
  case False
  then obtain t st b1 b2 b3 where "st \<in> predictor_states t"
    "c' = set_bp_bht_addr_bits b1 (set_bp_bhr_bits b2 (set_bp_btb_bits b3 (set_bp_init_state st (set_bp_type t (set_bp_enabled True c)))))"
    using assms(1) checked_state_valid by (fastforce simp: configure_branch_predictor_def cli_bind_Inr Let_def split: if_splits)
  moreover from this assms(2) have "config_ok c'" by (simp add: set_bp_bits_ok)
  ultimately show ?thesis
    by (simp add: predictor_config_ok_def set_bp_bht_addr_bits_def set_bp_bhr_bits_def set_bp_btb_bits_def
        set_bp_init_state_def set_bp_type_def set_bp_enabled_def Let_def)
qed (use assms in \<open>simp add: configure_branch_predictor_def\<close>)

lemma configure_steps_ok:
  "configure_hazard_unit p c = Inr c' \<Longrightarrow> cli_config_ok c \<Longrightarrow> cli_config_ok c'"
  "configure_times q p c = Inr c' \<Longrightarrow> cli_config_ok c \<Longrightarrow> cli_config_ok c'"
  "configure_caches q p c = Inr c' \<Longrightarrow> cli_config_ok c \<Longrightarrow> cli_config_ok c'"
proof -
  show "configure_hazard_unit p c = Inr c' \<Longrightarrow> cli_config_ok c \<Longrightarrow> cli_config_ok c'"
    by (auto simp: configure_hazard_unit_def set_hazard_unit_kind_def cli_config_ok_def Let_def split: if_splits option.splits)
  show "configure_times q p c = Inr c' \<Longrightarrow> cli_config_ok c \<Longrightarrow> cli_config_ok c'"
    by (auto simp: configure_times_def parse_u32_option_def cli_bind_Inr cli_config_ok_def Let_def split: if_splits option.splits)
  show "configure_caches q p c = Inr c' \<Longrightarrow> cli_config_ok c \<Longrightarrow> cli_config_ok c'"
    using configure_cache_pos
    by (auto simp: configure_caches_def cli_bind_Inr cli_config_ok_def config_ok_def predictor_config_ok_def)
qed

lemma new_config_ok: "cli_config_ok machine_config_new"
  using config_reachable_ok [OF cr_new] by (simp add: cli_config_ok_def predictor_config_ok_def machine_config_new_def)

lemma fold_isa_ok: "cli_config_ok c \<Longrightarrow> cli_config_ok (fold (configure_isa q) vs c)"
  by (induction vs arbitrary: c) (auto simp: cli_config_ok_def configure_isa_ok)

section \<open>Texts of options\<close>

text \<open>What the program relies on of the conversion of numbers: decimal numerals are read as the numbers they stand for.\<close>

locale decimal_reader =
  fixes q :: number_ops
  assumes read_decimal: "n < 2 ^ 31 \<Longrightarrow> to_long q (show_nat 10 n) = Some (int n)"
begin

lemma read_size: "n < 2 ^ 31 \<Longrightarrow> long_or_zero q (show_nat 10 n) = int n"
  by (simp add: long_or_zero_def read_decimal)

end

definition policy_names :: "(ReplacementPolicy \<times> string) list" where
  "policy_names = [(RP_RAND, ''random''), (RP_LRU, ''lru''), (RP_LFU, ''lfu'')]"

definition write_names :: "(WritePolicy \<times> string) list" where
  "write_names = [(WP_BACK, ''wb''), (WP_THROUGH_NOALLOC, ''wtna''), (WP_THROUGH_ALLOC, ''wta'')]"

definition cache_text :: "string \<Rightarrow> nat \<Rightarrow> nat \<Rightarrow> nat \<Rightarrow> string \<Rightarrow> string" where
  "cache_text rp sets block ways wp = rp @ '','' @ show_nat 10 sets @ '','' @ show_nat 10 block @ '','' @ show_nat 10 ways @ '','' @ wp"

lemma show_nat_no_comma: "CHR '','' \<notin> set (show_nat 10 n)"
proof
  assume "CHR '','' \<in> set (show_nat 10 n)"
  then have "is_digit_of 10 CHR '',''" by (rule show_nat_digits [rotated 2]) simp_all
  then show False by (simp add: is_digit_of_def digit_value_def char_code_def)
qed

lemma split_commas:
  "CHR '','' \<notin> set s \<Longrightarrow> split_at CHR '','' s = [s]" "CHR '','' \<notin> set s \<Longrightarrow> split_at CHR '','' (s @ CHR '','' # t) = s # split_at CHR '','' t"
  by (induction s) auto

lemma policy_texts:
  assumes "(p, t) \<in> set policy_names"
  shows "cli_replacement_policy t = Some p" "t \<noteq> []" "\<not> is_digit (t ! 0)" "CHR '','' \<notin> set t"
proof -
  have "list_all (\<lambda>(p, t). cli_replacement_policy t = Some p \<and> t \<noteq> [] \<and> \<not> is_digit (t ! 0) \<and> CHR '','' \<notin> set t) policy_names" by code_simp
  then show "cli_replacement_policy t = Some p" "t \<noteq> []" "\<not> is_digit (t ! 0)" "CHR '','' \<notin> set t"
    using assms by (auto simp: list_all_iff)
qed

lemma write_texts:
  assumes "(p, t) \<in> set write_names"
  shows "cli_write_policy t = Some p" "CHR '','' \<notin> set t"
proof -
  have "list_all (\<lambda>(p, t). cli_write_policy t = Some p \<and> CHR '','' \<notin> set t) write_names" by code_simp
  then show "cli_write_policy t = Some p" "CHR '','' \<notin> set t" using assms by (auto simp: list_all_iff)
qed

context decimal_reader
begin

lemma cache_option_read:
  assumes "(rp, rt) \<in> set policy_names" "(wp, wt) \<in> set write_names"
    and "0 < sets" "sets < 2 ^ 31" "0 < block" "block < 2 ^ 31" "0 < ways" "ways < 2 ^ 31"
  shows "configure_cache q [cache_text rt sets block ways wt] c =
    Inr \<lparr>cc_enabled = True, cc_set_count = sets, cc_block_size = block, cc_associativity = ways, cc_replacement_policy = rp, cc_write_policy = wp\<rparr>"
proof -
  note p = policy_texts [OF assms(1)] and w = write_texts [OF assms(2)]
  have pieces: "split_at CHR '','' (cache_text rt sets block ways wt) = [rt, show_nat 10 sets, show_nat 10 block, show_nat 10 ways, wt]"
    using p(4) w(2) show_nat_no_comma by (simp add: cache_text_def split_commas)
  have "unat (of_nat n :: u32) = n" if "n < 2 ^ 31" for n using that by (simp add: unsigned_of_nat take_bit_nat_eq_self)
  moreover from this have "0 < (of_nat n :: u32)" if "0 < n" "n < 2 ^ 31" for n using that by (simp add: word_less_nat_alt)
  ultimately show ?thesis using p(1-3) w(1) assms(3-8)
    by (cases c) (simp add: configure_cache_def pieces read_size cache_setters Let_def)
qed

end

text \<open>A reader of plain decimal numerals.\<close>

definition plain_number :: "string \<Rightarrow> nat option" where
  "plain_number s = (case read_digits 10 s 0 0 of (v, k) \<Rightarrow> if s \<noteq> [] \<and> k = length s then Some v else None)"

definition plain_numbers :: number_ops where
  "plain_numbers = \<lparr>to_long = (\<lambda>s. map_option int (plain_number s)), to_int = (\<lambda>s. map_option int (plain_number s)),
     to_uint = (\<lambda>s. map_option of_nat (plain_number s)), to_ulong = (\<lambda>s. map_option of_nat (plain_number s)),
     stoul = (\<lambda>s. map_option (\<lambda>n. (of_nat n, length s)) (plain_number s)),
     to_upper = map (\<lambda>c. if 97 \<le> char_code c \<and> char_code c \<le> 122 then char_of (char_code c - 32) else c)\<rparr>"

interpretation plain_reader: decimal_reader plain_numbers
proof
  fix n :: nat
  have "read_digits 10 (show_nat 10 n) 0 0 = (n, length (show_nat 10 n))" using read_show_nat [of 10 n "[]" 0 0] by simp
  then show "to_long plain_numbers (show_nat 10 n) = Some (int n)" by (simp add: plain_numbers_def plain_number_def)
qed

section \<open>Instruction sets\<close>

lemma fixed_kept: "config_ok c \<Longrightarrow> bit config_isa_word_fixed n \<Longrightarrow> bit (mf_isa_word c) n"
  unfolding config_ok_def by (metis bit_and_iff)

lemma modify_bits:
  assumes "config_ok c" "n < 64" "bit w n \<longrightarrow> bit m n"
  shows "bit (mf_isa_word (modify_isa_word m w c)) n \<longleftrightarrow>
    (if bit m n \<and> \<not> bit config_isa_word_fixed n then bit w n else bit (mf_isa_word c) n)"
  using assms(2,3) fixed_kept [OF assms(1), of n] by (auto simp: modify_isa_word_def isa_modify_def Let_def bit_simps)

lemma letter_flag: "65 \<le> char_code ch \<Longrightarrow> char_code ch \<le> 90 \<Longrightarrow> isa_by_char ch = push_bit (char_code ch - 65) 1"
  by (simp add: isa_by_char_def char_code_def)

text \<open>The letters A to Z.\<close>

definition isa_letter :: "char \<Rightarrow> bool" where
  "isa_letter ch \<longleftrightarrow> 65 \<le> char_code ch \<and> char_code ch \<le> 90"

lemma letter_bit:
  assumes "isa_letter ch"
  shows "bit (isa_by_char ch) k \<longleftrightarrow> k = char_code ch - 65" "isa_by_char ch \<noteq> 0"
proof -
  show b: "bit (isa_by_char ch) k \<longleftrightarrow> k = char_code ch - 65" for k
    using assms by (auto simp: isa_letter_def letter_flag bit_simps)
  show "isa_by_char ch \<noteq> 0" using b [of "char_code ch - 65"] by auto
qed

lemma contains_letter: "isa_letter ch \<Longrightarrow> isa_contains w ch \<longleftrightarrow> bit w (char_code ch - 65)"
  unfolding isa_contains_def bit_eq_iff [of "w AND isa_by_char ch"] by (auto simp: letter_bit bit_and_iff isa_letter_def)

text \<open>
  What the text of a variant says of a letter: its last mention decides, together with the sign in front of it,
  the nearest one to the left, where no sign counts as a plus.
\<close>

definition isa_sign :: "char \<Rightarrow> bool" where
  "isa_sign ch \<longleftrightarrow> ch = CHR ''+'' \<or> ch = CHR ''-''"

definition last_mention_adds :: "char \<Rightarrow> string \<Rightarrow> char \<Rightarrow> bool" where
  "last_mention_adds sign s l \<longleftrightarrow>
     (\<exists>u v. s = u @ l # v \<and> l \<notin> set v \<and> last (sign # filter isa_sign u) = CHR ''+'')"

lemma last_mention_adds_Cons:
  "last_mention_adds sign (ch # s) l \<longleftrightarrow> ch = l \<and> l \<notin> set s \<and> sign = CHR ''+'' \<or>
     last_mention_adds (if isa_sign ch then ch else sign) s l"
proof -
  have "(\<exists>u v. ch # s = u @ l # v \<and> l \<notin> set v \<and> P u) \<longleftrightarrow>
      ch = l \<and> l \<notin> set s \<and> P [] \<or> (\<exists>u v. s = u @ l # v \<and> l \<notin> set v \<and> P (ch # u))" for P
    by (auto simp: Cons_eq_append_conv)
  from this [of "\<lambda>u. last (sign # filter isa_sign u) = CHR ''+''"] show ?thesis
    by (cases "isa_sign ch") (simp_all only: last_mention_adds_def filter.simps last.simps if_True if_False simp_thms list.distinct)
qed

lemma last_mention_adds_in: "last_mention_adds sign s l \<Longrightarrow> l \<in> set s"
  by (auto simp: last_mention_adds_def)

text \<open>The same, letter by letter: the sign so far and what holds without the rest of the text.\<close>

fun mentioned :: "string \<Rightarrow> bool \<Rightarrow> char \<Rightarrow> bool \<Rightarrow> bool" where
  "mentioned [] subtract l before = before"
| "mentioned (ch # s) subtract l before =
     (if isa_sign ch then mentioned s (ch = CHR ''-'') l before
      else mentioned s subtract l (if ch = l then \<not> subtract else before))"

lemma mentioned_iff:
  assumes "\<not> isa_sign l"
  shows "mentioned s subtract l before \<longleftrightarrow>
    (if l \<in> set s then last_mention_adds (if subtract then CHR ''-'' else CHR ''+'') s l else before)"
proof (induction s arbitrary: subtract before)
  case (Cons ch s)
  then show ?case using assms last_mention_adds_in [of _ s l] by (cases "l \<in> set s") (auto simp: last_mention_adds_Cons isa_sign_def)
qed simp

lemma isa_letters_contains:
  assumes "isa_letter l" "list_all (\<lambda>ch. isa_letter ch \<or> isa_sign ch) s" "config_ok c"
  shows "isa_contains (mf_isa_word (isa_letters s False subtract c)) l \<longleftrightarrow>
    isa_contains config_isa_word_fixed l \<or> mentioned s subtract l (isa_contains (mf_isa_word c) l)"
  using assms(2,3)
proof (induction s arbitrary: subtract c)
  case Nil
  then show ?case using fixed_kept [OF Nil(2)] by (auto simp: contains_letter [OF assms(1)])
next
  case (Cons ch s)
  show ?case
  proof (cases "isa_sign ch")
    case False
    then have ch: "isa_letter ch" "ch \<noteq> CHR ''+''" "ch \<noteq> CHR ''-''" using Cons.prems(1) by (auto simp: isa_sign_def)
    define d where "d = (if subtract then modify_isa_word (isa_by_char ch) 0 c else modify_isa_word (isa_by_char ch) (isa_by_char ch) c)"
    have d: "config_ok d" using Cons.prems(2) by (simp add: d_def set_isa_ok)
    have l: "char_code l - 65 < 64" using assms(1) unfolding isa_letter_def by arith
    have eq: "char_code l - 65 = char_code ch - 65 \<longleftrightarrow> ch = l"
      using assms(1) ch(1) char_code_eq_iff [of ch l] unfolding isa_letter_def by auto
    have b: "bit (isa_by_char ch) (char_code l - 65) \<longleftrightarrow> ch = l" by (simp only: letter_bit(1) [OF ch(1)] eq)
    have m: "bit (mf_isa_word (modify_isa_word (isa_by_char ch) w c)) (char_code l - 65) \<longleftrightarrow>
        (if ch = l \<and> \<not> bit config_isa_word_fixed (char_code l - 65) then bit w (char_code l - 65) else bit (mf_isa_word c) (char_code l - 65))"
      if "w = 0 \<or> w = isa_by_char ch" for w
      using modify_bits [OF Cons.prems(2) l, of w "isa_by_char ch", unfolded b] that b by auto
    have "isa_contains (mf_isa_word d) l \<longleftrightarrow>
        (if ch = l \<and> \<not> isa_contains config_isa_word_fixed l then \<not> subtract else isa_contains (mf_isa_word c) l)"
      unfolding contains_letter [OF assms(1)] d_def using m [of 0] m [of "isa_by_char ch"] b by (cases subtract) auto
    moreover have "isa_letters (ch # s) False subtract c = isa_letters s False subtract d"
      using ch letter_bit(2) [OF ch(1)] by (simp add: Let_def d_def)
    moreover have "isa_contains config_isa_word_fixed l \<Longrightarrow> isa_contains (mf_isa_word c) l"
      using fixed_kept [OF Cons.prems(2)] by (simp add: contains_letter [OF assms(1)])
    ultimately show ?thesis using False Cons.IH [OF _ d, of subtract] Cons.prems(1) by auto
  qed (use Cons in \<open>auto simp: isa_sign_def\<close>)
qed

section \<open>Properties\<close>

text \<open>
  Claim C31: Every configuration that the program accepts from its command line is one that the machine can be built from: the
  caches have at least one set, block and way, the tables of the predictor keep their limits, an enabled predictor has a
  type and an initial state of that type, and the fixed instruction sets stay enabled.
\<close>

theorem cli_configuration_valid:
  assumes "configure_machine q p machine_config_new = Inr c"
  shows "config_ok c \<and> predictor_config_ok c"
proof -
  obtain c1 c2 c3 c4 where c: "configure_hazard_unit p (set_pipelined (cl_set p ''pipelined'') (set_delay_slot (\<not> cl_set p ''no-delay-slot'')
          (set_elf (cl_arguments p ! 0) machine_config_new))) = Inr c1" "configure_times q p c1 = Inr c2" "configure_caches q p c2 = Inr c3"
      "configure_branch_predictor q (cl_values p ''branch-predictor'') c3 = Inr c4"
    and r: "c = (let c = set_osemu_known_syscall_stop False (set_osemu_enable (cl_set p ''os-emulation'') c4);
            roots = cl_values p ''os-fs-root'';
            c = (if roots \<noteq> [] \<and> last roots \<noteq> [] then set_osemu_fs_root (last roots) c else c);
            c = fold (configure_isa q) (cl_values p ''isa-variant'') c
        in set_vm_enabled (cl_set p ''enable-vm'') c)"
    using assms by (auto simp: configure_machine_def cli_bind_Inr Let_def split: if_splits)
  have "cli_config_ok (set_pipelined a (set_delay_slot b (set_elf f machine_config_new)))" for a b f
    using new_config_ok by (simp add: cli_config_ok_def)
  with c(1-3) configure_steps_ok have "cli_config_ok c3" by blast
  then have "cli_config_ok c4" using configure_branch_predictor_ok [OF c(4)] by (simp add: cli_config_ok_def)
  then have "cli_config_ok c" unfolding r Let_def
    using fold_isa_ok by (simp add: cli_config_ok_def)
  then show ?thesis by (simp add: cli_config_ok_def)
qed

text \<open>
  Claim C32: the option for the instruction set gives what it names, for every text that consists, after an optional prefix
  RV32 or RV64, of letters and signs: the prefix sets the word length (without one it stays); a set that is
  mentioned is enabled when its last mention stands after a plus or after no sign and disabled when it stands after a minus; a
  set that is not mentioned is disabled when the text begins with a letter and stays as it was otherwise; and the fixed sets
  are always enabled.  Other characters, such as an underscore, are outside the claim: the code takes them for the letter A.
\<close>

theorem isa_variant_letters:
  assumes "config_ok c" "to_upper q variant = prefix @ s" "prefix \<in> {[], ''RV32'', ''RV64''}"
    "list_all (\<lambda>ch. isa_letter ch \<or> isa_sign ch) s"
  shows "mf_simulated_xlen (configure_isa q variant c) =
      (if prefix = ''RV32'' then XLEN_32 else if prefix = ''RV64'' then XLEN_64 else mf_simulated_xlen c) \<and>
    (\<forall>l. isa_letter l \<longrightarrow> (isa_contains (mf_isa_word (configure_isa q variant c)) l \<longleftrightarrow>
       isa_contains config_isa_word_fixed l \<or>
       (if l \<in> set s then last_mention_adds CHR ''+'' s l
        else \<not> (s \<noteq> [] \<and> isa_letter (hd s)) \<and> isa_contains (mf_isa_word c) l)))"
proof -
  define c1 where "c1 = (if prefix = ''RV32'' then set_simulated_xlen XLEN_32 c else if prefix = ''RV64'' then set_simulated_xlen XLEN_64 c else c)"
  have c1: "config_ok c1" "mf_isa_word c1 = mf_isa_word c" using assms(1) by (simp_all add: c1_def set_simulated_xlen_def config_ok_def)
  have "x \<in> set s \<Longrightarrow> isa_letter x \<or> isa_sign x" for x using assms(4) by (auto simp: list_all_iff)
  from this [of "CHR ''3''"] this [of "CHR ''6''"] have "CHR ''3'' \<notin> set s" "CHR ''6'' \<notin> set s"
    by (auto simp: isa_letter_def isa_sign_def char_code_def)
  then have "\<not> starts_with s ''RV32''" "\<not> starts_with s ''RV64''"
    using in_set_takeD [of "CHR ''3''" 4 s] in_set_takeD [of "CHR ''6''" 4 s] by (auto simp: starts_with_def numeral_eq_Suc)
  then have e: "configure_isa q variant c = isa_letters s True False c1"
    using assms(2,3) by (auto simp: configure_isa_def c1_def Let_def starts_with_def)
  define c2 where "c2 = (if s \<noteq> [] \<and> isa_letter (hd s) then modify_isa_word (NOT 0) 0 c1 else c1)"
  have "isa_letters s True False c1 = isa_letters s False False c2"
  proof (cases s)
    case (Cons ch t)
    then show ?thesis using assms(4) letter_bit(2) [of ch] by (auto simp: c2_def Let_def isa_sign_def isa_letter_def char_code_def)
  qed (simp add: c2_def)
  note e = e [unfolded this]
  have c2: "config_ok c2" using c1(1) by (simp add: c2_def set_isa_ok)
  have xl: "mf_simulated_xlen (isa_letters s f b d) = mf_simulated_xlen d" for s f b d
    by (induction s f b d rule: isa_letters.induct) (auto simp: Let_def modify_isa_word_def)
  have "isa_contains (mf_isa_word (configure_isa q variant c)) l \<longleftrightarrow> isa_contains config_isa_word_fixed l \<or>
      (if l \<in> set s then last_mention_adds CHR ''+'' s l else \<not> (s \<noteq> [] \<and> isa_letter (hd s)) \<and> isa_contains (mf_isa_word c) l)" if "isa_letter l" for l
  proof -
    have "char_code l - 65 < 64" "\<not> isa_sign l" using that unfolding isa_letter_def isa_sign_def by (arith, auto simp: char_code_def)
    moreover from this have "isa_contains (mf_isa_word c2) l \<longleftrightarrow> isa_contains config_isa_word_fixed l \<or>
        \<not> (s \<noteq> [] \<and> isa_letter (hd s)) \<and> isa_contains (mf_isa_word c) l"
      using modify_bits [OF c1(1), of "char_code l - 65" 0 "NOT 0"] fixed_kept [OF c1(1), of "char_code l - 65"] c1(2)
      by (auto simp: c2_def contains_letter [OF that])
    ultimately show ?thesis
      unfolding e using isa_letters_contains [OF that assms(4) c2, of False] by (auto simp: mentioned_iff)
  qed
  then show ?thesis using e by (auto simp: xl c2_def c1_def modify_isa_word_def set_simulated_xlen_def Let_def)
qed

theorem isa_variant_letters_witness:
  "isa_contains (mf_isa_word (configure_isa plain_numbers ''rv64im-m+a'' machine_config_new)) CHR ''A'' \<and>
   isa_contains (mf_isa_word (configure_isa plain_numbers ''rv64im-m+a'' machine_config_new)) CHR ''M'' = isa_contains config_isa_word_fixed CHR ''M'' \<and>
   mf_simulated_xlen (configure_isa plain_numbers ''rv64im-m+a'' machine_config_new) = XLEN_64"
proof -
  have t: "to_upper plain_numbers ''rv64im-m+a'' = ''RV64'' @ ''IM-M+A''" by code_simp
  have s: "list_all (\<lambda>ch. isa_letter ch \<or> isa_sign ch) ''IM-M+A''" "isa_letter CHR ''M''" "isa_letter CHR ''A''" by code_simp+
  have "mentioned ''IM-M+A'' False CHR ''A'' False" "\<not> mentioned ''IM-M+A'' False CHR ''M'' False" "\<not> isa_sign CHR ''A''" "\<not> isa_sign CHR ''M''"
    by code_simp+
  then have m: "last_mention_adds CHR ''+'' ''IM-M+A'' CHR ''A''" "\<not> last_mention_adds CHR ''+'' ''IM-M+A'' CHR ''M''"
    by (simp_all add: mentioned_iff del: mentioned.simps)
  have "config_ok machine_config_new" using new_config_ok by (simp add: cli_config_ok_def)
  from isa_variant_letters [OF this t _ s(1)] s(2,3) m show ?thesis by auto
qed

text \<open>A command line with a cache and a predictor.\<close>

definition sample_cmdline :: cmdline where
  "sample_cmdline = \<lparr>cl_set = (\<lambda>n. n = ''pipelined''), cl_values = (\<lambda>n. if n = ''d-cache'' then [''lru,4,2,2,wb'']
     else if n = ''branch-predictor'' then [''smith_1_bit,taken,2,0,2''] else []), cl_arguments = [''a.elf'']\<rparr>"

theorem cli_configuration_valid_witness:
  "\<exists>c. configure_machine plain_numbers sample_cmdline machine_config_new = Inr c \<and> cache_config_pos (mf_cch_data c)"
proof -
  have "case configure_machine plain_numbers sample_cmdline machine_config_new of Inl _ \<Rightarrow> False | Inr c \<Rightarrow> True" by code_simp
  then obtain c where c: "configure_machine plain_numbers sample_cmdline machine_config_new = Inr c" by (auto split: sum.splits)
  from cli_configuration_valid [OF c] c show ?thesis by (auto simp: config_ok_def)
qed

text \<open>A character that is no letter enables the set A, so separators in the name of a variant do.\<close>

lemma isa_separator: "isa_by_char CHR ''_'' = isa_by_char CHR ''A''"
  by code_simp

text \<open>Tracing register 32 passes the test of the number and ends the program by an exception.\<close>

lemma trace_register_32: "to_int q t = Some 32 \<Longrightarrow> t \<noteq> ''*'' \<Longrightarrow> trace_registers q [t] (replicate REGISTER_COUNT False) = Inl Uncaught_Exception"
  by (simp add: REGISTER_COUNT_def)

end
