(* ===== verification/Spec2Isabelle.thy ===== *)
theory Spec2Isabelle
  imports Core_Refines Core_Hazards Core_Traps Core_Atomics Tlb Machine_Status Machine_Config Asm_Listing Os_Syscall_Correct Program_Loader Cli_Config
begin

text \<open>
  QtRvSim, a RISC-V simulator for teaching (\<^verbatim>\<open>src/src/machine\<close>,
  \<^verbatim>\<open>src/src/assembler\<close>, \<^verbatim>\<open>src/src/os_emulation\<close>, \<^verbatim>\<open>src/src/cli\<close>), verified.

  \<^bold>\<open>The program.\<close>  A machine is a core attached to a hierarchy of memories.  The core
  fetches an instruction word, decodes it through a tree of tables, executes it with the ALU and
  the multiplier, accesses the memory and writes the register file.  A memory access goes through
  a TLB and caches to the memory data bus, which finds the device of the address among its
  ranges: the main memory, a tree of lazily allocated sections, or a peripheral.  The machine
  connects the parts, steps the core and wires the interrupt lines of the peripherals to the
  control registers.  An assembler turns source files into words of the memory: it splits lines,
  parses instructions with the tables of the decoder, evaluates expressions, keeps the
  symbols and resolves relocations at the end.  Without an operating system on the machine its calls
  are emulated: a handler takes the registers of the call, reads or writes the memory of the program,
  uses a file of the host or the terminal and returns a result in register a0.

  \<^bold>\<open>Theories.\<close>
  \<^item> \<open>Machine_Prelude\<close>: the words, the result type (an exception of the simulator or a value),
    state-changing code that may throw (\<open>action\<close>), shared lemmas on words.
  \<^item> \<open>Machine_Defs\<close>: the enumerations of \<^verbatim>\<open>machinedefs.h\<close>.
  \<^item> \<open>Registers\<close>: \<^verbatim>\<open>registers.cpp\<close>.  The register file is an array with register 0 fixed.
  \<^item> \<open>Alu\<close>: \<^verbatim>\<open>execute/alu.cpp\<close> and the high multiplications of
    \<^verbatim>\<open>common/polyfills/mulh64.h\<close>, at their widths.
  \<^item> \<open>BitField\<close>: \<^verbatim>\<open>bitfield.h\<close> and \<^verbatim>\<open>common/math/bit_ops.h\<close>.
  \<^item> \<open>Instruction_Map\<close>, \<open>Instruction\<close>: \<^verbatim>\<open>instruction.cpp\<close>, all tables of the decoding tree, the
    search, the fields of an instruction and its encoding.  Decoding is total, sound and
    complete for the tables, and inverse to the encoding.
  \<^item> \<open>Bytes\<close>, \<open>Memory_Utils\<close>: byte order (\<^verbatim>\<open>common/endian.h\<close>) and the access loop of
    \<^verbatim>\<open>memory/memory_utils.h\<close>; the byte array that specifies a memory.
  \<^item> \<open>Backend_Memory\<close>: \<^verbatim>\<open>memory/backend/memory.cpp\<close>, the section tree; it refines the array, for
    reads inside one section or over allocated sections.
  \<^item> \<open>Cache_Policy\<close>: \<^verbatim>\<open>memory/cache/cache_policy.cpp\<close>; the interface of a policy is the locale
    \<open>replacement_policy\<close>, interpreted by every policy and by the dispatch over them.
  \<^item> \<open>Frontend_Memory\<close>: \<^verbatim>\<open>memory/frontend_memory.cpp\<close>; a memory is a record of operations, its
    contract the locale \<open>frontend_contract\<close>.
  \<^item> \<open>Memory_Bus\<close>: \<^verbatim>\<open>memory/memory_bus.cpp\<close>; a device on the bus satisfies the contract.
  \<^item> \<open>Cache\<close>: \<^verbatim>\<open>memory/cache/cache.cpp\<close>; a cache over a memory that satisfies the contract
    satisfies it again.
  \<^item> \<open>Control_State\<close>: \<^verbatim>\<open>csr/controlstate.cpp\<close>, \<^verbatim>\<open>csr/address.h\<close>; the table of control registers,
    their write handlers, interrupts and the status bits of traps.
  \<^item> \<open>Predictor\<close>: \<^verbatim>\<open>predictor.cpp\<close>; the branch target buffer, the history register and table and the
    predictors on them.
  \<^item> \<open>Pipeline\<close>, \<open>Core\<close>: \<^verbatim>\<open>pipeline.h\<close>, \<^verbatim>\<open>core.cpp\<close>; one definition per stage, both cores, the hazard
    unit, exceptions and the atomic instructions.  \<open>Action_Logic\<close> has the rules by which an
    invariant passes through code that changes the state and may throw.
  \<^item> \<open>Core_Invariant\<close>: the invariant of every reachable core, and which instructions are legal.
  \<^item> \<open>Isa\<close>, \<open>Isa_Tables\<close>: the instruction set (RV32/RV64 I and M) as a specification by
    mnemonic, and that the entries of the instruction tables have the attributes it needs.
  \<^item> \<open>Core_Exec\<close>, \<open>Core_Refines\<close>: a core and its memories are the locale \<open>core_memory\<close>; a step of the
    single-cycle core is a step of the specification.  It is interpreted by a
    core on the memory bus and by one behind a cache.
  \<^item> \<open>Tlb_Policy\<close>, \<open>Page_Table\<close>, \<open>Tlb\<close>: \<^verbatim>\<open>memory/tlb\<close> and \<^verbatim>\<open>memory/virtual\<close>.  The walker computes the
    translation of Sv32 and Sv39; it is that of the architecture but for three checks that the code does not make (canonical
    addresses, reserved bits, supervisor fetches from user pages).  A coherent TLB translates as the page tables do,
    \<^verbatim>\<open>sfence.vma\<close> restores coherence; with translation off a TLB satisfies the memory contract.
  \<^item> \<open>Word_Access\<close>: the loops of \<^verbatim>\<open>memory_utils.h\<close> for devices of one word width; the locale
    \<open>word_array\<close> makes an array of bytes of a device that keeps its words.
  \<^item> \<open>Device_Events\<close>, \<open>Serial_Port\<close>, \<open>Spi_Led\<close>, \<open>Lcd_Display\<close>, \<open>Aclint\<close>: the peripherals of
    \<^verbatim>\<open>memory/backend\<close>, with the signals they emit as a log: order of serial bytes, interrupt
    lines, pixels of the screen.
  \<^item> \<open>Machine_Bus\<close>, \<open>Machine_Status\<close>: \<^verbatim>\<open>machine.cpp\<close>, the memory map and the control of a machine.
  \<^item> \<open>Machine_Config\<close>: \<^verbatim>\<open>machineconfig.cpp\<close>, \<^verbatim>\<open>config_isa.h\<close>.  The settings are the locale \<open>settings_store\<close>,
    interpreted by a map; a stored configuration is read back but for the options that are not stored.
  \<^item> \<open>Core_Hazards\<close>, \<open>Core_Traps\<close>, \<open>Core_Atomics\<close>: forwarding and stalls (and the operands that
    are forwarded wrongly), traps and returns, reservations and read-modify-write instructions.
  \<^item> \<open>Text_Utils\<close>: the operations of \<^verbatim>\<open>QString\<close> and the C library that the assembler uses, and that printed
    numbers are read back.
  \<^item> \<open>Instruction_Text\<close>, \<open>Instruction_Names\<close>, \<open>Instruction_Round_Trip\<close>: the text of instructions in
    \<^verbatim>\<open>instruction.cpp\<close>, printing and parsing with aliases and pseudo instructions.  What is
    printed for an instruction is assembled to its word, as long as offsets are in the range of their descriptors.
  \<^item> \<open>Fix_Math_Eval\<close>: \<^verbatim>\<open>fixmatheval.cpp\<close>, the expressions.  The parser reads the canonical form of an expression
    with the usual precedences; the reader of numbers is the locale \<open>number_reader\<close>.
  \<^item> \<open>Symbol_Table\<close>: \<^verbatim>\<open>symboltable.cpp\<close>; the locale \<open>symbol_store\<close> is what its clients rely on.
  \<^item> \<open>Simple_Asm\<close>: \<^verbatim>\<open>simpleasm.cpp\<close>, lines, directives, files and relocations.  \<open>Asm_Errors\<close>: results,
    messages and the end of nested includes; \<open>Asm_Lines\<close>, \<open>Asm_Listing\<close>: a listing is assembled
    into the memory of the machine, over the locale \<open>assembler_memory\<close>.
  \<^item> \<open>Os_Path\<close>, \<open>Os_Syscall\<close>, \<open>Os_Syscall_Correct\<close>: \<^verbatim>\<open>ossyscall.cpp\<close>, \<^verbatim>\<open>syscallent.h\<close>, \<^verbatim>\<open>target_errno.h\<close>.  The host is
    the record \<open>host_ops\<close>.  No path leaves the root directory; a call changes only its result register and
    what its handler is for; descriptors, the buffers of \<^verbatim>\<open>read\<close> and \<^verbatim>\<open>write\<close>, opened names, over the
    locale \<open>syscall_memory\<close>, which is interpreted by the main memory on the memory bus.

  \<^item> \<open>Program_Loader\<close>: \<^verbatim>\<open>programloader.cpp\<close> and the loading in the constructor of \<^verbatim>\<open>machine.cpp\<close>.  The memory holds the
    segments of an executable, zeros elsewhere.
  \<^item> \<open>Cli_Config\<close>: the options of the command line program, \<^verbatim>\<open>cli/main.cpp\<close>.  Every accepted configuration is one that
    a machine can be built from; the conversion of numbers is the locale \<open>decimal_reader\<close>.

  \<^bold>\<open>Bounds.\<close>  The loops of the modelled code are total functions: the access
  loops and the recursion of the cache by the length of the remaining buffer, the search of the
  decoding tree by its depth.  The loops of the predictor over its table count in 16 bits and may
  not end; they are partial functions, and when they return is proved.  The nesting of included files
  is bounded by an argument; a bound above the number of files is enough.  The length of a file name that
  a program passes is bounded by \<open>oe_name_bound\<close>; a name that ends within the bound is read.

  \<^bold>\<open>Not modelled.\<close>  The graphical user interface and its models, and of the command line program the output of the tracer and
  the reporter and the connection of files to devices.  The library that reads ELF files, the parser of options, the clock of
  the host, the identifiers of its timers, the answers of the terminal and the files of the host are arguments.
\<close>

end
